(* ===== verification/Prelude.thy ===== *)
theory Prelude
  imports Main "HOL-Library.Word" "HOL-Library.Char_ord" "HOL-Library.List_Lexorder"
    "HOL-Library.Multiset"
begin

text \<open>
  The vocabulary every component shares: bytes and C++ strings, the members of
  \<^verbatim>\<open>std::string\<close> the sources call (\<^verbatim>\<open>find\<close>, \<^verbatim>\<open>find_first_of\<close>, \<^verbatim>\<open>substr\<close>, ...),
  \<^verbatim>\<open>std::getline\<close>, the C locale's \<^verbatim>\<open>tolower\<close> and \<^verbatim>\<open>strcasecmp\<close>, number
  printing and scanning (\<^verbatim>\<open>std::to_string\<close>, \<^verbatim>\<open>std::stoi\<close>, \<^verbatim>\<open>std::stol\<close>),
  ordered associative arrays (\<^verbatim>\<open>std::map\<close>) and JSON values.

  Conventions.  \<^verbatim>\<open>std::string::npos\<close> is \<^term>\<open>None\<close>; an operation that can throw
  returns \<open>exn + 'a\<close> with \<^term>\<open>Inl\<close> for the exception; a null pointer is
  \<^term>\<open>None\<close>.  Strings are byte strings: a \<^typ>\<open>char\<close> is one byte.
\<close>

section \<open>Named collections\<close>

named_theorems str_simps "rewrite rules for the string operations"
named_theorems model_defs "definitions that component proofs unfold"
named_theorems inv_intros "introduction rules that preserve an invariant"

section \<open>Bytes, strings, exceptions\<close>

type_synonym byte = "8 word"
type_synonym size = "64 word"

datatype exn =
    Out_Of_Range
  | Invalid_Argument
  | Length_Error
  | Runtime_Error string

type_synonym 'a res = "exn + 'a"

text \<open>A statement that may throw, followed by the rest of its block.\<close>

definition rbind :: "'a res \<Rightarrow> ('a \<Rightarrow> 'b res) \<Rightarrow> 'b res" where
  "rbind r f = (case r of Inl e \<Rightarrow> Inl e | Inr x \<Rightarrow> f x)"

lemma rbind_simps [simp]: "rbind (Inl e) f = Inl e" "rbind (Inr x) f = f x"
  by (simp_all add: rbind_def)

lemma rbind_Inr: "rbind r f = Inr y \<Longrightarrow> \<exists>x. r = Inr x \<and> f x = Inr y"
  by (cases r) auto

definition byte_of_char :: "char \<Rightarrow> byte" where
  "byte_of_char c = word_of_nat (of_char c)"

definition char_of_byte :: "byte \<Rightarrow> char" where
  "char_of_byte b = char_of (unat b)"

lemma char_of_byte_of_char [simp, str_simps]: "char_of_byte (byte_of_char c) = c"
proof -
  have "unat (byte_of_char c) = (of_char c :: nat)"
    unfolding byte_of_char_def by (simp add: unat_of_nat)
  then show ?thesis unfolding char_of_byte_def by simp
qed

lemma byte_of_char_of_byte [simp, str_simps]: "byte_of_char (char_of_byte b) = b"
proof -
  have "unat b < 256" using unsigned_less [of b] by simp
  then show ?thesis unfolding byte_of_char_def char_of_byte_def
    by (simp add: of_char_of)
qed

subsection \<open>Searching a string\<close>

text \<open>\<^verbatim>\<open>s.find(pat, pos)\<close>: the least match that starts at or after \<^verbatim>\<open>pos\<close>.\<close>

fun find_from :: "'a list \<Rightarrow> 'a list \<Rightarrow> nat \<Rightarrow> nat option" where
  "find_from [] pat i = (if pat = [] then Some i else None)"
| "find_from (c # cs) pat i =
     (if take (length pat) (c # cs) = pat then Some i else find_from cs pat (Suc i))"

definition str_find :: "'a list \<Rightarrow> 'a list \<Rightarrow> nat \<Rightarrow> nat option" where
  "str_find s pat pos = (if pos \<le> length s then find_from (drop pos s) pat pos else None)"

text \<open>The first index whose character satisfies a predicate (\<^verbatim>\<open>find_first_of\<close>,
  \<^verbatim>\<open>find_first_not_of\<close>) and the last one (\<^verbatim>\<open>find_last_of\<close>, \<^verbatim>\<open>find_last_not_of\<close>).\<close>

fun index_where :: "('a \<Rightarrow> bool) \<Rightarrow> 'a list \<Rightarrow> nat \<Rightarrow> nat option" where
  "index_where P [] i = None"
| "index_where P (c # cs) i = (if P c then Some i else index_where P cs (Suc i))"

definition find_first_of :: "string \<Rightarrow> string \<Rightarrow> nat \<Rightarrow> nat option" where
  "find_first_of s set1 pos = index_where (\<lambda>c. c \<in> set set1) (drop pos s) pos"

definition find_first_not_of :: "string \<Rightarrow> string \<Rightarrow> nat \<Rightarrow> nat option" where
  "find_first_not_of s set1 pos = index_where (\<lambda>c. c \<notin> set set1) (drop pos s) pos"

fun last_index_where :: "('a \<Rightarrow> bool) \<Rightarrow> 'a list \<Rightarrow> nat \<Rightarrow> nat option \<Rightarrow> nat option" where
  "last_index_where P [] i acc = acc"
| "last_index_where P (c # cs) i acc =
     last_index_where P cs (Suc i) (if P c then Some i else acc)"

definition find_last_of :: "string \<Rightarrow> string \<Rightarrow> nat option" where
  "find_last_of s set1 = last_index_where (\<lambda>c. c \<in> set set1) s 0 None"

definition find_last_not_of :: "string \<Rightarrow> string \<Rightarrow> nat option" where
  "find_last_not_of s set1 = last_index_where (\<lambda>c. c \<notin> set set1) s 0 None"

text \<open>\<^verbatim>\<open>s.substr(pos, n)\<close> throws when \<^verbatim>\<open>pos\<close> is past the end; \<^verbatim>\<open>s.substr(pos)\<close>
  is the same with no bound on the length.\<close>

definition substr :: "string \<Rightarrow> nat \<Rightarrow> nat \<Rightarrow> string res" where
  "substr s pos n = (if pos \<le> length s then Inr (take n (drop pos s)) else Inl Out_Of_Range)"

definition substr_end :: "string \<Rightarrow> nat \<Rightarrow> string res" where
  "substr_end s pos = (if pos \<le> length s then Inr (drop pos s) else Inl Out_Of_Range)"

text \<open>\<^verbatim>\<open>s.substr(start, end - start)\<close> where \<^verbatim>\<open>end\<close> is the result of a search: with
  \<^verbatim>\<open>npos\<close> the length wraps to more than any string holds, so the rest is taken.\<close>

definition substr_until :: "string \<Rightarrow> nat \<Rightarrow> nat option \<Rightarrow> string res" where
  "substr_until s start e =
     (case e of None \<Rightarrow> substr_end s start | Some e' \<Rightarrow> substr s start (e' - start))"

subsection \<open>Characters in the C locale\<close>

definition c_tolower :: "char \<Rightarrow> char" where
  "c_tolower c = (let n = of_char c :: nat in if 65 \<le> n \<and> n \<le> 90 then char_of (n + 32) else c)"

text \<open>The same on the bits of the character, for evaluation.\<close>

lemma c_tolower_code [code]:
  "c_tolower (Char b0 b1 b2 b3 b4 b5 b6 b7) =
     (if \<not> b7 \<and> b6 \<and> \<not> b5 \<and> (b0 \<or> b1 \<or> b2 \<or> b3 \<or> b4) \<and> \<not> (b4 \<and> b3 \<and> (b2 \<or> (b1 \<and> b0)))
      then Char b0 b1 b2 b3 b4 True b6 b7 else Char b0 b1 b2 b3 b4 b5 b6 b7)"
  by (cases b0; cases b1; cases b2; cases b3; cases b4; cases b5; cases b6; cases b7;
      simp add: c_tolower_def char_of_def bit_0)

definition c_toupper :: "char \<Rightarrow> char" where
  "c_toupper c = (let n = of_char c :: nat in if 97 \<le> n \<and> n \<le> 122 then char_of (n - 32) else c)"

definition c_isspace :: "char \<Rightarrow> bool" where
  "c_isspace c = (let n = of_char c :: nat in n = 32 \<or> (9 \<le> n \<and> n \<le> 13))"

definition c_isdigit :: "char \<Rightarrow> bool" where
  "c_isdigit c = (let n = of_char c :: nat in 48 \<le> n \<and> n \<le> 57)"

text \<open>\<^verbatim>\<open>c_str()\<close> read by a C function stops at the first NUL.\<close>

definition c_str :: "string \<Rightarrow> string" where
  "c_str s = takeWhile (\<lambda>c. c \<noteq> CHR 0x00) s"

lemma c_str_id: "CHR 0x00 \<notin> set s \<Longrightarrow> c_str s = s"
  by (simp add: c_str_def takeWhile_eq_all_conv) auto

definition to_lower :: "string \<Rightarrow> string" where
  "to_lower s = map c_tolower s"

definition to_upper :: "string \<Rightarrow> string" where
  "to_upper s = map c_toupper s"

text \<open>\<^verbatim>\<open>strcasecmp(a.c_str(), b.c_str()) == 0\<close>.\<close>

definition strcaseeq :: "string \<Rightarrow> string \<Rightarrow> bool" where
  "strcaseeq a b = (to_lower (c_str a) = to_lower (c_str b))"

lemma strcaseeq_refl [simp]: "strcaseeq a a"
  by (simp add: strcaseeq_def)

lemma strcaseeq_sym: "strcaseeq a b \<Longrightarrow> strcaseeq b a"
  by (simp add: strcaseeq_def)

lemma strcaseeq_trans: "strcaseeq a b \<Longrightarrow> strcaseeq b c \<Longrightarrow> strcaseeq a c"
  by (simp add: strcaseeq_def)

subsection \<open>Splitting: std::getline\<close>

text \<open>The successive results of \<^verbatim>\<open>std::getline(stream, token, delim)\<close>: a trailing
  delimiter gives no empty last token, an empty stream gives no token at all.\<close>

function getlines :: "char \<Rightarrow> string \<Rightarrow> string list" where
  "getlines d s =
     (if s = [] then []
      else takeWhile (\<lambda>c. c \<noteq> d) s #
        (case dropWhile (\<lambda>c. c \<noteq> d) s of [] \<Rightarrow> [] | _ # r \<Rightarrow> getlines d r))"
  by pat_completeness auto
termination
proof (relation "measure (\<lambda>(d, s). length s)", goal_cases)
  case 1
  then show ?case by simp
next
  case (2 d s x r)
  then have "length (x # r) \<le> length s"
    by (metis length_dropWhile_le)
  then show ?case by simp
qed

declare getlines.simps [simp del]

lemma getlines_Nil [simp, str_simps]: "getlines d [] = []"
  by (simp add: getlines.simps)

lemma getlines_no_delim:
  assumes "d \<notin> set s" "s \<noteq> []"
  shows "getlines d s = [s]"
proof -
  have tw: "takeWhile (\<lambda>c. c \<noteq> d) s = s"
    using assms by (simp add: takeWhile_eq_all_conv) auto
  have dw: "dropWhile (\<lambda>c. c \<noteq> d) s = []"
    using assms by (simp add: dropWhile_eq_Nil_conv) auto
  show ?thesis
    by (subst getlines.simps) (simp only: tw dw assms(2) if_False list.case)
qed

lemma getlines_cons:
  assumes "d \<notin> set t"
  shows "getlines d (t @ d # r) = t # getlines d r"
proof -
  have "takeWhile (\<lambda>c. c \<noteq> d) (t @ d # r) = t"
    using assms by (subst takeWhile_append2) auto
  moreover have "dropWhile (\<lambda>c. c \<noteq> d) (t @ d # r) = d # r"
    using assms by (subst dropWhile_append2) auto
  ultimately show ?thesis by (subst getlines.simps) simp
qed

lemma getlines_induct [case_names last cons]:
  assumes last: "\<And>s. d \<notin> set s \<Longrightarrow> P s"
    and cons: "\<And>t r. d \<notin> set t \<Longrightarrow> P r \<Longrightarrow> P (t @ d # r)"
  shows "P s"
proof (induction s rule: length_induct)
  case (1 s)
  show ?case
  proof (cases "d \<in> set s")
    case True
    then obtain t r where s: "s = t @ d # r" "d \<notin> set t" by (metis split_list_first)
    then have "P r" using 1 by simp
    with s cons show ?thesis by simp
  qed (rule last)
qed

text \<open>Joining with a separator, as the sources' loops over \<^verbatim>\<open>if (i > 0) out += sep\<close> do.\<close>

fun join :: "string \<Rightarrow> string list \<Rightarrow> string" where
  "join sep [] = []"
| "join sep [x] = x"
| "join sep (x # y # xs) = x @ sep @ join sep (y # xs)"

lemma getlines_join:
  assumes "\<forall>t \<in> set ts. d \<notin> set t \<and> t \<noteq> []"
  shows "getlines d (join [d] ts) = ts"
  using assms
proof (induction "[d]" ts rule: join.induct)
  case 1
  then show ?case by simp
next
  case (2 x)
  then show ?case by (simp add: getlines_no_delim)
next
  case (3 x y xs)
  then show ?case by (simp add: getlines_cons)
qed

subsection \<open>Facts about searching\<close>

lemma find_from_skip:
  assumes "pat \<noteq> []" "hd pat \<notin> set a"
  shows "find_from (a @ r) pat i = find_from r pat (i + length a)"
  using assms(2)
proof (induction a arbitrary: i)
  case Nil
  then show ?case by simp
next
  case (Cons x a)
  from assms(1) obtain p ps where pat: "pat = p # ps" by (cases pat) auto
  from Cons show ?case by (auto simp: pat)
qed

lemma find_from_hit: "take (length pat) s = pat \<Longrightarrow> find_from s pat i = Some i"
  by (cases s) auto

lemma find_from_char [str_simps]:
  "c \<notin> set a \<Longrightarrow> find_from (a @ c # r) [c] i = Some (i + length a)"
  by (simp add: find_from_skip)

lemma find_from_char_none [str_simps]: "c \<notin> set s \<Longrightarrow> find_from s [c] i = None"
  by (induction s arbitrary: i) auto

lemma str_find_char_at:
  "c \<notin> set a \<Longrightarrow> str_find (pre @ a @ c # r) [c] (length pre) = Some (length pre + length a)"
  by (simp add: str_find_def find_from_char)

lemma str_find_char0:
  "c \<notin> set a \<Longrightarrow> str_find (a @ c # r) [c] 0 = Some (length a)"
  using str_find_char_at [of c a "[]" r] by simp

lemma find_from_lower: "find_from s pat i = Some k \<Longrightarrow> i \<le> k"
  by (induction s pat i rule: find_from.induct) (auto split: if_splits)

lemma find_from_upper: "find_from s pat i = Some k \<Longrightarrow> k + length pat \<le> i + length s"
proof (induction s pat i rule: find_from.induct)
  case (1 pat i)
  then show ?case by (auto split: if_splits)
next
  case (2 c cs pat i)
  show ?case
  proof (cases "take (length pat) (c # cs) = pat")
    case True
    then have "length pat \<le> length (c # cs)"
      by (metis length_take min.cobounded1)
    with True 2 show ?thesis by auto
  next
    case False
    with 2 show ?thesis by auto
  qed
qed

lemma str_find_bounds:
  "str_find s pat pos = Some k \<Longrightarrow> pos \<le> k \<and> k + length pat \<le> length s"
  unfolding str_find_def
  by (auto split: if_splits dest: find_from_lower find_from_upper)

lemma index_where_append [str_simps]:
  "\<forall>c \<in> set a. \<not> P c \<Longrightarrow> P c \<Longrightarrow> index_where P (a @ c # r) i = Some (i + length a)"
  by (induction a arbitrary: i) auto

lemma index_where_none [str_simps]:
  "index_where P s i = None \<longleftrightarrow> (\<forall>c \<in> set s. \<not> P c)"
  by (induction s arbitrary: i) auto

lemma index_where_Some: "index_where P s i = Some k \<Longrightarrow> i \<le> k \<and> k < i + length s"
  by (induction P s i rule: index_where.induct) (auto split: if_splits)

lemma substr_take [str_simps]: "substr (a @ b) 0 (length a) = Inr a"
  by (simp add: substr_def)

lemma substr_mid: "substr (a @ b @ c) (length a) (length b) = Inr b"
  by (simp add: substr_def)

lemma substr_end_drop: "substr_end (a @ b) (length a) = Inr b"
  by (simp add: substr_end_def)

lemma substr_Inr_length: "substr s pos n = Inr t \<Longrightarrow> length t \<le> n"
  by (auto simp: substr_def split: if_splits)

subsection \<open>Facts about letter case\<close>

lemma c_tolower_idem [simp, str_simps]: "c_tolower (c_tolower c) = c_tolower c"
proof -
  have "of_char (char_of (of_char c + 32 :: nat) :: char) = (of_char c + 32 :: nat)"
    if "(of_char c :: nat) \<le> 90" using that by (simp add: of_char_of)
  then show ?thesis by (auto simp: c_tolower_def Let_def)
qed

lemma to_lower_idem [simp, str_simps]: "to_lower (to_lower s) = to_lower s"
  by (simp add: to_lower_def)

lemma to_lower_append [simp, str_simps]: "to_lower (a @ b) = to_lower a @ to_lower b"
  by (simp add: to_lower_def)

lemma length_to_lower [simp, str_simps]: "length (to_lower s) = length s"
  by (simp add: to_lower_def)

end
