(* ===== verification/Cpp_Numbers.thy ===== *)
theory Cpp_Numbers
  imports Prelude
begin

text \<open>
  Numbers as text: the hexadecimal printing loops of the sources
  (\<^verbatim>\<open>std::hex << std::setw(2) << std::setfill('0')\<close>), \<^verbatim>\<open>std::to_string\<close>, and the
  scanning functions \<^verbatim>\<open>std::stoi\<close>, \<^verbatim>\<open>std::stol\<close> and \<^verbatim>\<open>strtol\<close>, which skip white
  space, read a sign (and, in base 16, a \<^verbatim>\<open>0x\<close>), then as many digits as there are,
  and throw when there is none or the value does not fit.
\<close>

section \<open>Hexadecimal printing\<close>

definition hex_digit :: "nat \<Rightarrow> char" where
  "hex_digit n = char_of (if n < 10 then 48 + n else 87 + n)"

definition byte_hex :: "byte \<Rightarrow> string" where
  "byte_hex b = [hex_digit (unat b div 16), hex_digit (unat b mod 16)]"

definition bytes_hex :: "byte list \<Rightarrow> string" where
  "bytes_hex bs = concat (map byte_hex bs)"

section \<open>Scanning\<close>

definition digit_val :: "char \<Rightarrow> nat" where
  "digit_val c = (let n = of_char c in
     if 48 \<le> n \<and> n \<le> 57 then n - 48
     else if 97 \<le> n \<and> n \<le> 122 then n - 87
     else if 65 \<le> n \<and> n \<le> 90 then n - 55 else 99)"

fun scan_digits :: "nat \<Rightarrow> nat \<Rightarrow> string \<Rightarrow> nat \<times> string" where
  "scan_digits b a [] = (a, [])"
| "scan_digits b a (c # cs) =
     (if digit_val c < b then scan_digits b (a * b + digit_val c) cs else (a, c # cs))"

definition skip_sign :: "string \<Rightarrow> bool \<times> string" where
  "skip_sign s = (case s of [] \<Rightarrow> (False, [])
     | c # cs \<Rightarrow> if c = CHR ''-'' then (True, cs)
                else if c = CHR ''+'' then (False, cs) else (False, c # cs))"

definition skip_0x :: "nat \<Rightarrow> string \<Rightarrow> string" where
  "skip_0x b s = (case s of
       z # x # d # r \<Rightarrow> if b = 16 \<and> z = CHR ''0'' \<and> (x = CHR ''x'' \<or> x = CHR ''X'') \<and> digit_val d < 16
                       then d # r else s
     | _ \<Rightarrow> s)"

definition scan_number :: "nat \<Rightarrow> string \<Rightarrow> (int \<times> string) option" where
  "scan_number b s =
     (let (neg, s1) = skip_sign (dropWhile c_isspace s); s2 = skip_0x b s1
      in case s2 of [] \<Rightarrow> None
         | c # cs \<Rightarrow>
             if digit_val c < b
             then (case scan_digits b 0 s2 of (n, r) \<Rightarrow> Some (if neg then - int n else int n, r))
             else None)"

definition stoi :: "nat \<Rightarrow> string \<Rightarrow> int res" where
  "stoi b s = (case scan_number b s of None \<Rightarrow> Inl Invalid_Argument
     | Some (v, _) \<Rightarrow> if - (2 ^ 31) \<le> v \<and> v < 2 ^ 31 then Inr v else Inl Out_Of_Range)"

definition stol :: "string \<Rightarrow> int res" where
  "stol s = (case scan_number 10 s of None \<Rightarrow> Inl Invalid_Argument
     | Some (v, _) \<Rightarrow> if - (2 ^ 63) \<le> v \<and> v < 2 ^ 63 then Inr v else Inl Out_Of_Range)"

section \<open>Decimal printing\<close>

fun nat_dec :: "nat \<Rightarrow> string" where
  "nat_dec n = (if n < 10 then [char_of (48 + n)]
                else nat_dec (n div 10) @ [char_of (48 + n mod 10)])"

declare nat_dec.simps [simp del]

definition int_dec :: "int \<Rightarrow> string" where
  "int_dec z = (if z < 0 then CHR ''-'' # nat_dec (nat (- z)) else nat_dec (nat z))"

definition pad0 :: "nat \<Rightarrow> string \<Rightarrow> string" where
  "pad0 w s = replicate (w - length s) (CHR ''0'') @ s"

section \<open>Facts\<close>

lemma digit_val_hex_digit [simp]: "n < 16 \<Longrightarrow> digit_val (hex_digit n) = n"
  by (auto simp: digit_val_def hex_digit_def Let_def of_char_of)

lemma hex_digit_inj: "a < 16 \<Longrightarrow> b < 16 \<Longrightarrow> hex_digit a = hex_digit b \<Longrightarrow> a = b"
  by (metis digit_val_hex_digit)

lemma unat_byte_less [simp]: "unat (b :: byte) < 256"
  using unsigned_less [of b] by simp

lemma uint_byte_less [simp]: "uint (b :: byte) < 256"
  using unsigned_less [of b, where ?'a = int] by simp

lemma unat_byte_div16 [simp]: "unat (b :: byte) div 16 < 16"
proof -
  have "unat b < 16 * 16" using unat_byte_less [of b] by simp
  then show ?thesis by (rule less_mult_imp_div_less)
qed

lemma bytes_hex_Nil [simp]: "bytes_hex [] = []"
  by (simp add: bytes_hex_def)

lemma bytes_hex_Cons [simp]:
  "bytes_hex (b # bs) = hex_digit (unat b div 16) # hex_digit (unat b mod 16) # bytes_hex bs"
  by (simp add: bytes_hex_def byte_hex_def)

lemma bytes_hex_append: "bytes_hex (a @ b) = bytes_hex a @ bytes_hex b"
  by (simp add: bytes_hex_def)

lemma length_bytes_hex [simp]: "length (bytes_hex bs) = 2 * length bs"
  by (induction bs) auto

lemma bytes_hex_eq_iff [simp]: "bytes_hex a = bytes_hex b \<longleftrightarrow> a = b"
proof
  show "bytes_hex a = bytes_hex b \<Longrightarrow> a = b"
  proof (induction a arbitrary: b)
    case Nil
    then show ?case by (cases b) simp_all
  next
    case (Cons x xs)
    then obtain y ys where b: "b = y # ys" by (cases b) auto
    have "hex_digit (unat x div 16) = hex_digit (unat y div 16)"
      "hex_digit (unat x mod 16) = hex_digit (unat y mod 16)" and t: "bytes_hex xs = bytes_hex ys"
      using Cons.prems unfolding b bytes_hex_Cons by simp_all
    then have "unat x div 16 = unat y div 16" "unat x mod 16 = unat y mod 16"
      using hex_digit_inj unat_byte_div16 by (blast, metis hex_digit_inj mod_less_divisor zero_less_numeral)
    then have "unat x = unat y" by (metis div_mult_mod_eq)
    then have "x = y" by (simp only: unsigned_word_eqI)
    with Cons.IH [OF t] show ?case by (simp add: b)
  qed
qed simp

definition hex_alphabet :: "char set" where
  "hex_alphabet = {c. digit_val c < 16}"

lemma hex_digit_alphabet: "n < 16 \<Longrightarrow> hex_digit n \<in> hex_alphabet"
  by (simp add: hex_alphabet_def)

lemma bytes_hex_alphabet: "set (bytes_hex bs) \<subseteq> hex_alphabet"
  by (induction bs) (auto simp: hex_digit_alphabet)

lemma digit_val_facts:
  assumes "digit_val c < 36"
  shows "\<not> c_isspace c" "c \<noteq> CHR ''-''" "c \<noteq> CHR ''+''"
  using assms by (auto simp: digit_val_def c_isspace_def Let_def split: if_splits)

lemma scan_hex_pair:
  assumes "a < 16" "b < 16"
  shows "scan_number 16 [hex_digit a, hex_digit b] = Some (int (16 * a + b), [])"
proof -
  have "digit_val (hex_digit a) < 36" using assms by simp
  note sp = digit_val_facts [OF this]
  show ?thesis
    using assms sp by (simp add: scan_number_def skip_sign_def skip_0x_def Let_def)
qed

lemma scan_number_byte_hex: "scan_number 16 (byte_hex b) = Some (int (unat b), [])"
proof -
  have "scan_number 16 (byte_hex b) = Some (int (16 * (unat b div 16) + unat b mod 16), [])"
    unfolding byte_hex_def by (rule scan_hex_pair) auto
  then show ?thesis by (simp only: mult_div_mod_eq)
qed

lemma stoi_hex_byte: "stoi 16 (byte_hex b) = Inr (int (unat b))"
proof -
  note scan_number_byte_hex [of b]
  moreover have "int (unat b) < 2 ^ 31"
    by (rule less_trans [of _ 256]) auto
  moreover have "- (2 ^ 31) \<le> int (unat b)"
    by (rule order_trans [of _ 0]) auto
  ultimately show ?thesis by (simp add: stoi_def)
qed

lemma digit_val_dec [simp]: "n < 10 \<Longrightarrow> digit_val (char_of (48 + n)) = n"
  by (simp add: digit_val_def Let_def of_char_of)

lemma scan_nat_dec_gen:
  "scan_digits 10 a (nat_dec n @ r) = scan_digits 10 (a * 10 ^ length (nat_dec n) + n) r"
proof (induction n arbitrary: a r rule: nat_dec.induct)
  case (1 n)
  show ?case
  proof (cases "n < 10")
    case True
    then show ?thesis by (simp add: nat_dec.simps [of n])
  next
    case False
    let ?q = "n div 10"
    have "scan_digits 10 a (nat_dec n @ r)
      = scan_digits 10 (a * 10 ^ length (nat_dec ?q) + ?q) (char_of (48 + n mod 10) # r)"
      using False 1 [OF False, of a] by (simp add: nat_dec.simps [of n])
    also have "\<dots> = scan_digits 10 ((a * 10 ^ length (nat_dec ?q) + ?q) * 10 + n mod 10) r"
      by simp
    also have "(a * 10 ^ length (nat_dec ?q) + ?q) * 10 + n mod 10
      = a * 10 ^ length (nat_dec n) + n"
      using False by (simp add: nat_dec.simps [of n] algebra_simps)
    finally show ?thesis .
  qed
qed

lemma scan_nat_dec [simp]: "scan_digits 10 0 (nat_dec n) = (n, [])"
  using scan_nat_dec_gen [of 0 n "[]"] by simp

lemma nat_dec_digits: "\<forall>c \<in> set (nat_dec n). c_isdigit c"
proof (induction n rule: nat_dec.induct)
  case (1 n)
  have d: "c_isdigit (char_of (48 + k))" if "k < 10" for k :: nat
    using that by (simp add: c_isdigit_def Let_def of_char_of)
  show ?case
  proof (cases "n < 10")
    case True
    then show ?thesis using d [of n] by (simp add: nat_dec.simps [of n])
  next
    case False
    with 1 d [of "n mod 10"] show ?thesis by (simp add: nat_dec.simps [of n])
  qed
qed

lemma nat_dec_not_Nil [simp]: "nat_dec n \<noteq> []"
  by (subst nat_dec.simps) simp

lemma c_isdigit_facts:
  assumes "c_isdigit c"
  shows "\<not> c_isspace c" "c \<noteq> CHR ''-''" "c \<noteq> CHR ''+''" "digit_val c < 10"
  using assms by (auto simp: c_isdigit_def c_isspace_def digit_val_def Let_def)

lemma scan_number_nat_dec: "scan_number 10 (nat_dec n) = Some (int n, [])"
proof -
  obtain c cs where s: "nat_dec n = c # cs" by (cases "nat_dec n") auto
  have "c_isdigit c" using nat_dec_digits [of n] s by simp
  note f = c_isdigit_facts [OF this]
  have sk: "skip_0x 10 s = s" for s by (auto simp: skip_0x_def split: list.splits)
  have "dropWhile c_isspace (nat_dec n) = nat_dec n" using f(1) s by simp
  moreover have "skip_sign (nat_dec n) = (False, nat_dec n)" using f s by (simp add: skip_sign_def)
  ultimately show ?thesis
    unfolding scan_number_def using f(4) s sk scan_nat_dec [of n] by simp
qed

lemma scan_number_int_dec: "scan_number 10 (int_dec z) = Some (z, [])"
proof (cases "z < 0")
  case False
  then show ?thesis by (simp add: int_dec_def scan_number_nat_dec)
next
  case True
  obtain c cs where s: "nat_dec (nat (- z)) = c # cs" by (cases "nat_dec (nat (- z))") auto
  have "c_isdigit c" using nat_dec_digits [of "nat (- z)"] s by simp
  note f = c_isdigit_facts [OF this]
  have sk: "skip_0x 10 s = s" for s by (auto simp: skip_0x_def split: list.splits)
  have "\<not> c_isspace (CHR ''-'')" by code_simp
  then have "dropWhile c_isspace (int_dec z) = int_dec z"
    using True by (simp add: int_dec_def)
  moreover have "skip_sign (int_dec z) = (True, nat_dec (nat (- z)))"
    using True by (simp add: skip_sign_def int_dec_def)
  ultimately show ?thesis
    unfolding scan_number_def using True f(4) s sk scan_nat_dec [of "nat (- z)"] by simp
qed

lemma stol_int_dec: "- (2 ^ 63) \<le> z \<Longrightarrow> z < 2 ^ 63 \<Longrightarrow> stol (int_dec z) = Inr z"
  by (simp add: stol_def scan_number_int_dec)

lemma stoi_int_dec: "- (2 ^ 31) \<le> z \<Longrightarrow> z < 2 ^ 31 \<Longrightarrow> stoi 10 (int_dec z) = Inr z"
  by (simp add: stoi_def scan_number_int_dec)

lemma int_dec_chars: "\<forall>c \<in> set (int_dec z). c_isdigit c \<or> c = CHR ''-''"
  using nat_dec_digits by (auto simp: int_dec_def)

lemma scan_number_digits:
  assumes "ds \<noteq> []" "\<forall>c \<in> set ds. c_isdigit c"
  shows "scan_number 10 (ds @ r) = (case scan_digits 10 0 (ds @ r) of (n, r') \<Rightarrow> Some (int n, r'))"
proof -
  obtain c cs where s: "ds = c # cs" using assms(1) by (cases ds) auto
  with assms(2) have "c_isdigit c" by simp
  note f = c_isdigit_facts [OF this]
  have sk: "skip_0x 10 s = s" for s by (auto simp: skip_0x_def split: list.splits)
  show ?thesis
    using f by (simp add: scan_number_def skip_sign_def s sk)
qed

lemma scan_digits_zeros: "scan_digits 10 0 (replicate k (CHR ''0'') @ s) = scan_digits 10 0 s"
  by (induction k) (simp_all add: digit_val_def)

lemma scan_padded:
  assumes "r = [] \<or> (\<exists>c r'. r = c # r' \<and> \<not> digit_val c < 10)" "0 \<le> v"
  shows "scan_number 10 (pad0 w (int_dec v) @ r) = Some (v, r)"
proof -
  have id: "int_dec v = nat_dec (nat v)" using assms(2) by (simp add: int_dec_def)
  have "scan_digits 10 0 (pad0 w (int_dec v) @ r) = scan_digits 10 (nat v) r"
    using scan_nat_dec_gen [of 0 "nat v" r] by (simp add: pad0_def scan_digits_zeros id)
  moreover have "scan_digits 10 n r = (n, r)" for n using assms(1) by auto
  moreover have "\<forall>c \<in> set (pad0 w (int_dec v)). c_isdigit c"
    using nat_dec_digits [of "nat v"] by (auto simp: pad0_def id c_isdigit_def)
  moreover have "pad0 w (int_dec v) \<noteq> []" by (simp add: pad0_def id)
  ultimately show ?thesis using assms(2) by (simp add: scan_number_digits)
qed

lemma length_pad0_dec2: "0 \<le> v \<Longrightarrow> v \<le> 99 \<Longrightarrow> length (pad0 2 (int_dec v)) = 2"
proof -
  assume v: "0 \<le> v" "v \<le> 99"
  then have n: "nat v div 10 < 10" by simp
  have "length (nat_dec (nat v)) \<le> 2"
    using n by (subst nat_dec.simps, subst nat_dec.simps [of "nat v div 10"]) simp
  then show ?thesis using v by (simp add: pad0_def int_dec_def)
qed

lemma stoi_padded:
  "0 \<le> v \<Longrightarrow> v < 2 ^ 31 \<Longrightarrow> stoi 10 (pad0 w (int_dec v)) = Inr v"
  using scan_padded [of "[]" v w] by (simp add: stoi_def)

end
