(* ===== verification/Interfaces.thy ===== *)
theory Interfaces
  imports Cpp_Numbers
begin

text \<open>
  The contracts that several components share, stated once as locales and interpreted by
  each component on its own definitions: an encoding with its decoder, an encoding whose
  output keeps clear of a separator, an associative array, and a transition system with
  an invariant.  Also here: \<^verbatim>\<open>std::map\<close> as a sorted association list and JSON values
  over it, the first provider of the associative-array contract.
\<close>

section \<open>Encodings\<close>

locale codec =
  fixes enc :: "'a \<Rightarrow> 'b"
    and dec :: "'b \<Rightarrow> 'a option"
    and wf :: "'a \<Rightarrow> bool"
  assumes dec_enc: "wf x \<Longrightarrow> dec (enc x) = Some x"
begin

lemma enc_inj: "wf x \<Longrightarrow> wf y \<Longrightarrow> enc x = enc y \<Longrightarrow> x = y"
  by (metis dec_enc option.inject)

lemma enc_eq_iff: "wf x \<Longrightarrow> wf y \<Longrightarrow> enc x = enc y \<longleftrightarrow> x = y"
  using enc_inj by blast

lemma inj_on_enc: "inj_on enc {x. wf x}"
  by (rule inj_onI) (auto intro: enc_inj)

end

text \<open>A codec into text over an alphabet: any character outside it can separate
  two encodings, and is found exactly at the end of the first.\<close>

locale text_codec = codec enc dec wf
  for enc :: "'a \<Rightarrow> string" and dec :: "string \<Rightarrow> 'a option" and wf :: "'a \<Rightarrow> bool" +
  fixes alphabet :: "char set"
  assumes enc_alphabet: "wf x \<Longrightarrow> set (enc x) \<subseteq> alphabet"
begin

lemma separator_not_in_enc: "wf x \<Longrightarrow> c \<notin> alphabet \<Longrightarrow> c \<notin> set (enc x)"
  using enc_alphabet by blast

lemma find_separator:
  assumes "wf x" "c \<notin> alphabet"
  shows "str_find (pre @ enc x @ c # r) [c] (length pre) = Some (length pre + length (enc x))"
  using assms separator_not_in_enc by (blast intro: str_find_char_at)

lemma split_unique:
  assumes "wf x" "wf y" "c \<notin> alphabet" "enc x @ c # r = enc y @ c # r'"
  shows "x = y \<and> r = r'"
proof -
  have "str_find (enc x @ c # r) [c] 0 = Some (length (enc x))"
    using find_separator [of x c "[]" r] assms by simp
  moreover have "str_find (enc y @ c # r') [c] 0 = Some (length (enc y))"
    using find_separator [of y c "[]" r'] assms by simp
  ultimately have "length (enc x) = length (enc y)" using assms(4) by simp
  with assms(4) have "enc x = enc y" "r = r'" by auto
  with assms show ?thesis using enc_inj by blast
qed

end

section \<open>Associative arrays\<close>

locale assoc_array =
  fixes empty :: "'m"
    and lookup :: "'m \<Rightarrow> 'k \<Rightarrow> 'v option"
    and update :: "'k \<Rightarrow> 'v \<Rightarrow> 'm \<Rightarrow> 'm"
    and invar :: "'m \<Rightarrow> bool"
  assumes lookup_empty: "lookup empty k = None"
    and lookup_update: "invar m \<Longrightarrow> lookup (update k v m) = (lookup m)(k \<mapsto> v)"
    and invar_empty: "invar empty"
    and invar_update: "invar m \<Longrightarrow> invar (update k v m)"
begin

lemma invar_updates: "invar m \<Longrightarrow> invar (foldl (\<lambda>m (k, v). update k v m) m kvs)"
  by (induction kvs arbitrary: m) (auto intro: invar_update)

lemma lookup_updates:
  "invar m \<Longrightarrow> lookup (foldl (\<lambda>m (k, v). update k v m) m kvs) = lookup m ++ map_of (rev kvs)"
proof (induction kvs arbitrary: m)
  case Nil
  then show ?case by simp
next
  case (Cons a kvs)
  obtain k v where a: "a = (k, v)" by force
  from Cons.prems have "invar (update k v m)" by (rule invar_update)
  note IH = Cons.IH [OF this]
  show ?case
    using Cons.prems a IH by (auto simp: lookup_update map_add_def fun_eq_iff split: option.splits)
qed

lemma lookup_updates_distinct:
  assumes "distinct (map fst kvs)"
  shows "lookup (foldl (\<lambda>m (k, v). update k v m) empty kvs) = map_of kvs"
proof -
  have e: "lookup empty = Map.empty" by (rule ext) (rule lookup_empty)
  have "lookup (foldl (\<lambda>m (k, v). update k v m) empty kvs) = lookup empty ++ map_of (rev kvs)"
    by (rule lookup_updates) (rule invar_empty)
  also have "\<dots> = map_of (rev kvs)"
    unfolding e by (rule empty_map_add)
  also have "map_of (rev kvs) = map_of kvs"
    using assms by (intro map_of_eqI) (auto simp: rev_map [symmetric])
  finally show ?thesis .
qed

end

subsection \<open>std::map\<close>

fun smap_set :: "'k::linorder \<Rightarrow> 'v \<Rightarrow> ('k \<times> 'v) list \<Rightarrow> ('k \<times> 'v) list" where
  "smap_set k v [] = [(k, v)]"
| "smap_set k v ((k', v') # xs) =
     (if k < k' then (k, v) # (k', v') # xs
      else if k = k' then (k, v) # xs
      else (k', v') # smap_set k v xs)"

definition smap_ok :: "('k::linorder \<times> 'v) list \<Rightarrow> bool" where
  "smap_ok m = sorted_wrt (<) (map fst m)"

lemma map_of_smap_set [simp]: "map_of (smap_set k v m) = (map_of m)(k \<mapsto> v)"
  by (induction k v m rule: smap_set.induct) auto

lemma fst_set_smap_set [simp]: "fst ` set (smap_set k v m) = insert k (fst ` set m)"
  by (induction k v m rule: smap_set.induct) auto

lemma smap_ok_set: "smap_ok m \<Longrightarrow> smap_ok (smap_set k v m)"
proof (induction k v m rule: smap_set.induct)
  case (1 k v)
  then show ?case by (simp add: smap_ok_def)
next
  case (2 k v k' v' xs)
  then have xs: "smap_ok xs" and lt: "\<forall>x \<in> fst ` set xs. k' < x"
    by (auto simp: smap_ok_def)
  consider "k < k'" | "k = k'" | "k' < k" by fastforce
  then show ?case
  proof cases
    case 1
    with 2 lt show ?thesis by (auto simp: smap_ok_def)
  next
    case 2
    with xs lt show ?thesis by (auto simp: smap_ok_def)
  next
    case 3
    with "2.IH" xs have "smap_ok (smap_set k v xs)" by auto
    with 3 lt show ?thesis by (auto simp: smap_ok_def simp flip: image_image)
  qed
qed

interpretation smap: assoc_array "[]" map_of smap_set smap_ok
  by unfold_locales (auto simp: smap_ok_set, simp add: smap_ok_def)

text \<open>Two ordered maps with the same content are the same list.\<close>

lemma smap_ok_distinct: "smap_ok m \<Longrightarrow> distinct (map fst m)"
  unfolding smap_ok_def using strict_sorted_iff by blast

section \<open>JSON values\<close>

text \<open>\<^verbatim>\<open>Json::Value\<close>: an object is an ordered map from member names.\<close>

datatype json =
    JNull
  | JBool bool
  | JInt int
  | JStr string
  | JArr "json list"
  | JObj "(string \<times> json) list"

definition jset :: "string \<Rightarrow> json \<Rightarrow> json \<Rightarrow> json" where
  "jset k v j = (case j of JObj m \<Rightarrow> JObj (smap_set k v m) | JNull \<Rightarrow> JObj [(k, v)] | _ \<Rightarrow> j)"

definition jget :: "string \<Rightarrow> json \<Rightarrow> json" where
  "jget k j = (case j of JObj m \<Rightarrow> (case map_of m k of Some v \<Rightarrow> v | None \<Rightarrow> JNull) | _ \<Rightarrow> JNull)"

definition jmember :: "string \<Rightarrow> json \<Rightarrow> bool" where
  "jmember k j = (case j of JObj m \<Rightarrow> map_of m k \<noteq> None | _ \<Rightarrow> False)"

definition is_jobj :: "json \<Rightarrow> bool" where
  "is_jobj j = (case j of JObj _ \<Rightarrow> True | JNull \<Rightarrow> True | _ \<Rightarrow> False)"

text \<open>A sequence of member assignments \<^verbatim>\<open>result[k] = v\<close> on a fresh value.\<close>

definition jobj :: "(string \<times> json) list \<Rightarrow> json" where
  "jobj kvs = foldl (\<lambda>j (k, v). jset k v j) JNull kvs"

lemma jget_jset [simp]: "is_jobj j \<Longrightarrow> jget k (jset k' v j) = (if k = k' then v else jget k j)"
  by (auto simp: jget_def jset_def is_jobj_def split: json.splits)

lemma is_jobj_jset [simp]: "is_jobj j \<Longrightarrow> is_jobj (jset k v j)"
  by (auto simp: jset_def is_jobj_def split: json.splits)

lemma is_jobj_JNull [simp]: "is_jobj JNull"
  by (simp add: is_jobj_def)

lemma jget_JNull [simp]: "jget k JNull = JNull"
  by (simp add: jget_def)

lemma jmember_jset [simp]: "is_jobj j \<Longrightarrow> jmember k (jset k' v j) = (k = k' \<or> jmember k j)"
  by (auto simp: jmember_def jset_def is_jobj_def split: json.splits)

lemma jmember_JNull [simp]: "\<not> jmember k JNull"
  by (simp add: jmember_def)

lemma foldl_jset:
  assumes "is_jobj j"
  shows "is_jobj (foldl (\<lambda>j (k, v). jset k v j) j kvs)
     \<and> jget k (foldl (\<lambda>j (k, v). jset k v j) j kvs)
        = (case map_of (rev kvs) k of Some v \<Rightarrow> v | None \<Rightarrow> jget k j)"
  using assms
proof (induction kvs arbitrary: j)
  case Nil
  then show ?case by simp
next
  case (Cons a kvs)
  obtain k' v where a: "a = (k', v)" by force
  have ok: "is_jobj (jset k' v j)" using Cons.prems by simp
  show ?case
    using Cons.IH [OF ok] Cons.prems
    by (simp add: a map_add_def split: option.splits)
qed

lemma jget_jobj:
  "jget k (jobj kvs) = (case map_of (rev kvs) k of Some v \<Rightarrow> v | None \<Rightarrow> JNull)"
  unfolding jobj_def using foldl_jset [OF is_jobj_JNull, of kvs k] by (simp split: option.splits)

lemma is_jobj_jobj [simp]: "is_jobj (jobj kvs)"
  unfolding jobj_def using foldl_jset [OF is_jobj_JNull, of kvs] by simp

text \<open>\<^verbatim>\<open>asString\<close> and \<^verbatim>\<open>asBool\<close> of jsoncpp; \<^term>\<open>None\<close> is its \<^verbatim>\<open>LogicError\<close>.\<close>

definition as_string :: "json \<Rightarrow> string option" where
  "as_string j = (case j of JStr s \<Rightarrow> Some s | JNull \<Rightarrow> Some []
     | JBool b \<Rightarrow> Some (if b then ''true'' else ''false'') | JInt i \<Rightarrow> Some (int_dec i) | _ \<Rightarrow> None)"

definition as_bool :: "json \<Rightarrow> bool option" where
  "as_bool j = (case j of JBool b \<Rightarrow> Some b | JNull \<Rightarrow> Some False | JInt i \<Rightarrow> Some (i \<noteq> 0) | _ \<Rightarrow> None)"

section \<open>Transition systems\<close>

inductive reachable_from :: "('s \<Rightarrow> bool) \<Rightarrow> ('s \<Rightarrow> 's \<Rightarrow> bool) \<Rightarrow> 's \<Rightarrow> bool"
  for init :: "'s \<Rightarrow> bool" and step :: "'s \<Rightarrow> 's \<Rightarrow> bool" where
  reach_init: "init s \<Longrightarrow> reachable_from init step s"
| reach_step: "reachable_from init step s \<Longrightarrow> step s t \<Longrightarrow> reachable_from init step t"

locale invariant_system =
  fixes init :: "'s \<Rightarrow> bool"
    and step :: "'s \<Rightarrow> 's \<Rightarrow> bool"
    and inv :: "'s \<Rightarrow> bool"
  assumes inv_init: "init s \<Longrightarrow> inv s"
    and inv_step: "inv s \<Longrightarrow> step s t \<Longrightarrow> inv t"
begin

lemma reachable_inv: "reachable_from init step s \<Longrightarrow> inv s"
  by (induction rule: reachable_from.induct) (auto intro: inv_init inv_step)

lemma inv_star: "inv s \<Longrightarrow> step\<^sup>*\<^sup>* s t \<Longrightarrow> inv t"
  by (rotate_tac, induction rule: rtranclp_induct) (auto intro: inv_step)

end

end
