(* ===== verification/Cert_Ops.thy ===== *)
theory Cert_Ops
  imports Interfaces
begin

text \<open>
  \<^verbatim>\<open>shared/lib/icao-validation\<close>: the result types (\<^verbatim>\<open>types.h\<close>) and the pure
  certificate operations (\<^verbatim>\<open>cert_ops.cpp\<close>).  OpenSSL is not part of the repository:
  the record \<open>openssl\<close> holds the library functions the sources call, over abstract
  types of certificates \<open>'x\<close>, public keys \<open>'k\<close> and ASN.1 times \<open>'t\<close>.  A null
  result of a library call is \<^term>\<open>None\<close>.  The clock (\<^verbatim>\<open>time(nullptr)\<close>) is an
  argument of the operations that read it.
\<close>

section \<open>The OpenSSL functions the library calls\<close>

datatype nid =
    NID_basic_constraints | NID_key_usage | NID_certificate_policies
  | NID_subject_key_identifier | NID_authority_key_identifier | NID_name_constraints
  | NID_policy_constraints | NID_inhibit_any_policy | NID_subject_alt_name
  | NID_issuer_alt_name | NID_crl_distribution_points | NID_ext_key_usage
  | NID_sha256WithRSAEncryption | NID_ecdsa_with_SHA256 | NID_sha384WithRSAEncryption
  | NID_ecdsa_with_SHA384 | NID_sha512WithRSAEncryption | NID_ecdsa_with_SHA512
  | NID_sha1WithRSAEncryption | NID_ecdsa_with_SHA1 | NID_rsassaPss
  | NID_other nat

datatype pkey_type = EVP_PKEY_RSA | EVP_PKEY_EC | EVP_PKEY_other nat

record tm =
  tm_year :: int
  tm_mon :: int
  tm_mday :: int
  tm_hour :: int
  tm_min :: int
  tm_sec :: int

record x509_ext =
  ext_critical :: bool
  ext_nid :: nid
  ext_oid :: string

record ('x, 'k, 't) openssl =
  subject_oneline :: "'x \<Rightarrow> string option"
  issuer_oneline :: "'x \<Rightarrow> string option"
  get_pubkey :: "'x \<Rightarrow> 'k option"
  X509_verify :: "'x \<Rightarrow> 'k \<Rightarrow> int"
  not_before :: "'x \<Rightarrow> 't"
  not_after :: "'x \<Rightarrow> 't"
  X509_cmp_time :: "'t \<Rightarrow> int \<Rightarrow> int"
  ASN1_TIME_to_tm :: "'t \<Rightarrow> tm option"
  basic_constraints_ca :: "'x \<Rightarrow> bool option"
  key_usage :: "'x \<Rightarrow> bool list option"
  X509_digest :: "'x \<Rightarrow> byte list option"
  extensions :: "'x \<Rightarrow> x509_ext option list"
  serial_number :: "'x \<Rightarrow> int option"
  ASN1_INTEGER_to_BN :: "int \<Rightarrow> int option"
  BN_bn2hex :: "int \<Rightarrow> string option"
  signature_nid :: "'x \<Rightarrow> nid"
  OBJ_nid2sn :: "nid \<Rightarrow> string"
  pkey_base_id :: "'k \<Rightarrow> pkey_type"
  pkey_bits :: "'k \<Rightarrow> int"

text \<open>\<^verbatim>\<open>ASN1_BIT_STRING_get_bit\<close>: a bit past the end reads 0.\<close>

definition get_bit :: "bool list \<Rightarrow> nat \<Rightarrow> bool" where
  "get_bit bs n = (n < length bs \<and> bs ! n)"

section \<open>Result types (types.h)\<close>

datatype validation_status = VS_VALID | VS_EXPIRED_VALID | VS_INVALID | VS_PENDING | VS_ERROR

datatype crl_check_status =
    CRL_VALID | CRL_REVOKED | CRL_UNAVAILABLE | CRL_EXPIRED | CRL_INVALID | CRL_NOT_CHECKED

record trust_chain_result =
  tc_valid :: bool
  tc_path :: string
  tc_depth :: nat
  tc_cscaExpired :: bool
  tc_dscExpired :: bool
  tc_message :: string
  tc_cscaSubjectDn :: string
  tc_cscaFingerprint :: string

definition trust_chain_result0 :: trust_chain_result where
  "trust_chain_result0 = \<lparr>tc_valid = False, tc_path = [], tc_depth = 0, tc_cscaExpired = False,
     tc_dscExpired = False, tc_message = [], tc_cscaSubjectDn = [], tc_cscaFingerprint = []\<rparr>"

record crl_check_result =
  cc_status :: crl_check_status
  cc_thisUpdate :: string
  cc_nextUpdate :: string
  cc_revocationReason :: string
  cc_message :: string

definition crl_check_result0 :: crl_check_result where
  "crl_check_result0 = \<lparr>cc_status = CRL_NOT_CHECKED, cc_thisUpdate = [], cc_nextUpdate = [],
     cc_revocationReason = [], cc_message = []\<rparr>"

record algorithm_compliance_result =
  ac_compliant :: bool
  ac_algorithm :: string
  ac_warning :: string
  ac_keyBits :: int

record extension_validation_result =
  ev_valid :: bool
  ev_warnings :: "string list"

definition warningsAsString :: "extension_validation_result \<Rightarrow> string" where
  "warningsAsString r = join ''; '' (ev_warnings r)"

fun validationStatusToString :: "validation_status \<Rightarrow> string" where
  "validationStatusToString VS_VALID = ''VALID''"
| "validationStatusToString VS_EXPIRED_VALID = ''EXPIRED_VALID''"
| "validationStatusToString VS_INVALID = ''INVALID''"
| "validationStatusToString VS_PENDING = ''PENDING''"
| "validationStatusToString VS_ERROR = ''ERROR''"

fun crlCheckStatusToString :: "crl_check_status \<Rightarrow> string" where
  "crlCheckStatusToString CRL_VALID = ''VALID''"
| "crlCheckStatusToString CRL_REVOKED = ''REVOKED''"
| "crlCheckStatusToString CRL_UNAVAILABLE = ''CRL_UNAVAILABLE''"
| "crlCheckStatusToString CRL_EXPIRED = ''CRL_EXPIRED''"
| "crlCheckStatusToString CRL_INVALID = ''CRL_INVALID''"
| "crlCheckStatusToString CRL_NOT_CHECKED = ''NOT_CHECKED''"

section \<open>Certificate operations (cert_ops.cpp)\<close>

text \<open>Pointers to certificates are options; a null certificate is handled first by every
  operation.\<close>

definition verifyCertificateSignature ::
    "('x, 'k, 't) openssl \<Rightarrow> 'x option \<Rightarrow> 'x option \<Rightarrow> bool" where
  "verifyCertificateSignature L cert issuerCert =
     (case (cert, issuerCert) of
        (Some c, Some i) \<Rightarrow>
          (case get_pubkey L i of None \<Rightarrow> False | Some k \<Rightarrow> X509_verify L c k = 1)
      | _ \<Rightarrow> False)"

definition isCertificateExpired :: "('x, 'k, 't) openssl \<Rightarrow> int \<Rightarrow> 'x option \<Rightarrow> bool" where
  "isCertificateExpired L now cert =
     (case cert of None \<Rightarrow> True | Some c \<Rightarrow> X509_cmp_time L (not_after L c) now < 0)"

definition isCertificateNotYetValid :: "('x, 'k, 't) openssl \<Rightarrow> int \<Rightarrow> 'x option \<Rightarrow> bool" where
  "isCertificateNotYetValid L now cert =
     (case cert of None \<Rightarrow> True | Some c \<Rightarrow> X509_cmp_time L (not_before L c) now > 0)"

definition getSubjectDn :: "('x, 'k, 't) openssl \<Rightarrow> 'x option \<Rightarrow> string" where
  "getSubjectDn L cert =
     (case cert of None \<Rightarrow> [] | Some c \<Rightarrow>
        (case subject_oneline L c of None \<Rightarrow> [] | Some dn \<Rightarrow> c_str dn))"

definition getIssuerDn :: "('x, 'k, 't) openssl \<Rightarrow> 'x option \<Rightarrow> string" where
  "getIssuerDn L cert =
     (case cert of None \<Rightarrow> [] | Some c \<Rightarrow>
        (case issuer_oneline L c of None \<Rightarrow> [] | Some dn \<Rightarrow> c_str dn))"

definition isSelfSigned :: "('x, 'k, 't) openssl \<Rightarrow> 'x option \<Rightarrow> bool" where
  "isSelfSigned L cert =
     (case cert of None \<Rightarrow> False
      | Some c \<Rightarrow> strcaseeq (getSubjectDn L cert) (getIssuerDn L cert))"

definition isLinkCertificate :: "('x, 'k, 't) openssl \<Rightarrow> 'x option \<Rightarrow> bool" where
  "isLinkCertificate L cert =
     (case cert of None \<Rightarrow> False
      | Some c \<Rightarrow>
          if isSelfSigned L cert then False
          else (case basic_constraints_ca L c of
                  None \<Rightarrow> False
                | Some ca \<Rightarrow>
                    if \<not> ca then False
                    else (case key_usage L c of None \<Rightarrow> False | Some usage \<Rightarrow> get_bit usage 5)))"

definition getCertificateFingerprint :: "('x, 'k, 't) openssl \<Rightarrow> 'x option \<Rightarrow> string" where
  "getCertificateFingerprint L cert =
     (case cert of None \<Rightarrow> []
      | Some c \<Rightarrow> (case X509_digest L c of None \<Rightarrow> [] | Some md \<Rightarrow> bytes_hex md))"

text \<open>\<^verbatim>\<open>strftime(buf, sizeof(buf), "%Y-%m-%dT%H:%M:%SZ", &tm)\<close>; \<^verbatim>\<open>tm_year\<close> counts
  from 1900 and \<^verbatim>\<open>tm_mon\<close> from 0.\<close>

definition iso8601_of_tm :: "tm \<Rightarrow> string" where
  "iso8601_of_tm t =
     int_dec (tm_year t + 1900) @ ''-'' @ pad0 2 (int_dec (tm_mon t + 1)) @ ''-''
       @ pad0 2 (int_dec (tm_mday t)) @ ''T'' @ pad0 2 (int_dec (tm_hour t)) @ '':''
       @ pad0 2 (int_dec (tm_min t)) @ '':'' @ pad0 2 (int_dec (tm_sec t)) @ ''Z''"

definition asn1TimeToIso8601 :: "('x, 'k, 't) openssl \<Rightarrow> 't option \<Rightarrow> string" where
  "asn1TimeToIso8601 L t =
     (case t of None \<Rightarrow> []
      | Some t' \<Rightarrow> (case ASN1_TIME_to_tm L t' of None \<Rightarrow> [] | Some v \<Rightarrow> iso8601_of_tm v))"

subsection \<open>Distinguished names\<close>

definition blanks :: string where
  "blanks = [CHR '' '', CHR 0x09]"

text \<open>One component: lower case, leading blanks removed, dropped when blank.\<close>

definition norm_part :: "string \<Rightarrow> string option" where
  "norm_part seg =
     (let lower = to_lower seg in
      case find_first_not_of lower blanks 0 of
        None \<Rightarrow> None
      | Some s \<Rightarrow> Some (drop s lower))"

definition slash_parts :: "string \<Rightarrow> string list" where
  "slash_parts dn =
     List.map_filter norm_part (filter (\<lambda>seg. seg \<noteq> []) (getlines (CHR ''/'') dn))"

text \<open>The RFC 2253 scanner: a quote toggles quoting, a comma outside quotes ends a
  component, a backslash takes the next character with it.\<close>

fun comma_parts :: "string \<Rightarrow> string \<Rightarrow> bool \<Rightarrow> string list" where
  "comma_parts [] cur q =
     (if cur = [] then [] else (case norm_part cur of None \<Rightarrow> [] | Some p \<Rightarrow> [p]))"
| "comma_parts (c # cs) cur q =
     (if c = CHR 0x22 then comma_parts cs (cur @ [c]) (\<not> q)
      else if c = CHR '','' \<and> \<not> q then
        (case norm_part cur of None \<Rightarrow> comma_parts cs [] q | Some p \<Rightarrow> p # comma_parts cs [] q)
      else if c = CHR 0x5C \<and> cs \<noteq> [] then
        (case cs of [] \<Rightarrow> [] | d # ds \<Rightarrow> comma_parts ds (cur @ [c, d]) q)
      else comma_parts cs (cur @ [c]) q)"

definition normalizeDnForComparison :: "string \<Rightarrow> string" where
  "normalizeDnForComparison dn =
     (case dn of [] \<Rightarrow> dn
      | c # _ \<Rightarrow>
          join ''|'' (sort (if c = CHR ''/'' then slash_parts dn else comma_parts dn [] False)))"

text \<open>The attribute search: every occurrence of \<^verbatim>\<open>attr=\<close> (in lower case) from left to
  right; one that starts the string or follows \<^verbatim>\<open>/\<close>, a comma or a space and has a
  non-blank value gives the result.\<close>

definition dn_value_at :: "string \<Rightarrow> nat \<Rightarrow> string option" where
  "dn_value_at dn valStart =
     (let valEnd = (case find_first_of dn ''/,'' valStart of None \<Rightarrow> length dn | Some e \<Rightarrow> e);
          val = take (valEnd - valStart) (drop valStart dn)
      in case (find_first_not_of val blanks 0, find_last_not_of val blanks) of
           (Some s, Some e) \<Rightarrow> Some (to_lower (take (e - s + 1) (drop s val)))
         | _ \<Rightarrow> None)"

definition dn_boundary :: "string \<Rightarrow> nat \<Rightarrow> bool" where
  "dn_boundary dnLower pos =
     (pos = 0 \<or> dnLower ! (pos - 1) = CHR ''/'' \<or> dnLower ! (pos - 1) = CHR '',''
       \<or> dnLower ! (pos - 1) = CHR '' '')"

function dn_search :: "string \<Rightarrow> string \<Rightarrow> string \<Rightarrow> nat \<Rightarrow> string" where
  "dn_search dn dnLower key pos =
     (case str_find dnLower key pos of
        None \<Rightarrow> []
      | Some p \<Rightarrow>
          (case (if dn_boundary dnLower p then dn_value_at dn (p + length key) else None) of
             Some v \<Rightarrow> v
           | None \<Rightarrow> dn_search dn dnLower key (p + 1)))"
  by pat_completeness auto
termination
  by (relation "measure (\<lambda>(dn, l, key, pos). Suc (length l) - pos)")
     (auto dest: str_find_bounds)

declare dn_search.simps [simp del]

definition extractDnAttribute :: "string \<Rightarrow> string \<Rightarrow> string" where
  "extractDnAttribute dn attr = dn_search dn (to_lower dn) (to_lower (attr @ ''='')) 0"

section \<open>Facts\<close>

lemmas cert_op_defs [model_defs] =
  verifyCertificateSignature_def isCertificateExpired_def getSubjectDn_def getIssuerDn_def
  isSelfSigned_def

lemma verify_Some_Some:
  "verifyCertificateSignature L (Some c) (Some i) =
     (case get_pubkey L i of None \<Rightarrow> False | Some k \<Rightarrow> X509_verify L c k = 1)"
  by (simp add: verifyCertificateSignature_def)

lemma self_signed_not_link: "isSelfSigned L c \<Longrightarrow> \<not> isLinkCertificate L c"
  by (auto simp: isLinkCertificate_def split: option.splits)

lemma join_eq_Nil: "sep \<noteq> [] \<Longrightarrow> join sep xs = [] \<longleftrightarrow> xs = [] \<or> xs = [[]]"
  by (induction sep xs rule: join.induct) auto

section \<open>A small PKI for concrete runs\<close>

text \<open>Certificates are numbers; a table gives subject, issuer and the keys that verify a
  signature.  Time is a number of seconds, every certificate ends at 100.\<close>

definition small_pki :: "(nat \<Rightarrow> string) \<Rightarrow> (nat \<Rightarrow> string) \<Rightarrow> (nat \<Rightarrow> nat \<Rightarrow> bool)
    \<Rightarrow> (nat, nat, int) openssl" where
  "small_pki subj iss verifies = \<lparr>
     subject_oneline = (\<lambda>c. Some (subj c)),
     issuer_oneline = (\<lambda>c. Some (iss c)),
     get_pubkey = (\<lambda>c. Some c),
     X509_verify = (\<lambda>c k. if verifies c k then 1 else 0),
     not_before = (\<lambda>c. 0),
     not_after = (\<lambda>c. 100),
     X509_cmp_time = (\<lambda>t now. if t \<le> now then - 1 else 1),
     ASN1_TIME_to_tm = (\<lambda>t. Some \<lparr>tm_year = 125, tm_mon = 0, tm_mday = 1, tm_hour = 0,
       tm_min = 0, tm_sec = 0\<rparr>),
     basic_constraints_ca = (\<lambda>c. if c = 0 then None else Some True),
     key_usage = (\<lambda>c. Some (if c = 0 then [True] else [False, False, False, False, False, True, True])),
     X509_digest = (\<lambda>c. Some [word_of_nat c]),
     extensions = (\<lambda>c. []),
     serial_number = (\<lambda>c. Some (int c)),
     ASN1_INTEGER_to_BN = Some,
     BN_bn2hex = (\<lambda>n. Some (int_dec n)),
     signature_nid = (\<lambda>c. NID_sha256WithRSAEncryption),
     OBJ_nid2sn = (\<lambda>n. ''RSA-SHA256''),
     pkey_base_id = (\<lambda>k. EVP_PKEY_RSA),
     pkey_bits = (\<lambda>k. 4096)\<rparr>"

lemma small_pki_simps [simp]:
  "verifyCertificateSignature (small_pki subj iss verifies) (Some c) (Some d) = verifies c d"
  "getSubjectDn (small_pki subj iss verifies) (Some c) = c_str (subj c)"
  "getIssuerDn (small_pki subj iss verifies) (Some c) = c_str (iss c)"
  "isSelfSigned (small_pki subj iss verifies) (Some c) = strcaseeq (c_str (subj c)) (c_str (iss c))"
  by (simp_all add: small_pki_def verifyCertificateSignature_def getSubjectDn_def getIssuerDn_def
      isSelfSigned_def)

definition demo_pki :: "(nat, nat, int) openssl" where
  "demo_pki = small_pki (\<lambda>c. if c = 0 then ''/C=KR/CN=DS'' else ''/C=KR/CN=CSCA'')
     (\<lambda>c. ''/C=kr/CN=CSCA'') (\<lambda>c k. k = 2)"

lemma demo_DN [simp]:
  "c_str ''/C=KR/CN=DS'' = ''/C=KR/CN=DS''" "c_str ''/C=KR/CN=CSCA'' = ''/C=KR/CN=CSCA''"
  "c_str ''/C=kr/CN=CSCA'' = ''/C=kr/CN=CSCA''"
  "strcaseeq ''/C=KR/CN=CSCA'' ''/C=kr/CN=CSCA''" "strcaseeq ''/C=kr/CN=CSCA'' ''/C=KR/CN=CSCA''"
  "\<not> strcaseeq ''/C=KR/CN=DS'' ''/C=kr/CN=CSCA''"
  by code_simp+

lemma demo_facts [simp]:
  "verifyCertificateSignature demo_pki (Some c) (Some d) = (d = 2)"
  "getIssuerDn demo_pki (Some c) = ''/C=kr/CN=CSCA''"
  "getSubjectDn demo_pki (Some c) = (if c = 0 then ''/C=KR/CN=DS'' else ''/C=KR/CN=CSCA'')"
  "isSelfSigned demo_pki (Some c) = (c \<noteq> 0)"
  by (simp_all add: demo_pki_def)

section \<open>Comparing distinguished names\<close>

definition is_letter :: "char \<Rightarrow> bool" where
  "is_letter c = (let n = of_char c :: nat in (65 \<le> n \<and> n \<le> 90) \<or> (97 \<le> n \<and> n \<le> 122))"

lemma c_tolower_eq_nonletter:
  assumes "\<not> is_letter x"
  shows "c_tolower c = x \<longleftrightarrow> c = x"
proof -
  have "is_letter (char_of (of_char c + 32 :: nat))" if "65 \<le> (of_char c :: nat)" "(of_char c :: nat) \<le> 90"
    using that by (simp add: is_letter_def of_char_of)
  moreover have "is_letter c" if "65 \<le> (of_char c :: nat)" "(of_char c :: nat) \<le> 90"
    using that by (simp add: is_letter_def)
  ultimately show ?thesis using assms by (auto simp: c_tolower_def Let_def)
qed

lemma nonletters [simp]:
  "\<not> is_letter (CHR ''/'')" "\<not> is_letter (CHR '','')" "\<not> is_letter (CHR 0x22)"
  "\<not> is_letter (CHR 0x5C)" "\<not> is_letter (CHR ''|'')" "\<not> is_letter (CHR '' '')" "\<not> is_letter (CHR 0x00)"
  by code_simp+

lemma norm_part_to_lower [simp]: "norm_part (to_lower s) = norm_part s"
  by (simp add: norm_part_def)

lemma nonletter_to_lower [simp]:
  assumes "\<not> is_letter d"
  shows "d \<in> set (to_lower s) \<longleftrightarrow> d \<in> set s"
proof -
  have "d = c_tolower c \<longleftrightarrow> d = c" for c using c_tolower_eq_nonletter [OF assms, of c] by metis
  then show ?thesis by (simp add: to_lower_def image_iff)
qed

lemma to_lower_Nil_iff [simp]: "to_lower s = [] \<longleftrightarrow> s = []"
  by (simp add: to_lower_def)

lemma c_tolower_nonletter [simp]: "\<not> is_letter d \<Longrightarrow> c_tolower d = d"
  using c_tolower_eq_nonletter by blast

lemma getlines_to_lower:
  assumes "\<not> is_letter d"
  shows "getlines d (to_lower s) = map to_lower (getlines d s)"
proof (induction s rule: getlines_induct [where d = d])
  case (last s)
  then show ?case
    by (cases "s = []") (simp add: to_lower_def, simp add: getlines_no_delim assms)
next
  case (cons t r)
  have "to_lower (t @ d # r) = to_lower t @ d # to_lower r"
    using assms by (simp add: to_lower_def)
  with cons assms show ?case by (simp add: getlines_cons)
qed

lemma to_lower_simps [simp]: "to_lower [] = []" "to_lower (c # cs) = c_tolower c # to_lower cs"
  by (simp_all add: to_lower_def)

lemma comma_parts_to_lower:
  "comma_parts (to_lower s) (to_lower cur) q = comma_parts s cur q"
proof (induction s cur q rule: comma_parts.induct)
  case (1 cur q)
  then show ?case by simp
next
  case (2 c cs cur q)
  note [simp] = c_tolower_eq_nonletter and [simp del] = comma_parts.simps(1)
  consider "c = CHR 0x22" | "c = CHR '',''" "\<not> q"
    | d ds where "c = CHR 0x5C" "cs = d # ds"
    | "c \<noteq> CHR 0x22" "\<not> (c = CHR '','' \<and> \<not> q)" "\<not> (c = CHR 0x5C \<and> cs \<noteq> [])"
    by (cases cs) auto
  then show ?case
  proof cases
    case 1
    with "2.IH"(1) show ?thesis by simp
  next
    case 2
    then have "comma_parts (to_lower cs) [] q = comma_parts cs [] q"
      using "2.IH"(2,3) by (cases "norm_part cur") auto
    with 2 show ?thesis by (simp split: option.split)
  next
    case 3
    with "2.IH"(4) show ?thesis by simp
  next
    case 4
    with "2.IH"(5) show ?thesis by auto
  qed
qed

lemma map_filter_norm_lower:
  "List.map_filter norm_part (filter (\<lambda>seg. seg \<noteq> []) (map to_lower xs))
     = List.map_filter norm_part (filter (\<lambda>seg. seg \<noteq> []) xs)"
  by (induction xs) (simp_all add: List.map_filter_simps split: option.splits)

lemma normalizeDn_to_lower [simp]:
  "normalizeDnForComparison (to_lower dn) = normalizeDnForComparison dn"
proof (cases dn)
  case Nil
  then show ?thesis by (simp add: to_lower_def)
next
  case (Cons c cs)
  have "to_lower dn = c_tolower c # to_lower cs" by (simp add: Cons to_lower_def)
  moreover have "slash_parts (to_lower dn) = slash_parts dn"
    by (simp add: slash_parts_def getlines_to_lower map_filter_norm_lower)
  moreover have "comma_parts (to_lower dn) [] False = comma_parts dn [] False"
    using comma_parts_to_lower [of dn "[]" False] by (simp add: to_lower_def)
  ultimately show ?thesis
    using Cons by (cases "c = CHR ''/''")
      (simp_all add: normalizeDnForComparison_def c_tolower_eq_nonletter
        del: comma_parts.simps to_lower_simps)
qed

lemma c_str_Nil [simp]: "c_str [] = []"
  by (simp add: c_str_def)

lemma c_str_idem [simp]: "c_str (c_str s) = c_str s"
  by (simp add: c_str_def)

lemma strcaseeq_normalize:
  assumes "strcaseeq (c_str a) (c_str b)"
  shows "normalizeDnForComparison (c_str a) = normalizeDnForComparison (c_str b)"
proof -
  from assms have "to_lower (c_str a) = to_lower (c_str b)" by (simp add: strcaseeq_def)
  then show ?thesis by (metis normalizeDn_to_lower)
qed

text \<open>The same name written in the two formats, with its components in any order.\<close>

definition plain_rdn :: "string \<Rightarrow> bool" where
  "plain_rdn s = (s \<noteq> [] \<and> CHR ''/'' \<notin> set s \<and> CHR '','' \<notin> set s \<and> CHR 0x22 \<notin> set s
     \<and> CHR 0x5C \<notin> set s)"

lemma slash_parts_join:
  assumes "\<forall>x \<in> set xs. plain_rdn x"
  shows "slash_parts (CHR ''/'' # join ''/'' xs) = List.map_filter norm_part xs"
proof -
  have "getlines (CHR ''/'') ([] @ CHR ''/'' # join ''/'' xs)
      = [] # getlines (CHR ''/'') (join [CHR ''/''] xs)"
    by (rule getlines_cons) simp
  also have "getlines (CHR ''/'') (join [CHR ''/''] xs) = xs"
    using assms by (intro getlines_join) (auto simp: plain_rdn_def)
  finally have "slash_parts (CHR ''/'' # join ''/'' xs)
      = List.map_filter norm_part (filter (\<lambda>seg. seg \<noteq> []) xs)"
    by (simp add: slash_parts_def)
  also have "filter (\<lambda>seg. seg \<noteq> []) xs = xs"
    using assms by (intro filter_True) (auto simp: plain_rdn_def)
  finally show ?thesis .
qed

lemma comma_parts_append:
  assumes "CHR '','' \<notin> set x" "CHR 0x22 \<notin> set x" "CHR 0x5C \<notin> set x"
  shows "comma_parts (x @ r) cur False = comma_parts r (cur @ x) False"
  using assms by (induction x arbitrary: cur) auto

lemma comma_parts_join:
  assumes "\<forall>x \<in> set xs. plain_rdn x"
  shows "comma_parts (join '','' xs) [] False = List.map_filter norm_part xs"
  using assms
proof (induction "'',''" xs rule: join.induct)
  case 1
  then show ?case by (simp add: List.map_filter_simps)
next
  case (2 x)
  then show ?case
    using comma_parts_append [of x "[]" "[]"]
    by (simp add: List.map_filter_simps plain_rdn_def split: option.splits)
next
  case (3 x y xs)
  then show ?case
    by (simp add: List.map_filter_simps comma_parts_append plain_rdn_def split: option.splits)
qed

definition slash_dn :: "string list \<Rightarrow> string" where
  "slash_dn rdns = CHR ''/'' # join ''/'' rdns"

definition comma_dn :: "string list \<Rightarrow> string" where
  "comma_dn rdns = join '','' rdns"

definition rdn_multiset :: "string list \<Rightarrow> string multiset" where
  "rdn_multiset rdns = mset (List.map_filter norm_part rdns)"

lemma normalize_slash:
  "\<forall>x \<in> set xs. plain_rdn x \<Longrightarrow>
     normalizeDnForComparison (slash_dn xs) = join ''|'' (sort (List.map_filter norm_part xs))"
  by (simp add: slash_dn_def normalizeDnForComparison_def slash_parts_join)

lemma normalize_comma:
  assumes "\<forall>x \<in> set xs. plain_rdn x" "xs \<noteq> []"
  shows "normalizeDnForComparison (comma_dn xs) = join ''|'' (sort (List.map_filter norm_part xs))"
proof -
  from assms obtain c cs ys where xs: "xs = (c # cs) # ys" and c: "c \<noteq> CHR ''/''"
    by (cases xs; cases "hd xs") (auto simp: plain_rdn_def)
  obtain r where "comma_dn xs = c # r" by (cases ys) (auto simp: xs comma_dn_def)
  with c comma_parts_join [OF assms(1)] show ?thesis
    by (simp add: normalizeDnForComparison_def comma_dn_def del: comma_parts.simps)
qed

lemma norm_part_out:
  assumes "norm_part s = Some p"
  shows "p \<noteq> [] \<and> (\<forall>d. \<not> is_letter d \<longrightarrow> d \<notin> set s \<longrightarrow> d \<notin> set p)"
proof -
  from assms obtain k where k: "find_first_not_of (to_lower s) blanks 0 = Some k"
      "p = drop k (to_lower s)"
    by (auto simp: norm_part_def Let_def split: option.splits)
  from k(1) have "k < length (to_lower s)"
    unfolding find_first_not_of_def by (auto dest: index_where_Some)
  then have "p \<noteq> []" using k(2) by simp
  moreover have "d \<notin> set p" if "\<not> is_letter d" "d \<notin> set s" for d
  proof -
    have "d \<notin> set (to_lower s)" using that by simp
    then show ?thesis unfolding k(2) by (meson in_set_dropD)
  qed
  ultimately show ?thesis by blast
qed

lemma join_bar_inj:
  assumes "\<forall>x \<in> set xs. x \<noteq> [] \<and> CHR ''|'' \<notin> set x" "\<forall>x \<in> set ys. x \<noteq> [] \<and> CHR ''|'' \<notin> set x"
    and "join ''|'' xs = join ''|'' ys"
  shows "xs = ys"
proof -
  have "getlines (CHR ''|'') (join ''|'' xs) = xs"
    using assms(1) by (intro getlines_join) blast
  moreover have "getlines (CHR ''|'') (join ''|'' ys) = ys"
    using assms(2) by (intro getlines_join) blast
  ultimately show ?thesis using assms(3) by metis
qed

lemma sort_eq_iff_mset: "sort xs = sort ys \<longleftrightarrow> mset xs = mset ys"
  by (metis mset_sort properties_for_sort sorted_sort)

text \<open>\<^verbatim>\<open>normalizeDnForComparison\<close> decides whether a name in the slash format and one in
  the RFC 2253 format are the same: the two normal forms are equal exactly when the names have the
  same components up to letter case, leading blanks and order (components without the characters
  that delimit or quote them, and without the bar that joins the normal form).\<close>

theorem normalizeDn_eq_iff:
  assumes "\<forall>x \<in> set xs. plain_rdn x" "\<forall>x \<in> set ys. plain_rdn x" "ys \<noteq> []"
    and "\<forall>x \<in> set xs \<union> set ys. CHR ''|'' \<notin> set x"
  shows "normalizeDnForComparison (slash_dn xs) = normalizeDnForComparison (comma_dn ys)
    \<longleftrightarrow> rdn_multiset xs = rdn_multiset ys"
proof -
  have ok: "\<forall>p \<in> set (sort (List.map_filter norm_part zs)). p \<noteq> [] \<and> CHR ''|'' \<notin> set p"
    if "\<forall>x \<in> set zs. CHR ''|'' \<notin> set x" for zs
  proof
    fix p assume "p \<in> set (sort (List.map_filter norm_part zs))"
    then obtain s where s: "s \<in> set zs" "norm_part s = Some p" by (auto simp: List.map_filter_def)
    with that have "CHR ''|'' \<notin> set s" by blast
    with norm_part_out [OF s(2)] show "p \<noteq> [] \<and> CHR ''|'' \<notin> set p" by simp
  qed
  have "normalizeDnForComparison (slash_dn xs) = normalizeDnForComparison (comma_dn ys)
      \<longleftrightarrow> sort (List.map_filter norm_part xs) = sort (List.map_filter norm_part ys)"
    using join_bar_inj [OF ok ok] assms by (auto simp: normalize_slash normalize_comma)
  then show ?thesis by (simp add: sort_eq_iff_mset rdn_multiset_def)
qed


lemma normalizeDn_eq_iff_witness:
  "normalizeDnForComparison (slash_dn [''C=KR'', ''O=Gov'', ''CN=CSCA''])
     = normalizeDnForComparison (comma_dn [''CN=csca'', ''O=Gov'', ''c=kr''])
   \<and> normalizeDnForComparison (slash_dn [''C=KR''])
     \<noteq> normalizeDnForComparison (comma_dn [''C=KP''])"
proof
  have "rdn_multiset [''C=KR'', ''O=Gov'', ''CN=CSCA''] = rdn_multiset [''CN=csca'', ''O=Gov'', ''c=kr'']"
    by code_simp
  then show "normalizeDnForComparison (slash_dn [''C=KR'', ''O=Gov'', ''CN=CSCA''])
     = normalizeDnForComparison (comma_dn [''CN=csca'', ''O=Gov'', ''c=kr''])"
    by (intro normalizeDn_eq_iff [THEN iffD2]) (simp_all add: plain_rdn_def)
  have "rdn_multiset [''C=KR''] \<noteq> rdn_multiset [''C=KP'']"
    by code_simp
  then show "normalizeDnForComparison (slash_dn [''C=KR'']) \<noteq> normalizeDnForComparison (comma_dn [''C=KP''])"
    by (subst normalizeDn_eq_iff) (simp_all add: plain_rdn_def)
qed

end
