(* ===== verification/Trust_Chain.thy ===== *)
theory Trust_Chain
  imports Cert_Ops
begin

text \<open>
  \<^verbatim>\<open>shared/lib/icao-validation/src/trust_chain_builder.cpp\<close>:
  \<^verbatim>\<open>TrustChainBuilder::build\<close> walks from a leaf certificate to a self-signed root
  through the CSCA certificates an \<^verbatim>\<open>ICscaProvider\<close> returns, then verifies the chain.

  A value of type \<open>'x\<close> is a pointer to a certificate, so equality is pointer equality.
  The provider is a function of the number of the call and of the issuer DN: two calls
  with one DN may return different pointers.  The state of the walk is the record
  \<open>walk\<close> (the result under construction, the chain with its ownership flags, all
  fetched CSCAs, the visited DNs, the depth counter); the loop of at most
  \<^verbatim>\<open>maxDepth\<close> rounds is a recursion on the rounds that are left.  \<open>run\<close> keeps beside
  the result the chain and the pointers given to \<^verbatim>\<open>X509_free\<close>, in order.
\<close>

section \<open>State\<close>

type_synonym 'x provider = "nat \<Rightarrow> string \<Rightarrow> 'x list"

record 'x walk =
  w_result :: trust_chain_result
  w_chain :: "('x \<times> bool) list"
  w_current :: 'x
  w_all :: "'x list"
  w_visited :: "string set"
  w_depth :: nat
  w_calls :: nat

datatype 'x walk_end = Early "'x walk" | Left "'x walk"

record 'x run =
  run_result :: trust_chain_result
  run_chain :: "'x list"
  run_freed :: "'x list"

section \<open>Finding the issuer\<close>

text \<open>The CSCAs already fetched: the first one with the issuer's DN that verifies the
  signature; the first DN match is kept as a fallback.\<close>

fun scan_known :: "('x, 'k, 't) openssl \<Rightarrow> 'x \<Rightarrow> string \<Rightarrow> 'x list \<Rightarrow> 'x option
    \<Rightarrow> 'x option \<times> 'x option" where
  "scan_known L cur dn [] fb = (None, fb)"
| "scan_known L cur dn (c # cs) fb =
     (if strcaseeq dn (getSubjectDn L (Some c)) then
        if verifyCertificateSignature L (Some cur) (Some c) then (Some c, fb)
        else scan_known L cur dn cs (case fb of None \<Rightarrow> Some c | Some _ \<Rightarrow> fb)
      else scan_known L cur dn cs fb)"

text \<open>The CSCAs of one more provider call: each one looked at joins \<^verbatim>\<open>allCscas\<close>.\<close>

fun scan_more :: "('x, 'k, 't) openssl \<Rightarrow> 'x \<Rightarrow> 'x list \<Rightarrow> 'x option \<Rightarrow> 'x list
    \<Rightarrow> 'x option \<times> 'x option \<times> 'x list" where
  "scan_more L cur [] fb all = (None, fb, all)"
| "scan_more L cur (c # cs) fb all =
     (if verifyCertificateSignature L (Some cur) (Some c) then (Some c, fb, all @ [c])
      else scan_more L cur cs (case fb of None \<Rightarrow> Some c | Some _ \<Rightarrow> fb) (all @ [c]))"

definition or_else :: "'a option \<Rightarrow> 'a option \<Rightarrow> 'a option" where
  "or_else a b = (case a of None \<Rightarrow> b | Some _ \<Rightarrow> a)"

definition find_issuer :: "('x, 'k, 't) openssl \<Rightarrow> 'x provider \<Rightarrow> 'x \<Rightarrow> string \<Rightarrow> 'x list \<Rightarrow> nat
    \<Rightarrow> 'x option \<times> 'x list \<times> nat" where
  "find_issuer L prov cur dn all calls =
     (let (issuer, fb) = scan_known L cur dn all None;
          issuer = or_else issuer fb
      in case issuer of
           Some i \<Rightarrow> (Some i, all, calls)
         | None \<Rightarrow>
             (let (issuer, fb, all') = scan_more L cur (prov calls dn) fb all
              in (or_else issuer fb, all', Suc calls)))"

section \<open>The walk\<close>

definition set_message :: "string \<Rightarrow> 'x walk \<Rightarrow> 'x walk" where
  "set_message m w = w\<lparr>w_result := (w_result w)\<lparr>tc_message := m\<rparr>\<rparr>"

definition accept_root :: "('x, 'k, 't) openssl \<Rightarrow> 'x walk \<Rightarrow> 'x walk" where
  "accept_root L w = w\<lparr>w_result := (w_result w)\<lparr>tc_valid := True,
     tc_cscaSubjectDn := getSubjectDn L (Some (w_current w)),
     tc_cscaFingerprint := getCertificateFingerprint L (Some (w_current w))\<rparr>\<rparr>"

definition push_issuer :: "'x \<Rightarrow> 'x list \<Rightarrow> nat \<Rightarrow> 'x walk \<Rightarrow> 'x walk" where
  "push_issuer i all calls w =
     w\<lparr>w_chain := w_chain w @ [(i, True)], w_current := i, w_all := all, w_calls := calls\<rparr>"

fun walk_up :: "('x, 'k, 't) openssl \<Rightarrow> 'x provider \<Rightarrow> nat \<Rightarrow> 'x walk \<Rightarrow> 'x walk_end" where
  "walk_up L prov 0 w = Left w"
| "walk_up L prov (Suc n) w0 =
     (let w = w0\<lparr>w_depth := Suc (w_depth w0)\<rparr>;
          cur = w_current w;
          at = '' at depth '' @ nat_dec (w_depth w)
      in if isSelfSigned L (Some cur) then
           if \<not> verifyCertificateSignature L (Some cur) (Some cur) then
             Early (set_message (''Root CSCA self-signature verification failed'' @ at) w)
           else Left (accept_root L w)
         else
           let dn = getIssuerDn L (Some cur) in
           if dn = [] then Left (set_message (''Failed to extract issuer DN'' @ at) w)
           else if dn \<in> w_visited w then
             Left (set_message (''Circular reference detected'' @ at) w)
           else
             let w = w\<lparr>w_visited := insert dn (w_visited w)\<rparr> in
             case find_issuer L prov cur dn (w_all w) (w_calls w) of
               (None, all, calls) \<Rightarrow>
                 Left (set_message (''Chain broken: Issuer not found'' @ at @ '' (issuer: ''
                     @ take 80 dn @ '')'') (w\<lparr>w_all := all, w_calls := calls\<rparr>))
             | (Some i, all, calls) \<Rightarrow> walk_up L prov n (push_issuer i all calls w))"

declare walk_up.simps(2) [simp del]

section \<open>Verification, path, clean-up\<close>

text \<open>The first link of the chain whose signature does not verify.\<close>

fun bad_link :: "('x, 'k, 't) openssl \<Rightarrow> 'x list \<Rightarrow> nat \<Rightarrow> nat option" where
  "bad_link L (c # d # cs) i =
     (if verifyCertificateSignature L (Some c) (Some d) then bad_link L (d # cs) (Suc i)
      else Some i)"
| "bad_link L _ i = None"

definition verify_chain :: "('x, 'k, 't) openssl \<Rightarrow> int \<Rightarrow> 'x list \<Rightarrow> trust_chain_result
    \<Rightarrow> trust_chain_result" where
  "verify_chain L now chain r =
     (if tc_valid r \<and> 2 \<le> length chain then
        let r = (case bad_link L chain 0 of
                   None \<Rightarrow> r
                 | Some i \<Rightarrow> r\<lparr>tc_valid := False,
                     tc_message := ''Signature verification failed at depth '' @ nat_dec i\<rparr>)
        in if list_ex (\<lambda>c. X509_cmp_time L (not_after L c) now < 0) (tl chain)
           then r\<lparr>tc_cscaExpired := True\<rparr> else r
      else r)"

definition hop :: "('x, 'k, 't) openssl \<Rightarrow> 'x \<Rightarrow> string" where
  "hop L c = (if isSelfSigned L (Some c) then '' -> Root''
              else if isLinkCertificate L (Some c) then '' -> Link'' else '' -> CSCA'')"

definition chain_path :: "('x, 'k, 't) openssl \<Rightarrow> 'x list \<Rightarrow> string" where
  "chain_path L chain = ''DSC'' @ concat (map (hop L) (tl chain))"

definition owned_certs :: "('x \<times> bool) list \<Rightarrow> 'x list" where
  "owned_certs chain = map fst (filter snd chain)"

definition not_in_chain :: "('x \<times> bool) list \<Rightarrow> 'x list \<Rightarrow> 'x list" where
  "not_in_chain chain all = filter (\<lambda>c. c \<notin> set (map fst chain)) all"

definition finish :: "('x, 'k, 't) openssl \<Rightarrow> int \<Rightarrow> int \<Rightarrow> 'x walk \<Rightarrow> 'x run" where
  "finish L maxDepth now w =
     (let chain = map fst (w_chain w);
          r = w_result w;
          r = (if maxDepth \<le> int (w_depth w) \<and> \<not> tc_valid r
               then r\<lparr>tc_message := ''Maximum chain depth exceeded ('' @ int_dec maxDepth @ '')''\<rparr>
               else r);
          r = verify_chain L now chain r;
          r = r\<lparr>tc_depth := length chain, tc_path := chain_path L chain\<rparr>
      in \<lparr>run_result = r, run_chain = chain,
          run_freed = not_in_chain (w_chain w) (w_all w) @ owned_certs (w_chain w)\<rparr>)"

definition refused :: "trust_chain_result \<Rightarrow> string \<Rightarrow> 'x run" where
  "refused r m = \<lparr>run_result = r\<lparr>tc_message := m\<rparr>, run_chain = [], run_freed = []\<rparr>"

definition start_walk :: "'x \<Rightarrow> trust_chain_result \<Rightarrow> 'x list \<Rightarrow> 'x walk" where
  "start_walk leaf r all = \<lparr>w_result = r, w_chain = [(leaf, False)], w_current = leaf,
     w_all = all, w_visited = {}, w_depth = 0, w_calls = 1\<rparr>"

text \<open>\<^verbatim>\<open>build(leafCert, maxDepth)\<close>; \<open>now1\<close> and \<open>now2\<close> are the two readings of the
  clock (line 48 and line 169).\<close>

definition build_run :: "('x, 'k, 't) openssl \<Rightarrow> 'x provider \<Rightarrow> int \<Rightarrow> int \<Rightarrow> int \<Rightarrow> 'x option
    \<Rightarrow> 'x run" where
  "build_run L prov now1 now2 maxDepth leafCert =
     (let r = trust_chain_result0 in
      case leafCert of
        None \<Rightarrow> refused r ''Leaf certificate is null''
      | Some leaf \<Rightarrow>
          let dn = getIssuerDn L leafCert in
          if dn = [] then refused r ''Failed to extract issuer DN from leaf certificate''
          else
            let r = r\<lparr>tc_dscExpired := isCertificateExpired L now1 leafCert\<rparr>;
                all = prov 0 dn
            in if all = [] then refused r (''No CSCA found for issuer: '' @ take 80 dn)
               else case walk_up L prov (nat maxDepth) (start_walk leaf r all) of
                      Early w \<Rightarrow> \<lparr>run_result = w_result w, run_chain = map fst (w_chain w),
                        run_freed = owned_certs (w_chain w) @ not_in_chain (w_chain w) (w_all w)\<rparr>
                    | Left w \<Rightarrow> finish L maxDepth now2 w)"

definition build :: "('x, 'k, 't) openssl \<Rightarrow> 'x provider \<Rightarrow> int \<Rightarrow> int \<Rightarrow> int \<Rightarrow> 'x option
    \<Rightarrow> trust_chain_result" where
  "build L prov now1 now2 maxDepth leafCert =
     run_result (build_run L prov now1 now2 maxDepth leafCert)"

section \<open>Induction over the walk\<close>

text \<open>One rule for every fact about the walk: \<open>P n w\<close> holds at the head of the loop
  with \<open>n\<close> rounds left, \<open>Q\<close> of what the loop returns.\<close>

abbreviation tick :: "'x walk \<Rightarrow> 'x walk" where
  "tick w \<equiv> w\<lparr>w_depth := Suc (w_depth w)\<rparr>"

abbreviation visit :: "string \<Rightarrow> 'x walk \<Rightarrow> 'x walk" where
  "visit dn w \<equiv> w\<lparr>w_depth := Suc (w_depth w), w_visited := insert dn (w_visited w)\<rparr>"

lemma walk_up_rule [consumes 1, case_names zero bad_root root stop broken step]:
  assumes "P n w"
    and "\<And>w. P 0 w \<Longrightarrow> Q (Left w)"
    and "\<And>n w m. P (Suc n) w \<Longrightarrow> isSelfSigned L (Some (w_current w)) \<Longrightarrow>
           Q (Early (set_message m (tick w)))"
    and "\<And>n w. P (Suc n) w \<Longrightarrow> isSelfSigned L (Some (w_current w)) \<Longrightarrow>
           verifyCertificateSignature L (Some (w_current w)) (Some (w_current w)) \<Longrightarrow>
           Q (Left (accept_root L (tick w)))"
    and "\<And>n w m. P (Suc n) w \<Longrightarrow> Q (Left (set_message m (tick w)))"
    and "\<And>n w m dn all calls. P (Suc n) w \<Longrightarrow> dn = getIssuerDn L (Some (w_current w)) \<Longrightarrow>
           find_issuer L prov (w_current w) dn (w_all w) (w_calls w) = (None, all, calls) \<Longrightarrow>
           Q (Left (set_message m ((visit dn w)\<lparr>w_all := all, w_calls := calls\<rparr>)))"
    and "\<And>n w dn i all calls. P (Suc n) w \<Longrightarrow> \<not> isSelfSigned L (Some (w_current w)) \<Longrightarrow>
           dn = getIssuerDn L (Some (w_current w)) \<Longrightarrow> dn \<noteq> [] \<Longrightarrow> dn \<notin> w_visited w \<Longrightarrow>
           find_issuer L prov (w_current w) dn (w_all w) (w_calls w) = (Some i, all, calls) \<Longrightarrow>
           P n (push_issuer i all calls (visit dn w))"
  shows "Q (walk_up L prov n w)"
  using assms(1)
proof (induction n arbitrary: w)
  case 0
  then show ?case using assms(2) by simp
next
  case (Suc n)
  define dn where "dn = getIssuerDn L (Some (w_current w))"
  obtain oi all calls
    where f: "find_issuer L prov (w_current w) dn (w_all w) (w_calls w) = (oi, all, calls)"
    using prod_cases3 by blast
  show ?case
  proof (cases oi)
    case None
    show ?thesis
      using Suc.prems f None
      by (auto simp: walk_up.simps(2) Let_def dn_def [symmetric]
          intro: assms(3-5) assms(6) [OF Suc.prems dn_def])
  next
    case (Some i)
    show ?thesis
      using Suc.prems f Some
      by (auto simp: walk_up.simps(2) Let_def dn_def [symmetric]
          intro: assms(3-5) intro!: Suc.IH [OF assms(7) [OF Suc.prems _ dn_def]])
  qed
qed

lemmas walk_ops = set_message_def accept_root_def push_issuer_def start_walk_def

lemma walk_sel [simp]:
  "w_chain (set_message m w) = w_chain w" "w_current (set_message m w) = w_current w"
  "w_all (set_message m w) = w_all w" "w_depth (set_message m w) = w_depth w"
  "tc_valid (w_result (set_message m w)) = tc_valid (w_result w)"
  "w_visited (set_message m w) = w_visited w"
  "w_chain (accept_root L w) = w_chain w" "w_current (accept_root L w) = w_current w"
  "w_all (accept_root L w) = w_all w" "w_depth (accept_root L w) = w_depth w"
  "tc_valid (w_result (accept_root L w))" "w_visited (accept_root L w) = w_visited w"
  "w_chain (push_issuer i al cl w) = w_chain w @ [(i, True)]"
  "w_current (push_issuer i al cl w) = i" "w_all (push_issuer i al cl w) = al"
  "w_result (push_issuer i al cl w) = w_result w" "w_depth (push_issuer i al cl w) = w_depth w"
  "w_visited (push_issuer i al cl w) = w_visited w" "w_calls (push_issuer i al cl w) = cl"
  by (simp_all add: walk_ops)

subsection \<open>Where an issuer comes from\<close>

lemma scan_known_set:
  "scan_known L cur dn cs fb = (i, fb') \<Longrightarrow>
     set_option i \<union> set_option fb' \<subseteq>
       {c \<in> set cs. strcaseeq dn (getSubjectDn L (Some c))} \<union> set_option fb"
  by (induction L cur dn cs fb rule: scan_known.induct) (auto split: if_splits option.splits)

lemma scan_more_set:
  "scan_more L cur cs fb all = (i, fb', all') \<Longrightarrow>
     (\<exists>k. all' = all @ take k cs) \<and>
     set_option i \<union> set_option fb' \<subseteq> (set cs \<inter> set all') \<union> set_option fb"
proof (induction L cur cs fb all rule: scan_more.induct)
  case (1 L cur fb all)
  then show ?case by auto
next
  case (2 L cur c cs fb all)
  show ?case
  proof (cases "verifyCertificateSignature L (Some cur) (Some c)")
    case True
    with "2.prems" show ?thesis by (auto intro: exI [of _ 1])
  next
    case False
    from "2.IH" [OF False] "2.prems" False obtain k where
      k: "all' = (all @ [c]) @ take k cs" and
      s: "set_option i \<union> set_option fb' \<subseteq> (set cs \<inter> set all')
            \<union> set_option (case fb of None \<Rightarrow> Some c | Some _ \<Rightarrow> fb)"
      by auto
    have "all' = all @ take (Suc k) (c # cs)" using k by simp
    moreover have "c \<in> set all'" using k by simp
    ultimately show ?thesis using s by (fastforce split: option.splits)
  qed
qed

lemma find_issuer_cases:
  assumes "find_issuer L prov cur dn all calls = (oi, all', calls')"
  obtains (known) i where "oi = Some i" "i \<in> set all" "strcaseeq dn (getSubjectDn L (Some i))"
      "all' = all" "calls' = calls"
  | (fetched) k where "calls' = Suc calls" "all' = all @ take k (prov calls dn)"
      "\<And>i. oi = Some i \<Longrightarrow> i \<in> set (prov calls dn) \<inter> set all'"
proof -
  obtain i1 fb1 where s1: "scan_known L cur dn all None = (i1, fb1)" by force
  obtain i2 fb2 a2 where s2: "scan_more L cur (prov calls dn) fb1 all = (i2, fb2, a2)"
    using prod_cases3 by blast
  note k1 = scan_known_set [OF s1] and k2 = scan_more_set [OF s2]
  show thesis
  proof (cases "or_else i1 fb1")
    case None
    then have n: "fb1 = None" by (auto simp: or_else_def split: option.splits)
    from assms None s1 s2 have r: "oi = or_else i2 fb2" "all' = a2" "calls' = Suc calls"
      by (simp_all add: find_issuer_def)
    from k2 n obtain k where "a2 = all @ take k (prov calls dn)"
      and m: "set_option i2 \<union> set_option fb2 \<subseteq> set (prov calls dn) \<inter> set a2" by auto
    moreover have "i \<in> set (prov calls dn) \<inter> set a2" if "oi = Some i" for i
      using that m unfolding r(1) or_else_def by (cases i2) auto
    ultimately show ?thesis by (intro fetched) (simp_all add: r)
  next
    case (Some i)
    with k1 have "i \<in> set all" "strcaseeq dn (getSubjectDn L (Some i))"
      by (auto simp: or_else_def split: option.splits)
    moreover from assms s1 Some have "oi = Some i" "all' = all" "calls' = calls"
      by (simp_all add: find_issuer_def)
    ultimately show ?thesis by (intro known)
  qed
qed

section \<open>The shape of the chain\<close>

fun signed_chain :: "('x, 'k, 't) openssl \<Rightarrow> 'x list \<Rightarrow> bool" where
  "signed_chain L (c # d # cs) =
     (verifyCertificateSignature L (Some c) (Some d) \<and> signed_chain L (d # cs))"
| "signed_chain L _ = True"

definition trusted_root :: "('x, 'k, 't) openssl \<Rightarrow> 'x \<Rightarrow> bool" where
  "trusted_root L c =
     (isSelfSigned L (Some c) \<and> verifyCertificateSignature L (Some c) (Some c))"

definition provided :: "'x provider \<Rightarrow> 'x set" where
  "provided prov = {c. \<exists>k dn. c \<in> set (prov k dn)}"

definition walk_shape :: "'x provider \<Rightarrow> 'x \<Rightarrow> 'x walk \<Rightarrow> bool" where
  "walk_shape prov leaf w =
     (\<exists>ext. w_chain w = (leaf, False) # map (\<lambda>c. (c, True)) ext \<and> set ext \<subseteq> set (w_all w)
        \<and> w_current w = last (leaf # ext) \<and> set (w_all w) \<subseteq> provided prov)"

lemma bad_link_None: "bad_link L cs i = None \<longleftrightarrow> signed_chain L cs"
  by (induction L cs i rule: bad_link.induct) auto

lemma find_issuer_provided:
  assumes "find_issuer L prov cur dn all calls = (oi, all', calls')" "set all \<subseteq> provided prov"
  shows "set all \<subseteq> set all' \<and> set all' \<subseteq> provided prov \<and> set_option oi \<subseteq> set all'"
  using assms(1)
proof (cases rule: find_issuer_cases)
  case known
  with assms(2) show ?thesis by auto
next
  case (fetched k)
  have "set (prov calls dn) \<subseteq> provided prov" by (auto simp: provided_def)
  then have "set all' \<subseteq> provided prov"
    using assms(2) set_take_subset [of k "prov calls dn"] unfolding fetched(2) by auto
  moreover have "set_option oi \<subseteq> set all'" using fetched(3) by (cases oi) auto
  ultimately show ?thesis using fetched(2) by auto
qed

lemma walk_shape_push:
  assumes "walk_shape prov leaf w"
    and "find_issuer L prov (w_current w) dn (w_all w) (w_calls w) = (Some i, all, calls)"
  shows "walk_shape prov leaf (push_issuer i all calls (visit dn w))"
proof -
  from assms(1) obtain ext where e: "w_chain w = (leaf, False) # map (\<lambda>c. (c, True)) ext"
    "set ext \<subseteq> set (w_all w)" "set (w_all w) \<subseteq> provided prov"
    unfolding walk_shape_def by auto
  from find_issuer_provided [OF assms(2) e(3)] e show ?thesis
    unfolding walk_shape_def by (intro exI [of _ "ext @ [i]"]) auto
qed

definition walk_end_ok :: "('x, 'k, 't) openssl \<Rightarrow> 'x provider \<Rightarrow> 'x \<Rightarrow> nat \<Rightarrow> 'x walk_end \<Rightarrow> bool" where
  "walk_end_ok L prov leaf N e =
     (case e of
        Early w \<Rightarrow> \<not> tc_valid (w_result w) \<and> walk_shape prov leaf w
      | Left w \<Rightarrow> walk_shape prov leaf w \<and> length (w_chain w) \<le> Suc N \<and>
          (tc_valid (w_result w) \<longrightarrow>
             trusted_root L (w_current w) \<and> length (w_chain w) \<le> N \<and>
             tc_cscaSubjectDn (w_result w) = getSubjectDn L (Some (w_current w)) \<and>
             tc_cscaFingerprint (w_result w) = getCertificateFingerprint L (Some (w_current w))))"

lemma walk_up_ok:
  assumes "walk_shape prov leaf w" "\<not> tc_valid (w_result w)" "length (w_chain w) + n \<le> Suc N"
  shows "walk_end_ok L prov leaf N (walk_up L prov n w)"
proof -
  define P where "P = (\<lambda>n w. walk_shape prov leaf w \<and> \<not> tc_valid (w_result w)
                            \<and> length (w_chain w) + n \<le> Suc N)"
  have "P n w" using assms by (simp add: P_def)
  then show ?thesis
  proof (induction rule: walk_up_rule)
    case (zero w)
    then show ?case by (simp add: P_def walk_end_ok_def)
  next
    case (bad_root n w m)
    then show ?case by (simp add: P_def walk_end_ok_def walk_shape_def)
  next
    case (root n w)
    then show ?case
      by (simp add: P_def walk_end_ok_def walk_shape_def trusted_root_def, simp add: walk_ops)
  next
    case (stop n w m)
    then show ?case by (simp add: P_def walk_end_ok_def walk_shape_def)
  next
    case (broken n w m dn all calls)
    then have sh: "walk_shape prov leaf w" by (simp add: P_def)
    then have "set (w_all w) \<subseteq> provided prov" by (auto simp: walk_shape_def)
    from find_issuer_provided [OF broken(3) this] have
      "set (w_all w) \<subseteq> set all" "set all \<subseteq> provided prov" by auto
    with sh have "walk_shape prov leaf (set_message m ((visit dn w)\<lparr>w_all := all, w_calls := calls\<rparr>))"
      unfolding walk_shape_def by fastforce
    with broken show ?case by (simp add: P_def walk_end_ok_def)
  next
    case (step n w dn i all calls)
    then show ?case by (simp add: P_def walk_shape_push)
  qed
qed

lemma start_walk_shape: "set all \<subseteq> provided prov \<Longrightarrow> walk_shape prov leaf (start_walk leaf r all)"
  by (auto simp: walk_shape_def start_walk_def)

lemma prov_provided: "set (prov k dn) \<subseteq> provided prov"
  by (auto simp: provided_def)

text \<open>What a valid run went through.\<close>

lemma build_run_valid:
  assumes v: "tc_valid (build L prov now1 now2 maxDepth leafCert)"
  obtains leaf w where "leafCert = Some leaf" "getIssuerDn L leafCert \<noteq> []"
    "build_run L prov now1 now2 maxDepth leafCert = finish L maxDepth now2 w"
    "walk_shape prov leaf w" "tc_valid (w_result w)" "trusted_root L (w_current w)"
    "length (w_chain w) \<le> nat maxDepth"
    "tc_cscaSubjectDn (w_result w) = getSubjectDn L (Some (w_current w))"
    "tc_cscaFingerprint (w_result w) = getCertificateFingerprint L (Some (w_current w))"
    "signed_chain L (map fst (w_chain w))"
proof -
  note d = build_def build_run_def refused_def trust_chain_result0_def Let_def
  from v obtain leaf where leaf: "leafCert = Some leaf" by (cases leafCert) (auto simp: d)
  define dn where "dn = getIssuerDn L leafCert"
  define r where "r = trust_chain_result0\<lparr>tc_dscExpired := isCertificateExpired L now1 leafCert\<rparr>"
  define w0 where "w0 = start_walk leaf r (prov 0 dn)"
  have ne: "dn \<noteq> []" "prov 0 dn \<noteq> []" using v leaf by (auto simp: d dn_def split: if_splits)
  then have run: "build_run L prov now1 now2 maxDepth leafCert =
      (case walk_up L prov (nat maxDepth) w0 of
         Early w \<Rightarrow> \<lparr>run_result = w_result w, run_chain = map fst (w_chain w),
           run_freed = owned_certs (w_chain w) @ not_in_chain (w_chain w) (w_all w)\<rparr>
       | Left w \<Rightarrow> finish L maxDepth now2 w)"
    using leaf by (simp add: build_run_def Let_def dn_def w0_def r_def)
  have ok: "walk_end_ok L prov leaf (nat maxDepth) (walk_up L prov (nat maxDepth) w0)"
    by (rule walk_up_ok) (auto simp: w0_def start_walk_shape prov_provided,
        auto simp: start_walk_def r_def trust_chain_result0_def)
  show thesis
  proof (cases "walk_up L prov (nat maxDepth) w0")
    case (Early w)
    with ok v run show ?thesis by (simp add: build_def walk_end_ok_def)
  next
    case (Left w)
    have fin: "build_run L prov now1 now2 maxDepth leafCert = finish L maxDepth now2 w"
      using run Left by simp
    with v have fv: "tc_valid (run_result (finish L maxDepth now2 w))" by (simp add: build_def)
    then have wv: "tc_valid (w_result w)"
      by (auto simp: finish_def verify_chain_def Let_def split: if_splits)
    with fv have "signed_chain L (map fst (w_chain w))"
    proof (cases "2 \<le> length (w_chain w)")
      case True
      with fv wv have "bad_link L (map fst (w_chain w)) 0 = None"
        by (auto simp: finish_def verify_chain_def Let_def split: if_splits option.splits)
      then show ?thesis by (simp add: bad_link_None)
    next
      case False
      then have "length (map fst (w_chain w)) \<le> 1" by simp
      then show ?thesis by (cases "map fst (w_chain w)") auto
    qed
    with that leaf ne fin ok wv Left show ?thesis
      by (simp add: walk_end_ok_def dn_def)
  qed
qed

section \<open>Correctness of build\<close>

lemma map_fst_owned [simp]: "map (fst \<circ> (\<lambda>c. (c, True))) xs = xs"
  by (induction xs) auto

lemma finish_fields:
  "run_chain (finish L maxDepth now w) = map fst (w_chain w)"
  "tc_depth (run_result (finish L maxDepth now w)) = length (w_chain w)"
  "tc_path (run_result (finish L maxDepth now w)) = chain_path L (map fst (w_chain w))"
  "tc_cscaSubjectDn (run_result (finish L maxDepth now w)) = tc_cscaSubjectDn (w_result w)"
  "tc_cscaFingerprint (run_result (finish L maxDepth now w)) = tc_cscaFingerprint (w_result w)"
  by (simp_all add: finish_def verify_chain_def Let_def split: option.splits)

text \<open>The walk leaves the expiry of the CSCAs to \<^verbatim>\<open>verify_chain\<close>, which looks at all certificates but the leaf.\<close>

lemma walk_up_expiry:
  assumes "\<not> tc_cscaExpired (w_result w)"
  shows "\<not> tc_cscaExpired (w_result (case walk_up L prov n w of Early w' \<Rightarrow> w' | Left w' \<Rightarrow> w'))"
proof -
  define P where "P = (\<lambda>(n :: nat) w. \<not> tc_cscaExpired (w_result (w :: 'a walk)))"
  have "P n w" using assms by (simp add: P_def)
  then show ?thesis by (induction rule: walk_up_rule) (simp_all add: P_def walk_ops)
qed

lemma finish_expiry:
  assumes "tc_valid (run_result (finish L maxDepth now w))" "\<not> tc_cscaExpired (w_result w)"
  shows "tc_cscaExpired (run_result (finish L maxDepth now w))
    \<longleftrightarrow> (\<exists>x \<in> set (tl (map fst (w_chain w))). isCertificateExpired L now (Some x))"
proof (cases "2 \<le> length (w_chain w)")
  case True
  with assms show ?thesis
    by (auto simp: finish_def verify_chain_def isCertificateExpired_def list_ex_iff Let_def split: if_splits option.splits)
next
  case False
  then have "tl (map fst (w_chain w)) = []" by (cases "w_chain w"; cases "tl (w_chain w)") auto
  with assms False show ?thesis by (auto simp: finish_def verify_chain_def Let_def split: if_splits)
qed

lemma build_expiry:
  assumes "tc_valid (build L prov now1 now2 maxDepth (Some leaf))"
    and "run = build_run L prov now1 now2 maxDepth (Some leaf)"
  shows "tc_cscaExpired (run_result run) \<longleftrightarrow> (\<exists>x \<in> set (tl (run_chain run)). isCertificateExpired L now2 (Some x))"
proof -
  note d = build_def build_run_def refused_def trust_chain_result0_def Let_def
  let ?w0 = "start_walk leaf (trust_chain_result0\<lparr>tc_dscExpired := isCertificateExpired L now1 (Some leaf)\<rparr>)
    (prov 0 (getIssuerDn L (Some leaf)))"
  have "getIssuerDn L (Some leaf) \<noteq> []" "prov 0 (getIssuerDn L (Some leaf)) \<noteq> []"
    using assms(1) by (auto simp: d split: if_splits)
  then have run: "run = (case walk_up L prov (nat maxDepth) ?w0 of
         Early w \<Rightarrow> \<lparr>run_result = w_result w, run_chain = map fst (w_chain w),
           run_freed = owned_certs (w_chain w) @ not_in_chain (w_chain w) (w_all w)\<rparr>
       | Left w \<Rightarrow> finish L maxDepth now2 w)"
    by (simp add: assms(2) build_run_def Let_def)
  have e: "\<not> tc_cscaExpired (w_result (case walk_up L prov (nat maxDepth) ?w0 of Early w' \<Rightarrow> w' | Left w' \<Rightarrow> w'))"
    by (rule walk_up_expiry) (simp add: start_walk_def trust_chain_result0_def)
  show ?thesis
  proof (cases "walk_up L prov (nat maxDepth) ?w0")
    case (Early w)
    have "walk_end_ok L prov leaf (nat maxDepth) (walk_up L prov (nat maxDepth) ?w0)"
      by (rule walk_up_ok) (auto simp: start_walk_shape prov_provided, auto simp: start_walk_def trust_chain_result0_def)
    with Early run assms show ?thesis by (simp add: build_def walk_end_ok_def)
  next
    case (Left w)
    with run assms have "tc_valid (run_result (finish L maxDepth now2 w))" by (simp add: build_def)
    with finish_expiry [OF this] e Left run show ?thesis by (simp add: finish_fields)
  qed
qed

lemma build_chain:
  fixes L :: "('x, 'k, 't) openssl"
  assumes "tc_valid (build L prov now1 now2 maxDepth (Some leaf))"
    and "run = build_run L prov now1 now2 maxDepth (Some leaf)"
  shows "run_chain run \<noteq> [] \<and> hd (run_chain run) = leaf
    \<and> signed_chain L (run_chain run) \<and> trusted_root L (last (run_chain run))
    \<and> set (tl (run_chain run)) \<subseteq> provided prov
    \<and> (isSelfSigned L (Some leaf) \<or> last (run_chain run) \<in> provided prov)
    \<and> tc_depth (run_result run) = length (run_chain run)
    \<and> int (length (run_chain run)) \<le> maxDepth
    \<and> tc_cscaSubjectDn (run_result run) = getSubjectDn L (Some (last (run_chain run)))
    \<and> tc_cscaFingerprint (run_result run) = getCertificateFingerprint L (Some (last (run_chain run)))"
  using assms(1)
proof (cases rule: build_run_valid)
  case (1 leaf' w)
  from 1 obtain ext where e: "w_chain w = (leaf, False) # map (\<lambda>c. (c, True)) ext"
      "set ext \<subseteq> provided prov" "w_current w = last (leaf # ext)"
    unfolding walk_shape_def by auto
  have ch: "map fst (w_chain w) = leaf # ext" by (simp add: e(1))
  have run: "run = finish L maxDepth now2 w" using assms(2) 1 by simp
  have rc: "run_chain run = leaf # ext" by (simp add: run finish_fields ch)
  have "isSelfSigned L (Some leaf) \<or> last (leaf # ext) \<in> provided prov"
    using 1(6) e by (cases ext rule: rev_cases) (auto simp: trusted_root_def)
  then show ?thesis
    unfolding rc using 1 e by (auto simp: run finish_fields ch)
qed

text \<open>C3. A trust chain that \<^verbatim>\<open>build\<close> reports valid is one: it starts at the leaf, every
  certificate is verified with the next one's key, it ends in a self-signed certificate that
  verifies itself, it has at most \<^verbatim>\<open>maxDepth\<close> certificates, all but the leaf come from the
  CSCA provider, and depth, root DN and root fingerprint of the result describe it.  A leaf that
  is not self-signed is anchored in a provided CSCA.\<close>

theorem build_sound:
  fixes L :: "('x, 'k, 't) openssl"
  assumes "tc_valid (build L prov now1 now2 maxDepth (Some leaf))"
    and "run = build_run L prov now1 now2 maxDepth (Some leaf)"
  shows "run_chain run \<noteq> [] \<and> hd (run_chain run) = leaf
    \<and> signed_chain L (run_chain run) \<and> trusted_root L (last (run_chain run))
    \<and> set (tl (run_chain run)) \<subseteq> provided prov
    \<and> (isSelfSigned L (Some leaf) \<or> last (run_chain run) \<in> provided prov)
    \<and> tc_depth (run_result run) = length (run_chain run)
    \<and> int (length (run_chain run)) \<le> maxDepth
    \<and> tc_cscaSubjectDn (run_result run) = getSubjectDn L (Some (last (run_chain run)))
    \<and> tc_cscaFingerprint (run_result run) = getCertificateFingerprint L (Some (last (run_chain run)))"
  using assms by (rule build_chain)

definition demo_provider :: "nat provider" where
  "demo_provider n dn = [1, 2]"

lemma demo_valid: "tc_valid (build demo_pki demo_provider 0 0 10 (Some 0))"
  by code_simp

lemma build_sound_witness:
  "last (run_chain (build_run demo_pki demo_provider 0 0 10 (Some 0))) \<in> provided demo_provider
   \<and> tc_valid (build demo_pki demo_provider 0 0 10 (Some 0))"
  using build_sound [OF demo_valid refl] demo_valid by simp

lemma scan_known_finds:
  assumes "\<exists>c \<in> set cs. strcaseeq dn (getSubjectDn L (Some c))
       \<and> verifyCertificateSignature L (Some cur) (Some c)"
  shows "\<exists>c fb'. scan_known L cur dn cs fb = (Some c, fb') \<and> c \<in> set cs
     \<and> strcaseeq dn (getSubjectDn L (Some c)) \<and> verifyCertificateSignature L (Some cur) (Some c)"
  using assms
proof (induction cs arbitrary: fb)
  case Nil
  then show ?case by simp
next
  case (Cons a cs)
  show ?case
  proof (cases "strcaseeq dn (getSubjectDn L (Some a))
      \<and> verifyCertificateSignature L (Some cur) (Some a)")
    case True
    then show ?thesis by simp
  next
    case False
    define fb2 where "fb2 = (if strcaseeq dn (getSubjectDn L (Some a))
      then (case fb of None \<Rightarrow> Some a | Some _ \<Rightarrow> fb) else fb)"
    have "scan_known L cur dn (a # cs) fb = scan_known L cur dn cs fb2"
      using False by (simp add: fb2_def)
    moreover have "\<exists>c \<in> set cs. strcaseeq dn (getSubjectDn L (Some c))
       \<and> verifyCertificateSignature L (Some cur) (Some c)" using Cons.prems False by auto
    ultimately show ?thesis using Cons.IH [of fb2] by auto
  qed
qed

lemma find_issuer_known:
  assumes "\<exists>c \<in> set all. strcaseeq dn (getSubjectDn L (Some c))
       \<and> verifyCertificateSignature L (Some cur) (Some c)"
  obtains c where "find_issuer L prov cur dn all calls = (Some c, all, calls)" "c \<in> set all"
    "strcaseeq dn (getSubjectDn L (Some c))" "verifyCertificateSignature L (Some cur) (Some c)"
proof -
  from scan_known_finds [OF assms, of None] obtain c fb' where
    c: "scan_known L cur dn all None = (Some c, fb')" "c \<in> set all"
      "strcaseeq dn (getSubjectDn L (Some c))" "verifyCertificateSignature L (Some cur) (Some c)"
    by auto
  moreover from c(1) have "find_issuer L prov cur dn all calls = (Some c, all, calls)"
    by (simp add: find_issuer_def or_else_def)
  ultimately show thesis using that by blast
qed

text \<open>C10. A document signer issued directly by a CSCA is accepted through any key rollover:
  when among the CSCAs the provider returns for the issuer DN some one with that DN (letter
  case apart) verifies the leaf, and each such one is a verified self-signed root, the result is
  valid with depth 2 and the path \<open>DSC -> Root\<close>, whatever other keys share the DN and in
  whatever order they come.\<close>

theorem build_direct_complete:
  assumes "\<not> isSelfSigned L (Some leaf)" "getIssuerDn L (Some leaf) \<noteq> []" "2 \<le> maxDepth"
    and "\<exists>c \<in> set (prov 0 (getIssuerDn L (Some leaf))).
           strcaseeq (getIssuerDn L (Some leaf)) (getSubjectDn L (Some c))
           \<and> verifyCertificateSignature L (Some leaf) (Some c)"
    and "\<forall>c \<in> set (prov 0 (getIssuerDn L (Some leaf))).
           strcaseeq (getIssuerDn L (Some leaf)) (getSubjectDn L (Some c))
           \<and> verifyCertificateSignature L (Some leaf) (Some c) \<longrightarrow> trusted_root L c"
  shows "tc_valid (build L prov now1 now2 maxDepth (Some leaf))
    \<and> tc_depth (build L prov now1 now2 maxDepth (Some leaf)) = 2
    \<and> tc_path (build L prov now1 now2 maxDepth (Some leaf)) = ''DSC -> Root''"
proof -
  define dn where "dn = getIssuerDn L (Some leaf)"
  obtain c where c: "find_issuer L prov leaf dn (prov 0 dn) 1 = (Some c, prov 0 dn, 1)"
      "c \<in> set (prov 0 dn)" "strcaseeq dn (getSubjectDn L (Some c))"
      "verifyCertificateSignature L (Some leaf) (Some c)"
    using assms(4) unfolding dn_def by (rule find_issuer_known)
  with assms(5) have root: "isSelfSigned L (Some c)"
    "verifyCertificateSignature L (Some c) (Some c)"
    by (auto simp: dn_def trusted_root_def)
  define n where "n = nat maxDepth - 2"
  have n: "nat maxDepth = Suc (Suc n)" using assms(3) unfolding n_def by linarith
  define r where "r = trust_chain_result0\<lparr>tc_dscExpired := isCertificateExpired L now1 (Some leaf)\<rparr>"
  define w where "w = accept_root L ((push_issuer c (prov 0 dn) 1
     (start_walk leaf r (prov 0 dn)\<lparr>w_depth := 1, w_visited := {dn}\<rparr>))\<lparr>w_depth := 2\<rparr>)"
  have "walk_up L prov (nat maxDepth) (start_walk leaf r (prov 0 dn)) = Left w"
    using assms(1,2) c root
    by (simp add: n walk_up.simps(2) Let_def start_walk_def w_def push_issuer_def accept_root_def
        dn_def [symmetric] numeral_2_eq_2)
  moreover have "prov 0 dn \<noteq> []" using c(2) by auto
  ultimately have "build_run L prov now1 now2 maxDepth (Some leaf) = finish L maxDepth now2 w"
    using assms(2) by (simp add: build_run_def Let_def dn_def r_def)
  moreover have "map fst (w_chain w) = [leaf, c]" "tc_valid (w_result w)"
    by (simp_all add: w_def start_walk_def)
  ultimately show ?thesis
    using c(4) root
    by (auto simp: build_def finish_def verify_chain_def chain_path_def hop_def Let_def)
qed

lemma build_direct_complete_witness:
  "tc_path (build demo_pki demo_provider 0 0 10 (Some 0)) = ''DSC -> Root''"
  using build_direct_complete [of demo_pki 0 10 demo_provider 0 0]
  by (auto simp: demo_provider_def trusted_root_def)

section \<open>Expiry is informational\<close>

definition set_dsc :: "bool \<Rightarrow> 'x walk \<Rightarrow> 'x walk" where
  "set_dsc b w = w\<lparr>w_result := (w_result w)\<lparr>tc_dscExpired := b\<rparr>\<rparr>"

definition forget_expiry :: "trust_chain_result \<Rightarrow> trust_chain_result" where
  "forget_expiry r = r\<lparr>tc_dscExpired := False, tc_cscaExpired := False\<rparr>"

fun map_end :: "('x walk \<Rightarrow> 'x walk) \<Rightarrow> 'x walk_end \<Rightarrow> 'x walk_end" where
  "map_end f (Early w) = Early (f w)"
| "map_end f (Left w) = Left (f w)"

lemma set_dsc_sel:
  "w_current (set_dsc b w) = w_current w" "w_depth (set_dsc b w) = w_depth w"
  "w_visited (set_dsc b w) = w_visited w" "w_all (set_dsc b w) = w_all w"
  "w_calls (set_dsc b w) = w_calls w"
  by (simp_all add: set_dsc_def)

lemma set_dsc_comm:
  "push_issuer i al cl ((set_dsc b w)\<lparr>w_depth := d, w_visited := v\<rparr>)
     = set_dsc b (push_issuer i al cl (w\<lparr>w_depth := d, w_visited := v\<rparr>))"
  "accept_root L ((set_dsc b w)\<lparr>w_depth := d\<rparr>) = set_dsc b (accept_root L (w\<lparr>w_depth := d\<rparr>))"
  "set_message m ((set_dsc b w)\<lparr>w_depth := d\<rparr>) = set_dsc b (set_message m (w\<lparr>w_depth := d\<rparr>))"
  "set_message m ((set_dsc b w)\<lparr>w_depth := d, w_visited := v, w_all := al, w_calls := cl\<rparr>)
     = set_dsc b (set_message m (w\<lparr>w_depth := d, w_visited := v, w_all := al, w_calls := cl\<rparr>))"
  by (simp_all add: set_dsc_def walk_ops)

lemma walk_up_set_dsc:
  "walk_up L prov n (set_dsc b w) = map_end (set_dsc b) (walk_up L prov n w)"
proof (induction n arbitrary: w)
  case 0
  then show ?case by simp
next
  case (Suc n)
  then show ?case
    by (simp add: walk_up.simps(2) Let_def set_dsc_sel set_dsc_comm split: prod.splits option.splits)
qed

lemma finish_forget:
  "forget_expiry (run_result (finish L maxDepth now (set_dsc b w)))
     = forget_expiry (run_result (finish L maxDepth now' w))"
  "run_chain (finish L maxDepth now (set_dsc b w)) = run_chain (finish L maxDepth now' w)"
  "run_freed (finish L maxDepth now (set_dsc b w)) = run_freed (finish L maxDepth now' w)"
  by (simp_all add: finish_def verify_chain_def set_dsc_def forget_expiry_def Let_def
      split: option.splits)

text \<open>Expiration is informational only (the ICAO hybrid chain model): the clock changes
  nothing of the result but its two expiry flags, neither the verdict nor the chain nor the
  message.\<close>

theorem build_expiry_informational:
  "forget_expiry (build L prov now1 now2 maxDepth leafCert)
     = forget_expiry (build L prov now1' now2' maxDepth leafCert)
   \<and> run_chain (build_run L prov now1 now2 maxDepth leafCert)
     = run_chain (build_run L prov now1' now2' maxDepth leafCert)"
proof (cases leafCert)
  case None
  then show ?thesis by (simp add: build_def build_run_def refused_def)
next
  case (Some leaf)
  define dn where "dn = getIssuerDn L (Some leaf)"
  define w where "w = start_walk leaf trust_chain_result0 (prov 0 dn)"
  have s: "start_walk leaf (trust_chain_result0\<lparr>tc_dscExpired := b\<rparr>) (prov 0 dn) = set_dsc b w" for b
    by (simp add: w_def start_walk_def set_dsc_def)
  show ?thesis
  proof (cases "walk_up L prov (nat maxDepth) w")
    case (Early w')
    with Some show ?thesis
      by (simp add: build_def build_run_def Let_def dn_def [symmetric] s walk_up_set_dsc refused_def,
          simp add: set_dsc_def forget_expiry_def)
  next
    case (Left w')
    have "forget_expiry (run_result (finish L maxDepth now2 (set_dsc b w')))
        = forget_expiry (run_result (finish L maxDepth now2' (set_dsc b' w')))"
      "run_chain (finish L maxDepth now2 (set_dsc b w'))
        = run_chain (finish L maxDepth now2' (set_dsc b' w'))" for b b'
      using finish_forget by metis+
    with Some Left show ?thesis
      by (simp add: build_def build_run_def Let_def dn_def [symmetric] s walk_up_set_dsc refused_def,
          simp add: forget_expiry_def)
  qed
qed

section \<open>The provider's contract\<close>

text \<open>What \<^verbatim>\<open>providers.h\<close> promises of \<^verbatim>\<open>findAllCscasByIssuerDn\<close>: the pointers are
  fresh and owned by the caller, and the certificates carry the DN asked for (compared by
  \<^verbatim>\<open>normalizeDnForComparison\<close>).\<close>

locale csca_provider =
  fixes L :: "('x, 'k, 't) openssl"
    and prov :: "'x provider"
  assumes distinct_result: "distinct (prov k dn)"
    and fresh_result: "k \<noteq> k' \<Longrightarrow> set (prov k dn) \<inter> set (prov k' dn') = {}"
    and subject_result: "c \<in> set (prov k dn) \<Longrightarrow>
      normalizeDnForComparison (getSubjectDn L (Some c)) = normalizeDnForComparison dn"

definition canonical_dns :: "('x, 'k, 't) openssl \<Rightarrow> bool" where
  "canonical_dns L = (\<forall>c d. normalizeDnForComparison (getSubjectDn L (Some c))
       = normalizeDnForComparison (getIssuerDn L (Some d))
     \<longrightarrow> getSubjectDn L (Some c) = getIssuerDn L (Some d))"

lemma strcaseeq_canonical:
  assumes "canonical_dns L" "strcaseeq (getIssuerDn L (Some d)) (getSubjectDn L (Some c))"
  shows "getSubjectDn L (Some c) = getIssuerDn L (Some d)"
proof -
  have "c_str (getSubjectDn L (Some c)) = getSubjectDn L (Some c)"
    "c_str (getIssuerDn L (Some d)) = getIssuerDn L (Some d)"
    by (auto simp: getSubjectDn_def getIssuerDn_def c_str_Nil split: option.splits)
  then have "normalizeDnForComparison (getSubjectDn L (Some c))
      = normalizeDnForComparison (getIssuerDn L (Some d))"
    using assms(2) strcaseeq_normalize by metis
  with assms(1) show ?thesis by (simp add: canonical_dns_def)
qed

context csca_provider
begin

text \<open>The walk's bookkeeping: everything fetched is fetched once, the chain has no repetition
  and the subject of each of its CSCAs has been visited.\<close>

definition ledger :: "'x \<Rightarrow> 'x walk \<Rightarrow> bool" where
  "ledger leaf w = (\<exists>ext. w_chain w = (leaf, False) # map (\<lambda>c. (c, True)) ext
     \<and> distinct (leaf # ext) \<and> set ext \<subseteq> set (w_all w) \<and> distinct (w_all w)
     \<and> leaf \<notin> provided prov
     \<and> (\<forall>c \<in> set (w_all w). \<exists>k < w_calls w. \<exists>dn. c \<in> set (prov k dn))
     \<and> (\<forall>c \<in> set ext. getSubjectDn L (Some c) \<in> w_visited w))"

lemma fetched_distinct:
  assumes "distinct all" "\<forall>c \<in> set all. \<exists>k < calls. \<exists>dn. c \<in> set (prov k dn)"
  shows "distinct (all @ take j (prov calls dn))"
    "\<forall>c \<in> set (all @ take j (prov calls dn)). \<exists>k < Suc calls. \<exists>dn. c \<in> set (prov k dn)"
    "set all \<inter> set (prov calls dn) = {}"
proof -
  show disj: "set all \<inter> set (prov calls dn) = {}"
  proof (intro equals0I)
    fix c assume c: "c \<in> set all \<inter> set (prov calls dn)"
    with assms(2) obtain k dn' where "k < calls" "c \<in> set (prov k dn')" by blast
    with c fresh_result [of k calls dn' dn] show False by auto
  qed
  have "distinct (take j (prov calls dn))" using distinct_result distinct_take by blast
  with disj assms(1) show "distinct (all @ take j (prov calls dn))"
    by (auto dest: in_set_takeD)
  show "\<forall>c \<in> set (all @ take j (prov calls dn)). \<exists>k < Suc calls. \<exists>dn. c \<in> set (prov k dn)"
    using assms(2) by (fastforce dest: in_set_takeD simp: less_Suc_eq)
qed

lemma ledger_fetch:
  assumes led: "ledger leaf w"
    and f: "find_issuer L prov (w_current w) dn (w_all w) (w_calls w) = (oi, all, calls)"
  shows "distinct all \<and> (\<forall>c \<in> set all. \<exists>k < calls. \<exists>dn. c \<in> set (prov k dn)) \<and> set (w_all w) \<subseteq> set all"
  using f
proof (cases rule: find_issuer_cases)
  case (known i)
  with led show ?thesis by (auto simp: ledger_def)
next
  case (fetched j)
  have "distinct (w_all w)" "\<forall>c \<in> set (w_all w). \<exists>k < w_calls w. \<exists>dn. c \<in> set (prov k dn)"
    using led by (auto simp: ledger_def)
  from fetched_distinct [OF this] fetched show ?thesis by auto
qed

lemma ledger_push:
  assumes can: "canonical_dns L" and led: "ledger leaf w"
    and dn: "dn = getIssuerDn L (Some (w_current w))" "dn \<notin> w_visited w"
    and f: "find_issuer L prov (w_current w) dn (w_all w) (w_calls w) = (Some i, all, calls)"
  shows "ledger leaf (push_issuer i all calls (visit dn w))"
proof -
  from led obtain ext where e: "w_chain w = (leaf, False) # map (\<lambda>c. (c, True)) ext"
    "distinct (leaf # ext)" "set ext \<subseteq> set (w_all w)" "distinct (w_all w)" "leaf \<notin> provided prov"
    "\<forall>c \<in> set (w_all w). \<exists>k < w_calls w. \<exists>dn. c \<in> set (prov k dn)"
    "\<forall>c \<in> set ext. getSubjectDn L (Some c) \<in> w_visited w"
    unfolding ledger_def by auto
  note fetch = ledger_fetch [OF led f]
  have i: "i \<notin> set ext \<and> getSubjectDn L (Some i) = dn \<and> i \<in> set all"
    using f
  proof (cases rule: find_issuer_cases)
    case (known i')
    then have "getSubjectDn L (Some i) = dn" using strcaseeq_canonical [OF can] dn(1) by auto
    with known e(7) dn(2) show ?thesis by auto
  next
    case (fetched j)
    then have m: "i \<in> set (prov (w_calls w) dn)" "i \<in> set all" by auto
    from subject_result [OF m(1)] can dn(1) have "getSubjectDn L (Some i) = dn"
      by (auto simp: canonical_dns_def)
    moreover have "i \<notin> set (w_all w)"
      using m fetched_distinct(3) [OF e(4,6)] by auto
    ultimately show ?thesis using m e(3) by auto
  qed
  then have "i \<in> provided prov" using fetch unfolding provided_def by blast
  then have "i \<noteq> leaf" using e(5) by auto
  then show ?thesis
    unfolding ledger_def using e i fetch by (intro exI [of _ "ext @ [i]"]) auto
qed

definition ledger_end :: "'x \<Rightarrow> 'x walk_end \<Rightarrow> bool" where
  "ledger_end leaf e = (let w = (case e of Early w \<Rightarrow> w | Left w \<Rightarrow> w) in
     \<exists>ext. w_chain w = (leaf, False) # map (\<lambda>c. (c, True)) ext \<and> distinct (leaf # ext)
       \<and> distinct (w_all w) \<and> leaf \<notin> set ext)"

lemma ledger_end_owned:
  assumes "ledger_end leaf e" "w = (case e of Early w \<Rightarrow> w | Left w \<Rightarrow> w)"
  shows "distinct (not_in_chain (w_chain w) (w_all w) @ owned_certs (w_chain w))
    \<and> leaf \<notin> set (not_in_chain (w_chain w) (w_all w) @ owned_certs (w_chain w))"
proof -
  from assms obtain ext where e: "w_chain w = (leaf, False) # map (\<lambda>c. (c, True)) ext"
    "distinct (leaf # ext)" "distinct (w_all w)"
    unfolding ledger_end_def Let_def by auto
  have "owned_certs (w_chain w) = ext"
    by (simp add: owned_certs_def e(1) filter_map comp_def)
  moreover have "set (map fst (w_chain w)) = insert leaf (set ext)"
    by (simp add: e(1) image_image)
  ultimately show ?thesis using e(2,3) by (auto simp: not_in_chain_def)
qed

lemma walk_ledger:
  assumes "canonical_dns L" "ledger leaf w"
  shows "ledger_end leaf (walk_up L prov n w)"
proof -
  define P where "P = (\<lambda>n::nat. ledger leaf)"
  have "P n w" using assms by (simp add: P_def)
  then show ?thesis
  proof (induction rule: walk_up_rule)
    case (broken n w m dn all calls)
    then show ?case
      using ledger_fetch [of leaf w dn None all calls]
      by (auto simp: P_def ledger_def ledger_end_def)
  next
    case (step n w dn i all calls)
    then show ?case using ledger_push [OF assms(1)] by (simp add: P_def)
  qed (auto simp: P_def ledger_def ledger_end_def)
qed

lemma frees_once:
  assumes "canonical_dns L" "leaf \<notin> provided prov"
  shows "distinct (run_freed (build_run L prov now1 now2 maxDepth (Some leaf)))
    \<and> leaf \<notin> set (run_freed (build_run L prov now1 now2 maxDepth (Some leaf)))"
proof -
  define dn where "dn = getIssuerDn L (Some leaf)"
  define w where "w = start_walk leaf (trust_chain_result0\<lparr>tc_dscExpired :=
      isCertificateExpired L now1 (Some leaf)\<rparr>) (prov 0 dn)"
  have "ledger leaf w"
    using assms(2) distinct_result [of 0 dn] unfolding ledger_def w_def start_walk_def by auto
  from walk_ledger [OF assms(1) this, of "nat maxDepth"]
  have led: "ledger_end leaf (walk_up L prov (nat maxDepth) w)" .
  show ?thesis
  proof (cases "walk_up L prov (nat maxDepth) w")
    case (Early w')
    with ledger_end_owned [OF led] show ?thesis
      by (auto simp: build_run_def Let_def refused_def dn_def [symmetric] w_def [symmetric])
  next
    case (Left w')
    with ledger_end_owned [OF led] show ?thesis
      by (auto simp: build_run_def finish_def Let_def refused_def dn_def [symmetric] w_def [symmetric])
  qed
qed

end

section \<open>Where the contract matters\<close>

text \<open>When letter case differs between DNs the visited set and the DN comparison disagree
  (\<^verbatim>\<open>visitedDns\<close> is case sensitive, \<^verbatim>\<open>strcasecmp\<close> is not): a certificate can enter the
  chain twice and is then freed twice.\<close>

definition case_pki :: "(nat, nat, int) openssl" where
  "case_pki = small_pki (\<lambda>c. if c = 0 then ''/CN=L'' else if c = 1 then ''/CN=A'' else ''/CN=B'')
     (\<lambda>c. if c = 0 then ''/CN=A'' else if c = 1 then ''/CN=B'' else ''/CN=a'') (\<lambda>c k. False)"

lemma build_double_free:
  "run_freed (build_run case_pki (\<lambda>n dn. [1, 2]) 0 0 10 (Some 0)) = [1, 2, 1]"
  by code_simp

text \<open>A certificate that verifies itself is its own root: the walk stops at the leaf, and
  its only tie to the provider is that some CSCA has its issuer DN.\<close>

lemma build_self_signed_leaf:
  assumes "isSelfSigned L (Some leaf)" "verifyCertificateSignature L (Some leaf) (Some leaf)"
    and "getIssuerDn L (Some leaf) \<noteq> []" "prov 0 (getIssuerDn L (Some leaf)) \<noteq> []" "0 < maxDepth"
  shows "tc_valid (build L prov now1 now2 maxDepth (Some leaf))
    \<and> run_chain (build_run L prov now1 now2 maxDepth (Some leaf)) = [leaf]"
proof -
  define n where "n = nat maxDepth - 1"
  have n: "nat maxDepth = Suc n" using assms(5) unfolding n_def by linarith
  show ?thesis
    using assms by (simp add: build_def build_run_def Let_def n walk_up.simps(2) start_walk_def
        accept_root_def finish_def verify_chain_def)
qed

end
