(* ===== verification/Csca_Provider.thy ===== *)
theory Csca_Provider
  imports Trust_Chain
begin

text \<open>
  The CSCA and CRL providers the services plug into the validation library:
  \<^verbatim>\<open>DbCscaProvider\<close> (an in-memory cache keyed by normalised subject DN),
  \<^verbatim>\<open>LdapCscaProvider\<close> (all CSCAs of the issuer's country) and the decoding of a CRL
  column in \<^verbatim>\<open>DbCrlProvider\<close>.  The repositories behind them and \<^verbatim>\<open>d2i_X509\<close> are
  parameters.  A certificate pointer is the allocation (number of the call, index in
  the entry) with the certificate it points to.
\<close>

section \<open>The cache of DbCscaProvider\<close>

record 'c x509_ptr =
  ptr_call :: nat
  ptr_index :: nat
  ptr_cert :: 'c

record csca_cache =
  cscaCache :: "(string \<times> byte list list) list"
  cacheLoaded :: bool

definition cache_entry :: "(string \<times> byte list list) list \<Rightarrow> string \<Rightarrow> byte list list" where
  "cache_entry m k = (case map_of m k of None \<Rightarrow> [] | Some v \<Rightarrow> v)"

text \<open>\<^verbatim>\<open>cscaCache_[normalizedDn].push_back(derBytes)\<close>.\<close>

definition cache_push :: "string \<times> byte list \<Rightarrow> (string \<times> byte list list) list
    \<Rightarrow> (string \<times> byte list list) list" where
  "cache_push row m =
     (let k = normalizeDnForComparison (fst row) in smap_set k (cache_entry m k @ [snd row]) m)"

definition preloadAllCscas :: "(string \<times> byte list) list \<Rightarrow> csca_cache \<Rightarrow> csca_cache" where
  "preloadAllCscas allCscas st =
     st\<lparr>cscaCache := foldl (\<lambda>m row. cache_push row m) [] allCscas, cacheLoaded := True\<rparr>"

definition invalidateCache :: "csca_cache \<Rightarrow> csca_cache" where
  "invalidateCache st = st\<lparr>cscaCache := [], cacheLoaded := False\<rparr>"

text \<open>The d2i loop: entries that do not parse are skipped.\<close>

definition parse_all :: "(byte list \<Rightarrow> 'c option) \<Rightarrow> nat \<Rightarrow> byte list list \<Rightarrow> 'c x509_ptr list" where
  "parse_all d2i call ders =
     List.map_filter (\<lambda>(i, der). map_option (\<lambda>c. \<lparr>ptr_call = call, ptr_index = i, ptr_cert = c\<rparr>) (d2i der))
       (List.enumerate 0 ders)"

definition findAllCscasByIssuerDn :: "(string \<times> byte list) list \<Rightarrow> (byte list \<Rightarrow> 'c option) \<Rightarrow> nat
    \<Rightarrow> string \<Rightarrow> csca_cache \<Rightarrow> 'c x509_ptr list \<times> csca_cache" where
  "findAllCscasByIssuerDn repo d2i call issuerDn st =
     (let st = (if \<not> cacheLoaded st then preloadAllCscas repo st else st) in
      case map_of (cscaCache st) (normalizeDnForComparison issuerDn) of
        Some ders \<Rightarrow> (parse_all d2i call ders, st)
      | None \<Rightarrow> ([], st))"

text \<open>\<^verbatim>\<open>findCscaByIssuerDn\<close>: the first one; the second component lists the pointers freed.\<close>

definition findCscaByIssuerDn :: "(string \<times> byte list) list \<Rightarrow> (byte list \<Rightarrow> 'c option) \<Rightarrow> nat
    \<Rightarrow> string \<Rightarrow> csca_cache \<Rightarrow> 'c x509_ptr option \<times> 'c x509_ptr list \<times> csca_cache" where
  "findCscaByIssuerDn repo d2i call issuerDn st =
     (case findAllCscasByIssuerDn repo d2i call issuerDn st of
        ([], st') \<Rightarrow> (None, [], st')
      | (c # cs, st') \<Rightarrow> (Some c, cs, st'))"

text \<open>The provider that one \<^verbatim>\<open>build\<close> sees: the repository does not change during it.\<close>

definition db_provider :: "(string \<times> byte list) list \<Rightarrow> (byte list \<Rightarrow> 'c option) \<Rightarrow> csca_cache
    \<Rightarrow> 'c x509_ptr provider" where
  "db_provider repo d2i st call issuerDn = fst (findAllCscasByIssuerDn repo d2i call issuerDn st)"

section \<open>LdapCscaProvider\<close>

definition ldap_findAllCscasByIssuerDn :: "(string \<Rightarrow> 'x list) \<Rightarrow> string \<Rightarrow> 'x list" where
  "ldap_findAllCscasByIssuerDn findAllCscasByCountry issuerDn =
     (let countryCode = extractDnAttribute issuerDn ''C'' in
      if countryCode = [] then [] else findAllCscasByCountry (to_upper countryCode))"

definition ldap_findCscaByIssuerDn :: "(string \<Rightarrow> string \<Rightarrow> 'x option) \<Rightarrow> string \<Rightarrow> string \<Rightarrow> 'x option" where
  "ldap_findCscaByIssuerDn repo issuerDn countryCode =
     (let cc = (if countryCode = [] then to_upper (extractDnAttribute issuerDn ''C'') else countryCode)
      in repo issuerDn cc)"

section \<open>The CRL column of DbCrlProvider\<close>

text \<open>Pairs of hex digits, read by \<^verbatim>\<open>strtol(h, nullptr, 16)\<close>: a pair with no digit
  is 0, an odd last character is dropped.\<close>

definition strtol16_byte :: "string \<Rightarrow> byte" where
  "strtol16_byte h = (case scan_number 16 (c_str h) of None \<Rightarrow> 0 | Some (z, _) \<Rightarrow> word_of_int z)"

fun hex_pairs :: "string \<Rightarrow> byte list" where
  "hex_pairs (a # b # r) = strtol16_byte [a, b] # hex_pairs r"
| "hex_pairs _ = []"

definition bytea_body :: "string \<Rightarrow> string" where
  "bytea_body s = (if 2 < length s \<and> s ! 0 = CHR 0x5C \<and> s ! 1 = CHR ''x'' then drop 2 s else s)"

definition decode_crl_column :: "string \<Rightarrow> byte list" where
  "decode_crl_column hex =
     (let der = hex_pairs (bytea_body hex) in
      if 2 < length der \<and> der ! 0 = 0x5C \<and> der ! 1 = 0x78
      then hex_pairs (map char_of_byte (drop 2 der)) else der)"

definition db_findCrlByCountry :: "(string \<Rightarrow> json) \<Rightarrow> (byte list \<Rightarrow> 'crl option) \<Rightarrow> string
    \<Rightarrow> 'crl option" where
  "db_findCrlByCountry findByCountryCode d2i_crl countryCode =
     (let crlData = findByCountryCode countryCode in
      if crlData = JNull then None
      else
        let hex = (case jget ''crl_binary'' crlData of JStr s \<Rightarrow> s | _ \<Rightarrow> []) in
        if hex = [] then None
        else
          let der = decode_crl_column hex in
          if der = [] then None else d2i_crl der)"

section \<open>The cache holds the repository\<close>

definition rows_named :: "string \<Rightarrow> (string \<times> byte list) list \<Rightarrow> byte list list" where
  "rows_named k rows = map snd (filter (\<lambda>r. normalizeDnForComparison (fst r) = k) rows)"

definition cache_of :: "(string \<times> byte list) list \<Rightarrow> csca_cache \<Rightarrow> bool" where
  "cache_of repo st = (cacheLoaded st \<longrightarrow> cscaCache st = foldl (\<lambda>m row. cache_push row m) [] repo)"

lemma cache_entry_rows:
  "map_of (foldl (\<lambda>m row. cache_push row m) [] rows) k
     = (if rows_named k rows = [] then None else Some (rows_named k rows))"
proof (induction rows rule: rev_induct)
  case Nil
  then show ?case by (simp add: rows_named_def)
next
  case (snoc r rows)
  then show ?case by (auto simp: cache_push_def cache_entry_def rows_named_def Let_def)
qed

lemma cache_of_intros [inv_intros]:
  "cache_of repo (preloadAllCscas repo st)" "cache_of repo (invalidateCache st)"
  by (simp_all add: cache_of_def preloadAllCscas_def invalidateCache_def)

lemma findAll_unfold:
  assumes "cache_of repo st"
  shows "fst (findAllCscasByIssuerDn repo d2i call dn st)
       = parse_all d2i call (rows_named (normalizeDnForComparison dn) repo)"
    and "cache_of repo (snd (findAllCscasByIssuerDn repo d2i call dn st))"
  using assms
  by (auto simp: findAllCscasByIssuerDn_def cache_of_def preloadAllCscas_def cache_entry_rows
      parse_all_def Let_def List.map_filter_simps split: option.splits)

lemma map_filter_enumerate:
  "map ptr_cert (List.map_filter (\<lambda>(i, der). map_option
       (\<lambda>c. \<lparr>ptr_call = call, ptr_index = i, ptr_cert = c\<rparr>) (d2i der)) (List.enumerate n ders))
     = List.map_filter d2i ders"
  by (induction ders arbitrary: n) (auto simp: List.map_filter_simps split: option.splits)

text \<open>The cached lookup is the repository query it replaces: it returns the certificates
  of exactly the rows whose subject DN normalises like the issuer DN, in the repository's order,
  without those that do not parse, whether the cache is loaded, fresh or invalidated; and it
  leaves the cache describing the repository.\<close>

theorem find_all_is_query:
  assumes "cache_of repo st"
  shows "map ptr_cert (fst (findAllCscasByIssuerDn repo d2i call dn st))
      = List.map_filter d2i (map snd (filter
          (\<lambda>row. normalizeDnForComparison (fst row) = normalizeDnForComparison dn) repo))
    \<and> cache_of repo (snd (findAllCscasByIssuerDn repo d2i call dn st))"
  using findAll_unfold [OF assms, of d2i call dn] map_filter_enumerate [of call d2i 0]
  by (simp add: parse_all_def rows_named_def)

definition demo_rows :: "(string \<times> byte list) list" where
  "demo_rows = [(''CN=CSCA,C=KR'', [1]), (''/C=FR/CN=X'', [2]), (''/C=kr/CN=csca'', [3])]"

lemma find_all_is_query_witness:
  "map ptr_cert (fst (findAllCscasByIssuerDn demo_rows Some 0 ''/C=KR/CN=CSCA''
      \<lparr>cscaCache = [], cacheLoaded = False\<rparr>)) = [[1], [3]]"
proof -
  have "cache_of demo_rows \<lparr>cscaCache = [], cacheLoaded = False\<rparr>" by (simp add: cache_of_def)
  note q = conjunct1 [OF find_all_is_query [OF this, of "Some" 0 "''/C=KR/CN=CSCA''"]]
  show ?thesis unfolding q by code_simp
qed

section \<open>The provider's contract holds of DbCscaProvider\<close>

text \<open>A row is consistent when the certificate in it has the DN of its column.\<close>

definition row_ok :: "('c x509_ptr, 'k, 't) openssl \<Rightarrow> (byte list \<Rightarrow> 'c option)
    \<Rightarrow> string \<times> byte list \<Rightarrow> bool" where
  "row_ok L d2i row = (\<forall>p. d2i (snd row) = Some (ptr_cert p) \<longrightarrow>
     normalizeDnForComparison (getSubjectDn L (Some p)) = normalizeDnForComparison (fst row))"

definition unloaded :: csca_cache where
  "unloaded = \<lparr>cscaCache = [], cacheLoaded = False\<rparr>"

lemma cache_of_unloaded: "cache_of repo unloaded"
  by (simp add: cache_of_def unloaded_def)

lemma parse_all_mem:
  "p \<in> set (parse_all d2i call ders) \<longleftrightarrow>
     ptr_call p = call \<and> ptr_index p < length ders \<and> d2i (ders ! ptr_index p) = Some (ptr_cert p)"
  by (cases p) (auto simp: parse_all_def List.map_filter_def in_set_enumerate_eq image_iff)

lemma distinct_parse_all: "distinct (parse_all d2i call ders)"
proof -
  have "distinct (map ptr_index (List.map_filter (\<lambda>(i, der). map_option
       (\<lambda>c. \<lparr>ptr_call = call, ptr_index = i, ptr_cert = c\<rparr>) (d2i der)) (List.enumerate n ders)))
     \<and> (\<forall>p \<in> set (List.map_filter (\<lambda>(i, der). map_option
       (\<lambda>c. \<lparr>ptr_call = call, ptr_index = i, ptr_cert = c\<rparr>) (d2i der)) (List.enumerate n ders)).
         n \<le> ptr_index p)" for n
  proof (induction ders arbitrary: n)
    case Nil
    then show ?case by (simp add: List.map_filter_simps)
  next
    case (Cons d ders)
    from Cons.IH [of "Suc n"] show ?case
      by (fastforce simp: List.map_filter_simps split: option.splits)
  qed
  then show ?thesis unfolding parse_all_def using distinct_map by blast
qed

lemma db_provider_eq:
  "cache_of repo st \<Longrightarrow> db_provider repo d2i st call dn
     = parse_all d2i call (rows_named (normalizeDnForComparison dn) repo)"
  by (simp add: db_provider_def findAll_unfold)

interpretation db: csca_provider L "db_provider (filter (row_ok L d2i) repo) d2i unloaded"
  for L :: "('c x509_ptr, 'k, 't) openssl" and repo d2i
proof unfold_locales
  fix k k' dn dn' c
  let ?P = "db_provider (filter (row_ok L d2i) repo) d2i unloaded"
  show "distinct (?P k dn)"
    by (simp add: db_provider_eq cache_of_unloaded distinct_parse_all)
  show "set (?P k dn) \<inter> set (?P k' dn') = {}" if "k \<noteq> k'"
    using that by (auto simp: db_provider_eq cache_of_unloaded parse_all_mem)
  assume "c \<in> set (?P k dn)"
  then obtain i where "i < length (rows_named (normalizeDnForComparison dn) (filter (row_ok L d2i) repo))"
    "d2i (rows_named (normalizeDnForComparison dn) (filter (row_ok L d2i) repo) ! i) = Some (ptr_cert c)"
    by (auto simp: db_provider_eq cache_of_unloaded parse_all_mem)
  then obtain der where "der \<in> set (rows_named (normalizeDnForComparison dn) (filter (row_ok L d2i) repo))"
    "d2i der = Some (ptr_cert c)" by (metis nth_mem)
  then show "normalizeDnForComparison (getSubjectDn L (Some c)) = normalizeDnForComparison dn"
    by (auto simp: rows_named_def row_ok_def)
qed

text \<open>Memory safety of the trust-chain walk over the database provider: every pointer is
  given to \<^verbatim>\<open>X509_free\<close> at most once and the caller's leaf never is, when the rows carry the
  DN of their certificate and equal names are written equally in the certificates.\<close>

theorem build_frees_once:
  assumes "canonical_dns L" "\<forall>row \<in> set repo. row_ok L d2i row" "cache_of repo st"
    and "leaf \<notin> provided (db_provider repo d2i st)"
  shows "distinct (run_freed (build_run L (db_provider repo d2i st) now1 now2 maxDepth (Some leaf)))
    \<and> leaf \<notin> set (run_freed (build_run L (db_provider repo d2i st) now1 now2 maxDepth (Some leaf)))"
proof -
  have "filter (row_ok L d2i) repo = repo" using assms(2) by simp
  moreover have "db_provider repo d2i st = db_provider repo d2i unloaded"
    by (intro ext) (simp add: db_provider_eq assms(3) cache_of_unloaded)
  ultimately show ?thesis
    using db.frees_once [of L leaf d2i repo now1 now2 maxDepth] assms(1,4) by simp
qed

definition ptr_pki :: "(nat x509_ptr, nat, int) openssl" where
  "ptr_pki = \<lparr>
     subject_oneline = (\<lambda>p. subject_oneline demo_pki (ptr_cert p)),
     issuer_oneline = (\<lambda>p. Some ''/C=KR/CN=CSCA''),
     get_pubkey = (\<lambda>p. Some (ptr_cert p)),
     X509_verify = (\<lambda>p k. if k = 2 then 1 else 0),
     not_before = (\<lambda>p. 0),
     not_after = (\<lambda>p. 100),
     X509_cmp_time = (\<lambda>t now. if t \<le> now then - 1 else 1),
     ASN1_TIME_to_tm = (\<lambda>t. None),
     basic_constraints_ca = (\<lambda>p. Some True),
     key_usage = (\<lambda>p. None),
     X509_digest = (\<lambda>p. None),
     extensions = (\<lambda>p. []),
     serial_number = (\<lambda>p. None),
     ASN1_INTEGER_to_BN = Some,
     BN_bn2hex = (\<lambda>n. None),
     signature_nid = (\<lambda>p. NID_rsassaPss),
     OBJ_nid2sn = (\<lambda>n. ''RSASSA-PSS''),
     pkey_base_id = (\<lambda>k. EVP_PKEY_RSA),
     pkey_bits = (\<lambda>k. 4096)\<rparr>"

definition ptr_rows :: "(string \<times> byte list) list" where
  "ptr_rows = [(''/C=KR/CN=CSCA'', [1]), (''CN=CSCA,C=KR'', [2])]"

definition ptr_parse :: "byte list \<Rightarrow> nat option" where
  "ptr_parse der = (case der of [b] \<Rightarrow> Some (unat b) | _ \<Rightarrow> None)"

lemma ptr_pki_dns [simp]:
  "getIssuerDn ptr_pki (Some p) = ''/C=KR/CN=CSCA''"
  "getSubjectDn ptr_pki (Some p) = (if ptr_cert p = 0 then ''/C=KR/CN=DS'' else ''/C=KR/CN=CSCA'')"
  by (simp_all add: ptr_pki_def getIssuerDn_def getSubjectDn_def demo_pki_def small_pki_def)

lemma build_frees_once_witness:
  "distinct (run_freed (build_run ptr_pki (db_provider ptr_rows ptr_parse unloaded) 0 0 10
     (Some \<lparr>ptr_call = 99, ptr_index = 9, ptr_cert = 0\<rparr>)))"
proof -
  have n: "normalizeDnForComparison ''/C=KR/CN=DS'' \<noteq> normalizeDnForComparison ''/C=KR/CN=CSCA''"
    "normalizeDnForComparison ''CN=CSCA,C=KR'' = normalizeDnForComparison ''/C=KR/CN=CSCA''"
    by code_simp+
  have "canonical_dns ptr_pki" using n by (simp add: canonical_dns_def)
  moreover have "\<forall>row \<in> set ptr_rows. row_ok ptr_pki ptr_parse row"
    using n by (simp add: ptr_rows_def row_ok_def ptr_parse_def)
  moreover have "\<lparr>ptr_call = 99, ptr_index = 9, ptr_cert = 0\<rparr>
      \<notin> provided (db_provider ptr_rows ptr_parse unloaded)"
  proof
    assume "\<lparr>ptr_call = 99, ptr_index = 9, ptr_cert = 0\<rparr>
      \<in> provided (db_provider ptr_rows ptr_parse unloaded)"
    then obtain k where k: "9 < length (rows_named k ptr_rows)"
      by (auto simp: provided_def db_provider_eq cache_of_unloaded parse_all_mem)
    have "length (rows_named k ptr_rows) \<le> length ptr_rows" by (simp add: rows_named_def)
    with k show False by (simp add: ptr_rows_def)
  qed
  ultimately show ?thesis
    using build_frees_once cache_of_unloaded by blast
qed

section \<open>Decoding the CRL column\<close>

lemma strtol16_byte_hex [simp]: "strtol16_byte (byte_hex b) = b"
proof -
  have "hex_digit n \<noteq> CHR 0x00" if "n < 16" for n
    using hex_digit_alphabet [OF that] by (auto simp: hex_alphabet_def digit_val_def Let_def)
  then have "c_str (byte_hex b) = byte_hex b" by (simp add: c_str_def byte_hex_def)
  then show ?thesis by (simp add: strtol16_byte_def scan_number_byte_hex)
qed

lemma hex_pairs_bytes_hex [simp]: "hex_pairs (bytes_hex bs) = bs"
proof (induction bs)
  case Nil
  then show ?case by simp
next
  case (Cons b bs)
  with strtol16_byte_hex [of b, unfolded byte_hex_def] show ?case by simp
qed

interpretation bytea: text_codec bytes_hex "\<lambda>s. Some (hex_pairs s)" "\<lambda>_. True" hex_alphabet
  by unfold_locales (simp_all add: bytes_hex_alphabet)

definition bytea_text :: "byte list \<Rightarrow> string" where
  "bytea_text bs = [CHR 0x5C, CHR ''x''] @ bytes_hex bs"

lemma hex_pairs_bytea: "bs \<noteq> [] \<Longrightarrow> hex_pairs (bytea_body (bytea_text bs)) = bs"
  by (cases bs) (simp_all add: bytea_text_def bytea_body_def del: strtol16_byte_hex,
      metis byte_hex_def strtol16_byte_hex)

text \<open>The CRL decoder inverts PostgreSQL's text form of a \<^verbatim>\<open>bytea\<close> value, both when the
  DER bytes were stored once and when their text form was stored again as bytes (a DER value never
  starts with a backslash and an x).\<close>

theorem decode_crl_roundtrip:
  assumes "der \<noteq> []" "hd der \<noteq> 0x5C"
  shows "decode_crl_column (bytea_text der) = der
    \<and> decode_crl_column (bytea_text (map byte_of_char (bytea_text der))) = der"
proof
  have "der ! 0 \<noteq> 0x5C" using assms by (cases der) auto
  then show "decode_crl_column (bytea_text der) = der"
    using assms(1) by (simp add: decode_crl_column_def hex_pairs_bytea Let_def)
  let ?inner = "map byte_of_char (bytea_text der)"
  have outer: "hex_pairs (bytea_body (bytea_text ?inner)) = ?inner"
    by (rule hex_pairs_bytea) (simp add: bytea_text_def)
  have "?inner ! 0 = 0x5C \<and> ?inner ! 1 = 0x78 \<and> 2 < length ?inner"
    using assms(1) by (cases der) (simp_all add: bytea_text_def byte_of_char_def)
  moreover have "map char_of_byte (drop 2 ?inner) = bytes_hex der"
    by (simp add: bytea_text_def comp_def)
  ultimately show "decode_crl_column (bytea_text ?inner) = der"
    by (simp add: decode_crl_column_def outer Let_def)
qed

lemma decode_crl_roundtrip_witness:
  "decode_crl_column (bytea_text [0x30, 0x82, 0x01]) = [0x30, 0x82, 0x01]"
  using decode_crl_roundtrip [of "[0x30, 0x82, 0x01]"] by simp

end
