(* ===== verification/Sod_Asn1.thy ===== *)
theory Sod_Asn1
  imports Interfaces
begin

unbundle bit_operations_syntax

text \<open>
  The hand-written DER reader of \<^verbatim>\<open>shared/lib/icao9303/sod_parser.cpp\<close>:
  \<^verbatim>\<open>unwrapIcaoSod\<close> and the body of \<^verbatim>\<open>parseDataGroupHashesRaw\<close>.

  The reader moves raw pointers.  A pointer is a 64-bit word, the content occupies the
  addresses from \<open>p\<close> on, a read outside it is the outcome \<open>Oob\<close>.  \<open>Stop\<close> is an early
  \<^verbatim>\<open>return\<close> or \<^verbatim>\<open>break\<close>, \<open>Thrown\<close> an exception, \<open>Fuel\<close> a loop that has not ended
  after the rounds allowed.  Additions of a length to a pointer wrap as in the code; with
  \<open>strict\<close> set a wrapping addition is reported as \<open>Wrapped\<close> instead, which is how the
  theorems speak of inputs whose lengths fit the address space.
\<close>

section \<open>Outcomes\<close>

datatype 'a parse = Ok 'a | Stop | Oob | Wrapped | Fuel | Thrown exn

fun pbind :: "'a parse \<Rightarrow> ('a \<Rightarrow> 'b parse) \<Rightarrow> 'b parse" where
  "pbind (Ok x) f = f x"
| "pbind Stop f = Stop"
| "pbind Oob f = Oob"
| "pbind Wrapped f = Wrapped"
| "pbind Fuel f = Fuel"
| "pbind (Thrown e) f = Thrown e"

type_synonym addr = size

definition rd :: "addr \<Rightarrow> byte list \<Rightarrow> addr \<Rightarrow> byte parse" where
  "rd p d a = (let i = unat (a - p) in if i < length d then Ok (d ! i) else Oob)"

definition padd :: "bool \<Rightarrow> addr \<Rightarrow> size \<Rightarrow> addr parse" where
  "padd strict a n = (if strict \<and> 2 ^ 64 \<le> uint a + uint n then Wrapped else Ok (a + n))"

text \<open>\<^verbatim>\<open>std::vector<uint8_t>(a, a + n)\<close>.\<close>

definition byte_slice :: "addr \<Rightarrow> byte list \<Rightarrow> addr \<Rightarrow> size \<Rightarrow> byte list parse" where
  "byte_slice p d a n =
     (let i = unat (a - p) in
      if i + unat n \<le> length d then Ok (take (unat n) (drop i d))
      else if 2 ^ 63 \<le> uint n then Thrown Length_Error else Oob)"

section \<open>Lengths\<close>

fun read_be :: "addr \<Rightarrow> byte list \<Rightarrow> addr \<Rightarrow> nat \<Rightarrow> size \<Rightarrow> (size \<times> addr) parse" where
  "read_be p d a 0 acc = Ok (acc, a)"
| "read_be p d a (Suc n) acc =
     pbind (rd p d a) (\<lambda>b. read_be p d (a + 1) n (push_bit 8 acc OR ucast b))"

definition der_len :: "bool \<Rightarrow> addr \<Rightarrow> byte list \<Rightarrow> addr \<Rightarrow> addr \<Rightarrow> (size \<times> addr) parse" where
  "der_len strict p d bound a =
     pbind (rd p d a) (\<lambda>b.
       if b AND 0x80 \<noteq> 0 then
         pbind (padd strict (a + 1) (ucast (b AND 0x7F))) (\<lambda>a2.
           if bound < a2 then Stop else read_be p d (a + 1) (unat (b AND 0x7F)) 0)
       else Ok (ucast b, a + 1))"

section \<open>The preamble of the LDSSecurityObject\<close>

definition outer_seq :: "bool \<Rightarrow> addr \<Rightarrow> byte list \<Rightarrow> addr \<Rightarrow> addr parse" where
  "outer_seq strict p d end =
     (if end \<le> p then Stop
      else pbind (rd p d p) (\<lambda>b.
        if b \<noteq> 0x30 then Stop
        else if end \<le> p + 1 then Stop
        else pbind (der_len strict p d end (p + 1)) (\<lambda>(len, a). Ok a)))"

definition skip_version :: "bool \<Rightarrow> addr \<Rightarrow> byte list \<Rightarrow> addr \<Rightarrow> addr \<Rightarrow> addr parse" where
  "skip_version strict p d end a =
     (if a < end then
        pbind (rd p d a) (\<lambda>b.
          if b = 0x02 then
            (if end \<le> a + 1 then Stop
             else pbind (rd p d (a + 1)) (\<lambda>len.
               pbind (padd strict (a + 2) (ucast len)) (\<lambda>a2. if end < a2 then Stop else Ok a2)))
          else Ok a)
      else Ok a)"

definition skip_algorithm :: "bool \<Rightarrow> addr \<Rightarrow> byte list \<Rightarrow> addr \<Rightarrow> addr \<Rightarrow> addr parse" where
  "skip_algorithm strict p d end a =
     (if a < end then
        pbind (rd p d a) (\<lambda>b.
          if b = 0x30 then
            (if end \<le> a + 1 then Stop
             else pbind (der_len strict p d end (a + 1)) (\<lambda>(len, a2).
               pbind (padd strict a2 len) (\<lambda>a3. if end < a3 then Stop else Ok a3)))
          else Ok a)
      else Ok a)"

section \<open>The data group hashes\<close>

type_synonym dg_map = "(int \<times> byte list) list"

text \<open>\<^verbatim>\<open>dgNumber = (dgNumber << 8) | byte\<close> in an \<^verbatim>\<open>int\<close>.\<close>

fun read_int :: "addr \<Rightarrow> byte list \<Rightarrow> addr \<Rightarrow> nat \<Rightarrow> 32 word \<Rightarrow> (32 word \<times> addr) parse" where
  "read_int p d a 0 acc = Ok (acc, a)"
| "read_int p d a (Suc n) acc =
     pbind (rd p d a) (\<lambda>b. read_int p d (a + 1) n (push_bit 8 acc OR ucast b))"

text \<open>\<^term>\<open>None\<close> is \<^verbatim>\<open>continue\<close>.\<close>

definition dg_number :: "bool \<Rightarrow> addr \<Rightarrow> byte list \<Rightarrow> addr \<Rightarrow> addr \<Rightarrow> (int \<times> addr) option parse" where
  "dg_number strict p d hEnd a =
     (if a < hEnd then
        pbind (rd p d a) (\<lambda>b.
          if b = 0x02 then
            (if hEnd \<le> a + 1 then Ok None
             else pbind (rd p d (a + 1)) (\<lambda>len.
               pbind (padd strict (a + 2) (ucast len)) (\<lambda>a2.
                 if hEnd < a2 then Ok None
                 else pbind (read_int p d (a + 2) (unat len) 0) (\<lambda>(n, a3). Ok (Some (sint n, a3))))))
          else Ok (Some (0, a)))
      else Ok (Some (0, a)))"

definition dg_hash :: "bool \<Rightarrow> addr \<Rightarrow> byte list \<Rightarrow> addr \<Rightarrow> addr \<Rightarrow> byte list option parse" where
  "dg_hash strict p d hEnd a =
     (if a < hEnd then
        pbind (rd p d a) (\<lambda>b.
          if b = 0x04 then
            (if hEnd \<le> a + 1 then Ok None
             else
               (case der_len strict p d hEnd (a + 1) of
                  Stop \<Rightarrow> Ok None
                | r \<Rightarrow> pbind r (\<lambda>(len, a2).
                    pbind (padd strict a2 len) (\<lambda>a3.
                      if a3 \<le> hEnd then pbind (byte_slice p d a2 len) (\<lambda>h. Ok (Some h)) else Ok None))))
          else Ok None)
      else Ok None)"

text \<open>One round of the loop: the next position and the map, or \<open>Stop\<close> for \<^verbatim>\<open>break\<close>.\<close>

definition dg_entry :: "bool \<Rightarrow> addr \<Rightarrow> byte list \<Rightarrow> addr \<Rightarrow> addr \<Rightarrow> dg_map \<Rightarrow> (addr \<times> dg_map) parse" where
  "dg_entry strict p d dgEnd a m =
     pbind (rd p d a) (\<lambda>b.
       if b \<noteq> 0x30 then Stop
       else if dgEnd \<le> a + 1 then Stop
       else
         pbind (der_len strict p d dgEnd (a + 1)) (\<lambda>(len, a2).
           pbind (padd strict a2 len) (\<lambda>hEnd.
             if dgEnd < hEnd then Stop
             else
               pbind (dg_number strict p d hEnd a2) (\<lambda>no.
                 case no of
                   None \<Rightarrow> Ok (hEnd, m)
                 | Some (n, a3) \<Rightarrow>
                     pbind (dg_hash strict p d hEnd a3) (\<lambda>h.
                       Ok (hEnd, case h of None \<Rightarrow> m | Some v \<Rightarrow> smap_set n v m))))))"

fun dg_loop :: "nat \<Rightarrow> bool \<Rightarrow> addr \<Rightarrow> byte list \<Rightarrow> addr \<Rightarrow> addr \<Rightarrow> dg_map \<Rightarrow> dg_map parse" where
  "dg_loop 0 strict p d dgEnd a m = (if a < dgEnd then Fuel else Ok m)"
| "dg_loop (Suc n) strict p d dgEnd a m =
     (if a < dgEnd then
        (case dg_entry strict p d dgEnd a m of
           Stop \<Rightarrow> Ok m
         | r \<Rightarrow> pbind r (\<lambda>(a', m'). dg_loop n strict p d dgEnd a' m'))
      else Ok m)"

declare dg_loop.simps [simp del]

definition dg_sequence :: "nat \<Rightarrow> bool \<Rightarrow> addr \<Rightarrow> byte list \<Rightarrow> addr \<Rightarrow> addr \<Rightarrow> dg_map parse" where
  "dg_sequence fuel strict p d end a =
     (if a < end then
        pbind (rd p d a) (\<lambda>b.
          if b = 0x30 then
            (if end \<le> a + 1 then Stop
             else pbind (der_len strict p d end (a + 1)) (\<lambda>(len, a2).
               pbind (padd strict a2 len) (\<lambda>e.
                 dg_loop fuel strict p d (if end < e then end else e) a2 [])))
          else Ok [])
      else Ok [])"

text \<open>The whole body, on the content \<open>d\<close> at address \<open>p\<close>; every early return gives the map
  read so far, which is empty then.\<close>

definition lds_hashes :: "nat \<Rightarrow> bool \<Rightarrow> addr \<Rightarrow> byte list \<Rightarrow> dg_map parse" where
  "lds_hashes fuel strict p d =
     (let end = p + word_of_nat (length d);
          r = pbind (outer_seq strict p d end) (\<lambda>a.
                pbind (skip_version strict p d end a) (\<lambda>a.
                  pbind (skip_algorithm strict p d end a) (\<lambda>a.
                    dg_sequence fuel strict p d end a)))
      in case r of Stop \<Rightarrow> Ok [] | _ \<Rightarrow> r)"

section \<open>The ICAO wrapper\<close>

definition unwrapIcaoSod :: "byte list \<Rightarrow> byte list" where
  "unwrapIcaoSod sod =
     (if 4 < length sod \<and> sod ! 0 = 0x77 then
        let offset = (if sod ! 1 AND 0x80 \<noteq> 0 then
                        (let n = unat (sod ! 1 AND 0x7F) in
                         if length sod < 1 + n + 1 then None else Some (1 + n + 1))
                      else Some 2)
        in case offset of
             None \<Rightarrow> sod
           | Some k \<Rightarrow> if length sod \<le> k then sod else drop k sod
      else sod)"

section \<open>Safety\<close>

definition buf_ok :: "addr \<Rightarrow> byte list \<Rightarrow> bool" where
  "buf_ok p d = (unat p + length d < 2 ^ 63)"

definition inside :: "addr \<Rightarrow> byte list \<Rightarrow> addr \<Rightarrow> bool" where
  "inside p d a = (unat p \<le> unat a \<and> unat a \<le> unat p + length d)"

definition safe :: "'a parse \<Rightarrow> ('a \<Rightarrow> bool) \<Rightarrow> bool" where
  "safe m Q = (case m of Ok x \<Rightarrow> Q x | Oob \<Rightarrow> False | Fuel \<Rightarrow> False | Thrown _ \<Rightarrow> False | _ \<Rightarrow> True)"

lemma safe_simps [simp]:
  "safe (Ok x) Q = Q x" "safe Stop Q" "safe Wrapped Q" "\<not> safe Oob Q" "\<not> safe Fuel Q"
  "\<not> safe (Thrown e) Q"
  by (simp_all add: safe_def)

lemma safe_bind: "safe m R \<Longrightarrow> (\<And>x. R x \<Longrightarrow> safe (f x) Q) \<Longrightarrow> safe (pbind m f) Q"
  by (cases m) simp_all

lemma safe_mono: "safe m R \<Longrightarrow> (\<And>x. R x \<Longrightarrow> Q x) \<Longrightarrow> safe m Q"
  by (cases m) simp_all

lemma unat_less_2p64: "unat (a :: size) < 2 ^ 64"
  using unsigned_less [of a] by simp

lemma unat_add_nat:
  "unat (a :: size) + n < 2 ^ 64 \<Longrightarrow> unat (a + word_of_nat n) = unat a + n"
  by (simp add: unat_word_ariths unat_of_nat)

lemma unat_plus1: "(a :: size) < b \<Longrightarrow> unat (a + 1) = unat a + 1"
proof -
  assume "a < b"
  then have "unat a < unat b" by (simp add: word_less_nat_alt)
  then show ?thesis using unat_less_2p64 [of b] unat_add_nat [of a 1] by simp
qed

lemma rd_inside:
  assumes "inside p d a" "unat a < unat p + length d"
  shows "rd p d a = Ok (d ! (unat a - unat p))"
proof -
  have "p \<le> a" using assms by (simp add: inside_def word_le_nat_alt)
  then have "unat (a - p) = unat a - unat p" by (rule unat_sub)
  then show ?thesis using assms by (auto simp: rd_def inside_def Let_def)
qed

lemma rd_safe: "inside p d a \<Longrightarrow> unat a < unat p + length d \<Longrightarrow> safe (rd p d a) (\<lambda>_. True)"
  by (simp add: rd_inside)

lemma padd_safe: "safe (padd True a n) (\<lambda>r. unat r = unat a + unat n \<and> r = a + n)"
proof (cases "2 ^ 64 \<le> uint a + uint n")
  case True
  then show ?thesis by (simp add: padd_def)
next
  case False
  have "int (unat a) + int (unat n) < 18446744073709551616" using False by simp
  then have "unat a + unat n < 18446744073709551616" by linarith
  then have "unat (a + n) = unat a + unat n" using unat_add_nat [of a "unat n"] by simp
  with False show ?thesis by (simp add: padd_def)
qed

lemma read_be_safe:
  assumes "buf_ok p d" "inside p d a" "unat a + n \<le> unat p + length d"
  shows "safe (read_be p d a n acc) (\<lambda>(v, a'). unat a' = unat a + n)"
  using assms(2,3)
proof (induction n arbitrary: a acc)
  case 0
  then show ?case by simp
next
  case (Suc n)
  have lt: "unat a + Suc n < 2 ^ 64" using Suc.prems assms(1) by (simp add: buf_ok_def)
  then have u: "unat (a + 1) = unat a + 1" using unat_add_nat [of a 1] by simp
  show ?case
    using Suc.prems u
    by (auto intro!: safe_bind [OF rd_safe] safe_mono [OF Suc.IH] simp: inside_def)
qed

lemma read_int_safe:
  assumes "buf_ok p d" "inside p d a" "unat a + n \<le> unat p + length d"
  shows "safe (read_int p d a n acc) (\<lambda>(v, a'). unat a' = unat a + n)"
  using assms(2,3)
proof (induction n arbitrary: a acc)
  case 0
  then show ?case by simp
next
  case (Suc n)
  have lt: "unat a + Suc n < 2 ^ 64" using Suc.prems assms(1) by (simp add: buf_ok_def)
  then have u: "unat (a + 1) = unat a + 1" using unat_add_nat [of a 1] by simp
  show ?case
    using Suc.prems u
    by (auto intro!: safe_bind [OF rd_safe] safe_mono [OF Suc.IH] simp: inside_def)
qed

lemma unat_ucast_byte [simp]: "unat (ucast (b :: byte) :: size) = unat b"
proof -
  have "unat b < 2 ^ 64" using unat_byte_less [of b] by (rule less_trans) simp
  then show ?thesis by (simp add: unsigned_ucast_eq take_bit_nat_eq_self)
qed

lemma der_len_safe:
  assumes "buf_ok p d" "inside p d a" "inside p d bound" "a < bound"
  shows "safe (der_len True p d bound a) (\<lambda>(len, a'). unat a < unat a' \<and> unat a' \<le> unat bound)"
proof -
  have lt: "unat a < unat bound" using assms(4) by (simp add: word_less_nat_alt)
  note u = unat_plus1 [OF assms(4)]
  have i1: "inside p d (a + 1)" using assms lt u by (simp add: inside_def)
  show ?thesis
    unfolding der_len_def
  proof (rule safe_bind [OF rd_safe [OF assms(2)]])
    show "unat a < unat p + length d" using lt assms(3) by (simp add: inside_def)
  next
    fix b :: byte
    have long: "safe (read_be p d (a + 1) (unat (b AND 0x7F)) 0)
        (\<lambda>(len, a'). unat a < unat a' \<and> unat a' \<le> unat bound)"
      if "\<not> bound < a2" "unat a2 = unat (a + 1) + unat (ucast (b AND 0x7F) :: size)" for a2
    proof -
      have n: "unat (ucast (b AND 0x7F) :: size) = unat (b AND 0x7F)" by simp
      then have "unat (a + 1) + unat (b AND 0x7F) \<le> unat bound"
        using that by (simp add: word_less_nat_alt)
      with assms(1,3) i1 u show ?thesis
        by (auto intro!: safe_mono [OF read_be_safe] simp: inside_def)
    qed
    show "safe (if b AND 0x80 \<noteq> 0 then
         pbind (padd True (a + 1) (ucast (b AND 0x7F))) (\<lambda>a2.
           if bound < a2 then Stop else read_be p d (a + 1) (unat (b AND 0x7F)) 0)
       else Ok (ucast b, a + 1)) (\<lambda>(len, a'). unat a < unat a' \<and> unat a' \<le> unat bound)"
      using u lt by (auto intro!: safe_bind [OF padd_safe] long)
  qed
qed

lemma outer_seq_safe:
  assumes "buf_ok p d" "unat end = unat p + length d"
  shows "safe (outer_seq True p d end) (inside p d)"
proof (cases "end \<le> p")
  case True
  then show ?thesis by (simp add: outer_seq_def)
next
  case False
  then have lt: "p < end" by simp
  have i: "inside p d p" "inside p d end" using assms(2) by (auto simp: inside_def)
  have u: "unat (p + 1) = unat p + 1" using unat_plus1 [OF lt] .
  have "safe (pbind (der_len True p d end (p + 1)) (\<lambda>(len, a). Ok a)) (inside p d)" if "p + 1 < end"
  proof (rule safe_bind [OF der_len_safe [OF assms(1) _ i(2) that]])
    show "inside p d (p + 1)" using that u i by (auto simp: inside_def word_less_nat_alt)
  qed (use u i in \<open>auto simp: inside_def\<close>)
  moreover have "unat p < unat p + length d" using lt assms(2) by (simp add: word_less_nat_alt)
  ultimately show ?thesis
    using lt by (auto simp: outer_seq_def intro!: safe_bind [OF rd_safe [OF i(1)]])
qed

lemma skip_version_safe:
  assumes "inside p d end" "inside p d a"
  shows "safe (skip_version True p d end a) (inside p d)"
proof (cases "a < end")
  case False
  with assms show ?thesis by (simp add: skip_version_def)
next
  case True
  then have lt: "unat a < unat end" by (simp add: word_less_nat_alt)
  note u = unat_plus1 [OF True]
  have r: "unat a < unat p + length d" using lt assms(1) by (simp add: inside_def)
  have i1: "inside p d (a + 1)" using assms lt u by (simp add: inside_def)
  have "safe (pbind (rd p d (a + 1)) (\<lambda>len. pbind (padd True (a + 2) (ucast len))
      (\<lambda>a2. if end < a2 then Stop else Ok a2))) (inside p d)" if "a + 1 < end"
  proof -
    have u2: "unat (a + 2) = unat a + 2" using unat_plus1 [OF that] u by (simp add: add.assoc)
    have "unat (a + 1) < unat p + length d" using that assms(1) by (simp add: inside_def word_less_nat_alt)
    then show ?thesis
      using assms u2
      by (auto intro!: safe_bind [OF rd_safe [OF i1]] safe_bind [OF padd_safe]
          simp: inside_def word_less_nat_alt)
  qed
  with assms True r show ?thesis
    by (auto simp: skip_version_def intro!: safe_bind [OF rd_safe])
qed

lemma skip_algorithm_safe:
  assumes "buf_ok p d" "inside p d end" "inside p d a"
  shows "safe (skip_algorithm True p d end a) (inside p d)"
proof (cases "a < end")
  case False
  with assms show ?thesis by (simp add: skip_algorithm_def)
next
  case True
  then have lt: "unat a < unat end" by (simp add: word_less_nat_alt)
  note u = unat_plus1 [OF True]
  have r: "unat a < unat p + length d" using lt assms(2) by (simp add: inside_def)
  have i1: "inside p d (a + 1)" using assms lt u by (simp add: inside_def)
  have "safe (pbind (der_len True p d end (a + 1)) (\<lambda>(len, a2).
      pbind (padd True a2 len) (\<lambda>a3. if end < a3 then Stop else Ok a3))) (inside p d)" if "a + 1 < end"
    using assms(2,3) u
    by (intro safe_bind [OF der_len_safe [OF assms(1) i1 assms(2) that]])
      (auto intro!: safe_bind [OF padd_safe] simp: inside_def word_less_nat_alt)
  with assms True r show ?thesis
    by (auto simp: skip_algorithm_def intro!: safe_bind [OF rd_safe])
qed

lemma dg_number_safe:
  assumes "buf_ok p d" "inside p d hEnd" "inside p d a"
  shows "safe (dg_number True p d hEnd a)
    (\<lambda>r. case r of None \<Rightarrow> True | Some (n, a') \<Rightarrow> inside p d a')"
proof (cases "a < hEnd")
  case False
  with assms show ?thesis by (simp add: dg_number_def)
next
  case True
  then have lt: "unat a < unat hEnd" by (simp add: word_less_nat_alt)
  note u = unat_plus1 [OF True]
  have r: "unat a < unat p + length d" using lt assms(2) by (simp add: inside_def)
  have i1: "inside p d (a + 1)" using assms lt u by (simp add: inside_def)
  have "safe (pbind (rd p d (a + 1)) (\<lambda>len. pbind (padd True (a + 2) (ucast len)) (\<lambda>a2.
      if hEnd < a2 then Ok None
      else pbind (read_int p d (a + 2) (unat len) 0) (\<lambda>(n, a3). Ok (Some (sint n, a3))))))
      (\<lambda>r. case r of None \<Rightarrow> True | Some (n, a') \<Rightarrow> inside p d a')" if "a + 1 < hEnd"
  proof -
    have u2: "unat (a + 2) = unat a + 2" using unat_plus1 [OF that] u by (simp add: add.assoc)
    have r1: "unat (a + 1) < unat p + length d"
      using that assms(2) by (simp add: inside_def word_less_nat_alt)
    have i2: "inside p d (a + 2)" using r1 assms(3) u u2 by (simp add: inside_def)
    have "safe (pbind (read_int p d (a + 2) (unat len) 0) (\<lambda>(n, a3). Ok (Some (sint n, a3))))
        (\<lambda>r. case r of None \<Rightarrow> True | Some (n, a') \<Rightarrow> inside p d a')"
      if "unat (a + 2) + unat len \<le> unat hEnd" for len :: byte
      using that assms(2,3) u2
      by (intro safe_bind [OF read_int_safe [OF assms(1) i2]]) (auto simp: inside_def)
    then show ?thesis
      by (auto intro!: safe_bind [OF rd_safe [OF i1 r1]] safe_bind [OF padd_safe]
          simp: word_less_nat_alt)
  qed
  with assms True r show ?thesis
    by (auto simp: dg_number_def intro!: safe_bind [OF rd_safe])
qed

lemma byte_slice_safe:
  assumes "inside p d a" "unat a + unat n \<le> unat p + length d"
  shows "safe (byte_slice p d a n) (\<lambda>_. True)"
proof -
  have "p \<le> a" using assms by (simp add: inside_def word_le_nat_alt)
  then have "unat (a - p) = unat a - unat p" by (rule unat_sub)
  with assms show ?thesis by (auto simp: byte_slice_def inside_def)
qed

lemma dg_hash_safe:
  assumes "buf_ok p d" "inside p d hEnd" "inside p d a"
  shows "safe (dg_hash True p d hEnd a) (\<lambda>_. True)"
proof (cases "a < hEnd")
  case False
  then show ?thesis by (simp add: dg_hash_def)
next
  case True
  then have lt: "unat a < unat hEnd" by (simp add: word_less_nat_alt)
  note u = unat_plus1 [OF True]
  have r: "unat a < unat p + length d" using lt assms(2) by (simp add: inside_def)
  have i1: "inside p d (a + 1)" using assms lt u by (simp add: inside_def)
  have body: "safe (pbind (padd True a2 len) (\<lambda>a3.
      if a3 \<le> hEnd then pbind (byte_slice p d a2 len) (\<lambda>h. Ok (Some h)) else Ok None)) (\<lambda>_. True)"
    if a2: "inside p d a2" for a2 len
  proof (rule safe_bind [OF padd_safe])
    fix a3 assume "unat a3 = unat a2 + unat len \<and> a3 = a2 + len"
    then have "safe (byte_slice p d a2 len) (\<lambda>_. True)" if "a3 \<le> hEnd"
      using that a2 assms(2) by (intro byte_slice_safe) (auto simp: inside_def word_le_nat_alt)
    then show "safe (if a3 \<le> hEnd then pbind (byte_slice p d a2 len) (\<lambda>h. Ok (Some h)) else Ok None) (\<lambda>_. True)"
      by (auto intro: safe_bind)
  qed
  have "safe (case der_len True p d hEnd (a + 1) of
      Stop \<Rightarrow> Ok None
    | r \<Rightarrow> pbind r (\<lambda>(len, a2). pbind (padd True a2 len) (\<lambda>a3.
        if a3 \<le> hEnd then pbind (byte_slice p d a2 len) (\<lambda>h. Ok (Some h)) else Ok None))) (\<lambda>_. True)"
    if lt1: "a + 1 < hEnd"
  proof -
    have "safe (der_len True p d hEnd (a + 1)) (\<lambda>(len, a2). inside p d a2)"
      using assms(2,3) u
      by (intro safe_mono [OF der_len_safe [OF assms(1) i1 assms(2) lt1]]) (auto simp: inside_def)
    then show ?thesis
      by (cases "der_len True p d hEnd (a + 1)") (auto intro: body)
  qed
  with True show ?thesis
    by (auto simp: dg_hash_def intro!: safe_bind [OF rd_safe [OF assms(3) r]])
qed

lemma dg_entry_safe:
  assumes "buf_ok p d" "inside p d dgEnd" "inside p d a" "a < dgEnd"
  shows "safe (dg_entry True p d dgEnd a m) (\<lambda>(a', m'). unat a < unat a' \<and> unat a' \<le> unat dgEnd)"
proof -
  have lt: "unat a < unat dgEnd" using assms(4) by (simp add: word_less_nat_alt)
  note u = unat_plus1 [OF assms(4)]
  have r: "unat a < unat p + length d" using lt assms(2) by (simp add: inside_def)
  have i1: "inside p d (a + 1)" using assms lt u by (simp add: inside_def)
  let ?Q = "\<lambda>(a', m' :: dg_map). unat a < unat a' \<and> unat a' \<le> unat dgEnd"
  have tail: "safe (pbind (dg_number True p d hEnd a2) (\<lambda>no. case no of None \<Rightarrow> Ok (hEnd, m)
      | Some (n, a3) \<Rightarrow> pbind (dg_hash True p d hEnd a3) (\<lambda>h.
          Ok (hEnd, case h of None \<Rightarrow> m | Some v \<Rightarrow> smap_set n v m)))) ?Q"
    if "unat a < unat a2" "unat a2 \<le> unat hEnd" "unat hEnd \<le> unat dgEnd" for a2 hEnd
  proof -
    have i: "inside p d a2" "inside p d hEnd" using that assms(2,3) by (auto simp: inside_def)
    have q: "?Q (hEnd, x)" for x using that by simp
    show ?thesis
      using that
      by (intro safe_bind [OF dg_number_safe [OF assms(1) i(2,1)]])
        (auto split: option.splits intro!: safe_bind [OF dg_hash_safe [OF assms(1) i(2)]])
  qed
  have "safe (pbind (der_len True p d dgEnd (a + 1)) (\<lambda>(len, a2). pbind (padd True a2 len) (\<lambda>hEnd.
      if dgEnd < hEnd then Stop else
        pbind (dg_number True p d hEnd a2) (\<lambda>no. case no of None \<Rightarrow> Ok (hEnd, m)
      | Some (n, a3) \<Rightarrow> pbind (dg_hash True p d hEnd a3) (\<lambda>h.
          Ok (hEnd, case h of None \<Rightarrow> m | Some v \<Rightarrow> smap_set n v m)))))) ?Q" if lt1: "a + 1 < dgEnd"
  proof (rule safe_bind [OF der_len_safe [OF assms(1) i1 assms(2) lt1]], clarify)
    fix len :: size and a2 :: addr
    assume a2: "unat (a + 1) < unat a2" "unat a2 \<le> unat dgEnd"
    show "safe (pbind (padd True a2 len) (\<lambda>hEnd. if dgEnd < hEnd then Stop else
        pbind (dg_number True p d hEnd a2) (\<lambda>no. case no of None \<Rightarrow> Ok (hEnd, m)
      | Some (n, a3) \<Rightarrow> pbind (dg_hash True p d hEnd a3) (\<lambda>h.
          Ok (hEnd, case h of None \<Rightarrow> m | Some v \<Rightarrow> smap_set n v m))))) ?Q"
    proof (rule safe_bind [OF padd_safe])
      fix hEnd assume h: "unat hEnd = unat a2 + unat len \<and> hEnd = a2 + len"
      show "safe (if dgEnd < hEnd then Stop else
        pbind (dg_number True p d hEnd a2) (\<lambda>no. case no of None \<Rightarrow> Ok (hEnd, m)
      | Some (n, a3) \<Rightarrow> pbind (dg_hash True p d hEnd a3) (\<lambda>h.
          Ok (hEnd, case h of None \<Rightarrow> m | Some v \<Rightarrow> smap_set n v m)))) ?Q"
        using a2 u tail [of a2 hEnd] conjunct1 [OF h] by (cases "dgEnd < hEnd") (simp_all add: word_less_nat_alt)
    qed
  qed
  then show ?thesis
    by (auto simp: dg_entry_def intro!: safe_bind [OF rd_safe [OF assms(3) r]])
qed

lemma dg_loop_safe:
  assumes "buf_ok p d" "inside p d dgEnd"
  shows "inside p d a \<Longrightarrow> unat dgEnd \<le> unat a + fuel \<Longrightarrow>
    safe (dg_loop fuel True p d dgEnd a m) (\<lambda>_. True)"
proof (induction fuel arbitrary: a m)
  case 0
  then show ?case by (simp add: dg_loop.simps word_less_nat_alt)
next
  case (Suc n)
  show ?case
  proof (cases "a < dgEnd")
    case False
    then show ?thesis by (simp add: dg_loop.simps)
  next
    case True
    note e = dg_entry_safe [OF assms Suc.prems(1) True, of m]
    have "safe (dg_loop n True p d dgEnd a' m') (\<lambda>_. True)"
      if "unat a < unat a'" "unat a' \<le> unat dgEnd" for a' m'
      using that Suc.prems assms(2) by (intro Suc.IH) (auto simp: inside_def)
    with e True show ?thesis
      by (cases "dg_entry True p d dgEnd a m") (auto simp: dg_loop.simps)
  qed
qed

lemma dg_sequence_safe:
  assumes "buf_ok p d" "inside p d end" "inside p d a" "length d \<le> fuel"
  shows "safe (dg_sequence fuel True p d end a) (\<lambda>_. True)"
proof (cases "a < end")
  case False
  then show ?thesis by (simp add: dg_sequence_def)
next
  case True
  then have lt: "unat a < unat end" by (simp add: word_less_nat_alt)
  note u = unat_plus1 [OF True]
  have r: "unat a < unat p + length d" using lt assms(2) by (simp add: inside_def)
  have i1: "inside p d (a + 1)" using assms lt u by (simp add: inside_def)
  have "safe (pbind (der_len True p d end (a + 1)) (\<lambda>(len, a2). pbind (padd True a2 len) (\<lambda>e.
      dg_loop fuel True p d (if end < e then end else e) a2 []))) (\<lambda>_. True)" if lt1: "a + 1 < end"
  proof (rule safe_bind [OF der_len_safe [OF assms(1) i1 assms(2) lt1]], clarify)
    fix len :: size and a2 :: addr
    assume a2: "unat (a + 1) < unat a2" "unat a2 \<le> unat end"
    have i2: "inside p d a2" using a2 u assms(2,3) by (auto simp: inside_def)
    show "safe (pbind (padd True a2 len) (\<lambda>e. dg_loop fuel True p d (if end < e then end else e) a2 []))
        (\<lambda>_. True)"
    proof (rule safe_bind [OF padd_safe])
      fix e assume "unat e = unat a2 + unat len \<and> e = a2 + len"
      then have "inside p d (if end < e then end else e)"
        using assms(2) i2 by (auto simp: inside_def word_less_nat_alt)
      then show "safe (dg_loop fuel True p d (if end < e then end else e) a2 []) (\<lambda>_. True)"
        using i2 assms(4) by (intro dg_loop_safe [OF assms(1)]) (auto simp: inside_def)
    qed
  qed
  with True show ?thesis
    by (auto simp: dg_sequence_def intro!: safe_bind [OF rd_safe [OF assms(3) r]])
qed

lemma lds_hashes_safe:
  assumes "buf_ok p d" "length d \<le> fuel"
  shows "safe (lds_hashes fuel True p d) (\<lambda>_. True) \<and> lds_hashes fuel True p d \<noteq> Stop"
proof -
  define e where "e = p + word_of_nat (length d)"
  have ue: "unat e = unat p + length d"
    using assms(1) unat_add_nat [of p "length d"] by (simp add: e_def buf_ok_def)
  then have ie: "inside p d e" by (simp add: inside_def)
  have "safe (pbind (outer_seq True p d e) (\<lambda>a. pbind (skip_version True p d e a) (\<lambda>a.
      pbind (skip_algorithm True p d e a) (\<lambda>a. dg_sequence fuel True p d e a)))) (\<lambda>_. True)"
    by (intro safe_bind [OF outer_seq_safe [OF assms(1) ue]] safe_bind [OF skip_version_safe [OF ie]]
        safe_bind [OF skip_algorithm_safe [OF assms(1) ie]] dg_sequence_safe [OF assms(1) ie _ assms(2)])
  then show ?thesis
    unfolding lds_hashes_def Let_def e_def [symmetric]
    by (auto split: parse.splits)
qed

section \<open>The strict reader refines the code\<close>

definition agree :: "'a parse \<Rightarrow> 'a parse \<Rightarrow> bool" where
  "agree strict lax = (strict = Wrapped \<or> strict = lax)"

lemma agree_refl [simp, intro]: "agree m m"
  by (simp add: agree_def)

lemma agree_bind:
  assumes "agree m m'" "\<And>x. agree (f x) (f' x)"
  shows "agree (pbind m f) (pbind m' f')"
proof (cases m)
  case (Ok x)
  with assms(1) have "m' = Ok x" by (simp add: agree_def)
  with Ok assms(2) [of x] show ?thesis by simp
qed (use assms(1) in \<open>auto simp: agree_def\<close>)

lemma agree_padd: "agree (padd True a n) (padd False a n)"
  by (simp add: agree_def padd_def)

lemmas agree_intros = agree_bind [OF agree_padd] agree_bind [OF agree_refl]

lemma agree_der_len: "agree (der_len True p d b a) (der_len False p d b a)"
  unfolding der_len_def by (intro agree_intros) (auto intro!: agree_intros)

lemma agree_outer: "agree (outer_seq True p d e) (outer_seq False p d e)"
  unfolding outer_seq_def by (auto intro!: agree_intros agree_bind [OF agree_der_len])

lemma agree_version: "agree (skip_version True p d e a) (skip_version False p d e a)"
  unfolding skip_version_def by (auto intro!: agree_intros)

lemma agree_algorithm: "agree (skip_algorithm True p d e a) (skip_algorithm False p d e a)"
  unfolding skip_algorithm_def by (auto intro!: agree_intros agree_bind [OF agree_der_len])

lemma agree_number: "agree (dg_number True p d e a) (dg_number False p d e a)"
  unfolding dg_number_def by (auto intro!: agree_intros)

lemma agree_hash: "agree (dg_hash True p d e a) (dg_hash False p d e a)"
proof -
  have st: "agree (case m of Stop \<Rightarrow> Ok None | r \<Rightarrow> pbind r f)
      (case m' of Stop \<Rightarrow> Ok None | r \<Rightarrow> pbind r f')"
    if "agree m m'" "\<And>x. agree (f x) (f' x)" for m m' :: "'x parse" and f f' :: "'x \<Rightarrow> 'y option parse"
  proof (cases m)
    case Stop
    with that(1) show ?thesis by (simp add: agree_def)
  next
    case Wrapped
    then show ?thesis by (simp add: agree_def)
  next
    case (Ok x)
    with that(1) have "m' = Ok x" by (simp add: agree_def)
    with Ok that(2) [of x] show ?thesis by simp
  qed (use that(1) in \<open>auto simp: agree_def\<close>)
  then show ?thesis
    unfolding dg_hash_def by (auto intro!: agree_intros st [OF agree_der_len])
qed

lemma agree_entry: "agree (dg_entry True p d e a m) (dg_entry False p d e a m)"
proof -
  have "agree (case no of None \<Rightarrow> Ok (h, m) | Some (n, a3) \<Rightarrow> pbind (dg_hash True p d h a3) (g n))
      (case no of None \<Rightarrow> Ok (h, m) | Some (n, a3) \<Rightarrow> pbind (dg_hash False p d h a3) (g n))"
    for no h and g :: "int \<Rightarrow> byte list option \<Rightarrow> (addr \<times> dg_map) parse"
    by (cases no) (auto intro!: agree_bind [OF agree_hash])
  then show ?thesis
    unfolding dg_entry_def
    by (auto intro!: agree_intros agree_bind [OF agree_der_len] agree_bind [OF agree_number])
qed

lemma agree_loop: "agree (dg_loop n True p d e a m) (dg_loop n False p d e a m)"
proof (induction n arbitrary: a m)
  case 0
  then show ?case by (simp add: dg_loop.simps)
next
  case (Suc n)
  show ?case
  proof (cases "dg_entry True p d e a m")
    case (Ok x)
    with agree_entry [of p d e a m] have "dg_entry False p d e a m = Ok x" by (simp add: agree_def)
    with Ok Suc.IH show ?thesis by (auto simp: dg_loop.simps split: prod.splits)
  next
    case Wrapped
    then show ?thesis by (auto simp: dg_loop.simps agree_def)
  qed (use agree_entry [of p d e a m] in
      \<open>cases "dg_entry False p d e a m"; simp add: dg_loop.simps agree_def\<close>)+
qed

lemma agree_sequence: "agree (dg_sequence n True p d e a) (dg_sequence n False p d e a)"
  unfolding dg_sequence_def
  by (auto intro!: agree_intros agree_bind [OF agree_der_len] agree_loop)

lemma agree_lds: "agree (lds_hashes fuel True p d) (lds_hashes fuel False p d)"
proof -
  define e where "e = p + word_of_nat (length d)"
  have "agree (pbind (outer_seq True p d e) (\<lambda>a. pbind (skip_version True p d e a) (\<lambda>a.
      pbind (skip_algorithm True p d e a) (\<lambda>a. dg_sequence fuel True p d e a))))
    (pbind (outer_seq False p d e) (\<lambda>a. pbind (skip_version False p d e a) (\<lambda>a.
      pbind (skip_algorithm False p d e a) (\<lambda>a. dg_sequence fuel False p d e a))))"
    by (intro agree_bind agree_outer agree_version agree_algorithm agree_sequence)
  then show ?thesis
    unfolding lds_hashes_def Let_def e_def [symmetric]
    by (auto simp: agree_def split: parse.splits)
qed

text \<open>C14. The reader of the data group hashes is safe on every content whose lengths do not
  wrap a 64-bit pointer: it ends within as many rounds as the content has bytes, throws nothing and
  returns a map, the same one as the reader that stops at the first access outside the content, so it
  makes none.\<close>

theorem lds_reader_safe:
  assumes "buf_ok p d" "length d \<le> fuel" "lds_hashes fuel True p d \<noteq> Wrapped"
  shows "\<exists>m. lds_hashes fuel False p d = Ok m \<and> lds_hashes fuel True p d = Ok m"
proof -
  from lds_hashes_safe [OF assms(1,2)] assms(3) obtain m where "lds_hashes fuel True p d = Ok m"
    by (cases "lds_hashes fuel True p d") auto
  with agree_lds [of fuel p d] show ?thesis unfolding agree_def by (metis parse.distinct(5))
qed

lemma lds_reader_safe_witness:
  "\<exists>m. lds_hashes 8 False 0x1000 [0x30, 0x82, 0x05, 0x02, 0x01] = Ok m
     \<and> lds_hashes 8 True 0x1000 [0x30, 0x82, 0x05, 0x02, 0x01] = Ok m"
  by (rule lds_reader_safe)
    (simp_all add: buf_ok_def, code_simp)

definition looping_lds :: "byte list" where
  "looping_lds = [0x30, 0x00, 0x30, 0x00, 0x30, 0x0A, 0x30, 0x88,
     0xFF, 0xFF, 0xFF, 0xFF, 0xFF, 0xFF, 0xFF, 0xF6]"

lemma looping_entry:
  "dg_entry False 0x1000 looping_lds 0x1010 0x1006 [] = Ok (0x1006, [])"
  by code_simp

lemma looping_length: "length looping_lds = 16"
  by (simp add: looping_lds_def)

lemma looping_loop: "dg_loop n False 0x1000 looping_lds 0x1010 0x1006 [] = Fuel"
proof (induction n)
  case 0
  show ?case by (simp only: dg_loop.simps(1)) simp
next
  case (Suc n)
  have "(0x1006 :: addr) < 0x1010" by simp
  then show ?case using Suc by (simp only: dg_loop.simps(2) looping_entry) simp
qed

lemma looping_steps:
  "outer_seq False 0x1000 looping_lds 0x1010 = Ok 0x1002"
  "skip_version False 0x1000 looping_lds 0x1010 0x1002 = Ok 0x1002"
  "skip_algorithm False 0x1000 looping_lds 0x1010 0x1002 = Ok 0x1004"
  "rd 0x1000 looping_lds 0x1004 = Ok 0x30"
  "der_len False 0x1000 looping_lds 0x1010 0x1005 = Ok (0x0A, 0x1006)"
  by code_simp+

text \<open>C39. A length that wraps the pointer does break the reader: one eight-byte length in a
  content of 16 bytes sends the cursor back to the start of the entry, and no number of rounds ends
  the loop.\<close>

theorem lds_reader_diverges:
  "lds_hashes n False 0x1000 looping_lds = Fuel"
proof -
  have e: "(0x1000 :: addr) + word_of_nat (length looping_lds) = 0x1010" by (simp add: looping_length)
  have "dg_sequence n False 0x1000 looping_lds 0x1010 0x1004 = Fuel"
    by (simp add: dg_sequence_def looping_steps padd_def looping_loop)
  then show ?thesis
    by (simp only: lds_hashes_def Let_def e looping_steps pbind.simps) simp
qed

section \<open>Positions in a buffer\<close>

definition pos :: "addr \<Rightarrow> nat \<Rightarrow> addr" where
  "pos p i = p + word_of_nat i"

lemma unat_pos: "buf_ok p d \<Longrightarrow> i \<le> length d \<Longrightarrow> unat (pos p i) = unat p + i"
  unfolding pos_def buf_ok_def by (rule unat_add_nat) simp

lemma pos_plus1: "pos p i + 1 = pos p (Suc i)"
  by (simp add: pos_def)

lemma pos_add: "pos p i + word_of_nat n = pos p (i + n)"
  by (simp add: pos_def)

lemma pos_less:
  "buf_ok p d \<Longrightarrow> i \<le> length d \<Longrightarrow> j \<le> length d \<Longrightarrow> pos p i < pos p j \<longleftrightarrow> i < j"
  by (simp add: word_less_nat_alt unat_pos)

lemma pos_le:
  "buf_ok p d \<Longrightarrow> i \<le> length d \<Longrightarrow> j \<le> length d \<Longrightarrow> pos p i \<le> pos p j \<longleftrightarrow> i \<le> j"
  by (simp add: word_le_nat_alt unat_pos)

lemma rd_pos: "buf_ok p d \<Longrightarrow> i < length d \<Longrightarrow> rd p d (pos p i) = Ok (d ! i)"
  using rd_inside [of p d "pos p i"] by (simp add: inside_def unat_pos)

lemma slice_pos:
  assumes "buf_ok p d" "i + n \<le> length d"
  shows "byte_slice p d (pos p i) (word_of_nat n) = Ok (take n (drop i d))"
proof -
  have "p \<le> pos p i" using assms by (simp add: word_le_nat_alt unat_pos)
  then have "unat (pos p i - p) = i" using assms by (simp add: unat_sub unat_pos)
  moreover have "unat (word_of_nat n :: size) = n"
    using assms by (simp add: unat_of_nat buf_ok_def)
  ultimately show ?thesis using assms by (simp add: byte_slice_def)
qed

section \<open>An encoder of the LDSSecurityObject\<close>

definition der_enc :: "nat \<Rightarrow> byte list" where
  "der_enc n = (if n < 128 then [word_of_nat n]
     else if n < 256 then [0x81, word_of_nat n]
     else [0x82, word_of_nat (n div 256), word_of_nat n])"

definition tlv :: "byte \<Rightarrow> byte list \<Rightarrow> byte list" where
  "tlv tag v = tag # der_enc (length v) @ v"

definition dg_enc :: "nat \<times> byte list \<Rightarrow> byte list" where
  "dg_enc e = tlv 0x30 ([0x02, 0x01, word_of_nat (fst e)] @ tlv 0x04 (snd e))"

definition lds_enc :: "byte \<Rightarrow> byte list \<Rightarrow> (nat \<times> byte list) list \<Rightarrow> byte list \<Rightarrow> byte list" where
  "lds_enc version alg es trailer =
     tlv 0x30 ([0x02, 0x01, version] @ tlv 0x30 alg @ tlv 0x30 (concat (map dg_enc es)) @ trailer)"

lemma push_or_byte: "push_bit 8 (w :: size) OR ucast (b :: byte) = w * 256 + ucast b"
proof -
  have "push_bit 8 w + ucast b = push_bit 8 w OR (ucast b :: size)"
    by (rule disjunctive_add) (auto simp: bit_push_bit_iff bit_ucast_iff dest: bit_imp_le_length)
  then show ?thesis by (simp add: push_bit_eq_mult)
qed

lemma ucast_nat_byte: "n < 256 \<Longrightarrow> ucast (word_of_nat n :: byte) = (word_of_nat n :: size)"
  by (simp add: unsigned_of_nat take_bit_nat_eq_self)

lemma length_der_enc: "length (der_enc n) \<in> {1, 2, 3}"
  by (simp add: der_enc_def)

lemma small_byte_high_bit: "n < 128 \<Longrightarrow> (word_of_nat n :: byte) AND 0x80 = 0"
proof -
  assume n: "n < 128"
  have "(word_of_nat n :: byte) = word_of_nat (take_bit 7 n)"
    using n by (simp add: take_bit_nat_eq_self)
  also have "\<dots> = word_of_nat n AND mask 7"
    by (simp add: take_bit_eq_mask of_nat_and_eq of_nat_mask_eq)
  finally have "(word_of_nat n :: byte) AND 0x80 = word_of_nat n AND (mask 7 AND 0x80)"
    by (metis and.assoc)
  also have "mask 7 AND (0x80 :: byte) = 0" by (simp add: mask_eq_exp_minus_1)
  finally show ?thesis by simp
qed

lemma read_be_2:
  "read_be p d a 2 acc = pbind (rd p d a) (\<lambda>b. pbind (rd p d (a + 1)) (\<lambda>c.
     Ok (push_bit 8 (push_bit 8 acc OR ucast b) OR ucast c, a + 1 + 1)))"
  by (simp add: numeral_2_eq_2)

lemma der_len_enc:
  assumes "buf_ok p d" "d = pre @ der_enc n @ post" "n < 65536" "i = length pre"
    and "i + length (der_enc n) \<le> j" "j \<le> length d"
  shows "der_len False p d (pos p j) (pos p i)
    = Ok (word_of_nat n, pos p (i + length (der_enc n)))"
proof -
  have rd: "rd p d (pos p k) = Ok (d ! k)" if "k < i + length (der_enc n)" for k
    using assms that by (intro rd_pos) simp_all
  consider "n < 128" | "128 \<le> n" "n < 256" | "256 \<le> n" by linarith
  then show ?thesis
  proof cases
    case 1
    then have "rd p d (pos p i) = Ok (word_of_nat n)"
      using rd [of i] assms(2,4) by (simp add: der_enc_def)
    with 1 show ?thesis
      by (simp add: der_len_def small_byte_high_bit der_enc_def ucast_nat_byte pos_plus1)
  next
    case 2
    then have "rd p d (pos p i) = Ok 0x81" "rd p d (pos p (Suc i)) = Ok (word_of_nat n)"
      using rd [of i] rd [of "Suc i"] assms(2,4) by (simp_all add: der_enc_def nth_append)
    moreover have "\<not> pos p j < pos p (Suc (Suc i))"
      using 2 assms(1,5,6) by (simp add: pos_less der_enc_def)
    ultimately show ?thesis
      using 2 by (simp add: der_len_def der_enc_def padd_def pos_plus1 ucast_nat_byte)
  next
    case 3
    then have r: "rd p d (pos p i) = Ok 0x82" "rd p d (pos p (Suc i)) = Ok (word_of_nat (n div 256))"
      "rd p d (pos p (Suc (Suc i))) = Ok (word_of_nat n)"
      using rd [of i] rd [of "Suc i"] rd [of "Suc (Suc i)"] assms(2,4)
      by (simp_all add: der_enc_def nth_append)
    have l: "\<not> pos p j < pos p (Suc (Suc (Suc i)))"
      using 3 assms(1,5,6) by (simp add: pos_less der_enc_def)
    have u: "(ucast (word_of_nat n :: byte) :: size) = word_of_nat (n mod 256)"
      by (simp add: unsigned_of_nat take_bit_eq_mod)
    have "(word_of_nat (n div 256) :: size) * 256 + word_of_nat (n mod 256)
        = word_of_nat (n div 256 * 256 + n mod 256)"
      by (simp only: of_nat_add of_nat_mult of_nat_numeral)
    then have v: "(word_of_nat (n div 256) :: size) * 256 + word_of_nat (n mod 256) = word_of_nat n"
      by simp
    have dv: "n div 256 < 256" using assms(3) by simp
    have a2: "pos p (Suc i) + 2 = pos p (Suc (Suc (Suc i)))" by (simp add: pos_def)
    have "read_be p d (pos p (Suc i)) 2 0 = Ok (word_of_nat n, pos p (Suc (Suc (Suc i))))"
      using r dv u v by (simp add: read_be_2 pos_plus1 push_or_byte ucast_nat_byte)
    then show ?thesis
      using 3 r(1) l a2 by (simp add: der_len_def der_enc_def padd_def pos_plus1)
  qed
qed

lemma sint_small: "n < 128 \<Longrightarrow> sint (ucast (word_of_nat n :: byte) :: 32 word) = int n"
proof -
  assume n: "n < 128"
  have "(ucast (word_of_nat n :: byte) :: 32 word) = word_of_nat n"
    using n by (simp add: unsigned_of_nat take_bit_nat_eq_self)
  moreover have "sint (word_of_nat n :: 32 word) = int n"
    using n by (simp add: signed_of_nat signed_take_bit_int_eq_self)
  ultimately show ?thesis by simp
qed

lemma nth_after: "k = length pre \<Longrightarrow> (pre @ x # xs) ! k = x"
  by simp

lemma dg_number_enc:
  assumes "buf_ok p d" "d = pre @ [0x02, 0x01, word_of_nat num] @ post" "num < 128" "i = length pre"
    and "i + 3 \<le> j" "j \<le> length d"
  shows "dg_number False p d (pos p j) (pos p i) = Ok (Some (int num, pos p (i + 3)))"
proof -
  have r: "rd p d (pos p i) = Ok 2" "rd p d (pos p (Suc i)) = Ok 1"
    "rd p d (pos p (Suc (Suc i))) = Ok (word_of_nat num)"
    using assms by (simp_all add: rd_pos nth_append)
  have l: "pos p i < pos p j" "\<not> pos p j \<le> pos p (Suc i)" "\<not> pos p j < pos p (Suc (Suc (Suc i)))"
    using assms by (simp_all add: pos_less pos_le)
  have a: "pos p i + 2 = pos p (Suc (Suc i))" "pos p (Suc (Suc i)) + 1 = pos p (Suc (Suc (Suc i)))"
    by (simp_all add: pos_def)
  have "read_int p d (pos p (Suc (Suc i))) (unat (1 :: byte)) 0
      = Ok (ucast (word_of_nat num :: byte), pos p (Suc (Suc (Suc i))))"
    by (simp add: r a)
  then show ?thesis
    using r l a assms(3) by (simp add: dg_number_def padd_def pos_plus1 sint_small numeral_3_eq_3)
qed

lemma dg_hash_enc:
  assumes "buf_ok p d" "d = pre @ tlv 0x04 h @ post" "length h < 65536" "i = length pre"
    and "j = i + length (tlv 0x04 h)"
  shows "dg_hash False p d (pos p j) (pos p i) = Ok (Some h)"
proof -
  let ?k = "length (der_enc (length h))"
  have j: "j = Suc i + ?k + length h" using assms(5) by (simp add: tlv_def)
  have d: "d = (pre @ [0x04]) @ der_enc (length h) @ h @ post" using assms(2) by (simp add: tlv_def)
  have jd: "j \<le> length d" using d j assms(4) by simp
  have r: "rd p d (pos p i) = Ok 4" using assms j jd by (simp add: rd_pos tlv_def)
  have k: "0 < ?k" using length_der_enc [of "length h"] by auto
  have l: "pos p i < pos p j" "\<not> pos p j \<le> pos p (Suc i)"
    using assms(1) j jd k by (simp_all add: pos_less pos_le)
  have dl: "der_len False p d (pos p j) (pos p (Suc i)) = Ok (word_of_nat (length h), pos p (Suc i + ?k))"
    using assms(4) j jd by (intro der_len_enc [OF assms(1) d assms(3)]) simp_all
  have sl: "byte_slice p d (pos p (Suc i + ?k)) (word_of_nat (length h)) = Ok h"
  proof -
    have "drop (Suc i + ?k) d = h @ post" using d assms(4) by simp
    then show ?thesis using assms(1) j jd by (subst slice_pos) simp_all
  qed
  have le: "pos p (Suc i + ?k + length h) \<le> pos p j" using j by simp
  show ?thesis
    using r l dl sl le
    by (simp add: dg_hash_def padd_def pos_plus1 pos_add del: add_Suc)
qed

lemma dg_entry_enc:
  assumes "buf_ok p d" "d = pre @ dg_enc (num, h) @ post" "num < 128" "length h < 60000" "i = length pre"
    and "i + length (dg_enc (num, h)) \<le> j" "j \<le> length d"
  shows "dg_entry False p d (pos p j) (pos p i) m
    = Ok (pos p (i + length (dg_enc (num, h))), smap_set (int num) h m)"
proof -
  let ?body = "[0x02, 0x01, word_of_nat num] @ tlv 0x04 h"
  let ?k = "length (der_enc (length ?body))"
  define x where "x = Suc i + ?k"
  have enc: "dg_enc (num, h) = 0x30 # der_enc (length ?body) @ ?body" by (simp add: dg_enc_def tlv_def)
  have L: "length ?body < 65536"
    using assms(4) length_der_enc [of "length h"] by (auto simp: tlv_def)
  have hend: "i + length (dg_enc (num, h)) = x + length ?body" by (simp add: enc x_def)
  have d1: "d = (pre @ [0x30]) @ der_enc (length ?body) @ (?body @ post)" using assms(2) by (simp add: enc)
  have d2: "d = (pre @ 0x30 # der_enc (length ?body)) @ [0x02, 0x01, word_of_nat num] @ (tlv 0x04 h @ post)"
    using assms(2) by (simp add: enc)
  have d3: "d = (pre @ 0x30 # der_enc (length ?body) @ [0x02, 0x01, word_of_nat num]) @ tlv 0x04 h @ post"
    using assms(2) by (simp add: enc)
  have hd: "x + length ?body \<le> j" using assms(6) hend by simp
  have k: "0 < ?k" using length_der_enc [of "length ?body"] by auto
  have r: "rd p d (pos p i) = Ok 0x30" using assms hd by (simp add: rd_pos enc x_def)
  have l: "\<not> pos p j \<le> pos p (Suc i)"
    using assms(1,7) hd by (simp add: pos_le x_def)
  have dl: "der_len False p d (pos p j) (pos p (Suc i)) = Ok (word_of_nat (length ?body), pos p x)"
    unfolding x_def using assms(5,7) hd x_def
    by (intro der_len_enc [OF assms(1) d1 L]) simp_all
  have no: "dg_number False p d (pos p (x + length ?body)) (pos p x) = Ok (Some (int num, pos p (x + 3)))"
    using assms(5,7) hd by (intro dg_number_enc [OF assms(1) d2 assms(3)]) (simp_all add: x_def)
  have ha: "dg_hash False p d (pos p (x + length ?body)) (pos p (x + 3)) = Ok (Some h)"
    using assms(4,5) by (intro dg_hash_enc [OF assms(1) d3]) (simp_all add: x_def)
  have le: "\<not> pos p j < pos p (x + length ?body)"
    using assms(1,7) hd by (simp add: pos_less)
  have "padd False (pos p x) (word_of_nat (length ?body)) = Ok (pos p (x + length ?body))"
    by (simp only: padd_def pos_add) simp
  then show ?thesis
    unfolding dg_entry_def hend r pbind.simps pos_plus1 dl prod.case
    using l le no ha by simp
qed

lemma dg_loop_enc:
  assumes "buf_ok p d"
  shows "d = pre @ concat (map dg_enc es) @ post \<Longrightarrow> i = length pre \<Longrightarrow>
    j = i + length (concat (map dg_enc es)) \<Longrightarrow> length es \<le> fuel \<Longrightarrow>
    \<forall>e \<in> set es. fst e < 128 \<and> length (snd e) < 60000 \<Longrightarrow>
    dg_loop fuel False p d (pos p j) (pos p i) m
      = Ok (foldl (\<lambda>m (n, h). smap_set n h m) m (map (\<lambda>(n, h). (int n, h)) es))"
proof (induction es arbitrary: pre i m fuel)
  case Nil
  then have "\<not> pos p i < pos p j" by simp
  then show ?case by (cases fuel) (simp_all add: dg_loop.simps)
next
  case (Cons e es)
  obtain num h where e: "e = (num, h)" by force
  obtain n where f: "fuel = Suc n" using Cons.prems(4) by (cases fuel) auto
  have jd: "j \<le> length d" using Cons.prems(1-3) by simp
  have d1: "d = pre @ dg_enc (num, h) @ (concat (map dg_enc es) @ post)" using Cons.prems(1) e by simp
  have d2: "d = (pre @ dg_enc (num, h)) @ concat (map dg_enc es) @ post" using Cons.prems(1) e by simp
  have ent: "dg_entry False p d (pos p j) (pos p i) m
      = Ok (pos p (i + length (dg_enc (num, h))), smap_set (int num) h m)"
    using Cons.prems e by (intro dg_entry_enc [OF assms d1 _ _ _ _ jd]) simp_all
  have "length (dg_enc (num, h)) > 0" by (simp add: dg_enc_def tlv_def)
  then have lt: "pos p i < pos p j" using assms jd Cons.prems(3) e by (simp add: pos_less)
  have step: "dg_loop fuel False p d (pos p j) (pos p i) m
      = dg_loop n False p d (pos p j) (pos p (i + length (dg_enc (num, h)))) (smap_set (int num) h m)"
    by (simp only: f dg_loop.simps(2) lt if_True ent parse.case pbind.simps prod.case)
  have fold: "foldl (\<lambda>m (n, h). smap_set n h m) m (map (\<lambda>(n, h). (int n, h)) (e # es))
      = foldl (\<lambda>m (n, h). smap_set n h m) (smap_set (int num) h m) (map (\<lambda>(n, h). (int n, h)) es)"
    by (simp add: e)
  show ?case
    unfolding step fold using Cons.prems e f by (intro Cons.IH [OF d2]) simp_all
qed

text \<open>Each part of the preamble is stepped over.\<close>

lemma outer_seq_enc:
  assumes "buf_ok p d" "d = tlv 0x30 v" "length v < 65536"
  shows "outer_seq False p d (pos p (length d)) = Ok (pos p (Suc (length (der_enc (length v)))))"
proof -
  let ?k = "length (der_enc (length v))"
  have d: "d = [0x30] @ der_enc (length v) @ v" using assms(2) by (simp add: tlv_def)
  have ld: "length d = Suc (?k + length v)" using d by simp
  have k: "0 < ?k" using length_der_enc [of "length v"] by auto
  have p0: "p = pos p 0" by (simp add: pos_def)
  have r: "rd p d p = Ok 0x30" using rd_pos [OF assms(1), of 0] d p0 by simp
  have l: "\<not> pos p (length d) \<le> p" "\<not> pos p (length d) \<le> p + 1"
    using pos_le [OF assms(1), of "length d" 0] pos_le [OF assms(1), of "length d" 1] k ld p0
    by (simp_all add: pos_def)
  have dl: "der_len False p d (pos p (length d)) (pos p 1) = Ok (word_of_nat (length v), pos p (1 + ?k))"
    using ld by (intro der_len_enc [OF assms(1) d assms(3)]) simp_all
  have "p + 1 = pos p 1" by (simp add: pos_def)
  then show ?thesis using r l dl by (simp add: outer_seq_def)
qed

lemma skip_version_enc:
  assumes "buf_ok p d" "d = pre @ [0x02, 0x01, ver] @ post" "i = length pre"
  shows "skip_version False p d (pos p (length d)) (pos p i) = Ok (pos p (i + 3))"
proof -
  have ld: "length d = i + 3 + length post" using assms by simp
  have r: "rd p d (pos p i) = Ok 2" "rd p d (pos p (Suc i)) = Ok 1"
    using assms by (simp_all add: rd_pos nth_append)
  have l: "pos p i < pos p (length d)" "\<not> pos p (length d) \<le> pos p (Suc i)"
    "\<not> pos p (length d) < pos p (i + 3)"
    using assms(1) ld by (simp_all add: pos_less pos_le)
  have "pos p i + 2 + ucast (1 :: byte) = pos p (i + 3)" by (simp add: pos_def)
  then show ?thesis using r l by (simp add: skip_version_def padd_def pos_plus1)
qed

lemma tlv_start:
  assumes "buf_ok p d" "d = pre @ tlv tag v @ post" "length v < 65536" "i = length pre"
    and "i + length (tlv tag v) \<le> j" "j \<le> length d"
  defines "x \<equiv> Suc i + length (der_enc (length v))"
  shows "rd p d (pos p i) = Ok tag" "pos p i < pos p j" "\<not> pos p j \<le> pos p (Suc i)"
    "der_len False p d (pos p j) (pos p (Suc i)) = Ok (word_of_nat (length v), pos p x)"
    "pos p x + word_of_nat (length v) = pos p (x + length v)"
    "i + length (tlv tag v) = x + length v"
proof -
  have k: "0 < length (der_enc (length v))" using length_der_enc [of "length v"] by auto
  have d: "d = (pre @ [tag]) @ der_enc (length v) @ (v @ post)" using assms(2) by (simp add: tlv_def)
  show "i + length (tlv tag v) = x + length v" by (simp add: tlv_def x_def)
  then have xj: "x + length v \<le> j" using assms(5) by simp
  show "rd p d (pos p i) = Ok tag" using assms(1,2,4) by (simp add: rd_pos tlv_def)
  show "pos p i < pos p j" "\<not> pos p j \<le> pos p (Suc i)"
    using assms(1,6) xj k x_def pos_less [of p d i j] pos_le [of p d j "Suc i"] by linarith+
  show "der_len False p d (pos p j) (pos p (Suc i)) = Ok (word_of_nat (length v), pos p x)"
    unfolding x_def using assms(4,6) xj x_def
    by (intro der_len_enc [OF assms(1) d assms(3)]) simp_all
  show "pos p x + word_of_nat (length v) = pos p (x + length v)" by (rule pos_add)
qed

lemma skip_algorithm_enc:
  assumes "buf_ok p d" "d = pre @ tlv 0x30 alg @ post" "length alg < 65536" "i = length pre"
  shows "skip_algorithm False p d (pos p (length d)) (pos p i) = Ok (pos p (i + length (tlv 0x30 alg)))"
proof -
  have b: "i + length (tlv 0x30 alg) \<le> length d" using assms(2,4) by simp
  note s = tlv_start [OF assms b order_refl]
  have "\<not> pos p (length d) < pos p (i + length (tlv 0x30 alg))"
    using assms(1) b by (simp add: pos_less)
  then show ?thesis
    unfolding skip_algorithm_def pos_plus1 s(6) using s(1-5) by (simp add: padd_def)
qed

lemma dg_sequence_enc:
  assumes "buf_ok p d" "d = pre @ tlv 0x30 (concat (map dg_enc es)) @ post"
    "length (concat (map dg_enc es)) < 65536" "i = length pre" "length es \<le> fuel"
    "\<forall>e \<in> set es. fst e < 128 \<and> length (snd e) < 60000"
  shows "dg_sequence fuel False p d (pos p (length d)) (pos p i)
    = Ok (foldl (\<lambda>m (n, h). smap_set n h m) [] (map (\<lambda>(n, h). (int n, h)) es))"
proof -
  let ?v = "concat (map dg_enc es)"
  define x where "x = Suc i + length (der_enc (length ?v))"
  have b: "i + length (tlv 0x30 ?v) \<le> length d" using assms(2,4) by simp
  note s = tlv_start [OF assms(1-4) b order_refl, folded x_def]
  have d: "d = (pre @ 0x30 # der_enc (length ?v)) @ ?v @ post" using assms(2) by (simp add: tlv_def)
  have "\<not> pos p (length d) < pos p (x + length ?v)"
    using assms(1) b s(6) by (simp add: pos_less)
  moreover have "dg_loop fuel False p d (pos p (x + length ?v)) (pos p x) []
      = Ok (foldl (\<lambda>m (n, h). smap_set n h m) [] (map (\<lambda>(n, h). (int n, h)) es))"
    using assms(4-6) by (intro dg_loop_enc [OF assms(1) d]) (simp_all add: x_def)
  ultimately show ?thesis using s(1-5) by (simp add: dg_sequence_def padd_def pos_plus1)
qed

lemma lds_hashes_enc:
  assumes "length (lds_enc ver alg es trailer) < 65536" "buf_ok p (lds_enc ver alg es trailer)"
    "length es \<le> fuel" "\<forall>e \<in> set es. fst e < 128 \<and> length (snd e) < 60000"
  shows "lds_hashes fuel False p (lds_enc ver alg es trailer)
    = Ok (foldl (\<lambda>m (n, h). smap_set n h m) [] (map (\<lambda>(n, h). (int n, h)) es))"
proof -
  let ?d = "lds_enc ver alg es trailer"
  let ?dgs = "concat (map dg_enc es)"
  define v where "v = [0x02, 0x01, ver] @ tlv 0x30 alg @ tlv 0x30 ?dgs @ trailer"
  define i where "i = Suc (length (der_enc (length v)))"
  have d: "?d = tlv 0x30 v" by (simp add: lds_enc_def v_def)
  have lens: "length v < 65536" "length alg < 65536" "length ?dgs < 65536"
    using assms(1) unfolding d by (simp_all add: tlv_def v_def)
  have d1: "?d = (0x30 # der_enc (length v)) @ [0x02, 0x01, ver] @ (tlv 0x30 alg @ tlv 0x30 ?dgs @ trailer)"
    and d2: "?d = (0x30 # der_enc (length v) @ [0x02, 0x01, ver]) @ tlv 0x30 alg @ (tlv 0x30 ?dgs @ trailer)"
    and d3: "?d = (0x30 # der_enc (length v) @ [0x02, 0x01, ver] @ tlv 0x30 alg) @ tlv 0x30 ?dgs @ trailer"
    unfolding d by (simp_all add: tlv_def [of "0x30" v]) (simp_all add: v_def)
  have s1: "outer_seq False p ?d (pos p (length ?d)) = Ok (pos p i)"
    unfolding i_def by (rule outer_seq_enc [OF assms(2) d lens(1)])
  have s2: "skip_version False p ?d (pos p (length ?d)) (pos p i) = Ok (pos p (i + 3))"
    by (rule skip_version_enc [OF assms(2) d1]) (simp add: i_def)
  have s3: "skip_algorithm False p ?d (pos p (length ?d)) (pos p (i + 3))
      = Ok (pos p (i + 3 + length (tlv 0x30 alg)))"
    by (rule skip_algorithm_enc [OF assms(2) d2 lens(2)]) (simp add: i_def)
  have s4: "dg_sequence fuel False p ?d (pos p (length ?d)) (pos p (i + 3 + length (tlv 0x30 alg)))
      = Ok (foldl (\<lambda>m (n, h). smap_set n h m) [] (map (\<lambda>(n, h). (int n, h)) es))"
    by (rule dg_sequence_enc [OF assms(2) d3 lens(3) _ assms(3,4)]) (simp add: i_def)
  show ?thesis
    unfolding lds_hashes_def pos_def [symmetric] Let_def s1 pbind.simps s2 s3 s4 by simp
qed

text \<open>C15. Encoding a list of data group hashes as an LDSSecurityObject and reading it back
  with \<^verbatim>\<open>parseDataGroupHashesRaw\<close> gives, under every data group number, the hash that was
  encoded, for any version, algorithm identifier and trailing fields of an object below
  64 KiB.\<close>

theorem lds_roundtrip:
  assumes "length (lds_enc ver alg es trailer) < 65536"
    and "buf_ok p (lds_enc ver alg es trailer)"
    and "length es \<le> fuel" and "distinct (map fst es)"
    and "\<forall>e \<in> set es. fst e < 128 \<and> length (snd e) < 60000"
  shows "\<exists>m. lds_hashes fuel False p (lds_enc ver alg es trailer) = Ok m
    \<and> map_of m = map_of (map (\<lambda>(n, h). (int n, h)) es)"
proof -
  let ?kvs = "map (\<lambda>(n, h). (int n, h)) es"
  have "map fst ?kvs = map int (map fst es)" by (simp add: case_prod_beta)
  then have "distinct (map fst ?kvs)"
    using assms(4) by (simp add: distinct_map inj_on_def)
  then have "map_of (foldl (\<lambda>m (n, h). smap_set n h m) [] ?kvs) = map_of ?kvs"
    by (rule smap.lookup_updates_distinct)
  then show ?thesis using lds_hashes_enc [OF assms(1-3,5)] by auto
qed

lemma lds_roundtrip_witness:
  "\<exists>m. lds_hashes 2 False 0x1000 (lds_enc 0 [0x06, 0x01, 0x05] [(1, [0xAA, 0xBB]), (2, [0xCC])] [])
      = Ok m
    \<and> map_of m = map_of (map (\<lambda>(n, h). (int n, h)) [(1 :: nat, [0xAA, 0xBB]), (2, [0xCC :: byte])])"
  by (rule lds_roundtrip) (simp_all add: lds_enc_def tlv_def dg_enc_def der_enc_def buf_ok_def)

section \<open>The wrapper\<close>

text \<open>Wrapping a CMS structure in the ICAO application tag 23 (0x77) and removing the
  wrapper with \<^verbatim>\<open>unwrapIcaoSod\<close> gives the structure back, and a structure that starts with
  another tag is left alone.\<close>

theorem unwrap_roundtrip:
  assumes "2 < length cms" and "length cms < 65536"
  shows "unwrapIcaoSod (tlv 0x77 cms) = cms \<and> (cms ! 0 \<noteq> 0x77 \<longrightarrow> unwrapIcaoSod cms = cms)"
proof -
  have ne: "cms \<noteq> []" using assms(1) by auto
  have h: "(0x81 :: byte) AND 0x80 \<noteq> 0" "unat ((0x81 :: byte) AND 0x7F) = 1"
    "(0x82 :: byte) AND 0x80 \<noteq> 0" "unat ((0x82 :: byte) AND 0x7F) = 2" by simp_all
  have "unwrapIcaoSod (tlv 0x77 cms) = cms"
  proof -
    consider "length cms < 128" | "128 \<le> length cms" "length cms < 256" | "256 \<le> length cms" by linarith
    then show ?thesis
    proof cases
      case 1
      then show ?thesis using assms ne
        by (simp add: unwrapIcaoSod_def tlv_def der_enc_def small_byte_high_bit)
    next
      case 2
      then show ?thesis using assms ne h
        by (simp add: unwrapIcaoSod_def tlv_def der_enc_def)
    next
      case 3
      then show ?thesis using assms ne h
        by (simp add: unwrapIcaoSod_def tlv_def der_enc_def)
    qed
  qed
  then show ?thesis by (simp add: unwrapIcaoSod_def)
qed

lemma unwrap_roundtrip_witness:
  "unwrapIcaoSod (tlv 0x77 [0x30, 0x01, 0x05]) = [0x30, 0x01, 0x05]
   \<and> unwrapIcaoSod [0x30, 0x01, 0x05] = [0x30, 0x01, 0x05]"
  using unwrap_roundtrip [of "[0x30, 0x01, 0x05]"] by simp

end
