(* ===== verification/Compliance.thy ===== *)
theory Compliance
  imports Cert_Ops
begin

text \<open>
  The per-certificate checks of \<^verbatim>\<open>shared/lib/icao-validation\<close>:
  \<^verbatim>\<open>validateExtensions\<close> (\<^verbatim>\<open>extension_validator.cpp\<close>), \<^verbatim>\<open>validateAlgorithmCompliance\<close>
  (\<^verbatim>\<open>algorithm_compliance.cpp\<close>) and \<^verbatim>\<open>CrlChecker::check\<close> (\<^verbatim>\<open>crl_checker.cpp\<close>).
  The CRL functions of OpenSSL are the record \<open>crl_ssl\<close>.
\<close>

section \<open>Extensions\<close>

definition known_critical :: "nid \<Rightarrow> bool" where
  "known_critical n \<longleftrightarrow> n \<in> {NID_basic_constraints, NID_key_usage, NID_certificate_policies,
     NID_subject_key_identifier, NID_authority_key_identifier, NID_name_constraints,
     NID_policy_constraints, NID_inhibit_any_policy, NID_subject_alt_name, NID_issuer_alt_name,
     NID_crl_distribution_points, NID_ext_key_usage}"

text \<open>One round of the loop; \<^verbatim>\<open>char oidBuf[80]\<close> keeps 79 characters of the OID.\<close>

definition ext_warning :: "x509_ext option \<Rightarrow> string list" where
  "ext_warning e = (case e of None \<Rightarrow> []
     | Some x \<Rightarrow>
         if ext_critical x \<and> \<not> known_critical (ext_nid x)
         then [''Unknown critical extension: '' @ take 79 (ext_oid x)] else [])"

definition usage_warning :: "bool list option \<Rightarrow> string \<Rightarrow> string list" where
  "usage_warning usage role =
     (case usage of None \<Rightarrow> []
      | Some bits \<Rightarrow>
          if role = ''DSC'' then
            (if \<not> get_bit bits 0 then [''DSC missing required digitalSignature key usage''] else [])
          else if role = ''CSCA'' then
            (if \<not> get_bit bits 5 then [''CSCA missing required keyCertSign key usage''] else [])
          else [])"

definition validateExtensions :: "('x, 'k, 't) openssl \<Rightarrow> 'x option \<Rightarrow> string
    \<Rightarrow> extension_validation_result" where
  "validateExtensions L cert role =
     (case cert of
        None \<Rightarrow> \<lparr>ev_valid = False, ev_warnings = [''Certificate is null'']\<rparr>
      | Some c \<Rightarrow>
          let w = concat (map ext_warning (extensions L c)) @ usage_warning (key_usage L c) role
          in \<lparr>ev_valid = (w = []), ev_warnings = w\<rparr>)"

section \<open>Algorithms\<close>

definition sha2_nid :: "nid \<Rightarrow> bool" where
  "sha2_nid n \<longleftrightarrow> n \<in> {NID_sha256WithRSAEncryption, NID_ecdsa_with_SHA256,
     NID_sha384WithRSAEncryption, NID_ecdsa_with_SHA384, NID_sha512WithRSAEncryption,
     NID_ecdsa_with_SHA512}"

definition classify_algorithm :: "nid \<Rightarrow> string \<Rightarrow> bool \<times> string" where
  "classify_algorithm n name =
     (if sha2_nid n then (True, [])
      else if n = NID_sha1WithRSAEncryption \<or> n = NID_ecdsa_with_SHA1 then
        (True, ''SHA-1 algorithm is deprecated per ICAO NTWG recommendations'')
      else if n = NID_rsassaPss then (True, [])
      else (False, ''Unknown or non-ICAO-approved signature algorithm: '' @ name))"

definition validateAlgorithmCompliance :: "('x, 'k, 't) openssl \<Rightarrow> 'x option
    \<Rightarrow> algorithm_compliance_result" where
  "validateAlgorithmCompliance L cert =
     (case cert of
        None \<Rightarrow> \<lparr>ac_compliant = False, ac_algorithm = [], ac_warning = ''Certificate is null'',
                 ac_keyBits = 0\<rparr>
      | Some c \<Rightarrow>
          let n = signature_nid L c;
              name = OBJ_nid2sn L n;
              (ok, warning) = classify_algorithm n name
          in case get_pubkey L c of
               None \<Rightarrow> \<lparr>ac_compliant = ok, ac_algorithm = name, ac_warning = warning, ac_keyBits = 0\<rparr>
             | Some k \<Rightarrow>
                 let bits = pkey_bits L k in
                 \<lparr>ac_compliant = ok, ac_algorithm = name,
                  ac_warning = (if pkey_base_id L k = EVP_PKEY_RSA \<and> bits < 2048
                    then ''RSA key size '' @ int_dec bits @ '' bits is below ICAO minimum of 2048 bits''
                    else warning),
                  ac_keyBits = bits\<rparr>)"

section \<open>Revocation\<close>

record ('crl, 'rev, 'ext, 't) crl_ssl =
  crl_lastUpdate :: "'crl \<Rightarrow> 't option"
  crl_nextUpdate :: "'crl \<Rightarrow> 't option"
  crl_get0_by_serial :: "'crl \<Rightarrow> int \<Rightarrow> int \<times> 'rev option"
  revoked_reason_index :: "'rev \<Rightarrow> int"
  revoked_get_ext :: "'rev \<Rightarrow> int \<Rightarrow> 'ext option"
  reason_of_ext :: "'ext \<Rightarrow> int option"

fun crl_reason_name :: "int \<Rightarrow> string" where
  "crl_reason_name code =
     (if code = 0 then ''unspecified''
      else if code = 1 then ''keyCompromise''
      else if code = 2 then ''cACompromise''
      else if code = 3 then ''affiliationChanged''
      else if code = 4 then ''superseded''
      else if code = 5 then ''cessationOfOperation''
      else if code = 6 then ''certificateHold''
      else if code = 8 then ''removeFromCRL''
      else if code = 9 then ''privilegeWithdrawn''
      else if code = 10 then ''aACompromise''
      else ''unknown('' @ int_dec code @ '')'')"

definition revocation_reason :: "('crl, 'rev, 'ext, 't) crl_ssl \<Rightarrow> 'rev \<Rightarrow> string" where
  "revocation_reason C r =
     (let idx = revoked_reason_index C r in
      if 0 \<le> idx then
        (case revoked_get_ext C r idx of None \<Rightarrow> []
         | Some e \<Rightarrow> (case reason_of_ext C e of None \<Rightarrow> [] | Some code \<Rightarrow> crl_reason_name code))
      else [])"

text \<open>Steps 2 to 5 of \<^verbatim>\<open>check\<close>, on the fetched CRL.\<close>

definition crl_dates :: "('x, 'k, 't) openssl \<Rightarrow> ('crl, 'rev, 'ext, 't) crl_ssl \<Rightarrow> 'crl
    \<Rightarrow> crl_check_result" where
  "crl_dates L C crl = crl_check_result0\<lparr>
     cc_thisUpdate := asn1TimeToIso8601 L (crl_lastUpdate C crl),
     cc_nextUpdate := asn1TimeToIso8601 L (crl_nextUpdate C crl)\<rparr>"

definition crl_expired :: "('x, 'k, 't) openssl \<Rightarrow> ('crl, 'rev, 'ext, 't) crl_ssl \<Rightarrow> int \<Rightarrow> 'crl \<Rightarrow> bool" where
  "crl_expired L C now crl =
     (case crl_nextUpdate C crl of None \<Rightarrow> False | Some t \<Rightarrow> X509_cmp_time L t now < 0)"

definition check_serial :: "('x, 'k, 't) openssl \<Rightarrow> ('crl, 'rev, 'ext, 't) crl_ssl \<Rightarrow> 'x \<Rightarrow> string
    \<Rightarrow> 'crl \<Rightarrow> crl_check_result \<Rightarrow> crl_check_result" where
  "check_serial L C c countryCode crl r =
     (case serial_number L c of
        None \<Rightarrow> r\<lparr>cc_status := CRL_VALID, cc_message := ''Could not extract certificate serial number''\<rparr>
      | Some serial \<Rightarrow>
          (case crl_get0_by_serial C crl serial of
             (ret, Some rv) \<Rightarrow>
               if ret = 1 then
                 r\<lparr>cc_status := CRL_REVOKED,
                   cc_message := ''Certificate is revoked (country: '' @ countryCode @ '')'',
                   cc_revocationReason := revocation_reason C rv\<rparr>
               else r\<lparr>cc_status := CRL_VALID,
                   cc_message := ''Certificate not revoked (country: '' @ countryCode @ '')''\<rparr>
           | (ret, None) \<Rightarrow> r\<lparr>cc_status := CRL_VALID,
                   cc_message := ''Certificate not revoked (country: '' @ countryCode @ '')''\<rparr>))"

definition crl_check :: "('x, 'k, 't) openssl \<Rightarrow> ('crl, 'rev, 'ext, 't) crl_ssl
    \<Rightarrow> (string \<Rightarrow> 'crl option) \<Rightarrow> int \<Rightarrow> 'x option \<Rightarrow> string \<Rightarrow> crl_check_result" where
  "crl_check L C findCrlByCountry now cert countryCode =
     (case cert of
        None \<Rightarrow> crl_check_result0\<lparr>cc_message := ''Certificate is null''\<rparr>
      | Some c \<Rightarrow>
          if countryCode = [] then crl_check_result0\<lparr>cc_message := ''Country code is empty''\<rparr>
          else
            (case findCrlByCountry countryCode of
               None \<Rightarrow> crl_check_result0\<lparr>cc_status := CRL_UNAVAILABLE,
                 cc_message := ''No CRL found for country '' @ countryCode\<rparr>
             | Some crl \<Rightarrow>
                 let r = crl_dates L C crl in
                 if crl_expired L C now crl then
                   r\<lparr>cc_status := CRL_EXPIRED, cc_message := ''CRL expired for country '' @ countryCode\<rparr>
                 else check_serial L C c countryCode crl r))"

section \<open>Properties\<close>

lemma ext_warning_Nil:
  "ext_warning e = [] \<longleftrightarrow> (\<forall>x. e = Some x \<longrightarrow> ext_critical x \<longrightarrow> known_critical (ext_nid x))"
  by (auto simp: ext_warning_def split: option.splits)

text \<open>\<^verbatim>\<open>validateExtensions\<close> accepts a certificate exactly when no critical extension is
  outside the known list and a key-usage extension, when present, has the bit its role needs
  (digitalSignature of a DSC, keyCertSign of a CSCA); otherwise there is a warning.\<close>

theorem validateExtensions_iff:
  "ev_valid (validateExtensions L (Some c) role) \<longleftrightarrow>
     (\<forall>x. Some x \<in> set (extensions L c) \<longrightarrow> ext_critical x \<longrightarrow> known_critical (ext_nid x))
     \<and> (\<forall>bits. key_usage L c = Some bits \<longrightarrow>
          (role = ''DSC'' \<longrightarrow> get_bit bits 0) \<and> (role = ''CSCA'' \<longrightarrow> get_bit bits 5))"
proof -
  have "usage_warning u role = [] \<longleftrightarrow> (\<forall>bits. u = Some bits \<longrightarrow>
      (role = ''DSC'' \<longrightarrow> get_bit bits 0) \<and> (role = ''CSCA'' \<longrightarrow> get_bit bits 5))" for u
    by (auto simp: usage_warning_def split: option.splits)
  then show ?thesis
    by (auto simp: validateExtensions_def Let_def ext_warning_Nil)
qed

lemma validateExtensions_iff_witness:
  "ev_valid (validateExtensions (small_pki (\<lambda>_. ''/CN=A'') (\<lambda>_. ''/CN=A'') (\<lambda>_ _. True)) (Some 1) ''CSCA'')
   \<and> \<not> ev_valid (validateExtensions (small_pki (\<lambda>_. ''/CN=A'') (\<lambda>_. ''/CN=A'') (\<lambda>_ _. True)) (Some 1) ''DSC'')"
  unfolding validateExtensions_iff by (simp add: small_pki_def get_bit_def)

text \<open>The algorithm check never approves an algorithm outside SHA-1, SHA-2 and RSA-PSS, and
  a certificate it approves without a warning has no SHA-1 signature and no RSA key below 2048
  bits.\<close>

theorem algorithm_compliance_sound:
  assumes "ac_compliant (validateAlgorithmCompliance L (Some c))"
  shows "(sha2_nid (signature_nid L c)
      \<or> signature_nid L c \<in> {NID_sha1WithRSAEncryption, NID_ecdsa_with_SHA1, NID_rsassaPss})
    \<and> (ac_warning (validateAlgorithmCompliance L (Some c)) = [] \<longrightarrow>
        signature_nid L c \<notin> {NID_sha1WithRSAEncryption, NID_ecdsa_with_SHA1}
        \<and> (\<forall>k. get_pubkey L c = Some k \<longrightarrow> pkey_base_id L k = EVP_PKEY_RSA \<longrightarrow> 2048 \<le> pkey_bits L k))"
  using assms
  by (auto simp: validateAlgorithmCompliance_def classify_algorithm_def Let_def sha2_nid_def
      split: option.splits if_splits)

lemma algorithm_compliance_sound_witness:
  "ac_warning (validateAlgorithmCompliance (small_pki (\<lambda>_. []) (\<lambda>_. []) (\<lambda>_ _. True)) (Some 1)) = []
   \<and> sha2_nid (signature_nid (small_pki (\<lambda>_. []) (\<lambda>_. []) (\<lambda>_ _. True)) (1::nat))"
proof -
  let ?L = "small_pki (\<lambda>_. []) (\<lambda>_. []) (\<lambda>_ _. True)"
  have ok: "ac_compliant (validateAlgorithmCompliance ?L (Some 1))"
    "ac_warning (validateAlgorithmCompliance ?L (Some 1)) = []"
    by (simp_all add: validateAlgorithmCompliance_def classify_algorithm_def sha2_nid_def small_pki_def)
  show ?thesis
    using algorithm_compliance_sound [OF ok(1)] ok(2) by (simp add: small_pki_def)
qed

text \<open>The revocation check answers REVOKED exactly when the country has a CRL that is not
  past its next update and OpenSSL finds the certificate's serial number in it, answers EXPIRED or
  UNAVAILABLE exactly when that CRL is outdated or missing, gives a revocation reason only for a
  revoked certificate, and never answers INVALID.\<close>

theorem crl_check_verdict:
  fixes L :: "('x, 'k, 't) openssl"
  assumes "countryCode \<noteq> []" and "r = crl_check L C prov now (Some c) countryCode"
  shows "(cc_status r = CRL_UNAVAILABLE \<longleftrightarrow> prov countryCode = None)
    \<and> (cc_status r = CRL_EXPIRED \<longleftrightarrow> (\<exists>crl. prov countryCode = Some crl \<and> crl_expired L C now crl))
    \<and> (cc_status r = CRL_REVOKED \<longleftrightarrow> (\<exists>crl serial rv. prov countryCode = Some crl
          \<and> \<not> crl_expired L C now crl \<and> serial_number L c = Some serial
          \<and> crl_get0_by_serial C crl serial = (1, Some rv)))
    \<and> (cc_revocationReason r \<noteq> [] \<longrightarrow> cc_status r = CRL_REVOKED)
    \<and> cc_status r \<noteq> CRL_INVALID \<and> cc_status r \<noteq> CRL_NOT_CHECKED"
proof (cases "prov countryCode")
  case None
  with assms show ?thesis by (simp add: crl_check_def crl_check_result0_def)
next
  case (Some crl)
  show ?thesis
  proof (cases "crl_expired L C now crl")
    case True
    with Some assms show ?thesis
      by (simp add: crl_check_def crl_dates_def crl_check_result0_def Let_def)
  next
    case False
    with Some assms have r: "r = check_serial L C c countryCode crl (crl_dates L C crl)"
      by (simp add: crl_check_def Let_def)
    show ?thesis
      using Some False
      by (simp add: r check_serial_def crl_dates_def crl_check_result0_def
          split: option.split prod.split)
  qed
qed

definition demo_crl_ssl :: "(nat list, int, int, int) crl_ssl" where
  "demo_crl_ssl = \<lparr>
     crl_lastUpdate = (\<lambda>c. Some 0),
     crl_nextUpdate = (\<lambda>c. Some 100),
     crl_get0_by_serial = (\<lambda>c n. if nat n \<in> set c then (1, Some 1) else (0, None)),
     revoked_reason_index = (\<lambda>r. 0),
     revoked_get_ext = (\<lambda>r i. Some r),
     reason_of_ext = Some\<rparr>"

lemma crl_check_verdict_witness:
  "cc_status (crl_check (small_pki (\<lambda>_. []) (\<lambda>_. []) (\<lambda>_ _. True)) demo_crl_ssl
     (\<lambda>_. Some [7]) 50 (Some 7) ''KR'') = CRL_REVOKED"
proof -
  have "''KR'' \<noteq> []" by simp
  note v = crl_check_verdict [OF this refl, of "small_pki (\<lambda>_. []) (\<lambda>_. []) (\<lambda>_ _. True)"
      demo_crl_ssl "\<lambda>_. Some [7]" 50 7]
  then show ?thesis
    by (simp add: crl_expired_def demo_crl_ssl_def small_pki_def)
qed

end
