(* ===== verification/Pa_Chain.thy ===== *)
theory Pa_Chain
  imports Compliance
begin

text \<open>
  \<^verbatim>\<open>services/pa-service/src/services/certificate_validation_service.cpp\<close>: the
  certificate-chain step of Passive Authentication, with its result model
  (\<^verbatim>\<open>domain/models/certificate_chain_validation.{h,cpp}\<close>).  The LDAP repositories
  are the record \<open>pa_env\<close>; a call that can throw returns the exception's text on the
  left.  \<open>pe_now\<close> gives the successive readings of the clock.  \<^verbatim>\<open>X509_free\<close> is not modelled here.
\<close>

section \<open>The result (certificate_chain_validation.h)\<close>

datatype pa_crl_status = PCS_VALID | PCS_REVOKED | PCS_CRL_UNAVAILABLE | PCS_CRL_EXPIRED
  | PCS_CRL_INVALID | PCS_NOT_CHECKED

fun crlStatusToString :: "pa_crl_status \<Rightarrow> string" where
  "crlStatusToString PCS_VALID = ''VALID''"
| "crlStatusToString PCS_REVOKED = ''REVOKED''"
| "crlStatusToString PCS_CRL_UNAVAILABLE = ''CRL_UNAVAILABLE''"
| "crlStatusToString PCS_CRL_EXPIRED = ''CRL_EXPIRED''"
| "crlStatusToString PCS_CRL_INVALID = ''CRL_INVALID''"
| "crlStatusToString PCS_NOT_CHECKED = ''NOT_CHECKED''"

record chain_validation =
  cv_valid :: bool
  cv_countryCode :: string
  cv_dscSubject :: string
  cv_dscSerialNumber :: string
  cv_dscIssuer :: string
  cv_dscNotBefore :: "string option"
  cv_dscNotAfter :: "string option"
  cv_dscExpired :: bool
  cv_cscaSubject :: string
  cv_cscaSerialNumber :: string
  cv_cscaNotBefore :: "string option"
  cv_cscaNotAfter :: "string option"
  cv_cscaExpired :: bool
  cv_trustChainPath :: string
  cv_trustChainDepth :: int
  cv_validAtSigningTime :: bool
  cv_expirationStatus :: string
  cv_expirationMessage :: "string option"
  cv_signingTime :: "string option"
  cv_crlChecked :: bool
  cv_revoked :: bool
  cv_crlStatus :: pa_crl_status
  cv_crlMessage :: "string option"
  cv_crlStatusDescription :: "string option"
  cv_crlStatusDetailedDescription :: "string option"
  cv_crlStatusSeverity :: string
  cv_crlThisUpdate :: "string option"
  cv_crlNextUpdate :: "string option"
  cv_crlRevocationReason :: "string option"
  cv_validationErrors :: "string option"
  cv_errorCode :: "string option"
  cv_signatureVerified :: bool
  cv_signatureAlgorithm :: "string option"
  cv_dscNonConformant :: bool
  cv_pkdConformanceCode :: string
  cv_pkdConformanceText :: string

definition chain_validation0 :: chain_validation where
  "chain_validation0 = \<lparr>cv_valid = False, cv_countryCode = [], cv_dscSubject = [],
     cv_dscSerialNumber = [], cv_dscIssuer = [], cv_dscNotBefore = None, cv_dscNotAfter = None,
     cv_dscExpired = False, cv_cscaSubject = [], cv_cscaSerialNumber = [], cv_cscaNotBefore = None,
     cv_cscaNotAfter = None, cv_cscaExpired = False, cv_trustChainPath = [], cv_trustChainDepth = 0,
     cv_validAtSigningTime = True, cv_expirationStatus = [], cv_expirationMessage = None,
     cv_signingTime = None, cv_crlChecked = False, cv_revoked = False, cv_crlStatus = PCS_NOT_CHECKED,
     cv_crlMessage = None, cv_crlStatusDescription = None, cv_crlStatusDetailedDescription = None,
     cv_crlStatusSeverity = [], cv_crlThisUpdate = None, cv_crlNextUpdate = None,
     cv_crlRevocationReason = None, cv_validationErrors = None, cv_errorCode = None,
     cv_signatureVerified = False, cv_signatureAlgorithm = None, cv_dscNonConformant = False,
     cv_pkdConformanceCode = [], cv_pkdConformanceText = []\<rparr>"

definition isFullyValid :: "chain_validation \<Rightarrow> bool" where
  "isFullyValid r = (cv_valid r \<and> \<not> cv_revoked r \<and> \<not> cv_dscExpired r \<and> \<not> cv_cscaExpired r
     \<and> cv_signatureVerified r)"

definition getValidationStatus :: "chain_validation \<Rightarrow> string" where
  "getValidationStatus r =
     (if \<not> cv_valid r then ''INVALID''
      else if cv_dscExpired r \<or> cv_cscaExpired r \<or> cv_revoked r then ''WARNING'' else ''VALID'')"

definition createInvalid :: "string \<Rightarrow> chain_validation" where
  "createInvalid m = chain_validation0\<lparr>cv_validationErrors := Some m, cv_expirationStatus := ''INVALID'',
     cv_crlStatusSeverity := ''CRITICAL''\<rparr>"

definition createValid :: "string \<Rightarrow> string \<Rightarrow> string \<Rightarrow> string \<Rightarrow> chain_validation" where
  "createValid dscSubject dscSerial cscaSubject cscaSerial = chain_validation0\<lparr>
     cv_valid := True, cv_dscSubject := dscSubject, cv_dscSerialNumber := dscSerial,
     cv_cscaSubject := cscaSubject, cv_cscaSerialNumber := cscaSerial,
     cv_expirationStatus := ''VALID'', cv_signatureVerified := True, cv_crlStatusSeverity := ''INFO''\<rparr>"

definition opt_member :: "string \<Rightarrow> string option \<Rightarrow> (string \<times> json) list" where
  "opt_member k v = (case v of None \<Rightarrow> [] | Some s \<Rightarrow> [(k, JStr s)])"

definition chain_validation_toJson :: "chain_validation \<Rightarrow> json" where
  "chain_validation_toJson r = jobj (
     [(''valid'', JBool (cv_valid r)), (''validationStatus'', JStr (getValidationStatus r)),
      (''dscSubject'', JStr (cv_dscSubject r)), (''dscSerialNumber'', JStr (cv_dscSerialNumber r)),
      (''dscIssuer'', JStr (cv_dscIssuer r))]
     @ opt_member ''dscNotBefore'' (cv_dscNotBefore r) @ opt_member ''dscNotAfter'' (cv_dscNotAfter r)
     @ [(''dscExpired'', JBool (cv_dscExpired r)), (''cscaSubject'', JStr (cv_cscaSubject r)),
        (''cscaSerialNumber'', JStr (cv_cscaSerialNumber r))]
     @ opt_member ''cscaNotBefore'' (cv_cscaNotBefore r) @ opt_member ''cscaNotAfter'' (cv_cscaNotAfter r)
     @ [(''cscaExpired'', JBool (cv_cscaExpired r)), (''trustChainPath'', JStr (cv_trustChainPath r)),
        (''trustChainDepth'', JInt (cv_trustChainDepth r)),
        (''validAtSigningTime'', JBool (cv_validAtSigningTime r)),
        (''expirationStatus'', JStr (cv_expirationStatus r))]
     @ opt_member ''expirationMessage'' (cv_expirationMessage r)
     @ opt_member ''signingTime'' (cv_signingTime r)
     @ [(''crlChecked'', JBool (cv_crlChecked r)), (''revoked'', JBool (cv_revoked r)),
        (''crlStatus'', JStr (crlStatusToString (cv_crlStatus r)))]
     @ opt_member ''crlMessage'' (cv_crlMessage r)
     @ opt_member ''crlStatusDescription'' (cv_crlStatusDescription r)
     @ opt_member ''crlStatusDetailedDescription'' (cv_crlStatusDetailedDescription r)
     @ [(''crlStatusSeverity'', JStr (cv_crlStatusSeverity r))]
     @ opt_member ''crlThisUpdate'' (cv_crlThisUpdate r)
     @ opt_member ''crlNextUpdate'' (cv_crlNextUpdate r)
     @ opt_member ''crlRevocationReason'' (cv_crlRevocationReason r)
     @ opt_member ''validationErrors'' (cv_validationErrors r)
     @ opt_member ''errorCode'' (cv_errorCode r)
     @ [(''signatureVerified'', JBool (cv_signatureVerified r))]
     @ opt_member ''signatureAlgorithm'' (cv_signatureAlgorithm r)
     @ (if cv_dscNonConformant r then
          [(''dscNonConformant'', JBool True), (''pkdConformanceCode'', JStr (cv_pkdConformanceCode r)),
           (''pkdConformanceText'', JStr (cv_pkdConformanceText r))] else [])
     @ [(''fullyValid'', JBool (isFullyValid r))])"

section \<open>Serial numbers and signing time\<close>

fun colon_pairs :: "string \<Rightarrow> string list" where
  "colon_pairs (a # b # r) = [a, b] # colon_pairs r"
| "colon_pairs [a] = [[a]]"
| "colon_pairs [] = []"

definition serialNumberToString :: "('x, 'k, 't) openssl \<Rightarrow> int option \<Rightarrow> string" where
  "serialNumberToString L serial =
     (case serial of None \<Rightarrow> []
      | Some s \<Rightarrow>
          (case ASN1_INTEGER_to_BN L s of None \<Rightarrow> []
           | Some bn \<Rightarrow>
               (case BN_bn2hex L bn of None \<Rightarrow> []
                | Some hex \<Rightarrow> join '':'' (colon_pairs (c_str hex)))))"

text \<open>\<^verbatim>\<open>sscanf\<close> of decimal fields separated by literal characters: the values read
  before the first failure.\<close>

fun sscanf_ints :: "char list \<Rightarrow> string \<Rightarrow> int list" where
  "sscanf_ints seps s =
     (case scan_number 10 s of None \<Rightarrow> []
      | Some (v, r) \<Rightarrow>
          v # (case seps of [] \<Rightarrow> []
               | c # seps' \<Rightarrow> (case r of [] \<Rightarrow> [] | d # r' \<Rightarrow> if d = c then sscanf_ints seps' r' else [])))"

declare sscanf_ints.simps [simp del]

text \<open>\<^verbatim>\<open>timegm\<close>: seconds since 1970 in the proleptic Gregorian calendar, a month outside
  the year carried over.\<close>

definition days_from_civil :: "int \<Rightarrow> int \<Rightarrow> int \<Rightarrow> int" where
  "days_from_civil y m d =
     (let y' = (if m \<le> 2 then y - 1 else y);
          era = y' div 400;
          yoe = y' - era * 400;
          doy = (153 * (if m > 2 then m - 3 else m + 9) + 2) div 5 + d - 1;
          doe = yoe * 365 + yoe div 4 - yoe div 100 + doy
      in era * 146097 + doe - 719468)"

definition timegm :: "tm \<Rightarrow> int" where
  "timegm t =
     (let y = tm_year t + 1900 + tm_mon t div 12; m = tm_mon t mod 12 + 1
      in ((days_from_civil y m 1 + tm_mday t - 1) * 24 + tm_hour t) * 3600
           + tm_min t * 60 + tm_sec t)"

definition nth_field :: "int list \<Rightarrow> nat \<Rightarrow> int" where
  "nth_field xs i = (if i < length xs then xs ! i else 0)"

definition parse_signing_time :: "string \<Rightarrow> int option" where
  "parse_signing_time s =
     (let xs = sscanf_ints ''--T::'' (c_str s) in
      if 3 \<le> length xs then
        Some (timegm \<lparr>tm_year = nth_field xs 0 - 1900, tm_mon = nth_field xs 1 - 1, tm_mday = nth_field xs 2,
          tm_hour = nth_field xs 3, tm_min = nth_field xs 4, tm_sec = nth_field xs 5\<rparr>)
      else None)"

section \<open>The steps of validateCertificateChain\<close>

record conformance_info =
  ci_isNonConformant :: bool
  ci_conformanceCode :: string
  ci_conformanceText :: string

record ('x, 'k, 't, 'crl, 'rev, 'ext) pa_env =
  pe_ssl :: "('x, 'k, 't) openssl"
  pe_crl :: "('crl, 'rev, 'ext, 't) crl_ssl"
  pe_findCrl :: "string \<Rightarrow> 'crl option"
  pe_findAllCscas :: "string \<Rightarrow> string + 'x list"
  pe_conformance :: "'x \<Rightarrow> string \<Rightarrow> string + conformance_info"
  pe_now :: "nat \<Rightarrow> int"

definition dsc_info :: "('x, 'k, 't, 'crl, 'rev, 'ext) pa_env \<Rightarrow> 'x \<Rightarrow> chain_validation
    \<Rightarrow> chain_validation" where
  "dsc_info E c r = (let L = pe_ssl E in
     r\<lparr>cv_dscSubject := getSubjectDn L (Some c), cv_dscIssuer := getIssuerDn L (Some c),
       cv_dscSerialNumber := serialNumberToString L (serial_number L c),
       cv_dscExpired := isCertificateExpired L (pe_now E 0) (Some c)\<rparr>)"

definition valid_at :: "('x, 'k, 't) openssl \<Rightarrow> 'x \<Rightarrow> int \<Rightarrow> bool" where
  "valid_at L c t =
     (\<not> 0 < X509_cmp_time L (not_before L c) t \<and> \<not> X509_cmp_time L (not_after L c) t < 0)"

definition point_in_time :: "('x, 'k, 't, 'crl, 'rev, 'ext) pa_env \<Rightarrow> 'x \<Rightarrow> string \<Rightarrow> chain_validation
    \<Rightarrow> chain_validation" where
  "point_in_time E c signingTime r =
     (if signingTime = [] then r
      else
        let r = r\<lparr>cv_signingTime := Some signingTime\<rparr> in
        case parse_signing_time signingTime of
          None \<Rightarrow> r
        | Some t \<Rightarrow>
            if valid_at (pe_ssl E) c t then r\<lparr>cv_validAtSigningTime := True\<rparr>
            else r\<lparr>cv_validAtSigningTime := False, cv_expirationMessage := Some
              (''DSC certificate was not valid at document signing time ('' @ signingTime @ '')'')\<rparr>)"

definition effective_country :: "string \<Rightarrow> string \<Rightarrow> string" where
  "effective_country countryCode dscIssuer =
     (if countryCode = [] then to_upper (extractDnAttribute dscIssuer ''C'') else countryCode)"

text \<open>The CSCA: the first one with the issuer's DN that verifies the DSC, else the first
  with that DN.\<close>

definition issuer_match :: "('x, 'k, 't) openssl \<Rightarrow> string \<Rightarrow> 'x \<Rightarrow> bool" where
  "issuer_match L dn c = strcaseeq dn (getSubjectDn L (Some c))"

definition pick_csca :: "('x, 'k, 't) openssl \<Rightarrow> 'x \<Rightarrow> string \<Rightarrow> 'x list \<Rightarrow> 'x option" where
  "pick_csca L c dn cscas =
     (case find (\<lambda>x. issuer_match L dn x \<and> verifyCertificateSignature L (Some c) (Some x)) cscas of
        Some x \<Rightarrow> Some x
      | None \<Rightarrow> find (issuer_match L dn) cscas)"

definition no_csca :: "string \<Rightarrow> chain_validation \<Rightarrow> chain_validation" where
  "no_csca code r = r\<lparr>cv_valid := False, cv_errorCode := Some code,
     cv_validationErrors := Some (''CSCA not found for issuer: '' @ cv_dscIssuer r),
     cv_expirationStatus := ''INVALID''\<rparr>"

definition csca_info :: "('x, 'k, 't, 'crl, 'rev, 'ext) pa_env \<Rightarrow> 'x \<Rightarrow> 'x \<Rightarrow> chain_validation
    \<Rightarrow> chain_validation" where
  "csca_info E c csca r = (let L = pe_ssl E in
     r\<lparr>cv_cscaSubject := getSubjectDn L (Some csca),
       cv_cscaSerialNumber := serialNumberToString L (serial_number L csca),
       cv_cscaExpired := isCertificateExpired L (pe_now E 1) (Some csca),
       cv_signatureVerified := verifyCertificateSignature L (Some c) (Some csca)\<rparr>)"

definition self_signature_failed :: "chain_validation \<Rightarrow> chain_validation" where
  "self_signature_failed r = r\<lparr>cv_signatureVerified := False, cv_valid := False,
     cv_errorCode := Some ''CSCA_SELF_SIGNATURE_FAILED'',
     cv_validationErrors := Some ''CSCA self-signature verification failed'',
     cv_expirationStatus := ''INVALID''\<rparr>"

definition append_message :: "string \<Rightarrow> string option \<Rightarrow> string option" where
  "append_message m old = Some (case old of None \<Rightarrow> m | Some o' \<Rightarrow> o' @ ''; '' @ m)"

definition extension_messages :: "('x, 'k, 't, 'crl, 'rev, 'ext) pa_env \<Rightarrow> 'x \<Rightarrow> 'x
    \<Rightarrow> chain_validation \<Rightarrow> chain_validation" where
  "extension_messages E c csca r =
     (let dsc = warningsAsString (validateExtensions (pe_ssl E) (Some c) ''DSC'');
          ca = warningsAsString (validateExtensions (pe_ssl E) (Some csca) ''CSCA'')
      in if dsc \<noteq> [] \<or> ca \<noteq> [] then
           let combined = (if dsc \<noteq> [] then ''DSC: '' @ dsc else []);
               combined = (if ca \<noteq> [] then combined @ (if combined \<noteq> [] then ''; '' else []) @ ''CSCA: '' @ ca
                           else combined)
           in r\<lparr>cv_expirationMessage := append_message combined (cv_expirationMessage r)\<rparr>
         else r)"

definition algorithm_messages :: "('x, 'k, 't, 'crl, 'rev, 'ext) pa_env \<Rightarrow> 'x \<Rightarrow> chain_validation
    \<Rightarrow> chain_validation" where
  "algorithm_messages E c r =
     (let a = validateAlgorithmCompliance (pe_ssl E) (Some c);
          r = r\<lparr>cv_signatureAlgorithm := Some (ac_algorithm a)\<rparr>
      in if ac_warning a \<noteq> []
         then r\<lparr>cv_expirationMessage := append_message (ac_warning a) (cv_expirationMessage r)\<rparr> else r)"

fun map_crl_status :: "crl_check_status \<Rightarrow> pa_crl_status" where
  "map_crl_status CRL_VALID = PCS_VALID"
| "map_crl_status CRL_REVOKED = PCS_REVOKED"
| "map_crl_status CRL_UNAVAILABLE = PCS_CRL_UNAVAILABLE"
| "map_crl_status CRL_EXPIRED = PCS_CRL_EXPIRED"
| "map_crl_status CRL_INVALID = PCS_CRL_INVALID"
| "map_crl_status CRL_NOT_CHECKED = PCS_NOT_CHECKED"

definition some_nonempty :: "string \<Rightarrow> string option \<Rightarrow> string option" where
  "some_nonempty s old = (if s \<noteq> [] then Some s else old)"

definition crl_fields :: "crl_check_result \<Rightarrow> chain_validation \<Rightarrow> chain_validation" where
  "crl_fields k r = (let st = map_crl_status (cc_status k) in
     r\<lparr>cv_crlThisUpdate := some_nonempty (cc_thisUpdate k) (cv_crlThisUpdate r),
       cv_crlNextUpdate := some_nonempty (cc_nextUpdate k) (cv_crlNextUpdate r),
       cv_crlRevocationReason := some_nonempty (cc_revocationReason k) (cv_crlRevocationReason r),
       cv_crlStatus := st, cv_crlChecked := (st \<noteq> PCS_NOT_CHECKED), cv_revoked := (st = PCS_REVOKED)\<rparr>)"

text \<open>The display texts of a CRL status: description, details, severity, message.\<close>

fun crl_description :: "pa_crl_status \<Rightarrow> string" where
  "crl_description PCS_VALID = ''Certificate Revocation List (CRL) check passed''"
| "crl_description PCS_REVOKED = ''Certificate has been revoked by issuing authority''"
| "crl_description PCS_CRL_UNAVAILABLE = ''Certificate Revocation List (CRL) not available''"
| "crl_description PCS_CRL_EXPIRED = ''Certificate Revocation List (CRL) has expired''"
| "crl_description PCS_CRL_INVALID = ''Certificate Revocation List (CRL) signature verification failed''"
| "crl_description PCS_NOT_CHECKED = ''Certificate revocation check was not performed''"

fun crl_details :: "pa_crl_status \<Rightarrow> string" where
  "crl_details PCS_VALID = ''The Document Signer Certificate (DSC) was verified against the Certificate Revocation List (CRL) as specified in ICAO Doc 9303 Part 11. The certificate is not revoked and remains valid for Passive Authentication.''"
| "crl_details PCS_REVOKED = ''The Document Signer Certificate (DSC) appears on the Certificate Revocation List (CRL) published by the issuing Country Signing CA (CSCA). According to RFC 5280 and ICAO Doc 9303 Part 11, this certificate must not be used for Passive Authentication verification.''"
| "crl_details PCS_CRL_UNAVAILABLE = ''No CRL was found in the LDAP PKD for this issuing country. ICAO Doc 9303 Part 11 specifies CRL checking as RECOMMENDED but not mandatory. According to the principle of fail-open for unavailable infrastructure, this verification continues with a warning.''"
| "crl_details PCS_CRL_EXPIRED = ''The CRL retrieved from the PKD has passed its nextUpdate time as defined in RFC 5280. An expired CRL cannot be relied upon for revocation status. ICAO Doc 9303 Part 11 recommends treating expired CRLs with caution, as they may not reflect recent revocations.''"
| "crl_details PCS_CRL_INVALID = ''The digital signature on the CRL could not be verified against the issuing CSCA's public key. This indicates either CRL corruption or a security compromise. Per RFC 5280 Section 6.3, an invalid CRL must not be used for certificate validation.''"
| "crl_details PCS_NOT_CHECKED = ''CRL checking was skipped or could not be completed. ICAO Doc 9303 Part 11 considers CRL verification as a SHOULD requirement rather than MUST. This is acceptable in environments where CRL infrastructure is not fully deployed.''"

fun crl_severity :: "pa_crl_status \<Rightarrow> string" where
  "crl_severity PCS_VALID = ''INFO''"
| "crl_severity PCS_REVOKED = ''CRITICAL''"
| "crl_severity PCS_CRL_UNAVAILABLE = ''WARNING''"
| "crl_severity PCS_CRL_EXPIRED = ''WARNING''"
| "crl_severity PCS_CRL_INVALID = ''CRITICAL''"
| "crl_severity PCS_NOT_CHECKED = ''INFO''"

fun crl_message :: "pa_crl_status \<Rightarrow> string" where
  "crl_message PCS_VALID = ''DSC verified - not revoked''"
| "crl_message PCS_REVOKED = ''DSC is revoked - PA verification FAILED''"
| "crl_message PCS_CRL_UNAVAILABLE = ''CRL not found - proceeding with caution''"
| "crl_message PCS_CRL_EXPIRED = ''CRL expired - revocation status uncertain''"
| "crl_message PCS_CRL_INVALID = ''CRL signature invalid - cannot verify revocation''"
| "crl_message PCS_NOT_CHECKED = ''CRL check skipped''"

declare crl_description.simps [simp del] crl_details.simps [simp del] crl_message.simps [simp del]

definition crl_texts :: "chain_validation \<Rightarrow> chain_validation" where
  "crl_texts r = (let st = cv_crlStatus r in
     r\<lparr>cv_crlStatusDescription := Some (crl_description st),
       cv_crlStatusDetailedDescription := Some (crl_details st),
       cv_crlStatusSeverity := crl_severity st, cv_crlMessage := Some (crl_message st)\<rparr>)"

definition overall :: "chain_validation \<Rightarrow> chain_validation" where
  "overall r =
     r\<lparr>cv_valid := (cv_signatureVerified r \<and> \<not> cv_revoked r \<and> cv_validAtSigningTime r),
       cv_expirationStatus := (if \<not> cv_validAtSigningTime r then ''INVALID''
         else if cv_dscExpired r \<or> cv_cscaExpired r then ''EXPIRED'' else ''VALID''),
       cv_trustChainPath := ''DSC -> '' @ take 50 (cv_cscaSubject r), cv_trustChainDepth := 2\<rparr>"

definition caught :: "string \<Rightarrow> chain_validation \<Rightarrow> chain_validation" where
  "caught what r = r\<lparr>cv_valid := False, cv_validationErrors := Some what\<rparr>"

definition conformance_step :: "('x, 'k, 't, 'crl, 'rev, 'ext) pa_env \<Rightarrow> 'x \<Rightarrow> string
    \<Rightarrow> chain_validation \<Rightarrow> chain_validation" where
  "conformance_step E c country r =
     (case pe_conformance E c country of
        Inl what \<Rightarrow> caught what r
      | Inr i \<Rightarrow> r\<lparr>cv_dscNonConformant := ci_isNonConformant i,
          cv_pkdConformanceCode := ci_conformanceCode i, cv_pkdConformanceText := ci_conformanceText i\<rparr>)"

definition validate_with_csca :: "('x, 'k, 't, 'crl, 'rev, 'ext) pa_env \<Rightarrow> 'x \<Rightarrow> 'x \<Rightarrow> string
    \<Rightarrow> chain_validation \<Rightarrow> chain_validation" where
  "validate_with_csca E c csca country r =
     (let L = pe_ssl E; r = csca_info E c csca r in
      if cv_signatureVerified r \<and> isSelfSigned L (Some csca)
         \<and> \<not> verifyCertificateSignature L (Some csca) (Some csca)
      then self_signature_failed r
      else
        let r = extension_messages E c csca r;
            r = algorithm_messages E c r;
            r = crl_fields (crl_check L (pe_crl E) (pe_findCrl E) (pe_now E 2) (Some c) country) r;
            r = crl_texts r;
            r = overall r
        in conformance_step E c country r)"

definition validateCertificateChain :: "('x, 'k, 't, 'crl, 'rev, 'ext) pa_env \<Rightarrow> 'x option \<Rightarrow> string
    \<Rightarrow> string \<Rightarrow> chain_validation" where
  "validateCertificateChain E dscCert countryCode signingTime =
     (case dscCert of
        None \<Rightarrow> createInvalid ''DSC certificate is null''
      | Some c \<Rightarrow>
          let r = dsc_info E c chain_validation0;
              r = point_in_time E c signingTime r;
              country = effective_country countryCode (cv_dscIssuer r);
              r = r\<lparr>cv_countryCode := country\<rparr>
          in case pe_findAllCscas E country of
               Inl what \<Rightarrow> caught what r
             | Inr cscas \<Rightarrow>
                 if cscas = [] then no_csca ''CSCA_NOT_FOUND'' r
                 else (case pick_csca (pe_ssl E) c (cv_dscIssuer r) cscas of
                         None \<Rightarrow> no_csca ''CSCA_DN_MISMATCH'' r
                       | Some csca \<Rightarrow> validate_with_csca E c csca country r))"

definition pa_buildTrustChain :: "('x, 'k, 't) openssl \<Rightarrow> (string \<Rightarrow> string \<Rightarrow> 'x option) \<Rightarrow> 'x \<Rightarrow> string
    \<Rightarrow> 'x list" where
  "pa_buildTrustChain L findCsca dsc countryCode =
     (case findCsca (getIssuerDn L (Some dsc)) countryCode of None \<Rightarrow> [dsc] | Some csca \<Rightarrow> [dsc, csca])"

section \<open>When a chain is valid\<close>

lemmas pa_step_defs = extension_messages_def algorithm_messages_def crl_fields_def crl_texts_def
  csca_info_def overall_def self_signature_failed_def no_csca_def caught_def

lemma map_crl_status_iff [simp]:
  "map_crl_status s = PCS_REVOKED \<longleftrightarrow> s = CRL_REVOKED"
  "map_crl_status s = PCS_NOT_CHECKED \<longleftrightarrow> s = CRL_NOT_CHECKED"
  by (cases s; simp)+

lemma step_sel [simp]:
  "cv_signatureVerified (extension_messages E c csca r) = cv_signatureVerified r"
  "cv_validAtSigningTime (extension_messages E c csca r) = cv_validAtSigningTime r"
  "cv_dscExpired (extension_messages E c csca r) = cv_dscExpired r"
  "cv_signatureVerified (algorithm_messages E c r) = cv_signatureVerified r"
  "cv_validAtSigningTime (algorithm_messages E c r) = cv_validAtSigningTime r"
  "cv_dscExpired (algorithm_messages E c r) = cv_dscExpired r"
  "cv_signatureVerified (crl_fields k r) = cv_signatureVerified r"
  "cv_validAtSigningTime (crl_fields k r) = cv_validAtSigningTime r"
  "cv_revoked (crl_fields k r) = (cc_status k = CRL_REVOKED)"
  "cv_signatureVerified (crl_texts r) = cv_signatureVerified r"
  "cv_validAtSigningTime (crl_texts r) = cv_validAtSigningTime r"
  "cv_revoked (crl_texts r) = cv_revoked r"
  "cv_valid (overall r) = (cv_signatureVerified r \<and> \<not> cv_revoked r \<and> cv_validAtSigningTime r)"
  "\<not> cv_valid (self_signature_failed r)" "\<not> cv_valid (no_csca code r)" "\<not> cv_valid (caught what r)"
  "cv_signatureVerified (csca_info E c csca r) = verifyCertificateSignature (pe_ssl E) (Some c) (Some csca)"
  "cv_validAtSigningTime (csca_info E c csca r) = cv_validAtSigningTime r"
  by (simp_all add: pa_step_defs Let_def)

lemma conformance_ok [simp]:
  "pe_conformance E c country = Inr i \<Longrightarrow> cv_valid (conformance_step E c country r) = cv_valid r"
  by (simp add: conformance_step_def)

lemma point_in_time_sel [simp]:
  "cv_dscIssuer (point_in_time E c st r) = cv_dscIssuer r"
  "cv_validAtSigningTime (point_in_time E c st r) =
     (if st = [] then cv_validAtSigningTime r else
       case parse_signing_time st of None \<Rightarrow> cv_validAtSigningTime r | Some t \<Rightarrow> valid_at (pe_ssl E) c t)"
  by (simp_all add: point_in_time_def Let_def split: option.split)

lemma dsc_info_sel [simp]:
  "cv_dscIssuer (dsc_info E c r) = getIssuerDn (pe_ssl E) (Some c)"
  "cv_validAtSigningTime (dsc_info E c r) = cv_validAtSigningTime r"
  by (simp_all add: dsc_info_def Let_def)

lemma chain_validation0_sel [simp]: "cv_validAtSigningTime chain_validation0"
  by (simp add: chain_validation0_def)

definition signing_time_ok :: "('x, 'k, 't) openssl \<Rightarrow> 'x \<Rightarrow> string \<Rightarrow> bool" where
  "signing_time_ok L c st =
     (st = [] \<or> (case parse_signing_time st of None \<Rightarrow> True | Some t \<Rightarrow> valid_at L c t))"

definition verified_csca :: "('x, 'k, 't) openssl \<Rightarrow> 'x \<Rightarrow> 'x \<Rightarrow> bool" where
  "verified_csca L c x = (issuer_match L (getIssuerDn L (Some c)) x
     \<and> verifyCertificateSignature L (Some c) (Some x))"

lemma find_SomeD: "find P xs = Some x \<Longrightarrow> x \<in> set xs \<and> P x"
  by (induction xs) (auto split: if_splits)

lemma pick_csca_verified:
  "pick_csca L c (getIssuerDn L (Some c)) cscas = Some x \<Longrightarrow>
     find (verified_csca L c) cscas
       = (if verifyCertificateSignature L (Some c) (Some x) then Some x else None)"
proof -
  let ?m = "issuer_match L (getIssuerDn L (Some c))"
  have eq: "(\<lambda>x. ?m x \<and> verifyCertificateSignature L (Some c) (Some x)) = verified_csca L c"
    by (intro ext) (simp add: verified_csca_def)
  assume pick: "pick_csca L c (getIssuerDn L (Some c)) cscas = Some x"
  show ?thesis
  proof (cases "find (verified_csca L c) cscas")
    case None
    then have no: "\<forall>y \<in> set cscas. \<not> verified_csca L c y" by (auto simp: find_None_iff)
    from pick None have "find ?m cscas = Some x" by (simp add: pick_csca_def eq)
    with find_SomeD [OF this] no None show ?thesis by (auto simp: verified_csca_def)
  next
    case (Some y)
    with pick find_SomeD [OF Some] show ?thesis by (auto simp: pick_csca_def eq verified_csca_def)
  qed
qed

lemma pick_csca_None:
  "pick_csca L c (getIssuerDn L (Some c)) cscas = None \<Longrightarrow> find (verified_csca L c) cscas = None"
  by (auto simp: pick_csca_def find_None_iff verified_csca_def split: option.splits)

lemma validate_with_csca_valid:
  "pe_conformance E c country = Inr i \<Longrightarrow>
   cv_valid (validate_with_csca E c csca country r) \<longleftrightarrow>
     verifyCertificateSignature (pe_ssl E) (Some c) (Some csca)
     \<and> (isSelfSigned (pe_ssl E) (Some csca) \<longrightarrow> verifyCertificateSignature (pe_ssl E) (Some csca) (Some csca))
     \<and> cc_status (crl_check (pe_ssl E) (pe_crl E) (pe_findCrl E) (pe_now E 2) (Some c) country) \<noteq> CRL_REVOKED
     \<and> cv_validAtSigningTime r"
  by (auto simp: validate_with_csca_def Let_def)

lemma chain_valid_iff:
  assumes "country = effective_country countryCode (getIssuerDn (pe_ssl E) (Some c))"
    and "pe_conformance E c country = Inr info"
  shows "cv_valid (validateCertificateChain E (Some c) countryCode signingTime) \<longleftrightarrow>
    (\<exists>cscas csca. pe_findAllCscas E country = Inr cscas
       \<and> find (verified_csca (pe_ssl E) c) cscas = Some csca
       \<and> (isSelfSigned (pe_ssl E) (Some csca) \<longrightarrow>
            verifyCertificateSignature (pe_ssl E) (Some csca) (Some csca)))
    \<and> cc_status (crl_check (pe_ssl E) (pe_crl E) (pe_findCrl E) (pe_now E 2) (Some c) country)
        \<noteq> CRL_REVOKED
    \<and> signing_time_ok (pe_ssl E) c signingTime"
proof -
  define L where "L = pe_ssl E"
  define r where "r = point_in_time E c signingTime (dsc_info E c chain_validation0)"
  have r: "cv_dscIssuer r = getIssuerDn L (Some c)"
    "cv_validAtSigningTime r = signing_time_ok L c signingTime"
    by (simp_all add: r_def L_def signing_time_ok_def split: option.splits)
  have v: "validateCertificateChain E (Some c) countryCode signingTime =
      (case pe_findAllCscas E country of
         Inl what \<Rightarrow> caught what (r\<lparr>cv_countryCode := country\<rparr>)
       | Inr cscas \<Rightarrow>
           if cscas = [] then no_csca ''CSCA_NOT_FOUND'' (r\<lparr>cv_countryCode := country\<rparr>)
           else (case pick_csca L c (getIssuerDn L (Some c)) cscas of
                   None \<Rightarrow> no_csca ''CSCA_DN_MISMATCH'' (r\<lparr>cv_countryCode := country\<rparr>)
                 | Some csca \<Rightarrow> validate_with_csca E c csca country (r\<lparr>cv_countryCode := country\<rparr>)))"
    by (simp add: validateCertificateChain_def Let_def r_def assms(1) L_def
        split: sum.split option.split)
  show ?thesis
  proof (cases "pe_findAllCscas E country")
    case (Inl what)
    then show ?thesis by (simp add: v)
  next
    case (Inr cscas)
    show ?thesis
    proof (cases "pick_csca L c (getIssuerDn L (Some c)) cscas")
      case None
      with pick_csca_None [OF None] Inr show ?thesis by (simp add: v L_def)
    next
      case (Some csca)
      then have "cscas \<noteq> []" by (auto simp: pick_csca_def)
      with Inr Some have "validateCertificateChain E (Some c) countryCode signingTime
          = validate_with_csca E c csca country (r\<lparr>cv_countryCode := country\<rparr>)"
        by (simp add: v)
      moreover note validate_with_csca_valid [OF assms(2), of csca "r\<lparr>cv_countryCode := country\<rparr>"]
        pick_csca_verified [OF Some]
      ultimately show ?thesis using Inr by (auto simp: L_def [symmetric] r(2))
    qed
  qed
qed

text \<open>C4. The chain step of Passive Authentication accepts a DSC exactly when the first CSCA
  of its country with its issuer's DN and a key that verifies its signature exists, that CSCA
  verifies itself if it is self-signed, the CRL does not list the DSC, and the DSC was valid at the
  signing time if there is a readable one.  Expiry of either certificate plays no part, nor does a
  missing or outdated CRL.\<close>

theorem pa_chain_valid_iff:
  assumes "country = effective_country countryCode (getIssuerDn (pe_ssl E) (Some c))"
    and "pe_conformance E c country = Inr info"
  shows "cv_valid (validateCertificateChain E (Some c) countryCode signingTime) \<longleftrightarrow>
    (\<exists>cscas csca. pe_findAllCscas E country = Inr cscas
       \<and> find (verified_csca (pe_ssl E) c) cscas = Some csca
       \<and> (isSelfSigned (pe_ssl E) (Some csca) \<longrightarrow>
            verifyCertificateSignature (pe_ssl E) (Some csca) (Some csca)))
    \<and> cc_status (crl_check (pe_ssl E) (pe_crl E) (pe_findCrl E) (pe_now E 2) (Some c) country)
        \<noteq> CRL_REVOKED
    \<and> signing_time_ok (pe_ssl E) c signingTime"
  by (rule chain_valid_iff [OF assms])

definition demo_pa_env :: "(nat, nat, int, nat list, int, int) pa_env" where
  "demo_pa_env = \<lparr>pe_ssl = demo_pki, pe_crl = demo_crl_ssl, pe_findCrl = (\<lambda>_. None),
     pe_findAllCscas = (\<lambda>_. Inr [1, 2]),
     pe_conformance = (\<lambda>_ _. Inr \<lparr>ci_isNonConformant = False, ci_conformanceCode = [],
       ci_conformanceText = []\<rparr>), pe_now = (\<lambda>_. 50)\<rparr>"

lemma demo_chain_valid:
  "cv_valid (validateCertificateChain demo_pa_env (Some 0) ''KR'' [])"
proof -
  have "pe_conformance demo_pa_env 0 ''KR'' = Inr \<lparr>ci_isNonConformant = False, ci_conformanceCode = [],
       ci_conformanceText = []\<rparr>" by (simp add: demo_pa_env_def)
  note iff = chain_valid_iff [of "''KR''" "''KR''" demo_pa_env 0, OF _ this, of "[]"]
  show ?thesis
    by (subst iff)
      (simp_all add: demo_pa_env_def effective_country_def verified_csca_def issuer_match_def
        signing_time_ok_def crl_check_def crl_check_result0_def)
qed

lemma pa_chain_valid_iff_witness:
  "cv_valid (validateCertificateChain demo_pa_env (Some 0) ''KR'' [])"
proof -
  have "pe_conformance demo_pa_env 0 ''KR'' = Inr \<lparr>ci_isNonConformant = False, ci_conformanceCode = [],
       ci_conformanceText = []\<rparr>" by (simp add: demo_pa_env_def)
  note iff = pa_chain_valid_iff [of "''KR''" "''KR''" demo_pa_env 0, OF _ this, of "[]"]
  show ?thesis
    by (subst iff)
      (simp_all add: demo_pa_env_def effective_country_def verified_csca_def issuer_match_def
        signing_time_ok_def crl_check_def crl_check_result0_def)
qed

section \<open>The signing time round trip\<close>

lemma sscanf_field:
  assumes "0 \<le> v" "\<not> digit_val c < 10"
  shows "sscanf_ints (c # seps) (pad0 w (int_dec v) @ c # r) = v # sscanf_ints seps r"
  using assms by (subst sscanf_ints.simps) (simp add: scan_padded)

lemma sscanf_last:
  assumes "0 \<le> v" "\<not> digit_val c < 10"
  shows "sscanf_ints [] (pad0 w (int_dec v) @ c # r) = [v]"
  using assms by (subst sscanf_ints.simps) (simp add: scan_padded)

definition tm_plain :: "tm \<Rightarrow> bool" where
  "tm_plain t = (- 1900 \<le> tm_year t \<and> - 1 \<le> tm_mon t \<and> 0 \<le> tm_mday t \<and> 0 \<le> tm_hour t
     \<and> 0 \<le> tm_min t \<and> 0 \<le> tm_sec t)"

text \<open>The format of \<^verbatim>\<open>strftime\<close> and of \<^verbatim>\<open>snprintf\<close>, whatever width the
  numbers are padded to.\<close>

definition padded_time :: "nat \<Rightarrow> nat \<Rightarrow> tm \<Rightarrow> string" where
  "padded_time wy w t =
     pad0 wy (int_dec (tm_year t + 1900)) @ ''-'' @ pad0 w (int_dec (tm_mon t + 1)) @ ''-''
       @ pad0 w (int_dec (tm_mday t)) @ ''T'' @ pad0 w (int_dec (tm_hour t)) @ '':''
       @ pad0 w (int_dec (tm_min t)) @ '':'' @ pad0 w (int_dec (tm_sec t)) @ ''Z''"

lemma iso8601_of_tm_padded: "iso8601_of_tm t = padded_time 0 2 t"
proof -
  have "int_dec v = pad0 0 (int_dec v)" for v by (simp add: pad0_def)
  then show ?thesis by (simp add: iso8601_of_tm_def padded_time_def)
qed

lemma padded_time_no_nul: "CHR 0x00 \<notin> set (padded_time wy w t)"
proof -
  have n: "\<not> c_isdigit (CHR 0x00)" by code_simp
  then have "CHR 0x00 \<notin> set (int_dec v)" for v using int_dec_chars [of v] by fastforce
  then show ?thesis by (auto simp: padded_time_def pad0_def)
qed

lemma parse_padded_time:
  assumes "tm_plain t"
  shows "parse_signing_time (padded_time wy w t) = Some (timegm t)"
proof -
  have dv: "\<not> digit_val (CHR ''-'') < 10" "\<not> digit_val (CHR ''T'') < 10" "\<not> digit_val (CHR '':'') < 10"
    "\<not> digit_val (CHR ''Z'') < 10" by code_simp+
  have "sscanf_ints ''--T::'' (padded_time wy w t) = [tm_year t + 1900, tm_mon t + 1, tm_mday t,
      tm_hour t, tm_min t, tm_sec t]"
    using assms unfolding padded_time_def tm_plain_def
    by (simp add: sscanf_field sscanf_last dv)
  then show ?thesis
    by (simp add: parse_signing_time_def c_str_id padded_time_no_nul nth_field_def timegm_def)
qed

end
