(* ===== verification/Dg_Parser.thy ===== *)
theory Dg_Parser
  imports Interfaces
begin

unbundle bit_operations_syntax

text \<open>
  \<^verbatim>\<open>shared/lib/icao9303/dg_parser.cpp\<close>: the data groups of a travel document.
  DG1 holds the machine readable zone (TD3, TD2 or TD1), DG2 a face image.  Reads of the
  input buffers are explicit: \<open>Past_End\<close> is a read outside the vector (the sources use
  \<^verbatim>\<open>operator[]\<close>), \<open>Throws\<close> an exception.  Digest, Base64 and JPEG 2000 conversion
  are library functions and parameters here.
\<close>

datatype 'a outcome = Val 'a | Past_End | Throws exn

definition of_res :: "'a res \<Rightarrow> 'a outcome" where
  "of_res r = (case r of Inl e \<Rightarrow> Throws e | Inr v \<Rightarrow> Val v)"

text \<open>\<^verbatim>\<open>data.size() - k\<close> in \<^verbatim>\<open>size_t\<close>.\<close>

definition size_minus :: "'a list \<Rightarrow> nat \<Rightarrow> nat" where
  "size_minus xs k = unat (word_of_nat (length xs) - word_of_nat k :: size)"

text \<open>A conjunction \<^verbatim>\<open>d[i] == b0 && d[i+1] == b1 && ...\<close>, evaluated from the left.\<close>

fun bytes_at :: "byte list \<Rightarrow> nat \<Rightarrow> byte list \<Rightarrow> bool outcome" where
  "bytes_at d i [] = Val True"
| "bytes_at d i (b # bs) =
     (if i < length d then (if d ! i = b then bytes_at d (Suc i) bs else Val False) else Past_End)"

definition int32_of_nat :: "nat \<Rightarrow> int" where
  "int32_of_nat n = sint (word_of_nat n :: 32 word)"

section \<open>Helpers\<close>

definition ws4 :: string where
  "ws4 = [CHR '' '', CHR 0x09, CHR 0x0A, CHR 0x0D]"

definition mrz_trim :: "string \<Rightarrow> string" where
  "mrz_trim str = (case (find_first_not_of str ws4 0, find_last_not_of str ws4) of
     (Some s, Some e) \<Rightarrow> take (e - s + 1) (drop s str)
   | _ \<Rightarrow> [])"

definition convert_date :: "int \<Rightarrow> string \<Rightarrow> string res" where
  "convert_date pivot yymmdd =
     (if length yymmdd \<noteq> 6 then Inr yymmdd
      else
        (case stoi 10 (take 2 yymmdd) of
           Inl e \<Rightarrow> Inl e
         | Inr year \<Rightarrow>
             let month = take 2 (drop 2 yymmdd); day = take 2 (drop 4 yymmdd);
                 fullYear = (if year \<le> pivot then 2000 + year else 1900 + year)
             in Inr (int_dec fullYear @ ''-'' @ month @ ''-'' @ day)))"

definition convertMrzDate :: "string \<Rightarrow> string res" where
  "convertMrzDate = convert_date 23"

definition convertMrzExpiryDate :: "string \<Rightarrow> string res" where
  "convertMrzExpiryDate = convert_date 49"

definition cleanMrzField :: "string \<Rightarrow> string" where
  "cleanMrzField s = rev (dropWhile (\<lambda>c. c = CHR ''<'') (rev s))"

definition fill_to_space :: "string \<Rightarrow> string" where
  "fill_to_space s = map (\<lambda>c. if c = CHR ''<'' then CHR '' '' else c) s"

definition field :: "string \<Rightarrow> nat \<Rightarrow> nat \<Rightarrow> string" where
  "field s pos n = take n (drop pos s)"

text \<open>The sources' \<^verbatim>\<open>substr\<close> calls on MRZ lines never start past the end (the lengths are
  checked first), so \<open>field\<close> is \<^verbatim>\<open>substr\<close>; lemma \<open>field_substr\<close>.\<close>

lemma field_substr: "pos \<le> length s \<Longrightarrow> substr s pos n = Inr (field s pos n)"
  by (simp add: substr_def field_def)

text \<open>The two names of the first line.\<close>

definition names_double :: "string \<Rightarrow> nat \<Rightarrow> string \<times> string" where
  "names_double line1 nameEnd =
     (mrz_trim (fill_to_space (field line1 5 (nameEnd - 5))),
      mrz_trim (fill_to_space (drop (nameEnd + 2) line1)))"

definition td3_names :: "string \<Rightarrow> string \<times> string" where
  "td3_names line1 =
     (case str_find line1 ''<<'' 5 of
        Some nameEnd \<Rightarrow> names_double line1 nameEnd
      | None \<Rightarrow> (case str_find line1 ''<'' 5 of
                  Some nameEnd \<Rightarrow> (mrz_trim (field line1 5 (nameEnd - 5)), [])
                | None \<Rightarrow> ([], [])))"

definition td2_names :: "string \<Rightarrow> string \<times> string" where
  "td2_names line1 =
     (case str_find line1 ''<<'' 5 of
        Some nameEnd \<Rightarrow> names_double line1 nameEnd
      | None \<Rightarrow> ([], []))"

section \<open>The MRZ formats\<close>

definition td3_full_name :: "string \<Rightarrow> string \<Rightarrow> string" where
  "td3_full_name surname given =
     (if surname \<noteq> [] \<and> given \<noteq> [] then surname @ '' '' @ given
      else if surname \<noteq> [] then surname else given)"

definition parseMrzTd3 :: "string \<Rightarrow> json res" where
  "parseMrzTd3 mrz =
     (let line1 = field mrz 0 44; line2 = field mrz 44 44;
          (surname, given) = td3_names line1;
          dobRaw = field line2 13 6; expiryRaw = field line2 21 6
      in case convertMrzDate dobRaw of Inl e \<Rightarrow> Inl e
         | Inr dob \<Rightarrow>
             (case convertMrzExpiryDate expiryRaw of Inl e \<Rightarrow> Inl e
              | Inr expiry \<Rightarrow> Inr (jobj
                 [(''mrzLine1'', JStr line1), (''mrzLine2'', JStr line2), (''mrzFull'', JStr mrz),
                  (''documentType'', JStr (cleanMrzField (field line1 0 2))),
                  (''issuingCountry'', JStr (field line1 2 3)),
                  (''surname'', JStr surname), (''givenNames'', JStr given),
                  (''fullName'', JStr (td3_full_name surname given)),
                  (''documentNumber'', JStr (cleanMrzField (field line2 0 9))),
                  (''documentNumberCheckDigit'', JStr (field line2 9 1)),
                  (''nationality'', JStr (field line2 10 3)),
                  (''dateOfBirth'', JStr dob), (''dateOfBirthRaw'', JStr dobRaw),
                  (''dateOfBirthCheckDigit'', JStr (field line2 19 1)),
                  (''sex'', JStr (field line2 20 1)),
                  (''dateOfExpiry'', JStr expiry), (''dateOfExpiryRaw'', JStr expiryRaw),
                  (''dateOfExpiryCheckDigit'', JStr (field line2 27 1)),
                  (''optionalData1'', JStr (cleanMrzField (field line2 28 14))),
                  (''compositeCheckDigit'', JStr (field line2 43 1)),
                  (''success'', JBool True)])))"

definition parseMrzTd2 :: "string \<Rightarrow> json res" where
  "parseMrzTd2 mrz =
     (let line1 = field mrz 0 36; line2 = field mrz 36 36;
          (surname, given) = td2_names line1
      in case convertMrzDate (field line2 13 6) of Inl e \<Rightarrow> Inl e
         | Inr dob \<Rightarrow>
             (case convertMrzExpiryDate (field line2 21 6) of Inl e \<Rightarrow> Inl e
              | Inr expiry \<Rightarrow> Inr (jobj
                 [(''mrzLine1'', JStr line1), (''mrzLine2'', JStr line2), (''mrzFull'', JStr mrz),
                  (''documentType'', JStr (cleanMrzField (field line1 0 2))),
                  (''issuingCountry'', JStr (field line1 2 3)),
                  (''surname'', JStr surname), (''givenNames'', JStr given),
                  (''fullName'', JStr (if surname \<noteq> [] then surname @ '' '' @ given else given)),
                  (''documentNumber'', JStr (cleanMrzField (field line2 0 9))),
                  (''nationality'', JStr (field line2 10 3)),
                  (''dateOfBirth'', JStr dob), (''dateOfBirthRaw'', JStr (field line2 13 6)),
                  (''sex'', JStr (field line2 20 1)),
                  (''dateOfExpiry'', JStr expiry), (''dateOfExpiryRaw'', JStr (field line2 21 6)),
                  (''success'', JBool True)])))"

definition parseMrzTd1 :: "string \<Rightarrow> json res" where
  "parseMrzTd1 mrz =
     (let base = [(''mrzFull'', JStr mrz), (''documentType'', JStr (cleanMrzField (field mrz 0 2))),
            (''issuingCountry'', JStr (field mrz 2 3)),
            (''documentNumber'', JStr (cleanMrzField (field mrz 5 9)))];
          done = [(''success'', JBool True)]
      in if 60 \<le> length mrz then
           (case convertMrzDate (field mrz 30 6) of Inl e \<Rightarrow> Inl e
            | Inr dob \<Rightarrow>
                (case convertMrzExpiryDate (field mrz 38 6) of Inl e \<Rightarrow> Inl e
                 | Inr expiry \<Rightarrow> Inr (jobj (base @
                    [(''dateOfBirth'', JStr dob), (''dateOfBirthRaw'', JStr (field mrz 30 6)),
                     (''sex'', JStr (field mrz 37 1)),
                     (''dateOfExpiry'', JStr expiry), (''dateOfExpiryRaw'', JStr (field mrz 38 6)),
                     (''nationality'', JStr (field mrz 45 3))] @ done))))
         else Inr (jobj (base @ done)))"

text \<open>The choice by length, shared by \<^verbatim>\<open>parseDg1\<close> and \<^verbatim>\<open>parseMrzText\<close>.\<close>

definition parse_by_length :: "string \<Rightarrow> string \<Rightarrow> json res" where
  "parse_by_length what mrz =
     (if 88 \<le> length mrz then parseMrzTd3 mrz
      else if 72 \<le> length mrz then parseMrzTd2 mrz
      else if 30 \<le> length mrz then parseMrzTd1 mrz
      else Inr (jobj [(''success'', JBool False),
        (''error'', JStr (what @ '' too short or invalid format (length: '' @ nat_dec (length mrz) @ '')''))]))"

definition parseMrzText :: "string \<Rightarrow> json res" where
  "parseMrzText mrzText =
     parse_by_length ''MRZ text'' (filter (\<lambda>c. c \<noteq> CHR 0x0A \<and> c \<noteq> CHR 0x0D) mrzText)"

section \<open>DG1\<close>

text \<open>\<^verbatim>\<open>mrzLen = (mrzLen << 8) | dg1Data[i++]\<close>, at most \<open>n\<close> times and not past the end.\<close>

fun long_length :: "byte list \<Rightarrow> nat \<Rightarrow> nat \<Rightarrow> size \<Rightarrow> nat \<times> size" where
  "long_length d i 0 len = (i, len)"
| "long_length d i (Suc n) len =
     (if i < length d then long_length d (Suc i) n (push_bit 8 len OR ucast (d ! i)) else (i, len))"

text \<open>The value after a tag that ends before \<open>i\<close>: the bound is checked in \<^verbatim>\<open>size_t\<close>, so a
  sum that wraps passes it and the string constructor throws.\<close>

definition dg1_value :: "byte list \<Rightarrow> nat \<Rightarrow> string outcome" where
  "dg1_value d i =
     (if length d \<le> i then Past_End
      else
        let b = d ! i;
            (i, len) = (if 0x80 < b then long_length d (Suc i) (unat (b AND 0x7F)) 0
                        else (Suc i, ucast b))
        in if (word_of_nat i :: size) + len \<le> word_of_nat (length d) then
             (if i + unat len \<le> length d
              then Val (map char_of_byte (take (unat len) (drop i d)))
              else Throws Length_Error)
           else Val [])"

function dg1_mrz :: "byte list \<Rightarrow> nat \<Rightarrow> string outcome" where
  "dg1_mrz d i =
     (if i < size_minus d 2 then
        (if length d \<le> i then Past_End
         else
           (case bytes_at d i [0x5F, 0x1F] of
              Val True \<Rightarrow> dg1_value d (i + 2)
            | Val False \<Rightarrow> dg1_mrz d (Suc i)
            | Past_End \<Rightarrow> Past_End
            | Throws e \<Rightarrow> Throws e))
      else Val [])"
  by pat_completeness auto
termination by (relation "measure (\<lambda>(d, i). length d - i)") auto

declare dg1_mrz.simps [simp del]

definition parseDg1 :: "byte list \<Rightarrow> json outcome" where
  "parseDg1 d =
     (case dg1_mrz d 0 of
        Val mrz \<Rightarrow>
          if mrz = [] then Val (jobj [(''success'', JBool False),
            (''error'', JStr ''Failed to extract MRZ from DG1'')])
          else of_res (parse_by_length ''MRZ data'' mrz)
      | Past_End \<Rightarrow> Past_End
      | Throws e \<Rightarrow> Throws e)"

section \<open>DG2\<close>

text \<open>The end marker FF D9 of a JPEG, searched from \<open>j\<close>; the slice ends after it.\<close>

function jpeg_end :: "byte list \<Rightarrow> nat \<Rightarrow> nat option outcome" where
  "jpeg_end d j =
     (if j < size_minus d 1 then
        (if length d \<le> j then Past_End
         else
           (case bytes_at d j [0xFF, 0xD9] of
              Val True \<Rightarrow> Val (Some (j + 2))
            | Val False \<Rightarrow> jpeg_end d (Suc j)
            | Past_End \<Rightarrow> Past_End
            | Throws e \<Rightarrow> Throws e))
      else Val None)"
  by pat_completeness auto
termination by (relation "measure (\<lambda>(d, j). length d - j)") auto

declare jpeg_end.simps [simp del]

definition jp2_at :: "byte list \<Rightarrow> nat \<Rightarrow> bool outcome" where
  "jp2_at d i = (if i < size_minus d 8 then bytes_at d i [0x00, 0x00, 0x00, 0x0C] else Val False)"

text \<open>The image search: format and data of the first image.  A JPEG start without an end
  marker sets the format and goes on.\<close>

function dg2_image :: "byte list \<Rightarrow> nat \<Rightarrow> (string \<times> byte list) option outcome" where
  "dg2_image d i =
     (if i < size_minus d 3 then
        (if length d \<le> i then Past_End
         else
           (case bytes_at d i [0xFF, 0xD8, 0xFF] of
              Val True \<Rightarrow>
                (case jpeg_end d (i + 3) of
                   Val (Some e) \<Rightarrow> Val (Some (''JPEG'', take (e - i) (drop i d)))
                 | Val None \<Rightarrow> dg2_image d (Suc i)
                 | Past_End \<Rightarrow> Past_End
                 | Throws x \<Rightarrow> Throws x)
            | Val False \<Rightarrow>
                (case jp2_at d i of
                   Val True \<Rightarrow> Val (Some (''JPEG2000'', drop i d))
                 | Val False \<Rightarrow> dg2_image d (Suc i)
                 | Past_End \<Rightarrow> Past_End
                 | Throws x \<Rightarrow> Throws x)
            | Past_End \<Rightarrow> Past_End
            | Throws x \<Rightarrow> Throws x))
      else Val None)"
  by pat_completeness auto
termination by (relation "measure (\<lambda>(d, i). length d - i)") auto

declare dg2_image.simps [simp del]

text \<open>\<open>convert\<close> is \<^verbatim>\<open>convertJp2ToJpeg\<close> in a build with OpenJPEG; without it the raw
  data are returned, as when the conversion fails (\<open>convert\<close> gives no bytes).\<close>

definition display_data :: "(byte list \<Rightarrow> byte list) \<Rightarrow> string \<Rightarrow> byte list \<Rightarrow> string \<times> byte list" where
  "display_data convert fmt img =
     (if fmt = ''JPEG'' then (''image/jpeg'', img)
      else let j = convert img in if j \<noteq> [] then (''image/jpeg'', j) else (''image/jp2'', img))"

definition parseDg2 :: "(byte list \<Rightarrow> byte list) \<Rightarrow> (byte list \<Rightarrow> string) \<Rightarrow> byte list \<Rightarrow> json outcome" where
  "parseDg2 convert base64Encode d =
     (case dg2_image d 0 of
        Past_End \<Rightarrow> Past_End
      | Throws e \<Rightarrow> Throws e
      | Val None \<Rightarrow> Val (jobj [(''success'', JBool True), (''dg2Size'', JInt (int32_of_nat (length d))),
          (''success'', JBool False), (''error'', JStr ''No valid face image found in DG2 data''),
          (''message'', JStr ''Could not extract JPEG/JPEG2000 image from biometric template'')])
      | Val (Some (fmt, img)) \<Rightarrow>
          let (mime, shown) = display_data convert fmt img;
              face = jobj [(''imageDataUrl'', JStr (''data:'' @ mime @ '';base64,'' @ base64Encode shown)),
                (''imageFormat'', JStr fmt), (''imageSize'', JInt (int32_of_nat (length img))),
                (''imageType'', JStr ''ICAO Face'')]
          in Val (jobj [(''success'', JBool True), (''dg2Size'', JInt (int32_of_nat (length d))),
               (''faceImages'', JArr [face]), (''faceCount'', JInt 1),
               (''message'', JStr ''Face image extracted successfully from DG2''),
               (''imageFormat'', JStr fmt)]))"

section \<open>Hashes\<close>

datatype md = MD_SHA1 | MD_SHA256 | MD_SHA384 | MD_SHA512

definition md_of_name :: "string \<Rightarrow> md option" where
  "md_of_name a =
     (if a = ''SHA-1'' \<or> a = ''SHA1'' then Some MD_SHA1
      else if a = ''SHA-256'' \<or> a = ''SHA256'' then Some MD_SHA256
      else if a = ''SHA-384'' \<or> a = ''SHA384'' then Some MD_SHA384
      else if a = ''SHA-512'' \<or> a = ''SHA512'' then Some MD_SHA512 else None)"

definition computeHash :: "(md \<Rightarrow> byte list \<Rightarrow> byte list) \<Rightarrow> byte list \<Rightarrow> string \<Rightarrow> string" where
  "computeHash digest d algorithm =
     (case md_of_name algorithm of None \<Rightarrow> [] | Some m \<Rightarrow> bytes_hex (digest m d))"

definition verifyDataGroupHash :: "(md \<Rightarrow> byte list \<Rightarrow> byte list) \<Rightarrow> byte list \<Rightarrow> string \<Rightarrow> string \<Rightarrow> bool" where
  "verifyDataGroupHash digest d expectedHash algorithm = (computeHash digest d algorithm = expectedHash)"

section \<open>The memory stream of the JPEG 2000 decoder\<close>

record mem_stream =
  ms_data :: "byte list"
  ms_size :: size
  ms_offset :: size

definition memStreamRead :: "size \<Rightarrow> mem_stream \<Rightarrow> (size \<times> byte list) \<times> mem_stream" where
  "memStreamRead nbBytes s =
     (if ms_size s \<le> ms_offset s then ((- 1, []), s)
      else
        let avail = ms_size s - ms_offset s;
            toRead = (if nbBytes < avail then nbBytes else avail)
        in ((toRead, take (unat toRead) (drop (unat (ms_offset s)) (ms_data s))),
            s\<lparr>ms_offset := ms_offset s + toRead\<rparr>))"

definition memStreamSkip :: "int \<Rightarrow> mem_stream \<Rightarrow> size \<times> mem_stream" where
  "memStreamSkip nbBytes s =
     (let off = (if nbBytes < 0 then
                   let back = word_of_int (- nbBytes) in
                   if ms_offset s < back then 0 else ms_offset s - back
                 else
                   let o' = ms_offset s + word_of_int nbBytes in
                   if ms_size s < o' then ms_size s else o')
      in (off, s\<lparr>ms_offset := off\<rparr>))"

definition memStreamSeek :: "int \<Rightarrow> mem_stream \<Rightarrow> bool \<times> mem_stream" where
  "memStreamSeek nbBytes s =
     (if nbBytes < 0 \<or> ms_size s < word_of_int nbBytes then (False, s)
      else (True, s\<lparr>ms_offset := word_of_int nbBytes\<rparr>))"

section \<open>Memory safety\<close>

lemma size_minus_ok: "k \<le> length d \<Longrightarrow> length d < 2 ^ 64 \<Longrightarrow> size_minus d k = length d - k"
proof -
  assume k: "k \<le> length d" and b: "length d < 2 ^ 64"
  then have "(word_of_nat (length d) - word_of_nat k :: size) = word_of_nat (length d - k)"
    by (simp add: of_nat_diff)
  moreover have "unat (word_of_nat (length d - k) :: size) = length d - k"
    using b by (simp add: unat_of_nat)
  ultimately show ?thesis by (simp add: size_minus_def)
qed

lemma bytes_at_safe: "i + length bs \<le> length d \<Longrightarrow> bytes_at d i bs = Val (take (length bs) (drop i d) = bs)"
proof (induction d i bs rule: bytes_at.induct)
  case (1 d i)
  then show ?case by simp
next
  case (2 d i b bs)
  then have "drop i d = d ! i # drop (Suc i) d" by (intro Cons_nth_drop_Suc [symmetric]) simp
  with 2 show ?case by auto
qed

declare bytes_at.simps [simp del]

lemma dg1_value_safe: "i < length d \<Longrightarrow> dg1_value d i \<noteq> Past_End"
  by (auto simp: dg1_value_def Let_def split: prod.splits)

text \<open>A scan over the positions below a bound never leaves the buffer when the bound leaves
  room for what it reads.\<close>

lemma dg1_mrz_safe:
  assumes "2 \<le> length d" "length d < 2 ^ 64"
  shows "dg1_mrz d i \<noteq> Past_End"
proof (induction "length d - i" arbitrary: i rule: less_induct)
  case less
  have sz: "size_minus d 2 = length d - 2" using assms by (rule size_minus_ok)
  show ?case
  proof (cases "i < length d - 2")
    case True
    then have "bytes_at d i [0x5F, 0x1F] = Val (take 2 (drop i d) = [0x5F, 0x1F])"
      using bytes_at_safe [of i "[0x5F, 0x1F]" d] by (simp add: numeral_2_eq_2)
    moreover have "dg1_mrz d (Suc i) \<noteq> Past_End" using less True by simp
    moreover have "dg1_value d (i + 2) \<noteq> Past_End" using True by (intro dg1_value_safe) simp
    moreover have "i < length d" using True by simp
    ultimately show ?thesis
      by (subst dg1_mrz.simps) (auto split: outcome.splits bool.splits)
  next
    case False
    then show ?thesis by (subst dg1_mrz.simps) (simp add: sz)
  qed
qed

lemma jpeg_end_safe:
  assumes "1 \<le> length d" "length d < 2 ^ 64"
  shows "jpeg_end d i \<noteq> Past_End"
proof (induction "length d - i" arbitrary: i rule: less_induct)
  case less
  have sz: "size_minus d 1 = length d - 1" using assms by (rule size_minus_ok)
  show ?case
  proof (cases "i < length d - 1")
    case True
    then have "bytes_at d i [0xFF, 0xD9] = Val (take 2 (drop i d) = [0xFF, 0xD9])"
      using bytes_at_safe [of i "[0xFF, 0xD9]" d] by (simp add: numeral_2_eq_2)
    moreover have "jpeg_end d (Suc i) \<noteq> Past_End" using less True by simp
    moreover have "i < length d" using True by simp
    ultimately show ?thesis
      by (subst jpeg_end.simps) (auto split: outcome.splits bool.splits)
  next
    case False
    then show ?thesis by (subst jpeg_end.simps) (simp add: sz [simplified])
  qed
qed

lemma jp2_at_safe:
  assumes "3 \<le> length d" "length d < 2 ^ 64" "i < length d - 3"
  shows "jp2_at d i \<noteq> Past_End"
  using bytes_at_safe [of i "[0x00, 0x00, 0x00, 0x0C]" d] assms by (simp add: jp2_at_def)

lemma dg2_image_safe:
  assumes "3 \<le> length d" "length d < 2 ^ 64"
  shows "dg2_image d i \<noteq> Past_End"
proof (induction "length d - i" arbitrary: i rule: less_induct)
  case less
  have sz: "size_minus d 3 = length d - 3" using assms by (rule size_minus_ok)
  show ?case
  proof (cases "i < length d - 3")
    case True
    then have "bytes_at d i [0xFF, 0xD8, 0xFF] = Val (take 3 (drop i d) = [0xFF, 0xD8, 0xFF])"
      using bytes_at_safe [of i "[0xFF, 0xD8, 0xFF]" d] by (simp add: eval_nat_numeral)
    moreover have "dg2_image d (Suc i) \<noteq> Past_End" using less True by (simp add: numeral_2_eq_2)
    moreover have "jpeg_end d (i + 3) \<noteq> Past_End" using assms by (intro jpeg_end_safe) simp_all
    moreover have "jp2_at d i \<noteq> Past_End" using assms True by (rule jp2_at_safe)
    moreover have "i < length d" using True by simp
    ultimately show ?thesis
      by (subst dg2_image.simps) (auto split: outcome.splits bool.splits option.splits)
  next
    case False
    then show ?thesis by (subst dg2_image.simps) (simp add: sz)
  qed
qed

lemma small_lists:
  assumes "length (d :: byte list) < 3"
  obtains "d = []" | a where "d = [a]" | a b where "d = [a, b]"
  using assms by (cases d; cases "tl d"; cases "tl (tl d)") auto

text \<open>The parsers of DG1 and DG2 read outside their input exactly for the inputs too short
  for the loop bound \<^verbatim>\<open>size() - 2\<close> or \<^verbatim>\<open>size() - 3\<close>, which wraps there; for every longer
  input each read is in bounds, whatever the length fields say.\<close>

theorem dg_parsers_bounds:
  assumes "length d < 2 ^ 64"
  shows "(parseDg1 d = Past_End \<longleftrightarrow> length d < 2) \<and> (parseDg2 cv b64 d = Past_End \<longleftrightarrow> length d < 3)"
proof
  have "parseDg1 d \<noteq> Past_End" if "2 \<le> length d"
    using dg1_mrz_safe [OF that assms, of 0] by (auto simp: parseDg1_def of_res_def split: outcome.splits sum.splits)
  moreover have "parseDg1 d = Past_End" if "length d < 2"
  proof -
    from that have "length d < 3" by simp
    then show ?thesis
      by (cases rule: small_lists)
        (use that in \<open>simp_all add: parseDg1_def dg1_mrz.simps size_minus_def bytes_at.simps
          unsigned_minus_1_eq_mask mask_eq_exp_minus_1\<close>)
  qed
  ultimately show "parseDg1 d = Past_End \<longleftrightarrow> length d < 2" by (meson not_le)
  have "parseDg2 cv b64 d \<noteq> Past_End" if "3 \<le> length d"
    using dg2_image_safe [OF that assms, of 0]
    by (auto simp: parseDg2_def Let_def split: outcome.splits option.splits prod.splits)
  moreover have "parseDg2 cv b64 d = Past_End" if "length d < 3"
    using that
    by (cases rule: small_lists)
      (simp_all add: parseDg2_def dg2_image.simps size_minus_def jp2_at_def bytes_at.simps
        unsigned_minus_1_eq_mask mask_eq_exp_minus_1)
  ultimately show "parseDg2 cv b64 d = Past_End \<longleftrightarrow> length d < 3" by (meson not_le)
qed

lemma dg_parsers_bounds_witness: "parseDg1 [] = Past_End \<and> parseDg1 [0x61, 0x00] \<noteq> Past_End"
  using dg_parsers_bounds [of "[]"] dg_parsers_bounds [of "[0x61, 0x00]"] by simp

section \<open>The machine readable zone of a passport\<close>

text \<open>The TD3 layout of ICAO Doc 9303, as an encoder: names are words joined by one filler,
  the two names separated by two, and fields filled up with \<^verbatim>\<open><\<close>.\<close>

record td3 =
  td_type :: string
  td_country :: string
  td_surname :: "string list"
  td_given :: "string list"
  td_number :: string
  td_numberCheck :: char
  td_nationality :: string
  td_birth :: string
  td_birthCheck :: char
  td_sex :: char
  td_expiry :: string
  td_expiryCheck :: char
  td_optional :: string
  td_optionalCheck :: char
  td_composite :: char

definition filled :: "nat \<Rightarrow> string \<Rightarrow> string" where
  "filled n s = s @ replicate (n - length s) (CHR ''<'')"

definition td3_line1 :: "td3 \<Rightarrow> string" where
  "td3_line1 p = filled 44 (filled 2 (td_type p) @ td_country p @ join ''<'' (td_surname p) @ ''<<''
     @ join ''<'' (td_given p))"

definition td3_line2 :: "td3 \<Rightarrow> string" where
  "td3_line2 p = filled 9 (td_number p) @ [td_numberCheck p] @ td_nationality p @ td_birth p
     @ [td_birthCheck p, td_sex p] @ td_expiry p @ [td_expiryCheck p] @ filled 14 (td_optional p)
     @ [td_optionalCheck p, td_composite p]"

definition name_word :: "string \<Rightarrow> bool" where
  "name_word w = (w \<noteq> [] \<and> CHR ''<'' \<notin> set w \<and> set w \<inter> set ws4 = {})"

definition unfilled :: "string \<Rightarrow> bool" where
  "unfilled s = (s = [] \<or> last s \<noteq> CHR ''<'')"

definition td3_ok :: "td3 \<Rightarrow> bool" where
  "td3_ok p = (length (td_type p) \<le> 2 \<and> unfilled (td_type p) \<and> length (td_country p) = 3
     \<and> td_surname p \<noteq> [] \<and> td_given p \<noteq> [] \<and> list_all name_word (td_surname p) \<and> list_all name_word (td_given p)
     \<and> length (join ''<'' (td_surname p)) + length (join ''<'' (td_given p)) \<le> 37
     \<and> length (td_number p) \<le> 9 \<and> unfilled (td_number p) \<and> length (td_nationality p) = 3
     \<and> length (td_birth p) = 6 \<and> length (td_expiry p) = 6
     \<and> length (td_optional p) \<le> 14 \<and> unfilled (td_optional p))"

lemma length_filled [simp]: "length s \<le> n \<Longrightarrow> length (filled n s) = n"
  by (simp add: filled_def)

lemma clean_filled [simp]: "unfilled s \<Longrightarrow> cleanMrzField (filled n s) = s"
proof -
  assume u: "unfilled s"
  have "dropWhile (\<lambda>c. c = CHR ''<'') (rev s) = rev s"
    using u by (cases s rule: rev_cases) (auto simp: unfilled_def)
  then show ?thesis
    by (simp add: cleanMrzField_def filled_def dropWhile_append)
qed

lemma last_index_where_snoc:
  "last_index_where P (a @ [c]) i acc = (if P c then Some (i + length a) else last_index_where P a i acc)"
  by (induction a arbitrary: i acc) auto

lemma last_index_where_skip:
  "\<forall>c \<in> set b. \<not> P c \<Longrightarrow> last_index_where P (a @ b) i acc = last_index_where P a i acc"
proof (induction b rule: rev_induct)
  case (snoc c b)
  then show ?case using last_index_where_snoc [of P "a @ b" c] by simp
qed simp

lemma mrz_trim_core:
  assumes "s \<noteq> []" "hd s \<notin> set ws4" "last s \<notin> set ws4"
  shows "mrz_trim (s @ replicate k (CHR '' '')) = s"
proof -
  obtain c cs where c: "s = c # cs" using assms(1) by (cases s) auto
  obtain ds d where d: "s = ds @ [d]" using assms(1) by (cases s rule: rev_cases) auto
  have "find_first_not_of (s @ replicate k (CHR '' '')) ws4 0 = Some 0"
    using assms(2) c by (simp add: find_first_not_of_def)
  moreover have "find_last_not_of (s @ replicate k (CHR '' '')) ws4 = Some (length s - 1)"
  proof -
    have "find_last_not_of (s @ replicate k (CHR '' '')) ws4 = find_last_not_of s ws4"
      unfolding find_last_not_of_def by (rule last_index_where_skip) (simp add: ws4_def)
    also have "\<dots> = Some (length s - 1)"
      using assms(3) d by (simp add: find_last_not_of_def last_index_where_snoc)
    finally show ?thesis .
  qed
  ultimately show ?thesis using assms(1) by (simp add: mrz_trim_def Suc_diff_le)
qed

lemma fill_word: "name_word w \<Longrightarrow> fill_to_space w = w"
  by (auto simp: fill_to_space_def name_word_def intro: map_idI)

lemma fill_join:
  "list_all name_word ws \<Longrightarrow> fill_to_space (join ''<'' ws) = join '' '' ws"
proof (induction "''<''" ws rule: join.induct)
  case (3 x y xs)
  then have "fill_to_space x = x" by (simp add: fill_word)
  with 3 show ?case by (simp add: fill_to_space_def)
qed (simp_all add: fill_word, simp add: fill_to_space_def)

lemma join_ends:
  assumes "ws \<noteq> []" "list_all name_word ws"
  shows "join sep ws \<noteq> [] \<and> hd (join sep ws) \<notin> set ws4 \<and> last (join sep ws) \<notin> set ws4
    \<and> hd (join sep ws) \<noteq> CHR ''<''"
  using assms
proof (induction sep ws rule: join.induct)
  case (1 sep)
  then show ?case by simp
next
  case (2 sep x)
  then have "x \<noteq> []" "CHR ''<'' \<notin> set x" "set x \<inter> set ws4 = {}" by (auto simp: name_word_def)
  moreover from this have "hd x \<in> set x" "last x \<in> set x" by auto
  ultimately show ?case by (metis join.simps(2) disjoint_iff)
next
  case (3 sep x y xs)
  then have x: "x \<noteq> []" "hd x \<in> set x" "CHR ''<'' \<notin> set x" "set x \<inter> set ws4 = {}"
    by (auto simp: name_word_def)
  then have "x \<noteq> []" "hd x \<notin> set ws4" "hd x \<noteq> CHR ''<''" by (metis disjoint_iff)+
  moreover have "join sep (y # xs) \<noteq> [] \<and> last (join sep (y # xs)) \<notin> set ws4" using 3 by simp
  ultimately show ?case by simp
qed

lemma trim_names:
  assumes "ws \<noteq> []" "list_all name_word ws"
  shows "mrz_trim (fill_to_space (join ''<'' ws @ replicate k (CHR ''<''))) = join '' '' ws"
proof -
  have "fill_to_space (join ''<'' ws @ replicate k (CHR ''<'')) = join '' '' ws @ replicate k (CHR '' '')"
    using fill_join [OF assms(2)] by (simp add: fill_to_space_def)
  then show ?thesis using join_ends [OF assms, of "'' ''"] by (simp add: mrz_trim_core)
qed

lemma find_double_filler:
  assumes "ws \<noteq> []" "list_all name_word ws"
  shows "find_from (join ''<'' ws @ ''<<'' @ r) ''<<'' i = Some (i + length (join ''<'' ws))"
  using assms
proof (induction "''<''" ws arbitrary: i rule: join.induct)
  case 1
  then show ?case by simp
next
  case (2 x)
  then have "find_from (x @ ''<<'' @ r) ''<<'' i = find_from (''<<'' @ r) ''<<'' (i + length x)"
    by (intro find_from_skip) (auto simp: name_word_def)
  then show ?case by simp
next
  case (3 x y xs)
  let ?rest = "join ''<'' (y # xs) @ ''<<'' @ r"
  have tail: "list_all name_word (y # xs)" using 3 by simp
  obtain c cs where c: "join ''<'' (y # xs) = c # cs" "c \<noteq> CHR ''<''"
    using join_ends [OF _ tail, of "''<''"] by (cases "join ''<'' (y # xs)") auto
  have "find_from (x @ ''<'' @ ?rest) ''<<'' i = find_from (''<'' @ ?rest) ''<<'' (i + length x)"
    using 3 by (intro find_from_skip) (auto simp: name_word_def)
  also have "\<dots> = find_from ?rest ''<<'' (Suc (i + length x))"
    using c by simp
  also have "\<dots> = Some (Suc (i + length x) + length (join ''<'' (y # xs)))"
    using 3 tail by simp
  finally show ?case by simp
qed

definition dg1_tlv :: "string \<Rightarrow> byte list" where
  "dg1_tlv mrz = [0x61, word_of_nat (length mrz + 3), 0x5F, 0x1F, word_of_nat (length mrz)]
     @ map byte_of_char mrz"

lemma dg1_mrz_tlv:
  assumes "length mrz < 128"
  shows "dg1_mrz (dg1_tlv mrz) 0 = Val mrz"
proof -
  let ?d = "dg1_tlv mrz"
  have len: "length ?d = length mrz + 5" by (simp add: dg1_tlv_def)
  have sz: "size_minus ?d 2 = length mrz + 3"
    using size_minus_ok [of 2 ?d] assms by (simp add: len)
  have hd: "take 5 ?d = [0x61, word_of_nat (length mrz + 3), 0x5F, 0x1F, word_of_nat (length mrz)]"
    by (simp add: dg1_tlv_def)
  have at: "bytes_at ?d i [0x5F, 0x1F] = Val (take 2 (drop i ?d) = [0x5F, 0x1F])" if "i < 3" for i
    using bytes_at_safe [of i "[0x5F, 0x1F]" ?d] that len by (simp add: numeral_2_eq_2)
  have m: "bytes_at ?d 0 [0x5F, 0x1F] = Val False" "bytes_at ?d (Suc 0) [0x5F, 0x1F] = Val False"
    "bytes_at ?d (Suc (Suc 0)) [0x5F, 0x1F] = Val True"
    using at [of 0] at [of "Suc 0"] at [of "Suc (Suc 0)"] by (simp_all add: dg1_tlv_def)
  have b: "unat (word_of_nat (length mrz) :: byte) = length mrz"
    using assms by (simp add: unat_of_nat)
  have u: "(ucast (word_of_nat (length mrz) :: byte) :: size) = word_of_nat (length mrz)"
    using assms by (simp add: unsigned_of_nat take_bit_nat_eq_self)
  have "\<not> 0x80 < (word_of_nat (length mrz) :: byte)"
    using b assms by (simp add: word_less_nat_alt)
  moreover have "?d ! 4 = word_of_nat (length mrz)" by (simp add: dg1_tlv_def)
  moreover have "unat (word_of_nat (length mrz) :: size) = length mrz"
    using assms by (simp add: unat_of_nat)
  moreover have "(word_of_nat 5 :: size) + word_of_nat (length mrz) = word_of_nat (length ?d)"
    by (simp add: len)
  ultimately have v: "dg1_value ?d 4 = Val (map char_of_byte (take (length mrz) (drop 5 ?d)))"
    using u len by (simp add: dg1_value_def Let_def add.commute)
  also have "take (length mrz) (drop 5 ?d) = map byte_of_char mrz" by (simp add: dg1_tlv_def)
  finally have v: "dg1_value ?d (Suc (Suc (Suc (Suc 0)))) = Val mrz" by (simp add: comp_def numeral_eq_Suc)
  show ?thesis
    by (subst dg1_mrz.simps, simp add: sz len m, subst dg1_mrz.simps, simp add: sz len m,
        subst dg1_mrz.simps, simp add: sz len m v)
qed

definition td3_mrz :: "td3 \<Rightarrow> string" where
  "td3_mrz p = td3_line1 p @ td3_line2 p"

definition jstr :: "string \<Rightarrow> json \<Rightarrow> string option" where
  "jstr k j = (case jget k j of JStr s \<Rightarrow> Some s | _ \<Rightarrow> None)"

lemma td3_lengths:
  assumes "td3_ok p"
  shows "length (td3_line1 p) = 44" "length (td3_line2 p) = 44"
  using assms by (simp_all add: td3_line1_def td3_line2_def td3_ok_def)

lemma td3_line1_names:
  assumes "td3_ok p"
  shows "td3_names (td3_line1 p) = (join '' '' (td_surname p), join '' '' (td_given p))"
proof -
  let ?sn = "join ''<'' (td_surname p)" and ?gn = "join ''<'' (td_given p)"
  let ?h = "filled 2 (td_type p) @ td_country p"
  obtain k where k: "td3_line1 p = ?h @ ?sn @ ''<<'' @ ?gn @ replicate k (CHR ''<'')"
    by (simp add: td3_line1_def filled_def)
  have h: "length ?h = 5" using assms by (simp add: td3_ok_def)
  have sn: "td_surname p \<noteq> []" "list_all name_word (td_surname p)"
    and gn: "td_given p \<noteq> []" "list_all name_word (td_given p)"
    using assms by (auto simp: td3_ok_def)
  have dr: "drop 5 (td3_line1 p) = ?sn @ ''<<'' @ ?gn @ replicate k (CHR ''<'')"
    unfolding k using h by (metis append_eq_conv_conj)
  have f: "str_find (td3_line1 p) ''<<'' 5 = Some (5 + length ?sn)"
    unfolding str_find_def dr find_double_filler [OF sn] using td3_lengths [OF assms] by simp
  have a: "field (td3_line1 p) 5 (length ?sn) = ?sn"
    by (simp add: field_def dr)
  have "drop (5 + length ?sn + 2) (td3_line1 p) = drop (length ?sn + 2) (drop 5 (td3_line1 p))"
    by (simp add: add.commute add.left_commute)
  also have "\<dots> = ?gn @ replicate k (CHR ''<'')" unfolding dr by simp
  finally have b: "drop (7 + length ?sn) (td3_line1 p) = ?gn @ replicate k (CHR ''<'')"
    by (simp add: add.commute)
  show ?thesis
    using trim_names [OF sn, of 0] trim_names [OF gn, of k]
    by (simp add: td3_names_def f names_double_def a b)
qed

lemma convert_date_digits:
  assumes "0 \<le> yy" "yy \<le> 99" "length mm = 2" "length dd = 2"
  shows "convert_date pivot (pad0 2 (int_dec yy) @ mm @ dd)
    = Inr (int_dec (if yy \<le> pivot then 2000 + yy else 1900 + yy) @ ''-'' @ mm @ ''-'' @ dd)"
proof -
  have l: "length (pad0 2 (int_dec yy)) = 2" using assms by (intro length_pad0_dec2)
  then have "take 2 (pad0 2 (int_dec yy) @ mm @ dd) = pad0 2 (int_dec yy)" by simp
  moreover have "take 2 (drop 2 (pad0 2 (int_dec yy) @ mm @ dd)) = mm"
    "take 2 (drop 4 (pad0 2 (int_dec yy) @ mm @ dd)) = dd"
    using l assms by simp_all
  moreover have "stoi 10 (pad0 2 (int_dec yy)) = Inr yy"
    using assms by (intro stoi_padded) simp_all
  ultimately show ?thesis using l assms by (simp add: convert_date_def Let_def)
qed

text \<open>A DG1 that holds a passport's machine readable zone in the TD3 layout is read back
  field by field: the names with their words separated by blanks, the document number and optional
  data without filling, the dates with the century of the rule (birth years to 23 and expiry years
  to 49 are after 2000), and success.\<close>

theorem dg1_td3_roundtrip:
  assumes ok: "td3_ok p"
    and birth: "td_birth p = pad0 2 (int_dec yb) @ bm @ bd" "0 \<le> yb" "yb \<le> 99" "length bm = 2" "length bd = 2"
    and expiry: "td_expiry p = pad0 2 (int_dec ey) @ em @ ed" "0 \<le> ey" "ey \<le> 99" "length em = 2" "length ed = 2"
  shows "\<exists>j. parseDg1 (dg1_tlv (td3_mrz p)) = Val j
    \<and> jstr ''surname'' j = Some (join '' '' (td_surname p))
    \<and> jstr ''givenNames'' j = Some (join '' '' (td_given p))
    \<and> jstr ''documentType'' j = Some (td_type p) \<and> jstr ''issuingCountry'' j = Some (td_country p)
    \<and> jstr ''documentNumber'' j = Some (td_number p)
    \<and> jstr ''documentNumberCheckDigit'' j = Some [td_numberCheck p]
    \<and> jstr ''nationality'' j = Some (td_nationality p)
    \<and> jstr ''dateOfBirth'' j
        = Some (int_dec (if yb \<le> 23 then 2000 + yb else 1900 + yb) @ ''-'' @ bm @ ''-'' @ bd)
    \<and> jstr ''sex'' j = Some [td_sex p]
    \<and> jstr ''dateOfExpiry'' j
        = Some (int_dec (if ey \<le> 49 then 2000 + ey else 1900 + ey) @ ''-'' @ em @ ''-'' @ ed)
    \<and> jstr ''optionalData1'' j = Some (td_optional p)
    \<and> jstr ''compositeCheckDigit'' j = Some [td_composite p]
    \<and> jget ''success'' j = JBool True"
proof -
  note len = td3_lengths [OF ok]
  have l1: "field (td3_mrz p) 0 44 = td3_line1 p" and l2: "field (td3_mrz p) 44 44 = td3_line2 p"
    using len by (simp_all add: field_def td3_mrz_def)
  have mlen: "length (td3_mrz p) = 88" using len by (simp add: td3_mrz_def)
  have f1: "field (td3_line1 p) 0 2 = filled 2 (td_type p)" "field (td3_line1 p) 2 3 = td_country p"
    using ok by (simp_all add: field_def td3_line1_def filled_def td3_ok_def)
  have f2: "field (td3_line2 p) 0 9 = filled 9 (td_number p)" "field (td3_line2 p) 9 1 = [td_numberCheck p]"
    "field (td3_line2 p) 10 3 = td_nationality p" "field (td3_line2 p) 13 6 = td_birth p"
    "field (td3_line2 p) 20 1 = [td_sex p]" "field (td3_line2 p) 21 6 = td_expiry p"
    "field (td3_line2 p) 28 14 = filled 14 (td_optional p)" "field (td3_line2 p) 43 1 = [td_composite p]"
    using ok by (simp_all add: field_def td3_line2_def td3_ok_def)
  have d1: "convertMrzDate (td_birth p)
      = Inr (int_dec (if yb \<le> 23 then 2000 + yb else 1900 + yb) @ ''-'' @ bm @ ''-'' @ bd)"
    (is "_ = Inr ?dob")
    using convert_date_digits [OF birth(2-5)] birth(1) by (simp add: convertMrzDate_def)
  have d2: "convertMrzExpiryDate (td_expiry p)
      = Inr (int_dec (if ey \<le> 49 then 2000 + ey else 1900 + ey) @ ''-'' @ em @ ''-'' @ ed)"
    (is "_ = Inr ?exp")
    using convert_date_digits [OF expiry(2-5)] expiry(1) by (simp add: convertMrzExpiryDate_def)
  have "td3_mrz p \<noteq> []" using mlen by auto
  then have "parseDg1 (dg1_tlv (td3_mrz p)) = of_res (parseMrzTd3 (td3_mrz p))"
    by (simp add: parseDg1_def dg1_mrz_tlv mlen parse_by_length_def)
  moreover have "unfilled (td_type p)" "unfilled (td_number p)" "unfilled (td_optional p)"
    using ok by (simp_all add: td3_ok_def)
  moreover define dob where "dob = ?dob"
  moreover define ex where "ex = ?exp"
  ultimately show ?thesis
    using d1 d2
    by (simp only: flip: dob_def ex_def)
      (simp add: parseMrzTd3_def l1 l2 f1 f2 [simplified] f2 td3_line1_names [OF ok] of_res_def
        jget_jobj jstr_def Let_def)
qed

definition demo_td3 :: td3 where
  "demo_td3 = \<lparr>td_type = ''P'', td_country = ''KOR'', td_surname = [''HONG''], td_given = [''GIL'', ''DONG''],
     td_number = ''M1234567'', td_numberCheck = CHR ''8'', td_nationality = ''KOR'',
     td_birth = ''880115'', td_birthCheck = CHR ''3'', td_sex = CHR ''M'', td_expiry = ''300331'',
     td_expiryCheck = CHR ''1'', td_optional = [], td_optionalCheck = CHR ''0'', td_composite = CHR ''4''\<rparr>"

lemma dg1_td3_roundtrip_witness:
  "\<exists>j. parseDg1 (dg1_tlv (td3_mrz demo_td3)) = Val j \<and> jstr ''givenNames'' j = Some ''GIL DONG''"
proof -
  have "td3_ok demo_td3"
    by (simp add: td3_ok_def demo_td3_def name_word_def unfilled_def ws4_def)
  moreover have "td_birth demo_td3 = pad0 2 (int_dec 88) @ ''01'' @ ''15''"
    "td_expiry demo_td3 = pad0 2 (int_dec 30) @ ''03'' @ ''31''"
    by (simp_all add: demo_td3_def pad0_def int_dec_def nat_dec.simps char_of_def bit_0)
  ultimately show ?thesis
    using dg1_td3_roundtrip [of demo_td3 88 "''01''" "''15''" 30 "''03''" "''31''"]
    by (fastforce simp: demo_td3_def)
qed

end
