(* ===== verification/Sod_Parser.thy ===== *)
theory Sod_Parser
  imports Sod_Asn1 Pa_Chain Dg_Parser
begin

text \<open>
  \<^verbatim>\<open>shared/lib/icao9303/sod_parser.cpp\<close> above the DER reader, and its result
  \<^verbatim>\<open>models/sod_data.h\<close>.  The CMS functions of OpenSSL are the record \<open>cms_ssl\<close> over
  abstract CMS structures \<open>'cms\<close> and signer infos \<open>'si\<close>; a null result is
  \<^term>\<open>None\<close>, and a failed \<^verbatim>\<open>BIO_new_mem_buf\<close>, which every function treats as a
  structure that does not parse, is part of \<open>d2i_CMS\<close>.
\<close>

section \<open>CMS\<close>

datatype cms_flag = CMS_NO_SIGNER_CERT_VERIFY | CMS_NO_ATTR_VERIFY

datatype 't asn1_type = V_ASN1_UTCTIME 't | V_ASN1_GENERALIZEDTIME 't | V_ASN1_OTHER

record ('x, 'cms, 'si, 'attr, 't) cms_ssl =
  d2i_CMS :: "byte list \<Rightarrow> 'cms option"
  CMS_get1_certs :: "'cms \<Rightarrow> 'x list"
  CMS_get0_SignerInfos :: "'cms \<Rightarrow> 'si list"
  si_signature_alg :: "'si \<Rightarrow> string option"
  si_digest_alg :: "'si \<Rightarrow> string option"
  get_signing_time_idx :: "'si \<Rightarrow> int"
  CMS_signed_get_attr :: "'si \<Rightarrow> int \<Rightarrow> 'attr option"
  X509_ATTRIBUTE_get0_type :: "'attr \<Rightarrow> 't asn1_type option"
  CMS_get0_content :: "'cms \<Rightarrow> (addr \<times> byte list) option"
  CMS_verify :: "'cms \<Rightarrow> 'x list \<Rightarrow> cms_flag set \<Rightarrow> int"
  X509_dup :: "'x \<Rightarrow> 'x option"

definition parse_cms :: "('x, 'cms, 'si, 'attr, 't) cms_ssl \<Rightarrow> byte list \<Rightarrow> 'cms option" where
  "parse_cms C sodBytes = d2i_CMS C (unwrapIcaoSod sodBytes)"

section \<open>Algorithms\<close>

definition HASH_ALGORITHM_NAMES :: "(string \<times> string) list" where
  "HASH_ALGORITHM_NAMES =
     [(''1.3.14.3.2.26'', ''SHA-1''), (''2.16.840.1.101.3.4.2.1'', ''SHA-256''),
      (''2.16.840.1.101.3.4.2.2'', ''SHA-384''), (''2.16.840.1.101.3.4.2.3'', ''SHA-512'')]"

definition SIGNATURE_ALGORITHM_NAMES :: "(string \<times> string) list" where
  "SIGNATURE_ALGORITHM_NAMES =
     [(''1.2.840.113549.1.1.11'', ''SHA256withRSA''), (''1.2.840.113549.1.1.12'', ''SHA384withRSA''),
      (''1.2.840.113549.1.1.13'', ''SHA512withRSA''), (''1.2.840.10045.4.3.2'', ''SHA256withECDSA''),
      (''1.2.840.10045.4.3.3'', ''SHA384withECDSA''), (''1.2.840.10045.4.3.4'', ''SHA512withECDSA'')]"

definition getAlgorithmName :: "string \<Rightarrow> bool \<Rightarrow> string" where
  "getAlgorithmName oid isHash =
     (case map_of (if isHash then HASH_ALGORITHM_NAMES else SIGNATURE_ALGORITHM_NAMES) oid of
        Some name \<Rightarrow> name
      | None \<Rightarrow> if isHash then ''SHA-256'' else ''SHA256withRSA'')"

text \<open>\<^verbatim>\<open>OBJ_obj2txt(oidBuf, 80, obj, 1)\<close> of the first signer's algorithm.\<close>

definition first_signer :: "('x, 'cms, 'si, 'attr, 't) cms_ssl \<Rightarrow> byte list \<Rightarrow> 'si option" where
  "first_signer C sodBytes =
     (case parse_cms C sodBytes of None \<Rightarrow> None
      | Some cms \<Rightarrow> (case CMS_get0_SignerInfos C cms of [] \<Rightarrow> None | si # _ \<Rightarrow> Some si))"

definition oid_text :: "string option \<Rightarrow> string" where
  "oid_text alg = (case alg of None \<Rightarrow> [] | Some t \<Rightarrow> c_str (take 79 t))"

definition extractSignatureAlgorithmOid :: "('x, 'cms, 'si, 'attr, 't) cms_ssl \<Rightarrow> byte list \<Rightarrow> string" where
  "extractSignatureAlgorithmOid C sodBytes =
     (case first_signer C sodBytes of None \<Rightarrow> [] | Some si \<Rightarrow> oid_text (si_signature_alg C si))"

definition extractHashAlgorithmOid :: "('x, 'cms, 'si, 'attr, 't) cms_ssl \<Rightarrow> byte list \<Rightarrow> string" where
  "extractHashAlgorithmOid C sodBytes =
     (case first_signer C sodBytes of None \<Rightarrow> [] | Some si \<Rightarrow> oid_text (si_digest_alg C si))"

definition extractSignatureAlgorithm :: "('x, 'cms, 'si, 'attr, 't) cms_ssl \<Rightarrow> byte list \<Rightarrow> string" where
  "extractSignatureAlgorithm C sodBytes = getAlgorithmName (extractSignatureAlgorithmOid C sodBytes) False"

definition extractHashAlgorithm :: "('x, 'cms, 'si, 'attr, 't) cms_ssl \<Rightarrow> byte list \<Rightarrow> string" where
  "extractHashAlgorithm C sodBytes = getAlgorithmName (extractHashAlgorithmOid C sodBytes) True"

section \<open>The certificate, the signature and the signing time\<close>

definition extractDscCertificate :: "('x, 'cms, 'si, 'attr, 't) cms_ssl \<Rightarrow> byte list \<Rightarrow> 'x option" where
  "extractDscCertificate C sodBytes =
     (case parse_cms C sodBytes of None \<Rightarrow> None
      | Some cms \<Rightarrow> (case CMS_get1_certs C cms of [] \<Rightarrow> None | x # _ \<Rightarrow> X509_dup C x))"

definition verifySodSignature :: "('x, 'cms, 'si, 'attr, 't) cms_ssl \<Rightarrow> byte list \<Rightarrow> 'x option \<Rightarrow> bool" where
  "verifySodSignature C sodBytes dscCert =
     (case dscCert of None \<Rightarrow> False
      | Some x \<Rightarrow>
          (case parse_cms C sodBytes of None \<Rightarrow> False
           | Some cms \<Rightarrow> CMS_verify C cms [x] {CMS_NO_SIGNER_CERT_VERIFY, CMS_NO_ATTR_VERIFY} = 1))"

text \<open>\<^verbatim>\<open>snprintf(buf, 32, "%04d-%02d-%02dT%02d:%02d:%02dZ", ...)\<close>.\<close>

definition signing_time_text :: "tm \<Rightarrow> string" where
  "signing_time_text t = take 31 (padded_time 4 2 t)"

definition extractSigningTime ::
    "('x, 'k, 't) openssl \<Rightarrow> ('x, 'cms, 'si, 'attr, 't) cms_ssl \<Rightarrow> byte list \<Rightarrow> string" where
  "extractSigningTime L C sodBytes =
     (case first_signer C sodBytes of None \<Rightarrow> []
      | Some si \<Rightarrow>
          let idx = get_signing_time_idx C si in
          if idx < 0 then []
          else
            (case CMS_signed_get_attr C si idx of None \<Rightarrow> []
             | Some attr \<Rightarrow>
                 (case X509_ATTRIBUTE_get0_type C attr of None \<Rightarrow> []
                  | Some v \<Rightarrow>
                      let sigTime = (case v of V_ASN1_UTCTIME t \<Rightarrow> Some t
                          | V_ASN1_GENERALIZEDTIME t \<Rightarrow> Some t | V_ASN1_OTHER \<Rightarrow> None)
                      in case sigTime of None \<Rightarrow> []
                         | Some t \<Rightarrow> (case ASN1_TIME_to_tm L t of None \<Rightarrow> []
                                      | Some tm \<Rightarrow> signing_time_text tm))))"

section \<open>Data group hashes\<close>

definition parseDataGroupHashesRaw ::
    "nat \<Rightarrow> ('x, 'cms, 'si, 'attr, 't) cms_ssl \<Rightarrow> byte list \<Rightarrow> dg_map parse" where
  "parseDataGroupHashesRaw fuel C sodBytes =
     (case parse_cms C sodBytes of None \<Rightarrow> Ok []
      | Some cms \<Rightarrow>
          (case CMS_get0_content C cms of None \<Rightarrow> Ok []
           | Some (p, d) \<Rightarrow> lds_hashes fuel False p d))"

text \<open>\<^verbatim>\<open>hashToHexString\<close>: two hexadecimal digits a byte.\<close>

definition hashToHexString :: "byte list \<Rightarrow> string" where
  "hashToHexString hashBytes = concat (map byte_hex hashBytes)"

definition hex_hashes :: "dg_map \<Rightarrow> (string \<times> string) list" where
  "hex_hashes raw =
     foldl (\<lambda>m (dgNum, h). smap_set (int_dec dgNum) h m) []
       (map (\<lambda>(dgNum, h). (dgNum, hashToHexString h)) raw)"

definition extractDataGroupHashes ::
    "nat \<Rightarrow> ('x, 'cms, 'si, 'attr, 't) cms_ssl \<Rightarrow> byte list \<Rightarrow> (string \<times> string) list parse" where
  "extractDataGroupHashes fuel C sodBytes =
     pbind (parseDataGroupHashesRaw fuel C sodBytes) (\<lambda>raw. Ok (hex_hashes raw))"

section \<open>The parsed SOD\<close>

record 'x sod_data =
  sd_signatureAlgorithm :: string
  sd_signatureAlgorithmOid :: string
  sd_hashAlgorithm :: string
  sd_hashAlgorithmOid :: string
  sd_dscCertificate :: "'x option"
  sd_dataGroupHashes :: "(string \<times> string) list"
  sd_signingTime :: string
  sd_signedAttributes :: "(string \<times> string) list"
  sd_ldsSecurityObjectVersion :: string
  sd_ldsSecurityObjectOid :: "string option"
  sd_rawSodData :: "byte list option"
  sd_parsingErrors :: "string option"
  sd_parsingSuccess :: bool

definition sod_data0 :: "'x sod_data" where
  "sod_data0 = \<lparr>sd_signatureAlgorithm = [], sd_signatureAlgorithmOid = [], sd_hashAlgorithm = [],
     sd_hashAlgorithmOid = [], sd_dscCertificate = None, sd_dataGroupHashes = [], sd_signingTime = [],
     sd_signedAttributes = [], sd_ldsSecurityObjectVersion = [], sd_ldsSecurityObjectOid = None,
     sd_rawSodData = None, sd_parsingErrors = None, sd_parsingSuccess = False\<rparr>"

definition getDataGroupCount :: "'x sod_data \<Rightarrow> nat" where
  "getDataGroupCount s = length (sd_dataGroupHashes s)"

definition hasDataGroup :: "'x sod_data \<Rightarrow> string \<Rightarrow> bool" where
  "hasDataGroup s dgNumber = (map_of (sd_dataGroupHashes s) dgNumber \<noteq> None)"

definition getDataGroupHash :: "'x sod_data \<Rightarrow> string \<Rightarrow> string" where
  "getDataGroupHash s dgNumber =
     (case map_of (sd_dataGroupHashes s) dgNumber of Some h \<Rightarrow> h | None \<Rightarrow> [])"

definition sod_data_toJson :: "'x sod_data \<Rightarrow> json" where
  "sod_data_toJson s = jobj (
     [(''signatureAlgorithm'', JStr (sd_signatureAlgorithm s)),
      (''signatureAlgorithmOid'', JStr (sd_signatureAlgorithmOid s)),
      (''hashAlgorithm'', JStr (sd_hashAlgorithm s)), (''hashAlgorithmOid'', JStr (sd_hashAlgorithmOid s)),
      (''ldsSecurityObjectVersion'', JStr (sd_ldsSecurityObjectVersion s)),
      (''dataGroupCount'', JInt (int (getDataGroupCount s))), (''parsingSuccess'', JBool (sd_parsingSuccess s))]
     @ (if sd_signingTime s \<noteq> [] then [(''signingTime'', JStr (sd_signingTime s))] else [])
     @ opt_member ''parsingErrors'' (sd_parsingErrors s)
     @ [(''dataGroupHashes'', JObj (map (\<lambda>(k, v). (k, JStr v)) (sd_dataGroupHashes s)))])"

text \<open>\<open>what\<close> gives the text of an exception.  The fields set before one is thrown stay set.\<close>

definition parseSod :: "nat \<Rightarrow> (exn \<Rightarrow> string) \<Rightarrow> ('x, 'k, 't) openssl \<Rightarrow> ('x, 'cms, 'si, 'attr, 't) cms_ssl
    \<Rightarrow> byte list \<Rightarrow> 'x sod_data parse" where
  "parseSod fuel what L C sodBytes =
     (let s = sod_data0\<lparr>sd_signatureAlgorithm := extractSignatureAlgorithm C sodBytes,
                sd_signatureAlgorithmOid := extractSignatureAlgorithmOid C sodBytes,
                sd_hashAlgorithm := extractHashAlgorithm C sodBytes,
                sd_hashAlgorithmOid := extractHashAlgorithmOid C sodBytes,
                sd_dscCertificate := extractDscCertificate C sodBytes\<rparr>
      in case extractDataGroupHashes fuel C sodBytes of
           Thrown e \<Rightarrow> Ok (s\<lparr>sd_parsingSuccess := False, sd_parsingErrors := Some (what e)\<rparr>)
         | r \<Rightarrow> pbind r (\<lambda>hashes.
             Ok (s\<lparr>sd_dataGroupHashes := hashes, sd_signingTime := extractSigningTime L C sodBytes,
                  sd_ldsSecurityObjectVersion := ''V0'', sd_parsingSuccess := True\<rparr>)))"

section \<open>The answer of the parsing endpoint\<close>

text \<open>Three more library calls: \<^verbatim>\<open>ASN1_TIME_print\<close> and the country name of a
  certificate's issuer in UTF-8.\<close>

record ('x, 't) api_ssl =
  ASN1_TIME_print :: "'t \<Rightarrow> string"
  issuer_country_utf8 :: "'x \<Rightarrow> string option"

definition printed_time :: "('x, 't) api_ssl \<Rightarrow> string \<Rightarrow> 't \<Rightarrow> (string \<times> json) list" where
  "printed_time A k t =
     (let buf = take 255 (ASN1_TIME_print A t) in if buf \<noteq> [] then [(k, JStr (c_str buf))] else [])"

definition dsc_api_info :: "('x, 'k, 't) openssl \<Rightarrow> ('x, 't) api_ssl \<Rightarrow> 'x \<Rightarrow> json" where
  "dsc_api_info L A c = jobj (
     opt_member ''subjectDn'' (map_option c_str (subject_oneline L c))
     @ opt_member ''issuerDn'' (map_option c_str (issuer_oneline L c))
     @ (case serial_number L c of None \<Rightarrow> []
        | Some n \<Rightarrow> (case ASN1_INTEGER_to_BN L n of None \<Rightarrow> []
                   | Some bn \<Rightarrow> opt_member ''serialNumber'' (map_option c_str (BN_bn2hex L bn))))
     @ printed_time A ''notBefore'' (not_before L c) @ printed_time A ''notAfter'' (not_after L c)
     @ (case issuer_country_utf8 A c of None \<Rightarrow> []
        | Some cc \<Rightarrow> if cc \<noteq> [] then [(''countryCode'', JStr cc)] else []))"

definition dg_api_info :: "int \<times> byte list \<Rightarrow> json" where
  "dg_api_info e = (case e of (dgNum, h) \<Rightarrow> jobj
     [(''dgNumber'', JInt dgNum), (''dgName'', JStr (''DG'' @ int_dec dgNum)),
      (''hashValue'', JStr (hashToHexString h)), (''hashLength'', JInt (int32_of_nat (length h)))])"

definition parseSodForApi :: "nat \<Rightarrow> (exn \<Rightarrow> string) \<Rightarrow> ('x, 'k, 't) openssl
    \<Rightarrow> ('x, 'cms, 'si, 'attr, 't) cms_ssl \<Rightarrow> ('x, 't) api_ssl \<Rightarrow> byte list \<Rightarrow> json parse" where
  "parseSodForApi fuel what L C A sodBytes =
     (let head =
            [(''success'', JBool True), (''sodSize'', JInt (int32_of_nat (length sodBytes))),
             (''hashAlgorithm'', JStr (extractHashAlgorithm C sodBytes)),
             (''hashAlgorithmOid'', JStr (extractHashAlgorithmOid C sodBytes)),
             (''signatureAlgorithm'', JStr (extractSignatureAlgorithm C sodBytes))]
            @ (case extractDscCertificate C sodBytes of
                 Some c \<Rightarrow> [(''dscCertificate'', dsc_api_info L A c)]
               | None \<Rightarrow> [(''dscCertificate'', JNull),
                          (''warning'', JStr ''Failed to extract DSC certificate from SOD'')])
      in case parseDataGroupHashesRaw fuel C sodBytes of
           Thrown e \<Rightarrow> Ok (jobj (head @ [(''success'', JBool False),
             (''error'', JStr (''Failed to parse SOD: '' @ what e))]))
         | r \<Rightarrow> pbind r (\<lambda>dgHashes. Ok (jobj (head
             @ [(''containedDataGroups'', JArr (map dg_api_info dgHashes)),
                (''dataGroupCount'', JInt (int32_of_nat (length dgHashes))),
                (''hasIcaoWrapper'', JBool (0 < length sodBytes \<and> sodBytes ! 0 = 0x77))]
             @ (if dgHashes \<noteq> [] then
                  [(''hasDg14'', JBool (map_of dgHashes 14 \<noteq> None)),
                   (''hasDg15'', JBool (map_of dgHashes 15 \<noteq> None))] else [])))))"

section \<open>The hash algorithm is always one that can be computed\<close>

lemma hash_names_supported: "e \<in> set HASH_ALGORITHM_NAMES \<Longrightarrow> md_of_name (snd e) \<noteq> None"
proof -
  have "list_all (\<lambda>e. md_of_name (snd e) \<noteq> None) HASH_ALGORITHM_NAMES"
    by (simp add: HASH_ALGORITHM_NAMES_def md_of_name_def)
  then show "e \<in> set HASH_ALGORITHM_NAMES \<Longrightarrow> md_of_name (snd e) \<noteq> None"
    unfolding list_all_iff by (rule bspec)
qed

lemma hash_algorithm_supported: "\<exists>m. md_of_name (extractHashAlgorithm C sodBytes) = Some m"
proof (cases "map_of HASH_ALGORITHM_NAMES (extractHashAlgorithmOid C sodBytes)")
  case None
  then have "extractHashAlgorithm C sodBytes = ''SHA-256''"
    by (simp only: extractHashAlgorithm_def getAlgorithmName_def if_True option.case)
  then show ?thesis by (simp add: md_of_name_def)
next
  case (Some name)
  then have "extractHashAlgorithm C sodBytes = name"
    by (simp only: extractHashAlgorithm_def getAlgorithmName_def if_True option.case)
  with hash_names_supported [OF map_of_SomeD [OF Some]] show ?thesis by simp
qed

section \<open>Reading a SOD\<close>

lemma int_dec_inj: "int_dec a = int_dec b \<longleftrightarrow> a = b"
  by (metis option.inject prod.inject scan_number_int_dec)

lemma nat_dec_int_dec: "nat_dec n = int_dec (int n)"
  by (simp add: int_dec_def)

lemma hashToHexString_bytes_hex: "hashToHexString h = bytes_hex h"
  by (simp add: hashToHexString_def bytes_hex_def)

lemma map_of_decimal:
  "map_of (map (\<lambda>(n, h). (int_dec n, f h)) raw) (int_dec k) = map_option f (map_of raw k)"
  by (induction raw) (auto simp: int_dec_inj)

lemma hex_hashes_lookup:
  assumes "distinct (map fst raw)"
  shows "map_of (hex_hashes raw) (int_dec k) = map_option bytes_hex (map_of raw k)"
proof -
  let ?kvs = "map (\<lambda>(n, h). (int_dec n, hashToHexString h)) raw"
  have "hex_hashes raw = foldl (\<lambda>m (k, v). smap_set k v m) [] ?kvs"
    unfolding hex_hashes_def foldl_map by (rule arg_cong2 [where f = "\<lambda>f x. foldl f x raw"]) auto
  moreover have "map fst ?kvs = map int_dec (map fst raw)" by (simp add: case_prod_beta)
  then have "distinct (map fst ?kvs)"
    using assms by (simp add: distinct_map inj_on_def int_dec_inj)
  ultimately have "map_of (hex_hashes raw) = map_of ?kvs"
    by (simp only: smap.lookup_updates_distinct)
  then show ?thesis
    by (simp add: map_of_decimal hashToHexString_bytes_hex)
qed

lemma map_of_int_keys: "map_of (map (\<lambda>(n, h). (int n, h)) es) (int n) = map_of es n"
  by (induction es) auto

lemma parse_sod_enc:
  assumes "parse_cms C sod = Some cms"
    and "CMS_get0_content C cms = Some (p, lds_enc ver alg es trailer)"
    and "length (lds_enc ver alg es trailer) < 65536" and "buf_ok p (lds_enc ver alg es trailer)"
    and "length es \<le> fuel" and "distinct (map fst es)"
    and "\<forall>e \<in> set es. fst e < 128 \<and> length (snd e) < 60000"
  obtains s where "parseSod fuel what L C sod = Ok s" and "sd_parsingSuccess s"
    and "sd_dscCertificate s = extractDscCertificate C sod"
    and "sd_hashAlgorithm s = extractHashAlgorithm C sod"
    and "sd_signingTime s = extractSigningTime L C sod"
    and "\<And>n. getDataGroupHash s (nat_dec n)
           = (case map_of es n of Some h \<Rightarrow> bytes_hex h | None \<Rightarrow> [])"
proof -
  let ?kvs = "map (\<lambda>(n, h). (int n, h)) es"
  define raw where "raw = foldl (\<lambda>m (n, h). smap_set n h m) [] ?kvs"
  have r: "extractDataGroupHashes fuel C sod = Ok (hex_hashes raw)"
    using lds_hashes_enc [OF assms(3,4,5,7)] assms(1,2)
    by (simp add: extractDataGroupHashes_def parseDataGroupHashesRaw_def raw_def)
  have "map fst ?kvs = map int (map fst es)" by (simp add: case_prod_beta)
  then have "distinct (map fst ?kvs)" using assms(6) by (simp add: distinct_map inj_on_def)
  then have lk: "map_of raw = map_of ?kvs" unfolding raw_def by (rule smap.lookup_updates_distinct)
  have "smap_ok raw" unfolding raw_def by (rule smap.invar_updates) (rule smap.invar_empty)
  note h = hex_hashes_lookup [OF smap_ok_distinct [OF this]]
  have "map_of (hex_hashes raw) (nat_dec n) = map_option bytes_hex (map_of es n)" for n
    unfolding nat_dec_int_dec h lk map_of_int_keys ..
  with that show ?thesis
    by (auto simp: parseSod_def r getDataGroupHash_def split: option.split)
qed

text \<open>From the bytes to the API: when the CMS structure of a SOD carries an encoded
  LDSSecurityObject, \<^verbatim>\<open>parseSod\<close> succeeds, and \<^verbatim>\<open>getDataGroupHash\<close> on the decimal text of
  a number gives the hexadecimal hash encoded for that data group, and the empty string
  for every other data group.\<close>

theorem parse_sod_hashes:
  assumes "parse_cms C sod = Some cms"
    and "CMS_get0_content C cms = Some (p, lds_enc ver alg es trailer)"
    and "length (lds_enc ver alg es trailer) < 65536" and "buf_ok p (lds_enc ver alg es trailer)"
    and "length es \<le> fuel" and "distinct (map fst es)"
    and "\<forall>e \<in> set es. fst e < 128 \<and> length (snd e) < 60000"
  shows "\<exists>s. parseSod fuel what L C sod = Ok s \<and> sd_parsingSuccess s
    \<and> (\<forall>n. getDataGroupHash s (nat_dec n)
           = (case map_of es n of Some h \<Rightarrow> bytes_hex h | None \<Rightarrow> []))"
  by (rule parse_sod_enc [OF assms]) blast

text \<open>A SOD with the hashes of DG1 and DG2 in a wrapper whose CMS structure is its own content.\<close>

definition demo_lds :: "byte list" where
  "demo_lds = lds_enc 0 [0x06, 0x01, 0x05] [(1, [0xAA, 0xBB]), (2, [0xCC])] []"

definition demo_cms :: "(nat, byte list, nat, nat, int) cms_ssl" where
  "demo_cms = \<lparr>d2i_CMS = Some, CMS_get1_certs = (\<lambda>_. [0]), CMS_get0_SignerInfos = (\<lambda>_. [0]),
     si_signature_alg = (\<lambda>_. Some ''1.2.840.10045.4.3.2''),
     si_digest_alg = (\<lambda>_. Some ''2.16.840.1.101.3.4.2.1''),
     get_signing_time_idx = (\<lambda>_. 0), CMS_signed_get_attr = (\<lambda>_ _. Some 0),
     X509_ATTRIBUTE_get0_type = (\<lambda>_. Some (V_ASN1_UTCTIME 20)),
     CMS_get0_content = (\<lambda>d. Some (0x1000, d)),
     CMS_verify = (\<lambda>d certs flags. if CMS_NO_ATTR_VERIFY \<in> flags then 1 else 0), X509_dup = Some\<rparr>"

lemma demo_lds_short: "length demo_lds = 29"
  by (simp add: demo_lds_def lds_enc_def tlv_def dg_enc_def der_enc_def)

lemma parse_sod_hashes_witness:
  "\<exists>s. parseSod 2 (\<lambda>_. []) demo_pki demo_cms (tlv 0x77 demo_lds) = Ok s \<and> sd_parsingSuccess s
    \<and> (\<forall>n. getDataGroupHash s (nat_dec n)
           = (case map_of [(1, [0xAA, 0xBB]), (2, [0xCC])] n of Some h \<Rightarrow> bytes_hex h | None \<Rightarrow> []))"
proof (rule parse_sod_hashes [where cms = demo_lds and p = "0x1000" and ver = 0
      and alg = "[0x06, 0x01, 0x05]" and trailer = "[]"])
  show "parse_cms demo_cms (tlv 0x77 demo_lds) = Some demo_lds"
    by (simp add: parse_cms_def demo_cms_def unwrapIcaoSod_def tlv_def der_enc_def demo_lds_short
        small_byte_high_bit)
qed (simp_all add: demo_cms_def demo_lds_def buf_ok_def lds_enc_def tlv_def dg_enc_def der_enc_def)

section \<open>Signing time\<close>

definition tm_calendar :: "tm \<Rightarrow> bool" where
  "tm_calendar t = (- 1900 \<le> tm_year t \<and> tm_year t \<le> 8099 \<and> - 1 \<le> tm_mon t \<and> tm_mon t \<le> 98
     \<and> 0 \<le> tm_mday t \<and> tm_mday t \<le> 99 \<and> 0 \<le> tm_hour t \<and> tm_hour t \<le> 99
     \<and> 0 \<le> tm_min t \<and> tm_min t \<le> 99 \<and> 0 \<le> tm_sec t \<and> tm_sec t \<le> 99)"

lemma nat_dec_length: "n < 10 ^ k \<Longrightarrow> 0 < k \<Longrightarrow> length (nat_dec n) \<le> k"
proof (induction k arbitrary: n)
  case (Suc k)
  show ?case
  proof (cases "n < 10")
    case True
    then show ?thesis by (simp add: nat_dec.simps)
  next
    case False
    then have "0 < k" using Suc.prems(1) by (cases k) auto
    moreover have "n div 10 < 10 ^ k" using Suc.prems(1) by (simp add: less_mult_imp_div_less mult.commute)
    ultimately have "length (nat_dec (n div 10)) \<le> k" using Suc.IH by blast
    then show ?thesis using False by (subst nat_dec.simps) simp
  qed
qed simp

lemma length_year: "0 \<le> v \<Longrightarrow> v \<le> 9999 \<Longrightarrow> length (pad0 4 (int_dec v)) = 4"
  using nat_dec_length [of "nat v" 4] by (simp add: int_dec_def pad0_def)

lemma signing_time_text_full: "tm_calendar t \<Longrightarrow> signing_time_text t = padded_time 4 2 t"
  unfolding signing_time_text_def tm_calendar_def
  by (rule take_all) (simp add: padded_time_def length_year length_pad0_dec2)

text \<open>The signing time survives the trip from the SOD to the chain check: the text
  \<^verbatim>\<open>extractSigningTime\<close> writes for the signing-time attribute of the first signer, UTCTime or
  GeneralizedTime, is read back by the chain step's \<^verbatim>\<open>sscanf\<close> and \<^verbatim>\<open>timegm\<close> as
  that point in time.\<close>

theorem signing_time_roundtrip:
  assumes "first_signer C sod = Some si" and "0 \<le> get_signing_time_idx C si"
    and "CMS_signed_get_attr C si (get_signing_time_idx C si) = Some attr"
    and "X509_ATTRIBUTE_get0_type C attr \<in> {Some (V_ASN1_UTCTIME t), Some (V_ASN1_GENERALIZEDTIME t)}"
    and "ASN1_TIME_to_tm L t = Some v" and "tm_calendar v"
  shows "parse_signing_time (extractSigningTime L C sod) = Some (timegm v)"
proof -
  have "extractSigningTime L C sod = padded_time 4 2 v"
    using assms(1-5) signing_time_text_full [OF assms(6)] by (auto simp: extractSigningTime_def)
  moreover have "tm_plain v" using assms(6) by (simp add: tm_calendar_def tm_plain_def)
  ultimately show ?thesis by (simp add: parse_padded_time)
qed

lemma signing_time_roundtrip_witness:
  "parse_signing_time (extractSigningTime
     (demo_pki\<lparr>ASN1_TIME_to_tm := \<lambda>_. Some \<lparr>tm_year = 124, tm_mon = 0, tm_mday = 15, tm_hour = 10,
        tm_min = 30, tm_sec = 0\<rparr>\<rparr>) demo_cms [0x30]) = Some 1705314600"
proof -
  let ?v = "\<lparr>tm_year = 124, tm_mon = 0, tm_mday = 15, tm_hour = 10, tm_min = 30, tm_sec = 0\<rparr>"
  have "timegm ?v = 1705314600" by (simp add: timegm_def days_from_civil_def)
  then show ?thesis
    using signing_time_roundtrip [of demo_cms "[0x30]" 0 0 20 "demo_pki\<lparr>ASN1_TIME_to_tm := \<lambda>_. Some ?v\<rparr>" ?v]
    by (simp add: demo_cms_def first_signer_def parse_cms_def unwrapIcaoSod_def tm_calendar_def)
qed

section \<open>What the signature check leaves out\<close>

text \<open>The documentation of \<^verbatim>\<open>CMS_verify\<close>: with \<^verbatim>\<open>CMS_NO_ATTR_VERIFY\<close> the signature
  over the signed attributes is not verified.  \<open>resigned cms cms'\<close> says that the two structures
  differ only in those signatures.\<close>

definition attr_signature_ignored ::
    "('x, 'cms, 'si, 'attr, 't) cms_ssl \<Rightarrow> ('cms \<Rightarrow> 'cms \<Rightarrow> bool) \<Rightarrow> bool" where
  "attr_signature_ignored C resigned =
     (\<forall>cms cms' certs flags. CMS_NO_ATTR_VERIFY \<in> flags \<longrightarrow> resigned cms cms' \<longrightarrow>
        CMS_verify C cms certs flags = CMS_verify C cms' certs flags)"

text \<open>\<^verbatim>\<open>verifySodSignature\<close> passes \<^verbatim>\<open>CMS_NO_ATTR_VERIFY\<close>: under the documented meaning of
  that flag, replacing the signature value over the signed attributes of a SOD that verifies,
  whatever certificate is given, leaves a SOD that verifies.\<close>

theorem sod_signature_not_checked:
  assumes "attr_signature_ignored C resigned"
    and "parse_cms C sod = Some cms" and "parse_cms C sod' = Some cms'" and "resigned cms cms'"
  shows "verifySodSignature C sod' dsc = verifySodSignature C sod dsc"
  using assms by (auto simp: verifySodSignature_def attr_signature_ignored_def split: option.split)

text \<open>An instance: the structure is its content and one signature byte, the verifier of
  attributes is on when the flag is absent.\<close>

definition demo_signed :: "(nat, byte list, nat, nat, int) cms_ssl" where
  "demo_signed = demo_cms\<lparr>CMS_verify := \<lambda>d certs flags.
     if certs = [7] \<and> tl d = [0x30] \<and> (CMS_NO_ATTR_VERIFY \<in> flags \<or> hd d = 0xFF) then 1 else 0\<rparr>"

lemma sod_signature_not_checked_witness:
  "verifySodSignature demo_signed [0x00, 0x30] (Some 7) = verifySodSignature demo_signed [0xFF, 0x30] (Some 7)
   \<and> verifySodSignature demo_signed [0xFF, 0x30] (Some 7)
   \<and> CMS_verify demo_signed [0x00, 0x30] [7] {} \<noteq> 1"
proof -
  have "verifySodSignature demo_signed [0x00, 0x30] (Some 7)
      = verifySodSignature demo_signed [0xFF, 0x30] (Some 7)"
    by (rule sod_signature_not_checked [where resigned = "\<lambda>a b. tl a = tl b" and cms = "[0xFF, 0x30]"
          and cms' = "[0x00, 0x30]"])
      (simp_all add: attr_signature_ignored_def demo_signed_def demo_cms_def parse_cms_def
        unwrapIcaoSod_def)
  then show ?thesis
    by (simp add: demo_signed_def demo_cms_def verifySodSignature_def parse_cms_def unwrapIcaoSod_def)
qed

end
