(* ===== verification/Pa_Service.thy ===== *)
theory Pa_Service
  imports Sod_Parser
begin

text \<open>
  Passive Authentication in the PA service: the verification record
  (\<^verbatim>\<open>domain/models/pa_verification.{h,cpp}\<close>), the data group record
  (\<^verbatim>\<open>shared/lib/icao9303/models/data_group.h\<close>) and
  \<^verbatim>\<open>services/pa_verification_service.cpp\<close>, which puts the SOD parser, the chain
  validation and the data group hashes together.  The repositories and the DSC
  registration are arguments; what is written to them is the list of effects returned
  beside the response.
\<close>

section \<open>The verification record\<close>

text \<open>One line \<^verbatim>\<open>if (json.isMember(k)) pv.f = json[k].asString();\<close> of \<^verbatim>\<open>fromJson\<close>, and
  the lines in sequence.\<close>

definition str_member :: "json \<Rightarrow> string \<Rightarrow> (string \<Rightarrow> 'v \<Rightarrow> 'v) \<Rightarrow> 'v \<Rightarrow> 'v option" where
  "str_member j k upd v =
     (if jmember k j then map_option (\<lambda>s. upd s v) (as_string (jget k j)) else Some v)"

definition bool_member :: "json \<Rightarrow> string \<Rightarrow> (bool \<Rightarrow> 'v \<Rightarrow> 'v) \<Rightarrow> 'v \<Rightarrow> 'v option" where
  "bool_member j k upd v =
     (if jmember k j then map_option (\<lambda>b. upd b v) (as_bool (jget k j)) else Some v)"

definition json_member :: "json \<Rightarrow> string \<Rightarrow> (json \<Rightarrow> 'v \<Rightarrow> 'v) \<Rightarrow> 'v \<Rightarrow> 'v option" where
  "json_member j k upd v = (if jmember k j then Some (upd (jget k j) v) else Some v)"

fun set_members :: "('v \<Rightarrow> 'v option) list \<Rightarrow> 'v \<Rightarrow> 'v option" where
  "set_members [] v = Some v"
| "set_members (f # fs) v = (case f v of None \<Rightarrow> None | Some v' \<Rightarrow> set_members fs v')"

record pa_verification =
  pv_id :: string
  pv_documentNumber :: string
  pv_countryCode :: string
  pv_verificationStatus :: string
  pv_sodHash :: string
  pv_sodBinary :: "byte list"
  pv_dscSubject :: string
  pv_dscSerialNumber :: string
  pv_dscIssuer :: string
  pv_dscNotBefore :: "string option"
  pv_dscNotAfter :: "string option"
  pv_dscExpired :: bool
  pv_cscaSubject :: string
  pv_cscaSerialNumber :: string
  pv_cscaNotBefore :: "string option"
  pv_cscaNotAfter :: "string option"
  pv_cscaExpired :: bool
  pv_certificateChainValid :: bool
  pv_sodSignatureValid :: bool
  pv_dataGroupsValid :: bool
  pv_crlChecked :: bool
  pv_revoked :: bool
  pv_crlStatus :: string
  pv_crlMessage :: "string option"
  pv_validationErrors :: "string option"
  pv_expirationStatus :: string
  pv_expirationMessage :: "string option"
  pv_metadata :: "json option"
  pv_createdAt :: string
  pv_updatedAt :: "string option"
  pv_ipAddress :: "string option"
  pv_userAgent :: "string option"
  pv_requestedBy :: string
  pv_dscNonConformant :: bool
  pv_pkdConformanceCode :: string
  pv_pkdConformanceText :: string

definition pa_verification0 :: pa_verification where
  "pa_verification0 = \<lparr>
     pv_id = [], pv_documentNumber = [], pv_countryCode = [], pv_verificationStatus = [],
     pv_sodHash = [], pv_sodBinary = [], pv_dscSubject = [], pv_dscSerialNumber = [],
     pv_dscIssuer = [], pv_dscNotBefore = None, pv_dscNotAfter = None, pv_dscExpired = False,
     pv_cscaSubject = [], pv_cscaSerialNumber = [], pv_cscaNotBefore = None, pv_cscaNotAfter =
     None, pv_cscaExpired = False, pv_certificateChainValid = False, pv_sodSignatureValid =
     False, pv_dataGroupsValid = False, pv_crlChecked = False, pv_revoked = False, pv_crlStatus
     = [], pv_crlMessage = None, pv_validationErrors = None, pv_expirationStatus = [],
     pv_expirationMessage = None, pv_metadata = None, pv_createdAt = [], pv_updatedAt = None,
     pv_ipAddress = None, pv_userAgent = None, pv_requestedBy = [], pv_dscNonConformant = False,
     pv_pkdConformanceCode = [], pv_pkdConformanceText = []\<rparr>"

definition pa_members :: "pa_verification \<Rightarrow> (string \<times> json) list" where
  "pa_members v =
     [(''id'', JStr (pv_id v)), (''documentNumber'', JStr (pv_documentNumber v)),
        (''countryCode'', JStr (pv_countryCode v)), (''verificationStatus'', JStr
        (pv_verificationStatus v)), (''sodHash'', JStr (pv_sodHash v)), (''dscSubject'', JStr
        (pv_dscSubject v)), (''dscSerialNumber'', JStr (pv_dscSerialNumber v)), (''dscIssuer'', JStr
        (pv_dscIssuer v))]
     @ opt_member ''dscNotBefore'' (pv_dscNotBefore v)
     @ opt_member ''dscNotAfter'' (pv_dscNotAfter v)
     @ [(''dscExpired'', JBool (pv_dscExpired v)), (''cscaSubject'', JStr (pv_cscaSubject v)),
        (''cscaSerialNumber'', JStr (pv_cscaSerialNumber v))]
     @ opt_member ''cscaNotBefore'' (pv_cscaNotBefore v)
     @ opt_member ''cscaNotAfter'' (pv_cscaNotAfter v)
     @ [(''cscaExpired'', JBool (pv_cscaExpired v)), (''certificateChainValid'', JBool
        (pv_certificateChainValid v)), (''sodSignatureValid'', JBool (pv_sodSignatureValid v)),
        (''dataGroupsValid'', JBool (pv_dataGroupsValid v)), (''crlChecked'', JBool (pv_crlChecked
        v)), (''revoked'', JBool (pv_revoked v)), (''crlStatus'', JStr (pv_crlStatus v))]
     @ opt_member ''crlMessage'' (pv_crlMessage v)
     @ opt_member ''validationErrors'' (pv_validationErrors v)
     @ [(''expirationStatus'', JStr (pv_expirationStatus v))]
     @ opt_member ''expirationMessage'' (pv_expirationMessage v)
     @ (case pv_metadata v of None \<Rightarrow> [] | Some j \<Rightarrow> [(''metadata'', j)])
     @ [(''createdAt'', JStr (pv_createdAt v))]
     @ opt_member ''updatedAt'' (pv_updatedAt v)
     @ opt_member ''ipAddress'' (pv_ipAddress v)
     @ opt_member ''userAgent'' (pv_userAgent v)"

definition pa_verification_toJson :: "pa_verification \<Rightarrow> json" where
  "pa_verification_toJson v = jobj (pa_members v)"

definition pa_verification_fromJson :: "json \<Rightarrow> pa_verification option" where
  "pa_verification_fromJson j =
     set_members
       [str_member j ''id'' (\<lambda>s. pv_id_update (\<lambda>_. s)),
        str_member j ''documentNumber'' (\<lambda>s. pv_documentNumber_update (\<lambda>_. s)),
        str_member j ''countryCode'' (\<lambda>s. pv_countryCode_update (\<lambda>_. s)),
        str_member j ''verificationStatus'' (\<lambda>s. pv_verificationStatus_update (\<lambda>_. s)),
        str_member j ''sodHash'' (\<lambda>s. pv_sodHash_update (\<lambda>_. s)),
        str_member j ''dscSubject'' (\<lambda>s. pv_dscSubject_update (\<lambda>_. s)),
        str_member j ''dscSerialNumber'' (\<lambda>s. pv_dscSerialNumber_update (\<lambda>_. s)),
        str_member j ''dscIssuer'' (\<lambda>s. pv_dscIssuer_update (\<lambda>_. s)),
        str_member j ''dscNotBefore'' (\<lambda>s. pv_dscNotBefore_update (\<lambda>_. Some s)),
        str_member j ''dscNotAfter'' (\<lambda>s. pv_dscNotAfter_update (\<lambda>_. Some s)),
        bool_member j ''dscExpired'' (\<lambda>b. pv_dscExpired_update (\<lambda>_. b)),
        str_member j ''cscaSubject'' (\<lambda>s. pv_cscaSubject_update (\<lambda>_. s)),
        str_member j ''cscaSerialNumber'' (\<lambda>s. pv_cscaSerialNumber_update (\<lambda>_. s)),
        str_member j ''cscaNotBefore'' (\<lambda>s. pv_cscaNotBefore_update (\<lambda>_. Some s)),
        str_member j ''cscaNotAfter'' (\<lambda>s. pv_cscaNotAfter_update (\<lambda>_. Some s)),
        bool_member j ''cscaExpired'' (\<lambda>b. pv_cscaExpired_update (\<lambda>_. b)),
        bool_member j ''certificateChainValid'' (\<lambda>b. pv_certificateChainValid_update (\<lambda>_. b)),
        bool_member j ''sodSignatureValid'' (\<lambda>b. pv_sodSignatureValid_update (\<lambda>_. b)),
        bool_member j ''dataGroupsValid'' (\<lambda>b. pv_dataGroupsValid_update (\<lambda>_. b)),
        bool_member j ''crlChecked'' (\<lambda>b. pv_crlChecked_update (\<lambda>_. b)),
        bool_member j ''revoked'' (\<lambda>b. pv_revoked_update (\<lambda>_. b)),
        str_member j ''crlStatus'' (\<lambda>s. pv_crlStatus_update (\<lambda>_. s)),
        str_member j ''crlMessage'' (\<lambda>s. pv_crlMessage_update (\<lambda>_. Some s)),
        str_member j ''validationErrors'' (\<lambda>s. pv_validationErrors_update (\<lambda>_. Some s)),
        str_member j ''expirationStatus'' (\<lambda>s. pv_expirationStatus_update (\<lambda>_. s)),
        str_member j ''expirationMessage'' (\<lambda>s. pv_expirationMessage_update (\<lambda>_. Some s)),
        json_member j ''metadata'' (\<lambda>v. pv_metadata_update (\<lambda>_. Some v)),
        str_member j ''createdAt'' (\<lambda>s. pv_createdAt_update (\<lambda>_. s)),
        str_member j ''updatedAt'' (\<lambda>s. pv_updatedAt_update (\<lambda>_. Some s)),
        str_member j ''ipAddress'' (\<lambda>s. pv_ipAddress_update (\<lambda>_. Some s)),
        str_member j ''userAgent'' (\<lambda>s. pv_userAgent_update (\<lambda>_. Some s))]
       pa_verification0"

definition pa_verification_isValid :: "pa_verification \<Rightarrow> bool" where
  "pa_verification_isValid v =
     (if pv_id v = [] then False else if pv_documentNumber v = [] then False
      else if pv_countryCode v = [] then False else if pv_verificationStatus v = [] then False
      else if pv_verificationStatus v \<noteq> ''VALID'' \<and> pv_verificationStatus v \<noteq> ''INVALID''
        \<and> pv_verificationStatus v \<noteq> ''ERROR'' then False
      else True)"

section \<open>The data group record\<close>

record data_group =
  dgr_dgNumber :: string
  dgr_dgTag :: int
  dgr_expectedHash :: string
  dgr_actualHash :: string
  dgr_hashValid :: bool
  dgr_hashAlgorithm :: string
  dgr_rawData :: "byte list option"
  dgr_dataSize :: nat
  dgr_parsingSuccess :: bool
  dgr_parsingErrors :: "string option"
  dgr_contentType :: "string option"

definition data_group0 :: data_group where
  "data_group0 = \<lparr>dgr_dgNumber = [], dgr_dgTag = 0, dgr_expectedHash = [], dgr_actualHash = [],
     dgr_hashValid = False, dgr_hashAlgorithm = [], dgr_rawData = None, dgr_dataSize = 0,
     dgr_parsingSuccess = False, dgr_parsingErrors = None, dgr_contentType = None\<rparr>"

definition data_group_toJson :: "bool \<Rightarrow> data_group \<Rightarrow> json" where
  "data_group_toJson includeRawData g = jobj (
     [(''dgNumber'', JStr (dgr_dgNumber g)), (''dgTag'', JInt (dgr_dgTag g)),
      (''expectedHash'', JStr (dgr_expectedHash g)), (''actualHash'', JStr (dgr_actualHash g)),
      (''hashValid'', JBool (dgr_hashValid g)), (''hashAlgorithm'', JStr (dgr_hashAlgorithm g)),
      (''dataSize'', JInt (int32_of_nat (dgr_dataSize g))),
      (''parsingSuccess'', JBool (dgr_parsingSuccess g))]
     @ opt_member ''parsingErrors'' (dgr_parsingErrors g)
     @ opt_member ''contentType'' (dgr_contentType g)
     @ (case dgr_rawData g of
          Some bs \<Rightarrow> if includeRawData then [(''rawData'', JArr (map (\<lambda>b. JInt (uint b)) bs))] else []
        | None \<Rightarrow> []))"

definition verifyHash :: "data_group \<Rightarrow> bool" where
  "verifyHash g = (dgr_expectedHash g \<noteq> [] \<and> dgr_actualHash g \<noteq> []
     \<and> dgr_expectedHash g = dgr_actualHash g)"

definition dg_descriptions :: "(string \<times> string) list" where
  "dg_descriptions =
     [(''1'', ''Machine Readable Zone (MRZ)''), (''2'', ''Encoded Face Image''),
      (''3'', ''Encoded Finger(s)''), (''4'', ''Encoded Iris(es)''), (''5'', ''Displayed Portrait''),
      (''7'', ''Displayed Signature''), (''11'', ''Additional Personal Details''),
      (''12'', ''Additional Document Details''), (''14'', ''Security Options''),
      (''15'', ''Active Authentication Public Key'')]"

definition getDescription :: "data_group \<Rightarrow> string" where
  "getDescription g = (case map_of dg_descriptions (dgr_dgNumber g) of
     Some t \<Rightarrow> t | None \<Rightarrow> ''Data Group '' @ dgr_dgNumber g)"

record data_group_validation =
  dgv_totalGroups :: int
  dgv_validGroups :: int
  dgv_invalidGroups :: int
  dgv_dataGroups :: "data_group list"

definition data_group_validation_toJson :: "data_group_validation \<Rightarrow> json" where
  "data_group_validation_toJson r = jobj
     [(''totalGroups'', JInt (dgv_totalGroups r)), (''validGroups'', JInt (dgv_validGroups r)),
      (''invalidGroups'', JInt (dgv_invalidGroups r)),
      (''dataGroups'', JArr (map (data_group_toJson False) (dgv_dataGroups r)))]"

section \<open>Passive Authentication\<close>

record dsc_registration =
  dr_success :: bool
  dr_newlyRegistered :: bool
  dr_certificateId :: string
  dr_fingerprint :: string
  dr_countryCode :: string

definition dsc_registration0 :: dsc_registration where
  "dsc_registration0 = \<lparr>dr_success = False, dr_newlyRegistered = False, dr_certificateId = [],
     dr_fingerprint = [], dr_countryCode = []\<rparr>"

text \<open>What the service writes, in order.\<close>

datatype pa_effect =
    Save_Verification pa_verification
  | Save_Data_Group data_group string

text \<open>The collaborators: a repository call gives \<open>Inl\<close> the text of an exception or its
  result; \<open>ps_register\<close> and \<open>ps_dgInsert\<close> are \<^term>\<open>None\<close> for a null pointer;
  \<open>ps_sha256\<close> is \<^term>\<open>None\<close> when the digest context cannot be allocated.\<close>

record ('x, 'k, 't, 'crl, 'rev, 'ext, 'cms, 'si, 'attr) pa_services =
  ps_env :: "('x, 'k, 't, 'crl, 'rev, 'ext) pa_env"
  ps_cms :: "('x, 'cms, 'si, 'attr, 't) cms_ssl"
  ps_what :: "exn \<Rightarrow> string"
  ps_digest :: "md \<Rightarrow> byte list \<Rightarrow> byte list"
  ps_sha256 :: "byte list \<Rightarrow> byte list option"
  ps_insert :: "pa_verification \<Rightarrow> string + string"
  ps_register :: "('x \<Rightarrow> string \<Rightarrow> string \<Rightarrow> string \<Rightarrow> string + dsc_registration) option"
  ps_dgInsert :: "(data_group \<Rightarrow> string \<Rightarrow> string + string) option"
  ps_timestamp :: string
  ps_durationMs :: int

record pa_request =
  rq_sodData :: "byte list"
  rq_dataGroups :: "(string \<times> byte list) list"
  rq_documentNumber :: string
  rq_countryCode :: string
  rq_clientIp :: string
  rq_userAgent :: string
  rq_requestedBy :: string

definition failure :: "string \<Rightarrow> json" where
  "failure what = jobj [(''success'', JBool False), (''error'', JStr what)]"

text \<open>Step 4: a data group the SOD does not list is skipped.\<close>

definition check_group :: "(md \<Rightarrow> byte list \<Rightarrow> byte list) \<Rightarrow> 'x sod_data \<Rightarrow> int \<times> json
    \<Rightarrow> string \<times> byte list \<Rightarrow> int \<times> json" where
  "check_group digest sod acc g =
     (case (acc, g) of ((validDgs, dgResults), (dgNum, dgData)) \<Rightarrow>
        let expectedHash = getDataGroupHash sod dgNum in
        if expectedHash = [] then acc
        else
          let computedHash = computeHash digest dgData (sd_hashAlgorithm sod);
              hashValid = (computedHash = expectedHash)
          in (if hashValid then validDgs + 1 else validDgs,
              jset (''DG'' @ dgNum) (jobj [(''valid'', JBool hashValid),
                 (''expectedHash'', JStr expectedHash), (''actualHash'', JStr computedHash)]) dgResults))"

definition check_groups :: "(md \<Rightarrow> byte list \<Rightarrow> byte list) \<Rightarrow> 'x sod_data
    \<Rightarrow> (string \<times> byte list) list \<Rightarrow> int \<times> json" where
  "check_groups digest sod dataGroups = foldl (check_group digest sod) (0, JObj []) dataGroups"

text \<open>Step 5: the record.\<close>

definition verification_of :: "pa_request \<Rightarrow> chain_validation \<Rightarrow> bool \<Rightarrow> bool \<Rightarrow> string
    \<Rightarrow> pa_verification" where
  "verification_of rq cv sodSignatureValid dataGroupsValid sodHash =
     (let effectiveCountry = (if rq_countryCode rq = [] then cv_countryCode cv else rq_countryCode rq) in
      pa_verification0\<lparr>pv_documentNumber := rq_documentNumber rq,
        pv_countryCode := (if effectiveCountry = [] then ''XX'' else effectiveCountry),
        pv_verificationStatus := (if cv_valid cv \<and> sodSignatureValid \<and> dataGroupsValid
          then ''VALID'' else ''INVALID''),
        pv_dscSubject := cv_dscSubject cv, pv_dscSerialNumber := cv_dscSerialNumber cv,
        pv_dscExpired := cv_dscExpired cv, pv_cscaSubject := cv_cscaSubject cv,
        pv_cscaSerialNumber := cv_cscaSerialNumber cv, pv_cscaExpired := cv_cscaExpired cv,
        pv_certificateChainValid := cv_valid cv, pv_sodSignatureValid := sodSignatureValid,
        pv_dataGroupsValid := dataGroupsValid, pv_crlChecked := cv_crlChecked cv,
        pv_revoked := cv_revoked cv, pv_crlStatus := crlStatusToString (cv_crlStatus cv),
        pv_expirationStatus := cv_expirationStatus cv, pv_sodBinary := rq_sodData rq,
        pv_sodHash := sodHash, pv_ipAddress := Some (rq_clientIp rq),
        pv_userAgent := Some (rq_userAgent rq), pv_requestedBy := rq_requestedBy rq,
        pv_dscNonConformant := cv_dscNonConformant cv,
        pv_pkdConformanceCode := cv_pkdConformanceCode cv,
        pv_pkdConformanceText := cv_pkdConformanceText cv\<rparr>)"

definition stored_group :: "(md \<Rightarrow> byte list \<Rightarrow> byte list) \<Rightarrow> 'x sod_data \<Rightarrow> string \<times> byte list
    \<Rightarrow> data_group" where
  "stored_group digest sod g =
     (case g of (dgNum, dgData) \<Rightarrow>
        let expected = getDataGroupHash sod dgNum;
            actual = computeHash digest dgData (sd_hashAlgorithm sod)
        in data_group0\<lparr>dgr_dgNumber := dgNum, dgr_expectedHash := expected, dgr_actualHash := actual,
             dgr_hashValid := (actual = expected), dgr_hashAlgorithm := sd_hashAlgorithm sod,
             dgr_rawData := Some dgData, dgr_dataSize := length dgData\<rparr>)"

text \<open>The insertions of the data groups, up to the one that throws.\<close>

fun store_groups :: "(data_group \<Rightarrow> string \<Rightarrow> string + string) \<Rightarrow> string \<Rightarrow> data_group list
    \<Rightarrow> string option \<times> pa_effect list" where
  "store_groups ins i [] = (None, [])"
| "store_groups ins i (g # gs) =
     (case ins g i of
        Inl what \<Rightarrow> (Some what, [])
      | Inr _ \<Rightarrow> let (err, eff) = store_groups ins i gs in (err, Save_Data_Group g i # eff))"

definition registration_json :: "dsc_registration \<Rightarrow> (string \<times> json) list" where
  "registration_json r =
     (if dr_success r then
        [(''dscAutoRegistration'', jobj [(''registered'', JBool True),
            (''newlyRegistered'', JBool (dr_newlyRegistered r)), (''certificateId'', JStr (dr_certificateId r)),
            (''fingerprint'', JStr (dr_fingerprint r)), (''countryCode'', JStr (dr_countryCode r))])]
      else [])"

definition pa_response :: "string \<Rightarrow> int \<Rightarrow> pa_request \<Rightarrow> 'x sod_data \<Rightarrow> chain_validation
    \<Rightarrow> pa_verification \<Rightarrow> string \<Rightarrow> int \<times> json \<Rightarrow> int \<Rightarrow> dsc_registration \<Rightarrow> json" where
  "pa_response timestamp durationMs rq sod cv v verificationId dgs totalDgs reg =
     jobj [(''success'', JBool True), (''data'', jobj (
       [(''verificationId'', JStr verificationId), (''status'', JStr (pv_verificationStatus v)),
        (''verificationTimestamp'', JStr timestamp), (''processingDurationMs'', JInt durationMs),
        (''issuingCountry'', JStr (pv_countryCode v)), (''documentNumber'', JStr (rq_documentNumber rq)),
        (''certificateChainValidation'', chain_validation_toJson cv),
        (''sodSignatureValidation'', jobj [(''valid'', JBool (pv_sodSignatureValid v)),
           (''algorithm'', JStr (sd_signatureAlgorithm sod)), (''hashAlgorithm'', JStr (sd_hashAlgorithm sod)),
           (''signatureAlgorithm'', JStr (sd_signatureAlgorithm sod))]),
        (''dataGroupValidation'', jobj [(''details'', snd dgs), (''totalGroups'', JInt totalDgs),
           (''validGroups'', JInt (fst dgs)), (''invalidGroups'', JInt (totalDgs - fst dgs))])]
       @ registration_json reg))]"

definition verifyPassiveAuthentication ::
    "nat \<Rightarrow> ('x, 'k, 't, 'crl, 'rev, 'ext, 'cms, 'si, 'attr) pa_services \<Rightarrow> pa_request
      \<Rightarrow> (json \<times> pa_effect list) parse" where
  "verifyPassiveAuthentication fuel S rq =
     pbind (parseSod fuel (ps_what S) (pe_ssl (ps_env S)) (ps_cms S) (rq_sodData rq)) (\<lambda>sod. Ok (
       case (if sd_parsingSuccess sod then sd_dscCertificate sod else None) of
         None \<Rightarrow> (failure (''SOD parsing failed: '' @ (case sd_parsingErrors sod of
             Some w \<Rightarrow> w | None \<Rightarrow> ''Unknown error'')), [])
       | Some dsc \<Rightarrow>
           let cv = validateCertificateChain (ps_env S) (Some dsc) (rq_countryCode rq) (sd_signingTime sod);
               sodSignatureValid = verifySodSignature (ps_cms S) (rq_sodData rq) (Some dsc);
               totalDgs = int32_of_nat (length (rq_dataGroups rq));
               dgs = check_groups (ps_digest S) sod (rq_dataGroups rq);
               dataGroupsValid = (fst dgs = totalDgs)
           in case ps_sha256 S (rq_sodData rq) of
                None \<Rightarrow> (failure ''Memory allocation failed for hash computation'', [])
              | Some h \<Rightarrow>
                  let v = verification_of rq cv sodSignatureValid dataGroupsValid (bytes_hex h) in
                  case ps_insert S v of
                    Inl what \<Rightarrow> (failure what, [])
                  | Inr verificationId \<Rightarrow>
                      let reg = (case ps_register S of None \<Rightarrow> dsc_registration0
                            | Some f \<Rightarrow> (case f dsc (pv_countryCode v) verificationId (pv_verificationStatus v) of
                                 Inl _ \<Rightarrow> dsc_registration0 | Inr r \<Rightarrow> r));
                          (err, eff) = (case ps_dgInsert S of None \<Rightarrow> (None, [])
                            | Some ins \<Rightarrow> store_groups ins verificationId
                                (map (stored_group (ps_digest S) sod) (rq_dataGroups rq)))
                      in (case err of
                            Some what \<Rightarrow> failure what
                          | None \<Rightarrow> pa_response (ps_timestamp S) (ps_durationMs S) rq sod cv v
                              verificationId dgs totalDgs reg,
                          Save_Verification v # eff)))"

section \<open>The verdict\<close>

definition group_ok :: "(md \<Rightarrow> byte list \<Rightarrow> byte list) \<Rightarrow> 'x sod_data \<Rightarrow> string \<times> byte list \<Rightarrow> bool" where
  "group_ok digest sod g =
     (getDataGroupHash sod (fst g) \<noteq> []
      \<and> computeHash digest (snd g) (sd_hashAlgorithm sod) = getDataGroupHash sod (fst g))"

lemma check_group_count:
  "fst (check_group digest sod acc g) = fst acc + (if group_ok digest sod g then 1 else 0)"
  by (cases acc; cases g) (simp add: check_group_def group_ok_def Let_def)

lemma check_groups_count:
  "fst (check_groups digest sod gs) = int (length (filter (group_ok digest sod) gs))"
proof -
  have "fst (foldl (check_group digest sod) acc gs)
      = fst acc + int (length (filter (group_ok digest sod) gs))" for acc
    by (induction gs arbitrary: acc) (simp_all add: check_group_count)
  then show ?thesis by (simp add: check_groups_def)
qed

lemma int32_of_nat_small: "n < 2 ^ 31 \<Longrightarrow> int32_of_nat n = int n"
  unfolding int32_of_nat_def by (simp add: signed_of_nat signed_take_bit_int_eq_self)

lemma length_filter_all: "length (filter P xs) = length xs \<longleftrightarrow> (\<forall>x \<in> set xs. P x)"
proof
  assume l: "length (filter P xs) = length xs"
  show "\<forall>x \<in> set xs. P x"
  proof (rule ccontr)
    assume "\<not> (\<forall>x \<in> set xs. P x)"
    then obtain x where "x \<in> set xs" "\<not> P x" by auto
    then have "length (filter P xs) < length xs" by (rule length_filter_less)
    with l show False by simp
  qed
qed (simp add: filter_id_conv)

lemma all_groups_ok:
  assumes "length gs < 2 ^ 31"
  shows "fst (check_groups digest sod gs) = int32_of_nat (length gs) \<longleftrightarrow> (\<forall>g \<in> set gs. group_ok digest sod g)"
  using assms by (simp add: check_groups_count int32_of_nat_small length_filter_all)

lemma verification_status:
  "pv_verificationStatus (verification_of rq cv sigOk dgsOk h)
     = (if cv_valid cv \<and> sigOk \<and> dgsOk then ''VALID'' else ''INVALID'')"
  by (simp add: verification_of_def Let_def)

lemma verify_saved:
  assumes "parseSod fuel (ps_what S) (pe_ssl (ps_env S)) (ps_cms S) (rq_sodData rq) = Ok sod"
    and "sd_parsingSuccess sod" and "sd_dscCertificate sod = Some dsc"
    and "ps_sha256 S (rq_sodData rq) = Some h" and "\<And>v. \<exists>i. ps_insert S v = Inr i"
    and "length (rq_dataGroups rq) < 2 ^ 31"
  defines "cv \<equiv> validateCertificateChain (ps_env S) (Some dsc) (rq_countryCode rq) (sd_signingTime sod)"
  defines "v \<equiv> verification_of rq cv (verifySodSignature (ps_cms S) (rq_sodData rq) (Some dsc))
    (\<forall>g \<in> set (rq_dataGroups rq). group_ok (ps_digest S) sod g) (bytes_hex h)"
  obtains resp i err eff where
    "verifyPassiveAuthentication fuel S rq = Ok (resp, Save_Verification v # eff)"
    and "ps_insert S v = Inr i"
    and "(case ps_dgInsert S of None \<Rightarrow> (None, [])
          | Some ins \<Rightarrow> store_groups ins i (map (stored_group (ps_digest S) sod) (rq_dataGroups rq))) = (err, eff)"
    and "err = None \<Longrightarrow> jget ''success'' resp = JBool True
      \<and> jget ''status'' (jget ''data'' resp) = JStr (pv_verificationStatus v)"
proof -
  obtain i where i: "ps_insert S v = Inr i" using assms(5) by blast
  obtain err eff where e: "(case ps_dgInsert S of None \<Rightarrow> (None, [])
      | Some ins \<Rightarrow> store_groups ins i (map (stored_group (ps_digest S) sod) (rq_dataGroups rq))) = (err, eff)"
    by force
  note ok = all_groups_ok [OF assms(6), of "ps_digest S" sod]
  have vv: "verification_of rq cv (verifySodSignature (ps_cms S) (rq_sodData rq) (Some dsc))
      (fst (check_groups (ps_digest S) sod (rq_dataGroups rq)) = int32_of_nat (length (rq_dataGroups rq)))
      (bytes_hex h) = v"
    by (simp only: v_def ok)
  define reg where "reg = (case ps_register S of None \<Rightarrow> dsc_registration0
      | Some f \<Rightarrow> (case f dsc (pv_countryCode v) i (pv_verificationStatus v) of
           Inl _ \<Rightarrow> dsc_registration0 | Inr r \<Rightarrow> r))"
  define resp where "resp = (case err of Some what \<Rightarrow> failure what
      | None \<Rightarrow> pa_response (ps_timestamp S) (ps_durationMs S) rq sod cv v i
          (check_groups (ps_digest S) sod (rq_dataGroups rq)) (int32_of_nat (length (rq_dataGroups rq))) reg)"
  show ?thesis
  proof (rule that [OF _ i e])
    show "verifyPassiveAuthentication fuel S rq = Ok (resp, Save_Verification v # eff)"
      using i e unfolding verifyPassiveAuthentication_def assms(1) pbind.simps
      by (cases err; cases "ps_register S") (simp_all add: assms(2-4) Let_def cv_def [symmetric] vv resp_def reg_def)
    show "jget ''success'' resp = JBool True
      \<and> jget ''status'' (jget ''data'' resp) = JStr (pv_verificationStatus v)" if "err = None"
      using that by (simp add: resp_def pa_response_def jget_jobj registration_json_def)
  qed
qed

text \<open>C11. The verdict of Passive Authentication: when the SOD parses with a certificate and the
  record is saved, the status written is \<^verbatim>\<open>VALID\<close> exactly when the DSC's chain is valid at the
  SOD's signing time, the SOD signature check passes with that DSC, and every data group presented is
  listed in the SOD with the hash its content has; otherwise it is \<^verbatim>\<open>INVALID\<close>.\<close>

theorem pa_verdict:
  assumes "parseSod fuel (ps_what S) (pe_ssl (ps_env S)) (ps_cms S) (rq_sodData rq) = Ok sod"
    and "sd_parsingSuccess sod" and "sd_dscCertificate sod = Some dsc"
    and "ps_sha256 S (rq_sodData rq) = Some h" and "\<And>v. \<exists>i. ps_insert S v = Inr i"
    and "length (rq_dataGroups rq) < 2 ^ 31"
  shows "\<exists>resp v eff. verifyPassiveAuthentication fuel S rq = Ok (resp, Save_Verification v # eff)
    \<and> pv_verificationStatus v =
        (if cv_valid (validateCertificateChain (ps_env S) (Some dsc) (rq_countryCode rq) (sd_signingTime sod))
            \<and> verifySodSignature (ps_cms S) (rq_sodData rq) (Some dsc)
            \<and> (\<forall>(n, d) \<in> set (rq_dataGroups rq). getDataGroupHash sod n \<noteq> []
                 \<and> computeHash (ps_digest S) d (sd_hashAlgorithm sod) = getDataGroupHash sod n)
         then ''VALID'' else ''INVALID'')"
  by (rule verify_saved [OF assms]) (use verification_status in \<open>force simp: group_ok_def case_prod_beta\<close>)

definition demo_services :: "(nat, nat, int, nat list, int, int, byte list, nat, nat) pa_services" where
  "demo_services = \<lparr>ps_env = demo_pa_env, ps_cms = demo_cms\<lparr>get_signing_time_idx := \<lambda>_. - 1\<rparr>,
     ps_what = (\<lambda>_. []), ps_digest = (\<lambda>_ d. 0x01 # d), ps_sha256 = (\<lambda>d. Some [0xAB]),
     ps_insert = (\<lambda>_. Inr ''id-1''), ps_register = None,
     ps_dgInsert = Some (\<lambda>_ _. Inr ''dg''), ps_timestamp = [], ps_durationMs = 0\<rparr>"

definition demo_lds1 :: "byte list" where
  "demo_lds1 = lds_enc 0 [0x06, 0x01, 0x05] [(1, [0x01, 0xBB])] []"

definition demo_request :: "byte list \<Rightarrow> pa_request" where
  "demo_request dg1 = \<lparr>rq_sodData = tlv 0x77 demo_lds1, rq_dataGroups = [(''1'', dg1)],
     rq_documentNumber = ''M1'', rq_countryCode = ''KR'', rq_clientIp = [], rq_userAgent = [],
     rq_requestedBy = []\<rparr>"

lemma demo_unwrap: "unwrapIcaoSod (tlv 0x77 demo_lds1) = demo_lds1"
  by (simp add: demo_lds1_def lds_enc_def tlv_def dg_enc_def der_enc_def unwrapIcaoSod_def)

lemma demo_parse_cms: "parse_cms (ps_cms demo_services) (tlv 0x77 demo_lds1) = Some demo_lds1"
  by (simp add: parse_cms_def demo_services_def demo_cms_def demo_unwrap)

lemma demo_signer: "first_signer (ps_cms demo_services) (tlv 0x77 demo_lds1) = Some 0"
  by (simp add: first_signer_def demo_parse_cms) (simp add: demo_services_def demo_cms_def)

lemma demo_hash_algorithm:
  "extractHashAlgorithm (ps_cms demo_services) (tlv 0x77 demo_lds1) = ''SHA-256''"
  by (simp add: extractHashAlgorithm_def extractHashAlgorithmOid_def demo_signer)
    (simp add: demo_services_def demo_cms_def oid_text_def c_str_def getAlgorithmName_def
      HASH_ALGORITHM_NAMES_def)

lemma demo_certificate:
  "extractDscCertificate (ps_cms demo_services) (tlv 0x77 demo_lds1) = Some 0"
  by (simp add: extractDscCertificate_def demo_parse_cms) (simp add: demo_services_def demo_cms_def)

lemma demo_sod:
  obtains s where "parseSod 1 (ps_what demo_services) (pe_ssl (ps_env demo_services)) (ps_cms demo_services)
      (tlv 0x77 demo_lds1) = Ok s"
    and "sd_parsingSuccess s" and "sd_dscCertificate s = Some 0"
    and "sd_hashAlgorithm s = ''SHA-256''" and "sd_signingTime s = []"
    and "getDataGroupHash s ''1'' = bytes_hex [0x01, 0xBB]"
proof (rule parse_sod_enc [OF demo_parse_cms, where p = "0x1000" and ver = 0
      and alg = "[0x06, 0x01, 0x05]" and es = "[(1, [0x01, 0xBB])]" and trailer = "[]" and fuel = 1
      and what = "ps_what demo_services" and L = "pe_ssl (ps_env demo_services)"])
  fix s
  assume s: "parseSod 1 (ps_what demo_services) (pe_ssl (ps_env demo_services)) (ps_cms demo_services)
      (tlv 0x77 demo_lds1) = Ok s" "sd_parsingSuccess s"
    "sd_dscCertificate s = extractDscCertificate (ps_cms demo_services) (tlv 0x77 demo_lds1)"
    "sd_hashAlgorithm s = extractHashAlgorithm (ps_cms demo_services) (tlv 0x77 demo_lds1)"
    "sd_signingTime s = extractSigningTime (pe_ssl (ps_env demo_services)) (ps_cms demo_services)
      (tlv 0x77 demo_lds1)"
    "\<And>n. getDataGroupHash s (nat_dec n)
      = (case map_of [(1, [0x01, 0xBB])] n of Some h \<Rightarrow> bytes_hex h | None \<Rightarrow> [])"
  have "nat_dec 1 = ''1''" by (simp add: nat_dec.simps char_of_def bit_0)
  then have "getDataGroupHash s ''1'' = bytes_hex [0x01, 0xBB]" using s(6) [of 1] by simp
  moreover have "extractSigningTime (pe_ssl (ps_env demo_services)) (ps_cms demo_services)
      (tlv 0x77 demo_lds1) = []"
    by (simp add: extractSigningTime_def demo_signer) (simp add: demo_services_def)
  ultimately show thesis using that s(1-5) demo_hash_algorithm demo_certificate by simp
qed (simp_all add: demo_services_def demo_cms_def demo_lds1_def buf_ok_def lds_enc_def tlv_def
    dg_enc_def der_enc_def)

lemma demo_signature: "verifySodSignature (ps_cms demo_services) (tlv 0x77 demo_lds1) (Some 0)"
  unfolding verifySodSignature_def by (simp add: demo_parse_cms) (simp add: demo_services_def demo_cms_def)

lemma pa_verdict_witness:
  "\<exists>resp v eff. verifyPassiveAuthentication 1 demo_services (demo_request [0xBB])
      = Ok (resp, Save_Verification v # eff) \<and> pv_verificationStatus v = ''VALID''"
proof (rule demo_sod)
  fix s
  assume s: "parseSod 1 (ps_what demo_services) (pe_ssl (ps_env demo_services)) (ps_cms demo_services)
      (tlv 0x77 demo_lds1) = Ok s" "sd_parsingSuccess s" "sd_dscCertificate s = Some 0"
    "sd_hashAlgorithm s = ''SHA-256''" "sd_signingTime s = []"
    "getDataGroupHash s ''1'' = bytes_hex [0x01, 0xBB]"
  have "md_of_name ''SHA-256'' = Some MD_SHA256" by (simp add: md_of_name_def)
  moreover have "ps_env demo_services = demo_pa_env" by (simp add: demo_services_def)
  ultimately show ?thesis
    using pa_verdict [of 1 demo_services "demo_request [0xBB]" s 0 "[0xAB]"] s demo_chain_valid
      demo_signature
    by (simp add: demo_request_def computeHash_def) (simp add: demo_services_def)
qed

section \<open>What is stored\<close>

lemma store_groups_ok:
  "(\<And>g i. \<exists>r. ins g i = Inr r) \<Longrightarrow> store_groups ins i gs = (None, map (\<lambda>g. Save_Data_Group g i) gs)"
proof (induction gs)
  case (Cons g gs)
  obtain r where "ins g i = Inr r" using Cons.prems by blast
  with Cons show ?case by simp
qed simp

lemma bytes_hex_not_Nil: "bs \<noteq> [] \<Longrightarrow> bytes_hex bs \<noteq> []"
  by (cases bs) simp_all

lemma computeHash_not_Nil:
  "(\<And>m d. digest m d \<noteq> []) \<Longrightarrow> computeHash digest d (extractHashAlgorithm C sod) \<noteq> []"
  using hash_algorithm_supported [of C sod] by (auto simp: computeHash_def bytes_hex_not_Nil)

lemma stored_group_valid:
  assumes "\<And>m d. digest m d \<noteq> []" and "sd_hashAlgorithm sod = extractHashAlgorithm C b"
  shows "dgr_hashValid (stored_group digest sod g) = group_ok digest sod g"
  using computeHash_not_Nil [of digest "snd g" C b, OF assms(1)] assms(2)
  by (cases g) (auto simp: stored_group_def group_ok_def Let_def)

text \<open>What is stored agrees with the verdict: the run saves the verification first and then
  every presented data group under the identifier of that record, with its content; and the record's
  \<^verbatim>\<open>dataGroupsValid\<close> holds exactly when the flag \<^verbatim>\<open>hashValid\<close> of every stored
  data group does, although the two are computed apart.\<close>

theorem pa_stored_groups:
  assumes "parseSod fuel (ps_what S) (pe_ssl (ps_env S)) (ps_cms S) (rq_sodData rq) = Ok sod"
    and "sd_parsingSuccess sod" and "sd_dscCertificate sod = Some dsc"
    and "ps_sha256 S (rq_sodData rq) = Some h" and "\<And>v. \<exists>i. ps_insert S v = Inr i"
    and "length (rq_dataGroups rq) < 2 ^ 31"
    and "sd_hashAlgorithm sod = extractHashAlgorithm (ps_cms S) (rq_sodData rq)"
    and "ps_dgInsert S = Some ins" and "\<And>g i. \<exists>r. ins g i = Inr r"
    and "\<And>m d. ps_digest S m d \<noteq> []"
  shows "\<exists>resp v i gs. verifyPassiveAuthentication fuel S rq
      = Ok (resp, Save_Verification v # map (\<lambda>g. Save_Data_Group g i) gs)
    \<and> ps_insert S v = Inr i
    \<and> map dgr_dgNumber gs = map fst (rq_dataGroups rq)
    \<and> map dgr_rawData gs = map (Some \<circ> snd) (rq_dataGroups rq)
    \<and> pv_dataGroupsValid v = (\<forall>g \<in> set gs. dgr_hashValid g)
    \<and> jget ''status'' (jget ''data'' resp) = JStr (pv_verificationStatus v)"
proof (rule verify_saved [OF assms(1-6)], goal_cases)
  case (1 resp i err eff)
  let ?gs = "map (stored_group (ps_digest S) sod) (rq_dataGroups rq)"
  have st: "err = None" "eff = map (\<lambda>g. Save_Data_Group g i) ?gs"
    using 1(3) assms(8) store_groups_ok [of ins i ?gs, OF assms(9)] by simp_all
  show ?case
    using 1(1,2) 1(4) [OF st(1)]
    by (intro exI [of _ resp] exI [of _ i] exI [of _ ?gs] exI, intro conjI)
      (simp_all add: st(2) verification_of_def Let_def stored_group_valid [OF assms(10,7)],
       auto simp: stored_group_def case_prod_beta Let_def)
qed

lemma pa_stored_groups_witness:
  "\<exists>resp v i gs. verifyPassiveAuthentication 1 demo_services (demo_request [0xBC])
      = Ok (resp, Save_Verification v # map (\<lambda>g. Save_Data_Group g i) gs)
    \<and> ps_insert demo_services v = Inr i
    \<and> map dgr_dgNumber gs = map fst (rq_dataGroups (demo_request [0xBC]))
    \<and> map dgr_rawData gs = map (Some \<circ> snd) (rq_dataGroups (demo_request [0xBC]))
    \<and> pv_dataGroupsValid v = (\<forall>g \<in> set gs. dgr_hashValid g)
    \<and> jget ''status'' (jget ''data'' resp) = JStr (pv_verificationStatus v)"
proof (rule demo_sod)
  fix s
  assume s: "parseSod 1 (ps_what demo_services) (pe_ssl (ps_env demo_services)) (ps_cms demo_services)
      (tlv 0x77 demo_lds1) = Ok s" "sd_parsingSuccess s" "sd_dscCertificate s = Some 0"
    "sd_hashAlgorithm s = ''SHA-256''"
  show ?thesis
    by (rule pa_stored_groups [where sod = s and dsc = 0 and h = "[0xAB]" and ins = "\<lambda>_ _. Inr ''dg''"])
      (simp_all add: demo_request_def s demo_hash_algorithm del: One_nat_def, simp_all add: demo_services_def)
qed

text \<open>A SOD that does not parse, a failed digest or a failed insertion gives the answer
  \<^verbatim>\<open>success = false\<close> with the reason, and nothing has been written.\<close>

theorem pa_failure_writes_nothing:
  assumes "parseSod fuel (ps_what S) (pe_ssl (ps_env S)) (ps_cms S) (rq_sodData rq) = Ok sod"
    and "\<not> sd_parsingSuccess sod \<or> sd_dscCertificate sod = None \<or> ps_sha256 S (rq_sodData rq) = None
      \<or> (\<forall>v. \<exists>what. ps_insert S v = Inl what)"
  shows "\<exists>resp what. verifyPassiveAuthentication fuel S rq = Ok (resp, [])
    \<and> jget ''success'' resp = JBool False \<and> jget ''error'' resp = JStr what"
proof -
  have f: "jget ''success'' (failure what) = JBool False" "jget ''error'' (failure what) = JStr what" for what
    by (simp_all add: failure_def jget_jobj)
  have "\<exists>what. verifyPassiveAuthentication fuel S rq = Ok (failure what, [])"
    unfolding verifyPassiveAuthentication_def assms(1) pbind.simps Let_def
    using assms(2) by (auto split: option.splits sum.splits) (metis sum.distinct(1) sum.exhaust)+
  with f show ?thesis by metis
qed

lemma pa_failure_writes_nothing_witness:
  "\<exists>resp what. verifyPassiveAuthentication 1 (demo_services\<lparr>ps_sha256 := \<lambda>_. None\<rparr>) (demo_request [0xBC])
      = Ok (resp, []) \<and> jget ''success'' resp = JBool False \<and> jget ''error'' resp = JStr what"
proof (rule demo_sod)
  fix s
  assume s: "parseSod 1 (ps_what demo_services) (pe_ssl (ps_env demo_services)) (ps_cms demo_services)
      (tlv 0x77 demo_lds1) = Ok s"
  show ?thesis
    by (rule pa_failure_writes_nothing [where sod = s]) (simp_all add: demo_request_def s del: One_nat_def)
qed

section \<open>The record as JSON\<close>

text \<open>The last value assigned to a member.\<close>

definition or_else :: "'a option \<Rightarrow> 'a option \<Rightarrow> 'a option" where
  "or_else x y = (case x of None \<Rightarrow> y | Some v \<Rightarrow> Some v)"

lemma or_else_simps [simp]:
  "or_else None y = y" "or_else (Some v) y = Some v" "or_else x None = x"
  "or_else (or_else x y) z = or_else x (or_else y z)"
  by (simp_all add: or_else_def split: option.split)

fun last_of :: "(string \<times> json) list \<Rightarrow> string \<Rightarrow> json option" where
  "last_of [] k = None"
| "last_of (e # es) k = or_else (last_of es k) (if k = fst e then Some (snd e) else None)"

lemma last_of_append: "last_of (xs @ ys) k = or_else (last_of ys k) (last_of xs k)"
  by (induction xs) simp_all

lemma last_of_opt_member:
  "last_of (opt_member k' x) k = (if k = k' then map_option JStr x else None)"
  by (cases x) (simp_all add: opt_member_def)

lemma last_of_case:
  "last_of (case x of None \<Rightarrow> [] | Some j \<Rightarrow> [(k', j)]) k = (if k = k' then x else None)"
  by (cases x) simp_all

lemma jobj_last_of:
  "jget k (jobj kvs) = (case last_of kvs k of Some v \<Rightarrow> v | None \<Rightarrow> JNull)
   \<and> jmember k (jobj kvs) = (last_of kvs k \<noteq> None)"
proof -
  have "is_jobj j \<Longrightarrow> jget k (foldl (\<lambda>j (k, v). jset k v j) j kvs)
        = (case last_of kvs k of Some v \<Rightarrow> v | None \<Rightarrow> jget k j)
      \<and> jmember k (foldl (\<lambda>j (k, v). jset k v j) j kvs) = (last_of kvs k \<noteq> None \<or> jmember k j)" for j
    by (induction kvs arbitrary: j) (simp, simp add: case_prod_beta or_else_def split: option.split)
  from this [of JNull] show ?thesis by (simp add: jobj_def split: option.split)
qed

lemma member_obj:
  "str_member (jobj kvs) k upd v = (case last_of kvs k of None \<Rightarrow> Some v
     | Some x \<Rightarrow> map_option (\<lambda>s. upd s v) (as_string x))"
  "bool_member (jobj kvs) k updb v = (case last_of kvs k of None \<Rightarrow> Some v
     | Some x \<Rightarrow> map_option (\<lambda>b. updb b v) (as_bool x))"
  "json_member (jobj kvs) k updj v = (case last_of kvs k of None \<Rightarrow> Some v
     | Some x \<Rightarrow> Some (updj x v))"
  by (auto simp: str_member_def bool_member_def json_member_def jobj_last_of split: option.split)

text \<open>A member that is written only when the field is set restores it either way.\<close>

lemma str_step: "last_of kvs k = Some (JStr s) \<Longrightarrow> str_member (jobj kvs) k upd v = Some (upd s v)"
  by (simp add: member_obj as_string_def)

lemma bool_step: "last_of kvs k = Some (JBool b) \<Longrightarrow> bool_member (jobj kvs) k upd v = Some (upd b v)"
  by (simp add: member_obj as_bool_def)

lemma opt_step: "last_of kvs k = map_option JStr x \<Longrightarrow>
    str_member (jobj kvs) k upd v = (case x of None \<Rightarrow> Some v | Some s \<Rightarrow> Some (upd s v))"
  by (cases x) (simp_all add: member_obj as_string_def)

lemma json_step: "last_of kvs k = x \<Longrightarrow>
    json_member (jobj kvs) k upd v = (case x of None \<Rightarrow> Some v | Some j \<Rightarrow> Some (upd j v))"
  by (simp add: member_obj)

lemma set_dscNotBefore:
  "pv_dscNotBefore w = None \<Longrightarrow> (case x of None \<Rightarrow> Some w | Some y \<Rightarrow> Some (w\<lparr>pv_dscNotBefore := Some y\<rparr>))
     = Some (w\<lparr>pv_dscNotBefore := x\<rparr>)"
  by (cases x) simp_all

lemma set_dscNotAfter:
  "pv_dscNotAfter w = None \<Longrightarrow> (case x of None \<Rightarrow> Some w | Some y \<Rightarrow> Some (w\<lparr>pv_dscNotAfter := Some y\<rparr>))
     = Some (w\<lparr>pv_dscNotAfter := x\<rparr>)"
  by (cases x) simp_all

lemma set_cscaNotBefore:
  "pv_cscaNotBefore w = None \<Longrightarrow> (case x of None \<Rightarrow> Some w | Some y \<Rightarrow> Some (w\<lparr>pv_cscaNotBefore := Some y\<rparr>))
     = Some (w\<lparr>pv_cscaNotBefore := x\<rparr>)"
  by (cases x) simp_all

lemma set_cscaNotAfter:
  "pv_cscaNotAfter w = None \<Longrightarrow> (case x of None \<Rightarrow> Some w | Some y \<Rightarrow> Some (w\<lparr>pv_cscaNotAfter := Some y\<rparr>))
     = Some (w\<lparr>pv_cscaNotAfter := x\<rparr>)"
  by (cases x) simp_all

lemma set_crlMessage:
  "pv_crlMessage w = None \<Longrightarrow> (case x of None \<Rightarrow> Some w | Some y \<Rightarrow> Some (w\<lparr>pv_crlMessage := Some y\<rparr>))
     = Some (w\<lparr>pv_crlMessage := x\<rparr>)"
  by (cases x) simp_all

lemma set_validationErrors:
  "pv_validationErrors w = None \<Longrightarrow> (case x of None \<Rightarrow> Some w | Some y \<Rightarrow> Some (w\<lparr>pv_validationErrors := Some y\<rparr>))
     = Some (w\<lparr>pv_validationErrors := x\<rparr>)"
  by (cases x) simp_all

lemma set_expirationMessage:
  "pv_expirationMessage w = None \<Longrightarrow> (case x of None \<Rightarrow> Some w | Some y \<Rightarrow> Some (w\<lparr>pv_expirationMessage := Some y\<rparr>))
     = Some (w\<lparr>pv_expirationMessage := x\<rparr>)"
  by (cases x) simp_all

lemma set_metadata:
  "pv_metadata w = None \<Longrightarrow> (case x of None \<Rightarrow> Some w | Some y \<Rightarrow> Some (w\<lparr>pv_metadata := Some y\<rparr>))
     = Some (w\<lparr>pv_metadata := x\<rparr>)"
  by (cases x) simp_all

lemma set_updatedAt:
  "pv_updatedAt w = None \<Longrightarrow> (case x of None \<Rightarrow> Some w | Some y \<Rightarrow> Some (w\<lparr>pv_updatedAt := Some y\<rparr>))
     = Some (w\<lparr>pv_updatedAt := x\<rparr>)"
  by (cases x) simp_all

lemma set_ipAddress:
  "pv_ipAddress w = None \<Longrightarrow> (case x of None \<Rightarrow> Some w | Some y \<Rightarrow> Some (w\<lparr>pv_ipAddress := Some y\<rparr>))
     = Some (w\<lparr>pv_ipAddress := x\<rparr>)"
  by (cases x) simp_all

lemma set_userAgent:
  "pv_userAgent w = None \<Longrightarrow> (case x of None \<Rightarrow> Some w | Some y \<Rightarrow> Some (w\<lparr>pv_userAgent := Some y\<rparr>))
     = Some (w\<lparr>pv_userAgent := x\<rparr>)"
  by (cases x) simp_all

definition json_part :: "pa_verification \<Rightarrow> pa_verification" where
  "json_part v = v\<lparr>pv_sodBinary := [], pv_requestedBy := [], pv_dscNonConformant := False,
     pv_pkdConformanceCode := [], pv_pkdConformanceText := []\<rparr>"

lemma lookup_members:
  "last_of (pa_members v) ''id'' = Some (JStr (pv_id v))"
  "last_of (pa_members v) ''documentNumber'' = Some (JStr (pv_documentNumber v))"
  "last_of (pa_members v) ''countryCode'' = Some (JStr (pv_countryCode v))"
  "last_of (pa_members v) ''verificationStatus'' = Some (JStr (pv_verificationStatus v))"
  "last_of (pa_members v) ''sodHash'' = Some (JStr (pv_sodHash v))"
  "last_of (pa_members v) ''dscSubject'' = Some (JStr (pv_dscSubject v))"
  "last_of (pa_members v) ''dscSerialNumber'' = Some (JStr (pv_dscSerialNumber v))"
  "last_of (pa_members v) ''dscIssuer'' = Some (JStr (pv_dscIssuer v))"
  "last_of (pa_members v) ''dscNotBefore'' = map_option JStr (pv_dscNotBefore v)"
  "last_of (pa_members v) ''dscNotAfter'' = map_option JStr (pv_dscNotAfter v)"
  "last_of (pa_members v) ''dscExpired'' = Some (JBool (pv_dscExpired v))"
  "last_of (pa_members v) ''cscaSubject'' = Some (JStr (pv_cscaSubject v))"
  "last_of (pa_members v) ''cscaSerialNumber'' = Some (JStr (pv_cscaSerialNumber v))"
  "last_of (pa_members v) ''cscaNotBefore'' = map_option JStr (pv_cscaNotBefore v)"
  "last_of (pa_members v) ''cscaNotAfter'' = map_option JStr (pv_cscaNotAfter v)"
  "last_of (pa_members v) ''cscaExpired'' = Some (JBool (pv_cscaExpired v))"
  "last_of (pa_members v) ''certificateChainValid'' = Some (JBool (pv_certificateChainValid v))"
  "last_of (pa_members v) ''sodSignatureValid'' = Some (JBool (pv_sodSignatureValid v))"
  "last_of (pa_members v) ''dataGroupsValid'' = Some (JBool (pv_dataGroupsValid v))"
  "last_of (pa_members v) ''crlChecked'' = Some (JBool (pv_crlChecked v))"
  "last_of (pa_members v) ''revoked'' = Some (JBool (pv_revoked v))"
  "last_of (pa_members v) ''crlStatus'' = Some (JStr (pv_crlStatus v))"
  "last_of (pa_members v) ''crlMessage'' = map_option JStr (pv_crlMessage v)"
  "last_of (pa_members v) ''validationErrors'' = map_option JStr (pv_validationErrors v)"
  "last_of (pa_members v) ''expirationStatus'' = Some (JStr (pv_expirationStatus v))"
  "last_of (pa_members v) ''expirationMessage'' = map_option JStr (pv_expirationMessage v)"
  "last_of (pa_members v) ''metadata'' = pv_metadata v"
  "last_of (pa_members v) ''createdAt'' = Some (JStr (pv_createdAt v))"
  "last_of (pa_members v) ''updatedAt'' = map_option JStr (pv_updatedAt v)"
  "last_of (pa_members v) ''ipAddress'' = map_option JStr (pv_ipAddress v)"
  "last_of (pa_members v) ''userAgent'' = map_option JStr (pv_userAgent v)"
  by (simp_all add: pa_members_def last_of_append last_of_opt_member last_of_case)

lemmas set_options = set_dscNotBefore set_dscNotAfter set_cscaNotBefore set_cscaNotAfter set_crlMessage
  set_validationErrors set_expirationMessage set_metadata set_updatedAt set_ipAddress set_userAgent

lemmas member_steps =
  str_step [OF lookup_members(1)]
  str_step [OF lookup_members(2)]
  str_step [OF lookup_members(3)]
  str_step [OF lookup_members(4)]
  str_step [OF lookup_members(5)]
  str_step [OF lookup_members(6)]
  str_step [OF lookup_members(7)]
  str_step [OF lookup_members(8)]
  str_step [OF lookup_members(12)]
  str_step [OF lookup_members(13)]
  str_step [OF lookup_members(22)]
  str_step [OF lookup_members(25)]
  str_step [OF lookup_members(28)]
  bool_step [OF lookup_members(11)]
  bool_step [OF lookup_members(16)]
  bool_step [OF lookup_members(17)]
  bool_step [OF lookup_members(18)]
  bool_step [OF lookup_members(19)]
  bool_step [OF lookup_members(20)]
  bool_step [OF lookup_members(21)]
  opt_step [OF lookup_members(9)]
  opt_step [OF lookup_members(10)]
  opt_step [OF lookup_members(14)]
  opt_step [OF lookup_members(15)]
  opt_step [OF lookup_members(23)]
  opt_step [OF lookup_members(24)]
  opt_step [OF lookup_members(26)]
  opt_step [OF lookup_members(29)]
  opt_step [OF lookup_members(30)]
  opt_step [OF lookup_members(31)]
  json_step [OF lookup_members(27)]

text \<open>The JSON form of a verification record, read back with \<^verbatim>\<open>fromJson\<close>, gives the
  record, except for the five fields \<^verbatim>\<open>toJson\<close> does not write, which come back with their
  defaults.\<close>

theorem pa_record_roundtrip: "pa_verification_fromJson (pa_verification_toJson v) = Some (json_part v)"
  unfolding pa_verification_fromJson_def pa_verification_toJson_def
  by (simp add: member_steps set_options pa_verification0_def) (simp add: json_part_def)

end
