(* ===== verification/Access_Rules.thy ===== *)
theory Access_Rules
  imports Interfaces
begin

text \<open>
  The rules \<^verbatim>\<open>services/pkd-management/src/middleware/auth_middleware.cpp\<close> decides
  access by: the table of public endpoints with its lazily compiled regular expressions, and
  the address list of an API client (\<^verbatim>\<open>isIpAllowed\<close>).
\<close>

unbundle bit_operations_syntax

section \<open>Regular expressions\<close>

text \<open>\<^verbatim>\<open>std::regex\<close> in its default (ECMAScript) grammar, for the constructs the sources use:
  characters, \<^verbatim>\<open>.\<close> (no line terminator), bracket classes with ranges and an escaped hyphen,
  \<^verbatim>\<open>*\<close> and \<^verbatim>\<open>+\<close>, and the anchors, which \<^verbatim>\<open>regex_match\<close> makes redundant at the two
  ends.  Patterns outside this fragment, which an operator can enter for an API client, are left
  to an engine \<open>re\<close>: whether it accepts the pattern, and what the pattern matches.\<close>

datatype rx_set = One_Char char | Any_Char | Char_Class "(char \<times> char) list"

datatype rx_item = Once rx_set | Star rx_set | Plus rx_set

datatype rx = Rx_Items "rx_item list" | Rx_Other string

record rx_engine =
  re_valid :: "string \<Rightarrow> bool"
  re_matches :: "string \<Rightarrow> string \<Rightarrow> bool"

fun rx_in :: "rx_set \<Rightarrow> char \<Rightarrow> bool" where
  "rx_in (One_Char a) c = (c = a)"
| "rx_in Any_Char c = (c \<noteq> CHR 0x0A \<and> c \<noteq> CHR 0x0D)"
| "rx_in (Char_Class rs) c = (\<exists>(a, b) \<in> set rs. of_char a \<le> (of_char c :: nat) \<and> (of_char c :: nat) \<le> of_char b)"

function rx_match :: "rx_item list \<Rightarrow> string \<Rightarrow> bool" where
  "rx_match [] s = (s = [])"
| "rx_match (Once a # r) s = (case s of [] \<Rightarrow> False | c # cs \<Rightarrow> rx_in a c \<and> rx_match r cs)"
| "rx_match (Star a # r) s = (rx_match r s \<or> (case s of [] \<Rightarrow> False | c # cs \<Rightarrow> rx_in a c \<and> rx_match (Star a # r) cs))"
| "rx_match (Plus a # r) s = (case s of [] \<Rightarrow> False | c # cs \<Rightarrow> rx_in a c \<and> rx_match (Star a # r) cs)"
  by pat_completeness auto
termination by (relation "measure (\<lambda>(r, s). length r + 2 * length s)") auto

declare rx_match.simps(3) [simp del]

lemma rx_match_Star [simp]:
  "rx_match (Star a # r) [] = rx_match r []"
  "rx_match (Star a # r) (c # cs) = (rx_match r (c # cs) \<or> rx_in a c \<and> rx_match (Star a # r) cs)"
  by (simp_all add: rx_match.simps(3) [of a r])

lemma rx_match_skip: "rx_match r s \<Longrightarrow> rx_match (Star a # r) s"
  by (cases s) auto

text \<open>The body of a bracket class, after \<^verbatim>\<open>[\<close>.\<close>

fun rx_class :: "nat \<Rightarrow> string \<Rightarrow> ((char \<times> char) list \<times> string) option" where
  "rx_class 0 s = None"
| "rx_class (Suc n) s =
     (case s of
        [] \<Rightarrow> None
      | c # r \<Rightarrow>
          if c = CHR '']'' then Some ([], r)
          else if c = CHR 0x5C then
            (case r of [] \<Rightarrow> None | d # r' \<Rightarrow>
               if d = CHR ''-'' then map_option (apfst (Cons (d, d))) (rx_class n r') else None)
          else if take 1 r = ''-'' \<and> 2 \<le> length r \<and> hd (tl r) \<notin> {CHR '']'', CHR 0x5C}
          then map_option (apfst (Cons (c, hd (tl r)))) (rx_class n (drop 2 r))
          else if c \<in> {CHR ''['', CHR ''^'', CHR ''-''} then None
          else map_option (apfst (Cons (c, c))) (rx_class n r))"

definition rx_atom :: "string \<Rightarrow> (rx_set \<times> string) option" where
  "rx_atom s =
     (case s of
        [] \<Rightarrow> None
      | c # r \<Rightarrow>
          if c = CHR ''['' then map_option (apfst Char_Class) (rx_class (length r) r)
          else if c = CHR ''.'' then Some (Any_Char, r)
          else if c \<in> set ''()|?{}*+^$]'' \<or> c = CHR 0x5C then None
          else Some (One_Char c, r))"

definition rx_quantified :: "rx_set \<times> string \<Rightarrow> rx_item \<times> string" where
  "rx_quantified = (\<lambda>(a, r). if take 1 r = ''*'' then (Star a, drop 1 r)
     else if take 1 r = ''+'' then (Plus a, drop 1 r) else (Once a, r))"

fun rx_items :: "nat \<Rightarrow> string \<Rightarrow> rx_item list option" where
  "rx_items 0 s = None"
| "rx_items (Suc n) s =
     (if s = [] \<or> s = ''$'' then Some []
      else case map_option rx_quantified (rx_atom s) of
             None \<Rightarrow> None
           | Some (i, r) \<Rightarrow> map_option (Cons i) (rx_items n r))"

definition regex_compile :: "rx_engine \<Rightarrow> string \<Rightarrow> rx option" where
  "regex_compile re p =
     (case rx_items (Suc (length p)) (if take 1 p = ''^'' then drop 1 p else p) of
        Some is \<Rightarrow> Some (Rx_Items is)
      | None \<Rightarrow> if re_valid re p then Some (Rx_Other p) else None)"

fun regex_match :: "rx_engine \<Rightarrow> string \<Rightarrow> rx \<Rightarrow> bool" where
  "regex_match re s (Rx_Items is) = rx_match is s"
| "regex_match re s (Rx_Other p) = re_matches re p s"

subsection \<open>What a pattern matches\<close>

fun item_takes :: "rx_item \<Rightarrow> string \<Rightarrow> bool" where
  "item_takes (Once a) s = (\<exists>c. s = [c] \<and> rx_in a c)"
| "item_takes (Star a) s = (\<forall>c \<in> set s. rx_in a c)"
| "item_takes (Plus a) s = (s \<noteq> [] \<and> (\<forall>c \<in> set s. rx_in a c))"

text \<open>The matcher, which tries the items from the left, accepts exactly the concatenations of
  texts that the items take.\<close>

lemma rx_match_iff: "rx_match is s \<longleftrightarrow> (\<exists>ts. s = concat ts \<and> list_all2 item_takes is ts)"
proof (induction "is" s rule: rx_match.induct)
  case (1 s)
  then show ?case by simp
next
  case (2 a r s)
  show ?case
  proof (cases s)
    case Nil
    then show ?thesis by (auto simp: list_all2_Cons1)
  next
    case (Cons c cs)
    have "rx_in a c \<and> cs = concat ts \<and> list_all2 item_takes r ts
        \<Longrightarrow> c # cs = concat ([c] # ts) \<and> list_all2 item_takes (Once a # r) ([c] # ts)" for ts
      by simp
    moreover have "rx_in a c \<and> (\<exists>ts. cs = concat ts \<and> list_all2 item_takes r ts)"
      if "c # cs = concat ts" "list_all2 item_takes (Once a # r) ts" for ts
      using that by (auto simp: list_all2_Cons1)
    ultimately have eq: "(\<exists>ts. c # cs = concat ts \<and> list_all2 item_takes (Once a # r) ts)
        \<longleftrightarrow> rx_in a c \<and> (\<exists>ts. cs = concat ts \<and> list_all2 item_takes r ts)" by blast
    show ?thesis unfolding Cons rx_match.simps(2) list.case 2 [OF Cons] eq ..
  qed
next
  case (3 a r s)
  show ?case
  proof
    assume "rx_match (Star a # r) s"
    then consider "rx_match r s" | c cs where "s = c # cs" "rx_in a c" "rx_match (Star a # r) cs"
      by (cases s) auto
    then show "\<exists>ts. s = concat ts \<and> list_all2 item_takes (Star a # r) ts"
    proof cases
      case 1
      then obtain ts where "s = concat ts" "list_all2 item_takes r ts" using 3(1) by blast
      then have "s = concat ([] # ts)" "list_all2 item_takes (Star a # r) ([] # ts)" by simp_all
      then show ?thesis by blast
    next
      case 2
      then obtain t ts where "cs = concat (t # ts)" "list_all2 item_takes (Star a # r) (t # ts)"
        using 3(2) by (auto simp: list_all2_Cons1)
      then have "s = concat ((c # t) # ts)" "list_all2 item_takes (Star a # r) ((c # t) # ts)"
        using 2 by auto
      then show ?thesis by blast
    qed
  next
    assume "\<exists>ts. s = concat ts \<and> list_all2 item_takes (Star a # r) ts"
    then obtain t ts where s: "s = t @ concat ts" "\<forall>c \<in> set t. rx_in a c" "list_all2 item_takes r ts"
      by (auto simp: list_all2_Cons1)
    show "rx_match (Star a # r) s"
    proof (cases t)
      case Nil
      then show ?thesis using s 3(1) by (auto intro!: rx_match_skip)
    next
      case (Cons c t')
      then have "\<exists>us. t' @ concat ts = concat us \<and> list_all2 item_takes (Star a # r) us"
        using s by (intro exI [of _ "t' # ts"]) auto
      then have "rx_match (Star a # r) (t' @ concat ts)"
        using 3(2) [of c "t' @ concat ts"] s(1) Cons by simp
      then show ?thesis using s Cons by simp
    qed
  qed
next
  case (4 a r s)
  show ?case
  proof (cases s)
    case Nil
    then show ?thesis by (auto simp: list_all2_Cons1)
  next
    case (Cons c cs)
    have "rx_in a c \<and> (\<exists>ts. cs = concat ts \<and> list_all2 item_takes (Star a # r) ts)"
      if ts: "c # cs = concat ts" "list_all2 item_takes (Plus a # r) ts" for ts
    proof -
      from ts obtain t us where t: "ts = (c # t) # us" "\<forall>x \<in> set (c # t). rx_in a x" "list_all2 item_takes r us"
        by (auto simp: list_all2_Cons1 neq_Nil_conv)
      then have "cs = concat (t # us) \<and> list_all2 item_takes (Star a # r) (t # us)" using ts by auto
      then show ?thesis using t(2) by (intro conjI exI [of _ "t # us"]) auto
    qed
    moreover have "\<exists>ts. c # cs = concat ts \<and> list_all2 item_takes (Plus a # r) ts"
      if ts: "rx_in a c" "cs = concat ts" "list_all2 item_takes (Star a # r) ts" for ts
    proof -
      from ts obtain t us where "ts = t # us" "\<forall>x \<in> set t. rx_in a x" "list_all2 item_takes r us"
        by (auto simp: list_all2_Cons1)
      then have "c # cs = concat ((c # t) # us) \<and> list_all2 item_takes (Plus a # r) ((c # t) # us)"
        using ts by auto
      then show ?thesis by blast
    qed
    ultimately have eq: "(\<exists>ts. c # cs = concat ts \<and> list_all2 item_takes (Plus a # r) ts)
        \<longleftrightarrow> rx_in a c \<and> (\<exists>ts. cs = concat ts \<and> list_all2 item_takes (Star a # r) ts)" by blast
    show ?thesis unfolding Cons rx_match.simps(4) list.case 4 [OF Cons] eq ..
  qed
qed

lemma rx_match_literal: "rx_match (map (\<lambda>c. Once (One_Char c)) t @ is) s
    \<longleftrightarrow> take (length t) s = t \<and> rx_match is (drop (length t) s)"
  by (induction t arbitrary: s) (auto split: list.splits)

lemma rx_match_plus_end: "rx_match [Plus a] s \<longleftrightarrow> s \<noteq> [] \<and> (\<forall>c \<in> set s. rx_in a c)"
  by (auto simp: rx_match_iff list_all2_Cons1 intro: exI [of _ "[s]"])

section \<open>Public endpoints\<close>

text \<open>The table as the source lists it.  It is a set: the order of the search does not matter.\<close>

definition publicEndpoints :: "string list" where
  "publicEndpoints =
     [''^/api/health.*'', ''^/internal/metrics$'', ''^/api/auth/login$'', ''^/api/auth/register$'',
      ''^/api/auth/logout$'', ''^/api/auth/refresh$'', ''^/api/auth/me$'', ''^/api/auth/users.*'',
      ''^/api/auth/audit-log.*'',
      ''^/api/upload/countries$'', ''^/api/upload/countries/detailed.*'', ''^/api/upload/history.*'',
      ''^/api/upload/statistics$'', ''^/api/upload/statistics/validation-reasons$'',
      ''^/api/upload/changes.*'', ''^/api/upload/[a-f0-9'' @ [CHR 0x5C] @ ''-]+$'',
      ''^/api/upload/detail/[a-f0-9'' @ [CHR 0x5C] @ ''-]+$'',
      ''^/api/upload/[a-f0-9'' @ [CHR 0x5C] @ ''-]+/.*'',
      ''^/api/upload/certificate/preview$'', ''^/api/progress.*'',
      ''^/api/certificates/countries$'', ''^/api/certificates/search.*'',
      ''^/api/certificates/validation.*'', ''^/api/certificates/pa-lookup$'',
      ''^/api/certificates/export/.*'', ''^/api/certificates/dsc-nc/report$'',
      ''^/api/certificates/crl/report$'', ''^/api/certificates/crl/[a-f0-9'' @ [CHR 0x5C] @ ''-]+$'',
      ''^/api/certificates/crl/[a-f0-9'' @ [CHR 0x5C] @ ''-]+/download$'',
      ''^/api/certificates/doc9303-checklist.*'',
      ''^/api/code-master.*'',
      ''^/api/icao/status$'', ''^/api/icao/latest$'', ''^/api/icao/history.*'', ''^/api/icao/check-updates$'',
      ''^/api/sync/status$'', ''^/api/sync/stats$'', ''^/api/reconcile/history.*'',
      ''^/api/audit/operations$'', ''^/api/audit/operations/stats$'',
      ''^/api/pa/verify$'', ''^/api/pa/parse-sod$'', ''^/api/pa/parse-dg1$'', ''^/api/pa/parse-dg2$'',
      ''^/api/pa/parse-mrz-text$'', ''^/api/pa/history.*'', ''^/api/pa/statistics$'',
      ''^/api/pa/[a-f0-9'' @ [CHR 0x5C] @ ''-]+$'', ''^/api/pa/[a-f0-9'' @ [CHR 0x5C] @ ''-]+/datagroups$'',
      ''^/static/.*'', ''^/api-docs.*'', ''^/swagger-ui/.*'', ''^/api/validation/revalidate$'']"

text \<open>The static members: the patterns, those compiled so far, and whether the
  \<^verbatim>\<open>once_flag\<close> has been used.\<close>

record endpoint_table =
  et_patterns :: "string list"
  et_compiled :: "rx list"
  et_initialised :: bool

definition endpoint_table0 :: endpoint_table where
  "endpoint_table0 = \<lparr>et_patterns = publicEndpoints, et_compiled = [], et_initialised = False\<rparr>"

text \<open>A pattern the engine rejects is logged and skipped.\<close>

definition compiled :: "rx_engine \<Rightarrow> string \<Rightarrow> rx list" where
  "compiled re p = (case regex_compile re p of None \<Rightarrow> [] | Some r \<Rightarrow> [r])"

definition addPublicEndpoint :: "rx_engine \<Rightarrow> string \<Rightarrow> endpoint_table \<Rightarrow> endpoint_table" where
  "addPublicEndpoint re p t =
     t\<lparr>et_patterns := (if p \<in> set (et_patterns t) then et_patterns t else et_patterns t @ [p]),
       et_compiled := et_compiled t @ compiled re p\<rparr>"

definition initPatterns :: "rx_engine \<Rightarrow> endpoint_table \<Rightarrow> endpoint_table" where
  "initPatterns re t =
     (if et_initialised t then t
      else t\<lparr>et_compiled := et_compiled t @ concat (map (compiled re) (et_patterns t)), et_initialised := True\<rparr>)"

definition isPublicEndpoint :: "rx_engine \<Rightarrow> string \<Rightarrow> endpoint_table \<Rightarrow> bool \<times> endpoint_table" where
  "isPublicEndpoint re path t =
     (let t' = initPatterns re t in (list_ex (regex_match re path) (et_compiled t'), t'))"

inductive table_step :: "rx_engine \<Rightarrow> endpoint_table \<Rightarrow> endpoint_table \<Rightarrow> bool" for re where
  table_add: "table_step re t (addPublicEndpoint re p t)"
| table_ask: "table_step re t (snd (isPublicEndpoint re path t))"

inductive_cases table_stepE: "table_step re t t'"

definition table_ok :: "rx_engine \<Rightarrow> endpoint_table \<Rightarrow> bool" where
  "table_ok re t =
     (set (et_compiled t) \<subseteq> \<Union> (set ` compiled re ` set (et_patterns t))
      \<and> (et_initialised t \<longrightarrow> set (et_compiled t) = \<Union> (set ` compiled re ` set (et_patterns t)))
      \<and> set publicEndpoints \<subseteq> set (et_patterns t))"

lemma table_ok_add: "table_ok re t \<Longrightarrow> table_ok re (addPublicEndpoint re p t)"
  by (auto simp: table_ok_def addPublicEndpoint_def)

lemma table_ok_init: "table_ok re t \<Longrightarrow> table_ok re (initPatterns re t) \<and> et_initialised (initPatterns re t)"
  by (auto simp: table_ok_def initPatterns_def)

interpretation endpoints: invariant_system "\<lambda>t. t = endpoint_table0" "table_step re" "table_ok re" for re
proof unfold_locales
  show "t = endpoint_table0 \<Longrightarrow> table_ok re t" for t
    by (simp add: table_ok_def endpoint_table0_def)
  show "table_ok re t \<Longrightarrow> table_step re t t' \<Longrightarrow> table_ok re t'" for t t'
    by (auto elim!: table_stepE simp: table_ok_add table_ok_init isPublicEndpoint_def Let_def)
qed

text \<open>What a path is compared with: any pattern of the table the engine accepts.\<close>

definition path_public :: "rx_engine \<Rightarrow> string list \<Rightarrow> string \<Rightarrow> bool" where
  "path_public re ps path =
     list_ex (\<lambda>p. list_ex (regex_match re path) (compiled re p)) ps"

lemma isPublicEndpoint_ok:
  assumes "table_ok re t"
  shows "fst (isPublicEndpoint re path t) = path_public re (et_patterns t) path"
proof -
  have "table_ok re (initPatterns re t)" "et_initialised (initPatterns re t)"
    using table_ok_init [OF assms] by simp_all
  moreover have "et_patterns (initPatterns re t) = et_patterns t" by (simp add: initPatterns_def)
  ultimately have "set (et_compiled (initPatterns re t)) = \<Union> (set ` compiled re ` set (et_patterns t))"
    by (simp add: table_ok_def)
  then show ?thesis
    by (auto simp: isPublicEndpoint_def path_public_def list_ex_iff Let_def)
qed

text \<open>Whenever patterns are added, before or after the first request, and however often: the
  lazily compiled table answers exactly like matching the path with every pattern of the set,
  and the patterns of the source stay in it.\<close>

theorem public_endpoint_iff:
  assumes "reachable_from (\<lambda>t. t = endpoint_table0) (table_step re) t"
  shows "fst (isPublicEndpoint re path t) = path_public re (et_patterns t) path
    \<and> set publicEndpoints \<subseteq> set (et_patterns t)"
  using isPublicEndpoint_ok endpoints.reachable_inv [OF assms] by (simp add: table_ok_def)

definition hex_id :: "string \<Rightarrow> bool" where
  "hex_id s = (s \<noteq> [] \<and> (\<forall>c \<in> set s. rx_in (Char_Class [(CHR ''a'', CHR ''f''), (CHR ''0'', CHR ''9''), (CHR ''-'', CHR ''-'')]) c))"

lemma upload_id_pattern:
  "regex_compile re (''^/api/upload/[a-f0-9'' @ [CHR 0x5C] @ ''-]+$'')
    = Some (Rx_Items (map (\<lambda>c. Once (One_Char c)) ''/api/upload/''
        @ [Plus (Char_Class [(CHR ''a'', CHR ''f''), (CHR ''0'', CHR ''9''), (CHR ''-'', CHR ''-'')])]))"
  by code_simp

lemma upload_id_public:
  assumes "hex_id i" "set publicEndpoints \<subseteq> set ps"
  shows "path_public re ps (''/api/upload/'' @ i)"
proof -
  let ?p = "''^/api/upload/[a-f0-9'' @ [CHR 0x5C] @ ''-]+$''"
  have p: "?p \<in> set ps" using assms(2) unfolding publicEndpoints_def by auto
  have "rx_match (map (\<lambda>c. Once (One_Char c)) ''/api/upload/''
      @ [Plus (Char_Class [(CHR ''a'', CHR ''f''), (CHR ''0'', CHR ''9''), (CHR ''-'', CHR ''-'')])])
      (''/api/upload/'' @ i)"
    unfolding rx_match_literal rx_match_plus_end using assms(1) unfolding hex_id_def by auto
  then have "list_ex (regex_match re (''/api/upload/'' @ i)) (compiled re ?p)"
    unfolding compiled_def upload_id_pattern option.case list_ex_Cons_iff regex_match.simps by (rule disjI1)
  with p show ?thesis unfolding path_public_def list_ex_iff by blast
qed

section \<open>Address lists\<close>

text \<open>\<^verbatim>\<open>common::handler::safeStoi\<close>.\<close>

definition safeStoi :: "string \<Rightarrow> int \<Rightarrow> int \<Rightarrow> int \<Rightarrow> int" where
  "safeStoi str defaultValue minVal maxVal =
     (if str = [] then defaultValue
      else case stoi 10 str of
             Inl _ \<Rightarrow> defaultValue
           | Inr v \<Rightarrow> if v < minVal then minVal else if maxVal < v then maxVal else v)"

text \<open>\<^verbatim>\<open>char\<close> is signed.\<close>

definition c_int :: "char \<Rightarrow> int" where
  "c_int c = (let n = of_char c :: int in if 128 \<le> n then n - 256 else n)"

text \<open>The lambda \<^verbatim>\<open>parseIp\<close>: \<^verbatim>\<open>octet << shift\<close> is the product modulo $2^{32}$.  \<^term>\<open>None\<close> is
  undefined behaviour: a shift by a negative amount (a fifth octet) or an overflow of the
  \<^verbatim>\<open>int\<close> \<^verbatim>\<open>octet\<close>.\<close>

definition shl32 :: "int \<Rightarrow> int \<Rightarrow> 32 word option" where
  "shl32 octet shift = (if 0 \<le> shift \<and> shift < 32 then Some (word_of_int (octet * 2 ^ nat shift)) else None)"

fun parseIp_loop :: "32 word \<Rightarrow> int \<Rightarrow> int \<Rightarrow> string \<Rightarrow> 32 word option" where
  "parseIp_loop r octet shift [] = map_option (\<lambda>w. r OR w) (shl32 octet shift)"
| "parseIp_loop r octet shift (c # cs) =
     (if c = CHR ''.'' then
        (case shl32 octet shift of None \<Rightarrow> None | Some w \<Rightarrow> parseIp_loop (r OR w) 0 (shift - 8) cs)
      else let o10 = octet * 10; o' = o10 + (c_int c - 48)
           in if - (2 ^ 31) \<le> o10 \<and> o10 < 2 ^ 31 \<and> - (2 ^ 31) \<le> o' \<and> o' < 2 ^ 31
              then parseIp_loop r o' shift cs else None)"

definition parseIp :: "string \<Rightarrow> 32 word option" where
  "parseIp ip = parseIp_loop 0 0 24 ip"

definition normalize_ip :: "string \<Rightarrow> string" where
  "normalize_ip ip =
     (if ip = ''::1'' then ''127.0.0.1''
      else if take 7 ip = ''::ffff:'' \<and> 7 < length ip then drop 7 ip else ip)"

definition cidr_mask :: "int \<Rightarrow> 32 word" where
  "cidr_mask maskBits = (if 0 < maskBits then NOT (push_bit (nat (32 - maskBits)) 1 - 1) else 0)"

text \<open>One entry of the list: \<open>Some b\<close> when it decides, or undefined behaviour.\<close>

definition cidr_matches :: "string \<Rightarrow> string \<Rightarrow> nat \<Rightarrow> bool option" where
  "cidr_matches allowed ip slashPos =
     (let mask = cidr_mask (safeStoi (drop (slashPos + 1) allowed) 32 0 32)
      in case parseIp (take slashPos allowed) of
           None \<Rightarrow> None
         | Some networkAddr \<Rightarrow>
             (case parseIp ip of
                None \<Rightarrow> None
              | Some clientAddr \<Rightarrow> Some (clientAddr AND mask = networkAddr AND mask)))"

definition entry_allows :: "string \<Rightarrow> string \<Rightarrow> bool option" where
  "entry_allows ip entry =
     (let allowed = normalize_ip entry in
      if allowed = ip then Some True
      else
        let cidr = (case str_find allowed ''/'' 0 of None \<Rightarrow> Some False | Some i \<Rightarrow> cidr_matches allowed ip i)
        in case cidr of
             None \<Rightarrow> None
           | Some True \<Rightarrow> Some True
           | Some False \<Rightarrow>
               if allowed = [] then None
               else Some (last allowed = CHR ''.'' \<and> take (length allowed) ip = allowed))"

fun entries_allow :: "string \<Rightarrow> string list \<Rightarrow> bool option" where
  "entries_allow ip [] = Some False"
| "entries_allow ip (e # es) =
     (case entry_allows ip e of None \<Rightarrow> None | Some True \<Rightarrow> Some True | Some False \<Rightarrow> entries_allow ip es)"

definition isIpAllowed :: "string list \<Rightarrow> string \<Rightarrow> bool option" where
  "isIpAllowed allowedIps clientIp =
     (if allowedIps = [] then Some True else entries_allow (normalize_ip clientIp) allowedIps)"

subsection \<open>IPv4 networks\<close>

definition ip_text :: "nat \<Rightarrow> nat \<Rightarrow> nat \<Rightarrow> nat \<Rightarrow> string" where
  "ip_text a b c d = nat_dec a @ ''.'' @ nat_dec b @ ''.'' @ nat_dec c @ ''.'' @ nat_dec d"

definition ip_word :: "nat \<Rightarrow> nat \<Rightarrow> nat \<Rightarrow> nat \<Rightarrow> 32 word" where
  "ip_word a b c d = push_bit 24 (word_of_nat a) OR push_bit 16 (word_of_nat b)
     OR push_bit 8 (word_of_nat c) OR word_of_nat d"

lemma digit_facts:
  assumes "n < 10"
  shows "c_int (char_of (48 + n)) = 48 + int n" "char_of (48 + n) \<noteq> CHR ''.''"
    "char_of (48 + n) \<noteq> CHR ''/''" "char_of (48 + n) \<noteq> CHR '':''"
proof -
  have o: "(of_char (char_of (48 + n) :: char) :: nat) = 48 + n" using assms by (simp add: of_char_of)
  then have "(of_char (char_of (48 + n) :: char) :: int) = 48 + int n"
    by (metis of_nat_add of_nat_numeral of_nat_of_char)
  then show "c_int (char_of (48 + n)) = 48 + int n" using assms by (simp add: c_int_def Let_def)
  have "char_of (48 + n) \<noteq> k" if "(of_char k :: nat) < 48 \<or> 57 < (of_char k :: nat)" for k
  proof
    assume "char_of (48 + n) = k"
    then have "of_char k = 48 + n" by (metis o)
    then show False using that assms by auto
  qed
  then show "char_of (48 + n) \<noteq> CHR ''.''" "char_of (48 + n) \<noteq> CHR ''/''" "char_of (48 + n) \<noteq> CHR '':''"
    by simp_all
qed

lemma parseIp_number: "n < 2 ^ 28 \<Longrightarrow> parseIp_loop r 0 shift (nat_dec n @ cs) = parseIp_loop r (int n) shift cs"
proof (induction n arbitrary: cs rule: nat_dec.induct)
  case (1 n)
  have dig: "parseIp_loop r o' shift (char_of (48 + m) # cs) = parseIp_loop r (o' * 10 + int m) shift cs"
    if "m < 10" "0 \<le> o'" "o' * 10 + int m < 2 ^ 28" for o' m cs
    using that digit_facts [OF that(1)] by (simp add: Let_def)
  show ?case
  proof (cases "n < 10")
    case True
    then show ?thesis using dig [of n 0 cs] by (simp add: nat_dec.simps [of n])
  next
    case False
    then have "parseIp_loop r 0 shift (nat_dec n @ cs)
        = parseIp_loop r (int (n div 10)) shift (char_of (48 + n mod 10) # cs)"
      using 1 by (simp add: nat_dec.simps [of n])
    also have "\<dots> = parseIp_loop r (int (n div 10) * 10 + int (n mod 10)) shift cs"
      using 1(2) by (intro dig) (simp_all add: zdiv_int zmod_int)
    finally show ?thesis by (simp add: zdiv_int zmod_int)
  qed
qed

lemma parseIp_text:
  assumes "a < 256" "b < 256" "c < 256" "d < 256"
  shows "parseIp (ip_text a b c d) = Some (ip_word a b c d)"
proof -
  have w: "word_of_int (int n * 2 ^ k) = (push_bit k (word_of_nat n) :: 32 word)" for n k
    by (simp add: push_bit_eq_mult)
  have "shl32 (int a) 24 = Some (push_bit 24 (word_of_nat a))" "shl32 (int b) 16 = Some (push_bit 16 (word_of_nat b))"
    "shl32 (int c) 8 = Some (push_bit 8 (word_of_nat c))" "shl32 (int d) 0 = Some (word_of_nat d)"
    using w [of a 24] w [of b 16] w [of c 8] w [of d 0] by (simp_all add: shl32_def)
  moreover have "parseIp_loop r 0 s (nat_dec d) = parseIp_loop r (int d) s []" for r s
    using parseIp_number [of d r s "[]"] assms by simp
  ultimately show ?thesis
    using assms by (simp add: parseIp_def ip_text_def ip_word_def parseIp_number or.assoc)
qed

lemma cidr_mask_matches:
  assumes "0 \<le> m" "m \<le> 32"
  shows "(x AND cidr_mask m = y AND cidr_mask m) = (drop_bit (nat (32 - m)) x = drop_bit (nat (32 - m)) y)"
proof (cases "m = 0")
  case True
  have "drop_bit 32 w = 0" for w :: "32 word"
    by (rule bit_eqI) (auto simp: bit_drop_bit_eq dest: bit_imp_le_length)
  then show ?thesis using True by (simp add: cidr_mask_def)
next
  case False
  let ?k = "nat (32 - m)"
  have "cidr_mask m = NOT (mask ?k)"
    using assms False by (simp add: cidr_mask_def mask_eq_exp_minus_1 push_bit_of_1)
  moreover have high: "w AND NOT (mask ?k) = push_bit ?k (drop_bit ?k w)" for w :: "32 word"
    by (rule bit_eqI) (auto simp: bit_and_iff bit_not_iff bit_mask_iff bit_push_bit_iff bit_drop_bit_eq)
  moreover have "drop_bit ?k (push_bit ?k (drop_bit ?k w)) = drop_bit ?k w" for w :: "32 word"
    by (rule bit_eqI) (auto simp: bit_push_bit_iff bit_drop_bit_eq dest: bit_imp_le_length)
  ultimately show ?thesis by metis
qed

lemma nat_dec_chars:
  assumes "\<not> c_isdigit c"
  shows "c \<notin> set (nat_dec n)"
  using nat_dec_digits assms by blast

lemma ip_text_chars:
  assumes "\<not> c_isdigit c" "c \<noteq> CHR ''.''"
  shows "c \<notin> set (ip_text i j k l)"
  using assms by (auto simp: ip_text_def dest: nat_dec_chars)

lemma normalize_dotted: "normalize_ip (ip_text a b c d @ r) = ip_text a b c d @ r"
proof -
  obtain x xs where x: "nat_dec a = x # xs" by (cases "nat_dec a") auto
  then have "c_isdigit x" using nat_dec_digits [of a] by simp
  then have "x \<noteq> CHR '':''" by (auto simp: c_isdigit_def)
  then show ?thesis by (simp add: normalize_ip_def ip_text_def x)
qed

lemma safeStoi_nat_dec: "m \<le> 32 \<Longrightarrow> safeStoi (nat_dec m) 32 0 32 = int m"
  using stoi_int_dec [of "int m"] by (simp add: safeStoi_def int_dec_def)

text \<open>C21. Network entries in an API client's address list mean what they say: for IPv4 addresses in
  dotted decimal form, an entry \<open>a.b.c.d/m\<close> admits exactly the clients whose address agrees with
  \<open>a.b.c.d\<close> in its first \<open>m\<close> bits, for every prefix length from 0 to 32.\<close>

theorem cidr_entry_iff:
  assumes "a < 256" "b < 256" "c < 256" "d < 256" "a' < 256" "b' < 256" "c' < 256" "d' < 256" "m \<le> 32"
  shows "isIpAllowed [ip_text a b c d @ ''/'' @ nat_dec m] (ip_text a' b' c' d')
    = Some (drop_bit (32 - m) (ip_word a' b' c' d') = drop_bit (32 - m) (ip_word a b c d))"
proof -
  let ?net = "ip_text a b c d" and ?ip = "ip_text a' b' c' d'"
  let ?e = "?net @ CHR ''/'' # nat_dec m"
  have sl: "CHR ''/'' \<notin> set (ip_text i j k l)" for i j k l
    by (rule ip_text_chars) (simp_all add: c_isdigit_def)
  have n: "normalize_ip ?e = ?e" "normalize_ip ?ip = ?ip"
    using normalize_dotted [of a b c d "CHR ''/'' # nat_dec m"] normalize_dotted [of a' b' c' d' "[]"] by simp_all
  have ne: "?e \<noteq> ?ip" using sl [of a' b' c' d'] by (metis in_set_conv_decomp)
  have f: "str_find ?e ''/'' 0 = Some (length ?net)" by (rule str_find_char0) (rule sl)
  have cm: "cidr_matches ?e ?ip (length ?net)
      = Some (drop_bit (32 - m) (ip_word a' b' c' d') = drop_bit (32 - m) (ip_word a b c d))"
    using cidr_mask_matches [of "int m"] assms
    by (simp add: cidr_matches_def Let_def parseIp_text safeStoi_nat_dec nat_diff_distrib)
  have l: "last ?e \<noteq> CHR ''.''"
  proof -
    have "last ?e = last (nat_dec m)" by simp
    moreover have "last (nat_dec m) \<in> set (nat_dec m)" by (rule last_in_set) simp
    moreover have "CHR ''.'' \<notin> set (nat_dec m)" by (rule nat_dec_chars) (simp add: c_isdigit_def)
    ultimately show ?thesis by metis
  qed
  have "entry_allows ?ip ?e = Some (drop_bit (32 - m) (ip_word a' b' c' d') = drop_bit (32 - m) (ip_word a b c d))"
    using l ne unfolding entry_allows_def n Let_def f option.case cm
    by (auto split: bool.split)
  then show ?thesis unfolding isIpAllowed_def n by (simp split: bool.split)
qed

lemma cidr_entry_iff_witness:
  "isIpAllowed [ip_text 10 0 0 0 @ ''/'' @ nat_dec 8] (ip_text 10 89 1 42) = Some True
   \<and> isIpAllowed [ip_text 10 0 0 0 @ ''/'' @ nat_dec 8] (ip_text 11 0 0 0) = Some False"
  using cidr_entry_iff [of 10 0 0 0 10 89 1 42 8] cidr_entry_iff [of 10 0 0 0 11 0 0 0 8]
  by (simp add: ip_word_def)

text \<open>Outside dotted IPv4 the arithmetic goes on regardless: the IPv6 client \<^verbatim>\<open>::c\<close> is
  admitted by the IPv4 network 127.0.0.0/8, and an entry that is the empty string is undefined
  behaviour (\<^verbatim>\<open>back()\<close> of an empty string) for every client with an address.\<close>

lemma ip_list_defects:
  shows "isIpAllowed [''127.0.0.0/8''] ''::c'' = Some True"
    and "ip \<noteq> [] \<Longrightarrow> isIpAllowed [[]] ip = None"
proof -
  show "isIpAllowed [''127.0.0.0/8''] ''::c'' = Some True" by code_simp
  assume "ip \<noteq> []"
  moreover have "normalize_ip ip \<noteq> []" using \<open>ip \<noteq> []\<close> by (auto simp: normalize_ip_def)
  ultimately show "isIpAllowed [[]] ip = None"
    by (simp add: isIpAllowed_def entry_allows_def normalize_ip_def str_find_def)
qed

section \<open>Witnesses\<close>

definition demo_engine :: rx_engine where
  "demo_engine = \<lparr>re_valid = (\<lambda>_. False), re_matches = (\<lambda>_ _. False)\<rparr>"

lemma public_endpoint_iff_witness:
  "fst (isPublicEndpoint demo_engine ''/api/docs/x'' (addPublicEndpoint demo_engine ''^/api/docs/.*'' endpoint_table0))"
proof -
  have r: "reachable_from (\<lambda>t. t = endpoint_table0) (table_step demo_engine)
      (addPublicEndpoint demo_engine ''^/api/docs/.*'' endpoint_table0)"
    by (rule reach_step [where s = endpoint_table0]) (auto intro: reach_init table_add)
  have "list_ex (regex_match demo_engine ''/api/docs/x'') (compiled demo_engine ''^/api/docs/.*'')"
    by code_simp
  then show ?thesis
    using public_endpoint_iff [OF r] by (auto simp: path_public_def addPublicEndpoint_def list_ex_iff)
qed

end
