(* ===== verification/Credentials.thy ===== *)
theory Credentials
  imports Interfaces
begin

text \<open>
  \<^verbatim>\<open>services/pkd-management/src/auth/password_hash.cpp\<close> and
  \<^verbatim>\<open>api_key_generator.cpp\<close>: the stored form of passwords
  (\<^verbatim>\<open>$pbkdf2$iterations$salt$hash\<close>) and the format of API keys.  The random bytes, PBKDF2
  (\<open>kdf\<close>: password, salt, iterations and key length to the key, or \<^term>\<open>None\<close> when OpenSSL
  fails) and SHA-256 are arguments.
\<close>

section \<open>Passwords\<close>

type_synonym kdf = "string \<Rightarrow> byte list \<Rightarrow> int \<Rightarrow> nat \<Rightarrow> byte list option"

definition toHex :: "byte list \<Rightarrow> string" where
  "toHex d = bytes_hex d"

text \<open>The loop advances by two; \<^verbatim>\<open>substr(i, 2)\<close> of the last odd character has one character.\<close>

fun fromHex :: "string \<Rightarrow> byte list res" where
  "fromHex [] = Inr []"
| "fromHex [c] = rbind (stoi 16 [c]) (\<lambda>b. Inr [word_of_int b])"
| "fromHex (c # d # r) = rbind (stoi 16 [c, d]) (\<lambda>b. rbind (fromHex r) (\<lambda>bs. Inr (word_of_int b # bs)))"

definition hashPassword :: "kdf \<Rightarrow> byte list option \<Rightarrow> string \<Rightarrow> int \<Rightarrow> string res" where
  "hashPassword kdf rnd password iterations =
     (case rnd of
        None \<Rightarrow> Inl (Runtime_Error ''Failed to generate random salt'')
      | Some salt \<Rightarrow>
          (case kdf password salt iterations 32 of
             None \<Rightarrow> Inl (Runtime_Error ''PBKDF2 hashing failed'')
           | Some hash \<Rightarrow> Inr (''$pbkdf2$'' @ int_dec iterations @ ''$'' @ toHex salt @ ''$'' @ toHex hash)))"

text \<open>\<^verbatim>\<open>find('$', npos + 1)\<close> searches from 0 again; every such case ends in the exception.\<close>

definition extractSalt :: "string \<Rightarrow> string res" where
  "extractSalt storedHash =
     (let invalid = Inl (Runtime_Error ''Invalid hash format: cannot extract salt'') in
      case str_find storedHash ''$'' 1 of None \<Rightarrow> invalid
      | Some a \<Rightarrow> (case str_find storedHash ''$'' (a + 1) of None \<Rightarrow> invalid
      | Some b \<Rightarrow> (case str_find storedHash ''$'' (b + 1) of None \<Rightarrow> invalid
      | Some c \<Rightarrow> substr storedHash (b + 1) (c - b - 1))))"

definition extractIterations :: "string \<Rightarrow> int res" where
  "extractIterations storedHash =
     (let invalid = Inl (Runtime_Error ''Invalid hash format: cannot extract iterations'') in
      case str_find storedHash ''$'' 1 of None \<Rightarrow> invalid
      | Some a \<Rightarrow> (case str_find storedHash ''$'' (a + 1) of None \<Rightarrow> invalid
      | Some b \<Rightarrow> rbind (substr storedHash (a + 1) (b - a - 1)) (stoi 10)))"

definition verifyPassword :: "kdf \<Rightarrow> string \<Rightarrow> string \<Rightarrow> bool" where
  "verifyPassword kdf password storedHash =
     (if take 8 storedHash \<noteq> ''$pbkdf2$'' then False
      else case rbind (extractIterations storedHash) (\<lambda>iterations.
          rbind (extractSalt storedHash) (\<lambda>saltHex.
          rbind (fromHex saltHex) (\<lambda>salt.
            case kdf password salt iterations 32 of
              None \<Rightarrow> Inr False
            | Some hash \<Rightarrow>
                rbind (substr_end storedHash (case find_last_of storedHash ''$'' of None \<Rightarrow> 0 | Some n \<Rightarrow> n + 1))
                  (\<lambda>stored. Inr (toHex hash = stored))))) of
        Inr b \<Rightarrow> b | Inl _ \<Rightarrow> False)"

lemma fromHex_toHex [simp]: "fromHex (toHex bs) = Inr bs"
proof (induction bs)
  case Nil
  then show ?case by (simp add: toHex_def)
next
  case (Cons b bs)
  have "stoi 16 [hex_digit (unat b div 16), hex_digit (unat b mod 16)] = Inr (int (unat b))"
    using stoi_hex_byte [of b] by (simp add: byte_hex_def)
  then show ?case using Cons by (simp add: toHex_def)
qed

interpretation hex: text_codec toHex "\<lambda>s. case fromHex s of Inr bs \<Rightarrow> Some bs | Inl _ \<Rightarrow> None" "\<lambda>_. True" hex_alphabet
  by unfold_locales (auto simp: toHex_def bytes_hex_alphabet [THEN subsetD] fromHex_toHex [unfolded toHex_def])

interpretation int32: text_codec int_dec "\<lambda>s. case stoi 10 s of Inr z \<Rightarrow> Some z | Inl _ \<Rightarrow> None"
  "\<lambda>z. - (2 ^ 31) \<le> z \<and> z < 2 ^ 31" "{c. c_isdigit c \<or> c = CHR ''-''}"
  using int_dec_chars by unfold_locales (auto simp: stoi_int_dec)

definition stored_form :: "int \<Rightarrow> byte list \<Rightarrow> byte list \<Rightarrow> string" where
  "stored_form it salt hash = ''$pbkdf2$'' @ int_dec it @ ''$'' @ toHex salt @ ''$'' @ toHex hash"

lemma no_dollar:
  "CHR ''$'' \<notin> {c. c_isdigit c \<or> c = CHR ''-''}" "CHR ''$'' \<notin> hex_alphabet"
  by (simp_all add: c_isdigit_def hex_alphabet_def digit_val_def)

lemma stored_dollars:
  assumes "- (2 ^ 31) \<le> it" "it < 2 ^ 31"
  shows "str_find (stored_form it salt hash) ''$'' 1 = Some 7"
    and "str_find (stored_form it salt hash) ''$'' 8 = Some (8 + length (int_dec it))"
    and "str_find (stored_form it salt hash) ''$'' (9 + length (int_dec it))
      = Some (9 + length (int_dec it) + length (toHex salt))"
    and "find_last_of (stored_form it salt hash) ''$'' = Some (9 + length (int_dec it) + length (toHex salt))"
proof -
  let ?s = "stored_form it salt hash"
  have 1: "?s = ''$'' @ ''pbkdf2'' @ CHR ''$'' # int_dec it @ ''$'' @ toHex salt @ ''$'' @ toHex hash"
    by (simp add: stored_form_def)
  show "str_find ?s ''$'' 1 = Some 7"
    unfolding 1 by (simp add: str_find_def)
  have 2: "?s = ''$pbkdf2$'' @ int_dec it @ CHR ''$'' # toHex salt @ ''$'' @ toHex hash"
    by (simp add: stored_form_def)
  show "str_find ?s ''$'' 8 = Some (8 + length (int_dec it))"
    using int32.find_separator [of it "CHR ''$''" "''$pbkdf2$''" "toHex salt @ ''$'' @ toHex hash"]
      assms no_dollar(1) unfolding 2 by (simp add: numeral_eq_Suc)
  have 3: "?s = (''$pbkdf2$'' @ int_dec it @ ''$'') @ toHex salt @ CHR ''$'' # toHex hash"
    by (simp add: stored_form_def)
  show "str_find ?s ''$'' (9 + length (int_dec it)) = Some (9 + length (int_dec it) + length (toHex salt))"
    using hex.find_separator [where x = salt and c = "CHR ''$''" and pre = "''$pbkdf2$'' @ int_dec it @ ''$''"
        and r = "toHex hash"]
      no_dollar(2) unfolding 3 by (simp add: numeral_eq_Suc)
  have last: "last_index_where P (a @ CHR ''$'' # b) i acc = Some (i + length a)"
    if "P (CHR ''$'')" "\<forall>c \<in> set b. \<not> P c" for P a b i acc
  proof -
    have n: "last_index_where P b j (Some k) = Some k" for j k
      using that(2) by (induction b arbitrary: j) auto
    show ?thesis using that(1) by (induction a arbitrary: i acc) (simp_all add: n)
  qed
  have 4: "?s = (''$pbkdf2$'' @ int_dec it @ ''$'' @ toHex salt) @ CHR ''$'' # toHex hash"
    by (simp add: stored_form_def)
  have "CHR ''$'' \<notin> set (toHex hash)"
    using hex.separator_not_in_enc no_dollar(2) by blast
  then show "find_last_of ?s ''$'' = Some (9 + length (int_dec it) + length (toHex salt))"
    unfolding 4 find_last_of_def by (subst last) auto
qed

lemma stored_fields:
  assumes "- (2 ^ 31) \<le> it" "it < 2 ^ 31"
  shows "extractIterations (stored_form it salt hash) = Inr it"
    and "extractSalt (stored_form it salt hash) = Inr (toHex salt)"
    and "substr_end (stored_form it salt hash) (10 + (length (int_dec it) + length (toHex salt))) = Inr (toHex hash)"
proof -
  note d = stored_dollars [OF assms, of salt hash]
  show "extractIterations (stored_form it salt hash) = Inr it"
    unfolding extractIterations_def Let_def
    by (simp add: d del: One_nat_def) (simp add: stored_form_def substr_def stoi_int_dec [OF assms])
  show "extractSalt (stored_form it salt hash) = Inr (toHex salt)"
    unfolding extractSalt_def Let_def
    by (simp add: d del: One_nat_def) (simp add: stored_form_def substr_def numeral_eq_Suc)
  show "substr_end (stored_form it salt hash) (10 + (length (int_dec it) + length (toHex salt))) = Inr (toHex hash)"
    by (simp add: stored_form_def substr_end_def numeral_eq_Suc)
qed

text \<open>A stored password is verified exactly by the passwords from which PBKDF2 derives the same
  key under the salt and the iteration count it was stored with; in particular by the password
  itself.\<close>

theorem password_verified_iff:
  assumes "hashPassword kdf rnd password iterations = Inr stored"
    and "- (2 ^ 31) \<le> iterations" "iterations < 2 ^ 31"
  shows "\<exists>salt. rnd = Some salt \<and> verifyPassword kdf password stored
    \<and> (\<forall>attempt. verifyPassword kdf attempt stored
        = (kdf attempt salt iterations 32 = kdf password salt iterations 32))"
proof -
  obtain salt hash where h: "rnd = Some salt" "kdf password salt iterations 32 = Some hash"
    "stored = stored_form iterations salt hash"
    using assms(1) by (auto simp: hashPassword_def stored_form_def split: option.splits)
  have p: "take 8 (stored_form iterations salt hash) = ''$pbkdf2$''"
    by (simp add: stored_form_def)
  have "verifyPassword kdf attempt stored = (kdf attempt salt iterations 32 = Some hash)" for attempt
    unfolding verifyPassword_def h(3) p
    by (simp add: stored_fields [OF assms(2,3)] stored_dollars(4) [OF assms(2,3)] hex.enc_eq_iff
        split: option.split)
  then show ?thesis using h by simp
qed

definition demo_kdf :: kdf where
  "demo_kdf pw salt it n = Some (take n (map byte_of_char pw @ salt))"

lemma password_verified_iff_witness:
  "\<exists>stored. hashPassword demo_kdf (Some [1, 2]) ''secret'' 310000 = Inr stored
    \<and> verifyPassword demo_kdf ''secret'' stored \<and> \<not> verifyPassword demo_kdf ''Secret'' stored"
proof -
  obtain stored where s: "hashPassword demo_kdf (Some [1, 2]) ''secret'' 310000 = Inr stored"
    by (simp add: hashPassword_def demo_kdf_def)
  have "demo_kdf ''Secret'' [1, 2] 310000 32 \<noteq> demo_kdf ''secret'' [1, 2] 310000 32"
    by (simp add: demo_kdf_def byte_of_char_def)
  then show ?thesis using password_verified_iff [OF s] s by auto
qed

section \<open>API keys\<close>

definition BASE62 :: string where
  "BASE62 = ''0123456789ABCDEFGHIJKLMNOPQRSTUVWXYZabcdefghijklmnopqrstuvwxyz''"

definition randomBase62 :: "nat \<Rightarrow> byte list option \<Rightarrow> string res" where
  "randomBase62 len rnd =
     (case rnd of
        None \<Rightarrow> Inl (Runtime_Error ''RAND_bytes failed'')
      | Some buf \<Rightarrow> Inr (map (\<lambda>i. BASE62 ! (unat (buf ! i) mod 62)) [0..<len]))"

definition sha256Hex :: "(string \<Rightarrow> byte list option) \<Rightarrow> string \<Rightarrow> string res" where
  "sha256Hex sha input =
     (case sha input of
        None \<Rightarrow> Inl (Runtime_Error ''SHA-256 digest failed'')
      | Some hash \<Rightarrow> Inr (bytes_hex hash))"

record api_key_info =
  ak_key :: string
  ak_hash :: string
  ak_prefix :: string

text \<open>\<open>r8\<close> and \<open>r32\<close> are the results of the two calls of \<^verbatim>\<open>RAND_bytes\<close>.\<close>

definition generateApiKey :: "(string \<Rightarrow> byte list option) \<Rightarrow> byte list option \<Rightarrow> byte list option
    \<Rightarrow> api_key_info res" where
  "generateApiKey sha r8 r32 =
     rbind (randomBase62 8 r8) (\<lambda>prefix8.
     rbind (randomBase62 32 r32) (\<lambda>random32.
       let key = ''icao_'' @ prefix8 @ ''_'' @ random32;
           displayPrefix = ''icao_'' @ prefix8
       in rbind (sha256Hex sha key) (\<lambda>h.
            Inr \<lparr>ak_key = key, ak_hash = h, ak_prefix = displayPrefix\<rparr>)))"

definition hashApiKey :: "(string \<Rightarrow> byte list option) \<Rightarrow> string \<Rightarrow> string res" where
  "hashApiKey sha apiKey = sha256Hex sha apiKey"

lemma BASE62_nth: "BASE62 ! (n mod 62) \<in> set BASE62"
proof -
  have "length BASE62 = 62" by (simp add: BASE62_def)
  then show ?thesis by (intro nth_mem) simp
qed

lemma BASE62_no_underscore: "CHR ''_'' \<notin> set BASE62"
  by (simp add: BASE62_def)

lemma randomBase62_ok:
  "randomBase62 n r = Inr s \<Longrightarrow> length s = n \<and> set s \<subseteq> set BASE62"
  using BASE62_nth by (auto simp: randomBase62_def split: option.splits)

text \<open>The format of a generated API key: 46 characters, the display prefix of 13 characters
  (\<^verbatim>\<open>icao_\<close> and eight Base62 characters) up to the second underscore, 32 Base62 characters
  after it; and its stored hash is what a later presentation of the key is looked up by.\<close>

theorem api_key_format:
  assumes "generateApiKey sha r8 r32 = Inr info"
  shows "length (ak_key info) = 46 \<and> ak_prefix info = take 13 (ak_key info)
    \<and> find_last_of (ak_key info) ''_'' = Some 13
    \<and> set (drop 5 (ak_prefix info)) \<union> set (drop 14 (ak_key info)) \<subseteq> set BASE62
    \<and> hashApiKey sha (ak_key info) = Inr (ak_hash info)"
proof -
  obtain p q h where g: "randomBase62 8 r8 = Inr p" "randomBase62 32 r32 = Inr q"
    "sha256Hex sha (''icao_'' @ p @ ''_'' @ q) = Inr h"
    and i: "info = \<lparr>ak_key = ''icao_'' @ p @ ''_'' @ q, ak_hash = h, ak_prefix = ''icao_'' @ p\<rparr>"
    using assms by (auto simp: generateApiKey_def Let_def dest!: rbind_Inr)
  note p = randomBase62_ok [OF g(1)] and q = randomBase62_ok [OF g(2)]
  have n: "last_index_where (\<lambda>c. c = CHR ''_'') s j acc = acc" if "CHR ''_'' \<notin> set s" for s j acc
    using that by (induction s arbitrary: j) auto
  have app: "last_index_where P (a @ b) j acc = last_index_where P b (j + length a) (last_index_where P a j acc)"
    for P a b j acc by (induction a arbitrary: j acc) auto
  have "CHR ''_'' \<notin> set p" "CHR ''_'' \<notin> set q"
    using p q BASE62_no_underscore by auto
  then have "find_last_of (''icao_'' @ p @ ''_'' @ q) ''_'' = Some 13"
    using p by (simp add: find_last_of_def app n)
  then show ?thesis using p q g(3) by (simp add: i hashApiKey_def)
qed

lemma api_key_format_witness:
  "\<exists>info. generateApiKey (\<lambda>k. Some [0xAB]) (Some (replicate 8 61)) (Some (replicate 32 62)) = Inr info
    \<and> length (ak_key info) = 46"
proof -
  obtain info where g: "generateApiKey (\<lambda>k. Some [0xAB]) (Some (replicate 8 61)) (Some (replicate 32 62)) = Inr info"
    by (simp add: generateApiKey_def randomBase62_def sha256Hex_def Let_def)
  then show ?thesis using api_key_format [OF g] by blast
qed

end
