(* ===== verification/Jwt.thy ===== *)
theory Jwt
  imports Interfaces
begin

text \<open>
  \<^verbatim>\<open>services/pkd-management/src/auth/jwt_service.cpp\<close>: JSON web tokens with HS256.
  HMAC-SHA256 is an argument \<open>hmac\<close>; the clock is an argument in nanoseconds since the
  epoch (\<^verbatim>\<open>system_clock::now()\<close>), the tokens carry seconds.
\<close>

section \<open>Base64URL\<close>

definition base64_chars :: string where
  "base64_chars = ''ABCDEFGHIJKLMNOPQRSTUVWXYZabcdefghijklmnopqrstuvwxyz0123456789+/''"

text \<open>The encoding loop takes three bytes a round.  The masks and shifts are arithmetic:
  \<^verbatim>\<open>(x & 0xFC) >> 2\<close> is \<open>x div 4\<close>, \<^verbatim>\<open>(x & 0x03) << 4\<close> is \<open>x mod 4 * 16\<close>, and the
  two halves a \<^verbatim>\<open>|=\<close> puts together have no bit in common.\<close>

fun base64_loop :: "nat list \<Rightarrow> string" where
  "base64_loop [] = []"
| "base64_loop [x] = [base64_chars ! (x div 4), base64_chars ! (x mod 4 * 16)] @ ''==''"
| "base64_loop [x, y] =
     [base64_chars ! (x div 4), base64_chars ! (x mod 4 * 16 + y div 16), base64_chars ! (y mod 16 * 4)] @ ''=''"
| "base64_loop (x # y # z # r) =
     [base64_chars ! (x div 4), base64_chars ! (x mod 4 * 16 + y div 16),
      base64_chars ! (y mod 16 * 4 + z div 64), base64_chars ! (z mod 64)] @ base64_loop r"

definition url_char :: "char \<Rightarrow> char" where
  "url_char c = (if c = CHR ''+'' then CHR ''-'' else if c = CHR ''/'' then CHR ''_'' else c)"

definition base64UrlEncode :: "string \<Rightarrow> string" where
  "base64UrlEncode s = filter (\<lambda>c. c \<noteq> CHR ''='') (map url_char (base64_loop (map of_char s)))"

text \<open>\<^verbatim>\<open>base64_table\<close>; 64 marks a character outside the alphabet.\<close>

definition base64_table :: "char \<Rightarrow> nat" where
  "base64_table c =
     (let n = of_char c :: nat in
      if 65 \<le> n \<and> n \<le> 90 then n - 65
      else if 97 \<le> n \<and> n \<le> 122 then n - 71
      else if 48 \<le> n \<and> n \<le> 57 then n + 4
      else if n = 43 \<or> n = 45 then 62
      else if n = 47 \<or> n = 95 then 63 else 64)"

definition std_char :: "char \<Rightarrow> char" where
  "std_char c = (if c = CHR ''-'' then CHR ''+'' else if c = CHR ''_'' then CHR ''/'' else c)"

definition pad4 :: "string \<Rightarrow> string" where
  "pad4 s = s @ replicate ((4 - length s mod 4) mod 4) (CHR ''='')"

text \<open>\<^verbatim>\<open>val\<close> is a 32-bit unsigned integer, \<^verbatim>\<open>valb\<close> the number of its unread bits less 8.\<close>

fun decode_loop :: "nat \<Rightarrow> int \<Rightarrow> string \<Rightarrow> string" where
  "decode_loop v vb [] = []"
| "decode_loop v vb (c # cs) =
     (if base64_table c = 64 then []
      else
        let v' = (v * 64 + base64_table c) mod 2 ^ 32; vb' = vb + 6
        in if 0 \<le> vb' then char_of (v' div 2 ^ nat vb' mod 256) # decode_loop v' (vb' - 8) cs
           else decode_loop v' vb' cs)"

definition base64UrlDecode :: "string \<Rightarrow> string" where
  "base64UrlDecode s = decode_loop 0 (- 8) (pad4 (map std_char s))"

section \<open>Tokens\<close>

definition joinPermissions :: "string list \<Rightarrow> string" where
  "joinPermissions permissions = join '','' permissions"

definition splitPermissions :: "string \<Rightarrow> string list" where
  "splitPermissions s = (if s = [] then [] else filter (\<lambda>p. p \<noteq> []) (getlines (CHR '','') s))"

record jwt_service =
  jw_secretKey :: string
  jw_issuer :: string
  jw_expirationSeconds :: int

definition new_jwt_service :: "string \<Rightarrow> string \<Rightarrow> int \<Rightarrow> jwt_service res" where
  "new_jwt_service secretKey issuer expirationSeconds =
     (if length secretKey < 32
      then Inl (Runtime_Error ''JWT secret key must be at least 32 characters (256 bits)'')
      else Inr \<lparr>jw_secretKey = secretKey, jw_issuer = issuer, jw_expirationSeconds = expirationSeconds\<rparr>)"

record jwt_claims =
  jc_userId :: string
  jc_username :: string
  jc_permissions :: "string list"
  jc_isAdmin :: bool
  jc_exp :: int
  jc_iat :: int

definition jwt_header :: string where
  "jwt_header = ''{\"alg\":\"HS256\",\"typ\":\"JWT\"}''"

definition jwt_payload :: "jwt_service \<Rightarrow> int \<Rightarrow> string \<Rightarrow> string \<Rightarrow> string list \<Rightarrow> bool \<Rightarrow> string" where
  "jwt_payload J iat userId username permissions isAdmin =
     ''{'' @ ''\"iss\":\"'' @ jw_issuer J @ ''\",'' @ ''\"sub\":\"'' @ userId @ ''\",''
     @ ''\"iat\":'' @ int_dec iat @ '','' @ ''\"exp\":'' @ int_dec (iat + jw_expirationSeconds J) @ '',''
     @ ''\"username\":\"'' @ username @ ''\",'' @ ''\"permissions\":\"'' @ joinPermissions permissions @ ''\",''
     @ ''\"isAdmin\":'' @ (if isAdmin then ''true'' else ''false'') @ ''}''"

definition generateToken :: "(string \<Rightarrow> string \<Rightarrow> string) \<Rightarrow> jwt_service \<Rightarrow> int \<Rightarrow> string \<Rightarrow> string
    \<Rightarrow> string list \<Rightarrow> bool \<Rightarrow> string" where
  "generateToken hmac J now userId username permissions isAdmin =
     (let iat = now div 10 ^ 9;
          message = base64UrlEncode jwt_header @ ''.''
            @ base64UrlEncode (jwt_payload J iat userId username permissions isAdmin)
      in message @ ''.'' @ base64UrlEncode (hmac (jw_secretKey J) message))"

text \<open>A quoted member: the text from behind the key to the next quotation mark.\<close>

definition json_text :: "string \<Rightarrow> string \<Rightarrow> string option res" where
  "json_text payload key =
     (case str_find payload key 0 of
        None \<Rightarrow> Inr None
      | Some pos \<Rightarrow>
          let start = pos + length key
          in map_sum id Some (substr_until payload start (str_find payload ''\"'' start)))"

text \<open>A numeric member: \<^verbatim>\<open>std::stol\<close> of the text up to the next comma or brace.\<close>

definition json_long :: "string \<Rightarrow> string \<Rightarrow> int option res" where
  "json_long payload key =
     (case str_find payload key 0 of
        None \<Rightarrow> Inr None
      | Some pos \<Rightarrow>
          let start = pos + length key
          in (case substr_until payload start (find_first_of payload '',}'' start) of
                Inl e \<Rightarrow> Inl e
              | Inr t \<Rightarrow> map_sum id Some (stol t)))"

text \<open>\<open>stale\<close> is what the uninitialised member \<^verbatim>\<open>isAdmin\<close> of the local \<^verbatim>\<open>JwtClaims\<close> holds.
  \<open>Inr None\<close> is \<^verbatim>\<open>return std::nullopt\<close> inside the \<^verbatim>\<open>try\<close>.\<close>

definition wrap64 :: "int \<Rightarrow> int" where
  "wrap64 z = (z + 2 ^ 63) mod 2 ^ 64 - 2 ^ 63"

text \<open>\<^verbatim>\<open>system_clock::from_time_t\<close>: seconds become nanoseconds in 64 bits; a product that does not fit wraps, as compiled.\<close>

definition from_time_t :: "int \<Rightarrow> int" where
  "from_time_t sec = wrap64 (sec * 10 ^ 9)"

text \<open>The claims keep the seconds that \<^verbatim>\<open>from_time_t\<close> is applied to; nothing but the test for expiry looks at the time
  points.\<close>

definition parse_claims :: "jwt_service \<Rightarrow> int \<Rightarrow> bool \<Rightarrow> string \<Rightarrow> jwt_claims option res" where
  "parse_claims J now stale payload =
     rbind (json_text payload ''\"iss\":\"'') (\<lambda>iss.
       if (case iss of None \<Rightarrow> False | Some i \<Rightarrow> i \<noteq> jw_issuer J) then Inr None
       else
         rbind (json_text payload ''\"sub\":\"'') (\<lambda>sub.
         rbind (json_text payload ''\"username\":\"'') (\<lambda>user.
         rbind (json_text payload ''\"permissions\":\"'') (\<lambda>perms.
         rbind (case str_find payload ''\"isAdmin\":'' 0 of
                  None \<Rightarrow> Inr stale
                | Some pos \<Rightarrow> map_sum id (\<lambda>t. t = ''true'') (substr payload (pos + 10) 4)) (\<lambda>admin.
         rbind (json_long payload ''\"exp\":'') (\<lambda>exp.
           if (case exp of None \<Rightarrow> False | Some e \<Rightarrow> from_time_t e \<le> now) then Inr None
           else
             rbind (json_long payload ''\"iat\":'') (\<lambda>iat.
               Inr (Some \<lparr>jc_userId = (case sub of None \<Rightarrow> [] | Some u \<Rightarrow> u),
                 jc_username = (case user of None \<Rightarrow> [] | Some u \<Rightarrow> u),
                 jc_permissions = (case perms of None \<Rightarrow> [] | Some p \<Rightarrow> splitPermissions p),
                 jc_isAdmin = admin, jc_exp = (case exp of None \<Rightarrow> 0 | Some e \<Rightarrow> e),
                 jc_iat = (case iat of None \<Rightarrow> 0 | Some i \<Rightarrow> i)\<rparr>))))))))"

text \<open>\<^verbatim>\<open>token.find('.', firstDot + 1)\<close> with \<^verbatim>\<open>npos + 1 = 0\<close>; both results are looked
  at together.\<close>

definition split_token :: "string \<Rightarrow> (string \<times> string \<times> string) option" where
  "split_token token =
     (let firstDot = str_find token ''.'' 0;
          secondDot = str_find token ''.'' (case firstDot of None \<Rightarrow> 0 | Some i \<Rightarrow> i + 1)
      in case (firstDot, secondDot) of
           (Some i, Some j) \<Rightarrow> Some (take i token, take (j - i - 1) (drop (i + 1) token), drop (j + 1) token)
         | _ \<Rightarrow> None)"

definition validateToken :: "(string \<Rightarrow> string \<Rightarrow> string) \<Rightarrow> jwt_service \<Rightarrow> int \<Rightarrow> bool \<Rightarrow> string
    \<Rightarrow> jwt_claims option" where
  "validateToken hmac J now stale token =
     (case split_token token of
        None \<Rightarrow> None
      | Some (encodedHeader, encodedPayload, encodedSignature) \<Rightarrow>
          let message = encodedHeader @ ''.'' @ encodedPayload in
          if encodedSignature \<noteq> base64UrlEncode (hmac (jw_secretKey J) message) then None
          else (case parse_claims J now stale (base64UrlDecode encodedPayload) of
                  Inl _ \<Rightarrow> None | Inr c \<Rightarrow> c))"

definition refreshToken :: "(string \<Rightarrow> string \<Rightarrow> string) \<Rightarrow> jwt_service \<Rightarrow> int \<Rightarrow> int \<Rightarrow> bool \<Rightarrow> string
    \<Rightarrow> string" where
  "refreshToken hmac J now now' stale token =
     (case validateToken hmac J now stale token of
        None \<Rightarrow> []
      | Some c \<Rightarrow> generateToken hmac J now' (jc_userId c) (jc_username c) (jc_permissions c) (jc_isAdmin c))"

definition isTokenExpired :: "(string \<Rightarrow> string \<Rightarrow> string) \<Rightarrow> jwt_service \<Rightarrow> int \<Rightarrow> bool \<Rightarrow> string \<Rightarrow> bool" where
  "isTokenExpired hmac J now stale token = (validateToken hmac J now stale token = None)"

section \<open>The Base64URL round trip\<close>

lemma base64_table_chars: "map base64_table base64_chars = [0..<64]"
  by (simp add: base64_chars_def base64_table_def upt_rec)

lemma base64_chars_length: "length base64_chars = 64"
  by (simp add: base64_chars_def)

lemma base64_table_nth [simp]: "n < 64 \<Longrightarrow> base64_table (base64_chars ! n) = n"
  using arg_cong [OF base64_table_chars, of "\<lambda>xs. xs ! n"] by (simp add: base64_chars_length)

lemma base64_alphabet: "\<forall>c \<in> set base64_chars. c \<noteq> CHR ''='' \<and> std_char (url_char c) = c"
  by (simp add: base64_chars_def std_char_def url_char_def)

lemma base64_nth [simp]: "n < 64 \<Longrightarrow> base64_chars ! n \<noteq> CHR ''=''"
  "n < 64 \<Longrightarrow> std_char (url_char (base64_chars ! n)) = base64_chars ! n"
  using base64_alphabet base64_chars_length nth_mem by metis+

lemma decode_step:
  "n < 64 \<Longrightarrow> decode_loop v vb (base64_chars ! n # cs) =
     (if 0 \<le> vb + 6
      then char_of ((v * 64 + n) mod 2 ^ 32 div 2 ^ nat (vb + 6) mod 256)
           # decode_loop ((v * 64 + n) mod 2 ^ 32) (vb - 2) cs
      else decode_loop ((v * 64 + n) mod 2 ^ 32) (vb + 6) cs)"
  by (simp add: Let_def)

lemma decode_stop: "decode_loop v vb (CHR ''='' # cs) = []"
  by (simp add: base64_table_def)

declare decode_loop.simps(2) [simp del]

lemma low_bits: "k \<le> 24 \<Longrightarrow> (y :: nat) mod 2 ^ 32 div 2 ^ k mod 256 = y div 2 ^ k mod 256"
proof -
  assume k: "k \<le> 24"
  have "take_bit 8 (drop_bit k (take_bit 32 y)) = take_bit 8 (drop_bit k y)"
    using k by (auto simp add: drop_bit_take_bit min_def)
  then show ?thesis by (simp add: take_bit_eq_mod drop_bit_eq_div)
qed

lemma mod_step: "((v mod 2 ^ 32) * 64 + n) mod (2 ^ 32 :: nat) = (v * 64 + n) mod 2 ^ 32"
  by (metis mod_add_left_eq mod_mult_left_eq)

lemma sextets:
  fixes x y z :: nat
  assumes "x < 256" "y < 256" "z < 256"
  shows "x div 4 < 64" "x mod 4 * 16 < 64" "x mod 4 * 16 + y div 16 < 64"
    "y mod 16 * 4 < 64" "y mod 16 * 4 + z div 64 < 64" "z mod 64 < 64"
  using assms by linarith+

text \<open>What the accumulator holds behind the second, third and fourth character of a group.\<close>

lemma octet1: "x < 256 \<Longrightarrow> k < 16 \<Longrightarrow>
    ((v * 64 + x div 4) * 64 + (x mod 4 * 16 + k)) div 2 ^ 4 mod 256 = (x :: nat)"
proof -
  assume "x < 256" "k < 16"
  have "x = q * 4 + m \<Longrightarrow> (v * 64 + q) * 64 + (m * 16 + k) = (v * 256 + x) * 16 + k" for q m
    by simp
  from this [of "x div 4" "x mod 4"]
  have "(v * 64 + x div 4) * 64 + (x mod 4 * 16 + k) = (v * 256 + x) * 16 + k" by simp
  then have "((v * 64 + x div 4) * 64 + (x mod 4 * 16 + k)) div 16 = v * 256 + x"
    using \<open>k < 16\<close> by simp
  with \<open>x < 256\<close> show ?thesis by simp
qed

lemma octet2: "y < 256 \<Longrightarrow> k < 4 \<Longrightarrow>
    ((v * 64 + (t * 16 + y div 16)) * 64 + (y mod 16 * 4 + k)) div 2 ^ 2 mod 256 = (y :: nat)"
proof -
  assume "y < 256" "k < 4"
  have "y = q * 16 + m \<Longrightarrow>
      (v * 64 + (t * 16 + q)) * 64 + (m * 4 + k) = ((v * 4 + t) * 256 + y) * 4 + k" for q m
    by simp
  from this [of "y div 16" "y mod 16"]
  have "(v * 64 + (t * 16 + y div 16)) * 64 + (y mod 16 * 4 + k) = ((v * 4 + t) * 256 + y) * 4 + k" by simp
  then have "((v * 64 + (t * 16 + y div 16)) * 64 + (y mod 16 * 4 + k)) div 4 = (v * 4 + t) * 256 + y"
    using \<open>k < 4\<close> by simp
  then have "((v * 64 + (t * 16 + y div 16)) * 64 + (y mod 16 * 4 + k)) div 4 mod 256 = y mod 256"
    by (simp only: mod_mult_self3)
  with \<open>y < 256\<close> show ?thesis by simp
qed

lemma octet3: "z < 256 \<Longrightarrow> ((v * 64 + (t * 4 + z div 64)) * 64 + z mod 64) div 2 ^ 0 mod 256 = (z :: nat)"
proof -
  assume "z < 256"
  have "z = q * 64 + m \<Longrightarrow> (v * 64 + (t * 4 + q)) * 64 + m = (v * 16 + t) * 256 + z" for q m
    by simp
  from this [of "z div 64" "z mod 64"]
  have "(v * 64 + (t * 4 + z div 64)) * 64 + z mod 64 = (v * 16 + t) * 256 + z" by simp
  then have "((v * 64 + (t * 4 + z div 64)) * 64 + z mod 64) mod 256 = z mod 256"
    by (simp only: mod_mult_self3)
  with \<open>z < 256\<close> show ?thesis by simp
qed

text \<open>One group of four characters, with the accumulator free of the 32-bit reductions.\<close>

lemma decode2: "p < 64 \<Longrightarrow> q < 64 \<Longrightarrow> decode_loop v (- 8) (base64_chars ! p # base64_chars ! q # cs)
    = char_of (((v * 64 + p) * 64 + q) div 2 ^ 4 mod 256)
      # decode_loop (((v * 64 + p) * 64 + q) mod 2 ^ 32) (- 4) cs"
  by (simp only: decode_step mod_step low_bits) simp

lemma decode3: "q < 64 \<Longrightarrow> decode_loop (w mod 2 ^ 32) (- 4) (base64_chars ! q # cs)
    = char_of ((w * 64 + q) div 2 ^ 2 mod 256) # decode_loop ((w * 64 + q) mod 2 ^ 32) (- 6) cs"
  by (simp only: decode_step mod_step low_bits) simp

lemma decode4: "q < 64 \<Longrightarrow> decode_loop (w mod 2 ^ 32) (- 6) (base64_chars ! q # cs)
    = char_of ((w * 64 + q) div 2 ^ 0 mod 256) # decode_loop ((w * 64 + q) mod 2 ^ 32) (- 8) cs"
  by (simp only: decode_step mod_step low_bits) simp

lemma decode_base64_loop:
  "\<forall>b \<in> set bs. b < 256 \<Longrightarrow> decode_loop v (- 8) (base64_loop bs) = map char_of bs"
proof (induction bs arbitrary: v rule: base64_loop.induct)
  case 1
  then show ?case by simp
next
  case (2 x)
  then have b: "x < 256" by simp
  have k: "(0 :: nat) < 16" by simp
  show ?case
    unfolding base64_loop.simps append.simps
    by (simp only: decode2 sextets [OF b b b] decode_stop octet1 [OF b k, simplified add_0_right] list.map)
next
  case (3 x y)
  then have b: "x < 256" "y < 256" by simp_all
  then have k: "y div 16 < 16" by linarith
  have o2: "((v * 64 + (t * 16 + y div 16)) * 64 + y mod 16 * 4) div 2 ^ 2 mod 256 = y" for v t
    using octet2 [OF b(2), of 0 v t] by simp
  show ?case
    unfolding base64_loop.simps append.simps
    by (simp only: decode2 decode3 sextets [OF b b(2)] decode_stop octet1 [OF b(1) k] o2 list.map)
next
  case (4 x y z r)
  then have b: "x < 256" "y < 256" "z < 256" by simp_all
  then have k: "y div 16 < 16" "z div 64 < 4" by linarith+
  have IH: "decode_loop v (- 8) (base64_loop r) = map char_of r" for v using 4 by simp
  show ?case
    unfolding base64_loop.simps append.simps
    by (simp only: decode2 decode3 decode4 sextets [OF b] octet1 [OF b(1) k(1)] octet2 [OF b(2) k(2)]
        octet3 [OF b(3)] IH list.map)
qed

lemma base64_loop_chars: "\<forall>b \<in> set bs. b < 256 \<Longrightarrow> set (base64_loop bs) \<subseteq> set base64_chars \<union> {CHR ''=''}"
proof -
  have m: "n < 64 \<Longrightarrow> base64_chars ! n \<in> set base64_chars" for n
    by (simp add: base64_chars_length)
  show "\<forall>b \<in> set bs. b < 256 \<Longrightarrow> ?thesis"
  proof (induction bs rule: base64_loop.induct)
    case (2 x)
    then have b: "x < 256" by simp
    from m sextets [OF b b b] show ?case by simp
  next
    case (3 x y)
    then have b: "x < 256" "y < 256" by simp_all
    from m sextets [OF b b(2)] show ?case by simp
  next
    case (4 x y z r)
    then have b: "x < 256" "y < 256" "z < 256" by simp_all
    from m sextets [OF b] 4 show ?case by simp
  qed simp
qed

lemma pad4_group: "pad4 (a # b # c # d # r) = a # b # c # d # pad4 r"
  by (simp add: pad4_def)

lemma pad4_filter: "\<forall>b \<in> set bs. b < 256 \<Longrightarrow>
    pad4 (filter (\<lambda>c. c \<noteq> CHR ''='') (base64_loop bs)) = base64_loop bs"
proof (induction bs rule: base64_loop.induct)
  case 1
  then show ?case by (simp add: pad4_def)
next
  case (2 x)
  then have b: "x < 256" by simp
  from sextets [OF b b b] show ?case by (simp add: pad4_def numeral_2_eq_2)
next
  case (3 x y)
  then have b: "x < 256" "y < 256" by simp_all
  from sextets [OF b b(2)] show ?case by (simp add: pad4_def)
next
  case (4 x y z r)
  then have b: "x < 256" "y < 256" "z < 256" by simp_all
  from sextets [OF b] 4 show ?case by (simp add: pad4_group)
qed

lemma url_std: "set e \<subseteq> set base64_chars \<union> {CHR ''=''} \<Longrightarrow>
    map std_char (filter (\<lambda>c. c \<noteq> CHR ''='') (map url_char e)) = filter (\<lambda>c. c \<noteq> CHR ''='') e"
proof (induction e)
  case (Cons c e)
  show ?case
  proof (cases "c = CHR ''=''")
    case True
    with Cons show ?thesis by (simp add: url_char_def)
  next
    case False
    with Cons.prems base64_alphabet have "std_char (url_char c) = c" by auto
    moreover have "url_char c \<noteq> CHR ''=''" using False by (simp add: url_char_def)
    ultimately show ?thesis using Cons False by simp
  qed
qed simp

lemma of_char_bytes: "\<forall>b \<in> set (map of_char (s :: string)). b < (256 :: nat)"
  by simp

lemma decode_encode: "base64UrlDecode (base64UrlEncode s) = s"
proof -
  let ?bs = "map of_char s :: nat list"
  have "map std_char (base64UrlEncode s) = filter (\<lambda>c. c \<noteq> CHR ''='') (base64_loop ?bs)"
    unfolding base64UrlEncode_def using base64_loop_chars [OF of_char_bytes] by (rule url_std)
  then have "base64UrlDecode (base64UrlEncode s) = map char_of ?bs"
    unfolding base64UrlDecode_def by (simp only: pad4_filter [OF of_char_bytes] decode_base64_loop [OF of_char_bytes])
  then show ?thesis by (simp add: comp_def)
qed

definition url_alphabet :: "char set" where
  "url_alphabet = url_char ` set base64_chars"

lemma encode_alphabet: "set (base64UrlEncode s) \<subseteq> url_alphabet"
  using base64_loop_chars [OF of_char_bytes, of s]
  by (auto simp: base64UrlEncode_def url_alphabet_def url_char_def split: if_splits)

interpretation b64: text_codec base64UrlEncode "\<lambda>t. Some (base64UrlDecode t)" "\<lambda>_. True" url_alphabet
  by unfold_locales (simp_all add: decode_encode encode_alphabet)

section \<open>Finding members in the payload\<close>

abbreviation quote :: char where "quote \<equiv> CHR 0x22"

text \<open>A quoted text and the character behind it: a key with its colon or a value with its comma.\<close>

definition quoted :: "string \<Rightarrow> char \<Rightarrow> string" where
  "quoted v c = quote # v @ [quote, c]"

lemma quoted_head:
  assumes "quote \<notin> set v" "quote \<notin> set k"
    and "take (length (quoted k d @ t)) (quoted v c @ r) = quoted k d @ t"
  shows "v = k \<and> c = d"
proof -
  obtain u where "quoted v c @ r = (quoted k d @ t) @ u"
    using assms(3) by (metis append_take_drop_id)
  then have e: "v @ quote # c # r = k @ quote # d # (t @ u)" by (simp add: quoted_def)
  have "takeWhile (\<lambda>x. x \<noteq> quote) (v @ quote # c # r) = v"
    using assms(1) by (subst takeWhile_append2) auto
  moreover have "takeWhile (\<lambda>x. x \<noteq> quote) (k @ quote # d # (t @ u)) = k"
    using assms(2) by (subst takeWhile_append2) auto
  ultimately have "v = k" using e by simp
  with e show ?thesis by simp
qed

text \<open>What follows the first match of a search.\<close>

fun after :: "string \<Rightarrow> string \<Rightarrow> string option" where
  "after [] pat = (if pat = [] then Some [] else None)"
| "after (c # cs) pat =
     (if take (length pat) (c # cs) = pat then Some (drop (length pat) (c # cs)) else after cs pat)"

declare after.simps(2) [simp del]

lemma find_from_after:
  "(case find_from s pat i of None \<Rightarrow> after s pat = None
     | Some n \<Rightarrow> i \<le> n \<and> n - i + length pat \<le> length s
         \<and> after s pat = Some (drop (n - i + length pat) s))"
proof (induction s pat i rule: find_from.induct)
  case (1 pat i)
  then show ?case by simp
next
  case (2 c cs pat i)
  show ?case
  proof (cases "take (length pat) (c # cs) = pat")
    case True
    then have "length pat \<le> length (c # cs)" by (metis length_take min.cobounded1)
    with True show ?thesis by (simp add: after.simps(2))
  next
    case False
    with 2 show ?thesis
      by (auto simp: after.simps(2) Suc_diff_le drop_Cons' split: option.splits)
  qed
qed

lemma str_find_after:
  "(case str_find s pat 0 of None \<Rightarrow> after s pat = None
     | Some n \<Rightarrow> n + length pat \<le> length s \<and> after s pat = Some (drop (n + length pat) s))"
  using find_from_after [of s pat 0] by (simp add: str_find_def split: option.splits)

lemma index_where_takeWhile:
  "(case index_where P s i of None \<Rightarrow> takeWhile (\<lambda>c. \<not> P c) s = s
     | Some n \<Rightarrow> i \<le> n \<and> takeWhile (\<lambda>c. \<not> P c) s = take (n - i) s)"
  by (induction P s i rule: index_where.induct) (auto simp: take_Cons' split: option.splits dest: index_where_Some)

lemma substr_until_search:
  assumes "m \<le> length s"
  shows "substr_until s m (index_where P (drop m s) m) = Inr (takeWhile (\<lambda>c. \<not> P c) (drop m s))"
proof (cases "index_where P (drop m s) m")
  case None
  then have "takeWhile (\<lambda>c. \<not> P c) (drop m s) = drop m s"
    using index_where_takeWhile [of P "drop m s" m] by (simp del: takeWhile_eq_all_conv)
  then show ?thesis using assms None by (simp only: substr_until_def substr_end_def option.case if_True)
next
  case (Some n)
  then show ?thesis
    using assms index_where_takeWhile [of P "drop m s" m] by (simp add: substr_until_def substr_def)
qed

lemma find_char_index: "find_from s [c] i = index_where (\<lambda>x. x = c) s i"
  by (induction s arbitrary: i) simp_all

lemma str_find_char_index: "m \<le> length s \<Longrightarrow> str_find s [c] m = index_where (\<lambda>x. x = c) (drop m s) m"
  by (simp add: str_find_def find_char_index)

lemma json_text_after:
  "json_text s key = (case after s key of None \<Rightarrow> Inr None
     | Some r \<Rightarrow> Inr (Some (takeWhile (\<lambda>c. c \<noteq> quote) r)))"
proof (cases "str_find s key 0")
  case None
  then show ?thesis using str_find_after [of s key] by (simp add: json_text_def)
next
  case (Some n)
  with str_find_after [of s key]
  have m: "n + length key \<le> length s" "after s key = Some (drop (n + length key) s)" by simp_all
  show ?thesis
    unfolding json_text_def Some option.case Let_def str_find_char_index [OF m(1)]
      substr_until_search [OF m(1)] m(2) by simp
qed

lemma json_long_after:
  "json_long s key = (case after s key of None \<Rightarrow> Inr None
     | Some r \<Rightarrow> map_sum id Some (stol (takeWhile (\<lambda>c. c \<notin> set '',}'') r)))"
proof (cases "str_find s key 0")
  case None
  then show ?thesis using str_find_after [of s key] by (simp add: json_long_def)
next
  case (Some n)
  with str_find_after [of s key]
  have m: "n + length key \<le> length s" "after s key = Some (drop (n + length key) s)" by simp_all
  show ?thesis
    unfolding json_long_def Some option.case Let_def find_first_of_def
      substr_until_search [OF m(1)] m(2) sum.case ..
qed

text \<open>Stepping over what cannot start a match.\<close>

lemma after_other: "quote \<noteq> c \<Longrightarrow> after (c # r) (quote # t) = after r (quote # t)"
  by (simp add: after.simps(2))

lemma after_text: "quote \<notin> set a \<Longrightarrow> after (a @ r) (quoted k d @ t) = after r (quoted k d @ t)"
  by (induction a) (simp_all add: after_other quoted_def)

lemma after_char: "c \<noteq> quote \<Longrightarrow> after (c # r) (quoted k d @ t) = after r (quoted k d @ t)"
  by (simp add: after.simps(2) quoted_def)

lemma after_quoted:
  assumes "quote \<notin> set v" "quote \<notin> set k" "c \<noteq> quote" "k \<noteq> []" "hd k \<noteq> c" "v \<noteq> k \<or> c \<noteq> d"
  shows "after (quoted v c @ r) (quoted k d @ t) = after r (quoted k d @ t)"
proof -
  let ?pat = "quoted k d @ t"
  have q: "quoted v c @ r = quote # v @ quote # c # r" by (simp add: quoted_def)
  have "take (length ?pat) (quoted v c @ r) \<noteq> ?pat"
    using quoted_head [OF assms(1,2)] assms(6) by blast
  then have "after (quoted v c @ r) ?pat = after (v @ quote # c # r) ?pat"
    unfolding q by (simp add: after.simps(2))
  also have "\<dots> = after (quote # c # r) ?pat" by (rule after_text [OF assms(1)])
  also have "take (length ?pat) (quote # c # r) \<noteq> ?pat"
    using assms(4,5) by (cases k) (auto simp: quoted_def)
  then have "after (quote # c # r) ?pat = after (c # r) ?pat" by (simp add: after.simps(2))
  also have "\<dots> = after r ?pat" by (rule after_char [OF assms(3)])
  finally show ?thesis .
qed

lemma after_hit: "after (quoted k d @ t @ r) (quoted k d @ t) = Some r"
  by (simp add: quoted_def after.simps(2))

lemmas after_member = after_char after_text after_quoted after_hit [of _ _ "[quote]", simplified]
  after_char [of _ _ _ _ "[]", simplified] after_text [of _ _ _ _ "[]", simplified]
  after_quoted [of _ _ _ _ _ "[]", simplified] after_hit [of _ _ "[]", simplified]

lemma isAdmin_after:
  "(case str_find s key 0 of None \<Rightarrow> Inr d | Some pos \<Rightarrow> map_sum id g (substr s (pos + length key) 4))
   = (case after s key of None \<Rightarrow> Inr d | Some r \<Rightarrow> Inr (g (take 4 r)))"
  using str_find_after [of s key] by (simp add: substr_def split: option.splits)

section \<open>The payload of a generated token\<close>

lemma int_dec_quoteless: "quote \<notin> set (int_dec z)" "c \<in> set (int_dec z) \<Longrightarrow> c \<notin> set '',}''"
proof -
  have "\<not> c_isdigit quote" "\<not> c_isdigit (CHR '','')" "\<not> c_isdigit (CHR ''}'')" by code_simp+
  then show "quote \<notin> set (int_dec z)" "c \<in> set (int_dec z) \<Longrightarrow> c \<notin> set '',}''"
    using int_dec_chars [of z] by fastforce+
qed

lemma takeWhile_number: "takeWhile (\<lambda>c. c \<notin> set '',}'') (int_dec z @ CHR '','' # r) = int_dec z"
proof -
  have "takeWhile (\<lambda>c. c \<notin> set '',}'') (CHR '','' # r) = []" by simp
  then show ?thesis
    using int_dec_quoteless(2) [of _ z] by (subst takeWhile_append2) (blast, simp only: append_Nil2)
qed

lemma takeWhile_value: "quote \<notin> set v \<Longrightarrow> takeWhile (\<lambda>c. c \<noteq> quote) (v @ quote # r) = v"
  by (subst takeWhile_append2) auto

lemma join_quoteless: "\<forall>p \<in> set ps. quote \<notin> set p \<Longrightarrow> quote \<notin> set (joinPermissions ps)"
proof -
  have "\<forall>p \<in> set ps. quote \<notin> set p \<Longrightarrow> quote \<notin> set (join [CHR '',''] ps)"
    by (induction "[CHR '','']" ps rule: join.induct) auto
  then show "\<forall>p \<in> set ps. quote \<notin> set p \<Longrightarrow> ?thesis" by (simp add: joinPermissions_def)
qed

lemma split_joinPermissions:
  "\<forall>p \<in> set ps. p \<noteq> [] \<and> CHR '','' \<notin> set p \<Longrightarrow> splitPermissions (joinPermissions ps) = ps"
proof -
  assume a: "\<forall>p \<in> set ps. p \<noteq> [] \<and> CHR '','' \<notin> set p"
  then have "getlines (CHR '','') (join [CHR '',''] ps) = ps" by (intro getlines_join) auto
  moreover have "filter (\<lambda>p. p \<noteq> []) ps = ps" using a by (simp add: filter_id_conv)
  moreover have "join [CHR '',''] ps = [] \<Longrightarrow> ps = []"
    using a by (cases "([CHR '',''], ps)" rule: join.cases) auto
  ultimately show ?thesis by (auto simp: splitPermissions_def joinPermissions_def)
qed

lemma payload_quoted:
  "jwt_payload J iat userId username permissions isAdmin =
     CHR ''{'' # quoted ''iss'' (CHR '':'') @ quoted (jw_issuer J) (CHR '','')
     @ quoted ''sub'' (CHR '':'') @ quoted userId (CHR '','')
     @ quoted ''iat'' (CHR '':'') @ int_dec iat @ CHR '','' #
       quoted ''exp'' (CHR '':'') @ int_dec (iat + jw_expirationSeconds J) @ CHR '','' #
       quoted ''username'' (CHR '':'') @ quoted username (CHR '','')
     @ quoted ''permissions'' (CHR '':'') @ quoted (joinPermissions permissions) (CHR '','')
     @ quoted ''isAdmin'' (CHR '':'') @ (if isAdmin then ''true'' else ''false'') @ ''}''"
  by (simp add: jwt_payload_def quoted_def)

lemma keys_quoted:
  "''\"iss\":\"'' = quoted ''iss'' (CHR '':'') @ [quote]" "''\"sub\":\"'' = quoted ''sub'' (CHR '':'') @ [quote]"
  "''\"username\":\"'' = quoted ''username'' (CHR '':'') @ [quote]"
  "''\"permissions\":\"'' = quoted ''permissions'' (CHR '':'') @ [quote]"
  "''\"isAdmin\":'' = quoted ''isAdmin'' (CHR '':'')" "''\"exp\":'' = quoted ''exp'' (CHR '':'')"
  "''\"iat\":'' = quoted ''iat'' (CHR '':'')"
  by (simp_all add: quoted_def)

lemma quoted_value: "quoted v c @ r = quote # v @ quote # c # r"
  by (simp add: quoted_def)

lemma after_value: "after (quoted k d @ quoted v c @ r) (quoted k d @ [quote]) = Some (v @ quote # c # r)"
  unfolding quoted_value [of v] by (rule after_hit [of k d "[quote]", simplified])

text \<open>What the reader finds in a payload that starts like a generated one.\<close>

definition payload_front :: "jwt_service \<Rightarrow> int \<Rightarrow> string \<Rightarrow> string \<Rightarrow> string" where
  "payload_front J iat userId r =
     CHR ''{'' # quoted ''iss'' (CHR '':'') @ quoted (jw_issuer J) (CHR '','')
     @ quoted ''sub'' (CHR '':'') @ quoted userId (CHR '','')
     @ quoted ''iat'' (CHR '':'') @ int_dec iat @ CHR '','' #
       quoted ''exp'' (CHR '':'') @ int_dec (iat + jw_expirationSeconds J) @ CHR '','' # r"

lemma front_members:
  assumes "quote \<notin> set (jw_issuer J)" "quote \<notin> set userId"
  shows "after (payload_front J iat userId r) (quoted ''iss'' (CHR '':'') @ [quote])
      = Some (jw_issuer J @ quote # CHR '','' # quoted ''sub'' (CHR '':'') @ quoted userId (CHR '','')
         @ quoted ''iat'' (CHR '':'') @ int_dec iat @ CHR '','' #
           quoted ''exp'' (CHR '':'') @ int_dec (iat + jw_expirationSeconds J) @ CHR '','' # r)"
    and "after (payload_front J iat userId r) (quoted ''sub'' (CHR '':'') @ [quote])
      = Some (userId @ quote # CHR '','' # quoted ''iat'' (CHR '':'') @ int_dec iat @ CHR '','' #
           quoted ''exp'' (CHR '':'') @ int_dec (iat + jw_expirationSeconds J) @ CHR '','' # r)"
    and "after (payload_front J iat userId r) (quoted ''iat'' (CHR '':''))
      = Some (int_dec iat @ CHR '','' #
           quoted ''exp'' (CHR '':'') @ int_dec (iat + jw_expirationSeconds J) @ CHR '','' # r)"
    and "after (payload_front J iat userId r) (quoted ''exp'' (CHR '':''))
      = Some (int_dec (iat + jw_expirationSeconds J) @ CHR '','' # r)"
    and "''iss'' \<noteq> k \<Longrightarrow> ''sub'' \<noteq> k \<Longrightarrow> ''iat'' \<noteq> k \<Longrightarrow> ''exp'' \<noteq> k \<Longrightarrow> quote \<notin> set k \<Longrightarrow> k \<noteq> [] \<Longrightarrow> hd k \<notin> set '':,'' \<Longrightarrow>
      after (payload_front J iat userId r) (quoted k (CHR '':'') @ t) = after r (quoted k (CHR '':'') @ t)"
  unfolding payload_front_def
  by (simp_all add: after_value after_member assms int_dec_quoteless(1))

lemma payload_front_eq:
  "jwt_payload J iat userId username permissions isAdmin = payload_front J iat userId
     (quoted ''username'' (CHR '':'') @ quoted username (CHR '','')
      @ quoted ''permissions'' (CHR '':'') @ quoted (joinPermissions permissions) (CHR '','')
      @ quoted ''isAdmin'' (CHR '':'') @ (if isAdmin then ''true'' else ''false'') @ ''}'')"
  by (simp add: payload_quoted payload_front_def)

lemma wrap64_id: "- (2 ^ 63) \<le> z \<Longrightarrow> z < 2 ^ 63 \<Longrightarrow> wrap64 z = z"
  by (simp add: wrap64_def)

lemma from_time_t_id: "\<bar>sec\<bar> \<le> 9223372036 \<Longrightarrow> from_time_t sec = sec * 10 ^ 9"
  unfolding from_time_t_def by (rule wrap64_id) simp_all

text \<open>The times of a token fit: what is written is read back, the expiry is a time the clock can show, and it has not come.\<close>

definition times_ok :: "jwt_service \<Rightarrow> int \<Rightarrow> int \<Rightarrow> bool" where
  "times_ok J iat now = (- (2 ^ 63) \<le> iat \<and> iat < 2 ^ 63 \<and> \<bar>iat + jw_expirationSeconds J\<bar> \<le> 9223372036
     \<and> now < (iat + jw_expirationSeconds J) * 10 ^ 9)"

lemma times_ok_facts:
  assumes "times_ok J iat now"
  shows "- (2 ^ 63) \<le> iat" "iat < 2 ^ 63" "- (2 ^ 63) \<le> iat + jw_expirationSeconds J" "iat + jw_expirationSeconds J < 2 ^ 63"
    "\<not> from_time_t (iat + jw_expirationSeconds J) \<le> now"
  using assms from_time_t_id [of "iat + jw_expirationSeconds J"] by (auto simp: times_ok_def)

text \<open>The members of the tail are what decides user, permissions and the administrator flag.\<close>

lemma parse_claims_front:
  assumes "quote \<notin> set (jw_issuer J)" "quote \<notin> set userId" "times_ok J iat now"
    and "after r (quoted ''username'' (CHR '':'') @ [quote]) = Some (w @ quote # r1)" "quote \<notin> set w"
    and "after r (quoted ''permissions'' (CHR '':'') @ [quote]) = Some (p @ quote # r2)" "quote \<notin> set p"
    and "after r (quoted ''isAdmin'' (CHR '':'')) = Some r3"
  shows "parse_claims J now stale (payload_front J iat userId r)
    = Inr (Some \<lparr>jc_userId = userId, jc_username = w, jc_permissions = splitPermissions p,
        jc_isAdmin = (take 4 r3 = ''true''), jc_exp = iat + jw_expirationSeconds J, jc_iat = iat\<rparr>)"
proof -
  let ?s = "payload_front J iat userId r"
  note fm = front_members [OF assms(1,2), where iat = iat and r = r]
  have t: "json_text ?s (quoted ''iss'' (CHR '':'') @ [quote]) = Inr (Some (jw_issuer J))"
    "json_text ?s (quoted ''sub'' (CHR '':'') @ [quote]) = Inr (Some userId)"
    by (simp_all add: json_text_after fm(1,2) takeWhile_value assms)
  have u: "json_text ?s (quoted ''username'' (CHR '':'') @ [quote]) = Inr (Some w)"
    "json_text ?s (quoted ''permissions'' (CHR '':'') @ [quote]) = Inr (Some p)"
    by (simp_all add: json_text_after fm(5) assms takeWhile_value)
  have n: "json_long ?s (quoted ''iat'' (CHR '':'')) = Inr (Some iat)"
    "json_long ?s (quoted ''exp'' (CHR '':'')) = Inr (Some (iat + jw_expirationSeconds J))"
    by (simp_all only: json_long_after fm(3,4) option.case takeWhile_number stol_int_dec [OF times_ok_facts(1,2) [OF assms(3)]]
        stol_int_dec [OF times_ok_facts(3,4) [OF assms(3)]] map_sum.simps)
  have len: "length (quoted ''isAdmin'' (CHR '':'')) = 10" by (simp add: quoted_def)
  have a: "(case str_find ?s (quoted ''isAdmin'' (CHR '':'')) 0 of None \<Rightarrow> Inr stale
      | Some pos \<Rightarrow> map_sum id (\<lambda>t. t = ''true'') (substr ?s (pos + 10) 4)) = Inr (take 4 r3 = ''true'')"
    using isAdmin_after [where s = ?s and key = "quoted ''isAdmin'' (CHR '':'')" and d = stale
        and g = "\<lambda>t. t = ''true''"]
      fm(5) [where k = "''isAdmin''" and t = "[]"] assms(8) unfolding len
    by simp
  show ?thesis
    using times_ok_facts(5) [OF assms(3)] unfolding parse_claims_def keys_quoted t u n a
    by (simp add: rbind_def)
qed

section \<open>Tokens, accepted and generated\<close>

lemma find_from_char_nth: "find_from s [c] i = Some n \<Longrightarrow> i \<le> n \<and> n - i < length s \<and> s ! (n - i) = c"
  by (induction s arbitrary: i) (fastforce simp: Suc_diff_le nth_Cons' split: if_splits)+

lemma dot_not_in_alphabet: "CHR ''.'' \<notin> url_alphabet"
  by (simp add: url_alphabet_def base64_chars_def url_char_def)

lemma split_token_encoded:
  "split_token (base64UrlEncode h @ ''.'' @ base64UrlEncode p @ ''.'' @ s)
     = Some (base64UrlEncode h, base64UrlEncode p, s)"
proof -
  let ?h = "base64UrlEncode h" and ?p = "base64UrlEncode p"
  have "str_find (?h @ ''.'' @ ?p @ ''.'' @ s) ''.'' 0 = Some (length ?h)"
    using b64.find_separator [OF TrueI dot_not_in_alphabet, of "[]" h "?p @ ''.'' @ s"] by simp
  moreover have "str_find (?h @ ''.'' @ ?p @ ''.'' @ s) ''.'' (length ?h + 1)
      = Some (length ?h + 1 + length ?p)"
    using b64.find_separator [OF TrueI dot_not_in_alphabet, of "?h @ ''.''" p s] by simp
  ultimately show ?thesis by (simp add: split_token_def)
qed

lemma validate_generated:
  "validateToken hmac J now stale (generateToken hmac J now' userId username permissions isAdmin)
   = (case parse_claims J now stale (jwt_payload J (now' div 10 ^ 9) userId username permissions isAdmin) of
        Inl _ \<Rightarrow> None | Inr c \<Rightarrow> c)"
  unfolding generateToken_def validateToken_def Let_def append_assoc split_token_encoded
  by (simp add: decode_encode)

lemma validate_generated_token:
  assumes "quote \<notin> set (jw_issuer J)" "quote \<notin> set userId" "quote \<notin> set username"
    and "\<forall>p \<in> set permissions. p \<noteq> [] \<and> CHR '','' \<notin> set p \<and> quote \<notin> set p"
    and "iat = now' div 10 ^ 9" and "times_ok J iat now"
  shows "validateToken hmac J now stale (generateToken hmac J now' userId username permissions isAdmin)
    = Some \<lparr>jc_userId = userId, jc_username = username, jc_permissions = permissions,
        jc_isAdmin = isAdmin, jc_exp = iat + jw_expirationSeconds J, jc_iat = iat\<rparr>"
proof -
  have p: "quote \<notin> set (joinPermissions permissions)" using assms(4) by (intro join_quoteless) blast
  have s: "splitPermissions (joinPermissions permissions) = permissions"
    using assms(4) by (intro split_joinPermissions) blast
  have "parse_claims J now stale (jwt_payload J iat userId username permissions isAdmin)
      = Inr (Some \<lparr>jc_userId = userId, jc_username = username,
          jc_permissions = splitPermissions (joinPermissions permissions),
          jc_isAdmin = (take 4 ((if isAdmin then ''true'' else ''false'') @ ''}'') = ''true''),
          jc_exp = iat + jw_expirationSeconds J, jc_iat = iat\<rparr>)"
    unfolding payload_front_eq
    by (rule parse_claims_front [OF assms(1,2,6)]) (simp_all add: assms(3) p after_value after_member)
  then show ?thesis
    unfolding validate_generated assms(5) [symmetric] by (simp add: s)
qed

text \<open>C26. A token the service generates is accepted by it until it expires, and gives back the
  user, the permissions, the administrator flag and the times it was made from, for names without
  quotation marks and non-empty permissions without commas.\<close>

theorem jwt_roundtrip:
  assumes "quote \<notin> set (jw_issuer J)" "quote \<notin> set userId" "quote \<notin> set username"
    and "\<forall>p \<in> set permissions. p \<noteq> [] \<and> CHR '','' \<notin> set p \<and> quote \<notin> set p"
    and "iat = now' div 10 ^ 9" and "times_ok J iat now"
  shows "validateToken hmac J now stale (generateToken hmac J now' userId username permissions isAdmin)
    = Some \<lparr>jc_userId = userId, jc_username = username, jc_permissions = permissions,
        jc_isAdmin = isAdmin, jc_exp = iat + jw_expirationSeconds J, jc_iat = iat\<rparr>"
  using assms by (rule validate_generated_token)

text \<open>The payload is put together without escaping: a user whose name carries quotation
  marks gets, from a token made for a user who is not an administrator, claims that say
  administrator.\<close>

theorem jwt_username_injection:
  assumes "quote \<notin> set (jw_issuer J)" "quote \<notin> set userId" "quote \<notin> set w"
    and "\<forall>p \<in> set permissions. p \<noteq> [] \<and> CHR '','' \<notin> set p \<and> quote \<notin> set p"
    and "times_ok J (now' div 10 ^ 9) now"
  shows "\<exists>c. validateToken hmac J now stale (generateToken hmac J now' userId
        (w @ ''\",\"isAdmin\":true,\"x\":\"'') permissions False) = Some c
    \<and> jc_username c = w \<and> jc_isAdmin c"
proof -
  let ?u = "w @ ''\",\"isAdmin\":true,\"x\":\"''"
  have p: "quote \<notin> set (joinPermissions permissions)" using assms(4) by (intro join_quoteless) blast
  have e: "quoted ?u (CHR '','') = quoted w (CHR '','') @ quoted ''isAdmin'' (CHR '':'') @ ''true,''
      @ quoted ''x'' (CHR '':'') @ quoted [] (CHR '','')"
    by (simp add: quoted_def)
  have "parse_claims J now stale (jwt_payload J (now' div 10 ^ 9) userId ?u permissions False)
      = Inr (Some \<lparr>jc_userId = userId, jc_username = w,
          jc_permissions = splitPermissions (joinPermissions permissions),
          jc_isAdmin = (take 4 (''true,'' @ quoted ''x'' (CHR '':'') @ quoted [] (CHR '','')
             @ quoted ''permissions'' (CHR '':'') @ quoted (joinPermissions permissions) (CHR '','')
             @ quoted ''isAdmin'' (CHR '':'') @ ''false}'') = ''true''),
          jc_exp = now' div 10 ^ 9 + jw_expirationSeconds J, jc_iat = now' div 10 ^ 9\<rparr>)"
    unfolding payload_front_eq e
    by (rule parse_claims_front [OF assms(1,2,5)]) (simp_all add: assms(3) p after_value after_member)
  then show ?thesis by (simp add: validate_generated)
qed

definition demo_jwt :: jwt_service where
  "demo_jwt = \<lparr>jw_secretKey = replicate 32 (CHR ''k''), jw_issuer = ''icao-pkd'', jw_expirationSeconds = 3600\<rparr>"

lemma jwt_roundtrip_witness:
  "validateToken (\<lambda>k m. rev m) demo_jwt (5 * 10 ^ 9) False
     (generateToken (\<lambda>k m. rev m) demo_jwt (2 * 10 ^ 9) ''u1'' ''kim'' [''pa:verify'', ''upload:read''] True)
   = Some \<lparr>jc_userId = ''u1'', jc_username = ''kim'', jc_permissions = [''pa:verify'', ''upload:read''],
        jc_isAdmin = True, jc_exp = 3602, jc_iat = 2\<rparr>"
  using jwt_roundtrip [of demo_jwt "''u1''" "''kim''" "[''pa:verify'', ''upload:read'']" 2 "2 * 10 ^ 9"
      "5 * 10 ^ 9" "\<lambda>k m. rev m" False True]
  by (simp add: demo_jwt_def times_ok_def)

lemma jwt_username_injection_witness:
  "\<exists>c. validateToken (\<lambda>k m. rev m) demo_jwt (5 * 10 ^ 9) False
      (generateToken (\<lambda>k m. rev m) demo_jwt (2 * 10 ^ 9) ''u1'' ''kim\",\"isAdmin\":true,\"x\":\"'' [] False)
    = Some c \<and> jc_username c = ''kim'' \<and> jc_isAdmin c"
  using jwt_username_injection [of demo_jwt "''u1''" "''kim''" "[]" "2 * 10 ^ 9" "5 * 10 ^ 9"
      "\<lambda>k m. rev m" False]
  by (simp add: demo_jwt_def times_ok_def)

text \<open>C31. What an accepted token proves: its third part is the keyed digest of the first two
  under the service's secret; its payload names the service as issuer or no issuer at all; and if it
  has an expiry time, that is the one in the claims and the time point \<^verbatim>\<open>from_time_t\<close> makes of it lies ahead, so that it has
  not come unless it is more than 9223372036 seconds from 1970 and its nanoseconds do not fit into 64 bits.\<close>

theorem jwt_accepted_is_signed:
  assumes "validateToken hmac J now stale token = Some c"
  shows "\<exists>h p. token = h @ ''.'' @ p @ ''.'' @ base64UrlEncode (hmac (jw_secretKey J) (h @ ''.'' @ p))
    \<and> json_text (base64UrlDecode p) ''\"iss\":\"'' \<in> {Inr None, Inr (Some (jw_issuer J))}
    \<and> (json_long (base64UrlDecode p) ''\"exp\":'' = Inr None
       \<or> json_long (base64UrlDecode p) ''\"exp\":'' = Inr (Some (jc_exp c)) \<and> now < from_time_t (jc_exp c)
          \<and> (now < jc_exp c * 10 ^ 9 \<or> 9223372036 < \<bar>jc_exp c\<bar>))"
proof -
  obtain h p sg where sp: "split_token token = Some (h, p, sg)"
    using assms by (auto simp: validateToken_def split: option.splits)
  have sg: "sg = base64UrlEncode (hmac (jw_secretKey J) (h @ ''.'' @ p))"
    and pc: "parse_claims J now stale (base64UrlDecode p) = Inr (Some c)"
    using assms by (auto simp: validateToken_def sp Let_def split: if_splits sum.splits)
  have "token = h @ ''.'' @ p @ ''.'' @ sg"
  proof -
    obtain i j where ij: "str_find token ''.'' 0 = Some i" "str_find token ''.'' (i + 1) = Some j"
      and hp: "h = take i token" "p = take (j - i - 1) (drop (i + 1) token)" "sg = drop (j + 1) token"
      using sp by (auto simp: split_token_def Let_def split: option.splits)
    have l: "i + 1 \<le> j" "j < length token"
      using str_find_bounds [OF ij(2)] by simp_all
    have "token ! i = CHR ''.''" "token ! j = CHR ''.''"
      using ij l by (auto simp: str_find_def dest!: find_from_char_nth split: if_splits)
    then have "token = take i token @ CHR ''.'' # drop (i + 1) token"
      "drop (i + 1) token = take (j - i - 1) (drop (i + 1) token) @ CHR ''.'' # drop (j + 1) token"
      using l id_take_nth_drop [of i token] id_take_nth_drop [of "j - i - 1" "drop (i + 1) token"]
      by simp_all
    then show ?thesis unfolding hp by simp
  qed
  moreover from pc have "json_text (base64UrlDecode p) ''\"iss\":\"'' \<in> {Inr None, Inr (Some (jw_issuer J))}
    \<and> (json_long (base64UrlDecode p) ''\"exp\":'' = Inr None
       \<or> json_long (base64UrlDecode p) ''\"exp\":'' = Inr (Some (jc_exp c)) \<and> now < from_time_t (jc_exp c))"
    unfolding parse_claims_def
    by (auto dest!: rbind_Inr split: if_splits option.splits)
  moreover have "now < from_time_t (jc_exp c) \<Longrightarrow> now < jc_exp c * 10 ^ 9 \<or> 9223372036 < \<bar>jc_exp c\<bar>"
    using from_time_t_id [of "jc_exp c"] by (cases "\<bar>jc_exp c\<bar> \<le> 9223372036") auto
  ultimately show ?thesis using sg by blast
qed

lemma jwt_accepted_is_signed_witness:
  "\<exists>h p. ''ew.fQ.UWYud2U'' = h @ ''.'' @ p @ ''.'' @ base64UrlEncode (rev (h @ ''.'' @ p))
    \<and> json_text (base64UrlDecode p) ''\"iss\":\"'' \<in> {Inr None, Inr (Some (jw_issuer demo_jwt))}"
proof -
  have "base64UrlEncode ''}'' = ''fQ''"
    by (simp add: base64UrlEncode_def base64_chars_def url_char_def)
  then have p: "base64UrlDecode ''fQ'' = ''}''" using decode_encode [of "''}''"] by simp
  have s: "base64UrlEncode (rev ''ew.fQ'') = ''UWYud2U''"
    by (simp add: base64UrlEncode_def base64_chars_def url_char_def)
  have sp: "split_token ''ew.fQ.UWYud2U'' = Some (''ew'', ''fQ'', ''UWYud2U'')"
    by (simp add: split_token_def str_find_def)
  have n: "find_from ''}'' (quote # k) 0 = None" for k by simp
  have v: "validateToken (\<lambda>k m. rev m) demo_jwt 0 False ''ew.fQ.UWYud2U''
      = Some \<lparr>jc_userId = [], jc_username = [], jc_permissions = [], jc_isAdmin = False, jc_exp = 0, jc_iat = 0\<rparr>"
    using s by (simp add: validateToken_def sp p parse_claims_def json_text_def json_long_def str_find_def
        rbind_def)
  show ?thesis using jwt_accepted_is_signed [OF v] by auto
qed

text \<open>The wrap is real: the nanoseconds of an expiry in the year 1677 are those of a time in 2262, and a payload with it passes.\<close>

theorem wrapped_expiry_accepted:
  "from_time_t (- 9223372037) = 9223372036709551616
   \<and> parse_claims demo_jwt (5 * 10 ^ 18) False ''{\"exp\":-9223372037}'' \<noteq> Inr None
   \<and> (\<exists>c. parse_claims demo_jwt (5 * 10 ^ 18) False ''{\"exp\":-9223372037}'' = Inr (Some c) \<and> jc_exp c = - 9223372037)"
proof -
  have t: "from_time_t (- 9223372037) = 9223372036709551616" by (simp add: from_time_t_def wrap64_def)
  have "json_long ''{\"exp\":-9223372037}'' ''\"exp\":'' = Inr (Some (- 9223372037))"
  proof -
    have "stol ''-9223372037'' = Inr (- 9223372037)"
      using stol_int_dec [of "- 9223372037"] by (simp add: int_dec_def nat_dec.simps char_of_def bit_0)
    then show ?thesis by (simp add: json_long_after after.simps)
  qed
  moreover have "json_text ''{\"exp\":-9223372037}'' ''\"iss\":\"'' = Inr None"
    "json_text ''{\"exp\":-9223372037}'' ''\"sub\":\"'' = Inr None"
    "json_text ''{\"exp\":-9223372037}'' ''\"username\":\"'' = Inr None"
    "json_text ''{\"exp\":-9223372037}'' ''\"permissions\":\"'' = Inr None"
    by (simp_all add: json_text_after after.simps)
  moreover have "json_long ''{\"exp\":-9223372037}'' ''\"iat\":'' = Inr None" by (simp add: json_long_after after.simps)
  moreover have "str_find ''{\"exp\":-9223372037}'' ''\"isAdmin\":'' 0 = None" by (simp add: str_find_def)
  ultimately show ?thesis unfolding parse_claims_def by (simp add: rbind_def t)
qed

end
