(* ===== verification/Rate_Limiter.thy ===== *)
theory Rate_Limiter
  imports Interfaces
begin

text \<open>
  \<^verbatim>\<open>services/pkd-management/src/middleware/api_rate_limiter.cpp\<close>: the in-memory limiter of
  API clients, with a minute, an hour and a day window per client.  Time points of the steady
  clock are nanoseconds as \<^typ>\<open>int\<close>, its epoch is 0; each reading of a clock is an argument.
  The mutex makes every operation atomic.
\<close>

section \<open>State and operations\<close>

record window =
  w_count :: int
  w_start :: int

record client_windows =
  cw_minute :: window
  cw_hour :: window
  cw_day :: window

record rate_limiter =
  rl_windows :: "string \<Rightarrow> client_windows option"
  rl_checkCount :: nat

record rate_limit_info =
  ri_allowed :: bool
  ri_limit :: int
  ri_remaining :: int
  ri_resetAt :: int
  ri_window :: string

definition CLEANUP_INTERVAL :: nat where
  "CLEANUP_INTERVAL = 100"

abbreviation seconds :: "int \<Rightarrow> int" where "seconds n \<equiv> n * 1000000000"

definition window0 :: window where
  "window0 = \<lparr>w_count = 0, w_start = 0\<rparr>"

definition client_windows0 :: client_windows where
  "client_windows0 = \<lparr>cw_minute = window0, cw_hour = window0, cw_day = window0\<rparr>"

definition new_rate_limiter :: rate_limiter where
  "new_rate_limiter = \<lparr>rl_windows = (\<lambda>_. None), rl_checkCount = 0\<rparr>"

definition resetIfExpired :: "int \<Rightarrow> int \<Rightarrow> window \<Rightarrow> window" where
  "resetIfExpired now duration w =
     (if duration \<le> now - w_start w then \<lparr>w_count = 0, w_start = now\<rparr> else w)"

text \<open>\<^verbatim>\<open>duration_cast\<close> truncates towards zero.  \<open>sys\<close> is the reading of
  \<^verbatim>\<open>system_clock::now()\<close>.\<close>

definition to_seconds :: "int \<Rightarrow> int" where
  "to_seconds ns = (if ns < 0 then - (- ns div 1000000000) else ns div 1000000000)"

definition reset_at :: "int \<Rightarrow> int \<Rightarrow> int \<Rightarrow> window \<Rightarrow> int" where
  "reset_at sys now period w = to_seconds (sys + seconds (period - to_seconds (now - w_start w)))"

text \<open>The four readings of the steady clock in one call: at its start and one in each
  \<^verbatim>\<open>resetIfExpired\<close>.\<close>

record clock_readings =
  ck_now :: int
  ck_minute :: int
  ck_hour :: int
  ck_day :: int
  ck_sys :: int

definition current_windows :: "clock_readings \<Rightarrow> client_windows option \<Rightarrow> client_windows" where
  "current_windows k e =
     (let cw = (case e of None \<Rightarrow> client_windows0 | Some cw \<Rightarrow> cw);
          fresh = \<lparr>w_count = 0, w_start = ck_now k\<rparr>;
          cw = (if w_start (cw_minute cw) = 0
                then \<lparr>cw_minute = fresh, cw_hour = fresh, cw_day = fresh\<rparr> else cw)
      in \<lparr>cw_minute = resetIfExpired (ck_minute k) (seconds 60) (cw_minute cw),
          cw_hour = resetIfExpired (ck_hour k) (seconds 3600) (cw_hour cw),
          cw_day = resetIfExpired (ck_day k) (seconds 86400) (cw_day cw)\<rparr>)"

definition window_inc :: "window \<Rightarrow> window" where
  "window_inc w = w\<lparr>w_count := w_count w + 1\<rparr>"

definition day_old :: "int \<Rightarrow> client_windows \<Rightarrow> bool" where
  "day_old now cw = (seconds 86400 < now - w_start (cw_day cw))"

text \<open>Every \<^verbatim>\<open>CLEANUP_INTERVAL\<close> admitted requests, the entries of the other clients whose
  day window is over are erased.\<close>

definition periodic_cleanup :: "string \<Rightarrow> int \<Rightarrow> rate_limiter \<Rightarrow> rate_limiter" where
  "periodic_cleanup clientId now s =
     (if CLEANUP_INTERVAL \<le> rl_checkCount s + 1 then
        \<lparr>rl_windows = (\<lambda>c. case rl_windows s c of None \<Rightarrow> None
           | Some cw \<Rightarrow> if c \<noteq> clientId \<and> day_old now cw then None else Some cw),
         rl_checkCount = 0\<rparr>
      else s\<lparr>rl_checkCount := rl_checkCount s + 1\<rparr>)"

definition checkAndIncrement :: "clock_readings \<Rightarrow> string \<Rightarrow> int \<Rightarrow> int \<Rightarrow> int \<Rightarrow> rate_limiter
    \<Rightarrow> rate_limit_info \<times> rate_limiter" where
  "checkAndIncrement k clientId limitPerMin limitPerHour limitPerDay s =
     (let cw = current_windows k (rl_windows s clientId);
          s1 = s\<lparr>rl_windows := (rl_windows s)(clientId \<mapsto> cw)\<rparr>;
          reject = (\<lambda>limit period w name. (\<lparr>ri_allowed = False, ri_limit = limit, ri_remaining = 0,
             ri_resetAt = reset_at (ck_sys k) (ck_now k) period w, ri_window = name\<rparr>, s1))
      in if 0 < limitPerMin \<and> limitPerMin \<le> w_count (cw_minute cw)
         then reject limitPerMin 60 (cw_minute cw) ''per_minute''
         else if 0 < limitPerHour \<and> limitPerHour \<le> w_count (cw_hour cw)
         then reject limitPerHour 3600 (cw_hour cw) ''per_hour''
         else if 0 < limitPerDay \<and> limitPerDay \<le> w_count (cw_day cw)
         then reject limitPerDay 86400 (cw_day cw) ''per_day''
         else
           let cw' = \<lparr>cw_minute = window_inc (cw_minute cw), cw_hour = window_inc (cw_hour cw),
                      cw_day = window_inc (cw_day cw)\<rparr>;
               s2 = periodic_cleanup clientId (ck_now k)
                      (s1\<lparr>rl_windows := (rl_windows s1)(clientId \<mapsto> cw')\<rparr>)
           in (\<lparr>ri_allowed = True, ri_limit = limitPerMin,
                ri_remaining = (if 0 < limitPerMin then limitPerMin - w_count (cw_minute cw') else 999),
                ri_resetAt = reset_at (ck_sys k) (ck_now k) 60 (cw_minute cw'),
                ri_window = ''per_minute''\<rparr>, s2))"

definition limiter_cleanup :: "int \<Rightarrow> rate_limiter \<Rightarrow> rate_limiter" where
  "limiter_cleanup now s =
     s\<lparr>rl_windows := (\<lambda>c. case rl_windows s c of None \<Rightarrow> None
        | Some cw \<Rightarrow> if day_old now cw \<and> w_count (cw_day cw) = 0 then None else Some cw)\<rparr>"

section \<open>The counters stay within the limits\<close>

text \<open>\<open>lim c\<close> are the three limits configured for client \<open>c\<close>.\<close>

type_synonym limits = "string \<Rightarrow> int \<times> int \<times> int"

inductive limiter_step :: "limits \<Rightarrow> rate_limiter \<Rightarrow> rate_limiter \<Rightarrow> bool" for lim where
  limiter_check: "lim c = (m, h, d) \<Longrightarrow> checkAndIncrement k c m h d s = (i, t) \<Longrightarrow> limiter_step lim s t"
| limiter_clean: "limiter_step lim s (limiter_cleanup now s)"

inductive_cases limiter_stepE: "limiter_step lim s t"

definition window_ok :: "int \<Rightarrow> window \<Rightarrow> bool" where
  "window_ok l w = (0 \<le> w_count w \<and> (0 < l \<longrightarrow> w_count w \<le> l))"

definition windows_ok :: "int \<times> int \<times> int \<Rightarrow> client_windows \<Rightarrow> bool" where
  "windows_ok l cw = (case l of (m, h, d) \<Rightarrow>
     window_ok m (cw_minute cw) \<and> window_ok h (cw_hour cw) \<and> window_ok d (cw_day cw))"

definition limiter_ok :: "limits \<Rightarrow> rate_limiter \<Rightarrow> bool" where
  "limiter_ok lim s = (\<forall>c cw. rl_windows s c = Some cw \<longrightarrow> windows_ok (lim c) cw)"

lemma window_ok_reset: "window_ok l w \<Longrightarrow> window_ok l (resetIfExpired n d w)"
  by (auto simp: resetIfExpired_def window_ok_def)

lemma window_ok_fresh [simp]: "window_ok l \<lparr>w_count = 0, w_start = t\<rparr>"
  by (simp add: window_ok_def)

lemma windows_ok_current:
  "(\<And>cw. e = Some cw \<Longrightarrow> windows_ok l cw) \<Longrightarrow> windows_ok l (current_windows k e)"
  by (cases e) (auto simp: current_windows_def windows_ok_def Let_def client_windows0_def window0_def
      intro!: window_ok_reset split: prod.splits)

lemma window_ok_inc: "window_ok l w \<Longrightarrow> \<not> (0 < l \<and> l \<le> w_count w) \<Longrightarrow> window_ok l (window_inc w)"
  by (auto simp: window_ok_def window_inc_def)

definition exhausted :: "int \<times> int \<times> int \<Rightarrow> client_windows \<Rightarrow> bool" where
  "exhausted l cw = (case l of (m, h, d) \<Rightarrow> 0 < m \<and> m \<le> w_count (cw_minute cw)
     \<or> 0 < h \<and> h \<le> w_count (cw_hour cw) \<or> 0 < d \<and> d \<le> w_count (cw_day cw))"

definition count_request :: "client_windows \<Rightarrow> client_windows" where
  "count_request cw = \<lparr>cw_minute = window_inc (cw_minute cw), cw_hour = window_inc (cw_hour cw),
     cw_day = window_inc (cw_day cw)\<rparr>"

abbreviation put_windows :: "string \<Rightarrow> client_windows \<Rightarrow> rate_limiter \<Rightarrow> rate_limiter" where
  "put_windows c cw s \<equiv> s\<lparr>rl_windows := (rl_windows s)(c \<mapsto> cw)\<rparr>"

text \<open>The outcome of a call in one equation each for the answer and the state.\<close>

lemma check_result:
  fixes k c m h d s
  defines "cw \<equiv> current_windows k (rl_windows s c)"
  shows "ri_allowed (fst (checkAndIncrement k c m h d s)) = (\<not> exhausted (m, h, d) cw)"
    and "snd (checkAndIncrement k c m h d s) =
      (if exhausted (m, h, d) cw then put_windows c cw s
       else periodic_cleanup c (ck_now k) (put_windows c (count_request cw) s))"
  unfolding cw_def by (auto simp: checkAndIncrement_def exhausted_def count_request_def Let_def)

lemma windows_ok_count: "windows_ok l cw \<Longrightarrow> \<not> exhausted l cw \<Longrightarrow> windows_ok l (count_request cw)"
  by (auto simp: windows_ok_def exhausted_def count_request_def window_ok_inc split: prod.splits)

lemma limiter_ok_put [inv_intros]:
  "limiter_ok lim s \<Longrightarrow> windows_ok (lim c) cw \<Longrightarrow> limiter_ok lim (put_windows c cw s)"
  by (simp add: limiter_ok_def)

lemma limiter_ok_periodic [inv_intros]: "limiter_ok lim s \<Longrightarrow> limiter_ok lim (periodic_cleanup c now s)"
  by (auto simp: limiter_ok_def periodic_cleanup_def split: if_splits option.splits)

lemma limiter_ok_clean [inv_intros]: "limiter_ok lim s \<Longrightarrow> limiter_ok lim (limiter_cleanup now s)"
  by (auto simp: limiter_ok_def limiter_cleanup_def split: option.splits if_splits)

lemma check_ok:
  assumes "limiter_ok lim s" "lim c = (m, h, d)"
  shows "limiter_ok lim (snd (checkAndIncrement k c m h d s))"
proof -
  have cw: "windows_ok (lim c) (current_windows k (rl_windows s c))"
    using assms(1) by (intro windows_ok_current) (auto simp: limiter_ok_def)
  then show ?thesis
    using assms by (auto simp: check_result(2) intro!: inv_intros windows_ok_count)
qed

interpretation limiter: invariant_system "\<lambda>s. s = new_rate_limiter" "limiter_step lim" "limiter_ok lim" for lim
proof unfold_locales
  show "s = new_rate_limiter \<Longrightarrow> limiter_ok lim s" for s
    by (simp add: limiter_ok_def new_rate_limiter_def)
  show "limiter_ok lim s \<Longrightarrow> limiter_step lim s t \<Longrightarrow> limiter_ok lim t" for s t
  proof (erule limiter_stepE)
    fix c m h d k i
    assume "limiter_ok lim s" "lim c = (m, h, d)" "checkAndIncrement k c m h d s = (i, t)"
    then show "limiter_ok lim t" using check_ok [of lim s c m h d k] by simp
  next
    fix now
    assume "limiter_ok lim s" "t = limiter_cleanup now s"
    then show "limiter_ok lim t" by (simp add: limiter_ok_clean)
  qed
qed

text \<open>In every state the limiter can reach, through any sequence of checks by any clients and
  of cleanups at any times, no window of a client has counted more requests than the client's limit
  for it, where there is a limit.\<close>

theorem limiter_counts_bounded:
  assumes "reachable_from (\<lambda>s. s = new_rate_limiter) (limiter_step lim) s"
    and "rl_windows s c = Some cw" and "lim c = (m, h, d)" and "0 < m" "0 < h" "0 < d"
  shows "w_count (cw_minute cw) \<le> m \<and> w_count (cw_hour cw) \<le> h \<and> w_count (cw_day cw) \<le> d"
  using limiter.reachable_inv [OF assms(1)] assms(2-6)
  by (auto simp: limiter_ok_def windows_ok_def window_ok_def dest!: spec)

section \<open>Sequences of requests\<close>

text \<open>The answers to a sequence of requests, each with its client and clock readings.\<close>

fun run_checks :: "limits \<Rightarrow> (string \<times> clock_readings) list \<Rightarrow> rate_limiter
    \<Rightarrow> (string \<times> bool) list \<times> rate_limiter" where
  "run_checks lim [] s = ([], s)"
| "run_checks lim ((c, k) # rs) s =
     (let (i, t) = (case lim c of (m, h, d) \<Rightarrow> checkAndIncrement k c m h d s);
          (as, u) = run_checks lim rs t
      in ((c, ri_allowed i) # as, u))"

definition granted :: "string \<Rightarrow> (string \<times> bool) list \<Rightarrow> nat" where
  "granted c as = length (filter (\<lambda>a. a = (c, True)) as)"

definition readings_in :: "int \<Rightarrow> int \<Rightarrow> clock_readings \<Rightarrow> bool" where
  "readings_in a b k = (\<forall>t \<in> {ck_now k, ck_minute k, ck_hour k, ck_day k}. a \<le> t \<and> t < b)"

text \<open>What a client may still be granted in the minute from \<open>start\<close> on, from its entry: a day
  window that ends before that minute costs a second quota, since the periodic cleanup may erase the entry.\<close>

definition safe_day :: "int \<Rightarrow> client_windows \<Rightarrow> bool" where
  "safe_day start cw = (start + seconds 60 \<le> w_start (cw_day cw) + seconds 86400)"

definition quota_left :: "int \<Rightarrow> int \<Rightarrow> client_windows option \<Rightarrow> int" where
  "quota_left start m e =
     (case e of None \<Rightarrow> m | Some cw \<Rightarrow> (if safe_day start cw then m else 2 * m) - w_count (cw_minute cw))"

definition in_minute :: "int \<Rightarrow> int \<Rightarrow> client_windows option \<Rightarrow> bool" where
  "in_minute start m e =
     (case e of None \<Rightarrow> True | Some cw \<Rightarrow> start \<le> w_start (cw_minute cw) \<and> w_count (cw_minute cw) \<le> m)"

lemma current_in_minute:
  assumes "in_minute start m e" "readings_in start (start + seconds 60) k" "0 < start" "0 < m"
  shows "in_minute start m (Some (current_windows k e)) \<and> quota_left start m (Some (current_windows k e)) \<le> quota_left start m e"
  using assms
  by (auto simp: in_minute_def quota_left_def safe_day_def readings_in_def current_windows_def resetIfExpired_def Let_def
      client_windows0_def window0_def split: option.split_asm)

lemma in_minute_count:
  assumes "in_minute start m (Some cw)" "\<not> exhausted (m, h, d) cw" "0 < m"
  shows "in_minute start m (Some (count_request cw)) \<and> quota_left start m (Some (count_request cw)) = quota_left start m (Some cw) - 1"
  using assms by (auto simp: in_minute_def quota_left_def safe_day_def exhausted_def count_request_def window_inc_def)

lemma in_minute_cleanup:
  assumes "in_minute start m (rl_windows s c)" "readings_in start (start + seconds 60) k" "0 < m"
  shows "in_minute start m (rl_windows (periodic_cleanup c' (ck_now k) s) c)
    \<and> quota_left start m (rl_windows (periodic_cleanup c' (ck_now k) s) c) \<le> quota_left start m (rl_windows s c)"
  using assms
  by (auto simp: in_minute_def quota_left_def safe_day_def readings_in_def periodic_cleanup_def day_old_def split: option.splits)

lemma own_entry_kept [simp]: "rl_windows (periodic_cleanup c now s) c = rl_windows s c"
  by (simp add: periodic_cleanup_def split: option.split)

lemma quota_left_nonneg: "in_minute start m e \<Longrightarrow> 0 < m \<Longrightarrow> 0 \<le> quota_left start m e"
  by (auto simp: in_minute_def quota_left_def split: option.splits)

lemma check_in_minute:
  fixes h d :: int
  assumes "in_minute start m (rl_windows s c)" "readings_in start (start + seconds 60) k" "0 < start" "0 < m"
    and "m' = (if c' = c then m else m')"
  defines "chk \<equiv> checkAndIncrement k c' m' h d s"
  shows "in_minute start m (rl_windows (snd chk) c)
    \<and> quota_left start m (rl_windows (snd chk) c) + (if c' = c \<and> ri_allowed (fst chk) then 1 else 0) \<le> quota_left start m (rl_windows s c)"
proof (cases "c' = c")
  case True
  then have m: "m' = m" using assms(5) by simp
  let ?cw = "current_windows k (rl_windows s c)"
  note cur = current_in_minute [OF assms(1-4)]
  show ?thesis using cur in_minute_count [of start m ?cw h d] assms(4)
    by (cases "exhausted (m, h, d) ?cw") (auto simp: chk_def m True check_result)
next
  case False
  then show ?thesis using assms(1,2,4)
      in_minute_cleanup [of start m "put_windows c' (count_request (current_windows k (rl_windows s c'))) s" c k c']
    by (cases "exhausted (m', h, d) (current_windows k (rl_windows s c'))") (simp_all add: chk_def check_result)
qed

lemma run_checks_Cons:
  assumes "lim c = (m, h, d)"
  shows "fst (run_checks lim ((c, k) # rs) s) = (c, ri_allowed (fst (checkAndIncrement k c m h d s)))
    # fst (run_checks lim rs (snd (checkAndIncrement k c m h d s)))"
  using assms by (simp add: Let_def split: prod.split)

lemma granted_in_minute:
  assumes "in_minute start m (rl_windows s c)" "\<forall>(c', k) \<in> set rs. readings_in start (start + seconds 60) k"
    and "fst (lim c) = m" "0 < m" "0 < start"
  shows "int (granted c (fst (run_checks lim rs s))) \<le> quota_left start m (rl_windows s c)"
  using assms(1,2)
proof (induction rs arbitrary: s)
  case Nil
  then show ?case using quota_left_nonneg assms(4) by (simp add: granted_def)
next
  case (Cons r rs)
  obtain c' k where r: "r = (c', k)" by force
  obtain m' h d where l: "lim c' = (m', h, d)" by (cases "lim c'") auto
  let ?chk = "checkAndIncrement k c' m' h d s"
  have m': "m' = (if c' = c then m else m')" using l assms(3) by auto
  have "readings_in start (start + seconds 60) k" using Cons.prems(2) r by auto
  note step = check_in_minute [OF Cons.prems(1) this assms(5,4) m', of h d]
  have "int (granted c (fst (run_checks lim rs (snd ?chk)))) \<le> quota_left start m (rl_windows (snd ?chk) c)"
    using Cons.prems(2) step by (intro Cons.IH) auto
  moreover have "granted c (fst (run_checks lim (r # rs) s))
      = (if c' = c \<and> ri_allowed (fst ?chk) then 1 else 0) + granted c (fst (run_checks lim rs (snd ?chk)))"
    unfolding r run_checks_Cons [where lim = lim, OF l] by (auto simp: granted_def)
  ultimately show ?case using step by (cases "c' = c \<and> ri_allowed (fst ?chk)") auto
qed

text \<open>C33. Within a minute window: whatever requests of whatever clients arrive, and however the
  periodic cleanup falls, in the 60 seconds of a minute window of a client, at most as many of the
  client's requests are granted as its limit per minute leaves when its day window does not end before the
  minute; when it does, the cleanup may erase the counters once (\<open>cleanup_restores_quota\<close>), and at
  most one further limit is granted.\<close>

theorem limiter_minute_bound:
  assumes "rl_windows s c = Some cw" and "w_start (cw_minute cw) = start" and "0 < start"
    and "\<forall>(c', k) \<in> set rs. readings_in start (start + seconds 60) k"
    and "lim c = (m, h, d)" and "0 < m" and "w_count (cw_minute cw) \<le> m"
  shows "int (granted c (fst (run_checks lim rs s))) \<le> 2 * m - w_count (cw_minute cw)
    \<and> (start + seconds 60 \<le> w_start (cw_day cw) + seconds 86400 \<longrightarrow>
         int (granted c (fst (run_checks lim rs s))) \<le> m - w_count (cw_minute cw))"
  using granted_in_minute [of start m s c rs lim] assms
  by (auto simp: in_minute_def quota_left_def safe_day_def split: if_splits)

definition demo_readings :: "int \<Rightarrow> clock_readings" where
  "demo_readings t = \<lparr>ck_now = t, ck_minute = t, ck_hour = t, ck_day = t, ck_sys = t\<rparr>"

definition demo_windows :: "int \<Rightarrow> int \<Rightarrow> client_windows" where
  "demo_windows n start = \<lparr>cw_minute = \<lparr>w_count = n, w_start = start\<rparr>, cw_hour = \<lparr>w_count = n, w_start = start\<rparr>,
     cw_day = \<lparr>w_count = n, w_start = start\<rparr>\<rparr>"

lemma limiter_minute_bound_witness:
  "int (granted ''a'' (fst (run_checks (\<lambda>_. (2, 10, 10))
      [(''a'', demo_readings 5), (''b'', demo_readings 6), (''a'', demo_readings 7), (''a'', demo_readings 8)]
      \<lparr>rl_windows = [''a'' \<mapsto> demo_windows 0 5], rl_checkCount = 99\<rparr>))) \<le> 2"
  using limiter_minute_bound [of "\<lparr>rl_windows = [''a'' \<mapsto> demo_windows 0 5], rl_checkCount = 99\<rparr>" "''a''"
      "demo_windows 0 5" 5 "[(''a'', demo_readings 5), (''b'', demo_readings 6), (''a'', demo_readings 7),
        (''a'', demo_readings 8)]" "\<lambda>_. (2, 10, 10)" 2 10 10]
  by (simp add: demo_windows_def demo_readings_def readings_in_def)

lemma reachable_after_check:
  "reachable_from (\<lambda>s. s = new_rate_limiter) (limiter_step lim) s \<Longrightarrow> lim c = (m, h, d) \<Longrightarrow>
   reachable_from (\<lambda>s. s = new_rate_limiter) (limiter_step lim) (snd (checkAndIncrement k c m h d s))"
  by (erule reach_step) (auto intro!: limiter_check prod.collapse [symmetric])

lemma limiter_counts_bounded_witness:
  "1 \<le> (2 :: int) \<and> (\<exists>s cw. rl_windows s ''a'' = Some cw
     \<and> reachable_from (\<lambda>s. s = new_rate_limiter) (limiter_step (\<lambda>_. (2, 10, 10))) s
     \<and> w_count (cw_minute cw) \<le> 2 \<and> w_count (cw_hour cw) \<le> 10 \<and> w_count (cw_day cw) \<le> 10)"
proof -
  let ?s = "snd (checkAndIncrement (demo_readings 5) ''a'' 2 10 10 new_rate_limiter)"
  let ?R = "reachable_from (\<lambda>s. s = new_rate_limiter) (limiter_step (\<lambda>_. (2, 10, 10)))"
  have r: "?R ?s" by (intro reachable_after_check reach_init) simp_all
  have w: "rl_windows ?s ''a'' = Some (demo_windows 1 5)"
    by (simp add: check_result(2) new_rate_limiter_def current_windows_def client_windows0_def window0_def
        demo_readings_def resetIfExpired_def exhausted_def periodic_cleanup_def CLEANUP_INTERVAL_def
        count_request_def window_inc_def demo_windows_def Let_def)
  show ?thesis using limiter_counts_bounded [OF r w, of 2 10 10] r w by auto
qed

text \<open>No client is locked out: a request that arrives when the minute window of its client is
  over is granted, whatever the minute window had counted, as long as the limits per hour and per day
  are not used up.\<close>

theorem limiter_readmits:
  assumes "rl_windows s c = Some cw" and "w_start (cw_minute cw) \<noteq> 0"
    and "w_start (cw_minute cw) + seconds 60 \<le> ck_minute k"
    and "h \<le> 0 \<or> w_count (cw_hour cw) < h" and "d \<le> 0 \<or> w_count (cw_day cw) < d"
    and "0 \<le> w_count (cw_hour cw)" and "0 \<le> w_count (cw_day cw)"
  shows "ri_allowed (fst (checkAndIncrement k c m h d s))"
  using assms
  by (auto simp: check_result(1) exhausted_def current_windows_def resetIfExpired_def Let_def)

lemma limiter_readmits_witness:
  "ri_allowed (fst (checkAndIncrement (demo_readings (seconds 61)) ''a'' 2 10 10
     \<lparr>rl_windows = [''a'' \<mapsto> demo_windows 2 5], rl_checkCount = 0\<rparr>))"
  by (rule limiter_readmits [where cw = "demo_windows 2 5"])
    (simp_all add: demo_windows_def demo_readings_def)

text \<open>The periodic cleanup can take away a quota: when a client whose day window began more
  than a day ago has used up its minute, one admitted request of another client that triggers the
  cleanup erases its entry, and its next request is granted within the same minute.\<close>

theorem cleanup_restores_quota:
  assumes "rl_windows s c = Some cw" and "seconds 86400 < ck_now k - w_start (cw_day cw)"
    and "c \<noteq> c'" and "rl_checkCount s = 99" and "rl_windows s c' = None"
    and "ck_now k = ck_minute k" "ck_now k = ck_hour k" "ck_now k = ck_day k"
    and "ck_now k' = ck_minute k'" "ck_now k' = ck_hour k'" "ck_now k' = ck_day k'"
  shows "map snd (fst (run_checks lim [(c', k), (c, k')] s)) = [True, True]"
proof -
  obtain m h d where l: "lim c = (m, h, d)" by (cases "lim c") auto
  obtain m' h' d' where l': "lim c' = (m', h', d')" by (cases "lim c'") auto
  have fresh: "\<not> exhausted l (current_windows q None)"
    if "ck_now q = ck_minute q" "ck_now q = ck_hour q" "ck_now q = ck_day q" for l q
    using that by (auto simp: exhausted_def current_windows_def client_windows0_def window0_def
        resetIfExpired_def Let_def split: prod.splits)
  let ?t = "snd (checkAndIncrement k c' m' h' d' s)"
  have "rl_windows ?t c = None"
    using assms(1-5) fresh [OF assms(6-8)]
    by (simp add: check_result(2) periodic_cleanup_def CLEANUP_INTERVAL_def day_old_def)
  then show ?thesis
    using fresh [OF assms(6-8)] fresh [OF assms(9-11)] assms(5)
    by (simp add: l l' case_prod_beta check_result(1) Let_def)
qed

lemma cleanup_restores_quota_witness:
  "map snd (fst (run_checks (\<lambda>_. (2, 10, 0))
     [(''b'', demo_readings (seconds 86402)), (''a'', demo_readings (seconds 86402 + 1))]
     \<lparr>rl_windows = [''a'' \<mapsto> \<lparr>cw_minute = \<lparr>w_count = 2, w_start = seconds 86400\<rparr>,
        cw_hour = \<lparr>w_count = 2, w_start = seconds 86400\<rparr>, cw_day = \<lparr>w_count = 2, w_start = 1\<rparr>\<rparr>],
      rl_checkCount = 99\<rparr>)) = [True, True]"
  by (rule cleanup_restores_quota [where cw = "\<lparr>cw_minute = \<lparr>w_count = 2, w_start = seconds 86400\<rparr>,
        cw_hour = \<lparr>w_count = 2, w_start = seconds 86400\<rparr>, cw_day = \<lparr>w_count = 2, w_start = 1\<rparr>\<rparr>"])
    (simp_all add: demo_readings_def)

end
