(* ===== verification/Auth_Middleware.thy ===== *)
theory Auth_Middleware
  imports Access_Rules Credentials Jwt Rate_Limiter
begin

text \<open>
  \<^verbatim>\<open>services/pkd-management/src/middleware/auth_middleware.cpp\<close> and
  \<^verbatim>\<open>permission_filter.cpp\<close>: the filter in front of every handler.  A request passes with
  attributes for the handler, or is answered; what the filter writes (usage, audit log, session)
  is a list of effects.  The repositories, SHA-256, HMAC, the JSON printer and the clocks are the
  environment \<^verbatim>\<open>auth_env\<close>; the limiter, the cache of compiled endpoint patterns and the
  table of public endpoints are the state.
\<close>

section \<open>Data\<close>

datatype 'a run = Done 'a | Raised exn | Undefined

fun run_bind :: "'a run \<Rightarrow> ('a \<Rightarrow> 'b run) \<Rightarrow> 'b run" where
  "run_bind (Done x) f = f x"
| "run_bind (Raised e) f = Raised e"
| "run_bind Undefined f = Undefined"

record api_client =
  ac_id :: string
  ac_clientName :: string
  ac_apiKeyHash :: string
  ac_apiKeyPrefix :: string
  ac_description :: "string option"
  ac_permissions :: "string list"
  ac_allowedEndpoints :: "string list"
  ac_allowedIps :: "string list"
  ac_rateLimitPerMinute :: int
  ac_rateLimitPerHour :: int
  ac_rateLimitPerDay :: int
  ac_isActive :: bool
  ac_expiresAt :: "string option"
  ac_lastUsedAt :: "string option"
  ac_totalRequests :: int
  ac_createdBy :: "string option"
  ac_createdAt :: string
  ac_updatedAt :: string

definition api_client0 :: api_client where
  "api_client0 = \<lparr>ac_id = [], ac_clientName = [], ac_apiKeyHash = [], ac_apiKeyPrefix = [],
     ac_description = None, ac_permissions = [], ac_allowedEndpoints = [], ac_allowedIps = [],
     ac_rateLimitPerMinute = 60, ac_rateLimitPerHour = 1000, ac_rateLimitPerDay = 10000,
     ac_isActive = True, ac_expiresAt = None, ac_lastUsedAt = None, ac_totalRequests = 0,
     ac_createdBy = None, ac_createdAt = [], ac_updatedAt = []\<rparr>"

text \<open>\<^verbatim>\<open>getHeader\<close> answers the empty string for a header that is not there.\<close>

record http_request =
  hr_path :: string
  hr_method :: string
  hr_peer :: string
  hr_header :: "string \<Rightarrow> string"
  hr_session :: bool

datatype attr = AStr string | ABool bool

type_synonym attrs = "string \<Rightarrow> attr option"

datatype auth_answer = Pass attrs | Respond nat json "(string \<times> string) list"

datatype auth_effect =
    Update_Usage string
  | Usage_Log string string string string int int string string
  | Audit_Log string string bool "string option" "string option" "string option"
  | Session_Set string attr

record broken_time =
  bt_year :: int
  bt_month :: int
  bt_day :: int
  bt_hour :: int
  bt_minute :: int
  bt_second :: int

text \<open>\<open>ax_repo\<close> and \<open>ax_audit\<close>: the service container and the repository are there.
  \<open>ax_sys1\<close> and \<open>ax_sys2\<close> are the clock readings of the two \<^verbatim>\<open>Retry-After\<close> values, in
  seconds; \<open>ax_utc\<close> is the reading in \<^verbatim>\<open>validateApiKey\<close>, broken down by \<^verbatim>\<open>gmtime_r\<close>.\<close>

record auth_env =
  ax_enabled :: bool
  ax_repo :: bool
  ax_audit :: bool
  ax_find :: "string \<Rightarrow> api_client option"
  ax_sha :: "string \<Rightarrow> byte list option"
  ax_re :: rx_engine
  ax_hmac :: "string \<Rightarrow> string \<Rightarrow> string"
  ax_jwt :: jwt_service
  ax_stale :: bool
  ax_now :: int
  ax_utc :: broken_time
  ax_clock :: clock_readings
  ax_sys1 :: int
  ax_sys2 :: int
  ax_styled :: "json \<Rightarrow> string"

type_synonym regex_cache = "(string \<times> rx option) list"

record auth_state =
  au_limiter :: "rate_limiter option"
  au_cache :: regex_cache
  au_table :: endpoint_table

section \<open>API keys\<close>

text \<open>\<^verbatim>\<open>strftime\<close> with \<^verbatim>\<open>"%Y-%m-%d %H:%M:%S"\<close>.\<close>

definition utc_text :: "broken_time \<Rightarrow> string" where
  "utc_text t = int_dec (bt_year t) @ ''-'' @ pad0 2 (int_dec (bt_month t)) @ ''-'' @ pad0 2 (int_dec (bt_day t))
     @ '' '' @ pad0 2 (int_dec (bt_hour t)) @ '':'' @ pad0 2 (int_dec (bt_minute t)) @ '':''
     @ pad0 2 (int_dec (bt_second t))"

definition key_expired :: "broken_time \<Rightarrow> api_client \<Rightarrow> bool" where
  "key_expired t c = (case ac_expiresAt c of None \<Rightarrow> False | Some e \<Rightarrow> e \<noteq> [] \<and> e < utc_text t)"

definition MAX_REGEX_CACHE_SIZE :: nat where
  "MAX_REGEX_CACHE_SIZE = 256"

definition pattern_allows :: "rx_engine \<Rightarrow> string \<Rightarrow> string \<Rightarrow> rx option \<Rightarrow> bool" where
  "pattern_allows re path p r =
     (case r of Some x \<Rightarrow> regex_match re path x | None \<Rightarrow> str_find path p 0 = Some 0)"

text \<open>The loop over \<^verbatim>\<open>allowedEndpoints\<close> with its static cache, which stops growing when full.\<close>

fun endpoint_allowed :: "rx_engine \<Rightarrow> string \<Rightarrow> string list \<Rightarrow> regex_cache \<Rightarrow> bool \<times> regex_cache" where
  "endpoint_allowed re path [] cache = (False, cache)"
| "endpoint_allowed re path (p # ps) cache =
     (let r = (case map_of cache p of Some r \<Rightarrow> r | None \<Rightarrow> regex_compile re p);
          cache' = (if map_of cache p = None \<and> length cache < MAX_REGEX_CACHE_SIZE then (p, r) # cache else cache)
      in if pattern_allows re path p r then (True, cache') else endpoint_allowed re path ps cache')"

definition validateApiKey :: "auth_env \<Rightarrow> string \<Rightarrow> string \<Rightarrow> string \<Rightarrow> auth_state
    \<Rightarrow> (api_client option \<times> auth_state) run" where
  "validateApiKey E apiKey path clientIp st =
     (if \<not> ax_repo E then Done (None, st)
      else case hashApiKey (ax_sha E) apiKey of
        Inl e \<Rightarrow> Raised e
      | Inr keyHash \<Rightarrow>
          (case ax_find E keyHash of
             None \<Rightarrow> Done (None, st)
           | Some c \<Rightarrow>
               if \<not> ac_isActive c then Done (None, st)
               else if key_expired (ax_utc E) c then Done (None, st)
               else case isIpAllowed (ac_allowedIps c) clientIp of
                 None \<Rightarrow> Undefined
               | Some False \<Rightarrow> Done (None, st)
               | Some True \<Rightarrow>
                   if ac_allowedEndpoints c = [] then Done (Some c, st)
                   else let (ok, cache) = endpoint_allowed (ax_re E) path (ac_allowedEndpoints c) (au_cache st)
                        in Done (if ok then Some c else None, st\<lparr>au_cache := cache\<rparr>)))"

section \<open>The filter\<close>

definition unauthorized :: "string \<Rightarrow> string option \<Rightarrow> auth_answer" where
  "unauthorized msg fmt =
     Respond 401 (jobj ([(''error'', JStr ''Unauthorized''), (''message'', JStr msg)]
       @ (case fmt of None \<Rightarrow> [] | Some f \<Rightarrow> [(''required_format'', JStr f)]))) []"

definition nonempty :: "string \<Rightarrow> string option" where
  "nonempty s = (if s = [] then None else Some s)"

definition logAuthEvent :: "auth_env \<Rightarrow> http_request \<Rightarrow> string \<Rightarrow> string \<Rightarrow> bool \<Rightarrow> string \<Rightarrow> auth_effect list" where
  "logAuthEvent E rq username eventType success errorMessage =
     (if ax_audit E
      then [Audit_Log (if username = [] then ''anonymous'' else username) eventType success
              (nonempty (hr_peer rq)) (nonempty (hr_header rq ''User-Agent'')) (nonempty errorMessage)]
      else [])"

definition client_attrs :: "api_client \<Rightarrow> attrs" where
  "client_attrs c = [''client_id'' \<mapsto> AStr (ac_id c), ''client_name'' \<mapsto> AStr (ac_clientName c),
     ''auth_type'' \<mapsto> AStr ''api_key'']"

definition perms_json :: "string list \<Rightarrow> json" where
  "perms_json ps = JArr (map JStr ps)"

definition usage_effects :: "http_request \<Rightarrow> api_client \<Rightarrow> auth_effect list" where
  "usage_effects rq c = [Update_Usage (ac_id c),
     Usage_Log (ac_id c) (ac_clientName c) (hr_path rq) (hr_method rq) 200 0 (hr_peer rq)
       (hr_header rq ''User-Agent'')]"

definition limiter_check :: "auth_env \<Rightarrow> api_client \<Rightarrow> auth_state \<Rightarrow> rate_limit_info option \<times> auth_state" where
  "limiter_check E c st =
     (case au_limiter st of
        None \<Rightarrow> (None, st)
      | Some l \<Rightarrow>
          let (rl, l') = checkAndIncrement (ax_clock E) (ac_id c) (ac_rateLimitPerMinute c)
                           (ac_rateLimitPerHour c) (ac_rateLimitPerDay c) l
          in (Some rl, st\<lparr>au_limiter := Some l'\<rparr>))"

text \<open>\<^verbatim>\<open>static_cast<int>\<close> of the 64-bit difference.\<close>

definition too_many :: "auth_env \<Rightarrow> rate_limit_info \<Rightarrow> auth_answer" where
  "too_many E rl =
     Respond 429 (jobj [(''success'', JBool False), (''error'', JStr ''Rate limit exceeded''),
         (''limit'', JInt (ri_limit rl)), (''window'', JStr (ri_window rl)),
         (''retry_after_seconds'', JInt (sint (word_of_int (ri_resetAt rl - ax_sys1 E) :: 32 word)))])
       [(''Retry-After'', int_dec (ri_resetAt rl - ax_sys2 E)), (''X-RateLimit-Limit'', int_dec (ri_limit rl)),
        (''X-RateLimit-Remaining'', ''0''), (''X-RateLimit-Reset'', int_dec (ri_resetAt rl))]"

definition api_key_filter :: "auth_env \<Rightarrow> http_request \<Rightarrow> auth_state
    \<Rightarrow> (auth_answer \<times> auth_effect list \<times> auth_state) run" where
  "api_key_filter E rq st =
     run_bind (validateApiKey E (hr_header rq ''X-API-Key'') (hr_path rq) (hr_peer rq) st) (\<lambda>(client, st).
       case client of
         None \<Rightarrow> Done (unauthorized ''Invalid API key'' None,
                    logAuthEvent E rq [] ''API_KEY_INVALID'' False ''Invalid API key'', st)
       | Some c \<Rightarrow>
           let attrs = (client_attrs c)(''permissions'' \<mapsto> AStr (ax_styled E (perms_json (ac_permissions c))));
               (rl, st) = limiter_check E c st
           in case rl of
                Some r \<Rightarrow> if \<not> ri_allowed r then Done (too_many E r, [], st)
                          else Done (Pass attrs, (if ax_repo E then usage_effects rq c else []), st)
              | None \<Rightarrow> Done (Pass attrs, (if ax_repo E then usage_effects rq c else []), st))"

definition user_attrs :: "auth_env \<Rightarrow> jwt_claims \<Rightarrow> (string \<times> attr) list" where
  "user_attrs E c = [(''user_id'', AStr (jc_userId c)), (''username'', AStr (jc_username c)),
     (''is_admin'', ABool (jc_isAdmin c)),
     (''permissions'', AStr (ax_styled E (perms_json (jc_permissions c))))]"

definition bearer_filter :: "auth_env \<Rightarrow> http_request \<Rightarrow> auth_state
    \<Rightarrow> (auth_answer \<times> auth_effect list \<times> auth_state) run" where
  "bearer_filter E rq st =
     (let authHeader = hr_header rq ''Authorization'' in
      if authHeader = [] then
        Done (unauthorized ''Missing Authorization header'' (Some ''Bearer <token> or X-API-Key header''),
          logAuthEvent E rq [] ''AUTH_REQUIRED'' False ''Missing Authorization header'', st)
      else if take 7 authHeader \<noteq> ''Bearer '' then
        Done (unauthorized ''Invalid Authorization header format'' (Some ''Bearer <token>''),
          logAuthEvent E rq [] ''INVALID_TOKEN_FORMAT'' False ''Invalid Authorization header format'', st)
      else
        case validateToken (ax_hmac E) (ax_jwt E) (ax_now E) (ax_stale E) (drop 7 authHeader) of
          None \<Rightarrow> Done (unauthorized ''Invalid or expired token'' None,
                    logAuthEvent E rq [] ''TOKEN_VALIDATION_FAILED'' False ''Invalid or expired token'', st)
        | Some c \<Rightarrow>
            Done (Pass (map_of (user_attrs E c)),
              (if hr_session rq then map (\<lambda>(k, v). Session_Set k v) (user_attrs E c) else [])
                @ logAuthEvent E rq (jc_username c) ''TOKEN_VALIDATED'' True [], st))"

text \<open>The check nginx asks for other services: the original request is in headers.\<close>

definition handleInternalAuthCheck :: "auth_env \<Rightarrow> http_request \<Rightarrow> auth_state
    \<Rightarrow> (auth_answer \<times> auth_effect list \<times> auth_state) run" where
  "handleInternalAuthCheck E rq st =
     (let originalUri = hr_header rq ''X-Original-URI''; originalMethod = hr_header rq ''X-Original-Method'';
          realIp = hr_header rq ''X-Real-IP''; clientIp = (if realIp = [] then hr_peer rq else realIp);
          apiKey = hr_header rq ''X-API-Key''; allow = Respond 200 JNull []
      in if apiKey = [] then Done (allow, [], st)
         else if \<not> ax_repo E then Done (allow, [], st)
         else run_bind (validateApiKey E apiKey originalUri clientIp st) (\<lambda>(client, st).
           case client of
             None \<Rightarrow> Done (allow, [], st)
           | Some c \<Rightarrow>
               let (rl, st) = limiter_check E c st;
                   granted = Done (Respond 200 JNull [(''X-Client-Id'', ac_id c), (''X-Client-Name'', ac_clientName c),
                                (''X-Auth-Type'', ''api_key'')],
                              [Update_Usage (ac_id c), Usage_Log (ac_id c) (ac_clientName c) originalUri
                                 originalMethod 200 0 clientIp (hr_header rq ''User-Agent'')], st)
               in case rl of
                    Some r \<Rightarrow> if \<not> ri_allowed r
                       then Done (Respond 403 JNull [(''Retry-After'', int_dec (ri_resetAt r - ax_sys1 E))], [], st)
                       else granted
                  | None \<Rightarrow> granted))"

definition public_filter :: "auth_env \<Rightarrow> http_request \<Rightarrow> auth_state
    \<Rightarrow> (auth_answer \<times> auth_effect list \<times> auth_state) run" where
  "public_filter E rq st =
     (if hr_header rq ''X-API-Key'' \<noteq> [] \<and> ax_repo E then
        run_bind (validateApiKey E (hr_header rq ''X-API-Key'') (hr_path rq) (hr_peer rq) st) (\<lambda>(client, st).
          case client of
            None \<Rightarrow> Done (Pass Map.empty, [], st)
          | Some c \<Rightarrow> Done (Pass (client_attrs c), usage_effects rq c, st))
      else Done (Pass Map.empty, [], st))"

definition auth_doFilter :: "auth_env \<Rightarrow> http_request \<Rightarrow> auth_state
    \<Rightarrow> (auth_answer \<times> auth_effect list \<times> auth_state) run" where
  "auth_doFilter E rq st =
     (if \<not> ax_enabled E then Done (Pass Map.empty, [], st)
      else if hr_path rq = ''/api/auth/internal/check'' then handleInternalAuthCheck E rq st
      else
        let (public, tb) = isPublicEndpoint (ax_re E) (hr_path rq) (au_table st);
            st = st\<lparr>au_table := tb\<rparr>
        in if public then public_filter E rq st
           else if hr_header rq ''X-API-Key'' \<noteq> [] then api_key_filter E rq st
           else bearer_filter E rq st)"

text \<open>The constructor, from the environment variables \<^verbatim>\<open>AUTH_ENABLED\<close>,
  \<^verbatim>\<open>JWT_SECRET_KEY\<close>, \<^verbatim>\<open>JWT_ISSUER\<close> and \<^verbatim>\<open>JWT_EXPIRATION_SECONDS\<close>: whether
  authentication is enabled, and the token service unless it is not.\<close>

definition atoi :: "string \<Rightarrow> int" where
  "atoi s = (case scan_number 10 s of None \<Rightarrow> 0 | Some (v, _) \<Rightarrow> v)"

definition auth_init :: "(string \<Rightarrow> string option) \<Rightarrow> (bool \<times> jwt_service option) res" where
  "auth_init getenv =
     (if getenv ''AUTH_ENABLED'' = Some ''false'' then Inr (False, None)
      else case getenv ''JWT_SECRET_KEY'' of
        None \<Rightarrow> Inl (Runtime_Error ''JWT_SECRET_KEY environment variable not set or too short (min 32 chars). Generate one with: openssl rand -hex 32'')
      | Some secret \<Rightarrow>
          if length secret < 32 then Inl (Runtime_Error ''JWT_SECRET_KEY environment variable not set or too short (min 32 chars). Generate one with: openssl rand -hex 32'')
          else rbind (new_jwt_service secret (case getenv ''JWT_ISSUER'' of None \<Rightarrow> ''icao-pkd'' | Some i \<Rightarrow> i)
                 (case getenv ''JWT_EXPIRATION_SECONDS'' of None \<Rightarrow> 3600 | Some t \<Rightarrow> atoi t))
                 (\<lambda>J. Inr (True, Some J)))"

section \<open>Permissions\<close>

text \<open>\<open>parse\<close> is the JSON parser.  \<open>throws\<close> says what drogon's \<^verbatim>\<open>get\<close> does for an
  attribute that is missing or of another type: throw, which leaves the variable as it is, or
  answer a default value.\<close>

definition str_attr :: "bool \<Rightarrow> attrs \<Rightarrow> string \<Rightarrow> string \<Rightarrow> string" where
  "str_attr throws a k old = (case a k of Some (AStr s) \<Rightarrow> s | _ \<Rightarrow> if throws then old else [])"

definition bool_attr :: "bool \<Rightarrow> attrs \<Rightarrow> string \<Rightarrow> bool \<Rightarrow> bool" where
  "bool_attr throws a k old = (case a k of Some (ABool b) \<Rightarrow> b | _ \<Rightarrow> throws \<and> old)"

definition hasPermission :: "string list \<Rightarrow> string \<Rightarrow> bool" where
  "hasPermission userPermissions required =
     (required \<in> set userPermissions \<or> ''admin'' \<in> set userPermissions)"

fun json_strings :: "json list \<Rightarrow> string list" where
  "json_strings [] = []"
| "json_strings (j # js) = (case j of JStr s \<Rightarrow> s # json_strings js | _ \<Rightarrow> json_strings js)"

definition parsePermissions :: "(string \<Rightarrow> json option) \<Rightarrow> string \<Rightarrow> string list" where
  "parsePermissions parse s = (case parse s of Some (JArr js) \<Rightarrow> json_strings js | _ \<Rightarrow> [])"

definition permission_doFilter :: "bool \<Rightarrow> (string \<Rightarrow> json option) \<Rightarrow> string list \<Rightarrow> attrs \<Rightarrow> attrs option
    \<Rightarrow> (nat \<times> json) option" where
  "permission_doFilter throws parse required attributes session =
     (let username = str_attr throws attributes ''username'' []; isAdmin = bool_attr throws attributes ''is_admin'' False;
          permsJson = str_attr throws attributes ''permissions'' [];
          (username, isAdmin, permsJson) =
            (if username = [] then (case session of
               None \<Rightarrow> (username, isAdmin, permsJson)
             | Some s \<Rightarrow> (str_attr throws s ''username'' username, bool_attr throws s ''is_admin'' isAdmin,
                 str_attr throws s ''permissions'' permsJson))
             else (username, isAdmin, permsJson))
      in if username = [] then
           Some (403, jobj [(''error'', JStr ''Forbidden''),
             (''message'', JStr ''User session not found. Authentication required.'')])
         else if isAdmin then None
         else let userPermissions = parsePermissions parse permsJson
           in if \<not> list_ex (hasPermission userPermissions) required then
                Some (403, jobj [(''error'', JStr ''Forbidden''), (''message'', JStr ''Insufficient permissions''),
                  (''required_permissions'', perms_json required), (''user_permissions'', perms_json userPermissions)])
              else None)"

section \<open>The cache of patterns\<close>

definition cache_ok :: "rx_engine \<Rightarrow> regex_cache \<Rightarrow> bool" where
  "cache_ok re cache = ((\<forall>(p, r) \<in> set cache. r = regex_compile re p) \<and> length cache \<le> MAX_REGEX_CACHE_SIZE)"

lemma cache_lookup: "cache_ok re cache \<Longrightarrow> map_of cache p = Some r \<Longrightarrow> r = regex_compile re p"
  by (auto simp: cache_ok_def dest!: map_of_SomeD)

text \<open>With the cache or without, the loop asks every pattern once, and the cache stays a cache.\<close>

lemma endpoint_allowed_cached:
  "cache_ok re cache \<Longrightarrow> fst (endpoint_allowed re path ps cache) = list_ex (\<lambda>p. pattern_allows re path p (regex_compile re p)) ps
    \<and> cache_ok re (snd (endpoint_allowed re path ps cache))"
proof (induction ps arbitrary: cache)
  case Nil
  then show ?case by simp
next
  case (Cons p ps)
  let ?r = "case map_of cache p of Some r \<Rightarrow> r | None \<Rightarrow> regex_compile re p"
  have r: "?r = regex_compile re p" using cache_lookup [OF Cons.prems] by (simp split: option.split)
  let ?c = "if map_of cache p = None \<and> length cache < MAX_REGEX_CACHE_SIZE then (p, regex_compile re p) # cache else cache"
  have "cache_ok re ?c" using Cons.prems by (auto simp: cache_ok_def)
  from Cons.IH [OF this] this show ?case unfolding endpoint_allowed.simps Let_def r by auto
qed

text \<open>What it takes for an API key to be accepted for a path from an address.\<close>

definition key_accepts :: "auth_env \<Rightarrow> string \<Rightarrow> string \<Rightarrow> string \<Rightarrow> api_client \<Rightarrow> bool" where
  "key_accepts E key path ip c =
     (ax_repo E \<and> (\<exists>h. hashApiKey (ax_sha E) key = Inr h \<and> ax_find E h = Some c)
      \<and> ac_isActive c \<and> \<not> key_expired (ax_utc E) c \<and> isIpAllowed (ac_allowedIps c) ip = Some True
      \<and> (ac_allowedEndpoints c = []
         \<or> list_ex (\<lambda>p. pattern_allows (ax_re E) path p (regex_compile (ax_re E) p)) (ac_allowedEndpoints c)))"

definition state_ok :: "auth_env \<Rightarrow> auth_state \<Rightarrow> bool" where
  "state_ok E st = (cache_ok (ax_re E) (au_cache st) \<and> table_ok (ax_re E) (au_table st))"

lemma validateApiKey_cases:
  assumes "state_ok E st"
  obtains (raised) e where "validateApiKey E key path ip st = Raised e" "\<And>c. \<not> key_accepts E key path ip c"
  | (undefined) "validateApiKey E key path ip st = Undefined" "\<And>c. \<not> key_accepts E key path ip c"
  | (refused) st' where "validateApiKey E key path ip st = Done (None, st')" "\<And>c. \<not> key_accepts E key path ip c"
      "state_ok E st'" "au_limiter st' = au_limiter st"
  | (accepted) c st' where "validateApiKey E key path ip st = Done (Some c, st')"
      "\<And>c'. key_accepts E key path ip c' \<longleftrightarrow> c' = c" "state_ok E st'" "au_limiter st' = au_limiter st"
proof (cases "ax_repo E")
  case False
  then show ?thesis using refused [of st] assms by (simp add: validateApiKey_def key_accepts_def)
next
  case repo: True
  show ?thesis
  proof (cases "hashApiKey (ax_sha E) key")
    case (Inl e)
    then show ?thesis using raised [of e] repo by (simp add: validateApiKey_def key_accepts_def)
  next
    case h: (Inr h)
    show ?thesis
    proof (cases "ax_find E h")
      case None
      then show ?thesis using refused [of st] repo h assms by (simp add: validateApiKey_def key_accepts_def)
    next
      case c: (Some c)
      have acc: "key_accepts E key path ip c' \<longleftrightarrow> c' = c \<and> ac_isActive c \<and> \<not> key_expired (ax_utc E) c
          \<and> isIpAllowed (ac_allowedIps c) ip = Some True \<and> (ac_allowedEndpoints c = []
            \<or> list_ex (\<lambda>p. pattern_allows (ax_re E) path p (regex_compile (ax_re E) p)) (ac_allowedEndpoints c))" for c'
        using repo h c by (auto simp: key_accepts_def)
      have v: "validateApiKey E key path ip st =
         (if \<not> ac_isActive c \<or> key_expired (ax_utc E) c then Done (None, st)
          else case isIpAllowed (ac_allowedIps c) ip of
            None \<Rightarrow> Undefined
          | Some False \<Rightarrow> Done (None, st)
          | Some True \<Rightarrow>
              if ac_allowedEndpoints c = [] then Done (Some c, st)
              else Done (if fst (endpoint_allowed (ax_re E) path (ac_allowedEndpoints c) (au_cache st)) then Some c else None,
                st\<lparr>au_cache := snd (endpoint_allowed (ax_re E) path (ac_allowedEndpoints c) (au_cache st))\<rparr>))"
        using repo h c by (simp add: validateApiKey_def case_prod_beta Let_def split: option.split bool.split)
      note cache = endpoint_allowed_cached [of "ax_re E" "au_cache st" path "ac_allowedEndpoints c"]
      show ?thesis
      proof (cases "\<not> ac_isActive c \<or> key_expired (ax_utc E) c")
        case True
        then show ?thesis using refused [of st] assms by (simp add: v acc)
      next
        case False
        show ?thesis
        proof (cases "isIpAllowed (ac_allowedIps c) ip")
          case None
          then show ?thesis using undefined False by (simp add: v acc)
        next
          case ok: (Some ok)
          show ?thesis
          proof (cases "ok \<and> ac_allowedEndpoints c \<noteq> []")
            case True
            with False ok cache assms show ?thesis
              using refused [of "st\<lparr>au_cache := snd (endpoint_allowed (ax_re E) path (ac_allowedEndpoints c) (au_cache st))\<rparr>"]
                accepted [of c "st\<lparr>au_cache := snd (endpoint_allowed (ax_re E) path (ac_allowedEndpoints c) (au_cache st))\<rparr>"]
              by (cases "fst (endpoint_allowed (ax_re E) path (ac_allowedEndpoints c) (au_cache st))")
                (simp_all add: v acc state_ok_def)
          next
            case no: False
            with False ok assms show ?thesis
              using refused [of st] accepted [of c st] by (cases ok) (simp_all add: v acc)
          qed
        qed
      qed
    qed
  qed
qed

section \<open>Who passes\<close>

text \<open>The limiter lets a client's request through, or there is none.\<close>

definition under_limit :: "auth_env \<Rightarrow> api_client \<Rightarrow> auth_state \<Rightarrow> bool" where
  "under_limit E c st = (case au_limiter st of None \<Rightarrow> True
     | Some l \<Rightarrow> ri_allowed (fst (checkAndIncrement (ax_clock E) (ac_id c) (ac_rateLimitPerMinute c)
         (ac_rateLimitPerHour c) (ac_rateLimitPerDay c) l)))"

lemma limiter_check_allowed:
  "(case fst (limiter_check E c st) of None \<Rightarrow> True | Some r \<Rightarrow> ri_allowed r) = under_limit E c st"
  by (auto simp: limiter_check_def under_limit_def case_prod_beta Let_def split: option.split)

lemma under_limit_cong: "au_limiter st = au_limiter st' \<Longrightarrow> under_limit E c st = under_limit E c st'"
  by (simp add: under_limit_def)

definition passes :: "(auth_answer \<times> auth_effect list \<times> auth_state) run \<Rightarrow> attrs \<Rightarrow> bool" where
  "passes r a = (\<exists>eff st. r = Done (Pass a, eff, st))"

definition key_attrs :: "auth_env \<Rightarrow> api_client \<Rightarrow> attrs" where
  "key_attrs E c = (client_attrs c)(''permissions'' \<mapsto> AStr (ax_styled E (perms_json (ac_permissions c))))"

lemma api_key_filter_passes:
  assumes "state_ok E st"
  shows "passes (api_key_filter E rq st) a \<longleftrightarrow>
    (\<exists>c. key_accepts E (hr_header rq ''X-API-Key'') (hr_path rq) (hr_peer rq) c \<and> under_limit E c st \<and> a = key_attrs E c)"
  using assms
proof (cases rule: validateApiKey_cases [where key = "hr_header rq ''X-API-Key''" and path = "hr_path rq" and ip = "hr_peer rq"])
  case (accepted c st')
  have u: "under_limit E c st = under_limit E c st'" by (rule under_limit_cong) (simp add: accepted(4))
  obtain rl st2 where l: "limiter_check E c st' = (rl, st2)" by force
  then have "(case rl of None \<Rightarrow> True | Some r \<Rightarrow> ri_allowed r) = under_limit E c st'"
    using limiter_check_allowed [of E c st'] by simp
  then show ?thesis
    by (auto simp: api_key_filter_def passes_def accepted(1,2) u l key_attrs_def too_many_def Let_def
        split: option.splits if_splits)
qed (simp_all add: api_key_filter_def passes_def unauthorized_def)

lemma bearer_filter_passes:
  "passes (bearer_filter E rq st) a \<longleftrightarrow>
    (\<exists>token c. hr_header rq ''Authorization'' = ''Bearer '' @ token
      \<and> validateToken (ax_hmac E) (ax_jwt E) (ax_now E) (ax_stale E) token = Some c \<and> a = map_of (user_attrs E c))"
proof (cases "take 7 (hr_header rq ''Authorization'') = ''Bearer ''")
  case True
  then obtain token where h: "hr_header rq ''Authorization'' = ''Bearer '' @ token"
    by (metis append_take_drop_id)
  show ?thesis
    by (cases "validateToken (ax_hmac E) (ax_jwt E) (ax_now E) (ax_stale E) token")
      (auto simp: bearer_filter_def passes_def unauthorized_def h)
next
  case False
  then have "hr_header rq ''Authorization'' \<noteq> ''Bearer '' @ token" for token by auto
  with False show ?thesis by (auto simp: bearer_filter_def passes_def unauthorized_def Let_def)
qed

lemma gate_iff:
  assumes "ax_enabled E" and "state_ok E st" and "hr_path rq \<noteq> ''/api/auth/internal/check''"
    and "\<not> path_public (ax_re E) (et_patterns (au_table st)) (hr_path rq)"
  shows "passes (auth_doFilter E rq st) a \<longleftrightarrow>
    (if hr_header rq ''X-API-Key'' \<noteq> []
     then \<exists>c. key_accepts E (hr_header rq ''X-API-Key'') (hr_path rq) (hr_peer rq) c
       \<and> under_limit E c st \<and> a = key_attrs E c
     else \<exists>token c. hr_header rq ''Authorization'' = ''Bearer '' @ token
       \<and> validateToken (ax_hmac E) (ax_jwt E) (ax_now E) (ax_stale E) token = Some c
       \<and> a = map_of (user_attrs E c))"
proof -
  have tb: "table_ok (ax_re E) (au_table st)" using assms(2) by (simp add: state_ok_def)
  obtain t where p: "isPublicEndpoint (ax_re E) (hr_path rq) (au_table st) = (False, t)"
    using isPublicEndpoint_ok [OF tb] assms(4) by (metis prod.collapse)
  let ?st = "st\<lparr>au_table := t\<rparr>"
  have ok: "state_ok E ?st"
    using assms(2) table_ok_init [OF tb] p by (auto simp: state_ok_def isPublicEndpoint_def Let_def)
  have "auth_doFilter E rq st =
      (if hr_header rq ''X-API-Key'' \<noteq> [] then api_key_filter E rq ?st else bearer_filter E rq ?st)"
    unfolding auth_doFilter_def using assms(1,3) by (simp add: p)
  moreover have "under_limit E c ?st = under_limit E c st" for c by (rule under_limit_cong) simp
  ultimately show ?thesis
    using api_key_filter_passes [OF ok, of rq a] bearer_filter_passes [of E rq ?st a] by simp
qed

text \<open>C2. The gate: with authentication enabled, a request for a path that no public pattern matches
  (and that is not the internal check) passes the filter exactly when it carries either an API key
  that is registered, active, not expired, allowed from its address and for its path, and under its
  client's rate limits, or, without an API key, a bearer token that validates; and the attributes
  handed to the handler are those of that client or that token.\<close>

theorem auth_gate_iff:
  assumes "ax_enabled E" and "state_ok E st" and "hr_path rq \<noteq> ''/api/auth/internal/check''"
    and "\<not> path_public (ax_re E) (et_patterns (au_table st)) (hr_path rq)"
  shows "passes (auth_doFilter E rq st) a \<longleftrightarrow>
    (if hr_header rq ''X-API-Key'' \<noteq> []
     then \<exists>c. key_accepts E (hr_header rq ''X-API-Key'') (hr_path rq) (hr_peer rq) c
       \<and> under_limit E c st \<and> a = key_attrs E c
     else \<exists>token c. hr_header rq ''Authorization'' = ''Bearer '' @ token
       \<and> validateToken (ax_hmac E) (ax_jwt E) (ax_now E) (ax_stale E) token = Some c
       \<and> a = map_of (user_attrs E c))"
  using assms by (rule gate_iff)

section \<open>The state over a sequence of requests\<close>

definition auth_state0 :: "rate_limiter option \<Rightarrow> auth_state" where
  "auth_state0 l = \<lparr>au_limiter = l, au_cache = [], au_table = endpoint_table0\<rparr>"

lemma limiter_check_state: "state_ok E st \<Longrightarrow> state_ok E (snd (limiter_check E c st))"
  by (auto simp: limiter_check_def state_ok_def case_prod_beta Let_def split: option.split)

lemma public_filter_state:
  assumes "state_ok E st" "public_filter E rq st = Done (ans, eff, st')"
  shows "state_ok E st'"
  using assms(1)
  by (cases rule: validateApiKey_cases [where key = "hr_header rq ''X-API-Key''" and path = "hr_path rq" and ip = "hr_peer rq"])
    (use assms in \<open>auto simp: public_filter_def split: if_splits\<close>)

lemma api_key_filter_state:
  assumes "state_ok E st" "api_key_filter E rq st = Done (ans, eff, st')"
  shows "state_ok E st'"
  using assms(1)
proof (cases rule: validateApiKey_cases [where key = "hr_header rq ''X-API-Key''" and path = "hr_path rq" and ip = "hr_peer rq"])
  case (accepted c st1)
  obtain rl st2 where l: "limiter_check E c st1 = (rl, st2)" by force
  have "state_ok E st2" using limiter_check_state [OF accepted(3), of c] l by simp
  then show ?thesis
    using assms(2) by (auto simp: api_key_filter_def accepted(1) l Let_def split: option.splits if_splits)
qed (use assms(2) in \<open>auto simp: api_key_filter_def\<close>)

lemma internal_check_open:
  "hr_header rq ''X-API-Key'' = [] \<or> \<not> ax_repo E \<Longrightarrow>
   handleInternalAuthCheck E rq st = Done (Respond 200 JNull [], [], st)"
  by (auto simp: handleInternalAuthCheck_def Let_def)

lemma internal_check_result:
  assumes "state_ok E st" "hr_header rq ''X-API-Key'' \<noteq> []" "ax_repo E"
    and "handleInternalAuthCheck E rq st = Done (ans, eff, st')"
  shows "state_ok E st' \<and> (\<exists>code hs. ans = Respond code JNull hs
    \<and> (code = 403 \<longleftrightarrow> (\<exists>c. key_accepts E (hr_header rq ''X-API-Key'') (hr_header rq ''X-Original-URI'')
         (if hr_header rq ''X-Real-IP'' = [] then hr_peer rq else hr_header rq ''X-Real-IP'') c
       \<and> \<not> under_limit E c st))
    \<and> (code \<noteq> 403 \<longrightarrow> code = 200))"
  using assms(1)
proof (cases rule: validateApiKey_cases [where key = "hr_header rq ''X-API-Key''"
      and path = "hr_header rq ''X-Original-URI''"
      and ip = "if hr_header rq ''X-Real-IP'' = [] then hr_peer rq else hr_header rq ''X-Real-IP''"])
  case (accepted c st1)
  have u: "under_limit E c st = under_limit E c st1" by (rule under_limit_cong) (simp add: accepted(4))
  obtain rl st2 where l: "limiter_check E c st1 = (rl, st2)" by force
  then have "(case rl of None \<Rightarrow> True | Some r \<Rightarrow> ri_allowed r) = under_limit E c st1"
    using limiter_check_allowed [of E c st1] by simp
  moreover have "state_ok E st2" using limiter_check_state [OF accepted(3), of c] l by simp
  ultimately show ?thesis
    using assms(2-4)
    by (auto simp: handleInternalAuthCheck_def accepted(1,2) u l Let_def simp del: if_split split: option.splits if_splits)
qed (use assms(2-4) in \<open>auto simp: handleInternalAuthCheck_def Let_def\<close>)

lemma doFilter_state:
  assumes "state_ok E st" "auth_doFilter E rq st = Done (ans, eff, st')"
  shows "state_ok E st'"
proof -
  have b: "bearer_filter E rq s = Done (ans, eff, st') \<Longrightarrow> state_ok E s \<Longrightarrow> state_ok E st'" for s
    by (auto simp: bearer_filter_def Let_def split: if_splits option.splits)
  obtain pub t where p: "isPublicEndpoint (ax_re E) (hr_path rq) (au_table st) = (pub, t)" by force
  have "state_ok E (st\<lparr>au_table := t\<rparr>)"
    using assms(1) table_ok_init p by (auto simp: state_ok_def isPublicEndpoint_def Let_def)
  note parts = public_filter_state [OF this] api_key_filter_state [OF this] b
  show ?thesis
  proof (cases "ax_enabled E \<and> hr_path rq = ''/api/auth/internal/check''")
    case True
    then have "handleInternalAuthCheck E rq st = Done (ans, eff, st')"
      using assms(2) by (simp add: auth_doFilter_def)
    then show ?thesis
      using internal_check_result [OF assms(1)] assms(1)
      by (cases "hr_header rq ''X-API-Key'' = [] \<or> \<not> ax_repo E") (auto simp: internal_check_open)
  next
    case False
    then show ?thesis
      using assms parts \<open>state_ok E (st\<lparr>au_table := t\<rparr>)\<close>
      by (auto simp: auth_doFilter_def p Let_def split: if_splits)
  qed
qed

text \<open>The steps of the filter over time: each request sees its own clocks and repository answers, the
  regular expression engine is the same.\<close>

inductive auth_step :: "rx_engine \<Rightarrow> auth_state \<Rightarrow> auth_state \<Rightarrow> bool" for re where
  auth_request: "ax_re E = re \<Longrightarrow> auth_doFilter E rq st = Done (ans, eff, st') \<Longrightarrow> auth_step re st st'"
| auth_public: "auth_step re st (st\<lparr>au_table := addPublicEndpoint re p (au_table st)\<rparr>)"

definition shared_ok :: "rx_engine \<Rightarrow> auth_state \<Rightarrow> bool" where
  "shared_ok re st = (cache_ok re (au_cache st) \<and> table_ok re (au_table st))"

lemma state_ok_shared: "state_ok E st = shared_ok (ax_re E) st"
  by (simp add: state_ok_def shared_ok_def)

interpretation auth: invariant_system "\<lambda>st. \<exists>l. st = auth_state0 l" "auth_step re" "shared_ok re" for re
proof unfold_locales
  show "\<exists>l. st = auth_state0 l \<Longrightarrow> shared_ok re st" for st
    using endpoints.inv_init [of endpoint_table0 re]
    by (auto simp: shared_ok_def auth_state0_def cache_ok_def)
  show "shared_ok re st \<Longrightarrow> auth_step re st st' \<Longrightarrow> shared_ok re st'" for st st'
  proof (erule auth_step.cases)
    fix E rq s ans eff t
    assume "shared_ok re st" "st = s" "st' = t" "ax_re E = re" "auth_doFilter E rq s = Done (ans, eff, t)"
    then show "shared_ok re st'" using doFilter_state [of E s rq ans eff t] by (simp add: state_ok_shared)
  next
    fix s p
    assume "shared_ok re st" "st = s" "st' = s\<lparr>au_table := addPublicEndpoint re p (au_table s)\<rparr>"
    then show "shared_ok re st'" by (simp add: shared_ok_def table_ok_add)
  qed
qed

text \<open>The static cache of endpoint patterns is a cache: after any sequence of requests and added
  public patterns, it holds at most 256 patterns, each with its own compilation, and whether a path is
  allowed for a client is what matching every pattern of the client afresh would answer.\<close>

theorem pattern_cache_transparent:
  assumes "reachable_from (\<lambda>st. \<exists>l. st = auth_state0 l) (auth_step re) st"
  shows "length (au_cache st) \<le> 256
    \<and> fst (endpoint_allowed re path ps (au_cache st)) = list_ex (\<lambda>p. pattern_allows re path p (regex_compile re p)) ps"
proof -
  have "cache_ok re (au_cache st)" using auth.reachable_inv [OF assms] by (simp add: shared_ok_def)
  then show ?thesis using endpoint_allowed_cached by (simp add: cache_ok_def MAX_REGEX_CACHE_SIZE_def)
qed

section \<open>Open doors\<close>

text \<open>The check nginx relies on never answers 401: whatever key is presented, even one that is
  unknown, inactive, expired or not allowed from the address, the answer is 200, except for 403 when a
  client with a valid key is over its rate limit.\<close>

theorem internal_check_fails_open:
  assumes "state_ok E st" "ax_enabled E" "hr_path rq = ''/api/auth/internal/check''"
    and "auth_doFilter E rq st = Done (ans, eff, st')"
  shows "\<exists>code hs. ans = Respond code JNull hs
    \<and> code = (if ax_repo E \<and> hr_header rq ''X-API-Key'' \<noteq> []
         \<and> (\<exists>c. key_accepts E (hr_header rq ''X-API-Key'') (hr_header rq ''X-Original-URI'')
               (if hr_header rq ''X-Real-IP'' = [] then hr_peer rq else hr_header rq ''X-Real-IP'') c
             \<and> \<not> under_limit E c st)
       then 403 else 200)"
proof -
  have h: "handleInternalAuthCheck E rq st = Done (ans, eff, st')"
    using assms(2-4) by (simp add: auth_doFilter_def)
  show ?thesis
  proof (cases "hr_header rq ''X-API-Key'' = [] \<or> \<not> ax_repo E")
    case True
    then show ?thesis using h internal_check_open [of rq E st] by auto
  next
    case False
    then show ?thesis using internal_check_result [OF assms(1) _ _ h] by auto
  qed
qed

text \<open>Uploads are open to everyone: the filter looks at the path and not at the method, and the
  public pattern for \<^verbatim>\<open>/api/upload/\<close> and an identifier lets every request for such a path
  pass without credentials, also \<^verbatim>\<open>DELETE\<close>, which removes the upload.\<close>

theorem upload_delete_unauthenticated:
  assumes "state_ok E st" "hex_id i" "hr_path rq = ''/api/upload/'' @ i" "hr_header rq ''X-API-Key'' = []"
  shows "\<exists>st'. auth_doFilter E rq st = Done (Pass Map.empty, [], st')"
proof -
  have tb: "table_ok (ax_re E) (au_table st)" using assms(1) by (simp add: state_ok_def)
  then have "path_public (ax_re E) (et_patterns (au_table st)) (hr_path rq)"
    using upload_id_public [OF assms(2)] assms(3) by (simp add: table_ok_def)
  then have "fst (isPublicEndpoint (ax_re E) (hr_path rq) (au_table st))"
    using isPublicEndpoint_ok [OF tb] by simp
  then obtain t where "isPublicEndpoint (ax_re E) (hr_path rq) (au_table st) = (True, t)"
    by (metis (full_types) prod.collapse)
  moreover have "hr_path rq \<noteq> ''/api/auth/internal/check''" using assms(3) by auto
  ultimately show ?thesis using assms(4) by (simp add: auth_doFilter_def public_filter_def)
qed

section \<open>From login to handler\<close>

lemma json_strings_map [simp]: "json_strings (map JStr ps) = ps"
  by (induction ps) auto

lemma permission_user:
  assumes "\<And>ps. parse (ax_styled E (perms_json ps)) = Some (perms_json ps)" "jc_username c \<noteq> []"
  shows "permission_doFilter throws parse required (map_of (user_attrs E c)) session = None
    \<longleftrightarrow> jc_isAdmin c \<or> (\<exists>r \<in> set required. r \<in> set (jc_permissions c) \<or> ''admin'' \<in> set (jc_permissions c))"
proof -
  have a: "map_of (user_attrs E c) ''username'' = Some (AStr (jc_username c))"
    "map_of (user_attrs E c) ''is_admin'' = Some (ABool (jc_isAdmin c))"
    "map_of (user_attrs E c) ''permissions'' = Some (AStr (ax_styled E (perms_json (jc_permissions c))))"
    by (simp_all add: user_attrs_def)
  have "parsePermissions parse (ax_styled E (perms_json (jc_permissions c))) = jc_permissions c"
    unfolding parsePermissions_def assms(1) by (simp add: perms_json_def)
  then show ?thesis
    using assms(2) by (simp add: permission_doFilter_def str_attr_def bool_attr_def a list_ex_iff hasPermission_def Let_def)
qed

text \<open>A client with an API key has no user name, so the permission filter never lets it through
  unless a session supplies one, whatever permissions it was given.\<close>

lemma permission_api_key:
  "\<exists>j. permission_doFilter throws parse required (key_attrs E c) None = Some (403, j)"
  by (simp add: permission_doFilter_def str_attr_def key_attrs_def client_attrs_def Let_def)

text \<open>C8. From token to handler: the token issued to a user passes the filter in front of a protected
  path until it expires, the handler sees the user's name, and a permission filter behind it lets the
  request through exactly for administrators and for users with one of the required permissions, or with
  the permission \<^verbatim>\<open>admin\<close> where any is required.\<close>

theorem issued_token_access:
  assumes gate: "ax_enabled E" "state_ok E st" "hr_path rq \<noteq> ''/api/auth/internal/check''"
      "\<not> path_public (ax_re E) (et_patterns (au_table st)) (hr_path rq)" "hr_header rq ''X-API-Key'' = []"
    and token: "hr_header rq ''Authorization''
      = ''Bearer '' @ generateToken (ax_hmac E) (ax_jwt E) now' userId username permissions isAdmin"
    and plain: "quote \<notin> set (jw_issuer (ax_jwt E))" "quote \<notin> set userId" "quote \<notin> set username" "username \<noteq> []"
      "\<forall>p \<in> set permissions. p \<noteq> [] \<and> CHR '','' \<notin> set p \<and> quote \<notin> set p"
    and time: "times_ok (ax_jwt E) (now' div 10 ^ 9) (ax_now E)"
    and json: "\<And>ps. parse (ax_styled E (perms_json ps)) = Some (perms_json ps)"
  shows "\<exists>a eff st'. auth_doFilter E rq st = Done (Pass a, eff, st') \<and> a ''username'' = Some (AStr username)
    \<and> (permission_doFilter throws parse required a session = None
       \<longleftrightarrow> isAdmin \<or> (\<exists>r \<in> set required. r \<in> set permissions \<or> ''admin'' \<in> set permissions))"
proof -
  obtain c where c: "validateToken (ax_hmac E) (ax_jwt E) (ax_now E) (ax_stale E)
      (generateToken (ax_hmac E) (ax_jwt E) now' userId username permissions isAdmin) = Some c"
    "jc_username c = username" "jc_permissions c = permissions" "jc_isAdmin c = isAdmin"
    using validate_generated_token [OF plain(1,2,3,5) refl time] by simp
  have "passes (auth_doFilter E rq st) (map_of (user_attrs E c))"
    unfolding gate_iff [OF gate(1-4)] using gate(5) token c(1) by auto
  then obtain eff st' where "auth_doFilter E rq st = Done (Pass (map_of (user_attrs E c)), eff, st')"
    by (auto simp: passes_def)
  moreover have "map_of (user_attrs E c) ''username'' = Some (AStr username)"
    by (simp add: user_attrs_def c(2))
  ultimately show ?thesis
    using permission_user [OF json, of c throws required session] plain(4) c by auto
qed

section \<open>Witnesses\<close>

definition demo_client :: api_client where
  "demo_client = api_client0\<lparr>ac_id := ''c1'', ac_clientName := ''agent'', ac_rateLimitPerMinute := 1,
     ac_allowedIps := [''10.0.0.0/8''], ac_allowedEndpoints := [''^/api/upload/.*$'']\<rparr>"

text \<open>A printer and a parser of string arrays that fit together.\<close>

definition demo_print :: "string list \<Rightarrow> string" where
  "demo_print ss = concat (map (\<lambda>s. concat (map (\<lambda>c. [CHR ''x'', c]) s) @ ''.'') ss)"

fun demo_parse :: "string \<Rightarrow> string \<Rightarrow> string list" where
  "demo_parse acc [] = []"
| "demo_parse acc [t] = [acc]"
| "demo_parse acc (t # c # r) = (if t = CHR ''x'' then demo_parse (acc @ [c]) r else acc # demo_parse [] (c # r))"

lemma demo_parse_item:
  "demo_parse acc (concat (map (\<lambda>c. [CHR ''x'', c]) s) @ CHR ''.'' # r) = (acc @ s) # demo_parse [] r"
  by (induction s arbitrary: acc) (cases r, simp_all)

lemma demo_parse_print: "demo_parse [] (demo_print ss) = ss"
  by (induction ss) (simp_all add: demo_print_def demo_parse_item)

definition demo_auth :: auth_env where
  "demo_auth = \<lparr>ax_enabled = True, ax_repo = True, ax_audit = True,
     ax_find = (\<lambda>h. if h = bytes_hex [1] then Some demo_client else None),
     ax_sha = (\<lambda>k. Some (if k = ''key1'' then [1] else [])), ax_re = demo_engine, ax_hmac = (\<lambda>k m. rev m),
     ax_jwt = demo_jwt, ax_stale = False, ax_now = 5 * 10 ^ 9,
     ax_utc = \<lparr>bt_year = 2026, bt_month = 3, bt_day = 1, bt_hour = 0, bt_minute = 0, bt_second = 0\<rparr>,
     ax_clock = demo_readings 5, ax_sys1 = 0, ax_sys2 = 0,
     ax_styled = (\<lambda>j. case j of JArr js \<Rightarrow> demo_print (json_strings js) | _ \<Rightarrow> [])\<rparr>"

definition demo_rq :: "string \<Rightarrow> (string \<times> string) list \<Rightarrow> http_request" where
  "demo_rq path hs = \<lparr>hr_path = path, hr_method = ''POST'', hr_peer = ''10.1.2.3'',
     hr_header = (\<lambda>k. case map_of hs k of None \<Rightarrow> [] | Some v \<Rightarrow> v), hr_session = False\<rparr>"

lemma demo_state: "state_ok demo_auth (auth_state0 l)"
  using auth.inv_init [of "auth_state0 l" "ax_re demo_auth"] by (auto simp: state_ok_shared)

lemma ldif_protected: "\<not> path_public demo_engine publicEndpoints ''/api/upload/ldif''"
  by code_simp

lemma demo_key_accepts: "key_accepts demo_auth ''key1'' ''/api/upload/ldif'' ''10.1.2.3'' demo_client"
proof -
  have "isIpAllowed [''10.0.0.0/8''] ''10.1.2.3'' = Some True" by code_simp
  moreover have "pattern_allows demo_engine ''/api/upload/ldif'' ''^/api/upload/.*$'' (regex_compile demo_engine ''^/api/upload/.*$'')"
    by code_simp
  ultimately show ?thesis
    by (simp add: key_accepts_def demo_auth_def hashApiKey_def sha256Hex_def demo_client_def api_client0_def key_expired_def)
qed

lemma auth_gate_iff_witness:
  "passes (auth_doFilter demo_auth (demo_rq ''/api/upload/ldif'' [(''X-API-Key'', ''key1'')]) (auth_state0 None))
     (key_attrs demo_auth demo_client)
   \<and> (\<forall>a. \<not> passes (auth_doFilter demo_auth (demo_rq ''/api/upload/ldif'' []) (auth_state0 None)) a)"
proof -
  let ?k = "demo_rq ''/api/upload/ldif'' [(''X-API-Key'', ''key1'')]" and ?n = "demo_rq ''/api/upload/ldif'' []"
  have e: "ax_enabled demo_auth" "ax_re demo_auth = demo_engine" by (simp_all add: demo_auth_def)
  have t: "et_patterns (au_table (auth_state0 None)) = publicEndpoints"
    by (simp add: auth_state0_def endpoint_table0_def)
  have k: "hr_path ?k = ''/api/upload/ldif''" "hr_path ?n = ''/api/upload/ldif''" "hr_peer ?k = ''10.1.2.3''"
    "hr_header ?k ''X-API-Key'' = ''key1''" "hr_header ?n ''X-API-Key'' = []" "hr_header ?n ''Authorization'' = []"
    by (simp_all add: demo_rq_def)
  have "passes (auth_doFilter demo_auth ?k (auth_state0 None)) (key_attrs demo_auth demo_client)"
    by (subst auth_gate_iff [OF e(1) demo_state])
      (use demo_key_accepts ldif_protected in \<open>auto simp: k e t under_limit_def auth_state0_def endpoint_table0_def\<close>)
  moreover have "\<not> passes (auth_doFilter demo_auth ?n (auth_state0 None)) a" for a
    by (subst auth_gate_iff [OF e(1) demo_state]) (use ldif_protected in \<open>auto simp: k e t\<close>)
  ultimately show ?thesis by blast
qed

lemma pattern_cache_transparent_witness:
  "\<exists>st :: auth_state. length (au_cache st) \<le> 256 \<and> au_cache st \<noteq> []
    \<and> fst (endpoint_allowed demo_engine ''/api/upload/ldif'' [''^/api/upload/.*$''] (au_cache st))"
proof -
  let ?rq = "demo_rq ''/api/upload/ldif'' [(''X-API-Key'', ''key1'')]"
  have re: "ax_re demo_auth = demo_engine" and en: "ax_enabled demo_auth" by (simp_all add: demo_auth_def)
  have tb: "au_table (auth_state0 None) = endpoint_table0" by (simp add: auth_state0_def)
  obtain t where t: "isPublicEndpoint demo_engine ''/api/upload/ldif'' endpoint_table0 = (False, t)"
    using isPublicEndpoint_ok [OF endpoints.inv_init, of endpoint_table0 demo_engine "''/api/upload/ldif''"] ldif_protected
    by (cases "isPublicEndpoint demo_engine ''/api/upload/ldif'' endpoint_table0") (simp add: endpoint_table0_def)
  let ?p = "''^/api/upload/.*$''" and ?s0 = "(auth_state0 None)\<lparr>au_table := t\<rparr>"
  have ip: "isIpAllowed [''10.0.0.0/8''] ''10.1.2.3'' = Some True" by code_simp
  have pa: "pattern_allows demo_engine ''/api/upload/ldif'' ?p (regex_compile demo_engine ?p)" by code_simp
  let ?st = "?s0\<lparr>au_cache := [(?p, regex_compile demo_engine ?p)]\<rparr>"
  have v: "validateApiKey demo_auth ''key1'' ''/api/upload/ldif'' ''10.1.2.3'' ?s0 = Done (Some demo_client, ?st)"
    using ip pa by (simp add: validateApiKey_def demo_auth_def hashApiKey_def sha256Hex_def demo_client_def
        api_client0_def key_expired_def auth_state0_def MAX_REGEX_CACHE_SIZE_def Let_def)
  have h: "hr_path ?rq = ''/api/upload/ldif''" "hr_peer ?rq = ''10.1.2.3''" "hr_header ?rq ''X-API-Key'' = ''key1''"
    by (simp_all add: demo_rq_def)
  have "api_key_filter demo_auth ?rq ?s0 = Done (Pass (key_attrs demo_auth demo_client), usage_effects ?rq demo_client, ?st)"
    unfolding api_key_filter_def h v
    by (simp add: limiter_check_def auth_state0_def key_attrs_def Let_def) (simp add: demo_auth_def)
  then have "auth_doFilter demo_auth ?rq (auth_state0 None) = Done (Pass (key_attrs demo_auth demo_client), usage_effects ?rq demo_client, ?st)"
    unfolding auth_doFilter_def h re tb t by (simp add: h en)
  then have "auth_step demo_engine (auth_state0 None) ?st" by (rule auth_request [OF re])
  moreover have "reachable_from (\<lambda>st. \<exists>l. st = auth_state0 l) (auth_step demo_engine) (auth_state0 None)"
    by (rule reach_init) (rule exI, rule refl)
  ultimately have "reachable_from (\<lambda>st. \<exists>l. st = auth_state0 l) (auth_step demo_engine) ?st" by (rule reach_step [rotated])
  note pattern_cache_transparent [OF this, of "''/api/upload/ldif''" "[?p]"]
  moreover have "list_ex (\<lambda>p. pattern_allows demo_engine ''/api/upload/ldif'' p (regex_compile demo_engine p)) [?p]"
    using pa unfolding list_ex_Cons_iff by blast
  ultimately have "length (au_cache ?st) \<le> 256 \<and> au_cache ?st \<noteq> []
      \<and> fst (endpoint_allowed demo_engine ''/api/upload/ldif'' [?p] (au_cache ?st))" by auto
  then show ?thesis by blast
qed

lemma internal_check_fails_open_witness:
  "\<exists>hs eff st. auth_doFilter demo_auth (demo_rq ''/api/auth/internal/check'' [(''X-API-Key'', ''stolen'')]) (auth_state0 None)
     = Done (Respond 200 JNull hs, eff, st)"
proof -
  let ?rq = "demo_rq ''/api/auth/internal/check'' [(''X-API-Key'', ''stolen'')]"
  have h: "hr_header ?rq ''X-API-Key'' = ''stolen''" "hr_path ?rq = ''/api/auth/internal/check''" by (simp_all add: demo_rq_def)
  have en: "ax_enabled demo_auth" by (simp add: demo_auth_def)
  have n: "\<not> key_accepts demo_auth ''stolen'' path ip c" for path ip c
    by (simp add: key_accepts_def demo_auth_def hashApiKey_def sha256Hex_def)
  have v: "validateApiKey demo_auth ''stolen'' path ip st = Done (None, st)" for path ip st
    by (simp add: validateApiKey_def demo_auth_def hashApiKey_def sha256Hex_def)
  have "auth_doFilter demo_auth ?rq (auth_state0 None) = Done (Respond 200 JNull [], [], auth_state0 None)"
    unfolding auth_doFilter_def handleInternalAuthCheck_def h Let_def v by (simp add: demo_auth_def)
  from internal_check_fails_open [OF demo_state en h(2) this] this show ?thesis using n h(1) by auto
qed

lemma upload_delete_unauthenticated_witness:
  "\<exists>st. auth_doFilter demo_auth ((demo_rq ''/api/upload/1f-02'' [])\<lparr>hr_method := ''DELETE''\<rparr>) (auth_state0 None)
     = Done (Pass Map.empty, [], st)"
  by (rule upload_delete_unauthenticated [OF demo_state, of "''1f-02''"])
    (simp_all add: demo_rq_def hex_id_def)

lemma issued_token_access_witness:
  "\<exists>a eff st. auth_doFilter demo_auth (demo_rq ''/api/upload/ldif'' [(''Authorization'', ''Bearer ''
        @ generateToken (ax_hmac demo_auth) (ax_jwt demo_auth) (2 * 10 ^ 9) ''u1'' ''kim'' [''upload:write''] False)])
        (auth_state0 None) = Done (Pass a, eff, st)
    \<and> permission_doFilter True (\<lambda>s. Some (perms_json (demo_parse [] s))) [''upload:write''] a None = None"
proof -
  let ?rq = "demo_rq ''/api/upload/ldif'' [(''Authorization'', ''Bearer ''
        @ generateToken (ax_hmac demo_auth) (ax_jwt demo_auth) (2 * 10 ^ 9) ''u1'' ''kim'' [''upload:write''] False)]"
  have gate: "ax_enabled demo_auth" "hr_path ?rq \<noteq> ''/api/auth/internal/check''" "hr_header ?rq ''X-API-Key'' = []"
    by (simp_all add: demo_auth_def demo_rq_def)
  have prot: "\<not> path_public (ax_re demo_auth) (et_patterns (au_table (auth_state0 None))) (hr_path ?rq)"
    using ldif_protected by (simp add: demo_auth_def demo_rq_def auth_state0_def endpoint_table0_def)
  have tok: "hr_header ?rq ''Authorization'' = ''Bearer '' @ generateToken (ax_hmac demo_auth) (ax_jwt demo_auth)
      (2 * 10 ^ 9) ''u1'' ''kim'' [''upload:write''] False" by (simp add: demo_rq_def)
  have json: "(\<lambda>s. Some (perms_json (demo_parse [] s))) (ax_styled demo_auth (perms_json ps)) = Some (perms_json ps)" for ps
    by (simp add: demo_auth_def perms_json_def demo_parse_print)
  have J: "ax_jwt demo_auth = demo_jwt" "ax_now demo_auth = 5 * 10 ^ 9" by (simp_all add: demo_auth_def)
  from issued_token_access [OF gate(1) demo_state gate(2) prot gate(3) tok _ _ _ _ _ _ json, of True "[''upload:write'']" None]
  show ?thesis by (auto simp: J demo_jwt_def times_ok_def)
qed

end
