(* ===== verification/Ldap_Operations.thy ===== *)
theory Ldap_Operations
  imports Interfaces
begin

text \<open>
  \<^verbatim>\<open>services/pkd-relay-service/src/relay/sync/ldap_operations.cpp\<close>: names and entries of
  the directory.  The LDAP server is a parameter: \<open>ls_search\<close> and \<open>ls_add\<close> answer a result code
  and the server state after the call; what the sources rely on is the predicate
  \<open>ldap_laws\<close> over the entries \<open>ents\<close> of a server state.
\<close>

section \<open>The server\<close>

datatype ldap_value = Text string | Binary "byte list"

type_synonym ldap_attrs = "(string \<times> ldap_value list) list"

record 'd ldap_server =
  ls_search :: "'d \<Rightarrow> string \<Rightarrow> int \<times> 'd"
  ls_add :: "'d \<Rightarrow> string \<Rightarrow> ldap_attrs \<Rightarrow> int \<times> 'd"
  ls_delete :: "'d \<Rightarrow> string \<Rightarrow> int \<times> 'd"
  ls_err2string :: "int \<Rightarrow> string"

definition LDAP_SUCCESS :: int where "LDAP_SUCCESS = 0"

definition LDAP_NO_SUCH_OBJECT :: int where "LDAP_NO_SUCH_OBJECT = 0x20"

definition LDAP_ALREADY_EXISTS :: int where "LDAP_ALREADY_EXISTS = 0x44"

lemma ldap_codes_distinct [simp]:
  "LDAP_SUCCESS \<noteq> LDAP_ALREADY_EXISTS" "LDAP_ALREADY_EXISTS \<noteq> LDAP_SUCCESS"
  "LDAP_SUCCESS \<noteq> LDAP_NO_SUCH_OBJECT" "LDAP_NO_SUCH_OBJECT \<noteq> LDAP_SUCCESS"
  "LDAP_ALREADY_EXISTS \<noteq> LDAP_NO_SUCH_OBJECT" "LDAP_NO_SUCH_OBJECT \<noteq> LDAP_ALREADY_EXISTS"
  by (simp_all add: LDAP_SUCCESS_def LDAP_NO_SUCH_OBJECT_def LDAP_ALREADY_EXISTS_def)

text \<open>What the codes mean (RFC 4511).  A call that fails for another reason, such as a lost
  connection, may or may not have added the entry.  Entries are found by the exact text of their name;
  a server that also matches other spellings of it is not covered.\<close>

definition ldap_laws :: "'d ldap_server \<Rightarrow> ('d \<Rightarrow> string \<Rightarrow> ldap_attrs option) \<Rightarrow> bool" where
  "ldap_laws S ents =
     ((\<forall>d dn rc d'. ls_search S d dn = (rc, d') \<longrightarrow> ents d' = ents d
         \<and> (rc = LDAP_SUCCESS \<longrightarrow> ents d dn \<noteq> None) \<and> (rc = LDAP_NO_SUCH_OBJECT \<longrightarrow> ents d dn = None))
      \<and> (\<forall>d dn as rc d'. ls_add S d dn as = (rc, d') \<longrightarrow>
           ents d' = ents d \<or> ents d dn = None \<and> ents d' = (ents d)(dn \<mapsto> as))
      \<and> (\<forall>d dn as rc d'. ls_add S d dn as = (rc, d') \<and> rc \<in> {LDAP_SUCCESS, LDAP_ALREADY_EXISTS} \<longrightarrow>
           ents d' dn \<noteq> None))"

section \<open>Names\<close>

record relay_config =
  rc_ldapBaseDn :: string
  rc_ldapDataContainer :: string
  rc_ldapNcDataContainer :: string
  rc_autoReconcile :: bool
  rc_maxReconcileBatchSize :: int

record certificate_info =
  ci_id :: string
  ci_certType :: string
  ci_countryCode :: string
  ci_subject :: string
  ci_issuer :: string
  ci_fingerprint :: string
  ci_certData :: "byte list"
  ci_ldapDn :: string

record crl_info =
  cl_id :: string
  cl_countryCode :: string
  cl_issuerDn :: string
  cl_fingerprint :: string
  cl_crlData :: "byte list"
  cl_ldapDn :: string

definition buildDn :: "relay_config \<Rightarrow> string \<Rightarrow> string \<Rightarrow> string \<Rightarrow> string" where
  "buildDn cfg certType countryCode fingerprint =
     (let place = (if certType = ''CSCA'' then Some (''csca'', rc_ldapDataContainer cfg)
          else if certType = ''LC'' then Some (''lc'', rc_ldapDataContainer cfg)
          else if certType = ''DSC'' then Some (''dsc'', rc_ldapDataContainer cfg)
          else if certType = ''DSC_NC'' then Some (''dsc'', rc_ldapNcDataContainer cfg)
          else if certType = ''CRL'' then Some (''crl'', rc_ldapDataContainer cfg)
          else None)
      in case place of None \<Rightarrow> []
         | Some (ou, dataContainer) \<Rightarrow> ''cn='' @ fingerprint @ '',o='' @ ou @ '',c='' @ countryCode @ '',''
             @ dataContainer @ '','' @ rc_ldapBaseDn cfg)"

definition buildCrlDn :: "relay_config \<Rightarrow> string \<Rightarrow> string \<Rightarrow> string" where
  "buildCrlDn cfg countryCode fingerprint =
     ''cn='' @ fingerprint @ '',o=crl,c='' @ countryCode @ '','' @ rc_ldapDataContainer cfg @ '','' @ rc_ldapBaseDn cfg"

section \<open>Entries\<close>

text \<open>Strings are handed to the library as C strings.  The result is the success flag and the
  server state.\<close>

definition createEntryIfNotExists :: "'d ldap_server \<Rightarrow> 'd \<Rightarrow> string \<Rightarrow> string list \<Rightarrow> (string \<times> string) list
    \<Rightarrow> bool \<times> 'd" where
  "createEntryIfNotExists S d dn objectClasses attributes =
     (let (rc, d1) = ls_search S d (c_str dn) in
      if rc = LDAP_SUCCESS then (True, d1)
      else if rc \<noteq> LDAP_NO_SUCH_OBJECT then (False, d1)
      else
        let (rc, d2) = ls_add S d1 (c_str dn)
              ((''objectClass'', map (\<lambda>oc. Text (c_str oc)) objectClasses)
               # map (\<lambda>(k, v). (c_str k, [Text (c_str v)])) attributes)
        in (rc = LDAP_SUCCESS \<or> rc = LDAP_ALREADY_EXISTS, d2))"

text \<open>The first component is \<^term>\<open>None\<close> on success, otherwise the error message.\<close>

definition ensureParentDnExists :: "'d ldap_server \<Rightarrow> relay_config \<Rightarrow> 'd \<Rightarrow> string \<Rightarrow> string
    \<Rightarrow> string option \<times> 'd" where
  "ensureParentDnExists S cfg d certType countryCode =
     (let dataContainer = (if certType = ''DSC_NC'' then rc_ldapNcDataContainer cfg else rc_ldapDataContainer cfg);
          countryDn = ''c='' @ countryCode @ '','' @ dataContainer @ '','' @ rc_ldapBaseDn cfg;
          (ok, d1) = createEntryIfNotExists S d countryDn [''top'', ''country''] [(''c'', countryCode)]
      in if \<not> ok then (Some (''Failed to create country container: '' @ countryDn), d1)
         else
           let ou = (if certType = ''CSCA'' then Some ''csca'' else if certType = ''LC'' then Some ''lc''
                else if certType = ''DSC'' \<or> certType = ''DSC_NC'' then Some ''dsc''
                else if certType = ''CRL'' then Some ''crl'' else None)
           in case ou of
                None \<Rightarrow> (Some (''Unknown certificate type: '' @ certType), d1)
              | Some ou \<Rightarrow>
                  let orgDn = ''o='' @ ou @ '','' @ countryDn;
                      (ok, d2) = createEntryIfNotExists S d1 orgDn [''top'', ''organization''] [(''o'', ou)]
                  in if \<not> ok then (Some (''Failed to create organization container: '' @ orgDn), d2)
                     else (None, d2))"

definition cert_entry :: "certificate_info \<Rightarrow> ldap_attrs" where
  "cert_entry c =
     [(''objectClass'', map Text [''top'', ''person'', ''organizationalPerson'', ''inetOrgPerson'', ''pkdDownload'']),
      (''cn'', [Text (c_str (ci_subject c))]), (''sn'', [Text (c_str (ci_id c))]),
      (''description'', [Text (c_str (''Reconciled: '' @ ci_certType c @ '' | Subject: '' @ ci_subject c
          @ '' | ID: '' @ ci_id c))]),
      (''userCertificate;binary'', [Binary (ci_certData c)])]"

definition addCertificate :: "'d ldap_server \<Rightarrow> relay_config \<Rightarrow> 'd \<Rightarrow> certificate_info
    \<Rightarrow> string option \<times> 'd" where
  "addCertificate S cfg d cert =
     (case ensureParentDnExists S cfg d (ci_certType cert) (ci_countryCode cert) of
        (Some err, d1) \<Rightarrow> (Some err, d1)
      | (None, d1) \<Rightarrow>
          let dn = (if ci_ldapDn cert = [] then buildDn cfg (ci_certType cert) (ci_countryCode cert) (ci_fingerprint cert)
                    else ci_ldapDn cert)
          in if dn = [] then (Some ''Failed to build LDAP DN'', d1)
             else let (rc, d2) = ls_add S d1 (c_str dn) (cert_entry cert)
                  in if rc = LDAP_ALREADY_EXISTS then (None, d2)
                     else if rc \<noteq> LDAP_SUCCESS then (Some (''LDAP add failed: '' @ ls_err2string S rc), d2)
                     else (None, d2))"

definition deleteCertificate :: "'d ldap_server \<Rightarrow> 'd \<Rightarrow> string \<Rightarrow> string option \<times> 'd" where
  "deleteCertificate S d dn =
     (let (rc, d') = ls_delete S d (c_str dn)
      in if rc \<noteq> LDAP_SUCCESS \<and> rc \<noteq> LDAP_NO_SUCH_OBJECT
         then (Some (''LDAP delete failed: '' @ ls_err2string S rc), d') else (None, d'))"

definition crl_entry :: "crl_info \<Rightarrow> ldap_attrs" where
  "crl_entry c =
     [(''objectClass'', map Text [''top'', ''cRLDistributionPoint'', ''pkdDownload'']),
      (''cn'', [Text (c_str (take 32 (cl_fingerprint c)))]),
      (''certificateRevocationList;binary'', [Binary (cl_crlData c)])]"

definition addCrl :: "'d ldap_server \<Rightarrow> relay_config \<Rightarrow> 'd \<Rightarrow> crl_info \<Rightarrow> string option \<times> 'd" where
  "addCrl S cfg d crl =
     (case ensureParentDnExists S cfg d ''CRL'' (cl_countryCode crl) of
        (Some err, d1) \<Rightarrow> (Some err, d1)
      | (None, d1) \<Rightarrow>
          let dn = (if cl_ldapDn crl = [] then buildCrlDn cfg (cl_countryCode crl) (cl_fingerprint crl) else cl_ldapDn crl)
          in if dn = [] then (Some ''Failed to build LDAP DN for CRL'', d1)
             else let (rc, d2) = ls_add S d1 (c_str dn) (crl_entry crl)
                  in if rc = LDAP_ALREADY_EXISTS then (None, d2)
                     else if rc \<noteq> LDAP_SUCCESS then (Some (''LDAP add CRL failed: '' @ ls_err2string S rc), d2)
                     else (None, d2))"

section \<open>Facts\<close>

text \<open>Nothing here removes or changes an entry.\<close>

definition grows :: "('d \<Rightarrow> string \<Rightarrow> ldap_attrs option) \<Rightarrow> 'd \<Rightarrow> 'd \<Rightarrow> bool" where
  "grows ents d d' = (ents d \<subseteq>\<^sub>m ents d')"

lemma grows_refl [intro]: "grows ents d d" and grows_trans [trans]: "grows ents d d' \<Longrightarrow> grows ents d' d'' \<Longrightarrow> grows ents d d''"
  by (auto simp: grows_def intro: map_le_trans)

lemma grows_entry: "grows ents d d' \<Longrightarrow> ents d dn = Some e \<Longrightarrow> ents d' dn = Some e"
  by (auto simp: grows_def map_le_def dom_def)

lemma search_laws:
  assumes "ldap_laws S ents" "ls_search S d dn = (rc, d')"
  shows "ents d' = ents d" "rc = LDAP_SUCCESS \<Longrightarrow> ents d dn \<noteq> None" "rc = LDAP_NO_SUCH_OBJECT \<Longrightarrow> ents d dn = None"
  using assms unfolding ldap_laws_def by metis+

lemma add_laws:
  assumes "ldap_laws S ents" "ls_add S d dn as = (rc, d')"
  shows "grows ents d d'" "rc \<in> {LDAP_SUCCESS, LDAP_ALREADY_EXISTS} \<Longrightarrow> ents d' dn \<noteq> None"
    "ents d' = ents d \<or> ents d' = (ents d)(dn \<mapsto> as)"
proof -
  have a: "ents d' = ents d \<or> ents d dn = None \<and> ents d' = (ents d)(dn \<mapsto> as)"
    using assms unfolding ldap_laws_def by metis
  then show "ents d' = ents d \<or> ents d' = (ents d)(dn \<mapsto> as)" by blast
  from a show "grows ents d d'" by (auto simp: grows_def map_le_def)
  show "rc \<in> {LDAP_SUCCESS, LDAP_ALREADY_EXISTS} \<Longrightarrow> ents d' dn \<noteq> None"
    using assms unfolding ldap_laws_def by metis
qed

lemma create_result:
  assumes "ldap_laws S ents" "createEntryIfNotExists S d dn ocs kvs = (ok, d')"
  shows "grows ents d d'" "ok \<Longrightarrow> ents d' (c_str dn) \<noteq> None"
    "\<And>x. x \<noteq> c_str dn \<Longrightarrow> ents d' x = ents d x"
proof -
  obtain rc d1 where s: "ls_search S d (c_str dn) = (rc, d1)" by force
  note sl = search_laws [OF assms(1) s]
  define as where "as = (''objectClass'', map (\<lambda>oc. Text (c_str oc)) ocs) # map (\<lambda>(k, v). (c_str k, [Text (c_str v)])) kvs"
  obtain rc2 d2 where a: "ls_add S d1 (c_str dn) as = (rc2, d2)" by force
  note al = add_laws [OF assms(1) a]
  have r: "(ok, d') = (if rc = LDAP_SUCCESS then (True, d1) else if rc \<noteq> LDAP_NO_SUCH_OBJECT then (False, d1)
      else (rc2 = LDAP_SUCCESS \<or> rc2 = LDAP_ALREADY_EXISTS, d2))"
    using assms(2) by (simp add: createEntryIfNotExists_def s a [unfolded as_def] split: if_splits)
  show "grows ents d d'" using r sl al(1) by (auto simp: grows_def split: if_splits)
  show "ok \<Longrightarrow> ents d' (c_str dn) \<noteq> None" using r sl al(2) by (auto split: if_splits)
  show "\<And>x. x \<noteq> c_str dn \<Longrightarrow> ents d' x = ents d x" using r sl al(3) by (auto split: if_splits)
qed

lemma ensure_result:
  assumes "ldap_laws S ents" "ensureParentDnExists S cfg d ty country = (err, d')"
  shows "grows ents d d'"
proof -
  define dn where "dn = ''c='' @ country @ '','' @ (if ty = ''DSC_NC'' then rc_ldapNcDataContainer cfg
    else rc_ldapDataContainer cfg) @ '','' @ rc_ldapBaseDn cfg"
  define ou where "ou = (if ty = ''CSCA'' then Some ''csca'' else if ty = ''LC'' then Some ''lc''
      else if ty = ''DSC'' \<or> ty = ''DSC_NC'' then Some ''dsc'' else if ty = ''CRL'' then Some ''crl'' else None)"
  obtain ok1 d1 where a: "createEntryIfNotExists S d dn [''top'', ''country''] [(''c'', country)] = (ok1, d1)" by force
  have g1: "grows ents d d1" using create_result(1) [OF assms(1) a] .
  note r = assms(2) [unfolded ensureParentDnExists_def Let_def, folded dn_def ou_def, unfolded a prod.case]
  show ?thesis
  proof (cases "ok1 \<and> ou \<noteq> None")
    case True
    then obtain u where u: "ou = Some u" "ok1" by auto
    obtain ok2 d2 where b: "createEntryIfNotExists S d1 (''o='' @ u @ '','' @ dn) [''top'', ''organization''] [(''o'', u)] = (ok2, d2)"
      by force
    have "d' = d2" using r b by (simp add: u split: if_splits)
    then show ?thesis using grows_trans [OF g1 create_result(1) [OF assms(1) b]] by simp
  next
    case False
    then have "d' = d1" using r by (cases ou) (auto split: if_splits)
    then show ?thesis using g1 by simp
  qed
qed

definition target_dn :: "relay_config \<Rightarrow> certificate_info \<Rightarrow> string" where
  "target_dn cfg c = c_str (if ci_ldapDn c = [] then buildDn cfg (ci_certType c) (ci_countryCode c) (ci_fingerprint c)
     else ci_ldapDn c)"

definition target_crl_dn :: "relay_config \<Rightarrow> crl_info \<Rightarrow> string" where
  "target_crl_dn cfg c = c_str (if cl_ldapDn c = [] then buildCrlDn cfg (cl_countryCode c) (cl_fingerprint c)
     else cl_ldapDn c)"

lemma addCertificate_result:
  assumes "ldap_laws S ents" "addCertificate S cfg d c = (err, d')"
  shows "grows ents d d'" "err = None \<Longrightarrow> ents d' (target_dn cfg c) \<noteq> None"
proof -
  obtain e1 d1 where p: "ensureParentDnExists S cfg d (ci_certType c) (ci_countryCode c) = (e1, d1)" by force
  have g1: "grows ents d d1" by (rule ensure_result [OF assms(1) p])
  obtain rc d2 where a: "ls_add S d1 (target_dn cfg c) (cert_entry c) = (rc, d2)" by force
  note al = add_laws [OF assms(1) a]
  have r: "(err, d') = (case e1 of Some e \<Rightarrow> (Some e, d1) | None \<Rightarrow>
      if (if ci_ldapDn c = [] then buildDn cfg (ci_certType c) (ci_countryCode c) (ci_fingerprint c) else ci_ldapDn c) = []
      then (Some ''Failed to build LDAP DN'', d1)
      else if rc = LDAP_ALREADY_EXISTS then (None, d2)
      else if rc \<noteq> LDAP_SUCCESS then (Some (''LDAP add failed: '' @ ls_err2string S rc), d2) else (None, d2))"
    using assms(2) a by (auto simp: addCertificate_def p Let_def target_dn_def split: option.splits)
  show "grows ents d d'" using r g1 grows_trans [OF g1 al(1)] by (auto split: option.splits if_splits)
  show "err = None \<Longrightarrow> ents d' (target_dn cfg c) \<noteq> None" using r al(2) by (auto split: option.splits if_splits)
qed

lemma addCrl_result:
  assumes "ldap_laws S ents" "addCrl S cfg d c = (err, d')"
  shows "grows ents d d'" "err = None \<Longrightarrow> ents d' (target_crl_dn cfg c) \<noteq> None"
proof -
  obtain e1 d1 where p: "ensureParentDnExists S cfg d ''CRL'' (cl_countryCode c) = (e1, d1)" by force
  have g1: "grows ents d d1" by (rule ensure_result [OF assms(1) p])
  obtain rc d2 where a: "ls_add S d1 (target_crl_dn cfg c) (crl_entry c) = (rc, d2)" by force
  note al = add_laws [OF assms(1) a]
  have r: "(err, d') = (case e1 of Some e \<Rightarrow> (Some e, d1) | None \<Rightarrow>
      if (if cl_ldapDn c = [] then buildCrlDn cfg (cl_countryCode c) (cl_fingerprint c) else cl_ldapDn c) = []
      then (Some ''Failed to build LDAP DN for CRL'', d1)
      else if rc = LDAP_ALREADY_EXISTS then (None, d2)
      else if rc \<noteq> LDAP_SUCCESS then (Some (''LDAP add CRL failed: '' @ ls_err2string S rc), d2) else (None, d2))"
    using assms(2) a by (auto simp: addCrl_def p Let_def target_crl_dn_def split: option.splits)
  show "grows ents d d'" using r g1 grows_trans [OF g1 al(1)] by (auto split: option.splits if_splits)
  show "err = None \<Longrightarrow> ents d' (target_crl_dn cfg c) \<noteq> None" using r al(2) by (auto split: option.splits if_splits)
qed

subsection \<open>A server without faults\<close>

text \<open>It answers every call, with the code that the entries call for.\<close>

definition ldap_up :: "'d ldap_server \<Rightarrow> ('d \<Rightarrow> string \<Rightarrow> ldap_attrs option) \<Rightarrow> bool" where
  "ldap_up S ents =
     (ldap_laws S ents
      \<and> (\<forall>d dn. fst (ls_search S d dn) = (if ents d dn = None then LDAP_NO_SUCH_OBJECT else LDAP_SUCCESS))
      \<and> (\<forall>d dn as. fst (ls_add S d dn as) = (if ents d dn = None then LDAP_SUCCESS else LDAP_ALREADY_EXISTS)))"

abbreviation present :: "('d \<Rightarrow> string \<Rightarrow> ldap_attrs option) \<Rightarrow> 'd \<Rightarrow> string set" where
  "present ents d \<equiv> dom (ents d)"

lemma up_search:
  assumes "ldap_up S ents"
  obtains d' where "ls_search S d dn = (if dn \<in> present ents d then LDAP_SUCCESS else LDAP_NO_SUCH_OBJECT, d')" "ents d' = ents d"
proof -
  obtain rc d' where s: "ls_search S d dn = (rc, d')" by force
  moreover have "rc = (if ents d dn = None then LDAP_NO_SUCH_OBJECT else LDAP_SUCCESS)"
    using assms s unfolding ldap_up_def by (metis fst_conv)
  moreover have "ents d' = ents d" using assms search_laws(1) [OF _ s] by (simp add: ldap_up_def)
  ultimately show ?thesis using that by (auto simp: dom_def)
qed

lemma up_add:
  assumes "ldap_up S ents"
  obtains d' where "ls_add S d dn as = (if dn \<in> present ents d then LDAP_ALREADY_EXISTS else LDAP_SUCCESS, d')"
    "present ents d' = insert dn (present ents d)"
proof -
  obtain rc d' where a: "ls_add S d dn as = (rc, d')" by force
  have L: "ldap_laws S ents" using assms by (simp add: ldap_up_def)
  have rc: "rc = (if ents d dn = None then LDAP_SUCCESS else LDAP_ALREADY_EXISTS)"
    using assms a unfolding ldap_up_def by (metis fst_conv)
  note al = add_laws [OF L a]
  have "dn \<in> present ents d'" using al(2) rc by auto
  then have "present ents d' = insert dn (present ents d)" using al(3) by auto
  with a rc show ?thesis using that by (auto simp: dom_def)
qed

lemma up_create:
  assumes "ldap_up S ents"
  obtains d' where "createEntryIfNotExists S d dn ocs kvs = (True, d')" "present ents d' = insert (c_str dn) (present ents d)"
proof -
  obtain d1 where s: "ls_search S d (c_str dn) = (if c_str dn \<in> present ents d then LDAP_SUCCESS else LDAP_NO_SUCH_OBJECT, d1)"
    "ents d1 = ents d" using up_search [OF assms] .
  obtain d2 where a: "ls_add S d1 (c_str dn) ((''objectClass'', map (\<lambda>oc. Text (c_str oc)) ocs)
      # map (\<lambda>(k, v). (c_str k, [Text (c_str v)])) kvs)
      = (if c_str dn \<in> present ents d1 then LDAP_ALREADY_EXISTS else LDAP_SUCCESS, d2)"
    "present ents d2 = insert (c_str dn) (present ents d1)" using up_add [OF assms] .
  show ?thesis
  proof (cases "c_str dn \<in> present ents d")
    case True
    then show ?thesis using that [of d1] s by (simp add: createEntryIfNotExists_def insert_absorb)
  next
    case False
    then show ?thesis using that [of d2] s a
      by (simp add: createEntryIfNotExists_def)
  qed
qed

text \<open>The containers an entry of a type needs.\<close>

definition ou_of :: "string \<Rightarrow> string" where
  "ou_of ty = (if ty = ''CSCA'' then ''csca'' else if ty = ''LC'' then ''lc''
     else if ty = ''DSC'' \<or> ty = ''DSC_NC'' then ''dsc'' else ''crl'')"

definition containers :: "relay_config \<Rightarrow> string \<Rightarrow> string \<Rightarrow> string set" where
  "containers cfg ty country =
     (let countryDn = ''c='' @ country @ '','' @ (if ty = ''DSC_NC'' then rc_ldapNcDataContainer cfg
            else rc_ldapDataContainer cfg) @ '','' @ rc_ldapBaseDn cfg
      in {c_str countryDn, c_str (''o='' @ ou_of ty @ '','' @ countryDn)})"

abbreviation cert_types :: "string set" where
  "cert_types \<equiv> {''CSCA'', ''LC'', ''DSC'', ''DSC_NC'', ''CRL''}"

lemma up_ensure:
  assumes "ldap_up S ents" "ty \<in> cert_types"
  obtains d' where "ensureParentDnExists S cfg d ty country = (None, d')"
    "present ents d' = present ents d \<union> containers cfg ty country"
proof -
  define dn where "dn = ''c='' @ country @ '','' @ (if ty = ''DSC_NC'' then rc_ldapNcDataContainer cfg
    else rc_ldapDataContainer cfg) @ '','' @ rc_ldapBaseDn cfg"
  obtain d1 where a: "createEntryIfNotExists S d dn [''top'', ''country''] [(''c'', country)] = (True, d1)"
    "present ents d1 = insert (c_str dn) (present ents d)" using up_create [OF assms(1)] .
  obtain d2 where b: "createEntryIfNotExists S d1 (''o='' @ ou_of ty @ '','' @ dn) [''top'', ''organization''] [(''o'', ou_of ty)] = (True, d2)"
    "present ents d2 = insert (c_str (''o='' @ ou_of ty @ '','' @ dn)) (present ents d1)" using up_create [OF assms(1)] .
  have ou: "(if ty = ''CSCA'' then Some ''csca'' else if ty = ''LC'' then Some ''lc''
      else if ty = ''DSC'' \<or> ty = ''DSC_NC'' then Some ''dsc'' else if ty = ''CRL'' then Some ''crl'' else None) = Some (ou_of ty)"
    using assms(2) by (auto simp: ou_of_def)
  have "ensureParentDnExists S cfg d ty country = (None, d2)"
    unfolding ensureParentDnExists_def Let_def ou dn_def [symmetric] a(1) prod.case option.case b(1) by simp
  moreover have "present ents d2 = present ents d \<union> containers cfg ty country"
    using a(2) b(2) by (auto simp: containers_def Let_def dn_def)
  ultimately show ?thesis using that by blast
qed

lemma up_addCertificate:
  assumes "ldap_up S ents" "ci_certType c \<in> cert_types"
  obtains d' where "addCertificate S cfg d c = (None, d')"
    "present ents d' = present ents d \<union> containers cfg (ci_certType c) (ci_countryCode c) \<union> {target_dn cfg c}"
proof -
  obtain d1 where p: "ensureParentDnExists S cfg d (ci_certType c) (ci_countryCode c) = (None, d1)"
    "present ents d1 = present ents d \<union> containers cfg (ci_certType c) (ci_countryCode c)"
    using up_ensure [OF assms] .
  obtain d2 where a: "ls_add S d1 (target_dn cfg c) (cert_entry c)
      = (if target_dn cfg c \<in> present ents d1 then LDAP_ALREADY_EXISTS else LDAP_SUCCESS, d2)"
    "present ents d2 = insert (target_dn cfg c) (present ents d1)" using up_add [OF assms(1)] .
  have ne: "(if ci_ldapDn c = [] then buildDn cfg (ci_certType c) (ci_countryCode c) (ci_fingerprint c) else ci_ldapDn c) \<noteq> []"
    using assms(2) by (auto simp: buildDn_def)
  have "addCertificate S cfg d c = (None, d2)"
    using a(1) ne unfolding addCertificate_def p(1) prod.case option.case Let_def target_dn_def
    by (simp split: if_split)
  then show ?thesis using that a(2) p(2) by auto
qed

lemma up_addCrl:
  assumes "ldap_up S ents"
  obtains d' where "addCrl S cfg d c = (None, d')"
    "present ents d' = present ents d \<union> containers cfg ''CRL'' (cl_countryCode c) \<union> {target_crl_dn cfg c}"
proof -
  obtain d1 where p: "ensureParentDnExists S cfg d ''CRL'' (cl_countryCode c) = (None, d1)"
    "present ents d1 = present ents d \<union> containers cfg ''CRL'' (cl_countryCode c)"
    using up_ensure [OF assms, of "''CRL''"] by blast
  obtain d2 where a: "ls_add S d1 (target_crl_dn cfg c) (crl_entry c)
      = (if target_crl_dn cfg c \<in> present ents d1 then LDAP_ALREADY_EXISTS else LDAP_SUCCESS, d2)"
    "present ents d2 = insert (target_crl_dn cfg c) (present ents d1)" using up_add [OF assms] .
  have ne: "(if cl_ldapDn c = [] then buildCrlDn cfg (cl_countryCode c) (cl_fingerprint c) else cl_ldapDn c) \<noteq> []"
    by (simp add: buildCrlDn_def)
  have "addCrl S cfg d c = (None, d2)"
    using a(1) ne unfolding addCrl_def p(1) prod.case option.case Let_def target_crl_dn_def
    by (simp split: if_split)
  then show ?thesis using that a(2) p(2) by auto
qed

end
