(* ===== verification/Reconciliation.thy ===== *)
theory Reconciliation
  imports Ldap_Operations
begin

text \<open>
  \<^verbatim>\<open>services/pkd-relay-service/src/relay/sync/reconciliation_engine.cpp\<close>: the engine that
  adds to the directory the certificates and CRLs the database has and the directory has not.  The
  tables are lists of rows in the order of their ids; the two \<^verbatim>\<open>SELECT\<close> statements are
  definitions on them.  Which statements fail, which connections are refused and how long things take
  are the environment \<^verbatim>\<open>recon_env\<close>.
\<close>

section \<open>Tables, environment, result\<close>

record cert_row =
  cr_id :: string
  cr_type :: string
  cr_country :: string
  cr_subject :: string
  cr_issuer :: string
  cr_fingerprint :: string
  cr_data :: string
  cr_selfSigned :: json
  cr_stored :: bool

record crl_row =
  lr_id :: string
  lr_country :: string
  lr_issuer :: string
  lr_fingerprint :: string
  lr_binary :: string
  lr_stored :: bool

record recon_log =
  lg_reconciliationId :: string
  lg_operation :: string
  lg_certType :: string
  lg_fingerprint :: string
  lg_country :: string
  lg_subject :: string
  lg_issuer :: string
  lg_ldapDn :: string
  lg_status :: string
  lg_error :: string
  lg_durationMs :: int

record recon_failure =
  rf_certType :: string
  rf_operation :: string
  rf_countryCode :: string
  rf_subject :: string
  rf_error :: string

record recon_result =
  rr_success :: bool
  rr_totalProcessed :: int
  rr_cscaAdded :: int
  rr_cscaDeleted :: int
  rr_dscAdded :: int
  rr_dscDeleted :: int
  rr_dscNcAdded :: int
  rr_dscNcDeleted :: int
  rr_crlAdded :: int
  rr_crlDeleted :: int
  rr_successCount :: int
  rr_failedCount :: int
  rr_durationMs :: int
  rr_status :: string
  rr_errorMessage :: string
  rr_failures :: "recon_failure list"

definition recon_result0 :: recon_result where
  "recon_result0 = \<lparr>rr_success = False, rr_totalProcessed = 0, rr_cscaAdded = 0, rr_cscaDeleted = 0,
     rr_dscAdded = 0, rr_dscDeleted = 0, rr_dscNcAdded = 0, rr_dscNcDeleted = 0, rr_crlAdded = 0,
     rr_crlDeleted = 0, rr_successCount = 0, rr_failedCount = 0, rr_durationMs = 0, rr_status = [],
     rr_errorMessage = [], rr_failures = []\<rparr>"

text \<open>A row of \<^verbatim>\<open>reconciliation_summary\<close>: its parameters, and the result once it is
  completed.\<close>

datatype summary = In_Progress string bool string | Completed recon_result

record 'd recon_env =
  re_cfg :: relay_config
  re_server :: "'d ldap_server"
  re_newId :: "int option"
  re_insertFails :: bool
  re_acquire :: "string \<Rightarrow> bool"
  re_selectFails :: "string \<Rightarrow> bool"
  re_markFails :: "string \<Rightarrow> bool"
  re_logFails :: "string \<Rightarrow> bool"
  re_updateFails :: bool
  re_opMs :: "string \<Rightarrow> int"
  re_totalMs :: int

record 'd recon_state =
  rn_dir :: 'd
  rn_certs :: "cert_row list"
  rn_crls :: "crl_row list"
  rn_log :: "recon_log list"
  rn_summaries :: "(string \<times> summary) list"

section \<open>Missing entries\<close>

fun hex_prefix :: "string \<Rightarrow> byte list" where
  "hex_prefix (c # d # r) = (case stoi 16 [c, d] of Inl _ \<Rightarrow> [] | Inr b \<Rightarrow> word_of_int b # hex_prefix r)"
| "hex_prefix _ = []"

definition parseHexBinary :: "string \<Rightarrow> byte list" where
  "parseHexBinary s = (if 2 < length s \<and> take 2 s = [CHR 0x5C, CHR ''x''] then hex_prefix (drop 2 s) else [])"

text \<open>\<^verbatim>\<open>WHERE certificate_type = $1 AND stored_in_ldap = FALSE ORDER BY id LIMIT $2\<close>.\<close>

definition select_certs :: "string \<Rightarrow> int \<Rightarrow> cert_row list \<Rightarrow> cert_row list" where
  "select_certs certType limit rows = take (nat limit) (filter (\<lambda>r. cr_type r = certType \<and> \<not> cr_stored r) rows)"

definition select_crls :: "int \<Rightarrow> crl_row list \<Rightarrow> crl_row list" where
  "select_crls limit rows = take (nat limit) (filter (\<lambda>r. \<not> lr_stored r) rows)"

text \<open>The type a row is stored under; \<^term>\<open>None\<close> is the exception of \<^verbatim>\<open>asBool\<close> on a string, which
  comes before the test for a string.\<close>

definition effective_type :: "cert_row \<Rightarrow> string option" where
  "effective_type r =
     (if cr_type r \<noteq> ''CSCA'' then Some (cr_type r)
      else case as_bool (cr_selfSigned r) of
             None \<Rightarrow> None
           | Some b \<Rightarrow>
               let isSelfSigned = (case cr_selfSigned r of JStr s \<Rightarrow> s \<in> {''1'', ''true'', ''TRUE''} | _ \<Rightarrow> b)
               in Some (if isSelfSigned then ''CSCA'' else ''LC''))"

definition info_of_row :: "relay_config \<Rightarrow> cert_row \<Rightarrow> string \<Rightarrow> certificate_info" where
  "info_of_row cfg r ty =
     \<lparr>ci_id = cr_id r, ci_certType = ty, ci_countryCode = cr_country r, ci_subject = cr_subject r,
      ci_issuer = cr_issuer r, ci_fingerprint = cr_fingerprint r, ci_certData = parseHexBinary (cr_data r),
      ci_ldapDn = buildDn cfg ty (cr_country r) (cr_fingerprint r)\<rparr>"

fun scan_certs :: "'d recon_env \<Rightarrow> int \<Rightarrow> cert_row list \<Rightarrow> certificate_info list \<Rightarrow> 'd
    \<Rightarrow> certificate_info list \<times> 'd" where
  "scan_certs E limit [] acc d = (acc, d)"
| "scan_certs E limit (r # rs) acc d =
     (case effective_type r of
        None \<Rightarrow> (acc, d)
      | Some ty \<Rightarrow>
          let cert = info_of_row (re_cfg E) r ty;
              (rc, d') = ls_search (re_server E) d (c_str (ci_ldapDn cert))
          in if rc = LDAP_NO_SUCH_OBJECT then
               let acc' = acc @ [cert]
               in if nat limit \<le> length acc' then (acc', d') else scan_certs E limit rs acc' d'
             else scan_certs E limit rs acc d')"

definition findMissingInLdap :: "'d recon_env \<Rightarrow> string \<Rightarrow> int \<Rightarrow> 'd recon_state \<Rightarrow> certificate_info list \<times> 'd recon_state" where
  "findMissingInLdap E certType limit st =
     (if re_selectFails E certType then ([], st)
      else let rows = select_certs certType limit (rn_certs st)
        in if rows = [] then ([], st)
           else if \<not> re_acquire E certType then ([], st)
           else let (result, d) = scan_certs E limit rows [] (rn_dir st) in (result, st\<lparr>rn_dir := d\<rparr>))"

definition info_of_crl :: "relay_config \<Rightarrow> crl_row \<Rightarrow> crl_info" where
  "info_of_crl cfg r =
     \<lparr>cl_id = lr_id r, cl_countryCode = lr_country r, cl_issuerDn = lr_issuer r,
      cl_fingerprint = lr_fingerprint r, cl_crlData = parseHexBinary (lr_binary r),
      cl_ldapDn = buildCrlDn cfg (lr_country r) (lr_fingerprint r)\<rparr>"

fun scan_crls :: "'d recon_env \<Rightarrow> int \<Rightarrow> crl_row list \<Rightarrow> crl_info list \<Rightarrow> 'd \<Rightarrow> crl_info list \<times> 'd" where
  "scan_crls E limit [] acc d = (acc, d)"
| "scan_crls E limit (r # rs) acc d =
     (let crl = info_of_crl (re_cfg E) r;
          (rc, d') = ls_search (re_server E) d (c_str (cl_ldapDn crl))
      in if rc = LDAP_NO_SUCH_OBJECT then
           let acc' = acc @ [crl]
           in if nat limit \<le> length acc' then (acc', d') else scan_crls E limit rs acc' d'
         else scan_crls E limit rs acc d')"

definition findMissingCrlsInLdap :: "'d recon_env \<Rightarrow> int \<Rightarrow> 'd recon_state \<Rightarrow> crl_info list \<times> 'd recon_state" where
  "findMissingCrlsInLdap E limit st =
     (if re_selectFails E ''CRL'' then ([], st)
      else let rows = select_crls limit (rn_crls st)
        in if rows = [] then ([], st)
           else if \<not> re_acquire E ''CRL'' then ([], st)
           else let (result, d) = scan_crls E limit rows [] (rn_dir st) in (result, st\<lparr>rn_dir := d\<rparr>))"

section \<open>Adding them\<close>

definition markAsStoredInLdap :: "'d recon_env \<Rightarrow> string \<Rightarrow> 'd recon_state \<Rightarrow> 'd recon_state" where
  "markAsStoredInLdap E certId st =
     (if re_markFails E certId then st
      else st\<lparr>rn_certs := map (\<lambda>r. if cr_id r = certId then r\<lparr>cr_stored := True\<rparr> else r) (rn_certs st)\<rparr>)"

definition markCrlAsStoredInLdap :: "'d recon_env \<Rightarrow> string \<Rightarrow> 'd recon_state \<Rightarrow> 'd recon_state" where
  "markCrlAsStoredInLdap E crlId st =
     (if re_markFails E crlId then st
      else st\<lparr>rn_crls := map (\<lambda>r. if lr_id r = crlId then r\<lparr>lr_stored := True\<rparr> else r) (rn_crls st)\<rparr>)"

definition logReconciliationOperation :: "'d recon_env \<Rightarrow> string \<Rightarrow> string \<Rightarrow> string \<Rightarrow> certificate_info \<Rightarrow> string
    \<Rightarrow> string \<Rightarrow> int \<Rightarrow> 'd recon_state \<Rightarrow> 'd recon_state" where
  "logReconciliationOperation E reconciliationId operation certType cert status errorMsg durationMs st =
     (if re_logFails E (ci_fingerprint cert) then st
      else st\<lparr>rn_log := rn_log st @ [\<lparr>lg_reconciliationId = reconciliationId, lg_operation = operation,
        lg_certType = certType, lg_fingerprint = ci_fingerprint cert, lg_country = ci_countryCode cert,
        lg_subject = ci_subject cert, lg_issuer = ci_issuer cert, lg_ldapDn = ci_ldapDn cert,
        lg_status = status, lg_error = errorMsg, lg_durationMs = durationMs\<rparr>]\<rparr>)"

text \<open>The bookkeeping of one operation: \<open>err\<close> is \<^term>\<open>None\<close> on success.\<close>

definition account :: "string \<Rightarrow> string \<Rightarrow> string \<Rightarrow> string option \<Rightarrow> recon_result \<Rightarrow> recon_result" where
  "account certType country subject err res =
     (let res = res\<lparr>rr_totalProcessed := rr_totalProcessed res + 1\<rparr> in
      case err of
        None \<Rightarrow>
          let res = res\<lparr>rr_successCount := rr_successCount res + 1\<rparr>
          in if certType = ''CSCA'' then res\<lparr>rr_cscaAdded := rr_cscaAdded res + 1\<rparr>
             else if certType = ''DSC'' then res\<lparr>rr_dscAdded := rr_dscAdded res + 1\<rparr>
             else if certType = ''DSC_NC'' then res\<lparr>rr_dscNcAdded := rr_dscNcAdded res + 1\<rparr>
             else if certType = ''CRL'' then res\<lparr>rr_crlAdded := rr_crlAdded res + 1\<rparr>
             else res
      | Some e \<Rightarrow> res\<lparr>rr_failedCount := rr_failedCount res + 1, rr_status := ''PARTIAL'',
          rr_failures := rr_failures res @ [\<lparr>rf_certType = certType, rf_operation = ''ADD'',
            rf_countryCode = country, rf_subject = subject, rf_error = e\<rparr>]\<rparr>)"

definition status_text :: "string option \<Rightarrow> string" where
  "status_text err = (case err of None \<Rightarrow> ''SUCCESS'' | Some _ \<Rightarrow> ''FAILED'')"

definition error_text :: "string option \<Rightarrow> string" where
  "error_text err = (case err of None \<Rightarrow> [] | Some e \<Rightarrow> e)"

definition add_one_cert :: "'d recon_env \<Rightarrow> bool \<Rightarrow> certificate_info \<Rightarrow> 'd recon_state \<Rightarrow> string option \<times> 'd recon_state" where
  "add_one_cert E dryRun cert st =
     (if dryRun then (None, st)
      else case addCertificate (re_server E) (re_cfg E) (rn_dir st) cert of
        (None, d) \<Rightarrow> (None, markAsStoredInLdap E (ci_id cert) (st\<lparr>rn_dir := d\<rparr>))
      | (Some e, d) \<Rightarrow> (Some e, st\<lparr>rn_dir := d\<rparr>))"

fun add_certs :: "'d recon_env \<Rightarrow> string \<Rightarrow> bool \<Rightarrow> string \<Rightarrow> certificate_info list \<Rightarrow> recon_result \<times> 'd recon_state
    \<Rightarrow> recon_result \<times> 'd recon_state" where
  "add_certs E certType dryRun rid [] (res, st) = (res, st)"
| "add_certs E certType dryRun rid (c # cs) (res, st) =
     (let (err, st) = add_one_cert E dryRun c st;
          st = (if rid \<noteq> [] then logReconciliationOperation E rid ''ADD'' certType c (status_text err)
                  (error_text err) (re_opMs E (ci_id c)) st else st)
      in add_certs E certType dryRun rid cs (account certType (ci_countryCode c) (ci_subject c) err res, st))"

definition processCertificateType :: "'d recon_env \<Rightarrow> string \<Rightarrow> bool \<Rightarrow> string \<Rightarrow> recon_result \<times> 'd recon_state
    \<Rightarrow> recon_result \<times> 'd recon_state" where
  "processCertificateType E certType dryRun rid = (\<lambda>(res, st).
     let (missing, st) = findMissingInLdap E certType (rc_maxReconcileBatchSize (re_cfg E)) st
     in add_certs E certType dryRun rid missing (res, st))"

definition add_one_crl :: "'d recon_env \<Rightarrow> bool \<Rightarrow> crl_info \<Rightarrow> 'd recon_state \<Rightarrow> string option \<times> 'd recon_state" where
  "add_one_crl E dryRun crl st =
     (if dryRun then (None, st)
      else case addCrl (re_server E) (re_cfg E) (rn_dir st) crl of
        (None, d) \<Rightarrow> (None, markCrlAsStoredInLdap E (cl_id crl) (st\<lparr>rn_dir := d\<rparr>))
      | (Some e, d) \<Rightarrow> (Some e, st\<lparr>rn_dir := d\<rparr>))"

definition crl_as_info :: "crl_info \<Rightarrow> certificate_info" where
  "crl_as_info c = \<lparr>ci_id = [], ci_certType = ''CRL'', ci_countryCode = cl_countryCode c, ci_subject = cl_issuerDn c,
     ci_issuer = cl_issuerDn c, ci_fingerprint = cl_fingerprint c, ci_certData = [], ci_ldapDn = []\<rparr>"

fun add_crls :: "'d recon_env \<Rightarrow> bool \<Rightarrow> string \<Rightarrow> crl_info list \<Rightarrow> recon_result \<times> 'd recon_state
    \<Rightarrow> recon_result \<times> 'd recon_state" where
  "add_crls E dryRun rid [] (res, st) = (res, st)"
| "add_crls E dryRun rid (c # cs) (res, st) =
     (let (err, st) = add_one_crl E dryRun c st;
          st = logReconciliationOperation E rid ''ADD'' ''CRL'' (crl_as_info c) (status_text err)
                 (error_text err) (re_opMs E (cl_id c)) st
      in add_crls E dryRun rid cs (account ''CRL'' (cl_countryCode c) (cl_issuerDn c) err res, st))"

definition processCrls :: "'d recon_env \<Rightarrow> bool \<Rightarrow> string \<Rightarrow> recon_result \<times> 'd recon_state
    \<Rightarrow> recon_result \<times> 'd recon_state" where
  "processCrls E dryRun rid = (\<lambda>(res, st).
     let (missing, st) = findMissingCrlsInLdap E (rc_maxReconcileBatchSize (re_cfg E)) st
     in add_crls E dryRun rid missing (res, st))"

section \<open>The run\<close>

definition createReconciliationSummary :: "'d recon_env \<Rightarrow> string \<Rightarrow> bool \<Rightarrow> int \<Rightarrow> 'd recon_state
    \<Rightarrow> string \<times> 'd recon_state" where
  "createReconciliationSummary E triggeredBy dryRun syncStatusId st =
     (case re_newId E of
        None \<Rightarrow> ([], st)
      | Some i \<Rightarrow>
          if re_insertFails E then ([], st)
          else (int_dec i, st\<lparr>rn_summaries := rn_summaries st @ [(int_dec i, In_Progress triggeredBy dryRun
                  (if 0 < syncStatusId then int_dec syncStatusId else []))]\<rparr>))"

definition updateReconciliationSummary :: "'d recon_env \<Rightarrow> string \<Rightarrow> recon_result \<Rightarrow> 'd recon_state \<Rightarrow> 'd recon_state" where
  "updateReconciliationSummary E rid res st =
     (if re_updateFails E then st
      else st\<lparr>rn_summaries := map (\<lambda>(i, s). (i, if i = rid then Completed res else s)) (rn_summaries st)\<rparr>)"

definition performReconciliation :: "'d recon_env \<Rightarrow> bool \<Rightarrow> string \<Rightarrow> int \<Rightarrow> 'd recon_state
    \<Rightarrow> recon_result \<times> 'd recon_state" where
  "performReconciliation E dryRun triggeredBy syncStatusId st =
     (let res = recon_result0\<lparr>rr_status := ''COMPLETED''\<rparr>;
          (rid, st) = createReconciliationSummary E triggeredBy dryRun syncStatusId st
      in if rid = [] then
           (res\<lparr>rr_success := False, rr_status := ''FAILED'',
              rr_errorMessage := ''Failed to create reconciliation_summary record''\<rparr>, st)
         else if \<not> re_acquire E ''main'' then
           (res\<lparr>rr_success := False, rr_status := ''FAILED'',
              rr_errorMessage := ''Failed to acquire LDAP connection from pool''\<rparr>, st)
         else
           let (res, st) = processCrls E dryRun rid (processCertificateType E ''DSC'' dryRun rid
                             (processCertificateType E ''CSCA'' dryRun rid (res, st)));
               res = res\<lparr>rr_durationMs := re_totalMs E, rr_success := (rr_failedCount res = 0)\<rparr>;
               res = (if 0 < rr_failedCount res \<and> rr_successCount res = 0 then res\<lparr>rr_status := ''FAILED''\<rparr> else res)
           in (res, updateReconciliationSummary E rid res st))"

section \<open>What a run keeps\<close>

definition core :: "cert_row \<Rightarrow> cert_row" where
  "core r = r\<lparr>cr_stored := False\<rparr>"

definition crl_core :: "crl_row \<Rightarrow> crl_row" where
  "crl_core r = r\<lparr>lr_stored := False\<rparr>"

text \<open>The name of a row's entry.\<close>

definition row_dn :: "relay_config \<Rightarrow> cert_row \<Rightarrow> string option" where
  "row_dn cfg r = map_option (\<lambda>ty. c_str (buildDn cfg ty (cr_country r) (cr_fingerprint r))) (effective_type r)"

definition crl_dn :: "relay_config \<Rightarrow> crl_row \<Rightarrow> string" where
  "crl_dn cfg r = c_str (buildCrlDn cfg (lr_country r) (lr_fingerprint r))"

lemma effective_type_flag [simp]: "effective_type (r\<lparr>cr_stored := b\<rparr>) = effective_type r"
  by (simp add: effective_type_def cong: option.case_cong)

lemma core_fields [simp]:
  "effective_type (core r) = effective_type r" "cr_country (core r) = cr_country r"
  "cr_fingerprint (core r) = cr_fingerprint r" "cr_id (core r) = cr_id r" "cr_type (core r) = cr_type r"
  "row_dn cfg (core r) = row_dn cfg r" "lr_id (crl_core q) = lr_id q" "crl_dn cfg (crl_core q) = crl_dn cfg q"
  "core (core r) = core r" "crl_core (crl_core q) = crl_core q"
  by (simp_all add: core_def crl_core_def row_dn_def crl_dn_def)

lemma key_unique: "distinct (map f xs) \<Longrightarrow> x \<in> set xs \<Longrightarrow> y \<in> set xs \<Longrightarrow> f x = f y \<Longrightarrow> x = y"
  by (meson distinct_map inj_onD)

text \<open>The tables of a state apart from the flags, and the condition that a flag is raised only for a
  row whose entry is in the directory.\<close>

definition tables :: "'d recon_state \<Rightarrow> cert_row list \<times> crl_row list" where
  "tables st = (map core (rn_certs st), map crl_core (rn_crls st))"

definition flags_sound :: "('d \<Rightarrow> string \<Rightarrow> ldap_attrs option) \<Rightarrow> relay_config \<Rightarrow> 'd recon_state \<Rightarrow> bool" where
  "flags_sound ents cfg st =
     ((\<forall>r \<in> set (rn_certs st). cr_stored r \<longrightarrow> (\<forall>dn. row_dn cfg r = Some dn \<longrightarrow> dn \<in> present ents (rn_dir st)))
      \<and> (\<forall>r \<in> set (rn_crls st). lr_stored r \<longrightarrow> crl_dn cfg r \<in> present ents (rn_dir st)))"

definition ids_unique :: "'d recon_state \<Rightarrow> bool" where
  "ids_unique st = (distinct (map cr_id (rn_certs st)) \<and> distinct (map lr_id (rn_crls st)))"

lemma ids_unique_tables: "ids_unique st \<longleftrightarrow> distinct (map cr_id (fst (tables st))) \<and> distinct (map lr_id (snd (tables st)))"
  by (simp add: ids_unique_def tables_def comp_def)

text \<open>The step from one state to the next that every operation of the engine makes: the directory grows,
  the tables stay, and the flags stay sound.\<close>

definition moves :: "('d \<Rightarrow> string \<Rightarrow> ldap_attrs option) \<Rightarrow> relay_config \<Rightarrow> 'd recon_state \<Rightarrow> 'd recon_state \<Rightarrow> bool" where
  "moves ents cfg st st' = (grows ents (rn_dir st) (rn_dir st') \<and> tables st' = tables st
     \<and> (ids_unique st \<longrightarrow> flags_sound ents cfg st \<longrightarrow> flags_sound ents cfg st'))"

lemma moves_refl [intro]: "moves ents cfg st st"
  by (simp add: moves_def grows_refl)

lemma moves_trans: "moves ents cfg a b \<Longrightarrow> moves ents cfg b c \<Longrightarrow> moves ents cfg a c"
  unfolding moves_def by (auto intro: grows_trans simp: ids_unique_tables)

lemma grows_present: "grows ents d d' \<Longrightarrow> present ents d \<subseteq> present ents d'"
  by (simp add: grows_def map_le_implies_dom_le)

lemma moves_dir:
  assumes "grows ents (rn_dir st) d"
  shows "moves ents cfg st (st\<lparr>rn_dir := d\<rparr>)"
  using assms grows_present [OF assms] by (simp add: moves_def tables_def flags_sound_def) blast

lemma moves_log [intro]: "moves ents cfg st (logReconciliationOperation E rid op ty c s e ms st)"
  by (auto simp: moves_def tables_def flags_sound_def logReconciliationOperation_def grows_refl)

text \<open>Marking is sound when the entry of the row with that id is there.\<close>

definition cert_known :: "relay_config \<Rightarrow> cert_row list \<Rightarrow> certificate_info \<Rightarrow> bool" where
  "cert_known cfg tbl c = (\<exists>r \<in> set tbl. cr_id r = ci_id c \<and> row_dn cfg r = Some (target_dn cfg c))"

definition crl_known :: "relay_config \<Rightarrow> crl_row list \<Rightarrow> crl_info \<Rightarrow> bool" where
  "crl_known cfg tbl c = (\<exists>r \<in> set tbl. lr_id r = cl_id c \<and> crl_dn cfg r = target_crl_dn cfg c)"

lemma mark_tables: "tables (markAsStoredInLdap E i st) = tables st" "rn_dir (markAsStoredInLdap E i st) = rn_dir st"
  "tables (markCrlAsStoredInLdap E i st) = tables st" "rn_dir (markCrlAsStoredInLdap E i st) = rn_dir st"
  by (simp_all add: markAsStoredInLdap_def markCrlAsStoredInLdap_def tables_def core_def crl_core_def)

lemma moves_mark:
  assumes "cert_known cfg (fst (tables st)) c" "target_dn cfg c \<in> present ents (rn_dir st)"
  shows "moves ents cfg st (markAsStoredInLdap E (ci_id c) st)"
proof -
  have "flags_sound ents cfg (markAsStoredInLdap E (ci_id c) st)" if u: "ids_unique st" and f: "flags_sound ents cfg st"
  proof -
    obtain q where q: "q \<in> set (rn_certs st)" "cr_id q = ci_id c" "row_dn cfg q = Some (target_dn cfg c)"
      using assms(1) by (auto simp: cert_known_def tables_def)
    have same: "r = q" if "r \<in> set (rn_certs st)" "cr_id r = ci_id c" for r
      using u q that key_unique [of cr_id "rn_certs st" r q] by (simp add: ids_unique_def)
    have "dn \<in> present ents (rn_dir st)"
      if r: "r \<in> set (rn_certs st)" "cr_stored (if cr_id r = ci_id c then r\<lparr>cr_stored := True\<rparr> else r)"
        "row_dn cfg (if cr_id r = ci_id c then r\<lparr>cr_stored := True\<rparr> else r) = Some dn" for r dn
    proof (cases "cr_id r = ci_id c")
      case True
      then have "row_dn cfg q = Some dn" using r(3) same [OF r(1) True] by (simp add: row_dn_def)
      then show ?thesis using q(3) assms(2) by simp
    next
      case False
      then show ?thesis using r f by (simp add: flags_sound_def)
    qed
    then show ?thesis using f unfolding flags_sound_def markAsStoredInLdap_def by (simp del: if_image_distrib)
  qed
  then show ?thesis by (simp add: moves_def mark_tables grows_refl)
qed

lemma moves_mark_crl:
  assumes "crl_known cfg (snd (tables st)) c" "target_crl_dn cfg c \<in> present ents (rn_dir st)"
  shows "moves ents cfg st (markCrlAsStoredInLdap E (cl_id c) st)"
proof -
  have "flags_sound ents cfg (markCrlAsStoredInLdap E (cl_id c) st)" if u: "ids_unique st" and f: "flags_sound ents cfg st"
  proof -
    obtain q where q: "q \<in> set (rn_crls st)" "lr_id q = cl_id c" "crl_dn cfg q = target_crl_dn cfg c"
      using assms(1) by (auto simp: crl_known_def tables_def)
    have same: "r = q" if "r \<in> set (rn_crls st)" "lr_id r = cl_id c" for r
      using u q that key_unique [of lr_id "rn_crls st" r q] by (simp add: ids_unique_def)
    have "crl_dn cfg (if lr_id r = cl_id c then r\<lparr>lr_stored := True\<rparr> else r) \<in> present ents (rn_dir st)"
      if r: "r \<in> set (rn_crls st)" "lr_stored (if lr_id r = cl_id c then r\<lparr>lr_stored := True\<rparr> else r)" for r
    proof (cases "lr_id r = cl_id c")
      case True
      then show ?thesis using q(3) assms(2) same [OF r(1) True] by (simp add: crl_dn_def)
    next
      case False
      then show ?thesis using r f by (simp add: flags_sound_def)
    qed
    then show ?thesis using f unfolding flags_sound_def markCrlAsStoredInLdap_def by (simp del: if_image_distrib)
  qed
  then show ?thesis by (simp add: moves_def mark_tables grows_refl)
qed

lemma target_info [simp]: "target_dn cfg (info_of_row cfg r ty) = c_str (buildDn cfg ty (cr_country r) (cr_fingerprint r))"
  "target_crl_dn cfg (info_of_crl cfg q) = crl_dn cfg q"
  by (auto simp: target_dn_def info_of_row_def target_crl_dn_def info_of_crl_def crl_dn_def)

lemma info_id [simp]: "ci_id (info_of_row cfg r ty) = cr_id r" "cl_id (info_of_crl cfg q) = lr_id q"
  by (simp_all add: info_of_row_def info_of_crl_def)

lemma known_row: "r \<in> set (rn_certs st) \<Longrightarrow> effective_type r = Some ty \<Longrightarrow> cert_known (re_cfg E) (fst (tables st)) (info_of_row (re_cfg E) r ty)"
  unfolding cert_known_def tables_def
  by (intro bexI [of _ "core r"]) (simp_all add: row_dn_def)

lemma known_crl: "r \<in> set (rn_crls st) \<Longrightarrow> crl_known (re_cfg E) (snd (tables st)) (info_of_crl (re_cfg E) r)"
  unfolding crl_known_def tables_def
  by (intro bexI [of _ "crl_core r"]) simp_all

lemma scan_certs_result:
  assumes "ldap_laws (re_server E) ents" "scan_certs E limit rs acc d = (acc', d')"
  shows "ents d' = ents d \<and> (\<forall>c \<in> set acc'. c \<in> set acc
      \<or> (\<exists>r \<in> set rs. \<exists>ty. effective_type r = Some ty \<and> c = info_of_row (re_cfg E) r ty))"
  using assms(2)
proof (induction rs arbitrary: acc d)
  case Nil
  then show ?case by simp
next
  case (Cons r rs)
  show ?case
  proof (cases "effective_type r")
    case None
    then show ?thesis using Cons.prems by simp
  next
    case (Some ty)
    let ?c = "info_of_row (re_cfg E) r ty"
    obtain rc d1 where s: "ls_search (re_server E) d (c_str (ci_ldapDn ?c)) = (rc, d1)" by force
    have e: "ents d1 = ents d" by (rule search_laws(1) [OF assms(1) s])
    have "(acc', d') = (acc @ [?c], d1) \<or> scan_certs E limit rs (acc @ [?c]) d1 = (acc', d')
      \<or> scan_certs E limit rs acc d1 = (acc', d')"
      using Cons.prems Some s by (simp add: Let_def split: if_splits)
    then show ?thesis
    proof (elim disjE)
      assume 1: "(acc', d') = (acc @ [?c], d1)"
      then show ?thesis using e Some by auto
    next
      assume 2: "scan_certs E limit rs (acc @ [?c]) d1 = (acc', d')"
      then show ?thesis using Cons.IH [OF 2] e Some by (simp, blast)
    next
      assume 3: "scan_certs E limit rs acc d1 = (acc', d')"
      then show ?thesis using Cons.IH [OF 3] e by auto
    qed
  qed
qed

lemma scan_crls_result:
  assumes "ldap_laws (re_server E) ents" "scan_crls E limit rs acc d = (acc', d')"
  shows "ents d' = ents d \<and> set acc' \<subseteq> set acc \<union> info_of_crl (re_cfg E) ` set rs"
  using assms(2)
proof (induction rs arbitrary: acc d)
  case Nil
  then show ?case by simp
next
  case (Cons r rs)
  let ?c = "info_of_crl (re_cfg E) r"
  obtain rc d1 where s: "ls_search (re_server E) d (c_str (cl_ldapDn ?c)) = (rc, d1)" by force
  have e: "ents d1 = ents d" by (rule search_laws(1) [OF assms(1) s])
  have "(acc', d') = (acc @ [?c], d1) \<or> scan_crls E limit rs (acc @ [?c]) d1 = (acc', d')
    \<or> scan_crls E limit rs acc d1 = (acc', d')"
    using Cons.prems s by (simp add: Let_def split: if_splits)
  then show ?case
  proof (elim disjE)
    assume 1: "(acc', d') = (acc @ [?c], d1)"
    then show ?thesis using e by auto
  next
    assume 2: "scan_crls E limit rs (acc @ [?c]) d1 = (acc', d')"
    then show ?thesis using Cons.IH [OF 2] e by auto
  next
    assume 3: "scan_crls E limit rs acc d1 = (acc', d')"
    then show ?thesis using Cons.IH [OF 3] e by auto
  qed
qed

lemma find_certs_result:
  assumes "ldap_laws (re_server E) ents" "findMissingInLdap E ty limit st = (cs, st')"
  shows "moves ents (re_cfg E) st st' \<and> (\<exists>d. st' = st\<lparr>rn_dir := d\<rparr> \<and> ents d = ents (rn_dir st))
    \<and> (\<forall>c \<in> set cs. cert_known (re_cfg E) (fst (tables st')) c)"
proof (cases "st' = st \<and> cs = []")
  case True
  then show ?thesis by (auto intro: exI [of _ "rn_dir st"])
next
  case False
  obtain cs2 d where sc: "scan_certs E limit (select_certs ty limit (rn_certs st)) [] (rn_dir st) = (cs2, d)" by force
  have s: "scan_certs E limit (select_certs ty limit (rn_certs st)) [] (rn_dir st) = (cs, d)" "st' = st\<lparr>rn_dir := d\<rparr>"
    using assms(2) False sc by (simp_all add: findMissingInLdap_def Let_def split: if_splits)
  note r = scan_certs_result [OF assms(1) s(1)]
  have "set (select_certs ty limit (rn_certs st)) \<subseteq> set (rn_certs st')"
    by (auto simp: select_certs_def s(2) dest: in_set_takeD)
  then have "\<forall>c \<in> set cs. cert_known (re_cfg E) (fst (tables st')) c" using r known_row by (metis empty_iff empty_set subsetD)
  moreover have "moves ents (re_cfg E) st st'" unfolding s(2) using r by (intro moves_dir) (simp add: grows_def)
  ultimately show ?thesis using r s(2) by blast
qed

lemma find_crls_result:
  assumes "ldap_laws (re_server E) ents" "findMissingCrlsInLdap E limit st = (cs, st')"
  shows "moves ents (re_cfg E) st st' \<and> (\<exists>d. st' = st\<lparr>rn_dir := d\<rparr> \<and> ents d = ents (rn_dir st))
    \<and> (\<forall>c \<in> set cs. crl_known (re_cfg E) (snd (tables st')) c)"
proof (cases "st' = st \<and> cs = []")
  case True
  then show ?thesis by (auto intro: exI [of _ "rn_dir st"])
next
  case False
  obtain cs2 d where sc: "scan_crls E limit (select_crls limit (rn_crls st)) [] (rn_dir st) = (cs2, d)" by force
  have s: "scan_crls E limit (select_crls limit (rn_crls st)) [] (rn_dir st) = (cs, d)" "st' = st\<lparr>rn_dir := d\<rparr>"
    using assms(2) False sc by (simp_all add: findMissingCrlsInLdap_def Let_def split: if_splits)
  note r = scan_crls_result [OF assms(1) s(1)]
  have "set (select_crls limit (rn_crls st)) \<subseteq> set (rn_crls st')"
    by (auto simp: select_crls_def s(2) dest: in_set_takeD)
  then have "\<forall>c \<in> set cs. crl_known (re_cfg E) (snd (tables st')) c" using r known_crl by fastforce
  moreover have "moves ents (re_cfg E) st st'" unfolding s(2) using r by (intro moves_dir) (simp add: grows_def)
  ultimately show ?thesis using r s(2) by blast
qed

lemma add_one_cert_moves:
  assumes "ldap_laws (re_server E) ents" "cert_known (re_cfg E) (fst (tables st)) c" "add_one_cert E dry c st = (err, st')"
  shows "moves ents (re_cfg E) st st'"
proof (cases dry)
  case False
  obtain e d where a: "addCertificate (re_server E) (re_cfg E) (rn_dir st) c = (e, d)" by force
  note r = addCertificate_result [OF assms(1) a]
  have m: "moves ents (re_cfg E) st (st\<lparr>rn_dir := d\<rparr>)" by (rule moves_dir) (rule r(1))
  show ?thesis
  proof (cases e)
    case None
    have "moves ents (re_cfg E) (st\<lparr>rn_dir := d\<rparr>) (markAsStoredInLdap E (ci_id c) (st\<lparr>rn_dir := d\<rparr>))"
      using assms(2) r(2) [OF None] by (intro moves_mark) (auto simp: tables_def)
    then show ?thesis using moves_trans [OF m] assms(3) False a None by (simp add: add_one_cert_def)
  next
    case (Some x)
    then show ?thesis using m assms(3) False a by (simp add: add_one_cert_def)
  qed
qed (use assms(3) in \<open>auto simp: add_one_cert_def\<close>)

lemma add_one_crl_moves:
  assumes "ldap_laws (re_server E) ents" "crl_known (re_cfg E) (snd (tables st)) c" "add_one_crl E dry c st = (err, st')"
  shows "moves ents (re_cfg E) st st'"
proof (cases dry)
  case False
  obtain e d where a: "addCrl (re_server E) (re_cfg E) (rn_dir st) c = (e, d)" by force
  note r = addCrl_result [OF assms(1) a]
  have m: "moves ents (re_cfg E) st (st\<lparr>rn_dir := d\<rparr>)" by (rule moves_dir) (rule r(1))
  show ?thesis
  proof (cases e)
    case None
    have "moves ents (re_cfg E) (st\<lparr>rn_dir := d\<rparr>) (markCrlAsStoredInLdap E (cl_id c) (st\<lparr>rn_dir := d\<rparr>))"
      using assms(2) r(2) [OF None] by (intro moves_mark_crl) (auto simp: tables_def)
    then show ?thesis using moves_trans [OF m] assms(3) False a None by (simp add: add_one_crl_def)
  next
    case (Some x)
    then show ?thesis using m assms(3) False a by (simp add: add_one_crl_def)
  qed
qed (use assms(3) in \<open>auto simp: add_one_crl_def\<close>)

lemma moves_tables: "moves ents cfg st st' \<Longrightarrow> tables st' = tables st"
  by (simp add: moves_def)

lemma add_certs_moves:
  assumes "ldap_laws (re_server E) ents"
  shows "\<forall>c \<in> set cs. cert_known (re_cfg E) (fst (tables st)) c \<Longrightarrow>
    moves ents (re_cfg E) st (snd (add_certs E ty dry rid cs (res, st)))"
proof (induction cs arbitrary: res st)
  case (Cons c cs)
  obtain err s1 where a: "add_one_cert E dry c st = (err, s1)" by force
  let ?s2 = "if rid \<noteq> [] then logReconciliationOperation E rid ''ADD'' ty c (status_text err)
                  (error_text err) (re_opMs E (ci_id c)) s1 else s1"
  have "moves ents (re_cfg E) st s1" using Cons.prems by (intro add_one_cert_moves [OF assms _ a]) simp
  moreover have "moves ents (re_cfg E) s1 ?s2" by auto
  ultimately have m: "moves ents (re_cfg E) st ?s2" by (rule moves_trans)
  have "\<forall>c \<in> set cs. cert_known (re_cfg E) (fst (tables ?s2)) c"
    unfolding moves_tables [OF m] using Cons.prems by simp
  from moves_trans [OF m Cons.IH [OF this]] show ?case by (simp add: a)
qed auto

lemma add_crls_moves:
  assumes "ldap_laws (re_server E) ents"
  shows "\<forall>c \<in> set cs. crl_known (re_cfg E) (snd (tables st)) c \<Longrightarrow>
    moves ents (re_cfg E) st (snd (add_crls E dry rid cs (res, st)))"
proof (induction cs arbitrary: res st)
  case (Cons c cs)
  obtain err s1 where a: "add_one_crl E dry c st = (err, s1)" by force
  let ?s2 = "logReconciliationOperation E rid ''ADD'' ''CRL'' (crl_as_info c) (status_text err)
                 (error_text err) (re_opMs E (cl_id c)) s1"
  have "moves ents (re_cfg E) st s1" using Cons.prems by (intro add_one_crl_moves [OF assms _ a]) simp
  moreover have "moves ents (re_cfg E) s1 ?s2" by (rule moves_log)
  ultimately have m: "moves ents (re_cfg E) st ?s2" by (rule moves_trans)
  have "\<forall>c \<in> set cs. crl_known (re_cfg E) (snd (tables ?s2)) c"
    unfolding moves_tables [OF m] using Cons.prems by simp
  from moves_trans [OF m Cons.IH [OF this]] show ?case by (simp add: a)
qed auto

lemma process_certs_moves:
  assumes "ldap_laws (re_server E) ents"
  shows "moves ents (re_cfg E) st (snd (processCertificateType E ty dry rid (res, st)))"
proof -
  obtain cs s1 where f: "findMissingInLdap E ty (rc_maxReconcileBatchSize (re_cfg E)) st = (cs, s1)" by force
  note r = find_certs_result [OF assms f]
  then show ?thesis
    using moves_trans [OF conjunct1 [OF r] add_certs_moves [OF assms]]
    by (simp add: processCertificateType_def f)
qed

lemma process_crls_moves:
  assumes "ldap_laws (re_server E) ents"
  shows "moves ents (re_cfg E) st (snd (processCrls E dry rid (res, st)))"
proof -
  obtain cs s1 where f: "findMissingCrlsInLdap E (rc_maxReconcileBatchSize (re_cfg E)) st = (cs, s1)" by force
  note r = find_crls_result [OF assms f]
  then show ?thesis
    using moves_trans [OF conjunct1 [OF r] add_crls_moves [OF assms]]
    by (simp add: processCrls_def f)
qed

text \<open>The three stages of a run, and how the run is put together from them.\<close>

definition stages :: "'d recon_env \<Rightarrow> bool \<Rightarrow> string \<Rightarrow> recon_result \<times> 'd recon_state \<Rightarrow> recon_result \<times> 'd recon_state" where
  "stages E dry rid x = processCrls E dry rid (processCertificateType E ''DSC'' dry rid
     (processCertificateType E ''CSCA'' dry rid x))"

definition conclude :: "'d recon_env \<Rightarrow> recon_result \<Rightarrow> recon_result" where
  "conclude E res =
     (let res = res\<lparr>rr_durationMs := re_totalMs E, rr_success := (rr_failedCount res = 0)\<rparr>
      in if 0 < rr_failedCount res \<and> rr_successCount res = 0 then res\<lparr>rr_status := ''FAILED''\<rparr> else res)"

definition starts :: "'d recon_env \<Rightarrow> bool" where
  "starts E = (re_newId E \<noteq> None \<and> \<not> re_insertFails E \<and> re_acquire E ''main'')"

lemma createSummary_moves:
  "createReconciliationSummary E by dry sid st = (rid, s1) \<Longrightarrow>
    (rid = [] \<longleftrightarrow> re_newId E = None \<or> re_insertFails E) \<and> (\<exists>l. s1 = st\<lparr>rn_summaries := l\<rparr>)"
  by (auto simp: createReconciliationSummary_def int_dec_def split: option.splits if_splits
      intro: exI [of _ "rn_summaries st"])

lemma perform_stages:
  obtains rid s1 where "createReconciliationSummary E by dry sid st = (rid, s1)"
    "starts E \<Longrightarrow> rid \<noteq> []"
    "starts E \<Longrightarrow> performReconciliation E dry by sid st =
       (conclude E (fst (stages E dry rid (recon_result0\<lparr>rr_status := ''COMPLETED''\<rparr>, s1))),
        updateReconciliationSummary E rid (conclude E (fst (stages E dry rid (recon_result0\<lparr>rr_status := ''COMPLETED''\<rparr>, s1))))
          (snd (stages E dry rid (recon_result0\<lparr>rr_status := ''COMPLETED''\<rparr>, s1))))"
    "\<not> starts E \<Longrightarrow> snd (performReconciliation E dry by sid st) = s1
       \<and> \<not> rr_success (fst (performReconciliation E dry by sid st))
       \<and> rr_status (fst (performReconciliation E dry by sid st)) = ''FAILED''
       \<and> rr_totalProcessed (fst (performReconciliation E dry by sid st)) = 0"
proof -
  obtain rid s1 where c: "createReconciliationSummary E by dry sid st = (rid, s1)" by force
  note i = conjunct1 [OF createSummary_moves [OF c]]
  show ?thesis
  proof (rule that [OF c])
    show "starts E \<Longrightarrow> rid \<noteq> []" using i by (simp add: starts_def)
    show "performReconciliation E dry by sid st =
       (conclude E (fst (stages E dry rid (recon_result0\<lparr>rr_status := ''COMPLETED''\<rparr>, s1))),
        updateReconciliationSummary E rid (conclude E (fst (stages E dry rid (recon_result0\<lparr>rr_status := ''COMPLETED''\<rparr>, s1))))
          (snd (stages E dry rid (recon_result0\<lparr>rr_status := ''COMPLETED''\<rparr>, s1))))"
      if "starts E"
    proof -
      have "rid \<noteq> []" "re_acquire E ''main''" using i that by (simp_all add: starts_def)
      then show ?thesis by (simp add: performReconciliation_def c stages_def conclude_def case_prod_beta Let_def)
    qed
    show "\<not> starts E \<Longrightarrow> snd (performReconciliation E dry by sid st) = s1
       \<and> \<not> rr_success (fst (performReconciliation E dry by sid st))
       \<and> rr_status (fst (performReconciliation E dry by sid st)) = ''FAILED''
       \<and> rr_totalProcessed (fst (performReconciliation E dry by sid st)) = 0"
      using i by (auto simp: performReconciliation_def c starts_def recon_result0_def Let_def)
  qed
qed

lemma summaries_moves [intro]: "moves ents cfg st (st\<lparr>rn_summaries := l\<rparr>)"
  by (simp add: moves_def tables_def flags_sound_def grows_refl)

lemma stages_moves:
  assumes "ldap_laws (re_server E) ents"
  shows "moves ents (re_cfg E) st (snd (stages E dry rid (res, st)))"
proof -
  obtain r1 s1 where a: "processCertificateType E ''CSCA'' dry rid (res, st) = (r1, s1)" by force
  obtain r2 s2 where b: "processCertificateType E ''DSC'' dry rid (r1, s1) = (r2, s2)" by force
  have "moves ents (re_cfg E) st s1" using process_certs_moves [OF assms, of st "''CSCA''" dry rid res] a by simp
  moreover have "moves ents (re_cfg E) s1 s2" using process_certs_moves [OF assms, of s1 "''DSC''" dry rid r1] b by simp
  moreover have "moves ents (re_cfg E) s2 (snd (processCrls E dry rid (r2, s2)))" by (rule process_crls_moves [OF assms])
  ultimately show ?thesis unfolding stages_def a b by (blast intro: moves_trans)
qed

lemma perform_moves:
  assumes "ldap_laws (re_server E) ents"
  shows "moves ents (re_cfg E) st (snd (performReconciliation E dry by sid st))"
proof (rule perform_stages [of E "by" dry sid st])
  fix rid s1
  assume c: "createReconciliationSummary E by dry sid st = (rid, s1)"
    and run: "starts E \<Longrightarrow> performReconciliation E dry by sid st =
       (conclude E (fst (stages E dry rid (recon_result0\<lparr>rr_status := ''COMPLETED''\<rparr>, s1))),
        updateReconciliationSummary E rid (conclude E (fst (stages E dry rid (recon_result0\<lparr>rr_status := ''COMPLETED''\<rparr>, s1))))
          (snd (stages E dry rid (recon_result0\<lparr>rr_status := ''COMPLETED''\<rparr>, s1))))"
    and no: "\<not> starts E \<Longrightarrow> snd (performReconciliation E dry by sid st) = s1
       \<and> \<not> rr_success (fst (performReconciliation E dry by sid st))
       \<and> rr_status (fst (performReconciliation E dry by sid st)) = ''FAILED''
       \<and> rr_totalProcessed (fst (performReconciliation E dry by sid st)) = 0"
  have m1: "moves ents (re_cfg E) st s1" using createSummary_moves [OF c] by auto
  have u: "moves ents (re_cfg E) s (updateReconciliationSummary E i r s)" for s i r
    by (auto simp: updateReconciliationSummary_def)
  show ?thesis
  proof (cases "starts E")
    case True
    show ?thesis unfolding run [OF True] snd_conv
      by (rule moves_trans [OF m1 moves_trans [OF stages_moves [OF assms] u]])
  next
    case False
    then show ?thesis using no m1 by simp
  qed
qed

text \<open>C7. The flag \<^verbatim>\<open>stored_in_ldap\<close> never lies: whatever fails during a run, on a directory whose
  answers mean what they say, a certificate or CRL is flagged only if its entry is in the directory;
  no entry is removed or changed, and nothing but flags changes in the tables.\<close>

theorem reconciliation_keeps_flags_sound:
  assumes "ldap_laws (re_server E) ents" and "ids_unique st" and "flags_sound ents (re_cfg E) st"
  shows "flags_sound ents (re_cfg E) (snd (performReconciliation E dryRun triggeredBy sid st))
    \<and> grows ents (rn_dir st) (rn_dir (snd (performReconciliation E dryRun triggeredBy sid st)))
    \<and> tables (snd (performReconciliation E dryRun triggeredBy sid st)) = tables st"
  using perform_moves [OF assms(1)] assms(2,3) by (simp add: moves_def)

section \<open>Bookkeeping\<close>

definition books_ok :: "recon_result \<Rightarrow> bool" where
  "books_ok res =
     (rr_totalProcessed res = rr_successCount res + rr_failedCount res
      \<and> rr_successCount res = rr_cscaAdded res + rr_dscAdded res + rr_dscNcAdded res + rr_crlAdded res
      \<and> 0 \<le> rr_successCount res \<and> rr_failedCount res = int (length (rr_failures res))
      \<and> rr_status res = (if rr_failedCount res = 0 then ''COMPLETED'' else ''PARTIAL''))"

lemma books_account:
  "ty \<in> {''CSCA'', ''DSC'', ''DSC_NC'', ''CRL''} \<Longrightarrow> books_ok res \<Longrightarrow> books_ok (account ty country subject err res)"
  by (cases err) (auto simp: books_ok_def account_def Let_def)

lemma books_add_certs:
  "ty \<in> {''CSCA'', ''DSC'', ''DSC_NC'', ''CRL''} \<Longrightarrow> books_ok res \<Longrightarrow> books_ok (fst (add_certs E ty dry rid cs (res, st)))"
proof (induction cs arbitrary: res st)
  case (Cons c cs)
  obtain err s1 where a: "add_one_cert E dry c st = (err, s1)" by force
  show ?case using Cons.IH [OF Cons.prems(1) books_account [OF Cons.prems]] by (simp add: a Let_def)
qed simp

lemma books_add_crls: "books_ok res \<Longrightarrow> books_ok (fst (add_crls E dry rid cs (res, st)))"
proof (induction cs arbitrary: res st)
  case (Cons c cs)
  obtain err s1 where a: "add_one_crl E dry c st = (err, s1)" by force
  have b: "books_ok (account ''CRL'' (cl_countryCode c) (cl_issuerDn c) err res)"
    using Cons.prems by (intro books_account) simp_all
  show ?case using Cons.IH [OF b] by (simp add: a Let_def)
qed simp

lemma books_stages:
  assumes "books_ok res"
  shows "books_ok (fst (stages E dry rid (res, st)))"
proof -
  have p: "books_ok r \<Longrightarrow> ty \<in> {''CSCA'', ''DSC'', ''DSC_NC'', ''CRL''} \<Longrightarrow> books_ok (fst (processCertificateType E ty dry rid (r, s)))" for r ty s
    by (simp add: processCertificateType_def case_prod_beta Let_def books_add_certs)
  have c: "books_ok r \<Longrightarrow> books_ok (fst (processCrls E dry rid (r, s)))" for r s
    by (simp add: processCrls_def case_prod_beta Let_def books_add_crls)
  obtain r1 s1 where a: "processCertificateType E ''CSCA'' dry rid (res, st) = (r1, s1)" by force
  obtain r2 s2 where b: "processCertificateType E ''DSC'' dry rid (r1, s1) = (r2, s2)" by force
  have "books_ok r1" using p [OF assms, of "''CSCA''" st] a by simp
  then have "books_ok r2" using p [of r1 "''DSC''" s1] b by simp
  then show ?thesis unfolding stages_def a b by (rule c)
qed

text \<open>The result of a run adds up, whatever fails: every processed item is a success or a recorded
  failure, every success is counted under its type, and the status is \<^verbatim>\<open>COMPLETED\<close> without
  failures, \<^verbatim>\<open>PARTIAL\<close> with some, and \<^verbatim>\<open>FAILED\<close> when nothing succeeded but
  something failed or the run could not start.\<close>

theorem reconciliation_accounting:
  assumes "performReconciliation E dryRun triggeredBy sid st = (res, st')"
  shows "rr_totalProcessed res = rr_successCount res + rr_failedCount res
    \<and> rr_successCount res = rr_cscaAdded res + rr_dscAdded res + rr_dscNcAdded res + rr_crlAdded res
    \<and> rr_failedCount res = int (length (rr_failures res))
    \<and> rr_success res = (starts E \<and> rr_failures res = [])
    \<and> rr_status res = (if \<not> starts E \<or> rr_failures res \<noteq> [] \<and> rr_successCount res = 0 then ''FAILED''
         else if rr_failures res = [] then ''COMPLETED'' else ''PARTIAL'')"
proof (rule perform_stages [of E triggeredBy dryRun sid st])
  fix rid s1
  assume run: "starts E \<Longrightarrow> performReconciliation E dryRun triggeredBy sid st =
       (conclude E (fst (stages E dryRun rid (recon_result0\<lparr>rr_status := ''COMPLETED''\<rparr>, s1))),
        updateReconciliationSummary E rid (conclude E (fst (stages E dryRun rid (recon_result0\<lparr>rr_status := ''COMPLETED''\<rparr>, s1))))
          (snd (stages E dryRun rid (recon_result0\<lparr>rr_status := ''COMPLETED''\<rparr>, s1))))"
  have b0: "books_ok (recon_result0\<lparr>rr_status := ''COMPLETED''\<rparr>)" by (simp add: books_ok_def recon_result0_def)
  show ?thesis
  proof (cases "starts E")
    case True
    define r where "r = fst (stages E dryRun rid (recon_result0\<lparr>rr_status := ''COMPLETED''\<rparr>, s1))"
    have "books_ok r" unfolding r_def by (rule books_stages [OF b0])
    moreover have "res = conclude E r" using assms run [OF True] by (simp add: r_def)
    ultimately show ?thesis using True by (auto simp: books_ok_def conclude_def Let_def)
  next
    case False
    then have "res = fst (performReconciliation E dryRun triggeredBy sid st)" "\<not> starts E" using assms by simp_all
    then show ?thesis
      by (auto simp: performReconciliation_def starts_def recon_result0_def createReconciliationSummary_def
          int_dec_def Let_def split: option.splits)
  qed
qed

section \<open>Dry runs\<close>

definition same_content :: "('d \<Rightarrow> string \<Rightarrow> ldap_attrs option) \<Rightarrow> 'd recon_state \<Rightarrow> 'd recon_state \<Rightarrow> bool" where
  "same_content ents st st' = (ents (rn_dir st') = ents (rn_dir st) \<and> rn_certs st' = rn_certs st \<and> rn_crls st' = rn_crls st)"

lemma same_log: "same_content ents st (logReconciliationOperation E rid op ty c s e ms st)"
  by (simp add: same_content_def logReconciliationOperation_def)

lemma same_trans: "same_content ents a b \<Longrightarrow> same_content ents b c \<Longrightarrow> same_content ents a c"
  by (simp add: same_content_def)

lemma dry_add_certs: "same_content ents st (snd (add_certs E ty True rid cs (res, st)))"
proof (induction cs arbitrary: res st)
  case (Cons c cs)
  have a: "add_one_cert E True c st = (None, st)" by (simp add: add_one_cert_def)
  show ?case
  proof (cases "rid = []")
    case True
    then show ?thesis using Cons.IH by (simp add: a Let_def)
  next
    case False
    then show ?thesis using same_trans [OF same_log Cons.IH] by (simp add: a Let_def)
  qed
qed (simp add: same_content_def)

lemma dry_add_crls: "same_content ents st (snd (add_crls E True rid cs (res, st)))"
proof (induction cs arbitrary: res st)
  case (Cons c cs)
  have a: "add_one_crl E True c st = (None, st)" by (simp add: add_one_crl_def)
  show ?case using same_trans [OF same_log Cons.IH] by (simp add: a Let_def)
qed (simp add: same_content_def)

lemma dry_stages:
  assumes "ldap_laws (re_server E) ents"
  shows "same_content ents st (snd (stages E True rid (res, st)))"
proof -
  have p: "same_content ents s (snd (processCertificateType E ty True rid (r, s)))" for r s ty
  proof -
    obtain cs s1 where f: "findMissingInLdap E ty (rc_maxReconcileBatchSize (re_cfg E)) s = (cs, s1)" by force
    then have "same_content ents s s1" using find_certs_result [OF assms f] by (auto simp: same_content_def)
    then show ?thesis using same_trans [OF _ dry_add_certs] by (simp add: processCertificateType_def f)
  qed
  have c: "same_content ents s (snd (processCrls E True rid (r, s)))" for r s
  proof -
    obtain cs s1 where f: "findMissingCrlsInLdap E (rc_maxReconcileBatchSize (re_cfg E)) s = (cs, s1)" by force
    then have "same_content ents s s1" using find_crls_result [OF assms f] by (auto simp: same_content_def)
    then show ?thesis using same_trans [OF _ dry_add_crls] by (simp add: processCrls_def f)
  qed
  obtain r1 s1 where a: "processCertificateType E ''CSCA'' True rid (res, st) = (r1, s1)" by force
  obtain r2 s2 where b: "processCertificateType E ''DSC'' True rid (r1, s1) = (r2, s2)" by force
  have "same_content ents st s1" using p [of st "''CSCA''" res] a by simp
  moreover have "same_content ents s1 s2" using p [of s1 "''DSC''" r1] b by simp
  ultimately show ?thesis unfolding stages_def a b using c [of s2 r2] by (blast intro: same_trans)
qed

text \<open>A dry run changes neither the directory nor the tables; it writes only its log and summary.\<close>

theorem dry_run_changes_nothing:
  assumes "ldap_laws (re_server E) ents"
  shows "same_content ents st (snd (performReconciliation E True triggeredBy sid st))"
proof (rule perform_stages [of E triggeredBy True sid st])
  fix rid s1
  assume c: "createReconciliationSummary E triggeredBy True sid st = (rid, s1)"
    and run: "starts E \<Longrightarrow> performReconciliation E True triggeredBy sid st =
       (conclude E (fst (stages E True rid (recon_result0\<lparr>rr_status := ''COMPLETED''\<rparr>, s1))),
        updateReconciliationSummary E rid (conclude E (fst (stages E True rid (recon_result0\<lparr>rr_status := ''COMPLETED''\<rparr>, s1))))
          (snd (stages E True rid (recon_result0\<lparr>rr_status := ''COMPLETED''\<rparr>, s1))))"
    and no: "\<not> starts E \<Longrightarrow> snd (performReconciliation E True triggeredBy sid st) = s1
       \<and> \<not> rr_success (fst (performReconciliation E True triggeredBy sid st))
       \<and> rr_status (fst (performReconciliation E True triggeredBy sid st)) = ''FAILED''
       \<and> rr_totalProcessed (fst (performReconciliation E True triggeredBy sid st)) = 0"
  have s1: "same_content ents st s1" using createSummary_moves [OF c] by (auto simp: same_content_def)
  have u: "same_content ents s (updateReconciliationSummary E i r s)" for s i r
    by (simp add: same_content_def updateReconciliationSummary_def)
  show ?thesis
  proof (cases "starts E")
    case True
    show ?thesis unfolding run [OF True] snd_conv
      by (rule same_trans [OF s1 same_trans [OF dry_stages [OF assms] u]])
  next
    case False
    then show ?thesis using no s1 by simp
  qed
qed

section \<open>Refinement: what a run without faults does\<close>

text \<open>The engine promises this of the set of names in the directory and of the two tables: of each
  kind, the unflagged rows of one batch whose entry is absent get their entry and their flag.\<close>

record sync_view =
  sv_present :: "string set"
  sv_certs :: "cert_row list"
  sv_crls :: "crl_row list"

definition view :: "('d \<Rightarrow> string \<Rightarrow> ldap_attrs option) \<Rightarrow> 'd recon_state \<Rightarrow> sync_view" where
  "view ents st = \<lparr>sv_present = present ents (rn_dir st), sv_certs = rn_certs st, sv_crls = rn_crls st\<rparr>"

definition row_type :: "cert_row \<Rightarrow> string" where
  "row_type r = the (effective_type r)"

definition entry_dn :: "relay_config \<Rightarrow> cert_row \<Rightarrow> string" where
  "entry_dn cfg r = c_str (buildDn cfg (row_type r) (cr_country r) (cr_fingerprint r))"

definition missing_certs :: "relay_config \<Rightarrow> string \<Rightarrow> sync_view \<Rightarrow> cert_row list" where
  "missing_certs cfg ty V = filter (\<lambda>r. entry_dn cfg r \<notin> sv_present V)
     (select_certs ty (rc_maxReconcileBatchSize cfg) (sv_certs V))"

definition missing_crls :: "relay_config \<Rightarrow> sync_view \<Rightarrow> crl_row list" where
  "missing_crls cfg V = filter (\<lambda>r. crl_dn cfg r \<notin> sv_present V)
     (select_crls (rc_maxReconcileBatchSize cfg) (sv_crls V))"

definition spec_certs :: "relay_config \<Rightarrow> string \<Rightarrow> sync_view \<Rightarrow> sync_view" where
  "spec_certs cfg ty V = (let M = set (missing_certs cfg ty V) in V\<lparr>
     sv_present := sv_present V \<union> (\<Union>r \<in> M. insert (entry_dn cfg r) (containers cfg (row_type r) (cr_country r))),
     sv_certs := map (\<lambda>r. if r \<in> M then r\<lparr>cr_stored := True\<rparr> else r) (sv_certs V)\<rparr>)"

definition spec_crls :: "relay_config \<Rightarrow> sync_view \<Rightarrow> sync_view" where
  "spec_crls cfg V = (let M = set (missing_crls cfg V) in V\<lparr>
     sv_present := sv_present V \<union> (\<Union>r \<in> M. insert (crl_dn cfg r) (containers cfg ''CRL'' (lr_country r))),
     sv_crls := map (\<lambda>r. if r \<in> M then r\<lparr>lr_stored := True\<rparr> else r) (sv_crls V)\<rparr>)"

definition recon_spec :: "relay_config \<Rightarrow> sync_view \<Rightarrow> sync_view" where
  "recon_spec cfg V = spec_crls cfg (spec_certs cfg ''DSC'' (spec_certs cfg ''CSCA'' V))"

definition recon_count :: "relay_config \<Rightarrow> sync_view \<Rightarrow> nat" where
  "recon_count cfg V = length (missing_certs cfg ''CSCA'' V)
     + length (missing_certs cfg ''DSC'' (spec_certs cfg ''CSCA'' V))
     + length (missing_crls cfg (spec_certs cfg ''DSC'' (spec_certs cfg ''CSCA'' V)))"

text \<open>No fault: every answer of the directory is the right one, and no statement fails.\<close>

definition quiet :: "'d recon_env \<Rightarrow> ('d \<Rightarrow> string \<Rightarrow> ldap_attrs option) \<Rightarrow> bool" where
  "quiet E ents = (ldap_up (re_server E) ents \<and> starts E \<and> (\<forall>s. re_acquire E s \<and> \<not> re_selectFails E s \<and> \<not> re_markFails E s))"

text \<open>Every CSCA row has a value for \<^verbatim>\<open>is_self_signed\<close> that \<^verbatim>\<open>asBool\<close> accepts.\<close>

definition readable :: "'d recon_state \<Rightarrow> bool" where
  "readable st = (\<forall>r \<in> set (rn_certs st). effective_type r \<noteq> None)"

lemma readable_tables: "readable st \<longleftrightarrow> (\<forall>r \<in> set (fst (tables st)). effective_type r \<noteq> None)"
  by (simp add: readable_def tables_def)

lemma scan_certs_up:
  assumes "ldap_up (re_server E) ents"
  shows "length acc + length rs \<le> nat limit \<Longrightarrow> \<forall>r \<in> set rs. effective_type r \<noteq> None \<Longrightarrow>
    \<exists>d'. scan_certs E limit rs acc d = (acc @ map (\<lambda>r. info_of_row (re_cfg E) r (row_type r))
        (filter (\<lambda>r. entry_dn (re_cfg E) r \<notin> present ents d) rs), d') \<and> ents d' = ents d"
proof (induction rs arbitrary: acc d)
  case (Cons r rs)
  obtain ty where ty: "effective_type r = Some ty" using Cons.prems by auto
  let ?c = "info_of_row (re_cfg E) r ty"
  have dn: "c_str (ci_ldapDn ?c) = entry_dn (re_cfg E) r"
    by (simp add: info_of_row_def entry_dn_def row_type_def ty)
  obtain d1 where s: "ls_search (re_server E) d (c_str (ci_ldapDn ?c))
      = (if entry_dn (re_cfg E) r \<in> present ents d then LDAP_SUCCESS else LDAP_NO_SUCH_OBJECT, d1)" "ents d1 = ents d"
    using up_search [OF assms, of d "c_str (ci_ldapDn ?c)"] unfolding dn by blast
  have t: "row_type r = ty" by (simp add: row_type_def ty)
  show ?case
  proof (cases "entry_dn (re_cfg E) r \<in> present ents d")
    case True
    then show ?thesis using Cons.IH [of acc d1] Cons.prems s by (simp add: ty Let_def t)
  next
    case False
    show ?thesis
    proof (cases "nat limit \<le> Suc (length acc)")
      case full: True
      then have "rs = []" using Cons.prems(1) by (cases rs) auto
      then show ?thesis using s False full by (simp add: ty t Let_def)
    next
      case more: False
      then show ?thesis using Cons.IH [of "acc @ [?c]" d1] Cons.prems s False by (simp add: ty t Let_def)
    qed
  qed
qed simp

lemma scan_crls_up:
  assumes "ldap_up (re_server E) ents"
  shows "length acc + length rs \<le> nat limit \<Longrightarrow>
    \<exists>d'. scan_crls E limit rs acc d = (acc @ map (info_of_crl (re_cfg E))
        (filter (\<lambda>r. crl_dn (re_cfg E) r \<notin> present ents d) rs), d') \<and> ents d' = ents d"
proof (induction rs arbitrary: acc d)
  case (Cons r rs)
  let ?c = "info_of_crl (re_cfg E) r"
  have dn: "c_str (cl_ldapDn ?c) = crl_dn (re_cfg E) r" by (simp add: info_of_crl_def crl_dn_def)
  obtain d1 where s: "ls_search (re_server E) d (c_str (cl_ldapDn ?c))
      = (if crl_dn (re_cfg E) r \<in> present ents d then LDAP_SUCCESS else LDAP_NO_SUCH_OBJECT, d1)" "ents d1 = ents d"
    using up_search [OF assms, of d "c_str (cl_ldapDn ?c)"] unfolding dn by blast
  show ?case
  proof (cases "crl_dn (re_cfg E) r \<in> present ents d")
    case True
    then show ?thesis using Cons.IH [of acc d1] Cons.prems s by (simp add: Let_def)
  next
    case False
    show ?thesis
    proof (cases "nat limit \<le> Suc (length acc)")
      case full: True
      then have "rs = []" using Cons.prems(1) by (cases rs) auto
      then show ?thesis using s False full by (simp add: Let_def)
    next
      case more: False
      then show ?thesis using Cons.IH [of "acc @ [?c]" d1] Cons.prems s False by (simp add: Let_def)
    qed
  qed
qed simp

text \<open>How the bookkeeping changes when \<open>n\<close> operations succeed.\<close>

definition all_good :: "nat \<Rightarrow> recon_result \<Rightarrow> recon_result \<Rightarrow> bool" where
  "all_good n res res' = (rr_totalProcessed res' = rr_totalProcessed res + int n \<and> rr_failedCount res' = rr_failedCount res
     \<and> rr_status res' = rr_status res)"

lemma all_good_account: "all_good 1 res (account ty country subject None res)"
  by (simp add: all_good_def account_def Let_def)

lemma all_good_trans: "all_good m a b \<Longrightarrow> all_good n b c \<Longrightarrow> all_good (m + n) a c"
  by (simp add: all_good_def)

text \<open>The state after adding the rows \<open>M\<close>.\<close>

definition certs_added :: "('d \<Rightarrow> string \<Rightarrow> ldap_attrs option) \<Rightarrow> relay_config \<Rightarrow> cert_row set \<Rightarrow> 'd recon_state \<Rightarrow> 'd recon_state \<Rightarrow> bool" where
  "certs_added ents cfg M st st' =
     (present ents (rn_dir st') = present ents (rn_dir st)
        \<union> (\<Union>r \<in> M. insert (entry_dn cfg r) (containers cfg (row_type r) (cr_country r)))
      \<and> rn_certs st' = map (\<lambda>r. if cr_id r \<in> cr_id ` M then r\<lparr>cr_stored := True\<rparr> else r) (rn_certs st)
      \<and> rn_crls st' = rn_crls st)"

lemma certs_added_step:
  assumes "certs_added ents cfg {r} st s1" "certs_added ents cfg M s1 s2"
  shows "certs_added ents cfg (insert r M) st s2"
  using assms by (auto simp: certs_added_def)

definition crls_added :: "('d \<Rightarrow> string \<Rightarrow> ldap_attrs option) \<Rightarrow> relay_config \<Rightarrow> crl_row set \<Rightarrow> 'd recon_state \<Rightarrow> 'd recon_state \<Rightarrow> bool" where
  "crls_added ents cfg M st st' =
     (present ents (rn_dir st') = present ents (rn_dir st)
        \<union> (\<Union>r \<in> M. insert (crl_dn cfg r) (containers cfg ''CRL'' (lr_country r)))
      \<and> rn_crls st' = map (\<lambda>r. if lr_id r \<in> lr_id ` M then r\<lparr>lr_stored := True\<rparr> else r) (rn_crls st)
      \<and> rn_certs st' = rn_certs st)"

lemma crls_added_step:
  assumes "crls_added ents cfg {r} st s1" "crls_added ents cfg M s1 s2"
  shows "crls_added ents cfg (insert r M) st s2"
  using assms by (auto simp: crls_added_def)

lemma quiet_facts:
  assumes "quiet E ents"
  shows "ldap_up (re_server E) ents" "ldap_laws (re_server E) ents" "starts E" "re_acquire E s"
    "\<not> re_selectFails E s" "\<not> re_markFails E s"
  using assms by (auto simp: quiet_def ldap_up_def)

lemma add_one_cert_up:
  assumes "quiet E ents" "row_type r \<in> cert_types"
  shows "\<exists>s1. add_one_cert E False (info_of_row (re_cfg E) r (row_type r)) st = (None, s1)
    \<and> certs_added ents (re_cfg E) {r} st s1"
proof -
  let ?c = "info_of_row (re_cfg E) r (row_type r)"
  have c: "ci_certType ?c = row_type r" "ci_countryCode ?c = cr_country r" "target_dn (re_cfg E) ?c = entry_dn (re_cfg E) r"
    by (auto simp: info_of_row_def entry_dn_def target_dn_def)
  obtain d' where "addCertificate (re_server E) (re_cfg E) (rn_dir st) ?c = (None, d')"
    "present ents d' = present ents (rn_dir st) \<union> containers (re_cfg E) (row_type r) (cr_country r) \<union> {entry_dn (re_cfg E) r}"
    using up_addCertificate [where c = ?c and cfg = "re_cfg E" and d = "rn_dir st", OF quiet_facts(1) [OF assms(1)], unfolded c, OF assms(2)] by blast
  then show ?thesis using quiet_facts(6) [OF assms(1)]
    by (simp add: add_one_cert_def certs_added_def markAsStoredInLdap_def Un_commute)
qed

lemma add_one_crl_up:
  assumes "quiet E ents"
  shows "\<exists>s1. add_one_crl E False (info_of_crl (re_cfg E) r) st = (None, s1) \<and> crls_added ents (re_cfg E) {r} st s1"
proof -
  let ?c = "info_of_crl (re_cfg E) r"
  have c: "cl_countryCode ?c = lr_country r" by (simp add: info_of_crl_def)
  obtain d' where "addCrl (re_server E) (re_cfg E) (rn_dir st) ?c = (None, d')"
    "present ents d' = present ents (rn_dir st) \<union> containers (re_cfg E) ''CRL'' (lr_country r) \<union> {crl_dn (re_cfg E) r}"
    using up_addCrl [where c = ?c and cfg = "re_cfg E" and d = "rn_dir st", OF quiet_facts(1) [OF assms(1)], unfolded c target_info] by blast
  then show ?thesis using quiet_facts(6) [OF assms(1)]
    by (simp add: add_one_crl_def crls_added_def markCrlAsStoredInLdap_def Un_commute)
qed

lemma added_log [simp]:
  "certs_added ents cfg M st (logReconciliationOperation E rid op ty c s e ms st') = certs_added ents cfg M st st'"
  "crls_added ents cfg N st (logReconciliationOperation E rid op ty c s e ms st') = crls_added ents cfg N st st'"
  by (simp_all add: certs_added_def crls_added_def logReconciliationOperation_def)

lemma add_certs_up:
  assumes "quiet E ents"
  shows "\<forall>r \<in> set M. row_type r \<in> cert_types \<Longrightarrow>
    \<exists>res' st'. add_certs E ty False rid (map (\<lambda>r. info_of_row (re_cfg E) r (row_type r)) M) (res, st) = (res', st')
      \<and> all_good (length M) res res' \<and> certs_added ents (re_cfg E) (set M) st st'"
proof (induction M arbitrary: res st)
  case Nil
  then show ?case by (simp add: all_good_def certs_added_def)
next
  case (Cons r M)
  let ?c = "info_of_row (re_cfg E) r (row_type r)"
  obtain s1 where a: "add_one_cert E False ?c st = (None, s1)" "certs_added ents (re_cfg E) {r} st s1"
    using add_one_cert_up [OF assms bspec [OF Cons.prems list.set_intros(1)]] by blast
  define s2 where "s2 = (if rid \<noteq> [] then logReconciliationOperation E rid ''ADD'' ty ?c (status_text None)
    (error_text None) (re_opMs E (ci_id ?c)) s1 else s1)"
  have a2: "certs_added ents (re_cfg E) {r} st s2" using a(2) by (simp add: s2_def)
  define r2 where "r2 = account ty (ci_countryCode ?c) (ci_subject ?c) None res"
  obtain res' st' where i: "add_certs E ty False rid (map (\<lambda>r. info_of_row (re_cfg E) r (row_type r)) M) (r2, s2) = (res', st')"
    "all_good (length M) r2 res'" "certs_added ents (re_cfg E) (set M) s2 st'"
    using Cons.IH [of r2 s2] Cons.prems by auto
  have "add_certs E ty False rid (map (\<lambda>r. info_of_row (re_cfg E) r (row_type r)) (r # M)) (res, st) = (res', st')"
    unfolding list.map add_certs.simps a(1) Let_def prod.case s2_def [symmetric] r2_def [symmetric] by (rule i(1))
  then show ?case
    using all_good_trans [OF all_good_account i(2) [unfolded r2_def]] certs_added_step [OF a2 i(3)] by auto
qed

lemma add_crls_up:
  assumes "quiet E ents"
  shows "\<exists>res' st'. add_crls E False rid (map (info_of_crl (re_cfg E)) M) (res, st) = (res', st')
      \<and> all_good (length M) res res' \<and> crls_added ents (re_cfg E) (set M) st st'"
proof (induction M arbitrary: res st)
  case Nil
  then show ?case by (simp add: all_good_def crls_added_def)
next
  case (Cons r M)
  let ?c = "info_of_crl (re_cfg E) r"
  obtain s1 where a: "add_one_crl E False ?c st = (None, s1)" "crls_added ents (re_cfg E) {r} st s1"
    using add_one_crl_up [OF assms] by blast
  define s2 where "s2 = logReconciliationOperation E rid ''ADD'' ''CRL'' (crl_as_info ?c) (status_text None)
    (error_text None) (re_opMs E (cl_id ?c)) s1"
  have a2: "crls_added ents (re_cfg E) {r} st s2" using a(2) by (simp add: s2_def)
  define r2 where "r2 = account ''CRL'' (cl_countryCode ?c) (cl_issuerDn ?c) None res"
  obtain res' st' where i: "add_crls E False rid (map (info_of_crl (re_cfg E)) M) (r2, s2) = (res', st')"
    "all_good (length M) r2 res'" "crls_added ents (re_cfg E) (set M) s2 st'"
    using Cons.IH [of r2 s2] by auto
  have "add_crls E False rid (map (info_of_crl (re_cfg E)) (r # M)) (res, st) = (res', st')"
    unfolding list.map add_crls.simps a(1) Let_def prod.case s2_def [symmetric] r2_def [symmetric] by (rule i(1))
  then show ?case
    using all_good_trans [OF all_good_account i(2) [unfolded r2_def]] crls_added_step [OF a2 i(3)] by auto
qed

text \<open>Marking by id is marking the rows themselves, since ids are unique.\<close>

lemma mark_by_id:
  assumes "distinct (map f xs)" "M \<subseteq> set xs"
  shows "map (\<lambda>r. if f r \<in> f ` M then g r else r) xs = map (\<lambda>r. if r \<in> M then g r else r) xs"
proof (rule map_cong [OF refl])
  fix r assume "r \<in> set xs"
  then have "f r \<in> f ` M \<longleftrightarrow> r \<in> M" using assms key_unique [OF assms(1)] by blast
  then show "(if f r \<in> f ` M then g r else r) = (if r \<in> M then g r else r)" by simp
qed

lemma effective_type_cases:
  "effective_type r = Some ty \<Longrightarrow> ty = cr_type r \<or> ty = ''LC''"
  by (auto simp: effective_type_def Let_def split: if_splits option.splits)

lemma selected_type:
  assumes "readable st" "r \<in> set (select_certs ty limit (rn_certs st))" "ty \<in> {''CSCA'', ''DSC''}"
  shows "row_type r \<in> cert_types"
proof -
  have r: "r \<in> set (rn_certs st)" "cr_type r = ty"
    using assms(2) by (auto simp: select_certs_def dest: in_set_takeD)
  obtain u where u: "effective_type r = Some u" using assms(1) r(1) by (auto simp: readable_def)
  show ?thesis using effective_type_cases [OF u] r(2) assms(3) by (auto simp: row_type_def u)
qed

lemma process_certs_up:
  assumes "quiet E ents" "readable st" "ids_unique st" "ty \<in> {''CSCA'', ''DSC''}"
  shows "\<exists>res' st'. processCertificateType E ty False rid (res, st) = (res', st')
    \<and> all_good (length (missing_certs (re_cfg E) ty (view ents st))) res res'
    \<and> view ents st' = spec_certs (re_cfg E) ty (view ents st) \<and> tables st' = tables st"
proof -
  let ?n = "rc_maxReconcileBatchSize (re_cfg E)"
  let ?M = "missing_certs (re_cfg E) ty (view ents st)"
  let ?rows = "select_certs ty ?n (rn_certs st)"
  note q = quiet_facts [OF assms(1)]
  have rows: "\<forall>r \<in> set ?rows. effective_type r \<noteq> None" "length ?rows \<le> nat ?n"
    using assms(2) by (auto simp: select_certs_def readable_def dest: in_set_takeD)
  obtain d where sc: "scan_certs E ?n ?rows [] (rn_dir st) = (map (\<lambda>r. info_of_row (re_cfg E) r (row_type r)) ?M, d)"
    "ents d = ents (rn_dir st)"
    using scan_certs_up [OF q(1), of "[]" ?rows ?n "rn_dir st"] rows by (auto simp: missing_certs_def view_def)
  have f: "findMissingInLdap E ty ?n st
      = (map (\<lambda>r. info_of_row (re_cfg E) r (row_type r)) ?M, if ?rows = [] then st else st\<lparr>rn_dir := d\<rparr>)"
    using sc q by (simp add: findMissingInLdap_def missing_certs_def view_def)
  define s1 where "s1 = (if ?rows = [] then st else st\<lparr>rn_dir := d\<rparr>)"
  have "\<forall>r \<in> set ?M. row_type r \<in> cert_types"
    using selected_type [OF assms(2) _ assms(4)] by (auto simp: missing_certs_def view_def)
  then obtain res' st' where a: "add_certs E ty False rid (map (\<lambda>r. info_of_row (re_cfg E) r (row_type r)) ?M) (res, s1) = (res', st')"
    "all_good (length ?M) res res'" "certs_added ents (re_cfg E) (set ?M) s1 st'"
    using add_certs_up [OF assms(1), of ?M ty rid res s1] by blast
  have p: "processCertificateType E ty False rid (res, st) = (res', st')"
    unfolding processCertificateType_def prod.case f s1_def [symmetric] Let_def by (rule a(1))
  have sub: "set ?M \<subseteq> set (rn_certs st)" by (auto simp: missing_certs_def view_def select_certs_def dest: in_set_takeD)
  have s1: "present ents (rn_dir s1) = present ents (rn_dir st)" "rn_certs s1 = rn_certs st" "rn_crls s1 = rn_crls st"
    using sc(2) by (simp_all add: s1_def)
  have "distinct (map cr_id (rn_certs st))" using assms(3) by (simp add: ids_unique_def)
  note mk = mark_by_id [OF this sub, where g = "\<lambda>r. r\<lparr>cr_stored := True\<rparr>"]
  have "view ents st' = spec_certs (re_cfg E) ty (view ents st)"
    using a(3) unfolding certs_added_def s1 mk by (simp add: spec_certs_def Let_def view_def)
  moreover have "tables st' = tables st"
    using moves_tables [OF process_certs_moves [OF q(2), of st ty False rid res]] p by simp
  ultimately show ?thesis using p a(2) by blast
qed

lemma process_crls_up:
  assumes "quiet E ents" "ids_unique st"
  shows "\<exists>res' st'. processCrls E False rid (res, st) = (res', st')
    \<and> all_good (length (missing_crls (re_cfg E) (view ents st))) res res'
    \<and> view ents st' = spec_crls (re_cfg E) (view ents st)"
proof -
  let ?n = "rc_maxReconcileBatchSize (re_cfg E)"
  let ?M = "missing_crls (re_cfg E) (view ents st)"
  let ?rows = "select_crls ?n (rn_crls st)"
  note q = quiet_facts [OF assms(1)]
  obtain d where sc: "scan_crls E ?n ?rows [] (rn_dir st) = (map (info_of_crl (re_cfg E)) ?M, d)"
    "ents d = ents (rn_dir st)"
    using scan_crls_up [OF q(1), of "[]" ?rows ?n "rn_dir st"] by (auto simp: missing_crls_def view_def select_crls_def)
  have f: "findMissingCrlsInLdap E ?n st
      = (map (info_of_crl (re_cfg E)) ?M, if ?rows = [] then st else st\<lparr>rn_dir := d\<rparr>)"
    using sc q by (simp add: findMissingCrlsInLdap_def missing_crls_def view_def)
  define s1 where "s1 = (if ?rows = [] then st else st\<lparr>rn_dir := d\<rparr>)"
  obtain res' st' where a: "add_crls E False rid (map (info_of_crl (re_cfg E)) ?M) (res, s1) = (res', st')"
    "all_good (length ?M) res res'" "crls_added ents (re_cfg E) (set ?M) s1 st'"
    using add_crls_up [OF assms(1), of rid ?M res s1] by blast
  have p: "processCrls E False rid (res, st) = (res', st')"
    unfolding processCrls_def prod.case f s1_def [symmetric] Let_def by (rule a(1))
  have sub: "set ?M \<subseteq> set (rn_crls st)" by (auto simp: missing_crls_def view_def select_crls_def dest: in_set_takeD)
  have s1: "present ents (rn_dir s1) = present ents (rn_dir st)" "rn_certs s1 = rn_certs st" "rn_crls s1 = rn_crls st"
    using sc(2) by (simp_all add: s1_def)
  have "distinct (map lr_id (rn_crls st))" using assms(2) by (simp add: ids_unique_def)
  note mk = mark_by_id [OF this sub, where g = "\<lambda>r. r\<lparr>lr_stored := True\<rparr>"]
  have "view ents st' = spec_crls (re_cfg E) (view ents st)"
    using a(3) unfolding crls_added_def s1 mk by (simp add: spec_crls_def Let_def view_def)
  then show ?thesis using p a(2) by blast
qed

lemma run_up:
  assumes "quiet E ents" "readable st" "ids_unique st"
  shows "\<exists>res st'. performReconciliation E False by sid st = (res, st') \<and> view ents st' = recon_spec (re_cfg E) (view ents st)
    \<and> rr_success res \<and> rr_status res = ''COMPLETED'' \<and> rr_totalProcessed res = int (recon_count (re_cfg E) (view ents st))
    \<and> tables st' = tables st"
proof (rule perform_stages [of E "by" False sid st])
  fix rid s0
  let ?r0 = "recon_result0\<lparr>rr_status := ''COMPLETED''\<rparr>"
  assume c: "createReconciliationSummary E by False sid st = (rid, s0)"
    and run: "starts E \<Longrightarrow> performReconciliation E False by sid st =
       (conclude E (fst (stages E False rid (?r0, s0))),
        updateReconciliationSummary E rid (conclude E (fst (stages E False rid (?r0, s0)))) (snd (stages E False rid (?r0, s0))))"
  obtain l where s0: "s0 = st\<lparr>rn_summaries := l\<rparr>" using createSummary_moves [OF c] by blast
  have v0: "view ents s0 = view ents st" "tables s0 = tables st" by (simp_all add: s0 view_def tables_def)
  have ok: "readable s \<and> ids_unique s" if "tables s = tables st" for s
    using that assms(2,3) by (simp add: readable_tables ids_unique_tables)
  obtain r1 s1 where 1: "processCertificateType E ''CSCA'' False rid (?r0, s0) = (r1, s1)"
    "all_good (length (missing_certs (re_cfg E) ''CSCA'' (view ents st))) ?r0 r1"
    "view ents s1 = spec_certs (re_cfg E) ''CSCA'' (view ents st)" "tables s1 = tables st"
    using process_certs_up [of E ents s0 "''CSCA''" rid ?r0] assms(1) ok [OF v0(2)] v0 by auto
  obtain r2 s2 where 2: "processCertificateType E ''DSC'' False rid (r1, s1) = (r2, s2)"
    "all_good (length (missing_certs (re_cfg E) ''DSC'' (view ents s1))) r1 r2"
    "view ents s2 = spec_certs (re_cfg E) ''DSC'' (view ents s1)" "tables s2 = tables st"
    using process_certs_up [of E ents s1 "''DSC''" rid r1] assms(1) ok [OF 1(4)] 1(4) by auto
  obtain r3 s3 where 3: "processCrls E False rid (r2, s2) = (r3, s3)"
    "all_good (length (missing_crls (re_cfg E) (view ents s2))) r2 r3" "view ents s3 = spec_crls (re_cfg E) (view ents s2)"
    using process_crls_up [of E ents s2 rid r2] assms(1) ok [OF 2(4)] by auto
  have st: "stages E False rid (?r0, s0) = (r3, s3)" by (simp add: stages_def 1 2 3)
  have t: "rr_totalProcessed r3 = int (recon_count (re_cfg E) (view ents st))" "rr_failedCount r3 = 0" "rr_status r3 = ''COMPLETED''"
    using 1(2) 2(2) 3(2) unfolding 1(3) 2(3) by (simp_all add: all_good_def recon_count_def recon_result0_def)
  have u: "view ents (updateReconciliationSummary E rid x s3) = view ents s3" for x
    by (simp add: view_def updateReconciliationSummary_def)
  have "tables (snd (performReconciliation E False by sid st)) = tables st"
    by (rule moves_tables [OF perform_moves [OF quiet_facts(2) [OF assms(1)]]])
  then show ?thesis
    using t 3(3) u unfolding run [OF quiet_facts(3) [OF assms(1)]] st
    by (simp add: conclude_def recon_spec_def 1(3) 2(3))
qed

text \<open>C6. Refinement: without faults, a run takes the directory and the two tables to what
  \<^term>\<open>recon_spec\<close> says (each missing entry of the batches is added with its containers, and exactly
  the rows that were added get their flag), and reports success and the number of entries added.\<close>

theorem reconciliation_refines:
  assumes "quiet E ents" and "readable st" and "ids_unique st"
    and "performReconciliation E False triggeredBy sid st = (res, st')"
  shows "view ents st' = recon_spec (re_cfg E) (view ents st) \<and> rr_success res \<and> rr_status res = ''COMPLETED''
    \<and> rr_totalProcessed res = int (recon_count (re_cfg E) (view ents st))"
  using run_up [OF assms(1-3), of triggeredBy sid] assms(4) by auto

section \<open>Complete when the batch is large enough\<close>

definition pending_fit :: "relay_config \<Rightarrow> sync_view \<Rightarrow> bool" where
  "pending_fit cfg V = (let n = nat (rc_maxReconcileBatchSize cfg) in
     length (filter (\<lambda>r. cr_type r = ''CSCA'' \<and> \<not> cr_stored r) (sv_certs V)) \<le> n
     \<and> length (filter (\<lambda>r. cr_type r = ''DSC'' \<and> \<not> cr_stored r) (sv_certs V)) \<le> n
     \<and> length (filter (\<lambda>r. \<not> lr_stored r) (sv_crls V)) \<le> n)"

text \<open>A set of names that holds the entry of every row that counts.\<close>

definition certs_covered :: "relay_config \<Rightarrow> string set \<Rightarrow> sync_view \<Rightarrow> bool" where
  "certs_covered cfg tys V = (\<forall>r \<in> set (sv_certs V). cr_type r \<in> tys \<longrightarrow> entry_dn cfg r \<in> sv_present V)"

lemma entry_dn_flag [simp]: "entry_dn cfg (r\<lparr>cr_stored := b\<rparr>) = entry_dn cfg r"
  by (simp add: entry_dn_def row_type_def)

lemma crl_dn_flag [simp]: "crl_dn cfg (r\<lparr>lr_stored := b\<rparr>) = crl_dn cfg r"
  by (simp add: crl_dn_def)

lemma row_dn_entry: "effective_type r \<noteq> None \<Longrightarrow> row_dn cfg r = Some (entry_dn cfg r)"
  by (auto simp: row_dn_def entry_dn_def row_type_def)

lemma spec_certs_present: "sv_present V \<subseteq> sv_present (spec_certs cfg ty V)" "sv_crls (spec_certs cfg ty V) = sv_crls V"
  by (auto simp: spec_certs_def Let_def)

lemma spec_certs_row:
  assumes "r' \<in> set (sv_certs (spec_certs cfg ty V))"
  obtains r where "r \<in> set (sv_certs V)" "cr_type r' = cr_type r" "entry_dn cfg r' = entry_dn cfg r"
    "cr_type r \<noteq> ty \<Longrightarrow> r' = r"
proof -
  obtain r where r: "r \<in> set (sv_certs V)"
    "r' = (if r \<in> set (missing_certs cfg ty V) then r\<lparr>cr_stored := True\<rparr> else r)"
    using assms by (auto simp: spec_certs_def Let_def)
  moreover have "cr_type r \<noteq> ty \<Longrightarrow> r \<notin> set (missing_certs cfg ty V)"
    by (auto simp: missing_certs_def select_certs_def dest: in_set_takeD)
  ultimately show ?thesis using that by auto
qed

text \<open>If flags are sound and the batch takes all pending rows of a type, then afterwards all rows of
  that type are in the directory.\<close>

lemma spec_certs_covers:
  assumes "length (filter (\<lambda>r. cr_type r = ty \<and> \<not> cr_stored r) (sv_certs V)) \<le> nat (rc_maxReconcileBatchSize cfg)"
    and "\<And>r. r \<in> set (sv_certs V) \<Longrightarrow> cr_type r = ty \<Longrightarrow> cr_stored r \<Longrightarrow> entry_dn cfg r \<in> sv_present V"
  shows "certs_covered cfg {ty} (spec_certs cfg ty V)"
proof -
  have "entry_dn cfg r \<in> sv_present (spec_certs cfg ty V)" if r: "r \<in> set (sv_certs V)" "cr_type r = ty" for r
  proof (cases "entry_dn cfg r \<in> sv_present V")
    case False
    then have "r \<in> set (missing_certs cfg ty V)"
      using assms r by (auto simp: missing_certs_def select_certs_def)
    then show ?thesis by (auto simp: spec_certs_def Let_def)
  qed (use spec_certs_present in blast)
  then show ?thesis unfolding certs_covered_def by (metis singletonD spec_certs_row)
qed

lemma spec_certs_keeps: "certs_covered cfg tys V \<Longrightarrow> certs_covered cfg tys (spec_certs cfg ty V)"
  using spec_certs_present(1) unfolding certs_covered_def by (metis spec_certs_row subsetD)

lemma spec_certs_other:
  assumes "ty \<noteq> ty'"
  shows "filter (\<lambda>r. cr_type r = ty' \<and> \<not> cr_stored r) (sv_certs (spec_certs cfg ty V))
    = filter (\<lambda>r. cr_type r = ty' \<and> \<not> cr_stored r) (sv_certs V)"
proof -
  let ?M = "set (missing_certs cfg ty V)"
  have m: "cr_type r = ty" if "r \<in> ?M" for r
    using that by (auto simp: missing_certs_def select_certs_def dest: in_set_takeD)
  have "filter (\<lambda>r. cr_type r = ty' \<and> \<not> cr_stored r) (map (\<lambda>r. if r \<in> ?M then r\<lparr>cr_stored := True\<rparr> else r) xs)
    = filter (\<lambda>r. cr_type r = ty' \<and> \<not> cr_stored r) xs" for xs
    by (induction xs) (use m assms in auto)
  then show ?thesis by (simp add: spec_certs_def Let_def)
qed

lemma spec_crls_covers:
  assumes "length (filter (\<lambda>r. \<not> lr_stored r) (sv_crls V)) \<le> nat (rc_maxReconcileBatchSize cfg)"
    and "\<And>r. r \<in> set (sv_crls V) \<Longrightarrow> lr_stored r \<Longrightarrow> crl_dn cfg r \<in> sv_present V"
  shows "\<forall>r \<in> set (sv_crls (spec_crls cfg V)). crl_dn cfg r \<in> sv_present (spec_crls cfg V)"
proof -
  have "crl_dn cfg r \<in> sv_present (spec_crls cfg V)" if r: "r \<in> set (sv_crls V)" for r
  proof (cases "crl_dn cfg r \<in> sv_present V")
    case False
    then have "r \<in> set (missing_crls cfg V)"
      using assms r by (auto simp: missing_crls_def select_crls_def)
    then show ?thesis by (auto simp: spec_crls_def Let_def)
  qed (auto simp: spec_crls_def Let_def)
  moreover have "\<exists>r \<in> set (sv_crls V). crl_dn cfg r' = crl_dn cfg r" if "r' \<in> set (sv_crls (spec_crls cfg V))" for r'
    using that by (force simp: spec_crls_def Let_def)
  ultimately show ?thesis by metis
qed

lemma recon_spec_complete:
  assumes fit: "pending_fit cfg V"
    and certs: "\<And>r. r \<in> set (sv_certs V) \<Longrightarrow> cr_stored r \<Longrightarrow> entry_dn cfg r \<in> sv_present V"
    and crls: "\<And>r. r \<in> set (sv_crls V) \<Longrightarrow> lr_stored r \<Longrightarrow> crl_dn cfg r \<in> sv_present V"
  shows "certs_covered cfg {''CSCA'', ''DSC''} (recon_spec cfg V)
    \<and> (\<forall>r \<in> set (sv_crls (recon_spec cfg V)). crl_dn cfg r \<in> sv_present (recon_spec cfg V))"
proof -
  let ?V1 = "spec_certs cfg ''CSCA'' V" and ?V2 = "spec_certs cfg ''DSC'' (spec_certs cfg ''CSCA'' V)"
  have a: "certs_covered cfg {''CSCA''} ?V1"
    using fit certs by (intro spec_certs_covers) (auto simp: pending_fit_def Let_def)
  have flag: "entry_dn cfg r \<in> sv_present ?V1" if "r \<in> set (sv_certs ?V1)" "cr_type r = ''DSC''" "cr_stored r" for r
  proof (rule spec_certs_row [OF that(1)])
    fix q assume q: "q \<in> set (sv_certs V)" "cr_type r = cr_type q" "cr_type q \<noteq> ''CSCA'' \<Longrightarrow> r = q"
    have "cr_type q \<noteq> ''CSCA''" using q(2) that(2) by auto
    then have "r = q" by (rule q(3))
    then show ?thesis using q(1) certs that(3) spec_certs_present(1) by blast
  qed
  have b: "certs_covered cfg {''DSC''} ?V2"
    using fit flag by (intro spec_certs_covers) (simp_all add: pending_fit_def Let_def spec_certs_other)
  have "certs_covered cfg {''CSCA'', ''DSC''} ?V2"
    using spec_certs_keeps [OF a, of "''DSC''"] b by (simp add: certs_covered_def)
  then have "certs_covered cfg {''CSCA'', ''DSC''} (spec_crls cfg ?V2)"
    by (auto simp: certs_covered_def spec_crls_def Let_def)
  moreover have "crl_dn cfg r \<in> sv_present ?V2" if "r \<in> set (sv_crls V)" "lr_stored r" for r
    using crls [OF that] spec_certs_present(1) [of V cfg "''CSCA''"] spec_certs_present(1) [of ?V1 cfg "''DSC''"] by blast
  then have "\<forall>r \<in> set (sv_crls (spec_crls cfg ?V2)). crl_dn cfg r \<in> sv_present (spec_crls cfg ?V2)"
    using fit by (intro spec_crls_covers) (simp_all add: pending_fit_def Let_def spec_certs_present(2))
  ultimately show ?thesis by (simp add: recon_spec_def)
qed

text \<open>What a run whose batches suffice adds: the entries of the unflagged rows, and containers for them.\<close>

lemma spec_certs_contents:
  assumes "length (filter (\<lambda>r. cr_type r = ty \<and> \<not> cr_stored r) (sv_certs V)) \<le> nat (rc_maxReconcileBatchSize cfg)"
  defines "P \<equiv> {r \<in> set (sv_certs V). cr_type r = ty \<and> \<not> cr_stored r}"
  shows "sv_present V \<union> entry_dn cfg ` P \<subseteq> sv_present (spec_certs cfg ty V)"
    and "sv_present (spec_certs cfg ty V) \<subseteq> sv_present V \<union> entry_dn cfg ` P \<union> (\<Union>r \<in> P. containers cfg (row_type r) (cr_country r))"
proof -
  have "set (missing_certs cfg ty V) = {r \<in> P. entry_dn cfg r \<notin> sv_present V}"
    using assms(1) by (auto simp: missing_certs_def select_certs_def P_def)
  then show "sv_present V \<union> entry_dn cfg ` P \<subseteq> sv_present (spec_certs cfg ty V)"
    "sv_present (spec_certs cfg ty V) \<subseteq> sv_present V \<union> entry_dn cfg ` P \<union> (\<Union>r \<in> P. containers cfg (row_type r) (cr_country r))"
    by (auto simp: spec_certs_def Let_def)
qed

lemma spec_crls_contents:
  assumes "length (filter (\<lambda>r. \<not> lr_stored r) (sv_crls V)) \<le> nat (rc_maxReconcileBatchSize cfg)"
  defines "P \<equiv> {r \<in> set (sv_crls V). \<not> lr_stored r}"
  shows "sv_present V \<union> crl_dn cfg ` P \<subseteq> sv_present (spec_crls cfg V)"
    and "sv_present (spec_crls cfg V) \<subseteq> sv_present V \<union> crl_dn cfg ` P \<union> (\<Union>r \<in> P. containers cfg ''CRL'' (lr_country r))"
proof -
  have "set (missing_crls cfg V) = {r \<in> P. crl_dn cfg r \<notin> sv_present V}"
    using assms(1) by (auto simp: missing_crls_def select_crls_def P_def)
  then show "sv_present V \<union> crl_dn cfg ` P \<subseteq> sv_present (spec_crls cfg V)"
    "sv_present (spec_crls cfg V) \<subseteq> sv_present V \<union> crl_dn cfg ` P \<union> (\<Union>r \<in> P. containers cfg ''CRL'' (lr_country r))"
    by (auto simp: spec_crls_def Let_def)
qed

definition pending_certs :: "sync_view \<Rightarrow> cert_row set" where
  "pending_certs V = {r \<in> set (sv_certs V). cr_type r \<in> {''CSCA'', ''DSC''} \<and> \<not> cr_stored r}"

definition pending_crls :: "sync_view \<Rightarrow> crl_row set" where
  "pending_crls V = {r \<in> set (sv_crls V). \<not> lr_stored r}"

definition pending_entries :: "relay_config \<Rightarrow> sync_view \<Rightarrow> string set" where
  "pending_entries cfg V = entry_dn cfg ` pending_certs V \<union> crl_dn cfg ` pending_crls V"

definition pending_containers :: "relay_config \<Rightarrow> sync_view \<Rightarrow> string set" where
  "pending_containers cfg V = (\<Union>r \<in> pending_certs V. containers cfg (row_type r) (cr_country r))
     \<union> (\<Union>r \<in> pending_crls V. containers cfg ''CRL'' (lr_country r))"

lemma recon_spec_contents:
  assumes "pending_fit cfg V"
  shows "sv_present V \<union> pending_entries cfg V \<subseteq> sv_present (recon_spec cfg V)"
    and "sv_present (recon_spec cfg V) \<subseteq> sv_present V \<union> pending_entries cfg V \<union> pending_containers cfg V"
proof -
  let ?V1 = "spec_certs cfg ''CSCA'' V" and ?V2 = "spec_certs cfg ''DSC'' (spec_certs cfg ''CSCA'' V)"
  define A B C where "A = {r \<in> set (sv_certs V). cr_type r = ''CSCA'' \<and> \<not> cr_stored r}"
    and "B = {r \<in> set (sv_certs V). cr_type r = ''DSC'' \<and> \<not> cr_stored r}" and "C = {r \<in> set (sv_crls V). \<not> lr_stored r}"
  have ne: "''CSCA'' \<noteq> ''DSC''" by simp
  have "set (filter (\<lambda>r. cr_type r = ''DSC'' \<and> \<not> cr_stored r) (sv_certs ?V1)) = B"
    unfolding spec_certs_other [OF ne] by (auto simp: B_def)
  then have B: "{r \<in> set (sv_certs ?V1). cr_type r = ''DSC'' \<and> \<not> cr_stored r} = B" by simp
  have C: "{r \<in> set (sv_crls ?V2). \<not> lr_stored r} = C" by (simp add: C_def spec_certs_present(2))
  have n1: "length (filter (\<lambda>r. cr_type r = ''CSCA'' \<and> \<not> cr_stored r) (sv_certs V)) \<le> nat (rc_maxReconcileBatchSize cfg)"
    and n2: "length (filter (\<lambda>r. cr_type r = ''DSC'' \<and> \<not> cr_stored r) (sv_certs ?V1)) \<le> nat (rc_maxReconcileBatchSize cfg)"
    and n3: "length (filter (\<lambda>r. \<not> lr_stored r) (sv_crls ?V2)) \<le> nat (rc_maxReconcileBatchSize cfg)"
    using assms by (simp_all add: pending_fit_def Let_def spec_certs_other spec_certs_present(2))
  note c = spec_certs_contents [OF n1, folded A_def] spec_certs_contents [OF n2, unfolded B] spec_crls_contents [OF n3, unfolded C]
  have P: "pending_certs V = A \<union> B" "pending_crls V = C" by (auto simp: pending_certs_def pending_crls_def A_def B_def C_def)
  have lower: "p \<union> a \<subseteq> q \<Longrightarrow> q \<union> b \<subseteq> r \<Longrightarrow> r \<union> c \<subseteq> s \<Longrightarrow> p \<union> (a \<union> b \<union> c) \<subseteq> s" for p q r s a b c :: "string set"
    by blast
  have upper: "q \<subseteq> p \<union> a \<union> a' \<Longrightarrow> r \<subseteq> q \<union> b \<union> b' \<Longrightarrow> s \<subseteq> r \<union> c \<union> c' \<Longrightarrow> s \<subseteq> p \<union> (a \<union> b \<union> c) \<union> (a' \<union> b' \<union> c')"
    for p q r s a b c a' b' c' :: "string set"
    by blast
  show "sv_present V \<union> pending_entries cfg V \<subseteq> sv_present (recon_spec cfg V)"
    unfolding pending_entries_def P recon_spec_def image_Un by (rule lower [OF c(1,3,5)])
  show "sv_present (recon_spec cfg V) \<subseteq> sv_present V \<union> pending_entries cfg V \<union> pending_containers cfg V"
    unfolding pending_entries_def pending_containers_def P recon_spec_def UN_Un image_Un Union_Un_distrib by (rule upper [OF c(2,4,6)])
qed

text \<open>C38. What one run without faults brings into the directory when the batch size is at least the number
  of unflagged rows of each kind and the self-signed column of every row can be read: exactly the
  entries of the unflagged rows of types CSCA (link certificates among them) and DSC and of the unflagged CRLs, with
  containers for them, and nothing leaves.  An entry that is missing although its row is flagged, or whose row is of
  another type, is therefore not restored; only when every flagged row has its entry (which
  \<open>reconciliation_keeps_flags_sound\<close> keeps) do all CSCA and DSC rows and all CRLs have theirs
  afterwards.\<close>

theorem reconciliation_completes:
  assumes "quiet E ents" and "readable st" and "ids_unique st" and "pending_fit (re_cfg E) (view ents st)"
    and "performReconciliation E False triggeredBy sid st = (res, st')"
  shows "present ents (rn_dir st) \<union> pending_entries (re_cfg E) (view ents st) \<subseteq> present ents (rn_dir st')
    \<and> present ents (rn_dir st')
        \<subseteq> present ents (rn_dir st) \<union> pending_entries (re_cfg E) (view ents st) \<union> pending_containers (re_cfg E) (view ents st)
    \<and> (flags_sound ents (re_cfg E) st \<longrightarrow>
         (\<forall>r \<in> set (rn_certs st'). cr_type r \<in> {''CSCA'', ''DSC''} \<longrightarrow> entry_dn (re_cfg E) r \<in> present ents (rn_dir st'))
         \<and> (\<forall>r \<in> set (rn_crls st'). crl_dn (re_cfg E) r \<in> present ents (rn_dir st')))"
proof -
  have v: "view ents st' = recon_spec (re_cfg E) (view ents st)" using run_up [OF assms(1-3), of triggeredBy sid] assms(5) by auto
  have "certs_covered (re_cfg E) {''CSCA'', ''DSC''} (view ents st')
      \<and> (\<forall>r \<in> set (sv_crls (view ents st')). crl_dn (re_cfg E) r \<in> sv_present (view ents st'))"
    if f: "flags_sound ents (re_cfg E) st"
  proof -
    have "entry_dn (re_cfg E) r \<in> sv_present (view ents st)" if "r \<in> set (sv_certs (view ents st))" "cr_stored r" for r
      using that assms(2) f by (simp add: view_def flags_sound_def readable_def row_dn_entry)
    moreover have "crl_dn (re_cfg E) r \<in> sv_present (view ents st)" if "r \<in> set (sv_crls (view ents st))" "lr_stored r" for r
      using that f by (simp add: view_def flags_sound_def)
    ultimately show ?thesis using recon_spec_complete [OF assms(4)] v by metis
  qed
  with recon_spec_contents [OF assms(4), folded v] show ?thesis by (simp add: view_def certs_covered_def)
qed

section \<open>When it makes no progress\<close>

text \<open>A row whose entry is already there is not missing and is never flagged, so it is selected again
  by the next run.\<close>

lemma spec_certs_stuck: "missing_certs cfg ty V = [] \<Longrightarrow> spec_certs cfg ty V = V"
  by (simp add: spec_certs_def)

lemma spec_crls_stuck: "missing_crls cfg V = [] \<Longrightarrow> spec_crls cfg V = V"
  by (simp add: spec_crls_def)

text \<open>Rows whose entry is already in the directory starve the rows after them: if the unflagged
  rows that make up the batch of each kind are all in the directory, then no number of runs, all
  reported as successful, changes the directory or the tables, however many missing rows follow.\<close>

theorem reconciliation_starves:
  assumes "quiet E ents" and "readable st" and "ids_unique st"
    and "missing_certs (re_cfg E) ''CSCA'' (view ents st) = []" and "missing_certs (re_cfg E) ''DSC'' (view ents st) = []"
    and "missing_crls (re_cfg E) (view ents st) = []"
  shows "view ents (((\<lambda>s. snd (performReconciliation E False triggeredBy sid s)) ^^ n) st) = view ents st
    \<and> (\<exists>res s. performReconciliation E False triggeredBy sid (((\<lambda>s. snd (performReconciliation E False triggeredBy sid s)) ^^ n) st)
         = (res, s) \<and> rr_status res = ''COMPLETED'' \<and> rr_totalProcessed res = 0)"
proof -
  let ?run = "\<lambda>s. snd (performReconciliation E False triggeredBy sid s)"
  have r: "recon_spec (re_cfg E) (view ents st) = view ents st" "recon_count (re_cfg E) (view ents st) = 0"
    using assms(4-6) by (simp_all add: recon_spec_def recon_count_def spec_certs_stuck spec_crls_stuck)
  have inv: "view ents ((?run ^^ n) st) = view ents st \<and> tables ((?run ^^ n) st) = tables st" for n
  proof (induction n)
    case (Suc n)
    let ?s = "(?run ^^ n) st"
    have "readable ?s" "ids_unique ?s" using Suc assms(2,3) by (simp_all add: readable_tables ids_unique_tables)
    from run_up [OF assms(1) this, of triggeredBy sid] show ?case using Suc r by auto
  qed simp
  have "readable ((?run ^^ n) st)" "ids_unique ((?run ^^ n) st)"
    using inv assms(2,3) by (simp_all add: readable_tables ids_unique_tables)
  from run_up [OF assms(1) this, of triggeredBy sid] show ?thesis using inv r by auto
qed

text \<open>If the driver hands \<^verbatim>\<open>is_self_signed\<close> over as a string, as the comment says of Oracle,
  then no CSCA is ever reconciled: the search for missing entries ends at the first row.\<close>

theorem string_flag_stops_scan:
  assumes "\<forall>r \<in> set (rn_certs st). cr_type r = ''CSCA'' \<longrightarrow> (\<exists>s. cr_selfSigned r = JStr s)"
  shows "fst (findMissingInLdap E ''CSCA'' limit st) = [] \<and> processCertificateType E ''CSCA'' dryRun rid (res, st) = (res, st)"
proof -
  have e: "effective_type r = None" if "r \<in> set (select_certs ''CSCA'' l (rn_certs st))" for r l
  proof -
    have "r \<in> set (rn_certs st)" "cr_type r = ''CSCA''"
      using that by (auto simp: select_certs_def dest: in_set_takeD)
    then show ?thesis using assms by (auto simp: effective_type_def as_bool_def)
  qed
  have "findMissingInLdap E ''CSCA'' l st = ([], st)" for l
  proof (cases "select_certs ''CSCA'' l (rn_certs st)")
    case (Cons r rs)
    then show ?thesis using e [of r l] by (simp add: findMissingInLdap_def)
  qed (simp add: findMissingInLdap_def)
  then show ?thesis by (simp add: processCertificateType_def)
qed

section \<open>A directory to run against\<close>

text \<open>A server that keeps its entries in a map.\<close>

definition map_server :: "(string \<rightharpoonup> ldap_attrs) ldap_server" where
  "map_server =
     \<lparr>ls_search = (\<lambda>d dn. (if d dn = None then LDAP_NO_SUCH_OBJECT else LDAP_SUCCESS, d)),
      ls_add = (\<lambda>d dn as. if d dn = None then (LDAP_SUCCESS, d(dn \<mapsto> as)) else (LDAP_ALREADY_EXISTS, d)),
      ls_delete = (\<lambda>d dn. if d dn = None then (LDAP_NO_SUCH_OBJECT, d) else (LDAP_SUCCESS, d(dn := None))),
      ls_err2string = (\<lambda>rc. ''error'')\<rparr>"

lemma map_server_up: "ldap_up map_server (\<lambda>d. d)"
  by (auto simp: ldap_up_def ldap_laws_def map_server_def split: if_splits)

definition demo_cfg :: relay_config where
  "demo_cfg = \<lparr>rc_ldapBaseDn = ''dc=x'', rc_ldapDataContainer = ''dc=data'', rc_ldapNcDataContainer = ''dc=nc-data'',
     rc_autoReconcile = True, rc_maxReconcileBatchSize = 1\<rparr>"

definition demo_env :: "(string \<rightharpoonup> ldap_attrs) recon_env" where
  "demo_env = \<lparr>re_cfg = demo_cfg, re_server = map_server, re_newId = Some 7, re_insertFails = False,
     re_acquire = (\<lambda>s. True), re_selectFails = (\<lambda>s. False), re_markFails = (\<lambda>s. False), re_logFails = (\<lambda>s. False),
     re_updateFails = False, re_opMs = (\<lambda>s. 1), re_totalMs = 5\<rparr>"

definition demo_row :: "string \<Rightarrow> bool \<Rightarrow> cert_row" where
  "demo_row i stored = \<lparr>cr_id = i, cr_type = ''CSCA'', cr_country = ''KR'', cr_subject = ''CN=A'', cr_issuer = ''CN=A'',
     cr_fingerprint = i, cr_data = CHR 0x5C # ''x3082'', cr_selfSigned = JBool True, cr_stored = stored\<rparr>"

definition demo_dir :: "string list \<Rightarrow> string \<rightharpoonup> ldap_attrs" where
  "demo_dir fps = map_of (map (\<lambda>fp. (''cn='' @ fp @ '',o=csca,c=KR,dc=data,dc=x'', [])) fps)"

definition demo_state :: "string list \<Rightarrow> cert_row list \<Rightarrow> (string \<rightharpoonup> ldap_attrs) recon_state" where
  "demo_state fps rows = \<lparr>rn_dir = demo_dir fps, rn_certs = rows, rn_crls = [], rn_log = [], rn_summaries = []\<rparr>"

lemma demo_quiet: "quiet demo_env (\<lambda>d. d)"
  using map_server_up by (simp add: quiet_def demo_env_def starts_def)

lemma demo_effective [simp]: "effective_type (demo_row i b) = Some ''CSCA''"
  by (simp add: effective_type_def demo_row_def as_bool_def)

lemmas demo_defs = demo_state_def demo_dir_def demo_env_def demo_cfg_def view_def missing_certs_def missing_crls_def
  select_certs_def select_crls_def entry_dn_def row_type_def buildDn_def

lemma demo_fields [simp]: "cr_type (demo_row i b) = ''CSCA''" "cr_stored (demo_row i b) = b" "cr_id (demo_row i b) = i"
  "cr_country (demo_row i b) = ''KR''" "cr_fingerprint (demo_row i b) = i"
  by (simp_all add: demo_row_def)

lemma reconciliation_keeps_flags_sound_witness:
  "flags_sound (\<lambda>d. d) demo_cfg (snd (performReconciliation demo_env False ''MANUAL'' 0
     (demo_state [''a''] [demo_row ''a'' True, demo_row ''b'' False])))"
proof -
  have f: "flags_sound (\<lambda>d. d) (re_cfg demo_env) (demo_state [''a''] [demo_row ''a'' True, demo_row ''b'' False])"
    by (simp add: flags_sound_def row_dn_def demo_defs c_str_def)
  have i: "ids_unique (demo_state [''a''] [demo_row ''a'' True, demo_row ''b'' False])"
    by (simp add: ids_unique_def demo_state_def)
  show ?thesis
    using reconciliation_keeps_flags_sound [OF quiet_facts(2) [OF demo_quiet] i f] by (simp add: demo_env_def)
qed

lemma reconciliation_accounting_witness:
  "\<exists>res st'. performReconciliation demo_env False ''MANUAL'' 0 (demo_state [] [demo_row ''b'' False]) = (res, st')
     \<and> rr_totalProcessed res = rr_successCount res + rr_failedCount res"
proof -
  obtain res st' where p: "performReconciliation demo_env False ''MANUAL'' 0 (demo_state [] [demo_row ''b'' False]) = (res, st')"
    by force
  then show ?thesis using reconciliation_accounting [OF p] by simp
qed

lemma dry_run_changes_nothing_witness:
  "same_content (\<lambda>d. d) (demo_state [] [demo_row ''b'' False])
     (snd (performReconciliation demo_env True ''MANUAL'' 0 (demo_state [] [demo_row ''b'' False])))"
  by (rule dry_run_changes_nothing [OF quiet_facts(2) [OF demo_quiet]])

lemma reconciliation_refines_witness:
  "\<exists>res st'. performReconciliation demo_env False ''MANUAL'' 0 (demo_state [] [demo_row ''b'' False]) = (res, st')
     \<and> rr_totalProcessed res = 1 \<and> rn_certs st' = [demo_row ''b'' True]"
proof -
  let ?st = "demo_state [] [demo_row ''b'' False]"
  obtain res st' where p: "performReconciliation demo_env False ''MANUAL'' 0 ?st = (res, st')" by force
  have h: "readable ?st" "ids_unique ?st" by (simp_all add: readable_def ids_unique_def demo_state_def)
  have m: "missing_certs (re_cfg demo_env) ''CSCA'' (view (\<lambda>d. d) ?st) = [demo_row ''b'' False]"
    by (simp add: demo_defs)
  have n: "missing_certs (re_cfg demo_env) ''DSC'' (spec_certs (re_cfg demo_env) ''CSCA'' (view (\<lambda>d. d) ?st)) = []"
    "missing_crls (re_cfg demo_env) (spec_certs (re_cfg demo_env) ''CSCA'' (view (\<lambda>d. d) ?st)) = []"
    by (simp_all add: demo_defs spec_certs_def Let_def)
  have r: "demo_row ''b'' False\<lparr>cr_stored := True\<rparr> = demo_row ''b'' True" by (simp add: demo_row_def)
  note t = reconciliation_refines [OF demo_quiet h p]
  have c: "recon_count (re_cfg demo_env) (view (\<lambda>d. d) ?st) = 1"
    by (simp add: recon_count_def m n spec_certs_stuck)
  have "sv_certs (recon_spec (re_cfg demo_env) (view (\<lambda>d. d) ?st)) = [demo_row ''b'' True]"
    by (simp add: recon_spec_def spec_certs_stuck [OF n(1)] spec_crls_stuck [OF n(2)])
      (simp add: spec_certs_def m r Let_def, simp add: view_def demo_state_def r)
  then have "rn_certs st' = [demo_row ''b'' True]" using t by (metis select_convs(2) view_def)
  then show ?thesis using p t c by simp
qed

text \<open>The flagged row \<open>c\<close> has no entry: the run adds that of \<open>b\<close> and leaves \<open>c\<close> without.\<close>

lemma reconciliation_completes_witness:
  "\<exists>res st'. performReconciliation demo_env False ''MANUAL'' 0
      (demo_state [''a''] [demo_row ''a'' True, demo_row ''b'' False, demo_row ''c'' True]) = (res, st')
     \<and> entry_dn demo_cfg (demo_row ''b'' False) \<in> dom (rn_dir st')
     \<and> entry_dn demo_cfg (demo_row ''c'' True) \<notin> dom (rn_dir st')"
proof -
  let ?st = "demo_state [''a''] [demo_row ''a'' True, demo_row ''b'' False, demo_row ''c'' True]"
  obtain res st' where p: "performReconciliation demo_env False ''MANUAL'' 0 ?st = (res, st')" by force
  have h: "readable ?st" "ids_unique ?st" by (simp_all add: readable_def ids_unique_def demo_state_def)
  have n: "pending_fit (re_cfg demo_env) (view (\<lambda>d. d) ?st)"
    by (simp add: pending_fit_def demo_defs)
  have pend: "pending_certs (view (\<lambda>d. d) ?st) = {demo_row ''b'' False}" "pending_crls (view (\<lambda>d. d) ?st) = {}"
    by (auto simp: pending_certs_def pending_crls_def demo_defs)
  have "entry_dn demo_cfg (demo_row ''c'' True)
      \<notin> present (\<lambda>d. d) (rn_dir ?st) \<union> pending_entries demo_cfg (view (\<lambda>d. d) ?st) \<union> pending_containers demo_cfg (view (\<lambda>d. d) ?st)"
    unfolding pending_entries_def pending_containers_def pend
    by (simp add: containers_def demo_defs entry_dn_def c_str_def ou_of_def Let_def)
  then show ?thesis
    using p reconciliation_completes [OF demo_quiet h n p] unfolding pending_entries_def pend
    by (auto simp: demo_env_def)
qed

lemma reconciliation_starves_witness:
  "view (\<lambda>d. d) (((\<lambda>s. snd (performReconciliation demo_env False ''MANUAL'' 0 s)) ^^ 1000)
     (demo_state [''a''] [demo_row ''a'' False, demo_row ''b'' False]))
   = view (\<lambda>d. d) (demo_state [''a''] [demo_row ''a'' False, demo_row ''b'' False])"
proof -
  let ?st = "demo_state [''a''] [demo_row ''a'' False, demo_row ''b'' False]"
  have h: "readable ?st" "ids_unique ?st" by (simp_all add: readable_def ids_unique_def demo_state_def)
  have n: "missing_certs (re_cfg demo_env) ''CSCA'' (view (\<lambda>d. d) ?st) = []"
    "missing_certs (re_cfg demo_env) ''DSC'' (view (\<lambda>d. d) ?st) = []"
    "missing_crls (re_cfg demo_env) (view (\<lambda>d. d) ?st) = []"
    by (simp_all add: demo_defs c_str_def)
  show ?thesis using reconciliation_starves [OF demo_quiet h n] by blast
qed

lemma string_flag_stops_scan_witness:
  "fst (findMissingInLdap demo_env ''CSCA'' 1 (demo_state [] [demo_row ''b'' False\<lparr>cr_selfSigned := JStr ''1''\<rparr>])) = []"
  using string_flag_stops_scan [of "demo_state [] [demo_row ''b'' False\<lparr>cr_selfSigned := JStr ''1''\<rparr>]" demo_env 1]
  by (simp add: demo_state_def)

end
