(* ===== verification/Ldif_Parser.thy ===== *)
theory Ldif_Parser
  imports Interfaces
begin

text \<open>
  The two LDIF readers: \<^verbatim>\<open>LdifProcessor::parseLdifContent\<close>
  (\<^verbatim>\<open>services/pkd-management/src/ldif_processor.cpp\<close>), whose entries are stored, and
  \<^verbatim>\<open>LdifParser\<close> (\<^verbatim>\<open>common/ldif_parser.cpp\<close>), whose entries are shown as a
  preview.  Both read lines with \<^verbatim>\<open>std::getline\<close> and drop a carriage return at their end.
\<close>

section \<open>Entries\<close>

abbreviation NL :: char where "NL \<equiv> CHR 0x0A"
abbreviation CR :: char where "CR \<equiv> CHR 0x0D"

record ldif_entry =
  le_dn :: string
  le_attributes :: "(string \<times> string list) list"

definition hasAttribute :: "ldif_entry \<Rightarrow> string \<Rightarrow> bool" where
  "hasAttribute e name = (map_of (le_attributes e) name \<noteq> None)"

definition getFirstAttribute :: "ldif_entry \<Rightarrow> string \<Rightarrow> string" where
  "getFirstAttribute e name = (case map_of (le_attributes e) name of Some (v # vs) \<Rightarrow> v | _ \<Rightarrow> [])"

text \<open>\<^verbatim>\<open>attributes[name].push_back(value)\<close>.\<close>

definition push_attr :: "string \<times> string \<Rightarrow> (string \<times> string list) list \<Rightarrow> (string \<times> string list) list" where
  "push_attr kv m = smap_set (fst kv) ((case map_of m (fst kv) of Some vs \<Rightarrow> vs | None \<Rightarrow> []) @ [snd kv]) m"

section \<open>parseLdifContent\<close>

record ldif_state =
  ld_entries :: "ldif_entry list"
  ld_entry :: ldif_entry
  ld_name :: string
  ld_value :: string
  ld_cont :: bool

definition finalizeAttribute :: "ldif_state \<Rightarrow> ldif_state" where
  "finalizeAttribute st =
     (if ld_name st = [] then st
      else st\<lparr>ld_entry := (ld_entry st)\<lparr>le_attributes := push_attr (ld_name st, ld_value st) (le_attributes (ld_entry st))\<rparr>,
              ld_name := [], ld_value := []\<rparr>)"

definition finalizeEntry :: "ldif_state \<Rightarrow> ldif_state" where
  "finalizeEntry st =
     (let st = finalizeAttribute st
      in if le_dn (ld_entry st) = [] then st
         else st\<lparr>ld_entries := ld_entries st @ [ld_entry st], ld_entry := \<lparr>le_dn = [], le_attributes = []\<rparr>\<rparr>)"

text \<open>A trailing carriage return is dropped.\<close>

definition chomp :: "string \<Rightarrow> string" where
  "chomp line = (if line \<noteq> [] \<and> last line = CR then butlast line else line)"

text \<open>The attribute line: its name, with the suffix that marks a base64 value, and its value.\<close>

definition attr_of_line :: "string \<Rightarrow> (string \<times> string) option" where
  "attr_of_line line =
     (case str_find line '':'' 0 of
        None \<Rightarrow> None
      | Some colonPos \<Rightarrow>
          let name = take colonPos line
          in if colonPos + 1 < length line \<and> line ! (colonPos + 1) = CHR '':'' then
               Some (if str_find name '';binary'' 0 = None then name @ '';binary'' else name,
                     dropWhile (\<lambda>c. c = CHR '' '') (drop (colonPos + 2) line))
             else Some (name, dropWhile (\<lambda>c. c = CHR '' '') (drop (colonPos + 1) line)))"

definition ldif_line :: "ldif_state \<Rightarrow> string \<Rightarrow> ldif_state" where
  "ldif_line st rawLine =
     (let line = chomp rawLine in
      case line of
        [] \<Rightarrow> (finalizeEntry st)\<lparr>ld_cont := False\<rparr>
      | c # rest \<Rightarrow>
          if c = CHR ''#'' then st
          else if c = CHR '' '' then
            (if \<not> ld_cont st then st
             else if ld_name st = ''dn'' then st\<lparr>ld_entry := (ld_entry st)\<lparr>le_dn := le_dn (ld_entry st) @ rest\<rparr>\<rparr>
             else st\<lparr>ld_value := ld_value st @ rest\<rparr>)
          else
            let st = (finalizeAttribute st)\<lparr>ld_cont := False\<rparr>
            in case attr_of_line line of
                 None \<Rightarrow> st
               | Some (name, value) \<Rightarrow>
                   let st = st\<lparr>ld_name := name, ld_value := value, ld_cont := True\<rparr>
                   in if name = ''dn'' then st\<lparr>ld_entry := (ld_entry st)\<lparr>le_dn := value\<rparr>\<rparr> else st)"

definition ldif_state0 :: ldif_state where
  "ldif_state0 = \<lparr>ld_entries = [], ld_entry = \<lparr>le_dn = [], le_attributes = []\<rparr>, ld_name = [], ld_value = [],
     ld_cont = False\<rparr>"

definition parseLdifContent :: "string \<Rightarrow> ldif_entry list" where
  "parseLdifContent content = ld_entries (finalizeEntry (foldl ldif_line ldif_state0 (getlines NL content)))"

section \<open>The preview\<close>

record ldif_attribute =
  la_name :: string
  la_value :: string
  la_isBinary :: bool
  la_binarySize :: nat

record ldif_entry_structure =
  es_dn :: string
  es_objectClass :: string
  es_attributes :: "ldif_attribute list"
  es_lineNumber :: int

record ldif_structure =
  lf_entries :: "ldif_entry_structure list"
  lf_objectClassCounts :: "(string \<times> int) list"
  lf_totalEntries :: int
  lf_totalAttributes :: int
  lf_truncated :: bool

definition c_isalnum :: "char \<Rightarrow> bool" where
  "c_isalnum c = (let n = of_char c :: nat in 48 \<le> n \<and> n \<le> 57 \<or> 65 \<le> n \<and> n \<le> 90 \<or> 97 \<le> n \<and> n \<le> 122)"

definition calculateDecodedSize :: "nat \<Rightarrow> nat" where
  "calculateDecodedSize base64Length =
     (if base64Length = 0 then 0
      else let decodedSize = (base64Length div 4) * 3
           in if base64Length mod 4 \<noteq> 0 then decodedSize + (base64Length mod 4 - 1) else decodedSize)"

definition parseBinaryAttribute :: "string \<Rightarrow> bool \<times> nat" where
  "parseBinaryAttribute value =
     (if value = [] then (False, 0)
      else if \<not> list_all (\<lambda>c. c_isalnum c \<or> c \<in> set ''+/='' \<or> c_isspace c) value then (False, 0)
      else let decodedSize = calculateDecodedSize (length (filter (\<lambda>c. \<not> c_isspace c) value))
           in (100 < decodedSize, decodedSize))"

definition trim_component :: "string \<Rightarrow> string list" where
  "trim_component component =
     (case (find_first_not_of component [CHR '' '', CHR 0x09] 0, find_last_not_of component [CHR '' '', CHR 0x09]) of
        (Some i, Some j) \<Rightarrow> (let c = take (j - i + 1) (drop i component) in if c = [] then [] else [c])
      | _ \<Rightarrow> [])"

text \<open>The rest of the name, the component read so far and the quotation flag.\<close>

fun dn_components :: "string \<Rightarrow> string \<Rightarrow> bool \<Rightarrow> string list" where
  "dn_components [] part inQuotes = (if part = [] then [] else trim_component part)"
| "dn_components (c # cs) part inQuotes =
     (if c = CHR 0x22 then dn_components cs (part @ [c]) (\<not> inQuotes)
      else if c = CHR '','' \<and> \<not> inQuotes then trim_component part @ dn_components cs [] inQuotes
      else dn_components cs (part @ [c]) inQuotes)"

definition extractDnComponents :: "string \<Rightarrow> string list" where
  "extractDnComponents dn = dn_components dn [] False"

definition binary_text :: "string \<Rightarrow> nat \<Rightarrow> string" where
  "binary_text name n =
     (if name = ''pkdMasterListContent;binary'' then ''[Binary CMS Data: ''
      else if name = ''userCertificate;binary'' \<or> name = ''cACertificate;binary'' then ''[Binary Certificate: ''
      else if name = ''certificateRevocationList;binary'' then ''[Binary CRL: ''
      else ''[Binary Data: '') @ nat_dec n @ '' bytes]''"

record entry_state =
  en_entry :: ldif_entry_structure
  en_name :: string
  en_value :: string
  en_cont :: bool
  en_dnCont :: bool
  en_bytes :: nat
  en_line :: int
  en_started :: bool

definition preview_attribute :: "string \<Rightarrow> string \<Rightarrow> ldif_attribute" where
  "preview_attribute name value =
     (if str_find name '';binary'' 0 \<noteq> None then
        let n = snd (parseBinaryAttribute value)
        in \<lparr>la_name = name, la_value = binary_text name n, la_isBinary = True, la_binarySize = n\<rparr>
      else \<lparr>la_name = name, la_value = value, la_isBinary = False, la_binarySize = 0\<rparr>)"

definition preview_finalize :: "entry_state \<Rightarrow> entry_state" where
  "preview_finalize st =
     (if en_name st = [] then st
      else st\<lparr>en_entry := (en_entry st)\<lparr>es_attributes := es_attributes (en_entry st) @ [preview_attribute (en_name st) (en_value st)]\<rparr>,
              en_name := [], en_value := []\<rparr>)"

text \<open>A line other than the empty one.\<close>

definition preview_line :: "entry_state \<Rightarrow> string \<Rightarrow> entry_state" where
  "preview_line st line =
     (case line of [] \<Rightarrow> st
      | c # rest \<Rightarrow>
          if c = CHR ''#'' then st
          else if c = CHR '' '' then
            (if \<not> en_cont st then st
             else if en_dnCont st then st\<lparr>en_entry := (en_entry st)\<lparr>es_dn := es_dn (en_entry st) @ rest\<rparr>\<rparr>
             else st\<lparr>en_value := en_value st @ rest\<rparr>)
          else
            let st = (preview_finalize st)\<lparr>en_cont := False, en_dnCont := False\<rparr>
            in case attr_of_line line of
                 None \<Rightarrow> st
               | Some (name, value) \<Rightarrow>
                   if name = ''dn'' then
                     st\<lparr>en_entry := (en_entry st)\<lparr>es_dn := value, es_lineNumber := en_line st - 1\<rparr>, en_started := True,
                        en_cont := True, en_dnCont := True, en_name := [], en_value := []\<rparr>
                   else st\<lparr>en_name := name, en_value := value, en_cont := True, en_dnCont := False\<rparr>)"

text \<open>The loop over the lines; \<^term>\<open>None\<close> is \<^verbatim>\<open>npos\<close>.\<close>

fun preview_lines :: "string list \<Rightarrow> entry_state \<Rightarrow> nat option \<times> entry_state" where
  "preview_lines [] st =
     (let st = (if en_started st then preview_finalize st else st)
      in (if en_started st then Some (en_bytes st) else None, st))"
| "preview_lines (rawLine # ls) st =
     (let st = st\<lparr>en_bytes := en_bytes st + length rawLine + 1, en_line := en_line st + 1\<rparr>;
          line = chomp rawLine
      in if line = [] then
           (if en_started st then let st = preview_finalize st in (Some (en_bytes st), st) else preview_lines ls st)
         else preview_lines ls (preview_line st line))"

definition entry_state0 :: "nat \<Rightarrow> int \<Rightarrow> entry_state" where
  "entry_state0 pos lineNumber = \<lparr>en_entry = \<lparr>es_dn = [], es_objectClass = [], es_attributes = [], es_lineNumber = lineNumber\<rparr>,
     en_name = [], en_value = [], en_cont = False, en_dnCont = False, en_bytes = pos, en_line = lineNumber,
     en_started = False\<rparr>"

text \<open>\<^verbatim>\<open>content.substr(startPos)\<close> throws when the position is past the end.\<close>

definition parseEntry :: "string \<Rightarrow> nat \<Rightarrow> int \<Rightarrow> (nat option \<times> int \<times> ldif_entry_structure) res" where
  "parseEntry content startPos lineNumber =
     rbind (substr_end content startPos) (\<lambda>s.
       let (nextPos, st) = preview_lines (getlines NL s) (entry_state0 startPos lineNumber)
       in Inr (nextPos, en_line st, en_entry st))"

fun count_entries :: "string list \<Rightarrow> int \<Rightarrow> bool \<Rightarrow> int" where
  "count_entries [] n inEntry = (if inEntry then n + 1 else n)"
| "count_entries (rawLine # ls) n inEntry =
     (let line = chomp rawLine
      in if line = [] then (if inEntry then count_entries ls (n + 1) False else count_entries ls n inEntry)
         else if take 3 line = ''dn:'' then count_entries ls n True
         else count_entries ls n inEntry)"

definition countEntries :: "string \<Rightarrow> int" where
  "countEntries content = count_entries (getlines NL content) 0 False"

definition extractObjectClass :: "ldif_entry_structure \<Rightarrow> string" where
  "extractObjectClass e = (case find (\<lambda>a. la_name a = ''objectClass'') (es_attributes e) of
     Some a \<Rightarrow> la_value a | None \<Rightarrow> ''unknown'')"

definition count_class :: "string \<Rightarrow> (string \<times> int) list \<Rightarrow> (string \<times> int) list" where
  "count_class k m = smap_set k ((case map_of m k of Some n \<Rightarrow> n | None \<Rightarrow> 0) + 1) m"

definition add_preview :: "ldif_entry_structure \<Rightarrow> ldif_structure \<Rightarrow> ldif_structure" where
  "add_preview e s =
     (let e = e\<lparr>es_objectClass := extractObjectClass e\<rparr>
      in s\<lparr>lf_totalAttributes := lf_totalAttributes s + int (length (es_attributes e)),
           lf_objectClassCounts := count_class (es_objectClass e) (lf_objectClassCounts s),
           lf_entries := lf_entries s @ [e]\<rparr>)"

lemma preview_lines_bytes:
  "preview_lines ls st = (Some q, st') \<Longrightarrow> en_bytes st \<le> q"
proof (induction ls st rule: preview_lines.induct)
  case (2 rawLine ls st)
  have b: "en_bytes (preview_line s l) = en_bytes s" for s l
    by (auto simp: preview_line_def preview_finalize_def Let_def split: list.splits option.splits)
  let ?s = "st\<lparr>en_bytes := en_bytes st + length rawLine + 1, en_line := en_line st + 1\<rparr>"
  have "q = en_bytes ?s \<or> en_bytes ?s \<le> q"
    using 2 by (auto simp: Let_def b preview_finalize_def split: if_splits)
  then show ?case by auto
qed (auto simp: Let_def preview_finalize_def split: if_splits)

lemma parseEntry_progress:
  assumes "parseEntry content p n = Inr (nextPos, n', e)"
  shows "p \<le> length content" "nextPos = Some q \<Longrightarrow> p \<le> q"
proof -
  obtain st where r: "preview_lines (getlines NL (drop p content)) (entry_state0 p n) = (nextPos, st)"
    and l: "p \<le> length content"
    using assms by (auto simp: parseEntry_def rbind_def substr_end_def split: prod.splits if_splits)
  show "p \<le> length content" by (rule l)
  show "nextPos = Some q \<Longrightarrow> p \<le> q"
    using preview_lines_bytes [of "getlines NL (drop p content)" "entry_state0 p n" q st] r by (simp add: entry_state0_def)
qed

function (sequential) parse_loop :: "string \<Rightarrow> int \<Rightarrow> nat option \<Rightarrow> int \<Rightarrow> int \<Rightarrow> ldif_structure \<Rightarrow> ldif_structure res" where
  "parse_loop content maxEntries None lineNumber parsedCount result = Inr result"
| "parse_loop content maxEntries (Some pos) lineNumber parsedCount result =
     (if maxEntries \<le> parsedCount then Inr result
      else case parseEntry content pos lineNumber of
             Inl e \<Rightarrow> Inl e
           | Inr (nextPos, lineNumber', entry) \<Rightarrow>
               if nextPos = Some pos then Inr result
               else if es_dn entry \<noteq> [] then
                 parse_loop content maxEntries nextPos lineNumber' (parsedCount + 1) (add_preview entry result)
               else parse_loop content maxEntries nextPos lineNumber' parsedCount result)"
  by pat_completeness auto

termination
proof (relation "measure (\<lambda>(content, maxEntries, pos, _). case pos of None \<Rightarrow> 0 | Some p \<Rightarrow> length content + 2 - p)",
    goal_cases)
  case 1
  then show ?case by simp
next
  case (2 content maxEntries pos lineNumber parsedCount result r nextPos y lineNumber' entry)
  then have "parseEntry content pos lineNumber = Inr (nextPos, lineNumber', entry)" by simp
  note p = parseEntry_progress [OF this]
  show ?case using 2(5) p(1) p(2) by (cases nextPos) (auto simp: le_less)
next
  case (3 content maxEntries pos lineNumber parsedCount result r nextPos y lineNumber' entry)
  then have "parseEntry content pos lineNumber = Inr (nextPos, lineNumber', entry)" by simp
  note p = parseEntry_progress [OF this]
  show ?case using 3(5) p(1) p(2) by (cases nextPos) (auto simp: le_less)
qed

declare parse_loop.simps(2) [simp del]

text \<open>\<^verbatim>\<open>LdifParser::parse\<close> on the content of the file, \<^term>\<open>None\<close> when it cannot be
  opened.\<close>

definition parse_ldif :: "string option \<Rightarrow> int \<Rightarrow> ldif_structure res" where
  "parse_ldif file maxEntries =
     (case file of
        None \<Rightarrow> Inl (Runtime_Error ''Failed to open LDIF file'')
      | Some content \<Rightarrow>
          if content = [] then Inl (Runtime_Error ''LDIF file is empty'')
          else
            let totalEntries = countEntries content
            in parse_loop content maxEntries (Some 0) 1 0
                 \<lparr>lf_entries = [], lf_objectClassCounts = [], lf_totalEntries = totalEntries, lf_totalAttributes = 0,
                  lf_truncated = (maxEntries < totalEntries)\<rparr>)"

section \<open>LDIF text\<close>

text \<open>An entry as a file holds it: the pieces of its name and, per attribute, the name, whether the
  value is base64, and the pieces of the value; each piece after the first is a continuation line.\<close>

record ldif_source =
  src_dn :: "string list"
  src_attrs :: "(string \<times> bool \<times> string list) list"

fun folded :: "string \<Rightarrow> string list \<Rightarrow> string list" where
  "folded start [] = [start]"
| "folded start (p # ps) = (start @ p) # map (\<lambda>q. CHR '' '' # q) ps"

definition attr_lines :: "string \<times> bool \<times> string list \<Rightarrow> string list" where
  "attr_lines a = (case a of (name, b64, ps) \<Rightarrow> folded (name @ (if b64 then '':: '' else '': '')) ps)"

definition source_lines :: "ldif_source \<Rightarrow> string list" where
  "source_lines e = folded ''dn: '' (src_dn e) @ concat (map attr_lines (src_attrs e)) @ [[]]"

definition lines_text :: "string list \<Rightarrow> string" where
  "lines_text ls = concat (map (\<lambda>l. l @ [NL]) ls)"

definition ldif_text :: "ldif_source list \<Rightarrow> string" where
  "ldif_text es = lines_text (concat (map source_lines es))"

text \<open>A piece holds no line ends; a value does not start with a blank.\<close>

definition piece_ok :: "string \<Rightarrow> bool" where
  "piece_ok p = (NL \<notin> set p \<and> CR \<notin> set p)"

definition value_ok :: "string list \<Rightarrow> bool" where
  "value_ok ps = (ps \<noteq> [] \<and> list_all piece_ok ps \<and> (hd ps = [] \<or> hd (hd ps) \<noteq> CHR '' ''))"

definition attr_name_ok :: "string \<Rightarrow> bool \<Rightarrow> bool" where
  "attr_name_ok n b64 = (n \<noteq> [] \<and> (n = ''dn'' \<longrightarrow> b64) \<and> piece_ok n \<and> CHR '':'' \<notin> set n \<and> hd n \<notin> {CHR ''#'', CHR '' ''})"

definition source_ok :: "ldif_source \<Rightarrow> bool" where
  "source_ok e = (value_ok (src_dn e) \<and> hd (src_dn e) \<noteq> []
     \<and> list_all (\<lambda>(n, b64, ps). attr_name_ok n b64 \<and> value_ok ps) (src_attrs e))"

definition attr_key :: "string \<Rightarrow> bool \<Rightarrow> string" where
  "attr_key n b64 = (if b64 \<and> str_find n '';binary'' 0 = None then n @ '';binary'' else n)"

definition attr_pair :: "string \<times> bool \<times> string list \<Rightarrow> string \<times> string" where
  "attr_pair a = (case a of (n, b64, ps) \<Rightarrow> (attr_key n b64, concat ps))"

text \<open>The entry read from it.  The reader also files the first line of the name as an attribute
  \<^verbatim>\<open>dn\<close>.\<close>

definition entry_of :: "ldif_source \<Rightarrow> ldif_entry" where
  "entry_of e = \<lparr>le_dn = concat (src_dn e),
     le_attributes = fold push_attr ((''dn'', hd (src_dn e)) # map attr_pair (src_attrs e)) []\<rparr>"

lemma getlines_text: "list_all (\<lambda>l. NL \<notin> set l) ls \<Longrightarrow> getlines NL (lines_text ls) = ls"
proof (induction ls)
  case (Cons l ls)
  then show ?case using getlines_cons [of NL l "lines_text ls"] by (simp add: lines_text_def)
qed (simp add: lines_text_def)

lemma lines_text_append [simp]: "lines_text (a @ b) = lines_text a @ lines_text b"
  by (simp add: lines_text_def)

subsection \<open>One attribute\<close>

lemma chomp_id: "l = [] \<or> last l \<noteq> CR \<Longrightarrow> chomp l = l"
  by (auto simp: chomp_def)

lemma attr_of_line_text:
  assumes "CHR '':'' \<notin> set n" "p = [] \<or> hd p \<noteq> CHR '' ''"
  shows "attr_of_line (n @ '': '' @ p) = Some (n, p)" "attr_of_line (n @ '':: '' @ p) = Some (attr_key n True, p)"
proof -
  have f: "str_find (n @ CHR '':'' # r) '':'' 0 = Some (length n)" for r by (rule str_find_char0) (rule assms(1))
  have d: "dropWhile (\<lambda>c. c = CHR '' '') p = p" using assms(2) by (cases p) auto
  show "attr_of_line (n @ '': '' @ p) = Some (n, p)" "attr_of_line (n @ '':: '' @ p) = Some (attr_key n True, p)"
    by (simp_all add: attr_of_line_def f d nth_append Let_def attr_key_def)
qed

lemma attr_first_line:
  fixes n p :: string and b64 :: bool
  assumes "CHR '':'' \<notin> set n" "piece_ok n" "n \<noteq> []" "hd n \<notin> {CHR ''#'', CHR '' ''}" "piece_ok p" "p = [] \<or> hd p \<noteq> CHR '' ''"
  defines "l \<equiv> n @ (if b64 then '':: '' else '': '') @ p"
  shows "chomp l = l" "attr_of_line l = Some (attr_key n b64, p)" "NL \<notin> set l" "\<exists>c r. l = c # r \<and> c \<noteq> CHR ''#'' \<and> c \<noteq> CHR '' ''"
proof -
  have "last l \<noteq> CR" unfolding l_def using assms(5)
    by (cases "p = []") (auto simp: piece_ok_def dest: last_in_set)
  then show "chomp l = l" by (simp add: chomp_id)
  show "attr_of_line l = Some (attr_key n b64, p)"
    unfolding l_def using attr_of_line_text [OF assms(1,6)] by (cases b64) (simp_all add: attr_key_def)
  show "NL \<notin> set l" using assms(2,5) by (simp add: l_def piece_ok_def)
  show "\<exists>c r. l = c # r \<and> c \<noteq> CHR ''#'' \<and> c \<noteq> CHR '' ''" using assms(3,4) by (cases n) (auto simp: l_def)
qed

lemma continuation_line:
  assumes "piece_ok p"
  shows "chomp (CHR '' '' # p) = CHR '' '' # p" "NL \<notin> set (CHR '' '' # p)"
  using assms by (auto simp: piece_ok_def intro!: chomp_id dest: last_in_set)

lemma attr_key_facts: "attr_name_ok n b64 \<Longrightarrow> attr_key n b64 \<noteq> [] \<and> attr_key n b64 \<noteq> ''dn''"
  by (auto simp: attr_name_ok_def attr_key_def append_eq_Cons_conv str_find_def)

lemma ldif_continuations:
  "list_all piece_ok ps \<Longrightarrow> ld_cont st \<Longrightarrow> ld_name st \<noteq> ''dn'' \<Longrightarrow>
    foldl ldif_line st (map (\<lambda>q. CHR '' '' # q) ps) = st\<lparr>ld_value := ld_value st @ concat ps\<rparr>"
  by (induction ps arbitrary: st) (simp_all add: ldif_line_def continuation_line Let_def)

lemma ldif_dn_continuations:
  "list_all piece_ok ps \<Longrightarrow> ld_cont st \<Longrightarrow> ld_name st = ''dn'' \<Longrightarrow>
    foldl ldif_line st (map (\<lambda>q. CHR '' '' # q) ps)
      = st\<lparr>ld_entry := (ld_entry st)\<lparr>le_dn := le_dn (ld_entry st) @ concat ps\<rparr>\<rparr>"
  by (induction ps arbitrary: st) (simp_all add: ldif_line_def continuation_line Let_def)

lemma ldif_attr:
  assumes "attr_name_ok n b64" "value_ok ps"
  shows "foldl ldif_line st (attr_lines (n, b64, ps))
    = (finalizeAttribute st)\<lparr>ld_name := attr_key n b64, ld_value := concat ps, ld_cont := True\<rparr>"
proof -
  obtain p qs where ps: "ps = p # qs" using assms(2) by (cases ps) (auto simp: value_ok_def)
  let ?l = "n @ (if b64 then '':: '' else '': '') @ p"
  have l: "chomp ?l = ?l" "attr_of_line ?l = Some (attr_key n b64, p)" "\<exists>c r. ?l = c # r \<and> c \<noteq> CHR ''#'' \<and> c \<noteq> CHR '' ''"
    using attr_first_line [of n p b64] assms by (auto simp: ps value_ok_def attr_name_ok_def)
  note k = attr_key_facts [OF assms(1)]
  obtain c r where cr: "?l = c # r" "c \<noteq> CHR ''#''" "c \<noteq> CHR '' ''" using l(3) by blast
  have "ldif_line st ?l = (finalizeAttribute st)\<lparr>ld_name := attr_key n b64, ld_value := p, ld_cont := True\<rparr>"
    using l(1,2) cr(2,3) k unfolding ldif_line_def Let_def cr(1) by simp
  moreover have "list_all piece_ok qs" using assms(2) by (simp add: ps value_ok_def)
  ultimately show ?thesis using k by (simp add: attr_lines_def ps ldif_continuations)
qed

lemma ldif_dn:
  assumes "value_ok ps"
  shows "foldl ldif_line st (folded ''dn: '' ps)
    = (finalizeAttribute st)\<lparr>ld_entry := (ld_entry (finalizeAttribute st))\<lparr>le_dn := concat ps\<rparr>,
        ld_name := ''dn'', ld_value := hd ps, ld_cont := True\<rparr>"
proof -
  obtain p qs where ps: "ps = p # qs" using assms by (cases ps) (auto simp: value_ok_def)
  have l: "chomp (''dn: '' @ p) = ''dn: '' @ p" "attr_of_line (''dn: '' @ p) = Some (''dn'', p)"
    using attr_first_line [of "''dn''" p False] assms by (auto simp: ps value_ok_def piece_ok_def attr_key_def)
  have "ldif_line st (''dn: '' @ p) = (finalizeAttribute st)\<lparr>ld_entry := (ld_entry (finalizeAttribute st))\<lparr>le_dn := p\<rparr>,
        ld_name := ''dn'', ld_value := p, ld_cont := True\<rparr>"
    using l unfolding ldif_line_def l(1) Let_def by simp
  moreover have "list_all piece_ok qs" using assms by (simp add: ps value_ok_def)
  ultimately show ?thesis by (simp add: ps ldif_dn_continuations)
qed

subsection \<open>One entry\<close>

lemma finalize_simps [simp]:
  "ld_name (finalizeAttribute st) = []" "ld_entries (finalizeAttribute st) = ld_entries st"
  "le_dn (ld_entry (finalizeAttribute st)) = le_dn (ld_entry st)"
  "ld_cont (finalizeAttribute st) = ld_cont st"
  by (simp_all add: finalizeAttribute_def)

lemma finalize_idem [simp]: "finalizeAttribute (finalizeAttribute st) = finalizeAttribute st"
  by (simp add: finalizeAttribute_def)

lemma ldif_attrs:
  "list_all (\<lambda>(n, b64, ps). attr_name_ok n b64 \<and> value_ok ps) as \<Longrightarrow> ld_name st \<noteq> [] \<or> ld_value st = [] \<Longrightarrow>
    \<exists>c. finalizeAttribute (foldl ldif_line st (concat (map attr_lines as)))
      = (finalizeAttribute st)\<lparr>ld_entry := (ld_entry (finalizeAttribute st))\<lparr>le_attributes :=
           fold push_attr (map attr_pair as) (le_attributes (ld_entry (finalizeAttribute st)))\<rparr>, ld_cont := c\<rparr>"
proof (induction as arbitrary: st)
  case Nil
  then show ?case by (simp, intro exI [of _ "ld_cont st"]) simp
next
  case (Cons a as)
  obtain n b64 ps where a: "a = (n, b64, ps)" by (cases a)
  have ok: "attr_name_ok n b64" "value_ok ps" using Cons.prems by (simp_all add: a)
  let ?s1 = "(finalizeAttribute st)\<lparr>ld_name := attr_key n b64, ld_value := concat ps, ld_cont := True\<rparr>"
  have k: "attr_key n b64 \<noteq> []" using attr_key_facts [OF ok(1)] by simp
  have f: "finalizeAttribute ?s1 = (finalizeAttribute st)\<lparr>ld_entry := (ld_entry (finalizeAttribute st))\<lparr>le_attributes :=
      push_attr (attr_pair a) (le_attributes (ld_entry (finalizeAttribute st)))\<rparr>, ld_cont := True\<rparr>"
    using k Cons.prems(2) by (simp add: finalizeAttribute_def a attr_pair_def)
  from Cons.IH [of ?s1] Cons.prems k obtain c where
    "finalizeAttribute (foldl ldif_line ?s1 (concat (map attr_lines as)))
      = (finalizeAttribute ?s1)\<lparr>ld_entry := (ld_entry (finalizeAttribute ?s1))\<lparr>le_attributes :=
           fold push_attr (map attr_pair as) (le_attributes (ld_entry (finalizeAttribute ?s1)))\<rparr>, ld_cont := c\<rparr>"
    by auto
  then show ?case unfolding f by (auto simp: a ldif_attr [OF ok] intro: exI [of _ c])
qed

text \<open>The state between entries.  A block without a name leaves its attributes behind.\<close>

definition residue :: "ldif_entry list \<Rightarrow> (string \<times> string list) list \<Rightarrow> ldif_state" where
  "residue es m = ldif_state0\<lparr>ld_entries := es, ld_entry := \<lparr>le_dn = [], le_attributes = m\<rparr>\<rparr>"

abbreviation clean :: "ldif_entry list \<Rightarrow> ldif_state" where
  "clean es \<equiv> residue es []"

definition entry_over :: "(string \<times> string list) list \<Rightarrow> ldif_source \<Rightarrow> ldif_entry" where
  "entry_over m e = \<lparr>le_dn = concat (src_dn e),
     le_attributes = fold push_attr ((''dn'', hd (src_dn e)) # map attr_pair (src_attrs e)) m\<rparr>"

lemma entry_of_over: "entry_of e = entry_over [] e"
  by (simp add: entry_of_def entry_over_def)

lemma ldif_entry_read:
  assumes "source_ok e"
  shows "foldl ldif_line (residue es m) (source_lines e) = clean (es @ [entry_over m e])"
proof -
  have v: "value_ok (src_dn e)" "hd (src_dn e) \<noteq> []" and as: "list_all (\<lambda>(n, b64, ps). attr_name_ok n b64 \<and> value_ok ps) (src_attrs e)"
    using assms by (simp_all add: source_ok_def)
  have dn: "concat (src_dn e) \<noteq> []" using v by (cases "src_dn e") (auto simp: value_ok_def)
  define s1 where "s1 = foldl ldif_line (residue es m) (folded ''dn: '' (src_dn e))"
  have s1: "s1 = (residue es m)\<lparr>ld_entry := \<lparr>le_dn = concat (src_dn e), le_attributes = m\<rparr>, ld_name := ''dn'',
      ld_value := hd (src_dn e), ld_cont := True\<rparr>"
    by (simp add: s1_def ldif_dn [OF v(1)] residue_def ldif_state0_def finalizeAttribute_def)
  define s2 where "s2 = foldl ldif_line s1 (concat (map attr_lines (src_attrs e)))"
  from ldif_attrs [OF as, of s1] obtain c where s2: "finalizeAttribute s2
      = (residue es m)\<lparr>ld_entry := entry_over m e, ld_cont := c\<rparr>"
    by (auto simp: s2_def s1 finalizeAttribute_def entry_over_def residue_def ldif_state0_def)
  have "ldif_line s2 [] = clean (es @ [entry_over m e])"
    unfolding ldif_line_def finalizeEntry_def s2 Let_def
    using dn by (simp add: chomp_def entry_over_def residue_def ldif_state0_def s2 finalizeEntry_def)
  then show ?thesis by (simp add: source_lines_def s1_def [symmetric] s2_def [symmetric])
qed

lemma ldif_block_read:
  assumes "list_all (\<lambda>(n, b64, ps). attr_name_ok n b64 \<and> value_ok ps) as"
  shows "foldl ldif_line (residue es m) (concat (map attr_lines as) @ [[]]) = residue es (fold push_attr (map attr_pair as) m)"
proof -
  define s2 where "s2 = foldl ldif_line (residue es m) (concat (map attr_lines as))"
  from ldif_attrs [OF assms, of "residue es m"] obtain c where s2: "finalizeAttribute s2
      = (residue es (fold push_attr (map attr_pair as) m))\<lparr>ld_cont := c\<rparr>"
    by (auto simp: s2_def finalizeAttribute_def residue_def ldif_state0_def)
  have "ldif_line s2 [] = residue es (fold push_attr (map attr_pair as) m)"
    unfolding ldif_line_def finalizeEntry_def s2 Let_def
    by (simp add: chomp_def residue_def ldif_state0_def s2 finalizeEntry_def)
  then show ?thesis by (simp add: s2_def [symmetric])
qed

lemma ldif_entries_read:
  "list_all source_ok es \<Longrightarrow> foldl ldif_line (clean xs) (concat (map source_lines es)) = clean (xs @ map entry_of es)"
  by (induction es arbitrary: xs) (simp_all add: ldif_entry_read entry_of_over)

lemma folded_lines: "value_ok ps \<Longrightarrow> NL \<notin> set start \<Longrightarrow> l \<in> set (folded start ps) \<Longrightarrow> NL \<notin> set l"
  by (cases ps) (auto simp: value_ok_def list_all_iff piece_ok_def)

lemma source_lines_ok:
  assumes "source_ok e" "l \<in> set (source_lines e)"
  shows "NL \<notin> set l"
proof -
  have a: "NL \<notin> set l" if "(n, b64, ps) \<in> set (src_attrs e)" "l \<in> set (attr_lines (n, b64, ps))" for n b64 ps
  proof -
    have "attr_name_ok n b64" "value_ok ps" using that(1) assms(1) by (auto simp: source_ok_def list_all_iff)
    then show ?thesis using that(2) folded_lines [of ps "n @ (if b64 then '':: '' else '': '')" l]
      by (cases b64) (simp_all add: attr_lines_def attr_name_ok_def piece_ok_def)
  qed
  have "NL \<notin> set l" if "l \<in> set (folded ''dn: '' (src_dn e))"
    using that assms(1) folded_lines [of "src_dn e" "''dn: ''" l] by (simp add: source_ok_def)
  then show ?thesis using a assms(2) by (auto simp: source_lines_def)
qed

lemma getlines_ldif: "list_all source_ok es \<Longrightarrow> getlines NL (ldif_text es) = concat (map source_lines es)"
  unfolding ldif_text_def by (intro getlines_text) (simp add: list_all_iff, blast dest: source_lines_ok)

lemma ldif_roundtrip_entries:
  assumes "list_all source_ok es"
  shows "parseLdifContent (ldif_text es) = map entry_of es"
proof -
  have "foldl ldif_line ldif_state0 (getlines NL (ldif_text es)) = clean (map entry_of es)"
    using ldif_entries_read [OF assms, of "[]"] by (simp add: getlines_ldif [OF assms] residue_def ldif_state0_def)
  then show ?thesis
    by (simp add: parseLdifContent_def finalizeEntry_def residue_def ldif_state0_def finalizeAttribute_def)
qed

subsection \<open>Line ends, blank lines and comments\<close>

text \<open>A text whose lines end in LF or in CRLF, each as it likes.\<close>

definition ended_text :: "(string \<times> bool) list \<Rightarrow> string" where
  "ended_text ls = concat (map (\<lambda>(l, crlf). l @ (if crlf then [CR] else []) @ [NL]) ls)"

text \<open>Comments aside, runs of blank lines count as one, and those at either end not at all.\<close>

fun squeeze :: "string list \<Rightarrow> string list" where
  "squeeze ([] # [] # ls) = squeeze ([] # ls)"
| "squeeze (l # ls) = l # squeeze ls"
| "squeeze [] = []"

definition logical_lines :: "string list \<Rightarrow> string list" where
  "logical_lines ls = rev (dropWhile (\<lambda>l. l = []) (rev (dropWhile (\<lambda>l. l = [])
     (squeeze (filter (\<lambda>l. take 1 l \<noteq> ''#'') ls)))))"

definition entries_read :: "string list \<Rightarrow> ldif_entry list" where
  "entries_read ls = ld_entries (finalizeEntry (foldl ldif_line ldif_state0 ls))"

lemma ldif_line_chomp: "chomp l = chomp l' \<Longrightarrow> ldif_line st l = ldif_line st l'"
  by (simp add: ldif_line_def)

lemma foldl_ldif_chomp: "map chomp ls = map chomp ls' \<Longrightarrow> foldl ldif_line st ls = foldl ldif_line st ls'"
proof (induction ls arbitrary: ls' st)
  case (Cons l ls)
  then obtain l' xs where "ls' = l' # xs" by (cases ls') auto
  with Cons show ?case by (simp add: ldif_line_chomp [of l l'])
qed simp

lemma chomp_crlf: "piece_ok l \<Longrightarrow> chomp (l @ [CR]) = chomp l"
  by (cases "l = []") (auto simp: chomp_def piece_ok_def dest: last_in_set)

lemma ldif_comment: "take 1 l = ''#'' \<Longrightarrow> ldif_line st l = st"
  by (cases l) (auto simp: ldif_line_def chomp_def)

lemma foldl_no_comments: "foldl ldif_line st (filter (\<lambda>l. take 1 l \<noteq> ''#'') ls) = foldl ldif_line st ls"
  by (induction ls arbitrary: st) (auto simp: ldif_comment)

lemma ldif_blank: "ldif_line st [] = (finalizeEntry st)\<lparr>ld_cont := False\<rparr>"
  by (simp add: ldif_line_def chomp_def)

lemma ldif_blank_idem [simp]: "ldif_line (ldif_line st []) [] = ldif_line st []"
  by (simp add: ldif_blank finalizeEntry_def finalizeAttribute_def Let_def)

lemma foldl_squeeze: "foldl ldif_line st (squeeze ls) = foldl ldif_line st ls"
  by (induction ls arbitrary: st rule: squeeze.induct) simp_all

lemma foldl_leading_blanks: "foldl ldif_line ldif_state0 (dropWhile (\<lambda>l. l = []) ls) = foldl ldif_line ldif_state0 ls"
proof -
  have "ldif_line ldif_state0 [] = ldif_state0"
    by (simp add: ldif_blank finalizeEntry_def finalizeAttribute_def ldif_state0_def)
  then show ?thesis by (induction ls) auto
qed

lemma entries_read_last_blank [simp]: "entries_read (ls @ [[]]) = entries_read ls"
  by (simp add: entries_read_def ldif_blank finalizeEntry_def finalizeAttribute_def Let_def)

lemma entries_read_trailing_blanks: "entries_read (rev (dropWhile (\<lambda>l. l = []) ls)) = entries_read (rev ls)"
  by (induction ls) auto

lemma entries_read_logical: "entries_read (logical_lines ls) = entries_read ls"
  unfolding logical_lines_def entries_read_trailing_blanks
  by (simp add: entries_read_def foldl_leading_blanks foldl_squeeze foldl_no_comments del: One_nat_def)

lemma getlines_ended:
  assumes "list_all piece_ok (map fst ls @ [l])"
  shows "getlines NL (ended_text ls @ l)
    = map (\<lambda>(l, crlf). l @ (if crlf then [CR] else [])) ls @ (if l = [] then [] else [l])"
  using assms
proof (induction ls)
  case Nil
  then show ?case using getlines_no_delim [of NL l] by (simp add: ended_text_def piece_ok_def)
next
  case (Cons x ls)
  obtain k crlf where x: "x = (k, crlf)" by (cases x)
  have "NL \<notin> set (k @ (if crlf then [CR] else []))" using Cons.prems by (simp add: x piece_ok_def)
  from getlines_cons [OF this, of "ended_text ls @ l"] Cons show ?case by (simp add: x ended_text_def)
qed

lemma entries_read_ended:
  assumes "list_all piece_ok (map fst ls @ [l])"
  shows "parseLdifContent (ended_text ls @ l) = entries_read (map fst ls @ [l])"
proof -
  have m: "map chomp (map (\<lambda>(l, crlf). l @ (if crlf then [CR] else [])) ls) = map chomp (map fst ls)"
    using assms by (induction ls) (auto simp: chomp_crlf)
  have e: "entries_read (map (\<lambda>(l, crlf). l @ (if crlf then [CR] else [])) ls @ xs) = entries_read (map fst ls @ xs)" for xs
    using foldl_ldif_chomp [OF m] by (simp add: entries_read_def)
  have "parseLdifContent (ended_text ls @ l)
      = entries_read (map (\<lambda>(l, crlf). l @ (if crlf then [CR] else [])) ls @ (if l = [] then [] else [l]))"
    unfolding parseLdifContent_def getlines_ended [OF assms] entries_read_def ..
  also have "\<dots> = entries_read (map fst ls @ (if l = [] then [] else [l]))" by (rule e)
  finally show ?thesis by (cases "l = []") simp_all
qed

lemma entries_read_sources: "list_all source_ok es \<Longrightarrow> entries_read (concat (map source_lines es)) = map entry_of es"
  using ldif_roundtrip_entries [of es] by (simp add: parseLdifContent_def getlines_ldif entries_read_def)

text \<open>C19. Reading back: an LDIF text of lines with name, colon, blank and value, the values folded anywhere, each line ended by LF or by CRLF and the
  last one by neither or by any number of blank lines, with comments between its lines, is read to its
  entries, each with its whole name and each attribute's values in order under its name, to which
  \<^verbatim>\<open>;binary\<close> is added when the value is base64.  The names are written as they are: an entry
  with a base64 name is not an \<^term>\<open>ldif_source\<close> (see \<open>base64_dn_leaks\<close>), nor is a
  version line.\<close>

theorem ldif_roundtrip:
  assumes "list_all source_ok es" and "list_all piece_ok (map fst ls @ [l])"
    and "logical_lines (map fst ls @ [l]) = logical_lines (concat (map source_lines es))"
  shows "parseLdifContent (ended_text ls @ l) = map entry_of es"
proof -
  have "parseLdifContent (ended_text ls @ l) = entries_read (logical_lines (map fst ls @ [l]))"
    unfolding entries_read_ended [OF assms(2)] entries_read_logical ..
  also have "\<dots> = entries_read (concat (map source_lines es))" unfolding assms(3) entries_read_logical ..
  finally show ?thesis unfolding entries_read_sources [OF assms(1)] .
qed

subsection \<open>The preview of the same text\<close>

definition bump :: "string \<Rightarrow> entry_state \<Rightarrow> entry_state" where
  "bump rawLine st = st\<lparr>en_bytes := en_bytes st + length rawLine + 1, en_line := en_line st + 1\<rparr>"

definition preview_step :: "entry_state \<Rightarrow> string \<Rightarrow> entry_state" where
  "preview_step st l = preview_line (bump l st) l"

lemma preview_lines_step:
  "\<forall>l \<in> set xs. l \<noteq> [] \<and> chomp l = l \<Longrightarrow> preview_lines (xs @ ls) st = preview_lines ls (foldl preview_step st xs)"
  by (induction xs arbitrary: st) (simp_all add: preview_step_def bump_def Let_def)

text \<open>What matters of a state: entry, pending attribute, flags.  The line number and the byte count are
  determined by the lines read.\<close>

lemma bump_simps [simp]:
  "en_entry (bump l st) = en_entry st" "en_name (bump l st) = en_name st" "en_value (bump l st) = en_value st"
  "en_cont (bump l st) = en_cont st" "en_dnCont (bump l st) = en_dnCont st" "en_started (bump l st) = en_started st"
  "en_bytes (bump l st) = en_bytes st + length l + 1"
  by (simp_all add: bump_def)

lemma preview_line_bytes [simp]: "en_bytes (preview_line st l) = en_bytes st"
  by (auto simp: preview_line_def preview_finalize_def Let_def split: list.splits option.splits)

lemma preview_bytes: "en_bytes (foldl preview_step st xs) = en_bytes st + length (lines_text xs)"
  by (induction xs arbitrary: st) (simp_all add: preview_step_def lines_text_def)

lemma preview_finalize_simps [simp]:
  "en_name (preview_finalize st) = []" "en_started (preview_finalize st) = en_started st"
  "es_dn (en_entry (preview_finalize st)) = es_dn (en_entry st)" "en_bytes (preview_finalize st) = en_bytes st"
  "es_attributes (en_entry (preview_finalize st)) = es_attributes (en_entry st) @
     (if en_name st = [] then [] else [preview_attribute (en_name st) (en_value st)])"
  by (simp_all add: preview_finalize_def)

lemma preview_continuations:
  "en_cont st \<Longrightarrow> \<not> en_dnCont st \<Longrightarrow>
   (let st' = foldl preview_step st (map (\<lambda>q. CHR '' '' # q) ps)
    in en_entry st' = en_entry st \<and> en_name st' = en_name st \<and> en_value st' = en_value st @ concat ps
      \<and> en_started st' = en_started st)"
  by (induction ps arbitrary: st) (simp_all add: preview_step_def preview_line_def Let_def)

lemma preview_dn_continuations:
  "en_cont st \<Longrightarrow> en_dnCont st \<Longrightarrow>
   (let st' = foldl preview_step st (map (\<lambda>q. CHR '' '' # q) ps)
    in es_dn (en_entry st') = es_dn (en_entry st) @ concat ps \<and> es_attributes (en_entry st') = es_attributes (en_entry st)
      \<and> en_name st' = en_name st \<and> en_value st' = en_value st \<and> en_started st' = en_started st)"
  by (induction ps arbitrary: st) (simp_all add: preview_step_def preview_line_def Let_def)

lemma preview_attr:
  assumes "attr_name_ok n b64" "value_ok ps"
  shows "let st' = foldl preview_step st (attr_lines (n, b64, ps))
    in en_name st' = attr_key n b64 \<and> en_value st' = concat ps \<and> en_started st' = en_started st
      \<and> es_dn (en_entry st') = es_dn (en_entry st)
      \<and> es_attributes (en_entry st') = es_attributes (en_entry (preview_finalize st))"
proof -
  obtain p qs where ps: "ps = p # qs" using assms(2) by (cases ps) (auto simp: value_ok_def)
  let ?l = "n @ (if b64 then '':: '' else '': '') @ p"
  have l: "attr_of_line ?l = Some (attr_key n b64, p)" "\<exists>c r. ?l = c # r \<and> c \<noteq> CHR ''#'' \<and> c \<noteq> CHR '' ''"
    using attr_first_line [of n p b64] assms by (auto simp: ps value_ok_def attr_name_ok_def)
  note k = attr_key_facts [OF assms(1)]
  obtain c r where cr: "?l = c # r" "c \<noteq> CHR ''#''" "c \<noteq> CHR '' ''" using l(2) by blast
  have "preview_step st ?l = (preview_finalize (bump ?l st))\<lparr>en_name := attr_key n b64, en_value := p, en_cont := True, en_dnCont := False\<rparr>"
    using l(1) cr(2,3) k unfolding preview_step_def preview_line_def Let_def cr(1) by simp
  then show ?thesis
    using preview_continuations [of "preview_step st ?l" qs] by (simp add: attr_lines_def ps Let_def)
qed

lemma preview_attrs:
  "list_all (\<lambda>(n, b64, ps). attr_name_ok n b64 \<and> value_ok ps) as \<Longrightarrow>
   (let st' = foldl preview_step st (concat (map attr_lines as))
    in en_started st' = en_started st \<and> es_dn (en_entry st') = es_dn (en_entry st)
      \<and> es_attributes (en_entry (preview_finalize st')) = es_attributes (en_entry (preview_finalize st))
          @ map (\<lambda>a. case_prod preview_attribute (attr_pair a)) as)"
proof (induction as arbitrary: st)
  case (Cons a as)
  obtain n b64 ps where a: "a = (n, b64, ps)" by (cases a)
  have ok: "attr_name_ok n b64" "value_ok ps" using Cons.prems by (simp_all add: a)
  let ?s1 = "foldl preview_step st (attr_lines a)"
  note p = preview_attr [OF ok, of st, folded a, unfolded Let_def]
  have "es_attributes (en_entry (preview_finalize ?s1))
      = es_attributes (en_entry (preview_finalize st)) @ [case_prod preview_attribute (attr_pair a)]"
    using p attr_key_facts [OF ok(1)] by (simp add: a attr_pair_def)
  then show ?case using Cons.IH [of ?s1] Cons.prems p by (simp add: Let_def)
qed (simp add: Let_def)

lemma source_lines_split:
  assumes "source_ok e" "l \<in> set (folded ''dn: '' (src_dn e)) \<union> \<Union> (set (map (set \<circ> attr_lines) (src_attrs e)))"
  shows "l \<noteq> [] \<and> chomp l = l"
proof -
  have f: "l \<noteq> [] \<and> chomp l = l" if "value_ok ps" "l \<in> set (folded start ps)" "start \<noteq> []" "last start \<noteq> CR" for ps l start
  proof -
    note h = that
    obtain p qs where ps: "ps = p # qs" "piece_ok p" "list_all piece_ok qs" using h(1) by (cases ps) (auto simp: value_ok_def)
    have "last q \<noteq> CR" if "piece_ok q" "q \<noteq> []" for q using that by (auto simp: piece_ok_def dest: last_in_set)
    then show ?thesis using ps h(2-4)
      by (auto simp: list_all_iff piece_ok_def last_append intro!: chomp_id split: if_splits)
  qed
  have a: "l \<noteq> [] \<and> chomp l = l" if "(n, b64, ps) \<in> set (src_attrs e)" "l \<in> set (attr_lines (n, b64, ps))" for n b64 ps
  proof -
    have "value_ok ps" using that(1) assms(1) by (auto simp: source_ok_def list_all_iff)
    then show ?thesis using that(2) f [of ps l "n @ (if b64 then '':: '' else '': '')"]
      by (cases b64) (simp_all add: attr_lines_def)
  qed
  show ?thesis using a f [of "src_dn e" l "''dn: ''"] assms by (auto simp: source_ok_def)
qed

text \<open>One entry of the preview.\<close>

definition preview_of :: "ldif_source \<Rightarrow> ldif_attribute list" where
  "preview_of e = map (\<lambda>a. case_prod preview_attribute (attr_pair a)) (src_attrs e)"

lemma preview_entry_read:
  assumes "source_ok e"
  shows "\<exists>st. preview_lines (source_lines e @ ls) (entry_state0 pos n) = (Some (pos + length (lines_text (source_lines e))), st)
    \<and> es_dn (en_entry st) = concat (src_dn e) \<and> es_attributes (en_entry st) = preview_of e"
proof -
  have v: "value_ok (src_dn e)" and as: "list_all (\<lambda>(n, b64, ps). attr_name_ok n b64 \<and> value_ok ps) (src_attrs e)"
    using assms by (simp_all add: source_ok_def)
  obtain p qs where ps: "src_dn e = p # qs" using v by (cases "src_dn e") (auto simp: value_ok_def)
  let ?xs = "folded ''dn: '' (src_dn e) @ concat (map attr_lines (src_attrs e))"
  let ?s0 = "entry_state0 pos n"
  have l: "attr_of_line (''dn: '' @ p) = Some (''dn'', p)"
    using attr_first_line [of "''dn''" p False] v by (auto simp: ps value_ok_def piece_ok_def attr_key_def)
  define s1 where "s1 = foldl preview_step ?s0 (folded ''dn: '' (src_dn e))"
  have f: "preview_step ?s0 (''dn: '' @ p) = (bump (''dn: '' @ p) ?s0)\<lparr>en_entry := (en_entry ?s0)\<lparr>es_dn := p,
      es_lineNumber := n\<rparr>, en_started := True, en_cont := True, en_dnCont := True, en_name := [], en_value := []\<rparr>"
    using l by (simp add: preview_step_def preview_line_def Let_def entry_state0_def preview_finalize_def bump_def)
  have s1: "es_dn (en_entry s1) = concat (src_dn e)" "es_attributes (en_entry s1) = []" "en_name s1 = []" "en_started s1"
    using preview_dn_continuations [of "preview_step ?s0 (''dn: '' @ p)" qs] f
    by (simp_all add: s1_def ps Let_def entry_state0_def)
  define s2 where "s2 = foldl preview_step s1 (concat (map attr_lines (src_attrs e)))"
  have s2: "en_started s2" "es_dn (en_entry s2) = concat (src_dn e)" "es_attributes (en_entry (preview_finalize s2)) = preview_of e"
    using preview_attrs [OF as, of s1] s1 by (simp_all add: s2_def Let_def preview_of_def)
  have "preview_lines (source_lines e @ ls) ?s0 = preview_lines ([] # ls) s2"
    using preview_lines_step [of ?xs "[] # ls" ?s0] source_lines_split [OF assms]
    by (auto simp: source_lines_def s1_def s2_def)
  moreover have "en_bytes s2 + 1 = pos + length (lines_text (source_lines e))"
    using preview_bytes [of ?s0 ?xs] by (simp add: source_lines_def s1_def s2_def entry_state0_def lines_text_def)
  moreover have c: "chomp [] = []" by (simp add: chomp_def)
  let ?s3 = "s2\<lparr>en_bytes := en_bytes s2 + 1, en_line := en_line s2 + 1\<rparr>"
  have "preview_lines ([] # ls) s2 = (Some (en_bytes s2 + 1), preview_finalize ?s3)"
    using s2(1) by (simp add: c Let_def preview_finalize_def)
  moreover have "en_entry (preview_finalize ?s3) = en_entry (preview_finalize s2)" by (simp add: preview_finalize_def)
  ultimately show ?thesis using s2 by auto
qed

text \<open>The loop over entries, with text after them.\<close>

lemma getlines_ldif_rest:
  assumes "list_all source_ok es"
  shows "getlines NL (ldif_text es @ rest) = concat (map source_lines es) @ getlines NL rest"
proof -
  have "getlines NL (lines_text ls @ rest) = ls @ getlines NL rest" if "\<forall>l \<in> set ls. NL \<notin> set l" for ls
    using that
  proof (induction ls)
    case (Cons l ls)
    then show ?case using getlines_cons [of NL l "lines_text ls @ rest"] by (simp add: lines_text_def)
  qed (simp add: lines_text_def)
  moreover have "\<forall>l \<in> set (concat (map source_lines es)). NL \<notin> set l"
    using assms by (auto simp: list_all_iff dest: source_lines_ok)
  ultimately show ?thesis by (simp add: ldif_text_def)
qed

lemma ldif_text_simps [simp]: "ldif_text [] = []" "ldif_text (e # es) = lines_text (source_lines e) @ ldif_text es"
  by (simp_all add: ldif_text_def lines_text_def)

lemma lines_text_pos: "source_lines e \<noteq> [] \<and> lines_text (source_lines e) \<noteq> []"
  by (simp add: source_lines_def lines_text_def)

definition shown :: "ldif_structure \<Rightarrow> (string \<times> ldif_attribute list) list" where
  "shown s = map (\<lambda>e. (es_dn e, es_attributes e)) (lf_entries s)"

lemma shown_add [simp]: "shown (add_preview e s) = shown s @ [(es_dn e, es_attributes e)]"
  "lf_totalEntries (add_preview e s) = lf_totalEntries s" "lf_truncated (add_preview e s) = lf_truncated s"
  by (simp_all add: shown_def add_preview_def Let_def)

definition source_shown :: "ldif_source \<Rightarrow> string \<times> ldif_attribute list" where
  "source_shown e = (concat (src_dn e), preview_of e)"

lemma parse_loop_entries:
  "list_all source_ok es \<Longrightarrow> int (length es) \<le> maxE - cnt \<Longrightarrow>
    \<exists>ln' r'. parse_loop (pre @ ldif_text es @ rest) maxE (Some (length pre)) ln cnt r
        = parse_loop (pre @ ldif_text es @ rest) maxE (Some (length (pre @ ldif_text es))) ln' (cnt + int (length es)) r'
      \<and> shown r' = shown r @ map source_shown es \<and> lf_totalEntries r' = lf_totalEntries r \<and> lf_truncated r' = lf_truncated r"
proof (induction es arbitrary: pre cnt ln r)
  case (Cons e es)
  let ?c = "pre @ ldif_text (e # es) @ rest"
  let ?p = "length pre + length (lines_text (source_lines e))"
  have "getlines NL (ldif_text (e # es) @ rest) = source_lines e @ concat (map source_lines es) @ getlines NL rest"
    using getlines_ldif_rest [OF Cons.prems(1), of rest] by simp
  then obtain st where st: "preview_lines (getlines NL (ldif_text (e # es) @ rest)) (entry_state0 (length pre) ln) = (Some ?p, st)"
    "es_dn (en_entry st) = concat (src_dn e)" "es_attributes (en_entry st) = preview_of e"
    using preview_entry_read [of e "concat (map source_lines es) @ getlines NL rest" "length pre" ln] Cons.prems(1) by auto
  have pe: "parseEntry ?c (length pre) ln = Inr (Some ?p, en_line st, en_entry st)"
    unfolding parseEntry_def substr_end_drop using st(1) by simp
  have "concat (src_dn e) \<noteq> []"
    using Cons.prems(1) by (cases "src_dn e") (auto simp: source_ok_def value_ok_def)
  then have 1: "parse_loop ?c maxE (Some (length pre)) ln cnt r
      = parse_loop ?c maxE (Some ?p) (en_line st) (cnt + 1) (add_preview (en_entry st) r)"
    using Cons.prems(2) lines_text_pos [of e] by (simp add: pe st(2) parse_loop.simps(2) del: ldif_text_simps)
  have "list_all source_ok es" "int (length es) \<le> maxE - (cnt + 1)" using Cons.prems by simp_all
  from Cons.IH [OF this, of "pre @ lines_text (source_lines e)" "en_line st" "add_preview (en_entry st) r"] 1 show ?case
    by (auto simp: st source_shown_def algebra_simps)
qed auto

lemma count_entries_skip: "\<forall>l \<in> set xs. l \<noteq> [] \<and> chomp l = l \<Longrightarrow> count_entries (xs @ ls) n True = count_entries ls n True"
  by (induction xs) (simp_all add: Let_def)

lemma count_entry:
  assumes "source_ok e"
  shows "count_entries (source_lines e @ ls) n False = count_entries ls (n + 1) False"
proof -
  obtain p qs where ps: "src_dn e = p # qs" using assms by (cases "src_dn e") (auto simp: source_ok_def value_ok_def)
  let ?xs = "map (\<lambda>q. CHR '' '' # q) qs @ concat (map attr_lines (src_attrs e))"
  have s: "source_lines e = (''dn: '' @ p) # ?xs @ [[]]" by (simp add: source_lines_def ps)
  have ok: "l \<noteq> [] \<and> chomp l = l" if "l \<in> set ((''dn: '' @ p) # ?xs)" for l
    using source_lines_split [OF assms, of l] that by (auto simp: ps)
  have "count_entries (source_lines e @ ls) n False = count_entries (?xs @ [] # ls) n True"
    using ok [of "''dn: '' @ p"] by (simp add: s Let_def)
  also have "\<dots> = count_entries ([] # ls) n True" using ok by (intro count_entries_skip) auto
  also have "\<dots> = count_entries ls (n + 1) False" by (simp add: chomp_def)
  finally show ?thesis .
qed

lemma countEntries_text:
  assumes "list_all source_ok es"
  shows "countEntries (ldif_text es) = int (length es)"
proof -
  have "count_entries (concat (map source_lines es)) n False = n + int (length es)" for n
    using assms by (induction es arbitrary: n) (simp_all add: count_entry)
  then show ?thesis by (simp add: countEntries_def getlines_ldif [OF assms])
qed

lemma parse_loop_end: "parse_loop c maxE (Some (length c)) ln cnt r = Inr r"
proof -
  have "parseEntry c (length c) ln = Inr (None, ln, en_entry (entry_state0 (length c) ln))"
    by (simp add: parseEntry_def substr_end_def entry_state0_def Let_def)
  then show ?thesis by (simp add: parse_loop.simps(2) entry_state0_def)
qed

text \<open>The preview shows what will be stored: on an LDIF text the preview parser gives the names of
  the first \<open>maxEntries\<close> entries that \<^verbatim>\<open>parseLdifContent\<close> reads, in order, counts all of
  them, and says truthfully whether some were left out.\<close>

theorem preview_agrees:
  assumes "list_all source_ok es" and "es \<noteq> []" and "0 \<le> maxEntries"
  shows "\<exists>s. parse_ldif (Some (ldif_text es)) maxEntries = Inr s
    \<and> map es_dn (lf_entries s) = take (nat maxEntries) (map le_dn (parseLdifContent (ldif_text es)))
    \<and> map es_attributes (lf_entries s) = take (nat maxEntries) (map preview_of es)
    \<and> lf_totalEntries s = int (length es) \<and> (lf_truncated s \<longleftrightarrow> length (lf_entries s) < length es)"
proof -
  let ?n = "nat maxEntries" and ?c = "ldif_text es"
  let ?r = "\<lparr>lf_entries = [], lf_objectClassCounts = [], lf_totalEntries = int (length es), lf_totalAttributes = 0,
    lf_truncated = (maxEntries < int (length es))\<rparr>"
  have ne: "?c \<noteq> []" using assms(2) lines_text_pos by (cases es) auto
  have c2: "ldif_text (take ?n es) @ ldif_text (drop ?n es) = ?c"
    by (metis append_take_drop_id concat_append ldif_text_def lines_text_append map_append)
  have ok: "list_all source_ok (take ?n es)" using assms(1) by (auto simp: list_all_iff dest: in_set_takeD)
  have le: "int (length (take ?n es)) \<le> maxEntries - 0" using assms(3) by simp
  obtain ln' r' where
    l: "parse_loop ?c maxEntries (Some 0) 1 0 ?r
        = parse_loop ?c maxEntries (Some (length (ldif_text (take ?n es)))) ln' (int (length (take ?n es))) r'"
    "shown r' = shown ?r @ map source_shown (take ?n es)" "lf_totalEntries r' = lf_totalEntries ?r"
    "lf_truncated r' = lf_truncated ?r"
    using parse_loop_entries [OF ok le, of "[]" "ldif_text (drop ?n es)" 1 ?r] unfolding append_Nil c2 list.size(3) add_0 by blast
  have sr: "shown ?r = []" by (simp add: shown_def)
  have "parse_loop ?c maxEntries (Some (length (ldif_text (take ?n es)))) ln' (int (length (take ?n es))) r' = Inr r'"
  proof (cases "length es < ?n")
    case True
    then show ?thesis using parse_loop_end [of ?c] by simp
  next
    case False
    then show ?thesis using assms(3) by (simp add: parse_loop.simps(2))
  qed
  then have p: "parse_ldif (Some ?c) maxEntries = Inr r'"
    using l(1) ne by (simp add: parse_ldif_def countEntries_text [OF assms(1)])
  have d: "map es_dn (lf_entries r') = map fst (shown r')" "map es_attributes (lf_entries r') = map snd (shown r')"
    by (simp_all add: shown_def)
  have len: "length (lf_entries r') = min (length es) ?n" using arg_cong [OF l(2), of length] by (simp add: shown_def)
  show ?thesis using p d l(2-4) len assms(3) sr
    by (intro exI [of _ r']) (auto simp: source_shown_def ldif_roundtrip_entries [OF assms(1)] take_map entry_of_def comp_def)
qed

section \<open>Where the readers fail\<close>

lemma map_of_pushes:
  "map_of (fold push_attr kvs m) k =
     (let vs = map snd (filter (\<lambda>kv. fst kv = k) kvs)
      in if vs = [] then map_of m k else Some ((case map_of m k of Some v \<Rightarrow> v | None \<Rightarrow> []) @ vs))"
  by (induction kvs arbitrary: m) (auto simp: push_attr_def Let_def split: option.splits)

definition block_text :: "(string \<times> bool \<times> string list) list \<Rightarrow> string" where
  "block_text as = lines_text (concat (map attr_lines as) @ [[]])"

lemma getlines_block_ldif:
  assumes "list_all (\<lambda>(n, b64, ps). attr_name_ok n b64 \<and> value_ok ps) as" "list_all source_ok es"
  shows "getlines NL (block_text as @ ldif_text es) = concat (map attr_lines as) @ [[]] @ concat (map source_lines es)"
proof -
  have "NL \<notin> set l" if "(n, b64, ps) \<in> set as" "l \<in> set (attr_lines (n, b64, ps))" for n b64 ps l
  proof -
    have "attr_name_ok n b64" "value_ok ps" using that(1) assms(1) by (auto simp: list_all_iff)
    then show ?thesis using that(2) folded_lines [of ps "n @ (if b64 then '':: '' else '': '')" l]
      by (cases b64) (simp_all add: attr_lines_def attr_name_ok_def piece_ok_def)
  qed
  then have "\<forall>l \<in> set (concat (map attr_lines as) @ [[]] @ concat (map source_lines es)). NL \<notin> set l"
    using assms(2) by (auto simp: list_all_iff dest: source_lines_ok)
  then show ?thesis
    using getlines_text [of "concat (map attr_lines as) @ [[]] @ concat (map source_lines es)"]
    by (simp add: block_text_def ldif_text_def list_all_iff lines_text_def)
qed

text \<open>An entry whose name is base64 (\<^verbatim>\<open>dn:: ...\<close>, which RFC 2849 requires for names outside
  ASCII) is lost and its attributes leak into the next entry: its name is not recorded, and the first
  value of each of its attributes, its certificate above all, is what
  \<^verbatim>\<open>getFirstAttribute\<close> returns for the next entry, whose own value is not read.\<close>

theorem base64_dn_leaks:
  assumes "list_all (\<lambda>(n, b64, ps). attr_name_ok n b64 \<and> value_ok ps) ((''dn'', True, dnps) # as)"
    and "list_all source_ok (e # es)"
  shows "parseLdifContent (block_text ((''dn'', True, dnps) # as) @ ldif_text (e # es))
      = entry_over (fold push_attr (map attr_pair ((''dn'', True, dnps) # as)) []) e # map entry_of es
    \<and> (\<forall>a. find (\<lambda>a. fst (attr_pair a) = k) as = Some a \<and> k \<noteq> ''dn;binary'' \<longrightarrow>
         getFirstAttribute (hd (parseLdifContent (block_text ((''dn'', True, dnps) # as) @ ldif_text (e # es)))) k = snd (attr_pair a))"
proof -
  let ?as = "(''dn'', True, dnps) # as"
  let ?m = "fold push_attr (map attr_pair ?as) []"
  have "foldl ldif_line ldif_state0 (getlines NL (block_text ?as @ ldif_text (e # es)))
      = foldl ldif_line (foldl ldif_line (residue [] []) (concat (map attr_lines ?as) @ [[]])) (concat (map source_lines (e # es)))"
    unfolding getlines_block_ldif [OF assms] by (simp add: residue_def ldif_state0_def)
  also have "\<dots> = foldl ldif_line (foldl ldif_line (residue [] ?m) (source_lines e)) (concat (map source_lines es))"
    unfolding ldif_block_read [OF assms(1)] by simp
  also have "\<dots> = clean (entry_over ?m e # map entry_of es)"
    using ldif_entry_read [of e] ldif_entries_read [of es] assms(2) by simp
  finally have p: "parseLdifContent (block_text ?as @ ldif_text (e # es)) = entry_over ?m e # map entry_of es"
    by (simp add: parseLdifContent_def finalizeEntry_def residue_def ldif_state0_def finalizeAttribute_def)
  have "getFirstAttribute (entry_over ?m e) k = snd (attr_pair a)"
    if f: "find (\<lambda>a. fst (attr_pair a) = k) as = Some a" "k \<noteq> ''dn;binary''" for a
  proof -
    let ?vs = "map snd (filter (\<lambda>kv. fst kv = k) (map attr_pair as))"
    have v: "\<exists>vs. ?vs = snd (attr_pair a) # vs" using f(1) by (induction as) (auto split: if_splits)
    have "fst (attr_pair (''dn'', True, dnps)) = ''dn;binary''"
      by (simp add: attr_pair_def attr_key_def str_find_def)
    then have m: "map_of ?m k = Some ?vs" unfolding map_of_pushes using v f(2) by (auto simp: Let_def)
    have "\<exists>ws. map_of (le_attributes (entry_over ?m e)) k = Some (?vs @ ws)"
      unfolding entry_over_def ldif_entry.simps map_of_pushes [of _ ?m] m by (simp add: Let_def)
    then show ?thesis using v by (auto simp: getFirstAttribute_def)
  qed
  then show ?thesis using p by simp
qed

text \<open>A file whose last line has no line end cannot be previewed: when its entries do not exceed
  \<open>maxEntries\<close>, the parser reads on past the end of the text and \<^verbatim>\<open>substr\<close> throws.\<close>

theorem preview_needs_final_newline:
  assumes "list_all source_ok es" and "source_ok e" and "int (length es) + 1 < maxEntries"
    and "source_lines e = ls @ [l, []]" and "l \<noteq> []"
  shows "parse_ldif (Some (ldif_text es @ lines_text ls @ l)) maxEntries = Inl Out_Of_Range"
proof -
  let ?c = "ldif_text es @ lines_text ls @ l"
  obtain p qs where ps: "src_dn e = p # qs" using assms(2) by (cases "src_dn e") (auto simp: source_ok_def value_ok_def)
  let ?r = "\<lparr>lf_entries = [], lf_objectClassCounts = [], lf_totalEntries = countEntries ?c, lf_totalAttributes = 0,
    lf_truncated = (maxEntries < countEntries ?c)\<rparr>"
  obtain ln' r' where l: "parse_loop ?c maxEntries (Some 0) 1 0 ?r
        = parse_loop ?c maxEntries (Some (length (ldif_text es))) ln' (0 + int (length es)) r'"
    using parse_loop_entries [of es maxEntries 0 "[]" "lines_text ls @ l" 1 ?r] assms(1,3) by auto
  have nl: "NL \<notin> set x" if "x \<in> set (ls @ [l])" for x
    using source_lines_ok [OF assms(2), of x] that by (auto simp: assms(4))
  have g: "getlines NL (lines_text ls @ l) = ls @ [l]" using nl
  proof (induction ls)
    case Nil
    then show ?case using getlines_no_delim [of NL l] assms(5) by (simp add: lines_text_def)
  next
    case (Cons x ls)
    then show ?case using getlines_cons [of NL x "lines_text ls @ l"] by (simp add: lines_text_def)
  qed
  let ?p = "length (ldif_text es)" and ?s0 = "entry_state0 (length (ldif_text es)) ln'"
  obtain st where st: "preview_lines (source_lines e @ []) ?s0 = (Some (?p + length (lines_text (source_lines e))), st)"
    "es_dn (en_entry st) = concat (src_dn e)"
    using preview_entry_read [OF assms(2)] by blast
  have xs: "ls @ [l] = folded ''dn: '' (src_dn e) @ concat (map attr_lines (src_attrs e))"
    using assms(4) by (simp add: source_lines_def)
  have ok: "\<forall>x \<in> set (ls @ [l]). x \<noteq> [] \<and> chomp x = x"
    unfolding xs using source_lines_split [OF assms(2)] by auto
  define F where "F = foldl preview_step ?s0 (ls @ [l])"
  have c: "chomp [] = []" by (simp add: chomp_def)
  have f1: "preview_lines [[]] F = (Some (?p + length (lines_text (source_lines e))), st)"
    using preview_lines_step [OF ok, of "[[]]" ?s0] st(1) by (simp add: assms(4) F_def)
  have started: "en_started F" using f1 by (cases "en_started F") (simp_all add: c Let_def)
  have f2: "preview_lines (ls @ [l]) ?s0 = (Some (en_bytes F), preview_finalize F)"
    using preview_lines_step [OF ok, of "[]" ?s0] started by (simp add: Let_def F_def)
  have "st = preview_finalize (F\<lparr>en_bytes := en_bytes F + 1, en_line := en_line F + 1\<rparr>)"
    using f1 started by (auto simp: c Let_def)
  then have dn: "es_dn (en_entry (preview_finalize F)) = concat (src_dn e)" using st(2) by simp
  have b: "en_bytes F = length ?c + 1"
    using preview_bytes [of ?s0 "ls @ [l]"] by (simp add: F_def entry_state0_def lines_text_def)
  have pe: "parseEntry ?c ?p ln' = Inr (Some (length ?c + 1), en_line (preview_finalize F), en_entry (preview_finalize F))"
    unfolding parseEntry_def substr_end_drop using f2 by (simp add: g b)
  have past: "parseEntry ?c m n = Inl Out_Of_Range" if "length ?c < m" for m n
    using that by (simp add: parseEntry_def substr_end_def)
  have ne: "concat (src_dn e) \<noteq> []" "?c \<noteq> []" using assms(2,5) by (auto simp: ps source_ok_def)
  have "parse_loop ?c maxEntries (Some ?p) ln' (0 + int (length es)) r' = Inl Out_Of_Range"
    using assms(3) ne(1) dn by (subst parse_loop.simps) (simp add: pe past parse_loop.simps(2) del: foldl_append)
  then show ?thesis using l ne(2) by (simp add: parse_ldif_def)
qed

section \<open>A small file\<close>

definition demo_source :: ldif_source where
  "demo_source = \<lparr>src_dn = [''cn=A,c='', ''KR''], src_attrs = [(''objectClass'', False, [''pkdDownload'']),
     (''userCertificate;binary'', True, [''MIIB'', ''AAAA''])]\<rparr>"

lemma demo_source_ok: "list_all source_ok [demo_source]"
  by (simp add: source_ok_def demo_source_def value_ok_def piece_ok_def attr_name_ok_def)

text \<open>The file ends in the middle of a line, has a comment in CRLF and two blank lines in front.\<close>

definition demo_lines :: "(string \<times> bool) list" where
  "demo_lines = [([], True), ([], False), (''# exported'', True), (''dn: cn=A,c='', True), ('' KR'', False),
     (''objectClass: pkdDownload'', True), (''userCertificate;binary:: MIIB'', True)]"

lemma ldif_roundtrip_witness: "parseLdifContent (ended_text demo_lines @ '' AAAA'') = [entry_of demo_source]"
proof -
  have "list_all piece_ok (map fst demo_lines @ ['' AAAA''])" by (simp add: demo_lines_def piece_ok_def)
  moreover have "logical_lines (map fst demo_lines @ ['' AAAA'']) = logical_lines (concat (map source_lines [demo_source]))"
    by (simp add: demo_lines_def demo_source_def source_lines_def attr_lines_def logical_lines_def)
  ultimately show ?thesis using ldif_roundtrip [OF demo_source_ok] by simp
qed

lemma preview_agrees_witness:
  "\<exists>s. parse_ldif (Some (ldif_text [demo_source])) 10 = Inr s \<and> map es_dn (lf_entries s) = [''cn=A,c=KR'']"
proof -
  have "map le_dn (parseLdifContent (ldif_text [demo_source])) = [''cn=A,c=KR'']"
    unfolding ldif_roundtrip_entries [OF demo_source_ok] by (simp add: entry_of_def demo_source_def)
  then show ?thesis using preview_agrees [OF demo_source_ok, of 10] by (auto simp del: ldif_text_simps)
qed

lemma base64_dn_leaks_witness:
  "getFirstAttribute (hd (parseLdifContent (block_text [(''dn'', True, [''Y249'']), (''userCertificate;binary'', True, [''LOST''])]
     @ ldif_text [demo_source]))) ''userCertificate;binary'' = ''LOST''"
proof -
  have ok: "list_all (\<lambda>(n, b64, ps). attr_name_ok n b64 \<and> value_ok ps) [(''dn'', True, [''Y249'']), (''userCertificate;binary'', True, [''LOST''])]"
    by (simp add: attr_name_ok_def value_ok_def piece_ok_def)
  have k: "attr_pair (''userCertificate;binary'', True, [''LOST'']) = (''userCertificate;binary'', ''LOST'')"
    by (simp add: attr_pair_def attr_key_def str_find_def)
  show ?thesis
    using conjunct2 [OF base64_dn_leaks [OF ok demo_source_ok], rule_format, of "''userCertificate;binary''"
        "(''userCertificate;binary'', True, [''LOST''])"] k by simp
qed

lemma preview_needs_final_newline_witness:
  "parse_ldif (Some (lines_text [''dn: cn=A'', ''cn: A''] @ ''o: B'')) 100 = Inl Out_Of_Range"
proof -
  let ?e = "\<lparr>src_dn = [''cn=A''], src_attrs = [(''cn'', False, [''A'']), (''o'', False, [''B''])]\<rparr>"
  have "source_ok ?e" by (simp add: source_ok_def value_ok_def piece_ok_def attr_name_ok_def)
  moreover have "source_lines ?e = [''dn: cn=A'', ''cn: A''] @ [''o: B'', []]" by (simp add: source_lines_def attr_lines_def)
  ultimately show ?thesis using preview_needs_final_newline [of "[]" ?e 100 "[''dn: cn=A'', ''cn: A'']" "''o: B''"] by simp
qed

end
