(* ===== verification/Icao_Status.thy ===== *)
theory Icao_Status
  imports Interfaces "HOL-Library.Signed_Division"
begin

text \<open>
  \<^verbatim>\<open>checkIcaoCompliance\<close> of
  \<^verbatim>\<open>services/pkd-management/src/common/progress_manager.cpp\<close>: the technical checks of ICAO
  Doc 9303 on one certificate.  What the check reads of the certificate through OpenSSL is the
  record \<open>icao_facts\<close>.
\<close>

section \<open>Data\<close>

record x509_metadata =
  xm_version :: int
  xm_signatureAlgorithm :: string
  xm_signatureHashAlgorithm :: string
  xm_publicKeyAlgorithm :: string
  xm_publicKeySize :: int
  xm_publicKeyCurve :: "string option"
  xm_keyUsage :: "string list"
  xm_extendedKeyUsage :: "string list"
  xm_isCA :: bool
  xm_pathLenConstraint :: "int option"
  xm_subjectKeyIdentifier :: "string option"
  xm_authorityKeyIdentifier :: "string option"
  xm_crlDistributionPoints :: "string list"
  xm_ocspResponderUrl :: "string option"
  xm_isSelfSigned :: bool

text \<open>\<open>cf_validityDays\<close> is \<^term>\<open>None\<close> when a time is missing or the difference cannot be
  computed, \<open>cf_subjectHasCountry\<close> when there is no subject name.\<close>

record icao_facts =
  cf_metadata :: x509_metadata
  cf_validityDays :: "int option"
  cf_subjectHasCountry :: "bool option"
  cf_hasBasicConstraints :: bool

record icao_compliance =
  ic_isCompliant :: bool
  ic_complianceLevel :: string
  ic_violations :: "string list"
  ic_pkdConformanceCode :: "string option"
  ic_pkdConformanceText :: "string option"
  ic_pkdVersion :: "string option"
  ic_keyUsageCompliant :: bool
  ic_algorithmCompliant :: bool
  ic_keySizeCompliant :: bool
  ic_validityPeriodCompliant :: bool
  ic_dnFormatCompliant :: bool
  ic_extensionsCompliant :: bool

definition icao_compliance_toJson :: "icao_compliance \<Rightarrow> json" where
  "icao_compliance_toJson s = jobj
     ([(''isCompliant'', JBool (ic_isCompliant s)), (''complianceLevel'', JStr (ic_complianceLevel s)),
       (''violations'', JArr (map JStr (ic_violations s)))]
      @ (case ic_pkdConformanceCode s of Some v \<Rightarrow> [(''pkdConformanceCode'', JStr v)] | None \<Rightarrow> [])
      @ (case ic_pkdConformanceText s of Some v \<Rightarrow> [(''pkdConformanceText'', JStr v)] | None \<Rightarrow> [])
      @ (case ic_pkdVersion s of Some v \<Rightarrow> [(''pkdVersion'', JStr v)] | None \<Rightarrow> [])
      @ [(''keyUsageCompliant'', JBool (ic_keyUsageCompliant s)), (''algorithmCompliant'', JBool (ic_algorithmCompliant s)),
         (''keySizeCompliant'', JBool (ic_keySizeCompliant s)), (''validityPeriodCompliant'', JBool (ic_validityPeriodCompliant s)),
         (''dnFormatCompliant'', JBool (ic_dnFormatCompliant s)), (''extensionsCompliant'', JBool (ic_extensionsCompliant s))])"

section \<open>The checks\<close>

definition violation :: "string \<Rightarrow> icao_compliance \<Rightarrow> icao_compliance" where
  "violation v s = s\<lparr>ic_violations := ic_violations s @ [v]\<rparr>"

definition key_usage_check :: "x509_metadata \<Rightarrow> string \<Rightarrow> icao_compliance \<Rightarrow> icao_compliance" where
  "key_usage_check md certType s =
     (let required = (if certType = ''CSCA'' then [''keyCertSign'', ''cRLSign'']
            else if certType = ''DSC'' \<or> certType = ''DSC_NC'' then [''digitalSignature'']
            else if certType = ''MLSC'' then [''keyCertSign''] else []);
          s = (if certType = ''CSCA'' then
                 (if \<not> xm_isCA md then violation ''CSCA must have CA=TRUE'' (s\<lparr>ic_keyUsageCompliant := False\<rparr>) else s)
               else if certType = ''DSC'' \<or> certType = ''DSC_NC'' then
                 (if xm_isCA md then violation ''DSC must have CA=FALSE'' (s\<lparr>ic_keyUsageCompliant := False\<rparr>) else s)
               else if certType = ''MLSC'' then
                 (let s = (if \<not> xm_isCA md then violation ''MLSC must have CA=TRUE'' (s\<lparr>ic_keyUsageCompliant := False\<rparr>) else s)
                  in if \<not> xm_isSelfSigned md then violation ''MLSC must be self-signed'' (s\<lparr>ic_keyUsageCompliant := False\<rparr>) else s)
               else s)
      in foldl (\<lambda>s r. if r \<notin> set (xm_keyUsage md)
            then violation (''Missing required Key Usage: '' @ r) (s\<lparr>ic_keyUsageCompliant := False\<rparr>) else s) s required)"

definition approved_hash :: "string \<Rightarrow> bool" where
  "approved_hash hashAlg = list_ex (\<lambda>p. str_find hashAlg p 0 \<noteq> None)
     [''sha-256'', ''sha-384'', ''sha-512'', ''sha256'', ''sha384'', ''sha512'']"

definition algorithm_check :: "x509_metadata \<Rightarrow> icao_compliance \<Rightarrow> icao_compliance" where
  "algorithm_check md s =
     (let hashAlg = to_lower (xm_signatureHashAlgorithm md);
          pubKeyAlg = xm_publicKeyAlgorithm md;
          s = (if \<not> approved_hash hashAlg
               then violation (''Signature hash algorithm not ICAO-approved (must be SHA-256/384/512): '' @ hashAlg)
                      (s\<lparr>ic_algorithmCompliant := False\<rparr>) else s)
      in if \<not> (pubKeyAlg = ''RSA'' \<or> pubKeyAlg = ''ECDSA'')
         then violation (''Public key algorithm not ICAO-approved (must be RSA or ECDSA): '' @ pubKeyAlg)
                (s\<lparr>ic_algorithmCompliant := False\<rparr>) else s)"

definition approved_curve :: "string \<Rightarrow> bool" where
  "approved_curve c = (c \<in> {''prime256v1'', ''secp256r1'', ''secp384r1'', ''secp521r1''})"

definition key_size_check :: "x509_metadata \<Rightarrow> icao_compliance \<Rightarrow> icao_compliance" where
  "key_size_check md s =
     (let keySize = xm_publicKeySize md in
      if xm_publicKeyAlgorithm md = ''RSA'' then
        (if keySize < 2048 then
           violation (''RSA key size below minimum (2048 bits): '' @ int_dec keySize @ '' bits'') (s\<lparr>ic_keySizeCompliant := False\<rparr>)
         else if 4096 < keySize then
           violation (''RSA key size exceeds recommended maximum (4096 bits): '' @ int_dec keySize @ '' bits'')
             (s\<lparr>ic_complianceLevel := ''WARNING''\<rparr>)
         else s)
      else if xm_publicKeyAlgorithm md = ''ECDSA'' then
        (case xm_publicKeyCurve md of
           Some curve \<Rightarrow>
             if \<not> approved_curve curve then
               violation (''ECDSA curve not ICAO-approved (must be P-256/384/521): '' @ curve) (s\<lparr>ic_keySizeCompliant := False\<rparr>)
             else s
         | None \<Rightarrow>
             if keySize < 224 then
               violation (''ECDSA key size below minimum (224 bits): '' @ int_dec keySize @ '' bits'') (s\<lparr>ic_keySizeCompliant := False\<rparr>)
             else s)
      else s)"

definition validity_check :: "int option \<Rightarrow> string \<Rightarrow> icao_compliance \<Rightarrow> icao_compliance" where
  "validity_check days certType s =
     (case days of
        None \<Rightarrow> s
      | Some d \<Rightarrow>
          let validityYears = d sdiv 365 in
          if certType = ''CSCA'' \<and> 15 < validityYears then
            violation (''CSCA validity period exceeds ICAO recommendation (15 years): '' @ int_dec validityYears @ '' years'')
              (s\<lparr>ic_validityPeriodCompliant := False\<rparr>)
          else if (certType = ''DSC'' \<or> certType = ''DSC_NC'') \<and> 3 < validityYears then
            violation (''DSC validity period exceeds ICAO recommendation (3 years): '' @ int_dec validityYears @ '' years'')
              (s\<lparr>ic_complianceLevel := ''WARNING''\<rparr>)
          else s)"

definition dn_check :: "bool option \<Rightarrow> icao_compliance \<Rightarrow> icao_compliance" where
  "dn_check hasCountry s =
     (case hasCountry of
        Some b \<Rightarrow> if \<not> b then violation ''Subject DN missing required Country (C) attribute'' (s\<lparr>ic_dnFormatCompliant := False\<rparr>) else s
      | None \<Rightarrow> violation ''Certificate has no Subject DN'' (s\<lparr>ic_dnFormatCompliant := False\<rparr>))"

definition extension_check :: "icao_facts \<Rightarrow> string \<Rightarrow> icao_compliance \<Rightarrow> icao_compliance" where
  "extension_check f certType s =
     (let s = (if (certType = ''CSCA'' \<or> certType = ''MLSC'') \<and> \<not> cf_hasBasicConstraints f
               then violation (certType @ '' missing required Basic Constraints extension'') (s\<lparr>ic_extensionsCompliant := False\<rparr>)
               else s)
      in if xm_keyUsage (cf_metadata f) = [] then violation ''Missing Key Usage extension'' (s\<lparr>ic_extensionsCompliant := False\<rparr>)
         else s)"

definition final_assessment :: "icao_compliance \<Rightarrow> icao_compliance" where
  "final_assessment s =
     (if \<not> ic_keyUsageCompliant s \<or> \<not> ic_algorithmCompliant s \<or> \<not> ic_keySizeCompliant s \<or> \<not> ic_dnFormatCompliant s
         \<or> \<not> ic_extensionsCompliant s
      then s\<lparr>ic_isCompliant := False, ic_complianceLevel := ''NON_CONFORMANT''\<rparr>
      else if \<not> ic_validityPeriodCompliant s
      then s\<lparr>ic_isCompliant := True, ic_complianceLevel := ''WARNING''\<rparr>
      else s)"

definition conformance_code :: "string \<Rightarrow> icao_compliance \<Rightarrow> icao_compliance" where
  "conformance_code certType s =
     (if ic_isCompliant s then s
      else
        let put = (\<lambda>code txt. s\<lparr>ic_pkdConformanceCode := Some (''ERR:'' @ certType @ code), ic_pkdConformanceText := Some txt\<rparr>) in
        if \<not> ic_keyUsageCompliant s then put ''.KEY_USAGE'' (''Key Usage does not meet ICAO 9303 requirements for '' @ certType)
        else if \<not> ic_algorithmCompliant s then put ''.ALGORITHM'' ''Signature algorithm not approved by ICAO 9303''
        else if \<not> ic_keySizeCompliant s then put ''.KEY_SIZE'' ''Key size does not meet ICAO 9303 minimum requirements''
        else if \<not> ic_dnFormatCompliant s then put ''.DN_FORMAT'' ''Distinguished Name format does not comply with ICAO 9303''
        else if \<not> ic_extensionsCompliant s then put ''.EXTENSIONS'' ''Missing required X.509 extensions per ICAO 9303''
        else s)"

definition icao_status0 :: icao_compliance where
  "icao_status0 = \<lparr>ic_isCompliant = True, ic_complianceLevel = ''CONFORMANT'', ic_violations = [],
     ic_pkdConformanceCode = None, ic_pkdConformanceText = None, ic_pkdVersion = None,
     ic_keyUsageCompliant = True, ic_algorithmCompliant = True, ic_keySizeCompliant = True,
     ic_validityPeriodCompliant = True, ic_dnFormatCompliant = True, ic_extensionsCompliant = True\<rparr>"

definition checkIcaoCompliance :: "icao_facts option \<Rightarrow> string \<Rightarrow> icao_compliance" where
  "checkIcaoCompliance cert certType =
     (case cert of
        None \<Rightarrow> violation ''NULL certificate pointer'' (icao_status0\<lparr>ic_isCompliant := False, ic_complianceLevel := ''ERROR''\<rparr>)
      | Some f \<Rightarrow>
          if certType = ''DSC_NC'' then
            violation ''ICAO PKD non-conformant DSC (classified by ICAO)''
              (icao_status0\<lparr>ic_isCompliant := False, ic_complianceLevel := ''NON_CONFORMANT''\<rparr>)
          else
            let md = cf_metadata f in
            conformance_code certType (final_assessment (extension_check f certType (dn_check (cf_subjectHasCountry f)
              (validity_check (cf_validityDays f) certType (key_size_check md (algorithm_check md
                (key_usage_check md certType icao_status0))))))))"

section \<open>What each check leaves\<close>

text \<open>The requirement each flag stands for.\<close>

definition key_usage_ok :: "x509_metadata \<Rightarrow> string \<Rightarrow> bool" where
  "key_usage_ok md ty =
     (if ty = ''CSCA'' then xm_isCA md \<and> {''keyCertSign'', ''cRLSign''} \<subseteq> set (xm_keyUsage md)
      else if ty = ''DSC'' then \<not> xm_isCA md \<and> ''digitalSignature'' \<in> set (xm_keyUsage md)
      else if ty = ''MLSC'' then xm_isCA md \<and> xm_isSelfSigned md \<and> ''keyCertSign'' \<in> set (xm_keyUsage md)
      else True)"

definition algorithm_ok :: "x509_metadata \<Rightarrow> bool" where
  "algorithm_ok md = (approved_hash (to_lower (xm_signatureHashAlgorithm md)) \<and> xm_publicKeyAlgorithm md \<in> {''RSA'', ''ECDSA''})"

definition key_size_ok :: "x509_metadata \<Rightarrow> bool" where
  "key_size_ok md =
     ((xm_publicKeyAlgorithm md = ''RSA'' \<longrightarrow> 2048 \<le> xm_publicKeySize md)
      \<and> (xm_publicKeyAlgorithm md = ''ECDSA'' \<longrightarrow>
           (case xm_publicKeyCurve md of Some c \<Rightarrow> approved_curve c | None \<Rightarrow> 224 \<le> xm_publicKeySize md)))"

definition extensions_ok :: "icao_facts \<Rightarrow> string \<Rightarrow> bool" where
  "extensions_ok f ty = ((ty \<in> {''CSCA'', ''MLSC''} \<longrightarrow> cf_hasBasicConstraints f) \<and> xm_keyUsage (cf_metadata f) \<noteq> [])"

named_theorems check_simps "what each check does to the flags"

lemma key_usage_check_flags [check_simps]:
  assumes "ty \<noteq> ''DSC_NC''"
  shows "ic_keyUsageCompliant (key_usage_check md ty s) = (ic_keyUsageCompliant s \<and> key_usage_ok md ty)"
  using assms by (auto simp: key_usage_check_def key_usage_ok_def violation_def Let_def)

lemma key_usage_check_rest [check_simps]:
  "ic_algorithmCompliant (key_usage_check md ty s) = ic_algorithmCompliant s"
  "ic_keySizeCompliant (key_usage_check md ty s) = ic_keySizeCompliant s"
  "ic_validityPeriodCompliant (key_usage_check md ty s) = ic_validityPeriodCompliant s"
  "ic_dnFormatCompliant (key_usage_check md ty s) = ic_dnFormatCompliant s"
  "ic_extensionsCompliant (key_usage_check md ty s) = ic_extensionsCompliant s"
  by (simp_all add: key_usage_check_def violation_def Let_def)

lemma algorithm_check_flags [check_simps]:
  "ic_algorithmCompliant (algorithm_check md s) = (ic_algorithmCompliant s \<and> algorithm_ok md)"
  "ic_keyUsageCompliant (algorithm_check md s) = ic_keyUsageCompliant s"
  "ic_keySizeCompliant (algorithm_check md s) = ic_keySizeCompliant s"
  "ic_validityPeriodCompliant (algorithm_check md s) = ic_validityPeriodCompliant s"
  "ic_dnFormatCompliant (algorithm_check md s) = ic_dnFormatCompliant s"
  "ic_extensionsCompliant (algorithm_check md s) = ic_extensionsCompliant s"
  by (simp_all add: algorithm_check_def algorithm_ok_def violation_def Let_def)

lemma key_size_check_flags [check_simps]:
  "ic_keySizeCompliant (key_size_check md s) = (ic_keySizeCompliant s \<and> key_size_ok md)"
  "ic_keyUsageCompliant (key_size_check md s) = ic_keyUsageCompliant s"
  "ic_algorithmCompliant (key_size_check md s) = ic_algorithmCompliant s"
  "ic_validityPeriodCompliant (key_size_check md s) = ic_validityPeriodCompliant s"
  "ic_dnFormatCompliant (key_size_check md s) = ic_dnFormatCompliant s"
  "ic_extensionsCompliant (key_size_check md s) = ic_extensionsCompliant s"
  by (auto simp: key_size_check_def key_size_ok_def violation_def Let_def split: option.splits)

lemma validity_check_flags [check_simps]:
  "ic_keyUsageCompliant (validity_check d ty s) = ic_keyUsageCompliant s"
  "ic_algorithmCompliant (validity_check d ty s) = ic_algorithmCompliant s"
  "ic_keySizeCompliant (validity_check d ty s) = ic_keySizeCompliant s"
  "ic_dnFormatCompliant (validity_check d ty s) = ic_dnFormatCompliant s"
  "ic_extensionsCompliant (validity_check d ty s) = ic_extensionsCompliant s"
  by (auto simp: validity_check_def violation_def Let_def split: option.splits)

lemma dn_check_flags [check_simps]:
  "ic_dnFormatCompliant (dn_check c s) = (ic_dnFormatCompliant s \<and> c = Some True)"
  "ic_keyUsageCompliant (dn_check c s) = ic_keyUsageCompliant s"
  "ic_algorithmCompliant (dn_check c s) = ic_algorithmCompliant s"
  "ic_keySizeCompliant (dn_check c s) = ic_keySizeCompliant s"
  "ic_extensionsCompliant (dn_check c s) = ic_extensionsCompliant s"
  by (auto simp: dn_check_def violation_def split: option.splits)

lemma extension_check_flags [check_simps]:
  "ic_extensionsCompliant (extension_check f ty s) = (ic_extensionsCompliant s \<and> extensions_ok f ty)"
  "ic_keyUsageCompliant (extension_check f ty s) = ic_keyUsageCompliant s"
  "ic_algorithmCompliant (extension_check f ty s) = ic_algorithmCompliant s"
  "ic_keySizeCompliant (extension_check f ty s) = ic_keySizeCompliant s"
  "ic_dnFormatCompliant (extension_check f ty s) = ic_dnFormatCompliant s"
  by (auto simp: extension_check_def extensions_ok_def violation_def Let_def)

section \<open>The list of deviations\<close>

text \<open>What a deviation concerns.  Those of the last two do not make a certificate non conformant.\<close>

datatype icao_area = IA_Key_Usage | IA_Algorithm | IA_Key_Size | IA_Dn_Format | IA_Extensions | IA_Validity | IA_Advice

definition decisive :: "icao_area \<Rightarrow> bool" where
  "decisive a \<longleftrightarrow> a \<notin> {IA_Validity, IA_Advice}"

fun area_code :: "icao_area \<Rightarrow> string" where
  "area_code IA_Key_Usage = ''KEY_USAGE''"
| "area_code IA_Algorithm = ''ALGORITHM''"
| "area_code IA_Key_Size = ''KEY_SIZE''"
| "area_code IA_Dn_Format = ''DN_FORMAT''"
| "area_code IA_Extensions = ''EXTENSIONS''"
| "area_code _ = []"

fun area_text :: "string \<Rightarrow> icao_area \<Rightarrow> string" where
  "area_text ty IA_Key_Usage = ''Key Usage does not meet ICAO 9303 requirements for '' @ ty"
| "area_text ty IA_Algorithm = ''Signature algorithm not approved by ICAO 9303''"
| "area_text ty IA_Key_Size = ''Key size does not meet ICAO 9303 minimum requirements''"
| "area_text ty IA_Dn_Format = ''Distinguished Name format does not comply with ICAO 9303''"
| "area_text ty IA_Extensions = ''Missing required X.509 extensions per ICAO 9303''"
| "area_text ty _ = []"

definition on :: "bool \<Rightarrow> 'a \<Rightarrow> 'a list" where
  "on b x = (if b then [x] else [])"

definition usages_of :: "string \<Rightarrow> string list" where
  "usages_of ty = (if ty = ''CSCA'' then [''keyCertSign'', ''cRLSign''] else if ty = ''DSC'' then [''digitalSignature'']
     else if ty = ''MLSC'' then [''keyCertSign''] else [])"

type_synonym deviations = "(icao_area \<times> string) list"

definition key_usage_deviations :: "x509_metadata \<Rightarrow> string \<Rightarrow> deviations" where
  "key_usage_deviations md ty =
     on (ty = ''CSCA'' \<and> \<not> xm_isCA md) (IA_Key_Usage, ''CSCA must have CA=TRUE'')
     @ on (ty = ''DSC'' \<and> xm_isCA md) (IA_Key_Usage, ''DSC must have CA=FALSE'')
     @ on (ty = ''MLSC'' \<and> \<not> xm_isCA md) (IA_Key_Usage, ''MLSC must have CA=TRUE'')
     @ on (ty = ''MLSC'' \<and> \<not> xm_isSelfSigned md) (IA_Key_Usage, ''MLSC must be self-signed'')
     @ map (\<lambda>u. (IA_Key_Usage, ''Missing required Key Usage: '' @ u)) (filter (\<lambda>u. u \<notin> set (xm_keyUsage md)) (usages_of ty))"

definition algorithm_deviations :: "x509_metadata \<Rightarrow> deviations" where
  "algorithm_deviations md =
     on (\<not> approved_hash (to_lower (xm_signatureHashAlgorithm md)))
       (IA_Algorithm, ''Signature hash algorithm not ICAO-approved (must be SHA-256/384/512): '' @ to_lower (xm_signatureHashAlgorithm md))
     @ on (xm_publicKeyAlgorithm md \<notin> {''RSA'', ''ECDSA''})
       (IA_Algorithm, ''Public key algorithm not ICAO-approved (must be RSA or ECDSA): '' @ xm_publicKeyAlgorithm md)"

definition key_size_deviations :: "x509_metadata \<Rightarrow> deviations" where
  "key_size_deviations md =
     (let rsa = (xm_publicKeyAlgorithm md = ''RSA''); ec = (xm_publicKeyAlgorithm md = ''ECDSA''); n = xm_publicKeySize md in
      on (rsa \<and> n < 2048) (IA_Key_Size, ''RSA key size below minimum (2048 bits): '' @ int_dec n @ '' bits'')
      @ on (rsa \<and> 4096 < n) (IA_Advice, ''RSA key size exceeds recommended maximum (4096 bits): '' @ int_dec n @ '' bits'')
      @ (case xm_publicKeyCurve md of
           Some c \<Rightarrow> on (ec \<and> \<not> approved_curve c) (IA_Key_Size, ''ECDSA curve not ICAO-approved (must be P-256/384/521): '' @ c)
         | None \<Rightarrow> on (ec \<and> n < 224) (IA_Key_Size, ''ECDSA key size below minimum (224 bits): '' @ int_dec n @ '' bits'')))"

definition validity_deviations :: "int option \<Rightarrow> string \<Rightarrow> deviations" where
  "validity_deviations days ty =
     (case days of None \<Rightarrow> []
      | Some d \<Rightarrow>
          on (ty = ''CSCA'' \<and> 15 < d sdiv 365)
            (IA_Validity, ''CSCA validity period exceeds ICAO recommendation (15 years): '' @ int_dec (d sdiv 365) @ '' years'')
          @ on (ty = ''DSC'' \<and> 3 < d sdiv 365)
            (IA_Advice, ''DSC validity period exceeds ICAO recommendation (3 years): '' @ int_dec (d sdiv 365) @ '' years''))"

definition dn_deviations :: "bool option \<Rightarrow> deviations" where
  "dn_deviations c =
     on (c = Some False) (IA_Dn_Format, ''Subject DN missing required Country (C) attribute'')
     @ on (c = None) (IA_Dn_Format, ''Certificate has no Subject DN'')"

definition extension_deviations :: "icao_facts \<Rightarrow> string \<Rightarrow> deviations" where
  "extension_deviations f ty =
     on (ty \<in> {''CSCA'', ''MLSC''} \<and> \<not> cf_hasBasicConstraints f) (IA_Extensions, ty @ '' missing required Basic Constraints extension'')
     @ on (xm_keyUsage (cf_metadata f) = []) (IA_Extensions, ''Missing Key Usage extension'')"

definition icao_deviations :: "icao_facts \<Rightarrow> string \<Rightarrow> deviations" where
  "icao_deviations f ty =
     key_usage_deviations (cf_metadata f) ty @ algorithm_deviations (cf_metadata f) @ key_size_deviations (cf_metadata f)
     @ validity_deviations (cf_validityDays f) ty @ dn_deviations (cf_subjectHasCountry f) @ extension_deviations f ty"

text \<open>The status before the assessment, from the deviations found so far.\<close>

definition status_of :: "deviations \<Rightarrow> icao_compliance" where
  "status_of ds = (let A = fst ` set ds in
     \<lparr>ic_isCompliant = True, ic_complianceLevel = (if IA_Advice \<in> A then ''WARNING'' else ''CONFORMANT''),
      ic_violations = map snd ds, ic_pkdConformanceCode = None, ic_pkdConformanceText = None, ic_pkdVersion = None,
      ic_keyUsageCompliant = (IA_Key_Usage \<notin> A), ic_algorithmCompliant = (IA_Algorithm \<notin> A), ic_keySizeCompliant = (IA_Key_Size \<notin> A),
      ic_validityPeriodCompliant = (IA_Validity \<notin> A), ic_dnFormatCompliant = (IA_Dn_Format \<notin> A),
      ic_extensionsCompliant = (IA_Extensions \<notin> A)\<rparr>)"

lemma status_deviation:
  "violation v ((status_of ds)\<lparr>ic_keyUsageCompliant := False\<rparr>) = status_of (ds @ [(IA_Key_Usage, v)])"
  "violation v ((status_of ds)\<lparr>ic_algorithmCompliant := False\<rparr>) = status_of (ds @ [(IA_Algorithm, v)])"
  "violation v ((status_of ds)\<lparr>ic_keySizeCompliant := False\<rparr>) = status_of (ds @ [(IA_Key_Size, v)])"
  "violation v ((status_of ds)\<lparr>ic_validityPeriodCompliant := False\<rparr>) = status_of (ds @ [(IA_Validity, v)])"
  "violation v ((status_of ds)\<lparr>ic_dnFormatCompliant := False\<rparr>) = status_of (ds @ [(IA_Dn_Format, v)])"
  "violation v ((status_of ds)\<lparr>ic_extensionsCompliant := False\<rparr>) = status_of (ds @ [(IA_Extensions, v)])"
  "violation v ((status_of ds)\<lparr>ic_complianceLevel := ''WARNING''\<rparr>) = status_of (ds @ [(IA_Advice, v)])"
  by (simp_all add: violation_def status_of_def Let_def)

lemma status0: "icao_status0 = status_of []"
  by (simp add: icao_status0_def status_of_def)

lemma missing_usages:
  "foldl (\<lambda>s r. if r \<notin> K then violation (''Missing required Key Usage: '' @ r) (s\<lparr>ic_keyUsageCompliant := False\<rparr>) else s) (status_of ds) us
     = status_of (ds @ map (\<lambda>u. (IA_Key_Usage, ''Missing required Key Usage: '' @ u)) (filter (\<lambda>u. u \<notin> K) us))"
  by (induction us arbitrary: ds) (simp_all add: status_deviation)

lemma key_usage_status:
  assumes "ty \<noteq> ''DSC_NC''"
  shows "key_usage_check md ty (status_of ds) = status_of (ds @ key_usage_deviations md ty)"
proof -
  consider "ty = ''CSCA''" | "ty = ''DSC''" | "ty = ''MLSC''" | "ty \<notin> {''CSCA'', ''DSC'', ''MLSC''}" by blast
  then show ?thesis using assms
    by cases (auto simp: key_usage_check_def key_usage_deviations_def on_def usages_of_def status_deviation missing_usages
        simp del: foldl.simps)
qed

lemma check_status:
  "algorithm_check md (status_of ds) = status_of (ds @ algorithm_deviations md)"
  "key_size_check md (status_of ds) = status_of (ds @ key_size_deviations md)"
  "dn_check c (status_of ds) = status_of (ds @ dn_deviations c)"
  "extension_check f ty (status_of ds) = status_of (ds @ extension_deviations f ty)"
  by (auto simp: algorithm_check_def algorithm_deviations_def key_size_check_def key_size_deviations_def dn_check_def dn_deviations_def
      extension_check_def extension_deviations_def on_def status_deviation Let_def split: option.split)

lemma validity_status:
  "ty \<noteq> ''DSC_NC'' \<Longrightarrow> validity_check days ty (status_of ds) = status_of (ds @ validity_deviations days ty)"
  by (auto simp: validity_check_def validity_deviations_def on_def status_deviation Let_def split: option.split)

lemma checked_status:
  assumes "ty \<noteq> ''DSC_NC''"
  shows "checkIcaoCompliance (Some f) ty = conformance_code ty (final_assessment (status_of (icao_deviations f ty)))"
  using assms by (simp add: checkIcaoCompliance_def status0 key_usage_status check_status validity_status icao_deviations_def Let_def)

text \<open>The deviations are in the order of the codes.\<close>

lemma find_area:
  assumes "\<forall>x \<in> set xs. fst x = a \<or> \<not> decisive (fst x)" "decisive a"
  shows "find decisive (map fst xs @ ys) = (if a \<in> fst ` set xs then Some a else find decisive ys)"
  using assms by (induction xs) auto

lemma deviation_areas:
  "fst ` set (key_usage_deviations md ty) \<subseteq> {IA_Key_Usage}" "fst ` set (algorithm_deviations md) \<subseteq> {IA_Algorithm}"
  "fst ` set (key_size_deviations md) \<subseteq> {IA_Key_Size, IA_Advice}" "fst ` set (validity_deviations days ty) \<subseteq> {IA_Validity, IA_Advice}"
  "fst ` set (dn_deviations c) \<subseteq> {IA_Dn_Format}" "fst ` set (extension_deviations f ty) \<subseteq> {IA_Extensions}"
  by (auto simp: key_usage_deviations_def algorithm_deviations_def key_size_deviations_def validity_deviations_def dn_deviations_def
      extension_deviations_def on_def Let_def split: if_splits option.splits)

lemma area_absent:
  "a \<noteq> IA_Key_Usage \<Longrightarrow> a \<notin> fst ` set (key_usage_deviations md ty)"
  "a \<noteq> IA_Algorithm \<Longrightarrow> a \<notin> fst ` set (algorithm_deviations md)"
  "a \<noteq> IA_Key_Size \<Longrightarrow> a \<noteq> IA_Advice \<Longrightarrow> a \<notin> fst ` set (key_size_deviations md)"
  "a \<noteq> IA_Validity \<Longrightarrow> a \<noteq> IA_Advice \<Longrightarrow> a \<notin> fst ` set (validity_deviations days ty)"
  "a \<noteq> IA_Dn_Format \<Longrightarrow> a \<notin> fst ` set (dn_deviations c)"
  "a \<noteq> IA_Extensions \<Longrightarrow> a \<notin> fst ` set (extension_deviations f ty)"
  subgoal using deviation_areas(1) [of md ty] by blast
  subgoal using deviation_areas(2) [of md] by blast
  subgoal using deviation_areas(3) [of md] by blast
  subgoal using deviation_areas(4) [of days ty] by blast
  subgoal using deviation_areas(5) [of c] by blast
  subgoal using deviation_areas(6) [of f ty] by blast
  done

lemma area_in:
  "IA_Key_Usage \<in> fst ` set (icao_deviations f ty) \<longleftrightarrow> IA_Key_Usage \<in> fst ` set (key_usage_deviations (cf_metadata f) ty)"
  "IA_Algorithm \<in> fst ` set (icao_deviations f ty) \<longleftrightarrow> IA_Algorithm \<in> fst ` set (algorithm_deviations (cf_metadata f))"
  "IA_Key_Size \<in> fst ` set (icao_deviations f ty) \<longleftrightarrow> IA_Key_Size \<in> fst ` set (key_size_deviations (cf_metadata f))"
  "IA_Dn_Format \<in> fst ` set (icao_deviations f ty) \<longleftrightarrow> IA_Dn_Format \<in> fst ` set (dn_deviations (cf_subjectHasCountry f))"
  "IA_Extensions \<in> fst ` set (icao_deviations f ty) \<longleftrightarrow> IA_Extensions \<in> fst ` set (extension_deviations f ty)"
  unfolding icao_deviations_def set_append image_Un Un_iff
  by (simp_all only: area_absent icao_area.distinct not_False_eq_True simp_thms)

lemma first_decisive:
  "find decisive (map fst (icao_deviations f ty)) =
     (let A = fst ` set (icao_deviations f ty) in
      if IA_Key_Usage \<in> A then Some IA_Key_Usage else if IA_Algorithm \<in> A then Some IA_Algorithm
      else if IA_Key_Size \<in> A then Some IA_Key_Size else if IA_Dn_Format \<in> A then Some IA_Dn_Format
      else if IA_Extensions \<in> A then Some IA_Extensions else None)"
proof -
  let ?md = "cf_metadata f"
  have f: "find decisive (map fst xs @ ys) = (if a \<in> fst ` set xs then Some a else find decisive ys)"
    if "fst ` set xs \<subseteq> {a, IA_Validity, IA_Advice}" "decisive a" for xs :: deviations and a ys
    using that by (intro find_area) (auto simp: decisive_def image_subset_iff)
  have d: "decisive IA_Key_Usage" "decisive IA_Algorithm" "decisive IA_Key_Size" "decisive IA_Dn_Format" "decisive IA_Extensions"
    by (simp_all add: decisive_def)
  have k: "find decisive (map fst (key_usage_deviations ?md ty) @ ys) = (if IA_Key_Usage \<in> fst ` set (key_usage_deviations ?md ty) then Some IA_Key_Usage else find decisive ys)" for ys
    using deviation_areas(1) [of ?md ty] by (intro f d) blast
  have a: "find decisive (map fst (algorithm_deviations ?md) @ ys) = (if IA_Algorithm \<in> fst ` set (algorithm_deviations ?md) then Some IA_Algorithm else find decisive ys)" for ys
    using deviation_areas(2) [of ?md] by (intro f d) blast
  have z: "find decisive (map fst (key_size_deviations ?md) @ ys) = (if IA_Key_Size \<in> fst ` set (key_size_deviations ?md) then Some IA_Key_Size else find decisive ys)" for ys
    using deviation_areas(3) [of ?md] by (intro f d) blast
  have v: "find decisive (map fst (validity_deviations (cf_validityDays f) ty) @ ys) = find decisive ys" for ys
  proof -
    have "fst ` set (validity_deviations (cf_validityDays f) ty) \<subseteq> {IA_Key_Usage, IA_Validity, IA_Advice}"
      "IA_Key_Usage \<notin> fst ` set (validity_deviations (cf_validityDays f) ty)"
      using deviation_areas(4) [of "cf_validityDays f" ty] by blast+
    with f [OF this(1) d(1), of ys] show ?thesis by (simp only: if_False)
  qed
  have n: "find decisive (map fst (dn_deviations (cf_subjectHasCountry f)) @ ys) = (if IA_Dn_Format \<in> fst ` set (dn_deviations (cf_subjectHasCountry f)) then Some IA_Dn_Format else find decisive ys)" for ys
    using deviation_areas(5) [of "cf_subjectHasCountry f"] by (intro f d) blast
  have e: "find decisive (map fst (extension_deviations f ty)) = (if IA_Extensions \<in> fst ` set (extension_deviations f ty) then Some IA_Extensions else None)"
  proof -
    have "fst ` set (extension_deviations f ty) \<subseteq> {IA_Extensions, IA_Validity, IA_Advice}" using deviation_areas(6) [of f ty] by blast
    from f [OF this d(5), of "[]"] show ?thesis by (simp only: append_Nil2 find.simps)
  qed
  show ?thesis unfolding Let_def area_in by (simp only: icao_deviations_def map_append k a z v n e)
qed

text \<open>A deviation concerns an area exactly when the requirement of that area does not hold.\<close>

lemma area_requirements:
  fixes f :: icao_facts
  assumes "ty \<noteq> ''DSC_NC''"
  defines "A \<equiv> fst ` set (icao_deviations f ty)"
  shows "IA_Key_Usage \<in> A \<longleftrightarrow> \<not> key_usage_ok (cf_metadata f) ty" "IA_Algorithm \<in> A \<longleftrightarrow> \<not> algorithm_ok (cf_metadata f)"
    "IA_Key_Size \<in> A \<longleftrightarrow> \<not> key_size_ok (cf_metadata f)" "IA_Dn_Format \<in> A \<longleftrightarrow> cf_subjectHasCountry f \<noteq> Some True"
    "IA_Extensions \<in> A \<longleftrightarrow> \<not> extensions_ok f ty"
proof -
  have on: "x \<in> set (on b y) \<longleftrightarrow> b \<and> x = y" for x y :: "icao_area \<times> string" and b by (auto simp: on_def)
  have only1: "fst ` set xs \<subseteq> {a} \<Longrightarrow> a \<in> fst ` set xs \<longleftrightarrow> xs \<noteq> []" for a and xs :: deviations by (cases xs) auto
  note only = area_in [of f ty, folded A_def] deviation_areas(1,2,5,6) [THEN only1]
  show "IA_Key_Usage \<in> A \<longleftrightarrow> \<not> key_usage_ok (cf_metadata f) ty" using assms(1) unfolding only
    by (auto simp: key_usage_deviations_def key_usage_ok_def usages_of_def on_def)
  show "IA_Algorithm \<in> A \<longleftrightarrow> \<not> algorithm_ok (cf_metadata f)" unfolding only
    by (auto simp: algorithm_deviations_def algorithm_ok_def on_def)
  show "IA_Key_Size \<in> A \<longleftrightarrow> \<not> key_size_ok (cf_metadata f)" unfolding only
    by (auto simp: key_size_deviations_def key_size_ok_def on_def Let_def split: option.splits)
  show "IA_Dn_Format \<in> A \<longleftrightarrow> cf_subjectHasCountry f \<noteq> Some True" unfolding only
    by (cases "cf_subjectHasCountry f") (auto simp: dn_deviations_def on_def)
  show "IA_Extensions \<in> A \<longleftrightarrow> \<not> extensions_ok f ty" unfolding only
    by (auto simp: extension_deviations_def extensions_ok_def on_def)
qed


definition demo_facts :: icao_facts where
  "demo_facts = \<lparr>cf_metadata = \<lparr>xm_version = 2, xm_signatureAlgorithm = ''sha256WithRSAEncryption'',
     xm_signatureHashAlgorithm = ''SHA-256'', xm_publicKeyAlgorithm = ''RSA'', xm_publicKeySize = 2048,
     xm_publicKeyCurve = None, xm_keyUsage = [''digitalSignature''], xm_extendedKeyUsage = [], xm_isCA = False,
     xm_pathLenConstraint = None, xm_subjectKeyIdentifier = None, xm_authorityKeyIdentifier = None,
     xm_crlDistributionPoints = [], xm_ocspResponderUrl = None, xm_isSelfSigned = False\<rparr>,
     cf_validityDays = Some 1000, cf_subjectHasCountry = Some True, cf_hasBasicConstraints = False\<rparr>"


end
