(* ===== verification/Progress.thy ===== *)
theory Progress
  imports Icao_Status
begin

text \<open>
  Upload progress: \<^verbatim>\<open>progress_manager.cpp\<close> and \<^verbatim>\<open>progress_manager.h\<close> of
  \<^verbatim>\<open>services/pkd-management/src/common\<close>, and the stream handler that registers the browsers
  (\<^verbatim>\<open>handlers/upload_stats_handler.cpp\<close>).  The stages and the percentage, the statistics with
  their bounded logs, the JSON of an event, and the manager as a state machine: its methods hold the mutex in
  one or two critical sections and call the stream outside them, so every section and every call is a step
  of its own and threads interleave freely.
\<close>

section \<open>Stages\<close>

datatype ProcessingStage =
    UPLOAD_COMPLETED
  | PARSING_STARTED
  | PARSING_IN_PROGRESS
  | PARSING_COMPLETED
  | VALIDATION_STARTED
  | VALIDATION_EXTRACTING_METADATA
  | VALIDATION_VERIFYING_SIGNATURE
  | VALIDATION_CHECKING_TRUST_CHAIN
  | VALIDATION_CHECKING_CRL
  | VALIDATION_CHECKING_ICAO_COMPLIANCE
  | VALIDATION_IN_PROGRESS
  | VALIDATION_COMPLETED
  | DB_SAVING_STARTED
  | DB_SAVING_IN_PROGRESS
  | DB_SAVING_COMPLETED
  | LDAP_SAVING_STARTED
  | LDAP_SAVING_IN_PROGRESS
  | LDAP_SAVING_COMPLETED
  | COMPLETED
  | FAILED

fun stageToString :: "ProcessingStage \<Rightarrow> string" where
  "stageToString UPLOAD_COMPLETED = ''UPLOAD_COMPLETED''"
| "stageToString PARSING_STARTED = ''PARSING_STARTED''"
| "stageToString PARSING_IN_PROGRESS = ''PARSING_IN_PROGRESS''"
| "stageToString PARSING_COMPLETED = ''PARSING_COMPLETED''"
| "stageToString VALIDATION_STARTED = ''VALIDATION_STARTED''"
| "stageToString VALIDATION_EXTRACTING_METADATA = ''VALIDATION_EXTRACTING_METADATA''"
| "stageToString VALIDATION_VERIFYING_SIGNATURE = ''VALIDATION_VERIFYING_SIGNATURE''"
| "stageToString VALIDATION_CHECKING_TRUST_CHAIN = ''VALIDATION_CHECKING_TRUST_CHAIN''"
| "stageToString VALIDATION_CHECKING_CRL = ''VALIDATION_CHECKING_CRL''"
| "stageToString VALIDATION_CHECKING_ICAO_COMPLIANCE = ''VALIDATION_CHECKING_ICAO_COMPLIANCE''"
| "stageToString VALIDATION_IN_PROGRESS = ''VALIDATION_IN_PROGRESS''"
| "stageToString VALIDATION_COMPLETED = ''VALIDATION_COMPLETED''"
| "stageToString DB_SAVING_STARTED = ''DB_SAVING_STARTED''"
| "stageToString DB_SAVING_IN_PROGRESS = ''DB_SAVING_IN_PROGRESS''"
| "stageToString DB_SAVING_COMPLETED = ''DB_SAVING_COMPLETED''"
| "stageToString LDAP_SAVING_STARTED = ''LDAP_SAVING_STARTED''"
| "stageToString LDAP_SAVING_IN_PROGRESS = ''LDAP_SAVING_IN_PROGRESS''"
| "stageToString LDAP_SAVING_COMPLETED = ''LDAP_SAVING_COMPLETED''"
| "stageToString COMPLETED = ''COMPLETED''"
| "stageToString FAILED = ''FAILED''"

text \<open>The Korean names are UTF-8.\<close>

definition utf8 :: "nat list \<Rightarrow> string" where
  "utf8 bs = map char_of bs"

fun stageToKorean :: "ProcessingStage \<Rightarrow> string" where
  "stageToKorean UPLOAD_COMPLETED = utf8 [0xED, 0x8C, 0x8C, 0xEC, 0x9D, 0xBC, 0x20, 0xEC, 0x97, 0x85, 0xEB,
     0xA1, 0x9C, 0xEB, 0x93, 0x9C, 0x20, 0xEC, 0x99, 0x84, 0xEB, 0xA3, 0x8C]"
| "stageToKorean PARSING_STARTED = utf8 [0xED, 0x8C, 0x8C, 0xEC, 0x9D, 0xBC, 0x20, 0xED, 0x8C, 0x8C, 0xEC, 0x8B,
     0xB1, 0x20, 0xEC, 0x8B, 0x9C, 0xEC, 0x9E, 0x91]"
| "stageToKorean PARSING_IN_PROGRESS = utf8 [0xED, 0x8C, 0x8C, 0xEC, 0x9D, 0xBC, 0x20, 0xED, 0x8C, 0x8C, 0xEC,
     0x8B, 0xB1, 0x20, 0xEC, 0xA4, 0x91]"
| "stageToKorean PARSING_COMPLETED = utf8 [0xED, 0x8C, 0x8C, 0xEC, 0x9D, 0xBC, 0x20, 0xED, 0x8C, 0x8C, 0xEC,
     0x8B, 0xB1, 0x20, 0xEC, 0x99, 0x84, 0xEB, 0xA3, 0x8C]"
| "stageToKorean VALIDATION_STARTED = utf8 [0xEC, 0x9D, 0xB8, 0xEC, 0xA6, 0x9D, 0xEC, 0x84, 0x9C, 0x20, 0xEA,
     0xB2, 0x80, 0xEC, 0xA6, 0x9D, 0x20, 0xEC, 0x8B, 0x9C, 0xEC, 0x9E, 0x91]"
| "stageToKorean VALIDATION_EXTRACTING_METADATA = utf8 [0xEC, 0x9D, 0xB8, 0xEC, 0xA6, 0x9D, 0xEC, 0x84, 0x9C,
     0x20, 0xEB, 0xA9, 0x94, 0xED, 0x83, 0x80, 0xEB, 0x8D, 0xB0, 0xEC, 0x9D, 0xB4, 0xED, 0x84, 0xB0, 0x20, 0xEC,
     0xB6, 0x94, 0xEC, 0xB6, 0x9C, 0x20, 0xEC, 0xA4, 0x91]"
| "stageToKorean VALIDATION_VERIFYING_SIGNATURE = utf8 [0xEC, 0x9D, 0xB8, 0xEC, 0xA6, 0x9D, 0xEC, 0x84, 0x9C,
     0x20, 0xEC, 0x84, 0x9C, 0xEB, 0xAA, 0x85, 0x20, 0xEA, 0xB2, 0x80, 0xEC, 0xA6, 0x9D, 0x20, 0xEC, 0xA4,
     0x91]"
| "stageToKorean VALIDATION_CHECKING_TRUST_CHAIN = utf8 [0xEC, 0x8B, 0xA0, 0xEB, 0xA2, 0xB0, 0x20, 0xEC, 0xB2,
     0xB4, 0xEC, 0x9D, 0xB8, 0x20, 0xEA, 0xB2, 0x80, 0xEC, 0xA6, 0x9D, 0x20, 0xEC, 0xA4, 0x91]"
| "stageToKorean VALIDATION_CHECKING_CRL = utf8 [0xEC, 0x9D, 0xB8, 0xEC, 0xA6, 0x9D, 0xEC, 0x84, 0x9C, 0x20,
     0xED, 0x8F, 0x90, 0xEA, 0xB8, 0xB0, 0x20, 0xEB, 0xAA, 0xA9, 0xEB, 0xA1, 0x9D, 0x20, 0xED, 0x99, 0x95, 0xEC,
     0x9D, 0xB8, 0x20, 0xEC, 0xA4, 0x91]"
| "stageToKorean VALIDATION_CHECKING_ICAO_COMPLIANCE = utf8 [0x49, 0x43, 0x41, 0x4F, 0x20, 0x39, 0x33, 0x30,
     0x33, 0x20, 0xEC, 0xA4, 0x80, 0xEC, 0x88, 0x98, 0x20, 0xED, 0x99, 0x95, 0xEC, 0x9D, 0xB8, 0x20, 0xEC, 0xA4,
     0x91]"
| "stageToKorean VALIDATION_IN_PROGRESS = utf8 [0xEC, 0x9D, 0xB8, 0xEC, 0xA6, 0x9D, 0xEC, 0x84, 0x9C, 0x20,
     0xEA, 0xB2, 0x80, 0xEC, 0xA6, 0x9D, 0x20, 0xEC, 0xA4, 0x91]"
| "stageToKorean VALIDATION_COMPLETED = utf8 [0xEC, 0x9D, 0xB8, 0xEC, 0xA6, 0x9D, 0xEC, 0x84, 0x9C, 0x20, 0xEA,
     0xB2, 0x80, 0xEC, 0xA6, 0x9D, 0x20, 0xEC, 0x99, 0x84, 0xEB, 0xA3, 0x8C]"
| "stageToKorean DB_SAVING_STARTED = utf8 [0x44, 0x42, 0x20, 0xEC, 0xA0, 0x80, 0xEC, 0x9E, 0xA5, 0x20, 0xEC,
     0x8B, 0x9C, 0xEC, 0x9E, 0x91]"
| "stageToKorean DB_SAVING_IN_PROGRESS = utf8 [0x44, 0x42, 0x20, 0xEC, 0xA0, 0x80, 0xEC, 0x9E, 0xA5, 0x20, 0xEC,
     0xA4, 0x91]"
| "stageToKorean DB_SAVING_COMPLETED = utf8 [0x44, 0x42, 0x20, 0xEC, 0xA0, 0x80, 0xEC, 0x9E, 0xA5, 0x20, 0xEC,
     0x99, 0x84, 0xEB, 0xA3, 0x8C]"
| "stageToKorean LDAP_SAVING_STARTED = utf8 [0x4C, 0x44, 0x41, 0x50, 0x20, 0xEC, 0xA0, 0x80, 0xEC, 0x9E, 0xA5,
     0x20, 0xEC, 0x8B, 0x9C, 0xEC, 0x9E, 0x91]"
| "stageToKorean LDAP_SAVING_IN_PROGRESS = utf8 [0x4C, 0x44, 0x41, 0x50, 0x20, 0xEC, 0xA0, 0x80, 0xEC, 0x9E,
     0xA5, 0x20, 0xEC, 0xA4, 0x91]"
| "stageToKorean LDAP_SAVING_COMPLETED = utf8 [0x4C, 0x44, 0x41, 0x50, 0x20, 0xEC, 0xA0, 0x80, 0xEC, 0x9E, 0xA5,
     0x20, 0xEC, 0x99, 0x84, 0xEB, 0xA3, 0x8C]"
| "stageToKorean COMPLETED = utf8 [0xEC, 0xB2, 0x98, 0xEB, 0xA6, 0xAC, 0x20, 0xEC, 0x99, 0x84, 0xEB, 0xA3, 0x8C]"
| "stageToKorean FAILED = utf8 [0xEC, 0xB2, 0x98, 0xEB, 0xA6, 0xAC, 0x20, 0xEC, 0x8B, 0xA4, 0xED, 0x8C, 0xA8]"

fun stageToBasePercentage :: "ProcessingStage \<Rightarrow> int" where
  "stageToBasePercentage UPLOAD_COMPLETED = 5"
| "stageToBasePercentage PARSING_STARTED = 10"
| "stageToBasePercentage PARSING_IN_PROGRESS = 30"
| "stageToBasePercentage PARSING_COMPLETED = 50"
| "stageToBasePercentage VALIDATION_STARTED = 52"
| "stageToBasePercentage VALIDATION_EXTRACTING_METADATA = 54"
| "stageToBasePercentage VALIDATION_VERIFYING_SIGNATURE = 58"
| "stageToBasePercentage VALIDATION_CHECKING_TRUST_CHAIN = 62"
| "stageToBasePercentage VALIDATION_CHECKING_CRL = 66"
| "stageToBasePercentage VALIDATION_CHECKING_ICAO_COMPLIANCE = 68"
| "stageToBasePercentage VALIDATION_IN_PROGRESS = 60"
| "stageToBasePercentage VALIDATION_COMPLETED = 70"
| "stageToBasePercentage DB_SAVING_STARTED = 72"
| "stageToBasePercentage DB_SAVING_IN_PROGRESS = 78"
| "stageToBasePercentage DB_SAVING_COMPLETED = 85"
| "stageToBasePercentage LDAP_SAVING_STARTED = 87"
| "stageToBasePercentage LDAP_SAVING_IN_PROGRESS = 93"
| "stageToBasePercentage LDAP_SAVING_COMPLETED = 100"
| "stageToBasePercentage COMPLETED = 100"
| "stageToBasePercentage FAILED = 0"

text \<open>The stages in the order of the enumeration.\<close>

fun stage_index :: "ProcessingStage \<Rightarrow> nat" where
  "stage_index UPLOAD_COMPLETED = 0"
| "stage_index PARSING_STARTED = 1"
| "stage_index PARSING_IN_PROGRESS = 2"
| "stage_index PARSING_COMPLETED = 3"
| "stage_index VALIDATION_STARTED = 4"
| "stage_index VALIDATION_EXTRACTING_METADATA = 5"
| "stage_index VALIDATION_VERIFYING_SIGNATURE = 6"
| "stage_index VALIDATION_CHECKING_TRUST_CHAIN = 7"
| "stage_index VALIDATION_CHECKING_CRL = 8"
| "stage_index VALIDATION_CHECKING_ICAO_COMPLIANCE = 9"
| "stage_index VALIDATION_IN_PROGRESS = 10"
| "stage_index VALIDATION_COMPLETED = 11"
| "stage_index DB_SAVING_STARTED = 12"
| "stage_index DB_SAVING_IN_PROGRESS = 13"
| "stage_index DB_SAVING_COMPLETED = 14"
| "stage_index LDAP_SAVING_STARTED = 15"
| "stage_index LDAP_SAVING_IN_PROGRESS = 16"
| "stage_index LDAP_SAVING_COMPLETED = 17"
| "stage_index COMPLETED = 18"
| "stage_index FAILED = 19"

lemma stage_index_inject: "stage_index a = stage_index b \<Longrightarrow> a = b"
  by (cases a; cases b) simp_all

text \<open>Earlier stages are smaller.\<close>

instantiation ProcessingStage :: linorder
begin

definition less_ProcessingStage :: "ProcessingStage \<Rightarrow> ProcessingStage \<Rightarrow> bool" where
  "less_ProcessingStage earlier later = (stage_index earlier < stage_index later)"

definition less_eq_ProcessingStage :: "ProcessingStage \<Rightarrow> ProcessingStage \<Rightarrow> bool" where
  "less_eq_ProcessingStage earlier later = (\<not> stage_index later < stage_index earlier)"

instance
proof
  fix r s t :: ProcessingStage
  note order_defs = less_ProcessingStage_def less_eq_ProcessingStage_def
  show "(r < s) = (r \<le> s \<and> \<not> s \<le> r)" "r \<le> r" "r \<le> s \<or> s \<le> r" by (auto simp: order_defs)
  show "r \<le> s \<Longrightarrow> s \<le> t \<Longrightarrow> r \<le> t" by (simp add: order_defs)
  show "r \<le> s \<Longrightarrow> s \<le> r \<Longrightarrow> r = s" by (rule stage_index_inject) (simp add: order_defs)
qed

end

section \<open>Data\<close>

record cert_metadata =
  me_subjectDn :: string
  me_issuerDn :: string
  me_serialNumber :: string
  me_countryCode :: string
  me_certificateType :: string
  me_isSelfSigned :: bool
  me_isLinkCertificate :: bool
  me_signatureAlgorithm :: string
  me_publicKeyAlgorithm :: string
  me_keySize :: int
  me_isCa :: bool
  me_pathLengthConstraint :: "int option"
  me_keyUsage :: "string list"
  me_extendedKeyUsage :: "string list"
  me_notBefore :: string
  me_notAfter :: string
  me_isExpired :: bool
  me_fingerprintSha256 :: string
  me_fingerprintSha1 :: string
  me_asn1Text :: "string option"

definition cert_metadata_toJson :: "cert_metadata \<Rightarrow> json" where
  "cert_metadata_toJson m = jobj
     ([(''subjectDn'', JStr (me_subjectDn m)), (''issuerDn'', JStr (me_issuerDn m)),
       (''serialNumber'', JStr (me_serialNumber m)), (''countryCode'', JStr (me_countryCode m)),
       (''certificateType'', JStr (me_certificateType m)), (''isSelfSigned'', JBool (me_isSelfSigned m)),
       (''isLinkCertificate'', JBool (me_isLinkCertificate m)), (''signatureAlgorithm'', JStr (me_signatureAlgorithm m)),
       (''publicKeyAlgorithm'', JStr (me_publicKeyAlgorithm m)), (''keySize'', JInt (me_keySize m)), (''isCa'', JBool (me_isCa m))]
      @ (case me_pathLengthConstraint m of Some v \<Rightarrow> [(''pathLengthConstraint'', JInt v)] | None \<Rightarrow> [])
      @ [(''keyUsage'', JArr (map JStr (me_keyUsage m))), (''extendedKeyUsage'', JArr (map JStr (me_extendedKeyUsage m))),
         (''notBefore'', JStr (me_notBefore m)), (''notAfter'', JStr (me_notAfter m)), (''isExpired'', JBool (me_isExpired m)),
         (''fingerprintSha256'', JStr (me_fingerprintSha256 m)), (''fingerprintSha1'', JStr (me_fingerprintSha1 m))]
      @ (case me_asn1Text m of Some v \<Rightarrow> [(''asn1Text'', JStr v)] | None \<Rightarrow> []))"

record validation_log =
  vl_timestamp :: string
  vl_certificateType :: string
  vl_countryCode :: string
  vl_subjectDn :: string
  vl_issuerDn :: string
  vl_validationStatus :: string
  vl_trustChainMessage :: string
  vl_trustChainPath :: string
  vl_errorCode :: string
  vl_fingerprintSha256 :: string

definition validation_log_toJson :: "validation_log \<Rightarrow> json" where
  "validation_log_toJson l = jobj
     [(''timestamp'', JStr (vl_timestamp l)), (''certificateType'', JStr (vl_certificateType l)),
      (''countryCode'', JStr (vl_countryCode l)), (''subjectDn'', JStr (vl_subjectDn l)),
      (''issuerDn'', JStr (vl_issuerDn l)), (''validationStatus'', JStr (vl_validationStatus l)),
      (''trustChainMessage'', JStr (vl_trustChainMessage l)), (''trustChainPath'', JStr (vl_trustChainPath l)),
      (''errorCode'', JStr (vl_errorCode l)), (''fingerprintSha256'', JStr (vl_fingerprintSha256 l))]"

record processing_error =
  er_timestamp :: string
  er_errorType :: string
  er_entryDn :: string
  er_certificateDn :: string
  er_countryCode :: string
  er_certificateType :: string
  er_message :: string

definition processing_error_toJson :: "processing_error \<Rightarrow> json" where
  "processing_error_toJson e = jobj
     [(''timestamp'', JStr (er_timestamp e)), (''errorType'', JStr (er_errorType e)), (''entryDn'', JStr (er_entryDn e)),
      (''certificateDn'', JStr (er_certificateDn e)), (''countryCode'', JStr (er_countryCode e)),
      (''certificateType'', JStr (er_certificateType e)), (''message'', JStr (er_message e))]"

text \<open>Every counter is an \<^verbatim>\<open>int\<close>; the maps are \<^verbatim>\<open>std::map\<close>.\<close>

record validation_statistics =
  vs_totalCertificates :: int
  vs_processedCount :: int
  vs_validCount :: int
  vs_invalidCount :: int
  vs_pendingCount :: int
  vs_trustChainValidCount :: int
  vs_trustChainInvalidCount :: int
  vs_cscaNotFoundCount :: int
  vs_expiredCount :: int
  vs_notYetValidCount :: int
  vs_validPeriodCount :: int
  vs_revokedCount :: int
  vs_notRevokedCount :: int
  vs_crlNotCheckedCount :: int
  vs_signatureAlgorithms :: "(string \<times> int) list"
  vs_keySizes :: "(int \<times> int) list"
  vs_certificateTypes :: "(string \<times> int) list"
  vs_icaoCompliantCount :: int
  vs_icaoNonCompliantCount :: int
  vs_icaoWarningCount :: int
  vs_complianceViolations :: "(string \<times> int) list"
  vs_duplicateCount :: int
  vs_validationReasons :: "(string \<times> int) list"
  vs_expiredValidCount :: int
  vs_totalValidationLogCount :: int
  vs_recentValidationLogs :: "validation_log list"
  vs_totalErrorCount :: int
  vs_parseErrorCount :: int
  vs_dbSaveErrorCount :: int
  vs_ldapSaveErrorCount :: int
  vs_recentErrors :: "processing_error list"

definition validation_statistics_toJson :: "validation_statistics \<Rightarrow> json" where
  "validation_statistics_toJson s =
     (let counts = (\<lambda>m. case m of [] \<Rightarrow> JObj [] | _ \<Rightarrow> jobj (map (\<lambda>(k, n). (k, JInt n)) m)) in
      jobj
     [(''totalCertificates'', JInt (vs_totalCertificates s)), (''processedCount'', JInt (vs_processedCount s)),
      (''validCount'', JInt (vs_validCount s)), (''invalidCount'', JInt (vs_invalidCount s)),
      (''pendingCount'', JInt (vs_pendingCount s)),
      (''trustChainValidCount'', JInt (vs_trustChainValidCount s)),
      (''trustChainInvalidCount'', JInt (vs_trustChainInvalidCount s)),
      (''cscaNotFoundCount'', JInt (vs_cscaNotFoundCount s)),
      (''expiredCount'', JInt (vs_expiredCount s)), (''notYetValidCount'', JInt (vs_notYetValidCount s)),
      (''validPeriodCount'', JInt (vs_validPeriodCount s)),
      (''revokedCount'', JInt (vs_revokedCount s)), (''notRevokedCount'', JInt (vs_notRevokedCount s)),
      (''crlNotCheckedCount'', JInt (vs_crlNotCheckedCount s)),
      (''signatureAlgorithms'', counts (vs_signatureAlgorithms s)),
      (''keySizes'', counts (map (\<lambda>(k, n). (int_dec k, n)) (vs_keySizes s))),
      (''certificateTypes'', counts (vs_certificateTypes s)),
      (''icaoCompliantCount'', JInt (vs_icaoCompliantCount s)),
      (''icaoNonCompliantCount'', JInt (vs_icaoNonCompliantCount s)),
      (''icaoWarningCount'', JInt (vs_icaoWarningCount s)),
      (''complianceViolations'', counts (vs_complianceViolations s)),
      (''duplicateCount'', JInt (vs_duplicateCount s)),
      (''validationReasons'', counts (vs_validationReasons s)),
      (''expiredValidCount'', JInt (vs_expiredValidCount s)),
      (''totalValidationLogCount'', JInt (vs_totalValidationLogCount s)),
      (''recentValidationLogs'', JArr (map validation_log_toJson (vs_recentValidationLogs s))),
      (''totalErrorCount'', JInt (vs_totalErrorCount s)), (''parseErrorCount'', JInt (vs_parseErrorCount s)),
      (''dbSaveErrorCount'', JInt (vs_dbSaveErrorCount s)), (''ldapSaveErrorCount'', JInt (vs_ldapSaveErrorCount s)),
      (''recentErrors'', JArr (map processing_error_toJson (vs_recentErrors s)))])"

definition safeIncrementMap :: "(string \<times> int) list \<Rightarrow> string \<Rightarrow> nat \<Rightarrow> (string \<times> int) list" where
  "safeIncrementMap m key maxSize =
     (case map_of m key of
        Some n \<Rightarrow> smap_set key (n + 1) m
      | None \<Rightarrow> if length m < maxSize then smap_set key 1 m else m)"

definition MAX_RECENT_ERRORS :: nat where
  "MAX_RECENT_ERRORS = 100"

definition MAX_RECENT_VALIDATION_LOGS :: nat where
  "MAX_RECENT_VALIDATION_LOGS = 200"

definition push_bounded :: "nat \<Rightarrow> 'a \<Rightarrow> 'a list \<Rightarrow> 'a list" where
  "push_bounded n x q = (if n \<le> length q then tl q else q) @ [x]"

text \<open>The time stamp is an argument: \<^verbatim>\<open>put_time\<close> of the local time.\<close>

definition count_error :: "string \<Rightarrow> validation_statistics \<Rightarrow> validation_statistics" where
  "count_error errorType s =
     (if errorType \<in> {''BASE64_DECODE_FAILED'', ''CERT_PARSE_FAILED'', ''CRL_PARSE_FAILED'', ''ML_PARSE_FAILED'',
          ''ML_CERT_PARSE_FAILED''}
      then s\<lparr>vs_parseErrorCount := vs_parseErrorCount s + 1\<rparr>
      else if errorType \<in> {''DB_SAVE_FAILED'', ''ML_CERT_SAVE_FAILED''}
      then s\<lparr>vs_dbSaveErrorCount := vs_dbSaveErrorCount s + 1\<rparr>
      else if errorType \<in> {''LDAP_SAVE_FAILED'', ''ML_LDAP_SAVE_FAILED''}
      then s\<lparr>vs_ldapSaveErrorCount := vs_ldapSaveErrorCount s + 1\<rparr>
      else s\<lparr>vs_parseErrorCount := vs_parseErrorCount s + 1\<rparr>)"

definition addProcessingError :: "validation_statistics \<Rightarrow> string \<Rightarrow> string \<Rightarrow> string \<Rightarrow> string \<Rightarrow> string \<Rightarrow> string \<Rightarrow> string
    \<Rightarrow> validation_statistics" where
  "addProcessingError s timestamp errorType entryDn certificateDn countryCode certificateType message =
     (let s = count_error errorType (s\<lparr>vs_totalErrorCount := vs_totalErrorCount s + 1\<rparr>);
          error = \<lparr>er_timestamp = timestamp, er_errorType = errorType, er_entryDn = entryDn,
            er_certificateDn = certificateDn, er_countryCode = countryCode, er_certificateType = certificateType,
            er_message = message\<rparr>
      in s\<lparr>vs_recentErrors := push_bounded MAX_RECENT_ERRORS error (vs_recentErrors s)\<rparr>)"

definition addValidationLog where
  "addValidationLog s timestamp certificateType countryCode subjectDn issuerDn validationStatus trustChainMessage
       trustChainPath errorCode fingerprintSha256 =
     (let entry = \<lparr>vl_timestamp = timestamp, vl_certificateType = certificateType, vl_countryCode = countryCode,
            vl_subjectDn = subjectDn, vl_issuerDn = issuerDn, vl_validationStatus = validationStatus,
            vl_trustChainMessage = trustChainMessage, vl_trustChainPath = trustChainPath, vl_errorCode = errorCode,
            vl_fingerprintSha256 = fingerprintSha256\<rparr>;
          s = s\<lparr>vs_totalValidationLogCount := vs_totalValidationLogCount s + 1\<rparr>
      in s\<lparr>vs_recentValidationLogs := push_bounded MAX_RECENT_VALIDATION_LOGS entry (vs_recentValidationLogs s)\<rparr>)"

section \<open>Progress records\<close>

record progress =
  pp_uploadId :: string
  pp_stage :: ProcessingStage
  pp_percentage :: int
  pp_processedCount :: int
  pp_totalCount :: int
  pp_message :: string
  pp_errorMessage :: string
  pp_details :: string
  pp_updatedAt :: int
  pp_currentCertificate :: "cert_metadata option"
  pp_currentCompliance :: "icao_compliance option"
  pp_statistics :: "validation_statistics option"

text \<open>The argument \<open>put_time\<close> prints a clock reading in local time, \<open>write\<close> is the compact writer of jsoncpp.\<close>

definition progress_toJson :: "(int \<Rightarrow> string) \<Rightarrow> (json \<Rightarrow> string) \<Rightarrow> progress \<Rightarrow> string" where
  "progress_toJson put_time write p = write (jobj
     ([(''uploadId'', JStr (pp_uploadId p)), (''stage'', JStr (stageToString (pp_stage p))),
       (''stageName'', JStr (stageToKorean (pp_stage p))), (''percentage'', JInt (pp_percentage p)),
       (''processedCount'', JInt (pp_processedCount p)), (''totalCount'', JInt (pp_totalCount p)),
       (''message'', JStr (pp_message p)), (''errorMessage'', JStr (pp_errorMessage p)), (''details'', JStr (pp_details p)),
       (''updatedAt'', JStr (put_time (pp_updatedAt p)))]
      @ (case pp_currentCertificate p of Some v \<Rightarrow> [(''currentCertificate'', cert_metadata_toJson v)] | None \<Rightarrow> [])
      @ (case pp_currentCompliance p of Some v \<Rightarrow> [(''icaoCompliance'', icao_compliance_toJson v)] | None \<Rightarrow> [])
      @ (case pp_statistics p of Some v \<Rightarrow> [(''statistics'', validation_statistics_toJson v)] | None \<Rightarrow> [])))"

definition sse_data :: "(progress \<Rightarrow> string) \<Rightarrow> progress \<Rightarrow> string" where
  "sse_data toJson p = ''event: progress'' @ [CHR 0x0A] @ ''data: '' @ toJson p @ [CHR 0x0A, CHR 0x0A]"

text \<open>The arithmetic is that of a 32-bit \<^verbatim>\<open>int\<close>; an overflow is written as the wrap-around compilers give.\<close>

definition int32 :: "int \<Rightarrow> int" where
  "int32 z = signed_take_bit 31 z"

definition next_percentage :: "ProcessingStage \<Rightarrow> int" where
  "next_percentage stage =
     (if stage = PARSING_IN_PROGRESS then 50
      else if stage = VALIDATION_IN_PROGRESS then 99
      else if stage = DB_SAVING_IN_PROGRESS then 85
      else if stage = LDAP_SAVING_IN_PROGRESS then 100
      else 100)"

definition percentage :: "ProcessingStage \<Rightarrow> int \<Rightarrow> int \<Rightarrow> int" where
  "percentage stage processedCount totalCount =
     (let basePercent = stageToBasePercentage stage in
      if 0 < totalCount \<and> 0 < processedCount then
        let range = next_percentage stage - basePercent in
        basePercent + int32 (range * processedCount) sdiv totalCount
      else basePercent)"

definition progress_create :: "int \<Rightarrow> string \<Rightarrow> ProcessingStage \<Rightarrow> int \<Rightarrow> int \<Rightarrow> string \<Rightarrow> string \<Rightarrow> string \<Rightarrow> progress" where
  "progress_create now uploadId stage processedCount totalCount message errorMessage details =
     \<lparr>pp_uploadId = uploadId, pp_stage = stage, pp_percentage = percentage stage processedCount totalCount,
      pp_processedCount = processedCount, pp_totalCount = totalCount, pp_message = message,
      pp_errorMessage = errorMessage, pp_details = details, pp_updatedAt = now,
      pp_currentCertificate = None, pp_currentCompliance = None, pp_statistics = None\<rparr>"

definition progress_createWithMetadata :: "int \<Rightarrow> string \<Rightarrow> ProcessingStage \<Rightarrow> int \<Rightarrow> int \<Rightarrow> string \<Rightarrow> cert_metadata
    \<Rightarrow> icao_compliance option \<Rightarrow> validation_statistics option \<Rightarrow> progress" where
  "progress_createWithMetadata now uploadId stage processedCount totalCount message certMetadata compliance stats =
     (progress_create now uploadId stage processedCount totalCount message [] [])
       \<lparr>pp_currentCertificate := Some certMetadata, pp_currentCompliance := compliance, pp_statistics := stats\<rparr>"

text \<open>The record that \<^verbatim>\<open>sendProgressWithMetadata\<close> sends.\<close>

definition progress_with_metadata :: "int \<Rightarrow> string \<Rightarrow> ProcessingStage \<Rightarrow> int \<Rightarrow> int \<Rightarrow> string \<Rightarrow> cert_metadata option
    \<Rightarrow> icao_compliance option \<Rightarrow> validation_statistics option \<Rightarrow> progress" where
  "progress_with_metadata now uploadId stage processedCount totalCount message metadata compliance stats =
     (case metadata of
        Some md \<Rightarrow> progress_createWithMetadata now uploadId stage processedCount totalCount message md compliance stats
      | None \<Rightarrow>
          let p = progress_create now uploadId stage processedCount totalCount message [] [] in
          (case stats of Some st \<Rightarrow> p\<lparr>pp_statistics := Some st\<rparr> | None \<Rightarrow> p))"

text \<open>The type shown for a certificate in progress.\<close>

definition progress_certificate_type :: "x509_metadata \<Rightarrow> bool \<Rightarrow> string" where
  "progress_certificate_type x isLink =
     (if xm_isSelfSigned x \<and> xm_isCA x then
        (if ''keyCertSign'' \<in> set (xm_keyUsage x) \<and> ''cRLSign'' \<in> set (xm_keyUsage x) then ''CSCA''
         else if ''keyCertSign'' \<in> set (xm_keyUsage x) then ''MLSC''
         else ''CSCA'')
      else if isLink then ''CSCA''
      else if \<not> xm_isCA x then
        (if ''digitalSignature'' \<in> set (xm_keyUsage x) then ''DSC'' else ''UNKNOWN'')
      else ''CSCA'')"

section \<open>The manager\<close>

text \<open>A browser stream is a number.  The maps are keyed by upload.\<close>

type_synonym client = nat

record manager =
  mg_cache :: "string \<rightharpoonup> progress"
  mg_callbacks :: "string \<rightharpoonup> client"
  mg_calls :: int

definition manager0 :: manager where
  "manager0 = \<lparr>mg_cache = Map.empty, mg_callbacks = Map.empty, mg_calls = 0\<rparr>"

text \<open>Clock readings and ages are in nanoseconds.\<close>

definition minutes_ns :: "int \<Rightarrow> int" where
  "minutes_ns m = m * 60 * 1000000000"

definition stale :: "int \<Rightarrow> int \<Rightarrow> progress option \<Rightarrow> bool" where
  "stale now maxAge e = (case e of Some p \<Rightarrow> minutes_ns maxAge < now - pp_updatedAt p | None \<Rightarrow> False)"

definition cleanupStaleEntries :: "int \<Rightarrow> int \<Rightarrow> manager \<Rightarrow> manager" where
  "cleanupStaleEntries now maxAge m =
     m\<lparr>mg_cache := (\<lambda>id. if stale now maxAge (mg_cache m id) then None else mg_cache m id),
       mg_callbacks := (\<lambda>id. if stale now maxAge (mg_cache m id) then None else mg_callbacks m id)\<rparr>"

text \<open>\<^verbatim>\<open>sendProgress\<close>: the first critical section with the copied callback, and the one after a failure.\<close>

definition send_section :: "int \<Rightarrow> progress \<Rightarrow> manager \<Rightarrow> client option \<times> manager" where
  "send_section now p m =
     (let m = m\<lparr>mg_cache := (mg_cache m)(pp_uploadId p \<mapsto> p), mg_calls := mg_calls m + 1\<rparr>;
          m = (if 100 \<le> mg_calls m then cleanupStaleEntries now 30 (m\<lparr>mg_calls := 0\<rparr>) else m)
      in (mg_callbacks m (pp_uploadId p), m))"

definition unregisterSseCallback :: "string \<Rightarrow> manager \<Rightarrow> manager" where
  "unregisterSseCallback uploadId m = m\<lparr>mg_callbacks := (mg_callbacks m)(uploadId := None)\<rparr>"

text \<open>\<^verbatim>\<open>registerSseCallback\<close>: the critical section with the cached progress to be sent after it.\<close>

definition register_section :: "string \<Rightarrow> client \<Rightarrow> manager \<Rightarrow> progress option \<times> manager" where
  "register_section uploadId c m =
     (let m = m\<lparr>mg_callbacks := (mg_callbacks m)(uploadId \<mapsto> c)\<rparr> in (mg_cache m uploadId, m))"

definition getProgress :: "string \<Rightarrow> manager \<Rightarrow> progress option" where
  "getProgress uploadId m = mg_cache m uploadId"

definition clearProgress :: "string \<Rightarrow> manager \<Rightarrow> manager" where
  "clearProgress uploadId m =
     m\<lparr>mg_cache := (mg_cache m)(uploadId := None), mg_callbacks := (mg_callbacks m)(uploadId := None)\<rparr>"

section \<open>Streams and threads\<close>

text \<open>
  What the threads are about to do between two critical sections.  \<open>Sending p c\<close>: \<^verbatim>\<open>sendProgress\<close> has
  left its section with a callback.  \<open>Cached p c\<close>: \<^verbatim>\<open>registerSseCallback\<close> has.  \<open>Greeting u c\<close>:
  \<^verbatim>\<open>handleProgressStream\<close> will read the progress once more after the registration, \<open>Direct p c\<close>: it
  will send what it read.  \<open>Failed u\<close>: a stream has thrown, and its callback (or \<^verbatim>\<open>sendProgress\<close>) will
  unregister the upload.
\<close>

datatype sse_thread =
    Sending progress client
  | Cached progress client
  | Greeting string client
  | Direct progress client
  | Failed string

text \<open>The log has every send to a stream, with its outcome; the last two fields are the history of
  registrations and of the records sent, for the statements.\<close>

record sse_world =
  sw_manager :: manager
  sw_threads :: "sse_thread list"
  sw_log :: "(client \<times> progress \<times> bool) list"
  sw_registered :: "(string \<times> client) set"
  sw_sent :: "progress set"

definition sse_world0 :: sse_world where
  "sse_world0 = \<lparr>sw_manager = manager0, sw_threads = [], sw_log = [], sw_registered = {}, sw_sent = {}\<rparr>"

definition do_send :: "int \<Rightarrow> progress \<Rightarrow> sse_world \<Rightarrow> sse_world" where
  "do_send now p w =
     (let (cb, m) = send_section now p (sw_manager w) in
      w\<lparr>sw_manager := m, sw_threads := sw_threads w @ (case cb of Some c \<Rightarrow> [Sending p c] | None \<Rightarrow> []),
        sw_sent := insert p (sw_sent w)\<rparr>)"

definition do_register :: "string \<Rightarrow> client \<Rightarrow> sse_world \<Rightarrow> sse_world" where
  "do_register u c w =
     (let (cached, m) = register_section u c (sw_manager w) in
      w\<lparr>sw_manager := m,
        sw_threads := sw_threads w @ (case cached of Some p \<Rightarrow> [Cached p c] | None \<Rightarrow> [Greeting u c]),
        sw_registered := insert (u, c) (sw_registered w)\<rparr>)"

text \<open>A thread goes on; \<open>ok\<close> tells whether the stream takes the data.\<close>

definition thread_step :: "sse_thread \<Rightarrow> bool \<Rightarrow> sse_world \<Rightarrow> sse_world" where
  "thread_step t ok w =
     (let w = w\<lparr>sw_threads := remove1 t (sw_threads w)\<rparr>;
          add = (\<lambda>ts w. w\<lparr>sw_threads := sw_threads w @ ts\<rparr>);
          call = (\<lambda>c p w. w\<lparr>sw_log := sw_log w @ [(c, p, ok)]\<rparr>)
      in case t of
           Sending p c \<Rightarrow> add (if ok then [] else [Failed (pp_uploadId p)]) (call c p w)
         | Cached p c \<Rightarrow> add ((if ok then [] else [Failed (pp_uploadId p)]) @ [Greeting (pp_uploadId p) c]) (call c p w)
         | Greeting u c \<Rightarrow> add (case getProgress u (sw_manager w) of Some p \<Rightarrow> [Direct p c] | None \<Rightarrow> []) w
         | Direct p c \<Rightarrow> call c p w
         | Failed u \<Rightarrow> w\<lparr>sw_manager := unregisterSseCallback u (sw_manager w)\<rparr>)"

definition do_clear :: "string \<Rightarrow> sse_world \<Rightarrow> sse_world" where
  "do_clear u w = w\<lparr>sw_manager := clearProgress u (sw_manager w)\<rparr>"

inductive sse_step :: "sse_world \<Rightarrow> sse_world \<Rightarrow> bool" where
  sse_send: "sse_step w (do_send now p w)"
| sse_register: "sse_step w (do_register u c w)"
| sse_thread: "t \<in> set (sw_threads w) \<Longrightarrow> sse_step w (thread_step t ok w)"
| sse_clear: "sse_step w (do_clear u w)"

inductive_cases sse_stepE: "sse_step w w'"
inductive_simps sse_step_idle: "sse_step (w\<lparr>sw_threads := []\<rparr>) w'"

section \<open>The percentage\<close>

lemma base_below_next: "0 \<le> stageToBasePercentage st \<and> stageToBasePercentage st \<le> next_percentage st \<and> next_percentage st \<le> 100"
  by (cases st) (simp_all add: next_percentage_def)

lemma int32_id: "- (2 ^ 31) \<le> z \<Longrightarrow> z < 2 ^ 31 \<Longrightarrow> int32 z = z"
  unfolding int32_def by (rule signed_take_bit_int_eq_self) simp_all

lemma percentage_div:
  assumes "0 \<le> n" "n \<le> tot" "0 < tot" "(next_percentage st - stageToBasePercentage st) * n < 2 ^ 31"
  shows "percentage st n tot
    = stageToBasePercentage st + (next_percentage st - stageToBasePercentage st) * n div tot"
proof -
  let ?r = "next_percentage st - stageToBasePercentage st"
  have r: "0 \<le> ?r" using base_below_next [of st] by simp
  then have z: "0 \<le> ?r * n" using assms(1) by simp
  have "- (2 ^ 31) \<le> ?r * n" by (rule order_trans [OF _ z]) simp
  then have i: "int32 (?r * n) = ?r * n" using assms(4) by (rule int32_id)
  show ?thesis
  proof (cases "n = 0")
    case True
    then show ?thesis by (simp add: percentage_def)
  next
    case False
    then show ?thesis
      using assms i z by (simp add: percentage_def Let_def signed_divide_int_def sgn_if)
  qed
qed

text \<open>The percentage of a progress record: while the counts are sensible and their product stays an
  \<^verbatim>\<open>int\<close>, it lies between the base of its stage and the base of the next, never decreases within the
  stage, and reaches the end of the stage with the last item.\<close>

theorem percentage_within_stage:
  assumes "0 \<le> n" "n \<le> n'" "n' \<le> tot" "100 * n' < 2 ^ 31"
  shows "stageToBasePercentage st \<le> percentage st n tot \<and> percentage st n tot \<le> percentage st n' tot
    \<and> percentage st n' tot \<le> next_percentage st \<and> next_percentage st \<le> 100
    \<and> (0 < tot \<longrightarrow> n' = tot \<longrightarrow> percentage st n' tot = next_percentage st)"
proof (cases "0 < tot")
  case True
  let ?r = "next_percentage st - stageToBasePercentage st"
  have r: "0 \<le> ?r" "?r \<le> 100" using base_below_next [of st] by auto
  have "?r * n' \<le> 100 * n'" using r assms by (intro mult_right_mono) auto
  moreover have "?r * n \<le> ?r * n'" using r assms by (intro mult_left_mono) auto
  ultimately have b: "?r * n < 2 ^ 31" "?r * n' < 2 ^ 31" using assms by auto
  have p: "percentage st n tot = stageToBasePercentage st + ?r * n div tot"
    "percentage st n' tot = stageToBasePercentage st + ?r * n' div tot"
    using percentage_div [of n tot st] percentage_div [of n' tot st] assms True b by auto
  have "0 \<le> ?r * n div tot" using r assms True by (simp add: pos_imp_zdiv_nonneg_iff)
  moreover have "?r * n div tot \<le> ?r * n' div tot"
    using \<open>?r * n \<le> ?r * n'\<close> True by (rule zdiv_mono1)
  moreover have "?r * n' div tot \<le> ?r * tot div tot"
    using r assms True by (intro zdiv_mono1 mult_left_mono) auto
  moreover have "?r * tot div tot = ?r" using True by simp
  ultimately show ?thesis using base_below_next [of st] unfolding p by auto
next
  case False
  then show ?thesis using base_below_next [of st] by (simp add: percentage_def)
qed

lemma percentage_within_stage_witness:
  "percentage PARSING_IN_PROGRESS 3 7 \<le> percentage PARSING_IN_PROGRESS 7 7 \<and> percentage PARSING_IN_PROGRESS 7 7 = 50"
  using percentage_within_stage [of 3 7 7 PARSING_IN_PROGRESS] by (simp add: next_percentage_def)

text \<open>With more items the product overflows and the percentage is negative; and a failure after some
  items counts up from 0 to 100.\<close>

lemma percentage_overflow: "percentage VALIDATION_IN_PROGRESS 60000000 60000000 = 28"
  "percentage FAILED 10 10 = 100"
  by (simp_all add: percentage_def next_percentage_def int32_def signed_take_bit_eq_take_bit_minus signed_divide_int_def
      take_bit_eq_mod)

section \<open>The error log\<close>

text \<open>The arguments of a call of \<^verbatim>\<open>addProcessingError\<close>, with the time stamp.\<close>

definition add_error :: "validation_statistics \<Rightarrow> processing_error \<Rightarrow> validation_statistics" where
  "add_error s e = addProcessingError s (er_timestamp e) (er_errorType e) (er_entryDn e) (er_certificateDn e)
     (er_countryCode e) (er_certificateType e) (er_message e)"

lemma push_bounded_window:
  assumes "q = drop (length xs - n) xs" "0 < n"
  shows "push_bounded n x q = drop (length (xs @ [x]) - n) (xs @ [x])"
proof (cases "n \<le> length xs")
  case True
  then have "length q = n" using assms by simp
  then show ?thesis using True assms by (simp add: push_bounded_def tl_drop drop_Suc Suc_diff_le)
next
  case False
  then show ?thesis using assms by (simp add: push_bounded_def)
qed

lemma count_error_fields:
  "vs_totalErrorCount (count_error ty s) = vs_totalErrorCount s" "vs_recentErrors (count_error ty s) = vs_recentErrors s"
  "vs_parseErrorCount (count_error ty s) + vs_dbSaveErrorCount (count_error ty s) + vs_ldapSaveErrorCount (count_error ty s)
     = vs_parseErrorCount s + vs_dbSaveErrorCount s + vs_ldapSaveErrorCount s + 1"
  by (simp_all add: count_error_def)

lemma add_error_fields:
  "vs_totalErrorCount (add_error s e) = vs_totalErrorCount s + 1"
  "vs_recentErrors (add_error s e) = push_bounded 100 e (vs_recentErrors s)"
  "vs_parseErrorCount (add_error s e) + vs_dbSaveErrorCount (add_error s e) + vs_ldapSaveErrorCount (add_error s e)
     = vs_parseErrorCount s + vs_dbSaveErrorCount s + vs_ldapSaveErrorCount s + 1"
  by (cases e, simp_all add: add_error_def addProcessingError_def Let_def count_error_fields MAX_RECENT_ERRORS_def)+

definition error_counts :: "validation_statistics \<Rightarrow> int" where
  "error_counts s = vs_parseErrorCount s + vs_dbSaveErrorCount s + vs_ldapSaveErrorCount s"

text \<open>The error log of an upload: after any errors \<open>es\<close> on fresh statistics, the total is their
  number, the three counters add up to it, and the log holds the last hundred of them in order.\<close>

theorem error_window:
  assumes "vs_recentErrors s = []" "vs_totalErrorCount s = 0" "error_counts s = 0"
  shows "vs_recentErrors (foldl add_error s es) = drop (length es - 100) es
    \<and> vs_totalErrorCount (foldl add_error s es) = int (length es)
    \<and> error_counts (foldl add_error s es) = int (length es)"
proof (induction es rule: rev_induct)
  case Nil
  then show ?case using assms by simp
next
  case (snoc e es)
  then have "push_bounded 100 e (vs_recentErrors (foldl add_error s es)) = drop (length (es @ [e]) - 100) (es @ [e])"
    by (intro push_bounded_window) auto
  with snoc show ?case by (simp add: add_error_fields error_counts_def)
qed

definition demo_error :: processing_error where
  "demo_error = \<lparr>er_timestamp = ''2026-01-01T00:00:00'', er_errorType = ''DB_SAVE_FAILED'', er_entryDn = ''c=KR'',
     er_certificateDn = [], er_countryCode = ''KR'', er_certificateType = ''DSC'', er_message = ''x''\<rparr>"

definition demo_statistics :: validation_statistics where
  "demo_statistics = \<lparr>vs_totalCertificates = 0, vs_processedCount = 0, vs_validCount = 0, vs_invalidCount = 0,
     vs_pendingCount = 0, vs_trustChainValidCount = 0, vs_trustChainInvalidCount = 0, vs_cscaNotFoundCount = 0,
     vs_expiredCount = 0, vs_notYetValidCount = 0, vs_validPeriodCount = 0, vs_revokedCount = 0, vs_notRevokedCount = 0,
     vs_crlNotCheckedCount = 0, vs_signatureAlgorithms = [], vs_keySizes = [], vs_certificateTypes = [],
     vs_icaoCompliantCount = 0, vs_icaoNonCompliantCount = 0, vs_icaoWarningCount = 0, vs_complianceViolations = [],
     vs_duplicateCount = 0, vs_validationReasons = [], vs_expiredValidCount = 0, vs_totalValidationLogCount = 0,
     vs_recentValidationLogs = [], vs_totalErrorCount = 0, vs_parseErrorCount = 0, vs_dbSaveErrorCount = 0,
     vs_ldapSaveErrorCount = 0, vs_recentErrors = []\<rparr>"

lemma error_window_witness:
  "vs_totalErrorCount (foldl add_error demo_statistics (replicate 130 demo_error)) = 130
   \<and> length (vs_recentErrors (foldl add_error demo_statistics (replicate 130 demo_error))) = 100"
proof -
  have "vs_recentErrors demo_statistics = []" "vs_totalErrorCount demo_statistics = 0" "error_counts demo_statistics = 0"
    by (simp_all add: demo_statistics_def error_counts_def)
  from error_window [OF this, of "replicate 130 demo_error"] show ?thesis by simp
qed

text \<open>A map of counters never exceeds its bound, whatever keys it is given, and keeps counting the keys it has.\<close>

lemma safeIncrementMap_bound:
  assumes "smap_ok m" "length m \<le> n"
  shows "smap_ok (safeIncrementMap m k n) \<and> length (safeIncrementMap m k n) \<le> n
    \<and> (\<forall>k'. map_of m k' \<noteq> None \<longrightarrow> map_of (safeIncrementMap m k n) k' \<noteq> None)"
proof -
  have c: "length xs = card (fst ` set xs)" if "smap_ok xs" for xs :: "(string \<times> int) list"
    using distinct_card [OF smap_ok_distinct [OF that]] by simp
  have "length (smap_set k v m) = card (insert k (fst ` set m))" for v
    using c [of "smap_set k v m"] smap_ok_set [OF assms(1)] by simp
  moreover have "card (insert k (fst ` set m)) = (if map_of m k = None then Suc (length m) else length m)"
    using c [OF assms(1)] by (auto simp: map_of_eq_None_iff insert_absorb)
  ultimately show ?thesis
    using assms by (auto simp: safeIncrementMap_def smap_ok_set split: option.splits)
qed

section \<open>Interleaved threads\<close>

lemmas sse_defs = do_send_def do_register_def thread_step_def do_clear_def send_section_def register_section_def
  cleanupStaleEntries_def unregisterSseCallback_def clearProgress_def getProgress_def

text \<open>Everything kept for or sent to a stream is of an upload it was registered for.\<close>

fun thread_ok :: "(string \<times> client) set \<Rightarrow> sse_thread \<Rightarrow> bool" where
  "thread_ok R (Sending p c) = ((pp_uploadId p, c) \<in> R)"
| "thread_ok R (Cached p c) = ((pp_uploadId p, c) \<in> R)"
| "thread_ok R (Greeting u c) = ((u, c) \<in> R)"
| "thread_ok R (Direct p c) = ((pp_uploadId p, c) \<in> R)"
| "thread_ok R (Failed u) = True"

definition addressed :: "sse_world \<Rightarrow> bool" where
  "addressed w =
     ((\<forall>u p. mg_cache (sw_manager w) u = Some p \<longrightarrow> pp_uploadId p = u)
      \<and> (\<forall>u c. mg_callbacks (sw_manager w) u = Some c \<longrightarrow> (u, c) \<in> sw_registered w)
      \<and> (\<forall>t \<in> set (sw_threads w). thread_ok (sw_registered w) t)
      \<and> (\<forall>(c, p, ok) \<in> set (sw_log w). (pp_uploadId p, c) \<in> sw_registered w))"

text \<open>The last progress of an upload has been given to its stream, or a thread is about to.\<close>

definition caught_up :: "sse_world \<Rightarrow> bool" where
  "caught_up w =
     (\<forall>u p c. mg_cache (sw_manager w) u = Some p \<longrightarrow> mg_callbacks (sw_manager w) u = Some c \<longrightarrow>
        (\<exists>ok. (c, p, ok) \<in> set (sw_log w)) \<or> Sending p c \<in> set (sw_threads w) \<or> Cached p c \<in> set (sw_threads w))"

lemma thread_ok_mono: "thread_ok R t \<Longrightarrow> R \<subseteq> R' \<Longrightarrow> thread_ok R' t"
  by (cases t) auto

lemma addressed_send: "addressed w \<Longrightarrow> addressed (do_send now p w)"
  by (auto simp: addressed_def sse_defs Let_def split: option.splits if_splits)

lemma addressed_register:
  assumes "addressed w"
  shows "addressed (do_register u c w)"
proof -
  have "thread_ok (insert (u, c) (sw_registered w)) t" if "t \<in> set (sw_threads w)" for t
    using assms that by (auto simp: addressed_def intro: thread_ok_mono)
  with assms show ?thesis
    unfolding addressed_def do_register_def register_section_def Let_def by (auto split: option.splits)
qed

lemma addressed_thread:
  assumes "addressed w" "t \<in> set (sw_threads w)"
  shows "addressed (thread_step t ok w)"
proof -
  have "thread_ok (sw_registered w) t" using assms by (simp add: addressed_def)
  moreover have "thread_ok (sw_registered w) x" if "x \<in> set (remove1 t (sw_threads w))" for x
    using assms(1) notin_set_remove1 [of x "sw_threads w" t] that by (auto simp: addressed_def)
  ultimately show ?thesis
    using assms(1) unfolding addressed_def thread_step_def unregisterSseCallback_def getProgress_def Let_def
    by (cases t) (auto split: option.splits)
qed

lemma addressed_clear: "addressed w \<Longrightarrow> addressed (do_clear u w)"
  by (simp add: addressed_def sse_defs)

interpretation addressing: invariant_system "\<lambda>w. w = sse_world0" sse_step addressed
proof unfold_locales
  show "w = sse_world0 \<Longrightarrow> addressed w" for w by (simp add: addressed_def sse_world0_def manager0_def)
  show "addressed w \<Longrightarrow> sse_step w w' \<Longrightarrow> addressed w'" for w w'
    by (erule sse_stepE) (auto intro: addressed_send addressed_register addressed_thread addressed_clear)
qed

lemma caught_up_send: "caught_up w \<Longrightarrow> caught_up (do_send now p w)"
  by (auto simp: caught_up_def sse_defs Let_def split: option.splits if_splits)

lemma caught_up_register: "caught_up w \<Longrightarrow> caught_up (do_register u c w)"
  by (auto simp: caught_up_def sse_defs split: option.splits if_splits)

lemma caught_up_clear: "caught_up w \<Longrightarrow> caught_up (do_clear u w)"
  by (auto simp: caught_up_def sse_defs)

lemma caught_up_thread:
  assumes "caught_up w" "t \<in> set (sw_threads w)"
  shows "caught_up (thread_step t ok w)"
proof -
  have m: "x \<in> set (remove1 t (sw_threads w)) \<or> x = t" if "x \<in> set (sw_threads w)" for x
    using that in_set_remove1 [of x t "sw_threads w"] by auto
  show ?thesis unfolding caught_up_def
  proof (intro allI impI)
    fix u p c
    assume a: "mg_cache (sw_manager (thread_step t ok w)) u = Some p"
      "mg_callbacks (sw_manager (thread_step t ok w)) u = Some c"
    then have "mg_cache (sw_manager w) u = Some p" "mg_callbacks (sw_manager w) u = Some c"
      by (auto simp: thread_step_def unregisterSseCallback_def Let_def split: sse_thread.splits if_splits)
    with assms(1) have "(\<exists>ok. (c, p, ok) \<in> set (sw_log w)) \<or> Sending p c \<in> set (sw_threads w) \<or> Cached p c \<in> set (sw_threads w)"
      unfolding caught_up_def by blast
    then show "(\<exists>ok'. (c, p, ok') \<in> set (sw_log (thread_step t ok w))) \<or> Sending p c \<in> set (sw_threads (thread_step t ok w))
        \<or> Cached p c \<in> set (sw_threads (thread_step t ok w))"
      using m [of "Sending p c"] m [of "Cached p c"]
      by (cases t) (auto simp: thread_step_def Let_def)
  qed
qed

interpretation catching_up: invariant_system "\<lambda>w. w = sse_world0" sse_step caught_up
proof unfold_locales
  show "w = sse_world0 \<Longrightarrow> caught_up w" for w by (simp add: caught_up_def sse_world0_def manager0_def)
  show "caught_up w \<Longrightarrow> sse_step w w' \<Longrightarrow> caught_up w'" for w w'
    by (erule sse_stepE) (auto intro: caught_up_send caught_up_register caught_up_thread caught_up_clear)
qed

text \<open>C23. Progress streams under any interleaving of uploads, registrations, failures and cleanups: no
  browser is sent the progress of an upload it did not ask for, and whenever all threads are done, every
  registered stream has been sent the last progress of its upload.\<close>

theorem sse_delivery:
  assumes "reachable_from (\<lambda>w. w = sse_world0) sse_step w"
  shows "((c, p, ok) \<in> set (sw_log w) \<longrightarrow> (pp_uploadId p, c) \<in> sw_registered w)
    \<and> (sw_threads w = [] \<and> mg_cache (sw_manager w) u = Some q \<and> mg_callbacks (sw_manager w) u = Some d
         \<longrightarrow> (\<exists>ok. (d, q, ok) \<in> set (sw_log w)))"
  using addressing.reachable_inv [OF assms] catching_up.reachable_inv [OF assms]
  unfolding addressed_def caught_up_def by fastforce

lemma sse_reach:
  "reachable_from (\<lambda>w. w = sse_world0) sse_step sse_world0"
  "reachable_from (\<lambda>w. w = sse_world0) sse_step w \<Longrightarrow> reachable_from (\<lambda>w. w = sse_world0) sse_step (do_send now p w)"
  "reachable_from (\<lambda>w. w = sse_world0) sse_step w \<Longrightarrow> reachable_from (\<lambda>w. w = sse_world0) sse_step (do_register u c w)"
  "reachable_from (\<lambda>w. w = sse_world0) sse_step w \<Longrightarrow> t \<in> set (sw_threads w)
     \<Longrightarrow> reachable_from (\<lambda>w. w = sse_world0) sse_step (thread_step t ok w)"
  by (auto intro: reach_init elim!: reach_step intro: sse_step.intros)

definition demo_progress :: progress where
  "demo_progress = progress_create 0 ''u1'' PARSING_STARTED 0 10 ''m'' [] []"

definition demo_world :: sse_world where
  "demo_world = thread_step (Sending demo_progress 1) True (do_send 0 demo_progress
     (thread_step (Greeting ''u1'' 1) True (do_register ''u1'' 1 sse_world0)))"

lemma demo_world_value:
  "demo_world = \<lparr>sw_manager = \<lparr>mg_cache = [''u1'' \<mapsto> demo_progress], mg_callbacks = [''u1'' \<mapsto> 1], mg_calls = 1\<rparr>,
     sw_threads = [], sw_log = [(1, demo_progress, True)], sw_registered = {(''u1'', 1)}, sw_sent = {demo_progress}\<rparr>"
proof -
  have "pp_uploadId demo_progress = ''u1''" by (simp add: demo_progress_def progress_create_def)
  then show ?thesis by (simp add: demo_world_def sse_defs sse_world0_def manager0_def)
qed

lemma demo_world_reachable: "reachable_from (\<lambda>w. w = sse_world0) sse_step demo_world"
proof -
  have u: "pp_uploadId demo_progress = ''u1''" by (simp add: demo_progress_def progress_create_def)
  show ?thesis unfolding demo_world_def
    by (intro sse_reach) (simp_all add: u sse_defs sse_world0_def manager0_def)
qed

lemma sse_delivery_witness:
  "(''u1'', 1) \<in> sw_registered demo_world \<and> (\<exists>ok. (1, demo_progress, ok) \<in> set (sw_log demo_world))"
proof -
  have "pp_uploadId demo_progress = ''u1''" by (simp add: demo_progress_def progress_create_def)
  then show ?thesis
    using sse_delivery [OF demo_world_reachable, of 1 demo_progress True "''u1''" demo_progress 1] by (simp add: demo_world_value)
qed

text \<open>The first stream of an upload fails while the second registers, as when a browser reconnects.\<close>

definition reconnect_run :: "int \<Rightarrow> progress \<Rightarrow> client \<Rightarrow> client \<Rightarrow> sse_world" where
  "reconnect_run now p c1 c2 =
     (let u = pp_uploadId p in
      thread_step (Failed u) True (thread_step (Direct p c2) True (thread_step (Greeting u c2) True
        (thread_step (Cached p c2) True (thread_step (Sending p c1) False (do_register u c2 (do_send now p
          (thread_step (Greeting u c1) True (do_register u c1 sse_world0)))))))))"

lemma reconnect_run_value:
  assumes "c1 \<noteq> c2"
  shows "reconnect_run now p c1 c2 =
    \<lparr>sw_manager = \<lparr>mg_cache = [pp_uploadId p \<mapsto> p], mg_callbacks = Map.empty, mg_calls = 1\<rparr>, sw_threads = [],
     sw_log = [(c1, p, False), (c2, p, True), (c2, p, True)],
     sw_registered = {(pp_uploadId p, c2), (pp_uploadId p, c1)}, sw_sent = {p}\<rparr>"
  using assms by (simp add: reconnect_run_def Let_def sse_defs sse_world0_def manager0_def)

lemma reconnect_run_reachable:
  assumes "c1 \<noteq> c2"
  shows "reachable_from (\<lambda>w. w = sse_world0) sse_step (reconnect_run now p c1 c2)"
  unfolding reconnect_run_def Let_def
  by (intro sse_reach) (use assms in \<open>simp_all add: Let_def sse_defs sse_world0_def manager0_def\<close>)

text \<open>A reconnecting browser can lose its stream: a failing stream unregisters its upload and not itself,
  so there is a run in which the second stream takes everything it is sent, is never unregistered by
  anyone on its behalf, and still gets no further progress of the upload.\<close>

theorem sse_reconnect_lost:
  assumes "c1 \<noteq> c2"
  shows "\<exists>w. reachable_from (\<lambda>w. w = sse_world0) sse_step w \<and> sw_threads w = []
    \<and> (pp_uploadId p, c2) \<in> sw_registered w \<and> (c2, p, True) \<in> set (sw_log w) \<and> (c2, p, False) \<notin> set (sw_log w)
    \<and> (pp_uploadId q = pp_uploadId p \<longrightarrow> sw_threads (do_send now q w) = [])"
  using assms reconnect_run_value [OF assms, of now p] reconnect_run_reachable [OF assms, of now p]
  by (intro exI [of _ "reconnect_run now p c1 c2"]) (simp add: do_send_def send_section_def)

lemma sse_reconnect_lost_witness:
  "\<exists>w. reachable_from (\<lambda>w. w = sse_world0) sse_step w \<and> sw_threads (do_send 0 demo_progress w) = []
     \<and> (2, demo_progress, True) \<in> set (sw_log w)"
  using sse_reconnect_lost [of 1 2 demo_progress demo_progress 0] by auto

end
