(* ===== verification/Dn_Names.thy ===== *)
theory Dn_Names
  imports Interfaces
begin

text \<open>
  Distinguished names: \<^verbatim>\<open>services/common-lib/src/x509/dn_parser.cpp\<close> and
  \<^verbatim>\<open>dn_components.cpp\<close>, and the escaping of names and search filters in
  \<^verbatim>\<open>services/pkd-management/src/common/ldap_utils.h\<close> and
  \<^verbatim>\<open>services/ldap_storage_service.cpp\<close>.  An \<^verbatim>\<open>X509_NAME\<close> is the list of its entries, each with the
  short name of its attribute and its UTF-8 value; which entries OpenSSL accepts for an attribute and a
  value is the argument \<open>entry_by_txt\<close>.
\<close>

section \<open>Names\<close>

type_synonym name_entry = "string \<times> string"

type_synonym entry_reader = "string \<Rightarrow> string \<Rightarrow> name_entry option"

abbreviation blanks :: string where
  "blanks \<equiv> [CHR '' '', CHR 0x09]"

definition trim_blanks :: "string \<Rightarrow> string" where
  "trim_blanks s =
     (let s = (case find_first_not_of s blanks 0 of None \<Rightarrow> [] | Some i \<Rightarrow> drop i s)
      in case find_last_not_of s blanks of None \<Rightarrow> [] | Some i \<Rightarrow> take (i + 1) s)"

definition add_rdn :: "entry_reader \<Rightarrow> string \<Rightarrow> string \<Rightarrow> name_entry list \<Rightarrow> name_entry list option" where
  "add_rdn entry_by_txt attr val name =
     (if attr \<noteq> [] \<and> val \<noteq> [] then
        (case entry_by_txt (c_str (trim_blanks attr)) (trim_blanks val) of
           None \<Rightarrow> None
         | Some e \<Rightarrow> Some (name @ [e]))
      else Some name)"

fun rfc2253_loop :: "entry_reader \<Rightarrow> string \<Rightarrow> string \<Rightarrow> string \<Rightarrow> bool \<Rightarrow> bool \<Rightarrow> name_entry list \<Rightarrow> name_entry list option" where
  "rfc2253_loop X [] attr val in_attr escaped name = add_rdn X attr val name"
| "rfc2253_loop X (c # s) attr val in_attr escaped name =
     (if escaped then
        (if in_attr then rfc2253_loop X s (attr @ [c]) val in_attr False name
         else rfc2253_loop X s attr (val @ [c]) in_attr False name)
      else if c = CHR 0x5C then rfc2253_loop X s attr val in_attr True name
      else if c = CHR ''='' \<and> in_attr then rfc2253_loop X s attr val False False name
      else if c = CHR '','' \<and> \<not> in_attr then
        (case add_rdn X attr val name of
           None \<Rightarrow> None
         | Some name \<Rightarrow> rfc2253_loop X s [] [] True False name)
      else if in_attr then rfc2253_loop X s (attr @ [c]) val in_attr False name
      else rfc2253_loop X s attr (val @ [c]) in_attr False name)"

fun oneline_loop :: "entry_reader \<Rightarrow> string list \<Rightarrow> name_entry list \<Rightarrow> name_entry list option" where
  "oneline_loop X [] name = Some name"
| "oneline_loop X (component # cs) name =
     (case str_find component ''='' 0 of
        None \<Rightarrow> oneline_loop X cs name
      | Some eq_pos \<Rightarrow>
          (case X (c_str (take eq_pos component)) (drop (eq_pos + 1) component) of
             None \<Rightarrow> None
           | Some e \<Rightarrow> oneline_loop X cs (name @ [e])))"

definition parseDnString :: "entry_reader \<Rightarrow> string \<Rightarrow> name_entry list option" where
  "parseDnString X dn =
     (if dn = [] then None
      else
        let r = (if hd dn = CHR ''/'' then oneline_loop X (getlines (CHR ''/'') (tl dn)) []
                 else rfc2253_loop X dn [] [] True False [])
        in case r of None \<Rightarrow> None | Some name \<Rightarrow> if name = [] then None else Some name)"

text \<open>\<^verbatim>\<open>normalizeDnForComparison\<close> of this library: a map from the attribute, so the last entry of an attribute
  is the one that counts.\<close>

definition name_components :: "name_entry list \<Rightarrow> (string \<times> string) list" where
  "name_components name = foldl (\<lambda>m (sn, v).
     let attr = to_lower (take 79 sn) in smap_set attr (attr @ ''='' @ to_lower v) m) [] name"

definition normalizeName :: "entry_reader \<Rightarrow> string \<Rightarrow> string option" where
  "normalizeName X dn =
     (if dn = [] then None
      else case parseDnString X dn of
        None \<Rightarrow> None
      | Some name \<Rightarrow>
          let comps = name_components name
          in if comps = [] then None else Some (join ''|'' (map snd comps)))"

section \<open>Components\<close>

record dn_fields =
  dc_commonName :: "string option"
  dc_organization :: "string option"
  dc_organizationalUnit :: "string option"
  dc_locality :: "string option"
  dc_stateOrProvince :: "string option"
  dc_country :: "string option"
  dc_email :: "string option"
  dc_serialNumber :: "string option"
  dc_title :: "string option"
  dc_givenName :: "string option"
  dc_surname :: "string option"
  dc_pseudonym :: "string option"

definition getDnComponentByNid :: "name_entry list \<Rightarrow> string \<Rightarrow> string option" where
  "getDnComponentByNid name sn = map_of name sn"

definition getDnComponentAllValues :: "name_entry list \<Rightarrow> string \<Rightarrow> string list" where
  "getDnComponentAllValues name sn = map snd (filter (\<lambda>e. fst e = sn) name)"

definition name_dn_components :: "name_entry list \<Rightarrow> dn_fields" where
  "name_dn_components name =
     \<lparr>dc_commonName = getDnComponentByNid name ''CN'', dc_organization = getDnComponentByNid name ''O'',
      dc_organizationalUnit = getDnComponentByNid name ''OU'', dc_locality = getDnComponentByNid name ''L'',
      dc_stateOrProvince = getDnComponentByNid name ''ST'', dc_country = getDnComponentByNid name ''C'',
      dc_email = getDnComponentByNid name ''emailAddress'', dc_serialNumber = getDnComponentByNid name ''serialNumber'',
      dc_title = getDnComponentByNid name ''title'', dc_givenName = getDnComponentByNid name ''GN'',
      dc_surname = getDnComponentByNid name ''SN'', dc_pseudonym = getDnComponentByNid name ''pseudonym''\<rparr>"

text \<open>\<^verbatim>\<open>addComponent\<close>: the fields that are set and not empty.\<close>

definition set_component :: "string \<Rightarrow> string option \<Rightarrow> string list" where
  "set_component n v = (case v of Some t \<Rightarrow> if t \<noteq> [] then [n @ ''='' @ t] else [] | None \<Rightarrow> [])"

definition toRfc2253 :: "dn_fields \<Rightarrow> string" where
  "toRfc2253 c = join '',''
     (set_component ''CN'' (dc_commonName c) @ set_component ''OU'' (dc_organizationalUnit c)
      @ set_component ''O'' (dc_organization c) @ set_component ''L'' (dc_locality c)
      @ set_component ''ST'' (dc_stateOrProvince c) @ set_component ''C'' (dc_country c)
      @ set_component ''emailAddress'' (dc_email c) @ set_component ''serialNumber'' (dc_serialNumber c)
      @ set_component ''title'' (dc_title c) @ set_component ''GN'' (dc_givenName c)
      @ set_component ''SN'' (dc_surname c) @ set_component ''pseudonym'' (dc_pseudonym c))"

definition getDisplayName :: "dn_fields \<Rightarrow> string" where
  "getDisplayName c =
     (case dc_commonName c of Some (x # xs) \<Rightarrow> x # xs | _ \<Rightarrow>
      case dc_organization c of Some (x # xs) \<Rightarrow> x # xs | _ \<Rightarrow>
      case dc_email c of Some (x # xs) \<Rightarrow> x # xs | _ \<Rightarrow> ''Unknown'')"

section \<open>Escaping\<close>

abbreviation backslash :: char where
  "backslash \<equiv> CHR 0x5C"

definition dn_special :: "char \<Rightarrow> bool" where
  "dn_special c = (c \<in> set [CHR '','', CHR ''='', CHR ''+'', CHR 0x22, backslash, CHR ''<'', CHR ''>'', CHR '';''])"

text \<open>One character of a value of length \<open>n\<close> at position \<open>i\<close>.\<close>

definition escape_at :: "nat \<Rightarrow> nat \<Rightarrow> char \<Rightarrow> string" where
  "escape_at n i c =
     (if dn_special c then [backslash, c]
      else if i = 0 \<and> (c = CHR '' '' \<or> c = CHR ''#'') then [backslash, c]
      else if i = n - 1 \<and> c = CHR '' '' then [backslash, c]
      else if c = CHR 0x00 then backslash # ''00''
      else [c])"

definition escapeDnComponent :: "string \<Rightarrow> string" where
  "escapeDnComponent v = concat (map2 (escape_at (length v)) [0..<length v] v)"

text \<open>\<^verbatim>\<open>escapeLdapDnValue\<close> leaves NUL as it is.\<close>

definition escapeLdapDnValue :: "string \<Rightarrow> string" where
  "escapeLdapDnValue v = concat (map2 (\<lambda>i c. if c = CHR 0x00 then [c] else escape_at (length v) i c) [0..<length v] v)"

definition hex_pair :: "char \<Rightarrow> string" where
  "hex_pair c = [hex_digit (of_char c div 16), hex_digit (of_char c mod 16)]"

definition escapeFilterValue :: "string \<Rightarrow> string" where
  "escapeFilterValue v = concat (map (\<lambda>c.
     if c = CHR ''*'' then backslash # ''2a''
     else if c = CHR ''('' then backslash # ''28''
     else if c = CHR '')'' then backslash # ''29''
     else if c = backslash then backslash # ''5c''
     else if c = CHR 0x00 then backslash # ''00''
     else if of_char c < (0x20 :: nat) \<or> (0x7E :: nat) < of_char c then backslash # hex_pair c
     else [c]) v)"

definition buildFilter :: "string \<Rightarrow> string \<Rightarrow> string \<Rightarrow> string" where
  "buildFilter attribute val op = ''('' @ attribute @ op @ escapeFilterValue val @ '')''"

definition buildSubstringFilter :: "string \<Rightarrow> string \<Rightarrow> bool \<Rightarrow> bool \<Rightarrow> string" where
  "buildSubstringFilter attribute val prefix suffix =
     ''('' @ attribute @ ''='' @ (if prefix then ''*'' else []) @ escapeFilterValue val @ (if suffix then ''*'' else []) @ '')''"

section \<open>Reading escaped text\<close>

text \<open>RFC 4514: a backslash escapes a special character or begins a pair of hexadecimal digits.\<close>

fun unescape_dn :: "string \<Rightarrow> string option" where
  "unescape_dn [] = Some []"
| "unescape_dn (c # s) =
     (if c \<noteq> backslash then map_option ((#) c) (unescape_dn s)
      else case s of
        [] \<Rightarrow> None
      | d # t \<Rightarrow>
          if dn_special d \<or> d = CHR '' '' \<or> d = CHR ''#'' then map_option ((#) d) (unescape_dn t)
          else (case t of
              [] \<Rightarrow> None
            | e # u \<Rightarrow> if digit_val d < 16 \<and> digit_val e < 16
                then map_option ((#) (char_of (16 * digit_val d + digit_val e))) (unescape_dn u) else None))"

text \<open>The components of a name: cut at the commas that no backslash escapes.\<close>

fun rdns_from :: "string \<Rightarrow> string \<Rightarrow> string list" where
  "rdns_from acc [] = [acc]"
| "rdns_from acc (c # s) =
     (if c = backslash then (case s of [] \<Rightarrow> [acc @ [c]] | d # t \<Rightarrow> rdns_from (acc @ [c, d]) t)
      else if c = CHR '','' then acc # rdns_from [] s
      else rdns_from (acc @ [c]) s)"

definition rdns :: "string \<Rightarrow> string list" where
  "rdns dn = rdns_from [] dn"

fun closed_text :: "string \<Rightarrow> bool" where
  "closed_text [] = True"
| "closed_text (c # s) =
     (if c = backslash then (case s of [] \<Rightarrow> False | d # t \<Rightarrow> closed_text t)
      else c \<noteq> CHR '','' \<and> closed_text s)"

lemma rdns_from_closed: "closed_text x \<Longrightarrow> rdns_from acc (x @ CHR '','' # s) = (acc @ x) # rdns_from [] s"
  by (induction x arbitrary: acc rule: closed_text.induct) (auto split: list.splits)

lemma rdns_closed: "closed_text x \<Longrightarrow> rdns (x @ CHR '','' # s) = x # rdns s"
  by (simp add: rdns_def rdns_from_closed)

lemma closed_append: "closed_text a \<Longrightarrow> closed_text (a @ b) = closed_text b"
proof (induction a rule: closed_text.induct)
  case (2 c s)
  then show ?case by (cases s) (auto split: if_splits)
qed simp

lemma closed_plain: "backslash \<notin> set a \<Longrightarrow> CHR '','' \<notin> set a \<Longrightarrow> closed_text a"
  by (induction a) auto

lemma closed_concat: "(\<And>x. x \<in> set xs \<Longrightarrow> closed_text x) \<Longrightarrow> closed_text (concat xs)"
  by (induction xs) (auto simp: closed_append)

lemma dn_special_chars [simp]:
  "dn_special backslash" "dn_special CHR '',''" "dn_special CHR ''=''" "\<not> dn_special CHR 0x00" "\<not> dn_special CHR ''0''"
  by (simp_all add: dn_special_def)

lemma closed_escape_at: "closed_text (escape_at n i c)"
  by (auto simp: escape_at_def)

lemma closed_escapeDnComponent: "closed_text (escapeDnComponent v)"
  unfolding escapeDnComponent_def by (rule closed_concat) (auto simp: set_zip closed_escape_at)

lemma unescape_escape_at: "unescape_dn (escape_at n i c @ s) = map_option ((#) c) (unescape_dn s)"
proof -
  have "digit_val CHR ''0'' = 0" "char_of (0 :: nat) = CHR 0x00" by (code_simp, code_simp)
  then show ?thesis by (simp add: escape_at_def)
qed

lemma unescape_map2: "length is = length v \<Longrightarrow> unescape_dn (concat (map2 (escape_at n) is v)) = Some v"
  by (induction "is" v rule: list_induct2) (simp_all add: unescape_escape_at)

lemma unescape_escape: "unescape_dn (escapeDnComponent v) = Some v"
  unfolding escapeDnComponent_def by (rule unescape_map2) simp

interpretation dn_value: codec escapeDnComponent unescape_dn "\<lambda>_. True"
  by unfold_locales (rule unescape_escape)

text \<open>RFC 4515: a backslash begins a pair of hexadecimal digits.\<close>

fun unescape_filter :: "string \<Rightarrow> string option" where
  "unescape_filter [] = Some []"
| "unescape_filter (c # s) =
     (if c \<noteq> backslash then map_option ((#) c) (unescape_filter s)
      else case s of
        d # e # u \<Rightarrow> if digit_val d < 16 \<and> digit_val e < 16
          then map_option ((#) (char_of (16 * digit_val d + digit_val e))) (unescape_filter u) else None
      | _ \<Rightarrow> None)"

definition filter_char :: "char \<Rightarrow> string" where
  "filter_char c =
     (if c = CHR ''*'' then backslash # ''2a''
     else if c = CHR ''('' then backslash # ''28''
     else if c = CHR '')'' then backslash # ''29''
     else if c = backslash then backslash # ''5c''
     else if c = CHR 0x00 then backslash # ''00''
     else if of_char c < (0x20 :: nat) \<or> (0x7E :: nat) < of_char c then backslash # hex_pair c
     else [c])"

lemma of_char_less: "(of_char c :: nat) < 256"
proof -
  have "(of_char c :: nat) = of_char c mod 256" by (rule of_char_mod_256 [symmetric])
  also have "\<dots> < 256" by simp
  finally show ?thesis .
qed

lemma char_div16: "of_char c div 16 < (16 :: nat)"
  by (rule less_mult_imp_div_less) (use of_char_less [of c] in simp)

lemma filter_char_pair:
  assumes "c \<in> {CHR ''*'', CHR ''('', CHR '')'', backslash, CHR 0x00} \<or> of_char c < (0x20 :: nat) \<or> (0x7E :: nat) < of_char c"
  shows "filter_char c = backslash # hex_pair c"
proof -
  have "hex_pair CHR ''*'' = ''2a''" "hex_pair CHR ''('' = ''28''" "hex_pair CHR '')'' = ''29''" "hex_pair backslash = ''5c''"
    "hex_pair CHR 0x00 = ''00''"
    by (code_simp, code_simp, code_simp, code_simp, code_simp)
  with assms show ?thesis by (auto simp: filter_char_def)
qed

lemma unescape_filter_char: "unescape_filter (filter_char c @ s) = map_option ((#) c) (unescape_filter s)"
proof (cases "c \<in> {CHR ''*'', CHR ''('', CHR '')'', backslash, CHR 0x00} \<or> of_char c < (0x20 :: nat) \<or> (0x7E :: nat) < of_char c")
  case True
  note char_div16 [of c]
  moreover have "16 * (of_char c div 16) + of_char c mod 16 = (of_char c :: nat)" by simp
  ultimately show ?thesis by (simp add: filter_char_pair [OF True] hex_pair_def)
next
  case False
  then show ?thesis by (auto simp: filter_char_def)
qed

lemma escapeFilterValue_chars: "escapeFilterValue v = concat (map filter_char v)"
  unfolding escapeFilterValue_def by (rule arg_cong [where f = concat], rule map_cong [OF refl]) (simp only: filter_char_def)

lemma unescape_filter_escape: "unescape_filter (escapeFilterValue v) = Some v"
  unfolding escapeFilterValue_chars by (induction v) (simp_all add: unescape_filter_char)

definition filter_alphabet :: "char set" where
  "filter_alphabet = - {CHR ''*'', CHR ''('', CHR '')'', CHR 0x00}"

lemma hex_digit_plain: "n < 16 \<Longrightarrow> hex_digit n \<in> filter_alphabet"
proof -
  assume n: "n < 16"
  then have "of_char (hex_digit n) = (if n < 10 then 48 + n else 87 + n)" by (simp add: hex_digit_def)
  then have "48 \<le> (of_char (hex_digit n) :: nat)" by simp
  then show ?thesis by (auto simp: filter_alphabet_def)
qed

lemma filter_char_alphabet: "set (filter_char c) \<subseteq> filter_alphabet"
proof (cases "c \<in> {CHR ''*'', CHR ''('', CHR '')'', backslash, CHR 0x00} \<or> of_char c < (0x20 :: nat) \<or> (0x7E :: nat) < of_char c")
  case True
  note char_div16 [of c]
  moreover have "backslash \<in> filter_alphabet" by (simp add: filter_alphabet_def)
  ultimately show ?thesis by (simp add: filter_char_pair [OF True] hex_pair_def hex_digit_plain)
next
  case False
  then show ?thesis by (auto simp: filter_char_def filter_alphabet_def)
qed

interpretation filter_value: text_codec escapeFilterValue unescape_filter "\<lambda>_. True" filter_alphabet
proof unfold_locales
  show "unescape_filter (escapeFilterValue x) = Some x" for x by (rule unescape_filter_escape)
  show "set (escapeFilterValue x) \<subseteq> filter_alphabet" for x
    unfolding escapeFilterValue_chars using filter_char_alphabet by (auto simp: subset_iff)
qed

text \<open>A search value cannot change the filter it is put into: the filter reads back as the attribute,
  the operator and exactly the value, and the closing parenthesis is the first one after the value.\<close>

theorem filter_value_contained:
  "unescape_filter (escapeFilterValue v) = Some v
   \<and> set (escapeFilterValue v) \<inter> {CHR ''*'', CHR ''('', CHR '')'', CHR 0x00} = {}
   \<and> str_find (buildFilter a v op @ r) '')'' (length (''('' @ a @ op))
       = Some (length (''('' @ a @ op @ escapeFilterValue v))"
proof -
  have "CHR '')'' \<notin> filter_alphabet" by (simp add: filter_alphabet_def)
  from filter_value.find_separator [OF TrueI this, of "''('' @ a @ op" v r]
  show ?thesis
    using filter_value.enc_alphabet [of v] by (auto simp: unescape_filter_escape buildFilter_def filter_alphabet_def)
qed

section \<open>Reading a name\<close>

definition attr_text :: "string \<Rightarrow> bool" where
  "attr_text a = (a \<noteq> [] \<and> hd a \<noteq> CHR ''/'' \<and> set a \<inter> {backslash, CHR ''='', CHR '','', CHR '' '', CHR 0x09, CHR 0x00} = {})"

lemma rfc_attr:
  "set a \<inter> {backslash, CHR ''='', CHR '',''} = {} \<Longrightarrow>
   rfc2253_loop X (a @ CHR ''='' # s) acc v True False name = rfc2253_loop X s (acc @ a) v False False name"
  by (induction a arbitrary: acc) auto

lemma rfc_escaped:
  "c \<noteq> CHR 0x00 \<Longrightarrow> rfc2253_loop X (escape_at n i c @ s) a v False False name = rfc2253_loop X s a (v @ [c]) False False name"
  by (auto simp: escape_at_def)

lemma rfc_value_map:
  "length is = length v \<Longrightarrow>
   rfc2253_loop X (concat (map2 (\<lambda>i c. if c = CHR 0x00 then [c] else escape_at n i c) is v) @ s) a acc False False name
   = rfc2253_loop X s a (acc @ v) False False name"
  by (induction "is" v arbitrary: acc rule: list_induct2) (auto simp: rfc_escaped)

lemma rfc_value:
  "rfc2253_loop X (escapeLdapDnValue v @ s) a acc False False name = rfc2253_loop X s a (acc @ v) False False name"
  unfolding escapeLdapDnValue_def by (rule rfc_value_map) simp

lemma index_where_none_iff: "(\<And>x. x \<in> set s \<Longrightarrow> \<not> P x) \<Longrightarrow> index_where P s i = None"
  by (induction P s i rule: index_where.induct) auto

lemma trim_blanks_ends:
  assumes "s \<noteq> []" "hd s \<notin> set blanks" "last s \<notin> set blanks"
  shows "trim_blanks s = s"
proof -
  have "find_first_not_of s blanks 0 = Some 0"
    using assms(1,2) by (cases s) (auto simp: find_first_not_of_def)
  moreover have "find_last_not_of s blanks = Some (length s - 1)"
  proof -
    have "last_index_where P (t @ [x]) i acc = Some (i + length t)" if "P x" for P t i acc and x :: char
      using that by (induction t arbitrary: i acc) auto
    from this [of "\<lambda>c. c \<notin> set blanks" "last s" "butlast s"] assms show ?thesis
      by (simp add: find_last_not_of_def)
  qed
  ultimately show ?thesis using assms(1) by (simp add: trim_blanks_def)
qed

lemma trim_attr:
  assumes "attr_text a"
  shows "trim_blanks a = a"
proof -
  have ne: "a \<noteq> []" and "x \<notin> set blanks" if "x \<in> set a" for x using assms that by (auto simp: attr_text_def)
  moreover have "a \<noteq> []" using assms by (simp add: attr_text_def)
  ultimately show ?thesis using hd_in_set [of a] last_in_set [of a] by (intro trim_blanks_ends) blast+
qed

definition value_text :: "string \<Rightarrow> bool" where
  "value_text v = (v \<noteq> [] \<and> hd v \<notin> set blanks \<and> last v \<notin> set blanks)"

definition rdn_read :: "entry_reader \<Rightarrow> (string \<Rightarrow> string) \<Rightarrow> string \<times> string \<Rightarrow> bool" where
  "rdn_read X sn r = (case r of (a, v) \<Rightarrow> attr_text a \<and> value_text v \<and> X a v = Some (sn a, v))"

definition rdn_text :: "string \<times> string \<Rightarrow> string" where
  "rdn_text r = (case r of (a, v) \<Rightarrow> a @ ''='' @ escapeLdapDnValue v)"

lemma add_rdn_read:
  assumes "rdn_read X sn (a, v)"
  shows "add_rdn X a v name = Some (name @ [(sn a, v)])"
proof -
  have a: "attr_text a" and v: "value_text v" and X: "X a v = Some (sn a, v)" using assms by (auto simp: rdn_read_def)
  have "trim_blanks a = a" using a by (rule trim_attr)
  moreover have "trim_blanks v = v" using v by (intro trim_blanks_ends) (auto simp: value_text_def)
  moreover have "c_str a = a" using a by (intro c_str_id) (auto simp: attr_text_def)
  ultimately show ?thesis using a v X by (simp add: add_rdn_def attr_text_def value_text_def)
qed

lemma rfc_rdn:
  assumes "rdn_read X sn r"
  shows "rfc2253_loop X (rdn_text r @ s) [] [] True False name = rfc2253_loop X s (fst r) (snd r) False False name"
proof -
  obtain a v where r: "r = (a, v)" by force
  have "set a \<inter> {backslash, CHR ''='', CHR '',''} = {}" using assms by (auto simp: r rdn_read_def attr_text_def)
  then show ?thesis by (simp add: r rdn_text_def rfc_attr rfc_value)
qed

lemma rfc_names:
  "list_all (rdn_read X sn) (r # rs) \<Longrightarrow>
   rfc2253_loop X (join '','' (map rdn_text (r # rs))) [] [] True False name = Some (name @ map (\<lambda>(a, v). (sn a, v)) (r # rs))"
proof (induction rs arbitrary: r name)
  case Nil
  then show ?case using rfc_rdn [of X sn r "[]"] add_rdn_read [of X sn "fst r" "snd r"]
    by (simp split: prod.split)
next
  case (Cons r' rs)
  have "rfc2253_loop X (join '','' (map rdn_text (r # r' # rs))) [] [] True False name
    = rfc2253_loop X (CHR '','' # join '','' (map rdn_text (r' # rs))) (fst r) (snd r) False False name"
    using rfc_rdn [of X sn r] Cons.prems by simp
  also have "\<dots> = rfc2253_loop X (join '','' (map rdn_text (r' # rs))) [] [] True False (name @ [(sn (fst r), snd r)])"
    using add_rdn_read [of X sn "fst r" "snd r"] Cons.prems by simp
  also have "\<dots> = Some ((name @ [(sn (fst r), snd r)]) @ map (\<lambda>(a, v). (sn a, v)) (r' # rs))"
    using Cons.prems by (intro Cons.IH) simp
  finally show ?case by (simp add: case_prod_beta)
qed

lemma rdn_text_head: "attr_text (fst r) \<Longrightarrow> rdn_text r \<noteq> [] \<and> hd (rdn_text r) \<noteq> CHR ''/''"
  by (cases r; cases "fst r") (auto simp: rdn_text_def attr_text_def)

text \<open>Names and their text: a name written with escaped values, joined by commas, is read back
  entry by entry, whatever commas, quotes, equals signs or backslashes the values contain.\<close>

theorem dn_text_roundtrip:
  assumes "rs \<noteq> []" "list_all (rdn_read X sn) rs"
  shows "parseDnString X (join '','' (map rdn_text rs)) = Some (map (\<lambda>(a, v). (sn a, v)) rs)"
proof -
  obtain r rs' where rs: "rs = r # rs'" using assms(1) by (cases rs) auto
  have "attr_text (fst r)" using assms(2) by (auto simp: rs rdn_read_def split: prod.splits)
  from rdn_text_head [OF this] have "join '','' (map rdn_text rs) \<noteq> []" "hd (join '','' (map rdn_text rs)) \<noteq> CHR ''/''"
    by (cases rs'; auto simp: rs)+
  then show ?thesis using rfc_names [of X sn r rs' "[]"] assms(2) by (simp add: parseDnString_def rs)
qed

lemma dn_text_roundtrip_witness:
  "parseDnString (\<lambda>a v. Some (a, v)) (join '','' (map rdn_text [(''CN'', ''Doe, J''), (''C'', ''KR'')]))
   = Some [(''CN'', ''Doe, J''), (''C'', ''KR'')]"
  using dn_text_roundtrip [of "[(''CN'', ''Doe, J''), (''C'', ''KR'')]" "\<lambda>a v. Some (a, v)" id]
  by (simp add: rdn_read_def attr_text_def value_text_def)

text \<open>RFC 2253 text as OpenSSL prints it has pairs of upper-case digits for bytes outside ASCII.\<close>

definition upper_digit :: "nat \<Rightarrow> char" where
  "upper_digit n = char_of (if n < 10 then 48 + n else 55 + n)"

definition upper_pair :: "char \<Rightarrow> string" where
  "upper_pair c = [upper_digit (of_char c div 16), upper_digit (of_char c mod 16)]"

lemma rfc_hex_pairs:
  assumes "\<And>c. c \<in> set bs \<Longrightarrow> set (upper_pair c) \<inter> {backslash, CHR '',''} = {}"
  shows "rfc2253_loop X (concat (map (\<lambda>c. backslash # upper_pair c) bs)) a acc False False name
    = rfc2253_loop X [] a (acc @ concat (map upper_pair bs)) False False name"
  using assms
proof (induction bs arbitrary: acc)
  case Nil
  then show ?case by simp
next
  case (Cons c bs)
  obtain d e where de: "upper_pair c = [d, e]" by (simp add: upper_pair_def)
  have "e \<noteq> backslash" "e \<noteq> CHR '',''" using Cons.prems [of c] de by auto
  then have "rfc2253_loop X (concat (map (\<lambda>c. backslash # upper_pair c) (c # bs))) a acc False False name
    = rfc2253_loop X (concat (map (\<lambda>c. backslash # upper_pair c) bs)) a (acc @ [d, e]) False False name"
    by (simp add: de)
  also have "\<dots> = rfc2253_loop X [] a ((acc @ [d, e]) @ concat (map upper_pair bs)) False False name"
    using Cons.prems by (intro Cons.IH) simp
  finally show ?case by (simp add: de)
qed

lemma upper_pair_chars:
  assumes "x \<in> set (upper_pair c)"
  shows "x \<notin> set blanks \<and> x \<noteq> backslash \<and> x \<noteq> CHR '',''"
proof -
  have "48 \<le> (of_char (upper_digit n) :: nat) \<and> of_char (upper_digit n) \<le> (70 :: nat)" if "n < 16" for n
    using that by (simp add: upper_digit_def)
  from this [OF char_div16 [of c]] this [of "of_char c mod 16"]
  have "48 \<le> (of_char x :: nat) \<and> of_char x \<le> (70 :: nat)" using assms by (auto simp: upper_pair_def)
  then show ?thesis by auto
qed

text \<open>A name that is not ASCII is read wrongly: the parser removes the backslash of an escaped byte and
  keeps its two digits as text, so the entry OpenSSL printed comes back with the digits as its value.\<close>

theorem dn_hex_escapes_lost:
  assumes "attr_text a" "bs \<noteq> []"
  shows "parseDnString X (a @ ''='' @ concat (map (\<lambda>c. backslash # upper_pair c) bs))
    = map_option (\<lambda>e. [e]) (X a (concat (map upper_pair bs)))"
proof -
  let ?v = "concat (map upper_pair bs)"
  note nb = upper_pair_chars
  have "upper_pair c \<noteq> []" for c by (simp add: upper_pair_def)
  then have ne: "?v \<noteq> []" using assms(2) by (cases bs) auto
  have "x \<notin> set blanks" if "x \<in> set ?v" for x using that nb by auto
  from this [OF hd_in_set [OF ne]] this [OF last_in_set [OF ne]] ne
  have t: "trim_blanks ?v = ?v" by (intro trim_blanks_ends)
  note ta = trim_attr [OF assms(1)]
  have ca: "c_str a = a" using assms(1) by (intro c_str_id) (auto simp: attr_text_def)
  have "set a \<inter> {backslash, CHR ''='', CHR '',''} = {}" using assms(1) by (auto simp: attr_text_def)
  then have "rfc2253_loop X (a @ ''='' @ concat (map (\<lambda>c. backslash # upper_pair c) bs)) [] [] True False []
    = add_rdn X a ?v []"
    using rfc_hex_pairs [of bs X a "[]" "[]"] nb by (auto simp: rfc_attr)
  also have "\<dots> = map_option (\<lambda>e. [e]) (X a ?v)"
    using assms(1) ne by (simp add: add_rdn_def t ta ca attr_text_def split: option.split)
  finally show ?thesis using assms(1) by (cases a) (auto simp: parseDnString_def attr_text_def split: option.split)
qed

lemma dn_hex_escapes_lost_witness:
  "parseDnString (\<lambda>a v. Some (a, v)) (''CN='' @ concat (map (\<lambda>c. backslash # upper_pair c) [CHR 0xC3, CHR 0xA9]))
   = Some [(''CN'', ''C3A9'')]"
proof -
  have "concat (map upper_pair [CHR 0xC3, CHR 0xA9]) = ''C3A9''" by code_simp
  then show ?thesis
    using dn_hex_escapes_lost [of "''CN''" "[CHR 0xC3, CHR 0xA9]" "\<lambda>a v. Some (a, v)"] by (simp add: attr_text_def)
qed

end
