(* ===== verification/Ldap_Storage.thy ===== *)
theory Ldap_Storage
  imports Dn_Names Ldap_Operations
begin

text \<open>
  \<^verbatim>\<open>services/pkd-management/src/services/ldap_storage_service.cpp\<close>: the names and entries the upload
  writes to the directory, and the containers it creates for a country.  The server is that of
  \<open>Ldap_Operations\<close> with the replacement of one attribute.  Making a connection is not modelled.
\<close>

section \<open>The server\<close>

record 'd ldap_store =
  lt_server :: "'d ldap_server"
  lt_modify :: "'d \<Rightarrow> string \<Rightarrow> string \<Rightarrow> ldap_value list \<Rightarrow> int \<times> 'd"

definition replace_attr :: "string \<Rightarrow> ldap_value list \<Rightarrow> ldap_attrs \<Rightarrow> ldap_attrs" where
  "replace_attr k vs as = filter (\<lambda>a. fst a \<noteq> k) as @ [(k, vs)]"

text \<open>Beyond \<open>ldap_laws\<close>: success of an addition means that the entry is new and is the one given; a replacement
  either does nothing or replaces the attribute of an entry that exists, and does so on success.\<close>

definition ldap_store_laws :: "'d ldap_store \<Rightarrow> ('d \<Rightarrow> string \<Rightarrow> ldap_attrs option) \<Rightarrow> bool" where
  "ldap_store_laws T ents =
     (ldap_laws (lt_server T) ents
      \<and> (\<forall>d dn as d'. ls_add (lt_server T) d dn as = (LDAP_SUCCESS, d') \<longrightarrow> ents d dn = None \<and> ents d' = (ents d)(dn \<mapsto> as))
      \<and> (\<forall>d dn k vs rc d'. lt_modify T d dn k vs = (rc, d') \<longrightarrow>
           (\<exists>as. ents d dn = Some as \<and> ents d' = (ents d)(dn \<mapsto> replace_attr k vs as)) \<or> rc \<noteq> LDAP_SUCCESS \<and> ents d' = ents d))"

section \<open>Names\<close>

record storage_config =
  st_ldapBaseDn :: string
  st_ldapDataContainer :: string
  st_ldapNcDataContainer :: string

definition extractStandardAttributes :: "entry_reader \<Rightarrow> string \<Rightarrow> string \<times> string" where
  "extractStandardAttributes X subjectDn =
     (case parseDnString X subjectDn of
        None \<Rightarrow> (subjectDn, [])
      | Some name \<Rightarrow>
          let c = name_dn_components name;
              standardDn = join '',''
                (set_component ''CN'' (dc_commonName c) @ set_component ''O'' (dc_organization c)
                 @ set_component ''OU'' (dc_organizationalUnit c) @ set_component ''C'' (dc_country c)
                 @ set_component ''L'' (dc_locality c) @ set_component ''ST'' (dc_stateOrProvince c));
              nonStandardAttrs = join '',''
                (set_component ''emailAddress'' (dc_email c) @ set_component ''serialNumber'' (dc_serialNumber c))
          in (if standardDn = [] then subjectDn else standardDn, nonStandardAttrs))"

definition buildCertificateDn :: "entry_reader \<Rightarrow> storage_config \<Rightarrow> string \<Rightarrow> string \<Rightarrow> string \<Rightarrow> string \<Rightarrow> string" where
  "buildCertificateDn X cfg certType countryCode subjectDn serialNumber =
     (let (ou, dataContainer) =
            (if certType = ''CSCA'' then (''csca'', st_ldapDataContainer cfg)
             else if certType = ''DSC'' then (''dsc'', st_ldapDataContainer cfg)
             else if certType = ''LC'' then (''lc'', st_ldapDataContainer cfg)
             else if certType = ''DSC_NC'' then (''dsc'', st_ldapNcDataContainer cfg)
             else (''dsc'', st_ldapDataContainer cfg))
      in ''cn='' @ escapeLdapDnValue (fst (extractStandardAttributes X subjectDn)) @ ''+sn='' @ escapeDnComponent serialNumber
         @ '',o='' @ escapeDnComponent ou @ '',c='' @ escapeDnComponent countryCode @ '','' @ dataContainer
         @ '','' @ st_ldapBaseDn cfg)"

definition storage_place :: "storage_config \<Rightarrow> string \<Rightarrow> string \<times> string" where
  "storage_place cfg certType =
     (if certType = ''CSCA'' then (''csca'', st_ldapDataContainer cfg)
      else if certType = ''DSC'' then (''dsc'', st_ldapDataContainer cfg)
      else if certType = ''DSC_NC'' then (''dsc'', st_ldapNcDataContainer cfg)
      else if certType = ''LC'' then (''lc'', st_ldapDataContainer cfg)
      else if certType = ''MLSC'' then (''mlsc'', st_ldapDataContainer cfg)
      else (''dsc'', st_ldapDataContainer cfg))"

definition buildCertificateDnV2 :: "storage_config \<Rightarrow> string \<Rightarrow> string \<Rightarrow> string \<Rightarrow> string" where
  "buildCertificateDnV2 cfg fingerprint certType countryCode =
     (let (ou, dataContainer) = storage_place cfg certType
      in ''cn='' @ escapeDnComponent fingerprint @ '',o='' @ escapeDnComponent ou @ '',c='' @ escapeDnComponent countryCode
         @ '','' @ dataContainer @ '','' @ st_ldapBaseDn cfg)"

definition storage_buildCrlDn :: "storage_config \<Rightarrow> string \<Rightarrow> string \<Rightarrow> string" where
  "storage_buildCrlDn cfg countryCode fingerprint =
     ''cn='' @ escapeDnComponent fingerprint @ '',o=crl,c='' @ escapeDnComponent countryCode
       @ '','' @ st_ldapDataContainer cfg @ '','' @ st_ldapBaseDn cfg"

definition buildMasterListDn :: "storage_config \<Rightarrow> string \<Rightarrow> string \<Rightarrow> string" where
  "buildMasterListDn cfg countryCode fingerprint =
     ''cn='' @ escapeDnComponent fingerprint @ '',o=ml,c='' @ escapeDnComponent countryCode
       @ '',dc=data,'' @ st_ldapBaseDn cfg"

section \<open>Containers\<close>

abbreviation dataContainerDn :: "storage_config \<Rightarrow> bool \<Rightarrow> string" where
  "dataContainerDn cfg isNcData \<equiv> (if isNcData then st_ldapNcDataContainer cfg else st_ldapDataContainer cfg) @ '','' @ st_ldapBaseDn cfg"

definition storage_countryDn :: "storage_config \<Rightarrow> bool \<Rightarrow> string \<Rightarrow> string" where
  "storage_countryDn cfg isNcData countryCode = ''c='' @ escapeDnComponent countryCode @ '','' @ dataContainerDn cfg isNcData"

definition country_ous :: "bool \<Rightarrow> string list" where
  "country_ous isNcData = (if isNcData then [''dsc''] else [''csca'', ''dsc'', ''lc'', ''mlsc'', ''crl''])"

text \<open>The attributes of a container entry: its classes and its naming attribute.\<close>

definition container_entry :: "string list \<Rightarrow> (string \<times> string) list \<Rightarrow> ldap_attrs" where
  "container_entry classes kvs = (''objectClass'', map Text classes) # map (\<lambda>(k, v). (k, [Text (c_str v)])) kvs"

definition ensure_data_container :: "'d ldap_store \<Rightarrow> storage_config \<Rightarrow> 'd \<Rightarrow> bool \<Rightarrow> bool \<times> 'd" where
  "ensure_data_container T cfg d isNcData =
     (case ls_search (lt_server T) d (c_str (dataContainerDn cfg isNcData)) of
        (dcRc, d) \<Rightarrow>
          if dcRc = LDAP_NO_SUCH_OBJECT then
            (let dcValue = (if isNcData then ''nc-data'' else ''data'')
             in case ls_add (lt_server T) d (c_str (dataContainerDn cfg isNcData))
                   (container_entry [''top'', ''dcObject'', ''organization''] [(''dc'', dcValue), (''o'', dcValue)]) of
                  (createRc, d) \<Rightarrow> (createRc = LDAP_SUCCESS \<or> createRc = LDAP_ALREADY_EXISTS, d))
          else (True, d))"

definition create_ous :: "'d ldap_store \<Rightarrow> string \<Rightarrow> string list \<Rightarrow> 'd \<Rightarrow> 'd" where
  "create_ous T countryDn ous d =
     foldl (\<lambda>d ouName. snd (ls_add (lt_server T) d (c_str (''o='' @ ouName @ '','' @ countryDn))
        (container_entry [''organization'', ''top''] [(''o'', ouName)]))) d ous"

definition ensureCountryOuExists :: "'d ldap_store \<Rightarrow> storage_config \<Rightarrow> 'd \<Rightarrow> string \<Rightarrow> bool \<Rightarrow> bool \<times> 'd" where
  "ensureCountryOuExists T cfg d countryCode isNcData =
     (case ensure_data_container T cfg d isNcData of
        (False, d) \<Rightarrow> (False, d)
      | (True, d) \<Rightarrow>
          (case ls_search (lt_server T) d (c_str (storage_countryDn cfg isNcData countryCode)) of
             (rc, d) \<Rightarrow>
               if rc = LDAP_SUCCESS then (True, d)
               else if rc \<noteq> LDAP_NO_SUCH_OBJECT then (False, d)
               else (case ls_add (lt_server T) d (c_str (storage_countryDn cfg isNcData countryCode))
                         (container_entry [''country'', ''top''] [(''c'', countryCode)]) of
                   (rc, d) \<Rightarrow>
                     if rc \<noteq> LDAP_SUCCESS \<and> rc \<noteq> LDAP_ALREADY_EXISTS then (False, d)
                     else (True, create_ous T (storage_countryDn cfg isNcData countryCode) (country_ous isNcData) d))))"

definition ensureMasterListOuExists :: "'d ldap_store \<Rightarrow> storage_config \<Rightarrow> 'd \<Rightarrow> string \<Rightarrow> bool \<times> 'd" where
  "ensureMasterListOuExists T cfg d countryCode =
     (let S = lt_server T;
          countryDn = ''c='' @ escapeDnComponent countryCode @ '',dc=data,'' @ st_ldapBaseDn cfg;
          (rc, d) = ls_search S d (c_str countryDn);
          (ok, d) = (if rc = LDAP_NO_SUCH_OBJECT then
              (let (rc, d) = ls_add S d (c_str countryDn) (container_entry [''country'', ''top''] [(''c'', countryCode)])
               in (rc = LDAP_SUCCESS \<or> rc = LDAP_ALREADY_EXISTS, d))
            else (True, d))
      in if \<not> ok then (False, d)
         else
           let mlOuDn = ''o=ml,'' @ countryDn;
               (rc, d) = ls_search S d (c_str mlOuDn)
           in if rc = LDAP_NO_SUCH_OBJECT
              then (True, snd (ls_add S d (c_str mlOuDn) (container_entry [''organization'', ''top''] [(''o'', ''ml'')])))
              else (True, d))"

section \<open>Entries\<close>

text \<open>Add an entry, or replace its binary attribute when it exists; the result is the name, or the
  empty string after a failure.\<close>

definition add_or_replace :: "'d ldap_store \<Rightarrow> 'd \<Rightarrow> string \<Rightarrow> ldap_attrs \<Rightarrow> string \<Rightarrow> byte list \<Rightarrow> string \<times> 'd" where
  "add_or_replace T d dn entry attr content =
     (let (rc, d) = ls_add (lt_server T) d (c_str dn) entry;
          (rc, d) = (if rc = LDAP_ALREADY_EXISTS then lt_modify T d (c_str dn) attr [Binary content] else (rc, d))
      in if rc \<noteq> LDAP_SUCCESS then ([], d) else (dn, d))"

definition certificate_entry :: "entry_reader \<Rightarrow> bool \<Rightarrow> string \<Rightarrow> string \<Rightarrow> string \<Rightarrow> byte list \<Rightarrow> (string \<times> string) list
    \<Rightarrow> bool \<Rightarrow> ldap_attrs" where
  "certificate_entry X isNcData subjectDn serialNumber fingerprint certBinary conformance useLegacyDn =
     (let (standardDn, nonStandardAttrs) = extractStandardAttributes X subjectDn;
          description = (if nonStandardAttrs \<noteq> []
            then ''Full Subject DN: '' @ subjectDn @ '' | Non-standard attributes: '' @ nonStandardAttrs
                 @ '' | Fingerprint: '' @ fingerprint
            else ''Subject DN: '' @ subjectDn @ '' | Fingerprint: '' @ fingerprint)
      in [(''objectClass'', map Text [''top'', ''person'', ''organizationalPerson'', ''inetOrgPerson'', ''pkdDownload'']),
          (''cn'', map (\<lambda>v. Text (c_str v)) (if useLegacyDn then [standardDn, fingerprint] else [fingerprint])),
          (''sn'', [Text (c_str serialNumber)]), (''description'', [Text (c_str description)]),
          (''userCertificate;binary'', [Binary certBinary])]
         @ (if isNcData then map (\<lambda>(k, v). (k, [Text (c_str v)])) (filter (\<lambda>(k, v). v \<noteq> []) conformance) else []))"

definition saveCertificateToLdap :: "'d ldap_store \<Rightarrow> entry_reader \<Rightarrow> storage_config \<Rightarrow> 'd \<Rightarrow> string \<Rightarrow> string \<Rightarrow> string
    \<Rightarrow> string \<Rightarrow> string \<Rightarrow> byte list \<Rightarrow> string \<Rightarrow> string \<Rightarrow> string \<Rightarrow> bool \<Rightarrow> string \<times> 'd" where
  "saveCertificateToLdap T X cfg d certType countryCode subjectDn serialNumber fingerprint certBinary
       pkdConformanceCode pkdConformanceText pkdVersion useLegacyDn =
     (let isNcData = (certType = ''DSC_NC'');
          d = snd (ensureCountryOuExists T cfg d countryCode isNcData);
          dn = (if useLegacyDn then buildCertificateDn X cfg certType countryCode subjectDn serialNumber
                else buildCertificateDnV2 cfg fingerprint certType countryCode)
      in add_or_replace T d dn
           (certificate_entry X isNcData subjectDn serialNumber fingerprint certBinary
             [(''pkdConformanceCode'', pkdConformanceCode), (''pkdConformanceText'', pkdConformanceText), (''pkdVersion'', pkdVersion)]
             useLegacyDn)
           ''userCertificate;binary'' certBinary)"

definition saveCrlToLdap :: "'d ldap_store \<Rightarrow> storage_config \<Rightarrow> 'd \<Rightarrow> string \<Rightarrow> string \<Rightarrow> byte list \<Rightarrow> string \<times> 'd" where
  "saveCrlToLdap T cfg d countryCode fingerprint crlBinary =
     (let d = snd (ensureCountryOuExists T cfg d countryCode False)
      in add_or_replace T d (storage_buildCrlDn cfg countryCode fingerprint)
           [(''objectClass'', map Text [''top'', ''cRLDistributionPoint'', ''pkdDownload'']),
            (''cn'', [Text (c_str (take 32 fingerprint))]), (''certificateRevocationList;binary'', [Binary crlBinary])]
           ''certificateRevocationList;binary'' crlBinary)"

definition saveMasterListToLdap :: "'d ldap_store \<Rightarrow> storage_config \<Rightarrow> 'd \<Rightarrow> string \<Rightarrow> string \<Rightarrow> byte list \<Rightarrow> string \<times> 'd" where
  "saveMasterListToLdap T cfg d countryCode fingerprint mlBinary =
     (let d = snd (ensureMasterListOuExists T cfg d countryCode)
      in add_or_replace T d (buildMasterListDn cfg countryCode fingerprint)
           [(''objectClass'', map Text [''top'', ''person'', ''pkdMasterList'', ''pkdDownload'']),
            (''cn'', [Text (c_str (take 32 fingerprint))]), (''sn'', [Text ''1'']),
            (''pkdMasterListContent'', [Binary mlBinary]), (''pkdVersion'', [Text ''70''])]
           ''pkdMasterListContent'' mlBinary)"

section \<open>Names are apart\<close>

lemma no_comma [simp]: "closed_text (''cn='' @ escapeDnComponent v)" "closed_text (''c='' @ escapeDnComponent v)"
  by (simp_all add: closed_append closed_plain closed_escapeDnComponent)

lemma escape_plain_ou: "ou \<in> {''csca'', ''dsc'', ''lc'', ''mlsc''} \<Longrightarrow> escapeDnComponent ou = ou"
proof -
  have "escapeDnComponent ''csca'' = ''csca''" "escapeDnComponent ''dsc'' = ''dsc''" "escapeDnComponent ''lc'' = ''lc''"
    "escapeDnComponent ''mlsc'' = ''mlsc''"
    by (code_simp, code_simp, code_simp, code_simp)
  then show "ou \<in> {''csca'', ''dsc'', ''lc'', ''mlsc''} \<Longrightarrow> escapeDnComponent ou = ou" by auto
qed

lemma storage_place_ou: "fst (storage_place cfg ty) \<in> {''csca'', ''dsc'', ''lc'', ''mlsc''}"
  by (simp add: storage_place_def)

lemma certificate_rdns:
  assumes "storage_place cfg ty = (ou, container)"
  shows "rdns (buildCertificateDnV2 cfg fp ty cc)
    = (''cn='' @ escapeDnComponent fp) # (''o='' @ ou) # (''c='' @ escapeDnComponent cc) # rdns (container @ '','' @ st_ldapBaseDn cfg)"
proof -
  have ou: "ou \<in> {''csca'', ''dsc'', ''lc'', ''mlsc''}" using storage_place_ou [of cfg ty] assms by simp
  then have c: "closed_text (''o='' @ ou)" by auto
  have "buildCertificateDnV2 cfg fp ty cc = (''cn='' @ escapeDnComponent fp) @ CHR '','' # (''o='' @ ou) @ CHR '',''
      # (''c='' @ escapeDnComponent cc) @ CHR '','' # container @ '','' @ st_ldapBaseDn cfg"
    using assms escape_plain_ou [OF ou] by (simp add: buildCertificateDnV2_def)
  then show ?thesis by (simp only: rdns_closed no_comma c)
qed

text \<open>C30. The directory name of a certificate has exactly the components the upload gives it, whatever
  characters the values contain, and names of different certificates are different: a name determines
  the fingerprint, the country, the unit and the container.\<close>

theorem certificate_dn_injective:
  assumes "buildCertificateDnV2 cfg fp ty cc = buildCertificateDnV2 cfg fp' ty' cc'"
  shows "fp = fp' \<and> cc = cc' \<and> storage_place cfg ty = storage_place cfg ty'"
proof -
  obtain ou c where p: "storage_place cfg ty = (ou, c)" by force
  obtain ou' c' where p': "storage_place cfg ty' = (ou', c')" by force
  have h: "escapeDnComponent fp = escapeDnComponent fp'" "ou = ou'" "escapeDnComponent cc = escapeDnComponent cc'"
    using assms certificate_rdns [OF p, of fp cc] certificate_rdns [OF p', of fp' cc'] by simp_all
  then have "fp = fp'" "cc = cc'" using dn_value.enc_inj by blast+
  moreover have "c = c'"
    using assms p p' h by (simp add: buildCertificateDnV2_def)
  ultimately show ?thesis using p p' h by simp
qed

definition demo_storage :: storage_config where
  "demo_storage = \<lparr>st_ldapBaseDn = ''dc=pkd'', st_ldapDataContainer = ''dc=data'', st_ldapNcDataContainer = ''dc=nc-data''\<rparr>"

lemma certificate_dn_injective_witness:
  "buildCertificateDnV2 demo_storage ''a,o=csca'' ''DSC'' ''KR'' = buildCertificateDnV2 demo_storage ''a,o=csca'' ''OTHER'' ''KR''
   \<and> storage_place demo_storage ''DSC'' = storage_place demo_storage ''OTHER''"
proof -
  have "buildCertificateDnV2 demo_storage ''a,o=csca'' ''DSC'' ''KR'' = buildCertificateDnV2 demo_storage ''a,o=csca'' ''OTHER'' ''KR''"
    by (simp add: buildCertificateDnV2_def storage_place_def)
  with certificate_dn_injective [OF this] show ?thesis by simp
qed

section \<open>What a save leaves in the directory\<close>

lemma store_lawsD:
  assumes "ldap_store_laws T ents"
  shows "ldap_laws (lt_server T) ents"
    and "ls_add (lt_server T) d dn as = (LDAP_SUCCESS, d') \<Longrightarrow> ents d dn = None \<and> ents d' = (ents d)(dn \<mapsto> as)"
    and "lt_modify T d dn k vs = (rc, d') \<Longrightarrow>
      (\<exists>as. ents d dn = Some as \<and> ents d' = (ents d)(dn \<mapsto> replace_attr k vs as)) \<or> rc \<noteq> LDAP_SUCCESS \<and> ents d' = ents d"
  using assms unfolding ldap_store_laws_def by simp_all

lemmas store_search = search_laws(1) [OF store_lawsD(1)]
lemmas store_add_grows = add_laws(1) [OF store_lawsD(1)]

lemma ensure_data_grows:
  assumes "ldap_store_laws T ents" "ensure_data_container T cfg d nc = (ok, d')"
  shows "grows ents d d'"
proof -
  obtain rc d1 where s: "ls_search (lt_server T) d (c_str (dataContainerDn cfg nc)) = (rc, d1)" by force
  obtain rc2 d2 where a: "ls_add (lt_server T) d1 (c_str (dataContainerDn cfg nc))
      (container_entry [''top'', ''dcObject'', ''organization'']
        [(''dc'', if nc then ''nc-data'' else ''data''), (''o'', if nc then ''nc-data'' else ''data'')]) = (rc2, d2)" by force
  have "d' = (if rc = LDAP_NO_SUCH_OBJECT then d2 else d1)"
    using assms(2) unfolding ensure_data_container_def Let_def s prod.case a by (auto split: if_splits)
  then show ?thesis using store_search [OF assms(1) s] store_add_grows [OF assms(1) a] by (simp add: grows_def)
qed

lemma create_ous_grows: "ldap_store_laws T ents \<Longrightarrow> grows ents d (create_ous T dn ous d)"
proof (induction ous arbitrary: d)
  case Nil
  then show ?case by (simp add: create_ous_def grows_refl)
next
  case (Cons ou ous)
  let ?d1 = "snd (ls_add (lt_server T) d (c_str (''o='' @ ou @ '','' @ dn)) (container_entry [''organization'', ''top''] [(''o'', ou)]))"
  have "grows ents d ?d1" by (rule store_add_grows [OF Cons.prems]) (rule surjective_pairing)
  also have "grows ents ?d1 (create_ous T dn ous ?d1)" by (rule Cons.IH [OF Cons.prems])
  finally show ?case by (simp add: create_ous_def)
qed

lemma ensure_country_grows:
  assumes "ldap_store_laws T ents" "ensureCountryOuExists T cfg d cc nc = (ok, d')"
  shows "grows ents d d'"
proof -
  obtain ok1 d1 where e: "ensure_data_container T cfg d nc = (ok1, d1)" by force
  obtain rc d2 where s: "ls_search (lt_server T) d1 (c_str (storage_countryDn cfg nc cc)) = (rc, d2)" by force
  obtain rc3 d3 where a: "ls_add (lt_server T) d2 (c_str (storage_countryDn cfg nc cc))
      (container_entry [''country'', ''top''] [(''c'', cc)]) = (rc3, d3)" by force
  have d': "d' \<in> {d1, d2, d3, create_ous T (storage_countryDn cfg nc cc) (country_ous nc) d3}"
    using assms(2) unfolding ensureCountryOuExists_def e prod.case s a by (cases ok1) (auto split: if_splits)
  have g1: "grows ents d d1" by (rule ensure_data_grows [OF assms(1) e])
  have g2: "grows ents d d2" using g1 store_search [OF assms(1) s] by (simp add: grows_def)
  have g3: "grows ents d d3" using grows_trans [OF g2 store_add_grows [OF assms(1) a]] .
  show ?thesis using d' g1 g2 g3 grows_trans [OF g3 create_ous_grows [OF assms(1)]] by blast
qed

text \<open>After a successful addition or replacement.\<close>

lemma add_or_replace_result:
  assumes L: "ldap_store_laws T ents" and r: "add_or_replace T d dn entry attr content = (res, d')"
    and entry: "map_of entry attr = Some [Binary content]" and dn: "dn \<noteq> []"
  shows "\<And>x. x \<noteq> c_str dn \<Longrightarrow> ents d x = Some e \<Longrightarrow> ents d' x = Some e"
    and "res \<noteq> [] \<Longrightarrow> res = dn \<and> (\<exists>as. ents d' (c_str dn) = Some as \<and> map_of as attr = Some [Binary content]
          \<and> (case ents d (c_str dn) of None \<Rightarrow> as = entry \<or> (\<exists>b. as = replace_attr attr [Binary content] b)
             | Some old \<Rightarrow> as = replace_attr attr [Binary content] old))"
    and "ents d (c_str dn) = Some old \<Longrightarrow> ents d' (c_str dn) \<in> {Some old, Some (replace_attr attr [Binary content] old)}"
proof -
  obtain rc d1 where a: "ls_add (lt_server T) d (c_str dn) entry = (rc, d1)" by force
  obtain rc2 d2 where m: "lt_modify T d1 (c_str dn) attr [Binary content] = (rc2, d2)" by force
  have g: "grows ents d d1" by (rule store_add_grows [OF L a])
  have mo: "(\<exists>as. ents d1 (c_str dn) = Some as \<and> ents d2 = (ents d1)(c_str dn \<mapsto> replace_attr attr [Binary content] as))
      \<or> rc2 \<noteq> LDAP_SUCCESS \<and> ents d2 = ents d1"
    by (rule store_lawsD(3) [OF L m])
  have r': "(res, d') = (if rc = LDAP_ALREADY_EXISTS then (if rc2 = LDAP_SUCCESS then dn else [], d2)
      else (if rc = LDAP_SUCCESS then dn else [], d1))"
    using r a m by (auto simp: add_or_replace_def split: if_splits)
  show "\<And>x. x \<noteq> c_str dn \<Longrightarrow> ents d x = Some e \<Longrightarrow> ents d' x = Some e"
    using r' mo g by (auto dest: grows_entry split: if_splits)
  show "ents d (c_str dn) = Some old \<Longrightarrow> ents d' (c_str dn) \<in> {Some old, Some (replace_attr attr [Binary content] old)}"
    using r' mo grows_entry [OF g] by (fastforce split: if_splits)
  have "map_of (filter (\<lambda>a. fst a \<noteq> attr) b) attr = None" for b :: ldap_attrs by (induction b) auto
  then have rep: "map_of (replace_attr attr [Binary content] b) attr = Some [Binary content]" for b
    by (simp add: replace_attr_def map_add_def)
  show "res \<noteq> [] \<Longrightarrow> res = dn \<and> (\<exists>as. ents d' (c_str dn) = Some as \<and> map_of as attr = Some [Binary content]
          \<and> (case ents d (c_str dn) of None \<Rightarrow> as = entry \<or> (\<exists>b. as = replace_attr attr [Binary content] b)
             | Some old \<Rightarrow> as = replace_attr attr [Binary content] old))"
  proof -
    assume "res \<noteq> []"
    show ?thesis
    proof (cases "rc = LDAP_ALREADY_EXISTS")
      case True
      then have rd: "res = dn" "rc2 = LDAP_SUCCESS" "d' = d2" using r' \<open>res \<noteq> []\<close> by (auto split: if_splits)
      then obtain as where as: "ents d1 (c_str dn) = Some as" "ents d2 = (ents d1)(c_str dn \<mapsto> replace_attr attr [Binary content] as)"
        using mo by auto
      moreover have "ents d (c_str dn) = Some old \<Longrightarrow> as = old" for old using grows_entry [OF g] as(1) by fastforce
      ultimately show ?thesis using rd rep by (auto split: option.split)
    next
      case False
      then have rd: "res = dn" "rc = LDAP_SUCCESS" "d' = d1" using r' \<open>res \<noteq> []\<close> by (auto split: if_splits)
      then have "ents d (c_str dn) = None" "ents d1 = (ents d)(c_str dn \<mapsto> entry)"
        using store_lawsD(2) [OF L] a by blast+
      then show ?thesis using rd entry by auto
    qed
  qed
qed

lemma certificate_entry_binary:
  "map_of (certificate_entry X nc subj sn fp bin conf legacy) ''userCertificate;binary'' = Some [Binary bin]"
  by (simp add: certificate_entry_def Let_def split: prod.split)

lemma save_certificate_steps:
  assumes "saveCertificateToLdap T X cfg d ty cc subj sn fp bin code txt ver False = (res, d')" "ldap_store_laws T ents"
  obtains d1 ok entry where "ensureCountryOuExists T cfg d cc (ty = ''DSC_NC'') = (ok, d1)"
    "add_or_replace T d1 (buildCertificateDnV2 cfg fp ty cc) entry ''userCertificate;binary'' bin = (res, d')"
    "map_of entry ''userCertificate;binary'' = Some [Binary bin]" "buildCertificateDnV2 cfg fp ty cc \<noteq> []"
proof -
  obtain ok d1 where e: "ensureCountryOuExists T cfg d cc (ty = ''DSC_NC'') = (ok, d1)" by force
  show thesis
    by (rule that [OF e _ certificate_entry_binary])
      (use assms(1) e in \<open>simp_all add: saveCertificateToLdap_def buildCertificateDnV2_def Let_def split: prod.split\<close>)
qed

lemma saved_entry:
  assumes "ldap_store_laws T ents"
    and "saveCertificateToLdap T X cfg d ty cc subj sn fp bin code txt ver False = (res, d')" "res \<noteq> []"
  obtains as where "ents d' (c_str res) = Some as" "map_of as ''userCertificate;binary'' = Some [Binary bin]"
proof -
  from save_certificate_steps [OF assms(2,1)] obtain d1 ok entry where s:
    "add_or_replace T d1 (buildCertificateDnV2 cfg fp ty cc) entry ''userCertificate;binary'' bin = (res, d')"
    "map_of entry ''userCertificate;binary'' = Some [Binary bin]" "buildCertificateDnV2 cfg fp ty cc \<noteq> []" by metis
  from add_or_replace_result [OF assms(1) s] assms(3) that show thesis by blast
qed

text \<open>C22. Saving a certificate, on any server that keeps its result codes: a name is returned only if the
  entry of that name now holds the certificate; whether the save succeeds or fails, an entry of that name
  that was there before is still there, either as it was or with the certificate put in place of its
  \<^verbatim>\<open>userCertificate;binary\<close> and every other attribute kept, and no other entry is removed
  or changed.\<close>

theorem saved_certificate_stored:
  assumes "ldap_store_laws T ents"
    and "saveCertificateToLdap T X cfg d ty cc subj sn fp bin code txt ver False = (res, d')"
  shows "(res \<noteq> [] \<longrightarrow> res = buildCertificateDnV2 cfg fp ty cc
      \<and> (\<exists>as. ents d' (c_str res) = Some as \<and> map_of as ''userCertificate;binary'' = Some [Binary bin]
            \<and> (\<forall>old. ents d (c_str res) = Some old \<longrightarrow> as = replace_attr ''userCertificate;binary'' [Binary bin] old)))
    \<and> (ents d (c_str (buildCertificateDnV2 cfg fp ty cc)) = Some old0 \<longrightarrow>
         ents d' (c_str (buildCertificateDnV2 cfg fp ty cc))
           \<in> {Some old0, Some (replace_attr ''userCertificate;binary'' [Binary bin] old0)})
    \<and> (x \<noteq> c_str (buildCertificateDnV2 cfg fp ty cc) \<and> ents d x = Some e \<longrightarrow> ents d' x = Some e)"
proof -
  let ?dn = "buildCertificateDnV2 cfg fp ty cc"
  from save_certificate_steps [OF assms(2,1)] obtain d1 ok entry where e: "ensureCountryOuExists T cfg d cc (ty = ''DSC_NC'') = (ok, d1)"
    and s: "add_or_replace T d1 ?dn entry ''userCertificate;binary'' bin = (res, d')"
      "map_of entry ''userCertificate;binary'' = Some [Binary bin]" "?dn \<noteq> []" by metis
  note g = ensure_country_grows [OF assms(1) e]
  note ar = add_or_replace_result [OF assms(1) s]
  have "ents d' x = Some e" if "x \<noteq> c_str ?dn" "ents d x = Some e"
    using ar(1) [OF that(1)] grows_entry [OF g that(2)] by blast
  moreover have "as = replace_attr ''userCertificate;binary'' [Binary bin] old"
    if "ents d (c_str ?dn) = Some old" "case ents d1 (c_str ?dn) of None \<Rightarrow> as = entry \<or> (\<exists>b. as = replace_attr ''userCertificate;binary'' [Binary bin] b)
             | Some old \<Rightarrow> as = replace_attr ''userCertificate;binary'' [Binary bin] old" for as old
    using grows_entry [OF g that(1)] that(2) by simp
  moreover have "ents d' (c_str ?dn) \<in> {Some old0, Some (replace_attr ''userCertificate;binary'' [Binary bin] old0)}"
    if "ents d (c_str ?dn) = Some old0"
    by (rule ar(3)) (rule grows_entry [OF g that])
  ultimately show ?thesis using ar(2) by blast
qed

section \<open>A directory tree\<close>

text \<open>The name of the parent of an entry: what follows the first comma that is not escaped.\<close>

fun parent_dn :: "string \<Rightarrow> string" where
  "parent_dn [] = []"
| "parent_dn (c # s) =
     (if c = backslash then (case s of [] \<Rightarrow> [] | d # t \<Rightarrow> parent_dn t)
      else if c = CHR '','' then s else parent_dn s)"

lemma parent_closed: "closed_text x \<Longrightarrow> parent_dn (x @ CHR '','' # s) = s"
proof (induction x rule: closed_text.induct)
  case (2 c x)
  then show ?case by (cases x) (auto split: if_splits)
qed simp

text \<open>A server that answers by the tree (RFC 4511): an entry needs its parent.\<close>

definition ldap_tree :: "'d ldap_store \<Rightarrow> ('d \<Rightarrow> string \<Rightarrow> ldap_attrs option) \<Rightarrow> bool" where
  "ldap_tree T ents =
     (ldap_store_laws T ents
      \<and> (\<forall>d dn. fst (ls_search (lt_server T) d dn) = (if ents d dn = None then LDAP_NO_SUCH_OBJECT else LDAP_SUCCESS))
      \<and> (\<forall>d dn as. fst (ls_add (lt_server T) d dn as)
           = (if ents d dn \<noteq> None then LDAP_ALREADY_EXISTS
              else if ents d (parent_dn dn) = None then LDAP_NO_SUCH_OBJECT else LDAP_SUCCESS)
         \<and> (fst (ls_add (lt_server T) d dn as) \<noteq> LDAP_SUCCESS \<longrightarrow> ents (snd (ls_add (lt_server T) d dn as)) = ents d)))"

definition tree_shaped :: "(string \<Rightarrow> ldap_attrs option) \<Rightarrow> string \<Rightarrow> bool" where
  "tree_shaped es base = (\<forall>dn. es dn \<noteq> None \<longrightarrow> dn = base \<or> es (parent_dn dn) \<noteq> None)"

lemma tree_search:
  assumes "ldap_tree T ents"
  obtains d' where "ls_search (lt_server T) d dn = (if ents d dn = None then LDAP_NO_SUCH_OBJECT else LDAP_SUCCESS, d')"
    "ents d' = ents d"
proof -
  obtain rc d' where s: "ls_search (lt_server T) d dn = (rc, d')" by force
  moreover have "rc = (if ents d dn = None then LDAP_NO_SUCH_OBJECT else LDAP_SUCCESS)"
    using assms s unfolding ldap_tree_def by (metis fst_conv)
  moreover have "ldap_store_laws T ents" using assms by (simp add: ldap_tree_def)
  from store_search [OF this s] have "ents d' = ents d" .
  ultimately show ?thesis using that by auto
qed

lemma tree_add:
  assumes "ldap_tree T ents"
  obtains d' where
    "ls_add (lt_server T) d dn as = (if ents d dn \<noteq> None then LDAP_ALREADY_EXISTS
       else if ents d (parent_dn dn) = None then LDAP_NO_SUCH_OBJECT else LDAP_SUCCESS, d')"
    "ents d' = (if ents d dn = None \<and> ents d (parent_dn dn) \<noteq> None then (ents d)(dn \<mapsto> as) else ents d)"
proof -
  obtain rc d' where a: "ls_add (lt_server T) d dn as = (rc, d')" by force
  have L: "ldap_store_laws T ents" using assms by (simp add: ldap_tree_def)
  have rc: "rc = (if ents d dn \<noteq> None then LDAP_ALREADY_EXISTS
      else if ents d (parent_dn dn) = None then LDAP_NO_SUCH_OBJECT else LDAP_SUCCESS)"
    and ne: "rc \<noteq> LDAP_SUCCESS \<Longrightarrow> ents d' = ents d"
    using assms a unfolding ldap_tree_def by (metis fst_conv, metis fst_conv snd_conv)
  have "rc = LDAP_SUCCESS \<Longrightarrow> ents d' = (ents d)(dn \<mapsto> as)" using store_lawsD(2) [OF L] a by blast
  with rc ne have "ents d' = (if ents d dn = None \<and> ents d (parent_dn dn) \<noteq> None then (ents d)(dn \<mapsto> as) else ents d)"
    by (auto split: if_splits)
  with a rc show ?thesis using that [of d'] by blast
qed

lemma escape_no_nul: "CHR 0x00 \<notin> set (escapeDnComponent v)"
proof -
  have "CHR 0x00 \<notin> set (escape_at n i c)" for n i c by (auto simp: escape_at_def)
  then show ?thesis by (auto simp: escapeDnComponent_def set_zip)
qed

lemma add_or_replace_frame:
  assumes "ldap_store_laws T ents" "add_or_replace T d dn entry attr content = (res, d')" "x \<noteq> c_str dn"
  shows "ents d' x = ents d x"
proof -
  obtain rc d1 where a: "ls_add (lt_server T) d (c_str dn) entry = (rc, d1)" by force
  obtain rc2 d2 where m: "lt_modify T d1 (c_str dn) attr [Binary content] = (rc2, d2)" by force
  have "ents d1 x = ents d x" using add_laws(3) [OF store_lawsD(1) [OF assms(1)] a] assms(3) by auto
  moreover have "ents d2 x = ents d1 x" using store_lawsD(3) [OF assms(1) m] assms(3) by auto
  moreover have "d' = d1 \<or> d' = d2" using assms(2) a m by (auto simp: add_or_replace_def split: if_splits)
  ultimately show ?thesis by auto
qed

text \<open>The names below a country, for a configuration without NUL.\<close>

definition plain_config :: "storage_config \<Rightarrow> bool" where
  "plain_config cfg = (CHR 0x00 \<notin> set (st_ldapBaseDn cfg) \<and> CHR 0x00 \<notin> set (st_ldapDataContainer cfg)
     \<and> closed_text (st_ldapDataContainer cfg))"

lemma country_dn_c_str:
  assumes "plain_config cfg"
  shows "c_str (storage_countryDn cfg False cc) = storage_countryDn cfg False cc"
    and "c_str (dataContainerDn cfg False) = dataContainerDn cfg False"
    and "CHR 0x00 \<notin> set pre \<Longrightarrow> c_str (pre @ storage_countryDn cfg False cc) = pre @ storage_countryDn cfg False cc"
  using assms escape_no_nul [of cc] by (auto simp: storage_countryDn_def plain_config_def intro!: c_str_id)

lemma certificate_dn_place:
  assumes "ty \<noteq> ''DSC_NC''" "storage_place cfg ty = (ou, container)"
  shows "buildCertificateDnV2 cfg fp ty cc = ''cn='' @ escapeDnComponent fp @ '','' @ ''o='' @ ou @ '','' @ storage_countryDn cfg False cc"
    and "container = st_ldapDataContainer cfg" and "ou \<in> {''csca'', ''dsc'', ''lc'', ''mlsc''}"
proof -
  show c: "container = st_ldapDataContainer cfg" using assms by (auto simp: storage_place_def split: if_splits)
  show ou: "ou \<in> {''csca'', ''dsc'', ''lc'', ''mlsc''}" using storage_place_ou [of cfg ty] assms(2) by simp
  show "buildCertificateDnV2 cfg fp ty cc = ''cn='' @ escapeDnComponent fp @ '','' @ ''o='' @ ou @ '','' @ storage_countryDn cfg False cc"
    using assms(2) c escape_plain_ou [OF ou] by (simp add: buildCertificateDnV2_def storage_countryDn_def)
qed

lemma country_parent:
  assumes "plain_config cfg"
  shows "parent_dn (storage_countryDn cfg False cc) = dataContainerDn cfg False"
    and "closed_text ou \<Longrightarrow> parent_dn (ou @ '','' @ storage_countryDn cfg False cc) = storage_countryDn cfg False cc"
  using parent_closed [OF no_comma(2), of cc "dataContainerDn cfg False"] parent_closed [of ou "storage_countryDn cfg False cc"]
  by (simp_all add: storage_countryDn_def)

lemma ensure_ml_tree:
  assumes T: "ldap_tree T ents" and cfg: "plain_config cfg" "st_ldapDataContainer cfg = ''dc=data''"
    and d: "ents d (dataContainerDn cfg False) \<noteq> None"
  obtains d' where "ensureMasterListOuExists T cfg d cc = (True, d')" "ents d' (storage_countryDn cfg False cc) \<noteq> None"
    "\<And>x. x \<noteq> storage_countryDn cfg False cc \<Longrightarrow> x \<noteq> ''o=ml,'' @ storage_countryDn cfg False cc \<Longrightarrow> ents d' x = ents d x"
proof -
  let ?c = "storage_countryDn cfg False cc"
  let ?ml = "''o=ml,'' @ ?c"
  have c: "''c='' @ escapeDnComponent cc @ '',dc=data,'' @ st_ldapBaseDn cfg = ?c"
    using cfg(2) by (simp add: storage_countryDn_def)
  have cs: "c_str ?c = ?c" "c_str ?ml = ?ml"
    using country_dn_c_str(1) [OF cfg(1)] country_dn_c_str(3) [OF cfg(1), of "''o=ml,''" cc] by simp_all
  obtain d1 where s: "ls_search (lt_server T) d ?c = (if ents d ?c = None then LDAP_NO_SUCH_OBJECT else LDAP_SUCCESS, d1)"
    "ents d1 = ents d" by (rule tree_search [OF T])
  let ?as = "container_entry [''country'', ''top''] [(''c'', cc)]"
  obtain d2 where a: "ls_add (lt_server T) d1 ?c ?as = (if ents d1 ?c \<noteq> None then LDAP_ALREADY_EXISTS
       else if ents d1 (parent_dn ?c) = None then LDAP_NO_SUCH_OBJECT else LDAP_SUCCESS, d2)"
    "ents d2 = (if ents d1 ?c = None \<and> ents d1 (parent_dn ?c) \<noteq> None then (ents d1)(?c \<mapsto> ?as) else ents d1)"
    by (rule tree_add [OF T])
  define dc where "dc = (if ents d ?c = None then d2 else d1)"
  have dc: "ents dc ?c \<noteq> None" "\<And>x. x \<noteq> ?c \<Longrightarrow> ents dc x = ents d x"
    using s(2) a(2) d country_parent(1) [OF cfg(1), of cc] by (auto simp: dc_def)
  obtain d3 where s3: "ls_search (lt_server T) dc ?ml = (if ents dc ?ml = None then LDAP_NO_SUCH_OBJECT else LDAP_SUCCESS, d3)"
    "ents d3 = ents dc" by (rule tree_search [OF T])
  let ?bs = "container_entry [''organization'', ''top''] [(''o'', ''ml'')]"
  obtain d4 where b: "snd (ls_add (lt_server T) d3 ?ml ?bs) = d4"
    "ents d4 = (if ents d3 ?ml = None \<and> ents d3 (parent_dn ?ml) \<noteq> None then (ents d3)(?ml \<mapsto> ?bs) else ents d3)"
    using tree_add [OF T, of d3 ?ml ?bs] by (metis snd_conv)
  have "ensureMasterListOuExists T cfg d cc = (True, if ents dc ?ml = None then d4 else d3)"
    unfolding ensureMasterListOuExists_def c Let_def cs s(1) prod.case
    using a(1) s(2) d country_parent(1) [OF cfg(1), of cc] s3(1) b(1) by (auto simp: dc_def)
  then show ?thesis
    using that [of "if ents dc ?ml = None then d4 else d3"] dc s3(2) b(2) by auto
qed

lemma data_container_present:
  assumes T: "ldap_tree T ents" and cfg: "plain_config cfg" and d: "ents d (dataContainerDn cfg False) \<noteq> None"
  obtains d' where "ensure_data_container T cfg d False = (True, d')" "ents d' = ents d"
proof -
  obtain d1 where s: "ls_search (lt_server T) d (dataContainerDn cfg False)
      = (if ents d (dataContainerDn cfg False) = None then LDAP_NO_SUCH_OBJECT else LDAP_SUCCESS, d1)" "ents d1 = ents d"
    by (rule tree_search [OF T])
  then have "ls_search (lt_server T) d (dataContainerDn cfg False) = (LDAP_SUCCESS, d1)" using d by simp
  then have "ensure_data_container T cfg d False = (True, d1)"
    unfolding ensure_data_container_def country_dn_c_str(2) [OF cfg] by simp
  then show ?thesis using that s(2) by blast
qed

lemma country_present:
  assumes T: "ldap_tree T ents" and cfg: "plain_config cfg" and d: "ents d (dataContainerDn cfg False) \<noteq> None"
    and "ents d (storage_countryDn cfg False cc) \<noteq> None"
  obtains d' where "ensureCountryOuExists T cfg d cc False = (True, d')" "ents d' = ents d"
proof -
  obtain d1 where e: "ensure_data_container T cfg d False = (True, d1)" "ents d1 = ents d"
    by (rule data_container_present [OF T cfg d])
  obtain d2 where s: "ls_search (lt_server T) d1 (storage_countryDn cfg False cc)
      = (if ents d1 (storage_countryDn cfg False cc) = None then LDAP_NO_SUCH_OBJECT else LDAP_SUCCESS, d2)" "ents d2 = ents d1"
    by (rule tree_search [OF T])
  then show ?thesis using that [of d2] e assms(4) country_dn_c_str(1) [OF cfg] by (simp add: ensureCountryOuExists_def)
qed

text \<open>A country whose entry is there without any of the units its certificates are stored in.\<close>

definition unit_dn :: "storage_config \<Rightarrow> string \<Rightarrow> string \<Rightarrow> string" where
  "unit_dn cfg cc ou = ''o='' @ ou @ '','' @ storage_countryDn cfg False cc"

definition shut_out :: "(string \<Rightarrow> ldap_attrs option) \<Rightarrow> storage_config \<Rightarrow> string \<Rightarrow> bool" where
  "shut_out E cfg cc =
     (E (dataContainerDn cfg False) \<noteq> None \<and> E (storage_countryDn cfg False cc) \<noteq> None
      \<and> (\<forall>ou \<in> {''csca'', ''dsc'', ''lc'', ''mlsc''}. E (unit_dn cfg cc ou) = None
           \<and> (\<forall>fp. E (''cn='' @ escapeDnComponent fp @ '','' @ unit_dn cfg cc ou) = None)))"

lemma unit_parents:
  assumes "plain_config cfg" "ou \<in> {''csca'', ''dsc'', ''lc'', ''mlsc''}"
  shows "parent_dn (unit_dn cfg cc ou) = storage_countryDn cfg False cc"
    and "parent_dn (''cn='' @ escapeDnComponent fp @ '','' @ unit_dn cfg cc ou) = unit_dn cfg cc ou"
  using country_parent(2) [OF assms(1), of "''o='' @ ou" cc] parent_closed [OF no_comma(1), of fp "unit_dn cfg cc ou"] assms(2)
  by (auto simp: unit_dn_def)

lemma master_list_shuts_out:
  assumes T: "ldap_tree T ents" and cfg: "plain_config cfg" "st_ldapDataContainer cfg = ''dc=data''"
    and d: "tree_shaped (ents d) (st_ldapBaseDn cfg)" "ents d (dataContainerDn cfg False) \<noteq> None"
      "ents d (storage_countryDn cfg False cc) = None"
    and ml: "saveMasterListToLdap T cfg d cc mlfp ml = (mldn, d1)"
  shows "shut_out (ents d1) cfg cc"
proof -
  let ?c = "storage_countryDn cfg False cc" and ?ml = "buildMasterListDn cfg cc mlfp"
  have L: "ldap_store_laws T ents" using T by (simp add: ldap_tree_def)
  obtain da where e: "ensureMasterListOuExists T cfg d cc = (True, da)" "ents da ?c \<noteq> None"
    "\<And>x. x \<noteq> ?c \<Longrightarrow> x \<noteq> ''o=ml,'' @ ?c \<Longrightarrow> ents da x = ents d x" using ensure_ml_tree [OF T cfg d(2)] by blast
  have mldn: "?ml = ''cn='' @ escapeDnComponent mlfp @ '',o=ml,'' @ ?c" "c_str ?ml = ?ml"
    using cfg country_dn_c_str(3) [OF cfg(1), of "''cn='' @ escapeDnComponent mlfp @ '',o=ml,''" cc] escape_no_nul [of mlfp]
    by (simp_all add: buildMasterListDn_def storage_countryDn_def)
  have frame: "ents d1 x = ents da x" if "x \<noteq> ?ml" for x
    using add_or_replace_frame [OF L] ml e(1) that mldn(2) by (simp add: saveMasterListToLdap_def)
  have units: "ents d1 (unit_dn cfg cc ou) = None \<and> ents d1 (''cn='' @ escapeDnComponent fp @ '','' @ unit_dn cfg cc ou) = None"
    if ou: "ou \<in> {''csca'', ''dsc'', ''lc'', ''mlsc''}" for ou fp
  proof -
    define u where u: "u = unit_dn cfg cc ou"
    define dn where dn: "dn = ''cn='' @ escapeDnComponent fp @ '','' @ u"
    have par: "parent_dn u = ?c" "parent_dn dn = u"
      unfolding dn u by (rule unit_parents [OF cfg(1) ou])+
    have len: "u \<noteq> st_ldapBaseDn cfg" "dn \<noteq> st_ldapBaseDn cfg"
      using arg_cong [where f = length, of u "st_ldapBaseDn cfg"] arg_cong [where f = length, of dn "st_ldapBaseDn cfg"]
      by (auto simp: u dn unit_dn_def storage_countryDn_def)
    then have absent: "ents d u = None" "ents d dn = None" using d(1,3) par unfolding tree_shaped_def by metis+
    have "closed_text (''o='' @ ou)" "closed_text ''o=ml''" using ou by auto
    then have "rdns dn = (''cn='' @ escapeDnComponent fp) # (''o='' @ ou) # rdns ?c"
        "rdns ?ml = (''cn='' @ escapeDnComponent mlfp) # ''o=ml'' # rdns ?c"
      using rdns_closed [OF no_comma(1), of fp u] rdns_closed [of "''o='' @ ou" ?c]
        rdns_closed [OF no_comma(1), of mlfp "''o=ml,'' @ ?c"] rdns_closed [of "''o=ml''" ?c] by (simp_all add: mldn(1) dn u unit_dn_def)
    then have "dn \<noteq> ?ml" using ou by auto
    moreover have "dn \<noteq> ?c" "u \<noteq> ?c" "u \<noteq> ?ml" "dn \<noteq> ''o=ml,'' @ ?c" "u \<noteq> ''o=ml,'' @ ?c"
      using ou by (auto simp: u dn unit_dn_def storage_countryDn_def mldn(1))
    ultimately show ?thesis using frame e(3) absent unfolding u [symmetric] dn [symmetric] by metis
  qed
  have "dataContainerDn cfg False \<noteq> ?ml" "dataContainerDn cfg False \<noteq> ?c" "dataContainerDn cfg False \<noteq> ''o=ml,'' @ ?c" "?c \<noteq> ?ml"
    using cfg(2) by (auto simp: storage_countryDn_def mldn(1))
  then have "ents d1 ?c \<noteq> None" "ents d1 (dataContainerDn cfg False) \<noteq> None" using frame e(2,3) d(2) by metis+
  with units show ?thesis by (simp add: shut_out_def)
qed

lemma shut_out_save:
  assumes T: "ldap_tree T ents" and cfg: "plain_config cfg" and E: "shut_out (ents d1) cfg cc"
    and cert: "ty \<noteq> ''DSC_NC''" "saveCertificateToLdap T X cfg d1 ty cc subj sn fp bin code txt ver False = (res, d2)"
  shows "res = [] \<and> ents d2 = ents d1"
proof -
  let ?c = "storage_countryDn cfg False cc"
  obtain ou container where p: "storage_place cfg ty = (ou, container)" by force
  note place = certificate_dn_place [OF cert(1) p, folded unit_dn_def]
  let ?dn = "''cn='' @ escapeDnComponent fp @ '','' @ unit_dn cfg cc ou"
  have d1: "ents d1 ?dn = None" "ents d1 (unit_dn cfg cc ou) = None" "ents d1 ?c \<noteq> None" "ents d1 (dataContainerDn cfg False) \<noteq> None"
    using bspec [OF conjunct2 [OF conjunct2 [OF E [unfolded shut_out_def]]] place(3)] E unfolding shut_out_def by simp_all
  obtain db where b: "ensureCountryOuExists T cfg d1 cc False = (True, db)" "ents db = ents d1"
    by (rule country_present [OF T cfg d1(4,3)])
  have cdn: "c_str ?dn = ?dn"
    using country_dn_c_str(3) [OF cfg, of "''cn='' @ escapeDnComponent fp @ '',o='' @ ou @ '',''" cc] escape_no_nul [of fp] place(3)
    by (auto simp: unit_dn_def)
  define entry where "entry = certificate_entry X False subj sn fp bin
    [(''pkdConformanceCode'', code), (''pkdConformanceText'', txt), (''pkdVersion'', ver)] False"
  obtain dc where a: "ls_add (lt_server T) db ?dn entry = (if ents db ?dn \<noteq> None then LDAP_ALREADY_EXISTS
       else if ents db (parent_dn ?dn) = None then LDAP_NO_SUCH_OBJECT else LDAP_SUCCESS, dc)"
    "ents dc = (if ents db ?dn = None \<and> ents db (parent_dn ?dn) \<noteq> None then (ents db)(?dn \<mapsto> entry) else ents db)"
    by (rule tree_add [OF T])
  have "ents db ?dn = None" "ents db (parent_dn ?dn) = None"
    using d1(1,2) b(2) unit_parents(2) [OF cfg place(3)] by simp_all
  then have a: "ls_add (lt_server T) db ?dn entry = (LDAP_NO_SUCH_OBJECT, dc)" "ents dc = ents db" using a by simp_all
  have "(res, d2) = ([], dc)"
    using cert b(1) a(1) cdn
    by (simp add: saveCertificateToLdap_def place(1) add_or_replace_def entry_def [symmetric])
  then show ?thesis using a(2) b(2) by simp
qed

text \<open>The certificates of a country, saved one after the other: type, subject, serial number, fingerprint and
  content.\<close>

fun save_certificates :: "'d ldap_store \<Rightarrow> entry_reader \<Rightarrow> storage_config \<Rightarrow> string
    \<Rightarrow> (string \<times> string \<times> string \<times> string \<times> byte list) list \<Rightarrow> 'd \<Rightarrow> string list \<times> 'd" where
  "save_certificates T X cfg cc [] d = ([], d)"
| "save_certificates T X cfg cc ((ty, subj, sn, fp, bin) # cs) d =
     (let (res, d) = saveCertificateToLdap T X cfg d ty cc subj sn fp bin [] [] [] False;
          (ress, d) = save_certificates T X cfg cc cs d
      in (res # ress, d))"


section \<open>The names of the relay\<close>

lemma escape_length_map2:
  "length is = length v \<Longrightarrow> length v \<le> length (concat (map2 (escape_at n) is v))
     \<and> (length (concat (map2 (escape_at n) is v)) = length v \<longrightarrow> concat (map2 (escape_at n) is v) = v)"
proof (induction "is" v rule: list_induct2)
  case Nil
  then show ?case by simp
next
  case (Cons i "is" c v)
  have "escape_at n i c = [c] \<or> 2 \<le> length (escape_at n i c)" by (auto simp: escape_at_def)
  with Cons.IH show ?case by auto
qed

lemma escape_length:
  "length v \<le> length (escapeDnComponent v)" "length (escapeDnComponent v) = length v \<Longrightarrow> escapeDnComponent v = v"
  using escape_length_map2 [of "[0..<length v]" v "length v"] by (auto simp: escapeDnComponent_def)

definition same_places :: "storage_config \<Rightarrow> relay_config \<Rightarrow> bool" where
  "same_places cfg rcfg = (st_ldapBaseDn cfg = rc_ldapBaseDn rcfg \<and> st_ldapDataContainer cfg = rc_ldapDataContainer rcfg
     \<and> st_ldapNcDataContainer cfg = rc_ldapNcDataContainer rcfg)"

text \<open>Upload and reconciliation are two programs that must agree on the name of an entry: with the same
  configuration they do exactly for values that need no escaping; for any other value the relay,
  which does not escape, builds another name.\<close>

theorem relay_dn_agrees:
  assumes "same_places cfg rcfg" "ty \<in> {''CSCA'', ''DSC'', ''LC'', ''DSC_NC''}"
  shows "buildCertificateDnV2 cfg fp ty cc = buildDn rcfg ty cc fp \<longleftrightarrow> escapeDnComponent fp = fp \<and> escapeDnComponent cc = cc"
proof -
  obtain ou container where p: "storage_place cfg ty = (ou, container)" by force
  have ou: "escapeDnComponent ou = ou" using storage_place_ou [of cfg ty] p by (intro escape_plain_ou) simp
  have r: "buildDn rcfg ty cc fp = ''cn='' @ fp @ '',o='' @ ou @ '',c='' @ cc @ '','' @ container @ '','' @ st_ldapBaseDn cfg"
  proof -
    have b: "st_ldapBaseDn cfg = rc_ldapBaseDn rcfg" and c1: "st_ldapDataContainer cfg = rc_ldapDataContainer rcfg"
      and c2: "st_ldapNcDataContainer cfg = rc_ldapNcDataContainer rcfg"
      using assms(1) by (simp_all add: same_places_def)
    have "ty = ''CSCA'' \<and> ou = ''csca'' \<and> container = rc_ldapDataContainer rcfg
        \<or> ty = ''DSC'' \<and> ou = ''dsc'' \<and> container = rc_ldapDataContainer rcfg
        \<or> ty = ''LC'' \<and> ou = ''lc'' \<and> container = rc_ldapDataContainer rcfg
        \<or> ty = ''DSC_NC'' \<and> ou = ''dsc'' \<and> container = rc_ldapNcDataContainer rcfg"
      using assms(2) p by (elim insertE emptyE) (simp_all add: storage_place_def c1 c2)
    then show ?thesis unfolding b by (elim disjE conjE) (simp_all add: buildDn_def)
  qed
  have v: "buildCertificateDnV2 cfg fp ty cc = ''cn='' @ escapeDnComponent fp @ '',o='' @ ou @ '',c='' @ escapeDnComponent cc
      @ '','' @ container @ '','' @ st_ldapBaseDn cfg"
    using p ou by (simp add: buildCertificateDnV2_def)
  show ?thesis
  proof
    assume "buildCertificateDnV2 cfg fp ty cc = buildDn rcfg ty cc fp"
    from arg_cong [OF this, of length]
    have "length (escapeDnComponent fp) + length (escapeDnComponent cc) = length fp + length cc"
      unfolding r v by simp
    then have "length (escapeDnComponent fp) = length fp" "length (escapeDnComponent cc) = length cc"
      using escape_length(1) [of fp] escape_length(1) [of cc] by linarith+
    then show "escapeDnComponent fp = fp \<and> escapeDnComponent cc = cc" using escape_length(2) by blast
  next
    assume "escapeDnComponent fp = fp \<and> escapeDnComponent cc = cc"
    then show "buildCertificateDnV2 cfg fp ty cc = buildDn rcfg ty cc fp" by (simp only: r v)
  qed
qed

definition demo_relay :: relay_config where
  "demo_relay = \<lparr>rc_ldapBaseDn = ''dc=pkd'', rc_ldapDataContainer = ''dc=data'', rc_ldapNcDataContainer = ''dc=nc-data'',
     rc_autoReconcile = True, rc_maxReconcileBatchSize = 100\<rparr>"

lemma relay_dn_agrees_witness:
  "buildCertificateDnV2 demo_storage ''ab12'' ''DSC'' ''KR'' = buildDn demo_relay ''DSC'' ''KR'' ''ab12''
   \<and> buildCertificateDnV2 demo_storage ''ab12'' ''DSC'' ''K,R'' \<noteq> buildDn demo_relay ''DSC'' ''K,R'' ''ab12''"
proof -
  have e: "escapeDnComponent ''ab12'' = ''ab12''" "escapeDnComponent ''KR'' = ''KR''" "escapeDnComponent ''K,R'' \<noteq> ''K,R''"
    by (code_simp, code_simp, code_simp)
  have p: "same_places demo_storage demo_relay" by (simp add: same_places_def demo_storage_def demo_relay_def)
  have "''DSC'' \<in> {''CSCA'', ''DSC'', ''LC'', ''DSC_NC''}" by simp
  note agrees = relay_dn_agrees [OF p this]
  from agrees [of "''ab12''" "''KR''"] agrees [of "''ab12''" "''K,R''"] e show ?thesis by blast
qed

section \<open>A server of the model\<close>

definition tree_store :: "(string \<Rightarrow> ldap_attrs option) ldap_store" where
  "tree_store = \<lparr>lt_server =
     \<lparr>ls_search = (\<lambda>d dn. (if d dn = None then LDAP_NO_SUCH_OBJECT else LDAP_SUCCESS, d)),
      ls_add = (\<lambda>d dn as. if d dn \<noteq> None then (LDAP_ALREADY_EXISTS, d)
        else if d (parent_dn dn) = None then (LDAP_NO_SUCH_OBJECT, d) else (LDAP_SUCCESS, d(dn \<mapsto> as))),
      ls_delete = (\<lambda>d dn. if d dn = None then (LDAP_NO_SUCH_OBJECT, d) else (LDAP_SUCCESS, d(dn := None))),
      ls_err2string = (\<lambda>rc. ''error'')\<rparr>,
     lt_modify = (\<lambda>d dn k vs. case d dn of None \<Rightarrow> (LDAP_NO_SUCH_OBJECT, d)
        | Some as \<Rightarrow> (LDAP_SUCCESS, d(dn \<mapsto> replace_attr k vs as)))\<rparr>"

lemma tree_store_laws: "ldap_store_laws tree_store (\<lambda>d. d)"
  unfolding ldap_store_laws_def ldap_laws_def tree_store_def by (auto split: if_splits option.splits)

lemma tree_store_tree: "ldap_tree tree_store (\<lambda>d. d)"
  unfolding ldap_tree_def using tree_store_laws by (auto simp: tree_store_def)

definition demo_directory :: "string \<Rightarrow> ldap_attrs option" where
  "demo_directory = [''dc=pkd'' \<mapsto> [], ''dc=data,dc=pkd'' \<mapsto> []]"

lemma demo_directory_facts:
  "tree_shaped demo_directory (st_ldapBaseDn demo_storage)" "plain_config demo_storage"
  "demo_directory (dataContainerDn demo_storage False) \<noteq> None" "demo_directory (storage_countryDn demo_storage False ''UN'') = None"
  by (auto simp: tree_shaped_def demo_directory_def demo_storage_def plain_config_def storage_countryDn_def split: if_splits)


lemma master_list_spares_nc:
  "fst (saveCertificateToLdap tree_store (\<lambda>a v. None) demo_storage
      (snd (saveMasterListToLdap tree_store demo_storage demo_directory ''UN'' ''f1'' [1]))
      ''DSC_NC'' ''UN'' ''C=UN'' ''01'' ''f2'' [2] [] [] [] False) = ''cn=f2,o=dsc,c=UN,dc=nc-data,dc=pkd''"
  by code_simp

lemma saved_certificate_stored_witness:
  "snd (saveCertificateToLdap tree_store (\<lambda>a v. None) demo_storage demo_directory
      ''CSCA'' ''UN'' ''C=UN'' ''01'' ''f2'' [2] [] [] [] False) ''dc=pkd'' = Some []
   \<and> fst (saveCertificateToLdap tree_store (\<lambda>a v. None) demo_storage demo_directory
      ''CSCA'' ''UN'' ''C=UN'' ''01'' ''f2'' [2] [] [] [] False) = ''cn=f2,o=csca,c=UN,dc=data,dc=pkd''"
proof -
  obtain res d' where c: "saveCertificateToLdap tree_store (\<lambda>a v. None) demo_storage demo_directory
      ''CSCA'' ''UN'' ''C=UN'' ''01'' ''f2'' [2] [] [] [] False = (res, d')" by force
  have "fst (saveCertificateToLdap tree_store (\<lambda>a v. None) demo_storage demo_directory
      ''CSCA'' ''UN'' ''C=UN'' ''01'' ''f2'' [2] [] [] [] False) = ''cn=f2,o=csca,c=UN,dc=data,dc=pkd''" by code_simp
  moreover have "''dc=pkd'' \<noteq> c_str (buildCertificateDnV2 demo_storage ''f2'' ''CSCA'' ''UN'')" by code_simp
  ultimately show ?thesis
    using saved_certificate_stored [OF tree_store_laws c, where x = "''dc=pkd''" and e = "[]"] c by (simp add: demo_directory_def)
qed

end
