(* ===== verification/Cert_Utils.thy ===== *)
theory Cert_Utils
  imports Cert_Ops Jwt Ldif_Parser
begin

text \<open>
  The helpers of the upload pipeline: \<^verbatim>\<open>services/pkd-management/src/common/main_utils.cpp\<close> (file
  names and formats, UUIDs, Base64) and \<^verbatim>\<open>certificate_utils.cpp\<close> (names, numbers and times of a
  certificate as text, the country of a name, link certificates, format detection).  Random numbers, SHA-256 and
  the readers of OpenSSL are arguments.
\<close>

section \<open>Uploaded files\<close>

definition filename_char :: "char \<Rightarrow> bool" where
  "filename_char c = (c_isalnum c \<or> c = CHR ''-'' \<or> c = CHR ''_'' \<or> c = CHR ''.'')"

definition sanitizeFilename :: "string \<Rightarrow> string res" where
  "sanitizeFilename filename =
     (let sanitized = map (\<lambda>c. if filename_char c then c else CHR ''_'') filename in
      if str_find sanitized ''..'' 0 \<noteq> None then Inl (Runtime_Error (''Invalid filename: contains '' @ [CHR 0x27] @ ''..'' @ [CHR 0x27]))
      else
        let sanitized = (if 255 < length sanitized then take 255 sanitized else sanitized) in
        if sanitized = [] then Inl (Runtime_Error ''Invalid filename: empty after sanitization'')
        else Inr sanitized)"

definition isValidLdifFile :: "string \<Rightarrow> bool" where
  "isValidLdifFile content =
     (if str_find content ''dn:'' 0 = None \<and> str_find content ''version:'' 0 = None then False
      else \<not> length content < 10)"

definition isValidP7sFile :: "byte list \<Rightarrow> bool" where
  "isValidP7sFile content =
     (if length content < 4 then False
      else if content ! 0 \<noteq> 0x30 then False
      else if 0x80 \<le> content ! 1 \<and> content ! 1 \<le> 0x84 then True
      else if 0x01 \<le> content ! 1 \<and> content ! 1 \<le> 0x7F then True
      else False)"

section \<open>UUIDs\<close>

unbundle bit_operations_syntax

text \<open>\<^verbatim>\<open>ss << std::setw(w)\<close> of a number in base 16, filled with zeros.\<close>

fun nat_hex :: "nat \<Rightarrow> string" where
  "nat_hex n = (if n < 16 then [hex_digit n] else nat_hex (n div 16) @ [hex_digit (n mod 16)])"

declare nat_hex.simps [simp del]

definition setw_hex :: "nat \<Rightarrow> 64 word \<Rightarrow> string" where
  "setw_hex w x = pad0 w (nat_hex (unat x))"

definition generateUuid :: "64 word \<Rightarrow> 64 word \<Rightarrow> string" where
  "generateUuid rnd1 rnd2 =
     (let ab = (rnd1 AND 0xFFFFFFFFFFFF0FFF) OR 0x0000000000004000;
          cd = (rnd2 AND 0x3FFFFFFFFFFFFFFF) OR 0x8000000000000000
      in setw_hex 8 (drop_bit 32 ab) @ ''-'' @ setw_hex 4 (drop_bit 16 ab AND 0xFFFF) @ ''-''
         @ setw_hex 4 (ab AND 0xFFFF) @ ''-'' @ setw_hex 4 (drop_bit 48 cd) @ ''-''
         @ setw_hex 12 (cd AND 0x0000FFFFFFFFFFFF))"

section \<open>Base64\<close>

text \<open>Characters outside the alphabet are skipped.  The accumulator is a 32-bit \<^verbatim>\<open>int\<close> of which the low 12 bits are
  read: it is kept modulo \<open>2 ^ 32\<close>.\<close>

fun lenient_loop :: "nat \<Rightarrow> int \<Rightarrow> string \<Rightarrow> string" where
  "lenient_loop v vb [] = []"
| "lenient_loop v vb (c # cs) =
     (if c \<notin> set base64_chars then lenient_loop v vb cs
      else
        let v' = (v * 64 + base64_table c) mod 2 ^ 32; vb' = vb + 6
        in if 0 \<le> vb' then char_of (v' div 2 ^ nat vb' mod 256) # lenient_loop v' (vb' - 8) cs
           else lenient_loop v' vb' cs)"

definition base64Decode :: "string \<Rightarrow> byte list" where
  "base64Decode encoded = map byte_of_char (lenient_loop 0 (- 8) encoded)"

section \<open>Texts of a certificate\<close>

text \<open>\<open>sha256\<close> is \<^term>\<open>None\<close> when OpenSSL has no memory for the context.\<close>

definition computeFileHash :: "(byte list \<Rightarrow> byte list option) \<Rightarrow> byte list \<Rightarrow> string" where
  "computeFileHash sha256 content = (case sha256 content of None \<Rightarrow> [] | Some h \<Rightarrow> bytes_hex h)"

definition asn1IntegerToHex :: "('x, 'k, 't) openssl \<Rightarrow> int option \<Rightarrow> string" where
  "asn1IntegerToHex L asn1Int =
     (case asn1Int of None \<Rightarrow> []
      | Some n \<Rightarrow> (case ASN1_INTEGER_to_BN L n of None \<Rightarrow> []
          | Some bn \<Rightarrow> (case BN_bn2hex L bn of None \<Rightarrow> [] | Some hex \<Rightarrow> c_str hex)))"

datatype asn1_time_type = V_ASN1_UTCTIME | V_ASN1_GENERALIZEDTIME | V_ASN1_OTHER

record asn1_time =
  at_type :: asn1_time_type
  at_data :: string

text \<open>\<^verbatim>\<open>str[i] - '0'\<close>.\<close>

definition dig :: "string \<Rightarrow> nat \<Rightarrow> int" where
  "dig s i = int (of_char (s ! i)) - 48"

definition two :: "string \<Rightarrow> nat \<Rightarrow> int" where
  "two s i = dig s i * 10 + dig s (i + 1)"

definition iso8601_seconds :: "tm \<Rightarrow> string" where
  "iso8601_seconds t =
     int_dec (tm_year t + 1900) @ ''-'' @ pad0 2 (int_dec (tm_mon t + 1)) @ ''-''
       @ pad0 2 (int_dec (tm_mday t)) @ ''T'' @ pad0 2 (int_dec (tm_hour t)) @ '':''
       @ pad0 2 (int_dec (tm_min t)) @ '':'' @ pad0 2 (int_dec (tm_sec t))"

definition utils_asn1TimeToIso8601 :: "asn1_time option \<Rightarrow> string" where
  "utils_asn1TimeToIso8601 asn1Time =
     (case asn1Time of None \<Rightarrow> []
      | Some t \<Rightarrow>
          let str = at_data t; len = length str in
          if at_type t = V_ASN1_UTCTIME \<and> 12 \<le> len then
            let year = two str 0 in
            iso8601_seconds \<lparr>tm_year = (if 50 \<le> year then 1900 else 2000) + year - 1900, tm_mon = two str 2 - 1,
              tm_mday = two str 4, tm_hour = two str 6, tm_min = two str 8, tm_sec = two str 10\<rparr>
          else if at_type t = V_ASN1_GENERALIZEDTIME \<and> 14 \<le> len then
            iso8601_seconds \<lparr>tm_year = dig str 0 * 1000 + dig str 1 * 100 + two str 2 - 1900, tm_mon = two str 4 - 1,
              tm_mday = two str 6, tm_hour = two str 8, tm_min = two str 10, tm_sec = two str 12\<rparr>
          else [])"

subsection \<open>The country of a name\<close>

text \<open>\<^verbatim>\<open>(?:^|[/,]\s*)C=([A-Z]{2,3})(?:[/,\s]|$)\<close>, case-insensitive, first match.\<close>

definition c_isalpha :: "char \<Rightarrow> bool" where
  "c_isalpha c = (let n = of_char c :: nat in (65 \<le> n \<and> n \<le> 90) \<or> (97 \<le> n \<and> n \<le> 122))"

definition cc_letters :: "nat \<Rightarrow> string \<Rightarrow> bool" where
  "cc_letters n s = (n \<le> length s \<and> list_all c_isalpha (take n s)
     \<and> (case drop n s of [] \<Rightarrow> True | c # _ \<Rightarrow> c = CHR ''/'' \<or> c = CHR '','' \<or> c_isspace c))"

definition cc_value :: "string \<Rightarrow> string option" where
  "cc_value s = (if cc_letters 3 s then Some (take 3 s) else if cc_letters 2 s then Some (take 2 s) else None)"

definition cc_attr :: "string \<Rightarrow> string option" where
  "cc_attr s = (case s of a # b # r \<Rightarrow> if c_tolower a = CHR ''c'' \<and> b = CHR ''='' then cc_value r else None
     | _ \<Rightarrow> None)"

fun cc_search :: "string \<Rightarrow> string option" where
  "cc_search [] = None"
| "cc_search (c # s) =
     (case (if c = CHR ''/'' \<or> c = CHR '','' then cc_attr (dropWhile c_isspace s) else None) of
        Some v \<Rightarrow> Some v
      | None \<Rightarrow> cc_search s)"

definition extractCountryCode :: "string \<Rightarrow> string" where
  "extractCountryCode dn =
     (case cc_attr dn of
        Some v \<Rightarrow> to_upper v
      | None \<Rightarrow> (case cc_search dn of Some v \<Rightarrow> to_upper v | None \<Rightarrow> ''XX''))"

definition extractCountryCodeFromDn :: "string \<Rightarrow> string" where
  "extractCountryCodeFromDn dn = (let code = extractCountryCode dn in if code = [] then ''XX'' else code)"

subsection \<open>Source, expiry, link certificates\<close>

definition getSourceType :: "string \<Rightarrow> string" where
  "getSourceType fileFormat =
     (if fileFormat = ''LDIF_001'' then ''LDIF_001''
      else if fileFormat = ''LDIF_002'' then ''LDIF_002''
      else if fileFormat = ''LDIF_003'' then ''LDIF_003''
      else if fileFormat = ''MASTERLIST'' then ''ML_FILE'' else ''UNKNOWN'')"

definition computeFingerprint :: "('x \<Rightarrow> byte list option) \<Rightarrow> 'x option \<Rightarrow> string" where
  "computeFingerprint digest cert =
     (case cert of None \<Rightarrow> [] | Some c \<Rightarrow> (case digest c of None \<Rightarrow> [] | Some md \<Rightarrow> bytes_hex md))"

definition utils_isExpired :: "('x, 'k, 't) openssl \<Rightarrow> int \<Rightarrow> 'x option \<Rightarrow> bool" where
  "utils_isExpired L now cert =
     (case cert of None \<Rightarrow> True | Some c \<Rightarrow> if X509_cmp_time L (not_after L c) now < 0 then True else False)"

text \<open>\<open>name_cmp c\<close> is \<^verbatim>\<open>X509_NAME_cmp(subject, issuer)\<close>.\<close>

definition utils_isLinkCertificate :: "('x, 'k, 't) openssl \<Rightarrow> ('x \<Rightarrow> int) \<Rightarrow> 'x option \<Rightarrow> bool" where
  "utils_isLinkCertificate L name_cmp cert =
     (case cert of None \<Rightarrow> False
      | Some c \<Rightarrow>
          (case basic_constraints_ca L c of None \<Rightarrow> False
           | Some is_ca \<Rightarrow> if \<not> is_ca then False else name_cmp c \<noteq> 0))"

subsection \<open>Format detection\<close>

text \<open>The printers \<open>fromPem\<close>, \<open>cms\<close> and \<open>fromDer\<close> return a text that starts with
  \<^verbatim>\<open>Error:\<close> when they cannot read the bytes.\<close>

definition is_error :: "string \<Rightarrow> bool" where
  "is_error s = (str_find s ''Error:'' 0 = Some 0)"

definition extractAsn1TextAuto ::
    "(byte list \<Rightarrow> string) \<Rightarrow> (byte list \<Rightarrow> string) \<Rightarrow> (byte list \<Rightarrow> string) \<Rightarrow> byte list \<Rightarrow> string" where
  "extractAsn1TextAuto fromPem cms fromDer fileData =
     (if fileData = [] then ''Error: Empty file data''
      else
        let dataStr = map char_of_byte fileData; nl = [CHR 0x0A] in
        if (str_find dataStr ''-----BEGIN CERTIFICATE-----'' 0 \<noteq> None
            \<or> str_find dataStr ''-----BEGIN PKCS7-----'' 0 \<noteq> None
            \<or> str_find dataStr ''-----BEGIN CMS-----'' 0 \<noteq> None) \<and> \<not> is_error (fromPem fileData)
        then ''Format: PEM'' @ nl @ nl @ fromPem fileData
        else if \<not> is_error (cms fileData) then ''Format: CMS SignedData (Master List)'' @ nl @ nl @ cms fileData
        else if \<not> is_error (fromDer fileData) then ''Format: DER/CER/BIN'' @ nl @ nl @ fromDer fileData
        else ''Error: Unable to detect format. Tried PEM, CMS, and DER formats.'' @ nl
          @ ''File size: '' @ nat_dec (length fileData) @ '' bytes'' @ nl @ ''First 16 bytes (hex): ''
          @ concat (map (\<lambda>b. byte_hex b @ '' '') (take 16 fileData)))"

section \<open>File names\<close>

lemma find_from_None_take: "find_from s pat i = None \<Longrightarrow> pat \<noteq> [] \<Longrightarrow> find_from (take n s) pat i = None"
proof (induction s arbitrary: i n)
  case (Cons c s)
  show ?case
  proof (cases n)
    case 0
    with Cons.prems show ?thesis by simp
  next
    case (Suc m)
    from Cons.prems have "take (length pat) (c # s) \<noteq> pat" "find_from s pat (Suc i) = None"
      by (auto split: if_splits)
    moreover have "take (length pat) (c # take m s) \<noteq> pat"
    proof
      assume e: "take (length pat) (c # take m s) = pat"
      then have "length pat \<le> length (c # take m s)" by (metis nat_le_linear take_all)
      then have "length pat \<le> Suc m" by simp
      then have "take (length pat) (c # take m s) = take (length pat) (c # s)"
        by (cases "length pat") (simp_all add: min_absorb1)
      with e \<open>take (length pat) (c # s) \<noteq> pat\<close> show False by simp
    qed
    ultimately show ?thesis using Cons.IH [of "Suc i" m] Cons.prems(2) Suc by simp
  qed
qed simp

text \<open>A name that is accepted cannot leave its directory: its characters are letters, digits,
  hyphens, underscores and dots, no two dots follow each other, and it has 1 to 255 characters.  Sanitizing it
  again changes nothing.\<close>

theorem sanitizeFilename_safe:
  assumes "sanitizeFilename name = Inr safe"
  shows "(\<forall>c \<in> set safe. filename_char c) \<and> str_find safe ''..'' 0 = None
    \<and> 0 < length safe \<and> length safe \<le> 255 \<and> sanitizeFilename safe = Inr safe"
proof -
  let ?m = "map (\<lambda>c. if filename_char c then c else CHR ''_'') name"
  from assms have f: "find_from ?m ''..'' 0 = None" and s: "safe = take 255 ?m" "safe \<noteq> []"
    by (auto simp: sanitizeFilename_def Let_def str_find_def split: if_splits)
  have u: "filename_char (CHR ''_'')" by (simp add: filename_char_def)
  then have chars: "\<forall>c \<in> set safe. filename_char c" using s by (auto dest!: in_set_takeD)
  then have "map (\<lambda>c. if filename_char c then c else CHR ''_'') safe = safe" by (simp add: map_idI)
  moreover have "str_find safe ''..'' 0 = None"
    using find_from_None_take [OF f, of 255] s by (simp add: str_find_def)
  moreover have "length safe \<le> 255" using s(1) by simp
  ultimately show ?thesis using chars s(2) unfolding sanitizeFilename_def by simp
qed

lemma sanitizeFilename_safe_witness: "str_find ''_etc_passwd.ldif'' ''..'' 0 = None"
proof -
  have "sanitizeFilename ''/etc/passwd.ldif'' = Inr ''_etc_passwd.ldif''" by code_simp
  from sanitizeFilename_safe [OF this] show ?thesis by blast
qed

section \<open>Base64\<close>

lemma base64_table_below: "c \<in> set base64_chars \<Longrightarrow> base64_table c < 64"
proof -
  assume "c \<in> set base64_chars"
  then obtain n where n: "n < 64" "c = base64_chars ! n" by (metis base64_chars_length in_set_conv_nth)
  then show ?thesis by (metis base64_table_nth)
qed

lemma lenient_is_strict:
  "lenient_loop v vb s = decode_loop v vb (filter (\<lambda>c. c \<in> set base64_chars) s)"
proof (induction s arbitrary: v vb)
  case (Cons c s)
  have "base64_table c \<noteq> 64" if "c \<in> set base64_chars" using base64_table_below [OF that] by simp
  with Cons show ?case by (simp add: decode_loop.simps Let_def)
qed simp

lemma decode_loop_pad: "decode_loop v vb (s @ replicate k (CHR ''='')) = decode_loop v vb s"
proof (induction s arbitrary: v vb)
  case Nil
  show ?case by (cases k) (simp_all add: decode_loop.simps base64_table_def)
next
  case (Cons c s)
  then show ?case by (simp add: decode_loop.simps Let_def)
qed

lemma decode_unpadded:
  assumes "\<forall>b \<in> set bs. b < 256"
  shows "decode_loop 0 (- 8) (filter (\<lambda>c. c \<in> set base64_chars) (base64_loop bs)) = map char_of bs"
proof -
  let ?e = "filter (\<lambda>c. c \<noteq> CHR ''='') (base64_loop bs)"
  have "CHR ''='' \<notin> set base64_chars" using base64_alphabet by blast
  with base64_loop_chars [OF assms] have f: "filter (\<lambda>c. c \<in> set base64_chars) (base64_loop bs) = ?e"
    by (intro filter_cong) auto
  have "base64_loop bs = ?e @ replicate ((4 - length ?e mod 4) mod 4) (CHR ''='')"
    using pad4_filter [OF assms] by (simp add: pad4_def)
  then have "decode_loop 0 (- 8) ?e = decode_loop 0 (- 8) (base64_loop bs)"
    by (metis decode_loop_pad)
  with f show ?thesis by (simp add: decode_base64_loop [OF assms])
qed

text \<open>\<^verbatim>\<open>base64Decode\<close> reads back Base64 however its lines are broken: a text whose characters of the
  alphabet are those of an encoding decodes to the encoded bytes.\<close>

theorem base64Decode_lines:
  assumes "filter (\<lambda>c. c \<in> set base64_chars) text = filter (\<lambda>c. c \<in> set base64_chars) (base64_loop (map unat bs))"
  shows "base64Decode text = bs"
proof -
  have b: "\<forall>b \<in> set (map unat bs). b < 256" by simp
  have "lenient_loop 0 (- 8) text = map char_of (map unat bs)"
    unfolding lenient_is_strict assms by (rule decode_unpadded [OF b])
  then have "base64Decode text = map (\<lambda>b. byte_of_char (char_of_byte b)) bs"
    by (simp add: base64Decode_def char_of_byte_def comp_def)
  then show ?thesis by simp
qed

lemma base64Decode_lines_witness: "base64Decode (''TW'' @ [CHR 0x0A] @ ''E='') = [0x4D, 0x61]"
  by (rule base64Decode_lines) code_simp

section \<open>UUIDs\<close>

lemma nat_hex_length: "n < 16 ^ k \<Longrightarrow> 0 < k \<Longrightarrow> length (nat_hex n) \<le> k"
proof (induction k arbitrary: n)
  case (Suc k)
  show ?case
  proof (cases "n < 16")
    case True
    then show ?thesis by (simp add: nat_hex.simps [of n])
  next
    case False
    with Suc.prems have "n div 16 < 16 ^ k" "0 < k" by (auto simp: less_mult_imp_div_less mult.commute intro: Nat.gr0I)
    then show ?thesis using Suc.IH [of "n div 16"] False by (simp add: nat_hex.simps [of n])
  qed
qed simp

lemma nat_hex_chars: "set (nat_hex n) \<subseteq> hex_alphabet"
  by (induction n rule: nat_hex.induct) (subst nat_hex.simps, auto simp: hex_digit_alphabet)

lemma setw_hex_length: "unat x < 16 ^ w \<Longrightarrow> 0 < w \<Longrightarrow> length (setw_hex w x) = w"
  using nat_hex_length [of "unat x" w] by (simp add: setw_hex_def pad0_def)

lemma nat_hex4:
  assumes "n div 4096 = d" "0 < d" "d < 16"
  shows "nat_hex n = [hex_digit d, hex_digit (n div 256 mod 16), hex_digit (n div 16 mod 16), hex_digit (n mod 16)]"
proof -
  have d: "n div 16 div 16 div 16 = d" "n div 16 div 16 = n div 256" using assms(1) by (simp_all add: div_mult2_eq [symmetric])
  from assms have "\<not> n < 16" "\<not> n div 16 < 16" "\<not> n div 16 div 16 < 16" by linarith+
  then show ?thesis
    using assms(3) d by (simp add: nat_hex.simps [of n] nat_hex.simps [of "n div 16"]
        nat_hex.simps [of "n div 256"] nat_hex.simps [of d])
qed

lemma bit_4: "bit (4 :: int) n = (n = 2)"
proof -
  have "(4 :: int) = push_bit 2 1" by (simp add: push_bit_eq_mult)
  then show ?thesis by (simp only: bit_push_bit_iff) (auto simp: bit_1_iff)
qed

lemma bit_8: "bit (8 :: int) n = (n = 3)"
proof -
  have "(8 :: int) = push_bit 3 1" by (simp add: push_bit_eq_mult)
  then show ?thesis by (simp only: bit_push_bit_iff) (auto simp: bit_1_iff)
qed

lemma unat_drop12: "unat (drop_bit 12 x) = unat (x :: 64 word) div 4096"
  unfolding unat_drop_bit_eq by (simp add: drop_bit_eq_div)

lemma version_nibble:
  "unat ((((r AND 0xFFFFFFFFFFFF0FFF) OR 0x0000000000004000) AND 0xFFFF) :: 64 word) div 4096 = 4"
proof -
  have c: "(0xFFFF :: 64 word) = mask 16" "(0x4000 :: 64 word) = push_bit 14 1"
    "(0xFFFFFFFFFFFF0FFF :: 64 word) = NOT (push_bit 12 (mask 4))"
    by (simp_all add: mask_eq_exp_minus_1 push_bit_eq_mult)
  have "drop_bit 12 (((r AND 0xFFFFFFFFFFFF0FFF) OR 0x0000000000004000) AND 0xFFFF) = (4 :: 64 word)"
    unfolding c by (rule bit_word_eqI) (auto simp: bit_simps bit_4 bit_8)
  then show ?thesis by (simp only: unat_drop12 [symmetric]) simp
qed

lemma unat_masked: "unat (x AND mask n :: 64 word) < 2 ^ n"
  unfolding take_bit_eq_mask [symmetric] unsigned_take_bit_eq by (rule take_bit_nat_less_exp)

lemma small: "unat (drop_bit 60 (take_bit 62 (r :: 64 word))) < 4"
proof -
  have "unat (take_bit 62 r) < 2 ^ 62" unfolding take_bit_eq_mask by (rule unat_masked)
  then have "unat (take_bit 62 r) div 2 ^ 60 < 4" by (simp add: less_mult_imp_div_less)
  then show ?thesis unfolding unat_drop_bit_eq by (simp add: drop_bit_eq_div)
qed

lemma variant_nibble:
  "unat (drop_bit 48 (((r AND 0x3FFFFFFFFFFFFFFF) OR 0x8000000000000000) :: 64 word)) div 4096
     = 8 + unat (drop_bit 60 (take_bit 62 r))"
proof -
  have c: "(0x3FFFFFFFFFFFFFFF :: 64 word) = mask 62" "(0x8000000000000000 :: 64 word) = push_bit 63 1"
    by (simp_all add: mask_eq_exp_minus_1 push_bit_eq_mult)
  have "drop_bit 12 (drop_bit 48 ((r AND 0x3FFFFFFFFFFFFFFF) OR 0x8000000000000000))
      = drop_bit 60 (take_bit 62 r) OR (8 :: 64 word)"
    unfolding c by (rule bit_word_eqI) (auto simp: bit_simps bit_4 bit_8)
  moreover have "drop_bit 60 (take_bit 62 r) AND (8 :: 64 word) = 0"
    by (rule bit_word_eqI) (auto simp: bit_simps bit_4 bit_8)
  ultimately have "drop_bit 12 (drop_bit 48 ((r AND 0x3FFFFFFFFFFFFFFF) OR 0x8000000000000000))
      = drop_bit 60 (take_bit 62 r) + (8 :: 64 word)"
    by (simp add: disjunctive_add_eq_or)
  moreover have "unat (drop_bit 60 (take_bit 62 r) + (8 :: 64 word)) = 8 + unat (drop_bit 60 (take_bit 62 r))"
    using small [of r] by (subst unat_add_lem [THEN iffD1]) simp_all
  ultimately show ?thesis by (simp only: unat_drop12 [symmetric])
qed

lemma hex_4: "hex_digit 4 = CHR ''4''"
  by code_simp

lemma hex_89ab: "hex_digit 8 = CHR ''8''" "hex_digit 9 = CHR ''9''" "hex_digit 10 = CHR ''a''" "hex_digit 11 = CHR ''b''"
  by code_simp+

lemma setw_hex4:
  assumes "unat (x :: 64 word) div 4096 = d" "0 < d" "d < 16"
  shows "\<exists>p q r. setw_hex 4 x = [hex_digit d, hex_digit p, hex_digit q, hex_digit r] \<and> p < 16 \<and> q < 16 \<and> r < 16"
  by (rule exI [of _ "unat x div 256 mod 16"], rule exI [of _ "unat x div 16 mod 16"], rule exI [of _ "unat x mod 16"])
    (simp add: setw_hex_def pad0_def nat_hex4 [OF assms])

lemma setw_hex_chars: "set (setw_hex w x) \<subseteq> hex_alphabet"
proof -
  have "CHR ''0'' \<in> hex_alphabet" by (simp add: hex_alphabet_def digit_val_def)
  then show ?thesis using nat_hex_chars [of "unat x"] by (auto simp: setw_hex_def pad0_def)
qed

lemma unat_top32: "unat (drop_bit 32 x :: 64 word) < 16 ^ 8"
proof -
  have "unat x < 2 ^ 64" using unsigned_less [of x, where ?'a = nat] by simp
  then have "unat x div 2 ^ 32 < 2 ^ 32" by (simp add: less_mult_imp_div_less)
  then show ?thesis unfolding unat_drop_bit_eq by (simp add: drop_bit_eq_div)
qed

lemma unat_mask16: "unat (x AND 0xFFFF :: 64 word) < 65536"
  using unat_masked [of x 16] by (simp add: mask_eq_exp_minus_1)

lemma unat_mask48: "unat (x AND 0x0000FFFFFFFFFFFF :: 64 word) < 281474976710656"
  using unat_masked [of x 48] by (simp add: mask_eq_exp_minus_1)

text \<open>Every UUID has the form of version 4 of RFC 4122: 36 characters, lower-case hexadecimal digits in groups of
  8, 4, 4, 4 and 12, the version digit 4 and a variant digit of 8, 9, a or b.\<close>

theorem generateUuid_v4:
  "\<exists>g1 g2 g3 v g4 g5. generateUuid rnd1 rnd2 = g1 @ ''-'' @ g2 @ ''-4'' @ g3 @ ''-'' @ [v] @ g4 @ ''-'' @ g5
     \<and> map length [g1, g2, g3, g4, g5] = [8, 4, 3, 3, 12] \<and> v \<in> set ''89ab''
     \<and> set (g1 @ g2 @ g3 @ g4 @ g5) \<subseteq> hex_alphabet"
proof -
  let ?ab = "(rnd1 AND 0xFFFFFFFFFFFF0FFF) OR 0x0000000000004000"
  let ?cd = "(rnd2 AND 0x3FFFFFFFFFFFFFFF) OR 0x8000000000000000"
  obtain x y z where t: "setw_hex 4 (?ab AND 0xFFFF) = [CHR ''4'', hex_digit x, hex_digit y, hex_digit z]"
      "x < 16" "y < 16" "z < 16"
    using setw_hex4 [OF version_nibble [of rnd1]] unfolding hex_4 by auto
  obtain v x' y' z' where u: "setw_hex 4 (drop_bit 48 ?cd) = [hex_digit v, hex_digit x', hex_digit y', hex_digit z']"
      "8 \<le> v" "v < 12" "x' < 16" "y' < 16" "z' < 16"
    using setw_hex4 [OF variant_nibble [of rnd2]] small [of rnd2] by force
  have "v = 8 \<or> v = 9 \<or> v = 10 \<or> v = 11" using u by linarith
  then have v: "hex_digit v \<in> set ''89ab''" by (elim disjE) (simp_all add: hex_89ab)
  have g1: "length (setw_hex 8 (drop_bit 32 ?ab)) = 8"
    using unat_top32 [of ?ab] by (intro setw_hex_length) simp_all
  have g2: "length (setw_hex 4 (drop_bit 16 ?ab AND 0xFFFF)) = 4"
    by (rule setw_hex_length) (simp_all add: unat_mask16)
  have g5: "length (setw_hex 12 (?cd AND 0x0000FFFFFFFFFFFF)) = 12"
    by (rule setw_hex_length) (simp_all add: unat_mask48)
  have "generateUuid rnd1 rnd2 = setw_hex 8 (drop_bit 32 ?ab) @ ''-'' @ setw_hex 4 (drop_bit 16 ?ab AND 0xFFFF)
      @ ''-4'' @ [hex_digit x, hex_digit y, hex_digit z] @ ''-'' @ [hex_digit v]
      @ [hex_digit x', hex_digit y', hex_digit z'] @ ''-'' @ setw_hex 12 (?cd AND 0x0000FFFFFFFFFFFF)"
    unfolding generateUuid_def Let_def t(1) u(1) by simp
  moreover have "set (setw_hex 8 (drop_bit 32 ?ab) @ setw_hex 4 (drop_bit 16 ?ab AND 0xFFFF)
      @ [hex_digit x, hex_digit y, hex_digit z] @ [hex_digit x', hex_digit y', hex_digit z']
      @ setw_hex 12 (?cd AND 0x0000FFFFFFFFFFFF)) \<subseteq> hex_alphabet"
    using t u setw_hex_chars by (simp add: hex_digit_alphabet)
  moreover have "map length [setw_hex 8 (drop_bit 32 ?ab), setw_hex 4 (drop_bit 16 ?ab AND 0xFFFF),
      [hex_digit x, hex_digit y, hex_digit z], [hex_digit x', hex_digit y', hex_digit z'],
      setw_hex 12 (?cd AND 0x0000FFFFFFFFFFFF)] = [8, 4, 3, 3, 12]"
    by (simp only: list.map g1 g2 g5) simp
  ultimately show ?thesis using v by - (intro exI conjI, assumption+)
qed

section \<open>Countries\<close>

definition rdn_text :: "string \<Rightarrow> bool" where
  "rdn_text r = (r \<noteq> [] \<and> \<not> c_isspace (hd r) \<and> CHR ''/'' \<notin> set r \<and> CHR '','' \<notin> set r)"

lemma separators: "\<not> c_isalpha (CHR '','')" "\<not> c_isspace (CHR '','')" "c_tolower (CHR '','') = CHR '',''"
  by code_simp+

lemma cc_letters_append:
  assumes "rest = [] \<or> (\<exists>t. rest = CHR '','' # t)"
  shows "cc_letters n (r @ rest) = cc_letters n r"
proof (cases "n \<le> length r")
  case True
  with assms show ?thesis by (auto simp: cc_letters_def split: list.splits)
next
  case False
  show ?thesis
  proof (cases rest)
    case (Cons c t)
    with assms have c: "rest = CHR '','' # t" by simp
    have "\<not> list_all c_isalpha (take n (r @ rest))"
      using False c separators(1) by (cases "n - length r") (auto simp: list_all_iff)
    with False show ?thesis unfolding cc_letters_def by blast
  qed simp
qed

lemma cc_letters_length: "cc_letters n r \<Longrightarrow> n \<le> length r"
  by (simp add: cc_letters_def)

lemma cc_attr_append:
  assumes "rest = [] \<or> (\<exists>t. rest = CHR '','' # t)"
  shows "cc_attr (r @ rest) = cc_attr r"
proof -
  have v: "cc_value (q @ rest) = cc_value q" for q
    by (auto simp: cc_value_def cc_letters_append [OF assms] dest: cc_letters_length)
  show ?thesis
  proof (cases r)
    case Nil
    with assms show ?thesis by (auto simp: cc_attr_def separators split: list.splits)
  next
    case (Cons a q)
    with assms v show ?thesis by (cases q) (auto simp: cc_attr_def split: list.splits)
  qed
qed

lemma cc_search_skip: "CHR ''/'' \<notin> set r \<Longrightarrow> CHR '','' \<notin> set r \<Longrightarrow> cc_search (r @ rest) = cc_search rest"
  by (induction r) auto

lemma rdn_no_space: "rdn_text r \<Longrightarrow> dropWhile c_isspace (r @ rest) = r @ rest"
  by (cases r) (auto simp: rdn_text_def)

lemma join_rest: "join sep (r # rs) = r @ (if rs = [] then [] else sep @ join sep rs)"
  by (cases rs) simp_all

lemma cc_search_rdns:
  "\<forall>r \<in> set rs. rdn_text r \<Longrightarrow>
     cc_search (if rs = [] then [] else '','' @ join '','' rs) = (case List.map_filter cc_attr rs of [] \<Rightarrow> None | v # _ \<Rightarrow> Some v)"
proof (induction rs)
  case (Cons r rs)
  let ?rest = "if rs = [] then [] else '','' @ join '','' rs"
  have r: "rdn_text r" using Cons.prems by simp
  have a: "cc_attr (dropWhile c_isspace (join '','' (r # rs))) = cc_attr r"
    unfolding join_rest by (subst rdn_no_space [OF r], rule cc_attr_append) simp
  have "cc_search (join '','' (r # rs)) = cc_search ?rest"
    unfolding join_rest by (rule cc_search_skip) (use r in \<open>simp_all add: rdn_text_def\<close>)
  with Cons a show ?case by (simp add: List.map_filter_simps split: option.splits)
qed (simp add: List.map_filter_simps)

text \<open>The country of a name is the value of its first component written \<^verbatim>\<open>C=\<close> with two or three letters, in upper case,
  and \<^verbatim>\<open>XX\<close> when there is none, for names whose components hold no comma and no slash.\<close>

theorem country_of_rdns:
  assumes "\<forall>r \<in> set rdns. rdn_text r"
  shows "extractCountryCode (join '','' rdns)
    = (case List.map_filter cc_attr rdns of [] \<Rightarrow> ''XX'' | v # _ \<Rightarrow> to_upper v)"
proof (cases rdns)
  case Nil
  then show ?thesis by (simp add: extractCountryCode_def cc_attr_def List.map_filter_simps)
next
  case (Cons r rs)
  let ?rest = "if rs = [] then [] else '','' @ join '','' rs"
  from assms Cons have r: "rdn_text r" and rs: "\<forall>r \<in> set rs. rdn_text r" by simp_all
  have "cc_attr (join '','' rdns) = cc_attr r" unfolding Cons join_rest by (rule cc_attr_append) simp
  moreover have "cc_search (join '','' rdns) = cc_search ?rest"
    unfolding Cons join_rest by (rule cc_search_skip) (use r in \<open>simp_all add: rdn_text_def\<close>)
  ultimately show ?thesis
    unfolding extractCountryCode_def cc_search_rdns [OF rs]
    by (simp add: Cons List.map_filter_simps split: option.splits list.splits)
qed

lemma country_of_rdns_witness: "extractCountryCode ''CN=Signer,O=Gov,C=kr'' = ''KR''"
proof -
  have "\<forall>r \<in> set [''CN=Signer'', ''O=Gov'', ''C=kr'']. rdn_text r" by code_simp
  from country_of_rdns [OF this]
  have "extractCountryCode (join '','' [''CN=Signer'', ''O=Gov'', ''C=kr''])
    = (case List.map_filter cc_attr [''CN=Signer'', ''O=Gov'', ''C=kr''] of [] \<Rightarrow> ''XX'' | v # _ \<Rightarrow> to_upper v)" .
  also have "\<dots> = ''KR''" by code_simp
  finally show ?thesis by simp
qed

text \<open>An escaped comma does not end a component, but the search does not know: the common name decides the
  country.\<close>

lemma country_from_common_name:
  assumes "c_isalpha a" "c_isalpha b"
  shows "extractCountryCode (''CN=Signer'' @ [CHR 0x5C] @ '',C='' @ [a, b] @ '',C=KR'') = to_upper [a, b]"
proof -
  have "cc_attr (''CN=Signer'' @ [CHR 0x5C] @ '',C='' @ [a, b] @ '',C=KR'') = None"
    by (simp add: cc_attr_def)
  moreover have l: "cc_letters 2 ([a, b] @ '',C=KR'')" "\<not> cc_letters 3 ([a, b] @ '',C=KR'')"
    using assms separators by (simp_all add: cc_letters_def numeral_3_eq_3 numeral_2_eq_2)
  then have "cc_attr (''C='' @ [a, b] @ '',C=KR'') = Some [a, b]"
    by (simp add: cc_attr_def cc_value_def numeral_2_eq_2 c_tolower_code)
  moreover have "\<not> c_isspace (CHR ''C'')" by code_simp
  moreover have "cc_search ((''CN=Signer'' @ [CHR 0x5C]) @ '','' @ ''C='' @ [a, b] @ '',C=KR'')
      = cc_search ('','' @ ''C='' @ [a, b] @ '',C=KR'')"
    by (rule cc_search_skip) simp_all
  ultimately show ?thesis by (simp add: extractCountryCode_def)
qed

section \<open>Times\<close>

lemma digit_0: "char_of (48 :: nat) = CHR ''0''"
  by code_simp

lemma pad0_two_digits:
  "n < 100 \<Longrightarrow> pad0 2 (int_dec (int n)) = [char_of (48 + n div 10), char_of (48 + n mod 10)]"
  by (cases "n < 10") (simp_all add: pad0_def int_dec_def nat_dec.simps [of n] nat_dec.simps [of "n div 10"]
      numeral_2_eq_2 digit_0)

lemma two_digits:
  assumes "n < 100" "s ! i = char_of (48 + n div 10)" "s ! (i + 1) = char_of (48 + n mod 10)"
  shows "two s i = int n"
proof -
  have "int (n div 10) * 10 + int (n mod 10) = int n" by presburger
  moreover have "dig s i = int (n div 10)" "dig s (i + 1) = int (n mod 10)"
    using assms by (simp_all add: dig_def)
  ultimately show ?thesis by (simp add: two_def)
qed

text \<open>A UTCTime is printed with the century RFC 5280 gives it.\<close>

theorem utc_time_text:
  assumes "yy < 100" "mo < 100" "dd < 100" "hh < 100" "mi < 100" "ss < 100"
  defines "p n \<equiv> pad0 2 (int_dec (int n))"
  shows "utils_asn1TimeToIso8601 (Some \<lparr>at_type = V_ASN1_UTCTIME,
      at_data = p yy @ p mo @ p dd @ p hh @ p mi @ p ss @ ''Z''\<rparr>)
    = int_dec (if 50 \<le> yy then 1900 + int yy else 2000 + int yy) @ ''-'' @ p mo @ ''-'' @ p dd @ ''T'' @ p hh @ '':''
        @ p mi @ '':'' @ p ss"
proof -
  let ?s = "p yy @ p mo @ p dd @ p hh @ p mi @ p ss @ ''Z''"
  define a b where "a n = (char_of (48 + n div 10) :: char)" and "b n = (char_of (48 + n mod 10) :: char)" for n :: nat
  have "n < 100 \<Longrightarrow> p n = [a n, b n]" for n by (simp only: p_def a_def b_def pad0_two_digits)
  with assms(1-6) have s: "?s = [a yy, b yy, a mo, b mo, a dd, b dd, a hh, b hh, a mi, b mi, a ss, b ss, CHR ''Z'']"
    by simp
  have "two ?s 0 = int yy" "two ?s 2 = int mo" "two ?s 4 = int dd" "two ?s 6 = int hh" "two ?s 8 = int mi"
      "two ?s 10 = int ss"
    unfolding s using assms(1-6) by (intro two_digits; simp add: a_def b_def)+
  moreover have "12 \<le> length ?s" unfolding s by simp
  ultimately show ?thesis
    by (simp add: utils_asn1TimeToIso8601_def iso8601_seconds_def Let_def p_def [symmetric])
qed

end
