(* ===== verification/Upload_Verdict.thy ===== *)
theory Upload_Verdict
  imports Cert_Utils Csca_Provider Progress
begin

text \<open>
  The verdict on a certificate of an uploaded LDIF file: the first part of \<^verbatim>\<open>parseCertificateEntry\<close> of
  \<^verbatim>\<open>services/pkd-management/src/ldif_processor.cpp\<close>, from the parsed certificate to the updated statistics.
  A certificate is classified (CSCA, link certificate, DSC, non-conformant DSC), validated against the CSCAs of the
  database, judged, checked for ICAO compliance and counted.  Readings of the clock are the argument \<open>clk\<close>, in the
  order of the calls.
\<close>

section \<open>Data\<close>

record csca_validation =
  csv_isValid :: bool
  csv_isSelfSigned :: bool
  csv_signatureValid :: bool
  csv_isCa :: bool
  csv_hasKeyCertSign :: bool
  csv_errorMessage :: string

record dsc_validation =
  dsv_isValid :: bool
  dsv_cscaFound :: bool
  dsv_signatureValid :: bool
  dsv_notExpired :: bool
  dsv_notRevoked :: bool
  dsv_dscExpired :: bool
  dsv_cscaExpired :: bool
  dsv_cscaSubjectDn :: string
  dsv_errorMessage :: string
  dsv_trustChainPath :: string

text \<open>\<^verbatim>\<open>domain/models/validation_result.h\<close>.\<close>

record validation_record =
  vr_certificateId :: string
  vr_uploadId :: string
  vr_certificateType :: string
  vr_countryCode :: string
  vr_subjectDn :: string
  vr_issuerDn :: string
  vr_serialNumber :: string
  vr_validationStatus :: string
  vr_trustChainValid :: bool
  vr_trustChainMessage :: string
  vr_trustChainPath :: string
  vr_cscaFound :: bool
  vr_cscaSubjectDn :: string
  vr_cscaFingerprint :: string
  vr_signatureVerified :: bool
  vr_signatureAlgorithm :: string
  vr_validityCheckPassed :: bool
  vr_isExpired :: bool
  vr_isNotYetValid :: bool
  vr_notBefore :: string
  vr_notAfter :: string
  vr_isCa :: bool
  vr_isSelfSigned :: bool
  vr_pathLengthConstraint :: int
  vr_keyUsageValid :: bool
  vr_keyUsageFlags :: string
  vr_crlCheckStatus :: string
  vr_crlCheckMessage :: string
  vr_icaoCompliant :: bool
  vr_icaoComplianceLevel :: string
  vr_icaoViolations :: string
  vr_icaoKeyUsageCompliant :: bool
  vr_icaoAlgorithmCompliant :: bool
  vr_icaoKeySizeCompliant :: bool
  vr_icaoValidityPeriodCompliant :: bool
  vr_icaoExtensionsCompliant :: bool
  vr_errorCode :: string
  vr_errorMessage :: string
  vr_fingerprint :: string
  vr_validationDurationMs :: int

definition validation_record0 :: validation_record where
  "validation_record0 = \<lparr>vr_certificateId = [], vr_uploadId = [], vr_certificateType = [], vr_countryCode = [],
     vr_subjectDn = [], vr_issuerDn = [], vr_serialNumber = [], vr_validationStatus = [], vr_trustChainValid = False,
     vr_trustChainMessage = [], vr_trustChainPath = [], vr_cscaFound = False, vr_cscaSubjectDn = [],
     vr_cscaFingerprint = [], vr_signatureVerified = False, vr_signatureAlgorithm = [], vr_validityCheckPassed = False,
     vr_isExpired = False, vr_isNotYetValid = False, vr_notBefore = [], vr_notAfter = [], vr_isCa = False,
     vr_isSelfSigned = False, vr_pathLengthConstraint = - 1, vr_keyUsageValid = False, vr_keyUsageFlags = [],
     vr_crlCheckStatus = ''NOT_CHECKED'', vr_crlCheckMessage = [], vr_icaoCompliant = False,
     vr_icaoComplianceLevel = [], vr_icaoViolations = [], vr_icaoKeyUsageCompliant = True,
     vr_icaoAlgorithmCompliant = True, vr_icaoKeySizeCompliant = True, vr_icaoValidityPeriodCompliant = True,
     vr_icaoExtensionsCompliant = True, vr_errorCode = [], vr_errorMessage = [], vr_fingerprint = [],
     vr_validationDurationMs = 0\<rparr>"

text \<open>\<^verbatim>\<open>ValidationStats\<close> of \<^verbatim>\<open>common.h\<close>.\<close>

record validation_stats =
  st_validCount :: int
  st_invalidCount :: int
  st_pendingCount :: int
  st_errorCount :: int
  st_trustChainValidCount :: int
  st_trustChainInvalidCount :: int
  st_cscaNotFoundCount :: int
  st_expiredCount :: int
  st_revokedCount :: int

definition validation_stats0 :: validation_stats where
  "validation_stats0 = \<lparr>st_validCount = 0, st_invalidCount = 0, st_pendingCount = 0, st_errorCount = 0,
     st_trustChainValidCount = 0, st_trustChainInvalidCount = 0, st_cscaNotFoundCount = 0, st_expiredCount = 0,
     st_revokedCount = 0\<rparr>"

text \<open>What is read of a certificate through helpers: its names, number and times as text, what the progress display
  shows of it, and what the ICAO check reads.\<close>

record cert_texts =
  ct_subjectDn :: string
  ct_issuerDn :: string
  ct_serialNumber :: string
  ct_notBefore :: string
  ct_notAfter :: string
  ct_progress :: cert_metadata
  ct_facts :: icao_facts

text \<open>The local variables of the function and the counters it is given.\<close>

record judgement =
  jd_certType :: string
  jd_status :: string
  jd_message :: string
  jd_record :: validation_record
  jd_stats :: validation_stats
  jd_cscaCount :: int
  jd_dscCount :: int
  jd_dscNcCount :: int

section \<open>Validation\<close>

definition containsIgnoreCase :: "string \<Rightarrow> string \<Rightarrow> bool" where
  "containsIgnoreCase haystack needle =
     (if needle = [] then True
      else if length haystack < length needle then False
      else str_find (to_lower haystack) (to_lower needle) 0 \<noteq> None)"

definition validateCscaCertificate :: "('x, 'k, 't) openssl \<Rightarrow> 'x option \<Rightarrow> csca_validation" where
  "validateCscaCertificate L cert =
     (let result = \<lparr>csv_isValid = False, csv_isSelfSigned = False, csv_signatureValid = False, csv_isCa = False,
            csv_hasKeyCertSign = False, csv_errorMessage = []\<rparr> in
      case cert of
        None \<Rightarrow> result\<lparr>csv_errorMessage := ''Certificate is null''\<rparr>
      | Some c \<Rightarrow>
          let result = result\<lparr>csv_isSelfSigned := isSelfSigned L cert\<rparr> in
          if \<not> csv_isSelfSigned result then
            result\<lparr>csv_errorMessage := ''Certificate is not self-signed (Subject DN != Issuer DN)''\<rparr>
          else
            let result = result\<lparr>csv_signatureValid := verifyCertificateSignature L cert cert\<rparr> in
            if \<not> csv_signatureValid result then result\<lparr>csv_errorMessage := ''Self-signature verification failed''\<rparr>
            else
              let result = (case basic_constraints_ca L c of Some ca \<Rightarrow> result\<lparr>csv_isCa := ca\<rparr> | None \<Rightarrow> result);
                  result = (case key_usage L c of Some ku \<Rightarrow> result\<lparr>csv_hasKeyCertSign := get_bit ku 5\<rparr> | None \<Rightarrow> result)
              in if csv_isSelfSigned result \<and> csv_signatureValid result \<and> csv_isCa result \<and> csv_hasKeyCertSign result
                 then result\<lparr>csv_isValid := True\<rparr>
                 else if \<not> csv_isCa result then
                   result\<lparr>csv_errorMessage := ''Certificate does not have CA flag in Basic Constraints''\<rparr>
                 else if \<not> csv_hasKeyCertSign result then
                   result\<lparr>csv_errorMessage := ''Certificate does not have keyCertSign in Key Usage''\<rparr>
                 else result)"

definition validateDscCertificate :: "('x, 'k, 't) openssl \<Rightarrow> 'x provider \<Rightarrow> (nat \<Rightarrow> int) \<Rightarrow> 'x option \<Rightarrow> string \<Rightarrow> dsc_validation" where
  "validateDscCertificate L prov clk dscCert issuerDn =
     (let result = \<lparr>dsv_isValid = False, dsv_cscaFound = False, dsv_signatureValid = False, dsv_notExpired = False,
            dsv_notRevoked = False, dsv_dscExpired = False, dsv_cscaExpired = False, dsv_cscaSubjectDn = [],
            dsv_errorMessage = [], dsv_trustChainPath = []\<rparr> in
      if dscCert = None then result\<lparr>dsv_errorMessage := ''DSC certificate is null''\<rparr>
      else
        let expired = isCertificateExpired L (clk 0) dscCert;
            result = result\<lparr>dsv_dscExpired := expired, dsv_notExpired := \<not> expired\<rparr>
        in if isCertificateNotYetValid L (clk 1) dscCert then
             result\<lparr>dsv_errorMessage := ''DSC certificate is not yet valid''\<rparr>
           else
             let chainResult = build L prov (clk 2) (clk 3) 10 dscCert;
                 result = result\<lparr>dsv_cscaFound := (tc_cscaSubjectDn chainResult \<noteq> []),
                   dsv_cscaSubjectDn := (if tc_cscaSubjectDn chainResult = [] then issuerDn else tc_cscaSubjectDn chainResult),
                   dsv_trustChainPath := tc_path chainResult, dsv_cscaExpired := tc_cscaExpired chainResult,
                   dsv_signatureValid := tc_valid chainResult, dsv_isValid := tc_valid chainResult\<rparr>
             in if \<not> dsv_cscaFound result \<and> \<not> tc_valid chainResult then
                  result\<lparr>dsv_errorMessage := ''No CSCA found for issuer: '' @ take 80 issuerDn\<rparr>
                else if \<not> tc_valid chainResult then result\<lparr>dsv_errorMessage := tc_message chainResult\<rparr>
                else result)"

section \<open>The verdict\<close>

definition verdict_valid :: "string \<Rightarrow> string \<Rightarrow> judgement \<Rightarrow> judgement" where
  "verdict_valid status message j = j\<lparr>jd_status := status,
     jd_record := (jd_record j)\<lparr>vr_validationStatus := status, vr_trustChainValid := True, vr_trustChainMessage := message\<rparr>,
     jd_stats := (jd_stats j)\<lparr>st_validCount := st_validCount (jd_stats j) + 1,
       st_trustChainValidCount := st_trustChainValidCount (jd_stats j) + 1\<rparr>\<rparr>"

definition verdict_invalid :: "string \<Rightarrow> judgement \<Rightarrow> judgement" where
  "verdict_invalid message j = j\<lparr>jd_status := ''INVALID'', jd_message := message,
     jd_record := (jd_record j)\<lparr>vr_validationStatus := ''INVALID'', vr_trustChainValid := False,
       vr_trustChainMessage := message, vr_errorMessage := message\<rparr>,
     jd_stats := (jd_stats j)\<lparr>st_invalidCount := st_invalidCount (jd_stats j) + 1,
       st_trustChainInvalidCount := st_trustChainInvalidCount (jd_stats j) + 1\<rparr>\<rparr>"

definition verdict_pending :: "string \<Rightarrow> judgement \<Rightarrow> judgement" where
  "verdict_pending message j = j\<lparr>jd_status := ''PENDING'', jd_message := message,
     jd_record := (jd_record j)\<lparr>vr_validationStatus := ''PENDING'', vr_trustChainMessage := ''CSCA not found in database'',
       vr_errorCode := ''CSCA_NOT_FOUND'', vr_errorMessage := message\<rparr>,
     jd_stats := (jd_stats j)\<lparr>st_pendingCount := st_pendingCount (jd_stats j) + 1,
       st_cscaNotFoundCount := st_cscaNotFoundCount (jd_stats j) + 1\<rparr>\<rparr>"

definition count_expired :: "bool \<Rightarrow> judgement \<Rightarrow> judgement" where
  "count_expired b j = (if b then j\<lparr>jd_stats := (jd_stats j)\<lparr>st_expiredCount := st_expiredCount (jd_stats j) + 1\<rparr>\<rparr> else j)"

text \<open>The hybrid chain model: expiry never makes a chain invalid.\<close>

definition chain_verdict :: "string \<Rightarrow> bool \<Rightarrow> dsc_validation \<Rightarrow> judgement \<Rightarrow> judgement" where
  "chain_verdict verified countExpired v j =
     (if dsv_isValid v then
        (if dsv_dscExpired v \<or> dsv_cscaExpired v then
           count_expired (countExpired \<and> dsv_dscExpired v)
             (verdict_valid ''EXPIRED_VALID'' ''Trust chain verified (certificates expired)'' j)
         else verdict_valid ''VALID'' verified j)
      else if dsv_cscaFound v then verdict_invalid (dsv_errorMessage v) j
      else verdict_pending (dsv_errorMessage v) j)"

definition csca_branch :: "('x, 'k, 't) openssl \<Rightarrow> 'x option \<Rightarrow> judgement \<Rightarrow> judgement" where
  "csca_branch L cert j =
     (let v = validateCscaCertificate L cert;
          j = j\<lparr>jd_certType := ''CSCA'', jd_cscaCount := jd_cscaCount j + 1,
            jd_record := (jd_record j)\<lparr>vr_certificateType := ''CSCA'', vr_isSelfSigned := True, vr_isCa := csv_isCa v,
              vr_signatureVerified := csv_signatureValid v, vr_validityCheckPassed := csv_isValid v,
              vr_keyUsageValid := csv_hasKeyCertSign v, vr_trustChainValid := csv_signatureValid v\<rparr>\<rparr>
      in if csv_isValid v then
           j\<lparr>jd_status := ''VALID'',
             jd_record := (jd_record j)\<lparr>vr_validationStatus := ''VALID'', vr_trustChainMessage := ''Self-signature verified''\<rparr>,
             jd_stats := (jd_stats j)\<lparr>st_validCount := st_validCount (jd_stats j) + 1,
               st_trustChainValidCount := st_trustChainValidCount (jd_stats j) + 1\<rparr>\<rparr>
         else if csv_signatureValid v then
           j\<lparr>jd_status := ''VALID'', jd_message := csv_errorMessage v,
             jd_record := (jd_record j)\<lparr>vr_validationStatus := ''VALID'', vr_trustChainMessage := csv_errorMessage v\<rparr>,
             jd_stats := (jd_stats j)\<lparr>st_validCount := st_validCount (jd_stats j) + 1,
               st_trustChainValidCount := st_trustChainValidCount (jd_stats j) + 1\<rparr>\<rparr>
         else verdict_invalid (csv_errorMessage v) j)"

definition dsc_record :: "dsc_validation \<Rightarrow> validation_record \<Rightarrow> validation_record" where
  "dsc_record v r = r\<lparr>vr_cscaFound := dsv_cscaFound v, vr_cscaSubjectDn := dsv_cscaSubjectDn v,
     vr_signatureVerified := dsv_signatureValid v, vr_validityCheckPassed := dsv_notExpired v,
     vr_isExpired := dsv_dscExpired v, vr_trustChainPath := dsv_trustChainPath v\<rparr>"

definition nc_branch :: "dsc_validation \<Rightarrow> judgement \<Rightarrow> judgement" where
  "nc_branch v j = chain_verdict ''Trust chain verified: DSC signed by CSCA'' True v
     (j\<lparr>jd_certType := ''DSC_NC'', jd_dscNcCount := jd_dscNcCount j + 1,
        jd_record := dsc_record v ((jd_record j)\<lparr>vr_certificateType := ''DSC_NC''\<rparr>)\<rparr>)"

definition dsc_branch :: "dsc_validation \<Rightarrow> judgement \<Rightarrow> judgement" where
  "dsc_branch v j = chain_verdict ''Trust chain verified: DSC signed by CSCA'' True v
     (j\<lparr>jd_certType := ''DSC'', jd_dscCount := jd_dscCount j + 1,
        jd_record := dsc_record v ((jd_record j)\<lparr>vr_certificateType := ''DSC''\<rparr>)\<rparr>)"

definition link_branch :: "csca_validation \<Rightarrow> dsc_validation \<Rightarrow> judgement \<Rightarrow> judgement" where
  "link_branch cv v j = chain_verdict ''Trust chain verified: Link Certificate signed by CSCA'' False v
     (j\<lparr>jd_certType := ''CSCA'', jd_cscaCount := jd_cscaCount j + 1,
        jd_record := (jd_record j)\<lparr>vr_certificateType := ''CSCA'', vr_isSelfSigned := False, vr_isCa := csv_isCa cv,
          vr_signatureVerified := False, vr_validityCheckPassed := csv_isValid cv, vr_keyUsageValid := csv_hasKeyCertSign cv,
          vr_cscaFound := dsv_cscaFound v, vr_cscaSubjectDn := dsv_cscaSubjectDn v,
          vr_trustChainPath := dsv_trustChainPath v, vr_isExpired := dsv_dscExpired v\<rparr>\<rparr>)"

definition classify :: "('x, 'k, 't) openssl \<Rightarrow> 'x provider \<Rightarrow> (nat \<Rightarrow> int) \<Rightarrow> string \<Rightarrow> cert_texts \<Rightarrow> 'x
    \<Rightarrow> judgement \<Rightarrow> judgement" where
  "classify L prov clk dn T c j =
     (if ct_subjectDn T = ct_issuerDn T then csca_branch L (Some c) j
      else
        let v = validateDscCertificate L prov clk (Some c) (ct_issuerDn T) in
        if containsIgnoreCase dn ''dc=nc-data'' then nc_branch v j
        else
          let cv = validateCscaCertificate L (Some c) in
          if csv_isCa cv \<and> csv_hasKeyCertSign cv then link_branch cv v j else dsc_branch v j)"

text \<open>The compliance of the classified certificate goes into the record.\<close>

definition piped :: "string list \<Rightarrow> string" where
  "piped vs = foldl (\<lambda>violations v. (if violations \<noteq> [] then violations @ ''|'' else violations) @ v) [] vs"

definition record_compliance :: "icao_compliance \<Rightarrow> validation_record \<Rightarrow> validation_record" where
  "record_compliance s r = r\<lparr>vr_icaoCompliant := ic_isCompliant s, vr_icaoComplianceLevel := ic_complianceLevel s,
     vr_icaoKeyUsageCompliant := ic_keyUsageCompliant s, vr_icaoAlgorithmCompliant := ic_algorithmCompliant s,
     vr_icaoKeySizeCompliant := ic_keySizeCompliant s, vr_icaoValidityPeriodCompliant := ic_validityPeriodCompliant s,
     vr_icaoExtensionsCompliant := ic_extensionsCompliant s, vr_icaoViolations := piped (ic_violations s)\<rparr>"

definition country_of :: "cert_texts \<Rightarrow> string" where
  "country_of T = (let cc = extractCountryCode (ct_subjectDn T) in
     if cc = ''XX'' then extractCountryCode (ct_issuerDn T) else cc)"

definition start_judgement :: "string \<Rightarrow> string \<Rightarrow> cert_texts \<Rightarrow> validation_stats \<Rightarrow> int \<times> int \<times> int \<Rightarrow> judgement" where
  "start_judgement uploadId fingerprint T stats counts =
     \<lparr>jd_certType = [], jd_status = ''PENDING'', jd_message = [],
      jd_record = validation_record0\<lparr>vr_uploadId := uploadId, vr_fingerprint := fingerprint, vr_countryCode := country_of T,
        vr_subjectDn := ct_subjectDn T, vr_issuerDn := ct_issuerDn T, vr_serialNumber := ct_serialNumber T,
        vr_notBefore := ct_notBefore T, vr_notAfter := ct_notAfter T\<rparr>,
      jd_stats = stats, jd_cscaCount = fst counts, jd_dscCount = fst (snd counts), jd_dscNcCount = snd (snd counts)\<rparr>"

definition judge :: "('x, 'k, 't) openssl \<Rightarrow> 'x provider \<Rightarrow> (nat \<Rightarrow> int) \<Rightarrow> string \<Rightarrow> cert_texts \<Rightarrow> 'x
    \<Rightarrow> judgement \<Rightarrow> judgement \<times> icao_compliance" where
  "judge L prov clk dn T c j =
     (let j = classify L prov clk dn T c j;
          icao = checkIcaoCompliance (Some (ct_facts T)) (jd_certType j)
      in (j\<lparr>jd_record := record_compliance icao (jd_record j)\<rparr>, icao))"

section \<open>The statistics\<close>

definition bump :: "'k::linorder \<Rightarrow> ('k \<times> int) list \<Rightarrow> ('k \<times> int) list" where
  "bump k m = smap_set k ((case map_of m k of None \<Rightarrow> 0 | Some n \<Rightarrow> n) + 1) m"

definition count_certificate :: "string \<Rightarrow> cert_metadata \<Rightarrow> validation_statistics \<Rightarrow> validation_statistics" where
  "count_certificate certType md s = s\<lparr>vs_totalCertificates := vs_totalCertificates s + 1,
     vs_certificateTypes := bump certType (vs_certificateTypes s),
     vs_signatureAlgorithms := safeIncrementMap (vs_signatureAlgorithms s) (me_signatureAlgorithm md) 50,
     vs_keySizes := bump (me_keySize md) (vs_keySizes s)\<rparr>"

definition count_violation :: "bool \<Rightarrow> string \<Rightarrow> validation_statistics \<Rightarrow> validation_statistics" where
  "count_violation ok k s = (if \<not> ok then s\<lparr>vs_complianceViolations := bump k (vs_complianceViolations s)\<rparr> else s)"

definition count_compliance :: "icao_compliance \<Rightarrow> validation_statistics \<Rightarrow> validation_statistics" where
  "count_compliance c s =
     (let s = (if ic_isCompliant c then s\<lparr>vs_icaoCompliantCount := vs_icaoCompliantCount s + 1\<rparr>
               else s\<lparr>vs_icaoNonCompliantCount := vs_icaoNonCompliantCount s + 1\<rparr>);
          s = count_violation (ic_keyUsageCompliant c) ''keyUsage'' s;
          s = count_violation (ic_algorithmCompliant c) ''algorithm'' s;
          s = count_violation (ic_keySizeCompliant c) ''keySize'' s;
          s = count_violation (ic_validityPeriodCompliant c) ''validityPeriod'' s;
          s = count_violation (ic_dnFormatCompliant c) ''dnFormat'' s
      in count_violation (ic_extensionsCompliant c) ''extensions'' s)"

definition count_reason :: "string \<Rightarrow> validation_statistics \<Rightarrow> validation_statistics" where
  "count_reason reason s = s\<lparr>vs_validationReasons := safeIncrementMap (vs_validationReasons s) reason 100\<rparr>"

definition count_status :: "string \<Rightarrow> string \<Rightarrow> validation_statistics \<Rightarrow> validation_statistics" where
  "count_status status message s =
     (if status = ''VALID'' then count_reason ''VALID'' (s\<lparr>vs_validCount := vs_validCount s + 1\<rparr>)
      else if status = ''EXPIRED_VALID'' then
        count_reason (''EXPIRED_VALID: '' @ message) (s\<lparr>vs_expiredValidCount := vs_expiredValidCount s + 1\<rparr>)
      else if status = ''INVALID'' then count_reason (''INVALID: '' @ message) (s\<lparr>vs_invalidCount := vs_invalidCount s + 1\<rparr>)
      else if status = ''PENDING'' then count_reason (''PENDING: '' @ message) (s\<lparr>vs_pendingCount := vs_pendingCount s + 1\<rparr>)
      else s)"

definition count_chain :: "string \<Rightarrow> validation_record \<Rightarrow> validation_statistics \<Rightarrow> validation_statistics" where
  "count_chain status r s =
     (let s = (if vr_trustChainValid r then s\<lparr>vs_trustChainValidCount := vs_trustChainValidCount s + 1\<rparr>
               else if status = ''INVALID'' then s\<lparr>vs_trustChainInvalidCount := vs_trustChainInvalidCount s + 1\<rparr> else s);
          s = (if status = ''PENDING'' \<and> vr_errorCode r = ''CSCA_NOT_FOUND''
               then s\<lparr>vs_cscaNotFoundCount := vs_cscaNotFoundCount s + 1\<rparr> else s)
      in if vr_isExpired r then s\<lparr>vs_expiredCount := vs_expiredCount s + 1\<rparr>
         else if status = ''VALID'' \<or> status = ''EXPIRED_VALID'' then s\<lparr>vs_validPeriodCount := vs_validPeriodCount s + 1\<rparr>
         else s)"

definition count_judgement :: "string \<Rightarrow> cert_metadata \<Rightarrow> judgement \<times> icao_compliance \<Rightarrow> validation_statistics
    \<Rightarrow> validation_statistics" where
  "count_judgement timestamp md ji s =
     (let j = fst ji; r = jd_record j;
          s = count_certificate (jd_certType j) md s;
          s = count_compliance (snd ji) s;
          s = count_status (jd_status j) (vr_trustChainMessage r) s;
          s = count_chain (jd_status j) r s
      in addValidationLog s timestamp (jd_certType j) (vr_countryCode r) (vr_subjectDn r) (vr_issuerDn r) (jd_status j)
           (vr_trustChainMessage r) (vr_trustChainPath r) (vr_errorCode r) (vr_fingerprint r))"

text \<open>The counters the function is given by reference.\<close>

record tallies =
  ta_cscaCount :: int
  ta_dscCount :: int
  ta_dscNcCount :: int
  ta_ldapStoredCount :: int
  ta_stats :: validation_stats
  ta_enhanced :: validation_statistics

definition judge_and_count :: "('x, 'k, 't) openssl \<Rightarrow> 'x provider \<Rightarrow> (nat \<Rightarrow> int) \<Rightarrow> string \<Rightarrow> string \<Rightarrow> string
    \<Rightarrow> string \<Rightarrow> cert_texts \<Rightarrow> 'x \<Rightarrow> tallies \<Rightarrow> judgement \<times> tallies" where
  "judge_and_count L prov clk timestamp uploadId fingerprint dn T c t =
     (let ji = judge L prov clk dn T c
            (start_judgement uploadId fingerprint T (ta_stats t) (ta_cscaCount t, ta_dscCount t, ta_dscNcCount t))
      in (fst ji, t\<lparr>ta_cscaCount := jd_cscaCount (fst ji), ta_dscCount := jd_dscCount (fst ji),
            ta_dscNcCount := jd_dscNcCount (fst ji), ta_stats := jd_stats (fst ji),
            ta_enhanced := count_judgement timestamp (ct_progress T) ji (ta_enhanced t)\<rparr>))"

section \<open>What the verdict says\<close>

lemma csca_validation_fields:
  "csv_signatureValid (validateCscaCertificate L (Some c)) = (isSelfSigned L (Some c) \<and> verifyCertificateSignature L (Some c) (Some c))"
  "csv_isValid (validateCscaCertificate L (Some c)) \<Longrightarrow> csv_signatureValid (validateCscaCertificate L (Some c))"
  "csv_isCa (validateCscaCertificate L (Some c)) \<Longrightarrow> csv_signatureValid (validateCscaCertificate L (Some c))"
  by (auto simp: validateCscaCertificate_def Let_def split: option.splits if_splits)

lemma dsc_validation_fields:
  "dsv_isValid (validateDscCertificate L prov clk (Some c) issuerDn)
     = (\<not> isCertificateNotYetValid L (clk 1) (Some c) \<and> tc_valid (build L prov (clk 2) (clk 3) 10 (Some c)))"
  "dsv_cscaFound (validateDscCertificate L prov clk (Some c) issuerDn)
     = (\<not> isCertificateNotYetValid L (clk 1) (Some c) \<and> tc_cscaSubjectDn (build L prov (clk 2) (clk 3) 10 (Some c)) \<noteq> [])"
  "dsv_dscExpired (validateDscCertificate L prov clk (Some c) issuerDn) = isCertificateExpired L (clk 0) (Some c)"
  "dsv_cscaExpired (validateDscCertificate L prov clk (Some c) issuerDn)
     = (\<not> isCertificateNotYetValid L (clk 1) (Some c) \<and> tc_cscaExpired (build L prov (clk 2) (clk 3) 10 (Some c)))"
  by (auto simp: validateDscCertificate_def Let_def)

lemmas verdict_defs = verdict_valid_def verdict_invalid_def verdict_pending_def count_expired_def

lemma chain_verdict_status:
  "jd_status (chain_verdict m e v j) =
     (if dsv_isValid v then (if dsv_dscExpired v \<or> dsv_cscaExpired v then ''EXPIRED_VALID'' else ''VALID'')
      else if dsv_cscaFound v then ''INVALID'' else ''PENDING'')"
  by (simp add: chain_verdict_def verdict_defs)

lemma chain_verdict_type: "jd_certType (chain_verdict m e v j) = jd_certType j"
  by (simp add: chain_verdict_def verdict_defs)

lemma csca_branch_status:
  "jd_status (csca_branch L (Some c) j) =
     (if isSelfSigned L (Some c) \<and> verifyCertificateSignature L (Some c) (Some c) then ''VALID'' else ''INVALID'')"
  using csca_validation_fields(1,2) [of L c]
  by (simp add: csca_branch_def Let_def verdict_defs)

text \<open>The status of a certificate in terms of the validation library.\<close>

definition expected_status :: "('x, 'k, 't) openssl \<Rightarrow> 'x provider \<Rightarrow> (nat \<Rightarrow> int) \<Rightarrow> cert_texts \<Rightarrow> 'x \<Rightarrow> string" where
  "expected_status L prov clk T c =
     (if ct_subjectDn T = ct_issuerDn T then
        (if isSelfSigned L (Some c) \<and> verifyCertificateSignature L (Some c) (Some c) then ''VALID'' else ''INVALID'')
      else if isCertificateNotYetValid L (clk 1) (Some c) then ''PENDING''
      else
        let r = build L prov (clk 2) (clk 3) 10 (Some c) in
        if tc_valid r then
          (if isCertificateExpired L (clk 0) (Some c) \<or> tc_cscaExpired r then ''EXPIRED_VALID'' else ''VALID'')
        else if tc_cscaSubjectDn r \<noteq> [] then ''INVALID'' else ''PENDING'')"

lemma judge_status: "jd_status (fst (judge L prov clk dn T c j)) = expected_status L prov clk T c"
  by (simp add: judge_def Let_def classify_def expected_status_def csca_branch_status nc_branch_def dsc_branch_def
      link_branch_def chain_verdict_status dsc_validation_fields)

lemma judge_record_status: "vr_validationStatus (jd_record (fst (judge L prov clk dn T c j))) = expected_status L prov clk T c"
proof -
  have "vr_validationStatus (jd_record (chain_verdict m e v j)) = jd_status (chain_verdict m e v j)" for m e v and j :: judgement
    by (simp add: chain_verdict_def verdict_defs)
  moreover have "vr_validationStatus (jd_record (csca_branch L (Some c) j)) = jd_status (csca_branch L (Some c) j)" for j
    by (simp add: csca_branch_def Let_def verdict_defs)
  ultimately have "vr_validationStatus (jd_record (classify L prov clk dn T c j)) = jd_status (classify L prov clk dn T c j)"
    by (simp add: classify_def Let_def nc_branch_def dsc_branch_def link_branch_def)
  then show ?thesis unfolding judge_status [of L prov clk dn T c j, symmetric]
    by (simp add: judge_def Let_def record_compliance_def)
qed

text \<open>C18. No certificate is stored as valid without a reason.  The status a certificate gets, in the table of certificates and
  in its validation record, is \<^verbatim>\<open>VALID\<close> or \<^verbatim>\<open>EXPIRED_VALID\<close> only if it names itself as issuer and verifies itself, and then
  it is \<^verbatim>\<open>VALID\<close> whether it has expired or not, or a chain of at most ten verified signatures leads from it to a self-signed
  certificate that verifies itself, all but the certificate coming from the provider, and its validity has begun.  In the
  second case it is \<^verbatim>\<open>EXPIRED_VALID\<close> exactly when the certificate or one of the others of that chain has expired.\<close>

theorem upload_verdict_sound:
  assumes "judge L prov clk dn T c j = (j', icao)" "jd_status j' \<in> {''VALID'', ''EXPIRED_VALID''}"
  shows "vr_validationStatus (jd_record j') = jd_status j'
    \<and> (if ct_subjectDn T = ct_issuerDn T then jd_status j' = ''VALID'' \<and> trusted_root L c
       else \<not> isCertificateNotYetValid L (clk 1) (Some c)
         \<and> (\<exists>chain. chain \<noteq> [] \<and> hd chain = c \<and> length chain \<le> 10 \<and> signed_chain L chain
              \<and> trusted_root L (last chain) \<and> set (tl chain) \<subseteq> provided prov
              \<and> (jd_status j' = ''EXPIRED_VALID'' \<longleftrightarrow> isCertificateExpired L (clk 0) (Some c)
                   \<or> (\<exists>x \<in> set (tl chain). isCertificateExpired L (clk 3) (Some x)))))"
proof -
  have s: "jd_status j' = expected_status L prov clk T c"
    and r: "vr_validationStatus (jd_record j') = jd_status j'"
    using judge_status [of L prov clk dn T c j] judge_record_status [of L prov clk dn T c j] assms(1) by simp_all
  show ?thesis
  proof (cases "ct_subjectDn T = ct_issuerDn T")
    case True
    with s r assms(2) show ?thesis by (auto simp: expected_status_def trusted_root_def split: if_splits)
  next
    case False
    let ?r = "build L prov (clk 2) (clk 3) 10 (Some c)" and ?run = "build_run L prov (clk 2) (clk 3) 10 (Some c)"
    have v: "tc_valid ?r" "\<not> isCertificateNotYetValid L (clk 1) (Some c)"
      using s assms(2) False by (auto simp: expected_status_def Let_def split: if_splits)
    have "jd_status j' = ''EXPIRED_VALID'' \<longleftrightarrow> isCertificateExpired L (clk 0) (Some c) \<or> tc_cscaExpired ?r"
      using s v False by (simp add: expected_status_def Let_def)
    then have "jd_status j' = ''EXPIRED_VALID'' \<longleftrightarrow> isCertificateExpired L (clk 0) (Some c)
        \<or> (\<exists>x \<in> set (tl (run_chain ?run)). isCertificateExpired L (clk 3) (Some x))"
      using build_expiry [OF v(1) refl] by (simp add: build_def)
    with build_chain [OF v(1) refl] r v(2) False show ?thesis by auto
  qed
qed

definition demo_metadata :: x509_metadata where
  "demo_metadata = \<lparr>xm_version = 2, xm_signatureAlgorithm = ''sha256WithRSAEncryption'', xm_signatureHashAlgorithm = ''SHA-256'',
     xm_publicKeyAlgorithm = ''RSA'', xm_publicKeySize = 2048, xm_publicKeyCurve = None, xm_keyUsage = [''digitalSignature''],
     xm_extendedKeyUsage = [], xm_isCA = False, xm_pathLenConstraint = None, xm_subjectKeyIdentifier = None,
     xm_authorityKeyIdentifier = None, xm_crlDistributionPoints = [], xm_ocspResponderUrl = None, xm_isSelfSigned = False\<rparr>"

definition demo_cert_metadata :: cert_metadata where
  "demo_cert_metadata = \<lparr>me_subjectDn = ''CN=DS,C=KR'', me_issuerDn = ''CN=CSCA,C=KR'', me_serialNumber = ''01'',
     me_countryCode = ''KR'', me_certificateType = ''DSC'', me_isSelfSigned = False, me_isLinkCertificate = False,
     me_signatureAlgorithm = ''sha256WithRSAEncryption'', me_publicKeyAlgorithm = ''RSA'', me_keySize = 2048, me_isCa = False,
     me_pathLengthConstraint = None, me_keyUsage = [], me_extendedKeyUsage = [], me_notBefore = [], me_notAfter = [],
     me_isExpired = False, me_fingerprintSha256 = [], me_fingerprintSha1 = [], me_asn1Text = None\<rparr>"

definition demo_texts :: cert_texts where
  "demo_texts = \<lparr>ct_subjectDn = ''CN=DS,C=KR'', ct_issuerDn = ''CN=CSCA,C=KR'', ct_serialNumber = ''01'',
     ct_notBefore = ''2020-01-01T00:00:00'', ct_notAfter = ''2030-01-01T00:00:00'', ct_progress = demo_cert_metadata,
     ct_facts = \<lparr>cf_metadata = demo_metadata, cf_validityDays = Some 1000, cf_subjectHasCountry = Some True,
       cf_hasBasicConstraints = False\<rparr>\<rparr>"

definition demo_start :: judgement where
  "demo_start = start_judgement ''u1'' ''ab12'' demo_texts validation_stats0 (0, 0, 0)"

lemma not_begun_demo: "isCertificateNotYetValid demo_pki t (Some c) = (t < 0)"
  by (simp add: isCertificateNotYetValid_def demo_pki_def small_pki_def)

lemma expected_demo: "expected_status demo_pki demo_provider (\<lambda>_. 0) demo_texts 0 = ''VALID''"
proof -
  have "\<not> tc_cscaExpired (build demo_pki demo_provider 0 0 10 (Some 0))" by code_simp
  moreover have "\<not> isCertificateExpired demo_pki 0 (Some 0)" by code_simp
  ultimately show ?thesis using demo_valid not_begun_demo [of 0 0]
    by (simp add: expected_status_def demo_texts_def)
qed

lemma upload_verdict_sound_witness:
  "\<exists>chain. chain \<noteq> [] \<and> hd chain = 0 \<and> signed_chain demo_pki chain \<and> trusted_root demo_pki (last chain)"
proof -
  let ?j = "judge demo_pki demo_provider (\<lambda>_. 0) ''cn=x,dc=data'' demo_texts 0 demo_start"
  have "jd_status (fst ?j) \<in> {''VALID'', ''EXPIRED_VALID''}" unfolding judge_status expected_demo by simp
  from upload_verdict_sound [OF prod.collapse [symmetric] this]
  show ?thesis by (auto simp: demo_texts_def)
qed

section \<open>Link certificates\<close>

text \<open>A link certificate, a CA certificate with the right to sign certificates under the name of another CA, never
  reaches the branch written for it: \<^verbatim>\<open>validateCscaCertificate\<close> returns before it looks at the extensions of a certificate
  that is not self-signed.  Every link certificate is counted and stored as a document signer.\<close>

theorem link_stored_as_dsc:
  assumes "isLinkCertificate L (Some c)" "ct_subjectDn T \<noteq> ct_issuerDn T"
  shows "jd_certType (fst (judge L prov clk dn T c j)) = (if containsIgnoreCase dn ''dc=nc-data'' then ''DSC_NC'' else ''DSC'')
    \<and> jd_cscaCount (fst (judge L prov clk dn T c j)) = jd_cscaCount j"
proof -
  have "\<not> isSelfSigned L (Some c)" using assms(1) self_signed_not_link by blast
  then have "\<not> csv_isCa (validateCscaCertificate L (Some c))"
    using csca_validation_fields(1,3) [of L c] by auto
  then show ?thesis using assms(2)
    by (simp add: judge_def Let_def classify_def nc_branch_def dsc_branch_def chain_verdict_def verdict_defs)
qed

definition link_pki :: "(nat, nat, int) openssl" where
  "link_pki = small_pki (\<lambda>c. if c = 1 then ''/C=KR/CN=CSCA2'' else ''/C=KR/CN=CSCA'') (\<lambda>c. ''/C=KR/CN=CSCA'') (\<lambda>c k. k = 2)"

definition link_texts :: cert_texts where
  "link_texts = demo_texts\<lparr>ct_subjectDn := ''CN=CSCA2,C=KR'', ct_issuerDn := ''CN=CSCA,C=KR''\<rparr>"

lemma link_stored_as_dsc_witness:
  "isLinkCertificate link_pki (Some 1)
   \<and> jd_certType (fst (judge link_pki demo_provider (\<lambda>_. 0) ''cn=x,dc=data'' link_texts 1 demo_start)) = ''DSC''"
proof
  show l: "isLinkCertificate link_pki (Some 1)" by code_simp
  have "\<not> containsIgnoreCase ''cn=x,dc=data'' ''dc=nc-data''" by code_simp
  moreover have "ct_subjectDn link_texts \<noteq> ct_issuerDn link_texts" by (simp add: link_texts_def)
  ultimately show "jd_certType (fst (judge link_pki demo_provider (\<lambda>_. 0) ''cn=x,dc=data'' link_texts 1 demo_start)) = ''DSC''"
    using link_stored_as_dsc [OF l, of link_texts demo_provider "\<lambda>_. 0" "''cn=x,dc=data''" demo_start] by simp
qed

section \<open>What the verdict does not look at\<close>

text \<open>A document signer whose validity has not begun is reported as one whose CSCA is missing, whatever the
  database holds: the search for a chain is skipped.\<close>

lemma not_begun_reported_missing:
  assumes "ct_subjectDn T \<noteq> ct_issuerDn T" "isCertificateNotYetValid L (clk 1) (Some c)"
  shows "vr_errorCode (jd_record (fst (judge L prov clk dn T c j))) = ''CSCA_NOT_FOUND''
    \<and> vr_trustChainMessage (jd_record (fst (judge L prov clk dn T c j))) = ''CSCA not found in database''"
  using assms
  by (simp add: judge_def Let_def classify_def nc_branch_def dsc_branch_def link_branch_def chain_verdict_def
      dsc_validation_fields verdict_defs record_compliance_def)

text \<open>No revocation list is consulted.\<close>

lemma crl_not_checked: "vr_crlCheckStatus (jd_record (fst (judge L prov clk dn T c j))) = vr_crlCheckStatus (jd_record j)"
  by (simp add: judge_def Let_def classify_def csca_branch_def nc_branch_def dsc_branch_def link_branch_def dsc_record_def
      chain_verdict_def verdict_defs record_compliance_def)

text \<open>The validity of a CSCA is not looked at either: an expired one is never marked as expired.\<close>

lemma csca_expiry_ignored:
  "ct_subjectDn T = ct_issuerDn T \<Longrightarrow>
     vr_isExpired (jd_record (fst (judge L prov clk dn T c j))) = vr_isExpired (jd_record j)
     \<and> jd_status (fst (judge L prov clk dn T c j)) \<noteq> ''EXPIRED_VALID''"
  by (simp add: judge_status expected_status_def)
    (simp add: judge_def Let_def classify_def csca_branch_def verdict_defs record_compliance_def)

section \<open>The books balance\<close>

definition balanced :: "validation_statistics \<Rightarrow> bool" where
  "balanced s =
     (vs_validCount s + vs_expiredValidCount s + vs_invalidCount s + vs_pendingCount s = vs_totalCertificates s
      \<and> vs_icaoCompliantCount s + vs_icaoNonCompliantCount s = vs_totalCertificates s
      \<and> vs_trustChainValidCount s = vs_validCount s + vs_expiredValidCount s
      \<and> vs_trustChainInvalidCount s = vs_invalidCount s \<and> vs_cscaNotFoundCount s = vs_pendingCount s
      \<and> vs_totalValidationLogCount s = vs_totalCertificates s
      \<and> smap_ok (vs_certificateTypes s) \<and> sum_list (map snd (vs_certificateTypes s)) = vs_totalCertificates s)"

text \<open>The two sets of counters, one of the upload record and one streamed to the browser, agree.\<close>

definition books :: "tallies \<Rightarrow> bool" where
  "books t =
     (balanced (ta_enhanced t)
      \<and> st_validCount (ta_stats t) = vs_validCount (ta_enhanced t) + vs_expiredValidCount (ta_enhanced t)
      \<and> st_invalidCount (ta_stats t) = vs_invalidCount (ta_enhanced t)
      \<and> st_pendingCount (ta_stats t) = vs_pendingCount (ta_enhanced t)
      \<and> st_trustChainValidCount (ta_stats t) = vs_trustChainValidCount (ta_enhanced t)
      \<and> st_trustChainInvalidCount (ta_stats t) = vs_trustChainInvalidCount (ta_enhanced t)
      \<and> st_cscaNotFoundCount (ta_stats t) = vs_cscaNotFoundCount (ta_enhanced t)
      \<and> ta_cscaCount t + ta_dscCount t + ta_dscNcCount t = vs_totalCertificates (ta_enhanced t))"

abbreviation good :: "string \<Rightarrow> bool" where
  "good status \<equiv> status = ''VALID'' \<or> status = ''EXPIRED_VALID''"

text \<open>What a verdict does to the counters of the upload.\<close>

definition judged :: "judgement \<Rightarrow> judgement \<Rightarrow> bool" where
  "judged j j' =
     (let st = jd_status j'; a = jd_stats j; b = jd_stats j' in
      (good st \<or> st = ''INVALID'' \<or> st = ''PENDING'')
      \<and> vr_trustChainValid (jd_record j') = good st \<and> (st = ''PENDING'' \<longrightarrow> vr_errorCode (jd_record j') = ''CSCA_NOT_FOUND'')
      \<and> st_validCount b = st_validCount a + (if good st then 1 else 0)
      \<and> st_invalidCount b = st_invalidCount a + (if st = ''INVALID'' then 1 else 0)
      \<and> st_pendingCount b = st_pendingCount a + (if st = ''PENDING'' then 1 else 0)
      \<and> st_trustChainValidCount b = st_trustChainValidCount a + (if good st then 1 else 0)
      \<and> st_trustChainInvalidCount b = st_trustChainInvalidCount a + (if st = ''INVALID'' then 1 else 0)
      \<and> st_cscaNotFoundCount b = st_cscaNotFoundCount a + (if st = ''PENDING'' then 1 else 0)
      \<and> jd_cscaCount j' + jd_dscCount j' + jd_dscNcCount j' = jd_cscaCount j + jd_dscCount j + jd_dscNcCount j + 1)"

lemma judged_chain:
  assumes "\<not> vr_trustChainValid (jd_record j1)" "jd_stats j1 = jd_stats j"
    "jd_cscaCount j1 + jd_dscCount j1 + jd_dscNcCount j1 = jd_cscaCount j + jd_dscCount j + jd_dscNcCount j + 1"
  shows "judged j (chain_verdict m e v j1)"
  using assms by (simp add: judged_def Let_def chain_verdict_def verdict_defs)

lemma judged_csca: "judged j (csca_branch L (Some c) j)"
  using csca_validation_fields(2) [of L c] by (simp add: judged_def Let_def csca_branch_def verdict_defs)

lemma judged_classify: "\<not> vr_trustChainValid (jd_record j) \<Longrightarrow> judged j (classify L prov clk dn T c j)"
  unfolding classify_def nc_branch_def dsc_branch_def link_branch_def Let_def
  by (simp add: judged_csca, intro conjI impI judged_chain) (simp_all add: dsc_record_def)

lemma sum_smap_set:
  "smap_ok m \<Longrightarrow> sum_list (map snd (smap_set k v m)) + (case map_of m k of None \<Rightarrow> 0 | Some n \<Rightarrow> n) = sum_list (map snd m) + (v :: int)"
proof (induction m)
  case (Cons x xs)
  obtain k' v' where x: "x = (k', v')" by (cases x)
  from Cons.prems have xs: "smap_ok xs" and above: "\<forall>y \<in> fst ` set xs. k' < y" by (auto simp: smap_ok_def x)
  show ?case
  proof (cases "k < k'")
    case True
    with above have "map_of xs k = None" by (auto simp: map_of_eq_None_iff)
    with True show ?thesis by (simp add: x less_imp_neq)
  next
    case False
    with Cons.IH [OF xs] show ?thesis by (simp add: x)
  qed
qed simp

lemma sum_bump: "smap_ok m \<Longrightarrow> sum_list (map snd (bump k m)) = sum_list (map snd m) + 1"
  using sum_smap_set [of m k "(case map_of m k of None \<Rightarrow> 0 | Some n \<Rightarrow> n) + 1"] by (simp add: bump_def)

lemma smap_ok_bump: "smap_ok m \<Longrightarrow> smap_ok (bump k m)"
  by (simp add: bump_def smap_ok_set)

lemma judged_status: "judged j j' \<Longrightarrow> good (jd_status j') \<or> jd_status j' = ''INVALID'' \<or> jd_status j' = ''PENDING''"
  by (simp add: judged_def Let_def)

named_theorems count_simps "what each counting step does to the counters"

lemma count_violation_fields [count_simps]:
  "vs_totalCertificates (count_violation b k s) = vs_totalCertificates s"
  "vs_validCount (count_violation b k s) = vs_validCount s"
  "vs_invalidCount (count_violation b k s) = vs_invalidCount s"
  "vs_pendingCount (count_violation b k s) = vs_pendingCount s"
  "vs_expiredValidCount (count_violation b k s) = vs_expiredValidCount s"
  "vs_trustChainValidCount (count_violation b k s) = vs_trustChainValidCount s"
  "vs_trustChainInvalidCount (count_violation b k s) = vs_trustChainInvalidCount s"
  "vs_cscaNotFoundCount (count_violation b k s) = vs_cscaNotFoundCount s"
  "vs_icaoCompliantCount (count_violation b k s) = vs_icaoCompliantCount s"
  "vs_icaoNonCompliantCount (count_violation b k s) = vs_icaoNonCompliantCount s"
  "vs_totalValidationLogCount (count_violation b k s) = vs_totalValidationLogCount s"
  "vs_certificateTypes (count_violation b k s) = vs_certificateTypes s"
  by (simp_all add: count_violation_def)

lemma count_certificate_fields [count_simps]:
  "vs_totalCertificates (count_certificate ty md s) = vs_totalCertificates s + 1"
  "vs_certificateTypes (count_certificate ty md s) = bump ty (vs_certificateTypes s)"
  "vs_validCount (count_certificate ty md s) = vs_validCount s"
  "vs_invalidCount (count_certificate ty md s) = vs_invalidCount s"
  "vs_pendingCount (count_certificate ty md s) = vs_pendingCount s"
  "vs_expiredValidCount (count_certificate ty md s) = vs_expiredValidCount s"
  "vs_trustChainValidCount (count_certificate ty md s) = vs_trustChainValidCount s"
  "vs_trustChainInvalidCount (count_certificate ty md s) = vs_trustChainInvalidCount s"
  "vs_cscaNotFoundCount (count_certificate ty md s) = vs_cscaNotFoundCount s"
  "vs_icaoCompliantCount (count_certificate ty md s) = vs_icaoCompliantCount s"
  "vs_icaoNonCompliantCount (count_certificate ty md s) = vs_icaoNonCompliantCount s"
  "vs_totalValidationLogCount (count_certificate ty md s) = vs_totalValidationLogCount s"
  by (simp_all add: count_certificate_def)

lemma count_compliance_fields [count_simps]:
  "vs_icaoCompliantCount (count_compliance c s) = vs_icaoCompliantCount s + (if ic_isCompliant c then 1 else 0)"
  "vs_icaoNonCompliantCount (count_compliance c s) = vs_icaoNonCompliantCount s + (if ic_isCompliant c then 0 else 1)"
  "vs_totalCertificates (count_compliance c s) = vs_totalCertificates s"
  "vs_validCount (count_compliance c s) = vs_validCount s"
  "vs_invalidCount (count_compliance c s) = vs_invalidCount s"
  "vs_pendingCount (count_compliance c s) = vs_pendingCount s"
  "vs_expiredValidCount (count_compliance c s) = vs_expiredValidCount s"
  "vs_trustChainValidCount (count_compliance c s) = vs_trustChainValidCount s"
  "vs_trustChainInvalidCount (count_compliance c s) = vs_trustChainInvalidCount s"
  "vs_cscaNotFoundCount (count_compliance c s) = vs_cscaNotFoundCount s"
  "vs_totalValidationLogCount (count_compliance c s) = vs_totalValidationLogCount s"
  "vs_certificateTypes (count_compliance c s) = vs_certificateTypes s"
  by (simp_all add: count_compliance_def Let_def count_simps)

lemma count_status_fields [count_simps]:
  "vs_validCount (count_status st m s) = vs_validCount s + (if st = ''VALID'' then 1 else 0)"
  "vs_expiredValidCount (count_status st m s) = vs_expiredValidCount s + (if st = ''EXPIRED_VALID'' then 1 else 0)"
  "vs_invalidCount (count_status st m s) = vs_invalidCount s + (if st = ''INVALID'' then 1 else 0)"
  "vs_pendingCount (count_status st m s) = vs_pendingCount s + (if st = ''PENDING'' then 1 else 0)"
  "vs_totalCertificates (count_status st m s) = vs_totalCertificates s"
  "vs_trustChainValidCount (count_status st m s) = vs_trustChainValidCount s"
  "vs_trustChainInvalidCount (count_status st m s) = vs_trustChainInvalidCount s"
  "vs_cscaNotFoundCount (count_status st m s) = vs_cscaNotFoundCount s"
  "vs_icaoCompliantCount (count_status st m s) = vs_icaoCompliantCount s"
  "vs_icaoNonCompliantCount (count_status st m s) = vs_icaoNonCompliantCount s"
  "vs_totalValidationLogCount (count_status st m s) = vs_totalValidationLogCount s"
  "vs_certificateTypes (count_status st m s) = vs_certificateTypes s"
  by (simp_all add: count_status_def count_reason_def)

lemma count_chain_fields [count_simps]:
  "vs_trustChainValidCount (count_chain st r s) = vs_trustChainValidCount s + (if vr_trustChainValid r then 1 else 0)"
  "vs_trustChainInvalidCount (count_chain st r s) = vs_trustChainInvalidCount s + (if \<not> vr_trustChainValid r \<and> st = ''INVALID'' then 1 else 0)"
  "vs_cscaNotFoundCount (count_chain st r s) = vs_cscaNotFoundCount s + (if st = ''PENDING'' \<and> vr_errorCode r = ''CSCA_NOT_FOUND'' then 1 else 0)"
  "vs_totalCertificates (count_chain st r s) = vs_totalCertificates s"
  "vs_validCount (count_chain st r s) = vs_validCount s"
  "vs_invalidCount (count_chain st r s) = vs_invalidCount s"
  "vs_pendingCount (count_chain st r s) = vs_pendingCount s"
  "vs_expiredValidCount (count_chain st r s) = vs_expiredValidCount s"
  "vs_icaoCompliantCount (count_chain st r s) = vs_icaoCompliantCount s"
  "vs_icaoNonCompliantCount (count_chain st r s) = vs_icaoNonCompliantCount s"
  "vs_totalValidationLogCount (count_chain st r s) = vs_totalValidationLogCount s"
  "vs_certificateTypes (count_chain st r s) = vs_certificateTypes s"
  by (simp_all add: count_chain_def Let_def)

lemma validation_log_fields [count_simps]:
  "vs_totalValidationLogCount (addValidationLog s ts ty cc dn iss st m p e fp) = vs_totalValidationLogCount s + 1"
  "vs_totalCertificates (addValidationLog s ts ty cc dn iss st m p e fp) = vs_totalCertificates s"
  "vs_validCount (addValidationLog s ts ty cc dn iss st m p e fp) = vs_validCount s"
  "vs_invalidCount (addValidationLog s ts ty cc dn iss st m p e fp) = vs_invalidCount s"
  "vs_pendingCount (addValidationLog s ts ty cc dn iss st m p e fp) = vs_pendingCount s"
  "vs_expiredValidCount (addValidationLog s ts ty cc dn iss st m p e fp) = vs_expiredValidCount s"
  "vs_trustChainValidCount (addValidationLog s ts ty cc dn iss st m p e fp) = vs_trustChainValidCount s"
  "vs_trustChainInvalidCount (addValidationLog s ts ty cc dn iss st m p e fp) = vs_trustChainInvalidCount s"
  "vs_cscaNotFoundCount (addValidationLog s ts ty cc dn iss st m p e fp) = vs_cscaNotFoundCount s"
  "vs_icaoCompliantCount (addValidationLog s ts ty cc dn iss st m p e fp) = vs_icaoCompliantCount s"
  "vs_icaoNonCompliantCount (addValidationLog s ts ty cc dn iss st m p e fp) = vs_icaoNonCompliantCount s"
  "vs_certificateTypes (addValidationLog s ts ty cc dn iss st m p e fp) = vs_certificateTypes s"
  by (simp_all add: addValidationLog_def Let_def)

lemma count_judgement_fields:
  fixes ts md s
  assumes "judged j0 j" "jd_record (fst ji) = r" "jd_status (fst ji) = jd_status j"
    "vr_trustChainValid r = vr_trustChainValid (jd_record j)" "vr_errorCode r = vr_errorCode (jd_record j)"
  defines "s' \<equiv> count_judgement ts md ji s"
  shows "vs_totalCertificates s' = vs_totalCertificates s + 1"
    "vs_validCount s' + vs_expiredValidCount s' = vs_validCount s + vs_expiredValidCount s + (if good (jd_status j) then 1 else 0)"
    "vs_invalidCount s' = vs_invalidCount s + (if jd_status j = ''INVALID'' then 1 else 0)"
    "vs_pendingCount s' = vs_pendingCount s + (if jd_status j = ''PENDING'' then 1 else 0)"
    "vs_trustChainValidCount s' = vs_trustChainValidCount s + (if good (jd_status j) then 1 else 0)"
    "vs_trustChainInvalidCount s' = vs_trustChainInvalidCount s + (if jd_status j = ''INVALID'' then 1 else 0)"
    "vs_cscaNotFoundCount s' = vs_cscaNotFoundCount s + (if jd_status j = ''PENDING'' then 1 else 0)"
    "vs_icaoCompliantCount s' + vs_icaoNonCompliantCount s' = vs_icaoCompliantCount s + vs_icaoNonCompliantCount s + 1"
    "vs_totalValidationLogCount s' = vs_totalValidationLogCount s + 1"
    "vs_certificateTypes s' = bump (jd_certType (fst ji)) (vs_certificateTypes s)"
proof -
  have st: "jd_status j = ''VALID'' \<or> jd_status j = ''EXPIRED_VALID'' \<or> jd_status j = ''INVALID'' \<or> jd_status j = ''PENDING''"
    and tc: "vr_trustChainValid r = good (jd_status j)"
    and ec: "jd_status j = ''PENDING'' \<Longrightarrow> vr_errorCode r = ''CSCA_NOT_FOUND''"
    using assms(1,4,5) by (simp_all add: judged_def Let_def)
  show "vs_totalCertificates s' = vs_totalCertificates s + 1"
    "vs_totalValidationLogCount s' = vs_totalValidationLogCount s + 1"
    "vs_certificateTypes s' = bump (jd_certType (fst ji)) (vs_certificateTypes s)"
    "vs_icaoCompliantCount s' + vs_icaoNonCompliantCount s' = vs_icaoCompliantCount s + vs_icaoNonCompliantCount s + 1"
    "vs_validCount s' + vs_expiredValidCount s' = vs_validCount s + vs_expiredValidCount s + (if good (jd_status j) then 1 else 0)"
    "vs_invalidCount s' = vs_invalidCount s + (if jd_status j = ''INVALID'' then 1 else 0)"
    "vs_pendingCount s' = vs_pendingCount s + (if jd_status j = ''PENDING'' then 1 else 0)"
    "vs_trustChainValidCount s' = vs_trustChainValidCount s + (if good (jd_status j) then 1 else 0)"
    "vs_trustChainInvalidCount s' = vs_trustChainInvalidCount s + (if jd_status j = ''INVALID'' then 1 else 0)"
    "vs_cscaNotFoundCount s' = vs_cscaNotFoundCount s + (if jd_status j = ''PENDING'' then 1 else 0)"
    unfolding s'_def count_judgement_def Let_def using tc ec
    by (auto simp: count_simps assms(2,3))
qed

text \<open>C25. The books stay balanced: after every certificate each one counted has exactly one status, one compliance verdict, one
  type and one line in the log; the chain counters are those of the statuses; and the counters of the upload record agree with
  the ones streamed to the browser.\<close>

theorem books_balance:
  assumes "books t"
  shows "books (snd (judge_and_count L prov clk ts uploadId fp dn T c t))"
proof -
  let ?start = "start_judgement uploadId fp T (ta_stats t) (ta_cscaCount t, ta_dscCount t, ta_dscNcCount t)"
  let ?j = "classify L prov clk dn T c ?start"
  let ?ji = "judge L prov clk dn T c ?start"
  let ?s = "count_judgement ts (ct_progress T) ?ji (ta_enhanced t)"
  have j: "judged ?start ?j" by (rule judged_classify) (simp add: start_judgement_def validation_record0_def)
  have ji: "jd_status (fst ?ji) = jd_status ?j" "jd_stats (fst ?ji) = jd_stats ?j" "jd_cscaCount (fst ?ji) = jd_cscaCount ?j"
      "jd_dscCount (fst ?ji) = jd_dscCount ?j" "jd_dscNcCount (fst ?ji) = jd_dscNcCount ?j"
      "vr_trustChainValid (jd_record (fst ?ji)) = vr_trustChainValid (jd_record ?j)"
      "vr_errorCode (jd_record (fst ?ji)) = vr_errorCode (jd_record ?j)"
    by (simp_all add: judge_def Let_def record_compliance_def)
  note f = count_judgement_fields [OF j refl ji(1,6,7), of ts "ct_progress T" "ta_enhanced t"]
  have start: "jd_stats ?start = ta_stats t" "jd_cscaCount ?start = ta_cscaCount t" "jd_dscCount ?start = ta_dscCount t"
      "jd_dscNcCount ?start = ta_dscNcCount t" by (simp_all add: start_judgement_def)
  have "balanced ?s" using assms unfolding books_def balanced_def f
    using judged_status [OF j] by (auto simp: sum_bump smap_ok_bump)
  then show ?thesis using assms j f unfolding books_def judge_and_count_def judged_def Let_def
    by (simp add: ji start)
qed

definition demo_tallies :: tallies where
  "demo_tallies = \<lparr>ta_cscaCount = 0, ta_dscCount = 0, ta_dscNcCount = 0, ta_ldapStoredCount = 0,
     ta_stats = validation_stats0, ta_enhanced = demo_statistics\<rparr>"

lemma books_demo: "books demo_tallies"
  by (simp add: books_def balanced_def demo_tallies_def demo_statistics_def validation_stats0_def smap_ok_def)

lemma books_balance_witness:
  "books (snd (judge_and_count demo_pki demo_provider (\<lambda>_. 0) ''t'' ''u1'' ''ab12'' ''cn=x,dc=data'' demo_texts 0 demo_tallies))"
  by (rule books_balance [OF books_demo])

end
