(* ===== verification/Pg_Session.thy ===== *)
theory Pg_Session
  imports Interfaces "HOL-Library.AList"
begin

text \<open>
  The database session of an upload: \<^verbatim>\<open>shared/lib/database/postgresql_query_executor.cpp\<close> with its batch mode,
  the helpers of \<^verbatim>\<open>query_helpers.cpp\<close>, and what the SQL statements of the upload do to the tables of
  \<^verbatim>\<open>docker/init-scripts/01-core-schema.sql\<close>.  libpq and the server are the record \<open>pg\<close>; \<open>pg_laws\<close> states what the
  PostgreSQL manual promises of transactions: a failed statement aborts its transaction, an aborted
  transaction refuses every statement, \<^verbatim>\<open>COMMIT\<close> of an aborted transaction rolls it back and reports success,
  \<^verbatim>\<open>SAVEPOINT\<close> inside one fails.
\<close>

section \<open>Helpers\<close>

definition boolLiteral :: "string \<Rightarrow> bool \<Rightarrow> string" where
  "boolLiteral dbType v = (if dbType = ''oracle'' then (if v then ''1'' else ''0'') else if v then ''TRUE'' else ''FALSE'')"

definition hexPrefix :: "string \<Rightarrow> string" where
  "hexPrefix dbType = (if dbType = ''oracle'' then [CHR 0x5C, CHR 0x5C, CHR ''x''] else [CHR 0x5C, CHR ''x''])"

text \<open>\<^verbatim>\<open>isInt\<close> and \<^verbatim>\<open>isUInt\<close>: numbers of 32 bits, the unsigned ones cast to \<^verbatim>\<open>int\<close>.  A larger number is cast from
  \<^verbatim>\<open>double\<close>, which C++ leaves undefined; the model reads the default.\<close>

definition json_int :: "int \<Rightarrow> int option" where
  "json_int n = (if - (2 ^ 31) \<le> n \<and> n < 2 ^ 31 then Some n else if 0 \<le> n \<and> n < 2 ^ 32 then Some (n - 2 ^ 32) else None)"

definition getInt :: "json \<Rightarrow> string \<Rightarrow> int \<Rightarrow> int" where
  "getInt json field defaultValue =
     (if \<not> jmember field json then defaultValue
      else case jget field json of
        JNull \<Rightarrow> defaultValue
      | JInt n \<Rightarrow> (case json_int n of Some i \<Rightarrow> i | None \<Rightarrow> defaultValue)
      | JStr s \<Rightarrow> (case stoi 10 s of Inr n \<Rightarrow> n | Inl _ \<Rightarrow> defaultValue)
      | _ \<Rightarrow> defaultValue)"

definition getBool :: "json \<Rightarrow> string \<Rightarrow> bool \<Rightarrow> bool" where
  "getBool json field defaultValue =
     (if \<not> jmember field json then defaultValue
      else case jget field json of
        JNull \<Rightarrow> defaultValue
      | JBool b \<Rightarrow> b
      | JStr s \<Rightarrow> s \<in> {''1'', ''true'', ''TRUE'', ''t'', ''T''}
      | JInt n \<Rightarrow> (case json_int n of Some i \<Rightarrow> i \<noteq> 0 | None \<Rightarrow> defaultValue)
      | _ \<Rightarrow> defaultValue)"

definition scalarToInt :: "json \<Rightarrow> int \<Rightarrow> int" where
  "scalarToInt value defaultValue =
     (case value of
        JNull \<Rightarrow> defaultValue
      | JInt n \<Rightarrow> (case json_int n of Some i \<Rightarrow> i | None \<Rightarrow> defaultValue)
      | JStr s \<Rightarrow> if s = [] then defaultValue else (case stoi 10 s of Inr n \<Rightarrow> n | Inl _ \<Rightarrow> defaultValue)
      | _ \<Rightarrow> defaultValue)"

definition currentTimestamp :: "string \<Rightarrow> string" where
  "currentTimestamp dbType = (if dbType = ''oracle'' then ''SYSTIMESTAMP'' else ''NOW()'')"

definition currentTimestampFormatted :: "string \<Rightarrow> string" where
  "currentTimestampFormatted dbType =
     (let q = [CHR 0x27] in
      (if dbType = ''oracle'' then ''TO_CHAR(SYSTIMESTAMP, '' else ''TO_CHAR(NOW(), '') @ q @ ''YYYY-MM-DD HH24:MI:SS'' @ q @ '')'')"

definition paginationClause :: "string \<Rightarrow> int \<Rightarrow> int \<Rightarrow> string" where
  "paginationClause dbType limit offset =
     (if dbType = ''oracle'' then '' OFFSET '' @ int_dec offset @ '' ROWS FETCH NEXT '' @ int_dec limit @ '' ROWS ONLY''
      else '' LIMIT '' @ int_dec limit @ '' OFFSET '' @ int_dec offset)"

definition limitClause :: "string \<Rightarrow> int \<Rightarrow> string" where
  "limitClause dbType limit =
     (if dbType = ''oracle'' then '' FETCH FIRST '' @ int_dec limit @ '' ROWS ONLY'' else '' LIMIT '' @ int_dec limit)"

definition ilikeCond :: "string \<Rightarrow> string \<Rightarrow> string \<Rightarrow> string" where
  "ilikeCond dbType column paramPlaceholder =
     (if dbType = ''oracle'' then ''UPPER('' @ column @ '') LIKE UPPER('' @ paramPlaceholder @ '')''
      else column @ '' ILIKE '' @ paramPlaceholder)"

definition nonEmptyFilter :: "string \<Rightarrow> string \<Rightarrow> string" where
  "nonEmptyFilter dbType column =
     (if dbType = ''oracle'' then column @ '' IS NOT NULL''
      else column @ '' IS NOT NULL AND '' @ column @ '' != '' @ [CHR 0x27, CHR 0x27])"

definition intervalHours :: "string \<Rightarrow> int \<Rightarrow> string" where
  "intervalHours dbType hours =
     (if dbType = ''oracle'' then ''INTERVAL '' @ [CHR 0x27] @ int_dec hours @ [CHR 0x27] @ '' HOUR''
      else ''INTERVAL '' @ [CHR 0x27] @ int_dec hours @ '' hours'' @ [CHR 0x27])"

section \<open>The statements of an upload\<close>

datatype sql =
    SELECT_fingerprints | SELECT_cscas | SELECT_certificate | SELECT_crl
  | INSERT_certificate | INSERT_validation | UPDATE_certificate_ldap
  | INSERT_crl | UPDATE_crl_upload | INSERT_revoked | UPDATE_crl_ldap
  | UPDATE_progress | UPDATE_statistics
  | INSERT_certificate_duplicate | UPDATE_duplicate_count

type_synonym sql_params = "string option list"

text \<open>An empty parameter is sent as \<^verbatim>\<open>NULL\<close>, a parameter ends at its first NUL.\<close>

definition sql_params :: "string list \<Rightarrow> sql_params" where
  "sql_params ps = map (\<lambda>p. if p = [] then None else Some (c_str p)) ps"

definition param :: "nat \<Rightarrow> sql_params \<Rightarrow> string option" where
  "param i ps = (if i < length ps then ps ! i else None)"

text \<open>The tables: a row is the parameters it was inserted with; the ID of a certificate is chosen by the server.\<close>

record tables =
  tb_certificates :: "(string \<times> sql_params) list"
  tb_ldap_dns :: "(string \<times> string option) list"
  tb_validations :: "sql_params list"
  tb_crls :: "sql_params list"
  tb_crl_ldap_dns :: "(string \<times> string option) list"
  tb_revoked :: "sql_params list"
  tb_uploads :: "(sql \<times> sql_params) list"
  tb_duplicates :: "sql_params list"
  tb_duplicate_counts :: "(string \<times> nat) list"

text \<open>\<^verbatim>\<open>ON CONFLICT ... DO NOTHING\<close> of the insertions into \<^verbatim>\<open>validation_result\<close>, \<^verbatim>\<open>crl\<close> and
  \<^verbatim>\<open>certificate_duplicates\<close>.\<close>

definition validation_conflict :: "sql_params \<Rightarrow> tables \<Rightarrow> bool" where
  "validation_conflict ps t =
     (param 0 ps \<noteq> None \<and> param 1 ps \<noteq> None
      \<and> list_ex (\<lambda>r. param 0 r = param 0 ps \<and> param 1 r = param 1 ps) (tb_validations t))"

definition crl_conflict :: "sql_params \<Rightarrow> tables \<Rightarrow> bool" where
  "crl_conflict ps t = list_ex (\<lambda>r. param 0 r = param 0 ps \<or> param 7 r = param 7 ps) (tb_crls t)"

definition duplicate_conflict :: "sql_params \<Rightarrow> tables \<Rightarrow> bool" where
  "duplicate_conflict ps t =
     list_ex (\<lambda>r. param 0 r = param 0 ps \<and> param 1 r = param 1 ps \<and> param 2 r = param 2 ps) (tb_duplicates t)"

fun apply_sql :: "sql \<Rightarrow> sql_params \<Rightarrow> tables \<Rightarrow> tables" where
  "apply_sql INSERT_validation ps t =
     (if validation_conflict ps t then t else t\<lparr>tb_validations := tb_validations t @ [ps]\<rparr>)"
| "apply_sql UPDATE_certificate_ldap ps t =
     (case param 2 ps of
        Some cid \<Rightarrow> if cid \<in> fst ` set (tb_certificates t)
                 then t\<lparr>tb_ldap_dns := AList.update cid (param 1 ps) (tb_ldap_dns t)\<rparr> else t
      | None \<Rightarrow> t)"
| "apply_sql INSERT_crl ps t = (if crl_conflict ps t then t else t\<lparr>tb_crls := tb_crls t @ [ps]\<rparr>)"
| "apply_sql UPDATE_crl_upload ps t =
     t\<lparr>tb_crls := map (\<lambda>r. if param 0 r = param 1 ps then r[1 := param 0 ps] else r) (tb_crls t)\<rparr>"
| "apply_sql INSERT_revoked ps t = t\<lparr>tb_revoked := tb_revoked t @ [ps]\<rparr>"
| "apply_sql UPDATE_crl_ldap ps t =
     (case param 1 ps of
        Some cid \<Rightarrow> if list_ex (\<lambda>r. param 0 r = Some cid) (tb_crls t)
                 then t\<lparr>tb_crl_ldap_dns := AList.update cid (param 0 ps) (tb_crl_ldap_dns t)\<rparr> else t
      | None \<Rightarrow> t)"
| "apply_sql UPDATE_progress ps t = t\<lparr>tb_uploads := tb_uploads t @ [(UPDATE_progress, ps)]\<rparr>"
| "apply_sql UPDATE_statistics ps t = t\<lparr>tb_uploads := tb_uploads t @ [(UPDATE_statistics, ps)]\<rparr>"
| "apply_sql INSERT_certificate_duplicate ps t =
     (if duplicate_conflict ps t then t else t\<lparr>tb_duplicates := tb_duplicates t @ [ps]\<rparr>)"
| "apply_sql UPDATE_duplicate_count ps t =
     (case param 1 ps of
        Some cid \<Rightarrow> if cid \<in> fst ` set (tb_certificates t)
                 then t\<lparr>tb_duplicate_counts := AList.update cid
                        (Suc (case map_of (tb_duplicate_counts t) cid of None \<Rightarrow> 0 | Some k \<Rightarrow> k)) (tb_duplicate_counts t)\<rparr> else t
      | None \<Rightarrow> t)"
| "apply_sql _ ps t = t"

text \<open>The constraints of the schema: foreign keys and columns that are not null.\<close>

fun permitted :: "sql \<Rightarrow> sql_params \<Rightarrow> tables \<Rightarrow> bool" where
  "permitted INSERT_validation ps t =
     ((\<forall>i \<in> {2, 4, 5, 18}. param i ps \<noteq> None)
      \<and> (case param 1 ps of Some cid \<Rightarrow> cid \<in> fst ` set (tb_certificates t) | None \<Rightarrow> True))"
| "permitted INSERT_crl ps t = (\<forall>i \<in> {2, 3, 4, 7, 8}. param i ps \<noteq> None)"
| "permitted INSERT_revoked ps t =
     (param 2 ps \<noteq> None \<and> param 3 ps \<noteq> None
      \<and> (case param 1 ps of Some cid \<Rightarrow> list_ex (\<lambda>r. param 0 r = Some cid) (tb_crls t) | None \<Rightarrow> True))"
| "permitted INSERT_certificate ps t =
     ((\<forall>i \<in> {1, 2, 3, 4, 5, 6, 9}. param i ps \<noteq> None)
      \<and> \<not> list_ex (\<lambda>(i, r). param 1 r = param 1 ps \<and> param 6 r = param 6 ps) (tb_certificates t))"
| "permitted INSERT_certificate_duplicate ps t =
     ((\<forall>i \<in> {0, 1, 2}. param i ps \<noteq> None)
      \<and> (case param 0 ps of Some cid \<Rightarrow> cid \<in> fst ` set (tb_certificates t) | None \<Rightarrow> True))"
| "permitted _ ps t = True"

section \<open>The server\<close>

type_synonym sql_row = "(string \<times> string) list"

definition column :: "string \<Rightarrow> sql_row \<Rightarrow> string" where
  "column k r = (case map_of r k of None \<Rightarrow> [] | Some v \<Rightarrow> v)"

text \<open>\<open>pg_pool\<close> is a statement on a connection of the pool, with a transaction of its own; \<open>pg_pinned\<close> one on the pinned
  connection.  \<^term>\<open>Inl\<close> is an exception of the executor, thrown when there is no connection or the status is not success.\<close>

record 'd pg =
  pg_acquire :: "'d \<Rightarrow> bool \<times> 'd"
  pg_pool :: "sql \<Rightarrow> sql_params \<Rightarrow> 'd \<Rightarrow> sql_row list res \<times> 'd"
  pg_pinned :: "sql \<Rightarrow> sql_params \<Rightarrow> 'd \<Rightarrow> sql_row list res \<times> 'd"
  pg_begin :: "'d \<Rightarrow> bool \<times> 'd"
  pg_commit :: "'d \<Rightarrow> bool \<times> 'd"
  pg_savepoint :: "'d \<Rightarrow> bool \<times> 'd"
  pg_rollback_to :: "'d \<Rightarrow> bool \<times> 'd"

type_synonym writes = "(sql \<times> sql_params) list"

datatype tx = Idle | Open writes "writes option" | Aborted "writes option"

definition effective :: "tables \<Rightarrow> writes \<Rightarrow> tables" where
  "effective t ws = foldl (\<lambda>t (q, ps). apply_sql q ps t) t ws"

definition pinned_law :: "sql \<Rightarrow> sql_params \<Rightarrow> tables \<times> tx \<Rightarrow> sql_row list res \<Rightarrow> tables \<times> tx \<Rightarrow> bool" where
  "pinned_law q ps v r v' =
     (case snd v of
        Idle \<Rightarrow> snd v' = Idle
      | Aborted sp \<Rightarrow> (\<exists>e. r = Inl e) \<and> v' = v
      | Open ws sp \<Rightarrow>
          (case r of
             Inl _ \<Rightarrow> v' = (fst v, Aborted sp)
           | Inr _ \<Rightarrow> permitted q ps (effective (fst v) ws) \<and> v' = (fst v, Open (ws @ [(q, ps)]) sp)))"

definition pool_law :: "sql \<Rightarrow> sql_params \<Rightarrow> tables \<times> tx \<Rightarrow> sql_row list res \<Rightarrow> tables \<times> tx \<Rightarrow> bool" where
  "pool_law q ps v r v' =
     (snd v' = snd v
      \<and> (case r of
           Inl _ \<Rightarrow> fst v' = fst v
         | Inr rows \<Rightarrow> permitted q ps (fst v)
             \<and> (if q = INSERT_certificate then
                  \<exists>i. i \<noteq> [] \<and> CHR 0x00 \<notin> set i \<and> i \<notin> fst ` set (tb_certificates (fst v)) \<and> rows = [[(''id'', i)]]
                    \<and> fst v' = (fst v)\<lparr>tb_certificates := tb_certificates (fst v) @ [(i, ps)]\<rparr>
                else fst v' = apply_sql q ps (fst v))
             \<and> (q = SELECT_crl \<longrightarrow> map (\<lambda>r. (Some (column ''id'' r))) rows
                  = map (param 0) (filter (\<lambda>r. param 7 r = param 0 ps) (tb_crls (fst v))))))"

text \<open>Each answer of the session.  A statement that is refused, a \<^verbatim>\<open>COMMIT\<close> among them, had no effect on the tables;
  the loss of a reply after the statement took effect is not covered.\<close>

definition pg_laws :: "'d pg \<Rightarrow> ('d \<Rightarrow> tables \<times> tx) \<Rightarrow> bool" where
  "pg_laws P view =
     ((\<forall>d. view (snd (pg_acquire P d)) = view d)
      \<and> (\<forall>q ps d. pinned_law q ps (view d) (fst (pg_pinned P q ps d)) (view (snd (pg_pinned P q ps d))))
      \<and> (\<forall>q ps d. pool_law q ps (view d) (fst (pg_pool P q ps d)) (view (snd (pg_pool P q ps d))))
      \<and> (\<forall>d. snd (view d) = Idle \<longrightarrow>
           view (snd (pg_begin P d)) = (fst (view d), if fst (pg_begin P d) then Open [] None else Idle))
      \<and> (\<forall>d. view (snd (pg_commit P d)) =
           ((case snd (view d) of Open ws sp \<Rightarrow> if fst (pg_commit P d) then effective (fst (view d)) ws else fst (view d)
             | _ \<Rightarrow> fst (view d)), Idle))
      \<and> (\<forall>d. view (snd (pg_savepoint P d)) =
           (fst (view d), case snd (view d) of
              Open ws sp \<Rightarrow> if fst (pg_savepoint P d) then Open ws (Some ws) else Aborted sp
            | t \<Rightarrow> t))
      \<and> (\<forall>d. view (snd (pg_rollback_to P d)) =
           (fst (view d), case snd (view d) of
              Open ws (Some s) \<Rightarrow> if fst (pg_rollback_to P d) then Open s (Some s) else Aborted (Some s)
            | Open ws None \<Rightarrow> Aborted None
            | Aborted (Some s) \<Rightarrow> if fst (pg_rollback_to P d) then Open s (Some s) else Aborted (Some s)
            | t \<Rightarrow> t)))"

section \<open>The executor\<close>

text \<open>\<open>ex_batchConn\<close>: the pinned connection exists and is valid.\<close>

record 'd executor =
  ex_db :: 'd
  ex_batchMode :: bool
  ex_batchConn :: bool

definition executeQuery :: "'d pg \<Rightarrow> sql \<Rightarrow> string list \<Rightarrow> 'd executor \<Rightarrow> sql_row list res \<times> 'd executor" where
  "executeQuery P query params ex =
     (case pg_pool P query (sql_params params) (ex_db ex) of (r, d) \<Rightarrow> (r, ex\<lparr>ex_db := d\<rparr>))"

definition executeCommand :: "'d pg \<Rightarrow> sql \<Rightarrow> string list \<Rightarrow> 'd executor \<Rightarrow> sql_row list res \<times> 'd executor" where
  "executeCommand P query params ex =
     (if ex_batchMode ex \<and> ex_batchConn ex
      then (case pg_pinned P query (sql_params params) (ex_db ex) of (r, d) \<Rightarrow> (r, ex\<lparr>ex_db := d\<rparr>))
      else (case pg_pool P query (sql_params params) (ex_db ex) of (r, d) \<Rightarrow> (r, ex\<lparr>ex_db := d\<rparr>)))"

definition beginBatch :: "'d pg \<Rightarrow> 'd executor \<Rightarrow> unit res \<times> 'd executor" where
  "beginBatch P ex =
     (if ex_batchMode ex then (Inr (), ex)
      else case pg_acquire P (ex_db ex) of
        (False, d) \<Rightarrow> (Inr (), ex\<lparr>ex_db := d, ex_batchConn := False\<rparr>)
      | (True, d) \<Rightarrow>
          (case pg_begin P d of
             (False, d) \<Rightarrow> (Inl (Runtime_Error ''[PostgreSQLQueryExecutor] BEGIN failed''), ex\<lparr>ex_db := d, ex_batchConn := False\<rparr>)
           | (True, d) \<Rightarrow> (Inr (), ex\<lparr>ex_db := d, ex_batchMode := True, ex_batchConn := True\<rparr>)))"

definition endBatch :: "'d pg \<Rightarrow> 'd executor \<Rightarrow> 'd executor" where
  "endBatch P ex =
     (if \<not> ex_batchMode ex then ex
      else
        let d = (if ex_batchConn ex then snd (pg_commit P (ex_db ex)) else ex_db ex)
        in ex\<lparr>ex_db := d, ex_batchMode := False, ex_batchConn := False\<rparr>)"

definition savepoint :: "'d pg \<Rightarrow> 'd executor \<Rightarrow> 'd executor" where
  "savepoint P ex =
     (if \<not> ex_batchMode ex \<or> \<not> ex_batchConn ex then ex else ex\<lparr>ex_db := snd (pg_savepoint P (ex_db ex))\<rparr>)"

definition rollbackToSavepoint :: "'d pg \<Rightarrow> 'd executor \<Rightarrow> 'd executor" where
  "rollbackToSavepoint P ex =
     (if \<not> ex_batchMode ex \<or> \<not> ex_batchConn ex then ex else ex\<lparr>ex_db := snd (pg_rollback_to P (ex_db ex))\<rparr>)"

end
