(* ===== verification/Upload_Batch.thy ===== *)
theory Upload_Batch
  imports Upload_Verdict Pg_Session Ldap_Storage
begin

text \<open>
  Storing an uploaded LDIF file: \<^verbatim>\<open>parseCertificateEntry\<close>, \<^verbatim>\<open>parseCrlEntry\<close> and
  \<^verbatim>\<open>processEntries\<close> of \<^verbatim>\<open>services/pkd-management/src/ldif_processor.cpp\<close>, and the repositories they write
  through (\<^verbatim>\<open>certificate_repository.cpp\<close>, \<^verbatim>\<open>crl_repository.cpp\<close>, \<^verbatim>\<open>validation_repository.cpp\<close>,
  \<^verbatim>\<open>upload_repository.cpp\<close>) for PostgreSQL.  Certificates are inserted on connections of the pool, everything else on
  the pinned connection of the batch.
\<close>

section \<open>The parts of an upload\<close>

record ldif_crl =
  cl_issuerDn :: string
  cl_thisUpdate :: string
  cl_nextUpdate :: string
  cl_crlNumber :: string
  cl_revoked :: "(string \<times> string \<times> int option) list"

text \<open>What the upload calls: OpenSSL, the clock and the random numbers (indexed by the entry and by the draw), the directory
  and the database.\<close>

record ('c, 'k, 't, 'd, 'l) surroundings =
  ev_ssl :: "('c x509_ptr, 'k, 't) openssl"
  ev_d2i :: "byte list \<Rightarrow> 'c option"
  ev_leaf :: "'c \<Rightarrow> 'c x509_ptr"
  ev_texts :: "'c \<Rightarrow> cert_texts"
  ev_metadata :: "'c \<Rightarrow> x509_metadata"
  ev_d2i_crl :: "byte list \<Rightarrow> ldif_crl option"
  ev_sha256 :: "byte list \<Rightarrow> byte list option"
  ev_clock :: "nat \<Rightarrow> nat \<Rightarrow> int"
  ev_timestamp :: "nat \<Rightarrow> string"
  ev_random :: "nat \<Rightarrow> 64 word \<times> 64 word"
  ev_directory :: "'l ldap_store"
  ev_entry_reader :: entry_reader
  ev_config :: storage_config
  ev_connected :: bool
  ev_pg :: "'d pg"

record ('d, 'l) upload =
  up_executor :: "'d executor"
  up_directory :: 'l
  up_fingerprintCacheLoaded :: bool
  up_fingerprintCache :: "string \<Rightarrow> (string \<times> string) option"
  up_csca :: csca_cache
  up_tallies :: tallies
  up_crlCount :: int
  up_ldapCrlStoredCount :: int
  up_mlCount :: int
  up_mlscCount :: int
  up_ldapMlStoredCount :: int
  up_draws :: nat
  up_sent :: "progress list"

abbreviation dbType :: string where
  "dbType \<equiv> ''postgres''"

definition query :: "('c, 'k, 't, 'd, 'l) surroundings \<Rightarrow> sql \<Rightarrow> string list \<Rightarrow> ('d, 'l) upload \<Rightarrow> sql_row list res \<times> ('d, 'l) upload" where
  "query E q ps w = (case executeQuery (ev_pg E) q ps (up_executor w) of (r, ex) \<Rightarrow> (r, w\<lparr>up_executor := ex\<rparr>))"

definition command :: "('c, 'k, 't, 'd, 'l) surroundings \<Rightarrow> sql \<Rightarrow> string list \<Rightarrow> ('d, 'l) upload \<Rightarrow> sql_row list res \<times> ('d, 'l) upload" where
  "command E q ps w = (case executeCommand (ev_pg E) q ps (up_executor w) of (r, ex) \<Rightarrow> (r, w\<lparr>up_executor := ex\<rparr>))"

text \<open>\<^verbatim>\<open>try { executeCommand } catch\<close>: the repositories log the exception and go on.\<close>

definition try_command :: "('c, 'k, 't, 'd, 'l) surroundings \<Rightarrow> sql \<Rightarrow> string list \<Rightarrow> ('d, 'l) upload \<Rightarrow> ('d, 'l) upload" where
  "try_command E q ps w = snd (command E q ps w)"

definition add_error_to :: "('c, 'k, 't, 'd, 'l) surroundings \<Rightarrow> nat \<Rightarrow> string \<Rightarrow> string \<Rightarrow> string \<Rightarrow> string \<Rightarrow> string
    \<Rightarrow> string \<Rightarrow> ('d, 'l) upload \<Rightarrow> ('d, 'l) upload" where
  "add_error_to E n errorType entryDn certificateDn cc ty message w =
     w\<lparr>up_tallies := (up_tallies w)\<lparr>ta_enhanced :=
        addProcessingError (ta_enhanced (up_tallies w)) (ev_timestamp E n) errorType entryDn certificateDn cc ty message\<rparr>\<rparr>"

section \<open>The certificate repository\<close>

definition preloadExistingFingerprints :: "('c, 'k, 't, 'd, 'l) surroundings \<Rightarrow> ('d, 'l) upload \<Rightarrow> ('d, 'l) upload" where
  "preloadExistingFingerprints E w =
     (case query E SELECT_fingerprints [] w of
        (Inl e, w) \<Rightarrow> w\<lparr>up_fingerprintCacheLoaded := False\<rparr>
      | (Inr rows, w) \<Rightarrow>
          w\<lparr>up_fingerprintCache := foldl (\<lambda>m row. let fp = column ''fingerprint_sha256'' row in
                if fp \<noteq> [] then m(fp \<mapsto> (column ''id'' row, column ''first_upload_id'' row)) else m) (\<lambda>_. None) rows,
            up_fingerprintCacheLoaded := True\<rparr>)"

definition addToFingerprintCache :: "string \<Rightarrow> string \<Rightarrow> string \<Rightarrow> ('d, 'l) upload \<Rightarrow> ('d, 'l) upload" where
  "addToFingerprintCache fingerprint cid firstUploadId w =
     w\<lparr>up_fingerprintCache := (up_fingerprintCache w)(fingerprint \<mapsto> (cid, firstUploadId))\<rparr>"

definition isFingerprintCached :: "string \<Rightarrow> ('d, 'l) upload \<Rightarrow> bool" where
  "isFingerprintCached fingerprint w = (up_fingerprintCacheLoaded w \<and> up_fingerprintCache w fingerprint \<noteq> None)"

definition pg_array :: "string list \<Rightarrow> string" where
  "pg_array xs = (let s = join '','' xs in if s = [] then ''{}'' else ''{'' @ s @ ''}'')"

definition or_empty :: "string option \<Rightarrow> string" where
  "or_empty v = (case v of None \<Rightarrow> [] | Some s \<Rightarrow> s)"

definition hex_column :: "byte list \<Rightarrow> string" where
  "hex_column bytes = hexPrefix dbType @ bytes_hex bytes"

definition insert_params :: "string \<Rightarrow> string \<Rightarrow> string \<Rightarrow> cert_texts \<Rightarrow> string \<Rightarrow> byte list \<Rightarrow> string \<Rightarrow> string
    \<Rightarrow> x509_metadata \<Rightarrow> string list" where
  "insert_params uploadId certType countryCode T fingerprint certData validationStatus validationMessage md =
     [uploadId, certType, countryCode, ct_subjectDn T, ct_issuerDn T, ct_serialNumber T, fingerprint,
      ct_notBefore T, ct_notAfter T, hex_column certData, validationStatus, validationMessage,
      int_dec (xm_version md), xm_signatureAlgorithm md, xm_signatureHashAlgorithm md, xm_publicKeyAlgorithm md,
      (if int_dec (xm_publicKeySize md) = ''0'' then [] else int_dec (xm_publicKeySize md)), or_empty (xm_publicKeyCurve md),
      pg_array (xm_keyUsage md), pg_array (xm_extendedKeyUsage md), boolLiteral dbType (xm_isCA md),
      (case xm_pathLenConstraint md of None \<Rightarrow> [] | Some n \<Rightarrow> int_dec n),
      or_empty (xm_subjectKeyIdentifier md), or_empty (xm_authorityKeyIdentifier md),
      pg_array (xm_crlDistributionPoints md), or_empty (xm_ocspResponderUrl md), boolLiteral dbType (xm_isSelfSigned md)]"

text \<open>The new certificate: the second half of \<^verbatim>\<open>saveCertificateWithDuplicateCheck\<close>.\<close>

definition insert_certificate :: "('c, 'k, 't, 'd, 'l) surroundings \<Rightarrow> string list \<Rightarrow> string \<Rightarrow> string \<Rightarrow> ('d, 'l) upload
    \<Rightarrow> (string \<times> bool) \<times> ('d, 'l) upload" where
  "insert_certificate E params fingerprint uploadId w =
     (case query E INSERT_certificate params w of
        (Inl e, w) \<Rightarrow> (([], False), w)
      | (Inr [], w) \<Rightarrow> (([], False), w)
      | (Inr (row # _), w) \<Rightarrow>
          let newId = column ''id'' row;
              w = (if up_fingerprintCacheLoaded w then addToFingerprintCache fingerprint newId uploadId w else w)
          in ((newId, False), w))"

definition save_checked :: "('c, 'k, 't, 'd, 'l) surroundings \<Rightarrow> string list \<Rightarrow> string \<Rightarrow> string \<Rightarrow> string \<Rightarrow> ('d, 'l) upload
    \<Rightarrow> (string \<times> bool) \<times> ('d, 'l) upload" where
  "save_checked E params certType fingerprint uploadId w =
     (if up_fingerprintCacheLoaded w then
        (case up_fingerprintCache w fingerprint of
           Some (cid, _) \<Rightarrow> ((cid, True), w)
         | None \<Rightarrow> insert_certificate E params fingerprint uploadId w)
      else
        (case query E SELECT_certificate [certType, fingerprint] w of
           (Inl e, w) \<Rightarrow> (([], False), w)
         | (Inr (row # _), w) \<Rightarrow> ((column ''id'' row, True), w)
         | (Inr [], w) \<Rightarrow> insert_certificate E params fingerprint uploadId w))"

definition saveCertificateWithDuplicateCheck :: "('c, 'k, 't, 'd, 'l) surroundings \<Rightarrow> string \<Rightarrow> string \<Rightarrow> string
    \<Rightarrow> cert_texts \<Rightarrow> string \<Rightarrow> byte list \<Rightarrow> string \<Rightarrow> string \<Rightarrow> x509_metadata \<Rightarrow> ('d, 'l) upload
    \<Rightarrow> (string \<times> bool) \<times> ('d, 'l) upload" where
  "saveCertificateWithDuplicateCheck E uploadId certType countryCode T fingerprint certData status message md w =
     save_checked E (insert_params uploadId certType countryCode T fingerprint certData status message md)
       certType fingerprint uploadId w"

definition updateCertificateLdapStatus :: "('c, 'k, 't, 'd, 'l) surroundings \<Rightarrow> string \<Rightarrow> string \<Rightarrow> ('d, 'l) upload \<Rightarrow> ('d, 'l) upload" where
  "updateCertificateLdapStatus E certificateId ldapDn w =
     try_command E UPDATE_certificate_ldap [boolLiteral dbType True, ldapDn, certificateId] w"

text \<open>\<^verbatim>\<open>findAllCscas\<close>: the rows of the CSCAs with their bytes; a failed query gives no rows.\<close>

definition csca_row :: "sql_row \<Rightarrow> (string \<times> byte list) option" where
  "csca_row row =
     (let subjectDn = column ''subject_dn'' row; hex = column ''certificate_data'' row in
      if subjectDn = [] \<or> hex = [] then None
      else
        let der = (if 2 < length hex \<and> hex ! 0 = CHR 0x5C \<and> hex ! 1 = CHR ''x'' then
                     (let der = hex_pairs (drop 2 hex) in
                      if 2 < length der \<and> der ! 0 = 0x5C \<and> der ! 1 = 0x78
                      then hex_pairs (drop 2 (map char_of_byte der)) else der)
                   else if of_char (hex ! 0) = (0x30 :: nat) then map byte_of_char hex
                   else [])
        in if der = [] then None else Some (subjectDn, der))"

definition findAllCscas :: "('c, 'k, 't, 'd, 'l) surroundings \<Rightarrow> ('d, 'l) upload \<Rightarrow> (string \<times> byte list) list \<times> ('d, 'l) upload" where
  "findAllCscas E w =
     (case query E SELECT_cscas [] w of
        (Inl e, w) \<Rightarrow> ([], w)
      | (Inr rows, w) \<Rightarrow> (List.map_filter csca_row rows, w))"

text \<open>The provider one validation sees: an unloaded cache is loaded at the first lookup.\<close>

definition load_cscas :: "('c, 'k, 't, 'd, 'l) surroundings \<Rightarrow> ('d, 'l) upload \<Rightarrow> ('d, 'l) upload" where
  "load_cscas E w =
     (if cacheLoaded (up_csca w) then w
      else case findAllCscas E w of (rows, w) \<Rightarrow> w\<lparr>up_csca := preloadAllCscas rows (up_csca w)\<rparr>)"

section \<open>The validation and CRL repositories\<close>

definition validation_params :: "validation_record \<Rightarrow> string list" where
  "validation_params r =
     (let b = boolLiteral dbType; na = (\<lambda>s. if s = [] then ''N/A'' else s) in
     [vr_uploadId r, vr_certificateId r, vr_certificateType r, vr_countryCode r, na (vr_subjectDn r), na (vr_issuerDn r),
      vr_serialNumber r, b (vr_trustChainValid r), vr_trustChainMessage r, vr_cscaSubjectDn r, b (vr_cscaFound r),
      b (vr_signatureVerified r), vr_signatureAlgorithm r, b (\<not> vr_isExpired r), vr_notBefore r, vr_notAfter r,
      b (vr_crlCheckStatus r \<noteq> ''NOT_CHECKED''), vr_crlCheckStatus r, vr_validationStatus r,
      b (vr_icaoCompliant r), vr_icaoComplianceLevel r, vr_icaoViolations r, b (vr_icaoKeyUsageCompliant r),
      b (vr_icaoAlgorithmCompliant r), b (vr_icaoKeySizeCompliant r), b (vr_icaoValidityPeriodCompliant r),
      b (vr_icaoExtensionsCompliant r)])"

definition validation_save :: "('c, 'k, 't, 'd, 'l) surroundings \<Rightarrow> validation_record \<Rightarrow> ('d, 'l) upload \<Rightarrow> ('d, 'l) upload" where
  "validation_save E r w = try_command E INSERT_validation (validation_params r) w"

definition draw_uuid :: "('c, 'k, 't, 'd, 'l) surroundings \<Rightarrow> ('d, 'l) upload \<Rightarrow> string \<times> ('d, 'l) upload" where
  "draw_uuid E w = (case ev_random E (up_draws w) of (ab, cd) \<Rightarrow> (generateUuid ab cd, w\<lparr>up_draws := Suc (up_draws w)\<rparr>))"

definition crl_save :: "('c, 'k, 't, 'd, 'l) surroundings \<Rightarrow> string \<Rightarrow> string \<Rightarrow> ldif_crl \<Rightarrow> string \<Rightarrow> byte list
    \<Rightarrow> ('d, 'l) upload \<Rightarrow> string \<times> ('d, 'l) upload" where
  "crl_save E uploadId countryCode C fingerprint crlBinary w =
     (case query E SELECT_crl [fingerprint] w of
        (Inl e, w) \<Rightarrow> ([], w)
      | (Inr (row # _), w) \<Rightarrow>
          let existingId = column ''id'' row in
          if column ''upload_id'' row \<noteq> uploadId then
            (case command E UPDATE_crl_upload [uploadId, existingId] w of
               (Inl e, w) \<Rightarrow> ([], w)
             | (Inr _, w) \<Rightarrow> (existingId, w))
          else (existingId, w)
      | (Inr [], w) \<Rightarrow>
          (case draw_uuid E w of (crlId, w) \<Rightarrow>
             (case command E INSERT_crl [crlId, uploadId, countryCode, cl_issuerDn C, cl_thisUpdate C, cl_nextUpdate C,
                  cl_crlNumber C, fingerprint, hex_column crlBinary] w of
                (Inl e, w) \<Rightarrow> ([], w)
              | (Inr _, w) \<Rightarrow> (crlId, w))))"

definition reason_text :: "int option \<Rightarrow> string" where
  "reason_text code =
     (case code of None \<Rightarrow> ''unspecified''
      | Some n \<Rightarrow>
          if n = 1 then ''keyCompromise'' else if n = 2 then ''cACompromise'' else if n = 3 then ''affiliationChanged''
          else if n = 4 then ''superseded'' else if n = 5 then ''cessationOfOperation''
          else if n = 6 then ''certificateHold'' else ''unspecified'')"

definition saveRevokedCertificate :: "('c, 'k, 't, 'd, 'l) surroundings \<Rightarrow> string \<Rightarrow> string \<times> string \<times> int option
    \<Rightarrow> ('d, 'l) upload \<Rightarrow> ('d, 'l) upload" where
  "saveRevokedCertificate E crlId entry w =
     (case entry of (serialNumber, revocationDate, code) \<Rightarrow>
        (case draw_uuid E w of (rid, w) \<Rightarrow>
           try_command E INSERT_revoked [rid, crlId, serialNumber, revocationDate, reason_text code] w))"

definition crl_updateLdapStatus :: "('c, 'k, 't, 'd, 'l) surroundings \<Rightarrow> string \<Rightarrow> string \<Rightarrow> ('d, 'l) upload \<Rightarrow> ('d, 'l) upload" where
  "crl_updateLdapStatus E crlId ldapDn w = (if ldapDn = [] then w else try_command E UPDATE_crl_ldap [ldapDn, crlId] w)"

definition updateStatistics :: "('c, 'k, 't, 'd, 'l) surroundings \<Rightarrow> string \<Rightarrow> int \<Rightarrow> int \<Rightarrow> int \<Rightarrow> int \<Rightarrow> int \<Rightarrow> int
    \<Rightarrow> ('d, 'l) upload \<Rightarrow> ('d, 'l) upload" where
  "updateStatistics E uploadId cscaCount dscCount dscNcCount crlCount mlscCount mlCount w =
     try_command E UPDATE_statistics [int_dec cscaCount, int_dec dscCount, int_dec dscNcCount, int_dec crlCount,
       int_dec mlscCount, int_dec mlCount, uploadId] w"

definition updateProgress :: "('c, 'k, 't, 'd, 'l) surroundings \<Rightarrow> string \<Rightarrow> nat \<Rightarrow> nat \<Rightarrow> ('d, 'l) upload \<Rightarrow> ('d, 'l) upload" where
  "updateProgress E uploadId totalEntries processedEntries w =
     try_command E UPDATE_progress [nat_dec totalEntries, nat_dec processedEntries, uploadId] w"

section \<open>Entries\<close>

text \<open>The names a CSCA lookup is made for: none for a self-issued certificate, one not yet valid, or one
  without an issuer.\<close>

definition looks_up_cscas :: "('c, 'k, 't, 'd, 'l) surroundings \<Rightarrow> nat \<Rightarrow> cert_texts \<Rightarrow> 'c \<Rightarrow> bool" where
  "looks_up_cscas E n T c =
     (ct_subjectDn T \<noteq> ct_issuerDn T \<and> \<not> isCertificateNotYetValid (ev_ssl E) (ev_clock E n 1) (Some (ev_leaf E c))
      \<and> getIssuerDn (ev_ssl E) (Some (ev_leaf E c)) \<noteq> [])"

definition store_in_directory :: "('c, 'k, 't, 'd, 'l) surroundings \<Rightarrow> nat \<Rightarrow> ldif_entry \<Rightarrow> judgement \<Rightarrow> string \<Rightarrow> byte list
    \<Rightarrow> string \<Rightarrow> ('d, 'l) upload \<Rightarrow> ('d, 'l) upload" where
  "store_in_directory E n entry j fingerprint derBytes certId w =
     (let r = jd_record j;
          ldapCertType = (if jd_certType j = ''CSCA'' \<and> \<not> vr_isSelfSigned r then ''LC'' else jd_certType j)
      in case saveCertificateToLdap (ev_directory E) (ev_entry_reader E) (ev_config E) (up_directory w) ldapCertType
             (vr_countryCode r) (vr_subjectDn r) (vr_serialNumber r) fingerprint derBytes
             (getFirstAttribute entry ''pkdConformanceCode'') (getFirstAttribute entry ''pkdConformanceText'')
             (getFirstAttribute entry ''pkdVersion'') False of
           (ldapDn, l) \<Rightarrow>
             let w = w\<lparr>up_directory := l\<rparr> in
             if ldapDn \<noteq> [] then
               (let w = updateCertificateLdapStatus E certId ldapDn w
                in w\<lparr>up_tallies := (up_tallies w)\<lparr>ta_ldapStoredCount := ta_ldapStoredCount (up_tallies w) + 1\<rparr>\<rparr>)
             else add_error_to E n ''LDAP_SAVE_FAILED'' (le_dn entry) (vr_subjectDn r) (vr_countryCode r) (jd_certType j)
                    (''LDAP save returned empty DN for fingerprint: '' @ take 16 fingerprint) w)"

definition count_duplicate :: "('d, 'l) upload \<Rightarrow> ('d, 'l) upload" where
  "count_duplicate w = w\<lparr>up_tallies := (up_tallies w)\<lparr>ta_enhanced := (ta_enhanced (up_tallies w))
     \<lparr>vs_duplicateCount := vs_duplicateCount (ta_enhanced (up_tallies w)) + 1\<rparr>\<rparr>\<rparr>"

text \<open>What follows the verdict: the row, the record, the entry.\<close>

definition store_judged :: "('c, 'k, 't, 'd, 'l) surroundings \<Rightarrow> nat \<Rightarrow> string \<Rightarrow> ldif_entry \<Rightarrow> cert_texts \<Rightarrow> 'c
    \<Rightarrow> judgement \<Rightarrow> string \<Rightarrow> byte list \<Rightarrow> ('d, 'l) upload \<Rightarrow> bool \<times> ('d, 'l) upload" where
  "store_judged E n uploadId entry T c j fingerprint derBytes w =
     (case saveCertificateWithDuplicateCheck E uploadId (jd_certType j) (vr_countryCode (jd_record j)) T fingerprint derBytes
             (jd_status j) (jd_message j) (ev_metadata E c) w of
        ((certId, isDuplicate), w) \<Rightarrow>
          let w = (if isDuplicate then count_duplicate w else w);
              w = (if \<not> isDuplicate \<and> jd_certType j = ''CSCA'' then w\<lparr>up_csca := invalidateCache (up_csca w)\<rparr> else w)
          in if certId \<noteq> [] then
               (let w = validation_save E ((jd_record j)\<lparr>vr_certificateId := certId\<rparr>) w
                in (True, if ev_connected E then store_in_directory E n entry j fingerprint derBytes certId w else w))
             else
               (False, if \<not> isDuplicate
                  then add_error_to E n ''DB_SAVE_FAILED'' (le_dn entry) (vr_subjectDn (jd_record j)) (vr_countryCode (jd_record j))
                         (jd_certType j) ''Database save returned empty ID'' w
                  else w))"

definition parseCertificateEntry :: "('c, 'k, 't, 'd, 'l) surroundings \<Rightarrow> nat \<Rightarrow> string \<Rightarrow> ldif_entry \<Rightarrow> string
    \<Rightarrow> ('d, 'l) upload \<Rightarrow> bool \<times> ('d, 'l) upload" where
  "parseCertificateEntry E n uploadId entry attrName w =
     (let base64Value = getFirstAttribute entry attrName in
      if base64Value = [] then (False, w)
      else
        let derBytes = base64Decode base64Value in
        if derBytes = [] then
          (False, add_error_to E n ''BASE64_DECODE_FAILED'' (le_dn entry) [] [] []
             (''Base64 decode returned empty for attribute: '' @ attrName) w)
        else
          case ev_d2i E derBytes of
            None \<Rightarrow> (False, add_error_to E n ''CERT_PARSE_FAILED'' (le_dn entry) [] [] []
                      ''Failed to parse X.509 certificate (d2i_X509 returned NULL)'' w)
          | Some c \<Rightarrow>
              let T = ev_texts E c; fingerprint = computeFileHash (ev_sha256 E) derBytes in
              if isFingerprintCached fingerprint w then (True, count_duplicate w)
              else
                let w = (if looks_up_cscas E n T c then load_cscas E w else w) in
                (case judge_and_count (ev_ssl E) (db_provider [] (ev_d2i E) (up_csca w)) (ev_clock E n) (ev_timestamp E n)
                        uploadId fingerprint (le_dn entry) T (ev_leaf E c) (up_tallies w) of
                   (j, t) \<Rightarrow> store_judged E n uploadId entry T c j fingerprint derBytes (w\<lparr>up_tallies := t\<rparr>)))"

definition parseCrlEntry :: "('c, 'k, 't, 'd, 'l) surroundings \<Rightarrow> nat \<Rightarrow> string \<Rightarrow> ldif_entry \<Rightarrow> ('d, 'l) upload
    \<Rightarrow> bool \<times> ('d, 'l) upload" where
  "parseCrlEntry E n uploadId entry w =
     (let base64Value = getFirstAttribute entry ''certificateRevocationList;binary'' in
      if base64Value = [] then (False, w)
      else
        let derBytes = base64Decode base64Value in
        if derBytes = [] then
          (False, add_error_to E n ''BASE64_DECODE_FAILED'' (le_dn entry) [] [] ''CRL'' ''Base64 decode failed for CRL'' w)
        else
          case ev_d2i_crl E derBytes of
            None \<Rightarrow> (False, add_error_to E n ''CRL_PARSE_FAILED'' (le_dn entry) [] [] ''CRL''
                      ''Failed to parse CRL (d2i_X509_CRL returned NULL)'' w)
          | Some C \<Rightarrow>
              let fingerprint = computeFileHash (ev_sha256 E) derBytes; countryCode = extractCountryCode (cl_issuerDn C) in
              (case crl_save E uploadId countryCode C fingerprint derBytes w of
                 (crlId, w) \<Rightarrow>
                   if crlId \<noteq> [] then
                     (let w = w\<lparr>up_crlCount := up_crlCount w + 1\<rparr>;
                          w = foldl (\<lambda>w r. saveRevokedCertificate E crlId r w) w (cl_revoked C)
                      in (True,
                          if ev_connected E then
                            (case saveCrlToLdap (ev_directory E) (ev_config E) (up_directory w) countryCode fingerprint derBytes of
                               (ldapDn, l) \<Rightarrow>
                                 let w = w\<lparr>up_directory := l\<rparr> in
                                 if ldapDn \<noteq> [] then
                                   (let w = crl_updateLdapStatus E crlId ldapDn w
                                    in w\<lparr>up_ldapCrlStoredCount := up_ldapCrlStoredCount w + 1\<rparr>)
                                 else add_error_to E n ''LDAP_SAVE_FAILED'' (le_dn entry) (cl_issuerDn C) countryCode ''CRL''
                                        (''CRL LDAP save returned empty DN for fingerprint: '' @ take 16 fingerprint) w)
                          else w))
                   else
                     (False, add_error_to E n ''DB_SAVE_FAILED'' (le_dn entry) (cl_issuerDn C) countryCode ''CRL''
                        ''CRL database save returned empty ID'' w)))"

section \<open>The loop\<close>

text \<open>Master Lists are handled by \<^verbatim>\<open>parseMasterListEntryV2\<close>, the argument \<open>ml\<close>: it may throw and returns what it adds to the
  counters.\<close>

record ml_counts =
  ms_mlscCount :: int
  ms_ldapMlStoredCount :: int
  ms_cscaNewCount :: int
  ms_ldapCscaStoredCount :: int

type_synonym ('d, 'l) ml_parser = "nat \<Rightarrow> ldif_entry \<Rightarrow> ('d, 'l) upload \<Rightarrow> ml_counts res \<times> ('d, 'l) upload"

definition count_ml :: "ml_counts \<Rightarrow> ('d, 'l) upload \<Rightarrow> ('d, 'l) upload" where
  "count_ml m w = w\<lparr>up_mlCount := up_mlCount w + 1, up_mlscCount := up_mlscCount w + ms_mlscCount m,
     up_ldapMlStoredCount := up_ldapMlStoredCount w + ms_ldapMlStoredCount m,
     up_tallies := (up_tallies w)\<lparr>ta_cscaCount := ta_cscaCount (up_tallies w) + ms_cscaNewCount m,
       ta_ldapStoredCount := ta_ldapStoredCount (up_tallies w) + ms_ldapCscaStoredCount m\<rparr>\<rparr>"

text \<open>The body of the \<^verbatim>\<open>try\<close> and its handler.\<close>

definition entry_body :: "('c, 'k, 't, 'd, 'l) surroundings \<Rightarrow> ('d, 'l) ml_parser \<Rightarrow> nat \<Rightarrow> string \<Rightarrow> ldif_entry
    \<Rightarrow> ('d, 'l) upload \<Rightarrow> unit res \<times> ('d, 'l) upload" where
  "entry_body E ml n uploadId entry w =
     (let w = (if hasAttribute entry ''userCertificate;binary''
               then snd (parseCertificateEntry E n uploadId entry ''userCertificate;binary'' w)
               else if hasAttribute entry ''cACertificate;binary''
               then snd (parseCertificateEntry E n uploadId entry ''cACertificate;binary'' w)
               else w);
          w = (if hasAttribute entry ''certificateRevocationList;binary'' then snd (parseCrlEntry E n uploadId entry w) else w)
      in if hasAttribute entry ''pkdMasterListContent;binary'' \<or> hasAttribute entry ''pkdMasterListContent'' then
           (case ml n entry w of (Inl e, w) \<Rightarrow> (Inl e, w) | (Inr m, w) \<Rightarrow> (Inr (), count_ml m w))
         else (Inr (), w))"

definition exn_text :: "exn \<Rightarrow> string" where
  "exn_text e = (case e of Runtime_Error s \<Rightarrow> s | _ \<Rightarrow> [])"

definition process_entry :: "('c, 'k, 't, 'd, 'l) surroundings \<Rightarrow> ('d, 'l) ml_parser \<Rightarrow> nat \<Rightarrow> string \<Rightarrow> ldif_entry
    \<Rightarrow> ('d, 'l) upload \<Rightarrow> ('d, 'l) upload" where
  "process_entry E ml n uploadId entry w =
     (let w = w\<lparr>up_executor := savepoint (ev_pg E) (up_executor w)\<rparr> in
      case entry_body E ml n uploadId entry w of
        (Inr _, w) \<Rightarrow> w
      | (Inl e, w) \<Rightarrow>
          add_error_to E n ''ENTRY_PROCESSING_EXCEPTION'' (le_dn entry) [] [] [] (''Exception: '' @ exn_text e)
            (w\<lparr>up_executor := rollbackToSavepoint (ev_pg E) (up_executor w)\<rparr>))"

definition in_batch :: "('c, 'k, 't, 'd, 'l) surroundings \<Rightarrow> ('d, 'l) upload \<Rightarrow> unit res \<times> ('d, 'l) upload" where
  "in_batch E w = (case beginBatch (ev_pg E) (up_executor w) of (r, ex) \<Rightarrow> (r, w\<lparr>up_executor := ex\<rparr>))"

definition end_batch :: "('c, 'k, 't, 'd, 'l) surroundings \<Rightarrow> ('d, 'l) upload \<Rightarrow> ('d, 'l) upload" where
  "end_batch E w = w\<lparr>up_executor := endBatch (ev_pg E) (up_executor w)\<rparr>"

text \<open>Every 500 entries: progress, commit, a new batch.\<close>

definition flush_batch :: "('c, 'k, 't, 'd, 'l) surroundings \<Rightarrow> string \<Rightarrow> nat \<Rightarrow> nat \<Rightarrow> ('d, 'l) upload \<Rightarrow> unit res \<times> ('d, 'l) upload" where
  "flush_batch E uploadId processed all w =
     (let t = up_tallies w;
          w = updateProgress E uploadId all processed w;
          w = updateStatistics E uploadId (ta_cscaCount t) (ta_dscCount t) (ta_dscNcCount t) (up_crlCount w) (up_mlscCount w)
                (up_mlCount w) w
      in in_batch E (end_batch E w))"

definition progress_part :: "string \<Rightarrow> int \<Rightarrow> int \<Rightarrow> string list" where
  "progress_part name n all =
     (if 0 < n then [if 0 < all then name @ '' '' @ int_dec n @ ''/'' @ int_dec all else name @ '' '' @ int_dec n] else [])"

definition progress_text :: "(int \<times> int \<times> int) \<Rightarrow> ('d, 'l) upload \<Rightarrow> string" where
  "progress_text totals w =
     (case totals of (totalCerts, totalCrl, totalMl) \<Rightarrow>
      let t = up_tallies w in
      utf8 [0xEC, 0xB2, 0x98, 0xEB, 0xA6, 0xAC, 0x20, 0xEC, 0xA4, 0x91, 0x3A, 0x20]
      @ join '', '' (progress_part ''CSCA'' (ta_cscaCount t) totalCerts @ progress_part ''DSC'' (ta_dscCount t) totalCerts
          @ progress_part ''DSC_NC'' (ta_dscNcCount t) totalCerts @ progress_part ''CRL'' (up_crlCount w) totalCrl
          @ progress_part ''ML'' (up_mlCount w) totalMl))"

definition set_processed :: "('d, 'l) upload \<Rightarrow> ('d, 'l) upload" where
  "set_processed w = (let t = up_tallies w in w\<lparr>up_tallies := t\<lparr>ta_enhanced := (ta_enhanced t)
     \<lparr>vs_processedCount := ta_cscaCount t + ta_dscCount t + ta_dscNcCount t\<rparr>\<rparr>\<rparr>)"

definition send_progress :: "('c, 'k, 't, 'd, 'l) surroundings \<Rightarrow> nat \<Rightarrow> string \<Rightarrow> ProcessingStage \<Rightarrow> nat \<Rightarrow> nat \<Rightarrow> string
    \<Rightarrow> ('d, 'l) upload \<Rightarrow> ('d, 'l) upload" where
  "send_progress E n uploadId stage processed all message w =
     w\<lparr>up_sent := up_sent w @ [progress_with_metadata (ev_clock E n 4) uploadId stage (int processed) (int all) message
         None None (Some (ta_enhanced (up_tallies w)))]\<rparr>"

fun process_loop :: "('c, 'k, 't, 'd, 'l) surroundings \<Rightarrow> ('d, 'l) ml_parser \<Rightarrow> string \<Rightarrow> (int \<times> int \<times> int) \<Rightarrow> nat \<Rightarrow> nat
    \<Rightarrow> ldif_entry list \<Rightarrow> ('d, 'l) upload \<Rightarrow> unit res \<times> ('d, 'l) upload" where
  "process_loop E ml uploadId totals all n [] w = (Inr (), w)"
| "process_loop E ml uploadId totals all n (entry # es) w =
     (let w = process_entry E ml n uploadId entry w; processed = Suc n;
          flushed = (if processed mod 500 = 0 \<or> processed = all then flush_batch E uploadId processed all w else (Inr (), w))
      in case flushed of
           (Inl e, w) \<Rightarrow> (Inl e, w)
         | (Inr _, w) \<Rightarrow>
             let w = (if processed mod 50 = 0 \<or> processed = all then
                        (let message = progress_text totals w
                         in send_progress E n uploadId VALIDATION_IN_PROGRESS processed all message (set_processed w))
                      else w)
             in process_loop E ml uploadId totals all processed es w)"

definition completed_text :: "int \<Rightarrow> string" where
  "completed_text n = utf8 [0xEA, 0xB2, 0x80, 0xEC, 0xA6, 0x9D, 0x20, 0xEC, 0x99, 0x84, 0xEB, 0xA3, 0x8C, 0x3A, 0x20]
     @ int_dec n @ utf8 [0xEA, 0xB0, 0x9C, 0x20, 0xEC, 0x9D, 0xB8, 0xEC, 0xA6, 0x9D, 0xEC, 0x84, 0x9C, 0x20, 0xEC, 0xB2, 0x98,
       0xEB, 0xA6, 0xAC, 0xEB, 0x90, 0xA8]"

definition processEntries :: "('c, 'k, 't, 'd, 'l) surroundings \<Rightarrow> ('d, 'l) ml_parser \<Rightarrow> string \<Rightarrow> (int \<times> int \<times> int)
    \<Rightarrow> ldif_entry list \<Rightarrow> ('d, 'l) upload \<Rightarrow> unit res \<times> ('d, 'l) upload" where
  "processEntries E ml uploadId totals es w =
     (let w = load_cscas E (w\<lparr>up_csca := unloaded\<rparr>);
          w = preloadExistingFingerprints E w
      in case in_batch E w of
           (Inl e, w) \<Rightarrow> (Inl e, w)
         | (Inr _, w) \<Rightarrow>
             (case process_loop E ml uploadId totals (length es) 0 es w of
                (Inl e, w) \<Rightarrow> (Inl e, w)
              | (Inr _, w) \<Rightarrow>
                  let w = set_processed (end_batch E w) in
                  (Inr (), send_progress E (length es) uploadId VALIDATION_COMPLETED (length es) (length es)
                     (completed_text (vs_processedCount (ta_enhanced (up_tallies w)))) w)))"

section \<open>What a batch can change\<close>

text \<open>The committed tables and the transaction an upload sees.\<close>

definition committed :: "('d \<Rightarrow> tables \<times> tx) \<Rightarrow> ('d, 'l) upload \<Rightarrow> tables" where
  "committed view w = fst (view (ex_db (up_executor w)))"

definition transaction :: "('d \<Rightarrow> tables \<times> tx) \<Rightarrow> ('d, 'l) upload \<Rightarrow> tx" where
  "transaction view w = snd (view (ex_db (up_executor w)))"

definition pinned :: "('d, 'l) upload \<Rightarrow> bool" where
  "pinned w = (ex_batchMode (up_executor w) \<and> ex_batchConn (up_executor w))"

fun tx_follows :: "tx \<Rightarrow> tx \<Rightarrow> bool" where
  "tx_follows Idle t = True"
| "tx_follows (Aborted sp) t = (\<exists>sp'. t = Aborted sp')"
| "tx_follows (Open ws sp) t = ((\<exists>ws' sp'. t = Open (ws @ ws') sp') \<or> (\<exists>sp'. t = Aborted sp'))"

lemma tx_follows_refl: "tx_follows t t"
  by (cases t) simp_all

lemma tx_follows_trans: "tx_follows a b \<Longrightarrow> tx_follows b c \<Longrightarrow> tx_follows a c"
  by (cases a; cases b) auto

text \<open>During a batch the committed tables only gain certificates, and the cache knows each of them.\<close>

definition follows :: "('d \<Rightarrow> tables \<times> tx) \<Rightarrow> ('d, 'l) upload \<Rightarrow> ('d, 'l) upload \<Rightarrow> bool" where
  "follows view w w' =
     (pinned w' \<and> up_fingerprintCacheLoaded w' \<and> tx_follows (transaction view w) (transaction view w')
      \<and> (\<forall>fp. isFingerprintCached fp w \<longrightarrow> isFingerprintCached fp w')
      \<and> (\<exists>new. committed view w' = (committed view w)\<lparr>tb_certificates := tb_certificates (committed view w) @ new\<rparr>
           \<and> (\<forall>(i, ps) \<in> set new. \<exists>fp. param 6 ps = Some (c_str fp) \<and> isFingerprintCached fp w')))"

definition ready :: "('d, 'l) upload \<Rightarrow> bool" where
  "ready w = (pinned w \<and> up_fingerprintCacheLoaded w)"

lemma follows_ready: "follows view w w' \<Longrightarrow> ready w'"
  by (simp add: follows_def ready_def)

lemma follows_trans: "follows view a b \<Longrightarrow> follows view b c \<Longrightarrow> follows view a c"
proof -
  assume ab: "follows view a b" and bc: "follows view b c"
  from ab obtain n1 where n1: "committed view b = (committed view a)\<lparr>tb_certificates := tb_certificates (committed view a) @ n1\<rparr>"
      "\<forall>(i, ps) \<in> set n1. \<exists>fp. param 6 ps = Some (c_str fp) \<and> isFingerprintCached fp b"
    unfolding follows_def by blast
  from bc obtain n2 where n2: "committed view c = (committed view b)\<lparr>tb_certificates := tb_certificates (committed view b) @ n2\<rparr>"
      "\<forall>(i, ps) \<in> set n2. \<exists>fp. param 6 ps = Some (c_str fp) \<and> isFingerprintCached fp c"
    unfolding follows_def by blast
  have c: "\<And>fp. isFingerprintCached fp b \<Longrightarrow> isFingerprintCached fp c" using bc unfolding follows_def by blast
  have "committed view c = (committed view a)\<lparr>tb_certificates := tb_certificates (committed view a) @ n1 @ n2\<rparr>"
    using n1(1) n2(1) by simp
  moreover have "\<forall>(i, ps) \<in> set (n1 @ n2). \<exists>fp. param 6 ps = Some (c_str fp) \<and> isFingerprintCached fp c"
    using n1(2) n2(2) c by fastforce
  moreover have "tx_follows (transaction view a) (transaction view c)"
    using ab bc tx_follows_trans unfolding follows_def by blast
  moreover have "pinned c" "up_fingerprintCacheLoaded c" "\<forall>fp. isFingerprintCached fp a \<longrightarrow> isFingerprintCached fp c"
    using ab bc unfolding follows_def by blast+
  ultimately show ?thesis unfolding follows_def by blast
qed

text \<open>Fields the relation does not look at.\<close>

lemma follows_frame:
  "follows view w (w'\<lparr>up_tallies := t\<rparr>) = follows view w w'" "follows view w (w'\<lparr>up_directory := l\<rparr>) = follows view w w'"
  "follows view w (w'\<lparr>up_csca := c\<rparr>) = follows view w w'" "follows view w (w'\<lparr>up_crlCount := k\<rparr>) = follows view w w'"
  "follows view w (w'\<lparr>up_ldapCrlStoredCount := k\<rparr>) = follows view w w'" "follows view w (w'\<lparr>up_draws := d\<rparr>) = follows view w w'"
  "follows view w (w'\<lparr>up_sent := s\<rparr>) = follows view w w'" "follows view w (w'\<lparr>up_mlCount := k\<rparr>) = follows view w w'"
  "follows view w (w'\<lparr>up_mlscCount := k\<rparr>) = follows view w w'"
  "follows view w (w'\<lparr>up_ldapMlStoredCount := k\<rparr>) = follows view w w'"
  by (simp_all add: follows_def pinned_def committed_def transaction_def isFingerprintCached_def)

lemma follows_error: "follows view w (add_error_to E n ty dn cdn cc ct m w') = follows view w w'"
  by (simp add: add_error_to_def follows_frame)

lemma follows_same:
  assumes "ready w'" "committed view w' = committed view w" "tx_follows (transaction view w) (transaction view w')"
    "\<And>fp. isFingerprintCached fp w' = isFingerprintCached fp w"
  shows "follows view w w'"
  unfolding follows_def
proof (intro conjI)
  show "pinned w'" "up_fingerprintCacheLoaded w'" using assms(1) by (simp_all add: ready_def)
  show "tx_follows (transaction view w) (transaction view w')" by (rule assms(3))
  show "\<forall>fp. isFingerprintCached fp w \<longrightarrow> isFingerprintCached fp w'" using assms(4) by simp
  show "\<exists>new. committed view w' = (committed view w)\<lparr>tb_certificates := tb_certificates (committed view w) @ new\<rparr>
      \<and> (\<forall>(i, ps) \<in> set new. \<exists>fp. param 6 ps = Some (c_str fp) \<and> isFingerprintCached fp w')"
    by (rule exI [of _ "[]"]) (simp add: assms(2))
qed

lemma follows_refl: "ready w \<Longrightarrow> follows view w w"
  by (rule follows_same) (simp_all add: tx_follows_refl)

lemma pg_lawsD:
  assumes "pg_laws P view"
  shows "pinned_law q ps (view d) (fst (pg_pinned P q ps d)) (view (snd (pg_pinned P q ps d)))"
    and "pool_law q ps (view d) (fst (pg_pool P q ps d)) (view (snd (pg_pool P q ps d)))"
    and "view (snd (pg_savepoint P d)) = (fst (view d), case snd (view d) of
           Open ws sp \<Rightarrow> if fst (pg_savepoint P d) then Open ws (Some ws) else Aborted sp | t \<Rightarrow> t)"
    and "view (snd (pg_commit P d)) = ((case snd (view d) of
           Open ws sp \<Rightarrow> if fst (pg_commit P d) then effective (fst (view d)) ws else fst (view d) | _ \<Rightarrow> fst (view d)), Idle)"
  using assms unfolding pg_laws_def by blast+

definition same_rest :: "('d, 'l) upload \<Rightarrow> ('d, 'l) upload \<Rightarrow> bool" where
  "same_rest w w' = (up_fingerprintCacheLoaded w' = up_fingerprintCacheLoaded w \<and> up_fingerprintCache w' = up_fingerprintCache w
     \<and> up_directory w' = up_directory w \<and> up_tallies w' = up_tallies w \<and> up_csca w' = up_csca w)"

lemma same_rest_cached: "same_rest w w' \<Longrightarrow> isFingerprintCached fp w' = isFingerprintCached fp w"
  by (simp add: same_rest_def isFingerprintCached_def)

lemma command_law:
  assumes "pg_laws (ev_pg E) view" "ready w" "command E q ps w = (r, w')"
  shows "pinned_law q (sql_params ps) (committed view w, transaction view w) r (committed view w', transaction view w')"
    and "same_rest w w'" and "ready w'"
proof -
  let ?x = "pg_pinned (ev_pg E) q (sql_params ps) (ex_db (up_executor w))"
  have e: "r = fst ?x" "w' = w\<lparr>up_executor := (up_executor w)\<lparr>ex_db := snd ?x\<rparr>\<rparr>"
    using assms(2,3) by (auto simp: command_def executeCommand_def ready_def pinned_def split: prod.splits)
  show "pinned_law q (sql_params ps) (committed view w, transaction view w) r (committed view w', transaction view w')"
    using pg_lawsD(1) [OF assms(1), of q "sql_params ps" "ex_db (up_executor w)"] by (simp add: e committed_def transaction_def)
  show "same_rest w w'" "ready w'" using assms(2) by (simp_all add: e ready_def pinned_def same_rest_def)
qed

lemma query_law:
  assumes "pg_laws (ev_pg E) view" "query E q ps w = (r, w')"
  shows "pool_law q (sql_params ps) (committed view w, transaction view w) r (committed view w', transaction view w')"
    and "same_rest w w'" and "pinned w' = pinned w"
proof -
  let ?x = "pg_pool (ev_pg E) q (sql_params ps) (ex_db (up_executor w))"
  have e: "r = fst ?x" "w' = w\<lparr>up_executor := (up_executor w)\<lparr>ex_db := snd ?x\<rparr>\<rparr>"
    using assms(2) by (auto simp: query_def executeQuery_def split: prod.splits)
  show "pool_law q (sql_params ps) (committed view w, transaction view w) r (committed view w', transaction view w')"
    using pg_lawsD(2) [OF assms(1), of q "sql_params ps" "ex_db (up_executor w)"] by (simp add: e committed_def transaction_def)
  show "same_rest w w'" "pinned w' = pinned w" by (simp_all add: e same_rest_def pinned_def)
qed

lemma pinned_law_follows:
  "pinned_law q ps v r v' \<Longrightarrow> snd v \<noteq> Idle \<Longrightarrow> fst v' = fst v \<and> tx_follows (snd v) (snd v')"
  by (auto simp: pinned_law_def split: tx.splits sum.splits)

definition busy :: "('d \<Rightarrow> tables \<times> tx) \<Rightarrow> ('d, 'l) upload \<Rightarrow> bool" where
  "busy view w = (ready w \<and> transaction view w \<noteq> Idle)"

lemma busy_follows: "busy view w \<Longrightarrow> follows view w w' \<Longrightarrow> busy view w'"
  unfolding busy_def using follows_ready [of view w w'] by (cases "transaction view w") (auto simp: follows_def)

lemma follows_command:
  assumes "pg_laws (ev_pg E) view" "busy view w" "command E q ps w = (r, w')"
  shows "follows view w w'"
proof -
  have w: "ready w" "transaction view w \<noteq> Idle" using assms(2) by (simp_all add: busy_def)
  note c = command_law [OF assms(1) w(1) assms(3)]
  have "committed view w' = committed view w" "tx_follows (transaction view w) (transaction view w')"
    using pinned_law_follows [OF c(1)] w(2) by simp_all
  with follows_same [OF c(3)] show ?thesis using same_rest_cached [OF c(2)] by blast
qed

lemma follows_try:
  "pg_laws (ev_pg E) view \<Longrightarrow> busy view w \<Longrightarrow> follows view w (try_command E q ps w)"
  unfolding try_command_def by (rule follows_command [OF _ _ surjective_pairing])

lemma follows_query:
  assumes "pg_laws (ev_pg E) view" "busy view w" "query E q ps w = (r, w')"
    "q \<in> {SELECT_fingerprints, SELECT_cscas, SELECT_certificate, SELECT_crl}"
  shows "follows view w w'"
proof -
  note l = query_law [OF assms(1,3)]
  have "committed view w' = committed view w" "transaction view w' = transaction view w"
    using l(1) assms(4) by (auto simp: pool_law_def split: sum.splits)
  moreover have "ready w'" using l(2,3) assms(2) by (simp add: ready_def same_rest_def busy_def)
  ultimately show ?thesis using follows_same [of w' view w] same_rest_cached [OF l(2)] tx_follows_refl by metis
qed

lemma param_sql: "i < length ps \<Longrightarrow> param i (sql_params ps) = (if ps ! i = [] then None else Some (c_str (ps ! i)))"
  by (simp add: param_def sql_params_def)

lemma cached_after_add: "up_fingerprintCacheLoaded w \<Longrightarrow> isFingerprintCached fp (addToFingerprintCache fp i u w)"
  "isFingerprintCached fp' w \<Longrightarrow> isFingerprintCached fp' (addToFingerprintCache fp i u w)"
  by (simp_all add: isFingerprintCached_def addToFingerprintCache_def)

text \<open>The three results of the insertion.\<close>

lemma insert_certificate_cases:
  assumes L: "pg_laws (ev_pg E) view" and w: "busy view w"
    and fp: "6 < length params" "params ! 6 = fp" and r: "insert_certificate E params fp u w = ((i, dup), w')"
  obtains (failed) "i = []" "\<not> dup" "follows view w w'" "same_rest w w'" "committed view w' = committed view w"
      "transaction view w' = transaction view w"
    | (inserted) "i \<noteq> []" "CHR 0x00 \<notin> set i" "\<not> dup" "fp \<noteq> []" "follows view w w'" "transaction view w' = transaction view w"
      "committed view w' = (committed view w)\<lparr>tb_certificates := tb_certificates (committed view w) @ [(i, sql_params params)]\<rparr>"
      "up_directory w' = up_directory w" "up_tallies w' = up_tallies w" "up_csca w' = up_csca w"
      "permitted INSERT_certificate (sql_params params) (committed view w)"
proof -
  obtain a w1 where q: "query E INSERT_certificate params w = (a, w1)" by force
  note l = query_law [OF L q]
  have b: "ready w" using w by (simp add: busy_def)
  have b1: "ready w1" using l(2,3) b by (simp add: ready_def same_rest_def)
  show thesis
  proof (cases a)
    case (Inl e)
    then have "committed view w1 = committed view w" "transaction view w1 = transaction view w"
      using l(1) by (simp_all add: pool_law_def)
    moreover have "i = []" "\<not> dup" "w' = w1" using r q Inl by (simp_all add: insert_certificate_def)
    ultimately show thesis
      using failed follows_same [of w1 view w] b1 same_rest_cached [OF l(2)] tx_follows_refl l(2) by metis
  next
    case (Inr rows)
    then obtain j where j: "j \<noteq> []" "CHR 0x00 \<notin> set j" "rows = [[(''id'', j)]]" "permitted INSERT_certificate (sql_params params) (committed view w)"
      "committed view w1 = (committed view w)\<lparr>tb_certificates := tb_certificates (committed view w) @ [(j, sql_params params)]\<rparr>"
      "transaction view w1 = transaction view w"
      using l(1) by (auto simp: pool_law_def)
    let ?w = "addToFingerprintCache fp j u w1"
    have r': "i = j" "\<not> dup" "w' = ?w"
      using r q Inr j(3) b1 by (auto simp: insert_certificate_def column_def ready_def Let_def)
    have "param 6 (sql_params params) \<noteq> None" using j(4) by simp
    then have "fp \<noteq> []" using param_sql [OF fp(1)] fp(2) by (simp split: if_splits)
    then have p6: "param 6 (sql_params params) = Some (c_str fp)" using param_sql [OF fp(1)] fp(2) by simp
    have c: "committed view ?w = committed view w1" "transaction view ?w = transaction view w1"
      by (simp_all add: addToFingerprintCache_def committed_def transaction_def)
    have "follows view w ?w"
      unfolding follows_def
    proof (intro conjI)
      show "pinned ?w" "up_fingerprintCacheLoaded ?w" using b1 by (simp_all add: ready_def pinned_def addToFingerprintCache_def)
      show "tx_follows (transaction view w) (transaction view ?w)" unfolding c j(6) by (rule tx_follows_refl)
      show "\<forall>fp'. isFingerprintCached fp' w \<longrightarrow> isFingerprintCached fp' ?w"
        using cached_after_add(2) same_rest_cached [OF l(2)] by blast
      show "\<exists>new. committed view ?w = (committed view w)\<lparr>tb_certificates := tb_certificates (committed view w) @ new\<rparr>
          \<and> (\<forall>(i, ps) \<in> set new. \<exists>fp. param 6 ps = Some (c_str fp) \<and> isFingerprintCached fp ?w)"
        unfolding c j(5) using p6 cached_after_add(1) [of w1 fp j u] b1
        by (intro exI [of _ "[(j, sql_params params)]"]) (auto simp: ready_def)
    qed
    moreover have "up_directory ?w = up_directory w" "up_tallies ?w = up_tallies w" "up_csca ?w = up_csca w"
      using l(2) by (simp_all add: addToFingerprintCache_def same_rest_def)
    ultimately show thesis using inserted r' j c \<open>fp \<noteq> []\<close> by metis
  qed
qed

lemma insert_params_fp: "6 < length (insert_params u ty cc T fp der st m md)" "insert_params u ty cc T fp der st m md ! 6 = fp"
  by (simp_all add: insert_params_def)

lemma follows_checked:
  assumes "pg_laws (ev_pg E) view" "busy view w" "6 < length params" "params ! 6 = fp"
    "save_checked E params ty fp u w = ((i, dup), w')"
  shows "follows view w w'"
proof -
  have b: "ready w" using assms(2) by (simp add: busy_def)
  show ?thesis
  proof (cases "up_fingerprintCache w fp")
    case None
    then have "insert_certificate E params fp u w = ((i, dup), w')" using assms(5) b by (simp add: save_checked_def ready_def)
    then show ?thesis by (rule insert_certificate_cases [OF assms(1-4)])
  next
    case (Some x)
    then have "w' = w" using assms(5) b by (auto simp: save_checked_def ready_def split: prod.splits)
    then show ?thesis using follows_refl b by blast
  qed
qed

lemma follows_save:
  assumes "pg_laws (ev_pg E) view" "busy view w"
    "saveCertificateWithDuplicateCheck E u ty cc T fp der st m md w = ((i, dup), w')"
  shows "follows view w w'"
  using follows_checked [OF assms(1,2) insert_params_fp] assms(3) by (simp add: saveCertificateWithDuplicateCheck_def)

lemma follows_load:
  assumes "pg_laws (ev_pg E) view" "busy view w"
  shows "follows view w (load_cscas E w)"
proof -
  obtain a w1 where q: "query E SELECT_cscas [] w = (a, w1)" by force
  have "follows view w w1" by (rule follows_query [OF assms q]) simp
  then show ?thesis using follows_refl [of w view] assms(2) q
    by (auto simp: load_cscas_def findAllCscas_def busy_def follows_frame split: sum.split)
qed

lemma follows_update_ldap:
  "pg_laws (ev_pg E) view \<Longrightarrow> busy view w \<Longrightarrow> follows view w (updateCertificateLdapStatus E i dn w)"
  unfolding updateCertificateLdapStatus_def by (rule follows_try)

lemma busy_frame:
  "busy view (w\<lparr>up_tallies := t\<rparr>) = busy view w" "busy view (w\<lparr>up_directory := l\<rparr>) = busy view w"
  "busy view (w\<lparr>up_csca := c\<rparr>) = busy view w" "busy view (w\<lparr>up_draws := d\<rparr>) = busy view w"
  "busy view (w\<lparr>up_crlCount := k\<rparr>) = busy view w"
  by (simp_all add: busy_def ready_def pinned_def transaction_def)

lemma follows_start:
  "follows view (w\<lparr>up_tallies := t\<rparr>) = follows view w" "follows view (w\<lparr>up_directory := l\<rparr>) = follows view w"
  "follows view (w\<lparr>up_csca := c\<rparr>) = follows view w" "follows view (w\<lparr>up_draws := d\<rparr>) = follows view w"
  "follows view (w\<lparr>up_crlCount := k\<rparr>) = follows view w"
  by (simp_all add: fun_eq_iff follows_def committed_def transaction_def isFingerprintCached_def)

lemma follows_directory:
  assumes "pg_laws (ev_pg E) view" "busy view w"
  shows "follows view w (store_in_directory E n entry j fp der i w)"
proof -
  have u: "follows view w (updateCertificateLdapStatus E i dn (w\<lparr>up_directory := l\<rparr>))" for dn l
    using follows_update_ldap [OF assms(1), of "w\<lparr>up_directory := l\<rparr>"] assms(2) by (simp add: busy_frame follows_start)
  have r: "follows view w w" by (rule follows_refl) (use assms(2) in \<open>simp add: busy_def\<close>)
  show ?thesis
    by (auto simp: store_in_directory_def Let_def follows_frame follows_error u r split: prod.split)
qed

lemma follows_count_duplicate: "follows view w (count_duplicate w') = follows view w w'"
  by (simp add: count_duplicate_def follows_frame)

lemma follows_store:
  assumes L: "pg_laws (ev_pg E) view" and w: "busy view w"
  shows "follows view w (snd (store_judged E n u entry T c j fp der w))"
proof -
  obtain i dup w1 where s: "saveCertificateWithDuplicateCheck E u (jd_certType j) (vr_countryCode (jd_record j)) T fp der
      (jd_status j) (jd_message j) (ev_metadata E c) w = ((i, dup), w1)" by (metis surj_pair)
  define w2 where "w2 = (let w = if dup then count_duplicate w1 else w1
    in if \<not> dup \<and> jd_certType j = ''CSCA'' then w\<lparr>up_csca := invalidateCache (up_csca w)\<rparr> else w)"
  have f2: "follows view w w2" using follows_save [OF L w s]
    by (simp add: w2_def Let_def follows_frame follows_count_duplicate)
  have b2: "busy view w2" by (rule busy_follows [OF w f2])
  let ?w3 = "validation_save E ((jd_record j)\<lparr>vr_certificateId := i\<rparr>) w2"
  have f3: "follows view w ?w3" unfolding validation_save_def by (rule follows_trans [OF f2 follows_try [OF L b2]])
  have b3: "busy view ?w3" by (rule busy_follows [OF w f3])
  have f4: "follows view w (store_in_directory E n entry j fp der i ?w3)" by (rule follows_trans [OF f3 follows_directory [OF L b3]])
  have "snd (store_judged E n u entry T c j fp der w) =
      (if i \<noteq> [] then if ev_connected E then store_in_directory E n entry j fp der i ?w3 else ?w3
       else if \<not> dup then add_error_to E n ''DB_SAVE_FAILED'' (le_dn entry) (vr_subjectDn (jd_record j)) (vr_countryCode (jd_record j))
         (jd_certType j) ''Database save returned empty ID'' w2 else w2)"
    unfolding store_judged_def s prod.case w2_def Let_def by simp
  then show ?thesis using f2 f3 f4 by (simp add: follows_error)
qed

lemma follows_certificate:
  assumes L: "pg_laws (ev_pg E) view" and w: "busy view w"
  shows "follows view w (snd (parseCertificateEntry E n u entry attr w))"
proof -
  have r: "follows view w w" by (rule follows_refl) (use w in \<open>simp add: busy_def\<close>)
  have st: "follows view w (snd (store_judged E n u entry T c j fp der (w1\<lparr>up_tallies := t\<rparr>)))"
    if f: "follows view w w1" for w1 T c j fp der t
    using follows_trans [OF f] follows_store [OF L, of "w1\<lparr>up_tallies := t\<rparr>"] busy_follows [OF w f]
    by (simp add: busy_frame follows_start)
  show ?thesis
    by (auto simp: parseCertificateEntry_def Let_def follows_error follows_count_duplicate r st [OF r] st [OF follows_load [OF L w]]
        split: option.split prod.split)
qed

lemma follows_draw: "follows view w w' \<Longrightarrow> follows view w (snd (draw_uuid E w'))"
  by (simp add: draw_uuid_def follows_frame split: prod.split)

lemma follows_crl_save:
  assumes L: "pg_laws (ev_pg E) view" and w: "busy view w" and s: "crl_save E u cc C fp der w = (i, w')"
  shows "follows view w w'"
proof -
  obtain a w1 where q: "query E SELECT_crl [fp] w = (a, w1)" by force
  have f1: "follows view w w1" by (rule follows_query [OF L w q]) simp
  have b1: "busy view w1" by (rule busy_follows [OF w f1])
  obtain k w2 where d: "draw_uuid E w1 = (k, w2)" by force
  have f2: "follows view w w2" using follows_draw [OF f1, of E] d by simp
  have b2: "busy view w2" by (rule busy_follows [OF w f2])
  have c1: "follows view w (snd (command E p ps w1))" for p ps
    by (rule follows_trans [OF f1 follows_command [OF L b1 surjective_pairing]])
  have c2: "follows view w (snd (command E p ps w2))" for p ps
    by (rule follows_trans [OF f2 follows_command [OF L b2 surjective_pairing]])
  have "w' = w1 \<or> (\<exists>p ps. w' = snd (command E p ps w1)) \<or> (\<exists>p ps. w' = snd (command E p ps w2))"
    using s q d unfolding crl_save_def Let_def
    by (auto split: sum.splits list.splits prod.splits if_splits) (metis snd_conv)+
  then show ?thesis using f1 c1 c2 by blast
qed

lemma follows_revoked:
  assumes L: "pg_laws (ev_pg E) view" and w: "busy view w"
  shows "follows view w (foldl (\<lambda>w r. saveRevokedCertificate E i r w) w rs)"
  using w
proof (induction rs arbitrary: w)
  case Nil
  then show ?case by (simp add: follows_refl busy_def)
next
  case (Cons r rs)
  obtain a b c where r: "r = (a, b, c)" by (cases r)
  obtain k w1 where d: "draw_uuid E w = (k, w1)" by force
  have f1: "follows view w w1"
    using follows_draw [OF follows_refl, of w view E] Cons.prems d by (simp add: busy_def)
  have f: "follows view w (saveRevokedCertificate E i r w)"
    unfolding saveRevokedCertificate_def r prod.case d
    by (rule follows_trans [OF f1 follows_try [OF L busy_follows [OF Cons.prems f1]]])
  show ?case using follows_trans [OF f Cons.IH [OF busy_follows [OF Cons.prems f]]] by simp
qed

lemma follows_crl:
  assumes L: "pg_laws (ev_pg E) view" and w: "busy view w"
  shows "follows view w (snd (parseCrlEntry E n u entry w))"
proof -
  have r: "follows view w w" by (rule follows_refl) (use w in \<open>simp add: busy_def\<close>)
  have save: "follows view w w'" if "crl_save E u cc C fp der w = (i, w')" for cc C fp der i w'
    by (rule follows_crl_save [OF L w that])
  have revs: "follows view w (foldl (\<lambda>w r. saveRevokedCertificate E i r w) (w'\<lparr>up_crlCount := k\<rparr>) rs)"
    if f: "follows view w w'" for w' i k rs
    using follows_trans [OF f] follows_revoked [OF L, of "w'\<lparr>up_crlCount := k\<rparr>" i rs] busy_follows [OF w f]
    by (simp add: follows_start busy_frame)
  have upd: "follows view w (crl_updateLdapStatus E i dn (w'\<lparr>up_directory := l\<rparr>))" if f: "follows view w w'" for w' i dn l
    using follows_trans [OF f] follows_try [OF L, of "w'\<lparr>up_directory := l\<rparr>"] busy_follows [OF w f] f
    by (simp add: crl_updateLdapStatus_def follows_start follows_frame busy_frame)
  show ?thesis
    by (auto simp: parseCrlEntry_def Let_def follows_error follows_frame r split: option.split prod.split
        dest!: save intro!: revs upd)
qed

definition no_master_list :: "ldif_entry \<Rightarrow> bool" where
  "no_master_list entry = (\<not> hasAttribute entry ''pkdMasterListContent;binary'' \<and> \<not> hasAttribute entry ''pkdMasterListContent'')"

lemma follows_savepoint:
  assumes L: "pg_laws (ev_pg E) view" and w: "busy view w"
  shows "follows view w (w\<lparr>up_executor := savepoint (ev_pg E) (up_executor w)\<rparr>)"
proof (rule follows_same)
  let ?w = "w\<lparr>up_executor := savepoint (ev_pg E) (up_executor w)\<rparr>"
  have p: "ex_batchMode (up_executor w)" "ex_batchConn (up_executor w)" using w by (simp_all add: busy_def ready_def pinned_def)
  note s = pg_lawsD(3) [OF L, of "ex_db (up_executor w)"]
  show "ready ?w" using w p by (simp add: busy_def ready_def pinned_def savepoint_def)
  show "committed view ?w = committed view w" using p s by (simp add: committed_def savepoint_def)
  show "tx_follows (transaction view w) (transaction view ?w)"
    using p s by (auto simp: transaction_def savepoint_def split: tx.splits)
  show "isFingerprintCached fp ?w = isFingerprintCached fp w" for fp by (simp add: isFingerprintCached_def)
qed

text \<open>A Master List reader that behaves: it lets no exception out and touches the session as the other readers do.\<close>

definition ml_follows :: "('d \<Rightarrow> tables \<times> tx) \<Rightarrow> ('d, 'l) ml_parser \<Rightarrow> bool" where
  "ml_follows view ml =
     (\<forall>n entry w. busy view w \<longrightarrow> (\<exists>m. fst (ml n entry w) = Inr m) \<and> follows view w (snd (ml n entry w)))"

lemma follows_ml:
  assumes "ml_follows view ml" "busy view w"
  obtains m w' where "ml n entry w = (Inr m, w')" "follows view w w'"
  using assms unfolding ml_follows_def by (metis prod.collapse)

text \<open>The code that would roll back to the savepoint of a failed entry is not reached: nothing an entry does throws,
  because the repositories catch what the executor throws.\<close>

lemma follows_entry:
  assumes L: "pg_laws (ev_pg E) view" and w: "busy view w" and ml: "no_master_list entry \<or> ml_follows view ml"
  shows "follows view w (process_entry E ml n u entry w)"
proof -
  let ?s = "w\<lparr>up_executor := savepoint (ev_pg E) (up_executor w)\<rparr>"
  let ?c = "if hasAttribute entry ''userCertificate;binary''
       then snd (parseCertificateEntry E n u entry ''userCertificate;binary'' ?s)
       else if hasAttribute entry ''cACertificate;binary''
       then snd (parseCertificateEntry E n u entry ''cACertificate;binary'' ?s) else ?s"
  let ?d = "if hasAttribute entry ''certificateRevocationList;binary'' then snd (parseCrlEntry E n u entry ?c) else ?c"
  note fs = follows_savepoint [OF L w]
  have bs: "busy view ?s" by (rule busy_follows [OF w fs])
  have fc: "follows view w ?c"
    using fs follows_trans [OF fs follows_certificate [OF L bs]] by simp
  have bc: "busy view ?c" by (rule busy_follows [OF w fc])
  have fd: "follows view w ?d" using fc follows_trans [OF fc follows_crl [OF L bc]] by simp
  show ?thesis
  proof (cases "no_master_list entry")
    case True
    then have "process_entry E ml n u entry w = ?d"
      by (simp add: process_entry_def entry_body_def no_master_list_def Let_def)
    then show ?thesis using fd by simp
  next
    case False
    with ml have "ml_follows view ml" by simp
    then obtain m w' where m: "ml n entry ?d = (Inr m, w')" "follows view ?d w'"
      by (rule follows_ml [OF _ busy_follows [OF w fd]])
    have body: "entry_body E ml n u entry ?s = (Inr (), count_ml m w')"
      using False m(1) unfolding entry_body_def no_master_list_def Let_def by simp
    have "process_entry E ml n u entry w = count_ml m w'"
      unfolding process_entry_def Let_def body by simp
    then show ?thesis using follows_trans [OF fd m(2)] by (simp add: count_ml_def follows_frame)
  qed
qed

fun run_entries :: "('c, 'k, 't, 'd, 'l) surroundings \<Rightarrow> ('d, 'l) ml_parser \<Rightarrow> string \<Rightarrow> nat \<Rightarrow> ldif_entry list
    \<Rightarrow> ('d, 'l) upload \<Rightarrow> ('d, 'l) upload" where
  "run_entries E ml u n [] w = w"
| "run_entries E ml u n (entry # es) w = run_entries E ml u (Suc n) es (process_entry E ml n u entry w)"

lemma follows_entries:
  assumes "pg_laws (ev_pg E) view" "(\<forall>entry \<in> set es. no_master_list entry) \<or> ml_follows view ml"
  shows "busy view w \<Longrightarrow> follows view w (run_entries E ml u n es w)"
  using assms(2)
proof (induction es arbitrary: n w)
  case Nil
  then show ?case by (simp add: follows_refl busy_def)
next
  case (Cons entry es)
  have f: "follows view w (process_entry E ml n u entry w)" using follows_entry [OF assms(1)] Cons.prems by auto
  have "(\<forall>entry \<in> set es. no_master_list entry) \<or> ml_follows view ml" using Cons.prems(2) by auto
  from follows_trans [OF f Cons.IH [OF busy_follows [OF Cons.prems(1) f] this]] show ?case by simp
qed

end
