(* ===== verification/Upload_Loss.thy ===== *)
theory Upload_Loss
  imports Upload_Batch
begin

text \<open>
  What an upload leaves in the database: the outcome of a batch, what a stored certificate has in the tables and in
  the directory, the repeated CRL that aborts its transaction, and a server on which the theorems are
  applied.
\<close>

section \<open>The outcome of a batch\<close>

lemma end_batch_law:
  assumes L: "pg_laws (ev_pg E) view" and p: "pinned w"
  shows "transaction view (end_batch E w) = Idle"
    and "committed view (end_batch E w) = (case transaction view w of
        Open ws sp \<Rightarrow> if fst (pg_commit (ev_pg E) (ex_db (up_executor w))) then effective (committed view w) ws else committed view w
      | _ \<Rightarrow> committed view w)"
    and "isFingerprintCached fp (end_batch E w) = isFingerprintCached fp w"
    and "\<not> pinned (end_batch E w)"
  using pg_lawsD(4) [OF L, of "ex_db (up_executor w)"] p
  by (simp_all add: end_batch_def endBatch_def pinned_def transaction_def committed_def Let_def isFingerprintCached_def split: tx.split)

lemma batch_result:
  assumes "pg_laws (ev_pg E) view" "pinned w" "up_fingerprintCacheLoaded w" "transaction view w = Open ws sp"
    "(\<forall>entry \<in> set es. no_master_list entry) \<or> ml_follows view ml" "run_entries E ml u n es w = w1" "end_batch E w1 = w'"
  shows "\<exists>new. let t = (committed view w)\<lparr>tb_certificates := tb_certificates (committed view w) @ new\<rparr> in
     (\<forall>(i, ps) \<in> set new. \<exists>fp. param 6 ps = Some (c_str fp) \<and> isFingerprintCached fp w')
     \<and> transaction view w' = Idle
     \<and> (\<exists>ws' sp'. transaction view w1 = Open (ws @ ws') sp'
           \<and> committed view w' = (if fst (pg_commit (ev_pg E) (ex_db (up_executor w1))) then effective t (ws @ ws') else t)
        \<or> transaction view w1 = Aborted sp' \<and> committed view w' = t)"
proof -
  have "busy view w" using assms(2-4) by (simp add: busy_def ready_def)
  then have f: "follows view w w1" using follows_entries [OF assms(1,5)] assms(6) by metis
  then have p: "pinned w1" by (simp add: follows_def)
  note e = end_batch_law [OF assms(1) p, unfolded assms(7)]
  from f obtain new where new: "committed view w1 = (committed view w)\<lparr>tb_certificates := tb_certificates (committed view w) @ new\<rparr>"
      "\<forall>(i, ps) \<in> set new. \<exists>fp. param 6 ps = Some (c_str fp) \<and> isFingerprintCached fp w1"
    unfolding follows_def by blast
  have t: "(\<exists>ws' sp'. transaction view w1 = Open (ws @ ws') sp') \<or> (\<exists>sp'. transaction view w1 = Aborted sp')"
    using f assms(4) by (simp add: follows_def)
  show ?thesis
    by (rule exI [of _ new]) (use t new e in \<open>auto simp: Let_def\<close>)
qed

text \<open>A batch of entries without a Master List ends in one of two ways.  If every statement succeeded, the commit makes the
  validation results, the CRLs, the revoked certificates and the LDAP flags of the batch permanent, on top of
  the certificates.  If one failed, all of these are lost, of every entry of the batch; only the certificate
  rows stay, which went through other connections.  In both cases the cache knows the fingerprint of every new
  certificate, so none of them is processed again.\<close>

theorem batch_outcome:
  assumes "pg_laws (ev_pg E) view" "pinned w" "up_fingerprintCacheLoaded w" "transaction view w = Open ws sp"
    "\<forall>entry \<in> set es. no_master_list entry" "run_entries E ml u n es w = w1" "end_batch E w1 = w'"
  shows "\<exists>new. let t = (committed view w)\<lparr>tb_certificates := tb_certificates (committed view w) @ new\<rparr> in
     (\<forall>(i, ps) \<in> set new. \<exists>fp. param 6 ps = Some (c_str fp) \<and> isFingerprintCached fp w')
     \<and> transaction view w' = Idle
     \<and> (\<exists>ws' sp'. transaction view w1 = Open (ws @ ws') sp'
           \<and> committed view w' = (if fst (pg_commit (ev_pg E) (ex_db (up_executor w1))) then effective t (ws @ ws') else t)
        \<or> transaction view w1 = Aborted sp' \<and> committed view w' = t)"
  using batch_result [OF assms(1-4) disjI1 assms(6,7)] assms(5) by simp

text \<open>A certificate whose fingerprint is cached is counted as a duplicate and nothing else happens: an upload that lost
  the validation result of a batch cannot bring it back.\<close>

lemma retry_skips:
  assumes "isFingerprintCached (computeFileHash (ev_sha256 E) (base64Decode (getFirstAttribute entry attr))) w"
    "ev_d2i E (base64Decode (getFirstAttribute entry attr)) \<noteq> None"
    "getFirstAttribute entry attr \<noteq> []" "base64Decode (getFirstAttribute entry attr) \<noteq> []"
  shows "parseCertificateEntry E n u entry attr w = (True, count_duplicate w)"
  using assms by (auto simp: parseCertificateEntry_def Let_def)

lemma count_duplicate_frame:
  "up_executor (count_duplicate w) = up_executor w" "up_directory (count_duplicate w) = up_directory w"
  by (simp_all add: count_duplicate_def)

section \<open>A stored certificate\<close>

lemma command_open:
  assumes "pg_laws (ev_pg E) view" "busy view w" "tx_follows (transaction view (try_command E q ps w)) (Open ws' sp')"
    "transaction view w = Open ws sp"
  shows "permitted q (sql_params ps) (effective (committed view w) ws)"
    "transaction view (try_command E q ps w) = Open (ws @ [(q, sql_params ps)]) sp"
    "committed view (try_command E q ps w) = committed view w" "same_rest w (try_command E q ps w)"
proof -
  have r: "ready w" using assms(2) by (simp add: busy_def)
  obtain a w1 where c: "command E q ps w = (a, w1)" by force
  note l = command_law [OF assms(1) r c]
  have t: "try_command E q ps w = w1" by (simp add: try_command_def c)
  show "permitted q (sql_params ps) (effective (committed view w) ws)"
    "transaction view (try_command E q ps w) = Open (ws @ [(q, sql_params ps)]) sp"
    "committed view (try_command E q ps w) = committed view w" "same_rest w (try_command E q ps w)"
    using l assms(3,4) by (auto simp: t pinned_law_def split: sum.splits)
qed

lemma load_cscas_law:
  assumes "pg_laws (ev_pg E) view"
  shows "committed view (load_cscas E w) = committed view w" "transaction view (load_cscas E w) = transaction view w"
    "up_directory (load_cscas E w) = up_directory w" "up_fingerprintCache (load_cscas E w) = up_fingerprintCache w"
proof -
  obtain a w1 where q: "query E SELECT_cscas [] w = (a, w1)" by force
  note l = query_law [OF assms q]
  have "committed view w1 = committed view w" "transaction view w1 = transaction view w"
    using l(1) by (auto simp: pool_law_def split: sum.splits)
  then show "committed view (load_cscas E w) = committed view w" "transaction view (load_cscas E w) = transaction view w"
    "up_directory (load_cscas E w) = up_directory w" "up_fingerprintCache (load_cscas E w) = up_fingerprintCache w"
    using l(2) q by (auto simp: load_cscas_def findAllCscas_def committed_def transaction_def same_rest_def split: sum.split)
qed

text \<open>The fields a step on the session does not look at.\<close>

lemma session_frame:
  "committed view (w\<lparr>up_tallies := t\<rparr>) = committed view w" "transaction view (w\<lparr>up_tallies := t\<rparr>) = transaction view w"
  "committed view (w\<lparr>up_directory := l\<rparr>) = committed view w" "transaction view (w\<lparr>up_directory := l\<rparr>) = transaction view w"
  "committed view (w\<lparr>up_csca := c\<rparr>) = committed view w" "transaction view (w\<lparr>up_csca := c\<rparr>) = transaction view w"
  "committed view (w\<lparr>up_crlCount := k\<rparr>) = committed view w" "transaction view (w\<lparr>up_crlCount := k\<rparr>) = transaction view w"
  "committed view (w\<lparr>up_draws := m\<rparr>) = committed view w" "transaction view (w\<lparr>up_draws := m\<rparr>) = transaction view w"
  by (simp_all add: committed_def transaction_def)

lemma error_frame:
  "committed view (add_error_to E n ty dn cdn cc ct m w) = committed view w"
  "transaction view (add_error_to E n ty dn cdn cc ct m w) = transaction view w"
  "up_directory (add_error_to E n ty dn cdn cc ct m w) = up_directory w"
  by (simp_all add: add_error_to_def session_frame)

lemma directory_step:
  assumes L: "pg_laws (ev_pg E) view" "ldap_store_laws (ev_directory E) ents" and w: "busy view w" "transaction view w = Open ws sp"
    and i: "i \<noteq> []" "CHR 0x00 \<notin> set i" and w': "store_in_directory E n entry j fp der i w = w'"
    and o': "transaction view w' = Open ws' sp'"
  shows "committed view w' = committed view w
     \<and> (ws' = ws \<or> (\<exists>dn as. ws' = ws @ [(UPDATE_certificate_ldap, [Some ''TRUE'', Some (c_str dn), Some i])]
          \<and> ents (up_directory w') (c_str dn) = Some as \<and> map_of as ''userCertificate;binary'' = Some [Binary der]))"
proof -
  define ty where "ty = (if jd_certType j = ''CSCA'' \<and> \<not> vr_isSelfSigned (jd_record j) then ''LC'' else jd_certType j)"
  obtain dn l where s: "saveCertificateToLdap (ev_directory E) (ev_entry_reader E) (ev_config E) (up_directory w) ty
      (vr_countryCode (jd_record j)) (vr_subjectDn (jd_record j)) (vr_serialNumber (jd_record j)) fp der
      (getFirstAttribute entry ''pkdConformanceCode'') (getFirstAttribute entry ''pkdConformanceText'')
      (getFirstAttribute entry ''pkdVersion'') False = (dn, l)" by force
  show ?thesis
  proof (cases "dn = []")
    case True
    then have "w' = add_error_to E n ''LDAP_SAVE_FAILED'' (le_dn entry) (vr_subjectDn (jd_record j)) (vr_countryCode (jd_record j))
        (jd_certType j) (''LDAP save returned empty DN for fingerprint: '' @ take 16 fp) (w\<lparr>up_directory := l\<rparr>)"
      using w' s [unfolded ty_def] by (simp add: store_in_directory_def Let_def)
    then show ?thesis using w(2) o' by (simp add: error_frame session_frame)
  next
    case False
    let ?d = "w\<lparr>up_directory := l\<rparr>"
    let ?ps = "[boolLiteral dbType True, dn, i]"
    let ?u = "try_command E UPDATE_certificate_ldap ?ps ?d"
    have e: "w' = ?u\<lparr>up_tallies := (up_tallies ?u)\<lparr>ta_ldapStoredCount := ta_ldapStoredCount (up_tallies ?u) + 1\<rparr>\<rparr>"
      using False w' s [unfolded ty_def] by (simp add: store_in_directory_def updateCertificateLdapStatus_def Let_def)
    have b: "busy view ?d" "transaction view ?d = Open ws sp" using w by (simp_all add: busy_frame session_frame)
    have "tx_follows (transaction view ?u) (Open ws' sp')" using o' by (simp add: e session_frame tx_follows_refl)
    note c = command_open [OF L(1) b(1) this b(2)]
    have p: "sql_params ?ps = [Some ''TRUE'', Some (c_str dn), Some i]"
      using False i by (simp add: sql_params_def boolLiteral_def c_str_id)
    obtain as where "ents l (c_str dn) = Some as" "map_of as ''userCertificate;binary'' = Some [Binary der]"
      using saved_entry [OF L(2) s] False by metis
    moreover have "up_directory w' = l" using c(4) by (simp add: e same_rest_def)
    ultimately show ?thesis using o' c(2,3) by (auto simp: e session_frame p)
  qed
qed

lemma not_dup:
  "\<not> isFingerprintCached fp w \<Longrightarrow> ready w \<Longrightarrow> saveCertificateWithDuplicateCheck E u ty cc T fp der st m md w
     = insert_certificate E (insert_params u ty cc T fp der st m md) fp u w"
  by (simp add: saveCertificateWithDuplicateCheck_def save_checked_def isFingerprintCached_def ready_def split: option.split)

lemma insert_params_at:
  "10 < length (insert_params u ty cc T fp der st m md)" "insert_params u ty cc T fp der st m md ! 10 = st"
  "9 < length (insert_params u ty cc T fp der st m md)" "insert_params u ty cc T fp der st m md ! 9 = hex_column der"
  by (simp_all add: insert_params_def)

lemma validation_params_at:
  "1 < length (validation_params r)" "validation_params r ! 1 = vr_certificateId r"
  "18 < length (validation_params r)" "validation_params r ! 18 = vr_validationStatus r"
  by (simp_all add: validation_params_def Let_def)

text \<open>Storing a judged certificate that is new, when the transaction survives.\<close>

lemma store_judged_new:
  assumes L: "pg_laws (ev_pg E) view" "ldap_store_laws (ev_directory E) ents" and w: "busy view w" "transaction view w = Open ws sp"
    and fp: "\<not> isFingerprintCached fp w" and st: "vr_validationStatus (jd_record j) = jd_status j"
    and r: "store_judged E n u entry T c j fp der w = (True, w')" and o': "transaction view w' = Open ws' sp'"
  obtains i row vps where "committed view w' = (committed view w)\<lparr>tb_certificates := tb_certificates (committed view w) @ [(i, row)]\<rparr>"
    "param 6 row = Some (c_str fp)" "param 9 row = Some (c_str (hex_column der))" "param 1 vps = Some i" "param 18 vps = param 10 row"
    "ws' = ws @ [(INSERT_validation, vps)]
     \<or> (\<exists>dn as. ws' = ws @ [(INSERT_validation, vps), (UPDATE_certificate_ldap, [Some ''TRUE'', Some (c_str dn), Some i])]
          \<and> ents (up_directory w') (c_str dn) = Some as \<and> map_of as ''userCertificate;binary'' = Some [Binary der])"
proof -
  let ?p = "insert_params u (jd_certType j) (vr_countryCode (jd_record j)) T fp der (jd_status j) (jd_message j) (ev_metadata E c)"
  have b: "ready w" using w(1) by (simp add: busy_def)
  obtain i dup w1 where s: "insert_certificate E ?p fp u w = ((i, dup), w1)" by (metis surj_pair)
  define w2 where "w2 = (if \<not> dup \<and> jd_certType j = ''CSCA'' then w1\<lparr>up_csca := invalidateCache (up_csca w1)\<rparr> else w1)"
  define vps where "vps = validation_params ((jd_record j)\<lparr>vr_certificateId := i\<rparr>)"
  define w3 where "w3 = try_command E INSERT_validation vps w2"
  show thesis
  proof (cases rule: insert_certificate_cases [OF L(1) w(1) insert_params_fp s])
    case 1
    then show thesis using r by (simp add: store_judged_def not_dup [OF fp b] s Let_def split: if_splits)
  next
    case 2
    have c2: "committed view w2 = committed view w1" "transaction view w2 = transaction view w1" "follows view w w2"
      using 2(5) by (simp_all add: w2_def session_frame follows_frame)
    have b2: "busy view w2" by (rule busy_follows [OF w(1) c2(3)])
    have w': "w' = (if ev_connected E then store_in_directory E n entry j fp der i w3 else w3)"
      using r 2(1,3) unfolding store_judged_def not_dup [OF fp b] s w2_def w3_def vps_def validation_save_def Let_def prod.case
      by (cases "jd_certType j = ''CSCA''"; cases "ev_connected E") simp_all
    have f3: "follows view w w3" unfolding w3_def by (rule follows_trans [OF c2(3) follows_try [OF L(1) b2]])
    have b3: "busy view w3" by (rule busy_follows [OF w(1) f3])
    have t3: "tx_follows (transaction view w3) (Open ws' sp')"
      using follows_directory [OF L(1) b3, of n entry j fp der i] o' w' tx_follows_refl
      by (auto simp: follows_def split: if_splits)
    have "transaction view w2 = Open ws sp" using c2(2) 2(6) w(2) by simp
    note c3 = command_open [OF L(1) b2 t3 [unfolded w3_def] this, folded w3_def]
    let ?row = "sql_params ?p" and ?vps = "sql_params vps"
    have d: "committed view w' = committed view w3
        \<and> (ws' = ws @ [(INSERT_validation, ?vps)] \<or> (\<exists>dn as. ws' = (ws @ [(INSERT_validation, ?vps)])
              @ [(UPDATE_certificate_ldap, [Some ''TRUE'', Some (c_str dn), Some i])]
          \<and> ents (up_directory w') (c_str dn) = Some as \<and> map_of as ''userCertificate;binary'' = Some [Binary der]))"
    proof (cases "ev_connected E")
      case True
      then have "store_in_directory E n entry j fp der i w3 = w'" using w' by simp
      from directory_step [OF L b3 c3(2) 2(1,2) this o'] show ?thesis .
    next
      case False
      then show ?thesis using w' c3(2) o' by simp
    qed
    have m: "committed view w' = (committed view w)\<lparr>tb_certificates := tb_certificates (committed view w) @ [(i, ?row)]\<rparr>"
      using d c3(3) c2(1) 2(7) by simp
    have row: "param 6 ?row = Some (c_str fp)" "param 9 ?row = Some (c_str (hex_column der))"
      using param_sql [OF insert_params_fp(1)] insert_params_fp(2) 2(4)
        param_sql [OF insert_params_at(3)] insert_params_at(4) by (simp_all add: hex_column_def hexPrefix_def)
    have v: "param 1 ?vps = Some i" "param 18 ?vps = param 10 ?row"
      using param_sql [OF validation_params_at(1)] param_sql [OF validation_params_at(3)] 2(1,2) st c_str_id
        param_sql [OF insert_params_at(1)] insert_params_at(2)
      by (simp_all add: vps_def validation_params_at del: One_nat_def)
    show thesis by (rule that [OF m row v]) (use d in simp)
  qed
qed

text \<open>C16. A certificate that an upload processes for the first time and reports as handled, in a batch whose transaction
  survives: one row is added to the certificates, with the fingerprint and the bytes of the entry; one validation result
  waits for the commit, which names that row and has the same status; and the row is flagged as stored in LDAP only
  if the directory has an entry, under the name recorded, that holds these bytes.\<close>

theorem certificate_stored:
  assumes "pg_laws (ev_pg E) view" "ldap_store_laws (ev_directory E) ents" "pinned w" "up_fingerprintCacheLoaded w"
    "transaction view w = Open ws sp" "base64Decode (getFirstAttribute entry attr) = der"
    "computeFileHash (ev_sha256 E) der = fp" "\<not> isFingerprintCached fp w"
    "parseCertificateEntry E n u entry attr w = (True, w')" "transaction view w' = Open ws' sp'"
  shows "\<exists>i row vps. committed view w' = (committed view w)\<lparr>tb_certificates := tb_certificates (committed view w) @ [(i, row)]\<rparr>
     \<and> param 6 row = Some (c_str fp) \<and> param 9 row = Some (c_str (hex_column der))
     \<and> param 1 vps = Some i \<and> param 18 vps = param 10 row
     \<and> (ws' = ws @ [(INSERT_validation, vps)]
        \<or> (\<exists>dn as. ws' = ws @ [(INSERT_validation, vps), (UPDATE_certificate_ldap, [Some ''TRUE'', Some (c_str dn), Some i])]
             \<and> ents (up_directory w') (c_str dn) = Some as \<and> map_of as ''userCertificate;binary'' = Some [Binary der]))"
proof -
  have b: "busy view w" using assms(3-5) by (simp add: busy_def ready_def)
  obtain c where c: "ev_d2i E der = Some c"
    using assms(6,9) by (auto simp: parseCertificateEntry_def Let_def split: if_splits option.splits)
  define w1 where "w1 = (if looks_up_cscas E n (ev_texts E c) c then load_cscas E w else w)"
  obtain j t where jt: "judge_and_count (ev_ssl E) (db_provider [] (ev_d2i E) (up_csca w1)) (ev_clock E n) (ev_timestamp E n)
      u fp (le_dn entry) (ev_texts E c) (ev_leaf E c) (up_tallies w1) = (j, t)" by force
  have st: "vr_validationStatus (jd_record j) = jd_status j"
    using jt by (auto simp: judge_and_count_def Let_def judge_status judge_record_status)
  let ?w = "w1\<lparr>up_tallies := t\<rparr>"
  have r: "store_judged E n u entry (ev_texts E c) c j fp der ?w = (True, w')"
    using assms(6-9) c jt by (auto simp: parseCertificateEntry_def Let_def w1_def split: if_splits)
  have "follows view w w1" using follows_load [OF assms(1) b] follows_refl [of w view] b by (simp add: w1_def busy_def)
  then have "busy view ?w" using busy_follows [OF b] by (simp add: busy_frame)
  moreover have "committed view ?w = committed view w" "transaction view ?w = Open ws sp" "\<not> isFingerprintCached fp ?w"
    using load_cscas_law [OF assms(1), of w] assms(4,5,8)
    by (simp_all add: w1_def session_frame isFingerprintCached_def)
  ultimately show ?thesis using store_judged_new [OF assms(1,2) _ _ _ st r assms(10)] by metis
qed

section \<open>A repeated CRL\<close>

definition holds_crl :: "string \<Rightarrow> tables \<Rightarrow> bool" where
  "holds_crl fp t = list_ex (\<lambda>r. param 7 r = param 0 (sql_params [fp])) (tb_crls t)"

definition holds_crl_id :: "string \<Rightarrow> tables \<Rightarrow> bool" where
  "holds_crl_id i t = list_ex (\<lambda>r. param 0 r = Some (c_str i)) (tb_crls t)"

lemma crl_conflict_holds: "7 < length ps \<Longrightarrow> ps ! 7 = fp \<Longrightarrow> holds_crl fp t \<Longrightarrow> crl_conflict (sql_params ps) t"
proof -
  assume "7 < length ps" "ps ! 7 = fp" and h: "holds_crl fp t"
  then have "param 7 (sql_params ps) = param 0 (sql_params [fp])" by (simp add: param_def sql_params_def)
  with h show "crl_conflict (sql_params ps) t" by (auto simp: crl_conflict_def holds_crl_def list_ex_iff)
qed

lemma effective_append: "effective t (ws @ [(q, ps)]) = apply_sql q ps (effective t ws)"
  by (simp add: effective_def)

lemma aborted_stays: "tx_follows (transaction view w) (transaction view w') \<Longrightarrow> transaction view w = Aborted sp
    \<Longrightarrow> \<exists>sp'. transaction view w' = Aborted sp'"
  by simp

text \<open>A revoked certificate of a CRL that is not in the tables violates the foreign key.\<close>

lemma revoked_unknown:
  assumes "pg_laws (ev_pg E) view" "busy view w" "transaction view w = Open ws sp"
    "\<not> holds_crl_id i (effective (committed view w) ws)" "i \<noteq> []"
  shows "\<exists>sp'. transaction view (saveRevokedCertificate E i x w) = Aborted sp'"
proof -
  obtain a b c where x: "x = (a, b, c)" by (cases x)
  obtain k w1 where d: "draw_uuid E w = (k, w1)" by force
  then have w1: "committed view w1 = committed view w" "transaction view w1 = transaction view w" "busy view w1"
    using assms(2) by (auto simp: draw_uuid_def session_frame busy_frame split: prod.splits)
  have r: "ready w1" using w1(3) by (simp add: busy_def)
  let ?ps = "[k, i, a, b, reason_text c]"
  obtain res w2 where c: "command E INSERT_revoked ?ps w1 = (res, w2)" by force
  have "param 1 (sql_params ?ps) = Some (c_str i)" using assms(5) by (simp add: param_def sql_params_def)
  then have "\<not> permitted INSERT_revoked (sql_params ?ps) (effective (committed view w1) ws)"
    using assms(4) w1(1) by (simp add: holds_crl_id_def)
  with command_law(1) [OF assms(1) r c] w1(2) assms(3) have "transaction view w2 = Aborted sp"
    by (auto simp: pinned_law_def split: sum.splits)
  then show ?thesis using x d c by (simp add: saveRevokedCertificate_def try_command_def)
qed

lemma crl_save_repeated:
  assumes L: "pg_laws (ev_pg E) view" and w: "busy view w" "transaction view w = Open ws sp"
    and fp: "\<not> holds_crl fp (committed view w)" "holds_crl fp (effective (committed view w) ws)"
    and i: "\<not> holds_crl_id (fst (draw_uuid E w)) (effective (committed view w) ws)"
    and s: "crl_save E u cc C fp der w = (i, w')" "i \<noteq> []"
  shows "(\<exists>ws'. transaction view w' = Open ws' sp \<and> \<not> holds_crl_id i (effective (committed view w') ws')) \<and> busy view w'"
proof -
  obtain a w1 where q: "query E SELECT_crl [fp] w = (a, w1)" by force
  note l = query_law [OF L q]
  have w1: "committed view w1 = committed view w" "transaction view w1 = transaction view w" "busy view w1"
    using l(1) busy_follows [OF w(1) follows_query [OF L w(1) q]] by (auto simp: pool_law_def split: sum.splits)
  obtain rows where a: "a = Inr rows" using s q by (cases a) (auto simp: crl_save_def)
  have "filter (\<lambda>r. param 7 r = param 0 (sql_params [fp])) (tb_crls (committed view w)) = []"
    using fp(1) by (auto simp: holds_crl_def list_ex_iff filter_empty_conv)
  then have rows: "rows = []" using l(1) a by (simp add: pool_law_def)
  have dr: "up_draws w1 = up_draws w" using q by (auto simp: query_def split: prod.splits)
  obtain k w2 where d: "draw_uuid E w1 = (k, w2)" by force
  then have k: "k = fst (draw_uuid E w)" and w2: "committed view w2 = committed view w" "transaction view w2 = Open ws sp" "busy view w2"
    using dr w1 w(2) by (auto simp: draw_uuid_def session_frame busy_frame split: prod.splits)
  let ?ps = "[k, u, cc, cl_issuerDn C, cl_thisUpdate C, cl_nextUpdate C, cl_crlNumber C, fp, hex_column der]"
  obtain res w3 where c: "command E INSERT_crl ?ps w2 = (res, w3)" by force
  have r2: "ready w2" using w2(3) by (simp add: busy_def)
  have ir: "i = k" "w' = w3" "res \<noteq> Inl e" for e
    using s q a rows d c by (auto simp: crl_save_def split: sum.splits)
  note cl = command_law(1) [OF L r2 c]
  have t: "transaction view w' = Open (ws @ [(INSERT_crl, sql_params ?ps)]) sp" "committed view w' = committed view w"
    using cl w2(1,2) ir by (auto simp: pinned_law_def split: sum.splits)
  have "effective (committed view w') (ws @ [(INSERT_crl, sql_params ?ps)]) = effective (committed view w) ws"
    using crl_conflict_holds [of ?ps fp, OF _ _ fp(2)] by (simp add: effective_append t(2))
  moreover have "busy view w'"
    using command_law(3) [OF L r2 c] ir(2) t(1) by (simp add: busy_def)
  ultimately show ?thesis using t(1) i k ir(1) by auto
qed

text \<open>A CRL that the same batch has already inserted is not found by the lookup, which sees only committed rows; the insertion
  then does nothing, and the first of its revoked certificates names an identifier that no row has.  So the
  transaction of the batch is aborted, although the entry counts as handled.\<close>

theorem repeated_crl_aborts:
  assumes "pg_laws (ev_pg E) view" "pinned w" "up_fingerprintCacheLoaded w" "transaction view w = Open ws sp"
    "base64Decode (getFirstAttribute entry ''certificateRevocationList;binary'') = der" "ev_d2i_crl E der = Some C" "cl_revoked C \<noteq> []"
    "computeFileHash (ev_sha256 E) der = fp" "\<not> holds_crl fp (committed view w)" "holds_crl fp (effective (committed view w) ws)"
    "\<not> holds_crl_id (fst (draw_uuid E w)) (effective (committed view w) ws)" "parseCrlEntry E n u entry w = (True, w')"
  shows "\<exists>sp'. transaction view w' = Aborted sp'"
proof -
  have b: "busy view w" using assms(2-4) by (simp add: busy_def ready_def)
  obtain i w1 where s: "crl_save E u (extractCountryCode (cl_issuerDn C)) C fp der w = (i, w1)" by force
  have i: "i \<noteq> []" using assms(5,6,8,12) s by (auto simp: parseCrlEntry_def Let_def split: if_splits)
  obtain x xs where x: "cl_revoked C = x # xs" using assms(7) by (cases "cl_revoked C") auto
  note cs = crl_save_repeated [OF assms(1) b assms(4,9-11) s i]
  let ?w1 = "w1\<lparr>up_crlCount := up_crlCount w1 + 1\<rparr>"
  let ?w2 = "saveRevokedCertificate E i x ?w1"
  define w3 where "w3 = foldl (\<lambda>w r. saveRevokedCertificate E i r w) ?w2 xs"
  have b1: "busy view ?w1" using cs by (simp add: busy_frame)
  from cs obtain ws1 where "transaction view ?w1 = Open ws1 sp" "\<not> holds_crl_id i (effective (committed view ?w1) ws1)"
    by (auto simp: session_frame)
  from revoked_unknown [OF assms(1) b1 this i] obtain sp2 where a2: "transaction view ?w2 = Aborted sp2" by blast
  have f2: "follows view ?w1 ?w2" using follows_revoked [OF assms(1) b1, of i "[x]"] by simp
  have b2: "busy view ?w2" by (rule busy_follows [OF b1 f2])
  have f3: "follows view ?w2 w3" unfolding w3_def by (rule follows_revoked [OF assms(1) b2])
  have b3: "busy view w3" by (rule busy_follows [OF b2 f3])
  have upd: "follows view w3 (crl_updateLdapStatus E i dn (w3\<lparr>up_directory := l\<rparr>))" for dn l
    using follows_try [OF assms(1), of "w3\<lparr>up_directory := l\<rparr>"] b3 follows_refl [of w3 view]
    by (simp add: crl_updateLdapStatus_def follows_start follows_frame busy_frame) (simp add: busy_def)
  have refl: "follows view w3 w3" using b3 by (simp add: follows_refl busy_def)
  have "w3 = foldl (\<lambda>w r. saveRevokedCertificate E i r w) ?w1 (cl_revoked C)" by (simp add: w3_def x)
  then have "follows view w3 w'"
    using assms(5,6,8,12) s i upd refl
    by (auto simp: parseCrlEntry_def Let_def follows_error follows_frame split: if_splits prod.splits)
  then show ?thesis using a2 f3 by (auto simp: follows_def)
qed

section \<open>A server of the model\<close>

text \<open>A server that keeps the tables and one transaction: a statement fails when it violates a constraint.\<close>

definition fresh_id :: "tables \<Rightarrow> string" where
  "fresh_id t = replicate (Suc (sum_list (map (length \<circ> fst) (tb_certificates t)))) (CHR ''i'')"

definition crl_rows :: "sql_params \<Rightarrow> tables \<Rightarrow> sql_params list" where
  "crl_rows ps t = filter (\<lambda>r. param 7 r = param 0 ps) (tb_crls t)"

definition plain_pool :: "sql \<Rightarrow> sql_params \<Rightarrow> tables \<times> tx \<Rightarrow> sql_row list res \<times> (tables \<times> tx)" where
  "plain_pool q ps d =
     (case d of (t, x) \<Rightarrow>
        if \<not> permitted q ps t then (Inl (Runtime_Error ''constraint''), d)
        else if q = INSERT_certificate then
          (Inr [[(''id'', fresh_id t)]], (t\<lparr>tb_certificates := tb_certificates t @ [(fresh_id t, ps)]\<rparr>, x))
        else if q = SELECT_fingerprints then
          (Inr (map (\<lambda>(i, r). [(''fingerprint_sha256'', or_empty (param 6 r)), (''id'', i), (''first_upload_id'', or_empty (param 0 r))])
             (tb_certificates t)), d)
        else if q = SELECT_crl then
          (if list_all (\<lambda>r. param 0 r \<noteq> None) (crl_rows ps t)
           then (Inr (map (\<lambda>r. [(''id'', or_empty (param 0 r)), (''upload_id'', or_empty (param 1 r))]) (crl_rows ps t)), d)
           else (Inl (Runtime_Error ''null id''), d))
        else (Inr [], (apply_sql q ps t, x)))"

definition plain_pinned :: "sql \<Rightarrow> sql_params \<Rightarrow> tables \<times> tx \<Rightarrow> sql_row list res \<times> (tables \<times> tx)" where
  "plain_pinned q ps d =
     (case d of
        (t, Idle) \<Rightarrow> (Inl (Runtime_Error ''no transaction''), d)
      | (t, Aborted sp) \<Rightarrow> (Inl (Runtime_Error ''current transaction is aborted''), d)
      | (t, Open ws sp) \<Rightarrow>
          if permitted q ps (effective t ws) then (Inr [], (t, Open (ws @ [(q, ps)]) sp))
          else (Inl (Runtime_Error ''constraint''), (t, Aborted sp)))"

definition plain_pg :: "(tables \<times> tx) pg" where
  "plain_pg = \<lparr>
     pg_acquire = (\<lambda>d. (True, d)),
     pg_pool = plain_pool,
     pg_pinned = plain_pinned,
     pg_begin = (\<lambda>d. (True, (fst d, Open [] None))),
     pg_commit = (\<lambda>d. (True, ((case snd d of Open ws sp \<Rightarrow> effective (fst d) ws | _ \<Rightarrow> fst d), Idle))),
     pg_savepoint = (\<lambda>d. (True, (fst d, case snd d of Open ws sp \<Rightarrow> Open ws (Some ws) | x \<Rightarrow> x))),
     pg_rollback_to = (\<lambda>d. (True, (fst d, case snd d of
        Open ws (Some s) \<Rightarrow> Open s (Some s) | Open ws None \<Rightarrow> Aborted None
      | Aborted (Some s) \<Rightarrow> Open s (Some s) | x \<Rightarrow> x)))\<rparr>"

lemma fresh_id_fresh: "fresh_id t \<notin> fst ` set (tb_certificates t)" "fresh_id t \<noteq> []" "CHR 0x00 \<notin> set (fresh_id t)"
proof -
  have "length i < length (fresh_id t)" if "(i, r) \<in> set (tb_certificates t)" for i r
  proof -
    have "length i \<in> set (map (length \<circ> fst) (tb_certificates t))" using that by force
    then have "length i \<le> sum_list (map (length \<circ> fst) (tb_certificates t))" by (rule member_le_sum_list) simp
    then show ?thesis by (simp add: fresh_id_def)
  qed
  then show "fresh_id t \<notin> fst ` set (tb_certificates t)" by force
  show "fresh_id t \<noteq> []" "CHR 0x00 \<notin> set (fresh_id t)" by (simp_all add: fresh_id_def)
qed

lemma plain_pool_law: "pool_law q ps d (fst (plain_pool q ps d)) (snd (plain_pool q ps d))"
proof -
  obtain t x where d: "d = (t, x)" by (cases d)
  have ids: "map (\<lambda>r. Some (column ''id'' r)) (map (\<lambda>r. [(''id'', or_empty (param 0 r)), (''upload_id'', or_empty (param 1 r))]) rs)
      = map (param 0) rs" if "list_all (\<lambda>r. param 0 r \<noteq> None) rs" for rs
    using that by (induction rs) (auto simp: column_def or_empty_def)
  show ?thesis
    using fresh_id_fresh [of t] ids [of "crl_rows ps t"] unfolding d
    by (cases q) (auto simp: plain_pool_def pool_law_def crl_rows_def)
qed

lemma plain_pg_laws: "pg_laws plain_pg (\<lambda>d. d)"
proof -
  have "pinned_law q ps d (fst (plain_pinned q ps d)) (snd (plain_pinned q ps d))" for q ps d
    by (cases d; cases "snd d") (auto simp: plain_pinned_def pinned_law_def)
  then show ?thesis
    using plain_pool_law by (auto simp: pg_laws_def plain_pg_def split: tx.split option.split)
qed

section \<open>Applications\<close>

definition demo_crl :: ldif_crl where
  "demo_crl = \<lparr>cl_issuerDn = ''CN=CSCA,C=KR'', cl_thisUpdate = ''2026-01-01'', cl_nextUpdate = ''2026-04-01'',
     cl_crlNumber = ''07'', cl_revoked = [(''01'', ''2025-01-01'', None)]\<rparr>"

definition demo_surroundings :: "(nat, nat, int, tables \<times> tx, string \<Rightarrow> ldap_attrs option) surroundings" where
  "demo_surroundings = \<lparr>ev_ssl = ptr_pki, ev_d2i = (\<lambda>der. Some 0), ev_leaf = (\<lambda>c. \<lparr>ptr_call = 9, ptr_index = 0, ptr_cert = c\<rparr>),
     ev_texts = (\<lambda>c. demo_texts), ev_metadata = (\<lambda>c. demo_metadata), ev_d2i_crl = (\<lambda>der. Some demo_crl),
     ev_sha256 = (\<lambda>der. Some der), ev_clock = (\<lambda>n i. 0), ev_timestamp = (\<lambda>n. ''now''),
     ev_random = (\<lambda>n. (of_nat n, 0)), ev_directory = tree_store, ev_entry_reader = (\<lambda>a v. None), ev_config = demo_storage,
     ev_connected = True, ev_pg = plain_pg\<rparr>"

definition no_tables :: tables where
  "no_tables = \<lparr>tb_certificates = [], tb_ldap_dns = [], tb_validations = [], tb_crls = [], tb_crl_ldap_dns = [],
     tb_revoked = [], tb_uploads = [], tb_duplicates = [], tb_duplicate_counts = []\<rparr>"

definition demo_upload :: "(tables \<times> tx, string \<Rightarrow> ldap_attrs option) upload" where
  "demo_upload = \<lparr>up_executor = \<lparr>ex_db = (no_tables, Open [] None), ex_batchMode = True, ex_batchConn = True\<rparr>,
     up_directory = demo_directory, up_fingerprintCacheLoaded = True, up_fingerprintCache = (\<lambda>_. None), up_csca = unloaded,
     up_tallies = demo_tallies, up_crlCount = 0, up_ldapCrlStoredCount = 0, up_mlCount = 0, up_mlscCount = 0,
     up_ldapMlStoredCount = 0, up_draws = 0, up_sent = []\<rparr>"

definition demo_entry :: ldif_entry where
  "demo_entry = \<lparr>le_dn = ''cn=1,o=dsc,c=KR,dc=data'', le_attributes = [(''userCertificate;binary'', [''AQID''])]\<rparr>"

definition demo_crl_entry :: ldif_entry where
  "demo_crl_entry = \<lparr>le_dn = ''o=crl,c=KR,dc=data'', le_attributes = [(''certificateRevocationList;binary'', [''AQIE''])]\<rparr>"

text \<open>The same CRL twice in a batch.\<close>

definition no_ml :: "(tables \<times> tx, string \<Rightarrow> ldap_attrs option) ml_parser" where
  "no_ml n entry w = (Inl (Runtime_Error []), w)"

definition demo_offline :: "(nat, nat, int, tables \<times> tx, string \<Rightarrow> ldap_attrs option) surroundings" where
  "demo_offline = demo_surroundings\<lparr>ev_connected := False\<rparr>"

definition demo_uuid :: "nat \<Rightarrow> string" where
  "demo_uuid n = generateUuid (of_nat n) 0"

lemma nat_hex_digits:
  "n < 16 \<Longrightarrow> nat_hex n = [hex_digit n]" "16 \<le> n \<Longrightarrow> nat_hex n = nat_hex (n div 16) @ [hex_digit (n mod 16)]"
  by (simp_all add: nat_hex.simps [of n])

lemma demo_uuid_texts:
  "demo_uuid 0 = ''00000000-0000-4000-8000-000000000000''" "demo_uuid 2 = ''00000000-0000-4002-8000-000000000000''"
  by ((simp add: demo_uuid_def generateUuid_def Let_def setw_hex_def nat_hex_digits pad0_def hex_digit_def), code_simp)+

lemma demo_uuids: "demo_uuid n \<noteq> []" "c_str (demo_uuid 0) \<noteq> c_str (demo_uuid 2)"
  unfolding demo_uuid_texts
  by (simp add: demo_uuid_def generateUuid_def Let_def) (simp add: c_str_def)

lemma demo_decoded: "base64Decode ''AQIE'' = [1, 2, 4]" "base64Decode ''AQID'' = [1, 2, 3]"
  by (rule base64Decode_lines, code_simp)+

lemma demo_country: "extractCountryCode ''CN=CSCA,C=KR'' = ''KR''"
proof -
  have "\<forall>r \<in> set [''CN=CSCA'', ''C=KR'']. Cert_Utils.rdn_text r" by code_simp
  from country_of_rdns [OF this]
  have "extractCountryCode (join '','' [''CN=CSCA'', ''C=KR''])
    = (case List.map_filter cc_attr [''CN=CSCA'', ''C=KR''] of [] \<Rightarrow> ''XX'' | v # _ \<Rightarrow> to_upper v)" .
  also have "\<dots> = ''KR''" by code_simp
  finally show ?thesis by simp
qed

text \<open>Statements on the server.\<close>

definition stored :: "(tables \<times> tx, 'l) upload \<Rightarrow> tables \<times> tx \<Rightarrow> (tables \<times> tx, 'l) upload" where
  "stored w d = w\<lparr>up_executor := (up_executor w)\<lparr>ex_db := d\<rparr>\<rparr>"

lemma stored_session: "transaction view (stored w d) = snd (view d)" "committed view (stored w d) = fst (view d)"
  "ready (stored w d) = ready w"
  by (simp_all add: stored_def transaction_def committed_def ready_def pinned_def)

lemma plain_command:
  assumes "ev_pg E = plain_pg" "pinned w" "ex_db (up_executor w) = (t, Open ws sp)" "permitted q (sql_params ps) (effective t ws)"
  shows "command E q ps w = (Inr [], stored w (t, Open (ws @ [(q, sql_params ps)]) sp))"
  using assms by (simp add: command_def executeCommand_def pinned_def plain_pg_def plain_pinned_def stored_def)

definition crl_params :: "string \<Rightarrow> string \<Rightarrow> string \<Rightarrow> ldif_crl \<Rightarrow> string \<Rightarrow> byte list \<Rightarrow> sql_params" where
  "crl_params k u cc C fp der = sql_params [k, u, cc, cl_issuerDn C, cl_thisUpdate C, cl_nextUpdate C, cl_crlNumber C, fp, hex_column der]"

lemma plain_crl_save:
  assumes "ev_pg E = plain_pg" "pinned w" "ex_db (up_executor w) = (t, Open ws sp)" "crl_rows (sql_params [fp]) t = []"
    "cc \<noteq> []" "cl_issuerDn C \<noteq> []" "cl_thisUpdate C \<noteq> []" "fp \<noteq> []" "draw_uuid E w = (k, w1)"
  shows "crl_save E u cc C fp der w = (k, stored w1 (t, Open (ws @ [(INSERT_crl, crl_params k u cc C fp der)]) sp))"
proof -
  let ?ps = "[k, u, cc, cl_issuerDn C, cl_thisUpdate C, cl_nextUpdate C, cl_crlNumber C, fp, hex_column der]"
  have d: "pinned w1" "ex_db (up_executor w1) = (t, Open ws sp)"
    using assms(2,3,9) by (auto simp: draw_uuid_def pinned_def split: prod.splits)
  have "permitted INSERT_crl (sql_params ?ps) x" for x
    using assms(5-8) by (simp add: param_def sql_params_def hex_column_def hexPrefix_def nth_Cons')
  note c = plain_command [OF assms(1) d this]
  have "query E SELECT_crl [fp] w = (Inr [], w)"
    using assms(1,3,4) by (simp add: query_def executeQuery_def plain_pg_def plain_pool_def)
  then show ?thesis using assms(9) c by (simp add: crl_save_def crl_params_def)
qed

definition demo_fp :: string where
  "demo_fp = bytes_hex [1, 2, 4]"

lemma offline_fields:
  "ev_pg demo_offline = plain_pg" "ev_d2i_crl demo_offline der = Some demo_crl" "ev_connected demo_offline = False"
  "computeFileHash (ev_sha256 demo_offline) [1, 2, 4] = demo_fp" "draw_uuid demo_offline w = (demo_uuid (up_draws w), w\<lparr>up_draws := Suc (up_draws w)\<rparr>)"
  "getFirstAttribute demo_crl_entry ''certificateRevocationList;binary'' = ''AQIE''"
  by (simp_all add: demo_offline_def demo_surroundings_def computeFileHash_def demo_fp_def draw_uuid_def demo_uuid_def
      getFirstAttribute_def demo_crl_entry_def)

lemma demo_nonempty: "cl_issuerDn demo_crl = ''CN=CSCA,C=KR''" "cl_thisUpdate demo_crl \<noteq> []" "demo_fp \<noteq> []"
  "cl_revoked demo_crl = [(''01'', ''2025-01-01'', None)]"
  by (simp_all add: demo_crl_def demo_fp_def)

lemma demo_crl_parsed:
  assumes "pinned w" "ex_db (up_executor w) = (no_tables, Open ws sp)"
  shows "parseCrlEntry demo_offline n u demo_crl_entry w = (True, saveRevokedCertificate demo_offline (demo_uuid (up_draws w))
     (''01'', ''2025-01-01'', None) ((stored (w\<lparr>up_draws := Suc (up_draws w)\<rparr>) (no_tables, Open (ws @ [(INSERT_crl,
        crl_params (demo_uuid (up_draws w)) u ''KR'' demo_crl demo_fp [1, 2, 4])]) sp))\<lparr>up_crlCount := up_crlCount w + 1\<rparr>))"
proof -
  have "crl_rows (sql_params [demo_fp]) no_tables = []" by (simp add: crl_rows_def no_tables_def)
  from plain_crl_save [OF offline_fields(1) assms this _ _ _ demo_nonempty(3) offline_fields(5), of "''KR''" demo_crl u "[1, 2, 4]"] show ?thesis
    by (simp add: parseCrlEntry_def Let_def offline_fields demo_decoded demo_country demo_nonempty demo_uuids)
      (simp add: stored_def)
qed

lemma demo_revoked:
  assumes "pinned w" "ex_db (up_executor w) = (no_tables, Open [(INSERT_crl, crl_params k u ''KR'' demo_crl demo_fp [1, 2, 4])] sp)" "k \<noteq> []"
  shows "saveRevokedCertificate demo_offline k (''01'', ''2025-01-01'', None) w = stored (w\<lparr>up_draws := Suc (up_draws w)\<rparr>)
     (no_tables, Open [(INSERT_crl, crl_params k u ''KR'' demo_crl demo_fp [1, 2, 4]),
        (INSERT_revoked, sql_params [demo_uuid (up_draws w), k, ''01'', ''2025-01-01'', ''unspecified''])] sp)"
proof -
  let ?w = "w\<lparr>up_draws := Suc (up_draws w)\<rparr>"
  let ?ps = "[demo_uuid (up_draws w), k, ''01'', ''2025-01-01'', ''unspecified'']"
  have "permitted INSERT_revoked (sql_params ?ps) (effective no_tables [(INSERT_crl, crl_params k u ''KR'' demo_crl demo_fp [1, 2, 4])])"
    using assms(3) by (simp add: param_def sql_params_def effective_def crl_conflict_def no_tables_def crl_params_def)
  from plain_command [OF offline_fields(1) _ _ this, of ?w sp] assms(1,2) show ?thesis
    by (simp add: saveRevokedCertificate_def offline_fields try_command_def reason_text_def pinned_def)
qed

definition demo_second :: "(tables \<times> tx, string \<Rightarrow> ldap_attrs option) upload" where
  "demo_second = snd (parseCrlEntry demo_offline 0 ''u1'' demo_crl_entry demo_upload)"

lemma demo_second:
  "pinned demo_second" "up_fingerprintCacheLoaded demo_second" "up_draws demo_second = 2" "committed (\<lambda>d. d) demo_second = no_tables"
  "transaction (\<lambda>d. d) demo_second = Open [(INSERT_crl, crl_params (demo_uuid 0) ''u1'' ''KR'' demo_crl demo_fp [1, 2, 4]),
     (INSERT_revoked, sql_params [demo_uuid 1, demo_uuid 0, ''01'', ''2025-01-01'', ''unspecified''])] None"
proof -
  have w: "pinned demo_upload" "ex_db (up_executor demo_upload) = (no_tables, Open [] None)" "up_draws demo_upload = 0"
    "up_fingerprintCacheLoaded demo_upload"
    by (simp_all add: demo_upload_def pinned_def)
  have e: "demo_second = stored (stored (demo_upload\<lparr>up_draws := Suc 0\<rparr>) (no_tables, Open [(INSERT_crl, crl_params (demo_uuid 0) ''u1'' ''KR'' demo_crl demo_fp [1, 2, 4])] None)
        \<lparr>up_crlCount := up_crlCount demo_upload + 1, up_draws := 2\<rparr>)
     (no_tables, Open [(INSERT_crl, crl_params (demo_uuid 0) ''u1'' ''KR'' demo_crl demo_fp [1, 2, 4]),
       (INSERT_revoked, sql_params [demo_uuid 1, demo_uuid 0, ''01'', ''2025-01-01'', ''unspecified''])] None)"
    unfolding demo_second_def demo_crl_parsed [OF w(1,2)] using w
    by (subst demo_revoked) (simp_all add: stored_def pinned_def demo_uuids numeral_2_eq_2)
  show "pinned demo_second" "up_fingerprintCacheLoaded demo_second" "up_draws demo_second = 2" "committed (\<lambda>d. d) demo_second = no_tables"
  "transaction (\<lambda>d. d) demo_second = Open [(INSERT_crl, crl_params (demo_uuid 0) ''u1'' ''KR'' demo_crl demo_fp [1, 2, 4]),
     (INSERT_revoked, sql_params [demo_uuid 1, demo_uuid 0, ''01'', ''2025-01-01'', ''unspecified''])] None"
    using w by (simp_all add: e stored_def pinned_def committed_def transaction_def)
qed

lemma demo_second_holds:
  "effective no_tables [(INSERT_crl, crl_params (demo_uuid 0) ''u1'' ''KR'' demo_crl demo_fp [1, 2, 4]),
     (INSERT_revoked, r)] = no_tables\<lparr>tb_crls := [crl_params (demo_uuid 0) ''u1'' ''KR'' demo_crl demo_fp [1, 2, 4]], tb_revoked := [r]\<rparr>"
  by (simp add: effective_def no_tables_def crl_conflict_def)

lemma repeated_crl_aborts_witness:
  "\<exists>sp. transaction (\<lambda>d. d) (snd (parseCrlEntry demo_offline 1 ''u1'' demo_crl_entry demo_second)) = Aborted sp"
proof -
  have "ex_db (up_executor demo_second) = (no_tables, transaction (\<lambda>d. d) demo_second)"
    using demo_second(4) by (simp add: committed_def transaction_def prod_eq_iff)
  then obtain w where p: "parseCrlEntry demo_offline 1 ''u1'' demo_crl_entry demo_second = (True, w)"
    using demo_crl_parsed [OF demo_second(1)] demo_second(5) by metis
  have l: "pg_laws (ev_pg demo_offline) (\<lambda>d. d)" using plain_pg_laws by (simp add: offline_fields)
  have n: "\<not> holds_crl demo_fp (committed (\<lambda>d. d) demo_second)" by (simp add: demo_second no_tables_def holds_crl_def)
  have h: "holds_crl demo_fp (effective (committed (\<lambda>d. d) demo_second) [(INSERT_crl, crl_params (demo_uuid 0) ''u1'' ''KR'' demo_crl demo_fp [1, 2, 4]),
     (INSERT_revoked, sql_params [demo_uuid 1, demo_uuid 0, ''01'', ''2025-01-01'', ''unspecified''])])"
    unfolding demo_second(4) demo_second_holds by (simp add: holds_crl_def crl_params_def param_def sql_params_def)
  have i: "\<not> holds_crl_id (fst (draw_uuid demo_offline demo_second)) (effective (committed (\<lambda>d. d) demo_second)
     [(INSERT_crl, crl_params (demo_uuid 0) ''u1'' ''KR'' demo_crl demo_fp [1, 2, 4]),
     (INSERT_revoked, sql_params [demo_uuid 1, demo_uuid 0, ''01'', ''2025-01-01'', ''unspecified''])])"
    unfolding demo_second(3,4) demo_second_holds offline_fields fst_conv using demo_uuids
    by (simp add: holds_crl_id_def crl_params_def param_def sql_params_def)
  have v: "cl_revoked demo_crl \<noteq> []" by (simp add: demo_nonempty)
  have b: "base64Decode (getFirstAttribute demo_crl_entry ''certificateRevocationList;binary'') = [1, 2, 4]"
    by (simp add: offline_fields demo_decoded)
  from repeated_crl_aborts [OF l demo_second(1,2,5) b offline_fields(2) v offline_fields(4) n h i p] show ?thesis by (simp only: p snd_conv)
qed

text \<open>A revoked certificate without a date loses the CRL it is part of, although the CRL is counted.\<close>

definition is_aborted :: "tx \<Rightarrow> bool" where
  "is_aborted t = (case t of Aborted sp \<Rightarrow> True | _ \<Rightarrow> False)"

definition demo_dateless :: "(nat, nat, int, tables \<times> tx, string \<Rightarrow> ldap_attrs option) surroundings" where
  "demo_dateless = demo_offline\<lparr>ev_d2i_crl := (\<lambda>der. Some (demo_crl\<lparr>cl_revoked := [(''01'', [], None)]\<rparr>))\<rparr>"

lemma dateless_fields:
  "ev_pg demo_dateless = plain_pg" "ev_d2i_crl demo_dateless der = Some (demo_crl\<lparr>cl_revoked := [(''01'', [], None)]\<rparr>)"
  "ev_connected demo_dateless = False" "computeFileHash (ev_sha256 demo_dateless) [1, 2, 4] = demo_fp"
  "draw_uuid demo_dateless w = (demo_uuid (up_draws w), w\<lparr>up_draws := Suc (up_draws w)\<rparr>)"
  using offline_fields by (simp_all add: demo_dateless_def draw_uuid_def)

lemma dateless_aborts:
  assumes "pinned w" "ex_db (up_executor w) = (no_tables, Open ws sp)"
  shows "is_aborted (transaction (\<lambda>d. d) (snd (parseCrlEntry demo_dateless n u demo_crl_entry w)))
    \<and> up_crlCount (snd (parseCrlEntry demo_dateless n u demo_crl_entry w)) = up_crlCount w + 1"
proof -
  let ?C = "demo_crl\<lparr>cl_revoked := [(''01'', [], None)]\<rparr>"
  let ?w = "stored (w\<lparr>up_draws := Suc (up_draws w)\<rparr>) (no_tables, Open (ws @ [(INSERT_crl, crl_params (demo_uuid (up_draws w)) u ''KR'' ?C demo_fp [1, 2, 4])]) sp)"
  have "crl_rows (sql_params [demo_fp]) no_tables = []" by (simp add: crl_rows_def no_tables_def)
  from plain_crl_save [OF dateless_fields(1) assms this _ _ _ demo_nonempty(3) dateless_fields(5), of "''KR''" ?C u "[1, 2, 4]"]
  have p: "parseCrlEntry demo_dateless n u demo_crl_entry w
      = (True, saveRevokedCertificate demo_dateless (demo_uuid (up_draws w)) (''01'', [], None) (?w\<lparr>up_crlCount := up_crlCount w + 1\<rparr>))"
    by (simp add: parseCrlEntry_def Let_def offline_fields(6) dateless_fields demo_decoded demo_country demo_nonempty demo_uuids)
      (simp add: stored_def)
  let ?ps = "[demo_uuid (Suc (up_draws w)), demo_uuid (up_draws w), ''01'', [], ''unspecified'']"
  have "\<not> permitted INSERT_revoked (sql_params ?ps) t" for t by (simp add: param_def sql_params_def)
  then show ?thesis using assms(1)
    by (simp add: p saveRevokedCertificate_def dateless_fields stored_def reason_text_def try_command_def command_def
        executeCommand_def pinned_def plain_pg_def plain_pinned_def transaction_def is_aborted_def)
qed

lemma batch_outcome_witness:
  "tb_crls (committed (\<lambda>d. d) (end_batch demo_dateless (run_entries demo_dateless no_ml ''u1'' 0 [demo_crl_entry] demo_upload))) = []
   \<and> up_crlCount (run_entries demo_dateless no_ml ''u1'' 0 [demo_crl_entry] demo_upload) = 1"
proof -
  let ?w = "run_entries demo_dateless no_ml ''u1'' 0 [demo_crl_entry] demo_upload"
  let ?s = "demo_upload\<lparr>up_executor := savepoint plain_pg (up_executor demo_upload)\<rparr>"
  have u: "pinned demo_upload" "up_fingerprintCacheLoaded demo_upload" "transaction (\<lambda>d. d) demo_upload = Open [] None"
      "committed (\<lambda>d. d) demo_upload = no_tables" "up_crlCount demo_upload = 0"
    by (simp_all add: demo_upload_def pinned_def transaction_def committed_def)
  have ml: "\<forall>entry \<in> set [demo_crl_entry]. no_master_list entry"
    by (simp add: demo_crl_entry_def no_master_list_def hasAttribute_def)
  have s: "pinned ?s" "ex_db (up_executor ?s) = (no_tables, Open [] (Some []))" "up_crlCount ?s = 0"
    by (simp_all add: demo_upload_def savepoint_def pinned_def plain_pg_def)
  have w: "?w = snd (parseCrlEntry demo_dateless 0 ''u1'' demo_crl_entry ?s)"
    by (simp add: process_entry_def entry_body_def Let_def demo_crl_entry_def hasAttribute_def dateless_fields)
  have a: "is_aborted (transaction (\<lambda>d. d) ?w)" "up_crlCount ?w = 1"
    unfolding w using dateless_aborts [OF s(1,2), of 0 "''u1''"] s(3) by simp_all
  have l: "pg_laws (ev_pg demo_dateless) (\<lambda>d. d)" using plain_pg_laws by (simp add: dateless_fields)
  from batch_outcome [OF l u(1,2,3) ml refl refl, of no_ml "''u1''" 0] obtain new where
    "committed (\<lambda>d. d) (end_batch demo_dateless ?w) = no_tables\<lparr>tb_certificates := tb_certificates no_tables @ new\<rparr>"
    using a(1) u(4) by (auto simp: Let_def is_aborted_def)
  then show ?thesis using a(2) by (simp add: no_tables_def)
qed

text \<open>A certificate.\<close>

lemma judge_country: "vr_countryCode (jd_record (fst (judge L prov clk dn T c j))) = vr_countryCode (jd_record j)"
proof -
  have "vr_countryCode (jd_record (chain_verdict m e v j)) = vr_countryCode (jd_record j)" for m e v and j :: judgement
    by (simp add: chain_verdict_def verdict_defs)
  moreover have "vr_countryCode (jd_record (csca_branch L x j)) = vr_countryCode (jd_record j)" for x
    by (simp add: csca_branch_def Let_def verdict_defs)
  ultimately show ?thesis
    by (simp add: judge_def Let_def record_compliance_def classify_def nc_branch_def dsc_branch_def link_branch_def dsc_record_def)
qed

lemma judge_type: "jd_certType (fst (judge L prov clk dn T c j)) \<in> {''CSCA'', ''DSC'', ''DSC_NC''}"
  by (simp add: judge_def Let_def classify_def nc_branch_def dsc_branch_def link_branch_def chain_verdict_type csca_branch_def verdict_defs)

lemma judge_record_type: "vr_certificateType (jd_record (fst (judge L prov clk dn T c j))) = jd_certType (fst (judge L prov clk dn T c j))"
proof -
  have "vr_certificateType (jd_record (chain_verdict m e v j)) = vr_certificateType (jd_record j)" for m e v and j :: judgement
    by (simp add: chain_verdict_def verdict_defs)
  moreover have "vr_certificateType (jd_record (csca_branch L x j)) = ''CSCA''" "jd_certType (csca_branch L x j) = ''CSCA''" for x
    by (simp_all add: csca_branch_def Let_def verdict_defs)
  ultimately show ?thesis
    by (simp add: judge_def Let_def record_compliance_def classify_def nc_branch_def dsc_branch_def link_branch_def dsc_record_def
        chain_verdict_type)
qed

lemma expected_status_nonempty: "expected_status L prov clk T c \<noteq> []"
  by (simp add: expected_status_def Let_def)

lemma judged_texts:
  assumes "judge_and_count L prov clk ts u fp dn T c t = (j, t')"
  shows "jd_certType j \<in> {''CSCA'', ''DSC'', ''DSC_NC''}" "vr_countryCode (jd_record j) = country_of T"
    "vr_validationStatus (jd_record j) \<noteq> []" "vr_certificateType (jd_record j) = jd_certType j"
proof -
  from assms obtain j0 where j: "j = fst (judge L prov clk dn T c j0)" and j0: "vr_countryCode (jd_record j0) = country_of T"
    by (auto simp: judge_and_count_def Let_def start_judgement_def)
  show "jd_certType j \<in> {''CSCA'', ''DSC'', ''DSC_NC''}" unfolding j by (rule judge_type)
  show "vr_countryCode (jd_record j) = country_of T" unfolding j judge_country by (rule j0)
  show "vr_validationStatus (jd_record j) \<noteq> []" unfolding j judge_record_status by (rule expected_status_nonempty)
  show "vr_certificateType (jd_record j) = jd_certType j" unfolding j by (rule judge_record_type)
qed

lemma plain_insert:
  assumes "ev_pg E = plain_pg" "ready w" "ex_db (up_executor w) = (t, x)" "permitted INSERT_certificate (sql_params params) t"
  shows "insert_certificate E params fp u w = ((fresh_id t, False), addToFingerprintCache fp (fresh_id t) u
     (stored w (t\<lparr>tb_certificates := tb_certificates t @ [(fresh_id t, sql_params params)]\<rparr>, x)))"
  using assms by (simp add: insert_certificate_def query_def executeQuery_def plain_pg_def plain_pool_def column_def ready_def
      stored_def addToFingerprintCache_def Let_def)

lemma plain_load:
  assumes "ev_pg E = plain_pg"
  obtains c where "load_cscas E w = w\<lparr>up_csca := c\<rparr>"
proof -
  obtain t x where d: "ex_db (up_executor w) = (t, x)" by force
  have "query E SELECT_cscas [] w = (Inr [], w)"
    using assms d by (simp add: query_def executeQuery_def plain_pg_def plain_pool_def)
  then have "load_cscas E w = w\<lparr>up_csca := (if cacheLoaded (up_csca w) then up_csca w else preloadAllCscas [] (up_csca w))\<rparr>"
    by (simp add: load_cscas_def findAllCscas_def)
  then show thesis by (rule that)
qed

lemma plain_directory:
  assumes "ev_pg E = plain_pg" "pinned w" "transaction (\<lambda>d. d) w = Open ws sp"
  shows "\<exists>ws' sp'. transaction (\<lambda>d. d) (store_in_directory E n entry j fp der i w) = Open ws' sp'"
proof -
  obtain t where d: "ex_db (up_executor w) = (t, Open ws sp)" using assms(3) by (cases "ex_db (up_executor w)") (simp add: transaction_def)
  have "command E UPDATE_certificate_ldap ps (w\<lparr>up_directory := l\<rparr>)
      = (Inr [], stored (w\<lparr>up_directory := l\<rparr>) (t, Open (ws @ [(UPDATE_certificate_ldap, sql_params ps)]) sp))" for ps l
    by (rule plain_command [OF assms(1)]) (use assms(2) d in \<open>simp_all add: pinned_def\<close>)
  then show ?thesis
    by (auto simp: store_in_directory_def Let_def error_frame session_frame assms(3) updateCertificateLdapStatus_def try_command_def
        stored_session split: prod.split)
qed

lemma demo_subject_country: "extractCountryCode ''CN=DS,C=KR'' = ''KR''"
proof -
  have "\<forall>r \<in> set [''CN=DS'', ''C=KR'']. Cert_Utils.rdn_text r" by code_simp
  from country_of_rdns [OF this]
  have "extractCountryCode (join '','' [''CN=DS'', ''C=KR''])
    = (case List.map_filter cc_attr [''CN=DS'', ''C=KR''] of [] \<Rightarrow> ''XX'' | v # _ \<Rightarrow> to_upper v)" .
  also have "\<dots> = ''KR''" by code_simp
  finally show ?thesis by simp
qed

lemma demo_certificate_stored:
  "\<exists>w' ws' sp'. parseCertificateEntry demo_surroundings 0 ''u1'' demo_entry ''userCertificate;binary'' demo_upload = (True, w')
     \<and> transaction (\<lambda>d. d) w' = Open ws' sp'"
proof -
  let ?E = demo_surroundings
  have E: "ev_pg ?E = plain_pg" by (simp add: demo_surroundings_def)
  obtain c where c: "load_cscas ?E demo_upload = demo_upload\<lparr>up_csca := c\<rparr>" by (rule plain_load [OF E])
  define w1 where "w1 = (if looks_up_cscas ?E 0 demo_texts 0 then load_cscas ?E demo_upload else demo_upload)"
  define fp where "fp = bytes_hex [1, 2, 3]"
  obtain j t where jt: "judge_and_count (ev_ssl ?E) (db_provider [] (ev_d2i ?E) (up_csca w1)) (ev_clock ?E 0) (ev_timestamp ?E 0)
      ''u1'' fp (le_dn demo_entry) demo_texts (ev_leaf ?E 0) (up_tallies w1) = (j, t)" by force
  let ?w = "w1\<lparr>up_tallies := t\<rparr>"
  have w: "ready ?w" "ex_db (up_executor ?w) = (no_tables, Open [] None)" "up_fingerprintCache ?w fp = None"
    unfolding w1_def c by (simp_all add: ready_def pinned_def demo_upload_def)
  have j: "jd_certType j \<noteq> []" "vr_countryCode (jd_record j) = ''KR''" "vr_validationStatus (jd_record j) \<noteq> []"
    using judged_texts [OF jt] by (auto simp: country_of_def demo_texts_def demo_subject_country)
  let ?p = "insert_params ''u1'' (jd_certType j) (vr_countryCode (jd_record j)) demo_texts fp [1, 2, 3] (jd_status j) (jd_message j) demo_metadata"
  have "permitted INSERT_certificate (sql_params ?p) no_tables" using j(1,2)
    by (simp add: insert_params_def param_def sql_params_def nth_Cons' demo_texts_def fp_def hex_column_def hexPrefix_def no_tables_def)
  note ins = plain_insert [OF E w(1,2) this, of fp "''u1''"]
  define i where "i = fresh_id no_tables"
  define w2 where "w2 = addToFingerprintCache fp i ''u1'' (stored ?w (no_tables\<lparr>tb_certificates := tb_certificates no_tables @ [(i, sql_params ?p)]\<rparr>, Open [] None))"
  have s: "saveCertificateWithDuplicateCheck ?E ''u1'' (jd_certType j) (vr_countryCode (jd_record j)) demo_texts fp [1, 2, 3]
      (jd_status j) (jd_message j) (ev_metadata ?E 0) ?w = ((i, False), w2)"
    using ins w(1,3) by (simp add: saveCertificateWithDuplicateCheck_def save_checked_def ready_def Let_def w2_def i_def demo_surroundings_def)
  define w3 where "w3 = (if jd_certType j = ''CSCA'' then w2\<lparr>up_csca := invalidateCache (up_csca w2)\<rparr> else w2)"
  have w3: "pinned w3" "ex_db (up_executor w3) = (no_tables\<lparr>tb_certificates := [(i, sql_params ?p)]\<rparr>, Open [] None)"
    using w(1) by (simp_all add: w3_def w2_def addToFingerprintCache_def stored_def ready_def pinned_def no_tables_def)
  let ?v = "validation_params ((jd_record j)\<lparr>vr_certificateId := i\<rparr>)"
  have "i \<noteq> []" "c_str i = i" using fresh_id_fresh c_str_id by (simp_all add: i_def)
  then have "permitted INSERT_validation (sql_params ?v) (effective (no_tables\<lparr>tb_certificates := [(i, sql_params ?p)]\<rparr>) [])"
    using j by (simp add: validation_params_def param_def sql_params_def nth_Cons' effective_def Let_def judged_texts(4) [OF jt])
  from plain_command [OF E w3 this] have v: "validation_save ?E ((jd_record j)\<lparr>vr_certificateId := i\<rparr>) w3
      = stored w3 (no_tables\<lparr>tb_certificates := [(i, sql_params ?p)]\<rparr>, Open [(INSERT_validation, sql_params ?v)] None)"
    by (simp add: validation_save_def try_command_def)
  let ?w4 = "validation_save ?E ((jd_record j)\<lparr>vr_certificateId := i\<rparr>) w3"
  have "parseCertificateEntry ?E 0 ''u1'' demo_entry ''userCertificate;binary'' demo_upload
      = store_judged ?E 0 ''u1'' demo_entry demo_texts 0 j fp [1, 2, 3] ?w"
  proof -
    have "getFirstAttribute demo_entry ''userCertificate;binary'' = ''AQID''" by (simp add: demo_entry_def getFirstAttribute_def)
    moreover have "computeFileHash (ev_sha256 ?E) [1, 2, 3] = fp" "ev_d2i ?E d = Some 0" "ev_texts ?E x = demo_texts" for d x
      by (simp_all add: demo_surroundings_def computeFileHash_def fp_def)
    moreover have "\<not> isFingerprintCached fp demo_upload" by (simp add: isFingerprintCached_def demo_upload_def)
    ultimately show ?thesis using jt [unfolded w1_def]
      by (simp only: parseCertificateEntry_def Let_def demo_decoded option.case if_False w1_def prod.case list.distinct)
  qed
  also have "\<dots> = (True, store_in_directory ?E 0 demo_entry j fp [1, 2, 3] i ?w4)"
    using \<open>i \<noteq> []\<close> unfolding store_judged_def s prod.case w3_def Let_def by (simp add: demo_surroundings_def)
  finally have p: "parseCertificateEntry ?E 0 ''u1'' demo_entry ''userCertificate;binary'' demo_upload
      = (True, store_in_directory ?E 0 demo_entry j fp [1, 2, 3] i ?w4)" .
  have "transaction (\<lambda>d. d) ?w4 = Open [(INSERT_validation, sql_params ?v)] None" by (simp add: v stored_session)
  moreover have "pinned ?w4" using w3(1) by (simp add: v stored_def pinned_def)
  ultimately show ?thesis using plain_directory [OF E, of ?w4] p by blast
qed

lemma certificate_stored_witness:
  "\<exists>i row. tb_certificates (committed (\<lambda>d. d) (snd (parseCertificateEntry demo_surroundings 0 ''u1'' demo_entry
      ''userCertificate;binary'' demo_upload))) = [(i, row)] \<and> param 6 row = Some (c_str (bytes_hex [1, 2, 3]))"
proof -
  obtain w' ws' sp' where p: "parseCertificateEntry demo_surroundings 0 ''u1'' demo_entry ''userCertificate;binary'' demo_upload = (True, w')"
    and o': "transaction (\<lambda>d. d) w' = Open ws' sp'" using demo_certificate_stored by blast
  have E: "pg_laws (ev_pg demo_surroundings) (\<lambda>d. d)" "ldap_store_laws (ev_directory demo_surroundings) (\<lambda>d. d)"
    "computeFileHash (ev_sha256 demo_surroundings) [1, 2, 3] = bytes_hex [1, 2, 3]"
    using plain_pg_laws tree_store_laws by (simp_all add: demo_surroundings_def computeFileHash_def)
  have u: "pinned demo_upload" "up_fingerprintCacheLoaded demo_upload" "transaction (\<lambda>d. d) demo_upload = Open [] None"
    "\<not> isFingerprintCached fp demo_upload" "committed (\<lambda>d. d) demo_upload = no_tables" for fp
    by (simp_all add: demo_upload_def pinned_def transaction_def committed_def isFingerprintCached_def)
  have d: "base64Decode (getFirstAttribute demo_entry ''userCertificate;binary'') = [1, 2, 3]"
    by (simp add: demo_entry_def getFirstAttribute_def demo_decoded)
  from certificate_stored [OF E(1,2) u(1,2,3) d E(3) u(4) p o'] show ?thesis
    unfolding p snd_conv u(5) by (auto simp: no_tables_def)
qed

section \<open>The CSCAs of an upload\<close>

text \<open>A CSCA comes back from the database as it was stored.\<close>

theorem csca_row_roundtrip:
  assumes "der \<noteq> []" "hd der \<noteq> 0x5C" "subjectDn \<noteq> []"
  shows "csca_row [(''subject_dn'', subjectDn), (''certificate_data'', hex_column der)] = Some (subjectDn, der)"
proof -
  have h: "hex_column der = bytea_text der" by (simp add: hex_column_def hexPrefix_def bytea_text_def)
  have "2 < length (bytea_text der)" "bytea_text der \<noteq> []" "bytea_text der ! 0 = CHR 0x5C" "bytea_text der ! 1 = CHR ''x''" "drop 2 (bytea_text der) = bytes_hex der"
    using assms(1) by (cases der; simp add: bytea_text_def)+
  moreover have "der ! 0 \<noteq> 0x5C" using assms(1,2) by (cases der) simp_all
  ultimately show ?thesis using assms(1,3) by (simp add: csca_row_def h column_def Let_def)
qed

lemma csca_row_roundtrip_witness:
  "csca_row [(''subject_dn'', ''C=KR''), (''certificate_data'', hex_column [0x30, 0x82])] = Some (''C=KR'', [0x30, 0x82])"
  using csca_row_roundtrip [of "[0x30, 0x82]" "''C=KR''"] by simp

text \<open>When the query for the CSCAs fails, the cache is empty but counts as loaded: no later lookup of the upload asks again.\<close>

lemma failed_csca_load:
  assumes "query E SELECT_cscas [] w = (Inl e, w1)" "\<not> cacheLoaded (up_csca w)"
  shows "cacheLoaded (up_csca (load_cscas E w)) \<and> cscaCache (up_csca (load_cscas E w)) = []
    \<and> load_cscas E' (load_cscas E w) = load_cscas E w"
  using assms by (simp add: load_cscas_def findAllCscas_def preloadAllCscas_def)

text \<open>An element of an array column that holds a comma becomes two.\<close>

lemma pg_array_comma: "pg_array [a @ '','' @ b] = pg_array [a, b]"
  by (simp add: pg_array_def)

end
