(* ===== verification/Upload_Session.thy ===== *)
theory Upload_Session
  imports Upload_Loss
begin

text \<open>
  A property of the executor that every statement keeps is kept by a whole upload: the locale \<open>session_invariant\<close>,
  with its interpretation that no transaction outlives the batch mode.
\<close>

locale session_invariant =
  fixes E :: "('c, 'k, 't, 'd, 'l) surroundings" and P :: "'d executor \<Rightarrow> bool"
  assumes query: "P ex \<Longrightarrow> P (snd (executeQuery (ev_pg E) q ps ex))"
    and command: "P ex \<Longrightarrow> P (snd (executeCommand (ev_pg E) q ps ex))"
    and mark: "P ex \<Longrightarrow> P (savepoint (ev_pg E) ex)"
    and unwind: "P ex \<Longrightarrow> P (rollbackToSavepoint (ev_pg E) ex)"
    and begins: "P ex \<Longrightarrow> P (snd (beginBatch (ev_pg E) ex))"
    and ends: "P ex \<Longrightarrow> P (endBatch (ev_pg E) ex)"
begin

abbreviation keeps :: "('d, 'l) upload \<Rightarrow> bool" where
  "keeps w \<equiv> P (up_executor w)"

lemma keeps_query: "query E q ps w = (r, w') \<Longrightarrow> keeps w \<Longrightarrow> keeps w'"
  using query [of "up_executor w" q ps] by (auto simp: query_def split: prod.splits)

lemma keeps_command: "command E q ps w = (r, w') \<Longrightarrow> keeps w \<Longrightarrow> keeps w'"
  using command [of "up_executor w" q ps] by (auto simp: command_def split: prod.splits)

lemma keeps_try: "keeps w \<Longrightarrow> keeps (try_command E q ps w)"
  unfolding try_command_def by (rule keeps_command [OF surjective_pairing])

lemma keeps_error: "up_executor (add_error_to E n ty dn cdn cc ct m w) = up_executor w"
  by (simp add: add_error_to_def)

lemma keeps_load: "keeps w \<Longrightarrow> keeps (load_cscas E w)"
  by (auto simp: load_cscas_def findAllCscas_def dest: keeps_query split: prod.split sum.split)

lemma keeps_preload: "keeps w \<Longrightarrow> keeps (preloadExistingFingerprints E w)"
  by (auto simp: preloadExistingFingerprints_def dest: keeps_query split: prod.split sum.split)

lemma keeps_insert: "keeps w \<Longrightarrow> keeps (snd (insert_certificate E params fp u w))"
  by (auto simp: insert_certificate_def addToFingerprintCache_def Let_def dest: keeps_query split: prod.split sum.split list.split)

lemma keeps_checked: "keeps w \<Longrightarrow> keeps (snd (save_checked E params ty fp u w))"
  by (auto simp: save_checked_def keeps_insert dest: keeps_query
      split: prod.split sum.split list.split option.split)

lemma keeps_save: "keeps w \<Longrightarrow> keeps (snd (saveCertificateWithDuplicateCheck E u ty cc T fp der st m md w))"
  unfolding saveCertificateWithDuplicateCheck_def by (rule keeps_checked)

lemma keeps_directory: "keeps w \<Longrightarrow> keeps (store_in_directory E n entry j fp der i w)"
  by (auto simp: store_in_directory_def Let_def keeps_error updateCertificateLdapStatus_def intro!: keeps_try split: prod.split)

lemma keeps_count: "up_executor (count_duplicate w) = up_executor w"
  by (simp add: count_duplicate_def)

lemma keeps_store: "keeps w \<Longrightarrow> keeps (snd (store_judged E n u entry T c j fp der w))"
proof -
  assume w: "keeps w"
  obtain i dup w1 where s: "saveCertificateWithDuplicateCheck E u (jd_certType j) (vr_countryCode (jd_record j)) T fp der
      (jd_status j) (jd_message j) (ev_metadata E c) w = ((i, dup), w1)" by (metis surj_pair)
  have "keeps w1"
    using keeps_save [OF w, of u "jd_certType j" "vr_countryCode (jd_record j)" T fp der "jd_status j" "jd_message j" "ev_metadata E c"] s
    by simp
  then show ?thesis unfolding store_judged_def s prod.case Let_def
    by (auto simp: keeps_error keeps_count validation_save_def intro!: keeps_directory keeps_try)
qed

lemma keeps_certificate: "keeps w \<Longrightarrow> keeps (snd (parseCertificateEntry E n u entry attr w))"
  by (auto simp: parseCertificateEntry_def Let_def keeps_error keeps_count keeps_load intro!: keeps_store
      split: option.split prod.split)

lemma keeps_draw: "draw_uuid E w = (k, w') \<Longrightarrow> up_executor w' = up_executor w"
  by (auto simp: draw_uuid_def split: prod.splits)

lemma keeps_crl_save: "crl_save E u cc C fp der w = (i, w') \<Longrightarrow> keeps w \<Longrightarrow> keeps w'"
  by (auto simp: crl_save_def Let_def dest!: keeps_draw split: prod.splits sum.splits list.splits if_splits)
    (metis keeps_command keeps_query)+

lemma keeps_revoked: "keeps w \<Longrightarrow> keeps (saveRevokedCertificate E i x w)"
  by (auto simp: saveRevokedCertificate_def keeps_draw intro!: keeps_try split: prod.split)

lemma keeps_all_revoked: "keeps w \<Longrightarrow> keeps (foldl (\<lambda>w x. saveRevokedCertificate E i x w) w xs)"
  by (induction xs arbitrary: w) (simp_all add: keeps_revoked)

lemma keeps_crl: "keeps w \<Longrightarrow> keeps (snd (parseCrlEntry E n u entry w))"
  by (auto simp: parseCrlEntry_def Let_def keeps_error crl_updateLdapStatus_def split: option.split prod.split
      dest!: keeps_crl_save intro!: keeps_all_revoked keeps_try)

lemma keeps_entry:
  assumes "\<And>n entry w. keeps w \<Longrightarrow> keeps (snd (ml n entry w))" "keeps w"
  shows "keeps (process_entry E ml n u entry w)"
proof -
  let ?s = "w\<lparr>up_executor := savepoint (ev_pg E) (up_executor w)\<rparr>"
  have s: "keeps ?s" using mark [OF assms(2)] by simp
  define c where "c = (if hasAttribute entry ''userCertificate;binary'' then snd (parseCertificateEntry E n u entry ''userCertificate;binary'' ?s)
    else if hasAttribute entry ''cACertificate;binary'' then snd (parseCertificateEntry E n u entry ''cACertificate;binary'' ?s) else ?s)"
  define d where "d = (if hasAttribute entry ''certificateRevocationList;binary'' then snd (parseCrlEntry E n u entry c) else c)"
  have "keeps c" using keeps_certificate [OF s] s by (simp add: c_def)
  then have d: "keeps d" using keeps_crl by (simp add: d_def)
  obtain r w' where m: "ml n entry d = (r, w')" by force
  then have "keeps w'" using assms(1) [OF d, of n entry] by simp
  then have "keeps (snd (entry_body E ml n u entry ?s))"
    using d m unfolding entry_body_def Let_def c_def [symmetric] d_def [symmetric] by (simp add: count_ml_def split: sum.split)
  then show ?thesis unfolding process_entry_def Let_def by (auto simp: keeps_error unwind split: prod.split sum.split)
qed

lemma keeps_batch: "in_batch E w = (r, w') \<Longrightarrow> keeps w \<Longrightarrow> keeps w'"
  using begins [of "up_executor w"] by (auto simp: in_batch_def split: prod.splits)

lemma keeps_end: "keeps w \<Longrightarrow> keeps (end_batch E w)"
  using ends by (simp add: end_batch_def)

lemma keeps_flush: "flush_batch E u p a w = (r, w') \<Longrightarrow> keeps w \<Longrightarrow> keeps w'"
  unfolding flush_batch_def updateProgress_def updateStatistics_def Let_def by (erule keeps_batch) (intro keeps_end keeps_try)

lemma keeps_loop:
  assumes "\<And>n entry w. keeps w \<Longrightarrow> keeps (snd (ml n entry w))"
  shows "process_loop E ml u totals a n es w = (r, w') \<Longrightarrow> keeps w \<Longrightarrow> keeps w'"
proof (induction es arbitrary: n w)
  case Nil
  then show ?case by simp
next
  case (Cons entry es)
  let ?w = "process_entry E ml n u entry w"
  have w: "keeps ?w" using keeps_entry [of ml, OF assms Cons.prems(2)] .
  obtain x w1 where f: "(if Suc n mod 500 = 0 \<or> Suc n = a then flush_batch E u (Suc n) a ?w else (Inr (), ?w)) = (x, w1)" by force
  then have w1: "keeps w1" using w keeps_flush by (auto split: if_splits)
  show ?case
  proof (cases x)
    case (Inl e)
    then show ?thesis using Cons.prems(1) w1 unfolding process_loop.simps Let_def f Inl by simp
  next
    case (Inr y)
    let ?w2 = "if Suc n mod 50 = 0 \<or> Suc n = a
      then send_progress E n u VALIDATION_IN_PROGRESS (Suc n) a (progress_text totals w1) (set_processed w1) else w1"
    have "keeps ?w2" using w1 by (simp add: send_progress_def set_processed_def Let_def)
    moreover have "process_loop E ml u totals a (Suc n) es ?w2 = (r, w')" using Cons.prems(1) unfolding process_loop.simps Let_def f Inr by simp
    ultimately show ?thesis using Cons.IH by blast
  qed
qed

end

section \<open>No transaction outlives the batch mode\<close>

definition closed_session :: "('d \<Rightarrow> tables \<times> tx) \<Rightarrow> 'd executor \<Rightarrow> bool" where
  "closed_session view ex = (if ex_batchMode ex then ex_batchConn ex \<and> snd (view (ex_db ex)) \<noteq> Idle else snd (view (ex_db ex)) = Idle)"

lemma pinned_stays: "pinned_law q ps v r v' \<Longrightarrow> (snd v' = Idle) = (snd v = Idle)"
  by (auto simp: pinned_law_def split: tx.splits sum.splits)

lemma pool_stays: "pool_law q ps v r v' \<Longrightarrow> snd v' = snd v"
  by (simp add: pool_law_def)

text \<open>The executor's own invariant needs no law of the server; the one on transactions is stated under its laws.\<close>

interpretation batch: session_invariant E "\<lambda>ex. ex_batchMode ex \<longrightarrow> ex_batchConn ex" for E
  by unfold_locales
    (auto simp: executeQuery_def executeCommand_def savepoint_def rollbackToSavepoint_def beginBatch_def endBatch_def Let_def
      split: prod.splits bool.splits)

lemma closed_query: "pg_laws P view \<Longrightarrow> closed_session view ex \<Longrightarrow> closed_session view (snd (executeQuery P q ps ex))"
  using pool_stays [OF pg_lawsD(2), of P view q "sql_params ps" "ex_db ex"]
  by (cases "pg_pool P q (sql_params ps) (ex_db ex)") (simp add: executeQuery_def closed_session_def)

lemma closed_command: "pg_laws P view \<Longrightarrow> closed_session view ex \<Longrightarrow> closed_session view (snd (executeCommand P q ps ex))"
  using pool_stays [OF pg_lawsD(2), of P view q "sql_params ps" "ex_db ex"]
    pinned_stays [OF pg_lawsD(1), of P view q "sql_params ps" "ex_db ex"]
  by (cases "pg_pool P q (sql_params ps) (ex_db ex)"; cases "pg_pinned P q (sql_params ps) (ex_db ex)")
    (simp add: executeCommand_def closed_session_def split: if_splits)

lemma closed_marks:
  assumes "pg_laws P view" "closed_session view ex"
  shows "closed_session view (savepoint P ex)" "closed_session view (rollbackToSavepoint P ex)"
proof -
  show "closed_session view (savepoint P ex)" using pg_lawsD(3) [OF assms(1), of "ex_db ex"] assms(2)
    by (auto simp: savepoint_def closed_session_def split: tx.splits if_splits)
  have "view (snd (pg_rollback_to P (ex_db ex))) = (fst (view (ex_db ex)), case snd (view (ex_db ex)) of
              Open ws (Some s) \<Rightarrow> if fst (pg_rollback_to P (ex_db ex)) then Open s (Some s) else Aborted (Some s)
            | Open ws None \<Rightarrow> Aborted None
            | Aborted (Some s) \<Rightarrow> if fst (pg_rollback_to P (ex_db ex)) then Open s (Some s) else Aborted (Some s)
            | t \<Rightarrow> t)"
    using assms(1) unfolding pg_laws_def by blast
  then show "closed_session view (rollbackToSavepoint P ex)" using assms(2)
    by (auto simp: rollbackToSavepoint_def closed_session_def split: tx.splits option.splits if_splits)
qed

lemma closed_begin:
  assumes "pg_laws P view" "closed_session view ex"
  shows "closed_session view (snd (beginBatch P ex))"
proof -
  obtain a d where a: "pg_acquire P (ex_db ex) = (a, d)" by force
  obtain b d' where b: "pg_begin P d = (b, d')" by force
  have d: "view d = view (ex_db ex)" using assms(1) a unfolding pg_laws_def by (metis snd_conv)
  have "snd (view d) = Idle \<Longrightarrow> view d' = (fst (view d), if b then Open [] None else Idle)"
    using assms(1) b unfolding pg_laws_def by (metis fst_conv snd_conv)
  then show ?thesis using assms(2) a b d by (cases a; cases b) (simp_all add: beginBatch_def closed_session_def)
qed

lemma closed_end: "pg_laws P view \<Longrightarrow> closed_session view ex \<Longrightarrow> closed_session view (endBatch P ex)"
  using pg_lawsD(4) [of P view "ex_db ex"] by (simp add: endBatch_def closed_session_def Let_def)

interpretation closed: session_invariant E "\<lambda>ex. pg_laws (ev_pg E) view \<longrightarrow> closed_session view ex" for E view
  by unfold_locales (simp_all add: closed_query closed_command closed_marks closed_begin closed_end)

lemma begin_fails: "in_batch E w = (Inl e, w') \<Longrightarrow> \<not> ex_batchMode (up_executor w')"
  by (auto simp: in_batch_def beginBatch_def split: prod.splits if_splits bool.splits)

lemma end_leaves: "\<not> ex_batchMode (up_executor (end_batch E w))"
  by (simp add: end_batch_def endBatch_def Let_def)

lemma loop_fails: "process_loop E ml u totals a n es w = (Inl e, w') \<Longrightarrow> \<not> ex_batchMode (up_executor w')"
proof (induction es arbitrary: n w)
  case (Cons entry es)
  let ?w = "process_entry E ml n u entry w"
  obtain x w1 where f: "(if Suc n mod 500 = 0 \<or> Suc n = a then flush_batch E u (Suc n) a ?w else (Inr (), ?w)) = (x, w1)" by force
  show ?case
  proof (cases x)
    case (Inl e')
    then have "\<not> ex_batchMode (up_executor w1)" using f by (auto simp: flush_batch_def Let_def dest: begin_fails split: if_splits)
    then show ?thesis using Cons.prems unfolding process_loop.simps Let_def f Inl by simp
  next
    case (Inr y)
    then show ?thesis using Cons.prems Cons.IH unfolding process_loop.simps Let_def f Inr by fastforce
  qed
qed simp

lemma closes_session:
  assumes "pg_laws (ev_pg E) view" "\<not> ex_batchMode (up_executor w)" "transaction view w = Idle"
    "\<And>n entry w. closed_session view (up_executor w) \<Longrightarrow> closed_session view (up_executor (snd (ml n entry w)))"
    "processEntries E ml u totals es w = (r, w')"
  shows "\<not> ex_batchMode (up_executor w') \<and> transaction view w' = Idle"
proof -
  have c: "closed_session view (up_executor w)" using assms(2,3) by (simp add: closed_session_def transaction_def)
  define w1 where "w1 = preloadExistingFingerprints E (load_cscas E (w\<lparr>up_csca := unloaded\<rparr>))"
  have w1: "closed_session view (up_executor w1)"
    using closed.keeps_preload [OF closed.keeps_load, of E view "w\<lparr>up_csca := unloaded\<rparr>"] c assms(1) by (simp add: w1_def)
  obtain r1 w2 where b: "in_batch E w1 = (r1, w2)" by force
  have w2: "closed_session view (up_executor w2)" using closed.keeps_batch [OF b] w1 assms(1) by simp
  have off: "closed_session view (up_executor w') \<and> \<not> ex_batchMode (up_executor w')"
  proof (cases r1)
    case (Inl e)
    then show ?thesis using assms(5) b w2 begin_fails by (auto simp: processEntries_def w1_def Let_def)
  next
    case (Inr y)
    obtain r2 w3 where l: "process_loop E ml u totals (length es) 0 es w2 = (r2, w3)" by force
    have w3: "closed_session view (up_executor w3)"
      using closed.keeps_loop [OF _ l, of view] assms(1,4) w2 by blast
    show ?thesis
    proof (cases r2)
      case (Inl e)
      then show ?thesis using assms(5) b Inr l w3 loop_fails [of E ml u totals "length es" 0 es w2 e w']
        by (auto simp: processEntries_def w1_def Let_def)
    next
      case r2: (Inr z)
      have "up_executor w' = up_executor (end_batch E w3)"
        using assms(5) b Inr l r2 by (auto simp: processEntries_def w1_def Let_def send_progress_def set_processed_def)
      then show ?thesis using closed.keeps_end [of E view w3] w3 assms(1) end_leaves [of E w3] by simp
    qed
  qed
  then show ?thesis by (simp add: closed_session_def transaction_def)
qed

text \<open>However an upload ends, with or without an exception of \<^verbatim>\<open>BEGIN\<close>, the executor has left the batch mode and
  no transaction is open on its connection, provided the Master List reader keeps this.\<close>

theorem upload_closes_session:
  assumes "pg_laws (ev_pg E) view" "\<not> ex_batchMode (up_executor w)" "transaction view w = Idle"
    "\<And>n entry w. closed_session view (up_executor w) \<Longrightarrow> closed_session view (up_executor (snd (ml n entry w)))"
    "processEntries E ml u totals es w = (r, w')"
  shows "\<not> ex_batchMode (up_executor w') \<and> transaction view w' = Idle"
  by (rule closes_session [OF assms])

lemma upload_closes_session_witness:
  "case processEntries demo_surroundings no_ml ''u1'' (0, 0, 0) [demo_entry, demo_crl_entry]
      (demo_upload\<lparr>up_executor := \<lparr>ex_db = (no_tables, Idle), ex_batchMode = False, ex_batchConn = False\<rparr>\<rparr>) of
     (r, w) \<Rightarrow> \<not> ex_batchMode (up_executor w) \<and> transaction (\<lambda>d. d) w = Idle"
proof -
  let ?w = "demo_upload\<lparr>up_executor := \<lparr>ex_db = (no_tables, Idle), ex_batchMode = False, ex_batchConn = False\<rparr>\<rparr>"
  obtain r w' where p: "processEntries demo_surroundings no_ml ''u1'' (0, 0, 0) [demo_entry, demo_crl_entry] ?w = (r, w')" by force
  have l: "pg_laws (ev_pg demo_surroundings) (\<lambda>d. d)" using plain_pg_laws by (simp add: demo_surroundings_def)
  have "\<not> ex_batchMode (up_executor ?w)" "transaction (\<lambda>d. d) ?w = Idle" by (simp_all add: transaction_def)
  from upload_closes_session [OF l this _ p] show ?thesis by (simp add: p no_ml_def)
qed

end
