(* ===== verification/Master_List.thy ===== *)
theory Master_List
  imports Upload_Session
begin

text \<open>
  Master Lists, \<^verbatim>\<open>common/masterlist_processor.cpp\<close> of \<^verbatim>\<open>pkd-management\<close>: the reader of the list inside the CMS structure, and its
  two users, \<^verbatim>\<open>parseMasterListEntryV2\<close> for an entry of an LDIF file and \<^verbatim>\<open>processMasterListFile\<close> for a file of its own, with
  the repositories and the directory of \<open>Upload_Batch\<close>.  What OpenSSL does with CMS, and its DER header and certificate
  readers, is the record \<open>ml_ssl\<close>.
\<close>

section \<open>The library calls\<close>

text \<open>\<^verbatim>\<open>ASN1_get_object\<close> returns flags and, through pointers, the position after the header, the tag and the length; on an
  error it may leave each of the last two unset.\<close>

record header =
  hd_ret :: int
  hd_adv :: nat
  hd_tag :: "nat option"
  hd_len :: "nat option"

text \<open>\<open>ml_behind\<close> is the memory behind the encapsulated content; \<open>ml_junk\<close> the value of an uninitialised length; \<open>ml_d2i\<close>
  reads one certificate and says how many bytes beyond the first it took.  A signer may be a null pointer.\<close>

record ('c, 'm, 's, 't) ml_ssl =
  ml_cms :: "byte list \<Rightarrow> 'm option"
  ml_certs :: "'m \<Rightarrow> 'c list"
  ml_signers :: "'m \<Rightarrow> 's option list"
  ml_cert_cmp :: "'s \<Rightarrow> 'c \<Rightarrow> int"
  ml_content :: "'m \<Rightarrow> byte list option"
  ml_behind :: "'m \<Rightarrow> byte list"
  ml_junk :: nat
  ml_header :: "byte list \<Rightarrow> int \<Rightarrow> header"
  ml_d2i :: "byte list \<Rightarrow> ('c \<times> nat) option"
  ml_i2d :: "'c \<Rightarrow> byte list"
  ml_self_issued :: "'c \<Rightarrow> bool"
  ml_time_text :: "'t \<Rightarrow> string"

section \<open>The list of certificates\<close>

text \<open>\<open>Inl\<close> is a structure that is not a \<^verbatim>\<open>SEQUENCE\<close>; otherwise the place and the length of the \<^verbatim>\<open>SET\<close>, if there is one.  The
  flags of the second and the third header are not looked at, and those of the first only compared with \<^verbatim>\<open>0x80\<close>.\<close>

definition or_else_tag :: "'a option \<Rightarrow> 'a \<Rightarrow> 'a" where
  "or_else_tag v d = (case v of None \<Rightarrow> d | Some x \<Rightarrow> x)"

definition cert_set :: "('c, 'm, 's, 't) ml_ssl \<Rightarrow> byte list \<Rightarrow> int \<Rightarrow> (nat \<times> nat) option res" where
  "cert_set M mem contentLen =
     (let h = ml_header M mem contentLen in
      if hd_ret h = 0x80 \<or> hd_tag h \<noteq> Some 16 then Inl Invalid_Argument
      else
        let p = hd_adv h; seqEnd = p + or_else_tag (hd_len h) (ml_junk M);
            h2 = ml_header M (drop p mem) (int seqEnd - int p); p2 = p + hd_adv h2;
            tag = or_else_tag (hd_tag h2) 16; elemLen = or_else_tag (hd_len h2) (ml_junk M);
            found =
              (if tag = 2 then
                 (let p3 = p2 + elemLen in
                  if p3 < seqEnd then
                    (let h3 = ml_header M (drop p3 mem) (int seqEnd - int p3) in
                     if or_else_tag (hd_tag h3) tag = 17 then Some (p3 + hd_adv h3, or_else_tag (hd_len h3) elemLen) else None)
                  else None)
               else if tag = 17 then Some (p2, elemLen) else None)
        in Inr (case found of None \<Rightarrow> None | Some (s, l) \<Rightarrow> if l = 0 then None else Some (s, l)))"

text \<open>The loop over the set: the certificates read and whether it stopped at one that cannot be read.\<close>

function listed :: "('c, 'm, 's, 't) ml_ssl \<Rightarrow> byte list \<Rightarrow> 'c list \<times> bool" where
  "listed M region =
     (if region = [] then ([], False)
      else case ml_d2i M region of
        None \<Rightarrow> ([], True)
      | Some (c, extra) \<Rightarrow> (case listed M (drop (Suc extra) region) of (cs, failed) \<Rightarrow> (c # cs, failed)))"
  by pat_completeness auto
termination by (relation "measure (\<lambda>(M, region). length region)") auto

declare listed.simps [simp del]

definition certificates_at :: "('c, 'm, 's, 't) ml_ssl \<Rightarrow> byte list \<Rightarrow> nat \<times> nat \<Rightarrow> 'c list \<times> bool" where
  "certificates_at M mem place = listed M (take (snd place) (drop (fst place) mem))"

section \<open>Metadata\<close>

record ml_meta =
  mm_subjectDn :: string
  mm_issuerDn :: string
  mm_serialNumber :: string
  mm_fingerprint :: string
  mm_notBefore :: string
  mm_notAfter :: string
  mm_derData :: "byte list"
  mm_isSelfSigned :: bool

text \<open>\<^verbatim>\<open>X509_NAME_oneline\<close> into a buffer of 512 bytes, \<^verbatim>\<open>BIO_read\<close> of at most 63.\<close>

definition oneline :: "string option \<Rightarrow> string" where
  "oneline n = (case n of None \<Rightarrow> [] | Some dn \<Rightarrow> c_str (take 511 dn))"

definition serial_text :: "('x, 'k, 't) openssl \<Rightarrow> 'x \<Rightarrow> string" where
  "serial_text L x =
     (case serial_number L x of None \<Rightarrow> []
      | Some n \<Rightarrow> (case ASN1_INTEGER_to_BN L n of None \<Rightarrow> []
                  | Some bn \<Rightarrow> (case BN_bn2hex L bn of None \<Rightarrow> [] | Some hex \<Rightarrow> c_str hex)))"

definition extractListedMetadata :: "('c, 'k, 't, 'd, 'l) surroundings \<Rightarrow> ('c, 'm, 's, 't) ml_ssl \<Rightarrow> 'c \<Rightarrow> ml_meta" where
  "extractListedMetadata E M c =
     (let L = ev_ssl E; x = ev_leaf E c; der = ml_i2d M c in
      \<lparr>mm_subjectDn = oneline (subject_oneline L x), mm_issuerDn = oneline (issuer_oneline L x),
       mm_serialNumber = serial_text L x,
       mm_fingerprint = (if der \<noteq> [] then computeFileHash (ev_sha256 E) der else []),
       mm_notBefore = c_str (take 63 (ml_time_text M (not_before L x))),
       mm_notAfter = c_str (take 63 (ml_time_text M (not_after L x))),
       mm_derData = der, mm_isSelfSigned = ml_self_issued M c\<rparr>)"

section \<open>The repository\<close>

text \<open>The metadata columns come from the DER bytes once more; bytes that cannot be read get the defaults.\<close>

definition insert_meta_params :: "('c, 'k, 't, 'd, 'l) surroundings \<Rightarrow> string \<Rightarrow> string \<Rightarrow> string \<Rightarrow> ml_meta \<Rightarrow> string \<Rightarrow> string
    \<Rightarrow> string list" where
  "insert_meta_params E uploadId certType countryCode meta status message =
     [uploadId, certType, countryCode, mm_subjectDn meta, mm_issuerDn meta, mm_serialNumber meta, mm_fingerprint meta,
      mm_notBefore meta, mm_notAfter meta, hex_column (mm_derData meta), status, message]
     @ (case ev_d2i E (mm_derData meta) of
          Some c \<Rightarrow>
            (let md = ev_metadata E c in
             if 0 < xm_version md then
               [int_dec (xm_version md), xm_signatureAlgorithm md, xm_signatureHashAlgorithm md, xm_publicKeyAlgorithm md,
                (if int_dec (xm_publicKeySize md) = ''0'' then [] else int_dec (xm_publicKeySize md)), or_empty (xm_publicKeyCurve md),
                pg_array (xm_keyUsage md), pg_array (xm_extendedKeyUsage md), boolLiteral dbType (xm_isCA md),
                (case xm_pathLenConstraint md of None \<Rightarrow> [] | Some n \<Rightarrow> int_dec n),
                or_empty (xm_subjectKeyIdentifier md), or_empty (xm_authorityKeyIdentifier md),
                pg_array (xm_crlDistributionPoints md), or_empty (xm_ocspResponderUrl md), boolLiteral dbType (xm_isSelfSigned md)]
             else [''2'', [], [], [], [], [], [], [], boolLiteral dbType False, [], [], [], [], [], boolLiteral dbType False])
        | None \<Rightarrow> [''2'', [], [], [], [], [], [], [], boolLiteral dbType False, [], [], [], [], [], boolLiteral dbType False])"

definition save_listed :: "('c, 'k, 't, 'd, 'l) surroundings \<Rightarrow> string \<Rightarrow> string \<Rightarrow> string \<Rightarrow> ml_meta \<Rightarrow> ('d, 'l) upload
    \<Rightarrow> (string \<times> bool) \<times> ('d, 'l) upload" where
  "save_listed E uploadId certType countryCode meta w =
     save_checked E (insert_meta_params E uploadId certType countryCode meta ''UNKNOWN'' []) certType (mm_fingerprint meta) uploadId w"

definition trackCertificateDuplicate :: "('c, 'k, 't, 'd, 'l) surroundings \<Rightarrow> string \<Rightarrow> string \<Rightarrow> string \<Rightarrow> string \<Rightarrow> string \<Rightarrow> string
    \<Rightarrow> ('d, 'l) upload \<Rightarrow> ('d, 'l) upload" where
  "trackCertificateDuplicate E certificateId uploadId sourceType sourceCountry sourceEntryDn sourceFileName w =
     try_command E INSERT_certificate_duplicate [certificateId, uploadId, sourceType, sourceCountry, sourceEntryDn, sourceFileName] w"

definition incrementDuplicateCount :: "('c, 'k, 't, 'd, 'l) surroundings \<Rightarrow> string \<Rightarrow> string \<Rightarrow> ('d, 'l) upload \<Rightarrow> ('d, 'l) upload" where
  "incrementDuplicateCount E certificateId uploadId w = try_command E UPDATE_duplicate_count [uploadId, certificateId] w"

text \<open>Three stubs of the source: the Master List and the statistics of its CSCAs are not written anywhere, the identifier of
  the row that is not there is random.\<close>

definition saveMasterList :: "('c, 'k, 't, 'd, 'l) surroundings \<Rightarrow> ('d, 'l) upload \<Rightarrow> string \<times> ('d, 'l) upload" where
  "saveMasterList E w = draw_uuid E w"

definition updateMasterListLdapStatus :: "string \<Rightarrow> string \<Rightarrow> ('d, 'l) upload \<Rightarrow> ('d, 'l) upload" where
  "updateMasterListLdapStatus mlId ldapDn w = w"

definition updateCscaExtractionStats :: "string \<Rightarrow> int \<Rightarrow> int \<Rightarrow> ('d, 'l) upload \<Rightarrow> ('d, 'l) upload" where
  "updateCscaExtractionStats uploadId extractedCount duplicateCount w = w"

section \<open>What both users share\<close>

record ml_stats =
  mt_mlCount :: int
  mt_mlscCount :: int
  mt_ldapMlStoredCount :: int
  mt_cscaExtractedCount :: int
  mt_cscaDuplicateCount :: int
  mt_cscaNewCount :: int
  mt_ldapCscaStoredCount :: int

definition ml_stats0 :: ml_stats where
  "ml_stats0 = \<lparr>mt_mlCount = 0, mt_mlscCount = 0, mt_ldapMlStoredCount = 0, mt_cscaExtractedCount = 0,
     mt_cscaDuplicateCount = 0, mt_cscaNewCount = 0, mt_ldapCscaStoredCount = 0\<rparr>"

text \<open>The local variables, with the statistics passed by reference.\<close>

record ml_locals =
  lo_total :: int
  lo_new :: int
  lo_dup :: int
  lo_signerDn :: string
  lo_countryCode :: string
  lo_stats :: ml_stats

definition ml_locals0 :: "string \<Rightarrow> ml_locals" where
  "ml_locals0 countryCode = \<lparr>lo_total = 0, lo_new = 0, lo_dup = 0, lo_signerDn = ''Unknown'', lo_countryCode = countryCode,
     lo_stats = ml_stats0\<rparr>"

definition count_mlsc :: "ml_locals \<Rightarrow> ml_locals" where
  "count_mlsc v = v\<lparr>lo_stats := (lo_stats v)\<lparr>mt_mlscCount := mt_mlscCount (lo_stats v) + 1\<rparr>\<rparr>"

definition count_ldap_csca :: "ml_locals \<Rightarrow> ml_locals" where
  "count_ldap_csca v = v\<lparr>lo_stats := (lo_stats v)\<lparr>mt_ldapCscaStoredCount := mt_ldapCscaStoredCount (lo_stats v) + 1\<rparr>\<rparr>"

text \<open>\<^verbatim>\<open>saveCertificateToLdap\<close> and the flag in the row; the result is whether the entry was stored.\<close>

definition directory_listed :: "('c, 'k, 't, 'd, 'l) surroundings \<Rightarrow> string \<Rightarrow> string \<Rightarrow> ml_meta \<Rightarrow> string \<Rightarrow> ('d, 'l) upload
    \<Rightarrow> bool \<times> ('d, 'l) upload" where
  "directory_listed E ldapCertType countryCode meta certId w =
     (case saveCertificateToLdap (ev_directory E) (ev_entry_reader E) (ev_config E) (up_directory w) ldapCertType countryCode
             (mm_subjectDn meta) (mm_serialNumber meta) (mm_fingerprint meta) (mm_derData meta) [] [] [] False of
        (ldapDn, l) \<Rightarrow>
          let w = w\<lparr>up_directory := l\<rparr> in
          if ldapDn \<noteq> [] then (True, updateCertificateLdapStatus E certId ldapDn w) else (False, w))"

definition signer_certificate :: "('c, 'm, 's, 't) ml_ssl \<Rightarrow> 'c list \<Rightarrow> 's \<Rightarrow> 'c option" where
  "signer_certificate M certs si = find (\<lambda>c. ml_cert_cmp M si c = 0) certs"

text \<open>The statistics of a listed certificate.  Clock readings are numbered by the certificate.\<close>

definition em_dash :: string where
  "em_dash = utf8 [0xE2, 0x80, 0x94]"

definition count_validity :: "('c, 'k, 't, 'd, 'l) surroundings \<Rightarrow> nat \<Rightarrow> nat \<Rightarrow> 'c \<Rightarrow> validation_statistics \<Rightarrow> validation_statistics" where
  "count_validity E n i c s =
     (let L = ev_ssl E; x = ev_leaf E c in
      if X509_cmp_time L (not_after L x) (ev_clock E n (5 + 2 * i)) < 0 then s\<lparr>vs_expiredCount := vs_expiredCount s + 1\<rparr>
      else if X509_cmp_time L (not_before L x) (ev_clock E n (6 + 2 * i)) > 0
      then s\<lparr>vs_notYetValidCount := vs_notYetValidCount s + 1\<rparr>
      else s\<lparr>vs_validPeriodCount := vs_validPeriodCount s + 1\<rparr>)"

definition count_keys :: "cert_metadata \<Rightarrow> validation_statistics \<Rightarrow> validation_statistics" where
  "count_keys md s =
     (let s = (if me_signatureAlgorithm md \<noteq> []
               then s\<lparr>vs_signatureAlgorithms := safeIncrementMap (vs_signatureAlgorithms s) (me_signatureAlgorithm md) 50\<rparr> else s)
      in if 0 < me_keySize md then s\<lparr>vs_keySizes := bump (me_keySize md) (vs_keySizes s)\<rparr> else s)"

definition count_listed :: "('c, 'k, 't, 'd, 'l) surroundings \<Rightarrow> nat \<Rightarrow> nat \<Rightarrow> 'c \<Rightarrow> ml_meta \<Rightarrow> string \<Rightarrow> bool
    \<Rightarrow> validation_statistics \<Rightarrow> validation_statistics" where
  "count_listed E n i c meta countryCode isDuplicate s =
     (let logCertType = (if mm_isSelfSigned meta then ''CSCA'' else ''LINK_CERT'');
          message = (if isDuplicate then ''Duplicate '' @ em_dash @ '' already exists in DB''
                     else if mm_isSelfSigned meta then ''Extracted from Master List (self-signed)''
                     else ''Extracted from Master List (Link Certificate)'');
          s = addValidationLog s (ev_timestamp E n) logCertType countryCode (mm_subjectDn meta) (mm_issuerDn meta)
                (if isDuplicate then ''DUPLICATE'' else ''VALID'') message [] [] (mm_fingerprint meta);
          s = s\<lparr>vs_totalCertificates := vs_totalCertificates s + 1, vs_processedCount := vs_processedCount s + 1,
                vs_certificateTypes := bump logCertType (vs_certificateTypes s)\<rparr>;
          s = (if \<not> isDuplicate then count_reason ''VALID'' (s\<lparr>vs_validCount := vs_validCount s + 1\<rparr>) else s);
          s = count_compliance (checkIcaoCompliance (Some (ct_facts (ev_texts E c))) ''CSCA'') s;
          s = count_keys (ct_progress (ev_texts E c)) s
      in count_validity E n i c s)"

definition on_statistics :: "(validation_statistics \<Rightarrow> validation_statistics) \<Rightarrow> ('d, 'l) upload \<Rightarrow> ('d, 'l) upload" where
  "on_statistics f w = w\<lparr>up_tallies := (up_tallies w)\<lparr>ta_enhanced := f (ta_enhanced (up_tallies w))\<rparr>\<rparr>"

definition listed_label :: "ml_meta \<Rightarrow> string" where
  "listed_label meta = (if mm_isSelfSigned meta then ''CSCA (Self-signed)'' else ''LC (Link Certificate)'')"

definition no_metadata :: "ml_meta \<Rightarrow> bool" where
  "no_metadata meta \<longleftrightarrow> mm_derData meta = [] \<or> mm_fingerprint meta = []"

section \<open>An entry of an LDIF file\<close>

definition ldif_mlsc_stored :: "('c, 'k, 't, 'd, 'l) surroundings \<Rightarrow> nat \<Rightarrow> string \<Rightarrow> string \<Rightarrow> string \<Rightarrow> ml_meta \<Rightarrow> string \<times> bool
    \<Rightarrow> ml_locals \<times> ('d, 'l) upload \<Rightarrow> ml_locals \<times> ('d, 'l) upload" where
  "ldif_mlsc_stored E n uploadId entryDn cc meta saved vw =
     (let (v, w) = vw; (certId, isDuplicate) = saved in
      if certId = [] then
        (v, if \<not> isDuplicate
            then add_error_to E n ''ML_CERT_SAVE_FAILED'' entryDn (mm_subjectDn meta) cc ''MLSC'' ''MLSC database save failed'' w
            else w)
      else
        let w = trackCertificateDuplicate E certId uploadId ''LDIF_002'' cc entryDn [] w in
        if isDuplicate then (v, incrementDuplicateCount E certId uploadId w)
        else
          let v = count_mlsc v in
          if ev_connected E then
            (case directory_listed E ''MLSC'' cc meta certId w of
               (isStored, w) \<Rightarrow>
                 (v, if isStored then w
                     else add_error_to E n ''ML_LDAP_SAVE_FAILED'' entryDn (mm_subjectDn meta) cc ''MLSC'' ''MLSC LDAP save failed'' w))
          else (v, w))"

definition ldif_signer :: "('c, 'k, 't, 'd, 'l) surroundings \<Rightarrow> ('c, 'm, 's, 't) ml_ssl \<Rightarrow> nat \<Rightarrow> string \<Rightarrow> string \<Rightarrow> 'c list \<Rightarrow> 's option
    \<Rightarrow> ml_locals \<times> ('d, 'l) upload \<Rightarrow> ml_locals \<times> ('d, 'l) upload" where
  "ldif_signer E M n uploadId entryDn certs si vw =
     (case Option.bind si (signer_certificate M certs) of
        None \<Rightarrow> vw
      | Some c \<Rightarrow>
          (let (v, w) = vw; meta = extractListedMetadata E M c; v = v\<lparr>lo_signerDn := mm_subjectDn meta\<rparr> in
           if no_metadata meta then (v, w)
           else
             let cc = extractCountryCode (mm_subjectDn meta); cc = (if cc = ''XX'' then lo_countryCode v else cc) in
             case save_listed E uploadId ''MLSC'' cc meta w of
               (saved, w) \<Rightarrow> ldif_mlsc_stored E n uploadId entryDn cc meta saved (v, w)))"

definition ldif_country :: "string \<Rightarrow> ml_meta \<Rightarrow> string" where
  "ldif_country countryCode meta =
     (let cc = extractCountryCode (mm_subjectDn meta);
          cc = (if cc = ''XX'' then extractCountryCode (mm_issuerDn meta) else cc)
      in if cc = ''XX'' then countryCode else cc)"

text \<open>The directory and the counters, after a row was found or inserted.\<close>

definition ldif_after_save :: "('c, 'k, 't, 'd, 'l) surroundings \<Rightarrow> nat \<Rightarrow> string \<Rightarrow> string \<Rightarrow> string \<Rightarrow> ml_meta \<Rightarrow> string \<times> bool
    \<Rightarrow> ml_locals \<times> ('d, 'l) upload \<Rightarrow> ml_locals \<times> ('d, 'l) upload" where
  "ldif_after_save E n uploadId entryDn cc meta saved vw =
     (let (v, w) = vw; (certId, isDuplicate) = saved;
          w = trackCertificateDuplicate E certId uploadId ''LDIF_002'' cc entryDn [] w in
      if isDuplicate then
        (v\<lparr>lo_dup := lo_dup v + 1\<rparr>,
         on_statistics (\<lambda>s. s\<lparr>vs_duplicateCount := vs_duplicateCount s + 1\<rparr>) (incrementDuplicateCount E certId uploadId w))
      else
        let v = v\<lparr>lo_new := lo_new v + 1\<rparr> in
        if ev_connected E then
          (case directory_listed E (if mm_isSelfSigned meta then ''CSCA'' else ''LC'') cc meta certId w of
             (isStored, w) \<Rightarrow>
               if isStored then (count_ldap_csca v, w)
               else (v, add_error_to E n ''ML_LDAP_SAVE_FAILED'' entryDn (mm_subjectDn meta) cc ''CSCA''
                              (listed_label meta @ '' LDAP save failed'') w))
        else (v, w))"

definition ldif_listed :: "('c, 'k, 't, 'd, 'l) surroundings \<Rightarrow> ('c, 'm, 's, 't) ml_ssl \<Rightarrow> nat \<Rightarrow> string \<Rightarrow> string \<Rightarrow> 'c
    \<Rightarrow> ml_locals \<times> ('d, 'l) upload \<Rightarrow> ml_locals \<times> ('d, 'l) upload" where
  "ldif_listed E M n uploadId entryDn c vw =
     (let (v, w) = vw; v = v\<lparr>lo_total := lo_total v + 1\<rparr>; meta = extractListedMetadata E M c in
      if no_metadata meta then (v, w)
      else
        let cc = ldif_country (lo_countryCode v) meta in
        case save_listed E uploadId ''CSCA'' cc meta w of
          ((certId, isDuplicate), w) \<Rightarrow>
            if certId = [] then
              (v, if \<not> isDuplicate
                  then add_error_to E n ''ML_CERT_SAVE_FAILED'' entryDn (mm_subjectDn meta) cc ''CSCA''
                         (listed_label meta @ '' database save failed, fingerprint: '' @ take 16 (mm_fingerprint meta)) w
                  else w)
            else
              (case ldif_after_save E n uploadId entryDn cc meta (certId, isDuplicate) (v, w) of
                 (v, w) \<Rightarrow> (v, on_statistics (count_listed E n (nat (lo_total v)) c meta cc isDuplicate) w)))"

definition ldif_list :: "('c, 'k, 't, 'd, 'l) surroundings \<Rightarrow> ('c, 'm, 's, 't) ml_ssl \<Rightarrow> nat \<Rightarrow> string \<Rightarrow> string \<Rightarrow> byte list
    \<Rightarrow> nat \<times> nat \<Rightarrow> ml_locals \<times> ('d, 'l) upload \<Rightarrow> ml_locals \<times> ('d, 'l) upload" where
  "ldif_list E M n uploadId entryDn mem place vw =
     (let (cs, failed) = certificates_at M mem place;
          (v, w) = fold (ldif_listed E M n uploadId entryDn) cs vw;
          w = (if failed then add_error_to E n ''ML_CERT_PARSE_FAILED'' entryDn [] (lo_countryCode v) ''CSCA''
                                ''Failed to parse certificate in Master List certList SET'' w else w);
          t = lo_stats v
      in (v\<lparr>lo_stats := t\<lparr>mt_cscaExtractedCount := mt_cscaExtractedCount t + lo_total v,
            mt_cscaNewCount := mt_cscaNewCount t + lo_new v, mt_cscaDuplicateCount := mt_cscaDuplicateCount t + lo_dup v\<rparr>\<rparr>, w))"

text \<open>Step 4 and 5: the backup of the list.\<close>

definition ldif_backup :: "('c, 'k, 't, 'd, 'l) surroundings \<Rightarrow> nat \<Rightarrow> string \<Rightarrow> string \<Rightarrow> string \<Rightarrow> byte list
    \<Rightarrow> ml_locals \<times> ('d, 'l) upload \<Rightarrow> bool \<times> ml_locals \<times> ('d, 'l) upload" where
  "ldif_backup E n uploadId entryDn mlFingerprint mlBytes vw =
     (let (v, w) = vw; (mlId, w) = saveMasterList E w in
      if mlId \<noteq> [] then
        (let (v, w) =
           (if ev_connected E then
              (case saveMasterListToLdap (ev_directory E) (ev_config E) (up_directory w) (lo_countryCode v) mlFingerprint mlBytes of
                 (ldapDn, l) \<Rightarrow>
                   let w = w\<lparr>up_directory := l\<rparr> in
                   if ldapDn \<noteq> [] then
                     (v\<lparr>lo_stats := (lo_stats v)\<lparr>mt_ldapMlStoredCount := mt_ldapMlStoredCount (lo_stats v) + 1\<rparr>\<rparr>,
                      updateMasterListLdapStatus mlId ldapDn w)
                   else (v, add_error_to E n ''ML_LDAP_SAVE_FAILED'' entryDn [] (lo_countryCode v) ''ML''
                              ''Master List LDAP save to o=ml failed'' w))
            else (v, w))
         in (True, v, updateCscaExtractionStats uploadId (lo_total v) (lo_dup v) w))
      else (False, v, add_error_to E n ''ML_CERT_SAVE_FAILED'' entryDn [] (lo_countryCode v) ''ML'' ''Master List database save failed'' w))"

definition ldif_cms :: "('c, 'k, 't, 'd, 'l) surroundings \<Rightarrow> ('c, 'm, 's, 't) ml_ssl \<Rightarrow> nat \<Rightarrow> string \<Rightarrow> string \<Rightarrow> byte list \<Rightarrow> 'm
    \<Rightarrow> ('d, 'l) upload \<Rightarrow> bool \<times> ml_locals \<times> ('d, 'l) upload" where
  "ldif_cms E M n uploadId entryDn mlBytes cms w =
     (let (v, w) = fold (ldif_signer E M n uploadId entryDn (ml_certs M cms)) (ml_signers M cms)
                     (ml_locals0 (extractCountryCodeFromDn entryDn), w) in
      case ml_content M cms of
        None \<Rightarrow> (True, v, w)
      | Some content \<Rightarrow>
          (let mem = content @ ml_behind M cms in
           case cert_set M mem (int (length content)) of
             Inl e \<Rightarrow> (False, v, w)
           | Inr None \<Rightarrow> (True, v, w)
           | Inr (Some place) \<Rightarrow>
               ldif_backup E n uploadId entryDn (computeFileHash (ev_sha256 E) mlBytes) mlBytes
                 (ldif_list E M n uploadId entryDn mem place (v, w))))"

definition parseMasterListEntryV2 :: "('c, 'k, 't, 'd, 'l) surroundings \<Rightarrow> ('c, 'm, 's, 't) ml_ssl \<Rightarrow> string \<Rightarrow> nat \<Rightarrow> ldif_entry
    \<Rightarrow> ('d, 'l) upload \<Rightarrow> bool \<times> ml_stats \<times> ('d, 'l) upload" where
  "parseMasterListEntryV2 E M uploadId n entry w =
     (let base64Value = getFirstAttribute entry ''pkdMasterListContent;binary'';
          base64Value = (if base64Value = [] then getFirstAttribute entry ''pkdMasterListContent'' else base64Value) in
      if base64Value = [] then
        (False, ml_stats0, add_error_to E n ''ML_PARSE_FAILED'' (le_dn entry) [] [] ''ML'' ''No pkdMasterListContent found in entry'' w)
      else
        let mlBytes = base64Decode base64Value in
        if mlBytes = [] then
          (False, ml_stats0, add_error_to E n ''ML_PARSE_FAILED'' (le_dn entry) [] [] ''ML''
             ''Failed to decode Master List content (Base64)'' w)
        else
          case ml_cms M mlBytes of
            None \<Rightarrow> (False, ml_stats0, add_error_to E n ''ML_PARSE_FAILED'' (le_dn entry) []
                      (extractCountryCodeFromDn (le_dn entry)) ''ML'' ''Failed to parse Master List as CMS SignedData'' w)
          | Some cms \<Rightarrow>
              (case ldif_cms E M n uploadId (le_dn entry) mlBytes cms w of (ok, v, w) \<Rightarrow> (ok, lo_stats v, w)))"

text \<open>As \<open>processEntries\<close> calls it: its result is not looked at.\<close>

definition master_list_reader :: "('c, 'k, 't, 'd, 'l) surroundings \<Rightarrow> ('c, 'm, 's, 't) ml_ssl \<Rightarrow> string \<Rightarrow> ('d, 'l) ml_parser" where
  "master_list_reader E M uploadId n entry w =
     (case parseMasterListEntryV2 E M uploadId n entry w of
        (_, t, w) \<Rightarrow> (Inr \<lparr>ms_mlscCount = mt_mlscCount t, ms_ldapMlStoredCount = mt_ldapMlStoredCount t,
                         ms_cscaNewCount = mt_cscaNewCount t, ms_ldapCscaStoredCount = mt_ldapCscaStoredCount t\<rparr>, w))"

section \<open>A Master List file\<close>

definition file_mlsc_stored :: "('c, 'k, 't, 'd, 'l) surroundings \<Rightarrow> string \<Rightarrow> ml_meta \<Rightarrow> string \<times> bool
    \<Rightarrow> ml_locals \<times> ('d, 'l) upload \<Rightarrow> ml_locals \<times> ('d, 'l) upload" where
  "file_mlsc_stored E uploadId meta saved vw =
     (let (v, w) = vw; (certId, isDuplicate) = saved; cc = lo_countryCode v in
      if certId = [] then (v, w)
      else
        let w = trackCertificateDuplicate E certId uploadId ''ML_FILE'' cc ''Master List Signer'' [] w in
        if isDuplicate then (v, w)
        else (count_mlsc v, if ev_connected E then snd (directory_listed E ''MLSC'' cc meta certId w) else w))"

definition file_signer :: "('c, 'k, 't, 'd, 'l) surroundings \<Rightarrow> ('c, 'm, 's, 't) ml_ssl \<Rightarrow> string \<Rightarrow> 'c list \<Rightarrow> 's option
    \<Rightarrow> ml_locals \<times> ('d, 'l) upload \<Rightarrow> ml_locals \<times> ('d, 'l) upload" where
  "file_signer E M uploadId certs si vw =
     (case Option.bind si (signer_certificate M certs) of
        None \<Rightarrow> vw
      | Some c \<Rightarrow>
          (let (v, w) = vw; meta = extractListedMetadata E M c in
           if no_metadata meta then (v, w)
           else
             let cc = extractCountryCode (mm_subjectDn meta);
                 v = v\<lparr>lo_signerDn := mm_subjectDn meta, lo_countryCode := (if cc = ''XX'' then ''UN'' else cc)\<rparr>
             in case save_listed E uploadId ''MLSC'' (lo_countryCode v) meta w of
                  (saved, w) \<Rightarrow> file_mlsc_stored E uploadId meta saved (v, w)))"

definition file_country :: "ml_meta \<Rightarrow> string" where
  "file_country meta =
     (let cc = extractCountryCode (mm_subjectDn meta) in if cc = ''XX'' then extractCountryCode (mm_issuerDn meta) else cc)"

definition file_after_save :: "('c, 'k, 't, 'd, 'l) surroundings \<Rightarrow> string \<Rightarrow> string \<Rightarrow> ml_meta \<Rightarrow> string \<times> bool
    \<Rightarrow> ml_locals \<times> ('d, 'l) upload \<Rightarrow> ml_locals \<times> ('d, 'l) upload" where
  "file_after_save E uploadId cc meta saved vw =
     (let (v, w) = vw; (certId, isDuplicate) = saved in
      if isDuplicate then
        (v\<lparr>lo_dup := lo_dup v + 1\<rparr>,
         incrementDuplicateCount E certId uploadId (trackCertificateDuplicate E certId uploadId ''ML_FILE'' cc ''Master List'' [] w))
      else
        let v = v\<lparr>lo_new := lo_new v + 1\<rparr> in
        if ev_connected E then
          (case directory_listed E (if mm_isSelfSigned meta then ''CSCA'' else ''LC'') cc meta certId w of
             (isStored, w) \<Rightarrow> (if isStored then count_ldap_csca v else v, w))
        else (v, w))"

definition ml_progress :: "('c, 'k, 't, 'd, 'l) surroundings \<Rightarrow> string \<Rightarrow> ProcessingStage \<Rightarrow> int \<Rightarrow> int \<Rightarrow> string \<Rightarrow> ('d, 'l) upload
    \<Rightarrow> ('d, 'l) upload" where
  "ml_progress E uploadId stage processed all message w =
     w\<lparr>up_sent := up_sent w @ [progress_with_metadata (ev_clock E (nat processed) 4) uploadId stage processed all message
         None None (Some (ta_enhanced (up_tallies w)))]\<rparr>"

definition extracting_text :: "int \<Rightarrow> string" where
  "extracting_text n = ''ML '' @ utf8 [0xEC, 0x9D, 0xB8, 0xEC, 0xA6, 0x9D, 0xEC, 0x84, 0x9C, 0x20, 0xEC, 0xB6, 0x94, 0xEC, 0xB6,
     0x9C, 0x20, 0xEC, 0xA4, 0x91] @ '': '' @ int_dec n @ utf8 [0xEA, 0xB0, 0x9C]"

definition extracted_text :: "ml_locals \<Rightarrow> string" where
  "extracted_text v = ''ML '' @ utf8 [0xEC, 0x9D, 0xB8, 0xEC, 0xA6, 0x9D, 0xEC, 0x84, 0x9C, 0x20, 0xEC, 0xB6, 0x94, 0xEC, 0xB6,
     0x9C, 0x20, 0xEC, 0x99, 0x84, 0xEB, 0xA3, 0x8C] @ '': '' @ int_dec (lo_total v) @ utf8 [0xEA, 0xB0, 0x9C] @ '' (''
     @ int_dec (lo_new v) @ utf8 [0x20, 0xEC, 0x8B, 0xA0, 0xEA, 0xB7, 0x9C, 0x2C, 0x20] @ int_dec (lo_dup v)
     @ utf8 [0x20, 0xEC, 0xA4, 0x91, 0xEB, 0xB3, 0xB5, 0x29]"

definition file_listed :: "('c, 'k, 't, 'd, 'l) surroundings \<Rightarrow> ('c, 'm, 's, 't) ml_ssl \<Rightarrow> nat \<Rightarrow> string \<Rightarrow> 'c
    \<Rightarrow> ml_locals \<times> ('d, 'l) upload \<Rightarrow> ml_locals \<times> ('d, 'l) upload" where
  "file_listed E M n uploadId c vw =
     (let (v, w) = vw; v = v\<lparr>lo_total := lo_total v + 1\<rparr>; meta = extractListedMetadata E M c in
      if no_metadata meta then
        (v, add_error_to E n ''ML_CERT_PARSE_FAILED'' [] [] [] ''CSCA''
              (''Failed to extract metadata for certificate #'' @ int_dec (lo_total v) @ '' in Master List'') w)
      else
        let cc = file_country meta in
        case save_listed E uploadId ''CSCA'' cc meta w of
          ((certId, isDuplicate), w) \<Rightarrow>
            if certId = [] then
              (v, add_error_to E n ''ML_CERT_SAVE_FAILED'' [] (mm_subjectDn meta) cc ''CSCA''
                    (''Failed to save certificate #'' @ int_dec (lo_total v) @ '' to database'') w)
            else
              (case file_after_save E uploadId cc meta (certId, isDuplicate) (v, w) of
                 (v, w) \<Rightarrow>
                   let w = on_statistics (\<lambda>s. count_listed E n (nat (lo_total v)) c meta cc isDuplicate
                              (if isDuplicate then s\<lparr>vs_duplicateCount := vs_duplicateCount s + 1\<rparr> else s)) w
                   in (v, if lo_total v mod 10 = 0
                          then ml_progress E uploadId VALIDATION_IN_PROGRESS (lo_total v) 0 (extracting_text (lo_total v)) w
                          else w)))"

definition file_list :: "('c, 'k, 't, 'd, 'l) surroundings \<Rightarrow> ('c, 'm, 's, 't) ml_ssl \<Rightarrow> nat \<Rightarrow> string \<Rightarrow> byte list
    \<Rightarrow> nat \<times> nat \<Rightarrow> ml_locals \<times> ('d, 'l) upload \<Rightarrow> ml_locals \<times> ('d, 'l) upload" where
  "file_list E M n uploadId mem place vw =
     (let (cs, failed) = certificates_at M mem place;
          (v, w) = fold (file_listed E M n uploadId) cs vw;
          w = (if failed then add_error_to E n ''ML_CERT_PARSE_FAILED'' [] [] [] ''CSCA''
                 (''Failed to parse certificate #'' @ int_dec (lo_total v + 1) @ '' in Master List certList SET'') w else w);
          w = ml_progress E uploadId VALIDATION_COMPLETED (lo_total v) (lo_total v) (extracted_text v) w;
          v = v\<lparr>lo_stats := (lo_stats v)\<lparr>mt_mlCount := 1, mt_cscaExtractedCount := lo_total v,
                  mt_cscaNewCount := lo_new v, mt_cscaDuplicateCount := lo_dup v\<rparr>\<rparr>
      in (v, updateCscaExtractionStats uploadId (lo_total v) (lo_dup v) (snd (saveMasterList E w))))"

definition file_cms :: "('c, 'k, 't, 'd, 'l) surroundings \<Rightarrow> ('c, 'm, 's, 't) ml_ssl \<Rightarrow> nat \<Rightarrow> string \<Rightarrow> 'm
    \<Rightarrow> ('d, 'l) upload \<Rightarrow> bool \<times> ml_locals \<times> ('d, 'l) upload" where
  "file_cms E M n uploadId cms w =
     (let (v, w) = fold (file_signer E M uploadId (ml_certs M cms)) (ml_signers M cms) (ml_locals0 ''UN'', w);
          failed = (\<lambda>message. (False, v, add_error_to E n ''ML_PARSE_FAILED'' [] [] [] ''ML'' message w)) in
      case ml_content M cms of
        None \<Rightarrow> failed ''Failed to extract encapsulated content (pkiData) from Master List CMS''
      | Some content \<Rightarrow>
          (let mem = content @ ml_behind M cms in
           case cert_set M mem (int (length content)) of
             Inl e \<Rightarrow> failed ''Invalid Master List ASN.1 structure: expected SEQUENCE tag''
           | Inr None \<Rightarrow> failed ''Failed to find certList SET in Master List ASN.1 structure''
           | Inr (Some place) \<Rightarrow> (True, file_list E M n uploadId mem place (v, w))))"

definition processMasterListFile :: "('c, 'k, 't, 'd, 'l) surroundings \<Rightarrow> ('c, 'm, 's, 't) ml_ssl \<Rightarrow> nat \<Rightarrow> string \<Rightarrow> byte list
    \<Rightarrow> ('d, 'l) upload \<Rightarrow> bool \<times> ml_stats \<times> ('d, 'l) upload" where
  "processMasterListFile E M n uploadId content w =
     (if content = [] \<or> hd content \<noteq> 0x30 then
        (False, ml_stats0, add_error_to E n ''ML_PARSE_FAILED'' [] [] [] ''ML''
           ''Invalid Master List: not a valid CMS structure (missing SEQUENCE tag)'' w)
      else case ml_cms M content of
        None \<Rightarrow> (False, ml_stats0, add_error_to E n ''ML_PARSE_FAILED'' [] [] [] ''ML''
                  ''Failed to parse Master List file as CMS SignedData'' w)
      | Some cms \<Rightarrow> (case file_cms E M n uploadId cms w of (ok, v, w) \<Rightarrow> (ok, lo_stats v, w)))"

section \<open>What a Master List keeps\<close>

text \<open>A property of the whole upload that storing a certificate and every guarded statement keep, and that does not look
  at the directory, the counters, the random numbers and the messages, is kept by both Master List readers.\<close>

locale reader_invariant =
  fixes E :: "('c, 'k, 't, 'd, 'l) surroundings" and keeps :: "('d, 'l) upload \<Rightarrow> bool"
  assumes checked: "6 < length params \<Longrightarrow> save_checked E params ty (params ! 6) u w = (r, w') \<Longrightarrow> keeps w \<Longrightarrow> keeps w'"
    and guarded: "keeps w \<Longrightarrow> keeps (try_command E q ps w)"
    and frame: "keeps (w\<lparr>up_tallies := t\<rparr>) = keeps w" "keeps (w\<lparr>up_directory := l\<rparr>) = keeps w"
      "keeps (w\<lparr>up_draws := k\<rparr>) = keeps w" "keeps (w\<lparr>up_sent := sent\<rparr>) = keeps w"
begin

lemma keeps_listed: "save_listed E u ty cc meta w = (r, w') \<Longrightarrow> keeps w \<Longrightarrow> keeps w'"
  using checked [of "insert_meta_params E u ty cc meta ''UNKNOWN'' []" ty u w r w']
  by (simp add: save_listed_def insert_meta_params_def)

lemma keeps_track: "keeps w \<Longrightarrow> keeps (trackCertificateDuplicate E i u st cc dn f w)"
  unfolding trackCertificateDuplicate_def by (rule guarded)

lemma keeps_increment: "keeps w \<Longrightarrow> keeps (incrementDuplicateCount E i u w)"
  unfolding incrementDuplicateCount_def by (rule guarded)

lemma keeps_directory_listed: "keeps w \<Longrightarrow> keeps (snd (directory_listed E ty cc meta i w))"
  by (simp add: directory_listed_def updateCertificateLdapStatus_def frame Let_def guarded split: prod.split)

lemma keeps_error: "keeps (add_error_to E n ty dn cdn cc ct m w) = keeps w"
  by (simp add: add_error_to_def frame)

lemma keeps_stats: "keeps (on_statistics f w) = keeps w"
  by (simp add: on_statistics_def frame)

lemma keeps_progress: "keeps (ml_progress E u st p a m w) = keeps w"
  by (simp add: ml_progress_def frame)

lemma keeps_draw: "draw_uuid E w = (k, w') \<Longrightarrow> keeps w \<Longrightarrow> keeps w'"
  by (auto simp: draw_uuid_def frame split: prod.splits)

lemmas keeps_ml = keeps_directory_listed keeps_track keeps_increment keeps_error keeps_stats keeps_progress

lemma keeps_saved: "keeps w \<Longrightarrow> keeps (snd (save_listed E u ty cc meta w))"
  by (rule keeps_listed [OF surjective_pairing])

lemma keeps_signer: "keeps (snd vw) \<Longrightarrow> keeps (snd (ldif_signer E M n u dn certs si vw))"
  by (cases "Option.bind si (signer_certificate M certs)")
    (simp_all add: ldif_signer_def ldif_mlsc_stored_def Let_def split_beta keeps_ml keeps_saved)

lemma keeps_after_save: "keeps (snd vw) \<Longrightarrow> keeps (snd (ldif_after_save E n u dn cc meta saved vw))"
  by (simp add: ldif_after_save_def Let_def split_beta keeps_ml)

lemma keeps_one: "keeps (snd vw) \<Longrightarrow> keeps (snd (ldif_listed E M n u dn c vw))"
proof (cases vw)
  case (Pair v w)
  assume "keeps (snd vw)"
  with Pair have w: "keeps w" by simp
  define v1 where "v1 = v\<lparr>lo_total := lo_total v + 1\<rparr>"
  define meta where "meta = extractListedMetadata E M c"
  define cc where "cc = ldif_country (lo_countryCode v1) meta"
  obtain i dup w1 where s: "save_listed E u ''CSCA'' cc meta w = ((i, dup), w1)" by (metis surj_pair)
  have w1: "keeps w1" by (rule keeps_listed [OF s w])
  obtain v2 w2 where a: "ldif_after_save E n u dn cc meta (i, dup) (v1, w1) = (v2, w2)" by force
  have "keeps w2" using keeps_after_save [of "(v1, w1)" n u dn cc meta "(i, dup)"] a w1 by simp
  then show ?thesis using w w1
    by (simp add: Pair ldif_listed_def Let_def v1_def [symmetric] meta_def [symmetric] cc_def [symmetric] s a keeps_ml keeps_stats)
qed

lemma keeps_all_signers: "keeps (snd vw) \<Longrightarrow> keeps (snd (fold (ldif_signer E M n u dn certs) xs vw))"
  by (induction xs arbitrary: vw) (simp_all add: keeps_signer)

lemma keeps_all_listed: "keeps (snd vw) \<Longrightarrow> keeps (snd (fold (ldif_listed E M n u dn) cs vw))"
  by (induction cs arbitrary: vw) (simp_all add: keeps_one)

lemma keeps_list: "keeps (snd vw) \<Longrightarrow> keeps (snd (ldif_list E M n u dn mem place vw))"
proof -
  assume vw: "keeps (snd vw)"
  obtain cs failed where c: "certificates_at M mem place = (cs, failed)" by force
  obtain v w where f: "fold (ldif_listed E M n u dn) cs vw = (v, w)" by force
  have "keeps w" using keeps_all_listed [OF vw, of M n u dn cs] f by simp
  then show ?thesis by (simp add: ldif_list_def c f Let_def keeps_ml)
qed

lemma keeps_backup: "keeps (snd vw) \<Longrightarrow> keeps (snd (snd (ldif_backup E n u dn fp ml vw)))"
  by (cases vw) (auto simp: ldif_backup_def saveMasterList_def updateMasterListLdapStatus_def updateCscaExtractionStats_def
      Let_def keeps_ml frame split: prod.split dest: keeps_draw)

lemma keeps_cms: "keeps w \<Longrightarrow> keeps (snd (snd (ldif_cms E M n u dn ml cms w)))"
proof -
  assume w: "keeps w"
  obtain v w1 where f: "fold (ldif_signer E M n u dn (ml_certs M cms)) (ml_signers M cms)
      (ml_locals0 (extractCountryCodeFromDn dn), w) = (v, w1)" by force
  have "keeps w1"
    using keeps_all_signers [of "(ml_locals0 (extractCountryCodeFromDn dn), w)" M n u dn "ml_certs M cms" "ml_signers M cms"]
      f w by simp
  then show ?thesis
    by (auto simp: ldif_cms_def f Let_def split: option.split sum.split intro!: keeps_backup keeps_list)
qed

lemma keeps_master_list: "keeps w \<Longrightarrow> keeps (snd (master_list_reader E M u n entry w))"
  by (auto simp: master_list_reader_def parseMasterListEntryV2_def Let_def keeps_ml split: option.split prod.split)
    (metis keeps_cms snd_conv)+

text \<open>The reader of a file.\<close>

lemma keeps_file_signer: "keeps (snd vw) \<Longrightarrow> keeps (snd (file_signer E M u certs si vw))"
  by (cases "Option.bind si (signer_certificate M certs)")
    (simp_all add: file_signer_def file_mlsc_stored_def Let_def split_beta keeps_ml keeps_saved)

lemma keeps_file_after_save: "keeps (snd vw) \<Longrightarrow> keeps (snd (file_after_save E u cc meta saved vw))"
  by (simp add: file_after_save_def Let_def split_beta keeps_ml)

lemma keeps_file_one: "keeps (snd vw) \<Longrightarrow> keeps (snd (file_listed E M n u c vw))"
proof (cases vw)
  case (Pair v w)
  assume "keeps (snd vw)"
  with Pair have w: "keeps w" by simp
  define v1 where "v1 = v\<lparr>lo_total := lo_total v + 1\<rparr>"
  define meta where "meta = extractListedMetadata E M c"
  define cc where "cc = file_country meta"
  obtain i dup w1 where s: "save_listed E u ''CSCA'' cc meta w = ((i, dup), w1)" by (metis surj_pair)
  have w1: "keeps w1" by (rule keeps_listed [OF s w])
  obtain v2 w2 where a: "file_after_save E u cc meta (i, dup) (v1, w1) = (v2, w2)" by force
  have "keeps w2" using keeps_file_after_save [of "(v1, w1)" u cc meta "(i, dup)"] a w1 by simp
  then show ?thesis using w w1
    by (simp add: Pair file_listed_def Let_def v1_def [symmetric] meta_def [symmetric] cc_def [symmetric] s a keeps_ml)
qed

lemma keeps_file_signers: "keeps (snd vw) \<Longrightarrow> keeps (snd (fold (file_signer E M u certs) xs vw))"
  by (induction xs arbitrary: vw) (simp_all add: keeps_file_signer)

lemma keeps_file_all: "keeps (snd vw) \<Longrightarrow> keeps (snd (fold (file_listed E M n u) cs vw))"
  by (induction cs arbitrary: vw) (simp_all add: keeps_file_one)

lemma keeps_file_list: "keeps (snd vw) \<Longrightarrow> keeps (snd (file_list E M n u mem place vw))"
proof -
  assume vw: "keeps (snd vw)"
  obtain cs failed where c: "certificates_at M mem place = (cs, failed)" by force
  obtain v w where f: "fold (file_listed E M n u) cs vw = (v, w)" by force
  have "keeps w" using keeps_file_all [OF vw, of M n u cs] f by simp
  then show ?thesis
    by (simp add: file_list_def c f Let_def updateCscaExtractionStats_def saveMasterList_def
        keeps_draw [OF surjective_pairing] keeps_ml)
qed

lemma keeps_file: "keeps w \<Longrightarrow> keeps (snd (snd (processMasterListFile E M n u content w)))"
proof -
  assume w: "keeps w"
  have "keeps (snd (snd (file_cms E M n u cms w)))" for cms
  proof -
    obtain v w1 where f: "fold (file_signer E M u (ml_certs M cms)) (ml_signers M cms) (ml_locals0 ''UN'', w) = (v, w1)" by force
    have "keeps w1" using keeps_file_signers [of "(ml_locals0 ''UN'', w)" M u "ml_certs M cms" "ml_signers M cms"] f w by simp
    then show ?thesis by (auto simp: file_cms_def f Let_def keeps_ml split: option.split sum.split intro!: keeps_file_list)
  qed
  then show ?thesis using w
    by (auto simp: processMasterListFile_def keeps_ml split: option.split prod.split) (metis snd_conv)
qed

end

sublocale session_invariant \<subseteq> reads: reader_invariant E "\<lambda>w. P (up_executor w)"
proof (unfold_locales, goal_cases)
  case (1 params ty u w r w')
  then show ?case using keeps_checked [of w params ty "params ! 6" u] by simp
next
  case (2 w q ps)
  then show ?case by (rule keeps_try)
qed simp_all

interpretation batch_reads: reader_invariant E "\<lambda>w. pg_laws (ev_pg E) view \<longrightarrow> busy view w0 \<longrightarrow> follows view w0 w"
  for E view w0
proof (unfold_locales, goal_cases)
  case (1 params ty u w r w')
  then show ?case
    using busy_follows follows_trans follows_checked [OF _ _ 1(1) refl] by (metis surj_pair)
next
  case (2 w q ps)
  then show ?case using busy_follows follows_trans follows_try by metis
qed (simp_all add: follows_frame)

end
