(* ===== verification/Master_List_Facts.thy ===== *)
theory Master_List_Facts
  imports Master_List
begin

text \<open>
  Properties of the Master List readers: which certificates a list yields and which bytes are read for it, what the
  statistics count, and what the readers leave of the session of an upload.
\<close>

section \<open>The list\<close>

text \<open>\<open>reads M h tag n\<close>: \<^verbatim>\<open>ASN1_get_object\<close> reads the header \<open>h\<close> of a constructed or primitive value of \<open>n\<close> bytes, when that
  value is inside the bound; \<open>overruns\<close>: it reports a value that is not by the flag \<^verbatim>\<open>0x80\<close>, and sets tag and length.\<close>

definition reads :: "('c, 'm, 's, 't) ml_ssl \<Rightarrow> byte list \<Rightarrow> nat \<Rightarrow> nat \<Rightarrow> bool" where
  "reads M h tag n \<longleftrightarrow>
     (\<forall>rest omax. int (length h + n) \<le> omax \<longrightarrow>
        (\<exists>ret. ret \<noteq> 0x80 \<and> ml_header M (h @ rest) omax = \<lparr>hd_ret = ret, hd_adv = length h, hd_tag = Some tag, hd_len = Some n\<rparr>))"

definition overruns :: "('c, 'm, 's, 't) ml_ssl \<Rightarrow> byte list \<Rightarrow> nat \<Rightarrow> nat \<Rightarrow> bool" where
  "overruns M h tag n \<longleftrightarrow>
     (\<forall>rest omax. int (length h) \<le> omax \<longrightarrow> omax < int (length h + n) \<longrightarrow>
        ml_header M (h @ rest) omax = \<lparr>hd_ret = 0xA0, hd_adv = length h, hd_tag = Some tag, hd_len = Some n\<rparr>)"

lemma readsD:
  assumes "reads M h tag n" "int (length h + n) \<le> omax"
  obtains ret where "ret \<noteq> 0x80" "ml_header M (h @ rest) omax = \<lparr>hd_ret = ret, hd_adv = length h, hd_tag = Some tag, hd_len = Some n\<rparr>"
  using assms unfolding reads_def by blast

lemma listed_step:
  assumes "der \<noteq> []" "ml_d2i M (der @ r) = Some (c, length der - 1)"
  shows "listed M (der @ r) = (c # fst (listed M r), snd (listed M r))"
proof -
  have "Suc (length der - 1) = length der" using assms(1) by (cases der) simp_all
  then show ?thesis using assms by (simp add: listed.simps [of M "der @ r"] split_beta)
qed

lemma listed_all:
  assumes "\<forall>c \<in> set cs. ml_i2d M c \<noteq> [] \<and> (\<forall>rest. ml_d2i M (ml_i2d M c @ rest) = Some (c, length (ml_i2d M c) - 1))"
  shows "listed M (concat (map (ml_i2d M) cs)) = (cs, False)"
  using assms
proof (induction cs)
  case Nil
  then show ?case by (simp add: listed.simps)
next
  case (Cons c cs)
  then show ?case using listed_step [of "ml_i2d M c" M "concat (map (ml_i2d M) cs)" c] by simp
qed

text \<open>C29. A well-formed Master List, a sequence of an optional version and the set of the certificates, yields exactly the
  certificates in it, in their order, whatever lies behind it in memory.\<close>

theorem master_list_roundtrip:
  assumes "reads M h1 16 (length (ver @ h2 @ body))" "reads M h2 17 (length body)"
    "ver = [] \<or> (\<exists>h3 v. ver = h3 @ v \<and> reads M h3 2 (length v))"
    "body = concat (map (ml_i2d M) cs)" "cs \<noteq> []"
    "\<forall>c \<in> set cs. ml_i2d M c \<noteq> [] \<and> (\<forall>rest. ml_d2i M (ml_i2d M c @ rest) = Some (c, length (ml_i2d M c) - 1))"
    "content = h1 @ ver @ h2 @ body"
  shows "\<exists>place. cert_set M (content @ behind) (int (length content)) = Inr (Some place)
    \<and> certificates_at M (content @ behind) place = (cs, False)"
proof -
  let ?place = "(length (h1 @ ver @ h2), length body)"
  have body: "body \<noteq> []" using assms(4-6) by (cases cs) auto
  obtain r1 where h1: "r1 \<noteq> 0x80" "ml_header M (content @ behind) (int (length content))
      = \<lparr>hd_ret = r1, hd_adv = length h1, hd_tag = Some 16, hd_len = Some (length (ver @ h2 @ body))\<rparr>"
    using readsD [OF assms(1), of "int (length content)" "ver @ h2 @ body @ behind"] assms(7) by auto
  obtain r2 where h2: "ml_header M (h2 @ body @ behind) (int (length (h2 @ body)))
      = \<lparr>hd_ret = r2, hd_adv = length h2, hd_tag = Some 17, hd_len = Some (length body)\<rparr>"
    using readsD [OF assms(2), of "int (length (h2 @ body))" "body @ behind"] by auto
  have "cert_set M (content @ behind) (int (length content)) = Inr (Some ?place)"
  proof (cases "ver = []")
    case True
    then show ?thesis using h1 h2 body by (simp add: cert_set_def assms(7) or_else_tag_def Let_def)
  next
    case False
    with assms(3) obtain h3 v where v: "ver = h3 @ v" "reads M h3 2 (length v)" by blast
    obtain r3 where h3: "ml_header M (h3 @ v @ h2 @ body @ behind) (int (length (h3 @ v @ h2 @ body)))
        = \<lparr>hd_ret = r3, hd_adv = length h3, hd_tag = Some 2, hd_len = Some (length v)\<rparr>"
      using readsD [OF v(2), of "int (length (h3 @ v @ h2 @ body))" "v @ h2 @ body @ behind"] by auto
    show ?thesis using h1 h2 h3 body v(1) by (simp add: cert_set_def assms(7) or_else_tag_def Let_def)
  qed
  moreover have "certificates_at M (content @ behind) ?place = (cs, False)"
    using listed_all [OF assms(6)] by (simp add: certificates_at_def assms(4,7))
  ultimately show ?thesis by blast
qed

text \<open>The length of the set is not compared with the content: for a content that ends with the header of a set of
  \<open>n\<close> bytes, every certificate taken from it is read from the memory behind the content.\<close>

theorem master_list_overread:
  assumes "reads M h1 16 (length h2)" "overruns M h2 17 n" "0 < n" "content = h1 @ h2"
  shows "cert_set M (content @ behind) (int (length content)) = Inr (Some (length content, n))
    \<and> certificates_at M (content @ behind) (length content, n) = listed M (take n behind)"
proof -
  obtain r1 where h1: "r1 \<noteq> 0x80" "ml_header M (content @ behind) (int (length content))
      = \<lparr>hd_ret = r1, hd_adv = length h1, hd_tag = Some 16, hd_len = Some (length h2)\<rparr>"
    using readsD [OF assms(1), of "int (length content)" "h2 @ behind"] assms(4) by auto
  have "ml_header M (h2 @ behind) (int (length h2)) = \<lparr>hd_ret = 0xA0, hd_adv = length h2, hd_tag = Some 17, hd_len = Some n\<rparr>"
    using assms(2,3) unfolding overruns_def by simp
  then show ?thesis using h1 assms(3) by (simp add: cert_set_def assms(4) or_else_tag_def Let_def certificates_at_def)
qed

definition demo_header :: "byte list \<Rightarrow> int \<Rightarrow> header" where
  "demo_header bs omax =
     (case bs of
        t # l # _ \<Rightarrow> \<lparr>hd_ret = (if 2 + unat l \<le> nat omax then 0x20 else 0xA0), hd_adv = 2, hd_tag = Some (unat (t AND 31)),
                    hd_len = Some (unat l)\<rparr>
      | _ \<Rightarrow> \<lparr>hd_ret = 0x80, hd_adv = 0, hd_tag = None, hd_len = None\<rparr>)"

definition demo_ml :: "(nat, byte list, nat, int) ml_ssl" where
  "demo_ml = \<lparr>ml_cms = Some, ml_certs = (\<lambda>_. []), ml_signers = (\<lambda>_. []), ml_cert_cmp = (\<lambda>_ _. 0), ml_content = (\<lambda>m. Some (tl m)),
     ml_behind = (\<lambda>_. []), ml_junk = 0, ml_header = demo_header,
     ml_d2i = (\<lambda>bs. case bs of _ # b # _ \<Rightarrow> Some (unat b, 1) | _ \<Rightarrow> None), ml_i2d = (\<lambda>c. [0x30, of_nat c]),
     ml_self_issued = (\<lambda>_. True), ml_time_text = (\<lambda>_. ''now'')\<rparr>"

lemma demo_reads: "n < 128 \<Longrightarrow> reads demo_ml [t, of_nat n] (unat (t AND 31)) n"
  by (auto simp: reads_def demo_ml_def demo_header_def unat_of_nat)

lemma demo_overruns: "n < 128 \<Longrightarrow> overruns demo_ml [t, of_nat n] (unat (t AND 31)) n"
  by (auto simp: overruns_def demo_ml_def demo_header_def unat_of_nat)

lemma demo_ml_fields [simp]:
  "ml_i2d demo_ml c = [0x30, of_nat c]" "ml_d2i demo_ml (a # b # r) = Some (unat b, 1)"
  by (simp_all add: demo_ml_def)

lemma master_list_roundtrip_witness:
  "\<exists>place. cert_set demo_ml ([0x30, 9, 2, 1, 0, 0x31, 4, 0x30, 5, 0x30, 7] @ [9]) 11 = Inr (Some place)
    \<and> certificates_at demo_ml ([0x30, 9, 2, 1, 0, 0x31, 4, 0x30, 5, 0x30, 7] @ [9]) place = ([5, 7], False)"
proof -
  have l: "length ([2, 1, 0] @ [0x31, 4] @ [0x30, 5, 0x30, 7 :: byte]) = 9" "length [0x30, 5, 0x30, 7 :: byte] = 4"
      "length [0 :: byte] = 1" "length [0x30, 9, 2, 1, 0, 0x31, 4, 0x30, 5, 0x30, 7 :: byte] = 11"
    by simp_all
  have r: "reads demo_ml [0x30, 9] 16 (length ([2, 1, 0] @ [0x31, 4] @ [0x30, 5, 0x30, 7 :: byte]))"
      "reads demo_ml [0x31, 4] 17 (length [0x30, 5, 0x30, 7 :: byte])" "reads demo_ml [2, 1] 2 (length [0 :: byte])"
    unfolding l using demo_reads [of 9 "0x30"] demo_reads [of 4 "0x31"] demo_reads [of 1 2] by simp_all
  have v: "[2, 1, 0 :: byte] = [] \<or> (\<exists>h3 v. [2, 1, 0] = h3 @ v \<and> reads demo_ml h3 2 (length v))"
    by (intro disjI2 exI [of _ "[2, 1]"] exI [of _ "[0]"] conjI) (simp, rule r)
  show ?thesis using master_list_roundtrip [OF r(1,2) v _ _ _ refl, of "[5, 7]" "[9]"] by (simp add: l)
qed

lemma demo_listed: "listed demo_ml [0x30, b] = ([unat b], False)"
  using listed_step [of "[0x30, b]" demo_ml "[]"] by (simp add: listed.simps [of _ "[]"])

lemma master_list_overread_witness:
  "certificates_at demo_ml ([0x30, 2, 0x31, 2] @ [0x30, 9]) (4, 2) = ([9], False)"
proof -
  have l: "length [0x31, 2 :: byte] = 2" "length ([0x30, 2] @ [0x31, 2 :: byte]) = 4" by simp_all
  have r: "reads demo_ml [0x30, 2] 16 (length [0x31, 2 :: byte])"
    unfolding l using demo_reads [of 2 "0x30"] by simp
  have "overruns demo_ml [0x31, 2] 17 2" using demo_overruns [of 2 "0x31"] by simp
  from master_list_overread [OF r this _ refl, of "[0x30, 9]", unfolded l] show ?thesis
    using demo_listed [of 9] by simp
qed

section \<open>The session\<close>

lemma follows_reader:
  assumes "pg_laws (ev_pg E) view" "busy view w"
  shows "follows view w (snd (master_list_reader E M u n entry w))"
proof -
  have "follows view w w" using assms(2) by (simp add: busy_def follows_refl)
  then show ?thesis using batch_reads.keeps_master_list [of E view w w M u n entry] assms by blast
qed

lemma reader_follows: "pg_laws (ev_pg E) view \<Longrightarrow> ml_follows view (master_list_reader E M u)"
  unfolding ml_follows_def by (simp add: follows_reader) (simp add: master_list_reader_def split: prod.split)

lemma closed_reader:
  "pg_laws (ev_pg E) view \<Longrightarrow> closed_session view (up_executor w)
    \<Longrightarrow> closed_session view (up_executor (snd (master_list_reader E M u n entry w)))"
  using closed.reads.keeps_master_list [of E view w M u n entry] by simp

text \<open>C17. With Master Lists among its entries, too, a batch has one of two outcomes.  The transaction survived: the commit
  applies all its writes if it succeeds and none if it fails.  It was aborted: all its writes are lost.  The rows of
  certificates, the CSCAs of Master Lists included, are committed one by one in every case, and each is known to the duplicate
  cache.\<close>

theorem master_list_batch:
  assumes "pg_laws (ev_pg E) view" "pinned w" "up_fingerprintCacheLoaded w" "transaction view w = Open ws sp"
    "run_entries E (master_list_reader E M u) u n es w = w1" "end_batch E w1 = w'"
  shows "\<exists>new. let t = (committed view w)\<lparr>tb_certificates := tb_certificates (committed view w) @ new\<rparr> in
     (\<forall>(i, ps) \<in> set new. \<exists>fp. param 6 ps = Some (c_str fp) \<and> isFingerprintCached fp w')
     \<and> transaction view w' = Idle
     \<and> (\<exists>ws' sp'. transaction view w1 = Open (ws @ ws') sp'
           \<and> committed view w' = (if fst (pg_commit (ev_pg E) (ex_db (up_executor w1))) then effective t (ws @ ws') else t)
        \<or> transaction view w1 = Aborted sp' \<and> committed view w' = t)"
  by (rule batch_result [OF assms(1-4) disjI2 assms(5,6)]) (rule reader_follows [OF assms(1)])

lemma master_list_batch_witness:
  "tb_crls (committed (\<lambda>d. d) (end_batch demo_dateless
      (run_entries demo_dateless (master_list_reader demo_dateless demo_ml ''u1'') ''u1'' 0 [demo_crl_entry] demo_upload))) = []"
proof -
  let ?ml = "master_list_reader demo_dateless demo_ml ''u1'' :: (tables \<times> tx, string \<Rightarrow> ldap_attrs option) ml_parser"
  let ?w = "run_entries demo_dateless ?ml ''u1'' 0 [demo_crl_entry] demo_upload"
  let ?s = "demo_upload\<lparr>up_executor := savepoint plain_pg (up_executor demo_upload)\<rparr>"
  have u: "pinned demo_upload" "up_fingerprintCacheLoaded demo_upload" "transaction (\<lambda>d. d) demo_upload = Open [] None"
      "committed (\<lambda>d. d) demo_upload = no_tables"
    by (simp_all add: demo_upload_def pinned_def transaction_def committed_def)
  have s: "pinned ?s" "ex_db (up_executor ?s) = (no_tables, Open [] (Some []))"
    by (simp_all add: demo_upload_def savepoint_def pinned_def plain_pg_def)
  have w: "?w = snd (parseCrlEntry demo_dateless 0 ''u1'' demo_crl_entry ?s)"
    by (simp add: process_entry_def entry_body_def Let_def demo_crl_entry_def hasAttribute_def dateless_fields)
  have a: "is_aborted (transaction (\<lambda>d. d) ?w)"
    unfolding w using dateless_aborts [OF s, of 0 "''u1''"] by simp
  have l: "pg_laws (ev_pg demo_dateless) (\<lambda>d. d)" using plain_pg_laws by (simp add: dateless_fields)
  from master_list_batch [OF l u(1,2,3) refl refl, of demo_ml "''u1''" 0 "[demo_crl_entry]"] obtain new where
    "committed (\<lambda>d. d) (end_batch demo_dateless ?w) = no_tables\<lparr>tb_certificates := tb_certificates no_tables @ new\<rparr>"
    using a u(4) by (auto simp: Let_def is_aborted_def)
  then show ?thesis by (simp add: no_tables_def)
qed

text \<open>C40. However the upload of an LDIF file ends, Master Lists included, the executor has left the batch mode and no
  transaction is open on its connection.\<close>

theorem ldif_upload_closes_session:
  assumes "pg_laws (ev_pg E) view" "\<not> ex_batchMode (up_executor w)" "transaction view w = Idle"
    "processEntries E (master_list_reader E M u) u totals es w = (r, w')"
  shows "\<not> ex_batchMode (up_executor w') \<and> transaction view w' = Idle"
  using closes_session [OF assms(1-3) closed_reader [OF assms(1)] assms(4)] .

lemma ldif_upload_closes_session_witness:
  "case processEntries demo_surroundings (master_list_reader demo_surroundings demo_ml ''u1'') ''u1'' (0, 0, 0)
      [demo_entry, demo_crl_entry]
      (demo_upload\<lparr>up_executor := \<lparr>ex_db = (no_tables, Idle), ex_batchMode = False, ex_batchConn = False\<rparr>\<rparr>) of
     (r, w) \<Rightarrow> \<not> ex_batchMode (up_executor w) \<and> transaction (\<lambda>d. d) w = Idle"
proof -
  let ?w = "demo_upload\<lparr>up_executor := \<lparr>ex_db = (no_tables, Idle), ex_batchMode = False, ex_batchConn = False\<rparr>\<rparr>"
  obtain r w' where p: "processEntries demo_surroundings (master_list_reader demo_surroundings demo_ml ''u1'') ''u1'' (0, 0, 0)
      [demo_entry, demo_crl_entry] ?w = (r, w')" by force
  have l: "pg_laws (ev_pg demo_surroundings) (\<lambda>d. d)" using plain_pg_laws by (simp add: demo_surroundings_def)
  have "\<not> ex_batchMode (up_executor ?w)" "transaction (\<lambda>d. d) ?w = Idle" by (simp_all add: transaction_def)
  from ldif_upload_closes_session [OF l this p] show ?thesis by (simp add: p)
qed

section \<open>The counters\<close>

text \<open>The statements leave the counters alone.\<close>

lemma tallies_command [simp]: "up_tallies (try_command E q ps w) = up_tallies w"
  by (simp add: try_command_def command_def split: prod.split)

lemma tallies_query: "query E q ps w = (r, w') \<Longrightarrow> up_tallies w' = up_tallies w"
  by (auto simp: query_def split: prod.splits)

lemma tallies_insert: "up_tallies (snd (insert_certificate E params fp u w)) = up_tallies w"
  by (auto simp: insert_certificate_def addToFingerprintCache_def Let_def dest: tallies_query split: prod.split sum.split list.split)

lemma tallies_listed: "save_listed E u ty cc meta w = (r, w') \<Longrightarrow> up_tallies w' = up_tallies w"
  using tallies_insert [of E "insert_meta_params E u ty cc meta ''UNKNOWN'' []" "mm_fingerprint meta" u]
  by (auto simp: save_listed_def save_checked_def dest: tallies_query split: prod.splits sum.splits list.splits option.splits if_splits)
    (metis snd_conv tallies_query)+

lemma tallies_directory: "directory_listed E ty cc meta i w = (b, w') \<Longrightarrow> up_tallies w' = up_tallies w"
  by (auto simp: directory_listed_def updateCertificateLdapStatus_def Let_def split: prod.splits if_splits)

abbreviation statistics :: "('d, 'l) upload \<Rightarrow> validation_statistics" where
  "statistics w \<equiv> ta_enhanced (up_tallies w)"

lemma statistics_error [simp]: "statistics (add_error_to E n ty dn cdn cc ct m w)
    = addProcessingError (statistics w) (ev_timestamp E n) ty dn cdn cc ct m"
  by (simp add: add_error_to_def)

lemma statistics_on [simp]: "statistics (on_statistics f w) = f (statistics w)"
  by (simp add: on_statistics_def)

text \<open>What the display shows: certificates, valid ones, duplicates, trusted chains, certificates checked against
  Doc 9303, certificates sorted by their dates.\<close>

definition shown :: "validation_statistics \<Rightarrow> int list" where
  "shown s = [vs_totalCertificates s, vs_validCount s, vs_duplicateCount s, vs_trustChainValidCount s,
     vs_icaoCompliantCount s + vs_icaoNonCompliantCount s, vs_expiredCount s + vs_notYetValidCount s + vs_validPeriodCount s]"

lemma shown_error [simp]: "shown (addProcessingError s t ty dn cdn cc ct m) = shown s"
  by (simp add: shown_def addProcessingError_def count_error_def Let_def)

lemma shown_violation [simp]: "shown (count_violation ok k s) = shown s"
  by (simp add: shown_def count_violation_def)

lemma shown_compliance: "shown (count_compliance c s) = map2 (+) (shown s) [0, 0, 0, 0, 1, 0]"
  by (simp add: count_compliance_def Let_def) (simp add: shown_def)

lemma shown_keys: "shown (count_keys md s) = shown s"
  by (simp add: count_keys_def shown_def Let_def)

lemma shown_validity: "shown (count_validity E n i c s) = map2 (+) (shown s) [0, 0, 0, 0, 0, 1]"
  by (simp add: count_validity_def shown_def Let_def)

lemma shown_reason: "shown (count_reason r s) = shown s"
  by (simp add: count_reason_def shown_def)

lemma shown_log: "shown (addValidationLog s t ty cc sn iss st m p ec fp) = shown s"
  by (simp add: addValidationLog_def shown_def Let_def)

lemma shown_counted:
  "shown (s\<lparr>vs_totalCertificates := vs_totalCertificates s + 1, vs_processedCount := k, vs_certificateTypes := m\<rparr>)
     = map2 (+) (shown s) [1, 0, 0, 0, 0, 0]"
  "shown (s\<lparr>vs_validCount := vs_validCount s + 1\<rparr>) = map2 (+) (shown s) [0, 1, 0, 0, 0, 0]"
  "shown (s\<lparr>vs_duplicateCount := vs_duplicateCount s + 1\<rparr>) = map2 (+) (shown s) [0, 0, 1, 0, 0, 0]"
  by (simp_all add: shown_def)

lemma shown_length: "\<exists>a b c d e f. shown s = [a, b, c, d, e, f]"
  by (simp add: shown_def)

lemma shown_listed:
  "shown (count_listed E n i c meta cc dup s) = map2 (+) (shown s) [1, if dup then 0 else 1, 0, 0, 1, 1]"
proof -
  obtain v1 v2 v3 v4 v5 v6 where v: "shown s = [v1, v2, v3, v4, v5, v6]" using shown_length by blast
  show ?thesis
    unfolding count_listed_def Let_def
    by (simp only: shown_validity shown_keys shown_compliance shown_reason shown_counted shown_log v
        if_distrib [of shown] split: if_split) simp
qed

text \<open>One certificate of the list.\<close>

lemma listed_counts:
  assumes "ldif_listed E M n u dn c (v, w) = (v', w')"
  obtains (skipped) "lo_total v' = lo_total v + 1" "lo_new v' = lo_new v" "lo_dup v' = lo_dup v"
      "shown (statistics w') = shown (statistics w)"
    | (new) "lo_total v' = lo_total v + 1" "lo_new v' = lo_new v + 1" "lo_dup v' = lo_dup v"
      "shown (statistics w') = map2 (+) (shown (statistics w)) [1, 1, 0, 0, 1, 1]"
    | (dup) "lo_total v' = lo_total v + 1" "lo_new v' = lo_new v" "lo_dup v' = lo_dup v + 1"
      "shown (statistics w') = map2 (+) (shown (statistics w)) [1, 0, 1, 0, 1, 1]"
proof -
  define v1 where "v1 = v\<lparr>lo_total := lo_total v + 1\<rparr>"
  define meta where "meta = extractListedMetadata E M c"
  define cc where "cc = ldif_country (lo_countryCode v1) meta"
  obtain i d w1 where s: "save_listed E u ''CSCA'' cc meta w = ((i, d), w1)" by (metis surj_pair)
  have t1: "up_tallies w1 = up_tallies w" by (rule tallies_listed [OF s])
  obtain v2 w2 where a: "ldif_after_save E n u dn cc meta (i, d) (v1, w1) = (v2, w2)" by force
  note e = assms [unfolded ldif_listed_def Let_def prod.case, folded v1_def meta_def, folded cc_def, unfolded s prod.case a]
  obtain x1 x2 x3 x4 x5 x6 where x: "shown (statistics w) = [x1, x2, x3, x4, x5, x6]" using shown_length by blast
  show thesis
  proof (cases "no_metadata meta \<or> i = []")
    case True
    then show thesis using e t1 by (intro skipped) (auto simp: v1_def split: if_splits)
  next
    case False
    then have e': "v' = v2" "w' = on_statistics (count_listed E n (nat (lo_total v2)) c meta cc d) w2" using e by auto
    show thesis
    proof (cases d)
      case True
      then have "v2 = v1\<lparr>lo_dup := lo_dup v1 + 1\<rparr>"
          "shown (statistics w2) = map2 (+) (shown (statistics w)) [0, 0, 1, 0, 0, 0]"
        using a t1 by (auto simp: ldif_after_save_def Let_def incrementDuplicateCount_def trackCertificateDuplicate_def shown_counted)
      then show thesis using True x by (intro dup) (simp_all add: e' v1_def shown_listed)
    next
      case False
      then have "lo_total v2 = lo_total v1" "lo_new v2 = lo_new v1 + 1" "lo_dup v2 = lo_dup v1"
          "shown (statistics w2) = shown (statistics w)"
        using a t1 by (auto simp: ldif_after_save_def Let_def trackCertificateDuplicate_def count_ldap_csca_def
            dest!: tallies_directory split: if_splits prod.splits)
      then show thesis using False x by (intro new) (simp_all add: e' v1_def shown_listed)
    qed
  qed
qed

lemma all_counts:
  "fold (ldif_listed E M n u dn) cs (v, w) = (v', w') \<Longrightarrow>
     \<exists>a b. 0 \<le> a \<and> 0 \<le> b \<and> a + b \<le> int (length cs) \<and> lo_total v' = lo_total v + int (length cs)
       \<and> lo_new v' = lo_new v + a \<and> lo_dup v' = lo_dup v + b
       \<and> shown (statistics w') = map2 (+) (shown (statistics w)) [a + b, a, b, 0, a + b, a + b]"
proof (induction cs arbitrary: v w)
  case Nil
  obtain x1 x2 x3 x4 x5 x6 where "shown (statistics w) = [x1, x2, x3, x4, x5, x6]" using shown_length by blast
  then show ?case using Nil by (intro exI [of _ 0]) auto
next
  case (Cons c cs)
  obtain v1 w1 where one: "ldif_listed E M n u dn c (v, w) = (v1, w1)" by force
  with Cons.prems have "fold (ldif_listed E M n u dn) cs (v1, w1) = (v', w')" by simp
  from Cons.IH [OF this] obtain a b where ab: "0 \<le> a" "0 \<le> b" "a + b \<le> int (length cs)"
      "lo_total v' = lo_total v1 + int (length cs)" "lo_new v' = lo_new v1 + a" "lo_dup v' = lo_dup v1 + b"
      "shown (statistics w') = map2 (+) (shown (statistics w1)) [a + b, a, b, 0, a + b, a + b]" by blast
  obtain x1 x2 x3 x4 x5 x6 where x: "shown (statistics w) = [x1, x2, x3, x4, x5, x6]" using shown_length by blast
  from one show ?case
  proof (cases rule: listed_counts)
    case skipped
    then show ?thesis using ab x by (intro exI [of _ a] exI [of _ b]) auto
  next
    case new
    then show ?thesis using ab x by (intro exI [of _ "a + 1"] exI [of _ b]) auto
  next
    case dup
    then show ?thesis using ab x by (intro exI [of _ a] exI [of _ "b + 1"]) auto
  qed
qed

definition extraction :: "ml_stats \<Rightarrow> int \<times> int \<times> int" where
  "extraction t = (mt_cscaExtractedCount t, mt_cscaNewCount t, mt_cscaDuplicateCount t)"

lemma listed_extraction: "extraction (lo_stats (fst (ldif_listed E M n u dn c vw))) = extraction (lo_stats (fst vw))"
  by (simp add: ldif_listed_def ldif_after_save_def Let_def split_beta extraction_def count_ldap_csca_def)

lemma all_extraction: "extraction (lo_stats (fst (fold (ldif_listed E M n u dn) cs vw))) = extraction (lo_stats (fst vw))"
  by (induction cs arbitrary: vw) (simp_all add: listed_extraction)

text \<open>The counters of a Master List: every certificate read from it is counted as extracted; those stored now are the
  new ones, those known before the duplicates, and together they are the certificates the display shows.  Each new one is shown
  as valid although nothing about it was verified: no trust chain is counted with it.\<close>

theorem master_list_counts:
  assumes "ldif_list E M n u dn mem place (ml_locals0 cc, w) = (v', w')"
  shows "\<exists>new dup. 0 \<le> new \<and> 0 \<le> dup \<and> new + dup \<le> mt_cscaExtractedCount (lo_stats v')
    \<and> mt_cscaExtractedCount (lo_stats v') = int (length (fst (certificates_at M mem place)))
    \<and> mt_cscaNewCount (lo_stats v') = new \<and> mt_cscaDuplicateCount (lo_stats v') = dup
    \<and> vs_totalCertificates (statistics w') = vs_totalCertificates (statistics w) + new + dup
    \<and> vs_validCount (statistics w') = vs_validCount (statistics w) + new
    \<and> vs_duplicateCount (statistics w') = vs_duplicateCount (statistics w) + dup
    \<and> vs_trustChainValidCount (statistics w') = vs_trustChainValidCount (statistics w)"
proof -
  obtain cs failed where c: "certificates_at M mem place = (cs, failed)" by force
  obtain v1 w1 where f: "fold (ldif_listed E M n u dn) cs (ml_locals0 cc, w) = (v1, w1)" by force
  from all_counts [OF f] obtain a b where ab: "0 \<le> a" "0 \<le> b" "a + b \<le> int (length cs)"
      "lo_total v1 = int (length cs)" "lo_new v1 = a" "lo_dup v1 = b"
      "shown (statistics w1) = map2 (+) (shown (statistics w)) [a + b, a, b, 0, a + b, a + b]"
    by (auto simp: ml_locals0_def)
  have t: "extraction (lo_stats v1) = (0, 0, 0)"
    using all_extraction [of E M n u dn cs "(ml_locals0 cc, w)"] f by (simp add: ml_locals0_def ml_stats0_def extraction_def)
  have "mt_cscaExtractedCount (lo_stats v') = int (length cs)" "mt_cscaNewCount (lo_stats v') = a"
      "mt_cscaDuplicateCount (lo_stats v') = b" "shown (statistics w') = shown (statistics w1)"
    using assms ab(4-6) t by (auto simp: ldif_list_def c f Let_def extraction_def)
  then show ?thesis using ab(1-3,7) by (intro exI [of _ a] exI [of _ b]) (simp add: c shown_def)
qed

lemma demo_listed_two: "listed demo_ml [0x30, a, 0x30, b] = ([unat a, unat b], False)"
  using listed_step [of "[0x30, a]" demo_ml "[0x30, b]"] by (simp add: demo_listed)

lemma master_list_counts_witness:
  "mt_cscaExtractedCount (lo_stats (fst (ldif_list demo_surroundings demo_ml 0 ''u1'' ''dn'' [0x30, 5, 0x30, 7] (0, 4)
      (ml_locals0 ''KR'', demo_upload)))) = 2"
proof -
  obtain v' w' where l: "ldif_list demo_surroundings demo_ml 0 ''u1'' ''dn'' [0x30, 5, 0x30, 7] (0, 4)
      (ml_locals0 ''KR'', demo_upload) = (v', w')" by force
  have "certificates_at demo_ml [0x30, 5, 0x30, 7] (0, 4) = ([5, 7], False)"
    using demo_listed_two [of 5 7] by (simp add: certificates_at_def)
  then show ?thesis using master_list_counts [OF l] by (auto simp: l)
qed

end
