(* ===== verification/Conn_Pool.thy ===== *)
theory Conn_Pool
  imports Prelude "HOL-Library.Word"
begin

text \<open>
  The connection pools of the services: \<^verbatim>\<open>DbConnectionPool\<close> of
  \<^verbatim>\<open>shared/lib/database/db_connection_pool.cpp\<close> and \<^verbatim>\<open>LdapConnectionPool\<close> of
  \<^verbatim>\<open>shared/lib/ldap/ldap_connection_pool.cpp\<close>.  What a thread does while it holds the mutex is a function on the pool;
  the threads are interleaved by the relation \<open>pool_step\<close>, whose state also records which connections are open.  The locale
  \<open>pool_class\<close> states what the two classes share, \<open>counting_class\<close> what only the second one keeps.
\<close>

section \<open>The pool under its mutex\<close>

record 'c pool =
  availableConnections :: "'c list"
  totalConnections :: "64 word"
  maxSize :: "64 word"
  is_shutdown :: bool

text \<open>How a thread leaves the critical section of \<^verbatim>\<open>acquire\<close>: with an exception, with a connection, to create one without
  the mutex, or to wait on the condition variable.\<close>

datatype 'c tried = Down | Got 'c | Create | Wait

text \<open>\<open>healthy\<close> is the answer of \<^verbatim>\<open>isConnectionHealthy\<close>.  The functions return the connections they close.\<close>

fun db_retry :: "('c \<Rightarrow> bool) \<Rightarrow> 'c list \<Rightarrow> 'c pool \<Rightarrow> 'c tried \<times> 'c list \<times> 'c pool" where
  "db_retry healthy [] p = (if totalConnections p < maxSize p then Create else Wait, [], p\<lparr>availableConnections := []\<rparr>)"
| "db_retry healthy (c # cs) p =
     (if healthy c then (Got c, [], p\<lparr>availableConnections := cs\<rparr>)
      else case db_retry healthy cs (p\<lparr>totalConnections := totalConnections p - 1\<rparr>) of
             (r, closed, p) \<Rightarrow> (r, c # closed, p))"

definition db_acquire :: "('c \<Rightarrow> bool) \<Rightarrow> 'c pool \<Rightarrow> 'c tried \<times> 'c list \<times> 'c pool" where
  "db_acquire healthy p = (if is_shutdown p then (Down, [], p) else db_retry healthy (availableConnections p) p)"

definition db_releaseConnection :: "('c \<Rightarrow> bool) \<Rightarrow> 'c \<Rightarrow> 'c pool \<Rightarrow> 'c list \<times> 'c pool" where
  "db_releaseConnection healthy c p =
     (if is_shutdown p then ([c], p\<lparr>totalConnections := totalConnections p - 1\<rparr>)
      else if healthy c then ([], p\<lparr>availableConnections := availableConnections p @ [c]\<rparr>)
      else ([c], p\<lparr>totalConnections := totalConnections p - 1\<rparr>))"

definition db_shutdown :: "'c pool \<Rightarrow> 'c list \<times> 'c pool" where
  "db_shutdown p =
     (if is_shutdown p then ([], p)
      else (availableConnections p, p\<lparr>is_shutdown := True, availableConnections := [], totalConnections := 0\<rparr>))"

definition ldap_acquire :: "('c \<Rightarrow> bool) \<Rightarrow> 'c pool \<Rightarrow> 'c tried \<times> 'c list \<times> 'c pool" where
  "ldap_acquire healthy p =
     (if is_shutdown p then (Down, [], p)
      else
        let create = (\<lambda>p. if totalConnections p < maxSize p then Create else Wait) in
        case availableConnections p of
          [] \<Rightarrow> (create p, [], p)
        | c # cs \<Rightarrow>
            if healthy c then (Got c, [], p\<lparr>availableConnections := cs\<rparr>)
            else let p = p\<lparr>availableConnections := cs, totalConnections := totalConnections p - 1\<rparr> in (create p, [c], p))"

definition ldap_releaseConnection :: "('c \<Rightarrow> bool) \<Rightarrow> 'c \<Rightarrow> 'c pool \<Rightarrow> 'c list \<times> 'c pool" where
  "ldap_releaseConnection healthy c p =
     (if is_shutdown p then ([c], p\<lparr>totalConnections := totalConnections p - 1\<rparr>)
      else ([], p\<lparr>availableConnections := availableConnections p @ [c]\<rparr>))"

definition ldap_shutdown :: "'c pool \<Rightarrow> 'c list \<times> 'c pool" where
  "ldap_shutdown p =
     (availableConnections p, p\<lparr>is_shutdown := True, availableConnections := [],
        totalConnections := totalConnections p - of_nat (length (availableConnections p))\<rparr>)"

text \<open>The constructors and \<^verbatim>\<open>initialize\<close>: \<open>made\<close> is what the calls of \<^verbatim>\<open>createConnection\<close> return.  The constructor of the database
  pool rejects a minimum above the maximum.\<close>

definition new_pool :: "64 word \<Rightarrow> 'c pool" where
  "new_pool mx = \<lparr>availableConnections = [], totalConnections = 0, maxSize = mx, is_shutdown = False\<rparr>"

definition db_new :: "64 word \<Rightarrow> 64 word \<Rightarrow> 'c pool res" where
  "db_new mn mx = (if mx < mn then Inl (Invalid_Argument) else Inr (new_pool mx))"

fun initialize :: "'c option list \<Rightarrow> 'c pool \<Rightarrow> bool \<times> 'c pool" where
  "initialize [] p = (True, p)"
| "initialize (None # made) p = (False, p)"
| "initialize (Some c # made) p =
     initialize made (p\<lparr>availableConnections := availableConnections p @ [c], totalConnections := totalConnections p + 1\<rparr>)"

definition getStats :: "'c pool \<Rightarrow> nat \<times> 64 word \<times> 64 word" where
  "getStats p = (length (availableConnections p), totalConnections p, maxSize p)"

text \<open>Connecting and checking, from the results of the library calls.  \<open>unbound\<close>: the handle was given back to libldap.\<close>

record ldap_connect =
  lc_initialize :: int
  lc_version :: int
  lc_timeout :: int
  lc_credentials :: bool
  lc_bind :: int

definition ldap_createConnection :: "ldap_connect \<Rightarrow> 'c \<Rightarrow> 'c option \<times> 'c list" where
  "ldap_createConnection r ld =
     (if lc_initialize r \<noteq> 0 then (None, [])
      else if lc_version r \<noteq> 0 then (None, [ld])
      else if \<not> lc_credentials r then (None, [ld])
      else if lc_bind r \<noteq> 0 then (None, [ld])
      else (Some ld, []))"

definition ldap_isConnectionHealthy :: "('c \<Rightarrow> int) \<Rightarrow> 'c option \<Rightarrow> bool" where
  "ldap_isConnectionHealthy search ld = (case ld of None \<Rightarrow> False | Some c \<Rightarrow> search c = 0)"

definition db_createConnection :: "bool \<Rightarrow> 'c \<Rightarrow> 'c option \<times> 'c list" where
  "db_createConnection status_ok conn = (if \<not> status_ok then (None, [conn]) else (Some conn, []))"

definition db_isConnectionHealthy :: "('c \<Rightarrow> bool) \<Rightarrow> ('c \<Rightarrow> bool option) \<Rightarrow> 'c option \<Rightarrow> bool" where
  "db_isConnectionHealthy status_ok ping conn =
     (case conn of None \<Rightarrow> False
      | Some c \<Rightarrow> if \<not> status_ok c then False else (case ping c of None \<Rightarrow> False | Some tuples \<Rightarrow> tuples))"

text \<open>A connection that was opened is returned or closed, never both and never neither.\<close>

lemma ldap_connect_returns_or_closes:
  "lc_initialize r = 0 \<Longrightarrow> (fst (ldap_createConnection r ld) = Some ld \<and> snd (ldap_createConnection r ld) = [])
     \<noteq> (fst (ldap_createConnection r ld) = None \<and> snd (ldap_createConnection r ld) = [ld])"
  by (simp add: ldap_createConnection_def)

section \<open>Handles\<close>

text \<open>\<^verbatim>\<open>DbConnection\<close>: the pool is the owner's; \<open>release\<close> gives the connection to return.\<close>

record 'c handle =
  hd_conn :: "'c option"
  hd_released :: bool

definition new_handle :: "'c \<Rightarrow> 'c handle" where
  "new_handle c = \<lparr>hd_conn = Some c, hd_released = False\<rparr>"

definition isValid :: "'c handle \<Rightarrow> bool" where
  "isValid h = (hd_conn h \<noteq> None \<and> \<not> hd_released h)"

definition handle_release :: "'c handle \<Rightarrow> 'c option \<times> 'c handle" where
  "handle_release h = (if hd_released h \<or> hd_conn h = None then (None, h) else (hd_conn h, \<lparr>hd_conn = None, hd_released = True\<rparr>))"

definition handle_move :: "'c handle \<Rightarrow> 'c handle \<times> 'c handle" where
  "handle_move other = (other, \<lparr>hd_conn = None, hd_released = True\<rparr>)"

definition handle_assign :: "'c handle \<Rightarrow> 'c handle \<Rightarrow> 'c option \<times> 'c handle \<times> 'c handle" where
  "handle_assign this other = (fst (handle_release this), other, \<lparr>hd_conn = None, hd_released = True\<rparr>)"

definition handle_destroy :: "'c handle \<Rightarrow> 'c option" where
  "handle_destroy h = (if \<not> hd_released h \<and> hd_conn h \<noteq> None then fst (handle_release h) else None)"

section \<open>Threads\<close>

text \<open>Where a thread is in \<^verbatim>\<open>acquire\<close>: outside, at the mutex, creating a connection without it, or waiting.\<close>

datatype phase = Outside | At_Mutex | Creating | Waiting

record 'c pool_ops =
  po_acquire :: "('c \<Rightarrow> bool) \<Rightarrow> 'c pool \<Rightarrow> 'c tried \<times> 'c list \<times> 'c pool"
  po_release :: "('c \<Rightarrow> bool) \<Rightarrow> 'c \<Rightarrow> 'c pool \<Rightarrow> 'c list \<times> 'c pool"
  po_shutdown :: "'c pool \<Rightarrow> 'c list \<times> 'c pool"
  po_not_created :: phase

definition db_ops :: "'c pool_ops" where
  "db_ops = \<lparr>po_acquire = db_acquire, po_release = db_releaseConnection, po_shutdown = db_shutdown, po_not_created = Outside\<rparr>"

definition ldap_ops :: "'c pool_ops" where
  "ldap_ops = \<lparr>po_acquire = ldap_acquire, po_release = ldap_releaseConnection, po_shutdown = ldap_shutdown,
     po_not_created = Waiting\<rparr>"

text \<open>\<open>sy_live\<close> are the open connections, \<open>sy_held\<close> those of a handle; \<open>sy_fault\<close> is set when a connection that is not open is
  closed, checked or handed out.\<close>

record 'c sys =
  sy_pool :: "'c pool"
  sy_phases :: "phase list"
  sy_held :: "'c list"
  sy_live :: "'c set"
  sy_fault :: bool

definition touch :: "'c list \<Rightarrow> 'c sys \<Rightarrow> 'c sys" where
  "touch cs s = s\<lparr>sy_fault := (sy_fault s \<or> \<not> set cs \<subseteq> sy_live s)\<rparr>"

definition close_all :: "'c list \<Rightarrow> 'c sys \<Rightarrow> 'c sys" where
  "close_all cs s = s\<lparr>sy_fault := (sy_fault s \<or> \<not> (set cs \<subseteq> sy_live s \<and> distinct cs)), sy_live := sy_live s - set cs\<rparr>"

definition set_phase :: "nat \<Rightarrow> phase \<Rightarrow> 'c sys \<Rightarrow> 'c sys" where
  "set_phase i ph s = s\<lparr>sy_phases := (sy_phases s)[i := ph]\<rparr>"

definition at :: "nat \<Rightarrow> phase \<Rightarrow> 'c sys \<Rightarrow> bool" where
  "at i ph s = (i < length (sy_phases s) \<and> sy_phases s ! i = ph)"

definition after_try :: "nat \<Rightarrow> 'c tried \<Rightarrow> 'c sys \<Rightarrow> 'c sys" where
  "after_try i r s =
     (case r of
        Down \<Rightarrow> set_phase i Outside s
      | Got c \<Rightarrow> set_phase i Outside (touch [c] s\<lparr>sy_held := c # sy_held s\<rparr>)
      | Create \<Rightarrow> set_phase i Creating s
      | Wait \<Rightarrow> set_phase i Waiting s)"

inductive pool_step :: "'c pool_ops \<Rightarrow> 'c sys \<Rightarrow> 'c sys \<Rightarrow> bool" for ops where
  call: "at i Outside s \<Longrightarrow> pool_step ops s (set_phase i At_Mutex s)"
| attempt: "at i At_Mutex s \<Longrightarrow> po_acquire ops healthy (sy_pool s) = (r, closed, p) \<Longrightarrow>
    pool_step ops s (after_try i r (close_all closed (s\<lparr>sy_pool := p\<rparr>)))"
| wake: "at i Waiting s \<Longrightarrow> pool_step ops s (set_phase i At_Mutex s)"
| timeout: "at i Waiting s \<Longrightarrow> pool_step ops s (set_phase i Outside s)"
| created: "at i Creating s \<Longrightarrow> c \<notin> sy_live s \<Longrightarrow>
    pool_step ops s (set_phase i Outside (s\<lparr>sy_pool := (sy_pool s)\<lparr>totalConnections := totalConnections (sy_pool s) + 1\<rparr>,
      sy_held := c # sy_held s, sy_live := insert c (sy_live s)\<rparr>))"
| not_created: "at i Creating s \<Longrightarrow> pool_step ops s (set_phase i (po_not_created ops) s)"
| release: "c \<in> set (sy_held s) \<Longrightarrow> po_release ops healthy c (sy_pool s) = (closed, p) \<Longrightarrow>
    pool_step ops s (close_all closed (touch [c] (s\<lparr>sy_pool := p, sy_held := remove1 c (sy_held s)\<rparr>)))"
| stop: "po_shutdown ops (sy_pool s) = (closed, p) \<Longrightarrow> pool_step ops s (close_all closed (s\<lparr>sy_pool := p\<rparr>))"

inductive_cases pool_stepE: "pool_step ops s s'"

definition fresh_sys :: "nat \<Rightarrow> 'c pool \<Rightarrow> 'c sys" where
  "fresh_sys n p = \<lparr>sy_pool = p, sy_phases = replicate n Outside, sy_held = [], sy_live = set (availableConnections p), sy_fault = False\<rparr>"

abbreviation reaches :: "'c pool_ops \<Rightarrow> 'c sys \<Rightarrow> 'c sys \<Rightarrow> bool" where
  "reaches ops \<equiv> (pool_step ops)\<^sup>*\<^sup>*"

section \<open>What the two classes share\<close>

locale pool_class =
  fixes ops :: "'c pool_ops"
  assumes acquire_law: "po_acquire ops healthy p = (r, closed, p') \<Longrightarrow>
      availableConnections p = closed @ (case r of Got c \<Rightarrow> c # availableConnections p' | _ \<Rightarrow> availableConnections p')
      \<and> totalConnections p' = totalConnections p - of_nat (length closed)
      \<and> maxSize p' = maxSize p \<and> is_shutdown p' = is_shutdown p"
    and create_law: "po_acquire ops healthy p = (Create, closed, p') \<Longrightarrow> \<not> is_shutdown p \<and> totalConnections p' < maxSize p'"
    and release_law: "po_release ops healthy c p = (closed, p') \<Longrightarrow>
      (closed = [c] \<and> availableConnections p' = availableConnections p \<and> totalConnections p' = totalConnections p - 1
       \<or> closed = [] \<and> \<not> is_shutdown p \<and> availableConnections p' = availableConnections p @ [c]
         \<and> totalConnections p' = totalConnections p)
      \<and> maxSize p' = maxSize p \<and> is_shutdown p' = is_shutdown p"
    and stop_law: "po_shutdown ops p = (closed, p') \<Longrightarrow> (is_shutdown p \<Longrightarrow> availableConnections p = []) \<Longrightarrow>
      closed = availableConnections p \<and> availableConnections p' = [] \<and> is_shutdown p' \<and> maxSize p' = maxSize p"
    and not_created_law: "po_not_created ops \<in> {Outside, Waiting}"

locale counting_class = pool_class +
  assumes stop_counts: "po_shutdown ops p = (closed, p') \<Longrightarrow> totalConnections p' = totalConnections p - of_nat (length closed)"

text \<open>Every open connection has one owner, the queue or a handle; nothing is owned that is not open.\<close>

definition owned :: "'c sys \<Rightarrow> 'c list" where
  "owned s = availableConnections (sy_pool s) @ sy_held s"

definition owners :: "'c sys \<Rightarrow> bool" where
  "owners s = (distinct (owned s) \<and> sy_live s = set (owned s) \<and> \<not> sy_fault s
     \<and> (is_shutdown (sy_pool s) \<longrightarrow> availableConnections (sy_pool s) = []))"

definition creating :: "'c sys \<Rightarrow> nat" where
  "creating s = count_list (sy_phases s) Creating"

definition within :: "64 word \<Rightarrow> nat \<Rightarrow> 'c sys \<Rightarrow> bool" where
  "within m n s = (maxSize (sy_pool s) = m \<and> length (sy_phases s) = n \<and> length (owned s) + creating s \<le> unat m + n - 1
     \<and> (\<not> is_shutdown (sy_pool s) \<longrightarrow> totalConnections (sy_pool s) = of_nat (length (owned s))))"

lemma creating_set_phase:
  "at i ph s \<Longrightarrow> creating (set_phase i ph' s) + (if ph = Creating then 1 else 0) = creating s + (if ph' = Creating then 1 else 0)"
proof -
  assume a: "at i ph s"
  have "count_list (xs[i := ph']) Creating + (if xs ! i = Creating then 1 else 0)
      = count_list xs Creating + (if ph' = Creating then 1 else 0)" if "i < length xs" for xs
    using that
  proof (induction xs arbitrary: i)
    case (Cons x xs)
    show ?case
    proof (cases i)
      case (Suc j)
      then show ?thesis using Cons.IH [of j] Cons.prems by (auto split: if_splits)
    qed simp
  qed simp
  from this [of "sy_phases s"] a show ?thesis by (simp add: creating_def set_phase_def at_def)
qed

lemma set_phase_frame [simp]:
  "sy_pool (set_phase i ph s) = sy_pool s" "sy_held (set_phase i ph s) = sy_held s" "sy_live (set_phase i ph s) = sy_live s"
  "sy_fault (set_phase i ph s) = sy_fault s" "length (sy_phases (set_phase i ph s)) = length (sy_phases s)"
  "owned (set_phase i ph s) = owned s"
  by (simp_all add: set_phase_def owned_def)

lemma close_all_frame [simp]:
  "sy_pool (close_all cs s) = sy_pool s" "sy_held (close_all cs s) = sy_held s" "sy_phases (close_all cs s) = sy_phases s"
  "owned (close_all cs s) = owned s" "sy_live (close_all cs s) = sy_live s - set cs"
  by (simp_all add: close_all_def owned_def)

lemma touch_frame [simp]:
  "sy_pool (touch cs s) = sy_pool s" "sy_held (touch cs s) = sy_held s" "sy_phases (touch cs s) = sy_phases s"
  "owned (touch cs s) = owned s" "sy_live (touch cs s) = sy_live s"
  by (simp_all add: touch_def owned_def)

lemma unat_small: "k < 2 ^ 64 \<Longrightarrow> unat (of_nat k :: 64 word) = k"
  by (simp add: unsigned_of_nat take_bit_nat_eq_self)

lemma length_remove_held: "c \<in> set cs \<Longrightarrow> length cs = Suc (length (remove1 c cs))"
  by (metis One_nat_def Suc_pred length_pos_if_in_set length_remove1)

lemma creating_le: "creating s \<le> length (sy_phases s)"
  by (simp add: creating_def count_list_eq_length_filter)

context pool_class
begin

lemma owners_step:
  assumes "pool_step ops s s'" "owners s"
  shows "owners s'"
  using assms
proof (cases rule: pool_step.cases)
  case (attempt i healthy r closed p)
  note a = acquire_law [OF attempt(3)]
  show ?thesis using assms(2) a unfolding attempt(1)
    by (cases r) (auto simp: owners_def owned_def after_try_def touch_def close_all_def set_phase_def)
next
  case (release c healthy closed p)
  have r: "distinct (availableConnections (sy_pool s) @ sy_held s)" "sy_live s = set (availableConnections (sy_pool s) @ sy_held s)"
    "\<not> sy_fault s" "is_shutdown (sy_pool s) \<longrightarrow> availableConnections (sy_pool s) = []"
    using assms(2) by (simp_all add: owners_def owned_def)
  then have "set (remove1 c (sy_held s)) = set (sy_held s) - {c}" "distinct (remove1 c (sy_held s))"
    by (simp_all add: set_remove1_eq)
  then show ?thesis using release_law [OF release(3)] r release(2) unfolding release(1)
    by (auto simp: owners_def owned_def touch_def close_all_def)
next
  case (stop closed p)
  have r: "distinct (availableConnections (sy_pool s) @ sy_held s)" "sy_live s = set (availableConnections (sy_pool s) @ sy_held s)"
    "\<not> sy_fault s" "is_shutdown (sy_pool s) \<Longrightarrow> availableConnections (sy_pool s) = []"
    using assms(2) by (simp_all add: owners_def owned_def)
  show ?thesis using stop_law [OF stop(2) r(4)] r unfolding stop(1)
    by (auto simp: owners_def owned_def close_all_def)
qed (auto simp: owners_def owned_def set_phase_def)

lemma within_step:
  assumes "pool_step ops s s'" "owners s" "within m n s" "unat m + n < 2 ^ 64" "0 < n"
  shows "within m n s'"
  using assms(1)
proof (cases rule: pool_step.cases)
  case (attempt i healthy r closed p)
  note a = acquire_law [OF attempt(3)] and cs = creating_set_phase [OF attempt(2)]
  let ?s = "close_all closed (s\<lparr>sy_pool := p\<rparr>)"
  have o': "length (owned s) = length closed + length (availableConnections p) + length (sy_held s) + (case r of Got c \<Rightarrow> 1 | _ \<Rightarrow> 0)"
    using a by (cases r) (simp_all add: owned_def)
  have i: "at i At_Mutex ?s" using attempt(2) by (simp add: at_def)
  show ?thesis
  proof (cases r)
    case (Got c)
    have "creating (set_phase i Outside (touch [c] ?s\<lparr>sy_held := c # sy_held ?s\<rparr>)) = creating s"
      using cs [of Outside] by (simp add: creating_def set_phase_def)
    then show ?thesis using assms(3) a o' Got unfolding attempt(1)
      by (auto simp: within_def after_try_def owned_def algebra_simps)
  next
    case Create
    have c: "creating (set_phase i Creating ?s) \<le> n"
      using creating_le [of "set_phase i Creating ?s"] assms(3) by (simp add: within_def)
    have d: "\<not> is_shutdown (sy_pool s)" "totalConnections p < maxSize p" using create_law [OF attempt(3) [unfolded Create]] by simp_all
    let ?k = "length (availableConnections p) + length (sy_held s)"
    have "totalConnections p = of_nat ?k" using assms(3) d(1) a o' Create by (simp add: within_def)
    moreover have "?k < 2 ^ 64" using assms(3-5) o' unfolding within_def by linarith
    then have "unat (of_nat ?k :: 64 word) = ?k" by (rule unat_small)
    moreover have "maxSize p = m" using a assms(3) by (simp add: within_def)
    ultimately have "?k < unat m" using d(2) by (simp add: word_less_nat_alt)
    then show ?thesis using assms(3) a o' Create c \<open>totalConnections p = of_nat ?k\<close> unfolding attempt(1)
      by (auto simp: within_def after_try_def owned_def)
  next
    case Down
    have "creating (set_phase i Outside ?s) = creating s" using cs [of Outside] by (simp add: creating_def set_phase_def)
    then show ?thesis using assms(3) a o' Down unfolding attempt(1) by (auto simp: within_def after_try_def owned_def algebra_simps)
  next
    case Wait
    have "creating (set_phase i Waiting ?s) = creating s" using cs [of Waiting] by (simp add: creating_def set_phase_def)
    then show ?thesis using assms(3) a o' Wait unfolding attempt(1) by (auto simp: within_def after_try_def owned_def algebra_simps)
  qed
next
  case (call i)
  then show ?thesis using assms(3) creating_set_phase [OF call(2), of At_Mutex] by (simp add: within_def)
next
  case (wake i)
  then show ?thesis using assms(3) creating_set_phase [OF wake(2), of At_Mutex] by (simp add: within_def)
next
  case (timeout i)
  then show ?thesis using assms(3) creating_set_phase [OF timeout(2), of Outside] by (simp add: within_def)
next
  case (created i c)
  let ?s = "s\<lparr>sy_pool := (sy_pool s)\<lparr>totalConnections := totalConnections (sy_pool s) + 1\<rparr>, sy_held := c # sy_held s, sy_live := insert c (sy_live s)\<rparr>"
  have "creating (set_phase i Outside ?s) + 1 = creating s"
    using creating_set_phase [OF created(2), of Outside] by (simp add: creating_def set_phase_def)
  then show ?thesis using assms(3) created(1) by (simp add: within_def owned_def)
next
  case (not_created i)
  then show ?thesis using assms(3) creating_set_phase [OF not_created(2), of "po_not_created ops"] not_created_law
    by (auto simp: within_def)
next
  case (release c healthy closed p)
  have "length (sy_held s) = Suc (length (remove1 c (sy_held s)))" by (rule length_remove_held [OF release(2)])
  then show ?thesis using assms(3) release_law [OF release(3)] unfolding release(1)
    by (auto simp: within_def owned_def creating_def)
next
  case (stop closed p)
  have "is_shutdown (sy_pool s) \<Longrightarrow> availableConnections (sy_pool s) = []" using assms(2) by (simp add: owners_def)
  from stop_law [OF stop(2) this] show ?thesis using assms(3) unfolding stop(1)
    by (auto simp: within_def owned_def creating_def)
qed


lemma reaches_invariant:
  assumes "reaches ops s s'" "owners s" "within m n s" "unat m + n < 2 ^ 64" "0 < n"
  shows "owners s' \<and> within m n s'"
  using assms(1)
proof (induction rule: rtranclp_induct)
  case base
  then show ?case using assms by simp
next
  case (step y z)
  then show ?case using owners_step within_step assms(4,5) by blast
qed

text \<open>A pool that has been shut down, with every handle returned and no connection under way, holds none open.\<close>

lemma nothing_leaks:
  "owners s \<Longrightarrow> is_shutdown (sy_pool s) \<Longrightarrow> sy_held s = [] \<Longrightarrow> sy_live s = {}"
  by (simp add: owners_def owned_def)

end

context counting_class
begin

lemma count_step:
  assumes "pool_step ops s s'" "owners s" "totalConnections (sy_pool s) = of_nat (length (owned s))"
  shows "totalConnections (sy_pool s') = of_nat (length (owned s'))"
  using assms(1)
proof (cases rule: pool_step.cases)
  case (attempt i healthy r closed p)
  show ?thesis using acquire_law [OF attempt(3)] assms(3) unfolding attempt(1)
    by (cases r) (simp_all add: after_try_def owned_def)
next
  case (release c healthy closed p)
  have "length (sy_held s) = Suc (length (remove1 c (sy_held s)))" by (rule length_remove_held [OF release(2)])
  then show ?thesis using release_law [OF release(3)] assms(3) unfolding release(1) by (auto simp: owned_def)
next
  case (stop closed p)
  have "is_shutdown (sy_pool s) \<Longrightarrow> availableConnections (sy_pool s) = []" using assms(2) by (simp add: owners_def)
  from stop_law [OF stop(2) this] stop_counts [OF stop(2)] show ?thesis using assms(3) unfolding stop(1) by (simp add: owned_def)
qed (use assms(3) in \<open>simp_all add: owned_def\<close>)

lemma reaches_count:
  assumes "reaches ops s s'" "owners s" "totalConnections (sy_pool s) = of_nat (length (owned s))"
  shows "totalConnections (sy_pool s') = of_nat (length (owned s'))"
proof -
  have "owners s' \<and> totalConnections (sy_pool s') = of_nat (length (owned s'))"
    using assms(1)
  proof (induction rule: rtranclp_induct)
    case base
    then show ?case using assms by simp
  next
    case (step y z)
    then show ?case using owners_step count_step by blast
  qed
  then show ?thesis by simp
qed

end

section \<open>The two classes\<close>

lemma db_retry_law:
  "db_retry healthy cs p = (r, closed, p') \<Longrightarrow>
   cs = closed @ (case r of Got c \<Rightarrow> c # availableConnections p' | _ \<Rightarrow> availableConnections p')
   \<and> totalConnections p' = totalConnections p - of_nat (length closed)
   \<and> maxSize p' = maxSize p \<and> is_shutdown p' = is_shutdown p
   \<and> (r = Create \<longrightarrow> totalConnections p' < maxSize p') \<and> (r \<noteq> Down)"
proof (induction healthy cs p arbitrary: r closed rule: db_retry.induct)
  case (2 healthy c cs p)
  show ?case
  proof (cases "healthy c")
    case False
    obtain r' closed' where "db_retry healthy cs (p\<lparr>totalConnections := totalConnections p - 1\<rparr>) = (r', closed', p')"
      using 2(2) False by (auto split: prod.splits)
    with 2(1) [OF False this] 2(2) False show ?thesis by (auto simp: algebra_simps)
  qed (use 2(2) in auto)
qed (auto split: if_splits)

interpretation db: pool_class db_ops
proof
  fix healthy and p p' :: "'a pool" and r closed
  assume a: "po_acquire db_ops healthy p = (r, closed, p')"
  then show "availableConnections p = closed @ (case r of Got c \<Rightarrow> c # availableConnections p' | _ \<Rightarrow> availableConnections p')
      \<and> totalConnections p' = totalConnections p - of_nat (length closed)
      \<and> maxSize p' = maxSize p \<and> is_shutdown p' = is_shutdown p"
    using db_retry_law [of healthy "availableConnections p" p r closed p']
    by (auto simp: db_ops_def db_acquire_def split: if_splits)
next
  fix healthy and p p' :: "'a pool" and closed
  assume "po_acquire db_ops healthy p = (Create, closed, p')"
  then show "\<not> is_shutdown p \<and> totalConnections p' < maxSize p'"
    using db_retry_law [of healthy "availableConnections p" p Create closed p']
    by (auto simp: db_ops_def db_acquire_def split: if_splits)
qed (auto simp: db_ops_def db_releaseConnection_def db_shutdown_def split: if_splits)

interpretation ldap: counting_class ldap_ops
  by unfold_locales
    (auto simp: ldap_ops_def ldap_acquire_def ldap_releaseConnection_def ldap_shutdown_def Let_def split: if_splits list.splits)

section \<open>Properties\<close>

definition connected :: "'c option list \<Rightarrow> 'c list" where
  "connected made = map the (filter (\<lambda>x. x \<noteq> None) made)"

lemma connected_simps [simp]: "connected [] = []" "connected (None # made) = connected made" "connected (Some c # made) = c # connected made"
  by (simp_all add: connected_def)

lemma initialize_law:
  "initialize made p = (ok, p') \<Longrightarrow> is_shutdown p' = is_shutdown p \<and> maxSize p' = maxSize p
   \<and> (\<exists>cs. availableConnections p' = availableConnections p @ cs \<and> set cs \<subseteq> set (connected made)
        \<and> (distinct (connected made) \<longrightarrow> distinct cs) \<and> length cs \<le> length made
        \<and> totalConnections p' = totalConnections p + of_nat (length cs))"
proof (induction made p arbitrary: ok p' rule: initialize.induct)
  case (3 c made p)
  let ?p = "p\<lparr>availableConnections := availableConnections p @ [c], totalConnections := totalConnections p + 1\<rparr>"
  have e: "initialize made ?p = (ok, p')" using 3(2) by simp
  from 3(1) [OF e] obtain cs where cs: "availableConnections p' = availableConnections ?p @ cs" "set cs \<subseteq> set (connected made)"
    "distinct (connected made) \<longrightarrow> distinct cs" "length cs \<le> length made" "is_shutdown p' = is_shutdown p" "maxSize p' = maxSize p"
    "totalConnections p' = totalConnections ?p + of_nat (length cs)" by auto
  then show ?case by (intro conjI exI [of _ "c # cs"]) auto
qed auto

lemma fresh_invariant:
  assumes "initialize made (new_pool m) = (ok, p)" "distinct (connected made)" "length made \<le> unat m" "0 < n"
  shows "owners (fresh_sys n p)" "within m n (fresh_sys n p)" "totalConnections p = of_nat (length (availableConnections p))"
proof -
  from initialize_law [OF assms(1)] obtain cs where cs: "availableConnections p = cs" "distinct cs" "length cs \<le> length made"
    "totalConnections p = of_nat (length cs)" "\<not> is_shutdown p" "maxSize p = m"
    using assms(2) by (auto simp: new_pool_def)
  then show "owners (fresh_sys n p)" "totalConnections p = of_nat (length (availableConnections p))"
    by (simp_all add: owners_def owned_def fresh_sys_def)
  have "count_list (replicate n Outside) Creating = 0" by (induction n) simp_all
  then show "within m n (fresh_sys n p)"
    using cs assms(3,4) by (simp add: within_def owned_def fresh_sys_def creating_def)
qed

text \<open>C20. Whatever the threads do, and in whatever order, no connection of either pool is closed twice, or checked or handed
  out after it was closed; no two owners share one; and once the pool is shut down, no handle is left and no thread is
  creating a connection, none is open.\<close>

theorem pool_connections_safe:
  assumes "ops = db_ops \<or> ops = ldap_ops" "initialize made (new_pool m) = (ok, p)" "distinct (connected made)"
    "length made \<le> unat m" "0 < n" "reaches ops (fresh_sys n p) s" "unat m + n < 2 ^ 64"
  shows "\<not> sy_fault s \<and> distinct (availableConnections (sy_pool s) @ sy_held s)
    \<and> sy_live s = set (availableConnections (sy_pool s)) \<union> set (sy_held s)
    \<and> (is_shutdown (sy_pool s) \<and> sy_held s = [] \<longrightarrow> sy_live s = {})"
proof -
  note f = fresh_invariant [OF assms(2-5)]
  have "owners s" using db.reaches_invariant ldap.reaches_invariant f(1,2) assms(1,5-7) by blast
  then show ?thesis by (auto simp: owners_def owned_def)
qed

text \<open>C32. The size of the pools.  The counter is compared with the maximum before the mutex is given up to connect, so the
  maximum can be exceeded, by one less than the number of threads and no more (two threads can hold two
  connections of a pool of one); until the shutdown the counter is the number of open connections, and in the LDAP
  pool also after it.\<close>

theorem pool_size_bound:
  assumes "ops = db_ops \<or> ops = ldap_ops" "initialize made (new_pool m) = (ok, p)" "distinct (connected made)"
    "length made \<le> unat m" "0 < n" "reaches ops (fresh_sys n p) s" "unat m + n < 2 ^ 64"
  shows "length (availableConnections (sy_pool s)) + length (sy_held s) \<le> unat m + n - 1
    \<and> (\<not> is_shutdown (sy_pool s) \<or> ops = ldap_ops
        \<longrightarrow> unat (totalConnections (sy_pool s)) = length (availableConnections (sy_pool s)) + length (sy_held s))"
proof -
  note f = fresh_invariant [OF assms(2-5)]
  have "owners s \<and> within m n s" using db.reaches_invariant ldap.reaches_invariant f(1,2) assms(1,5-7) by blast
  then have b: "length (owned s) \<le> unat m + n - 1" "\<not> is_shutdown (sy_pool s) \<longrightarrow> totalConnections (sy_pool s) = of_nat (length (owned s))"
    by (auto simp: within_def)
  have "totalConnections (sy_pool (fresh_sys n p)) = of_nat (length (owned (fresh_sys n p)))"
    using f(3) by (simp add: owned_def fresh_sys_def)
  then have "ops = ldap_ops \<Longrightarrow> totalConnections (sy_pool s) = of_nat (length (owned s))"
    using ldap.reaches_count f(1) assms(6) by blast
  moreover have "unat (of_nat (length (owned s)) :: 64 word) = length (owned s)" by (rule unat_small) (use b assms(5,7) in linarith)
  ultimately show ?thesis using b by (auto simp: owned_def)
qed

text \<open>Two threads exceed a maximum of one.\<close>

definition racing :: "phase \<Rightarrow> phase \<Rightarrow> nat list \<Rightarrow> nat sys" where
  "racing a b held = \<lparr>sy_pool = (new_pool 1)\<lparr>totalConnections := of_nat (length held)\<rparr>, sy_phases = [a, b], sy_held = held,
     sy_live = set held, sy_fault = False\<rparr>"

lemma racing_call: "pool_step db_ops (racing Outside b []) (racing At_Mutex b [])" "pool_step db_ops (racing a Outside []) (racing a At_Mutex [])"
proof -
  have "pool_step db_ops (racing Outside b []) (set_phase 0 At_Mutex (racing Outside b []))"
    by (rule pool_step.call) (simp add: at_def racing_def)
  then show "pool_step db_ops (racing Outside b []) (racing At_Mutex b [])" by (simp add: racing_def set_phase_def)
  have "pool_step db_ops (racing a Outside []) (set_phase 1 At_Mutex (racing a Outside []))"
    by (rule pool_step.call) (simp add: at_def racing_def)
  then show "pool_step db_ops (racing a Outside []) (racing a At_Mutex [])" by (simp add: racing_def set_phase_def)
qed

lemma racing_try: "pool_step db_ops (racing At_Mutex b []) (racing Creating b [])" "pool_step db_ops (racing a At_Mutex []) (racing a Creating [])"
proof -
  have e: "po_acquire db_ops (\<lambda>_. True) (new_pool 1) = (Create, [], new_pool 1)"
    by (simp add: db_ops_def db_acquire_def new_pool_def)
  have "pool_step db_ops (racing At_Mutex b []) (after_try 0 Create (close_all [] (racing At_Mutex b []\<lparr>sy_pool := new_pool 1\<rparr>)))"
    by (rule pool_step.attempt) (use e in \<open>simp_all add: at_def racing_def new_pool_def\<close>)
  then show "pool_step db_ops (racing At_Mutex b []) (racing Creating b [])"
    by (simp add: racing_def set_phase_def after_try_def close_all_def new_pool_def)
  have "pool_step db_ops (racing a At_Mutex []) (after_try 1 Create (close_all [] (racing a At_Mutex []\<lparr>sy_pool := new_pool 1\<rparr>)))"
    by (rule pool_step.attempt) (use e in \<open>simp_all add: at_def racing_def new_pool_def\<close>)
  then show "pool_step db_ops (racing a At_Mutex []) (racing a Creating [])"
    by (simp add: racing_def set_phase_def after_try_def close_all_def new_pool_def)
qed

lemma racing_created: "pool_step db_ops (racing Creating b []) (racing Outside b [0])" "pool_step db_ops (racing a Creating [0]) (racing a Outside [1, 0])"
proof -
  show "pool_step db_ops (racing Creating b []) (racing Outside b [0])"
    using pool_step.created [of 0 "racing Creating b []" 0 db_ops] by (simp add: at_def racing_def set_phase_def new_pool_def)
  show "pool_step db_ops (racing a Creating [0]) (racing a Outside [1, 0])"
    using pool_step.created [of 1 "racing a Creating [0]" 1 db_ops] by (simp add: at_def racing_def set_phase_def new_pool_def)
qed

lemma race: "reaches db_ops (fresh_sys 2 (new_pool 1)) (racing Outside Outside [1, 0])"
proof -
  have "fresh_sys 2 (new_pool 1) = racing Outside Outside []" by (simp add: fresh_sys_def racing_def new_pool_def numeral_2_eq_2)
  moreover have "reaches db_ops (racing Outside Outside []) (racing Outside Outside [1, 0])"
    using racing_call(1) racing_call(2) racing_try(1) racing_try(2) racing_created(1) racing_created(2)
    by (meson rtranclp.rtrancl_into_rtrancl rtranclp.rtrancl_refl)
  ultimately show ?thesis by simp
qed

lemma pool_exceeds_maximum:
  "\<exists>s :: nat sys. reaches db_ops (fresh_sys 2 (new_pool 1)) s \<and> maxSize (sy_pool s) < totalConnections (sy_pool s)"
  by (rule exI [of _ "racing Outside Outside [1, 0]"], intro conjI race) (simp add: racing_def new_pool_def)

lemma pool_size_bound_witness:
  "length (sy_held (racing Outside Outside [1, 0])) = 2 \<and> unat (totalConnections (sy_pool (racing Outside Outside [1, 0]))) = 2"
  using pool_size_bound [OF disjI1 [OF refl] _ _ _ _ race, of "[]" 1 True]
  by (simp add: racing_def new_pool_def)

lemma pool_connections_safe_witness: "distinct (sy_held (racing Outside Outside [1, 0]))"
  using pool_connections_safe [OF disjI1 [OF refl] _ _ _ _ race, of "[]" 1 True]
  by (simp add: new_pool_def racing_def)

text \<open>The database pool sets its counter to zero when it is shut down: the next handle returned takes it below.\<close>

lemma counter_wraps:
  assumes "\<not> is_shutdown p"
  shows "totalConnections (snd (db_releaseConnection healthy c (snd (db_shutdown p)))) = - 1"
  using assms by (simp add: db_shutdown_def db_releaseConnection_def)

text \<open>Each connection goes back once: whatever is done with a handle and with what was moved out of it, only one of the two can
  still return it.\<close>

lemma handle_returns_once:
  "fst (handle_release (snd (handle_release h))) = None"
  "handle_move h = (a, b) \<Longrightarrow> fst (handle_release b) = None \<and> a = h"
  "handle_destroy (snd (handle_release h)) = None"
  by (auto simp: handle_release_def handle_move_def handle_destroy_def)

end
