(* ===== verification/Lc_Validator.thy ===== *)
theory Lc_Validator
  imports Pg_Session Compliance Csca_Provider
begin

text \<open>
  Validation of link certificates in \<^verbatim>\<open>pkd-management\<close>: \<^verbatim>\<open>common/crl_validator.cpp\<close> (revocation against the latest CRL of an
  issuer, with its log) and \<^verbatim>\<open>common/lc_validator.cpp\<close> (old CSCA, link certificate, new CSCA).  OpenSSL is the record
  \<open>openssl\<close> with the further functions of \<open>lc_ssl\<close>, the query executor is the record \<open>lc_db\<close>; an exception of the executor is
  \<^term>\<open>Inl\<close>.  The clock and the measured durations are arguments.
\<close>

section \<open>What the two validators call\<close>

datatype lc_query =
    Latest_crl | Latest_crl_dates | Crl_expired | Log_check
  | Csca_by_subject | Csca_by_issuer | Oracle_uuid | Insert_link_certificate

record 'd lc_db =
  ldb_type :: string
  ldb_query :: "lc_query \<Rightarrow> string list \<Rightarrow> 'd \<Rightarrow> sql_row list res \<times> 'd"
  ldb_command :: "lc_query \<Rightarrow> string list \<Rightarrow> 'd \<Rightarrow> unit res \<times> 'd"

record ('x, 'crl, 'rev, 'obj, 't) lc_ssl =
  d2i_X509 :: "byte list \<Rightarrow> 'x option"
  i2d_X509 :: "'x \<Rightarrow> byte list"
  subject_rfc2253 :: "'x \<Rightarrow> string option"
  issuer_rfc2253 :: "'x \<Rightarrow> string option"
  basic_constraints :: "'x \<Rightarrow> (bool \<times> int option) option"
  ext_key_usage :: "'x \<Rightarrow> 'obj list option"
  obj_text :: "'obj \<Rightarrow> string"
  time_text :: "'t \<Rightarrow> string"
  d2i_X509_CRL :: "byte list \<Rightarrow> 'crl option"
  crl_revoked :: "'crl \<Rightarrow> 'rev list option"
  rev_serial :: "'rev \<Rightarrow> int"
  rev_date :: "'rev \<Rightarrow> 't option"
  rev_reason :: "'rev \<Rightarrow> int option"
  BN_hex2bn :: "string \<Rightarrow> int option"

section \<open>Revocation (crl_validator.cpp)\<close>

datatype revocation_status = GOOD | REVOKED | UNKNOWN

datatype crl_reason =
    UNSPECIFIED | KEY_COMPROMISE | CA_COMPROMISE | AFFILIATION_CHANGED | SUPERSEDED | CESSATION_OF_OPERATION
  | CERTIFICATE_HOLD | REMOVE_FROM_CRL | PRIVILEGE_WITHDRAWN | AA_COMPROMISE | UNKNOWN_REASON

record revocation_check =
  rc_status :: revocation_status
  rc_reason :: "crl_reason option"
  rc_date :: "string option"
  rc_issuer :: string
  rc_thisUpdate :: string
  rc_nextUpdate :: string
  rc_durationMs :: int
  rc_message :: string

fun revocationStatusToString :: "revocation_status \<Rightarrow> string" where
  "revocationStatusToString GOOD = ''GOOD''"
| "revocationStatusToString REVOKED = ''REVOKED''"
| "revocationStatusToString UNKNOWN = ''UNKNOWN''"

fun revocationReasonToString :: "crl_reason \<Rightarrow> string" where
  "revocationReasonToString UNSPECIFIED = ''unspecified''"
| "revocationReasonToString KEY_COMPROMISE = ''keyCompromise''"
| "revocationReasonToString CA_COMPROMISE = ''cACompromise''"
| "revocationReasonToString AFFILIATION_CHANGED = ''affiliationChanged''"
| "revocationReasonToString SUPERSEDED = ''superseded''"
| "revocationReasonToString CESSATION_OF_OPERATION = ''cessationOfOperation''"
| "revocationReasonToString CERTIFICATE_HOLD = ''certificateHold''"
| "revocationReasonToString REMOVE_FROM_CRL = ''removeFromCRL''"
| "revocationReasonToString PRIVILEGE_WITHDRAWN = ''privilegeWithdrawn''"
| "revocationReasonToString AA_COMPROMISE = ''aACompromise''"
| "revocationReasonToString UNKNOWN_REASON = ''unknown''"

definition opensslReasonToEnum :: "int \<Rightarrow> crl_reason" where
  "opensslReasonToEnum n =
     (if n = 0 then UNSPECIFIED else if n = 1 then KEY_COMPROMISE else if n = 2 then CA_COMPROMISE
      else if n = 3 then AFFILIATION_CHANGED else if n = 4 then SUPERSEDED else if n = 5 then CESSATION_OF_OPERATION
      else if n = 6 then CERTIFICATE_HOLD else if n = 8 then REMOVE_FROM_CRL else if n = 9 then PRIVILEGE_WITHDRAWN
      else if n = 10 then AA_COMPROMISE else UNKNOWN_REASON)"

text \<open>\<^verbatim>\<open>hexToBytes\<close> drops the prefix of a BYTEA text; both files hold the same function.\<close>

definition hexToBytes :: "string \<Rightarrow> byte list" where
  "hexToBytes hex =
     hex_pairs (if 2 \<le> length hex \<and> hex ! 0 = CHR 0x5C \<and> hex ! 1 = CHR ''x'' then drop 2 hex else hex)"

definition hexSerialToAsn1 :: "('x, 'crl, 'rev, 'obj, 't) lc_ssl \<Rightarrow> string \<Rightarrow> int option" where
  "hexSerialToAsn1 S serialHex = BN_hex2bn S (c_str serialHex)"

definition time_to_string :: "('x, 'crl, 'rev, 'obj, 't) lc_ssl \<Rightarrow> 't option \<Rightarrow> string" where
  "time_to_string S t = (case t of None \<Rightarrow> [] | Some t' \<Rightarrow> time_text S t')"

definition logRevocationCheck :: "'d lc_db \<Rightarrow> revocation_check \<Rightarrow> string \<Rightarrow> string \<Rightarrow> string \<Rightarrow> string \<Rightarrow> string \<Rightarrow> string
    \<Rightarrow> 'd \<Rightarrow> 'd" where
  "logRevocationCheck D r certificateId certificateType serialNumber fingerprint subjectDn crlId d =
     snd (ldb_command D Log_check
       [certificateId, certificateType, serialNumber, fingerprint, subjectDn,
        revocationStatusToString (rc_status r),
        (case rc_reason r of None \<Rightarrow> [] | Some x \<Rightarrow> revocationReasonToString x),
        (case rc_date r of None \<Rightarrow> [] | Some x \<Rightarrow> x),
        crlId, rc_issuer r, rc_thisUpdate r, rc_nextUpdate r, int_dec (rc_durationMs r)] d)"

text \<open>Steps 2 to 5, on the row of the latest CRL.\<close>

definition judge_crl :: "('x, 'crl, 'rev, 'obj, 't) lc_ssl \<Rightarrow> string \<Rightarrow> sql_row \<Rightarrow> revocation_check \<Rightarrow> revocation_check" where
  "judge_crl S serialNumber row r =
     (let crlBytes = hexToBytes (column ''crl_binary'' row) in
      if crlBytes = [] then r\<lparr>rc_status := UNKNOWN, rc_message := ''Failed to parse CRL binary''\<rparr>
      else case d2i_X509_CRL S crlBytes of
        None \<Rightarrow> r\<lparr>rc_status := UNKNOWN, rc_message := ''Failed to parse CRL structure''\<rparr>
      | Some crl \<Rightarrow>
          (case crl_revoked S crl of
             None \<Rightarrow> r\<lparr>rc_status := GOOD, rc_message := ''Certificate not revoked (CRL has no revoked entries)''\<rparr>
           | Some [] \<Rightarrow> r\<lparr>rc_status := GOOD, rc_message := ''Certificate not revoked (CRL has no revoked entries)''\<rparr>
           | Some entries \<Rightarrow>
               (case hexSerialToAsn1 S serialNumber of
                  None \<Rightarrow> r\<lparr>rc_status := UNKNOWN, rc_message := ''Failed to parse certificate serial number''\<rparr>
                | Some serial \<Rightarrow>
                    (case find (\<lambda>e. rev_serial S e = serial) entries of
                       None \<Rightarrow> r\<lparr>rc_status := GOOD, rc_message := ''Certificate not found in CRL revoked list''\<rparr>
                     | Some e \<Rightarrow>
                         (let reason = (case rev_reason S e of None \<Rightarrow> UNSPECIFIED | Some n \<Rightarrow> opensslReasonToEnum n) in
                          r\<lparr>rc_status := REVOKED, rc_reason := Some reason,
                            rc_date := Some (time_to_string S (rev_date S e)),
                            rc_message := ''Certificate is revoked: '' @ revocationReasonToString reason\<rparr>)))))"

definition first_row :: "sql_row list res \<Rightarrow> sql_row option" where
  "first_row rows = (case rows of Inr (row # _) \<Rightarrow> Some row | _ \<Rightarrow> None)"

definition checkRevocation :: "('x, 'crl, 'rev, 'obj, 't) lc_ssl \<Rightarrow> 'd lc_db \<Rightarrow> int \<Rightarrow> string \<Rightarrow> string \<Rightarrow> string \<Rightarrow> string
    \<Rightarrow> string \<Rightarrow> 'd \<Rightarrow> revocation_check \<times> 'd" where
  "checkRevocation S D ms certificateId certificateType serialNumber fingerprint issuerDn d =
     (let r0 = \<lparr>rc_status = UNKNOWN, rc_reason = None, rc_date = None, rc_issuer = issuerDn, rc_thisUpdate = [],
                rc_nextUpdate = [], rc_durationMs = ms, rc_message = ''CRL check not performed''\<rparr>;
          (rows, d1) = ldb_query D Latest_crl [issuerDn] d in
      case first_row rows of
        None \<Rightarrow>
          (let r = r0\<lparr>rc_status := UNKNOWN, rc_message := ''No CRL available for issuer''\<rparr>
           in (r, logRevocationCheck D r certificateId certificateType serialNumber fingerprint [] [] d1))
      | Some row \<Rightarrow>
          (let r = judge_crl S serialNumber row
                     (r0\<lparr>rc_thisUpdate := column ''this_update'' row, rc_nextUpdate := column ''next_update'' row\<rparr>)
           in (r, logRevocationCheck D r certificateId certificateType serialNumber fingerprint [] (column ''id'' row) d1)))"

definition getLatestCrlMetadata :: "'d lc_db \<Rightarrow> string \<Rightarrow> 'd \<Rightarrow> (string \<times> string \<times> string) option \<times> 'd" where
  "getLatestCrlMetadata D issuerDn d =
     (let (rows, d1) = ldb_query D Latest_crl_dates [issuerDn] d in
      (map_option (\<lambda>row. (column ''this_update'' row, column ''next_update'' row, column ''id'' row)) (first_row rows), d1))"

definition isCrlExpired :: "'d lc_db \<Rightarrow> string \<Rightarrow> 'd \<Rightarrow> bool \<times> 'd" where
  "isCrlExpired D issuerDn d =
     (case getLatestCrlMetadata D issuerDn d of
        (None, d1) \<Rightarrow> (True, d1)
      | (Some (_, nextUpdate, _), d1) \<Rightarrow>
          (let (rows, d2) = ldb_query D Crl_expired [nextUpdate] d1 in
           (case first_row rows of
              None \<Rightarrow> True
            | Some row \<Rightarrow> column ''expired'' row \<in> {''t'', ''1'', ''true''}, d2)))"

section \<open>Link certificates (lc_validator.cpp)\<close>

record lc_result =
  lr_trustChainValid :: bool
  lr_message :: string
  lr_oldCscaSignatureValid :: bool
  lr_newCscaSignatureValid :: bool
  lr_oldCscaSubjectDn :: string
  lr_oldCscaFingerprint :: string
  lr_newCscaSubjectDn :: string
  lr_newCscaFingerprint :: string
  lr_validityPeriodValid :: bool
  lr_extensionsValid :: bool
  lr_notBefore :: string
  lr_notAfter :: string
  lr_ca :: bool
  lr_pathlen :: int
  lr_keyUsage :: string
  lr_extendedKeyUsage :: string
  lr_revocationStatus :: revocation_status
  lr_revocationMessage :: string
  lr_durationMs :: int

text \<open>\<^verbatim>\<open>LcValidationResult result{}\<close> zeroes every member; the enumerator of value 0 is \<^term>\<open>GOOD\<close>.\<close>

definition lc_result0 :: "int \<Rightarrow> lc_result" where
  "lc_result0 ms = \<lparr>lr_trustChainValid = False, lr_message = [], lr_oldCscaSignatureValid = False,
     lr_newCscaSignatureValid = False, lr_oldCscaSubjectDn = [], lr_oldCscaFingerprint = [], lr_newCscaSubjectDn = [],
     lr_newCscaFingerprint = [], lr_validityPeriodValid = False, lr_extensionsValid = False, lr_notBefore = [],
     lr_notAfter = [], lr_ca = False, lr_pathlen = 0, lr_keyUsage = [], lr_extendedKeyUsage = [],
     lr_revocationStatus = GOOD, lr_revocationMessage = [], lr_durationMs = ms\<rparr>"

subsection \<open>Metadata and extensions\<close>

definition lc_extractSubjectDn :: "('x, 'crl, 'rev, 'obj, 't) lc_ssl \<Rightarrow> 'x \<Rightarrow> string" where
  "lc_extractSubjectDn S c = (case subject_rfc2253 S c of None \<Rightarrow> [] | Some dn \<Rightarrow> dn)"

definition lc_extractIssuerDn :: "('x, 'crl, 'rev, 'obj, 't) lc_ssl \<Rightarrow> 'x \<Rightarrow> string" where
  "lc_extractIssuerDn S c = (case issuer_rfc2253 S c of None \<Rightarrow> [] | Some dn \<Rightarrow> dn)"

definition lc_extractSerialNumber :: "('x, 'k, 't) openssl \<Rightarrow> 'x \<Rightarrow> string" where
  "lc_extractSerialNumber L c =
     (case serial_number L c of None \<Rightarrow> []
      | Some n \<Rightarrow> (case ASN1_INTEGER_to_BN L n of None \<Rightarrow> []
                  | Some bn \<Rightarrow> (case BN_bn2hex L bn of None \<Rightarrow> [] | Some hex \<Rightarrow> c_str hex)))"

definition lc_extractFingerprint :: "('x, 'k, 't) openssl \<Rightarrow> 'x \<Rightarrow> string" where
  "lc_extractFingerprint L c = (case X509_digest L c of None \<Rightarrow> [] | Some md \<Rightarrow> bytes_hex md)"

text \<open>The regular expression \<^verbatim>\<open>,?\s*C=([A-Z]{2,3})\<close>, searched without regard to case: its prefix may be empty, so the
  first \<^verbatim>\<open>C=\<close> with two letters behind it matches, whatever stands before it.\<close>

fun lc_extractCountryCode :: "string \<Rightarrow> string" where
  "lc_extractCountryCode [] = []"
| "lc_extractCountryCode (c # cs) =
     (if c_toupper c = CHR ''C'' \<and> cs \<noteq> [] \<and> hd cs = CHR ''='' \<and> 2 \<le> length (takeWhile is_letter (tl cs))
      then to_upper (take 3 (takeWhile is_letter (tl cs))) else lc_extractCountryCode cs)"

definition getBasicConstraints :: "('x, 'crl, 'rev, 'obj, 't) lc_ssl \<Rightarrow> 'x \<Rightarrow> (bool \<times> int) option" where
  "getBasicConstraints S c =
     (case basic_constraints S c of None \<Rightarrow> None
      | Some (ca, pathlen) \<Rightarrow> Some (ca, case pathlen of None \<Rightarrow> - 1 | Some n \<Rightarrow> n))"

definition usage_names :: "string list" where
  "usage_names = [''Digital Signature'', ''Non Repudiation'', ''Key Encipherment'', ''Data Encipherment'',
     ''Key Agreement'', ''Certificate Sign'', ''CRL Sign'']"

definition getKeyUsage :: "('x, 'k, 't) openssl \<Rightarrow> 'x \<Rightarrow> string" where
  "getKeyUsage L c =
     (case key_usage L c of None \<Rightarrow> []
      | Some usage \<Rightarrow> join '', '' (map fst (filter snd (zip usage_names (map (get_bit usage) [0..<7])))))"

text \<open>\<^verbatim>\<open>OBJ_obj2txt\<close> cuts the text to the buffer of 128 bytes with its NUL.\<close>

definition getExtendedKeyUsage :: "('x, 'crl, 'rev, 'obj, 't) lc_ssl \<Rightarrow> 'x \<Rightarrow> string" where
  "getExtendedKeyUsage S c =
     (case ext_key_usage S c of None \<Rightarrow> []
      | Some objs \<Rightarrow> join '', '' (map (\<lambda>obj. c_str (take 127 (obj_text S obj))) objs))"

definition checkValidityPeriod :: "('x, 'k, 't) openssl \<Rightarrow> int \<Rightarrow> 'x \<Rightarrow> bool" where
  "checkValidityPeriod L now c =
     (if X509_cmp_time L (not_before L c) now > 0 then False
      else if X509_cmp_time L (not_after L c) now < 0 then False else True)"

definition validateLcExtensions :: "('x, 'k, 't) openssl \<Rightarrow> ('x, 'crl, 'rev, 'obj, 't) lc_ssl \<Rightarrow> 'x \<Rightarrow> bool" where
  "validateLcExtensions L S c =
     (case getBasicConstraints S c of None \<Rightarrow> False
      | Some (isCa, pathlen) \<Rightarrow>
          if \<not> isCa then False
          else if str_find (getKeyUsage L c) ''Certificate Sign'' 0 = None then False else True)"

subsection \<open>The chain\<close>

definition find_csca :: "lc_query \<Rightarrow> ('x, 'crl, 'rev, 'obj, 't) lc_ssl \<Rightarrow> 'd lc_db \<Rightarrow> string \<Rightarrow> 'd \<Rightarrow> 'x option \<times> 'd" where
  "find_csca q S D dn d =
     (let (rows, d1) = ldb_query D q [dn] d in
      (case first_row rows of None \<Rightarrow> None
       | Some row \<Rightarrow>
           (let certBytes = hexToBytes (column ''certificate_binary'' row) in
            if certBytes = [] then None else d2i_X509 S certBytes), d1))"

definition lc_findCscaBySubjectDn :: "('x, 'crl, 'rev, 'obj, 't) lc_ssl \<Rightarrow> 'd lc_db \<Rightarrow> string \<Rightarrow> 'd \<Rightarrow> 'x option \<times> 'd" where
  "lc_findCscaBySubjectDn = find_csca Csca_by_subject"

definition lc_findCscaByIssuerDn :: "('x, 'crl, 'rev, 'obj, 't) lc_ssl \<Rightarrow> 'd lc_db \<Rightarrow> string \<Rightarrow> 'd \<Rightarrow> 'x option \<times> 'd" where
  "lc_findCscaByIssuerDn = find_csca Csca_by_issuer"

text \<open>Steps 6 to 9, once both signatures hold.\<close>

definition lc_validity :: "('x, 'k, 't) openssl \<Rightarrow> ('x, 'crl, 'rev, 'obj, 't) lc_ssl \<Rightarrow> int \<Rightarrow> 'x \<Rightarrow> lc_result \<Rightarrow> lc_result" where
  "lc_validity L S now c r =
     r\<lparr>lr_validityPeriodValid := checkValidityPeriod L now c,
       lr_notBefore := time_text S (not_before L c), lr_notAfter := time_text S (not_after L c)\<rparr>"

definition lc_extensions :: "('x, 'k, 't) openssl \<Rightarrow> ('x, 'crl, 'rev, 'obj, 't) lc_ssl \<Rightarrow> 'x \<Rightarrow> lc_result \<Rightarrow> lc_result" where
  "lc_extensions L S c r =
     (let r = r\<lparr>lr_extensionsValid := validateLcExtensions L S c\<rparr>;
          r = (case getBasicConstraints S c of None \<Rightarrow> r | Some (isCa, pathlen) \<Rightarrow> r\<lparr>lr_ca := isCa, lr_pathlen := pathlen\<rparr>)
      in r\<lparr>lr_keyUsage := getKeyUsage L c, lr_extendedKeyUsage := getExtendedKeyUsage S c\<rparr>)"

definition lc_final :: "lc_result \<Rightarrow> lc_result" where
  "lc_final r =
     (let valid = lr_oldCscaSignatureValid r \<and> lr_newCscaSignatureValid r \<and> lr_validityPeriodValid r
                    \<and> lr_extensionsValid r \<and> lr_revocationStatus r \<noteq> REVOKED
      in r\<lparr>lr_trustChainValid := valid,
           lr_message := (if valid then ''LC trust chain valid'' else ''LC trust chain validation failed'')\<rparr>)"

definition lc_checks :: "('x, 'k, 't) openssl \<Rightarrow> ('x, 'crl, 'rev, 'obj, 't) lc_ssl \<Rightarrow> 'd lc_db \<Rightarrow> int \<Rightarrow> int \<Rightarrow> 'x
    \<Rightarrow> lc_result \<Rightarrow> 'd \<Rightarrow> lc_result \<times> 'd" where
  "lc_checks L S D now ms c r d =
     (let r = lc_validity L S now c r in
      if \<not> lr_validityPeriodValid r then (r\<lparr>lr_message := ''LC expired or not yet valid''\<rparr>, d)
      else let r = lc_extensions L S c r in
      if \<not> lr_extensionsValid r then (r\<lparr>lr_message := ''LC extensions validation failed''\<rparr>, d)
      else let (crlResult, d) = checkRevocation S D ms [] ''LC'' (lc_extractSerialNumber L c) (lc_extractFingerprint L c)
                                  (lc_extractIssuerDn S c) d;
               r = r\<lparr>lr_revocationStatus := rc_status crlResult, lr_revocationMessage := rc_message crlResult\<rparr> in
      if lr_revocationStatus r = REVOKED then (r\<lparr>lr_message := ''LC is revoked: '' @ lr_revocationMessage r\<rparr>, d)
      else (lc_final r, d))"

definition lc_new_csca :: "('x, 'k, 't) openssl \<Rightarrow> ('x, 'crl, 'rev, 'obj, 't) lc_ssl \<Rightarrow> 'd lc_db \<Rightarrow> int \<Rightarrow> int \<Rightarrow> 'x
    \<Rightarrow> lc_result \<Rightarrow> 'd \<Rightarrow> lc_result \<times> 'd" where
  "lc_new_csca L S D now ms c r d =
     (case lc_findCscaByIssuerDn S D (lc_extractSubjectDn S c) d of
        (None, d) \<Rightarrow>
          (r\<lparr>lr_message := ''New CSCA not found (issuer should be: '' @ lc_extractSubjectDn S c @ '')''\<rparr>, d)
      | (Some new, d) \<Rightarrow>
          (let r = r\<lparr>lr_newCscaSubjectDn := lc_extractSubjectDn S new, lr_newCscaFingerprint := lc_extractFingerprint L new\<rparr> in
           case get_pubkey L c of
             None \<Rightarrow> (r\<lparr>lr_message := ''Failed to extract LC public key''\<rparr>, d)
           | Some k \<Rightarrow>
               (let r = r\<lparr>lr_newCscaSignatureValid := (X509_verify L new k = 1)\<rparr> in
                if \<not> lr_newCscaSignatureValid r
                then (r\<lparr>lr_message := ''New CSCA signature verification failed (LC)''\<rparr>, d)
                else lc_checks L S D now ms c r d)))"

definition validateLinkCertificate :: "('x, 'k, 't) openssl \<Rightarrow> ('x, 'crl, 'rev, 'obj, 't) lc_ssl \<Rightarrow> 'd lc_db \<Rightarrow> int \<Rightarrow> int
    \<Rightarrow> int \<Rightarrow> 'x \<Rightarrow> 'd \<Rightarrow> lc_result \<times> 'd" where
  "validateLinkCertificate L S D now crl_ms ms c d =
     (let r = (lc_result0 ms)\<lparr>lr_revocationStatus := UNKNOWN\<rparr> in
      case lc_findCscaBySubjectDn S D (lc_extractIssuerDn S c) d of
        (None, d) \<Rightarrow> (r\<lparr>lr_message := ''Old CSCA not found (issuer: '' @ lc_extractIssuerDn S c @ '')''\<rparr>, d)
      | (Some old, d) \<Rightarrow>
          (let r = r\<lparr>lr_oldCscaSubjectDn := lc_extractSubjectDn S old, lr_oldCscaFingerprint := lc_extractFingerprint L old\<rparr> in
           case get_pubkey L old of
             None \<Rightarrow> (r\<lparr>lr_message := ''Failed to extract old CSCA public key''\<rparr>, d)
           | Some k \<Rightarrow>
               (let r = r\<lparr>lr_oldCscaSignatureValid := (X509_verify L c k = 1)\<rparr> in
                if \<not> lr_oldCscaSignatureValid r
                then (r\<lparr>lr_message := ''LC signature verification failed (old CSCA)''\<rparr>, d)
                else lc_new_csca L S D now crl_ms c r d)))"

definition validateLinkCertificate_der :: "('x, 'k, 't) openssl \<Rightarrow> ('x, 'crl, 'rev, 'obj, 't) lc_ssl \<Rightarrow> 'd lc_db \<Rightarrow> int
    \<Rightarrow> int \<Rightarrow> int \<Rightarrow> byte list \<Rightarrow> 'd \<Rightarrow> lc_result \<times> 'd" where
  "validateLinkCertificate_der L S D now crl_ms ms linkCertBinary d =
     (case d2i_X509 S linkCertBinary of
        None \<Rightarrow> ((lc_result0 0)\<lparr>lr_message := ''Failed to parse certificate binary''\<rparr>, d)
      | Some c \<Rightarrow> validateLinkCertificate L S D now crl_ms ms c d)"

subsection \<open>Storing a link certificate\<close>

definition lc_bool :: "string \<Rightarrow> bool \<Rightarrow> string" where
  "lc_bool dbType v = (if dbType = ''oracle'' then (if v then ''1'' else ''0'') else if v then ''true'' else ''false'')"

definition lc_params :: "('x, 'k, 't) openssl \<Rightarrow> ('x, 'crl, 'rev, 'obj, 't) lc_ssl \<Rightarrow> string \<Rightarrow> 'x \<Rightarrow> lc_result \<Rightarrow> string
    \<Rightarrow> string list" where
  "lc_params L S dbType c r uploadId =
     [uploadId, lc_extractSubjectDn S c, lc_extractIssuerDn S c, lc_extractSerialNumber L c, lc_extractFingerprint L c,
      time_text S (not_before L c), time_text S (not_after L c), lc_extractCountryCode (lc_extractSubjectDn S c),
      lr_oldCscaSubjectDn r, lr_oldCscaFingerprint r, lr_newCscaSubjectDn r, lr_newCscaFingerprint r,
      lc_bool dbType (lr_trustChainValid r), lc_bool dbType (lr_oldCscaSignatureValid r),
      lc_bool dbType (lr_newCscaSignatureValid r), lc_bool dbType (lr_validityPeriodValid r),
      lc_bool dbType (lr_extensionsValid r), revocationStatusToString (lr_revocationStatus r), lr_message r,
      lc_bool dbType (lr_ca r), int_dec (lr_pathlen r), lr_keyUsage r, lr_extendedKeyUsage r,
      [CHR 0x5C, CHR ''x''] @ bytes_hex (i2d_X509 S c)]"

definition storeLinkCertificate :: "('x, 'k, 't) openssl \<Rightarrow> ('x, 'crl, 'rev, 'obj, 't) lc_ssl \<Rightarrow> 'd lc_db \<Rightarrow> 'x \<Rightarrow> lc_result
    \<Rightarrow> string \<Rightarrow> 'd \<Rightarrow> string \<times> 'd" where
  "storeLinkCertificate L S D c r uploadId d =
     (let params = lc_params L S (ldb_type D) c r uploadId in
      if ldb_type D = ''oracle'' then
        (let (uuids, d) = ldb_query D Oracle_uuid [] d in
         case first_row uuids of
           None \<Rightarrow> ([], d)
         | Some row \<Rightarrow>
             (case ldb_command D Insert_link_certificate (column ''id'' row # params) d of
                (Inl _, d) \<Rightarrow> ([], d)
              | (Inr _, d) \<Rightarrow> (column ''id'' row, d)))
      else
        (let (rows, d) = ldb_query D Insert_link_certificate params d in
         case first_row rows of None \<Rightarrow> ([], d) | Some row \<Rightarrow> (column ''id'' row, d)))"

section \<open>The tables the statements name\<close>

text \<open>The columns of \<^verbatim>\<open>01-core-schema.sql\<close> with those the migrations 05 and 06 add, the table of
  \<^verbatim>\<open>04-advanced-features.sql\<close>, and the columns each statement names.\<close>

definition certificate_columns :: "string list" where
  "certificate_columns =
     [''id'', ''upload_id'', ''certificate_type'', ''country_code'', ''subject_dn'', ''issuer_dn'', ''serial_number'',
      ''fingerprint_sha256'', ''not_before'', ''not_after'', ''certificate_data'', ''validation_status'',
      ''validation_message'', ''validated_at'', ''ldap_dn'', ''ldap_dn_v2'', ''stored_in_ldap'', ''stored_at'', ''created_at'',
      ''duplicate_count'', ''first_upload_id'', ''last_seen_upload_id'', ''last_seen_at'', ''source_type'',
      ''source_context'', ''extracted_from'', ''registered_at'']
     @ [''version'', ''signature_algorithm'', ''signature_hash_algorithm'', ''public_key_algorithm'', ''public_key_size'',
      ''public_key_curve'', ''key_usage'', ''extended_key_usage'', ''is_ca'', ''path_len_constraint'',
      ''subject_key_identifier'', ''authority_key_identifier'', ''crl_distribution_points'', ''ocsp_responder_url'',
      ''is_self_signed'']"

definition link_certificate_columns :: "string list" where
  "link_certificate_columns =
     [''id'', ''upload_id'', ''country_code'', ''subject_dn'', ''issuer_dn'', ''serial_number'', ''fingerprint_sha256'',
      ''not_before'', ''not_after'', ''certificate_data'', ''public_key_algorithm'', ''public_key_size'',
      ''signature_algorithm'', ''key_usage'', ''basic_constraints'', ''authority_key_identifier'',
      ''subject_key_identifier'', ''ldap_dn'', ''stored_in_ldap'', ''created_at'', ''ldap_dn_v2'']"

fun missing_columns :: "lc_query \<Rightarrow> string list" where
  "missing_columns Csca_by_subject =
     filter (\<lambda>c. c \<notin> set certificate_columns) [''certificate_binary'', ''certificate_type'', ''subject_dn'']"
| "missing_columns Csca_by_issuer =
     filter (\<lambda>c. c \<notin> set certificate_columns) [''certificate_binary'', ''certificate_type'', ''issuer_dn'']"
| "missing_columns Insert_link_certificate =
     filter (\<lambda>c. c \<notin> set link_certificate_columns)
       [''upload_id'', ''subject_dn'', ''issuer_dn'', ''serial_number'', ''fingerprint_sha256'', ''not_before'',
        ''not_after'', ''country_code'', ''old_csca_subject_dn'', ''old_csca_fingerprint'', ''new_csca_subject_dn'',
        ''new_csca_fingerprint'', ''trust_chain_valid'', ''old_csca_signature_valid'', ''new_csca_signature_valid'',
        ''validity_period_valid'', ''extensions_valid'', ''revocation_status'', ''validation_message'',
        ''validation_timestamp'', ''basic_constraints_ca'', ''basic_constraints_pathlen'', ''key_usage'',
        ''extended_key_usage'', ''certificate_binary'', ''created_at'']"
| "missing_columns _ = []"

text \<open>A statement that names a column its table lacks is an error of the server, which the executor throws.\<close>

definition schema_law :: "'d lc_db \<Rightarrow> bool" where
  "schema_law D \<longleftrightarrow>
     (\<forall>q ps d. missing_columns q \<noteq> [] \<longrightarrow>
        (\<exists>e. fst (ldb_query D q ps d) = Inl e) \<and> (\<exists>e. fst (ldb_command D q ps d) = Inl e))"

section \<open>Lemmas\<close>

lemma csca_column_missing [simp]:
  "missing_columns Csca_by_subject = [''certificate_binary'']" "missing_columns Csca_by_issuer = [''certificate_binary'']"
  by (simp_all add: certificate_columns_def)

lemma insert_columns_missing: "missing_columns Insert_link_certificate \<noteq> []"
  by (simp add: link_certificate_columns_def)

lemma schema_refuses:
  assumes "schema_law D" "missing_columns q \<noteq> []"
  shows "first_row (fst (ldb_query D q ps d)) = None" "\<exists>e. fst (ldb_command D q ps d) = Inl e"
proof -
  from assms obtain e where "fst (ldb_query D q ps d) = Inl e" unfolding schema_law_def by blast
  then show "first_row (fst (ldb_query D q ps d)) = None" by (simp add: first_row_def)
  from assms show "\<exists>e. fst (ldb_command D q ps d) = Inl e" unfolding schema_law_def by blast
qed

lemma lookup_fails:
  assumes "schema_law D"
  shows "fst (lc_findCscaBySubjectDn S D dn d) = None"
proof -
  have "first_row (fst (ldb_query D Csca_by_subject [dn] d)) = None"
    by (rule schema_refuses [OF assms]) (simp only: csca_column_missing, simp)
  then show ?thesis by (simp add: lc_findCscaBySubjectDn_def find_csca_def split_beta)
qed

lemma store_refused:
  assumes "schema_law D"
  shows "fst (storeLinkCertificate L S D c r uploadId d) = []"
proof -
  note refused = schema_refuses [OF assms insert_columns_missing]
  have plain: "first_row (fst (ldb_query D Insert_link_certificate ps x)) = None" for ps x by (rule refused)
  obtain e where ora: "\<And>ps x. fst (ldb_command D Insert_link_certificate ps x) = Inl (e ps x)"
    using refused(2) by metis
  have "(case ldb_command D Insert_link_certificate ps x of (Inl _, d) \<Rightarrow> ([], d) | (Inr _, d) \<Rightarrow> (i, d))
          = ([], snd (ldb_command D Insert_link_certificate ps x))" for ps x and i :: string
    using ora [of ps x] by (simp split: prod.splits sum.splits) auto
  then show ?thesis by (simp add: storeLinkCertificate_def split_beta plain Let_def split: option.splits)
qed

text \<open>The old and the new CSCA differ from the certificate lookup by one query.\<close>

lemma hexToBytes_text: "hexToBytes ([CHR 0x5C, CHR ''x''] @ bytes_hex bs) = bs"
  by (simp add: hexToBytes_def)

lemma usage_names_sign:
  "list_all (\<lambda>bits. (str_find (join '', '' (map fst (filter snd (zip usage_names bits)))) ''Certificate Sign'' 0 \<noteq> None)
     = bits ! 5) (List.n_lists 7 [True, False])"
  by code_simp

lemma usage_sign:
  "str_find (getKeyUsage L c) ''Certificate Sign'' 0 \<noteq> None \<longleftrightarrow> (\<exists>usage. key_usage L c = Some usage \<and> get_bit usage 5)"
proof (cases "key_usage L c")
  case None
  then show ?thesis by (simp add: getKeyUsage_def str_find_def)
next
  case (Some usage)
  have "map (get_bit usage) [0..<7] \<in> set (List.n_lists 7 [True, False])" by (auto simp: set_n_lists)
  with usage_names_sign show ?thesis by (simp add: Some getKeyUsage_def list_all_iff del: upt_Suc)
qed

lemma lc_extensions_iff:
  "validateLcExtensions L S c \<longleftrightarrow>
     (\<exists>pathlen. basic_constraints S c = Some (True, pathlen)) \<and> (\<exists>usage. key_usage L c = Some usage \<and> get_bit usage 5)"
  unfolding usage_sign [symmetric]
  by (auto simp: validateLcExtensions_def getBasicConstraints_def split: option.splits)

lemma lc_validity_iff:
  "checkValidityPeriod L now c \<longleftrightarrow>
     \<not> isCertificateNotYetValid L now (Some c) \<and> \<not> isCertificateExpired L now (Some c)"
  by (simp add: checkValidityPeriod_def isCertificateNotYetValid_def isCertificateExpired_def)

lemma reason_names:
  "revocationReasonToString (opensslReasonToEnum n) = (if n \<in> {0..6} \<union> {8..10} then crl_reason_name n else ''unknown'')"
proof -
  have "n \<in> {0..6} \<union> {8..10} \<longleftrightarrow>
      n = 0 \<or> n = 1 \<or> n = 2 \<or> n = 3 \<or> n = 4 \<or> n = 5 \<or> n = 6 \<or> n = 8 \<or> n = 9 \<or> n = 10" by auto
  then show ?thesis by (auto simp: opensslReasonToEnum_def)
qed

lemma country_of_domain_component:
  "lc_extractCountryCode ''C=KR,DC=gov'' = ''KR''" "lc_extractCountryCode ''DC=gov,C=KR'' = ''GOV''"
  by code_simp+

text \<open>The serial of \<open>serialNumber\<close> is in the CRL of \<open>row\<close>.\<close>

definition in_crl :: "('x, 'crl, 'rev, 'obj, 't) lc_ssl \<Rightarrow> string \<Rightarrow> sql_row \<Rightarrow> bool" where
  "in_crl S serialNumber row \<longleftrightarrow>
     (\<exists>crl entries serial. hexToBytes (column ''crl_binary'' row) \<noteq> []
        \<and> d2i_X509_CRL S (hexToBytes (column ''crl_binary'' row)) = Some crl
        \<and> crl_revoked S crl = Some entries \<and> hexSerialToAsn1 S serialNumber = Some serial
        \<and> serial \<in> rev_serial S ` set entries)"

lemma find_Some_in: "find P xs = Some x \<Longrightarrow> x \<in> set xs \<and> P x"
  by (auto simp: find_Some_iff)

lemma judge_crl_revoked: "rc_status (judge_crl S serialNumber row r) = REVOKED \<longleftrightarrow> in_crl S serialNumber row"
  by (auto simp: judge_crl_def in_crl_def Let_def find_None_iff image_iff
      dest: find_Some_in split: option.splits list.splits)

lemma judge_crl_dates [simp]:
  "rc_thisUpdate (judge_crl S serialNumber row r) = rc_thisUpdate r"
  "rc_nextUpdate (judge_crl S serialNumber row r) = rc_nextUpdate r"
  by (simp_all add: judge_crl_def Let_def split: option.splits list.splits)

definition latest_crl :: "'d lc_db \<Rightarrow> string \<Rightarrow> 'd \<Rightarrow> sql_row option" where
  "latest_crl D issuerDn d = first_row (fst (ldb_query D Latest_crl [issuerDn] d))"

lemma checkRevocation_revoked:
  "rc_status (fst (checkRevocation S D ms i t serialNumber fp issuerDn d)) = REVOKED \<longleftrightarrow>
     (\<exists>row. latest_crl D issuerDn d = Some row \<and> in_crl S serialNumber row)"
  by (auto simp: checkRevocation_def latest_crl_def split_beta Let_def judge_crl_revoked split: option.splits)

lemma lc_validity_fields [simp]:
  "lr_validityPeriodValid (lc_validity L S now c r) = checkValidityPeriod L now c"
  "lr_oldCscaSignatureValid (lc_validity L S now c r) = lr_oldCscaSignatureValid r"
  "lr_newCscaSignatureValid (lc_validity L S now c r) = lr_newCscaSignatureValid r"
  "lr_trustChainValid (lc_validity L S now c r) = lr_trustChainValid r"
  by (simp_all add: lc_validity_def)

lemma lc_extensions_fields [simp]:
  "lr_extensionsValid (lc_extensions L S c r) = validateLcExtensions L S c"
  "lr_validityPeriodValid (lc_extensions L S c r) = lr_validityPeriodValid r"
  "lr_oldCscaSignatureValid (lc_extensions L S c r) = lr_oldCscaSignatureValid r"
  "lr_newCscaSignatureValid (lc_extensions L S c r) = lr_newCscaSignatureValid r"
  "lr_trustChainValid (lc_extensions L S c r) = lr_trustChainValid r"
  by (simp_all add: lc_extensions_def Let_def split: option.splits prod.splits)

lemma lc_checks_valid:
  assumes "lr_oldCscaSignatureValid r" "lr_newCscaSignatureValid r" "\<not> lr_trustChainValid r"
  shows "lr_trustChainValid (fst (lc_checks L S D now ms c r d)) \<longleftrightarrow>
     checkValidityPeriod L now c \<and> validateLcExtensions L S c
     \<and> \<not> (\<exists>row. latest_crl D (lc_extractIssuerDn S c) d = Some row \<and> in_crl S (lc_extractSerialNumber L c) row)"
  unfolding checkRevocation_revoked [symmetric, where ms = ms and i = "[]" and t = "''LC''" and fp = "lc_extractFingerprint L c"]
  using assms by (simp add: lc_checks_def Let_def split_beta lc_final_def)

lemma lc_new_csca_valid:
  assumes "lr_oldCscaSignatureValid r" "\<not> lr_trustChainValid r"
  shows "lr_trustChainValid (fst (lc_new_csca L S D now ms c r d)) \<longleftrightarrow>
     (\<exists>new k d'. lc_findCscaByIssuerDn S D (lc_extractSubjectDn S c) d = (Some new, d')
        \<and> get_pubkey L c = Some k \<and> X509_verify L new k = 1
        \<and> checkValidityPeriod L now c \<and> validateLcExtensions L S c
        \<and> \<not> (\<exists>row. latest_crl D (lc_extractIssuerDn S c) d' = Some row \<and> in_crl S (lc_extractSerialNumber L c) row))"
  using assms by (simp add: lc_new_csca_def Let_def lc_checks_valid split: prod.splits option.splits) blast?

section \<open>Properties\<close>

text \<open>The certificate in the answer to a lookup: the statement ends in \<^verbatim>\<open>LIMIT 1\<close> without an
  order, so which of several certificates of one name is in the first row is the server's choice.\<close>

definition answered :: "('x, 'crl, 'rev, 'obj, 't) lc_ssl \<Rightarrow> sql_row list res \<Rightarrow> 'x option" where
  "answered S rows =
     (case first_row rows of
        Some row \<Rightarrow> (let b = hexToBytes (column ''certificate_binary'' row) in if b = [] then None else d2i_X509 S b)
      | None \<Rightarrow> None)"

lemma find_csca_answered: "find_csca q S D dn d = (answered S (fst (ldb_query D q [dn] d)), snd (ldb_query D q [dn] d))"
  by (simp add: find_csca_def answered_def split_beta Let_def split: option.splits)

lemma answered_valid:
  "lr_trustChainValid (fst (validateLinkCertificate L S D now crl_ms ms c d)) \<longleftrightarrow>
     (\<exists>old k d1 new k' d2.
        lc_findCscaBySubjectDn S D (lc_extractIssuerDn S c) d = (Some old, d1)
        \<and> get_pubkey L old = Some k \<and> X509_verify L c k = 1
        \<and> lc_findCscaByIssuerDn S D (lc_extractSubjectDn S c) d1 = (Some new, d2)
        \<and> get_pubkey L c = Some k' \<and> X509_verify L new k' = 1
        \<and> \<not> isCertificateNotYetValid L now (Some c) \<and> \<not> isCertificateExpired L now (Some c)
        \<and> (\<exists>pathlen. basic_constraints S c = Some (True, pathlen))
        \<and> (\<exists>usage. key_usage L c = Some usage \<and> get_bit usage 5)
        \<and> \<not> (\<exists>row. latest_crl D (lc_extractIssuerDn S c) d2 = Some row \<and> in_crl S (lc_extractSerialNumber L c) row))"
  by (simp add: validateLinkCertificate_def lc_result0_def Let_def lc_new_csca_valid lc_extensions_iff lc_validity_iff
      split: prod.splits option.splits) blast?

text \<open>Against the tables the repository creates, whose certificates have no column \<^verbatim>\<open>certificate_binary\<close>, every link
  certificate is rejected as one whose old CSCA is missing, whatever is stored, and none can be stored.\<close>

theorem link_certificate_rejected:
  assumes "schema_law D"
  shows "\<not> lr_trustChainValid (fst (validateLinkCertificate L S D now crl_ms ms c d))
    \<and> lr_message (fst (validateLinkCertificate L S D now crl_ms ms c d))
        = ''Old CSCA not found (issuer: '' @ lc_extractIssuerDn S c @ '')''
    \<and> fst (storeLinkCertificate L S D c r uploadId d') = []"
proof -
  obtain d1 where "lc_findCscaBySubjectDn S D (lc_extractIssuerDn S c) d = (None, d1)"
    using lookup_fails [OF assms] by (metis prod.collapse)
  then show ?thesis
    using store_refused [OF assms] by (simp add: validateLinkCertificate_def lc_result0_def)
qed

text \<open>C28. Whatever the database answers, a link certificate is found valid exactly when the first row answered
  for its issuer is a CSCA whose key verifies it, the first row answered for the issuer name equal to its subject is a
  certificate its own key verifies, the clock is inside its validity period, it is a CA that may sign
  certificates, and its serial is not in the latest CRL of its issuer; other rows, however suitable, and the
  dates of that CRL play no part.  Against the tables the repository creates, whose certificates have no column
  \<^verbatim>\<open>certificate_binary\<close>, the lookup is an error and every link certificate is rejected as one
  whose old CSCA is missing, whatever is stored.\<close>

theorem link_certificate_valid_iff:
  "let by_subject = ldb_query D Csca_by_subject [lc_extractIssuerDn S c] d;
       by_issuer = ldb_query D Csca_by_issuer [lc_extractSubjectDn S c] (snd by_subject);
       result = fst (validateLinkCertificate L S D now crl_ms ms c d)
   in (lr_trustChainValid result \<longleftrightarrow>
         (\<exists>old k new k'.
            answered S (fst by_subject) = Some old \<and> get_pubkey L old = Some k \<and> X509_verify L c k = 1
            \<and> answered S (fst by_issuer) = Some new \<and> get_pubkey L c = Some k' \<and> X509_verify L new k' = 1
            \<and> \<not> isCertificateNotYetValid L now (Some c) \<and> \<not> isCertificateExpired L now (Some c)
            \<and> (\<exists>pathlen. basic_constraints S c = Some (True, pathlen))
            \<and> (\<exists>usage. key_usage L c = Some usage \<and> get_bit usage 5)
            \<and> \<not> (\<exists>row. latest_crl D (lc_extractIssuerDn S c) (snd by_issuer) = Some row
                   \<and> in_crl S (lc_extractSerialNumber L c) row)))
      \<and> (schema_law D \<longrightarrow> \<not> lr_trustChainValid result
           \<and> lr_message result = ''Old CSCA not found (issuer: '' @ lc_extractIssuerDn S c @ '')'')"
  using link_certificate_rejected [of D L S now crl_ms ms c d]
  unfolding Let_def answered_valid lc_findCscaBySubjectDn_def lc_findCscaByIssuerDn_def find_csca_answered prod.inject by blast

definition demo_lc_ssl :: "(nat, nat, int, nat, int) lc_ssl" where
  "demo_lc_ssl = \<lparr>d2i_X509 = (\<lambda>b. Some 3), i2d_X509 = (\<lambda>_. [0x30]), subject_rfc2253 = (\<lambda>_. Some ''CN=Link,C=KR''),
     issuer_rfc2253 = (\<lambda>_. Some ''CN=Old,C=KR''), basic_constraints = (\<lambda>_. Some (True, None)), ext_key_usage = (\<lambda>_. None),
     obj_text = (\<lambda>_. []), time_text = (\<lambda>_. []), d2i_X509_CRL = (\<lambda>_. Some 0), crl_revoked = (\<lambda>_. None),
     rev_serial = (\<lambda>n. n), rev_date = (\<lambda>_. None), rev_reason = (\<lambda>_. None), BN_hex2bn = (\<lambda>_. None)\<rparr>"

definition demo_lc_db :: "unit lc_db" where
  "demo_lc_db = \<lparr>ldb_type = ''postgres'',
     ldb_query = (\<lambda>q ps d. (if missing_columns q = [] then Inr [] else Inl (Runtime_Error ''column does not exist''), d)),
     ldb_command = (\<lambda>q ps d. (if missing_columns q = [] then Inr () else Inl (Runtime_Error ''column does not exist''), d))\<rparr>"

lemma demo_schema: "schema_law demo_lc_db"
  by (simp add: schema_law_def demo_lc_db_def)

theorem link_certificate_rejected_witness:
  "lr_message (fst (validateLinkCertificate demo_pki demo_lc_ssl demo_lc_db 0 0 0 3 ()))
     = ''Old CSCA not found (issuer: CN=Old,C=KR)''"
  using link_certificate_rejected [OF demo_schema, of demo_pki demo_lc_ssl 0 0 0 3 "()" "lc_result0 0" "[]" "()"]
  by (simp add: lc_extractIssuerDn_def demo_lc_ssl_def)

text \<open>Both sides of the equivalence are met: with answers to the lookups a certificate is found valid, and
  against the repository's own tables the same certificate is not.\<close>

definition answering_db :: "unit lc_db" where
  "answering_db = \<lparr>ldb_type = ''postgres'',
     ldb_query = (\<lambda>q ps d. (Inr (if q = Latest_crl then [] else [[(''certificate_binary'', [CHR 0x5C, CHR ''x'', CHR ''3'', CHR ''0''])]]), d)),
     ldb_command = (\<lambda>q ps d. (Inr (), d))\<rparr>"

abbreviation trusting_pki :: "(nat, nat, int) openssl" where
  "trusting_pki \<equiv> small_pki (\<lambda>c. []) (\<lambda>c. []) (\<lambda>c k. True)"

theorem link_certificate_valid_iff_witness:
  "lr_trustChainValid (fst (validateLinkCertificate trusting_pki demo_lc_ssl answering_db 10 0 0 3 ()))
   \<and> answered demo_lc_ssl (fst (ldb_query answering_db Csca_by_subject [''CN=Old,C=KR''] ())) = Some 3
   \<and> \<not> lr_trustChainValid (fst (validateLinkCertificate trusting_pki demo_lc_ssl demo_lc_db 10 0 0 3 ()))"
proof -
  have "lr_trustChainValid (fst (validateLinkCertificate trusting_pki demo_lc_ssl answering_db 10 0 0 3 ()))" by code_simp
  moreover from this have "answered demo_lc_ssl (fst (ldb_query answering_db Csca_by_subject [lc_extractIssuerDn demo_lc_ssl 3] ())) \<noteq> None"
    using conjunct1 [OF link_certificate_valid_iff [of answering_db demo_lc_ssl 3 "()" trusting_pki 10 0 0, unfolded Let_def]] by auto
  moreover have "lc_extractIssuerDn demo_lc_ssl 3 = ''CN=Old,C=KR''" by (simp add: lc_extractIssuerDn_def demo_lc_ssl_def)
  moreover have "answered demo_lc_ssl r \<noteq> None \<Longrightarrow> answered demo_lc_ssl r = Some 3" for r
    by (auto simp: answered_def demo_lc_ssl_def Let_def split: option.splits)
  ultimately show ?thesis
    using conjunct2 [OF link_certificate_valid_iff [of demo_lc_db demo_lc_ssl 3 "()" trusting_pki 10 0 0, unfolded Let_def],
        rule_format, OF demo_schema] by simp
qed

end
