(* ===== verification/Doc9303.thy ===== *)
theory Doc9303
  imports Icao_Status
begin

text \<open>
  The Doc 9303 checklist of \<^verbatim>\<open>common/doc9303_checklist.cpp\<close> in \<^verbatim>\<open>pkd-management\<close>: the checks \<^verbatim>\<open>runDoc9303Checklist\<close> makes of
  a certificate, with their status and the counts.  The Korean texts of an item (category, label, message, requirement)
  are for display and left out.  What the checklist reads of a certificate through OpenSSL is the record \<open>cert_view\<close>; an object
  is its OID, a serial number the bytes OpenSSL stores for it.
\<close>

unbundle bit_operations_syntax

section \<open>Data\<close>

datatype check_status = PASS | FAIL | WARNING | NA

record check_item =
  ck_id :: string
  ck_status :: check_status

record checklist =
  cl_certificateType :: string
  cl_totalChecks :: nat
  cl_passCount :: nat
  cl_failCount :: nat
  cl_warningCount :: nat
  cl_naCount :: nat
  cl_overallStatus :: string
  cl_items :: "check_item list"

text \<open>\<^verbatim>\<open>X509_get_version\<close> counts from 0.  \<open>cw_sigalgs\<close> are the two algorithm identifiers of the signature, \<open>cw_uids\<close> tells
  whether an issuer or subject unique identifier is there, \<open>cw_country\<close> gives the first country of a name.\<close>

record ext_view =
  xt_oid :: string
  xt_critical :: bool

record cert_view =
  cw_version :: int
  cw_serial :: "byte list option"
  cw_sigalgs :: "(string \<times> string) option"
  cw_issuer_country :: string
  cw_subject_country :: string
  cw_uids :: bool
  cw_exts :: "ext_view list"
  cw_eku :: "string list option"
  cw_metadata :: x509_metadata

definition checklist0 :: "string \<Rightarrow> checklist" where
  "checklist0 certType = \<lparr>cl_certificateType = certType, cl_totalChecks = 0, cl_passCount = 0, cl_failCount = 0,
     cl_warningCount = 0, cl_naCount = 0, cl_overallStatus = [], cl_items = []\<rparr>"

definition addItem :: "string \<Rightarrow> check_status \<Rightarrow> checklist \<Rightarrow> checklist" where
  "addItem i st r =
     (let r = (case st of
                 PASS \<Rightarrow> r\<lparr>cl_passCount := cl_passCount r + 1\<rparr>
               | FAIL \<Rightarrow> r\<lparr>cl_failCount := cl_failCount r + 1\<rparr>
               | WARNING \<Rightarrow> r\<lparr>cl_warningCount := cl_warningCount r + 1\<rparr>
               | NA \<Rightarrow> r\<lparr>cl_naCount := cl_naCount r + 1\<rparr>)
      in r\<lparr>cl_totalChecks := cl_totalChecks r + 1, cl_items := cl_items r @ [\<lparr>ck_id = i, ck_status = st\<rparr>]\<rparr>)"

definition pass_or :: "check_status \<Rightarrow> bool \<Rightarrow> check_status" where
  "pass_or bad ok = (if ok then PASS else bad)"

section \<open>Extensions\<close>

text \<open>\<^verbatim>\<open>X509_get_ext_by_NID(cert, nid, -1)\<close> finds the first extension with the object.\<close>

definition getExtensionInfo :: "cert_view \<Rightarrow> string \<Rightarrow> bool \<times> bool" where
  "getExtensionInfo c oid =
     (case find (\<lambda>x. xt_oid x = oid) (cw_exts c) of None \<Rightarrow> (False, False) | Some x \<Rightarrow> (True, xt_critical x))"

abbreviation ext_exists :: "cert_view \<Rightarrow> string \<Rightarrow> bool" where
  "ext_exists c oid \<equiv> fst (getExtensionInfo c oid)"

abbreviation ext_is_critical :: "cert_view \<Rightarrow> string \<Rightarrow> bool" where
  "ext_is_critical c oid \<equiv> snd (getExtensionInfo c oid)"

abbreviation key_usage_oid :: string where "key_usage_oid \<equiv> ''2.5.29.15''"
abbreviation basic_constraints_oid :: string where "basic_constraints_oid \<equiv> ''2.5.29.19''"
abbreviation eku_oid :: string where "eku_oid \<equiv> ''2.5.29.37''"
abbreviation aki_oid :: string where "aki_oid \<equiv> ''2.5.29.35''"
abbreviation ski_oid :: string where "ski_oid \<equiv> ''2.5.29.14''"
abbreviation policies_oid :: string where "policies_oid \<equiv> ''2.5.29.32''"

definition hasNetscapeExtensions :: "cert_view \<Rightarrow> bool" where
  "hasNetscapeExtensions c \<longleftrightarrow> ext_exists c ''2.16.840.1.113730.1.1'' \<or> ext_exists c ''2.16.840.1.113730.1.13''"

definition known_oids :: "string list" where
  "known_oids = [aki_oid, ski_oid, key_usage_oid, basic_constraints_oid, policies_oid, eku_oid,
     ''2.5.29.31'', ''1.3.6.1.5.5.7.1.1'', ''2.5.29.17'', ''2.5.29.18'', ''2.5.29.33'', ''2.5.29.30'',
     ''2.5.29.36'', ''2.5.29.54'', ''2.5.29.9'', ''2.5.29.16'', ''2.5.29.46'']"

definition getUnknownCriticalExtensions :: "cert_view \<Rightarrow> string list" where
  "getUnknownCriticalExtensions c =
     map (\<lambda>x. take 255 (xt_oid x)) (filter (\<lambda>x. xt_critical x \<and> xt_oid x \<notin> set known_oids) (cw_exts c))"

section \<open>The checks\<close>

text \<open>Basic fields.  The bytes of an \<^verbatim>\<open>ASN1_INTEGER\<close> are the magnitude of the number.\<close>

definition serial_positive :: "byte list option \<Rightarrow> bool" where
  "serial_positive sn =
     (case sn of None \<Rightarrow> False | Some data \<Rightarrow> \<not> (0 < length data \<and> hd data AND 0x80 \<noteq> 0))"

definition basic_checks :: "cert_view \<Rightarrow> checklist \<Rightarrow> checklist" where
  "basic_checks c r =
     (let r = addItem ''version_v3'' (pass_or FAIL (cw_version c = 2)) r;
          r = addItem ''serial_positive'' (pass_or FAIL (serial_positive (cw_serial c))) r
      in addItem ''serial_max_20_octets''
           (pass_or FAIL (case cw_serial c of None \<Rightarrow> False | Some data \<Rightarrow> length data \<le> 20)) r)"

definition signature_checks :: "cert_view \<Rightarrow> checklist \<Rightarrow> checklist" where
  "signature_checks c r =
     (let md = cw_metadata c;
          r = addItem ''sig_algo_match'' (pass_or FAIL (case cw_sigalgs c of None \<Rightarrow> False | Some (tbs, outer) \<Rightarrow> tbs = outer)) r;
          lowerHash = to_lower (xm_signatureHashAlgorithm md);
          approvedHash = (str_find lowerHash ''sha256'' 0 \<noteq> None \<or> str_find lowerHash ''sha-256'' 0 \<noteq> None
            \<or> str_find lowerHash ''sha384'' 0 \<noteq> None \<or> str_find lowerHash ''sha-384'' 0 \<noteq> None
            \<or> str_find lowerHash ''sha512'' 0 \<noteq> None \<or> str_find lowerHash ''sha-512'' 0 \<noteq> None);
          approvedPubKey = (xm_publicKeyAlgorithm md = ''RSA'' \<or> xm_publicKeyAlgorithm md = ''ECDSA'')
      in addItem ''sig_algo_approved'' (pass_or FAIL (approvedHash \<and> approvedPubKey)) r)"

definition name_checks :: "cert_view \<Rightarrow> string \<Rightarrow> checklist \<Rightarrow> checklist" where
  "name_checks c certType r =
     (let issuer = cw_issuer_country c; subject = cw_subject_country c;
          r = addItem ''issuer_country_present'' (pass_or FAIL (issuer \<noteq> [])) r;
          r = addItem ''subject_country_present'' (pass_or FAIL (subject \<noteq> [])) r;
          r = (if certType = ''DSC'' \<or> certType = ''DSC_NC'' \<or> certType = ''MLSC''
               then addItem ''subject_issuer_country_match'' (pass_or FAIL (subject \<noteq> [] \<and> issuer \<noteq> [] \<and> subject = issuer)) r else r)
      in addItem ''unique_id_absent'' (pass_or FAIL (\<not> cw_uids c)) r)"

definition key_usage_correct :: "x509_metadata \<Rightarrow> string \<Rightarrow> bool" where
  "key_usage_correct md certType =
     (let ku = xm_keyUsage md in
      if certType = ''CSCA'' then ''keyCertSign'' \<in> set ku \<and> ''cRLSign'' \<in> set ku
      else if certType = ''DSC'' \<or> certType = ''DSC_NC'' then ''digitalSignature'' \<in> set ku
      else if certType = ''MLSC'' then ''digitalSignature'' \<in> set ku
      else False)"

definition usage_checks :: "cert_view \<Rightarrow> string \<Rightarrow> checklist \<Rightarrow> checklist" where
  "usage_checks c certType r =
     (let (present, critical) = getExtensionInfo c key_usage_oid;
          r = addItem ''key_usage_present'' (pass_or FAIL present) r;
          r = addItem ''key_usage_critical'' (if present then pass_or FAIL critical else NA) r
      in addItem ''key_usage_correct'' (pass_or FAIL (key_usage_correct (cw_metadata c) certType)) r)"

definition constraint_checks :: "cert_view \<Rightarrow> string \<Rightarrow> checklist \<Rightarrow> checklist" where
  "constraint_checks c certType r =
     (let md = cw_metadata c; (present, critical) = getExtensionInfo c basic_constraints_oid;
          r = (if certType = ''CSCA'' then
                 (let r = addItem ''basic_constraints_present'' (pass_or FAIL present) r;
                      r = (if present then addItem ''basic_constraints_critical'' (pass_or FAIL critical) r else r);
                      r = addItem ''basic_constraints_ca_true'' (pass_or FAIL (xm_isCA md)) r
                  in addItem ''basic_constraints_pathlen_zero'' (pass_or WARNING (xm_pathLenConstraint md = Some 0)) r)
               else r)
      in if certType = ''DSC'' \<or> certType = ''DSC_NC''
         then addItem ''basic_constraints_ca_false'' (pass_or FAIL (\<not> xm_isCA md)) r else r)"

definition eku_checks :: "cert_view \<Rightarrow> string \<Rightarrow> checklist \<Rightarrow> checklist" where
  "eku_checks c certType r =
     (let (present, critical) = getExtensionInfo c eku_oid;
          r = (if certType = ''CSCA'' then addItem ''eku_absent'' (pass_or FAIL (\<not> present)) r else r);
          r = (if certType = ''DSC'' \<or> certType = ''DSC_NC'' then addItem ''eku_absent'' (pass_or FAIL (\<not> present)) r else r)
      in if certType = ''MLSC'' then
           (if present then
              (let r = addItem ''eku_mlsc_critical'' (pass_or FAIL critical) r;
                   hasCorrectOid = (case cw_eku c of None \<Rightarrow> False
                     | Some oids \<Rightarrow> list_ex (\<lambda>oid. take 127 oid = ''2.23.136.1.1.3'') oids)
               in addItem ''eku_mlsc_present'' (pass_or FAIL hasCorrectOid) r)
            else addItem ''eku_mlsc_present'' FAIL r)
         else r)"

definition extension_checks :: "cert_view \<Rightarrow> string \<Rightarrow> checklist \<Rightarrow> checklist" where
  "extension_checks c certType r =
     (let md = cw_metadata c; isSelfSigned = xm_isSelfSigned md;
          isLinkCert = (xm_isCA md \<and> \<not> isSelfSigned \<and> certType = ''CSCA'');
          (aki, akiCritical) = getExtensionInfo c aki_oid;
          r = addItem ''aki_present'' (pass_or (if \<not> isSelfSigned then FAIL else WARNING) aki) r;
          r = addItem ''aki_non_critical'' (if aki then pass_or FAIL (\<not> akiCritical) else NA) r;
          (ski, skiCritical) = getExtensionInfo c ski_oid;
          r = (if certType = ''CSCA'' then
                 (let r = addItem ''ski_present'' (pass_or (if isSelfSigned \<or> isLinkCert then FAIL else WARNING) ski) r
                  in if ski then addItem ''ski_non_critical'' (pass_or FAIL (\<not> skiCritical)) r else r)
               else r);
          (cp, cpCritical) = getExtensionInfo c policies_oid;
          r = addItem ''cert_policies_non_critical'' (if cp then pass_or FAIL (\<not> cpCritical) else NA) r;
          r = addItem ''no_netscape_extensions'' (pass_or FAIL (\<not> hasNetscapeExtensions c)) r
      in addItem ''no_unknown_critical_ext'' (pass_or FAIL (getUnknownCriticalExtensions c = [])) r)"

definition size_checks :: "cert_view \<Rightarrow> checklist \<Rightarrow> checklist" where
  "size_checks c r =
     (let md = cw_metadata c; keySize = xm_publicKeySize md; pubAlg = xm_publicKeyAlgorithm md;
          ok = (if pubAlg = ''RSA'' then 2048 \<le> keySize else if pubAlg = ''ECDSA'' then 224 \<le> keySize else True);
          recommended =
            (if pubAlg = ''RSA'' then 3072 \<le> keySize
             else if pubAlg = ''ECDSA'' then
               (case xm_publicKeyCurve md of None \<Rightarrow> False
                | Some curve \<Rightarrow> curve = ''prime256v1'' \<or> curve = ''secp256r1'' \<or> curve = ''secp384r1'' \<or> curve = ''secp521r1'')
               \<or> 256 \<le> keySize
             else False);
          r = addItem ''key_size_minimum'' (pass_or FAIL ok) r
      in addItem ''key_size_recommended'' (pass_or WARNING recommended) r)"

definition assess :: "checklist \<Rightarrow> checklist" where
  "assess r = r\<lparr>cl_overallStatus :=
     (if 0 < cl_failCount r then ''NON_CONFORMANT'' else if 0 < cl_warningCount r then ''WARNING'' else ''CONFORMANT'')\<rparr>"

definition runDoc9303Checklist :: "cert_view option \<Rightarrow> string \<Rightarrow> checklist" where
  "runDoc9303Checklist cert certType =
     (case cert of
        None \<Rightarrow> addItem ''error'' FAIL ((checklist0 certType)\<lparr>cl_overallStatus := ''NON_CONFORMANT''\<rparr>)
      | Some c \<Rightarrow>
          assess (size_checks c (extension_checks c certType (eku_checks c certType (constraint_checks c certType
            (usage_checks c certType (name_checks c certType (signature_checks c (basic_checks c (checklist0 certType))))))))))"

section \<open>Counts and items\<close>

definition with_status :: "check_status \<Rightarrow> check_item list \<Rightarrow> nat" where
  "with_status st is = length (filter (\<lambda>i. ck_status i = st) is)"

definition counted :: "checklist \<Rightarrow> bool" where
  "counted r \<longleftrightarrow> cl_totalChecks r = length (cl_items r) \<and> cl_passCount r = with_status PASS (cl_items r)
     \<and> cl_failCount r = with_status FAIL (cl_items r) \<and> cl_warningCount r = with_status WARNING (cl_items r)
     \<and> cl_naCount r = with_status NA (cl_items r)"

lemma counted_checklist0: "counted (checklist0 ty)"
  by (simp add: counted_def checklist0_def with_status_def)

lemma counted_addItem [intro]: "counted r \<Longrightarrow> counted (addItem i st r)"
  by (cases st) (auto simp: counted_def addItem_def with_status_def)

lemma counted_status [simp]: "counted (r\<lparr>cl_overallStatus := s\<rparr>) \<longleftrightarrow> counted r"
  by (simp add: counted_def)

lemma with_status_zero: "with_status st is = 0 \<longleftrightarrow> (\<forall>i \<in> set is. ck_status i \<noteq> st)"
  by (auto simp: with_status_def filter_empty_conv)

lemma with_status_sum: "with_status PASS is + with_status FAIL is + with_status WARNING is + with_status NA is = length is"
proof (induction "is")
  case (Cons i "is")
  then show ?case by (cases "ck_status i") (simp_all add: with_status_def)
qed (simp add: with_status_def)

lemmas check_blocks = basic_checks_def signature_checks_def name_checks_def usage_checks_def constraint_checks_def
  eku_checks_def extension_checks_def size_checks_def

lemma counted_blocks:
  assumes "counted r"
  shows "counted (basic_checks c r)" "counted (signature_checks c r)" "counted (name_checks c ty r)" "counted (usage_checks c ty r)"
    "counted (constraint_checks c ty r)" "counted (eku_checks c ty r)" "counted (extension_checks c ty r)" "counted (size_checks c r)"
  using assms by (simp_all add: check_blocks Let_def counted_addItem split: prod.splits option.split)

lemma counted_run: "counted (runDoc9303Checklist cert ty)"
  by (cases cert)
     (auto simp: runDoc9303Checklist_def assess_def counted_checklist0 intro!: counted_blocks counted_addItem)

section \<open>The rules\<close>

lemma fail_addItem [simp]: "cl_failCount (addItem i st r) = 0 \<longleftrightarrow> cl_failCount r = 0 \<and> st \<noteq> FAIL"
  by (cases st) (simp_all add: addItem_def)

lemma fail_addItem_pos [simp]: "0 < cl_failCount (addItem i st r) \<longleftrightarrow> 0 < cl_failCount r \<or> st = FAIL"
  by (cases st) (simp_all add: addItem_def)

lemma pass_or_fail [simp]: "pass_or bad ok = FAIL \<longleftrightarrow> bad = FAIL \<and> \<not> ok"
  by (simp add: pass_or_def)

text \<open>What a certificate of each type has to satisfy, written without the order of the checks.\<close>

definition profile_rules :: "cert_view \<Rightarrow> bool" where
  "profile_rules c \<longleftrightarrow> cw_version c = 2
     \<and> (\<exists>sn. cw_serial c = Some sn \<and> length sn \<le> 20 \<and> (sn = [] \<or> hd sn AND 0x80 = 0))
     \<and> (\<exists>alg. cw_sigalgs c = Some (alg, alg)) \<and> algorithm_ok (cw_metadata c)
     \<and> cw_issuer_country c \<noteq> [] \<and> cw_subject_country c \<noteq> [] \<and> \<not> cw_uids c
     \<and> getExtensionInfo c key_usage_oid = (True, True)
     \<and> getExtensionInfo c aki_oid \<noteq> (True, True) \<and> getExtensionInfo c policies_oid \<noteq> (True, True)
     \<and> (xm_isSelfSigned (cw_metadata c) \<or> ext_exists c aki_oid)
     \<and> \<not> hasNetscapeExtensions c \<and> (\<forall>x \<in> set (cw_exts c). xt_critical x \<longrightarrow> xt_oid x \<in> set known_oids)
     \<and> (xm_publicKeyAlgorithm (cw_metadata c) = ''RSA'' \<longrightarrow> 2048 \<le> xm_publicKeySize (cw_metadata c))
     \<and> (xm_publicKeyAlgorithm (cw_metadata c) = ''ECDSA'' \<longrightarrow> 224 \<le> xm_publicKeySize (cw_metadata c))"

definition csca_rules :: "cert_view \<Rightarrow> bool" where
  "csca_rules c \<longleftrightarrow> {''keyCertSign'', ''cRLSign''} \<subseteq> set (xm_keyUsage (cw_metadata c)) \<and> xm_isCA (cw_metadata c)
     \<and> getExtensionInfo c basic_constraints_oid = (True, True) \<and> \<not> ext_exists c eku_oid
     \<and> getExtensionInfo c ski_oid = (True, False)"

definition dsc_rules :: "cert_view \<Rightarrow> bool" where
  "dsc_rules c \<longleftrightarrow> ''digitalSignature'' \<in> set (xm_keyUsage (cw_metadata c)) \<and> \<not> xm_isCA (cw_metadata c)
     \<and> cw_subject_country c = cw_issuer_country c \<and> \<not> ext_exists c eku_oid"

definition mlsc_rules :: "cert_view \<Rightarrow> bool" where
  "mlsc_rules c \<longleftrightarrow> ''digitalSignature'' \<in> set (xm_keyUsage (cw_metadata c))
     \<and> cw_subject_country c = cw_issuer_country c \<and> getExtensionInfo c eku_oid = (True, True)
     \<and> (\<exists>oids. cw_eku c = Some oids \<and> (\<exists>oid \<in> set oids. take 127 oid = ''2.23.136.1.1.3''))"

lemma absent_not_critical: "\<not> ext_exists c oid \<Longrightarrow> \<not> ext_is_critical c oid"
  by (auto simp: getExtensionInfo_def split: option.splits)

lemma unknown_critical_empty:
  "getUnknownCriticalExtensions c = [] \<longleftrightarrow> (\<forall>x \<in> set (cw_exts c). xt_critical x \<longrightarrow> xt_oid x \<in> set known_oids)"
  by (auto simp: getUnknownCriticalExtensions_def filter_empty_conv)

lemma basic_fail: "cl_failCount (basic_checks c r) = 0 \<longleftrightarrow> cl_failCount r = 0 \<and> cw_version c = 2
     \<and> (\<exists>sn. cw_serial c = Some sn \<and> length sn \<le> 20 \<and> (sn = [] \<or> hd sn AND 0x80 = 0))"
  by (auto simp: basic_checks_def serial_positive_def Let_def split: option.splits)

lemma signature_fail: "cl_failCount (signature_checks c r) = 0 \<longleftrightarrow> cl_failCount r = 0
     \<and> (\<exists>alg. cw_sigalgs c = Some (alg, alg)) \<and> algorithm_ok (cw_metadata c)"
  by (auto simp: signature_checks_def algorithm_ok_def approved_hash_def Let_def split: option.splits)

lemma name_fail: "cl_failCount (name_checks c ty r) = 0 \<longleftrightarrow> cl_failCount r = 0 \<and> cw_issuer_country c \<noteq> []
     \<and> cw_subject_country c \<noteq> [] \<and> \<not> cw_uids c
     \<and> (ty \<in> {''DSC'', ''DSC_NC'', ''MLSC''} \<longrightarrow> cw_subject_country c = cw_issuer_country c)"
  by (auto simp: name_checks_def Let_def)

lemma usage_fail: "cl_failCount (usage_checks c ty r) = 0 \<longleftrightarrow> cl_failCount r = 0
     \<and> getExtensionInfo c key_usage_oid = (True, True) \<and> key_usage_correct (cw_metadata c) ty"
  by (auto simp: usage_checks_def Let_def split: prod.splits)

lemma size_fail: "cl_failCount (size_checks c r) = 0 \<longleftrightarrow> cl_failCount r = 0
     \<and> (xm_publicKeyAlgorithm (cw_metadata c) = ''RSA'' \<longrightarrow> 2048 \<le> xm_publicKeySize (cw_metadata c))
     \<and> (xm_publicKeyAlgorithm (cw_metadata c) = ''ECDSA'' \<longrightarrow> 224 \<le> xm_publicKeySize (cw_metadata c))"
  by (auto simp: size_checks_def Let_def)

lemma constraint_fail: "cl_failCount (constraint_checks c ty r) = 0 \<longleftrightarrow> cl_failCount r = 0
     \<and> (ty = ''CSCA'' \<longrightarrow> getExtensionInfo c basic_constraints_oid = (True, True) \<and> xm_isCA (cw_metadata c))
     \<and> (ty \<in> {''DSC'', ''DSC_NC''} \<longrightarrow> \<not> xm_isCA (cw_metadata c))"
  by (auto simp: constraint_checks_def Let_def split: prod.splits)

lemma eku_fail: "cl_failCount (eku_checks c ty r) = 0 \<longleftrightarrow> cl_failCount r = 0
     \<and> (ty \<in> {''CSCA'', ''DSC'', ''DSC_NC''} \<longrightarrow> \<not> ext_exists c eku_oid)
     \<and> (ty = ''MLSC'' \<longrightarrow> getExtensionInfo c eku_oid = (True, True)
          \<and> (\<exists>oids. cw_eku c = Some oids \<and> (\<exists>oid \<in> set oids. take 127 oid = ''2.23.136.1.1.3'')))"
  by (auto simp: eku_checks_def Let_def list_ex_iff split: prod.splits option.splits)

text \<open>A CSCA that passes the constraints is a CA, so that it is self signed or a link certificate and its SKI mandatory.\<close>

lemma extension_fail: "cl_failCount (extension_checks c ty r) = 0 \<longleftrightarrow> cl_failCount r = 0
     \<and> (xm_isSelfSigned (cw_metadata c) \<or> ext_exists c aki_oid)
     \<and> getExtensionInfo c aki_oid \<noteq> (True, True) \<and> getExtensionInfo c policies_oid \<noteq> (True, True)
     \<and> (ty = ''CSCA'' \<longrightarrow> getExtensionInfo c ski_oid = (True, False)
          \<or> (\<not> xm_isCA (cw_metadata c) \<and> \<not> xm_isSelfSigned (cw_metadata c) \<and> \<not> ext_exists c ski_oid))
     \<and> \<not> hasNetscapeExtensions c \<and> (\<forall>x \<in> set (cw_exts c). xt_critical x \<longrightarrow> xt_oid x \<in> set known_oids)"
  by (auto simp: extension_checks_def Let_def unknown_critical_empty split: prod.splits if_splits)

lemmas fail_blocks = basic_fail signature_fail name_fail usage_fail constraint_fail eku_fail extension_fail size_fail

definition type_rules :: "cert_view \<Rightarrow> string \<Rightarrow> bool" where
  "type_rules c ty \<longleftrightarrow> ty = ''CSCA'' \<and> csca_rules c \<or> (ty = ''DSC'' \<or> ty = ''DSC_NC'') \<and> dsc_rules c \<or> ty = ''MLSC'' \<and> mlsc_rules c"

lemma type_rules_fail:
  "key_usage_correct (cw_metadata c) ty
     \<and> (ty = ''CSCA'' \<longrightarrow> getExtensionInfo c basic_constraints_oid = (True, True) \<and> xm_isCA (cw_metadata c))
     \<and> (ty \<in> {''DSC'', ''DSC_NC''} \<longrightarrow> \<not> xm_isCA (cw_metadata c))
     \<and> (ty \<in> {''DSC'', ''DSC_NC'', ''MLSC''} \<longrightarrow> cw_subject_country c = cw_issuer_country c)
     \<and> (ty \<in> {''CSCA'', ''DSC'', ''DSC_NC''} \<longrightarrow> \<not> ext_exists c eku_oid)
     \<and> (ty = ''MLSC'' \<longrightarrow> getExtensionInfo c eku_oid = (True, True)
          \<and> (\<exists>oids. cw_eku c = Some oids \<and> (\<exists>oid \<in> set oids. take 127 oid = ''2.23.136.1.1.3'')))
     \<and> (ty = ''CSCA'' \<longrightarrow> getExtensionInfo c ski_oid = (True, False)
          \<or> (\<not> xm_isCA (cw_metadata c) \<and> \<not> xm_isSelfSigned (cw_metadata c) \<and> \<not> ext_exists c ski_oid))
   \<longleftrightarrow> type_rules c ty"
proof -
  consider "ty = ''CSCA''" | "ty = ''DSC''" | "ty = ''DSC_NC''" | "ty = ''MLSC''" | "ty \<notin> {''CSCA'', ''DSC'', ''DSC_NC'', ''MLSC''}"
    by blast
  then show ?thesis
    by cases (auto simp: type_rules_def key_usage_correct_def Let_def csca_rules_def dsc_rules_def mlsc_rules_def)
qed

lemma run_fail:
  "cl_failCount (runDoc9303Checklist (Some c) ty) = 0 \<longleftrightarrow> profile_rules c \<and> type_rules c ty"
  unfolding runDoc9303Checklist_def assess_def option.case type_rules_fail[symmetric] profile_rules_def
  by (simp add: fail_blocks checklist0_def del: insert_iff) argo

lemma run_verdict:
  "cl_overallStatus (runDoc9303Checklist (Some c) ty) \<noteq> ''NON_CONFORMANT'' \<longleftrightarrow> profile_rules c \<and> type_rules c ty"
  unfolding run_fail[symmetric] by (simp add: runDoc9303Checklist_def assess_def)

text \<open>The two flags \<^verbatim>\<open>checkIcaoCompliance\<close> shares with the checklist.\<close>

lemma assessment_keeps:
  "ic_keyUsageCompliant (conformance_code ty (final_assessment s)) = ic_keyUsageCompliant s"
  "ic_algorithmCompliant (conformance_code ty (final_assessment s)) = ic_algorithmCompliant s"
  by (simp_all add: conformance_code_def final_assessment_def Let_def)

lemma compliance_flags:
  assumes "ty \<noteq> ''DSC_NC''"
  shows "ic_keyUsageCompliant (checkIcaoCompliance (Some f) ty) = key_usage_ok (cf_metadata f) ty"
    "ic_algorithmCompliant (checkIcaoCompliance (Some f) ty) = algorithm_ok (cf_metadata f)"
proof -
  have init: "ic_keyUsageCompliant icao_status0" "ic_algorithmCompliant icao_status0" by (simp_all add: icao_status0_def)
  show "ic_keyUsageCompliant (checkIcaoCompliance (Some f) ty) = key_usage_ok (cf_metadata f) ty"
    "ic_algorithmCompliant (checkIcaoCompliance (Some f) ty) = algorithm_ok (cf_metadata f)"
    unfolding checkIcaoCompliance_def option.case if_not_P[OF assms] Let_def assessment_keeps
    by (simp_all add: check_simps assms init)
qed

section \<open>Results\<close>

text \<open>The requirement each item states, for the certificate \<open>c\<close> with serial number \<open>z\<close>.  The rules other than
  those of the serial number, the key usage and the path length come first; a positive number is encoded with one octet more
  than its magnitude when the top bit of that is set.\<close>

definition stated_rules :: "cert_view \<Rightarrow> string \<Rightarrow> bool" where
  "stated_rules c ty \<longleftrightarrow> cw_version c = 2
     \<and> (\<exists>alg. cw_sigalgs c = Some (alg, alg)) \<and> algorithm_ok (cw_metadata c)
     \<and> cw_issuer_country c \<noteq> [] \<and> cw_subject_country c \<noteq> [] \<and> \<not> cw_uids c
     \<and> getExtensionInfo c key_usage_oid = (True, True)
     \<and> getExtensionInfo c aki_oid \<noteq> (True, True) \<and> getExtensionInfo c policies_oid \<noteq> (True, True)
     \<and> (xm_isSelfSigned (cw_metadata c) \<or> ext_exists c aki_oid)
     \<and> \<not> hasNetscapeExtensions c \<and> (\<forall>x \<in> set (cw_exts c). xt_critical x \<longrightarrow> xt_oid x \<in> set known_oids)
     \<and> (xm_publicKeyAlgorithm (cw_metadata c) = ''RSA'' \<longrightarrow> 2048 \<le> xm_publicKeySize (cw_metadata c))
     \<and> (xm_publicKeyAlgorithm (cw_metadata c) = ''ECDSA'' \<longrightarrow> 224 \<le> xm_publicKeySize (cw_metadata c))
     \<and> (ty = ''CSCA'' \<and> xm_isCA (cw_metadata c) \<and> getExtensionInfo c basic_constraints_oid = (True, True)
          \<and> \<not> ext_exists c eku_oid \<and> getExtensionInfo c ski_oid = (True, False)
        \<or> ty \<in> {''DSC'', ''DSC_NC''} \<and> \<not> xm_isCA (cw_metadata c) \<and> cw_subject_country c = cw_issuer_country c \<and> \<not> ext_exists c eku_oid
        \<or> ty = ''MLSC'' \<and> cw_subject_country c = cw_issuer_country c \<and> getExtensionInfo c eku_oid = (True, True)
          \<and> (\<exists>oids. cw_eku c = Some oids \<and> ''2.23.136.1.1.3'' \<in> set oids))"

definition required_usage :: "string \<Rightarrow> string set" where
  "required_usage ty = (if ty = ''CSCA'' then {''keyCertSign'', ''cRLSign''} else {''digitalSignature''})"

fun magnitude :: "nat \<Rightarrow> byte list" where
  "magnitude n = (if n < 256 then [word_of_nat n] else magnitude (n div 256) @ [word_of_nat (n mod 256)])"

definition top_bit :: "byte list \<Rightarrow> bool" where
  "top_bit bs \<longleftrightarrow> bs \<noteq> [] \<and> hd bs AND 0x80 \<noteq> 0"

definition requirements :: "cert_view \<Rightarrow> string \<Rightarrow> int \<Rightarrow> bool" where
  "requirements c ty z \<longleftrightarrow> stated_rules c ty
     \<and> 0 < z \<and> (let bs = magnitude (nat \<bar>z\<bar>) in length bs + (if top_bit bs then 1 else 0) \<le> 20)
     \<and> set (xm_keyUsage (cw_metadata c)) = required_usage ty
     \<and> (ty = ''CSCA'' \<longrightarrow> xm_pathLenConstraint (cw_metadata c) = Some 0)"

lemma mlsc_oid: "take 127 oid = ''2.23.136.1.1.3'' \<longleftrightarrow> oid = ''2.23.136.1.1.3''"
  by (cases "length oid \<le> 127") (auto dest: arg_cong [where f = length])

lemma accepted_rules:
  "profile_rules c \<and> type_rules c ty \<longleftrightarrow> stated_rules c ty
     \<and> (\<exists>sn. cw_serial c = Some sn \<and> length sn \<le> 20 \<and> \<not> top_bit sn)
     \<and> required_usage ty \<subseteq> set (xm_keyUsage (cw_metadata c))"
proof -
  consider "ty = ''CSCA''" | "ty = ''DSC''" | "ty = ''DSC_NC''" | "ty = ''MLSC''" | "ty \<notin> {''CSCA'', ''DSC'', ''DSC_NC'', ''MLSC''}"
    by blast
  then show ?thesis
    by cases (simp_all add: profile_rules_def type_rules_def stated_rules_def csca_rules_def dsc_rules_def mlsc_rules_def mlsc_oid
        required_usage_def top_bit_def, argo+)
qed

text \<open>A warning stays.\<close>

lemma warn_addItem [simp]: "0 < cl_warningCount (addItem i st r) \<longleftrightarrow> 0 < cl_warningCount r \<or> st = WARNING"
  by (cases st) (simp_all add: addItem_def)

lemma warning_stays:
  "0 < cl_warningCount r \<Longrightarrow> 0 < cl_warningCount (eku_checks c ty r)"
  "0 < cl_warningCount r \<Longrightarrow> 0 < cl_warningCount (extension_checks c ty r)"
  "0 < cl_warningCount r \<Longrightarrow> 0 < cl_warningCount (size_checks c r)"
  by (simp_all add: eku_checks_def extension_checks_def size_checks_def Let_def split: prod.split)

lemma path_length_warns:
  assumes "xm_pathLenConstraint (cw_metadata c) \<noteq> Some 0"
  shows "cl_overallStatus (runDoc9303Checklist (Some c) ''CSCA'') \<in> {''NON_CONFORMANT'', ''WARNING''}"
proof -
  have "0 < cl_warningCount (constraint_checks c ''CSCA'' r)" for r
    using assms by (simp add: constraint_checks_def Let_def pass_or_def split: prod.split)
  then show ?thesis by (simp add: runDoc9303Checklist_def assess_def warning_stays)
qed

text \<open>C35. The verdict of the checklist against the requirement each item states.  A certificate is not rejected exactly when it
  keeps the stated rules with three readings: its key usage contains the required one (the requirement says only), the top bit of its
  serial number's magnitude is clear (the requirement says positive), and a CSCA's path length is not looked at.  So, for the serial
  number \<open>z\<close>: a certificate that meets all requirements is rejected exactly when that top bit is set, although its number is
  positive; one that is not rejected meets them exactly when its number is positive, it has no further key usage and, for a CSCA, the
  path length is 0, without which it gets a warning.\<close>

theorem doc9303_verdict:
  "let status = cl_overallStatus (runDoc9303Checklist (Some c) ty); usage = set (xm_keyUsage (cw_metadata c));
       path_ok = (ty = ''CSCA'' \<longrightarrow> xm_pathLenConstraint (cw_metadata c) = Some 0)
   in (status \<noteq> ''NON_CONFORMANT'' \<longleftrightarrow>
         stated_rules c ty \<and> (\<exists>sn. cw_serial c = Some sn \<and> length sn \<le> 20 \<and> \<not> top_bit sn) \<and> required_usage ty \<subseteq> usage)
      \<and> (cw_serial c = Some (magnitude (nat \<bar>z\<bar>)) \<and> requirements c ty z \<longrightarrow>
           (status = ''NON_CONFORMANT'' \<longleftrightarrow> top_bit (magnitude (nat \<bar>z\<bar>))))
      \<and> (cw_serial c = Some (magnitude (nat \<bar>z\<bar>)) \<and> status \<noteq> ''NON_CONFORMANT'' \<longrightarrow>
           (requirements c ty z \<longleftrightarrow> 0 < z \<and> usage = required_usage ty \<and> path_ok))
      \<and> (\<not> path_ok \<longrightarrow> status \<in> {''NON_CONFORMANT'', ''WARNING''})"
proof -
  let ?accepted = "cl_overallStatus (runDoc9303Checklist (Some c) ty) \<noteq> ''NON_CONFORMANT''"
  let ?bs = "magnitude (nat \<bar>z\<bar>)" and ?ku = "set (xm_keyUsage (cw_metadata c))"
  let ?path = "ty = ''CSCA'' \<longrightarrow> xm_pathLenConstraint (cw_metadata c) = Some 0"
  have v: "?accepted \<longleftrightarrow> stated_rules c ty \<and> (\<exists>sn. cw_serial c = Some sn \<and> length sn \<le> 20 \<and> \<not> top_bit sn) \<and> required_usage ty \<subseteq> ?ku"
    unfolding run_verdict accepted_rules ..
  have req: "requirements c ty z \<longleftrightarrow> stated_rules c ty \<and> 0 < z \<and> length ?bs + (if top_bit ?bs then 1 else 0) \<le> 20
      \<and> ?ku = required_usage ty \<and> ?path"
    by (simp only: requirements_def Let_def)
  have len: "length ?bs \<le> 20" if "length ?bs + (if top_bit ?bs then 1 else 0) \<le> 20" using that by linarith
  have acc: "?accepted \<longleftrightarrow> stated_rules c ty \<and> length ?bs \<le> 20 \<and> \<not> top_bit ?bs \<and> required_usage ty \<subseteq> ?ku"
    if "cw_serial c = Some ?bs" unfolding v that by blast
  have 1: "\<not> ?accepted \<longleftrightarrow> top_bit ?bs" if "cw_serial c = Some ?bs \<and> requirements c ty z"
    using acc len that req by blast
  have 2: "requirements c ty z \<longleftrightarrow> 0 < z \<and> ?ku = required_usage ty \<and> ?path" if "cw_serial c = Some ?bs \<and> ?accepted"
    using acc that req by force
  have 3: "cl_overallStatus (runDoc9303Checklist (Some c) ty) \<in> {''NON_CONFORMANT'', ''WARNING''}" if "\<not> ?path"
    using path_length_warns [of c] that by blast
  from v 1 2 3 show ?thesis unfolding Let_def by blast
qed

text \<open>The counts of the checklist are those of its items, the total is their sum, and the overall status is decided by the
  worst item: a FAIL makes it non conformant, otherwise a WARNING makes it a warning.\<close>

theorem doc9303_counts:
  "let r = runDoc9303Checklist cert ty; is = cl_items r in
     counted r \<and> cl_totalChecks r = cl_passCount r + cl_failCount r + cl_warningCount r + cl_naCount r
     \<and> cl_overallStatus r = (if FAIL \<in> ck_status ` set is then ''NON_CONFORMANT''
                             else if WARNING \<in> ck_status ` set is then ''WARNING'' else ''CONFORMANT'')"
proof -
  let ?r = "runDoc9303Checklist cert ty"
  have c: "counted ?r" by (rule counted_run)
  have status: "cl_overallStatus ?r = (if 0 < cl_failCount ?r then ''NON_CONFORMANT''
      else if 0 < cl_warningCount ?r then ''WARNING'' else ''CONFORMANT'')"
    by (cases cert) (simp_all add: runDoc9303Checklist_def assess_def addItem_def)
  have "0 < with_status st is \<longleftrightarrow> st \<in> ck_status ` set is" for st "is"
    using with_status_zero[of st "is"] by auto
  with c show ?thesis
    by (auto simp: Let_def status counted_def with_status_sum)
qed

text \<open>A CSCA or DSC the checklist does not reject has the key usage and the algorithms \<^verbatim>\<open>checkIcaoCompliance\<close> asks for.\<close>

theorem doc9303_entails_compliance:
  assumes "cl_overallStatus (runDoc9303Checklist (Some c) ty) \<noteq> ''NON_CONFORMANT''" "ty = ''CSCA'' \<or> ty = ''DSC''"
    "cf_metadata f = cw_metadata c"
  shows "ic_keyUsageCompliant (checkIcaoCompliance (Some f) ty) \<and> ic_algorithmCompliant (checkIcaoCompliance (Some f) ty)"
proof -
  have "profile_rules c" "type_rules c ty" using assms(1) by (simp_all add: run_verdict)
  with assms(2,3) have "key_usage_ok (cf_metadata f) ty" "algorithm_ok (cf_metadata f)"
    by (auto simp: profile_rules_def type_rules_def csca_rules_def dsc_rules_def key_usage_ok_def)
  moreover have "ty \<noteq> ''DSC_NC''" using assms(2) by auto
  ultimately show ?thesis by (simp add: compliance_flags)
qed

definition sample_metadata :: "string list \<Rightarrow> bool \<Rightarrow> x509_metadata" where
  "sample_metadata ku ca = \<lparr>xm_version = 2, xm_signatureAlgorithm = ''ecdsa-with-SHA256'', xm_signatureHashAlgorithm = ''SHA-256'',
     xm_publicKeyAlgorithm = ''ECDSA'', xm_publicKeySize = 256, xm_publicKeyCurve = Some ''prime256v1'', xm_keyUsage = ku,
     xm_extendedKeyUsage = [], xm_isCA = ca, xm_pathLenConstraint = None, xm_subjectKeyIdentifier = None,
     xm_authorityKeyIdentifier = None, xm_crlDistributionPoints = [], xm_ocspResponderUrl = None, xm_isSelfSigned = False\<rparr>"

definition sample_view :: "ext_view list \<Rightarrow> string list option \<Rightarrow> cert_view" where
  "sample_view xs eku = \<lparr>cw_version = 2, cw_serial = Some [0x12], cw_sigalgs = Some (''1.2.840.10045.4.3.2'', ''1.2.840.10045.4.3.2''),
     cw_issuer_country = ''KR'', cw_subject_country = ''KR'', cw_uids = False,
     cw_exts = \<lparr>xt_oid = key_usage_oid, xt_critical = True\<rparr> # \<lparr>xt_oid = aki_oid, xt_critical = False\<rparr> # xs,
     cw_eku = eku, cw_metadata = sample_metadata [''digitalSignature''] False\<rparr>"

definition sample_facts :: icao_facts where
  "sample_facts = \<lparr>cf_metadata = sample_metadata [''digitalSignature''] False, cf_validityDays = Some 1000,
     cf_subjectHasCountry = Some True, cf_hasBasicConstraints = False\<rparr>"

lemma sample_dsc: "cl_overallStatus (runDoc9303Checklist (Some (sample_view [] None)) ''DSC'') = ''CONFORMANT''"
  by code_simp

lemma doc9303_entails_compliance_witness:
  "ic_keyUsageCompliant (checkIcaoCompliance (Some sample_facts) ''DSC'')
     \<and> ic_algorithmCompliant (checkIcaoCompliance (Some sample_facts) ''DSC'')"
  by (rule doc9303_entails_compliance[of "sample_view [] None"])
     (simp_all only: sample_dsc, simp_all add: sample_facts_def sample_view_def)

text \<open>The two rule sets differ on master list signers: one that signs with \<^verbatim>\<open>digitalSignature\<close> and the extended key usage of
  Doc 9303 is conformant on the checklist and has the wrong key usage for \<^verbatim>\<open>checkIcaoCompliance\<close>, which wants a self signed CA.\<close>

theorem doc9303_mlsc_disagrees:
  "cl_overallStatus (runDoc9303Checklist (Some (sample_view [\<lparr>xt_oid = eku_oid, xt_critical = True\<rparr>] (Some [''2.23.136.1.1.3'']))) ''MLSC'')
     = ''CONFORMANT''
   \<and> ic_complianceLevel (checkIcaoCompliance (Some sample_facts) ''MLSC'') = ''NON_CONFORMANT''"
  by (rule conjI) (code_simp, code_simp)

text \<open>The serial number is judged by the top bit of the bytes OpenSSL keeps, the magnitude of the number: a certificate whose
  serial number has this bit set is non conformant, whatever its sign.\<close>

theorem doc9303_serial_top_bit:
  assumes "cw_serial c = Some sn" "sn \<noteq> []" "hd sn AND 0x80 \<noteq> 0"
  shows "cl_overallStatus (runDoc9303Checklist (Some c) ty) = ''NON_CONFORMANT''"
  using assms run_verdict[of c ty] by (auto simp: profile_rules_def)

lemma doc9303_serial_top_bit_witness:
  "cl_overallStatus (runDoc9303Checklist (Some ((sample_view [] None)\<lparr>cw_serial := Some [0x92]\<rparr>)) ''DSC'') = ''NON_CONFORMANT''"
  by (rule doc9303_serial_top_bit[of _ "[0x92]"]) simp_all

text \<open>A positive serial number with the top bit set: all requirements are met and the verdict is a rejection.\<close>

lemma doc9303_verdict_witness:
  "requirements ((sample_view [] None)\<lparr>cw_serial := Some [0x92]\<rparr>) ''DSC'' 0x92
   \<and> cl_overallStatus (runDoc9303Checklist (Some ((sample_view [] None)\<lparr>cw_serial := Some [0x92]\<rparr>)) ''DSC'') = ''NON_CONFORMANT''
   \<and> cl_overallStatus (runDoc9303Checklist (Some (sample_view [] None)) ''DSC'') \<noteq> ''NON_CONFORMANT''"
proof -
  let ?c = "(sample_view [] None)\<lparr>cw_serial := Some [0x92]\<rparr>"
  have m: "magnitude (nat \<bar>0x92\<bar>) = [0x92]" by simp
  have "cl_overallStatus (runDoc9303Checklist (Some (sample_view [] None)) ''DSC'') \<noteq> ''NON_CONFORMANT''"
    unfolding sample_dsc by simp
  then have "stated_rules (sample_view [] None) ''DSC''"
    using doc9303_verdict [of "sample_view [] None" "''DSC''" 1] unfolding Let_def by blast
  then have "stated_rules ?c ''DSC''" by (simp add: stated_rules_def getExtensionInfo_def hasNetscapeExtensions_def)
  then have r: "requirements ?c ''DSC'' 0x92"
    by (simp add: requirements_def m required_usage_def Let_def) (simp add: sample_view_def sample_metadata_def)
  have "cw_serial ?c = Some (magnitude (nat \<bar>0x92\<bar>))" "top_bit (magnitude (nat \<bar>0x92\<bar>))" unfolding m by (simp_all add: top_bit_def)
  then have "cl_overallStatus (runDoc9303Checklist (Some ?c) ''DSC'') = ''NON_CONFORMANT''"
    using doc9303_verdict [of ?c "''DSC''" "0x92"] r unfolding Let_def by blast
  then show ?thesis using r sample_dsc by simp
qed

end
