(* ===== verification/Cert_Files.thy ===== *)
theory Cert_Files
  imports Cert_Utils Sod_Asn1
begin

text \<open>
  The certificate file library of \<^verbatim>\<open>src/shared/lib/certificate-parser\<close>: format detection (\<^verbatim>\<open>file_detector.cpp\<close>), PEM and DER
  files (\<^verbatim>\<open>pem_parser.cpp\<close>, \<^verbatim>\<open>der_parser.cpp\<close>), the type of a certificate (\<^verbatim>\<open>cert_type_detector.cpp\<close>) and the single
  certificate validator (\<^verbatim>\<open>cert_validator.cpp\<close>).  Deviation Lists are in \<open>Dl_Parser\<close>.
\<close>

unbundle bit_operations_syntax

section \<open>File formats\<close>

datatype file_format = FF_UNKNOWN | FF_PEM | FF_DER | FF_CER | FF_BIN | FF_DL | FF_LDIF | FF_ML | FF_P7B | FF_CRL

fun formatToString :: "file_format \<Rightarrow> string" where
  "formatToString FF_PEM = ''PEM''"
| "formatToString FF_DER = ''DER''"
| "formatToString FF_CER = ''CER''"
| "formatToString FF_BIN = ''BIN''"
| "formatToString FF_DL = ''DL''"
| "formatToString FF_LDIF = ''LDIF''"
| "formatToString FF_ML = ''ML''"
| "formatToString FF_P7B = ''P7B''"
| "formatToString FF_CRL = ''CRL''"
| "formatToString FF_UNKNOWN = ''UNKNOWN''"

definition stringToFormat :: "string \<Rightarrow> file_format" where
  "stringToFormat str =
     (let upper = to_upper str in
      if upper = ''PEM'' then FF_PEM else if upper = ''DER'' then FF_DER else if upper = ''CER'' then FF_CER
      else if upper = ''BIN'' then FF_BIN else if upper = ''DL'' then FF_DL else if upper = ''LDIF'' then FF_LDIF
      else if upper = ''ML'' then FF_ML else if upper = ''P7B'' then FF_P7B else if upper = ''CRL'' then FF_CRL
      else FF_UNKNOWN)"

definition getExtension :: "string \<Rightarrow> string" where
  "getExtension filename =
     (case find_last_of filename ''.'' of None \<Rightarrow> []
      | Some dotPos \<Rightarrow> if dotPos = length filename - 1 then [] else to_lower (drop dotPos filename))"

definition detectByExtension :: "string \<Rightarrow> file_format" where
  "detectByExtension filename =
     (let ext = getExtension filename in
      if ext = ''.pem'' \<or> ext = ''.crt'' then FF_PEM else if ext = ''.der'' then FF_DER else if ext = ''.cer'' then FF_CER
      else if ext = ''.bin'' then FF_BIN else if ext = ''.dvl'' \<or> ext = ''.dl'' then FF_DL else if ext = ''.ldif'' then FF_LDIF
      else if ext = ''.ml'' then FF_ML else if ext = ''.p7b'' \<or> ext = ''.p7c'' then FF_P7B else if ext = ''.crl'' then FF_CRL
      else FF_UNKNOWN)"

text \<open>\<^verbatim>\<open>std::memcmp\<close> of the first bytes with a text.\<close>

definition starts_with :: "byte list \<Rightarrow> string \<Rightarrow> bool" where
  "starts_with content txt = (take (length txt) content = map byte_of_char txt)"

definition isPEM :: "byte list \<Rightarrow> bool" where
  "isPEM content = (11 \<le> length content \<and> starts_with content ''-----BEGIN '')"

definition isDER :: "byte list \<Rightarrow> bool" where
  "isDER content = (2 \<le> length content \<and> content ! 0 = 0x30
     \<and> (content ! 1 \<in> {0x81, 0x82, 0x83, 0x84} \<or> content ! 1 \<le> 0x7F))"

text \<open>The loops over the first \<^verbatim>\<open>searchLimit - sizeof(oid)\<close> positions.\<close>

definition oid_within :: "nat \<Rightarrow> byte list \<Rightarrow> byte list \<Rightarrow> bool" where
  "oid_within limit oid content =
     list_ex (\<lambda>i. take (length oid) (drop i content) = oid) [0..<min (length content) limit - length oid]"

definition dlOid :: "byte list" where "dlOid = [0x06, 0x06, 0x67, 0x81, 0x08, 0x01, 0x01, 0x07]"
definition mlOid :: "byte list" where "mlOid = [0x06, 0x06, 0x67, 0x81, 0x08, 0x01, 0x01, 0x02]"
definition signedDataOid :: "byte list" where
  "signedDataOid = [0x06, 0x09, 0x2A, 0x86, 0x48, 0x86, 0xF7, 0x0D, 0x01, 0x07, 0x02]"

definition isDL :: "byte list \<Rightarrow> bool" where
  "isDL content = (50 \<le> length content \<and> isDER content \<and> oid_within 1024 dlOid content)"

definition isMasterList :: "byte list \<Rightarrow> bool" where
  "isMasterList content = (50 \<le> length content \<and> isDER content \<and> oid_within 1024 mlOid content)"

definition isP7B :: "byte list \<Rightarrow> bool" where
  "isP7B content = (50 \<le> length content \<and> isDER content \<and> oid_within 256 signedDataOid content)"

text \<open>For DER the function answers false on purpose.\<close>

definition isCRL :: "byte list \<Rightarrow> bool" where
  "isCRL content = (10 \<le> length content \<and> 24 \<le> length content \<and> starts_with content ''-----BEGIN X509 CRL-----'')"

definition isLDIF :: "byte list \<Rightarrow> bool" where
  "isLDIF content = (3 \<le> length content \<and>
     (starts_with content ''dn:'' \<or> 8 \<le> length content \<and> starts_with content ''version:''))"

definition detectByContent :: "byte list \<Rightarrow> file_format" where
  "detectByContent content =
     (if content = [] then FF_UNKNOWN else if isPEM content then FF_PEM else if isLDIF content then FF_LDIF
      else if isCRL content then FF_CRL else if isDL content then FF_DL else if isMasterList content then FF_ML
      else if isP7B content then FF_P7B else if isDER content then FF_DER else FF_UNKNOWN)"

definition detectFormat :: "string \<Rightarrow> byte list \<Rightarrow> file_format" where
  "detectFormat filename content =
     (let format = detectByExtension filename in if format \<noteq> FF_UNKNOWN then format else detectByContent content)"

section \<open>PEM files\<close>

text \<open>The lines of the content; a block runs from a line with \<^verbatim>\<open>-----BEGIN\<close> to one with \<^verbatim>\<open>-----END\<close>.\<close>

definition trim_eol :: "string \<Rightarrow> string" where
  "trim_eol line = rev (dropWhile (\<lambda>c. c = CHR 0x0D \<or> c = CHR 0x0A) (rev line))"

fun pem_loop :: "string list \<Rightarrow> bool \<Rightarrow> string \<Rightarrow> string list" where
  "pem_loop [] inBlock currentBlock = []"
| "pem_loop (l # ls) inBlock currentBlock =
     (let line = trim_eol l in
      if str_find line ''-----BEGIN'' 0 \<noteq> None then pem_loop ls True (line @ [CHR 0x0A])
      else if str_find line ''-----END'' 0 \<noteq> None then
        (if inBlock then (currentBlock @ line @ [CHR 0x0A]) # pem_loop ls False [] else pem_loop ls inBlock currentBlock)
      else if inBlock then pem_loop ls inBlock (currentBlock @ line @ [CHR 0x0A])
      else pem_loop ls inBlock currentBlock)"

definition extractPemBlocks :: "string \<Rightarrow> string list" where
  "extractPemBlocks content = pem_loop (getlines (CHR 0x0A) content) False []"

definition isCertificateBlock :: "string \<Rightarrow> bool" where
  "isCertificateBlock block = (str_find block ''-----BEGIN CERTIFICATE-----'' 0 \<noteq> None
     \<or> str_find block ''-----BEGIN X509 CERTIFICATE-----'' 0 \<noteq> None \<or> str_find block ''-----BEGIN PKCS7-----'' 0 \<noteq> None)"

definition isPemFormat :: "byte list \<Rightarrow> bool" where
  "isPemFormat data = (27 \<le> length data \<and>
     (let content = map char_of_byte (take 1000 data) in
      str_find content ''-----BEGIN CERTIFICATE-----'' 0 \<noteq> None \<or> str_find content ''-----BEGIN PKCS7-----'' 0 \<noteq> None))"

record 'c pem_result =
  pr_success :: bool
  pr_errorMessage :: string
  pr_certificates :: "'c list"
  pr_certificateCount :: nat
  pr_parseErrors :: nat

definition pem_result0 :: "'c pem_result" where
  "pem_result0 = \<lparr>pr_success = False, pr_errorMessage = [], pr_certificates = [], pr_certificateCount = 0, pr_parseErrors = 0\<rparr>"

text \<open>\<open>read\<close> is \<^verbatim>\<open>PEM_read_bio_X509\<close> on the bytes of a block.\<close>

definition parsePemBlock :: "(string \<Rightarrow> 'c option) \<Rightarrow> string \<Rightarrow> 'c option" where
  "parsePemBlock read pemBlock = (if pemBlock = [] then None else read pemBlock)"

definition parse_block :: "(string \<Rightarrow> 'c option) \<Rightarrow> 'c pem_result \<Rightarrow> string \<Rightarrow> 'c pem_result" where
  "parse_block read r block =
     (if \<not> isCertificateBlock block then r
      else case parsePemBlock read block of
        Some cert \<Rightarrow> r\<lparr>pr_certificates := pr_certificates r @ [cert], pr_certificateCount := pr_certificateCount r + 1\<rparr>
      | None \<Rightarrow> r\<lparr>pr_parseErrors := pr_parseErrors r + 1\<rparr>)"

definition pem_parse :: "(string \<Rightarrow> 'c option) \<Rightarrow> string \<Rightarrow> 'c pem_result" where
  "pem_parse read pemString =
     (if pemString = [] then pem_result0\<lparr>pr_errorMessage := ''Empty string''\<rparr>
      else
        let blocks = extractPemBlocks pemString in
        if blocks = [] then pem_result0\<lparr>pr_errorMessage := ''No PEM blocks found''\<rparr>
        else
          let r = foldl (parse_block read) pem_result0 blocks in
          if pr_certificateCount r = 0 then r\<lparr>pr_errorMessage := ''No valid certificates found''\<rparr>
          else r\<lparr>pr_success := True\<rparr>)"

definition pem_parse_bytes :: "(string \<Rightarrow> 'c option) \<Rightarrow> byte list \<Rightarrow> 'c pem_result" where
  "pem_parse_bytes read data =
     (if data = [] then pem_result0\<lparr>pr_errorMessage := ''Empty data''\<rparr> else pem_parse read (map char_of_byte data))"

section \<open>DER files\<close>

definition isDerFormat :: "byte list \<Rightarrow> bool" where
  "isDerFormat data =
     (if length data < 4 then False
      else if data ! 0 \<noteq> 0x30 then False
      else
        let lengthByte = data ! 1 in
        if lengthByte \<le> 0x7F then 2 + unat lengthByte \<le> length data
        else if 0x81 \<le> lengthByte \<and> lengthByte \<le> 0x84 then 2 + unat (lengthByte AND 0x7F) \<le> length data
        else False)"

text \<open>The length and the size of the length field.\<close>

definition parseDerLength :: "byte list \<Rightarrow> size \<times> size" where
  "parseDerLength data =
     (if data = [] then (0, 0)
      else
        let firstByte = data ! 0 in
        if firstByte \<le> 0x7F then (ucast firstByte, 1)
        else if firstByte < 0x80 \<or> 0x84 < firstByte then (0, 0)
        else
          let numLengthBytes = unat (firstByte AND 0x7F) in
          if length data < 1 + numLengthBytes then (0, 0)
          else (foldl (\<lambda>len i. push_bit 8 len OR ucast (data ! (1 + i))) 0 [0..<numLengthBytes], 1 + of_nat numLengthBytes))"

definition getDerCertificateSize :: "byte list \<Rightarrow> size" where
  "getDerCertificateSize data =
     (if length data < 2 then 0
      else if data ! 0 \<noteq> 0x30 then 0
      else
        let (contentLength, lengthFieldSize) = parseDerLength (drop 1 data) in
        if contentLength = 0 then 0 else 1 + lengthFieldSize + contentLength)"

definition validateDerStructure :: "byte list \<Rightarrow> bool" where
  "validateDerStructure data =
     (if \<not> isDerFormat data then False
      else
        let certSize = getDerCertificateSize data in
        if certSize = 0 then False else if of_nat (length data) < certSize then False else True)"

record 'c der_result =
  dr_success :: bool
  dr_errorMessage :: string
  dr_certificate :: "'c option"
  dr_fileSize :: nat
  dr_isValidDer :: bool

text \<open>\<open>d2i\<close> is \<^verbatim>\<open>d2i_X509\<close>, \<open>err\<close> the text of the OpenSSL error.\<close>

definition der_parse :: "(byte list \<Rightarrow> 'c option) \<Rightarrow> string \<Rightarrow> byte list \<Rightarrow> 'c der_result" where
  "der_parse d2i err data =
     (let r = \<lparr>dr_success = False, dr_errorMessage = [], dr_certificate = None, dr_fileSize = length data, dr_isValidDer = False\<rparr> in
      if data = [] then r\<lparr>dr_errorMessage := ''Empty data''\<rparr>
      else
        let r = r\<lparr>dr_isValidDer := validateDerStructure data\<rparr> in
        if \<not> dr_isValidDer r then r\<lparr>dr_errorMessage := ''Invalid DER structure''\<rparr>
        else case d2i data of
            None \<Rightarrow> r\<lparr>dr_errorMessage := ''Failed to parse DER certificate: '' @ c_str err\<rparr>
          | Some cert \<Rightarrow> r\<lparr>dr_certificate := Some cert, dr_success := True\<rparr>)"

section \<open>The type of a certificate\<close>

datatype certificate_type = CT_UNKNOWN | CT_CSCA | CT_DSC | CT_DSC_NC | CT_MLSC | CT_LINK_CERT | CT_DL_SIGNER

fun typeToString :: "certificate_type \<Rightarrow> string" where
  "typeToString CT_CSCA = ''CSCA''"
| "typeToString CT_DSC = ''DSC''"
| "typeToString CT_DSC_NC = ''DSC_NC''"
| "typeToString CT_MLSC = ''MLSC''"
| "typeToString CT_LINK_CERT = ''LINK_CERT''"
| "typeToString CT_DL_SIGNER = ''DL_SIGNER''"
| "typeToString CT_UNKNOWN = ''UNKNOWN''"

definition stringToType :: "string \<Rightarrow> certificate_type" where
  "stringToType str =
     (let upper = to_upper str in
      if upper = ''CSCA'' then CT_CSCA else if upper = ''DSC'' then CT_DSC else if upper = ''DSC_NC'' then CT_DSC_NC
      else if upper = ''MLSC'' then CT_MLSC else if upper = ''LINK_CERT'' then CT_LINK_CERT
      else if upper = ''DL_SIGNER'' then CT_DL_SIGNER else CT_UNKNOWN)"

text \<open>What the detector and the validator read besides: the names in RFC 2253 form, the bytes of the first country of the
  subject, the comparison of the names, the objects of the extended key usage and the text of the signature algorithm
  (\<^verbatim>\<open>OBJ_obj2txt\<close> with names); \<open>epoch_of\<close> is \<^verbatim>\<open>timegm\<close>.\<close>

record ('x, 'k, 't) parser_ssl = "('x, 'k, 't) openssl" +
  subject_rfc2253 :: "'x \<Rightarrow> string"
  issuer_rfc2253 :: "'x \<Rightarrow> string"
  subject_country :: "'x \<Rightarrow> string option"
  subject_cmp_issuer :: "'x \<Rightarrow> int"
  eku_oids :: "'x \<Rightarrow> string list option"
  eku_names :: "'x \<Rightarrow> string list option"
  sigalg_name :: "'x \<Rightarrow> string option"
  epoch_of :: "tm \<Rightarrow> int"

record detected_info =
  ci_type :: certificate_type
  ci_country :: string
  ci_fingerprint :: string
  ci_subject_dn :: string
  ci_issuer_dn :: string
  ci_is_self_signed :: bool
  ci_is_ca :: bool
  ci_has_key_cert_sign :: bool
  ci_error_message :: string

definition hasExtendedKeyUsage :: "('x, 'k, 't) parser_ssl \<Rightarrow> 'x \<Rightarrow> string \<Rightarrow> bool" where
  "hasExtendedKeyUsage L cert oid_str = (case eku_oids L cert of None \<Rightarrow> False | Some oids \<Rightarrow> list_ex (\<lambda>oid. oid = oid_str) oids)"

definition isMasterListSigner :: "('x, 'k, 't) parser_ssl \<Rightarrow> 'x \<Rightarrow> bool" where
  "isMasterListSigner L cert = hasExtendedKeyUsage L cert ''2.23.136.1.1.9''"

definition isDeviationListSigner :: "('x, 'k, 't) parser_ssl \<Rightarrow> 'x \<Rightarrow> bool" where
  "isDeviationListSigner L cert = hasExtendedKeyUsage L cert ''2.23.136.1.1.10''"

definition detect_isCA :: "('x, 'k, 't) parser_ssl \<Rightarrow> 'x \<Rightarrow> bool" where
  "detect_isCA L cert = (case basic_constraints_ca L cert of None \<Rightarrow> False | Some ca \<Rightarrow> ca)"

definition detect_isSelfSigned :: "('x, 'k, 't) parser_ssl \<Rightarrow> 'x \<Rightarrow> bool" where
  "detect_isSelfSigned L cert = (subject_cmp_issuer L cert = 0)"

definition extractCountry :: "('x, 'k, 't) parser_ssl \<Rightarrow> 'x \<Rightarrow> string" where
  "extractCountry L cert = (case subject_country L cert of None \<Rightarrow> [] | Some c \<Rightarrow> c)"

definition hasKeyCertSign :: "('x, 'k, 't) parser_ssl \<Rightarrow> 'x \<Rightarrow> bool" where
  "hasKeyCertSign L cert = (case key_usage L cert of None \<Rightarrow> False | Some bits \<Rightarrow> get_bit bits 5)"

definition calculateFingerprint :: "('x, 'k, 't) parser_ssl \<Rightarrow> 'x \<Rightarrow> string" where
  "calculateFingerprint L cert = (case X509_digest L cert of None \<Rightarrow> [] | Some md \<Rightarrow> bytes_hex md)"

text \<open>The flags of the structure have no initial value; they are read only when the pointer is not null.\<close>

definition detectType :: "('x, 'k, 't) parser_ssl \<Rightarrow> 'x option \<Rightarrow> detected_info" where
  "detectType L c =
     (let info = \<lparr>ci_type = CT_UNKNOWN, ci_country = [], ci_fingerprint = [], ci_subject_dn = [], ci_issuer_dn = [],
            ci_is_self_signed = False, ci_is_ca = False, ci_has_key_cert_sign = False, ci_error_message = []\<rparr> in
      case c of
        None \<Rightarrow> info\<lparr>ci_error_message := ''Certificate pointer is null''\<rparr>
      | Some cert \<Rightarrow>
          let info = info\<lparr>ci_subject_dn := subject_rfc2253 L cert, ci_issuer_dn := issuer_rfc2253 L cert,
                ci_country := extractCountry L cert, ci_fingerprint := calculateFingerprint L cert,
                ci_is_self_signed := detect_isSelfSigned L cert, ci_is_ca := detect_isCA L cert,
                ci_has_key_cert_sign := hasKeyCertSign L cert\<rparr> in
          if isMasterListSigner L cert then info\<lparr>ci_type := CT_MLSC\<rparr>
          else if isDeviationListSigner L cert then info\<lparr>ci_type := CT_DL_SIGNER\<rparr>
          else if ci_is_ca info \<and> ci_has_key_cert_sign info then
            (if ci_is_self_signed info then info\<lparr>ci_type := CT_CSCA\<rparr> else info\<lparr>ci_type := CT_LINK_CERT\<rparr>)
          else info\<lparr>ci_type := CT_DSC\<rparr>)"

section \<open>The validator of single certificates\<close>

datatype single_status = SV_VALID | SV_EXPIRED | SV_NOT_YET_VALID | SV_INVALID_SIGNATURE | SV_REVOKED | SV_UNTRUSTED
  | SV_INVALID_PURPOSE | SV_UNKNOWN_ERROR

record single_result =
  sr_isValid :: bool
  sr_status :: single_status
  sr_errorMessage :: string
  sr_isExpired :: bool
  sr_isNotYetValid :: bool
  sr_notBefore :: "int option"
  sr_notAfter :: "int option"
  sr_signatureVerified :: bool
  sr_signatureAlgorithm :: string
  sr_trustChainValid :: bool
  sr_trustChainDepth :: nat
  sr_trustChainPath :: "string list"
  sr_purposeValid :: bool
  sr_keyUsages :: "string list"
  sr_extendedKeyUsages :: "string list"
  sr_crlChecked :: bool
  sr_isRevoked :: bool

definition single_result0 :: single_result where
  "single_result0 = \<lparr>sr_isValid = False, sr_status = SV_UNKNOWN_ERROR, sr_errorMessage = [], sr_isExpired = False,
     sr_isNotYetValid = False, sr_notBefore = None, sr_notAfter = None, sr_signatureVerified = False, sr_signatureAlgorithm = [],
     sr_trustChainValid = False, sr_trustChainDepth = 0, sr_trustChainPath = [], sr_purposeValid = True, sr_keyUsages = [],
     sr_extendedKeyUsages = [], sr_crlChecked = False, sr_isRevoked = False\<rparr>"

text \<open>The times of a certificate are never null; \<^verbatim>\<open>X509_cmp_current_time\<close> is 0 on an error.\<close>

definition single_isExpired :: "('x, 'k, 't) parser_ssl \<Rightarrow> int \<Rightarrow> 'x option \<Rightarrow> bool" where
  "single_isExpired L now c = (case c of None \<Rightarrow> True | Some cert \<Rightarrow> X509_cmp_time L (not_after L cert) now < 0)"

definition single_isNotYetValid :: "('x, 'k, 't) parser_ssl \<Rightarrow> int \<Rightarrow> 'x option \<Rightarrow> bool" where
  "single_isNotYetValid L now c = (case c of None \<Rightarrow> False | Some cert \<Rightarrow> 0 < X509_cmp_time L (not_before L cert) now)"

definition verifySignature :: "('x, 'k, 't) parser_ssl \<Rightarrow> 'x option \<Rightarrow> 'x option \<Rightarrow> bool" where
  "verifySignature L c issuer =
     (case c of None \<Rightarrow> False
      | Some cert \<Rightarrow>
          (case get_pubkey L (case issuer of Some i \<Rightarrow> i | None \<Rightarrow> cert) of
             None \<Rightarrow> False
           | Some pkey \<Rightarrow> X509_verify L cert pkey = 1))"

definition getKeyUsages :: "('x, 'k, 't) parser_ssl \<Rightarrow> 'x option \<Rightarrow> string list" where
  "getKeyUsages L c =
     (case c of None \<Rightarrow> []
      | Some cert \<Rightarrow>
          (case key_usage L cert of None \<Rightarrow> []
           | Some bits \<Rightarrow> map snd (filter (\<lambda>(i, _). get_bit bits i)
               [(0, ''digitalSignature''), (1, ''nonRepudiation''), (2, ''keyEncipherment''), (3, ''dataEncipherment''),
                (4, ''keyAgreement''), (5, ''keyCertSign''), (6, ''cRLSign'')])))"

definition getExtendedKeyUsages :: "('x, 'k, 't) parser_ssl \<Rightarrow> 'x option \<Rightarrow> string list" where
  "getExtendedKeyUsages L c =
     (case c of None \<Rightarrow> []
      | Some cert \<Rightarrow> (case eku_names L cert of None \<Rightarrow> [] | Some names \<Rightarrow> map (\<lambda>n. c_str (take 127 n)) names))"

definition getSignatureAlgorithm :: "('x, 'k, 't) parser_ssl \<Rightarrow> 'x option \<Rightarrow> string" where
  "getSignatureAlgorithm L c =
     (case c of None \<Rightarrow> [] | Some cert \<Rightarrow> (case sigalg_name L cert of None \<Rightarrow> [] | Some n \<Rightarrow> c_str (take 127 n)))"

definition asn1TimeToTimePoint :: "('x, 'k, 't) parser_ssl \<Rightarrow> 't \<Rightarrow> int option" where
  "asn1TimeToTimePoint L t =
     (case ASN1_TIME_to_tm L t of None \<Rightarrow> None | Some v \<Rightarrow> if epoch_of L v = -1 then None else Some (epoch_of L v))"

definition checkExpiration :: "('x, 'k, 't) parser_ssl \<Rightarrow> int \<Rightarrow> 'x \<Rightarrow> single_result \<Rightarrow> single_result" where
  "checkExpiration L now cert r =
     r\<lparr>sr_notBefore := asn1TimeToTimePoint L (not_before L cert), sr_notAfter := asn1TimeToTimePoint L (not_after L cert),
       sr_isExpired := single_isExpired L now (Some cert), sr_isNotYetValid := single_isNotYetValid L now (Some cert)\<rparr>"

definition checkSignature :: "('x, 'k, 't) parser_ssl \<Rightarrow> 'x \<Rightarrow> 'x option \<Rightarrow> single_result \<Rightarrow> single_result" where
  "checkSignature L cert issuer r =
     r\<lparr>sr_signatureVerified := verifySignature L (Some cert) issuer, sr_signatureAlgorithm := getSignatureAlgorithm L (Some cert)\<rparr>"

definition checkPurpose :: "('x, 'k, 't) parser_ssl \<Rightarrow> 'x \<Rightarrow> single_result \<Rightarrow> single_result" where
  "checkPurpose L cert r =
     r\<lparr>sr_keyUsages := getKeyUsages L (Some cert), sr_extendedKeyUsages := getExtendedKeyUsages L (Some cert), sr_purposeValid := True\<rparr>"

text \<open>The common part of the three members: the checks, then the chain when both passed.\<close>

definition validate_steps ::
  "('x, 'k, 't) parser_ssl \<Rightarrow> int \<Rightarrow> 'x \<Rightarrow> 'x option \<Rightarrow> string \<Rightarrow> (single_result \<Rightarrow> single_result) \<Rightarrow> single_result" where
  "validate_steps L now cert issuer bad_signature chain =
     (let r = checkExpiration L now cert single_result0 in
      if sr_isExpired r then r\<lparr>sr_status := SV_EXPIRED, sr_errorMessage := ''Certificate has expired''\<rparr>
      else if sr_isNotYetValid r then r\<lparr>sr_status := SV_NOT_YET_VALID, sr_errorMessage := ''Certificate is not yet valid''\<rparr>
      else
        let r = checkSignature L cert issuer r in
        if \<not> sr_signatureVerified r then r\<lparr>sr_status := SV_INVALID_SIGNATURE, sr_errorMessage := bad_signature\<rparr>
        else (checkPurpose L cert (chain r))\<lparr>sr_isValid := True, sr_status := SV_VALID\<rparr>)"

definition null_certificate :: single_result where
  "null_certificate = single_result0\<lparr>sr_errorMessage := ''Null certificate'', sr_status := SV_UNKNOWN_ERROR\<rparr>"

definition validate_alone :: "('x, 'k, 't) parser_ssl \<Rightarrow> int \<Rightarrow> 'x option \<Rightarrow> single_result" where
  "validate_alone L now c =
     (case c of None \<Rightarrow> null_certificate
      | Some cert \<Rightarrow> validate_steps L now cert None ''Self-signed signature verification failed'' (\<lambda>r. r))"

text \<open>The path holds the names that \<^verbatim>\<open>X509_NAME_oneline\<close> could print.\<close>

definition dn_path :: "('x, 'k, 't) parser_ssl \<Rightarrow> 'x list \<Rightarrow> string list" where
  "dn_path L cs = List.map_filter (\<lambda>c. map_option c_str (subject_oneline L c)) cs"

definition validate_with_issuer :: "('x, 'k, 't) parser_ssl \<Rightarrow> int \<Rightarrow> 'x option \<Rightarrow> 'x option \<Rightarrow> single_result" where
  "validate_with_issuer L now c issuer =
     (case c of None \<Rightarrow> null_certificate
      | Some cert \<Rightarrow> validate_steps L now cert issuer ''Signature verification failed''
          (\<lambda>r. case issuer of None \<Rightarrow> r
             | Some i \<Rightarrow> r\<lparr>sr_trustChainValid := True, sr_trustChainDepth := 1, sr_trustChainPath := dn_path L [cert, i]\<rparr>))"

definition validate_with_chain :: "('x, 'k, 't) parser_ssl \<Rightarrow> int \<Rightarrow> 'x option \<Rightarrow> 'x list \<Rightarrow> single_result" where
  "validate_with_chain L now c trustChain =
     (case c of None \<Rightarrow> null_certificate
      | Some cert \<Rightarrow>
          (case trustChain of
             [] \<Rightarrow> validate_alone L now c
           | issuer # _ \<Rightarrow> validate_steps L now cert (Some issuer) ''Signature verification failed''
               (\<lambda>r. r\<lparr>sr_trustChainValid := True, sr_trustChainDepth := length trustChain,
                       sr_trustChainPath := dn_path L (cert # trustChain)\<rparr>)))"

section \<open>Formats\<close>

lemma starts_with_prefix:
  assumes "starts_with content txt" "take n txt = pre" "n \<le> length txt"
  shows "starts_with content pre"
proof -
  have "take n (take (length txt) content) = take n (map byte_of_char txt)"
    using assms(1) by (simp add: starts_with_def)
  then have "take n content = map byte_of_char pre"
    using assms(2,3) by (simp add: take_map min_absorb1)
  moreover have "length pre = n" using assms(2,3) by auto
  ultimately show ?thesis by (simp add: starts_with_def)
qed

lemma crl_is_pem: "isCRL content \<Longrightarrow> isPEM content"
  using starts_with_prefix[of content "''-----BEGIN X509 CRL-----''" 11 "''-----BEGIN ''"]
  by (simp add: isCRL_def isPEM_def)

lemma content_never_crl: "detectByContent content \<noteq> FF_CRL"
  using crl_is_pem by (auto simp: detectByContent_def)

text \<open>A revocation list is recognised by the name of the file only: the test of the content comes after the one for PEM,
  which accepts every text it would accept.\<close>

theorem crl_by_name_only: "detectFormat filename content = FF_CRL \<longleftrightarrow> getExtension filename = ''.crl''"
  using content_never_crl by (simp add: detectFormat_def detectByExtension_def Let_def)

text \<open>The texts of the formats and of the certificate types are read back.\<close>

theorem format_text_roundtrip: "stringToFormat (formatToString f) = f \<and> stringToType (typeToString t) = t"
proof (rule conjI)
  show "stringToFormat (formatToString f) = f" by (cases f; hypsubst; code_simp)
  show "stringToType (typeToString t) = t" by (cases t; hypsubst; code_simp)
qed

section \<open>PEM blocks\<close>

definition text_lines :: "string \<Rightarrow> string list \<Rightarrow> string" where
  "text_lines eol ls = concat (map (\<lambda>l. l @ eol) ls)"

definition has :: "string \<Rightarrow> string \<Rightarrow> bool" where
  "has pat l \<longleftrightarrow> str_find l pat 0 \<noteq> None"

text \<open>The lines of one block: a first line with \<^verbatim>\<open>-----BEGIN\<close>, a last one with \<^verbatim>\<open>-----END\<close>, neither between.\<close>

definition plain_line :: "string \<Rightarrow> bool" where
  "plain_line l \<longleftrightarrow> CHR 0x0A \<notin> set l \<and> CHR 0x0D \<notin> set l"

definition block_lines :: "string list \<Rightarrow> bool" where
  "block_lines ls \<longleftrightarrow> (\<exists>b body e. ls = b # body @ [e] \<and> has ''-----BEGIN'' b \<and> has ''-----END'' e \<and> \<not> has ''-----BEGIN'' e
     \<and> (\<forall>l \<in> set body. \<not> has ''-----BEGIN'' l \<and> \<not> has ''-----END'' l) \<and> (\<forall>l \<in> set ls. plain_line l))"

lemma getlines_text_lines:
  assumes "\<forall>l \<in> set ls. CHR 0x0A \<notin> set (l @ eol)"
  shows "getlines (CHR 0x0A) (text_lines (eol @ [CHR 0x0A]) ls) = map (\<lambda>l. l @ eol) ls"
  using assms
proof (induction ls)
  case (Cons l ls)
  then show ?case using getlines_cons[of "CHR 0x0A" "l @ eol" "text_lines (eol @ [CHR 0x0A]) ls"]
    by (simp add: text_lines_def)
qed (simp add: text_lines_def)

lemma trim_eol_line:
  assumes "plain_line l" "set eol \<subseteq> {CHR 0x0D, CHR 0x0A}"
  shows "trim_eol (l @ eol) = l"
proof -
  have "dropWhile (\<lambda>c. c = CHR 0x0D \<or> c = CHR 0x0A) (rev eol @ rev l) = dropWhile (\<lambda>c. c = CHR 0x0D \<or> c = CHR 0x0A) (rev l)"
    using assms(2) by (intro dropWhile_append2) auto
  also have "\<dots> = rev l" using assms(1) by (cases "rev l") (auto simp: plain_line_def rev_eq_Cons_iff)
  finally show ?thesis by (simp add: trim_eol_def)
qed

lemma pem_loop_body:
  assumes "\<forall>l \<in> set body. \<not> has ''-----BEGIN'' l \<and> \<not> has ''-----END'' l \<and> plain_line l" "set eol \<subseteq> {CHR 0x0D, CHR 0x0A}"
  shows "pem_loop (map (\<lambda>l. l @ eol) body @ rest) True acc = pem_loop rest True (acc @ text_lines [CHR 0x0A] body)"
  using assms(1)
proof (induction body arbitrary: acc)
  case (Cons l body)
  then show ?case using trim_eol_line[OF _ assms(2), of l] by (simp add: has_def text_lines_def Let_def)
qed (simp add: text_lines_def)

lemma pem_loop_block:
  assumes "block_lines ls" "set eol \<subseteq> {CHR 0x0D, CHR 0x0A}"
  shows "pem_loop (map (\<lambda>l. l @ eol) ls @ rest) False acc = text_lines [CHR 0x0A] ls # pem_loop rest False []"
proof -
  obtain b body e where ls: "ls = b # body @ [e]" "has ''-----BEGIN'' b" "has ''-----END'' e" "\<not> has ''-----BEGIN'' e"
    "\<forall>l \<in> set body. \<not> has ''-----BEGIN'' l \<and> \<not> has ''-----END'' l" "\<forall>l \<in> set ls. plain_line l"
    using assms(1) by (auto simp: block_lines_def)
  have body: "pem_loop (map (\<lambda>l. l @ eol) body @ (e @ eol) # rest) True (b @ [CHR 0x0A]) =
      pem_loop ((e @ eol) # rest) True ((b @ [CHR 0x0A]) @ text_lines [CHR 0x0A] body)"
    by (rule pem_loop_body) (use ls assms(2) in auto)
  then show ?thesis
    using ls trim_eol_line[OF _ assms(2), of b] trim_eol_line[OF _ assms(2), of e]
    by (simp add: has_def Let_def text_lines_def)
qed

lemma pem_loop_blocks:
  assumes "\<forall>ls \<in> set bs. block_lines ls" "set eol \<subseteq> {CHR 0x0D, CHR 0x0A}"
  shows "pem_loop (concat (map (map (\<lambda>l. l @ eol)) bs)) False [] = map (text_lines [CHR 0x0A]) bs"
  using assms(1)
proof (induction bs)
  case (Cons ls bs)
  then show ?case using pem_loop_block[OF _ assms(2), of ls] by simp
qed simp

text \<open>The blocks of a PEM file are read back in their order, whether its lines end in LF or CR LF.\<close>

theorem pem_blocks_roundtrip:
  assumes "\<forall>ls \<in> set bs. block_lines ls" "eol = [] \<or> eol = [CHR 0x0D]"
  shows "extractPemBlocks (text_lines (eol @ [CHR 0x0A]) (concat bs)) = map (text_lines [CHR 0x0A]) bs"
proof -
  have "\<forall>l \<in> set (concat bs). CHR 0x0A \<notin> set (l @ eol)"
    using assms by (fastforce simp: block_lines_def plain_line_def)
  then have "getlines (CHR 0x0A) (text_lines (eol @ [CHR 0x0A]) (concat bs)) = concat (map (map (\<lambda>l. l @ eol)) bs)"
    by (simp add: getlines_text_lines map_concat)
  then show ?thesis using pem_loop_blocks[of bs eol] assms by (auto simp: extractPemBlocks_def)
qed

definition sample_block :: "string list" where
  "sample_block = [''-----BEGIN CERTIFICATE-----'', ''MIIB'', ''-----END CERTIFICATE-----'']"

lemma sample_block_lines: "block_lines sample_block"
proof -
  have "has ''-----BEGIN'' ''-----BEGIN CERTIFICATE-----'' \<and> has ''-----END'' ''-----END CERTIFICATE-----''
      \<and> \<not> has ''-----BEGIN'' ''-----END CERTIFICATE-----'' \<and> \<not> has ''-----BEGIN'' ''MIIB'' \<and> \<not> has ''-----END'' ''MIIB''
      \<and> list_all plain_line sample_block"
    by code_simp
  then show ?thesis
    unfolding block_lines_def sample_block_def
    by (intro exI[of _ "''-----BEGIN CERTIFICATE-----''"] exI[of _ "[''MIIB'']"] exI[of _ "''-----END CERTIFICATE-----''"])
       (simp add: list_all_iff)
qed

lemma pem_blocks_roundtrip_witness:
  "extractPemBlocks (text_lines [CHR 0x0D, CHR 0x0A] (sample_block @ sample_block))
     = [text_lines [CHR 0x0A] sample_block, text_lines [CHR 0x0A] sample_block]"
  using pem_blocks_roundtrip[of "[sample_block, sample_block]" "[CHR 0x0D]"] sample_block_lines by simp

lemma block_not_empty: "isCertificateBlock b \<Longrightarrow> b \<noteq> []"
  by (auto simp: isCertificateBlock_def str_find_def)

lemma parse_blocks:
  "let r' = foldl (parse_block read) r bs; cs = filter isCertificateBlock bs in
     pr_certificates r' = pr_certificates r @ List.map_filter read cs
     \<and> pr_certificateCount r' = pr_certificateCount r + length (List.map_filter read cs)
     \<and> pr_parseErrors r' + length (List.map_filter read cs) = pr_parseErrors r + length cs
     \<and> pr_success r' = pr_success r"
proof (induction bs arbitrary: r)
  case (Cons b bs)
  show ?case
    using Cons[of "parse_block read r b"] block_not_empty[of b]
    by (cases "read b") (auto simp: parse_block_def parsePemBlock_def Let_def List.map_filter_simps)
qed (simp add: List.map_filter_simps)

text \<open>The parser returns the certificates of the certificate blocks OpenSSL reads, in their order; every other certificate
  block is an error, and the parse is a success when there is a certificate.\<close>

theorem pem_parse_functional:
  "let r = pem_parse read s; blocks = filter isCertificateBlock (extractPemBlocks s) in
     pr_certificates r = List.map_filter read blocks
     \<and> (pr_success r \<longleftrightarrow> List.map_filter read blocks \<noteq> []) \<and> pr_certificateCount r = length (pr_certificates r)
     \<and> pr_certificateCount r + pr_parseErrors r = length blocks"
proof -
  have "extractPemBlocks [] = []" by (simp add: extractPemBlocks_def)
  then show ?thesis
    using parse_blocks[of read pem_result0 "extractPemBlocks s"]
    by (auto simp: pem_parse_def Let_def pem_result0_def List.map_filter_simps)
qed

section \<open>DER structure\<close>

lemma der_small: "n < 256 \<Longrightarrow> unat (word_of_nat n :: byte) = n"
  by (simp add: unat_of_nat)

lemma le_byte: "n < 256 \<Longrightarrow> (word_of_nat n :: byte) \<le> 0x7F \<longleftrightarrow> n \<le> 127"
  by (simp add: word_le_nat_alt der_small)

lemma parse_der_enc:
  assumes "n < 65536"
  shows "parseDerLength (der_enc n @ rest) = (of_nat n, of_nat (length (der_enc n)))"
proof -
  consider "n < 128" | "128 \<le> n" "n < 256" | "256 \<le> n" by linarith
  then show ?thesis
  proof cases
    case 1
    then show ?thesis by (simp add: parseDerLength_def der_enc_def le_byte ucast_nat_byte)
  next
    case 2
    then show ?thesis by (simp add: parseDerLength_def der_enc_def ucast_nat_byte word_le_nat_alt word_less_nat_alt)
  next
    case 3
    let ?d = "0x82 # word_of_nat (n div 256) # word_of_nat n # rest"
    have hi: "ucast (word_of_nat (n div 256) :: byte) = (word_of_nat (n div 256) :: size)"
      using assms by (intro ucast_nat_byte) simp
    have "(word_of_nat n :: byte) = word_of_nat (n mod 256)" by (simp add: word_of_nat_eq_iff take_bit_eq_mod)
    then have lo: "ucast (word_of_nat n :: byte) = (word_of_nat (n mod 256) :: size)"
      by (simp add: ucast_nat_byte)
    have "(word_of_nat (n div 256) * 256 + word_of_nat (n mod 256) :: size) = word_of_nat (n div 256 * 256 + n mod 256)"
      by (simp only: of_nat_add of_nat_mult of_nat_numeral)
    then have sum: "(word_of_nat (n div 256) * 256 + word_of_nat (n mod 256) :: size) = word_of_nat n" by simp
    have upt: "[0..<2] = [0, 1 :: nat]" by (simp add: numeral_2_eq_2)
    have two: "unat ((0x82 :: byte) AND 0x7F) = 2" "\<not> (0x82 :: byte) \<le> 0x7F"
      "\<not> ((0x82 :: byte) < 0x80 \<or> 0x84 < (0x82 :: byte))"
      by simp_all
    have "parseDerLength ?d = (word_of_nat n, 3)"
      unfolding parseDerLength_def by (simp add: Let_def two upt push_or_byte hi lo sum)
    with 3 show ?thesis by (simp add: der_enc_def)
  qed
qed

lemma of_nat_size: "n < 2 ^ 64 \<Longrightarrow> unat (of_nat n :: size) = n"
  by (simp add: unat_of_nat)

lemma der_size:
  assumes "0 < n" "n < 65536"
  shows "getDerCertificateSize (0x30 # der_enc n @ rest) = of_nat (Suc (length (der_enc n)) + n)"
proof -
  have "(of_nat n :: size) \<noteq> 0" using assms of_nat_size[of n] by auto
  moreover have "der_enc n \<noteq> []" using length_der_enc[of n] by auto
  ultimately show ?thesis
    using parse_der_enc[OF assms(2), of rest] by (simp add: getDerCertificateSize_def)
qed

lemma der_format_tlv:
  assumes "2 \<le> length v" "length v < 65536"
  shows "isDerFormat (tlv 0x30 v @ rest)"
proof -
  consider "length v < 128" | "128 \<le> length v" "length v < 256" | "256 \<le> length v" by linarith
  then show ?thesis
    using assms by cases (auto simp: isDerFormat_def tlv_def der_enc_def le_byte der_small word_le_nat_alt Let_def)
qed

lemma validate_size:
  assumes "getDerCertificateSize data = of_nat m" "0 < m" "m < 2 ^ 33" "length data < 2 ^ 34"
  shows "validateDerStructure data \<longleftrightarrow> isDerFormat data \<and> m \<le> length data"
proof -
  have u: "unat (of_nat m :: size) = m" "unat (of_nat (length data) :: size) = length data"
    using assms by (auto intro: of_nat_size)
  then have "(of_nat m :: size) \<noteq> 0" using assms(2) by (metis less_numeral_extra(3) unat_0)
  moreover have "(of_nat (length data) :: size) < of_nat m \<longleftrightarrow> length data < m"
    by (simp only: word_less_nat_alt u)
  ultimately show ?thesis by (simp add: validateDerStructure_def assms(1) Let_def not_less)
qed

lemma take_tlv:
  assumes "Suc (length (der_enc (length v))) \<le> n"
  shows "take n (tlv t v) = t # der_enc (length v) @ take (n - Suc (length (der_enc (length v)))) v"
  using assms by (cases n) (simp_all add: tlv_def)

text \<open>A DER structure that is whole is accepted, with any bytes after it, and its size is the one of the structure alone;
  one that is cut short is refused.\<close>

theorem der_structure_iff:
  assumes "2 \<le> length v" "length v < 65536" "length rest < 2 ^ 32"
  shows "validateDerStructure (tlv 0x30 v @ rest) \<and> getDerCertificateSize (tlv 0x30 v @ rest) = of_nat (length (tlv 0x30 v))
    \<and> (\<forall>n < length (tlv 0x30 v). \<not> validateDerStructure (take n (tlv 0x30 v)))"
proof (intro conjI allI impI)
  let ?k = "Suc (length (der_enc (length v)))"
  have k: "?k \<le> 4" using length_der_enc[of "length v"] by auto
  have len: "length (tlv 0x30 v) = ?k + length v" by (simp add: tlv_def)
  have size: "getDerCertificateSize (0x30 # der_enc (length v) @ xs) = of_nat (?k + length v)" for xs
    by (rule der_size) (use assms in auto)
  have whole: "getDerCertificateSize (tlv 0x30 v @ rest) = of_nat (?k + length v)"
    using size[of "v @ rest"] by (simp only: tlv_def append_Cons append_assoc)
  then show "getDerCertificateSize (tlv 0x30 v @ rest) = of_nat (length (tlv 0x30 v))" by (simp only: len)
  show "validateDerStructure (tlv 0x30 v @ rest)"
    using validate_size[OF whole] der_format_tlv[OF assms(1,2), of rest] k assms by (simp add: len)
  fix n assume n: "n < length (tlv 0x30 v)"
  show "\<not> validateDerStructure (take n (tlv 0x30 v))"
  proof (cases "n < 4")
    case True
    then have "\<not> isDerFormat (take n (tlv 0x30 v))" by (simp add: isDerFormat_def min_less_iff_disj)
    then show ?thesis by (simp add: validateDerStructure_def)
  next
    case False
    with k have "?k \<le> n" by simp
    with size have "getDerCertificateSize (take n (tlv 0x30 v)) = of_nat (?k + length v)" by (simp only: take_tlv)
    from validate_size[OF this] show ?thesis using k assms n by (simp add: len)
  qed
qed

lemma der_structure_iff_witness:
  "validateDerStructure (tlv 0x30 [0x02, 0x01] @ [0xFF]) \<and> getDerCertificateSize (tlv 0x30 [0x02, 0x01] @ [0xFF]) = 4
    \<and> (\<forall>n < 4. \<not> validateDerStructure (take n (tlv 0x30 [0x02, 0x01])))"
  using der_structure_iff[of "[0x02, 0x01]" "[0xFF]"] by (simp add: tlv_def der_enc_def)

text \<open>The parser returns a certificate exactly when the structure is valid and OpenSSL reads the bytes, and then this one;
  every other answer has a message.\<close>

theorem der_parse_iff:
  "let r = der_parse d2i err data in
     (dr_success r \<longleftrightarrow> validateDerStructure data \<and> d2i data \<noteq> None)
     \<and> (dr_success r \<longrightarrow> dr_certificate r = d2i data) \<and> (\<not> dr_success r \<longrightarrow> dr_certificate r = None \<and> dr_errorMessage r \<noteq> [])"
  by (auto simp: der_parse_def Let_def validateDerStructure_def isDerFormat_def split: option.split)

section \<open>Types of certificates\<close>

text \<open>The type follows from the extended key usage, the CA flag with keyCertSign and the comparison of the names, in this
  order; no certificate gets the type of a non conformant signer.\<close>

theorem detect_type_iff:
  "ci_type (detectType L (Some c)) =
     (if hasExtendedKeyUsage L c ''2.23.136.1.1.9'' then CT_MLSC
      else if hasExtendedKeyUsage L c ''2.23.136.1.1.10'' then CT_DL_SIGNER
      else if basic_constraints_ca L c = Some True \<and> hasKeyCertSign L c
      then (if subject_cmp_issuer L c = 0 then CT_CSCA else CT_LINK_CERT) else CT_DSC)"
  by (simp add: detectType_def Let_def isMasterListSigner_def isDeviationListSigner_def detect_isCA_def detect_isSelfSigned_def
      split: option.split)

text \<open>A signer of Master Lists or Deviation Lists with the key purpose the other components of the repository look for is taken for a
  document signer, unless it is a CA.\<close>

theorem list_signers_not_detected:
  assumes "eku_oids L c = Some [oid]" "oid = ''2.23.136.1.1.3'' \<or> oid = ''2.23.136.1.1.8''" "basic_constraints_ca L c \<noteq> Some True"
  shows "ci_type (detectType L (Some c)) = CT_DSC"
  using assms by (auto simp: detect_type_iff hasExtendedKeyUsage_def)

definition toy_ssl :: "int \<Rightarrow> (nat, nat, int) parser_ssl" where
  "toy_ssl cmp = \<lparr>subject_oneline = (\<lambda>_. Some ''/C=KR''), issuer_oneline = (\<lambda>_. Some ''/C=KR''), get_pubkey = (\<lambda>x. Some x),
     X509_verify = (\<lambda>x k. if x = k + 1 \<or> x = k then 1 else 0), not_before = (\<lambda>_. 0), not_after = (\<lambda>_. 100),
     X509_cmp_time = (\<lambda>t now. if t = 100 \<and> cmp = 0 then 0 else if t \<le> now then -1 else 1), ASN1_TIME_to_tm = (\<lambda>_. None),
     basic_constraints_ca = (\<lambda>_. None), key_usage = (\<lambda>_. None), X509_digest = (\<lambda>_. None), extensions = (\<lambda>_. []),
     serial_number = (\<lambda>_. None), ASN1_INTEGER_to_BN = (\<lambda>_. None), BN_bn2hex = (\<lambda>_. None), signature_nid = (\<lambda>_. NID_other 0),
     OBJ_nid2sn = (\<lambda>_. []), pkey_base_id = (\<lambda>_. EVP_PKEY_RSA), pkey_bits = (\<lambda>_. 0),
     subject_rfc2253 = (\<lambda>_. ''C=KR''), issuer_rfc2253 = (\<lambda>_. ''C=KR''), subject_country = (\<lambda>_. Some ''KR''),
     subject_cmp_issuer = (\<lambda>_. 1), eku_oids = (\<lambda>_. Some [''2.23.136.1.1.3'']), eku_names = (\<lambda>_. None), sigalg_name = (\<lambda>_. None),
     epoch_of = (\<lambda>_. 0)\<rparr>"

lemma list_signers_not_detected_witness: "ci_type (detectType (toy_ssl 1) (Some 5)) = CT_DSC"
  by (rule list_signers_not_detected[of _ _ "''2.23.136.1.1.3''"]) (simp_all add: toy_ssl_def)

section \<open>The validator\<close>

lemma steps_valid:
  assumes "\<And>r. sr_isValid (chain r) = sr_isValid r"
  shows "sr_isValid (validate_steps L now c i msg chain) \<longleftrightarrow>
     \<not> single_isExpired L now (Some c) \<and> \<not> single_isNotYetValid L now (Some c) \<and> verifySignature L (Some c) i"
  by (simp add: validate_steps_def Let_def checkExpiration_def checkSignature_def checkPurpose_def single_result0_def)

text \<open>C36. A certificate is valid with a chain exactly when it is in its validity period and the key of the first certificate of
  the chain verifies it (its own key when the chain is empty); the rest of the chain does not matter, yet the result says that the chain is valid
  with its full depth.\<close>

theorem single_chain_valid_iff:
  "(sr_isValid (validate_with_chain L now (Some c) (i # rest)) \<longleftrightarrow>
      \<not> single_isExpired L now (Some c) \<and> \<not> single_isNotYetValid L now (Some c) \<and> verifySignature L (Some c) (Some i))
   \<and> (sr_isValid (validate_with_chain L now (Some c) (i # rest)) \<longrightarrow>
        sr_trustChainValid (validate_with_chain L now (Some c) (i # rest))
        \<and> sr_trustChainDepth (validate_with_chain L now (Some c) (i # rest)) = Suc (length rest))
   \<and> (sr_isValid (validate_with_chain L now (Some c) []) \<longleftrightarrow>
      \<not> single_isExpired L now (Some c) \<and> \<not> single_isNotYetValid L now (Some c) \<and> verifySignature L (Some c) None)"
proof -
  have "sr_isValid (validate_with_chain L now (Some c) (i # rest)) \<longleftrightarrow>
      \<not> single_isExpired L now (Some c) \<and> \<not> single_isNotYetValid L now (Some c) \<and> verifySignature L (Some c) (Some i)"
    by (simp add: validate_with_chain_def steps_valid)
  moreover have "sr_trustChainValid (validate_with_chain L now (Some c) (i # rest))
        \<and> sr_trustChainDepth (validate_with_chain L now (Some c) (i # rest)) = Suc (length rest)"
    if "sr_isValid (validate_with_chain L now (Some c) (i # rest))"
    using that by (auto simp: validate_with_chain_def validate_steps_def Let_def checkExpiration_def checkSignature_def
        checkPurpose_def single_result0_def split: if_splits)
  ultimately show ?thesis by (simp add: validate_with_chain_def validate_alone_def steps_valid)
qed

lemma single_chain_valid_iff_witness:
  "sr_isValid (validate_with_chain (toy_ssl 1) 50 (Some 5) [5, 9])
     \<and> sr_trustChainDepth (validate_with_chain (toy_ssl 1) 50 (Some 5) [5, 9]) = 2"
proof -
  have "\<not> single_isExpired (toy_ssl 1) 50 (Some 5)" "\<not> single_isNotYetValid (toy_ssl 1) 50 (Some 5)"
    "verifySignature (toy_ssl 1) (Some 5) (Some 5)"
    by (simp_all add: single_isExpired_def single_isNotYetValid_def verifySignature_def toy_ssl_def)
  then show ?thesis using single_chain_valid_iff[of "toy_ssl 1" 50 5 5 "[9]"] by simp
qed

text \<open>A time that OpenSSL cannot compare never expires.\<close>

theorem unreadable_expiry_valid:
  assumes "X509_cmp_time L (not_after L c) now = 0" "X509_cmp_time L (not_before L c) now \<le> 0" "verifySignature L (Some c) None"
  shows "sr_status (validate_alone L now (Some c)) = SV_VALID"
  using assms by (simp add: validate_alone_def validate_steps_def Let_def checkExpiration_def checkSignature_def
      single_isExpired_def single_isNotYetValid_def single_result0_def)

lemma unreadable_expiry_valid_witness: "sr_status (validate_alone (toy_ssl 0) 500 (Some 5)) = SV_VALID"
  by (rule unreadable_expiry_valid) (simp_all add: toy_ssl_def verifySignature_def)

end
