(* ===== verification/Dl_Parser.thy ===== *)
theory Dl_Parser
  imports Cert_Files
begin

text \<open>
  Deviation Lists, \<^verbatim>\<open>src/shared/lib/certificate-parser/src/dl_parser.cpp\<close>: the walk over the DER structure of the list with
  its pointer and its counts of remaining bytes, and the members that fill the result.  OpenSSL's header reader, names, objects
  and CMS calls are the record \<open>dl_ssl\<close>.
\<close>

section \<open>The library calls\<close>

text \<open>\<^verbatim>\<open>ASN1_get_object\<close>: the bytes of the header beyond the first two, the tag, the class and the length; or an error,
  with the distance the pointer was moved.\<close>

datatype der_header = Header (h_beyond: nat) (h_tag: nat) (h_class: nat) (h_length: nat) | Bad_Header nat

record ('c, 'm, 's) dl_ssl =
  dl_header :: "byte list \<Rightarrow> int \<Rightarrow> der_header"
  dl_name :: "byte list \<Rightarrow> string option"
  dl_oid :: "byte list \<Rightarrow> string option"
  dl_cms :: "byte list \<Rightarrow> 'm option"
  dl_is_signed :: "'m \<Rightarrow> bool"
  dl_certs :: "'m \<Rightarrow> 'c list"
  dl_is_ca :: "'c \<Rightarrow> bool"
  dl_country :: "'c \<Rightarrow> string option"
  dl_org :: "'c \<Rightarrow> string option"
  dl_content :: "'m \<Rightarrow> byte list option"
  dl_behind :: "'m \<Rightarrow> byte list"
  dl_econtent_type :: "'m \<Rightarrow> string option"
  dl_signers :: "'m \<Rightarrow> 's option list"
  dl_digest_oid :: "'s \<Rightarrow> string option"
  dl_signature :: "'s \<Rightarrow> (string option \<times> string) option"
  dl_signing_tm :: "'s \<Rightarrow> tm option"
  dl_verify :: "'m \<Rightarrow> 'c \<Rightarrow> bool"

section \<open>The low level helpers\<close>

text \<open>A pointer is an index into the memory \<open>mem\<close>; the counts are signed.  \<open>Inl\<close> is a failure, with the pointer it leaves.\<close>

definition readTlv :: "('c, 'm, 's) dl_ssl \<Rightarrow> byte list \<Rightarrow> nat \<Rightarrow> int \<Rightarrow> nat + (nat \<times> int \<times> nat \<times> nat \<times> nat)" where
  "readTlv D mem p remaining =
     (if remaining \<le> 0 then Inl p
      else case dl_header D (drop p mem) remaining of
          Bad_Header n \<Rightarrow> Inl (p + n)
        | Header n tag tagClass contentLen \<Rightarrow> Inr (p + 2 + n, remaining - int (2 + n), tag, tagClass, contentLen))"

definition skipTlv :: "('c, 'm, 's) dl_ssl \<Rightarrow> byte list \<Rightarrow> nat \<Rightarrow> int \<Rightarrow> (nat \<times> int) option" where
  "skipTlv D mem p remaining =
     (case readTlv D mem p remaining of Inl _ \<Rightarrow> None
      | Inr (p, remaining, tag, tagClass, contentLen) \<Rightarrow>
          if remaining < int contentLen then None else Some (p + contentLen, remaining - int contentLen))"

definition readIntegerAsHex :: "byte list \<Rightarrow> string" where
  "readIntegerAsHex data = bytes_hex data"

definition readString :: "byte list \<Rightarrow> string" where
  "readString data = map char_of_byte data"

definition readOid :: "('c, 'm, 's) dl_ssl \<Rightarrow> byte list \<Rightarrow> string" where
  "readOid D data =
     (case dl_oid D ((0x06 # (if length data < 128 then [of_nat (length data)] else [0x81, of_nat (length data)])) @ data) of
        None \<Rightarrow> [] | Some txt \<Rightarrow> c_str (take 255 txt))"

text \<open>The bytes between a pointer and a length.\<close>

definition mem_at :: "byte list \<Rightarrow> nat \<Rightarrow> nat \<Rightarrow> byte list" where
  "mem_at mem p n = take n (drop p mem)"

definition classifyDeviationOid :: "string \<Rightarrow> string" where
  "classifyDeviationOid oid =
     (if str_find oid ''2.23.136.1.1.7.1'' 0 = Some 0 then ''CertOrKey''
      else if str_find oid ''2.23.136.1.1.7.2'' 0 = Some 0 then ''LDS''
      else if str_find oid ''2.23.136.1.1.7.3'' 0 = Some 0 then ''MRZ''
      else if str_find oid ''2.23.136.1.1.7.4'' 0 = Some 0 then ''Chip'' else ''Unknown'')"

definition oidToAlgorithmName :: "string \<Rightarrow> string" where
  "oidToAlgorithmName oid =
     (if oid = ''1.3.14.3.2.26'' then ''SHA-1''
      else if oid = ''2.16.840.1.101.3.4.2.1'' then ''SHA-256''
      else if oid = ''2.16.840.1.101.3.4.2.2'' then ''SHA-384''
      else if oid = ''2.16.840.1.101.3.4.2.3'' then ''SHA-512''
      else if oid = ''2.16.840.1.101.3.4.2.4'' then ''SHA-224''
      else if oid = ''1.2.840.113549.2.5'' then ''MD5'' else oid)"

section \<open>The deviations\<close>

record deviation =
  de_certificateIssuerDn :: string
  de_certificateSerialNumber :: string
  de_defectDescription :: string
  de_defectTypeOid :: string
  de_defectCategory :: string
  de_defectParameters :: "byte list"

text \<open>The elements of one defect, until the count is used up or a header cannot be read.\<close>

function defect_elements ::
  "('c, 'm, 's) dl_ssl \<Rightarrow> byte list \<Rightarrow> nat \<Rightarrow> int \<Rightarrow> deviation \<Rightarrow> nat \<times> deviation" where
  "defect_elements D mem p defectRemaining entry =
     (if defectRemaining \<le> 0 then (p, entry)
      else case readTlv D mem p defectRemaining of
          Inl p' \<Rightarrow> (p', entry)
        | Inr (p, defectRemaining, elemTag, elemClass, elemLen) \<Rightarrow>
            let entry =
              (if elemTag = 19 \<or> elemTag = 12 then entry\<lparr>de_defectDescription := readString (mem_at mem p elemLen)\<rparr>
               else if elemTag = 6 then
                 (let oid = readOid D (mem_at mem p elemLen)
                  in entry\<lparr>de_defectTypeOid := oid, de_defectCategory := classifyDeviationOid oid\<rparr>)
               else if odd (elemClass div 0x80) then entry\<lparr>de_defectParameters := mem_at mem p elemLen\<rparr>
               else entry)
            in defect_elements D mem (p + elemLen) (defectRemaining - int elemLen) entry)"
  by pat_completeness auto
termination
  by (relation "measure (\<lambda>(D, mem, p, defectRemaining, entry). nat defectRemaining)")
     (auto simp: readTlv_def split: if_splits der_header.splits)

declare defect_elements.simps [simp del]

text \<open>The defects of one signer: the count loses the headers only.\<close>

function defect_loop ::
  "('c, 'm, 's) dl_ssl \<Rightarrow> byte list \<Rightarrow> string \<Rightarrow> string \<Rightarrow> nat \<Rightarrow> nat \<Rightarrow> int \<Rightarrow> nat \<times> deviation list" where
  "defect_loop D mem issuerDn serialNumber defectsEnd p defectsRemaining =
     (if \<not> (p < defectsEnd \<and> 0 < defectsRemaining) then (p, [])
      else case readTlv D mem p defectsRemaining of
          Inl p' \<Rightarrow> (p', [])
        | Inr (p, defectsRemaining, tag, tagClass, contentLen) \<Rightarrow>
            if tag \<noteq> 16 then (p, [])
            else
              let (p, entry) = defect_elements D mem p (int contentLen)
                    \<lparr>de_certificateIssuerDn = issuerDn, de_certificateSerialNumber = serialNumber, de_defectDescription = [],
                     de_defectTypeOid = [], de_defectCategory = [], de_defectParameters = []\<rparr>;
                  (p, entries) = defect_loop D mem issuerDn serialNumber defectsEnd p defectsRemaining
              in (p, if de_defectTypeOid entry \<noteq> [] then entry # entries else entries))"
  by pat_completeness auto
termination
  by (relation "measure (\<lambda>(D, mem, issuerDn, serialNumber, defectsEnd, p, defectsRemaining). nat defectsRemaining)")
     (auto simp: readTlv_def split: if_splits der_header.splits)

declare defect_loop.simps [simp del]

text \<open>The issuer and the serial number inside the certificate identifier at \<open>p\<close> of \<open>ciRemaining\<close> bytes.\<close>

definition issuer_and_serial :: "('c, 'm, 's) dl_ssl \<Rightarrow> byte list \<Rightarrow> nat \<Rightarrow> nat \<Rightarrow> string \<times> string" where
  "issuer_and_serial D mem p ciRemaining =
     (case readTlv D mem p (int ciRemaining) of
        Inl _ \<Rightarrow> ([], [])
      | Inr (innerP, innerRem, innerTag, innerClass, innerLen) \<Rightarrow>
          if innerClass = 0xA0 \<or> innerTag = 1 \<and> odd (innerClass div 0x80) then
            let (issuerDn, isnP, isnRem) =
                  (case readTlv D mem innerP (int innerLen) of
                     Inl isnP \<Rightarrow> ([], isnP, int innerLen)
                   | Inr (isnP, isnRem, nameTag, nameClass, nameLen) \<Rightarrow>
                       if nameTag = 16 then
                         ((case dl_name D (mem_at mem innerP ((isnP - innerP) + nameLen)) of None \<Rightarrow> [] | Some n \<Rightarrow> n),
                          isnP + nameLen, isnRem - int nameLen)
                       else ([], isnP, isnRem));
                serialNumber =
                  (if 0 < isnRem then
                     (case readTlv D mem isnP isnRem of
                        Inl _ \<Rightarrow> []
                      | Inr (isnP, isnRem, serTag, serClass, serLen) \<Rightarrow>
                          if serTag = 2 \<and> 0 < serLen then readIntegerAsHex (mem_at mem isnP serLen) else [])
                   else [])
            in (issuerDn, serialNumber)
          else ([], []))"

text \<open>The loop over the signers; after the defects the pointer goes on by what the count of the signer still says.\<close>

function deviation_loop :: "('c, 'm, 's) dl_ssl \<Rightarrow> byte list \<Rightarrow> nat \<Rightarrow> nat \<Rightarrow> int \<Rightarrow> deviation list" where
  "deviation_loop D mem setEnd p setRemaining =
     (if \<not> (p < setEnd \<and> 0 < setRemaining) then []
      else case readTlv D mem p setRemaining of
          Inl _ \<Rightarrow> []
        | Inr (p, setRemaining, tag, _, sdLen) \<Rightarrow>
            if tag \<noteq> 16 then []
            else case readTlv D mem p (int sdLen) of
                Inl _ \<Rightarrow> []
              | Inr (p, sdRemaining, tag, _, ciRemaining) \<Rightarrow>
                  if tag \<noteq> 16 then []
                  else
                    let (issuerDn, serialNumber) = issuer_and_serial D mem p ciRemaining;
                        p = p + ciRemaining; sdRemaining = sdRemaining - int ciRemaining
                    in if sdRemaining \<le> 0 then []
                       else case readTlv D mem p sdRemaining of
                           Inl _ \<Rightarrow> []
                         | Inr (p, sdRemaining, tag, _, contentLen) \<Rightarrow>
                             if tag \<noteq> 17 then []
                             else
                               let (p, entries) = defect_loop D mem issuerDn serialNumber (p + contentLen) p (int contentLen)
                               in entries @
                                  (if 0 < sdRemaining
                                   then deviation_loop D mem setEnd (p + nat sdRemaining) (setRemaining - sdRemaining)
                                   else deviation_loop D mem setEnd p setRemaining))"
  by pat_completeness auto
termination
  by (relation "measure (\<lambda>(D, mem, setEnd, p, setRemaining). nat setRemaining)")
     (auto simp: readTlv_def split: if_splits der_header.splits)

declare deviation_loop.simps [simp del]

text \<open>The list: the outer sequence, the version, the hash algorithm, then the set.\<close>

definition deviations_at :: "('c, 'm, 's) dl_ssl \<Rightarrow> byte list \<Rightarrow> nat \<Rightarrow> deviation list" where
  "deviations_at D mem dataLen =
     (case readTlv D mem 0 (int dataLen) of
        Inl _ \<Rightarrow> []
      | Inr (p, _, tag, _, remaining) \<Rightarrow>
          if tag \<noteq> 16 then []
          else case readTlv D mem p (int remaining) of
              Inl _ \<Rightarrow> []
            | Inr (p, remaining, tag, _, contentLen) \<Rightarrow>
                if tag \<noteq> 2 then []
                else case skipTlv D mem (p + contentLen) (remaining - int contentLen) of
                    None \<Rightarrow> []
                  | Some (p, remaining) \<Rightarrow>
                      (case readTlv D mem p remaining of
                         Inl _ \<Rightarrow> []
                       | Inr (p, _, tag, _, setLen) \<Rightarrow>
                           if tag \<noteq> 17 then [] else deviation_loop D mem (p + setLen) p (int setLen)))"

definition extractDeviationsFromCms :: "('c, 'm, 's) dl_ssl \<Rightarrow> 'm \<Rightarrow> deviation list" where
  "extractDeviationsFromCms D cms =
     (case dl_content D cms of None \<Rightarrow> []
      | Some data \<Rightarrow> if data = [] then [] else deviations_at D (data @ dl_behind D cms) (length data))"

text \<open>Version and hash algorithm; the version is the first byte of the integer.\<close>

definition metadata_at :: "('c, 'm, 's) dl_ssl \<Rightarrow> byte list \<Rightarrow> nat \<Rightarrow> int \<times> string" where
  "metadata_at D mem dataLen =
     (case readTlv D mem 0 (int dataLen) of
        Inl _ \<Rightarrow> (0, [])
      | Inr (p, _, tag, _, remaining) \<Rightarrow>
          if tag \<noteq> 16 then (0, [])
          else case readTlv D mem p (int remaining) of
              Inl _ \<Rightarrow> (0, [])
            | Inr (p, remaining, tag, _, contentLen) \<Rightarrow>
                if tag \<noteq> 2 then (0, [])
                else
                  let version = (if 0 < contentLen then (case mem_at mem p 1 of [] \<Rightarrow> 0 | b # _ \<Rightarrow> uint b) else 0) in
                  case readTlv D mem (p + contentLen) (remaining - int contentLen) of
                    Inl _ \<Rightarrow> (version, [])
                  | Inr (p, _, tag, _, algoRemaining) \<Rightarrow>
                      if tag \<noteq> 16 then (version, [])
                      else case readTlv D mem p (int algoRemaining) of
                          Inl _ \<Rightarrow> (version, [])
                        | Inr (p, _, tag, _, contentLen) \<Rightarrow>
                            if tag = 6 \<and> 0 < contentLen
                            then (version, oidToAlgorithmName (readOid D (mem_at mem p contentLen))) else (version, []))"

definition extractContentMetadata :: "('c, 'm, 's) dl_ssl \<Rightarrow> 'm \<Rightarrow> int \<times> string" where
  "extractContentMetadata D cms =
     (case dl_content D cms of None \<Rightarrow> (0, [])
      | Some data \<Rightarrow> if data = [] then (0, []) else metadata_at D (data @ dl_behind D cms) (length data))"

section \<open>The result\<close>

record 'c dl_result =
  dp_success :: bool
  dp_errorMessage :: string
  dp_version :: int
  dp_hashAlgorithm :: string
  dp_signingTime :: string
  dp_issuerCountry :: string
  dp_issuerOrg :: "string option"
  dp_cmsVersion :: int
  dp_cmsDigestAlgorithm :: string
  dp_cmsSignatureAlgorithm :: string
  dp_eContentType :: string
  dp_signerCertificate :: "'c option"
  dp_signatureVerified :: bool
  dp_deviations :: "deviation list"
  dp_certificates :: "'c list"

definition dl_result0 :: "'c dl_result" where
  "dl_result0 = \<lparr>dp_success = False, dp_errorMessage = [], dp_version = 0, dp_hashAlgorithm = [], dp_signingTime = [],
     dp_issuerCountry = [], dp_issuerOrg = None, dp_cmsVersion = 0, dp_cmsDigestAlgorithm = [], dp_cmsSignatureAlgorithm = [],
     dp_eContentType = [], dp_signerCertificate = None, dp_signatureVerified = False, dp_deviations = [], dp_certificates = []\<rparr>"

definition containsDlOid :: "byte list \<Rightarrow> bool" where
  "containsDlOid data = (length dlOid \<le> length data \<and> str_find data dlOid 0 \<noteq> None)"

text \<open>The first certificate that is not a CA, or the first one.\<close>

definition extractSignerCertificateFromCms :: "('c, 'm, 's) dl_ssl \<Rightarrow> 'm \<Rightarrow> 'c option" where
  "extractSignerCertificateFromCms D cms =
     (case find (\<lambda>c. \<not> dl_is_ca D c) (dl_certs D cms) of
        Some c \<Rightarrow> Some c
      | None \<Rightarrow> (case dl_certs D cms of [] \<Rightarrow> None | c # _ \<Rightarrow> Some c))"

definition extractCertificatesFromCms :: "('c, 'm, 's) dl_ssl \<Rightarrow> 'm \<Rightarrow> 'c list" where
  "extractCertificatesFromCms D cms = dl_certs D cms"

text \<open>\<^verbatim>\<open>snprintf\<close> with four digits of the year and two of the rest.\<close>

definition dl_time_text :: "tm \<Rightarrow> string" where
  "dl_time_text t = take 31 (pad0 4 (int_dec (tm_year t + 1900)) @ ''-'' @ pad0 2 (int_dec (tm_mon t + 1)) @ ''-'' @ pad0 2 (int_dec (tm_mday t))
     @ '' '' @ pad0 2 (int_dec (tm_hour t)) @ '':'' @ pad0 2 (int_dec (tm_min t)) @ '':'' @ pad0 2 (int_dec (tm_sec t)))"

definition dl_extractSigningTime :: "('c, 'm, 's) dl_ssl \<Rightarrow> 'm \<Rightarrow> string" where
  "dl_extractSigningTime D cms =
     (case dl_signers D cms of
        Some si # _ \<Rightarrow> (case dl_signing_tm D si of None \<Rightarrow> [] | Some t \<Rightarrow> dl_time_text t)
      | _ \<Rightarrow> [])"

definition verifyCmsSignature :: "('c, 'm, 's) dl_ssl \<Rightarrow> 'm \<Rightarrow> 'c option \<Rightarrow> bool" where
  "verifyCmsSignature D cms signerCert = (case signerCert of None \<Rightarrow> False | Some c \<Rightarrow> dl_verify D cms c)"

definition or_text :: "string option \<Rightarrow> string" where
  "or_text v = (case v of None \<Rightarrow> [] | Some s \<Rightarrow> s)"

definition signer_metadata :: "('c, 'm, 's) dl_ssl \<Rightarrow> 'm \<Rightarrow> 'c dl_result \<Rightarrow> 'c dl_result" where
  "signer_metadata D cms r =
     (let r = r\<lparr>dp_signerCertificate := extractSignerCertificateFromCms D cms\<rparr> in
      case dp_signerCertificate r of None \<Rightarrow> r
      | Some c \<Rightarrow>
          let org = or_text (dl_org D c) in
          r\<lparr>dp_issuerCountry := or_text (dl_country D c), dp_issuerOrg := (if org \<noteq> [] then Some org else dp_issuerOrg r)\<rparr>)"

definition cms_metadata :: "('c, 'm, 's) dl_ssl \<Rightarrow> 'm \<Rightarrow> 'c dl_result \<Rightarrow> 'c dl_result" where
  "cms_metadata D cms r =
     (let r = (case dl_econtent_type D cms of None \<Rightarrow> r | Some t \<Rightarrow> r\<lparr>dp_eContentType := c_str (take 127 t)\<rparr>) in
      case dl_signers D cms of
        Some si # _ \<Rightarrow>
          (let r = (case dl_digest_oid D si of None \<Rightarrow> r
                    | Some oid \<Rightarrow> r\<lparr>dp_cmsDigestAlgorithm := oidToAlgorithmName (c_str (take 127 oid))\<rparr>)
           in case dl_signature D si of None \<Rightarrow> r
              | Some (Some sn, oid) \<Rightarrow> r\<lparr>dp_cmsSignatureAlgorithm := sn\<rparr>
              | Some (None, oid) \<Rightarrow> r\<lparr>dp_cmsSignatureAlgorithm := c_str (take 127 oid)\<rparr>)
      | _ \<Rightarrow> r)"

definition dl_parse :: "('c, 'm, 's) dl_ssl \<Rightarrow> byte list \<Rightarrow> 'c dl_result" where
  "dl_parse D data =
     (if data = [] then dl_result0\<lparr>dp_errorMessage := ''Empty data''\<rparr>
      else if \<not> containsDlOid data then dl_result0\<lparr>dp_errorMessage := ''DL OID (2.23.136.1.1.7) not found''\<rparr>
      else case dl_cms D data of
          None \<Rightarrow> dl_result0\<lparr>dp_errorMessage := ''Failed to parse CMS ContentInfo structure''\<rparr>
        | Some cms \<Rightarrow>
            if \<not> dl_is_signed D cms then dl_result0\<lparr>dp_errorMessage := ''Not a CMS SignedData structure''\<rparr>
            else
              let r = signer_metadata D cms dl_result0;
                  (version, hashAlgorithm) = extractContentMetadata D cms;
                  r = cms_metadata D cms (r\<lparr>dp_version := version, dp_hashAlgorithm := hashAlgorithm\<rparr>)
              in r\<lparr>dp_signingTime := dl_extractSigningTime D cms,
                   dp_signatureVerified := verifyCmsSignature D cms (dp_signerCertificate r),
                   dp_deviations := extractDeviationsFromCms D cms, dp_certificates := extractCertificatesFromCms D cms,
                   dp_success := True\<rparr>)"

section \<open>Encoded lists\<close>

definition tag_no :: "byte \<Rightarrow> nat" where "tag_no t = unat (t AND 0x1F)"
definition tag_class :: "byte \<Rightarrow> nat" where "tag_class t = unat (t AND 0xC0)"

lemma tag_facts [simp]:
  "tag_no 0x13 = 19" "tag_no 0x06 = 6" "tag_no 0x30 = 16" "tag_no 0x31 = 17" "tag_no 0x02 = 2" "tag_no 0xA0 = 0" "tag_no 0xA1 = 1"
  "tag_class 0xA0 = 128" "tag_class 0xA1 = 128" "tag_class 0x30 = 0" "tag_class 0x31 = 0" "tag_class 0x02 = 0"
  "tag_class 0x06 = 0" "tag_class 0x13 = 0"
  by (simp_all add: tag_no_def tag_class_def)

text \<open>The documented behaviour of \<^verbatim>\<open>ASN1_get_object\<close> on an encoding with one byte of tag that fits into the count.\<close>

definition reads_der :: "('c, 'm, 's) dl_ssl \<Rightarrow> bool" where
  "reads_der D \<longleftrightarrow> (\<forall>t v rest r. length v < 65536 \<longrightarrow> tag_no t \<noteq> 31 \<longrightarrow> int (length (tlv t v)) \<le> r \<longrightarrow>
     dl_header D (tlv t v @ rest) r = Header (length (der_enc (length v)) - 1) (tag_no t) (tag_class t) (length v))"

abbreviation hdr :: "byte list \<Rightarrow> nat" where
  "hdr v \<equiv> Suc (length (der_enc (length v)))"

lemma length_tlv: "length (tlv t v) = hdr v + length v"
  by (simp add: tlv_def)

lemma readTlv_tlv:
  assumes "reads_der D" "drop p mem = tlv t v @ rest" "length v < 65536" "tag_no t \<noteq> 31" "int (hdr v + length v) \<le> r"
  shows "readTlv D mem p r = Inr (p + hdr v, r - int (hdr v), tag_no t, tag_class t, length v)"
proof -
  have "dl_header D (tlv t v @ rest) r
      = Header (length (der_enc (length v)) - 1) (tag_no t) (tag_class t) (length v)"
    using assms(1,3,4,5) unfolding reads_der_def length_tlv by blast
  moreover have "0 < length (der_enc (length v))" using length_der_enc[of "length v"] by auto
  ultimately show ?thesis using assms(2,5) by (simp add: readTlv_def)
qed

lemma drop_tlv_content: "drop p mem = tlv t v @ rest \<Longrightarrow> drop (p + hdr v) mem = v @ rest"
  by (metis (no_types, lifting) add.commute append.assoc append_eq_conv_conj drop_drop length_Cons tlv_def append_Cons)

lemma drop_content: "drop p mem = v @ rest \<Longrightarrow> drop (p + length v) mem = rest"
  by (metis add.commute append_eq_conv_conj drop_drop)

lemma mem_at_content: "drop p mem = v @ rest \<Longrightarrow> mem_at mem p (length v) = v"
  by (simp add: mem_at_def)

text \<open>A defect: a description, the object of its type and perhaps parameters.\<close>

type_synonym defect = "byte list \<times> byte list \<times> byte list option"

definition defect_body :: "defect \<Rightarrow> byte list" where
  "defect_body d = (case d of (desc, oid, params) \<Rightarrow>
     tlv 0x13 desc @ tlv 0x06 oid @ (case params of None \<Rightarrow> [] | Some v \<Rightarrow> tlv 0xA0 v))"

definition defect_enc :: "defect \<Rightarrow> byte list" where
  "defect_enc d = tlv 0x30 (defect_body d)"

definition defects_body :: "defect list \<Rightarrow> byte list" where
  "defects_body ds = concat (map defect_enc ds)"

type_synonym signer_deviation = "byte list \<times> byte list \<times> defect list"

definition signer_body :: "signer_deviation \<Rightarrow> byte list" where
  "signer_body s = (case s of (issuer, sn, ds) \<Rightarrow>
     tlv 0x30 (tlv 0xA1 (tlv 0x30 issuer @ tlv 0x02 sn)) @ tlv 0x31 (defects_body ds))"

definition signer_enc :: "signer_deviation \<Rightarrow> byte list" where
  "signer_enc s = tlv 0x30 (signer_body s)"

definition list_body :: "byte list \<Rightarrow> byte list \<Rightarrow> signer_deviation list \<Rightarrow> byte list" where
  "list_body version alg ss = tlv 0x02 version @ tlv 0x30 alg @ tlv 0x31 (concat (map signer_enc ss))"

definition list_enc :: "byte list \<Rightarrow> byte list \<Rightarrow> signer_deviation list \<Rightarrow> byte list" where
  "list_enc version alg ss = tlv 0x30 (list_body version alg ss)"

text \<open>What the parser should report for a defect of a signer.\<close>

definition entry_of :: "('c, 'm, 's) dl_ssl \<Rightarrow> string \<Rightarrow> string \<Rightarrow> defect \<Rightarrow> deviation" where
  "entry_of D issuerDn sn d = (case d of (desc, oid, params) \<Rightarrow>
     \<lparr>de_certificateIssuerDn = issuerDn, de_certificateSerialNumber = sn, de_defectDescription = map char_of_byte desc,
      de_defectTypeOid = readOid D oid, de_defectCategory = classifyDeviationOid (readOid D oid),
      de_defectParameters = (case params of None \<Rightarrow> [] | Some v \<Rightarrow> v)\<rparr>)"

definition entries_of :: "('c, 'm, 's) dl_ssl \<Rightarrow> signer_deviation \<Rightarrow> deviation list" where
  "entries_of D s = (case s of (issuer, sn, ds) \<Rightarrow>
     map (entry_of D (or_text (dl_name D (tlv 0x30 issuer))) (bytes_hex sn)) (filter (\<lambda>(_, oid, _). readOid D oid \<noteq> []) ds))"

section \<open>Reading what was encoded\<close>

lemma elements_done: "defect_elements D mem p 0 e = (p, e)"
  by (subst defect_elements.simps) simp

lemma elements_step:
  assumes "reads_der D" "drop p mem = tlv t v @ rest" "length v < 65536" "tag_no t \<noteq> 31" "int (hdr v + length v) \<le> r"
  shows "defect_elements D mem p r e = defect_elements D mem (p + hdr v + length v) (r - int (hdr v + length v))
     (if tag_no t \<in> {19, 12} then e\<lparr>de_defectDescription := readString v\<rparr>
      else if tag_no t = 6 then e\<lparr>de_defectTypeOid := readOid D v, de_defectCategory := classifyDeviationOid (readOid D v)\<rparr>
      else if odd (tag_class t div 0x80) then e\<lparr>de_defectParameters := v\<rparr> else e)"
proof -
  have "\<not> r \<le> 0" using assms(5) by simp
  moreover have "mem_at mem (p + hdr v) (length v) = v"
    by (rule mem_at_content[OF drop_tlv_content[OF assms(2)]])
  ultimately show ?thesis
    by (subst defect_elements.simps) (simp add: readTlv_tlv[OF assms] Let_def algebra_simps)
qed

lemma elements_defect:
  assumes "reads_der D" "drop p mem = defect_body d @ rest" "length (defect_body d) < 65536"
  shows "defect_elements D mem p (int (length (defect_body d)))
      \<lparr>de_certificateIssuerDn = n, de_certificateSerialNumber = sn, de_defectDescription = [], de_defectTypeOid = [],
       de_defectCategory = [], de_defectParameters = []\<rparr> = (p + length (defect_body d), entry_of D n sn d)"
proof -
  obtain desc oid params where d: "d = (desc, oid, params)" by (cases d) auto
  let ?ps = "case params of None \<Rightarrow> [] | Some v \<Rightarrow> tlv 0xA0 v"
  let ?q = "p + hdr desc + length desc"
  have body: "defect_body d = tlv 0x13 desc @ tlv 0x06 oid @ ?ps" by (simp add: d defect_body_def)
  have m1: "drop p mem = tlv 0x13 desc @ (tlv 0x06 oid @ ?ps @ rest)" using assms(2) by (simp add: body)
  have m2: "drop ?q mem = tlv 0x06 oid @ (?ps @ rest)"
    using drop_content[OF m1] by (simp add: length_tlv algebra_simps)
  have m3: "drop (?q + hdr oid + length oid) mem = ?ps @ rest"
    using drop_content[OF m2] by (simp add: length_tlv algebra_simps)
  have len: "length (defect_body d) = hdr desc + length desc + (hdr oid + length oid) + length ?ps"
    by (simp add: body length_tlv)
  have l1: "length desc < 65536" "length oid < 65536" using assms(3) len by simp_all
  show ?thesis
  proof (cases params)
    case None
    then show ?thesis
      using elements_step[OF assms(1) m1 l1(1), of "int (length (defect_body d))"]
        elements_step[OF assms(1) m2 l1(2), of "int (hdr oid + length oid)"] len
      by (simp add: readString_def entry_of_def d elements_done algebra_simps)
  next
    case (Some v)
    have l2: "length v < 65536" using assms(3) len Some by (simp add: length_tlv)
    have m3': "drop (?q + hdr oid + length oid) mem = tlv 0xA0 v @ rest" using m3 Some by simp
    show ?thesis
      using Some elements_step[OF assms(1) m1 l1(1), of "int (length (defect_body d))"]
        elements_step[OF assms(1) m2 l1(2), of "int (hdr oid + length oid + (hdr v + length v))"]
        elements_step[OF assms(1) m3' l2, of "int (hdr v + length v)"] len
      by (simp add: readString_def entry_of_def d elements_done length_tlv algebra_simps)
  qed
qed

lemma loop_defects:
  assumes "reads_der D" "drop p mem = defects_body ds @ rest" "length (defects_body ds) < 65536"
    "int (length (defects_body ds)) \<le> r" "e = p + length (defects_body ds)"
  shows "defect_loop D mem n sn e p r = (e, map (entry_of D n sn) (filter (\<lambda>(_, oid, _). readOid D oid \<noteq> []) ds))"
  using assms(2-)
proof (induction ds arbitrary: p r)
  case Nil
  then show ?case by (subst defect_loop.simps) (simp add: defects_body_def)
next
  case (Cons d ds)
  let ?b = "defect_body d"
  have m: "drop p mem = tlv 0x30 ?b @ (defects_body ds @ rest)"
    using Cons.prems(1) by (simp add: defects_body_def defect_enc_def)
  have len: "length (defects_body (d # ds)) = hdr ?b + length ?b + length (defects_body ds)"
    by (simp add: defects_body_def defect_enc_def length_tlv)
  have lb: "length ?b < 65536" "length (defects_body ds) < 65536" using Cons.prems(2) len by simp_all
  have r: "int (hdr ?b + length ?b) \<le> r" "0 < r" using Cons.prems(3) len by simp_all
  have m2: "drop (p + hdr ?b) mem = ?b @ (defects_body ds @ rest)" by (rule drop_tlv_content[OF m])
  have m3: "drop (p + hdr ?b + length ?b) mem = defects_body ds @ rest" by (rule drop_content[OF m2])
  have rest: "defect_loop D mem n sn e (p + hdr ?b + length ?b) (r - int (hdr ?b)) =
      (e, map (entry_of D n sn) (filter (\<lambda>(_, oid, _). readOid D oid \<noteq> []) ds))"
    by (rule Cons.IH[OF m3 lb(2)]) (use Cons.prems(3,4) len in simp_all)
  have lt: "p < e" using Cons.prems(4) len by simp
  have "readTlv D mem p r = Inr (p + hdr ?b, r - int (hdr ?b), 16, 0, length ?b)"
    using readTlv_tlv[OF assms(1) m lb(1) _ r(1)] by simp
  moreover have "(de_defectTypeOid (entry_of D n sn d) \<noteq> []) = (case d of (_, oid, _) \<Rightarrow> readOid D oid \<noteq> [])"
    by (cases d) (simp add: entry_of_def)
  ultimately show ?case
    using lt r(2) elements_defect[OF assms(1) m2 lb(1), of n sn] rest
    by (subst defect_loop.simps) (simp add: Let_def)
qed

lemma issuer_serial_read:
  assumes "reads_der D" "drop p mem = tlv 0xA1 (tlv 0x30 issuer @ tlv 0x02 sn) @ rest"
    "k = length (tlv 0xA1 (tlv 0x30 issuer @ tlv 0x02 sn))" "k < 65536"
  shows "issuer_and_serial D mem p k = (or_text (dl_name D (tlv 0x30 issuer)), bytes_hex sn)"
proof -
  let ?in = "tlv 0x30 issuer @ tlv 0x02 sn"
  have len: "length ?in = hdr issuer + length issuer + (hdr sn + length sn)" by (simp add: length_tlv)
  have k: "k = hdr ?in + length ?in" using assms(3) by (simp only: length_tlv)
  have l: "length ?in < 65536" "length issuer < 65536" "length sn < 65536" using assms(4) k len by simp_all
  let ?p1 = "p + hdr ?in"
  let ?p2 = "?p1 + hdr issuer"
  let ?p3 = "?p2 + length issuer"
  have m1: "drop ?p1 mem = tlv 0x30 issuer @ (tlv 0x02 sn @ rest)" using drop_tlv_content[OF assms(2)] by simp
  have m2: "drop ?p2 mem = issuer @ (tlv 0x02 sn @ rest)" by (rule drop_tlv_content[OF m1])
  have m3: "drop ?p3 mem = tlv 0x02 sn @ rest" by (rule drop_content[OF m2])
  have m4: "drop (?p3 + hdr sn) mem = sn @ rest" by (rule drop_tlv_content[OF m3])
  have name: "mem_at mem ?p1 (hdr issuer + length issuer) = tlv 0x30 issuer"
    using mem_at_content[OF m1] by (simp only: length_tlv)
  have r1: "readTlv D mem p (int k) = Inr (?p1, int (length ?in), 1, 128, length ?in)"
    using readTlv_tlv[OF assms(1,2) l(1), of "int k"] k by simp
  have r2: "readTlv D mem ?p1 (int (length ?in)) = Inr (?p2, int (length issuer + (hdr sn + length sn)), 16, 0, length issuer)"
    using readTlv_tlv[OF assms(1) m1 l(2), of "int (length ?in)"] len by (simp add: length_tlv)
  have r3: "readTlv D mem ?p3 (int (hdr sn + length sn)) = Inr (?p3 + hdr sn, int (length sn), 2, 0, length sn)"
    using readTlv_tlv[OF assms(1) m3 l(3), of "int (hdr sn + length sn)"] by simp
  have pos: "0 < int (hdr sn + length sn)" by simp
  have diff: "int (length issuer + (hdr sn + length sn)) - int (length issuer) = int (hdr sn + length sn)" by simp
  have sub: "?p2 - ?p1 = hdr issuer" by simp
  show ?thesis
    unfolding issuer_and_serial_def r1 sum.case prod.case r2 diff sub name
    using r3 mem_at_content[OF m4]
    by (simp add: readIntegerAsHex_def or_text_def bytes_hex_def algebra_simps split: option.split)
qed

text \<open>One turn of the loop over the signers: it reports the signer and then leaves out as many bytes as its defects take.\<close>

lemma loop_signer:
  assumes "reads_der D" "drop p mem = signer_enc s @ rest" "length (signer_enc s) < 65536" "int (length (signer_enc s)) \<le> r"
    "p < e" "k = length (defects_body (snd (snd s)))"
  shows "deviation_loop D mem e p r = entries_of D s @
     deviation_loop D mem e (p + length (signer_enc s) + k) (r - int (hdr (signer_body s)) - int k)"
proof -
  obtain issuer sn ds where s: "s = (issuer, sn, ds)" by (cases s) auto
  let ?b = "signer_body s" and ?in = "tlv 0xA1 (tlv 0x30 issuer @ tlv 0x02 sn)" and ?ds = "defects_body ds"
  let ?p1 = "p + hdr ?b"
  let ?p2 = "?p1 + hdr ?in"
  let ?p3 = "?p2 + length ?in"
  let ?p4 = "?p3 + hdr ?ds"
  have k: "k = length ?ds" using assms(6) s by simp
  have b: "?b = tlv 0x30 ?in @ tlv 0x31 ?ds" by (simp add: s signer_body_def)
  have lb: "length ?b = hdr ?in + length ?in + (hdr ?ds + length ?ds)" by (simp only: b length_append length_tlv)
  have le: "length (signer_enc s) = hdr ?b + length ?b" by (simp only: signer_enc_def length_tlv)
  have l: "length ?b < 65536" "length ?in < 65536" "length ?ds < 65536" using assms(3) le lb by simp_all
  have m0: "drop p mem = tlv 0x30 ?b @ rest" using assms(2) by (simp only: signer_enc_def)
  have m1: "drop ?p1 mem = tlv 0x30 ?in @ (tlv 0x31 ?ds @ rest)" using drop_tlv_content[OF m0] b by simp
  have m2: "drop ?p2 mem = ?in @ (tlv 0x31 ?ds @ rest)" by (rule drop_tlv_content[OF m1])
  have m3: "drop ?p3 mem = tlv 0x31 ?ds @ rest" by (rule drop_content[OF m2])
  have m4: "drop ?p4 mem = ?ds @ rest" by (rule drop_tlv_content[OF m3])
  have r0: "readTlv D mem p r = Inr (?p1, r - int (hdr ?b), 16, 0, length ?b)"
    using readTlv_tlv[OF assms(1) m0 l(1), of r] assms(4) le by simp
  have r1: "readTlv D mem ?p1 (int (length ?b)) = Inr (?p2, int (length ?in + (hdr ?ds + length ?ds)), 16, 0, length ?in)"
    using readTlv_tlv[OF assms(1) m1 l(2), of "int (length ?b)"] lb by simp
  have r2: "readTlv D mem ?p3 (int (hdr ?ds + length ?ds)) = Inr (?p4, int (length ?ds), 17, 0, length ?ds)"
    using readTlv_tlv[OF assms(1) m3 l(3), of "int (hdr ?ds + length ?ds)"] by simp
  have pos: "0 < r" using assms(4) le by simp
  have i: "issuer_and_serial D mem ?p2 (length ?in) = (or_text (dl_name D (tlv 0x30 issuer)), bytes_hex sn)"
    by (rule issuer_serial_read[OF assms(1) m2 refl l(2)])
  have d: "defect_loop D mem (or_text (dl_name D (tlv 0x30 issuer))) (bytes_hex sn) (?p4 + length ?ds) ?p4 (int (length ?ds))
      = (?p4 + length ?ds, entries_of D s)"
    using loop_defects[OF assms(1) m4 l(3), of "int (length ?ds)" "?p4 + length ?ds"] by (simp add: entries_of_def s)
  have sd: "int (length ?in + (hdr ?ds + length ?ds)) - int (length ?in) = int (hdr ?ds + length ?ds)" by simp
  have pos2: "\<not> int (hdr ?ds + length ?ds) \<le> 0" by simp
  have q: "?p4 + length ?ds = p + length (signer_enc s)" by (simp only: le lb ac_simps)
  have "deviation_loop D mem e p r = entries_of D s @
      (if 0 < int (length ?ds) then deviation_loop D mem e (?p4 + length ?ds + nat (int (length ?ds))) (r - int (hdr ?b) - int (length ?ds))
       else deviation_loop D mem e (?p4 + length ?ds) (r - int (hdr ?b)))"
    by (subst deviation_loop.simps) (simp only: assms(5) pos r0 r1 i sum.case prod.case Let_def sd r2 d pos2 simp_thms if_True if_False
        refl de_Morgan_conj not_True_eq_False)
  from this[unfolded q] show ?thesis by (simp add: k del: append_same_eq same_append_eq)
qed

lemma deviations_loop:
  assumes "reads_der D" "length (list_body version alg ss) < 65536" "mem = list_enc version alg ss @ behind"
  shows "\<exists>p. deviations_at D mem (length (list_enc version alg ss))
      = deviation_loop D mem (p + length (concat (map signer_enc ss))) p (int (length (concat (map signer_enc ss))))
     \<and> drop p mem = concat (map signer_enc ss) @ behind"
proof -
  let ?b = "list_body version alg ss" and ?ss = "concat (map signer_enc ss)"
  let ?p1 = "hdr ?b"
  let ?p2 = "?p1 + hdr version"
  let ?p3 = "?p2 + length version"
  let ?p4 = "?p3 + hdr alg"
  let ?p5 = "?p4 + length alg"
  let ?p6 = "?p5 + hdr ?ss"
  have b: "?b = tlv 0x02 version @ tlv 0x30 alg @ tlv 0x31 ?ss" by (simp add: list_body_def)
  have lb: "length ?b = hdr version + length version + (hdr alg + length alg + (hdr ?ss + length ?ss))"
    by (simp only: b length_append length_tlv)
  have l: "length version < 65536" "length alg < 65536" "length ?ss < 65536" using assms(2) lb by simp_all
  have le: "length (list_enc version alg ss) = hdr ?b + length ?b" by (simp only: list_enc_def length_tlv)
  have m0: "drop 0 mem = tlv 0x30 ?b @ behind" by (simp add: assms(3) list_enc_def)
  have m1: "drop ?p1 mem = tlv 0x02 version @ (tlv 0x30 alg @ tlv 0x31 ?ss @ behind)" using drop_tlv_content[OF m0] b by simp
  have m2: "drop ?p2 mem = version @ (tlv 0x30 alg @ tlv 0x31 ?ss @ behind)" by (rule drop_tlv_content[OF m1])
  have m3: "drop ?p3 mem = tlv 0x30 alg @ (tlv 0x31 ?ss @ behind)" by (rule drop_content[OF m2])
  have m4: "drop ?p4 mem = alg @ (tlv 0x31 ?ss @ behind)" by (rule drop_tlv_content[OF m3])
  have m5: "drop ?p5 mem = tlv 0x31 ?ss @ behind" by (rule drop_content[OF m4])
  have m6: "drop ?p6 mem = ?ss @ behind" by (rule drop_tlv_content[OF m5])
  have r0: "readTlv D mem 0 (int (length (list_enc version alg ss))) = Inr (?p1, int (length ?b), 16, 0, length ?b)"
    using readTlv_tlv[OF assms(1) m0 assms(2), of "int (length (list_enc version alg ss))"] le by simp
  have r1: "readTlv D mem ?p1 (int (length ?b)) =
      Inr (?p2, int (length version + (hdr alg + length alg + (hdr ?ss + length ?ss))), 2, 0, length version)"
    using readTlv_tlv[OF assms(1) m1 l(1), of "int (length ?b)"] lb by simp
  have diff: "int (length version + (hdr alg + length alg + (hdr ?ss + length ?ss))) - int (length version)
      = int (hdr alg + length alg + (hdr ?ss + length ?ss))" by simp
  have r2: "skipTlv D mem ?p3 (int (hdr alg + length alg + (hdr ?ss + length ?ss))) = Some (?p5, int (hdr ?ss + length ?ss))"
    using readTlv_tlv[OF assms(1) m3 l(2), of "int (hdr alg + length alg + (hdr ?ss + length ?ss))"] by (simp add: skipTlv_def)
  have r3: "readTlv D mem ?p5 (int (hdr ?ss + length ?ss)) = Inr (?p6, int (length ?ss), 17, 0, length ?ss)"
    using readTlv_tlv[OF assms(1) m5 l(3), of "int (hdr ?ss + length ?ss)"] by simp
  have "deviations_at D mem (length (list_enc version alg ss)) = deviation_loop D mem (?p6 + length ?ss) ?p6 (int (length ?ss))"
    unfolding deviations_at_def r0 sum.case prod.case r1 diff r2 option.case r3 by simp
  with m6 show ?thesis by blast
qed

section \<open>A header reader\<close>

definition sized_header :: "byte \<Rightarrow> int \<Rightarrow> nat \<Rightarrow> nat \<Rightarrow> der_header" where
  "sized_header t r n len = (if r < int (2 + n + len) then Bad_Header (2 + n) else Header n (tag_no t) (tag_class t) len)"

definition plain_header :: "byte list \<Rightarrow> int \<Rightarrow> der_header" where
  "plain_header bs r =
     (case bs of
        t # l # xs \<Rightarrow>
          if unat l < 128 then sized_header t r 0 (unat l)
          else (case xs of
              a # ys \<Rightarrow>
                if l = 0x81 then sized_header t r 1 (unat a)
                else if l = 0x82 then (case ys of b # _ \<Rightarrow> sized_header t r 2 (256 * unat a + unat b) | [] \<Rightarrow> Bad_Header 0)
                else Bad_Header 0
            | [] \<Rightarrow> Bad_Header 0)
      | _ \<Rightarrow> Bad_Header 0)"

definition toy_dl :: "(nat, byte list, nat) dl_ssl" where
  "toy_dl = \<lparr>dl_header = plain_header, dl_name = (\<lambda>_. Some ''C=KR''), dl_oid = (\<lambda>_. Some ''2.23.136.1.1.7.1.2''),
     dl_cms = Some, dl_is_signed = (\<lambda>_. True), dl_certs = (\<lambda>_. []), dl_is_ca = (\<lambda>_. False), dl_country = (\<lambda>_. None),
     dl_org = (\<lambda>_. None), dl_content = Some, dl_behind = (\<lambda>_. []), dl_econtent_type = (\<lambda>_. None), dl_signers = (\<lambda>_. []),
     dl_digest_oid = (\<lambda>_. None), dl_signature = (\<lambda>_. None), dl_signing_tm = (\<lambda>_. None), dl_verify = (\<lambda>_ _. False)\<rparr>"

lemma toy_reads_der: "reads_der toy_dl"
  unfolding reads_der_def
proof (intro allI impI)
  fix t :: byte and v rest :: "byte list" and r :: int
  assume l: "length v < 65536" and r: "int (length (tlv t v)) \<le> r"
  let ?n = "length v"
  have hi: "unat (word_of_nat (?n div 256) :: byte) = ?n div 256" using l by (intro der_small) simp
  have lo: "unat (word_of_nat ?n :: byte) = ?n mod 256" by (simp add: unat_of_nat)
  consider "?n < 128" | "128 \<le> ?n" "?n < 256" | "256 \<le> ?n" by linarith
  then show "dl_header toy_dl (tlv t v @ rest) r = Header (length (der_enc ?n) - 1) (tag_no t) (tag_class t) ?n"
    using r hi lo by cases (auto simp: toy_dl_def plain_header_def sized_header_def tlv_def der_enc_def)
qed

definition sample_signer :: "byte \<Rightarrow> signer_deviation" where
  "sample_signer sn = ([], [sn], [([0x61], [0x2A], None), ([0x62, 0x63], [0x2A], Some [1])])"

section \<open>Results\<close>

lemma rest_skipped:
  assumes "reads_der D" "length (list_body version alg (s # ss)) < 65536"
    "length (concat (map signer_enc ss)) \<le> length (defects_body (snd (snd s)))"
  shows "deviations_at D (list_enc version alg (s # ss) @ behind) (length (list_enc version alg (s # ss))) = entries_of D s"
proof -
  let ?mem = "list_enc version alg (s # ss) @ behind" and ?all = "concat (map signer_enc (s # ss))"
  obtain p where p: "deviations_at D ?mem (length (list_enc version alg (s # ss))) = deviation_loop D ?mem (p + length ?all) p (int (length ?all))"
    "drop p ?mem = ?all @ behind"
    using deviations_loop[OF assms(1,2) refl] by blast
  have m: "drop p ?mem = signer_enc s @ (concat (map signer_enc ss) @ behind)" using p(2) by simp
  have lt: "length (signer_enc s) < 65536"
    using assms(2) by (simp add: list_body_def length_tlv)
  have pos: "0 < length (signer_enc s)" by (simp add: signer_enc_def length_tlv)
  have "deviation_loop D ?mem (p + length ?all) (p + length (signer_enc s) + length (defects_body (snd (snd s)))) r = []" for r
    using assms(3) by (subst deviation_loop.simps) simp
  then show ?thesis
    using loop_signer[OF assms(1) m lt _ _ refl, of "int (length ?all)" "p + length ?all"] pos p(1) by simp
qed

text \<open>C27. The deviations of a list with one signer are read back as they were encoded, whatever lies behind the list in memory: issuer,
  serial number, description, type and parameters of every defect whose type has a text.\<close>

theorem deviation_list_roundtrip:
  assumes "reads_der D" "length (list_body version alg [s]) < 65536"
  shows "deviations_at D (list_enc version alg [s] @ behind) (length (list_enc version alg [s])) = entries_of D s"
  using rest_skipped[OF assms] by simp

lemma deviation_list_roundtrip_witness:
  "map de_defectDescription (deviations_at toy_dl (list_enc [0] [6, 0] [sample_signer 7]) (length (list_enc [0] [6, 0] [sample_signer 7])))
     = [''a'', ''bc'']"
proof -
  have "length (list_body [0] [6, 0] [sample_signer 7]) < 100" by code_simp
  then have "length (list_body [0] [6, 0] [sample_signer 7]) < 65536" by (rule order.strict_trans) simp
  from deviation_list_roundtrip[OF toy_reads_der this, of "[]"]
  have "deviations_at toy_dl (list_enc [0] [6, 0] [sample_signer 7]) (length (list_enc [0] [6, 0] [sample_signer 7]))
      = entries_of toy_dl (sample_signer 7)" by (simp only: append_Nil2)
  moreover have "map de_defectDescription (entries_of toy_dl (sample_signer 7)) = [''a'', ''bc'']" by code_simp
  ultimately show ?thesis by (simp only:)
qed

text \<open>Of a list with several signers only the first one is reported when the others are not longer than its defects: after the
  defects of a signer the reader skips as many bytes once more.\<close>

theorem later_signers_lost:
  assumes "reads_der D" "length (list_body version alg (s # ss)) < 65536"
    "length (concat (map signer_enc ss)) \<le> length (defects_body (snd (snd s)))"
  shows "deviations_at D (list_enc version alg (s # ss)) (length (list_enc version alg (s # ss))) = entries_of D s"
  using rest_skipped[OF assms, of "[]"] by simp

lemma later_signers_lost_witness:
  "length (deviations_at toy_dl (list_enc [0] [6, 0] [sample_signer 7, ([], [8], [([], [0x2A], None)])])
     (length (list_enc [0] [6, 0] [sample_signer 7, ([], [8], [([], [0x2A], None)])]))) = 2"
proof -
  let ?ss = "[([], [8], [([], [0x2A], None)])]"
  have "length (list_body [0] [6, 0] (sample_signer 7 # ?ss)) < 100" by code_simp
  then have l: "length (list_body [0] [6, 0] (sample_signer 7 # ?ss)) < 65536" by (rule order.strict_trans) simp
  have "length (concat (map signer_enc ?ss)) \<le> length (defects_body (snd (snd (sample_signer 7))))" by code_simp
  note lost = later_signers_lost[OF toy_reads_der l this]
  have "length (entries_of toy_dl (sample_signer 7)) = 2" by code_simp
  then show ?thesis by (simp only: lost)
qed

text \<open>The second defect claims eight bytes of description that are not there: its header is only checked against the count that still
  holds the bytes of the first.\<close>

definition overread_list :: "byte list" where
  "overread_list = tlv 0x30 (tlv 0x02 [0] @ tlv 0x30 [] @ tlv 0x31 (tlv 0x30 (tlv 0x30 (tlv 0xA1 (tlv 0x30 [] @ tlv 0x02 [7]))
     @ tlv 0x31 (tlv 0x30 (tlv 0x06 [0x2A] @ tlv 0x13 [0x61, 0x62, 0x63, 0x64]) @ [0x30, 13, 0x06, 1, 0x2A, 0x13, 8]))))"

text \<open>The parser reads beyond the list: two lists of the same bytes are answered with the different bytes that follow them in
  memory as a description.\<close>

theorem deviation_overread:
  "map de_defectDescription (deviations_at toy_dl (overread_list @ map byte_of_char ''password'') (length overread_list)) = [''abcd'', ''password'']
   \<and> map de_defectDescription (deviations_at toy_dl (overread_list @ map byte_of_char ''otherkey'') (length overread_list)) = [''abcd'', ''otherkey'']"
  by (rule conjI; code_simp)

lemma containsDlOid_Nil: "\<not> containsDlOid []"
  by (simp add: containsDlOid_def dlOid_def)

text \<open>A parse that fails says why and reports nothing; one that succeeds has found the object of Deviation Lists in the file, reports the
  deviations of the content whether or not the signature was verified, and never sets the CMS version.\<close>

theorem dl_parse_result:
  "let r = dl_parse D data in
     (dp_success r \<longleftrightarrow> containsDlOid data \<and> (\<exists>cms. dl_cms D data = Some cms \<and> dl_is_signed D cms))
     \<and> (\<not> dp_success r \<longrightarrow> dp_errorMessage r \<noteq> [] \<and> dp_deviations r = [] \<and> dp_certificates r = [] \<and> dp_signerCertificate r = None)
     \<and> (\<forall>cms. dp_success r \<and> dl_cms D data = Some cms \<longrightarrow>
          dp_deviations r = extractDeviationsFromCms D cms \<and> dp_certificates r = dl_certs D cms) \<and> dp_cmsVersion r = 0"
  using containsDlOid_Nil
  by (auto simp: dl_parse_def Let_def signer_metadata_def cms_metadata_def dl_result0_def extractCertificatesFromCms_def
      split: option.split prod.split list.split)

end
