(* ===== verification/User_Accounts.thy ===== *)
theory User_Accounts
  imports Auth_Middleware Credentials
begin

text \<open>
  Accounts and login of \<^verbatim>\<open>pkd-management\<close>: the table behind \<^verbatim>\<open>repositories/user_repository.cpp\<close>, the log of
  \<^verbatim>\<open>auth_audit_repository.cpp\<close> and the handlers of \<^verbatim>\<open>handlers/auth_handler.cpp\<close>, for PostgreSQL.  A request carries its parsed
  body; the clocks, the generated ids, the digests and what the server refuses are the record \<open>account_env\<close>; the statements
  that fail are a list in the state.  Timestamps are numbers; \<open>an_uuid_of\<close> is how the server reads the text of a UUID.
\<close>

section \<open>The tables\<close>

record user =
  us_id :: string
  us_username :: string
  us_passwordHash :: string
  us_email :: "string option"
  us_fullName :: "string option"
  us_permissions :: "string list"
  us_isActive :: bool
  us_isAdmin :: bool
  us_createdAt :: int
  us_lastLoginAt :: "int option"
  us_updatedAt :: int

record auth_event =
  ae_userId :: "string option"
  ae_username :: string
  ae_eventType :: string
  ae_success :: bool
  ae_ipAddress :: "string option"
  ae_userAgent :: "string option"
  ae_errorMessage :: "string option"

record user_operation =
  uo_type :: string
  uo_success :: bool
  uo_resourceId :: "string option"
  uo_username :: "string option"

text \<open>\<open>ua_faults\<close>: for each coming statement the text of the exception it ends with, if it fails.\<close>

record accounts =
  ua_users :: "user list"
  ua_events :: "auth_event list"
  ua_operations :: "user_operation list"
  ua_faults :: "string option list"

record account_env =
  an_hmac :: "string \<Rightarrow> string \<Rightarrow> string"
  an_jwt :: jwt_service
  an_kdf :: kdf
  an_salt :: "byte list option"
  an_now :: int
  an_issue :: int
  an_stale :: bool
  an_timestamp :: int
  an_uuid :: string
  an_uuid_of :: "string \<Rightarrow> string + string"
  an_conflict :: string
  an_refuses :: "user \<Rightarrow> string option"
  an_time_text :: "int \<Rightarrow> string"

record account_request = http_request +
  aq_body :: "json option"

text \<open>A statement: it fails, or it acts on the users.\<close>

definition statement :: "(user list \<Rightarrow> (string + 'a) \<times> user list) \<Rightarrow> accounts \<Rightarrow> (string + 'a) \<times> accounts" where
  "statement act s =
     (case ua_faults s of
        Some e # fs \<Rightarrow> (Inl e, s\<lparr>ua_faults := fs\<rparr>)
      | fs \<Rightarrow> (case act (ua_users s) of (r, us) \<Rightarrow> (r, s\<lparr>ua_users := us, ua_faults := drop 1 fs\<rparr>)))"

text \<open>A parameter reaches the server as a C string; an empty one as NULL.\<close>

definition text_param :: "string \<Rightarrow> string option" where
  "text_param v = (if v = [] then None else Some (c_str v))"

definition on_user :: "account_env \<Rightarrow> string \<Rightarrow> ((user \<Rightarrow> bool) \<Rightarrow> user list \<Rightarrow> (string + 'a) \<times> user list)
    \<Rightarrow> user list \<Rightarrow> (string + 'a) \<times> user list" where
  "on_user E uid act us =
     (case text_param uid of None \<Rightarrow> act (\<lambda>_. False) us
      | Some t \<Rightarrow> (case an_uuid_of E t of Inl e \<Rightarrow> (Inl e, us) | Inr i \<Rightarrow> act (\<lambda>u. us_id u = i) us))"

definition wrapped :: "string \<Rightarrow> (string + 'a) \<times> accounts \<Rightarrow> (string + 'a) \<times> accounts" where
  "wrapped txt r = (case r of (Inl e, s) \<Rightarrow> (Inl (txt @ e), s) | (Inr v, s) \<Rightarrow> (Inr v, s))"

definition findByUsername :: "string \<Rightarrow> accounts \<Rightarrow> (string + user option) \<times> accounts" where
  "findByUsername username s = wrapped ''Failed to find user by username: ''
     (statement (\<lambda>us. (Inr (find (\<lambda>u. text_param username = Some (us_username u)) us), us)) s)"

definition findById :: "account_env \<Rightarrow> string \<Rightarrow> accounts \<Rightarrow> (string + user option) \<times> accounts" where
  "findById E uid s = wrapped ''Failed to find user by ID: ''
     (statement (on_user E uid (\<lambda>hit us. (Inr (find hit us), us))) s)"

text \<open>The server refuses a row (columns, encoding) or a key that is there already.\<close>

definition user_create :: "account_env \<Rightarrow> user \<Rightarrow> accounts \<Rightarrow> (string + string) \<times> accounts" where
  "user_create E user s = wrapped ''Failed to create user: ''
     (statement (\<lambda>us.
        let row = user\<lparr>us_id := an_uuid E, us_username := c_str (us_username user), us_passwordHash := c_str (us_passwordHash user),
              us_email := Option.bind (us_email user) text_param, us_fullName := Option.bind (us_fullName user) text_param,
              us_createdAt := an_timestamp E, us_lastLoginAt := None, us_updatedAt := an_timestamp E\<rparr> in
        case an_refuses E row of
          Some e \<Rightarrow> (Inl e, us)
        | None \<Rightarrow>
            if list_ex (\<lambda>u. us_username u = us_username row \<or> us_id u = us_id row) us then (Inl (an_conflict E), us)
            else (Inr (an_uuid E), us @ [row])) s)"

definition update_row :: "account_env \<Rightarrow> string option \<Rightarrow> string option \<Rightarrow> bool option \<Rightarrow> string list \<Rightarrow> bool option \<Rightarrow> user \<Rightarrow> user" where
  "update_row E email fullName isAdmin permissions isActive u =
     u\<lparr>us_email := (case email of None \<Rightarrow> us_email u | Some e \<Rightarrow> text_param e),
       us_fullName := (case fullName of None \<Rightarrow> us_fullName u | Some f \<Rightarrow> text_param f),
       us_isAdmin := (case isAdmin of None \<Rightarrow> us_isAdmin u | Some b \<Rightarrow> b),
       us_permissions := (if permissions = [] then us_permissions u else permissions),
       us_isActive := (case isActive of None \<Rightarrow> us_isActive u | Some b \<Rightarrow> b),
       us_updatedAt := an_timestamp E\<rparr>"

definition user_update :: "account_env \<Rightarrow> string \<Rightarrow> string option \<Rightarrow> string option \<Rightarrow> bool option \<Rightarrow> string list \<Rightarrow> bool option
    \<Rightarrow> accounts \<Rightarrow> (string + bool) \<times> accounts" where
  "user_update E uid email fullName isAdmin permissions isActive s =
     (if email = None \<and> fullName = None \<and> isAdmin = None \<and> permissions = [] \<and> isActive = None then (Inr False, s)
      else wrapped ''Failed to update user: ''
        (statement (on_user E uid (\<lambda>hit us.
           let new = update_row E email fullName isAdmin permissions isActive in
           case List.map_filter (\<lambda>u. if hit u then an_refuses E (new u) else None) us of
             e # _ \<Rightarrow> (Inl e, us)
           | [] \<Rightarrow> (Inr (list_ex hit us), map (\<lambda>u. if hit u then new u else u) us))) s))"

definition user_remove :: "account_env \<Rightarrow> string \<Rightarrow> accounts \<Rightarrow> (string + string option) \<times> accounts" where
  "user_remove E uid s = wrapped ''Failed to remove user: ''
     (statement (on_user E uid (\<lambda>hit us. (Inr (map_option us_username (find hit us)), filter (\<lambda>u. \<not> hit u) us))) s)"

definition updateLastLogin :: "account_env \<Rightarrow> string \<Rightarrow> accounts \<Rightarrow> (string + bool) \<times> accounts" where
  "updateLastLogin E uid s = wrapped ''Failed to update last login: ''
     (statement (on_user E uid (\<lambda>hit us. (Inr (list_ex hit us),
        map (\<lambda>u. if hit u then u\<lparr>us_lastLoginAt := Some (an_timestamp E)\<rparr> else u) us))) s)"

definition updatePassword :: "account_env \<Rightarrow> string \<Rightarrow> string \<Rightarrow> accounts \<Rightarrow> (string + bool) \<times> accounts" where
  "updatePassword E uid passwordHash s = wrapped ''Failed to update password: ''
     (statement (on_user E uid (\<lambda>hit us. (Inr (list_ex hit us),
        map (\<lambda>u. if hit u then u\<lparr>us_passwordHash := c_str passwordHash\<rparr> else u) us))) s)"

text \<open>The logs: an insertion that fails is swallowed.\<close>

definition swallowed :: "(accounts \<Rightarrow> accounts) \<Rightarrow> accounts \<Rightarrow> accounts" where
  "swallowed act s =
     (case ua_faults s of Some e # fs \<Rightarrow> s\<lparr>ua_faults := fs\<rparr> | fs \<Rightarrow> (act s)\<lparr>ua_faults := drop 1 fs\<rparr>)"

definition audit_insert :: "account_request \<Rightarrow> string option \<Rightarrow> string \<Rightarrow> string \<Rightarrow> bool \<Rightarrow> string option \<Rightarrow> accounts \<Rightarrow> accounts" where
  "audit_insert rq userId username eventType success errorMessage = swallowed (\<lambda>s. s\<lparr>ua_events := ua_events s @
     [\<lparr>ae_userId = Option.bind userId text_param, ae_username = c_str username, ae_eventType = eventType, ae_success = success,
       ae_ipAddress = text_param (hr_peer rq), ae_userAgent = text_param (hr_header rq ''User-Agent''),
       ae_errorMessage = Option.bind errorMessage text_param\<rparr>]\<rparr>)"

definition log_operation :: "string \<Rightarrow> bool \<Rightarrow> string option \<Rightarrow> string option \<Rightarrow> accounts \<Rightarrow> accounts" where
  "log_operation ty success resourceId username = swallowed (\<lambda>s. s\<lparr>ua_operations := ua_operations s @
     [\<lparr>uo_type = ty, uo_success = success, uo_resourceId = Option.bind resourceId text_param, uo_username = username\<rparr>]\<rparr>)"

section \<open>The handlers\<close>

type_synonym answer = "nat \<times> json"

definition failed :: "string \<Rightarrow> json" where
  "failed err = jobj [(''success'', JBool False), (''error'', JStr err)]"

definition failed_with :: "string \<Rightarrow> string \<Rightarrow> json" where
  "failed_with err msg = jobj [(''success'', JBool False), (''error'', JStr err), (''message'', JStr msg)]"

definition internalError :: answer where "internalError = (500, failed ''Internal server error'')"
definition invalid_body :: answer where "invalid_body = (400, failed ''Invalid JSON body'')"
definition token_rejected :: answer where
  "token_rejected = (401, failed_with ''Unauthorized'' ''Invalid or missing authentication token'')"
definition user_not_found :: answer where "user_not_found = (404, failed_with ''Not found'' ''User not found'')"

text \<open>\<^verbatim>\<open>get(key, default)\<close> throws on a value that is no object; \<^verbatim>\<open>asString\<close> and \<^verbatim>\<open>asBool\<close> may.\<close>

definition body_get :: "json \<Rightarrow> string \<Rightarrow> json \<Rightarrow> json option" where
  "body_get j k d = (case j of JObj m \<Rightarrow> Some (case map_of m k of None \<Rightarrow> d | Some v \<Rightarrow> v) | JNull \<Rightarrow> Some d | _ \<Rightarrow> None)"

definition body_text :: "json \<Rightarrow> string \<Rightarrow> string option" where
  "body_text j k = Option.bind (body_get j k (JStr [])) as_string"

definition validateRequestToken :: "account_env \<Rightarrow> account_request \<Rightarrow> jwt_claims option" where
  "validateRequestToken E rq =
     (let authHeader = hr_header rq ''Authorization'' in
      if authHeader = [] then None
      else if take 7 authHeader \<noteq> ''Bearer '' then None
      else validateToken (an_hmac E) (an_jwt E) (an_now E) (an_stale E) (drop 7 authHeader))"

definition requireAdmin :: "account_env \<Rightarrow> account_request \<Rightarrow> answer + jwt_claims" where
  "requireAdmin E rq =
     (case validateRequestToken E rq of
        None \<Rightarrow> Inl token_rejected
      | Some claims \<Rightarrow>
          if \<not> jc_isAdmin claims then Inl (403, failed_with ''Forbidden'' ''Admin privileges required'') else Inr claims)"

definition log_auth_event :: "account_request \<Rightarrow> string \<Rightarrow> string \<Rightarrow> string \<Rightarrow> bool \<Rightarrow> string \<Rightarrow> accounts \<Rightarrow> accounts" where
  "log_auth_event rq userId username eventType success errorMessage =
     audit_insert rq (if userId = [] then None else Some userId) username eventType success
       (if errorMessage = [] then None else Some errorMessage)"

definition login_json :: "string \<Rightarrow> string \<Rightarrow> user \<Rightarrow> json" where
  "login_json token username u = jobj
     [(''success'', JBool True), (''access_token'', JStr token), (''token_type'', JStr ''Bearer''), (''expires_in'', JInt 3600),
      (''user'', jobj [(''id'', JStr (us_id u)), (''username'', JStr username),
         (''email'', JStr (case us_email u of None \<Rightarrow> [] | Some e \<Rightarrow> e)),
         (''full_name'', JStr (case us_fullName u of None \<Rightarrow> [] | Some n \<Rightarrow> n)),
         (''is_admin'', JBool (us_isAdmin u)), (''permissions'', JArr (map JStr (us_permissions u)))])]"

definition handleLogin :: "account_env \<Rightarrow> account_request \<Rightarrow> accounts \<Rightarrow> answer \<times> accounts" where
  "handleLogin E rq s =
     (case aq_body rq of None \<Rightarrow> (invalid_body, s)
      | Some j \<Rightarrow>
          (case (body_text j ''username'', body_text j ''password'') of
             (Some username, Some password) \<Rightarrow>
               if username = [] \<or> password = [] then ((400, failed ''Missing username or password''), s)
               else
                 let denied = (\<lambda>uid why s. ((401, failed ''Invalid credentials''), audit_insert rq uid username ''LOGIN_FAILED'' False (Some why) s)) in
                 (case findByUsername username s of
                    (Inl _, s) \<Rightarrow> (internalError, s)
                  | (Inr None, s) \<Rightarrow> denied None ''User not found or inactive'' s
                  | (Inr (Some u), s) \<Rightarrow>
                      if \<not> us_isActive u then denied (Some (us_id u)) ''User account is inactive'' s
                      else if \<not> verifyPassword (an_kdf E) password (us_passwordHash u) then denied (Some (us_id u)) ''Invalid password'' s
                      else
                        let token = generateToken (an_hmac E) (an_jwt E) (an_issue E) (us_id u) username (us_permissions u) (us_isAdmin u) in
                        (case updateLastLogin E (us_id u) s of
                           (Inl _, s) \<Rightarrow> (internalError, s)
                         | (Inr _, s) \<Rightarrow>
                             ((200, login_json token username u), audit_insert rq (Some (us_id u)) username ''LOGIN_SUCCESS'' True None s)))
           | _ \<Rightarrow> (internalError, s)))"

definition handleLogout :: "account_env \<Rightarrow> account_request \<Rightarrow> accounts \<Rightarrow> answer \<times> accounts" where
  "handleLogout E rq s =
     (case validateRequestToken E rq of None \<Rightarrow> (token_rejected, s)
      | Some c \<Rightarrow>
          ((200, jobj [(''success'', JBool True), (''message'', JStr ''Logged out successfully'')]),
           log_auth_event rq (jc_userId c) (jc_username c) ''LOGOUT'' True [] s))"

definition handleRefresh :: "account_env \<Rightarrow> account_request \<Rightarrow> accounts \<Rightarrow> answer \<times> accounts" where
  "handleRefresh E rq s =
     (case aq_body rq of None \<Rightarrow> (invalid_body, s)
      | Some j \<Rightarrow>
          (case body_text j ''token'' of None \<Rightarrow> (internalError, s)
           | Some token \<Rightarrow>
               if token = [] then ((400, failed ''Missing token''), s)
               else
                 let newToken = refreshToken (an_hmac E) (an_jwt E) (an_now E) (an_issue E) (an_stale E) token in
                 if newToken = [] then ((401, failed ''Invalid or expired token''), s)
                 else
                   ((200, jobj [(''success'', JBool True), (''access_token'', JStr newToken), (''token_type'', JStr ''Bearer''), (''expires_in'', JInt 3600)]),
                    (case validateToken (an_hmac E) (an_jwt E) (an_now E) (an_stale E) token of
                       None \<Rightarrow> s | Some c \<Rightarrow> log_auth_event rq (jc_userId c) (jc_username c) ''TOKEN_REFRESH'' True [] s))))"

definition handleMe :: "account_env \<Rightarrow> account_request \<Rightarrow> accounts \<Rightarrow> answer \<times> accounts" where
  "handleMe E rq s =
     (case validateRequestToken E rq of None \<Rightarrow> (token_rejected, s)
      | Some c \<Rightarrow>
          ((200, jobj [(''success'', JBool True), (''user'', jobj [(''id'', JStr (jc_userId c)), (''username'', JStr (jc_username c)),
              (''is_admin'', JBool (jc_isAdmin c)), (''permissions'', JArr (map JStr (jc_permissions c)))])]), s))"

definition user_fields :: "user \<Rightarrow> (string \<times> json) list" where
  "user_fields u = [(''id'', JStr (us_id u)), (''username'', JStr (us_username u)),
     (''email'', JStr (case us_email u of None \<Rightarrow> [] | Some e \<Rightarrow> e)),
     (''full_name'', JStr (case us_fullName u of None \<Rightarrow> [] | Some n \<Rightarrow> n)),
     (''is_admin'', JBool (us_isAdmin u)), (''is_active'', JBool (us_isActive u)), (''permissions'', JArr (map JStr (us_permissions u)))]"

definition handleGetUser :: "account_env \<Rightarrow> account_request \<Rightarrow> string \<Rightarrow> accounts \<Rightarrow> answer \<times> accounts" where
  "handleGetUser E rq userId s =
     (case requireAdmin E rq of Inl a \<Rightarrow> (a, s)
      | Inr _ \<Rightarrow>
          (case findById E userId s of
             (Inl _, s) \<Rightarrow> (internalError, s)
           | (Inr None, s) \<Rightarrow> (user_not_found, s)
           | (Inr (Some u), s) \<Rightarrow>
               ((200, jobj [(''success'', JBool True), (''data'', jobj (user_fields u @
                   [(''created_at'', JStr (an_time_text E (us_createdAt u))), (''updated_at'', JStr (an_time_text E (us_updatedAt u))),
                    (''last_login_at'', JStr (case us_lastLoginAt u of None \<Rightarrow> [] | Some t \<Rightarrow> an_time_text E t))]))]), s)))"

text \<open>The elements of a value, as the range loop sees them, each with \<^verbatim>\<open>asString\<close>.\<close>

definition json_texts :: "json \<Rightarrow> string list option" where
  "json_texts j = those (map as_string (case j of JArr xs \<Rightarrow> xs | JObj m \<Rightarrow> map snd m | _ \<Rightarrow> []))"

definition new_user :: "string \<Rightarrow> string \<Rightarrow> string \<Rightarrow> string \<Rightarrow> bool \<Rightarrow> string list \<Rightarrow> user" where
  "new_user username passwordHash email fullName isAdmin permissions =
     \<lparr>us_id = [], us_username = username, us_passwordHash = passwordHash,
      us_email = (if email = [] then None else Some email), us_fullName = (if fullName = [] then None else Some fullName),
      us_permissions = permissions, us_isActive = True, us_isAdmin = isAdmin, us_createdAt = 0, us_lastLoginAt = None, us_updatedAt = 0\<rparr>"

definition says_duplicate :: "string \<Rightarrow> bool" where
  "says_duplicate e = (str_find e ''unique'' 0 \<noteq> None \<or> str_find e ''duplicate'' 0 \<noteq> None)"

definition create_failed :: "accounts \<Rightarrow> answer \<times> accounts" where
  "create_failed s = (internalError, log_operation ''USER_CREATE'' False None None s)"

definition create_refused :: "string \<Rightarrow> accounts \<Rightarrow> answer \<times> accounts" where
  "create_refused e s =
     (if says_duplicate e then ((409, failed_with ''Conflict'' ''Username already exists''), s) else create_failed s)"

definition create_user :: "account_env \<Rightarrow> user \<Rightarrow> accounts \<Rightarrow> answer \<times> accounts" where
  "create_user E u s =
     (case user_create E u s of
        (Inl e, s) \<Rightarrow> create_refused e s
      | (Inr userId, s) \<Rightarrow>
          (case findById E userId s of
             (Inl e, s) \<Rightarrow> create_refused e s
           | (Inr None, s) \<Rightarrow> create_refused ''Failed to retrieve created user'' s
           | (Inr (Some c), s) \<Rightarrow>
               ((201, jobj [(''success'', JBool True), (''user'', jobj (user_fields c @ [(''created_at'', JStr (an_time_text E (us_createdAt c)))])),
                   (''message'', JStr ''User created successfully'')]),
                log_operation ''USER_CREATE'' True None (Some (us_username u)) s)))"

definition handleCreateUser :: "account_env \<Rightarrow> account_request \<Rightarrow> accounts \<Rightarrow> answer \<times> accounts" where
  "handleCreateUser E rq s =
     (case requireAdmin E rq of Inl a \<Rightarrow> (a, s)
      | Inr _ \<Rightarrow>
          (case aq_body rq of None \<Rightarrow> (invalid_body, s)
           | Some j \<Rightarrow>
               (case (body_text j ''username'', body_text j ''password'', body_text j ''email'', body_text j ''full_name'',
                      Option.bind (body_get j ''is_admin'' (JBool False)) as_bool) of
                  (Some username, Some password, Some email, Some fullName, Some isAdmin) \<Rightarrow>
                    if username = [] \<or> password = []
                    then ((400, failed_with ''Missing required fields'' ''Username and password are required''), s)
                    else
                      (case hashPassword (an_kdf E) (an_salt E) password 310000 of
                         Inl _ \<Rightarrow> create_failed s
                       | Inr passwordHash \<Rightarrow>
                           (case Option.bind (body_get j ''permissions'' (JArr [])) json_texts of
                              None \<Rightarrow> create_failed s
                            | Some permissions \<Rightarrow> create_user E (new_user username passwordHash email fullName isAdmin permissions) s))
                | _ \<Rightarrow> create_failed s)))"

text \<open>An optional member: absent, or converted, which may throw.\<close>

definition optional :: "json \<Rightarrow> string \<Rightarrow> (json \<Rightarrow> 'a option) \<Rightarrow> 'a option option" where
  "optional j k conv =
     (if \<not> is_jobj j then None
      else if jmember k j then map_option Some (conv (jget k j)) else Some None)"

definition update_permissions :: "json \<Rightarrow> string list option" where
  "update_permissions j =
     (if \<not> is_jobj j then None
      else case jget ''permissions'' j of JArr xs \<Rightarrow> json_texts (JArr xs) | _ \<Rightarrow> Some [])"

definition update_failed :: "string \<Rightarrow> accounts \<Rightarrow> answer \<times> accounts" where
  "update_failed userId s = (internalError, log_operation ''USER_UPDATE'' False (Some userId) None s)"

definition update_user :: "account_env \<Rightarrow> string \<Rightarrow> string option \<Rightarrow> string option \<Rightarrow> bool option \<Rightarrow> bool option \<Rightarrow> string list
    \<Rightarrow> accounts \<Rightarrow> answer \<times> accounts" where
  "update_user E userId email fullName isAdmin isActive permissions s =
     (case user_update E userId email fullName isAdmin permissions isActive s of
        (Inl _, s) \<Rightarrow> update_failed userId s
      | (Inr False, s) \<Rightarrow> (user_not_found, s)
      | (Inr True, s) \<Rightarrow>
          (case findById E userId s of
             (Inl _, s) \<Rightarrow> update_failed userId s
           | (Inr None, s) \<Rightarrow> ((404, failed_with ''Not found'' ''User not found after update''), s)
           | (Inr (Some u), s) \<Rightarrow>
               ((200, jobj [(''success'', JBool True), (''data'', jobj (user_fields u @
                   [(''created_at'', JStr (an_time_text E (us_createdAt u))), (''updated_at'', JStr (an_time_text E (us_updatedAt u)))])),
                   (''message'', JStr ''User updated successfully'')]),
                log_operation ''USER_UPDATE'' True (Some userId) None s)))"

definition handleUpdateUser :: "account_env \<Rightarrow> account_request \<Rightarrow> string \<Rightarrow> accounts \<Rightarrow> answer \<times> accounts" where
  "handleUpdateUser E rq userId s =
     (case requireAdmin E rq of Inl a \<Rightarrow> (a, s)
      | Inr _ \<Rightarrow>
          (case aq_body rq of None \<Rightarrow> (invalid_body, s)
           | Some j \<Rightarrow>
               (case (optional j ''email'' as_string, optional j ''full_name'' as_string, optional j ''is_admin'' as_bool,
                      optional j ''is_active'' as_bool, update_permissions j) of
                  (Some email, Some fullName, Some isAdmin, Some isActive, Some permissions) \<Rightarrow>
                    if email = None \<and> fullName = None \<and> isAdmin = None \<and> isActive = None \<and> permissions = []
                    then ((400, failed ''No fields to update''), s)
                    else update_user E userId email fullName isAdmin isActive permissions s
                | _ \<Rightarrow> update_failed userId s)))"

definition handleDeleteUser :: "account_env \<Rightarrow> account_request \<Rightarrow> string \<Rightarrow> accounts \<Rightarrow> answer \<times> accounts" where
  "handleDeleteUser E rq userId s =
     (case requireAdmin E rq of Inl a \<Rightarrow> (a, s)
      | Inr claims \<Rightarrow>
          if userId = jc_userId claims then ((403, failed_with ''Forbidden'' ''Cannot delete your own account''), s)
          else
            (case user_remove E userId s of
               (Inl _, s) \<Rightarrow> (internalError, log_operation ''USER_DELETE'' False (Some userId) None s)
             | (Inr None, s) \<Rightarrow> (user_not_found, s)
             | (Inr (Some _), s) \<Rightarrow>
                 ((200, jobj [(''success'', JBool True), (''message'', JStr ''User deleted successfully'')]),
                  log_operation ''USER_DELETE'' True (Some userId) None s)))"

definition password_failed :: "string \<Rightarrow> accounts \<Rightarrow> answer \<times> accounts" where
  "password_failed userId s = (internalError, log_operation ''PASSWORD_CHANGE'' False (Some userId) None s)"

definition set_password :: "account_env \<Rightarrow> string \<Rightarrow> string \<Rightarrow> accounts \<Rightarrow> answer \<times> accounts" where
  "set_password E userId newPassword s =
     (case hashPassword (an_kdf E) (an_salt E) newPassword 310000 of
        Inl _ \<Rightarrow> password_failed userId s
      | Inr passwordHash \<Rightarrow>
          (case updatePassword E userId passwordHash s of
             (Inl _, s) \<Rightarrow> password_failed userId s
           | (Inr False, s) \<Rightarrow> ((500, failed_with ''Internal server error'' ''Failed to update password''), s)
           | (Inr True, s) \<Rightarrow>
               ((200, jobj [(''success'', JBool True), (''message'', JStr ''Password changed successfully'')]),
                log_operation ''PASSWORD_CHANGE'' True (Some userId) None s)))"

definition handleChangePassword :: "account_env \<Rightarrow> account_request \<Rightarrow> string \<Rightarrow> accounts \<Rightarrow> answer \<times> accounts" where
  "handleChangePassword E rq userId s =
     (case validateRequestToken E rq of None \<Rightarrow> (token_rejected, s)
      | Some claims \<Rightarrow>
          let isSelf = (userId = jc_userId claims) in
          if \<not> isSelf \<and> \<not> jc_isAdmin claims
          then ((403, failed_with ''Forbidden'' ''You can only change your own password unless you are an admin''), s)
          else
            (case aq_body rq of None \<Rightarrow> (invalid_body, s)
             | Some j \<Rightarrow>
                 (case body_text j ''new_password'' of
                    None \<Rightarrow> password_failed userId s
                  | Some newPassword \<Rightarrow>
                      if newPassword = [] then ((400, failed_with ''Missing required field'' ''new_password is required''), s)
                      else if \<not> isSelf then set_password E userId newPassword s
                      else
                        (case body_text j ''current_password'' of
                           None \<Rightarrow> password_failed userId s
                         | Some current \<Rightarrow>
                             if current = []
                             then ((400, failed_with ''Missing required field'' ''current_password is required when changing your own password''), s)
                             else
                               (case findById E userId s of
                                  (Inl _, s) \<Rightarrow> password_failed userId s
                                | (Inr None, s) \<Rightarrow> (user_not_found, s)
                                | (Inr (Some u), s) \<Rightarrow>
                                    if \<not> verifyPassword (an_kdf E) current (us_passwordHash u)
                                    then ((403, failed_with ''Forbidden'' ''Current password is incorrect''), s)
                                    else set_password E userId newPassword s)))))"

section \<open>Calls\<close>

datatype account_call = Login | Logout | Refresh | Me | Get_User string | Create_User | Update_User string
  | Delete_User string | Change_Password string

fun account_handle :: "account_env \<Rightarrow> account_request \<Rightarrow> account_call \<Rightarrow> accounts \<Rightarrow> answer \<times> accounts" where
  "account_handle E rq Login s = handleLogin E rq s"
| "account_handle E rq Logout s = handleLogout E rq s"
| "account_handle E rq Refresh s = handleRefresh E rq s"
| "account_handle E rq Me s = handleMe E rq s"
| "account_handle E rq (Get_User i) s = handleGetUser E rq i s"
| "account_handle E rq Create_User s = handleCreateUser E rq s"
| "account_handle E rq (Update_User i) s = handleUpdateUser E rq i s"
| "account_handle E rq (Delete_User i) s = handleDeleteUser E rq i s"
| "account_handle E rq (Change_Password i) s = handleChangePassword E rq i s"

inductive account_step :: "accounts \<Rightarrow> accounts \<Rightarrow> bool" where
  call: "account_step s (snd (account_handle E rq c s))"

section \<open>What the statements do to the users\<close>

lemma wrapped_eq: "wrapped t r = (x, s') \<Longrightarrow> snd r = s'"
  by (auto simp: wrapped_def split: prod.splits sum.splits)

lemma statement_users:
  "ua_users (snd (statement act s)) = ua_users s \<or> ua_users (snd (statement act s)) = snd (act (ua_users s))"
  by (auto simp: statement_def split: list.splits option.splits prod.splits)

text \<open>The rows a text names, and a change of some rows.\<close>

definition names :: "account_env \<Rightarrow> string \<Rightarrow> user \<Rightarrow> bool" where
  "names E uid u = (case text_param uid of None \<Rightarrow> False | Some t \<Rightarrow> an_uuid_of E t = Inr (us_id u))"

definition update_where :: "('a \<Rightarrow> bool) \<Rightarrow> ('a \<Rightarrow> 'a) \<Rightarrow> 'a list \<Rightarrow> 'a list" where
  "update_where hit f us = map (\<lambda>u. if hit u then f u else u) us"

lemma on_user_names: "on_user E uid act us = act (names E uid) us \<or> (\<exists>e. on_user E uid act us = (Inl e, us))"
proof (cases "text_param uid")
  case None
  then have "names E uid = (\<lambda>_. False)" by (simp add: names_def fun_eq_iff)
  with None show ?thesis by (simp add: on_user_def)
next
  case (Some t)
  show ?thesis
  proof (cases "an_uuid_of E t")
    case (Inr i)
    then have "names E uid = (\<lambda>u. us_id u = i)" using Some by (auto simp: names_def fun_eq_iff)
    with Some Inr show ?thesis by (simp add: on_user_def)
  qed (simp add: on_user_def Some)
qed

lemma user_statement:
  assumes "wrapped t (statement (on_user E uid act) s) = (r, s')"
  shows "ua_users s' = ua_users s \<or> ua_users s' = snd (act (names E uid) (ua_users s))"
  using wrapped_eq [OF assms] statement_users [of "on_user E uid act" s] on_user_names [of E uid act "ua_users s"]
  by (metis snd_conv)

lemma wrapped_Inr: "wrapped t r = (Inr v, s') \<Longrightarrow> fst r = Inr v"
  by (auto simp: wrapped_def split: prod.splits sum.splits)

lemma statement_Inr: "fst (statement act s) = Inr v \<Longrightarrow> fst (act (ua_users s)) = Inr v"
  by (simp add: statement_def split: list.split_asm option.split_asm prod.split_asm)

lemma statement_result:
  assumes "wrapped t (statement act s) = (Inr v, s')"
  shows "fst (act (ua_users s)) = Inr v"
  using statement_Inr [OF wrapped_Inr [OF assms]] .

lemma swallowed_users:
  assumes "\<And>s. ua_users (act s) = ua_users s"
  shows "ua_users (swallowed act s) = ua_users s"
  using assms by (simp add: swallowed_def split: list.split option.split)

lemma log_users [simp]:
  "ua_users (audit_insert rq i n t b e s) = ua_users s" "ua_users (log_operation t b i m s) = ua_users s"
  "ua_users (log_auth_event rq v n t b w s) = ua_users s"
  by (simp_all add: audit_insert_def log_operation_def log_auth_event_def swallowed_users)

lemma findByUsername_users: "findByUsername n s = (r, s') \<Longrightarrow> ua_users s' = ua_users s"
  unfolding findByUsername_def
  using statement_users [of "\<lambda>us. (Inr (find (\<lambda>u. text_param n = Some (us_username u)) us), us)" s] wrapped_eq by fastforce

lemma findById_users: "findById E i s = (r, s') \<Longrightarrow> ua_users s' = ua_users s"
  unfolding findById_def by (drule user_statement) simp

lemmas find_users = findByUsername_users findById_users

lemma findByUsername_found:
  "findByUsername n s = (Inr (Some u), s') \<Longrightarrow> u \<in> set (ua_users s) \<and> text_param n = Some (us_username u)"
  unfolding findByUsername_def by (drule statement_result) (auto simp: find_Some_iff)

lemma findById_found:
  assumes "findById E i s = (Inr (Some u), s')"
  shows "u \<in> set (ua_users s) \<and> names E i u"
proof -
  have "fst (on_user E i (\<lambda>hit us. (Inr (find hit us), us)) (ua_users s)) = (Inr (Some u) :: string + user option)"
    using statement_result [OF assms [unfolded findById_def]] .
  then show ?thesis
    using on_user_names [of E i "\<lambda>hit us. (Inr (find hit us), us)" "ua_users s"] by (auto simp: find_Some_iff)
qed

text \<open>A statement on one account changes the rows its text names.\<close>

lemma updateLastLogin_users:
  "updateLastLogin E i s = (r, s') \<Longrightarrow> ua_users s' = ua_users s
    \<or> ua_users s' = update_where (names E i) (\<lambda>u. u\<lparr>us_lastLoginAt := Some (an_timestamp E)\<rparr>) (ua_users s)"
  unfolding updateLastLogin_def by (drule user_statement) (simp add: update_where_def)

lemma updatePassword_users:
  "updatePassword E i h s = (r, s') \<Longrightarrow> ua_users s' = ua_users s
    \<or> ua_users s' = update_where (names E i) (\<lambda>u. u\<lparr>us_passwordHash := c_str h\<rparr>) (ua_users s)"
  unfolding updatePassword_def by (drule user_statement) (simp add: update_where_def)

lemma user_remove_users:
  "user_remove E i s = (r, s') \<Longrightarrow> ua_users s' = ua_users s \<or> ua_users s' = filter (\<lambda>u. \<not> names E i u) (ua_users s)"
  unfolding user_remove_def by (drule user_statement) simp

lemma user_update_users:
  assumes "user_update E i e n a ps b s = (r, s')"
  shows "ua_users s' = ua_users s \<or> ua_users s' = update_where (names E i) (update_row E e n a ps b) (ua_users s)"
proof (cases "e = None \<and> n = None \<and> a = None \<and> ps = [] \<and> b = None")
  case True
  with assms show ?thesis by (simp add: user_update_def)
next
  case False
  note eq = assms [unfolded user_update_def if_not_P [OF False]]
  show ?thesis
    using user_statement [OF eq] by (auto simp: Let_def update_where_def split: list.splits)
qed

section \<open>What the handlers do to the users\<close>

lemma reading_users:
  "ua_users (snd (handleLogout E rq s)) = ua_users s"
  "ua_users (snd (handleRefresh E rq s)) = ua_users s"
  "ua_users (snd (handleMe E rq s)) = ua_users s"
  "ua_users (snd (handleGetUser E rq i s)) = ua_users s"
  by (auto simp: handleLogout_def handleRefresh_def handleMe_def handleGetUser_def Let_def dest!: find_users
      split: option.split sum.split prod.split)

text \<open>A login from a body with a name and a password, after the name was looked up.\<close>

definition login_body :: "account_request \<Rightarrow> string \<Rightarrow> string \<Rightarrow> bool" where
  "login_body rq n p \<longleftrightarrow> n \<noteq> [] \<and> p \<noteq> []
     \<and> (\<exists>j. aq_body rq = Some j \<and> body_text j ''username'' = Some n \<and> body_text j ''password'' = Some p)"

definition login_answer :: "account_env \<Rightarrow> string \<Rightarrow> user \<Rightarrow> json" where
  "login_answer E n u = login_json (generateToken (an_hmac E) (an_jwt E) (an_issue E) (us_id u) n (us_permissions u) (us_isAdmin u)) n u"

lemma login_no_body: "\<nexists>n p. login_body rq n p \<Longrightarrow> \<exists>a. handleLogin E rq s = (a, s) \<and> fst a \<noteq> 200"
  by (auto simp: login_body_def handleLogin_def invalid_body_def internalError_def split: option.split)

lemma login_refused:
  assumes "login_body rq n p" "findByUsername n s = (r, t)" "\<nexists>u. r = Inr (Some u) \<and> us_isActive u \<and> verifyPassword (an_kdf E) p (us_passwordHash u)"
  shows "fst (fst (handleLogin E rq s)) \<noteq> 200 \<and> ua_users (snd (handleLogin E rq s)) = ua_users s"
  using assms findByUsername_users [OF assms(2)]
  by (auto simp: login_body_def handleLogin_def internalError_def Let_def split: sum.splits option.splits if_splits)

lemma login_passed:
  assumes "login_body rq n p" "findByUsername n s = (Inr (Some u), t)" "us_isActive u" "verifyPassword (an_kdf E) p (us_passwordHash u)"
  shows "handleLogin E rq s = (case updateLastLogin E (us_id u) t of
      (Inl _, s) \<Rightarrow> (internalError, s)
    | (Inr _, s) \<Rightarrow> ((200, login_answer E n u), audit_insert rq (Some (us_id u)) n ''LOGIN_SUCCESS'' True None s))"
  using assms by (auto simp: login_body_def handleLogin_def login_answer_def Let_def split: prod.split sum.split)

definition login_proof :: "account_env \<Rightarrow> account_request \<Rightarrow> user \<Rightarrow> bool" where
  "login_proof E rq u \<longleftrightarrow> us_isActive u \<and> (\<exists>n p. login_body rq n p \<and> us_username u = c_str n
     \<and> verifyPassword (an_kdf E) p (us_passwordHash u))"

lemma login_users:
  "ua_users (snd (handleLogin E rq s)) = ua_users s
   \<or> (\<exists>u \<in> set (ua_users s). login_proof E rq u \<and> ua_users (snd (handleLogin E rq s))
        = update_where (names E (us_id u)) (\<lambda>u. u\<lparr>us_lastLoginAt := Some (an_timestamp E)\<rparr>) (ua_users s))"
proof (cases "\<exists>n p. login_body rq n p")
  case False
  then show ?thesis using login_no_body [of rq E s] by auto
next
  case True
  then obtain n p where b: "login_body rq n p" by blast
  obtain r t where f: "findByUsername n s = (r, t)" by force
  show ?thesis
  proof (cases "\<exists>u. r = Inr (Some u) \<and> us_isActive u \<and> verifyPassword (an_kdf E) p (us_passwordHash u)")
    case False
    then show ?thesis using login_refused [OF b f] by blast
  next
    case True
    then obtain u where u: "findByUsername n s = (Inr (Some u), t)" "us_isActive u" "verifyPassword (an_kdf E) p (us_passwordHash u)"
      using f by blast
    have t: "ua_users t = ua_users s" using findByUsername_users [OF f] .
    have "u \<in> set (ua_users s)" "login_proof E rq u"
      using findByUsername_found [OF u(1)] b u by (auto simp: login_proof_def login_body_def text_param_def)
    moreover obtain r' t' where l: "updateLastLogin E (us_id u) t = (r', t')" by force
    have "ua_users (snd (handleLogin E rq s)) = ua_users t'"
      unfolding login_passed [OF b u] l by (simp split: sum.split)
    ultimately show ?thesis using updateLastLogin_users [OF l] t by metis
  qed
qed

definition fresh_row :: "user \<Rightarrow> user list \<Rightarrow> bool" where
  "fresh_row row us \<longleftrightarrow> us_id row \<notin> us_id ` set us \<and> us_username row \<notin> us_username ` set us"

lemma user_create_users:
  assumes "user_create E u s = (r, s')"
  shows "ua_users s' = ua_users s \<or> (\<exists>row. ua_users s' = ua_users s @ [row] \<and> fresh_row row (ua_users s))"
proof -
  define act where "act = (\<lambda>us. let row = u\<lparr>us_id := an_uuid E, us_username := c_str (us_username u), us_passwordHash := c_str (us_passwordHash u),
              us_email := Option.bind (us_email u) text_param, us_fullName := Option.bind (us_fullName u) text_param,
              us_createdAt := an_timestamp E, us_lastLoginAt := None, us_updatedAt := an_timestamp E\<rparr> in
        case an_refuses E row of
          Some e \<Rightarrow> (Inl e, us)
        | None \<Rightarrow>
            if list_ex (\<lambda>u. us_username u = us_username row \<or> us_id u = us_id row) us then (Inl (an_conflict E), us)
            else (Inr (an_uuid E), us @ [row]))"
  have "snd (act us) = us \<or> (\<exists>row. snd (act us) = us @ [row] \<and> fresh_row row us)" for us
    by (auto simp: act_def Let_def fresh_row_def list_ex_iff split: option.split)
  then show ?thesis
    using statement_users [of act s] wrapped_eq [OF assms [unfolded user_create_def, folded act_def]] by metis
qed

lemma create_failed_users [simp]: "ua_users (snd (create_refused e s)) = ua_users s" "ua_users (snd (create_failed s)) = ua_users s"
  by (simp_all add: create_refused_def create_failed_def)

lemma create_user_users:
  "ua_users (snd (create_user E u s)) = ua_users s
   \<or> (\<exists>row. ua_users (snd (create_user E u s)) = ua_users s @ [row] \<and> fresh_row row (ua_users s))"
proof (cases "user_create E u s")
  case (Pair r t)
  have "ua_users (snd (create_user E u s)) = ua_users t"
    unfolding create_user_def Pair by (auto dest: find_users split: sum.split option.split prod.split)
  with user_create_users [OF Pair] show ?thesis by simp
qed

lemma create_handler_users:
  "ua_users (snd (handleCreateUser E rq s)) = ua_users s
   \<or> (\<exists>row c. requireAdmin E rq = Inr c \<and> ua_users (snd (handleCreateUser E rq s)) = ua_users s @ [row] \<and> fresh_row row (ua_users s))"
  using create_user_users by (auto simp: handleCreateUser_def split: sum.split option.split)

lemma update_user_users:
  "ua_users (snd (update_user E i e n a b ps s)) = ua_users s
   \<or> ua_users (snd (update_user E i e n a b ps s)) = update_where (names E i) (update_row E e n a ps b) (ua_users s)"
proof (cases "user_update E i e n a ps b s")
  case (Pair r t)
  have "ua_users (snd (update_user E i e n a b ps s)) = ua_users t"
    unfolding update_user_def Pair by (auto simp: update_failed_def dest: find_users split: sum.split option.split prod.split bool.split)
  with user_update_users [OF Pair] show ?thesis by simp
qed

lemma update_handler_users:
  "ua_users (snd (handleUpdateUser E rq i s)) = ua_users s
   \<or> (\<exists>c e n a b ps. requireAdmin E rq = Inr c
        \<and> ua_users (snd (handleUpdateUser E rq i s)) = update_where (names E i) (update_row E e n a ps b) (ua_users s))"
proof (cases "requireAdmin E rq")
  case (Inl a)
  then show ?thesis by (simp add: handleUpdateUser_def)
next
  case (Inr c)
  have "ua_users (snd (handleUpdateUser E rq i s)) = ua_users s
     \<or> (\<exists>e n a b ps. ua_users (snd (handleUpdateUser E rq i s)) = update_where (names E i) (update_row E e n a ps b) (ua_users s))"
    using update_user_users
    by (simp add: handleUpdateUser_def Inr update_failed_def split: option.split) blast
  with Inr show ?thesis by blast
qed

lemma delete_handler_users:
  "ua_users (snd (handleDeleteUser E rq i s)) = ua_users s
   \<or> (\<exists>c. requireAdmin E rq = Inr c \<and> i \<noteq> jc_userId c
        \<and> ua_users (snd (handleDeleteUser E rq i s)) = filter (\<lambda>u. \<not> names E i u) (ua_users s))"
  by (auto simp: handleDeleteUser_def dest!: user_remove_users split: sum.split option.split prod.split)

lemma set_password_users:
  "ua_users (snd (set_password E i p s)) = ua_users s
   \<or> (\<exists>h. ua_users (snd (set_password E i p s)) = update_where (names E i) (\<lambda>u. u\<lparr>us_passwordHash := c_str h\<rparr>) (ua_users s))"
proof (cases "hashPassword (an_kdf E) (an_salt E) p 310000")
  case (Inl e)
  then show ?thesis by (auto simp: set_password_def password_failed_def)
next
  case (Inr h)
  obtain r t where u: "updatePassword E i h s = (r, t)" by force
  have "ua_users (snd (set_password E i p s)) = ua_users t"
    using u Inr by (auto simp: set_password_def password_failed_def split: sum.split bool.split)
  with updatePassword_users [OF u] show ?thesis by auto
qed

definition password_proof :: "account_env \<Rightarrow> account_request \<Rightarrow> user \<Rightarrow> bool" where
  "password_proof E rq u \<longleftrightarrow> (\<exists>j p. aq_body rq = Some j \<and> body_text j ''current_password'' = Some p
     \<and> verifyPassword (an_kdf E) p (us_passwordHash u))"

definition may_set :: "account_env \<Rightarrow> account_request \<Rightarrow> string \<Rightarrow> jwt_claims \<Rightarrow> user list \<Rightarrow> bool" where
  "may_set E rq i c us \<longleftrightarrow>
     (if i = jc_userId c then \<exists>u \<in> set us. names E i u \<and> password_proof E rq u else jc_isAdmin c)"

lemma password_handler_cases:
  "ua_users (snd (handleChangePassword E rq i s)) = ua_users s
   \<or> (\<exists>c p t. validateRequestToken E rq = Some c \<and> may_set E rq i c (ua_users s) \<and> ua_users t = ua_users s
        \<and> handleChangePassword E rq i s = set_password E i p t)"
proof (cases "validateRequestToken E rq")
  case None
  then show ?thesis by (simp add: handleChangePassword_def)
next
  case (Some c)
  show ?thesis
  proof (cases "i = jc_userId c")
    case False
    with Some show ?thesis
      by (auto simp: handleChangePassword_def may_set_def password_failed_def Let_def split: option.split)
  next
    case True
    obtain r t where f: "findById E i s = (r, t)" by force
    let ?own = "\<lambda>j p w u. aq_body rq = Some j \<and> body_text j ''new_password'' = Some p \<and> p \<noteq> []
      \<and> body_text j ''current_password'' = Some w \<and> w \<noteq> [] \<and> r = Inr (Some u) \<and> verifyPassword (an_kdf E) w (us_passwordHash u)"
    note unfold = handleChangePassword_def password_failed_def user_not_found_def Let_def
    show ?thesis
    proof (cases "\<exists>j p w u. ?own j p w u")
      case True
      then obtain j p w u where o: "?own j p w u" by blast
      with f have "findById E i s = (Inr (Some u), t)" by simp
      from findById_found [OF this] o have "may_set E rq i c (ua_users s)"
        using \<open>i = jc_userId c\<close> by (auto simp: may_set_def password_proof_def)
      moreover have "handleChangePassword E rq i s = set_password E i p t"
        using o f Some \<open>i = jc_userId c\<close> by (simp add: unfold)
      ultimately show ?thesis using findById_users [OF f] Some by blast
    next
      case False
      then have "ua_users (snd (handleChangePassword E rq i s)) = ua_users s"
        using f findById_users [OF f] Some \<open>i = jc_userId c\<close> by (auto simp: unfold split: option.split sum.split)
      then show ?thesis ..
    qed
  qed
qed

lemma password_handler_users:
  "ua_users (snd (handleChangePassword E rq i s)) = ua_users s
   \<or> (\<exists>c h. validateRequestToken E rq = Some c \<and> may_set E rq i c (ua_users s)
        \<and> ua_users (snd (handleChangePassword E rq i s)) = update_where (names E i) (\<lambda>u. u\<lparr>us_passwordHash := c_str h\<rparr>) (ua_users s))"
  using password_handler_cases [of E rq i s] set_password_users by metis

section \<open>What a call may change\<close>

definition admin_token :: "account_env \<Rightarrow> account_request \<Rightarrow> jwt_claims \<Rightarrow> bool" where
  "admin_token E rq c \<longleftrightarrow> validateRequestToken E rq = Some c \<and> jc_isAdmin c"

lemma requireAdmin_iff: "requireAdmin E rq = Inr c \<longleftrightarrow> admin_token E rq c"
  by (auto simp: requireAdmin_def admin_token_def split: option.split)

text \<open>The specification: who may change which rows, by which call.\<close>

fun allowed_change :: "account_env \<Rightarrow> account_request \<Rightarrow> account_call \<Rightarrow> user list \<Rightarrow> user list \<Rightarrow> bool" where
  "allowed_change E rq Login us us' \<longleftrightarrow> (\<exists>u \<in> set us. login_proof E rq u
     \<and> us' = update_where (names E (us_id u)) (\<lambda>u. u\<lparr>us_lastLoginAt := Some (an_timestamp E)\<rparr>) us)"
| "allowed_change E rq Create_User us us' \<longleftrightarrow> (\<exists>c. admin_token E rq c \<and> (\<exists>row. fresh_row row us \<and> us' = us @ [row]))"
| "allowed_change E rq (Update_User i) us us' \<longleftrightarrow> (\<exists>c. admin_token E rq c
     \<and> (\<exists>e n a ps b. us' = update_where (names E i) (update_row E e n a ps b) us))"
| "allowed_change E rq (Delete_User i) us us' \<longleftrightarrow> (\<exists>c. admin_token E rq c \<and> i \<noteq> jc_userId c
     \<and> us' = filter (\<lambda>u. \<not> names E i u) us)"
| "allowed_change E rq (Change_Password i) us us' \<longleftrightarrow> (\<exists>c. validateRequestToken E rq = Some c \<and> may_set E rq i c us
     \<and> (\<exists>h. us' = update_where (names E i) (\<lambda>u. u\<lparr>us_passwordHash := c_str h\<rparr>) us))"
| "allowed_change E rq _ us us' \<longleftrightarrow> False"

lemma call_users:
  "ua_users (snd (account_handle E rq c s)) = ua_users s \<or> allowed_change E rq c (ua_users s) (ua_users (snd (account_handle E rq c s)))"
proof (cases c)
  case Login
  then show ?thesis using login_users [of E rq s] by auto
next
  case Create_User
  then show ?thesis using create_handler_users [of E rq s] requireAdmin_iff by auto
next
  case (Update_User i)
  then show ?thesis using update_handler_users [of E rq i s] requireAdmin_iff by simp blast
next
  case (Delete_User i)
  then show ?thesis using delete_handler_users [of E rq i s] requireAdmin_iff by auto
next
  case (Change_Password i)
  then show ?thesis using password_handler_users [of E rq i s] by auto
qed (simp_all add: reading_users)

section \<open>Unique accounts\<close>

definition keys_distinct :: "user list \<Rightarrow> bool" where
  "keys_distinct us \<longleftrightarrow> distinct (map us_id us) \<and> distinct (map us_username us)"

lemma update_where_keys [simp]:
  assumes "\<And>u. us_id (f u) = us_id u \<and> us_username (f u) = us_username u"
  shows "map us_id (update_where hit f us) = map us_id us" "map us_username (update_where hit f us) = map us_username us"
  using assms by (simp_all add: update_where_def)

lemma update_row_keys [simp]: "us_id (update_row E e n a ps b u) = us_id u" "us_username (update_row E e n a ps b u) = us_username u"
  by (simp_all add: update_row_def)

lemma allowed_keys: "allowed_change E rq c us us' \<Longrightarrow> keys_distinct us \<Longrightarrow> keys_distinct us'"
  by (cases c) (auto simp: keys_distinct_def fresh_row_def distinct_map_filter)

lemma step_keys: "account_step s s' \<Longrightarrow> keys_distinct (ua_users s) \<Longrightarrow> keys_distinct (ua_users s')"
  by (auto elim!: account_step.cases) (metis call_users allowed_keys)

interpretation unique_accounts: invariant_system "\<lambda>s. ua_users s = []" account_step "\<lambda>s. keys_distinct (ua_users s)"
  by unfold_locales (simp add: keys_distinct_def, blast intro: step_keys)

section \<open>Properties\<close>

lemma statement_no_fault:
  "ua_faults s = [] \<Longrightarrow> statement act s = (case act (ua_users s) of (r, us) \<Rightarrow> (r, s\<lparr>ua_users := us\<rparr>))"
  by (simp add: statement_def split: prod.split)

text \<open>The key a stored row has is the one the server reads its text as.\<close>

definition ids_read :: "account_env \<Rightarrow> user list \<Rightarrow> bool" where
  "ids_read E us = list_all (\<lambda>u. names E (us_id u) u) us"

lemma find_username:
  assumes "keys_distinct us" "n \<noteq> []" "u \<in> set us" "us_username u = c_str n"
  shows "find (\<lambda>u. text_param n = Some (us_username u)) us = Some u"
proof -
  obtain v where v: "find (\<lambda>u. text_param n = Some (us_username u)) us = Some v"
    using assms by (cases "find (\<lambda>u. text_param n = Some (us_username u)) us") (auto simp: find_None_iff text_param_def)
  then have "v \<in> set us" "us_username v = us_username u" using assms by (auto simp: find_Some_iff text_param_def)
  with assms(1,3) have "v = u" by (auto simp: keys_distinct_def distinct_map inj_on_def)
  with v show ?thesis by simp
qed

lemma findByUsername_no_fault:
  "ua_faults s = [] \<Longrightarrow> findByUsername n s = (Inr (find (\<lambda>u. text_param n = Some (us_username u)) (ua_users s)), s)"
  by (simp add: findByUsername_def statement_no_fault wrapped_def)

lemma updateLastLogin_no_fault:
  assumes "ua_faults s = []" "names E i u"
  shows "\<exists>s'. updateLastLogin E i s = (Inr (list_ex (names E i) (ua_users s)), s')"
proof -
  obtain x where x: "text_param i = Some x" "an_uuid_of E x = Inr (us_id u)"
    using assms(2) by (auto simp: names_def split: option.splits)
  then have "names E i = (\<lambda>v. us_id v = us_id u)" by (auto simp: names_def fun_eq_iff)
  with x show ?thesis
    by (simp add: updateLastLogin_def statement_no_fault [OF assms(1)] wrapped_def on_user_def)
qed

lemma login_ok:
  assumes "ua_faults s = []" "keys_distinct (ua_users s)" "ids_read E (ua_users s)"
    and "u \<in> set (ua_users s)" "us_username u = c_str n" "us_isActive u" "login_body rq n p" "verifyPassword (an_kdf E) p (us_passwordHash u)"
  shows "fst (handleLogin E rq s) = (200, login_answer E n u)"
proof -
  have n: "n \<noteq> []" using assms(7) by (simp add: login_body_def)
  have f: "findByUsername n s = (Inr (Some u), s)"
    using find_username [OF assms(2) n assms(4,5)] assms(1) by (simp add: findByUsername_no_fault)
  have "names E (us_id u) u" using assms(3,4) by (auto simp: ids_read_def list_all_iff)
  from updateLastLogin_no_fault [OF assms(1) this] show ?thesis
    unfolding login_passed [OF assms(7) f assms(6,8)] by auto
qed

lemma login_iff_aux:
  assumes "ua_faults s = []" "keys_distinct (ua_users s)" "ids_read E (ua_users s)"
  shows "fst (handleLogin E rq s) = (200, b) \<longleftrightarrow> (\<exists>n p u. login_body rq n p \<and> u \<in> set (ua_users s) \<and> us_username u = c_str n
    \<and> us_isActive u \<and> verifyPassword (an_kdf E) p (us_passwordHash u) \<and> b = login_answer E n u)" (is "?L \<longleftrightarrow> ?R")
proof
  assume ?R
  then show ?L using login_ok [OF assms] by blast
next
  assume L: ?L
  then obtain n p where b: "login_body rq n p" using login_no_body [of rq E s] by fastforce
  note f = findByUsername_no_fault [OF assms(1), of n]
  from L obtain u where u: "find (\<lambda>u. text_param n = Some (us_username u)) (ua_users s) = Some u" "us_isActive u"
      "verifyPassword (an_kdf E) p (us_passwordHash u)"
    using login_refused [OF b f] by fastforce
  then have "u \<in> set (ua_users s)" "us_username u = c_str n"
    using b by (auto simp: find_Some_iff text_param_def login_body_def)
  note m = this
  with u b show ?R using login_ok [OF assms m u(2) b u(3)] L by auto
qed

text \<open>C5. Every call of the account endpoints, whatever statements fail, leaves the users as they
  are or changes them as its caller may: a login sets the time of the login of an active user whose
  password was given; rows are added, changed and deleted only under the token of an administrator,
  and exactly the rows the path names; a password is replaced by an administrator or by the user who
  gives the current one; and names and keys stay unique.\<close>

theorem accounts_change_guarded:
  assumes "keys_distinct (ua_users s)"
  shows "(ua_users (snd (account_handle E rq c s)) = ua_users s
      \<or> allowed_change E rq c (ua_users s) (ua_users (snd (account_handle E rq c s))))
    \<and> keys_distinct (ua_users (snd (account_handle E rq c s)))"
  using call_users [of E rq c s] unique_accounts.inv_step [OF assms account_step.call] by blast

text \<open>C12. With no fault of the database a login answers 200 exactly when there is an active user
  of the given name whose stored hash the password verifies, and then with a token made for that
  user.\<close>

theorem login_iff:
  assumes "ua_faults s = []" "keys_distinct (ua_users s)" "ids_read E (ua_users s)"
  shows "fst (handleLogin E rq s) = (200, b) \<longleftrightarrow> (\<exists>n p u. login_body rq n p \<and> u \<in> set (ua_users s) \<and> us_username u = c_str n
    \<and> us_isActive u \<and> verifyPassword (an_kdf E) p (us_passwordHash u) \<and> b = login_answer E n u)"
  using assms by (rule login_iff_aux)

text \<open>C9. Any active user who is no administrator can log in as one: a name that goes on behind
  a zero byte is looked up without the rest, as the parameter is a C string, while the token is made
  from all of it, so that quotation marks in the rest add an administrator flag to the claims.\<close>

theorem login_escalates:
  assumes "ua_faults s = []" "keys_distinct (ua_users s)" "ids_read E (ua_users s)"
    and "u \<in> set (ua_users s)" "us_isActive u" "\<not> us_isAdmin u" "verifyPassword (an_kdf E) p (us_passwordHash u)"
    and "login_body rq (us_username u @ CHR 0x00 # ''\",\"isAdmin\":true,\"x\":\"'') p"
    and "CHR 0x00 \<notin> set (us_username u)" "quote \<notin> set (us_username u)" "quote \<notin> set (us_id u)" "quote \<notin> set (jw_issuer (an_jwt E))"
    and "list_all (\<lambda>q. q \<noteq> [] \<and> CHR '','' \<notin> set q \<and> quote \<notin> set q) (us_permissions u)"
    and "times_ok (an_jwt E) (an_issue E div 10 ^ 9) (an_now E)"
    and "hr_header rq2 ''Authorization'' = ''Bearer '' @ token"
    and "token = generateToken (an_hmac E) (an_jwt E) (an_issue E) (us_id u)
           (us_username u @ CHR 0x00 # ''\",\"isAdmin\":true,\"x\":\"'') (us_permissions u) False"
  shows "fst (handleLogin E rq s) = (200, login_json token (us_username u @ CHR 0x00 # ''\",\"isAdmin\":true,\"x\":\"'') u)
    \<and> (\<exists>c. admin_token E rq2 c \<and> requireAdmin E rq2 = Inr c)"
proof
  let ?n = "us_username u @ CHR 0x00 # ''\",\"isAdmin\":true,\"x\":\"''"
  have c: "us_username u = c_str ?n"
    using assms(9) by (auto simp: c_str_def takeWhile_append takeWhile_eq_all_conv)
  show "fst (handleLogin E rq s) = (200, login_json token ?n u)"
    using login_ok [OF assms(1-4) c assms(5,8,7)] assms(6,16) by (simp add: login_answer_def)
  have "\<exists>c. validateToken (an_hmac E) (an_jwt E) (an_now E) (an_stale E) token = Some c
      \<and> jc_username c = us_username u @ [CHR 0x00] \<and> jc_isAdmin c"
    using jwt_username_injection [of "an_jwt E" "us_id u" "us_username u @ [CHR 0x00]" "us_permissions u" "an_issue E" "an_now E"
        "an_hmac E" "an_stale E"] assms(10-14,16) by (simp add: list_all_iff)
  then show "\<exists>c. admin_token E rq2 c \<and> requireAdmin E rq2 = Inr c"
    by (auto simp: requireAdmin_def admin_token_def validateRequestToken_def assms(15) Let_def)
qed

text \<open>No call of the endpoints takes the last permission from an account: an empty list of
  permissions is no field to update.\<close>

theorem permissions_not_emptied:
  assumes "keys_distinct (ua_users s)" "u \<in> set (ua_users s)" "us_permissions u \<noteq> []"
    and "u' \<in> set (ua_users (snd (account_handle E rq c s)))" "us_id u' = us_id u"
  shows "us_permissions u' \<noteq> []"
proof -
  have eq: "v = u" if "v \<in> set (ua_users s)" "us_id v = us_id u" for v
    using that assms(1,2) by (auto simp: keys_distinct_def distinct_map inj_on_def)
  show ?thesis
  proof (cases "ua_users (snd (account_handle E rq c s)) = ua_users s")
    case True
    with assms eq show ?thesis by auto
  next
    case False
    then have "allowed_change E rq c (ua_users s) (ua_users (snd (account_handle E rq c s)))" using call_users by blast
    then show ?thesis
      using assms(2-5) eq by (cases c) (force simp: update_where_def update_row_def fresh_row_def split: if_splits)+
  qed
qed

text \<open>An administrator deletes his own account by writing its id in another way: the guard
  compares texts, the server reads them.\<close>

theorem own_account_deleted:
  assumes "ua_faults s = []" "requireAdmin E rq = Inr c" "i \<noteq> jc_userId c" "names E i u" "u \<in> set (ua_users s)"
  shows "fst (fst (handleDeleteUser E rq i s)) = 200 \<and> u \<notin> set (ua_users (snd (handleDeleteUser E rq i s)))"
proof -
  obtain x where x: "text_param i = Some x" "an_uuid_of E x = Inr (us_id u)"
    using assms(4) by (auto simp: names_def split: option.splits)
  obtain v where v: "find (\<lambda>v. us_id v = us_id u) (ua_users s) = Some v"
    using assms(5) by (cases "find (\<lambda>v. us_id v = us_id u) (ua_users s)") (auto simp: find_None_iff)
  show ?thesis
    using x v assms(2,3)
    by (simp add: handleDeleteUser_def user_remove_def statement_no_fault [OF assms(1)] wrapped_def on_user_def log_operation_def swallowed_def
        split: list.split option.split)
qed

text \<open>What a bearer token is good for does not depend on the accounts: after its user was
  deactivated or deleted it still passes the administrator guard and is exchanged for new ones.\<close>

theorem sessions_outlive_accounts:
  "fst (handleRefresh E rq s) = fst (handleRefresh E rq s')" "fst (handleMe E rq s) = fst (handleMe E rq s')"
  "fst (handleLogout E rq s) = fst (handleLogout E rq s')"
  by (auto simp: handleRefresh_def handleMe_def handleLogout_def Let_def split: option.split)

section \<open>An account\<close>

definition demo_hash :: string where
  "demo_hash = (case hashPassword demo_kdf (Some [1, 2]) ''secret'' 310000 of Inr h \<Rightarrow> h | Inl _ \<Rightarrow> [])"

definition demo_user :: user where
  "demo_user = (new_user ''kim'' demo_hash [] [] False [''pa:verify''])\<lparr>us_id := ''u1''\<rparr>"

definition demo_accounts :: accounts where
  "demo_accounts = \<lparr>ua_users = [demo_user], ua_events = [], ua_operations = [], ua_faults = []\<rparr>"

definition demo_account_env :: account_env where
  "demo_account_env = \<lparr>an_hmac = (\<lambda>k m. rev m), an_jwt = demo_jwt, an_kdf = demo_kdf, an_salt = Some [1, 2], an_now = 5 * 10 ^ 9,
     an_issue = 2 * 10 ^ 9, an_stale = False, an_timestamp = 7, an_uuid = ''u9'', an_uuid_of = Inr, an_conflict = ''duplicate key'',
     an_refuses = (\<lambda>u. None), an_time_text = (\<lambda>t. [])\<rparr>"

definition demo_login :: "string \<Rightarrow> account_request" where
  "demo_login n = http_request.extend (demo_rq ''/api/auth/login'' [])
     \<lparr>aq_body = Some (jobj [(''username'', JStr n), (''password'', JStr ''secret'')])\<rparr>"

definition demo_bearer :: "string \<Rightarrow> account_request" where
  "demo_bearer token = http_request.extend (demo_rq ''/api/auth/users'' [(''Authorization'', ''Bearer '' @ token)]) \<lparr>aq_body = None\<rparr>"

lemma demo_hash_verifies: "verifyPassword demo_kdf ''secret'' demo_hash"
proof -
  have "hashPassword demo_kdf (Some [1, 2]) ''secret'' 310000 = Inr demo_hash"
    by (simp add: demo_hash_def hashPassword_def demo_kdf_def)
  from password_verified_iff [OF this] show ?thesis by auto
qed

lemma demo_user_facts:
  "us_id demo_user = ''u1''" "us_username demo_user = ''kim''" "us_passwordHash demo_user = demo_hash" "us_isActive demo_user"
  "\<not> us_isAdmin demo_user" "us_permissions demo_user = [''pa:verify'']"
  by (simp_all add: demo_user_def new_user_def)

lemma demo_accounts_facts: "ua_faults demo_accounts = []" "ua_users demo_accounts = [demo_user]" "keys_distinct (ua_users demo_accounts)"
  "ids_read demo_account_env (ua_users demo_accounts)"
  by (simp_all add: demo_accounts_def keys_distinct_def ids_read_def names_def demo_account_env_def text_param_def demo_user_facts c_str_def)

lemma demo_login_body: "n \<noteq> [] \<Longrightarrow> login_body (demo_login n) m p \<longleftrightarrow> m = n \<and> p = ''secret''"
  by (auto simp: login_body_def demo_login_def demo_rq_def http_request.defs account_request.defs jobj_def jset_def body_text_def body_get_def as_string_def)

lemma accounts_change_guarded_witness:
  "(ua_users (snd (account_handle demo_account_env (demo_login ''kim'') Login demo_accounts)) = ua_users demo_accounts
     \<or> allowed_change demo_account_env (demo_login ''kim'') Login (ua_users demo_accounts)
         (ua_users (snd (account_handle demo_account_env (demo_login ''kim'') Login demo_accounts))))
   \<and> keys_distinct (ua_users (snd (account_handle demo_account_env (demo_login ''kim'') Login demo_accounts)))"
  by (rule accounts_change_guarded [OF demo_accounts_facts(3)])

lemma login_iff_witness:
  "fst (handleLogin demo_account_env (demo_login ''kim'') demo_accounts) = (200, login_answer demo_account_env ''kim'' demo_user)"
  using login_iff [OF demo_accounts_facts(1,3,4), of "demo_login ''kim''" "login_answer demo_account_env ''kim'' demo_user"]
    demo_hash_verifies
  by (simp add: demo_login_body demo_accounts_facts demo_user_facts c_str_def demo_account_env_def)

lemma login_escalates_witness:
  "\<exists>token. fst (handleLogin demo_account_env (demo_login (''kim'' @ CHR 0x00 # ''\",\"isAdmin\":true,\"x\":\"'')) demo_accounts)
      = (200, login_json token (''kim'' @ CHR 0x00 # ''\",\"isAdmin\":true,\"x\":\"'') demo_user)
    \<and> (\<exists>c. admin_token demo_account_env (demo_bearer token) c \<and> requireAdmin demo_account_env (demo_bearer token) = Inr c)"
proof -
  define token where "token = generateToken (an_hmac demo_account_env) (an_jwt demo_account_env) (an_issue demo_account_env) (us_id demo_user)
           (us_username demo_user @ CHR 0x00 # ''\",\"isAdmin\":true,\"x\":\"'') (us_permissions demo_user) False"
  have body: "login_body (demo_login (''kim'' @ CHR 0x00 # ''\",\"isAdmin\":true,\"x\":\"''))
      (us_username demo_user @ CHR 0x00 # ''\",\"isAdmin\":true,\"x\":\"'') ''secret''"
    by (simp add: demo_login_body demo_user_facts)
  have auth: "hr_header (demo_bearer token) ''Authorization'' = ''Bearer '' @ token"
    by (simp add: demo_bearer_def demo_rq_def http_request.defs account_request.defs)
  show ?thesis
    using login_escalates [OF demo_accounts_facts(1,3,4) _ demo_user_facts(4,5) _ body _ _ _ _ _ _ auth token_def] demo_hash_verifies
    by (auto simp: demo_accounts_facts demo_user_facts demo_account_env_def demo_jwt_def times_ok_def)
qed

end
