(* ===== verification/Revalidation.thy ===== *)
theory Revalidation
  imports Csca_Provider Compliance
begin

text \<open>
  The validation service of \<^verbatim>\<open>pkd-management\<close> (services/validation_service.cpp): the verdict on one certificate, the
  validation of a link certificate, and the re-validation of the stored DSCs without a CSCA, with the two repository
  operations it rests on (findDscForRevalidation and parseCertificateDataFromHex of certificate_repository.cpp,
  updateRevalidation of validation_repository.cpp), for PostgreSQL.  OpenSSL, the providers, the clock and the order the
  server puts equal rows in are the record \<open>reval_env\<close>; the library calls of the model do not throw, so that the status
  \<^verbatim>\<open>ERROR\<close> appears for a null certificate only.
\<close>

section \<open>Data\<close>

record ('x, 'k, 't, 'crl, 'rev, 'ext) reval_env =
  re_ssl :: "('x, 'k, 't) openssl"
  re_crl_ssl :: "('crl, 'rev, 'ext, 't) crl_ssl"
  re_crls :: "(string \<Rightarrow> 'crl option) option"
  re_provider :: "nat \<Rightarrow> 'x provider"
  re_clock :: "nat \<Rightarrow> nat \<Rightarrow> int"
  re_d2i :: "byte list \<Rightarrow> 'x option"

text \<open>What the operations read and write of the tables \<^verbatim>\<open>certificate\<close> and \<^verbatim>\<open>validation_result\<close>.\<close>

record certificate_row =
  ct_id :: string
  ct_type :: string
  ct_data :: "string option"
  ct_status :: string

record verdict_row =
  vd_certificate :: string
  vd_status :: string
  vd_trustChainValid :: bool
  vd_cscaFound :: bool
  vd_signatureValid :: bool
  vd_message :: "string option"
  vd_cscaSubjectDn :: "string option"
  vd_revocation :: string
  vd_crlChecked :: bool

record validation_verdict =
  vv_trustChainValid :: bool
  vv_trustChainPath :: string
  vv_signatureValid :: bool
  vv_crlChecked :: bool
  vv_revoked :: bool
  vv_crlMessage :: string
  vv_cscaFound :: bool
  vv_cscaSubjectDn :: string
  vv_cscaFingerprint :: string
  vv_dscExpired :: bool
  vv_cscaExpired :: bool
  vv_validationStatus :: string
  vv_errorMessage :: string

definition validation_verdict0 :: validation_verdict where
  "validation_verdict0 = \<lparr>vv_trustChainValid = False, vv_trustChainPath = [], vv_signatureValid = False, vv_crlChecked = False,
     vv_revoked = False, vv_crlMessage = [], vv_cscaFound = False, vv_cscaSubjectDn = [], vv_cscaFingerprint = [],
     vv_dscExpired = False, vv_cscaExpired = False, vv_validationStatus = ''PENDING'', vv_errorMessage = []\<rparr>"

record revalidate_result =
  rx_success :: bool
  rx_totalProcessed :: nat
  rx_validCount :: nat
  rx_expiredValidCount :: nat
  rx_invalidCount :: nat
  rx_pendingCount :: nat
  rx_errorCount :: nat
  rx_message :: string

definition revalidate_result0 :: revalidate_result where
  "revalidate_result0 = \<lparr>rx_success = False, rx_totalProcessed = 0, rx_validCount = 0, rx_expiredValidCount = 0,
     rx_invalidCount = 0, rx_pendingCount = 0, rx_errorCount = 0, rx_message = []\<rparr>"

section \<open>One certificate\<close>

text \<open>Step 3, on a verdict whose status is decided.\<close>

definition check_revocation :: "('x, 'k, 't, 'crl, 'rev, 'ext) reval_env \<Rightarrow> int \<Rightarrow> 'x \<Rightarrow> validation_verdict \<Rightarrow> validation_verdict" where
  "check_revocation E now c v =
     (case re_crls E of None \<Rightarrow> v
      | Some crls \<Rightarrow>
          let countryCode = extractDnAttribute (getIssuerDn (re_ssl E) (Some c)) ''C'' in
          if countryCode = [] then v
          else
            let r = crl_check (re_ssl E) (re_crl_ssl E) crls now (Some c) countryCode in
            v\<lparr>vv_crlChecked := True, vv_revoked := (cc_status r = CRL_REVOKED), vv_crlMessage := cc_message r\<rparr>)"

definition validateCertificate :: "('x, 'k, 't, 'crl, 'rev, 'ext) reval_env \<Rightarrow> nat \<Rightarrow> 'x option \<Rightarrow> validation_verdict" where
  "validateCertificate E k cert =
     (let L = re_ssl E; clock = re_clock E k; v = validation_verdict0 in
      case cert of
        None \<Rightarrow> v\<lparr>vv_validationStatus := ''ERROR'', vv_errorMessage := ''Certificate is null''\<rparr>
      | Some c \<Rightarrow>
          let v = v\<lparr>vv_dscExpired := isCertificateExpired L (clock 0) cert\<rparr> in
          if isCertificateNotYetValid L (clock 1) cert
          then v\<lparr>vv_validationStatus := ''INVALID'', vv_errorMessage := ''Certificate is not yet valid''\<rparr>
          else
            let chain = build L (re_provider E k) (clock 2) (clock 3) 5 cert in
            if \<not> tc_valid chain
            then v\<lparr>vv_validationStatus := ''INVALID'', vv_errorMessage := ''Failed to build trust chain: '' @ tc_message chain,
                   vv_trustChainPath := tc_path chain\<rparr>
            else check_revocation E (clock 4) c
              (v\<lparr>vv_cscaFound := True, vv_trustChainPath := tc_path chain, vv_cscaSubjectDn := tc_cscaSubjectDn chain,
                 vv_cscaFingerprint := tc_cscaFingerprint chain, vv_cscaExpired := tc_cscaExpired chain, vv_signatureValid := True,
                 vv_trustChainValid := True,
                 vv_validationStatus := (if vv_dscExpired v \<or> tc_cscaExpired chain then ''EXPIRED_VALID'' else ''VALID'')\<rparr>))"

record link_verdict =
  lv_isValid :: bool
  lv_message :: string
  lv_trustChainPath :: string
  lv_chainLength :: nat

definition service_validateLinkCertificate :: "('x, 'k, 't, 'crl, 'rev, 'ext) reval_env \<Rightarrow> nat \<Rightarrow> 'x option \<Rightarrow> link_verdict" where
  "service_validateLinkCertificate E k cert =
     (let v = \<lparr>lv_isValid = False, lv_message = [], lv_trustChainPath = [], lv_chainLength = 0\<rparr> in
      if cert = None then v\<lparr>lv_message := ''Certificate is null''\<rparr>
      else if \<not> isLinkCertificate (re_ssl E) cert
      then v\<lparr>lv_message := ''Certificate does not meet Link Certificate criteria (requires: not self-signed, CA:TRUE, keyCertSign)''\<rparr>
      else
        let chain = build (re_ssl E) (re_provider E k) (re_clock E k 2) (re_clock E k 3) 5 cert in
        if \<not> tc_valid chain
        then v\<lparr>lv_message := ''Failed to build trust chain: '' @ tc_message chain, lv_trustChainPath := tc_path chain\<rparr>
        else \<lparr>lv_isValid = True,
          lv_message = (if tc_cscaExpired chain
                        then ''Link Certificate trust chain verified (CSCA expired, informational per ICAO 9303)''
                        else ''Link Certificate trust chain verified successfully''),
          lv_trustChainPath = tc_path chain, lv_chainLength = tc_depth chain\<rparr>)"

section \<open>The repositories\<close>

text \<open>The rows of the join that await a CSCA, and the selection: put in order by the server (\<open>by_not_after\<close>), the
  first of them.  A query that fails yields no rows.\<close>

definition awaits_csca :: "certificate_row \<Rightarrow> verdict_row \<Rightarrow> bool" where
  "awaits_csca c v \<longleftrightarrow> ct_id c = vd_certificate v \<and> ct_type c \<in> {''DSC'', ''DSC_NC''} \<and> \<not> vd_cscaFound v
     \<and> vd_status v \<in> {''INVALID'', ''PENDING''}"

definition findDscForRevalidation :: "bool \<Rightarrow> (certificate_row list \<Rightarrow> certificate_row list) \<Rightarrow> nat \<Rightarrow> certificate_row list \<Rightarrow> verdict_row list
    \<Rightarrow> certificate_row list" where
  "findDscForRevalidation query_fails by_not_after limit cs vs =
     (if query_fails then [] else take limit (by_not_after (map fst (filter (\<lambda>(c, v). awaits_csca c v) (List.product cs vs)))))"

definition der_of_column :: "string \<Rightarrow> byte list" where
  "der_of_column hexData =
     (if 2 < length hexData \<and> hexData ! 0 = CHR 0x5C \<and> hexData ! 1 = CHR ''x'' then
        let der = hex_pairs (drop 2 hexData) in
        if 2 < length der \<and> der ! 0 = 0x5C \<and> der ! 1 = 0x78 then hex_pairs (map char_of_byte (drop 2 der)) else der
      else if hexData ! 0 = CHR 0x30 then map byte_of_char hexData
      else [])"

definition parseCertificateDataFromHex :: "(byte list \<Rightarrow> 'x option) \<Rightarrow> string \<Rightarrow> 'x option" where
  "parseCertificateDataFromHex d2i hexData =
     (if hexData = [] then None
      else let der = der_of_column hexData in if der = [] then None else d2i der)"

text \<open>\<^verbatim>\<open>updateRevalidation\<close>: an empty text is written as NULL.  The write of a row fails when the server says so; the
  caller does not look at the answer.\<close>

definition written_text :: "string \<Rightarrow> string option" where
  "written_text s = (if s = [] then None else Some (c_str s))"

definition write_verdict :: "validation_verdict \<Rightarrow> verdict_row \<Rightarrow> verdict_row" where
  "write_verdict v r = r\<lparr>vd_status := vv_validationStatus v, vd_trustChainValid := vv_trustChainValid v, vd_cscaFound := vv_cscaFound v,
     vd_signatureValid := vv_signatureValid v,
     vd_message := written_text (if vv_trustChainPath v = [] then vv_errorMessage v else vv_trustChainPath v),
     vd_cscaSubjectDn := written_text (vv_cscaSubjectDn v)\<rparr>"

definition updateRevalidation :: "bool \<Rightarrow> string \<Rightarrow> validation_verdict \<Rightarrow> verdict_row list \<Rightarrow> bool \<times> verdict_row list" where
  "updateRevalidation fails certId v rows =
     (if fails then (False, rows)
      else (True, map (\<lambda>r. if vd_certificate r = certId then write_verdict v r else r) rows))"

section \<open>Re-validation\<close>

definition count_verdict :: "string \<Rightarrow> revalidate_result \<Rightarrow> revalidate_result" where
  "count_verdict st r =
     (if st = ''VALID'' then r\<lparr>rx_validCount := rx_validCount r + 1\<rparr>
      else if st = ''EXPIRED_VALID'' then r\<lparr>rx_validCount := rx_validCount r + 1, rx_expiredValidCount := rx_expiredValidCount r + 1\<rparr>
      else if st = ''INVALID'' then r\<lparr>rx_invalidCount := rx_invalidCount r + 1\<rparr>
      else if st = ''PENDING'' then r\<lparr>rx_pendingCount := rx_pendingCount r + 1\<rparr>
      else r\<lparr>rx_errorCount := rx_errorCount r + 1\<rparr>)"

text \<open>One round for the \<open>k\<close>-th selected row; \<open>fails k\<close> says whether its write fails.\<close>

definition revalidate_one :: "('x, 'k, 't, 'crl, 'rev, 'ext) reval_env \<Rightarrow> (nat \<Rightarrow> bool) \<Rightarrow> nat \<Rightarrow> certificate_row
    \<Rightarrow> revalidate_result \<times> verdict_row list \<Rightarrow> revalidate_result \<times> verdict_row list" where
  "revalidate_one E fails k row s =
     (case s of (r, vs) \<Rightarrow>
        let r = r\<lparr>rx_totalProcessed := rx_totalProcessed r + 1\<rparr>;
            certDataHex = (case ct_data row of None \<Rightarrow> [] | Some d \<Rightarrow> d);
            failed = (r\<lparr>rx_errorCount := rx_errorCount r + 1\<rparr>, vs)
        in if certDataHex = [] then failed
           else case parseCertificateDataFromHex (re_d2i E) certDataHex of
                  None \<Rightarrow> failed
                | Some c \<Rightarrow>
                    let v = validateCertificate E k (Some c) in
                    (count_verdict (vv_validationStatus v) r, snd (updateRevalidation (fails k) (ct_id row) v vs)))"

fun revalidate_rows :: "('x, 'k, 't, 'crl, 'rev, 'ext) reval_env \<Rightarrow> (nat \<Rightarrow> bool) \<Rightarrow> nat \<Rightarrow> certificate_row list
    \<Rightarrow> revalidate_result \<times> verdict_row list \<Rightarrow> revalidate_result \<times> verdict_row list" where
  "revalidate_rows E fails k [] s = s"
| "revalidate_rows E fails k (row # rows) s = revalidate_rows E fails (Suc k) rows (revalidate_one E fails k row s)"

definition revalidateDscCertificates :: "('x, 'k, 't, 'crl, 'rev, 'ext) reval_env \<Rightarrow> bool \<Rightarrow> (certificate_row list \<Rightarrow> certificate_row list)
    \<Rightarrow> (nat \<Rightarrow> bool) \<Rightarrow> certificate_row list \<Rightarrow> verdict_row list \<Rightarrow> revalidate_result \<times> verdict_row list" where
  "revalidateDscCertificates E query_fails by_not_after fails cs vs =
     (case revalidate_rows E fails 0 (findDscForRevalidation query_fails by_not_after 50000 cs vs) (revalidate_result0, vs) of
        (r, vs') \<Rightarrow> (r\<lparr>rx_success := True, rx_message := ''Re-validation completed successfully''\<rparr>, vs'))"

section \<open>The verdict\<close>

lemma check_revocation_fields [simp]:
  "vv_validationStatus (check_revocation E now c v) = vv_validationStatus v" "vv_cscaFound (check_revocation E now c v) = vv_cscaFound v"
  "vv_trustChainValid (check_revocation E now c v) = vv_trustChainValid v" "vv_signatureValid (check_revocation E now c v) = vv_signatureValid v"
  "vv_trustChainPath (check_revocation E now c v) = vv_trustChainPath v" "vv_cscaSubjectDn (check_revocation E now c v) = vv_cscaSubjectDn v"
  "vv_errorMessage (check_revocation E now c v) = vv_errorMessage v"
  by (simp_all add: check_revocation_def Let_def split: option.split)

definition chain_of :: "('x, 'k, 't, 'crl, 'rev, 'ext) reval_env \<Rightarrow> nat \<Rightarrow> 'x \<Rightarrow> trust_chain_result" where
  "chain_of E k c = build (re_ssl E) (re_provider E k) (re_clock E k 2) (re_clock E k 3) 5 (Some c)"

lemma verdict_status:
  "vv_validationStatus (validateCertificate E k (Some c)) =
     (if isCertificateNotYetValid (re_ssl E) (re_clock E k 1) (Some c) \<or> \<not> tc_valid (chain_of E k c) then ''INVALID''
      else if isCertificateExpired (re_ssl E) (re_clock E k 0) (Some c) \<or> tc_cscaExpired (chain_of E k c) then ''EXPIRED_VALID''
      else ''VALID'')"
  by (simp add: validateCertificate_def chain_of_def Let_def)

lemma verdict_accepted:
  assumes "vv_validationStatus (validateCertificate E k (Some c)) \<noteq> ''INVALID''"
  shows "tc_valid (chain_of E k c)" "vv_cscaFound (validateCertificate E k (Some c))"
    "vv_cscaSubjectDn (validateCertificate E k (Some c)) = tc_cscaSubjectDn (chain_of E k c)"
  using assms by (auto simp: validateCertificate_def chain_of_def Let_def split: if_splits)

lemma accepted_chain:
  assumes "tc_valid (chain_of E k c)"
  shows "\<exists>cs. hd (c # cs) = c \<and> signed_chain (re_ssl E) (c # cs) \<and> trusted_root (re_ssl E) (last (c # cs))
    \<and> set cs \<subseteq> provided (re_provider E k) \<and> length cs < 5 \<and> tc_cscaSubjectDn (chain_of E k c) = getSubjectDn (re_ssl E) (Some (last (c # cs)))"
  using assms [unfolded chain_of_def]
proof (cases rule: build_run_valid)
  case (1 leaf w)
  from 1 obtain ext where e: "w_chain w = (c, False) # map (\<lambda>c. (c, True)) ext"
      "set ext \<subseteq> provided (re_provider E k)" "w_current w = last (c # ext)"
    unfolding walk_shape_def by auto
  have ch: "map fst (w_chain w) = c # ext" by (simp add: e(1))
  have "tc_cscaSubjectDn (build (re_ssl E) (re_provider E k) (re_clock E k 2) (re_clock E k 3) 5 (Some c)) = tc_cscaSubjectDn (w_result w)"
    using 1(3) by (simp add: build_def finish_fields)
  with 1 e ch show ?thesis by (intro exI [of _ ext]) (auto simp: chain_of_def)
qed

section \<open>The run\<close>

definition loaded :: "('x, 'k, 't, 'crl, 'rev, 'ext) reval_env \<Rightarrow> certificate_row \<Rightarrow> 'x option" where
  "loaded E row = parseCertificateDataFromHex (re_d2i E) (case ct_data row of None \<Rightarrow> [] | Some d \<Rightarrow> d)"

lemma revalidate_one_loaded:
  "revalidate_one E fails k row (r, vs) =
     (case loaded E row of
        None \<Rightarrow> (r\<lparr>rx_totalProcessed := rx_totalProcessed r + 1, rx_errorCount := rx_errorCount r + 1\<rparr>, vs)
      | Some c \<Rightarrow> (count_verdict (vv_validationStatus (validateCertificate E k (Some c))) (r\<lparr>rx_totalProcessed := rx_totalProcessed r + 1\<rparr>),
          snd (updateRevalidation (fails k) (ct_id row) (validateCertificate E k (Some c)) vs)))"
  by (auto simp: revalidate_one_def loaded_def parseCertificateDataFromHex_def Let_def split: option.split)

text \<open>What a run over \<open>rows\<close> makes of a verdict row.\<close>

definition rewritten :: "('x, 'k, 't, 'crl, 'rev, 'ext) reval_env \<Rightarrow> certificate_row set \<Rightarrow> verdict_row \<Rightarrow> verdict_row \<Rightarrow> bool" where
  "rewritten E rows r r' \<longleftrightarrow> (\<exists>row \<in> rows. \<exists>k c. ct_id row = vd_certificate r \<and> loaded E row = Some c
     \<and> r' = write_verdict (validateCertificate E k (Some c)) r)"

definition due :: "('x, 'k, 't, 'crl, 'rev, 'ext) reval_env \<Rightarrow> certificate_row set \<Rightarrow> verdict_row \<Rightarrow> bool" where
  "due E rows r \<longleftrightarrow> (\<exists>row \<in> rows. ct_id row = vd_certificate r \<and> loaded E row \<noteq> None)"

lemma write_verdict_facts [simp]: "write_verdict v (write_verdict v' r) = write_verdict v r" "vd_certificate (write_verdict v r) = vd_certificate r"
  by (simp_all add: write_verdict_def)

lemma rewritten_trans:
  "rewritten E A r r' \<Longrightarrow> rewritten E B r' r'' \<Longrightarrow> rewritten E (A \<union> B) r r''"
  unfolding rewritten_def by fastforce

lemma rewritten_mono: "rewritten E A r r' \<Longrightarrow> A \<subseteq> B \<Longrightarrow> rewritten E B r r'"
  unfolding rewritten_def by blast

lemma rewritten_id: "rewritten E A r r' \<Longrightarrow> vd_certificate r' = vd_certificate r"
  unfolding rewritten_def by auto

lemma one_rewritten:
  "list_all2 (\<lambda>r r'. r' = r \<or> rewritten E {row} r r') vs (snd (revalidate_one E fails k row (res, vs)))"
  by (auto simp: revalidate_one_loaded updateRevalidation_def rewritten_def list_all2_conv_all_nth split: option.split)

lemma rows_rewritten:
  "list_all2 (\<lambda>r r'. r' = r \<or> rewritten E (set rows) r r') vs (snd (revalidate_rows E fails k rows (res, vs)))"
proof (induction rows arbitrary: k res vs)
  case Nil
  then show ?case by (simp add: list.rel_refl)
next
  case (Cons row rows)
  obtain res1 vs1 where one: "revalidate_one E fails k row (res, vs) = (res1, vs1)" by force
  have a: "list_all2 (\<lambda>r r'. r' = r \<or> rewritten E {row} r r') vs vs1" using one_rewritten [of E row vs fails k res] one by simp
  have b: "list_all2 (\<lambda>r r'. r' = r \<or> rewritten E (set rows) r r') vs1 (snd (revalidate_rows E fails (Suc k) rows (res1, vs1)))"
    by (rule Cons.IH)
  have c: "r'' = r \<or> rewritten E (set (row # rows)) r r''"
    if "r' = r \<or> rewritten E {row} r r'" "r'' = r' \<or> rewritten E (set rows) r' r''" for r r' r''
    using that rewritten_trans [of E "{row}" r r' "set rows" r''] by (auto intro: rewritten_mono)
  show ?case using list_all2_trans [OF c a b] one by simp
qed

lemma one_exact:
  "list_all2 (\<lambda>r r'. if due E {row} r then rewritten E {row} r r' else r' = r) vs (snd (revalidate_one E (\<lambda>_. False) k row (res, vs)))"
  by (auto simp: revalidate_one_loaded updateRevalidation_def rewritten_def due_def list_all2_conv_all_nth split: option.split)

definition exactly :: "('x, 'k, 't, 'crl, 'rev, 'ext) reval_env \<Rightarrow> certificate_row set \<Rightarrow> verdict_row \<Rightarrow> verdict_row \<Rightarrow> bool" where
  "exactly E rows r r' \<longleftrightarrow> (if due E rows r then rewritten E rows r r' else r' = r)"

lemma exactly_trans:
  assumes "exactly E A r r'" "exactly E B r' r''"
  shows "exactly E (A \<union> B) r r''"
proof -
  have "vd_certificate r' = vd_certificate r" using assms(1) rewritten_id by (auto simp: exactly_def split: if_splits)
  then have d: "due E B r' \<longleftrightarrow> due E B r" by (simp add: due_def)
  have u: "due E (A \<union> B) r \<longleftrightarrow> due E A r \<or> due E B r" unfolding due_def by blast
  show ?thesis
  proof (cases "due E A r")
    case True
    then have a: "rewritten E A r r'" using assms(1) by (simp add: exactly_def)
    have "rewritten E (A \<union> B) r r''"
    proof (cases "due E B r")
      case True
      then show ?thesis using a assms(2) d rewritten_trans by (simp add: exactly_def)
    next
      case False
      then show ?thesis using a assms(2) d rewritten_mono [of E A r r' "A \<union> B"] by (simp add: exactly_def)
    qed
    with True u show ?thesis by (simp add: exactly_def)
  next
    case False
    then have "r' = r" using assms(1) by (simp add: exactly_def)
    with False show ?thesis using assms(2) u rewritten_mono [of E B r r'' "A \<union> B"] by (simp add: exactly_def)
  qed
qed

lemma rows_exact:
  "list_all2 (exactly E (set rows)) vs (snd (revalidate_rows E (\<lambda>_. False) k rows (res, vs)))"
proof (induction rows arbitrary: k res vs)
  case Nil
  then show ?case by (simp add: list.rel_refl exactly_def due_def)
next
  case (Cons row rows)
  obtain res1 vs1 where one: "revalidate_one E (\<lambda>_. False) k row (res, vs) = (res1, vs1)" by force
  have a: "list_all2 (exactly E {row}) vs vs1"
    using one_exact [of E row vs k res] one by (simp add: exactly_def [abs_def])
  have b: "list_all2 (exactly E (set rows)) vs1 (snd (revalidate_rows E (\<lambda>_. False) (Suc k) rows (res1, vs1)))"
    by (rule Cons.IH)
  have c: "exactly E (set (row # rows)) r r''" if "exactly E {row} r r'" "exactly E (set rows) r' r''" for r r' r''
    using exactly_trans [OF that] by simp
  show ?case using list_all2_trans [OF c a b] one by simp
qed

section \<open>Counts\<close>

definition sums :: "revalidate_result \<Rightarrow> bool" where
  "sums r \<longleftrightarrow> rx_totalProcessed r = rx_validCount r + rx_invalidCount r + rx_errorCount r \<and> rx_pendingCount r = 0
     \<and> rx_expiredValidCount r \<le> rx_validCount r"

lemma one_counts:
  assumes "sums r"
  shows "sums (fst (revalidate_one E fails k row (r, vs)))
    \<and> rx_totalProcessed (fst (revalidate_one E fails k row (r, vs))) = rx_totalProcessed r + 1"
  using assms by (auto simp: revalidate_one_loaded sums_def count_verdict_def verdict_status split: option.split)

lemma rows_counts:
  "sums r \<Longrightarrow> sums (fst (revalidate_rows E fails k rows (r, vs)))
    \<and> rx_totalProcessed (fst (revalidate_rows E fails k rows (r, vs))) = rx_totalProcessed r + length rows"
proof (induction rows arbitrary: k r vs)
  case Nil
  then show ?case by simp
next
  case (Cons row rows)
  obtain r1 vs1 where one: "revalidate_one E fails k row (r, vs) = (r1, vs1)" by force
  then show ?case using one_counts [OF Cons.prems, of E fails k row vs] Cons.IH [of r1 "Suc k" vs1] by simp
qed

section \<open>Properties\<close>

lemma found_rows:
  assumes "\<And>xs. set (by_not_after xs) \<subseteq> set xs"
  shows "set (findDscForRevalidation qf by_not_after n cs vs) \<subseteq> {c \<in> set cs. \<exists>v \<in> set vs. awaits_csca c v}"
  using assms [of "map fst (filter (\<lambda>(c, v). awaits_csca c v) (List.product cs vs))"]
  by (auto simp: findDscForRevalidation_def dest!: in_set_takeD subsetD)

lemma run_parts:
  "snd (revalidateDscCertificates E qf by_not_after fails cs vs)
     = snd (revalidate_rows E fails 0 (findDscForRevalidation qf by_not_after 50000 cs vs) (revalidate_result0, vs))"
  "rx_success (fst (revalidateDscCertificates E qf by_not_after fails cs vs))"
  "sums (fst (revalidateDscCertificates E qf by_not_after fails cs vs))"
  "rx_totalProcessed (fst (revalidateDscCertificates E qf by_not_after fails cs vs))
     = length (findDscForRevalidation qf by_not_after 50000 cs vs)"
proof -
  obtain r vs' where r: "revalidate_rows E fails 0 (findDscForRevalidation qf by_not_after 50000 cs vs) (revalidate_result0, vs) = (r, vs')"
    by force
  have "sums revalidate_result0" by (simp add: sums_def revalidate_result0_def)
  from rows_counts [OF this, of E fails 0 "findDscForRevalidation qf by_not_after 50000 cs vs" vs] r
  have "sums r" "rx_totalProcessed r = length (findDscForRevalidation qf by_not_after 50000 cs vs)"
    by (simp_all add: revalidate_result0_def)
  then show "snd (revalidateDscCertificates E qf by_not_after fails cs vs)
     = snd (revalidate_rows E fails 0 (findDscForRevalidation qf by_not_after 50000 cs vs) (revalidate_result0, vs))"
    "rx_success (fst (revalidateDscCertificates E qf by_not_after fails cs vs))"
    "sums (fst (revalidateDscCertificates E qf by_not_after fails cs vs))"
    "rx_totalProcessed (fst (revalidateDscCertificates E qf by_not_after fails cs vs))
     = length (findDscForRevalidation qf by_not_after 50000 cs vs)"
    by (simp_all add: revalidateDscCertificates_def r sums_def)
qed

text \<open>C13. Whatever writes fail, a row that a re-validation changes to anything but \<^verbatim>\<open>INVALID\<close> belongs to a stored DSC that
  heads a chain of at most five certificates, each verified with the key of the next, of which all but the first come from
  the CSCA provider and the last is self-signed with a valid signature; the row names that CSCA, and the status
  \<^verbatim>\<open>VALID\<close> is given only to a DSC that had not expired.\<close>

theorem revalidation_sound:
  fixes E :: "('x, 'k, 't, 'crl, 'rev, 'ext) reval_env"
  assumes "\<And>xs. set (by_not_after xs) \<subseteq> set xs" and "i < length vs"
    and "vs' = snd (revalidateDscCertificates E qf by_not_after fails cs vs)"
    and "vs' ! i \<noteq> vs ! i" "vd_status (vs' ! i) \<noteq> ''INVALID''"
  shows "\<exists>row c k ext. row \<in> set cs \<and> ct_id row = vd_certificate (vs ! i) \<and> ct_type row \<in> {''DSC'', ''DSC_NC''} \<and> loaded E row = Some c
    \<and> signed_chain (re_ssl E) (c # ext) \<and> trusted_root (re_ssl E) (last (c # ext)) \<and> set ext \<subseteq> provided (re_provider E k)
    \<and> length ext < 5 \<and> vd_cscaFound (vs' ! i)
    \<and> vd_cscaSubjectDn (vs' ! i) = written_text (getSubjectDn (re_ssl E) (Some (last (c # ext))))
    \<and> (vd_status (vs' ! i) = ''VALID'' \<longrightarrow> \<not> isCertificateExpired (re_ssl E) (re_clock E k 0) (Some c))"
proof -
  let ?rows = "findDscForRevalidation qf by_not_after 50000 cs vs"
  have "vs' = snd (revalidate_rows E fails 0 ?rows (revalidate_result0, vs))" by (simp only: assms(3) run_parts(1))
  then have "rewritten E (set ?rows) (vs ! i) (vs' ! i)"
    using rows_rewritten [of E ?rows vs fails 0 revalidate_result0] assms(2,4) by (auto simp: list_all2_conv_all_nth)
  then obtain row k c where r: "row \<in> set ?rows" "ct_id row = vd_certificate (vs ! i)" "loaded E row = Some c"
      "vs' ! i = write_verdict (validateCertificate E k (Some c)) (vs ! i)"
    unfolding rewritten_def by blast
  have row: "row \<in> set cs" "ct_type row \<in> {''DSC'', ''DSC_NC''}"
    using found_rows [OF assms(1)] r(1) by (auto simp: awaits_csca_def dest!: subsetD)
  have st: "vd_status (vs' ! i) = vv_validationStatus (validateCertificate E k (Some c))"
    and fd: "vd_cscaFound (vs' ! i) = vv_cscaFound (validateCertificate E k (Some c))"
    and dn: "vd_cscaSubjectDn (vs' ! i) = written_text (vv_cscaSubjectDn (validateCertificate E k (Some c)))"
    by (simp_all add: r(4) write_verdict_def)
  note acc = verdict_accepted [OF assms(5) [unfolded st]]
  obtain ext where "signed_chain (re_ssl E) (c # ext)" "trusted_root (re_ssl E) (last (c # ext))"
      "set ext \<subseteq> provided (re_provider E k)" "length ext < 5"
      "tc_cscaSubjectDn (chain_of E k c) = getSubjectDn (re_ssl E) (Some (last (c # ext)))"
    using accepted_chain [OF acc(1)] by blast
  moreover have "vd_status (vs' ! i) = ''VALID'' \<longrightarrow> \<not> isCertificateExpired (re_ssl E) (re_clock E k 0) (Some c)"
    by (simp add: st verdict_status)
  ultimately show ?thesis using r(2,3) row acc(2,3) fd dn by (intro exI [of _ row] exI [of _ c] exI [of _ k] exI [of _ ext]) simp
qed

text \<open>Without faults, and with no more than 50000 rows awaiting a CSCA, exactly the verdicts of those of their certificates
  that can be parsed are replaced, and every processed row is counted once.\<close>

theorem revalidation_exact:
  assumes "\<And>xs. mset (by_not_after xs) = mset xs" "length (filter (\<lambda>(c, v). awaits_csca c v) (List.product cs vs)) \<le> 50000"
  shows "list_all2 (exactly E {c \<in> set cs. \<exists>v \<in> set vs. awaits_csca c v}) vs
      (snd (revalidateDscCertificates E False by_not_after (\<lambda>_. False) cs vs))
    \<and> rx_totalProcessed (fst (revalidateDscCertificates E False by_not_after (\<lambda>_. False) cs vs))
      = length (filter (\<lambda>(c, v). awaits_csca c v) (List.product cs vs))
    \<and> sums (fst (revalidateDscCertificates E False by_not_after (\<lambda>_. False) cs vs))"
proof -
  let ?sel = "map fst (filter (\<lambda>(c, v). awaits_csca c v) (List.product cs vs))"
  let ?rows = "findDscForRevalidation False by_not_after 50000 cs vs"
  have m: "set (by_not_after ?sel) = set ?sel" "length (by_not_after ?sel) = length ?sel"
    using assms(1) [of ?sel] by (metis mset_eq_setD, metis mset_eq_length)
  have rows: "?rows = by_not_after ?sel" using assms(2) m(2) by (simp add: findDscForRevalidation_def)
  have "set ?rows = {c \<in> set cs. \<exists>v \<in> set vs. awaits_csca c v}" unfolding rows m(1) by force
  moreover have "length ?rows = length (filter (\<lambda>(c, v). awaits_csca c v) (List.product cs vs))" unfolding rows m(2) by simp
  ultimately show ?thesis
    using rows_exact [of E ?rows vs 0 revalidate_result0] run_parts(3,4) [of E False by_not_after "\<lambda>_. False" cs vs]
      run_parts(1) [of E False by_not_after "\<lambda>_. False" cs vs] by simp
qed

lemma revocation_not_written:
  "write_verdict (validateCertificate (E\<lparr>re_crls := crls\<rparr>) k (Some c)) = write_verdict (validateCertificate E k (Some c))"
  "vv_validationStatus (validateCertificate (E\<lparr>re_crls := crls\<rparr>) k (Some c)) = vv_validationStatus (validateCertificate E k (Some c))"
  by (auto simp: write_verdict_def validateCertificate_def Let_def fun_eq_iff)

lemma one_ignores: "revalidate_one (E\<lparr>re_crls := crls\<rparr>) fails k row s = revalidate_one E fails k row s"
  by (cases s) (simp add: revalidate_one_loaded loaded_def updateRevalidation_def revocation_not_written split: option.split)

lemma rows_ignore: "revalidate_rows (E\<lparr>re_crls := crls\<rparr>) fails k rows s = revalidate_rows E fails k rows s"
  by (induction rows arbitrary: k s) (simp_all add: one_ignores)

text \<open>C24. The revocation lists play no part in a re-validation: whatever CRLs are stored, or none, the rows written and the
  counts are the same, so that a DSC found revoked is stored and counted as valid.\<close>

theorem revalidation_ignores_revocation:
  "revalidateDscCertificates (E\<lparr>re_crls := crls\<rparr>) qf by_not_after fails cs vs
     = revalidateDscCertificates E qf by_not_after fails cs vs"
  by (simp add: revalidateDscCertificates_def rows_ignore)

text \<open>A selection that fails is reported as a completed re-validation of no rows.\<close>

theorem failed_query_succeeds:
  "rx_success (fst (revalidateDscCertificates E True by_not_after fails cs vs))
    \<and> rx_totalProcessed (fst (revalidateDscCertificates E True by_not_after fails cs vs)) = 0
    \<and> snd (revalidateDscCertificates E True by_not_after fails cs vs) = vs"
  by (simp add: revalidateDscCertificates_def findDscForRevalidation_def revalidate_result0_def)

text \<open>A link certificate is accepted exactly when it has the shape of one and its chain is valid.\<close>

lemma service_link_iff:
  "lv_isValid (service_validateLinkCertificate E k (Some c)) \<longleftrightarrow> isLinkCertificate (re_ssl E) (Some c) \<and> tc_valid (chain_of E k c)"
  by (simp add: service_validateLinkCertificate_def chain_of_def Let_def)

section \<open>A revoked signer\<close>

definition demo_reval :: "(nat, nat, int, nat list, int, int) reval_env" where
  "demo_reval = \<lparr>re_ssl = demo_pki, re_crl_ssl = demo_crl_ssl, re_crls = Some (\<lambda>_. Some [0]), re_provider = (\<lambda>k. demo_provider),
     re_clock = (\<lambda>k n. 0), re_d2i = (\<lambda>bs. Some (unat (hd bs)))\<rparr>"

definition demo_dsc :: certificate_row where
  "demo_dsc = \<lparr>ct_id = ''c1'', ct_type = ''DSC'', ct_data = Some (CHR 0x5C # ''x00''), ct_status = ''UNKNOWN''\<rparr>"

definition demo_verdict :: verdict_row where
  "demo_verdict = \<lparr>vd_certificate = ''c1'', vd_status = ''PENDING'', vd_trustChainValid = False, vd_cscaFound = False,
     vd_signatureValid = False, vd_message = None, vd_cscaSubjectDn = None, vd_revocation = ''UNKNOWN'', vd_crlChecked = False\<rparr>"

lemma demo_revoked_valid:
  "vv_revoked (validateCertificate demo_reval 0 (Some 0)) \<and> vv_validationStatus (validateCertificate demo_reval 0 (Some 0)) = ''VALID''"
  by code_simp

lemma demo_selected: "findDscForRevalidation False (\<lambda>xs. xs) 50000 [demo_dsc] [demo_verdict] = [demo_dsc]"
  by (simp add: findDscForRevalidation_def awaits_csca_def demo_dsc_def demo_verdict_def)

lemma demo_rows: "snd (revalidate_rows demo_reval (\<lambda>_. False) 0 [demo_dsc] (revalidate_result0, [demo_verdict]))
    = [write_verdict (validateCertificate demo_reval 0 (Some 0)) demo_verdict]"
  by code_simp

lemma demo_run: "snd (revalidateDscCertificates demo_reval False (\<lambda>xs. xs) (\<lambda>_. False) [demo_dsc] [demo_verdict]) ! 0 \<noteq> [demo_verdict] ! 0"
  "vd_status (snd (revalidateDscCertificates demo_reval False (\<lambda>xs. xs) (\<lambda>_. False) [demo_dsc] [demo_verdict]) ! 0) \<noteq> ''INVALID''"
proof -
  have "vd_status (write_verdict (validateCertificate demo_reval 0 (Some 0)) demo_verdict) = ''VALID''"
    using demo_revoked_valid by (simp add: write_verdict_def)
  moreover have "vd_status demo_verdict = ''PENDING''" by (simp add: demo_verdict_def)
  ultimately show "snd (revalidateDscCertificates demo_reval False (\<lambda>xs. xs) (\<lambda>_. False) [demo_dsc] [demo_verdict]) ! 0 \<noteq> [demo_verdict] ! 0"
    "vd_status (snd (revalidateDscCertificates demo_reval False (\<lambda>xs. xs) (\<lambda>_. False) [demo_dsc] [demo_verdict]) ! 0) \<noteq> ''INVALID''"
    unfolding run_parts(1) demo_selected demo_rows by auto
qed

lemma revalidation_sound_witness:
  "\<exists>row c k ext. row \<in> set [demo_dsc] \<and> loaded demo_reval row = Some c \<and> signed_chain demo_pki (c # ext) \<and> set ext \<subseteq> provided demo_provider"
  using revalidation_sound [of "\<lambda>xs. xs" 0 "[demo_verdict]" _ demo_reval False "\<lambda>_. False" "[demo_dsc]", OF _ _ refl demo_run]
  by (auto simp: demo_reval_def)

lemma revalidation_exact_witness:
  "list_all2 (exactly demo_reval {c \<in> set [demo_dsc]. \<exists>v \<in> set [demo_verdict]. awaits_csca c v}) [demo_verdict]
      (snd (revalidateDscCertificates demo_reval False (\<lambda>xs. xs) (\<lambda>_. False) [demo_dsc] [demo_verdict]))"
  using revalidation_exact [of "\<lambda>xs. xs" "[demo_dsc]" "[demo_verdict]" demo_reval] by simp

end
