(* ===== verification/Spec2Isabelle.thy ===== *)
theory Spec2Isabelle
  imports Csca_Provider Pa_Service Auth_Middleware Reconciliation Ldif_Parser Progress Ldap_Storage Master_List_Facts Conn_Pool Lc_Validator
    Doc9303 Dl_Parser User_Accounts Revalidation
begin

text \<open>
  A model of the core of the ICAO Local PKD services, a set of C++ servers that collect the
  certificates, revocation lists and Master Lists of travel documents, keep them in a
  relational database and an LDAP directory, and verify passports against them.

  \<^bold>\<open>Parts and theories.\<close>
  \<^item> \<open>Prelude\<close>, \<open>Cpp_Numbers\<close>: what the sources use of the C++ library: results with exceptions
    (\<open>exn + 'a\<close>), \<^verbatim>\<open>std::string\<close> searches and \<^verbatim>\<open>substr\<close> with its exception, \<^verbatim>\<open>getline\<close>,
    character classes, decimal and hexadecimal conversions with their ranges.
  \<^item> \<open>Interfaces\<close>: the contracts shared by components as locales (codec, text codec, associative
    array, invariant of a transition system), \<^verbatim>\<open>std::map\<close> and \<^verbatim>\<open>Json::Value\<close>.
  \<^item> Verification library, \<^verbatim>\<open>src/shared/lib/icao-validation\<close>: \<open>Cert_Ops\<close> (cert_ops.cpp, types.h),
    \<open>Trust_Chain\<close> (trust_chain_builder.cpp), \<open>Compliance\<close> (extension_validator.cpp,
    algorithm_compliance.cpp, crl_checker.cpp); the CSCA and CRL providers of the services in
    \<open>Csca_Provider\<close>.
  \<^item> Passive Authentication, \<^verbatim>\<open>src/services/pa-service\<close> and \<^verbatim>\<open>src/shared/lib/icao9303\<close>:
    \<open>Sod_Asn1\<close> and \<open>Sod_Parser\<close> (sod_parser.cpp), \<open>Dg_Parser\<close> (dg_parser.cpp), \<open>Pa_Chain\<close>
    (certificate_validation_service.cpp), \<open>Pa_Service\<close> (pa_verification_service.cpp, the
    repositories' records).
  \<^item> Access control of \<^verbatim>\<open>src/services/pkd-management\<close>: \<open>Jwt\<close>, \<open>Credentials\<close>, \<open>Rate_Limiter\<close>,
    \<open>Access_Rules\<close> (endpoint patterns and network lists), \<open>Auth_Middleware\<close> (the request filters),
    \<open>User_Accounts\<close> (user_repository.cpp, the log of auth_audit_repository.cpp and the handlers of auth_handler.cpp for
    login, tokens, users and passwords).
  \<^item> Upload of \<^verbatim>\<open>src/services/pkd-management\<close>: \<open>Ldif_Parser\<close> (the reader of the upload in
    ldif_processor.cpp and the reader of the preview in common/ldif_parser.cpp), \<open>Icao_Status\<close>
    and \<open>Progress\<close> (common/progress_manager.cpp and the stream handler).
    \<open>Cert_Utils\<close> (common/certificate_utils.cpp, common/main_utils.cpp: Base64, UUIDs, country of a name, times),
    \<open>Upload_Verdict\<close> (parseCertificateEntry of ldif_processor.cpp: classification, verdict, statistics),
    \<open>Pg_Session\<close> (shared/lib/database: query_helpers.cpp and the batch mode of postgresql_query_executor.cpp,
    with the constraints of docker/init-scripts/01-core-schema.sql), \<open>Upload_Batch\<close> (parseCertificateEntry, parseCrlEntry
    and processEntries with the repositories they write through), \<open>Upload_Loss\<close> (what a batch leaves in tables and
    directory) and \<open>Upload_Session\<close> (what every statement keeps, a whole upload keeps).
    \<open>Master_List\<close> has the two readers of common/masterlist_processor.cpp on the same session, \<open>Master_List_Facts\<close> their properties.
    \<open>Lc_Validator\<close> is the validation of link certificates with its revocation check (common/lc_validator.cpp,
    common/crl_validator.cpp), against the columns of the schema.
    \<open>Revalidation\<close> is the validation service (services/validation_service.cpp): the verdict on a stored certificate and the
    re-validation of the DSCs without a CSCA.
    \<open>Doc9303\<close> is the per item checklist of the preview (common/doc9303_checklist.cpp), set against \<open>Icao_Status\<close>.
  \<^item> Certificate files, \<^verbatim>\<open>src/shared/lib/certificate-parser\<close>: \<open>Cert_Files\<close> (format detection, PEM, DER, the type of a certificate,
    the single certificate validator) and \<open>Dl_Parser\<close> (Deviation Lists, over an explicit memory).
  \<^item> Shared: \<open>Conn_Pool\<close> (db_connection_pool.cpp and ldap_connection_pool.cpp, their threads as a step relation).
  \<^item> Directory: \<open>Dn_Names\<close> (common-lib dn_parser.cpp and dn_components.cpp, the escaping of ldap_utils.h)
    and \<open>Ldap_Storage\<close> (ldap_storage_service.cpp), on the server of \<open>Ldap_Operations\<close>.
  \<^item> Synchronisation, \<^verbatim>\<open>src/services/pkd-relay-service\<close>: \<open>Ldap_Operations\<close> (ldap_operations.cpp)
    and \<open>Reconciliation\<close> (reconciliation_engine.cpp).

  \<^bold>\<open>How state and operations correspond.\<close>  A class is a record with its fields, an operation takes
  and returns the record; what an operation reads of its surroundings (a clock, a database answer,
  OpenSSL, the LDAP library, the JSON writer) is an argument, given the meaning its documentation
  promises by a predicate such as \<open>ldap_laws\<close>.  An exception is \<^term>\<open>Inl\<close>, a missing value is
  \<^term>\<open>None\<close>.  Pointers appear where the sources depend on them: the double-free check of the
  trust chain builder counts the certificates it owns, and the DER reader computes with
  64-bit addresses.  Threads are the step relation \<open>sse_step\<close>, one step per critical section or
  call.  The SQL statements of the reconciliation act on lists of rows, each with a failure of its own.

  \<^bold>\<open>What the lemmas show.\<close>  Each component has the lemmas on its operations and then its properties.
  \<open>pa_end_to_end\<close> below composes the DER reader, the chain validation and the verdict;
  \<open>issued_token_access\<close> composes token generation with both filters; \<open>reconciliation_refines\<close>
  is a refinement of an abstract specification on directory and tables; \<open>master_list_batch\<close> and \<open>certificate_stored\<close>
  compose the verdict, the repositories, the executor and the directory;
  \<open>reconciliation_completes\<close>, \<open>reconciliation_starves\<close> and \<open>sse_delivery\<close> are liveness statements.
  \<open>accounts_change_guarded\<close> is a refinement of the specification \<open>allowed_change\<close> of who may change which account.
  Properties that state a defect of the code say so in their text.

  \<^bold>\<open>Bounds and fuel.\<close>  Loops are structural or come with a termination proof, with two exceptions.
  The walk up the chain follows the source's own depth bound.  The loop over the data group hashes of a
  SOD can run forever (\<open>lds_reader_diverges\<close>); it has fuel, which counts its iterations, and
  \<open>lds_roundtrip\<close> shows that the number of entries is enough on every well-formed object.

  Machine integers wrap where a result depends on it: the pointers of the DER reader, and the conversion of the expiry of a
  token to 64-bit nanoseconds (\<open>from_time_t\<close>, \<open>wrapped_expiry_accepted\<close>).

  \<^bold>\<open>What is assumed of the servers.\<close>  A database statement that is refused, a \<^verbatim>\<open>COMMIT\<close> too, had no
  effect (\<open>pg_laws\<close>): a server whose reply is lost after the statement took effect is not covered.  Entries of the directory
  are found by the exact text of their name (\<open>ldap_laws\<close>, \<open>ldap_store_laws\<close>), which is enough for the names the program
  builds itself; a server also matches names that differ in case or spacing.  An addition that fails for another reason than an
  existing entry may or may not have added it.

  \<^bold>\<open>Not modelled.\<close>  The other HTTP handlers, the queries of the read pages and the Oracle executor, which move values
  between the web framework, JSON and SQL (the repository operations of an upload are modelled, for PostgreSQL); configuration and start-up; mail and other network clients;
  the vendored OTL header; the Python service and the browser front end; logging.  Of OpenSSL, libldap,
  jsoncpp and drogon only what the modelled code relies on appears, as arguments.
\<close>

section \<open>Passive Authentication end to end\<close>

text \<open>C1. Passive Authentication from the bytes of the SOD: let its CMS structure carry an
  LDSSecurityObject with the hashes \<open>es\<close> and a certificate, and let the request present the data
  groups \<open>dgs\<close>, keyed by their decimal numbers.  The status saved is \<^verbatim>\<open>VALID\<close> exactly when
  the chain of that certificate is valid at the SOD's signing time, the SOD signature check passes, and
  every presented data group has in \<open>es\<close> the digest of its content under the SOD's hash
  algorithm.\<close>

theorem pa_end_to_end:
  assumes cms: "parse_cms (ps_cms S) (rq_sodData rq) = Some cms"
    and content: "CMS_get0_content (ps_cms S) cms = Some (p, lds_enc ver alg es trailer)"
    and enc: "length (lds_enc ver alg es trailer) < 65536" "buf_ok p (lds_enc ver alg es trailer)"
      "length es \<le> fuel" "distinct (map fst es)" "\<forall>e \<in> set es. fst e < 128 \<and> length (snd e) < 60000"
    and dsc: "extractDscCertificate (ps_cms S) (rq_sodData rq) = Some dsc"
    and dgs: "rq_dataGroups rq = map (\<lambda>(n, d). (nat_dec n, d)) dgs" "length dgs < 2 ^ 31"
    and md: "md_of_name (extractHashAlgorithm (ps_cms S) (rq_sodData rq)) = Some m"
      "\<And>d. ps_digest S m d \<noteq> []"
    and env: "ps_sha256 S (rq_sodData rq) = Some h" "\<And>v. \<exists>i. ps_insert S v = Inr i"
  shows "\<exists>resp v eff. verifyPassiveAuthentication fuel S rq = Ok (resp, Save_Verification v # eff)
    \<and> pv_verificationStatus v =
        (if cv_valid (validateCertificateChain (ps_env S) (Some dsc) (rq_countryCode rq)
               (extractSigningTime (pe_ssl (ps_env S)) (ps_cms S) (rq_sodData rq)))
            \<and> verifySodSignature (ps_cms S) (rq_sodData rq) (Some dsc)
            \<and> (\<forall>(n, d) \<in> set dgs. map_of es n = Some (ps_digest S m d))
         then ''VALID'' else ''INVALID'')"
proof (rule parse_sod_enc [OF cms content enc, of "ps_what S" "pe_ssl (ps_env S)"])
  fix s
  assume s: "parseSod fuel (ps_what S) (pe_ssl (ps_env S)) (ps_cms S) (rq_sodData rq) = Ok s"
    "sd_parsingSuccess s" "sd_dscCertificate s = extractDscCertificate (ps_cms S) (rq_sodData rq)"
    "sd_hashAlgorithm s = extractHashAlgorithm (ps_cms S) (rq_sodData rq)"
    "sd_signingTime s = extractSigningTime (pe_ssl (ps_env S)) (ps_cms S) (rq_sodData rq)"
    "\<And>n. getDataGroupHash s (nat_dec n) = (case map_of es n of Some h \<Rightarrow> bytes_hex h | None \<Rightarrow> [])"
  have "group_ok (ps_digest S) s (nat_dec n, d) \<longleftrightarrow> map_of es n = Some (ps_digest S m d)" for n d
    using md by (auto simp: group_ok_def s(4,6) computeHash_def bytes_hex_not_Nil split: option.split)
  then have g: "(\<forall>g \<in> set (rq_dataGroups rq). group_ok (ps_digest S) s g)
      \<longleftrightarrow> (\<forall>(n, d) \<in> set dgs. map_of es n = Some (ps_digest S m d))"
    by (auto simp: dgs(1))
  have "sd_dscCertificate s = Some dsc" "length (rq_dataGroups rq) < 2 ^ 31"
    using s(3) dsc dgs by simp_all
  then show ?thesis
  proof (rule verify_saved [OF s(1,2) _ env], goal_cases)
    case (1 resp i err eff)
    then show ?case by (intro exI conjI) (assumption, simp only: verification_status g s(5))
  qed
qed

lemma pa_end_to_end_witness:
  "\<exists>resp v eff. verifyPassiveAuthentication 1 demo_services (demo_request [0xBB])
      = Ok (resp, Save_Verification v # eff) \<and> pv_verificationStatus v = ''VALID''"
proof -
  have st: "extractSigningTime (pe_ssl (ps_env demo_services)) (ps_cms demo_services) (tlv 0x77 demo_lds1) = []"
    by (simp add: extractSigningTime_def demo_signer) (simp add: demo_services_def)
  have "ps_env demo_services = demo_pa_env" by (simp add: demo_services_def)
  then have v: "cv_valid (validateCertificateChain (ps_env demo_services) (Some 0)
        (rq_countryCode (demo_request [0xBB]))
        (extractSigningTime (pe_ssl (ps_env demo_services)) (ps_cms demo_services)
          (rq_sodData (demo_request [0xBB]))))"
    "verifySodSignature (ps_cms demo_services) (rq_sodData (demo_request [0xBB])) (Some 0)"
    using st demo_chain_valid demo_signature by (simp_all add: demo_request_def)
  have "\<exists>resp v eff. verifyPassiveAuthentication 1 demo_services (demo_request [0xBB])
      = Ok (resp, Save_Verification v # eff)
    \<and> pv_verificationStatus v =
        (if cv_valid (validateCertificateChain (ps_env demo_services) (Some 0)
              (rq_countryCode (demo_request [0xBB]))
              (extractSigningTime (pe_ssl (ps_env demo_services)) (ps_cms demo_services)
                (rq_sodData (demo_request [0xBB]))))
            \<and> verifySodSignature (ps_cms demo_services) (rq_sodData (demo_request [0xBB])) (Some 0)
            \<and> (\<forall>(n, d) \<in> set [(1 :: nat, [0xBB])].
                 map_of [(1, [0x01, 0xBB])] n = Some (ps_digest demo_services MD_SHA256 d))
         then ''VALID'' else ''INVALID'')"
  proof (rule pa_end_to_end [where cms = demo_lds1 and p = "0x1000" and ver = 0
        and alg = "[0x06, 0x01, 0x05]" and trailer = "[]" and h = "[0xAB]"])
    show "parse_cms (ps_cms demo_services) (rq_sodData (demo_request [0xBB])) = Some demo_lds1"
      using demo_parse_cms by (simp add: demo_request_def)
    show "extractDscCertificate (ps_cms demo_services) (rq_sodData (demo_request [0xBB])) = Some 0"
      by (simp add: demo_request_def demo_certificate)
    show "md_of_name (extractHashAlgorithm (ps_cms demo_services) (rq_sodData (demo_request [0xBB])))
        = Some MD_SHA256"
      by (simp add: demo_request_def demo_hash_algorithm md_of_name_def)
    show "rq_dataGroups (demo_request [0xBB]) = map (\<lambda>(n, d). (nat_dec n, d)) [(1, [0xBB])]"
      by (simp add: demo_request_def nat_dec.simps char_of_def bit_0)
  qed (simp_all add: demo_services_def demo_cms_def demo_lds1_def buf_ok_def lds_enc_def tlv_def
      dg_enc_def der_enc_def)
  then show ?thesis using v by (simp add: demo_services_def)
qed

end
